(* ===== verification/Prelude.thy ===== *)
theory Prelude
  imports Main "HOL-Library.Product_Lexorder"
begin

text \<open>
  The vocabulary shared by every component of the StellarSwipe development:
  \<^item> Rust's fixed-width integers: \<open>i128\<close> as \<^typ>\<open>int\<close> with the checked, saturating and
    truncating operations written out, \<open>u64\<close> and \<open>u32\<close> as \<^typ>\<open>nat\<close> with their saturating
    addition (saturating subtraction is the subtraction of \<^typ>\<open>nat\<close>);
  \<^item> Soroban's ordered \<open>Map\<close> as an association list sorted by key;
  \<^item> fallible, state-passing computations: a Rust \<open>Result\<close> or a host trap, paired with the
    storage at the point where the computation stopped.
\<close>

type_synonym addr = nat
type_synonym symbol = string

named_theorems arith_defs \<open>definitions of the fixed-width operations\<close>
named_theorems smap_simps \<open>lookups, invariants and sums of ordered maps\<close>
named_theorems res_simps \<open>sequencing of fallible computations\<close>

section \<open>Fixed-width integers\<close>

definition i128_max :: int where
  "i128_max = 170141183460469231731687303715884105727"

definition i128_min :: int where
  "i128_min = - 170141183460469231731687303715884105728"

definition in_i128 :: "int \<Rightarrow> bool" where
  "in_i128 x \<longleftrightarrow> i128_min \<le> x \<and> x \<le> i128_max"

definition checked_add :: "int \<Rightarrow> int \<Rightarrow> int option" where
  "checked_add a b = (if in_i128 (a + b) then Some (a + b) else None)"

definition checked_sub :: "int \<Rightarrow> int \<Rightarrow> int option" where
  "checked_sub a b = (if in_i128 (a - b) then Some (a - b) else None)"

definition checked_mul :: "int \<Rightarrow> int \<Rightarrow> int option" where
  "checked_mul a b = (if in_i128 (a * b) then Some (a * b) else None)"

text \<open>Signed division of Rust truncates towards zero.\<close>

definition tdiv :: "int \<Rightarrow> int \<Rightarrow> int" where
  "tdiv a b = sgn a * sgn b * (\<bar>a\<bar> div \<bar>b\<bar>)"

definition tmod :: "int \<Rightarrow> int \<Rightarrow> int" where
  "tmod a b = a - b * tdiv a b"

definition checked_div :: "int \<Rightarrow> int \<Rightarrow> int option" where
  "checked_div a b = (if b = 0 \<or> \<not> in_i128 (tdiv a b) then None else Some (tdiv a b))"

definition sat_i128 :: "int \<Rightarrow> int" where
  "sat_i128 x = max i128_min (min i128_max x)"

definition saturating_add :: "int \<Rightarrow> int \<Rightarrow> int" where
  "saturating_add a b = sat_i128 (a + b)"

definition saturating_sub :: "int \<Rightarrow> int \<Rightarrow> int" where
  "saturating_sub a b = sat_i128 (a - b)"

definition u32_max :: nat where "u32_max = 4294967295"
definition u64_max :: nat where "u64_max = 18446744073709551615"

definition u32_sat_add :: "nat \<Rightarrow> nat \<Rightarrow> nat" where
  "u32_sat_add a b = min (a + b) u32_max"

definition u64_sat_add :: "nat \<Rightarrow> nat \<Rightarrow> nat" where
  "u64_sat_add a b = min (a + b) u64_max"

definition u32_sat_mul :: "nat \<Rightarrow> nat \<Rightarrow> nat" where
  "u32_sat_mul a b = min (a * b) u32_max"

definition u64_checked_add :: "nat \<Rightarrow> nat \<Rightarrow> nat option" where
  "u64_checked_add a b = (if a + b \<le> u64_max then Some (a + b) else None)"

text \<open>The cast of a \<open>u64\<close> or an \<open>i128\<close> to \<open>u32\<close> keeps the low 32 bits.\<close>

definition as_u32 :: "nat \<Rightarrow> nat" where
  "as_u32 n = n mod 4294967296"

definition i128_as_u32 :: "int \<Rightarrow> nat" where
  "i128_as_u32 x = nat (x mod 4294967296)"

lemmas fixed_width_defs [arith_defs] =
  in_i128_def i128_max_def i128_min_def sat_i128_def saturating_add_def saturating_sub_def
  checked_add_def checked_sub_def checked_mul_def u32_sat_add_def u64_sat_add_def
  u32_max_def u64_max_def

lemma checked_add_Some [simp]: "checked_add a b = Some c \<longleftrightarrow> c = a + b \<and> in_i128 (a + b)"
  by (auto simp: checked_add_def)

lemma checked_sub_Some [simp]: "checked_sub a b = Some c \<longleftrightarrow> c = a - b \<and> in_i128 (a - b)"
  by (auto simp: checked_sub_def)

lemma checked_mul_Some [simp]: "checked_mul a b = Some c \<longleftrightarrow> c = a * b \<and> in_i128 (a * b)"
  by (auto simp: checked_mul_def)

lemma checked_add_None: "checked_add a b = None \<longleftrightarrow> \<not> in_i128 (a + b)"
  by (auto simp: checked_add_def)

lemma checked_sub_None: "checked_sub a b = None \<longleftrightarrow> \<not> in_i128 (a - b)"
  by (auto simp: checked_sub_def)

lemma checked_mul_None: "checked_mul a b = None \<longleftrightarrow> \<not> in_i128 (a * b)"
  by (auto simp: checked_mul_def)

lemma tdiv_nonneg: "0 \<le> a \<Longrightarrow> 0 < b \<Longrightarrow> tdiv a b = a div b"
  by (cases "a = 0") (auto simp: tdiv_def sgn_if)

lemma tmod_nonneg: "0 \<le> a \<Longrightarrow> 0 < b \<Longrightarrow> tmod a b = a mod b"
  by (simp add: tmod_def tdiv_nonneg minus_mult_div_eq_mod)

lemma div_floor:
  fixes x c :: int
  assumes "0 < c"
  shows "c * (x div c) \<le> x" "x < c * (x div c) + c"
  using assms pos_mod_sign [of c x] pos_mod_bound [of c x] by (auto simp: minus_mod_eq_mult_div [symmetric])

lemma sat_i128_id: "in_i128 x \<Longrightarrow> sat_i128 x = x"
  by (simp add: sat_i128_def in_i128_def)

lemma in_i128_sat [simp]: "in_i128 (sat_i128 x)"
  by (auto simp: arith_defs)

lemma in_i128_0 [simp]: "in_i128 0"
  by (simp add: arith_defs)

lemma in_i128_between: "in_i128 b \<Longrightarrow> 0 \<le> x \<Longrightarrow> x \<le> b \<Longrightarrow> in_i128 x"
  by (auto simp: arith_defs)

lemma saturating_add_exact: "in_i128 (a + b) \<Longrightarrow> saturating_add a b = a + b"
  by (simp add: saturating_add_def sat_i128_id)

lemma saturating_sub_exact: "in_i128 (a - b) \<Longrightarrow> saturating_sub a b = a - b"
  by (simp add: saturating_sub_def sat_i128_id)

lemma saturating_add_nonneg: "0 \<le> a \<Longrightarrow> 0 \<le> b \<Longrightarrow> 0 \<le> saturating_add a b"
  by (auto simp: arith_defs)

lemma u64_sat_add_le: "u64_sat_add a b \<le> a + b"
  by (simp add: u64_sat_add_def)

lemma u32_sat_add_le: "u32_sat_add a b \<le> a + b"
  by (simp add: u32_sat_add_def)

section \<open>Ordered maps\<close>

text \<open>
  \<open>soroban_sdk::Map\<close> and the host's keyed storage: entries sorted by key, at most one per key.
  \<open>set\<close> replaces the entry of the key or inserts it in order, \<open>remove\<close> drops it.
\<close>

type_synonym ('k, 'v) smap = "('k \<times> 'v) list"

fun sset :: "'k::linorder \<Rightarrow> 'v \<Rightarrow> ('k, 'v) smap \<Rightarrow> ('k, 'v) smap" where
  "sset k v [] = [(k, v)]"
| "sset k v ((a, b) # m) =
     (if k < a then (k, v) # (a, b) # m
      else if k = a then (k, v) # m
      else (a, b) # sset k v m)"

definition sdel :: "'k \<Rightarrow> ('k, 'v) smap \<Rightarrow> ('k, 'v) smap" where
  "sdel k m = filter (\<lambda>p. fst p \<noteq> k) m"

abbreviation sget :: "('k, 'v) smap \<Rightarrow> 'k \<Rightarrow> 'v option" where
  "sget m k \<equiv> map_of m k"

definition sget_or :: "'v \<Rightarrow> ('k, 'v) smap \<Rightarrow> 'k \<Rightarrow> 'v" where
  "sget_or d m k = (case sget m k of None \<Rightarrow> d | Some v \<Rightarrow> v)"

definition swf :: "('k::linorder, 'v) smap \<Rightarrow> bool" where
  "swf m \<longleftrightarrow> sorted_wrt (<) (map fst m)"

definition ssum :: "('k \<Rightarrow> 'v \<Rightarrow> int) \<Rightarrow> ('k, 'v) smap \<Rightarrow> int" where
  "ssum f m = sum_list (map (\<lambda>(k, v). f k v) m)"

definition opt_or :: "'v \<Rightarrow> 'v option \<Rightarrow> 'v" where
  "opt_or d x = (case x of None \<Rightarrow> d | Some v \<Rightarrow> v)"

lemma opt_or_simps [simp]: "opt_or d None = d" "opt_or d (Some v) = v"
  by (simp_all add: opt_or_def)

lemma sget_sset [simp, smap_simps]: "sget (sset k v m) = (sget m)(k \<mapsto> v)"
  by (induction k v m rule: sset.induct) (auto simp: fun_eq_iff)

lemma sget_sdel [simp, smap_simps]: "sget (sdel k m) = (sget m)(k := None)"
  by (induction m) (auto simp: sdel_def fun_eq_iff)

lemma sget_or_sset [simp, smap_simps]:
  "sget_or d (sset k v m) j = (if j = k then v else sget_or d m j)"
  by (simp add: sget_or_def)

lemma sget_or_sdel [simp, smap_simps]:
  "sget_or d (sdel k m) j = (if j = k then d else sget_or d m j)"
  by (simp add: sget_or_def)

lemma sget_or_Nil [simp, smap_simps]: "sget_or d [] j = d"
  by (simp add: sget_or_def)

lemma sget_or_Some: "sget m k = Some v \<Longrightarrow> sget_or d m k = v"
  by (simp add: sget_or_def)

lemma keys_sset [smap_simps]: "fst ` set (sset k v m) = insert k (fst ` set m)"
  by (induction k v m rule: sset.induct) auto

lemma keys_sdel [smap_simps]: "fst ` set (sdel k m) = fst ` set m - {k}"
  by (auto simp: sdel_def)

lemma swf_Nil [simp]: "swf []"
  by (simp add: swf_def)

lemma swf_Cons: "swf ((a, b) # m) \<longleftrightarrow> (\<forall>k \<in> fst ` set m. a < k) \<and> swf m"
  by (auto simp: swf_def)

lemma swf_sset [simp, intro]: "swf m \<Longrightarrow> swf (sset k v m)"
  by (induction k v m rule: sset.induct) (auto simp: swf_Cons keys_sset)

lemma swf_sdel [simp, intro]: "swf m \<Longrightarrow> swf (sdel k m)"
proof (induction m)
  case (Cons p m)
  then show ?case
    by (cases p) (auto simp: swf_Cons sdel_def)
qed (simp add: sdel_def)

lemma swf_distinct: "swf m \<Longrightarrow> distinct (map fst m)"
  by (simp add: swf_def strict_sorted_iff)

lemma sget_mem: "swf m \<Longrightarrow> sget m k = Some v \<longleftrightarrow> (k, v) \<in> set m"
  by (simp add: swf_distinct)

lemma ssum_Nil [simp]: "ssum f [] = 0"
  by (simp add: ssum_def)

lemma ssum_Cons [simp]: "ssum f ((k, v) # m) = f k v + ssum f m"
  by (simp add: ssum_def)

lemma ssum_sset:
  "swf m \<Longrightarrow> ssum f (sset k v m) = ssum f m - opt_or 0 (map_option (f k) (sget m k)) + f k v"
proof (induction k v m rule: sset.induct)
  case (2 k v a b m)
  have "sget m k = None" if "k < a"
    using "2.prems" that by (force simp: swf_Cons map_of_eq_None_iff)
  with 2 show ?case by (auto simp: swf_Cons)
qed simp

lemma sdel_absent: "k \<notin> fst ` set m \<Longrightarrow> sdel k m = m"
  by (force simp: sdel_def filter_id_conv)

lemma ssum_sdel: "swf m \<Longrightarrow> ssum f (sdel k m) = ssum f m - opt_or 0 (map_option (f k) (sget m k))"
proof (induction m)
  case (Cons p m)
  then have IH: "ssum f (sdel k m) = ssum f m - opt_or 0 (map_option (f k) (sget m k))"
    by (cases p) (simp add: swf_Cons)
  have "sdel k m = m" if "fst p = k"
    using Cons.prems that by (cases p) (auto simp: swf_Cons intro!: sdel_absent)
  with IH show ?case
    by (cases p) (auto simp: sdel_def)
qed (simp add: sdel_def)

lemma ssum_split:
  "swf m \<Longrightarrow> ssum f m = opt_or 0 (map_option (f k) (sget m k)) + ssum f (sdel k m)"
  by (simp add: ssum_sdel)

lemma ssum_cong: "(\<And>k v. (k, v) \<in> set m \<Longrightarrow> f k v = g k v) \<Longrightarrow> ssum f m = ssum g m"
  by (induction m) auto

lemma ssum_nonneg: "(\<And>k v. (k, v) \<in> set m \<Longrightarrow> 0 \<le> f k v) \<Longrightarrow> 0 \<le> ssum f m"
proof (induction m)
  case (Cons p m)
  then show ?case by (cases p) (simp add: add_nonneg_nonneg)
qed simp

lemma ssum_mono: "(\<And>k v. (k, v) \<in> set m \<Longrightarrow> f k v \<le> g k v) \<Longrightarrow> ssum f m \<le> ssum g m"
proof (induction m)
  case (Cons p m)
  then show ?case by (cases p) (simp add: add_mono)
qed simp

lemma ssum_member_le:
  assumes "swf m" "\<And>k v. (k, v) \<in> set m \<Longrightarrow> 0 \<le> f k v" "sget m k = Some v"
  shows "f k v \<le> ssum f m"
proof -
  have "0 \<le> ssum f (sdel k m)"
    using assms(2) by (intro ssum_nonneg) (auto simp: sdel_def)
  with ssum_split [OF assms(1), of f k] assms(3) show ?thesis by simp
qed

lemma ssum_mult: "ssum (\<lambda>k v. c * f k v) m = c * ssum f m"
  by (induction m) (auto simp: algebra_simps)

lemma ssum_add: "ssum (\<lambda>k v. f k v + g k v) m = ssum f m + ssum g m"
  by (induction m) (auto simp: algebra_simps)

text \<open>
  Counters of which an absent entry is zero: \<open>sput\<close> removes an entry that becomes zero.
\<close>

definition sput :: "'k::linorder \<Rightarrow> int \<Rightarrow> ('k, int) smap \<Rightarrow> ('k, int) smap" where
  "sput k v m = (if v = 0 then sdel k m else sset k v m)"

definition sall :: "('k \<Rightarrow> 'v \<Rightarrow> bool) \<Rightarrow> ('k, 'v) smap \<Rightarrow> bool" where
  "sall P m \<longleftrightarrow> (\<forall>k v. sget m k = Some v \<longrightarrow> P k v)"

lemma sget_or_sput [simp, smap_simps]: "sget_or 0 (sput k v m) j = (if j = k then v else sget_or 0 m j)"
  by (simp add: sput_def)

lemma swf_sput [simp, intro]: "swf m \<Longrightarrow> swf (sput k v m)"
  by (simp add: sput_def)

lemma ssum_sput:
  assumes "swf m" "f k 0 = 0"
  shows "ssum f (sput k v m) = ssum f m - f k (sget_or 0 m k) + f k v"
  using assms by (cases "sget m k") (auto simp: sput_def ssum_sset ssum_sdel sget_or_def)

lemma sdel_sput [simp]: "swf m \<Longrightarrow> sdel k (sput k v m) = sdel k m"
proof -
  have "sdel k (sset k v m) = sdel k m" if "swf m" for m :: "('a, int) smap"
    using that by (induction k v m rule: sset.induct) (auto simp: sdel_def swf_Cons)
  then show "swf m \<Longrightarrow> sdel k (sput k v m) = sdel k m" by (simp add: sput_def sdel_def)
qed

lemma sall_Nil [simp]: "sall P []"
  by (simp add: sall_def)

lemma sall_sset [simp, intro]: "sall P m \<Longrightarrow> P k v \<Longrightarrow> sall P (sset k v m)"
  by (simp add: sall_def)

lemma sall_sdel [simp, intro]: "sall P m \<Longrightarrow> sall P (sdel k m)"
  by (simp add: sall_def)

lemma sall_sput [intro]: "sall P m \<Longrightarrow> (v \<noteq> 0 \<Longrightarrow> P k v) \<Longrightarrow> sall P (sput k v m)"
  by (simp add: sput_def)

lemma sall_mem: "swf m \<Longrightarrow> sall P m \<longleftrightarrow> (\<forall>(k, v) \<in> set m. P k v)"
  by (auto simp: sall_def sget_mem)

lemma sall_sget_or: "sall (\<lambda>_ v. 0 \<le> v) m \<Longrightarrow> 0 \<le> sget_or (0::int) m k"
  by (auto simp: sall_def sget_or_def split: option.splits)

section \<open>Fallible computations\<close>

text \<open>
  \<open>Ok\<close> and \<open>Err\<close> are Rust's \<open>Result\<close>; \<open>Panic\<close> is a trap of the host (a failed
  \<open>require_auth\<close>, an \<open>expect\<close>, an arithmetic overflow: the release profile keeps
  \<open>overflow-checks\<close> on). A step of a contract returns the outcome together with the storage at
  the point where it stopped, since a caller that catches an \<open>Err\<close> keeps the writes made before
  it.
\<close>

datatype ('e, 'a) res = Ok 'a | Err 'e | Panic

type_synonym ('s, 'e, 'a) outcome = "('e, 'a) res \<times> 's"

text \<open>The \<open>?\<close> operator: go on with the value, or return the failure with the storage so far.\<close>

fun and_then ::
  "('s, 'e, 'a) outcome \<Rightarrow> ('a \<Rightarrow> 's \<Rightarrow> ('s, 'e, 'b) outcome) \<Rightarrow> ('s, 'e, 'b) outcome" where
  "and_then (Ok a, s) k = k a s"
| "and_then (Err e, s) k = (Err e, s)"
| "and_then (Panic, s) k = (Panic, s)"

fun res_then :: "('e, 'a) res \<Rightarrow> ('a \<Rightarrow> ('e, 'b) res) \<Rightarrow> ('e, 'b) res" where
  "res_then (Ok a) k = k a"
| "res_then (Err e) k = Err e"
| "res_then Panic k = Panic"

fun map_err :: "('d \<Rightarrow> 'e) \<Rightarrow> ('d, 'a) res \<Rightarrow> ('e, 'a) res" where
  "map_err f (Ok a) = Ok a"
| "map_err f (Err e) = Err (f e)"
| "map_err f Panic = Panic"

fun ok_or :: "'e \<Rightarrow> 'a option \<Rightarrow> ('e, 'a) res" where
  "ok_or e None = Err e"
| "ok_or e (Some a) = Ok a"

text \<open>
  What the host does with the result of an invocation: a failed call leaves the storage as it was.
\<close>

fun commit :: "'s \<Rightarrow> ('s, 'e, 'a) outcome \<Rightarrow> ('s, 'e, 'a) outcome" where
  "commit s (Ok a, t) = (Ok a, t)"
| "commit s (Err e, t) = (Err e, s)"
| "commit s (Panic, t) = (Panic, s)"

text \<open>A \<open>for\<close> loop whose body may return early.\<close>

fun for_each :: "('x \<Rightarrow> 's \<Rightarrow> ('s, 'e, unit) outcome) \<Rightarrow> 'x list \<Rightarrow> 's \<Rightarrow> ('s, 'e, unit) outcome" where
  "for_each f [] s = (Ok (), s)"
| "for_each f (x # xs) s = and_then (f x s) (\<lambda>_. for_each f xs)"

lemma and_then_Ok [res_simps]:
  "and_then m k = (Ok b, t) \<longleftrightarrow> (\<exists>a s. m = (Ok a, s) \<and> k a s = (Ok b, t))"
  by (cases "(m, k)" rule: and_then.cases) auto

lemma res_then_Ok [res_simps]: "res_then m k = Ok b \<longleftrightarrow> (\<exists>a. m = Ok a \<and> k a = Ok b)"
  by (cases m) auto

lemma map_err_Ok [res_simps]: "map_err f m = Ok a \<longleftrightarrow> m = Ok a"
  by (cases m) auto

lemma map_err_Err [res_simps]: "map_err f m = Err e \<longleftrightarrow> (\<exists>d. m = Err d \<and> e = f d)"
  by (cases m) auto

lemma call_then_Ok [res_simps]:
  "(case m of (r, w) \<Rightarrow> and_then (map_err f r, g w) k) = (Ok v, t) \<longleftrightarrow>
   (\<exists>u w. m = (Ok u, w) \<and> k u (g w) = (Ok v, t))"
  by (cases m) (auto simp: and_then_Ok map_err_Ok)

lemma ok_or_Ok [res_simps]: "ok_or e x = Ok a \<longleftrightarrow> x = Some a"
  by (cases x) auto

lemma commit_Ok [res_simps]: "commit s m = (Ok a, t) \<longleftrightarrow> m = (Ok a, t)"
  by (cases "(s, m)" rule: commit.cases) auto

lemma commit_failed: "commit s m = (r, t) \<Longrightarrow> (\<And>a. r \<noteq> Ok a) \<Longrightarrow> t = s"
  by (cases "(s, m)" rule: commit.cases) auto

lemma commit_inv:
  assumes "P s" "\<And>a t. m = (Ok a, t) \<Longrightarrow> P t"
  shows "P (snd (commit s m))"
  using assms by (cases "(s, m)" rule: commit.cases) auto

text \<open>
  A part of the state as a state of its own: the computation runs on the part and the result is
  written back.
\<close>

definition zoom ::
  "('s \<Rightarrow> 'x) \<Rightarrow> ('x \<Rightarrow> 's \<Rightarrow> 's) \<Rightarrow> ('x \<Rightarrow> ('x, 'e, 'a) outcome) \<Rightarrow> 's \<Rightarrow> ('s, 'e, 'a) outcome" where
  "zoom get put f s = (case f (get s) of (r, x) \<Rightarrow> (r, put x s))"

lemma zoom_eq [res_simps]: "zoom get put f s = (r, t) \<longleftrightarrow> (\<exists>x. f (get s) = (r, x) \<and> t = put x s)"
  by (auto simp: zoom_def split: prod.splits)

text \<open>
  An invariant that every iteration keeps is kept by the loop, whatever the outcome.
\<close>

lemma for_each_invariant:
  assumes "\<And>x s r t. x \<in> set xs \<Longrightarrow> P s \<Longrightarrow> f x s = (r, t) \<Longrightarrow> P t" "P s" "for_each f xs s = (r, t)"
  shows "P t"
  using assms
proof (induction xs arbitrary: s)
  case (Cons x xs)
  obtain r1 s1 where fx: "f x s = (r1, s1)" by (cases "f x s")
  with Cons.prems have "P s1" by (meson list.set_intros(1))
  show ?case
  proof (cases r1)
    case (Ok a)
    with fx Cons.prems(3) have "for_each f xs s1 = (r, t)" by simp
    with \<open>P s1\<close> show ?thesis
      using Cons.IH Cons.prems(1) by (meson list.set_intros(2))
  qed (use fx \<open>P s1\<close> Cons.prems(3) in auto)
qed simp

section \<open>Invariants of transition systems\<close>

text \<open>
  The interface between a component's operations and the proofs about whole histories: a
  component names its operations, says how each changes the state, and proves that every one of
  them keeps the invariant. Every history of operations then keeps it, and what the invariant gives
  (\<open>safe\<close>) holds at every point of the history.
\<close>

locale invariant_system =
  fixes step :: "'o \<Rightarrow> 's \<Rightarrow> 's"
    and inv :: "'s \<Rightarrow> bool"
    and safe :: "'s \<Rightarrow> bool"
  assumes step_inv: "inv s \<Longrightarrow> inv (step o1 s)"
    and inv_safe: "inv s \<Longrightarrow> safe s"
begin

lemma run_inv: "inv s \<Longrightarrow> inv (fold step ops s)"
  by (induction ops arbitrary: s) (auto intro: step_inv)

lemma run_safe: "inv s \<Longrightarrow> safe (fold step ops s)"
  by (blast intro: run_inv inv_safe)

lemma run_prefix_safe: "inv s \<Longrightarrow> safe (fold step (take n ops) s)"
  by (rule run_safe)

end

text \<open>
  A quantity that no operation decreases (an identifier counter, an epoch, a lifetime total) is
  never smaller after a history than at any earlier point of it.
\<close>

locale monotone_system = invariant_system step inv safe
  for step :: "'o \<Rightarrow> 's \<Rightarrow> 's" and inv and safe +
  fixes level :: "'s \<Rightarrow> int"
  assumes step_level: "inv s \<Longrightarrow> level s \<le> level (step o1 s)"
begin

lemma run_level: "inv s \<Longrightarrow> level s \<le> level (fold step ops s)"
proof (induction ops arbitrary: s)
  case (Cons o1 ops)
  have "level s \<le> level (step o1 s)" using Cons.prems by (rule step_level)
  also have "\<dots> \<le> level (fold step ops (step o1 s))"
    using Cons step_inv by blast
  finally show ?case by simp
qed simp

end

text \<open>
  Operations with a side condition on the state they run in: the states reachable from a start by
  enabled operations, and the invariants that every enabled operation keeps. A system whose
  operations are always enabled is the special case.
\<close>

inductive reach :: "('o \<Rightarrow> 's \<Rightarrow> bool) \<Rightarrow> ('o \<Rightarrow> 's \<Rightarrow> 's) \<Rightarrow> 's \<Rightarrow> 's \<Rightarrow> bool"
  for enabled step s where
  reach_start: "reach enabled step s s"
| reach_step: "reach enabled step s t \<Longrightarrow> enabled o1 t \<Longrightarrow> reach enabled step s (step o1 t)"

locale guarded_system =
  fixes enabled :: "'o \<Rightarrow> 's \<Rightarrow> bool"
    and step :: "'o \<Rightarrow> 's \<Rightarrow> 's"
    and inv :: "'s \<Rightarrow> bool"
    and safe :: "'s \<Rightarrow> bool"
  assumes enabled_inv: "inv s \<Longrightarrow> enabled o1 s \<Longrightarrow> inv (step o1 s)"
    and guarded_safe: "inv s \<Longrightarrow> safe s"
begin

lemma reach_inv: "reach enabled step s t \<Longrightarrow> inv s \<Longrightarrow> inv t"
  by (induction rule: reach.induct) (auto intro: enabled_inv)

lemma reach_safe: "reach enabled step s t \<Longrightarrow> inv s \<Longrightarrow> safe t"
  by (blast intro: reach_inv guarded_safe)

end

sublocale invariant_system \<subseteq> total: guarded_system "\<lambda>_ _. True" step inv safe
  by unfold_locales (auto intro: step_inv inv_safe)

text \<open>
  Refinement: an abstraction turns every enabled operation of the implementation, run in a state that
  satisfies the invariant, into a step that the specification allows. Every history is then a history
  of the specification.
\<close>

locale simulation = guarded_system enabled step inv safe
  for enabled :: "'o \<Rightarrow> 's \<Rightarrow> bool" and step and inv and safe +
  fixes abs :: "'s \<Rightarrow> 'a"
    and spec :: "'a \<Rightarrow> 'a \<Rightarrow> bool"
  assumes simulates: "inv s \<Longrightarrow> enabled o1 s \<Longrightarrow> spec (abs s) (abs (step o1 s))"
begin

lemma reach_simulates: "reach enabled step s t \<Longrightarrow> inv s \<Longrightarrow> spec\<^sup>*\<^sup>* (abs s) (abs t)"
proof (induction rule: reach.induct)
  case (reach_step t o1)
  then have "spec (abs t) (abs (step o1 t))" using reach_inv simulates by blast
  with reach_step show ?case by (meson rtranclp.rtrancl_into_rtrancl)
qed simp

end

end
