(* ===== verification/Host.thy ===== *)
theory Host
  imports Prelude
begin

text \<open>
  The Soroban host as the contracts see it, and the token contracts they call.
  \<^item> \<open>env\<close>: the ledger's timestamp and sequence number, the contract's own address and the
    authorisations attached to the invocation. A \<open>require_auth\<close> that is not covered traps.
  \<^item> \<open>token_if\<close>: the token contracts are not part of this repository. They are a parameter of
    every operation that moves tokens: functions over a world \<open>'w\<close> of token balances.
    \<open>sep41\<close> states what the SEP-41 interface documents of them; it is the hypothesis of
    the theorems that relate the vault's books to its token balance. \<open>ledger_token\<close> is one
    implementation that satisfies it and serves the witnesses.
  \<^item> \<open>shared/src/token_error.rs\<close>: the classification of failed token calls.
\<close>

record env =
  ev_timestamp :: nat
  ev_sequence :: nat
  ev_self :: addr
  ev_auth :: "addr \<Rightarrow> bool"
  ev_auth_withdraw :: "addr \<Rightarrow> int \<Rightarrow> bool"

text \<open>
  The environment of an invocation of the contract at \<open>self\<close>: nobody can attach an authorisation of
  the contract's own address to it.
\<close>

definition host_env :: "addr \<Rightarrow> env \<Rightarrow> env" where
  "host_env self ev = ev\<lparr>ev_self := self, ev_auth := (ev_auth ev)(self := False)\<rparr>"

lemma host_env_simps [simp]:
  "ev_self (host_env self ev) = self" "ev_auth (host_env self ev) x \<longleftrightarrow> x \<noteq> self \<and> ev_auth ev x"
  "ev_timestamp (host_env self ev) = ev_timestamp ev" "ev_sequence (host_env self ev) = ev_sequence ev"
  "ev_auth_withdraw (host_env self ev) = ev_auth_withdraw ev"
  by (simp_all add: host_env_def)

section \<open>Classification of token failures\<close>

text \<open>
  A structured error of the callee (by its \<open>ScErrorType\<close>), and the error of an invocation that
  carried none.
\<close>

datatype soroban_error = ContractType nat | AuthType | OtherType

datatype InvokeError = Contract nat | Abort

datatype TokenFailure =
    Unauthorized
  | InsufficientBalance
  | InsufficientAllowance
  | InvalidRequest
  | Overflow
  | OtherContractError nat
  | HostError

text \<open>
  The result of a \<open>try_\<close> client call. A call that fails leaves the callee's storage alone; a call
  that returned a value of the wrong type (\<open>Ok(Err(_))\<close>) did run.
\<close>

datatype 'w call = CallOk 'w | CallConversionError 'w | CallError soroban_error | CallInvokeError InvokeError

definition classify_code :: "nat \<Rightarrow> TokenFailure" where
  "classify_code code =
     (if code = 4 \<or> code = 5 then TokenFailure.Unauthorized
      else if code = 9 then InsufficientAllowance
      else if code = 10 \<or> code = 11 then InsufficientBalance
      else if code = 8 \<or> code = 6 \<or> code = 7 \<or> code = 13 then InvalidRequest
      else if code = 12 then TokenFailure.Overflow
      else OtherContractError code)"

fun classify_error :: "soroban_error \<Rightarrow> TokenFailure" where
  "classify_error (ContractType code) = classify_code code"
| "classify_error AuthType = TokenFailure.Unauthorized"
| "classify_error OtherType = HostError"

fun classify :: "soroban_error + InvokeError \<Rightarrow> TokenFailure" where
  "classify (Inl error) = classify_error error"
| "classify (Inr (Contract code)) = classify_code code"
| "classify (Inr Abort) = HostError"

fun map_result :: "'w \<Rightarrow> 'w call \<Rightarrow> ('w, TokenFailure, unit) outcome" where
  "map_result w (CallOk w') = (Ok (), w')"
| "map_result w (CallConversionError w') = (Err HostError, w')"
| "map_result w (CallError e) = (Err (classify (Inl e)), w)"
| "map_result w (CallInvokeError e) = (Err (classify (Inr e)), w)"

section \<open>The token interface\<close>

text \<open>Replies of a token's \<open>decimals()\<close>: the call failed, or returned a value that is not a \<open>u32\<close>, or a \<open>u32\<close>.\<close>

datatype decimals_reply = DecimalsFailed | DecimalsNotU32 | DecimalsValue nat

record 'w token_if =
  tk_transfer :: "addr \<Rightarrow> addr \<Rightarrow> addr \<Rightarrow> int \<Rightarrow> 'w \<Rightarrow> 'w call"
  tk_burn :: "addr \<Rightarrow> addr \<Rightarrow> int \<Rightarrow> 'w \<Rightarrow> 'w call"
  tk_balance :: "addr \<Rightarrow> addr \<Rightarrow> 'w \<Rightarrow> int"
  tk_decimals :: "addr \<Rightarrow> 'w \<Rightarrow> decimals_reply"

definition try_transfer ::
  "'w token_if \<Rightarrow> addr \<Rightarrow> addr \<Rightarrow> addr \<Rightarrow> int \<Rightarrow> 'w \<Rightarrow> ('w, TokenFailure, unit) outcome" where
  "try_transfer tk tok src dst amount w = map_result w (tk_transfer tk tok src dst amount w)"

definition try_burn ::
  "'w token_if \<Rightarrow> addr \<Rightarrow> addr \<Rightarrow> int \<Rightarrow> 'w \<Rightarrow> ('w, TokenFailure, unit) outcome" where
  "try_burn tk tok src amount w = map_result w (tk_burn tk tok src amount w)"

text \<open>The panicking client methods trap on every failure.\<close>

definition must_transfer ::
  "'w token_if \<Rightarrow> addr \<Rightarrow> addr \<Rightarrow> addr \<Rightarrow> int \<Rightarrow> 'w \<Rightarrow> ('w, 'e, unit) outcome" where
  "must_transfer tk tok src dst amount w =
     (case tk_transfer tk tok src dst amount w of CallOk w' \<Rightarrow> (Ok (), w') | _ \<Rightarrow> (Panic, w))"

definition must_burn ::
  "'w token_if \<Rightarrow> addr \<Rightarrow> addr \<Rightarrow> int \<Rightarrow> 'w \<Rightarrow> ('w, 'e, unit) outcome" where
  "must_burn tk tok src amount w =
     (case tk_burn tk tok src amount w of CallOk w' \<Rightarrow> (Ok (), w') | _ \<Rightarrow> (Panic, w))"

text \<open>
  SEP-41 as documented: a successful transfer moves exactly the amount between the two accounts, a
  successful burn removes exactly the amount, no other account and no other token changes, both
  return nothing, amounts are not negative and balances are non-negative \<open>i128\<close> values.
\<close>

definition transfer_law :: "'w token_if \<Rightarrow> bool" where
  "transfer_law tk \<longleftrightarrow> (\<forall>tok src dst a w w'. tk_transfer tk tok src dst a w = CallOk w' \<longrightarrow>
     0 \<le> a \<and> (\<forall>t x. tk_balance tk t x w' =
        tk_balance tk t x w - (if t = tok \<and> x = src then a else 0)
          + (if t = tok \<and> x = dst then a else 0)))"

definition burn_law :: "'w token_if \<Rightarrow> bool" where
  "burn_law tk \<longleftrightarrow> (\<forall>tok src a w w'. tk_burn tk tok src a w = CallOk w' \<longrightarrow>
     0 \<le> a \<and> (\<forall>t x. tk_balance tk t x w' =
        tk_balance tk t x w - (if t = tok \<and> x = src then a else 0)))"

definition unit_reply_law :: "'w token_if \<Rightarrow> bool" where
  "unit_reply_law tk \<longleftrightarrow>
     (\<forall>tok src dst a w w'. tk_transfer tk tok src dst a w \<noteq> CallConversionError w') \<and>
     (\<forall>tok src a w w'. tk_burn tk tok src a w \<noteq> CallConversionError w')"

definition balance_law :: "'w token_if \<Rightarrow> bool" where
  "balance_law tk \<longleftrightarrow> (\<forall>t x w. 0 \<le> tk_balance tk t x w \<and> in_i128 (tk_balance tk t x w))"

definition sep41 :: "'w token_if \<Rightarrow> bool" where
  "sep41 tk \<longleftrightarrow> transfer_law tk \<and> burn_law tk \<and> unit_reply_law tk \<and> balance_law tk"

section \<open>A ledger that satisfies the interface\<close>

type_synonym ledger = "addr \<Rightarrow> addr \<Rightarrow> int"

definition ledger_balance :: "addr \<Rightarrow> addr \<Rightarrow> ledger \<Rightarrow> int" where
  "ledger_balance tok x w = max 0 (min i128_max (w tok x))"

definition ledger_put :: "addr \<Rightarrow> addr \<Rightarrow> int \<Rightarrow> ledger \<Rightarrow> ledger" where
  "ledger_put tok x v w = w(tok := (w tok)(x := v))"

definition ledger_transfer :: "addr \<Rightarrow> addr \<Rightarrow> addr \<Rightarrow> int \<Rightarrow> ledger \<Rightarrow> ledger call" where
  "ledger_transfer tok src dst a w =
     (if a < 0 then CallError (ContractType 8)
      else if ledger_balance tok src w < a then CallError (ContractType 10)
      else if src \<noteq> dst \<and> i128_max < ledger_balance tok dst w + a then CallError (ContractType 12)
      else if src = dst then CallOk w
      else CallOk (ledger_put tok dst (ledger_balance tok dst w + a)
                    (ledger_put tok src (ledger_balance tok src w - a) w)))"

definition ledger_burn :: "addr \<Rightarrow> addr \<Rightarrow> int \<Rightarrow> ledger \<Rightarrow> ledger call" where
  "ledger_burn tok src a w =
     (if a < 0 then CallError (ContractType 8)
      else if ledger_balance tok src w < a then CallError (ContractType 10)
      else CallOk (ledger_put tok src (ledger_balance tok src w - a) w))"

definition ledger_token :: "ledger token_if" where
  "ledger_token = \<lparr>tk_transfer = ledger_transfer, tk_burn = ledger_burn,
     tk_balance = ledger_balance, tk_decimals = (\<lambda>_ _. DecimalsValue 7)\<rparr>"

section \<open>Consequences\<close>

text \<open>
  A failed token call is never read as a success, and whatever is read as a failure left the token
  world unchanged when the token follows SEP-41.
\<close>

lemma map_result_Ok: "map_result w c = (Ok u, w') \<longleftrightarrow> c = CallOk w'"
  by (cases c) auto

lemma try_transfer_Ok: "try_transfer tk tok src dst a w = (Ok u, w') \<longleftrightarrow> tk_transfer tk tok src dst a w = CallOk w'"
  by (simp add: try_transfer_def map_result_Ok)

lemma try_burn_Ok: "try_burn tk tok src a w = (Ok u, w') \<longleftrightarrow> tk_burn tk tok src a w = CallOk w'"
  by (simp add: try_burn_def map_result_Ok)

lemma must_transfer_Ok: "must_transfer tk tok src dst a w = (Ok u, w') \<longleftrightarrow> tk_transfer tk tok src dst a w = CallOk w'"
  by (auto simp: must_transfer_def split: call.splits)

lemma must_burn_Ok: "must_burn tk tok src a w = (Ok u, w') \<longleftrightarrow> tk_burn tk tok src a w = CallOk w'"
  by (auto simp: must_burn_def split: call.splits)

lemmas token_call_Ok = try_transfer_Ok try_burn_Ok must_transfer_Ok must_burn_Ok

lemma map_result_no_panic [simp]: "map_result w c \<noteq> (Panic, w')"
  by (cases c) auto

lemma try_no_panic [simp]:
  "try_transfer tk tok src dst a w \<noteq> (Panic, w')" "try_burn tk tok src b w \<noteq> (Panic, w')"
  by (simp_all add: try_transfer_def try_burn_def)

lemma try_transfer_Err_world:
  assumes "sep41 tk" "try_transfer tk tok src dst a w = (Err e, w')"
  shows "w' = w"
  using assms by (cases "tk_transfer tk tok src dst a w")
    (auto simp: try_transfer_def sep41_def unit_reply_law_def)

lemma try_burn_Err_world:
  assumes "sep41 tk" "try_burn tk tok src a w = (Err e, w')"
  shows "w' = w"
  using assms by (cases "tk_burn tk tok src a w")
    (auto simp: try_burn_def sep41_def unit_reply_law_def)

lemma sep41_transfer:
  assumes "sep41 tk" "tk_transfer tk tok src dst a w = CallOk w'"
  shows "tk_balance tk t x w' = tk_balance tk t x w
     - (if t = tok \<and> x = src then a else 0) + (if t = tok \<and> x = dst then a else 0)"
  using assms by (auto simp: sep41_def transfer_law_def)

lemma sep41_burn:
  assumes "sep41 tk" "tk_burn tk tok src a w = CallOk w'"
  shows "tk_balance tk t x w' = tk_balance tk t x w - (if t = tok \<and> x = src then a else 0)"
  using assms by (auto simp: sep41_def burn_law_def)

lemma sep41_amount:
  "sep41 tk \<Longrightarrow> tk_transfer tk tok src dst a w = CallOk w' \<Longrightarrow> 0 \<le> a"
  "sep41 tk \<Longrightarrow> tk_burn tk tok src a w = CallOk w' \<Longrightarrow> 0 \<le> a"
  unfolding sep41_def transfer_law_def burn_law_def by blast+

lemma sep41_balance: "sep41 tk \<Longrightarrow> 0 \<le> tk_balance tk t x w" "sep41 tk \<Longrightarrow> in_i128 (tk_balance tk t x w)"
  by (auto simp: sep41_def balance_law_def)

lemma ledger_balance_put:
  "0 \<le> v \<Longrightarrow> v \<le> i128_max \<Longrightarrow>
   ledger_balance t y (ledger_put tok x v w) = (if t = tok \<and> y = x then v else ledger_balance t y w)"
  by (auto simp: ledger_balance_def ledger_put_def)

lemma ledger_balance_bounds [simp]: "0 \<le> ledger_balance t x w" "ledger_balance t x w \<le> i128_max"
  by (auto simp: ledger_balance_def i128_max_def)

lemma ledger_balance_debit:
  assumes "0 \<le> a" "a \<le> ledger_balance tok src w"
  shows "ledger_balance t y (ledger_put tok src (ledger_balance tok src w - a) w) =
    ledger_balance t y w - (if t = tok \<and> y = src then a else 0)"
proof -
  have "ledger_balance tok src w - a \<le> i128_max"
    using assms(1) ledger_balance_bounds(2) [of tok src w] by linarith
  with assms show ?thesis by (simp add: ledger_balance_put)
qed

lemma ledger_balance_move:
  assumes "0 \<le> a" "a \<le> ledger_balance tok src w" "src \<noteq> dst"
    "ledger_balance tok dst w + a \<le> i128_max"
  shows "ledger_balance t y (ledger_put tok dst (ledger_balance tok dst w + a)
      (ledger_put tok src (ledger_balance tok src w - a) w)) =
    ledger_balance t y w - (if t = tok \<and> y = src then a else 0)
      + (if t = tok \<and> y = dst then a else 0)"
  using assms by (subst ledger_balance_put) (auto simp: ledger_balance_debit add_nonneg_nonneg)

lemma sep41_ledger_token: "sep41 ledger_token"
proof -
  have "transfer_law ledger_token"
    by (auto simp: transfer_law_def ledger_token_def ledger_transfer_def not_less ledger_balance_move
        split: if_splits)
  moreover have "burn_law ledger_token"
    by (auto simp: burn_law_def ledger_token_def ledger_burn_def not_less ledger_balance_debit
        split: if_splits)
  moreover have "unit_reply_law ledger_token"
    by (auto simp: unit_reply_law_def ledger_token_def ledger_transfer_def ledger_burn_def)
  moreover have "balance_law ledger_token"
    by (auto simp: balance_law_def ledger_token_def in_i128_def i128_min_def
        intro: order_trans [OF _ ledger_balance_bounds(1)])
  ultimately show ?thesis by (simp add: sep41_def)
qed

end
