(* ===== verification/RateLimit.thy ===== *)
theory RateLimit
  imports Host
begin

text \<open>
  Per-user rate limiting: the fixed-window mechanism (\<open>shared/src/rate_limiter.rs\<close>) and the
  action registry with trust tiers on top of it (\<open>common/src/rate_limit.rs\<close>).
  The locale \<open>window_limiter\<close> is the contract between the two: how the count in effect moves when
  an action is recorded. Its client lemmas bound how many actions any caller gets through; the
  interpretation discharges the contract for the shared mechanism.
\<close>

section \<open>The fixed-window mechanism\<close>

datatype RateLimitError = Exceeded

record RateLimitWindow =
  window_start :: nat
  w_count :: nat

type_synonym windows = "symbol \<times> addr \<Rightarrow> RateLimitWindow option"

definition current_count :: "nat \<Rightarrow> symbol \<Rightarrow> addr \<Rightarrow> nat \<Rightarrow> windows \<Rightarrow> nat" where
  "current_count now use_case subject window_secs ws =
     (case ws (use_case, subject) of
        Some w \<Rightarrow> (if now - window_start w < window_secs then w_count w else 0)
      | None \<Rightarrow> 0)"

definition check :: "nat \<Rightarrow> symbol \<Rightarrow> addr \<Rightarrow> nat \<Rightarrow> nat \<Rightarrow> windows \<Rightarrow> (RateLimitError, nat) res" where
  "check now use_case subject window_secs max_actions ws =
     (let count = current_count now use_case subject window_secs ws
      in if max_actions \<le> count then Err Exceeded else Ok count)"

definition record_window :: "nat \<Rightarrow> symbol \<Rightarrow> addr \<Rightarrow> nat \<Rightarrow> windows \<Rightarrow> windows" where
  "record_window now use_case subject window_secs ws =
     (let w = opt_or \<lparr>window_start = now, w_count = 0\<rparr> (ws (use_case, subject));
          w = (if window_secs \<le> now - window_start w then \<lparr>window_start = now, w_count = 0\<rparr> else w);
          w = w\<lparr>w_count := u32_sat_add (w_count w) 1\<rparr>
      in ws((use_case, subject) \<mapsto> w))"

section \<open>The action registry\<close>

definition SECONDS_PER_HOUR :: nat where "SECONDS_PER_HOUR = 3600"
definition SECONDS_PER_DAY :: nat where "SECONDS_PER_DAY = 86400"
definition ESTABLISHED_DAYS :: nat where "ESTABLISHED_DAYS = 30"
definition ESTABLISHED_TRUST_SCORE :: nat where "ESTABLISHED_TRUST_SCORE = 60"

datatype ActionType = SignalSubmission | TradeExecution | StakeChange | FollowAction

record RateLimitConfig =
  window_secs :: nat
  max_actions :: nat

record rate_state =
  rs_config :: "ActionType \<Rightarrow> RateLimitConfig option"
  rs_first_action :: "addr \<Rightarrow> nat option"
  rs_windows :: windows

fun action_symbol :: "ActionType \<Rightarrow> symbol" where
  "action_symbol SignalSubmission = ''sig_sub''"
| "action_symbol TradeExecution = ''trade''"
| "action_symbol StakeChange = ''stake''"
| "action_symbol FollowAction = ''follow''"

fun default_config :: "ActionType \<Rightarrow> RateLimitConfig" where
  "default_config SignalSubmission = \<lparr>window_secs = SECONDS_PER_HOUR, max_actions = 10\<rparr>"
| "default_config TradeExecution = \<lparr>window_secs = SECONDS_PER_HOUR, max_actions = 20\<rparr>"
| "default_config StakeChange = \<lparr>window_secs = SECONDS_PER_DAY, max_actions = 5\<rparr>"
| "default_config FollowAction = \<lparr>window_secs = SECONDS_PER_DAY, max_actions = 50\<rparr>"

definition get_config :: "rate_state \<Rightarrow> ActionType \<Rightarrow> RateLimitConfig" where
  "get_config s a = opt_or (default_config a) (rs_config s a)"

definition set_rate_config :: "ActionType \<Rightarrow> RateLimitConfig \<Rightarrow> rate_state \<Rightarrow> rate_state" where
  "set_rate_config a c s = s\<lparr>rs_config := (rs_config s)(a \<mapsto> c)\<rparr>"

definition get_first_action :: "rate_state \<Rightarrow> addr \<Rightarrow> nat" where
  "get_first_action s user = opt_or 0 (rs_first_action s user)"

definition record_first_action_if_new :: "addr \<Rightarrow> nat \<Rightarrow> rate_state \<Rightarrow> rate_state" where
  "record_first_action_if_new user now s =
     (case rs_first_action s user of
        None \<Rightarrow> s\<lparr>rs_first_action := (rs_first_action s)(user \<mapsto> now)\<rparr>
      | Some _ \<Rightarrow> s)"

definition effective_max :: "RateLimitConfig \<Rightarrow> nat \<Rightarrow> nat \<Rightarrow> nat \<Rightarrow> nat" where
  "effective_max c first_action now trust_score =
     (if first_action = 0 then max_actions c
      else let days = (now - first_action) div SECONDS_PER_DAY
           in if ESTABLISHED_DAYS \<le> days \<and> ESTABLISHED_TRUST_SCORE \<le> trust_score
              then u32_sat_mul (max_actions c) 2 else max_actions c)"

definition check_rate_limit :: "env \<Rightarrow> addr \<Rightarrow> ActionType \<Rightarrow> nat \<Rightarrow> rate_state \<Rightarrow> (RateLimitError, unit) res" where
  "check_rate_limit ev user a trust_score s =
     (let c = get_config s a;
          mx = effective_max c (get_first_action s user) (ev_timestamp ev) trust_score
      in res_then (check (ev_timestamp ev) (action_symbol a) user (window_secs c) mx (rs_windows s))
           (\<lambda>_. Ok ()))"

definition record_action :: "env \<Rightarrow> addr \<Rightarrow> ActionType \<Rightarrow> rate_state \<Rightarrow> rate_state" where
  "record_action ev user a s =
     (let s = record_first_action_if_new user (ev_timestamp ev) s;
          c = get_config s a
      in s\<lparr>rs_windows := record_window (ev_timestamp ev) (action_symbol a) user (window_secs c) (rs_windows s)\<rparr>)"

section \<open>The contract of a window limiter\<close>

text \<open>How many of the attempts at the given times get through: each is checked, and recorded if admitted.\<close>

fun admitted :: "(nat \<Rightarrow> 's \<Rightarrow> bool) \<Rightarrow> (nat \<Rightarrow> 's \<Rightarrow> 's) \<Rightarrow> nat list \<Rightarrow> 's \<Rightarrow> nat" where
  "admitted ok rec [] s = 0"
| "admitted ok rec (t # ts) s =
     (if ok t s then Suc (admitted ok rec ts (rec t s)) else admitted ok rec ts s)"

locale window_limiter =
  fixes start :: "'s \<Rightarrow> nat option"
    and cnt :: "nat \<Rightarrow> 's \<Rightarrow> nat"
    and rec :: "nat \<Rightarrow> 's \<Rightarrow> 's"
    and W :: nat
    and mx :: nat
  assumes W_pos: "0 < W"
    and cnt_same: "start s = Some a \<Longrightarrow> t - a < W \<Longrightarrow> t' - a < W \<Longrightarrow> cnt t' s = cnt t s"
    and rec_active: "start s = Some a \<Longrightarrow> t - a < W \<Longrightarrow> cnt t s < mx \<Longrightarrow>
      start (rec t s) = Some a \<and> cnt t (rec t s) = Suc (cnt t s)"
    and rec_fresh: "(\<And>a. start s = Some a \<Longrightarrow> W \<le> t - a) \<Longrightarrow>
      start (rec t s) = Some t \<and> cnt t (rec t s) = 1"
begin

lemma admitted_in_window:
  assumes "start s = Some a" "\<forall>t \<in> set ts. t - a < W" "t0 - a < W"
  shows "admitted (\<lambda>t s. cnt t s < mx) rec ts s \<le> mx - cnt t0 s"
  using assms
proof (induction ts arbitrary: s)
  case (Cons t ts)
  have tW: "t - a < W" using Cons.prems(2) by simp
  have same: "cnt t0 s = cnt t s" by (rule cnt_same [OF Cons.prems(1) tW Cons.prems(3)])
  show ?case
  proof (cases "cnt t s < mx")
    case True
    have r: "start (rec t s) = Some a" "cnt t (rec t s) = Suc (cnt t s)"
      using rec_active [OF Cons.prems(1) tW True] by auto
    have "admitted (\<lambda>t s. cnt t s < mx) rec ts (rec t s) \<le> mx - cnt t0 (rec t s)"
      using Cons.prems r(1) by (intro Cons.IH) auto
    also have "cnt t0 (rec t s) = Suc (cnt t s)"
      using cnt_same [OF r(1) tW Cons.prems(3)] r(2) by (rule trans)
    finally show ?thesis using True same by simp
  next
    case False
    then show ?thesis using Cons.IH [OF Cons.prems(1) _ Cons.prems(3)] Cons.prems(2) by simp
  qed
qed simp

text \<open>
  A window that opens now admits at most \<open>mx\<close> actions, the one that opened it included.
\<close>

lemma admitted_fresh_window:
  assumes "\<And>a. start s = Some a \<Longrightarrow> W \<le> t - a" "\<forall>t' \<in> set ts. t' - t < W" "0 < mx"
  shows "Suc (admitted (\<lambda>t s. cnt t s < mx) rec ts (rec t s)) \<le> mx"
proof -
  have r: "start (rec t s) = Some t" "cnt t (rec t s) = 1"
    using rec_fresh [of s t] assms(1) by auto
  have "admitted (\<lambda>t s. cnt t s < mx) rec ts (rec t s) \<le> mx - cnt t (rec t s)"
    using r(1) assms(2) W_pos by (intro admitted_in_window) auto
  with r(2) assms(3) show ?thesis by simp
qed

text \<open>
  In any span of time shorter than a window at most two windows are open, so at most twice the
  limit gets through.
\<close>

lemma admitted_sliding:
  assumes "sorted ts" "\<forall>t \<in> set ts. t0 \<le> t \<and> t - t0 < W"
  shows "admitted (\<lambda>t s. cnt t s < mx) rec ts s \<le> 2 * mx"
proof (cases "\<exists>a. start s = Some a")
  case True
  then obtain a where a: "start s = Some a" ..
  have "admitted (\<lambda>t s. cnt t s < mx) rec ts s \<le> (mx - (if \<exists>t. t - a < W then cnt a s else 0)) + mx"
    using assms a
  proof (induction ts arbitrary: s)
    case (Cons t ts)
    have span: "\<forall>t' \<in> set ts. t' - t < W"
    proof
      fix t' assume "t' \<in> set ts"
      then have "t' - t0 < W" "t0 \<le> t" using Cons.prems(2) by auto
      then show "t' - t < W" by simp
    qed
    show ?case
    proof (cases "cnt t s < mx")
      case True
      note admit = True
      show ?thesis
      proof (cases "t - a < W")
        case True
        have r: "start (rec t s) = Some a" "cnt t (rec t s) = Suc (cnt t s)"
          using rec_active [OF Cons.prems(3) True admit] by auto
        have eqs: "cnt a s = cnt t s" "cnt a (rec t s) = Suc (cnt t s)"
          using cnt_same [OF Cons.prems(3) True, of a] cnt_same [OF r(1) True, of a] W_pos
          by (simp_all only: r(2) diff_self_eq_0)
        have "admitted (\<lambda>t s. cnt t s < mx) rec ts (rec t s)
            \<le> mx - (if \<exists>t. t - a < W then cnt a (rec t s) else 0) + mx"
          using Cons.prems r(1) by (intro Cons.IH) auto
        with True admit eqs show ?thesis by (auto split: if_splits)
      next
        case False
        have "Suc (admitted (\<lambda>t s. cnt t s < mx) rec ts (rec t s)) \<le> mx"
          using False Cons.prems(3) span admit by (intro admitted_fresh_window) auto
        with admit show ?thesis by simp
      qed
    next
      case False
      with Cons show ?thesis by auto
    qed
  qed simp
  then show ?thesis by (auto split: if_splits)
next
  case False
  from assms False show ?thesis
  proof (induction ts arbitrary: s)
    case (Cons t ts)
    show ?case
    proof (cases "cnt t s < mx")
      case True
      have "\<forall>t' \<in> set ts. t' - t < W"
      proof
        fix t' assume "t' \<in> set ts"
        then have "t' - t0 < W" "t0 \<le> t" using Cons.prems(2) by auto
        then show "t' - t < W" by simp
      qed
      then have "Suc (admitted (\<lambda>t s. cnt t s < mx) rec ts (rec t s)) \<le> mx"
        using Cons.prems(3) True by (intro admitted_fresh_window) auto
      with True show ?thesis by simp
    next
      case False
      with Cons show ?thesis by simp
    qed
  qed simp
qed

end

section \<open>The shared mechanism satisfies the contract\<close>

definition limiter_start :: "symbol \<Rightarrow> addr \<Rightarrow> windows \<Rightarrow> nat option" where
  "limiter_start use_case subject ws = map_option window_start (ws (use_case, subject))"

lemma check_Ok: "(\<exists>n. check now u x W mx ws = Ok n) \<longleftrightarrow> current_count now u x W ws < mx"
  by (auto simp: check_def Let_def)

lemma window_limiter_shared:
  assumes "0 < W" "mx \<le> u32_max"
  shows "window_limiter (limiter_start u x) (\<lambda>t. current_count t u x W)
    (\<lambda>t. record_window t u x W) W mx"
proof
  show "0 < W" by fact
next
  fix ws a t assume a: "limiter_start u x ws = Some a" "t - a < W" "current_count t u x W ws < mx"
  then obtain w where w: "ws (u, x) = Some w" "window_start w = a"
    by (auto simp: limiter_start_def)
  with a(2) have *: "current_count t u x W ws = w_count w"
    by (simp add: current_count_def)
  with a(3) assms(2) have "w_count w < u32_max" by simp
  then have "u32_sat_add (w_count w) 1 = Suc (w_count w)"
    by (simp add: u32_sat_add_def min_def)
  with w a(2) * show "limiter_start u x (record_window t u x W ws) = Some a \<and>
      current_count t u x W (record_window t u x W ws) = Suc (current_count t u x W ws)"
    by (simp add: record_window_def limiter_start_def current_count_def Let_def)
next
  fix ws t assume f: "\<And>a. limiter_start u x ws = Some a \<Longrightarrow> W \<le> t - a"
  have "u32_sat_add 0 1 = 1" by (simp add: u32_sat_add_def u32_max_def)
  with f assms(1) show "limiter_start u x (record_window t u x W ws) = Some t \<and>
      current_count t u x W (record_window t u x W ws) = 1"
    by (cases "ws (u, x)")
      (auto simp: record_window_def limiter_start_def current_count_def Let_def)
qed (auto simp: limiter_start_def current_count_def)

interpretation stake_limiter:
  window_limiter "limiter_start ''stake'' user" "\<lambda>t. current_count t ''stake'' user SECONDS_PER_DAY"
    "\<lambda>t. record_window t ''stake'' user SECONDS_PER_DAY" SECONDS_PER_DAY 5
  for user
  by (rule window_limiter_shared) (simp_all add: SECONDS_PER_DAY_def u32_max_def)

text \<open>
  Whatever sequence of attempts a user makes at non-decreasing times within one day, and
  whatever windows are stored for the user before, at most ten stake changes get through under the
  default limit of five per day (a fixed window that ends and one that starts inside the span).
\<close>

theorem stake_changes_bounded:
  assumes "sorted ts" "\<forall>t \<in> set ts. t0 \<le> t \<and> t - t0 < SECONDS_PER_DAY"
  shows "admitted (\<lambda>t ws. \<exists>n. check t ''stake'' user SECONDS_PER_DAY 5 ws = Ok n)
    (\<lambda>t. record_window t ''stake'' user SECONDS_PER_DAY) ts ws \<le> 10"
  using stake_limiter.admitted_sliding [OF assms, of user ws] by (simp add: check_Ok)

theorem stake_changes_bounded_witness:
  "admitted (\<lambda>t ws. \<exists>n. check t ''stake'' 7 SECONDS_PER_DAY 5 ws = Ok n)
    (\<lambda>t. record_window t ''stake'' 7 SECONDS_PER_DAY) [100, 200, 300] Map.empty \<le> 10"
  by (rule stake_changes_bounded [where ?t0.0 = 100]) (auto simp: SECONDS_PER_DAY_def)

text \<open>
  One user's recorded actions never count against another user: the outcome of every check for
  another user is unchanged by a record.
\<close>

theorem rate_limits_are_independent:
  assumes "user' \<noteq> user"
  shows "check_rate_limit ev' user' a' trust (record_action ev user a s) =
    check_rate_limit ev' user' a' trust s"
  using assms
  by (auto simp: check_rate_limit_def record_action_def record_first_action_if_new_def Let_def
      check_def current_count_def record_window_def get_first_action_def get_config_def
      split: option.splits)

end
