(* ===== verification/Multisig.thy ===== *)
theory Multisig
  imports Host
begin

text \<open>
  \<open>shared/src/multisig.rs\<close>: N-of-M approval of opaque action payloads. The state holds the
  configuration, the next proposal id and the proposals; the operations are those of the module,
  one definition each. The interpretation of \<open>invariant_system\<close> shows that along every history of
  calls each proposal carries distinct approvals and a status that only moves from \<open>Pending\<close> to
  \<open>Executed\<close>.
\<close>

datatype MultisigError =
    Unauthorized
  | ProposalNotFound
  | AlreadyApproved
  | ProposalExpired
  | AlreadyExecuted
  | ThresholdNotMet
  | InvalidConfig
  | DuplicateSigner

definition MAX_SIGNERS :: nat where "MAX_SIGNERS = 20"
definition DEFAULT_PROPOSAL_TIMEOUT_SECS :: nat where "DEFAULT_PROPOSAL_TIMEOUT_SECS = 604800"

record MultisigConfig =
  signers :: "addr list"
  threshold :: nat
  proposal_timeout_secs :: nat

datatype ProposalStatus = Pending | Executed

record Proposal =
  p_id :: nat
  proposer :: addr
  payload :: "nat list"
  approvals :: "addr list"
  p_status :: ProposalStatus
  p_created_at :: nat
  p_expires_at :: nat

record multisig =
  ms_config :: "MultisigConfig option"
  ms_next_id :: "nat option"
  ms_proposals :: "(nat, Proposal) smap"

section \<open>Operations\<close>

definition get_next_id :: "multisig \<Rightarrow> (multisig, MultisigError, nat) outcome" where
  "get_next_id m =
     (let i = opt_or 1 (ms_next_id m)
      in if i + 1 \<le> u64_max then (Ok i, m\<lparr>ms_next_id := Some (i + 1)\<rparr>) else (Panic, m))"

definition validate_config :: "MultisigConfig \<Rightarrow> (MultisigError, unit) res" where
  "validate_config c =
     (if threshold c = 0 \<or> length (signers c) < threshold c then Err InvalidConfig
      else if MAX_SIGNERS < length (signers c) then Err InvalidConfig
      else if \<not> distinct (signers c) then Err DuplicateSigner
      else Ok ())"

definition set_config :: "MultisigConfig \<Rightarrow> multisig \<Rightarrow> (multisig, MultisigError, unit) outcome" where
  "set_config c m =
     (case validate_config c of
        Ok _ \<Rightarrow> (Ok (), m\<lparr>ms_config := Some c\<rparr>)
      | Err e \<Rightarrow> (Err e, m)
      | Panic \<Rightarrow> (Panic, m))"

definition is_signer :: "MultisigConfig \<Rightarrow> addr \<Rightarrow> bool" where
  "is_signer c a \<longleftrightarrow> a \<in> set (signers c)"

definition propose :: "env \<Rightarrow> addr \<Rightarrow> nat list \<Rightarrow> multisig \<Rightarrow> (multisig, MultisigError, nat) outcome" where
  "propose ev who data m =
     (case ms_config m of
        None \<Rightarrow> (Err InvalidConfig, m)
      | Some c \<Rightarrow>
          if \<not> is_signer c who then (Err MultisigError.Unauthorized, m)
          else and_then (get_next_id m) (\<lambda>i m.
            let timeout = (if 0 < proposal_timeout_secs c then proposal_timeout_secs c
                           else DEFAULT_PROPOSAL_TIMEOUT_SECS);
                p = \<lparr>p_id = i, proposer = who, payload = data, approvals = [who], p_status = Pending,
                     p_created_at = ev_timestamp ev,
                     p_expires_at = u64_sat_add (ev_timestamp ev) timeout\<rparr>
            in (Ok i, m\<lparr>ms_proposals := sset i p (ms_proposals m)\<rparr>)))"

definition has_approved :: "Proposal \<Rightarrow> addr \<Rightarrow> bool" where
  "has_approved p a \<longleftrightarrow> a \<in> set (approvals p)"

definition get_proposal :: "multisig \<Rightarrow> nat \<Rightarrow> (MultisigError, Proposal) res" where
  "get_proposal m i = ok_or ProposalNotFound (sget (ms_proposals m) i)"

definition approve :: "env \<Rightarrow> addr \<Rightarrow> nat \<Rightarrow> multisig \<Rightarrow> (multisig, MultisigError, nat) outcome" where
  "approve ev who i m =
     (case ms_config m of
        None \<Rightarrow> (Err InvalidConfig, m)
      | Some c \<Rightarrow>
          if \<not> is_signer c who then (Err MultisigError.Unauthorized, m)
          else (case get_proposal m i of
              Err e \<Rightarrow> (Err e, m)
            | Panic \<Rightarrow> (Panic, m)
            | Ok p \<Rightarrow>
                if p_status p = Executed then (Err AlreadyExecuted, m)
                else if p_expires_at p < ev_timestamp ev then (Err ProposalExpired, m)
                else if has_approved p who then (Err AlreadyApproved, m)
                else let p' = p\<lparr>approvals := approvals p @ [who]\<rparr>
                     in (Ok (length (approvals p')), m\<lparr>ms_proposals := sset i p' (ms_proposals m)\<rparr>)))"

definition require_can_execute :: "env \<Rightarrow> Proposal \<Rightarrow> multisig \<Rightarrow> (MultisigError, unit) res" where
  "require_can_execute ev p m =
     (case ms_config m of
        None \<Rightarrow> Err InvalidConfig
      | Some c \<Rightarrow>
          if p_status p = Executed then Err AlreadyExecuted
          else if length (approvals p) < threshold c then Err ThresholdNotMet
          else if p_expires_at p < ev_timestamp ev then Err ProposalExpired
          else Ok ())"

definition mark_executed :: "nat \<Rightarrow> multisig \<Rightarrow> (multisig, MultisigError, unit) outcome" where
  "mark_executed i m =
     (case get_proposal m i of
        Err e \<Rightarrow> (Err e, m)
      | Panic \<Rightarrow> (Panic, m)
      | Ok p \<Rightarrow>
          if p_status p = Executed then (Err AlreadyExecuted, m)
          else (Ok (), m\<lparr>ms_proposals := sset i (p\<lparr>p_status := Executed\<rparr>) (ms_proposals m)\<rparr>))"

section \<open>Histories of calls\<close>

datatype ms_op =
    MsSetConfig MultisigConfig
  | MsPropose env addr "nat list"
  | MsApprove env addr nat
  | MsExecute env nat

text \<open>\<open>MsExecute\<close> is what a client contract does once the action ran: check, then mark.\<close>

fun ms_step :: "ms_op \<Rightarrow> multisig \<Rightarrow> multisig" where
  "ms_step (MsSetConfig c) m = snd (commit m (set_config c m))"
| "ms_step (MsPropose ev who data) m = snd (commit m (propose ev who data m))"
| "ms_step (MsApprove ev who i) m = snd (commit m (approve ev who i m))"
| "ms_step (MsExecute ev i) m =
     (case get_proposal m i of
        Ok p \<Rightarrow> (case require_can_execute ev p m of Ok _ \<Rightarrow> snd (commit m (mark_executed i m)) | _ \<Rightarrow> m)
      | _ \<Rightarrow> m)"

definition proposal_ok :: "nat \<Rightarrow> Proposal \<Rightarrow> bool" where
  "proposal_ok i p \<longleftrightarrow> p_id p = i \<and> distinct (approvals p) \<and> proposer p \<in> set (approvals p)"

definition multisig_inv :: "multisig \<Rightarrow> bool" where
  "multisig_inv m \<longleftrightarrow>
     swf (ms_proposals m) \<and>
     (\<forall>i p. sget (ms_proposals m) i = Some p \<longrightarrow> i < opt_or 1 (ms_next_id m) \<and> proposal_ok i p) \<and>
     (\<forall>c. ms_config m = Some c \<longrightarrow> validate_config c = Ok ())"

definition executed_count :: "multisig \<Rightarrow> int" where
  "executed_count m = ssum (\<lambda>_ p. if p_status p = Executed then 1 else 0) (ms_proposals m)"

definition executable_backed :: "multisig \<Rightarrow> bool" where
  "executable_backed m \<longleftrightarrow>
     (\<forall>ev i p. sget (ms_proposals m) i = Some p \<and> require_can_execute ev p m = Ok () \<longrightarrow>
        (\<exists>c. ms_config m = Some c \<and> threshold c \<le> card (set (approvals p)) \<and> 0 < threshold c))"

section \<open>Properties\<close>

lemma set_config_Ok:
  "set_config c m = (Ok u, m') \<longleftrightarrow> validate_config c = Ok () \<and> m' = m\<lparr>ms_config := Some c\<rparr>"
  by (auto simp: set_config_def split: res.splits)

lemma propose_Ok:
  assumes "propose ev who data m = (Ok i, m')"
  obtains c p where "ms_config m = Some c" "is_signer c who" "i = opt_or 1 (ms_next_id m)"
    "p_id p = i" "proposer p = who" "approvals p = [who]" "p_status p = Pending" "payload p = data"
    "m' = m\<lparr>ms_next_id := Some (i + 1), ms_proposals := sset i p (ms_proposals m)\<rparr>"
proof -
  from assms obtain c where c: "ms_config m = Some c" "is_signer c who"
    by (auto simp: propose_def split: option.splits if_splits)
  show ?thesis
    by (rule that [of c "\<lparr>p_id = i, proposer = who, payload = data, approvals = [who],
          p_status = Pending, p_created_at = ev_timestamp ev,
          p_expires_at = u64_sat_add (ev_timestamp ev)
            (if 0 < proposal_timeout_secs c then proposal_timeout_secs c
             else DEFAULT_PROPOSAL_TIMEOUT_SECS)\<rparr>"])
      (use assms c in \<open>auto simp: propose_def get_next_id_def Let_def split: if_splits\<close>)
qed

lemma approve_Ok:
  assumes "approve ev who i m = (Ok n, m')"
  obtains c p where "ms_config m = Some c" "is_signer c who" "sget (ms_proposals m) i = Some p"
    "p_status p = Pending" "ev_timestamp ev \<le> p_expires_at p" "who \<notin> set (approvals p)"
    "n = Suc (length (approvals p))"
    "m' = m\<lparr>ms_proposals := sset i (p\<lparr>approvals := approvals p @ [who]\<rparr>) (ms_proposals m)\<rparr>"
proof -
  from assms obtain c where c: "ms_config m = Some c" "is_signer c who"
    by (auto simp: approve_def split: option.splits if_splits)
  with assms obtain p where "sget (ms_proposals m) i = Some p"
    by (cases "sget (ms_proposals m) i") (auto simp: approve_def get_proposal_def)
  with c assms show ?thesis
    by (intro that [of c p])
      (auto simp: approve_def get_proposal_def has_approved_def Let_def split: if_splits intro: ProposalStatus.exhaust)
qed

lemma mark_executed_Ok:
  assumes "mark_executed i m = (Ok u, m')"
  obtains p where "sget (ms_proposals m) i = Some p" "p_status p = Pending"
    "m' = m\<lparr>ms_proposals := sset i (p\<lparr>p_status := Executed\<rparr>) (ms_proposals m)\<rparr>"
proof -
  from assms obtain p where "sget (ms_proposals m) i = Some p"
    by (cases "sget (ms_proposals m) i") (auto simp: mark_executed_def get_proposal_def)
  with assms show ?thesis
    by (intro that [of p])
      (auto simp: mark_executed_def get_proposal_def split: if_splits intro: ProposalStatus.exhaust)
qed

lemma multisig_inv_sset:
  assumes "multisig_inv m" "proposal_ok i p" "i < opt_or 1 (ms_next_id m)"
  shows "multisig_inv (m\<lparr>ms_proposals := sset i p (ms_proposals m)\<rparr>)"
  using assms by (auto simp: multisig_inv_def)

lemma multisig_inv_propose:
  assumes "multisig_inv m" "propose ev who data m = (Ok i, m')"
  shows "multisig_inv m'"
  using assms(2)
proof (rule propose_Ok)
  fix c p
  assume "i = opt_or 1 (ms_next_id m)" "p_id p = i" "proposer p = who" "approvals p = [who]"
    "m' = m\<lparr>ms_next_id := Some (i + 1), ms_proposals := sset i p (ms_proposals m)\<rparr>"
  with assms(1) show ?thesis
    by (force simp: multisig_inv_def proposal_ok_def)
qed

lemma multisig_inv_approve:
  assumes "multisig_inv m" "approve ev who i m = (Ok n, m')"
  shows "multisig_inv m'"
  using assms(2)
proof (rule approve_Ok)
  fix c p
  assume p: "sget (ms_proposals m) i = Some p" "who \<notin> set (approvals p)"
    and m': "m' = m\<lparr>ms_proposals := sset i (p\<lparr>approvals := approvals p @ [who]\<rparr>) (ms_proposals m)\<rparr>"
  from assms(1) p(1) have "proposal_ok i p" "i < opt_or 1 (ms_next_id m)"
    by (auto simp: multisig_inv_def)
  with p(2) assms(1) show ?thesis
    unfolding m' by (intro multisig_inv_sset) (auto simp: proposal_ok_def)
qed

lemma multisig_inv_mark_executed:
  assumes "multisig_inv m" "mark_executed i m = (Ok u, m')"
  shows "multisig_inv m'"
  using assms(2)
proof (rule mark_executed_Ok)
  fix p
  assume p: "sget (ms_proposals m) i = Some p"
    and m': "m' = m\<lparr>ms_proposals := sset i (p\<lparr>p_status := Executed\<rparr>) (ms_proposals m)\<rparr>"
  from assms(1) p have "proposal_ok i p" "i < opt_or 1 (ms_next_id m)"
    by (auto simp: multisig_inv_def)
  with assms(1) show ?thesis
    unfolding m' by (intro multisig_inv_sset) (auto simp: proposal_ok_def)
qed

lemma ms_step_inv: "multisig_inv m \<Longrightarrow> multisig_inv (ms_step o1 m)"
proof (cases o1)
  case (MsSetConfig c)
  assume "multisig_inv m"
  then show ?thesis
    unfolding MsSetConfig ms_step.simps
    by (rule commit_inv [of multisig_inv]) (use \<open>multisig_inv m\<close> in \<open>auto simp: set_config_Ok multisig_inv_def\<close>)
next
  case (MsExecute ev i)
  assume "multisig_inv m"
  then show ?thesis
    unfolding MsExecute ms_step.simps
    by (auto split: res.splits intro!: commit_inv [of multisig_inv] intro: multisig_inv_mark_executed)
qed (auto intro!: commit_inv [of multisig_inv] intro: multisig_inv_propose multisig_inv_approve)

lemma multisig_inv_executable: "multisig_inv m \<Longrightarrow> executable_backed m"
  by (fastforce simp: executable_backed_def multisig_inv_def proposal_ok_def require_can_execute_def
      validate_config_def distinct_card split: option.splits if_splits)

lemma executed_count_sset:
  assumes "swf (ms_proposals m)"
    "\<And>q. sget (ms_proposals m) i = Some q \<Longrightarrow> p_status q = Executed \<Longrightarrow> p_status p = Executed"
  shows "executed_count m \<le> executed_count (m\<lparr>ms_proposals := sset i p (ms_proposals m)\<rparr>)"
  using assms by (cases "sget (ms_proposals m) i") (auto simp: executed_count_def ssum_sset)

lemma executed_count_next_id [simp]: "executed_count (m\<lparr>ms_next_id := x\<rparr>) = executed_count m"
  by (simp add: executed_count_def)

lemma executed_count_config [simp]: "executed_count (m\<lparr>ms_config := x\<rparr>) = executed_count m"
  by (simp add: executed_count_def)

lemma ms_step_level: "multisig_inv m \<Longrightarrow> executed_count m \<le> executed_count (ms_step o1 m)"
proof (cases o1)
  case (MsSetConfig c)
  then show ?thesis
    by (auto intro: commit_inv [of "\<lambda>t. executed_count m \<le> executed_count t"] simp: set_config_Ok)
next
  case (MsPropose ev who data)
  assume inv: "multisig_inv m"
  have "executed_count m \<le> executed_count t" if "propose ev who data m = (Ok i, t)" for i t
    using that
  proof (rule propose_Ok)
    fix c p
    assume i: "i = opt_or 1 (ms_next_id m)"
      and t: "t = m\<lparr>ms_next_id := Some (i + 1), ms_proposals := sset i p (ms_proposals m)\<rparr>"
    from inv i have "sget (ms_proposals m) i = None"
      by (cases "sget (ms_proposals m) i") (auto simp: multisig_inv_def)
    with inv show ?thesis
      unfolding t using executed_count_sset [of m i p] by (auto simp: multisig_inv_def executed_count_def)
  qed
  then show ?thesis
    unfolding MsPropose by (auto intro: commit_inv [of "\<lambda>t. executed_count m \<le> executed_count t"])
next
  case (MsApprove ev who i)
  assume inv: "multisig_inv m"
  have "executed_count m \<le> executed_count t" if "approve ev who i m = (Ok n, t)" for n t
    using that by (rule approve_Ok) (use inv in \<open>auto simp: multisig_inv_def intro!: executed_count_sset\<close>)
  then show ?thesis
    unfolding MsApprove by (auto intro: commit_inv [of "\<lambda>t. executed_count m \<le> executed_count t"])
next
  case (MsExecute ev i)
  assume inv: "multisig_inv m"
  have "executed_count m \<le> executed_count t" if "mark_executed i m = (Ok u, t)" for u t
    using that by (rule mark_executed_Ok) (use inv in \<open>auto simp: multisig_inv_def intro!: executed_count_sset\<close>)
  then show ?thesis
    unfolding MsExecute
    by (auto split: res.splits intro: commit_inv [of "\<lambda>t. executed_count m \<le> executed_count t"])
qed

interpretation ms: monotone_system ms_step multisig_inv executable_backed executed_count
  by unfold_locales (auto intro: ms_step_inv multisig_inv_executable ms_step_level)

definition multisig_empty :: multisig where
  "multisig_empty = \<lparr>ms_config = None, ms_next_id = None, ms_proposals = []\<rparr>"

lemma multisig_inv_empty [simp]: "multisig_inv multisig_empty"
  by (simp add: multisig_inv_def multisig_empty_def)

text \<open>
  (C11) From an unconfigured module, after any history of configuration changes, proposals, approvals
  and executions, a proposal passes the execution guard only if at least \<open>threshold > 0\<close> different
  addresses have approved it.
\<close>

theorem execution_needs_threshold_approvals:
  "executable_backed (fold ms_step ops multisig_empty)"
  by (rule ms.run_safe) simp

text \<open>
  A proposal that was executed can be neither executed nor approved again, under any
  configuration and at any time.
\<close>

theorem executed_is_final:
  assumes "mark_executed i m = (Ok u, m')"
  shows "mark_executed i m' = (Err AlreadyExecuted, m') \<and>
    (\<forall>n. approve ev who i m' \<noteq> (Ok n, m'')) \<and>
    (\<exists>p. get_proposal m' i = Ok p \<and>
      require_can_execute ev p m'' = (if ms_config m'' = None then Err InvalidConfig else Err AlreadyExecuted))"
proof -
  from assms obtain q where m': "sget (ms_proposals m') i = Some q" "p_status q = Executed"
    by (rule mark_executed_Ok) auto
  then have "mark_executed i m' = (Err AlreadyExecuted, m')"
    by (simp add: mark_executed_def get_proposal_def)
  moreover from m' have "approve ev who i m' \<noteq> (Ok n, m'')" for n
    by (auto simp: approve_def get_proposal_def split: option.splits)
  moreover from m' have "get_proposal m' i = Ok q"
    "require_can_execute ev q m'' = (if ms_config m'' = None then Err InvalidConfig else Err AlreadyExecuted)"
    by (auto simp: get_proposal_def require_can_execute_def split: option.splits)
  ultimately show ?thesis by blast
qed

definition example_env :: env where
  "example_env = \<lparr>ev_timestamp = 1000, ev_sequence = 50, ev_self = 99,
     ev_auth = (\<lambda>_. True), ev_auth_withdraw = (\<lambda>_ _. True)\<rparr>"

definition example_multisig :: multisig where
  "example_multisig = fold ms_step
     [MsSetConfig \<lparr>signers = [1, 2, 3], threshold = 2, proposal_timeout_secs = 0\<rparr>,
      MsPropose example_env 1 [0], MsApprove example_env 2 1] multisig_empty"

theorem executed_is_final_witness:
  "mark_executed 1 (snd (mark_executed 1 example_multisig)) =
     (Err AlreadyExecuted, snd (mark_executed 1 example_multisig))"
proof -
  have "mark_executed 1 example_multisig = (Ok (), snd (mark_executed 1 example_multisig))"
    by (simp add: example_multisig_def example_env_def multisig_empty_def set_config_def
        validate_config_def propose_def approve_def mark_executed_def get_next_id_def get_proposal_def
        is_signer_def has_approved_def MAX_SIGNERS_def u64_max_def)
  from executed_is_final [OF this] show ?thesis by blast
qed

end
