(* ===== verification/Guards.thy ===== *)
theory Guards
  imports Host
begin

text \<open>
  The guards every contract of the workspace shares: the pause flags (\<open>shared/src/pausable.rs\<close>),
  the cross-contract reentrancy lock (\<open>shared/src/reentrancy.rs\<close>), the initialisation flag
  (\<open>shared/src/initializable.rs\<close>) and the contract version (\<open>shared/src/version.rs\<close>).
  An absent storage entry is \<^const>\<open>None\<close>.
\<close>

section \<open>Pause flags\<close>

datatype PauseScope = Global | Treasury | Staking | Governance | Trading | Upgrades

record pausable =
  pz_paused :: "bool option"
  pz_scoped :: "PauseScope \<Rightarrow> bool option"

definition is_paused :: "pausable \<Rightarrow> bool" where
  "is_paused p = opt_or False (pz_paused p)"

definition set_paused :: "bool \<Rightarrow> pausable \<Rightarrow> pausable" where
  "set_paused b p = p\<lparr>pz_paused := Some b\<rparr>"

definition require_not_paused :: "pausable \<Rightarrow> (bool, unit) res" where
  "require_not_paused p = (if is_paused p then Err True else Ok ())"

definition is_paused_for_scope :: "PauseScope \<Rightarrow> pausable \<Rightarrow> bool" where
  "is_paused_for_scope sc p = (case sc of Global \<Rightarrow> is_paused p | _ \<Rightarrow> opt_or False (pz_scoped p sc))"

definition set_paused_scope :: "bool \<Rightarrow> PauseScope \<Rightarrow> pausable \<Rightarrow> pausable" where
  "set_paused_scope b sc p =
     (case sc of Global \<Rightarrow> set_paused b p | _ \<Rightarrow> p\<lparr>pz_scoped := (pz_scoped p)(sc := Some b)\<rparr>)"

definition require_not_paused_scope :: "PauseScope \<Rightarrow> pausable \<Rightarrow> (PauseScope, unit) res" where
  "require_not_paused_scope sc p = (if is_paused_for_scope sc p then Err sc else Ok ())"

section \<open>Reentrancy lock\<close>

datatype ReentrancyError = ReentrancyDetected

definition require_not_locked :: "bool option \<Rightarrow> (ReentrancyError, unit) res" where
  "require_not_locked l = (if opt_or False l then Err ReentrancyDetected else Ok ())"

text \<open>
  \<open>guarded\<close> runs its argument with the lock set and removes the lock after it, whether the
  argument succeeded or not. A trap abandons the transaction, the lock with it.
\<close>

definition guarded ::
  "(ReentrancyError \<Rightarrow> 'e) \<Rightarrow> (bool option \<times> 's \<Rightarrow> (bool option \<times> 's, 'e, 'a) outcome) \<Rightarrow>
   bool option \<times> 's \<Rightarrow> (bool option \<times> 's, 'e, 'a) outcome" where
  "guarded conv f s =
     (case require_not_locked (fst s) of
        Ok _ \<Rightarrow> (case f (Some True, snd s) of
            (Panic, t) \<Rightarrow> (Panic, t)
          | (r, t) \<Rightarrow> (r, (None, snd t)))
      | Err e \<Rightarrow> (Err (conv e), s)
      | Panic \<Rightarrow> (Panic, s))"

section \<open>Initialisation flag and contract version\<close>

definition is_initialized :: "bool option \<Rightarrow> bool" where
  "is_initialized f = opt_or False f"

definition guard_not_initialized :: "bool option \<Rightarrow> (bool, unit) res" where
  "guard_not_initialized f = (if is_initialized f then Err True else Ok ())"

datatype ContractKind = SignalRegistry | AutoTrade | Oracle | StakeVault | FeeCollector

datatype VersionError = IncompatibleContractVersion | DowngradeRejected

definition STAKE_VAULT_VERSION :: nat where "STAKE_VAULT_VERSION = 2"

fun min_version_for :: "ContractKind \<Rightarrow> nat" where
  "min_version_for SignalRegistry = 2"
| "min_version_for AutoTrade = 2"
| "min_version_for Oracle = 2"
| "min_version_for StakeVault = 2"
| "min_version_for FeeCollector = 2"

definition get_contract_version :: "nat option \<Rightarrow> nat" where
  "get_contract_version v = opt_or 1 v"

definition check_compatible :: "nat \<Rightarrow> ContractKind \<Rightarrow> (VersionError, unit) res" where
  "check_compatible v kind =
     (if v < min_version_for kind then Err VersionError.IncompatibleContractVersion else Ok ())"

definition guard_upgrade :: "nat \<Rightarrow> nat \<Rightarrow> (VersionError, unit) res" where
  "guard_upgrade current new = (if new \<le> current then Err DowngradeRejected else Ok ())"

section \<open>Properties\<close>

lemma is_paused_set [simp]: "is_paused (set_paused b p) = b"
  by (simp add: is_paused_def set_paused_def)

text \<open>
  Pause scopes are independent: setting one scope is read back for that scope and changes the
  answer of no other scope.
\<close>

theorem pause_scopes_independent:
  "is_paused_for_scope sc (set_paused_scope b sc' p) =
     (if sc = sc' then b else is_paused_for_scope sc p)"
  by (cases sc; cases sc')
    (auto simp: is_paused_for_scope_def set_paused_scope_def is_paused_def set_paused_def)

lemma guarded_unlocks:
  assumes "guarded conv f s = (r, t)" "r \<noteq> Panic"
  shows "r = Err (conv ReentrancyDetected) \<and> t = s \<and> fst s = Some True \<or> fst t = None"
  using assms
  by (cases "fst s") (auto simp: guarded_def require_not_locked_def split: if_splits prod.splits res.splits)

text \<open>
  A call that re-enters a guarded section is refused with \<open>ReentrancyDetected\<close> before its
  body runs, whatever the body is: the outer section sees the refusal and nothing else.
\<close>

theorem guarded_rejects_reentry:
  "guarded conv (\<lambda>s. guarded conv' inner s) (None, x) =
     (Err (conv' ReentrancyDetected), (None, x))"
  by (simp add: guarded_def require_not_locked_def)

lemma guard_upgrade_Ok: "guard_upgrade current new = Ok u \<longleftrightarrow> current < new"
  by (auto simp: guard_upgrade_def)

end
