(* ===== verification/VaultTypes.thy ===== *)
theory VaultTypes
  imports Guards
begin

text \<open>
  The types and pure helpers of \<open>stake_vault/src/lib.rs\<close> that its modules share: the contract's
  error enum, the basis-point arithmetic, stake tiers, lock multipliers and their validation, and
  the conversions of module errors into contract errors.
\<close>

datatype StakeVaultError =
    NotInitialized | Unauthorized | NoStake | StakeLocked | ReentrancyDetected
  | StakeBelowMinimum | ContractPaused | TimelockRequired | TimelockNotElapsed | FlashLoanDetected
  | InvalidSlashTier | StakeDurationNotElapsed | NoDelegatedStake | UnstakeAlreadyQueued
  | NoUnstakeQueued | QueueEmpty | EmergencyNotConfigured | EmergencyRequestAlreadyExists
  | EmergencyRequestNotFound | EmergencyRequestExpired | EmergencyRequestNotExpired
  | AlreadyApproved | InvalidEmergencyPenalty | InvalidMultiSigConfig | RequiresMultisig
  | InvalidAppealWindow | AppealWindowClosed | SlashNotFound | AppealAlreadyExists
  | AppealAlreadyResolved | RateLimitExceeded | InvalidAmount | RemainingStakeBelowMinimum
  | IncompatibleContractVersion | InvalidLockMultiplierTier | QueueFull | InvalidSlashTierOrder
  | InvalidCooldown | BatchSizeInvalid | BatchLengthMismatch | SlashCooldownActive
  | EmergencyCooldownActive | StakeOverflow | InsufficientTokenBalance
  | InsufficientTokenAllowance | TokenOperationFailed | CampaignNotOpen
  | CampaignLiabilitiesOutstanding | CampaignAllocationExpired | CampaignAllocationNotClaimable

fun error_of_token_failure :: "TokenFailure \<Rightarrow> StakeVaultError" where
  "error_of_token_failure TokenFailure.Unauthorized = StakeVaultError.Unauthorized"
| "error_of_token_failure InsufficientBalance = InsufficientTokenBalance"
| "error_of_token_failure InsufficientAllowance = InsufficientTokenAllowance"
| "error_of_token_failure InvalidRequest = TokenOperationFailed"
| "error_of_token_failure TokenFailure.Overflow = TokenOperationFailed"
| "error_of_token_failure (OtherContractError c) = TokenOperationFailed"
| "error_of_token_failure HostError = TokenOperationFailed"

section \<open>Slash tiers\<close>

datatype SlashSeverity = Minor | Major | Critical

fun severity_code :: "SlashSeverity \<Rightarrow> nat" where
  "severity_code Minor = 0"
| "severity_code Major = 1"
| "severity_code Critical = 2"

record SlashTierConfig =
  minor_bps :: nat
  major_bps :: nat
  critical_bps :: nat

definition default_slash_config :: SlashTierConfig where
  "default_slash_config = \<lparr>minor_bps = 500, major_bps = 3000, critical_bps = 10000\<rparr>"

definition BPS_DENOMINATOR :: int where "BPS_DENOMINATOR = 10000"

definition validate_slash_tiers :: "nat \<Rightarrow> nat \<Rightarrow> nat \<Rightarrow> (StakeVaultError, unit) res" where
  "validate_slash_tiers mi ma cr =
     (if 10000 < mi \<or> 10000 < ma \<or> 10000 < cr then Err InvalidSlashTier
      else if ma < mi \<or> cr < ma then Err InvalidSlashTierOrder
      else Ok ())"

fun tier_bps :: "SlashTierConfig \<Rightarrow> SlashSeverity \<Rightarrow> nat" where
  "tier_bps c Minor = minor_bps c"
| "tier_bps c Major = major_bps c"
| "tier_bps c Critical = critical_bps c"

section \<open>Basis points\<close>

definition apply_multiplier_bps :: "int \<Rightarrow> nat \<Rightarrow> int" where
  "apply_multiplier_bps bal bps =
     (case checked_mul bal (int bps) of
        None \<Rightarrow> i128_max
      | Some v \<Rightarrow> (case checked_div v BPS_DENOMINATOR of None \<Rightarrow> i128_max | Some q \<Rightarrow> q))"

text \<open>
  The slashed part of a positive amount: \<open>bps\<close> of it, at least one unit, at most all of it. The same
  two lines are written for the provider's own stake and for every delegated stake.
\<close>

definition slash_part :: "int \<Rightarrow> nat \<Rightarrow> int" where
  "slash_part bal bps = min (max (apply_multiplier_bps bal bps) 1) bal"

section \<open>Stake tiers and lock multipliers\<close>

definition GOLD_TIER_STAKE :: int where "GOLD_TIER_STAKE = 1000000000"
definition SILVER_TIER_STAKE :: int where "SILVER_TIER_STAKE = 500000000"
definition BRONZE_TIER_STAKE :: int where "BRONZE_TIER_STAKE = 100000000"

definition stake_tier_for_amount :: "int \<Rightarrow> nat" where
  "stake_tier_for_amount amount =
     (if GOLD_TIER_STAKE \<le> amount then 3
      else if SILVER_TIER_STAKE \<le> amount then 2
      else if BRONZE_TIER_STAKE \<le> amount then 1
      else 0)"

record LockMultiplierTier =
  lt_weeks :: nat
  lt_bps :: nat

definition SECS_PER_WEEK :: nat where "SECS_PER_WEEK = 604800"
definition MAX_LOCK_MULTIPLIER_BPS :: nat where "MAX_LOCK_MULTIPLIER_BPS = 1000000"

definition default_lock_multiplier_tiers :: "LockMultiplierTier list" where
  "default_lock_multiplier_tiers =
     [\<lparr>lt_weeks = 1, lt_bps = 10000\<rparr>, \<lparr>lt_weeks = 4, lt_bps = 12500\<rparr>, \<lparr>lt_weeks = 12, lt_bps = 20000\<rparr>]"

definition lock_multiplier_bps_for_remaining :: "LockMultiplierTier list \<Rightarrow> nat \<Rightarrow> nat" where
  "lock_multiplier_bps_for_remaining tiers remaining_secs =
     (let remaining_weeks = as_u32 (remaining_secs div SECS_PER_WEEK)
      in fold (\<lambda>tier applicable.
           if lt_weeks tier \<le> remaining_weeks \<and> applicable < lt_bps tier then lt_bps tier else applicable)
         tiers 0)"

definition MAX_WITHDRAWAL_COOLDOWN_SECS :: nat where "MAX_WITHDRAWAL_COOLDOWN_SECS = 2592000"
definition LARGE_WITHDRAWAL_TIMELOCK_SECS :: nat where "LARGE_WITHDRAWAL_TIMELOCK_SECS = 3600"
definition LARGE_WITHDRAWAL_THRESHOLD :: int where "LARGE_WITHDRAWAL_THRESHOLD = 500000000"
definition GRACE_PERIOD_SECS :: nat where "GRACE_PERIOD_SECS = 86400"
definition DEFAULT_MAX_UNSTAKE_QUEUE_SIZE :: nat where "DEFAULT_MAX_UNSTAKE_QUEUE_SIZE = 200"
definition MAX_BATCH_SIZE :: nat where "MAX_BATCH_SIZE = 100"
definition DEFAULT_SLASH_COOLDOWN_LEDGERS :: nat where "DEFAULT_SLASH_COOLDOWN_LEDGERS = 100"
definition DEFAULT_PROVIDER_LOCKUP_LEDGERS :: nat where "DEFAULT_PROVIDER_LOCKUP_LEDGERS = 100"
definition MAX_PROVIDER_LOCKUP_LEDGERS :: nat where "MAX_PROVIDER_LOCKUP_LEDGERS = 1000000"

definition validate_cooldown :: "nat \<Rightarrow> (StakeVaultError, unit) res" where
  "validate_cooldown secs = (if MAX_WITHDRAWAL_COOLDOWN_SECS < secs then Err InvalidCooldown else Ok ())"

section \<open>Properties\<close>

lemma bps_quotient_bounds: "0 \<le> x \<Longrightarrow> 0 \<le> x div 10000 \<and> x div 10000 \<le> x" for x :: int
  using zdiv_mono2 [of x 1 10000] by (simp add: pos_imp_zdiv_nonneg_iff)

lemma apply_multiplier_bps_exact:
  assumes "0 \<le> bal" "in_i128 (bal * int bps)"
  shows "apply_multiplier_bps bal bps = bal * int bps div 10000"
proof -
  have "0 \<le> bal * int bps" using assms(1) by simp
  then have "tdiv (bal * int bps) 10000 = bal * int bps div 10000" by (simp add: tdiv_nonneg)
  moreover have "in_i128 (bal * int bps div 10000)"
    using assms bps_quotient_bounds [of "bal * int bps"] by (intro in_i128_between [OF assms(2)]) auto
  ultimately show ?thesis
    using assms(2) by (simp add: apply_multiplier_bps_def BPS_DENOMINATOR_def checked_mul_def checked_div_def)
qed

lemma apply_multiplier_bps_saturates:
  "\<not> in_i128 (bal * int bps) \<Longrightarrow> apply_multiplier_bps bal bps = i128_max"
  by (simp add: apply_multiplier_bps_def checked_mul_def)

lemma apply_multiplier_bps_nonneg:
  assumes "0 \<le> bal"
  shows "0 \<le> apply_multiplier_bps bal bps"
  using assms bps_quotient_bounds [of "bal * int bps"]
  by (cases "in_i128 (bal * int bps)")
    (auto simp: apply_multiplier_bps_exact apply_multiplier_bps_saturates i128_max_def)

lemma slash_part_bounds:
  assumes "0 < bal"
  shows "1 \<le> slash_part bal bps" "slash_part bal bps \<le> bal"
  using assms by (auto simp: slash_part_def)

end
