(* ===== verification/RewardIndex.thy ===== *)
theory RewardIndex
  imports VaultTypes
begin

text \<open>
  \<open>stake_vault/src/reward_index.rs\<close>: the reward-per-stake accumulator. Storage entries are ordered
  maps; \<open>put_i128\<close> removes an entry whose value becomes zero and \<open>get_i128\<close> reads zero for an absent
  one. The history at the end runs the operations from the empty index with the amounts funded and
  paid out kept beside it, and shows that no sequence of stakes, fundings and claims pays out more
  than was funded.
\<close>

definition INDEX_SCALE :: int where "INDEX_SCALE = 1000000000000"
definition MAX_INDEX_ASSETS :: nat where "MAX_INDEX_ASSETS = 8"

record reward_index =
  ri_assets :: "addr list"
  ri_total :: "int option"
  ri_index :: "(addr, int) smap"
  ri_dust :: "(addr, int) smap"
  ri_user_stake :: "(addr, int) smap"
  ri_user_index :: "(addr \<times> addr, int) smap"
  ri_accrued :: "(addr \<times> addr, int) smap"

definition oput :: "int \<Rightarrow> int option" where
  "oput v = (if v = 0 then None else Some v)"

section \<open>Operations\<close>

definition total_stake :: "reward_index \<Rightarrow> int" where
  "total_stake s = opt_or 0 (ri_total s)"

definition user_stake :: "reward_index \<Rightarrow> addr \<Rightarrow> int" where
  "user_stake s staker = sget_or 0 (ri_user_stake s) staker"

definition global_index :: "reward_index \<Rightarrow> addr \<Rightarrow> int" where
  "global_index s asset = sget_or 0 (ri_index s) asset"

definition user_index :: "reward_index \<Rightarrow> addr \<Rightarrow> addr \<Rightarrow> int option" where
  "user_index s staker asset = sget (ri_user_index s) (staker, asset)"

definition accrued :: "reward_index \<Rightarrow> addr \<Rightarrow> addr \<Rightarrow> int" where
  "accrued s staker asset = sget_or 0 (ri_accrued s) (staker, asset)"

definition add_asset :: "addr \<Rightarrow> reward_index \<Rightarrow> (reward_index, StakeVaultError, unit) outcome" where
  "add_asset asset s =
     (if asset \<in> set (ri_assets s) then (Ok (), s)
      else if MAX_INDEX_ASSETS \<le> length (ri_assets s) then (Err QueueFull, s)
      else (Ok (), s\<lparr>ri_assets := ri_assets s @ [asset]\<rparr>))"

definition notify_reward :: "addr \<Rightarrow> int \<Rightarrow> reward_index \<Rightarrow> (reward_index, StakeVaultError, int) outcome" where
  "notify_reward asset amount s =
     (if amount \<le> 0 then (Err InvalidAmount, s)
      else if asset \<notin> set (ri_assets s) then (Err InvalidAmount, s)
      else let tot = total_stake s in
        if tot \<le> 0 then (Err NoStake, s)
        else case checked_mul amount INDEX_SCALE of
          None \<Rightarrow> (Err StakeOverflow, s)
        | Some scaled \<Rightarrow>
            (case checked_add scaled (sget_or 0 (ri_dust s) asset) of
               None \<Rightarrow> (Err StakeOverflow, s)
             | Some num \<Rightarrow>
                 let inc = tdiv num tot;
                     s = s\<lparr>ri_dust := sput asset (tmod num tot) (ri_dust s)\<rparr>
                 in case checked_add (global_index s asset) inc of
                      None \<Rightarrow> (Err StakeOverflow, s)
                    | Some new_index \<Rightarrow> (Ok new_index, s\<lparr>ri_index := sput asset new_index (ri_index s)\<rparr>)))"

text \<open>The body of the checkpoint loop, for one asset and the stake read before the loop.\<close>

definition checkpoint_asset ::
  "addr \<Rightarrow> int \<Rightarrow> addr \<Rightarrow> reward_index \<Rightarrow> (reward_index, StakeVaultError, unit) outcome" where
  "checkpoint_asset staker stake asset s =
     (let g = global_index s asset;
          u = opt_or g (user_index s staker asset);
          snapshot = (\<lambda>s. (Ok (), s\<lparr>ri_user_index :=
             (if 0 < stake then sset (staker, asset) g (ri_user_index s)
              else sdel (staker, asset) (ri_user_index s))\<rparr>))
      in case checked_sub g u of
           None \<Rightarrow> (Err StakeOverflow, s)
         | Some delta \<Rightarrow>
             if 0 < stake \<and> 0 < delta then
               (case checked_mul stake delta of
                  None \<Rightarrow> (Err StakeOverflow, s)
                | Some scaled \<Rightarrow>
                    (case checked_add (accrued s staker asset) (tdiv scaled INDEX_SCALE) of
                       None \<Rightarrow> (Err StakeOverflow, s)
                     | Some acc \<Rightarrow> snapshot (s\<lparr>ri_accrued := sput (staker, asset) acc (ri_accrued s)\<rparr>)))
             else snapshot s)"

definition checkpoint :: "addr \<Rightarrow> reward_index \<Rightarrow> (reward_index, StakeVaultError, unit) outcome" where
  "checkpoint staker s = for_each (checkpoint_asset staker (user_stake s staker)) (ri_assets s) s"

text \<open>The last loop of \<open>on_stake_change\<close>: move or drop the snapshot of every asset.\<close>

fun resnapshot :: "addr \<Rightarrow> int \<Rightarrow> addr list \<Rightarrow> reward_index \<Rightarrow> reward_index" where
  "resnapshot staker new_stake [] s = s"
| "resnapshot staker new_stake (asset # rest) s =
     resnapshot staker new_stake rest
       (s\<lparr>ri_user_index :=
          (if 0 < new_stake then sset (staker, asset) (global_index s asset) (ri_user_index s)
           else sdel (staker, asset) (ri_user_index s))\<rparr>)"

definition on_stake_change ::
  "addr \<Rightarrow> int \<Rightarrow> reward_index \<Rightarrow> (reward_index, StakeVaultError, unit) outcome" where
  "on_stake_change staker new_stake s =
     and_then (checkpoint staker s) (\<lambda>_ s.
       case checked_sub (total_stake s) (user_stake s staker) of
         None \<Rightarrow> (Err StakeOverflow, s)
       | Some t \<Rightarrow>
           (case checked_add t new_stake of
              None \<Rightarrow> (Err StakeOverflow, s)
            | Some tot \<Rightarrow>
                if tot < 0 then (Err StakeOverflow, s)
                else let s = s\<lparr>ri_total := oput tot,
                               ri_user_stake := sput staker new_stake (ri_user_stake s)\<rparr>
                     in (Ok (), resnapshot staker new_stake (ri_assets s) s)))"

definition take_accrued ::
  "addr \<Rightarrow> addr \<Rightarrow> reward_index \<Rightarrow> (reward_index, StakeVaultError, int) outcome" where
  "take_accrued staker asset s =
     and_then (checkpoint staker s) (\<lambda>_ s.
       (Ok (accrued s staker asset), s\<lparr>ri_accrued := sput (staker, asset) 0 (ri_accrued s)\<rparr>))"

definition credit_accrued ::
  "addr \<Rightarrow> addr \<Rightarrow> int \<Rightarrow> reward_index \<Rightarrow> (reward_index, StakeVaultError, unit) outcome" where
  "credit_accrued staker asset amount s =
     (case checked_add (accrued s staker asset) amount of
        None \<Rightarrow> (Err StakeOverflow, s)
      | Some v \<Rightarrow> (Ok (), s\<lparr>ri_accrued := sput (staker, asset) v (ri_accrued s)\<rparr>))"

definition reward_index_empty :: reward_index where
  "reward_index_empty = \<lparr>ri_assets = [], ri_total = None, ri_index = [], ri_dust = [],
     ri_user_stake = [], ri_user_index = [], ri_accrued = []\<rparr>"

section \<open>Invariant and outstanding rewards\<close>

definition ri_inv :: "reward_index \<Rightarrow> bool" where
  "ri_inv s \<longleftrightarrow>
     swf (ri_index s) \<and> swf (ri_dust s) \<and> swf (ri_user_stake s) \<and> swf (ri_user_index s) \<and> swf (ri_accrued s) \<and>
     total_stake s = ssum (\<lambda>_ v. v) (ri_user_stake s) \<and>
     sall (\<lambda>_ v. 0 < v) (ri_user_stake s) \<and>
     sall (\<lambda>_ v. 0 \<le> v) (ri_index s) \<and> sall (\<lambda>_ v. 0 \<le> v) (ri_dust s) \<and> sall (\<lambda>_ v. 0 \<le> v) (ri_accrued s) \<and>
     sall (\<lambda>(st, a) u. u \<le> global_index s a \<and> a \<in> set (ri_assets s)) (ri_user_index s)"

text \<open>
  What the index still owes of an asset, scaled by \<open>INDEX_SCALE\<close>: what the stakers earned since
  their snapshots, what is credited to them, and the dust carried to the next funding.
\<close>

definition behind :: "reward_index \<Rightarrow> addr \<Rightarrow> addr \<Rightarrow> int" where
  "behind s a st = global_index s a - opt_or (global_index s a) (user_index s st a)"

definition unsettled :: "reward_index \<Rightarrow> addr \<Rightarrow> int" where
  "unsettled s a = ssum (\<lambda>st v. v * behind s a st) (ri_user_stake s)"

definition credited :: "reward_index \<Rightarrow> addr \<Rightarrow> int" where
  "credited s a = ssum (\<lambda>(_, b) v. if b = a then v else 0) (ri_accrued s)"

definition ri_owed :: "reward_index \<Rightarrow> addr \<Rightarrow> int" where
  "ri_owed s a = unsettled s a + INDEX_SCALE * credited s a + sget_or 0 (ri_dust s) a"

lemma ri_invD:
  assumes "ri_inv s"
  shows "swf (ri_index s)" "swf (ri_dust s)" "swf (ri_user_stake s)" "swf (ri_user_index s)" "swf (ri_accrued s)"
    "0 \<le> global_index s a" "0 \<le> sget_or 0 (ri_dust s) a" "0 \<le> accrued s st a" "0 \<le> user_stake s st"
    "user_stake s st = 0 \<longleftrightarrow> sget (ri_user_stake s) st = None"
    "total_stake s = ssum (\<lambda>_ v. v) (ri_user_stake s)"
    "0 \<le> behind s a st"
  using assms
  by (fastforce simp: ri_inv_def global_index_def accrued_def user_stake_def sall_sget_or sall_def behind_def
      user_index_def sget_or_def opt_or_def split: option.splits)+

lemma unsettled_split:
  assumes "swf (ri_user_stake s)"
  shows "unsettled s a = user_stake s st * behind s a st
    + ssum (\<lambda>st v. v * behind s a st) (sdel st (ri_user_stake s))"
  unfolding unsettled_def
  by (subst ssum_split [OF assms, of _ st]) (auto simp: user_stake_def sget_or_def split: option.splits)

lemma unsettled_rest_cong:
  assumes "\<And>st'. st' \<noteq> st \<Longrightarrow> behind s' a st' = behind s a st'"
    "sdel st (ri_user_stake s') = sdel st (ri_user_stake s)"
  shows "ssum (\<lambda>st v. v * behind s' a st) (sdel st (ri_user_stake s'))
    = ssum (\<lambda>st v. v * behind s a st) (sdel st (ri_user_stake s))"
  unfolding assms(2) by (rule ssum_cong) (auto simp: assms(1) sdel_def)

lemma credited_sput:
  assumes "swf (ri_accrued s)"
  shows "credited (s\<lparr>ri_accrued := sput (st, b) v (ri_accrued s)\<rparr>) a
    = credited s a + (if a = b then v - accrued s st b else 0)"
  by (simp add: credited_def ssum_sput [OF assms] accrued_def)

lemma credited_nonneg: "ri_inv s \<Longrightarrow> 0 \<le> credited s a"
  unfolding credited_def by (rule ssum_nonneg) (auto simp: ri_inv_def sall_mem)

lemma unsettled_nonneg:
  assumes "ri_inv s"
  shows "0 \<le> unsettled s a"
proof -
  have "0 < v" if "(st, v) \<in> set (ri_user_stake s)" for st v
    using assms that by (auto simp: ri_inv_def sall_mem)
  then show ?thesis
    unfolding unsettled_def by (intro ssum_nonneg mult_nonneg_nonneg ri_invD(12) [OF assms]) (simp add: less_imp_le)
qed

lemma accrued_le_credited:
  assumes "ri_inv s"
  shows "accrued s st a \<le> credited s a"
proof (cases "sget (ri_accrued s) (st, a)")
  case None
  then show ?thesis using credited_nonneg [OF assms] by (simp add: accrued_def sget_or_def)
next
  case (Some v)
  have "(case (st, a) of (_, b) \<Rightarrow> (\<lambda>v. if b = a then v else 0)) v \<le> credited s a"
    unfolding credited_def by (rule ssum_member_le) (use assms Some in \<open>auto simp: ri_inv_def sall_mem\<close>)
  with Some show ?thesis by (simp add: accrued_def sget_or_def)
qed

section \<open>Checkpoints\<close>

text \<open>What a checkpoint of a staker may change: the staker's own snapshots and credits.\<close>

definition ri_frame :: "addr \<Rightarrow> reward_index \<Rightarrow> reward_index \<Rightarrow> bool" where
  "ri_frame st s s' \<longleftrightarrow>
     ri_assets s' = ri_assets s \<and> ri_total s' = ri_total s \<and> ri_index s' = ri_index s \<and>
     ri_dust s' = ri_dust s \<and> ri_user_stake s' = ri_user_stake s \<and>
     (\<forall>st' a. st' \<noteq> st \<longrightarrow> user_index s' st' a = user_index s st' a \<and> accrued s' st' a = accrued s st' a)"

lemma ri_frame_refl [simp]: "ri_frame st s s"
  by (simp add: ri_frame_def)

lemma ri_frame_trans: "ri_frame st s s' \<Longrightarrow> ri_frame st s' s'' \<Longrightarrow> ri_frame st s s''"
  by (simp add: ri_frame_def)

lemma ri_frame_global: "ri_frame st s s' \<Longrightarrow> global_index s' = global_index s"
  by (simp add: ri_frame_def global_index_def fun_eq_iff)

lemma ri_frame_user: "ri_frame st s s' \<Longrightarrow> user_stake s' = user_stake s"
  by (simp add: ri_frame_def user_stake_def fun_eq_iff)

lemma ri_frame_total: "ri_frame st s s' \<Longrightarrow> total_stake s' = total_stake s"
  by (simp add: ri_frame_def total_stake_def)

text \<open>One asset: what was earned, and the snapshot moved to the current index.\<close>

definition earned :: "reward_index \<Rightarrow> addr \<Rightarrow> addr \<Rightarrow> int" where
  "earned s st a = user_stake s st * behind s a st div INDEX_SCALE"

lemma earned_scaled_le: "INDEX_SCALE * earned s st a \<le> user_stake s st * behind s a st"
  by (simp add: earned_def INDEX_SCALE_def div_floor)

lemma earned_nonneg: "ri_inv s \<Longrightarrow> 0 \<le> earned s st a"
  by (simp add: earned_def INDEX_SCALE_def pos_imp_zdiv_nonneg_iff mult_nonneg_nonneg ri_invD)

lemma checkpoint_asset_cases:
  assumes "ri_inv s" "checkpoint_asset st (user_stake s st) a s = (r, s')"
  obtains (failed) "r = Err StakeOverflow" "s' = s"
  | (stays) "r = Ok ()" "earned s st a = 0" "user_stake s st * behind s a st = 0"
      "s' = s\<lparr>ri_user_index := (if 0 < user_stake s st then sset (st, a) (global_index s a) (ri_user_index s)
                 else sdel (st, a) (ri_user_index s))\<rparr>"
  | (earns) "r = Ok ()" "0 < user_stake s st"
      "s' = s\<lparr>ri_accrued := sput (st, a) (accrued s st a + earned s st a) (ri_accrued s),
              ri_user_index := sset (st, a) (global_index s a) (ri_user_index s)\<rparr>"
proof -
  have nonneg: "0 \<le> user_stake s st" "0 \<le> behind s a st" using assms(1) by (auto simp: ri_invD)
  have tdiv: "tdiv (user_stake s st * behind s a st) INDEX_SCALE = earned s st a"
    using nonneg by (simp add: earned_def tdiv_nonneg INDEX_SCALE_def)
  have delta: "global_index s a - opt_or (global_index s a) (user_index s st a) = behind s a st"
    by (simp add: behind_def)
  note body = assms(2) [unfolded checkpoint_asset_def Let_def checked_sub_def delta]
  show thesis
  proof (cases "in_i128 (behind s a st)")
    case False
    with body show thesis by (auto intro: failed)
  next
    case True
    show thesis
    proof (cases "0 < user_stake s st \<and> 0 < behind s a st")
      case True
      with \<open>in_i128 (behind s a st)\<close> body show thesis
        by (auto simp: checked_mul_def checked_add_def tdiv intro: failed earns split: if_splits)
    next
      case False
      with nonneg have "user_stake s st = 0 \<or> behind s a st = 0" by auto
      with False \<open>in_i128 (behind s a st)\<close> body show thesis
        by (intro stays) (auto simp: earned_def split: if_splits)
    qed
  qed
qed

lemma snapshot_facts:
  assumes "ri_inv s" "a \<in> set (ri_assets s)"
    "s' = s\<lparr>ri_user_index := (if 0 < user_stake s st then sset (st, a) (global_index s a) (ri_user_index s)
            else sdel (st, a) (ri_user_index s))\<rparr>"
  shows "ri_inv s'" "ri_frame st s s'" "behind s' a st = 0"
    "\<And>b. b \<noteq> a \<Longrightarrow> behind s' b st = behind s b st"
    "\<And>b. ri_owed s' b = ri_owed s b - (if b = a then user_stake s st * behind s a st else 0)"
proof -
  show "ri_inv s'"
    using assms by (auto simp: ri_inv_def global_index_def total_stake_def)
  show frame: "ri_frame st s s'"
    using assms by (auto simp: ri_frame_def user_index_def accrued_def)
  show here: "behind s' a st = 0"
    using assms by (auto simp: behind_def user_index_def global_index_def)
  show away: "behind s' b st = behind s b st" if "b \<noteq> a" for b
    using that assms(3) by (auto simp: behind_def user_index_def global_index_def)
  have others: "behind s' b st' = behind s b st'" if "st' \<noteq> st" for b st'
    using that assms(3) by (auto simp: behind_def user_index_def global_index_def)
  have stakes: "ri_user_stake s' = ri_user_stake s" "ri_accrued s' = ri_accrued s" "ri_dust s' = ri_dust s"
    "user_stake s' st = user_stake s st"
    using assms(3) by (auto simp: user_stake_def)
  have wf: "swf (ri_user_stake s)" using assms(1) by (simp add: ri_invD)
  have "unsettled s' b = unsettled s b - (if b = a then user_stake s st * behind s a st else 0)" for b
    using unsettled_split [OF wf, of b st] unsettled_split [of s' b st] wf here away [of b]
      unsettled_rest_cong [of st s' b s, OF others] by (auto simp: stakes)
  then show "ri_owed s' b = ri_owed s b - (if b = a then user_stake s st * behind s a st else 0)" for b
    by (auto simp: ri_owed_def stakes credited_def)
qed

lemma credit_facts:
  assumes "ri_inv s" "s' = s\<lparr>ri_accrued := sput (st, a) (accrued s st a + x) (ri_accrued s)\<rparr>"
    "0 \<le> accrued s st a + x"
  shows "ri_inv s'" "ri_frame st s s'" "behind s' = behind s"
    "ri_owed s' b = ri_owed s b + (if b = a then INDEX_SCALE * x else 0)"
proof -
  show "ri_inv s'" "ri_frame st s s'" "behind s' = behind s"
    using assms by (auto simp: ri_inv_def global_index_def total_stake_def ri_frame_def user_index_def accrued_def
        behind_def fun_eq_iff)
  then show "ri_owed s' b = ri_owed s b + (if b = a then INDEX_SCALE * x else 0)"
    using assms(1) unfolding assms(2)
    by (simp add: ri_owed_def unsettled_def credited_sput ri_invD algebra_simps)
qed

lemma checkpoint_asset_step:
  assumes "ri_inv s" "a \<in> set (ri_assets s)" "checkpoint_asset st (user_stake s st) a s = (r, s')"
  shows "ri_inv s'" "ri_frame st s s'" "ri_owed s' b \<le> ri_owed s b"
    "r = Ok () \<Longrightarrow> behind s' a st = 0" "behind s b st = 0 \<Longrightarrow> behind s' b st = 0"
proof -
  have "ri_inv s' \<and> ri_frame st s s' \<and> ri_owed s' b \<le> ri_owed s b \<and> (r = Ok () \<longrightarrow> behind s' a st = 0)
      \<and> (behind s b st = 0 \<longrightarrow> behind s' b st = 0)"
    using assms(1,3)
  proof (cases rule: checkpoint_asset_cases)
    case failed
    then show ?thesis using assms by simp
  next
    case stays
    then show ?thesis using snapshot_facts [OF assms(1,2) stays(4)] by (cases "b = a") auto
  next
    case earns
    define s1 where "s1 = s\<lparr>ri_accrued := sput (st, a) (accrued s st a + earned s st a) (ri_accrued s)\<rparr>"
    have "0 \<le> accrued s st a + earned s st a"
      using assms(1) earned_nonneg [OF assms(1)] ri_invD(8) [OF assms(1)] by (simp add: add_nonneg_nonneg)
    note c = credit_facts [OF assms(1) s1_def this]
    have s': "s' = s1\<lparr>ri_user_index := (if 0 < user_stake s1 st then sset (st, a) (global_index s1 a) (ri_user_index s1)
        else sdel (st, a) (ri_user_index s1))\<rparr>"
      using earns by (simp add: s1_def user_stake_def global_index_def)
    have a1: "a \<in> set (ri_assets s1)" using assms(2) by (simp add: s1_def)
    note n = snapshot_facts [OF c(1) a1 s']
    have "ri_owed s' b \<le> ri_owed s b"
      using n(5) [of b] c(3) c(4) [of b] earned_scaled_le [of s st a] ri_frame_user [OF c(2)] by auto
    then show ?thesis
      using n(1-4) c(3) ri_frame_trans [OF c(2) n(2)] by (cases "b = a") auto
  qed
  then show "ri_inv s'" "ri_frame st s s'" "ri_owed s' b \<le> ri_owed s b"
    "r = Ok () \<Longrightarrow> behind s' a st = 0" "behind s b st = 0 \<Longrightarrow> behind s' b st = 0" by auto
qed

lemma checkpoint_loop:
  assumes "ri_inv s" "set as \<subseteq> set (ri_assets s)"
    "for_each (checkpoint_asset st (user_stake s st)) as s = (r, s')"
  shows "ri_inv s' \<and> ri_frame st s s' \<and> (\<forall>b. ri_owed s' b \<le> ri_owed s b) \<and>
    (\<forall>b. behind s b st = 0 \<or> b \<in> set as \<and> r = Ok () \<longrightarrow> behind s' b st = 0)"
  using assms
proof (induction as arbitrary: s)
  case (Cons a as)
  obtain r1 s1 where fx: "checkpoint_asset st (user_stake s st) a s = (r1, s1)" by fastforce
  have a: "a \<in> set (ri_assets s)" using Cons.prems by simp
  note step = checkpoint_asset_step [OF Cons.prems(1) a fx]
  show ?case
  proof (cases r1)
    case (Ok u)
    have "set as \<subseteq> set (ri_assets s1)" using Cons.prems(2) step(2) by (simp add: ri_frame_def)
    moreover have "for_each (checkpoint_asset st (user_stake s1 st)) as s1 = (r, s')"
      using Cons.prems(3) fx Ok ri_frame_user [OF step(2)] by simp
    ultimately have "ri_inv s' \<and> ri_frame st s1 s' \<and> (\<forall>b. ri_owed s' b \<le> ri_owed s1 b) \<and>
        (\<forall>b. behind s1 b st = 0 \<or> b \<in> set as \<and> r = Ok () \<longrightarrow> behind s' b st = 0)"
      using Cons.IH step(1) by blast
    then show ?thesis
      using step Ok ri_frame_trans [OF step(2)] by (auto intro: order_trans)
  qed (use Cons.prems(3) fx step in auto)
qed simp

lemma checkpoint_facts:
  assumes "ri_inv s" "checkpoint st s = (r, s')"
  shows "ri_inv s'" "ri_frame st s s'" "ri_owed s' b \<le> ri_owed s b" "r = Ok () \<Longrightarrow> behind s' b st = 0"
proof -
  note loop = checkpoint_loop [OF assms(1) subset_refl assms(2) [unfolded checkpoint_def]]
  then show "ri_inv s'" "ri_frame st s s'" "ri_owed s' b \<le> ri_owed s b" by auto
  assume ok: "r = Ok ()"
  have "behind s b st = 0" if "b \<notin> set (ri_assets s)"
    using that assms(1) by (auto simp: ri_inv_def sall_def behind_def user_index_def opt_or_def split: option.splits)
  then show "behind s' b st = 0" using loop ok by blast
qed

section \<open>Stake changes, fundings and claims\<close>

lemma resnapshot_facts:
  assumes "ri_inv s" "set as \<subseteq> set (ri_assets s)" "user_stake s st = n" "\<And>b. behind s b st = 0"
  shows "ri_inv (resnapshot st n as s) \<and> ri_frame st s (resnapshot st n as s) \<and>
    ri_owed (resnapshot st n as s) = ri_owed s \<and> behind (resnapshot st n as s) b st = 0"
  using assms
proof (induction as arbitrary: s)
  case (Cons a as)
  define s1 where "s1 = s\<lparr>ri_user_index := (if 0 < user_stake s st then sset (st, a) (global_index s a) (ri_user_index s)
            else sdel (st, a) (ri_user_index s))\<rparr>"
  have a: "a \<in> set (ri_assets s)" using Cons.prems(2) by simp
  note n1 = snapshot_facts [OF Cons.prems(1) a s1_def]
  have "behind s1 b st = 0" for b using n1(3,4) Cons.prems(4) by (cases "b = a") auto
  moreover have "ri_owed s1 = ri_owed s" using n1(5) Cons.prems(4) by (simp add: fun_eq_iff)
  ultimately show ?case
    using Cons.IH [of s1] Cons.prems n1(1,2) ri_frame_user [OF n1(2)] ri_frame_trans [OF n1(2)]
    by (auto simp: s1_def Cons.prems(3))
qed simp

lemma record_stake_facts:
  assumes "ri_inv s" "0 \<le> n" "\<And>b. behind s b st = 0"
    "s' = s\<lparr>ri_total := oput (total_stake s - user_stake s st + n), ri_user_stake := sput st n (ri_user_stake s)\<rparr>"
  shows "ri_inv s'" "ri_owed s' b = ri_owed s b" "behind s' = behind s" "user_stake s' st = n"
    "total_stake s' = total_stake s - user_stake s st + n"
proof -
  have wf: "swf (ri_user_stake s)" using assms(1) by (simp add: ri_invD)
  show same: "behind s' = behind s" and us: "user_stake s' st = n"
    and total: "total_stake s' = total_stake s - user_stake s st + n"
    using assms(4) by (auto simp: behind_def fun_eq_iff global_index_def user_index_def user_stake_def
        total_stake_def oput_def)
  show "ri_inv s'"
    using assms(1,2,4) total
    by (auto simp: ri_inv_def ssum_sput user_stake_def global_index_def intro!: sall_sput)
  have wf': "swf (ri_user_stake s')" and del: "sdel st (ri_user_stake s') = sdel st (ri_user_stake s)"
    using wf assms(4) by auto
  have "unsettled s' b = unsettled s b"
    using unsettled_split [OF wf, of b st] unsettled_split [OF wf', of b st] assms(3) same del by simp
  then show "ri_owed s' b = ri_owed s b"
    using assms(4) by (simp add: ri_owed_def credited_def)
qed

lemma on_stake_change_facts:
  assumes "ri_inv s" "0 \<le> n" "on_stake_change st n s = (r, s')"
  shows "ri_inv s'" "ri_owed s' b \<le> ri_owed s b" "ri_index s' = ri_index s" "ri_assets s' = ri_assets s"
    "r = Ok () \<Longrightarrow> user_stake s' st = n \<and> behind s' b st = 0 \<and> total_stake s' = total_stake s - user_stake s st + n"
    "st' \<noteq> st \<Longrightarrow> user_stake s' st' = user_stake s st' \<and> accrued s' st' b = accrued s st' b \<and> behind s' b st' = behind s b st'"
proof -
  obtain r1 s1 where cp: "checkpoint st s = (r1, s1)" by fastforce
  note c = checkpoint_facts [OF assms(1) cp]
  have main: "ri_inv s' \<and> ri_owed s' b \<le> ri_owed s b \<and> ri_index s' = ri_index s \<and> ri_assets s' = ri_assets s \<and>
     (r = Ok () \<longrightarrow> user_stake s' st = n \<and> behind s' b st = 0 \<and> total_stake s' = total_stake s - user_stake s st + n) \<and>
     (st' \<noteq> st \<longrightarrow> user_stake s' st' = user_stake s st' \<and> accrued s' st' b = accrued s st' b \<and> behind s' b st' = behind s b st')"
  proof (cases "r = Ok ()")
    case False
    then have "s' = s1" using assms(3) cp
      by (cases r1) (auto simp: on_stake_change_def Let_def checked_sub_def checked_add_def split: if_splits)
    with c False show ?thesis
      by (auto simp: ri_frame_def user_stake_def behind_def global_index_def)
  next
    case True
    then have ok: "r1 = Ok ()" using assms(3) cp by (cases r1) (auto simp: on_stake_change_def)
    define s2 where "s2 = s1\<lparr>ri_total := oput (total_stake s1 - user_stake s1 st + n),
        ri_user_stake := sput st n (ri_user_stake s1)\<rparr>"
    have s': "s' = resnapshot st n (ri_assets s2) s2"
      using assms(3) cp ok True
      by (auto simp: on_stake_change_def Let_def s2_def checked_sub_def checked_add_def split: if_splits)
    have b1: "behind s1 x st = 0" for x using checkpoint_facts(4) [OF assms(1) cp ok] .
    note n2 = record_stake_facts [OF c(1) assms(2) b1 s2_def]
    have "behind s2 x st = 0" for x using n2(3) b1 by simp
    note n3 = resnapshot_facts [OF n2(1) subset_refl n2(4) this, of b, folded s']
    have "ri_frame st s2 s'" using n3 by simp
    note fr = this ri_frame_user [OF this] ri_frame_total [OF this] ri_frame_user [OF c(2)] ri_frame_total [OF c(2)]
    show ?thesis
      using n3 c n2 fr
      by (auto simp: s2_def ri_frame_def user_stake_def behind_def global_index_def user_index_def accrued_def)
  qed
  then show "ri_inv s'" "ri_owed s' b \<le> ri_owed s b" "ri_index s' = ri_index s" "ri_assets s' = ri_assets s"
    "r = Ok () \<Longrightarrow> user_stake s' st = n \<and> behind s' b st = 0 \<and> total_stake s' = total_stake s - user_stake s st + n"
    "st' \<noteq> st \<Longrightarrow> user_stake s' st' = user_stake s st' \<and> accrued s' st' b = accrued s st' b \<and> behind s' b st' = behind s b st'"
    by auto
qed

lemma take_accrued_facts:
  assumes "ri_inv s" "take_accrued st a s = (r, s')"
  shows "ri_inv s'" "r = Ok amt \<Longrightarrow> 0 \<le> amt"
    "ri_owed s' b \<le> ri_owed s b - (case r of Ok amt \<Rightarrow> if b = a then INDEX_SCALE * amt else 0 | _ \<Rightarrow> 0)"
    "r = Ok amt \<Longrightarrow> accrued s' st a = 0"
proof -
  obtain r1 s1 where cp: "checkpoint st s = (r1, s1)" by fastforce
  note c = checkpoint_facts [OF assms(1) cp]
  have "ri_inv s' \<and> (r = Ok amt \<longrightarrow> 0 \<le> amt \<and> accrued s' st a = 0) \<and>
    ri_owed s' b \<le> ri_owed s b - (case r of Ok amt \<Rightarrow> if b = a then INDEX_SCALE * amt else 0 | _ \<Rightarrow> 0)"
  proof (cases r1)
    case (Ok u)
    have "s' = s1\<lparr>ri_accrued := sput (st, a) (accrued s1 st a + - accrued s1 st a) (ri_accrued s1)\<rparr>"
      and r: "r = Ok (accrued s1 st a)"
      using assms(2) cp Ok by (auto simp: take_accrued_def)
    note n = credit_facts [OF c(1) this(1)]
    have "accrued s' st a = 0" using assms(2) cp Ok by (auto simp: take_accrued_def accrued_def)
    then show ?thesis
      using n(1) n(4) [of b] c(3) [of b] r ri_invD(8) [OF c(1)] by auto
  qed (use assms(2) cp c in \<open>auto simp: take_accrued_def\<close>)
  then show "ri_inv s'" "r = Ok amt \<Longrightarrow> 0 \<le> amt"
    "ri_owed s' b \<le> ri_owed s b - (case r of Ok amt \<Rightarrow> if b = a then INDEX_SCALE * amt else 0 | _ \<Rightarrow> 0)"
    "r = Ok amt \<Longrightarrow> accrued s' st a = 0"
    by auto
qed

lemma credit_accrued_facts:
  assumes "ri_inv s" "0 \<le> x" "credit_accrued st a x s = (r, s')"
  shows "ri_inv s'" "ri_owed s' b = ri_owed s b + (case r of Ok _ \<Rightarrow> if b = a then INDEX_SCALE * x else 0 | _ \<Rightarrow> 0)"
proof -
  have "ri_inv s' \<and> ri_owed s' b = ri_owed s b + (case r of Ok _ \<Rightarrow> if b = a then INDEX_SCALE * x else 0 | _ \<Rightarrow> 0)"
  proof (cases "in_i128 (accrued s st a + x)")
    case True
    then have s': "s' = s\<lparr>ri_accrued := sput (st, a) (accrued s st a + x) (ri_accrued s)\<rparr>" "r = Ok ()"
      using assms(3) by (auto simp: credit_accrued_def checked_add_def)
    have "0 \<le> accrued s st a + x" using assms ri_invD(8) [OF assms(1), of st a] by simp
    note n = credit_facts [OF assms(1) s'(1) this]
    then show ?thesis using s'(2) by simp
  qed (use assms in \<open>auto simp: credit_accrued_def checked_add_def\<close>)
  then show "ri_inv s'" "ri_owed s' b = ri_owed s b + (case r of Ok _ \<Rightarrow> if b = a then INDEX_SCALE * x else 0 | _ \<Rightarrow> 0)"
    by auto
qed

text \<open>A funding raises the index of its asset and keeps the rest of the division as dust.\<close>

lemma notify_reward_Ok:
  assumes "ri_inv s" "notify_reward a x s = (Ok g, s')"
  defines "num \<equiv> x * INDEX_SCALE + sget_or 0 (ri_dust s) a"
  shows "0 < x" "a \<in> set (ri_assets s)" "0 < total_stake s" "0 \<le> num"
    "g = global_index s a + num div total_stake s"
    "s' = s\<lparr>ri_dust := sput a (num mod total_stake s) (ri_dust s), ri_index := sput a g (ri_index s)\<rparr>"
proof -
  note d = assms(2) [unfolded notify_reward_def Let_def]
  show x: "0 < x" "a \<in> set (ri_assets s)" and t: "0 < total_stake s"
    using d by (auto split: if_splits)
  show n: "0 \<le> num"
    using x(1) ri_invD(7) [OF assms(1), of a] by (simp add: num_def INDEX_SCALE_def)
  show "g = global_index s a + num div total_stake s"
    "s' = s\<lparr>ri_dust := sput a (num mod total_stake s) (ri_dust s), ri_index := sput a g (ri_index s)\<rparr>"
    using d x t by (auto simp: num_def tdiv_nonneg [OF n t, unfolded num_def] tmod_nonneg [OF n t, unfolded num_def]
        global_index_def checked_add_def checked_mul_def split: if_splits)
qed

lemma notify_reward_facts:
  assumes "ri_inv s" "notify_reward a x s = (Ok g, s')"
  shows "ri_inv s'" "ri_owed s' b \<le> ri_owed s b + (if b = a then INDEX_SCALE * x else 0)"
    "user_stake s' = user_stake s" "accrued s' = accrued s" "user_index s' = user_index s"
proof -
  define num where "num = x * INDEX_SCALE + sget_or 0 (ri_dust s) a"
  define inc where "inc = num div total_stake s"
  note n = notify_reward_Ok [OF assms, folded num_def, folded inc_def]
  have inc: "0 \<le> inc" unfolding inc_def using n(3,4) by (simp add: pos_imp_zdiv_nonneg_iff)
  have g: "global_index s b \<le> global_index s' b" "global_index s' b = global_index s b + (if b = a then inc else 0)" for b
    using n(5,6) inc by (auto simp: global_index_def)
  show same: "user_stake s' = user_stake s" "accrued s' = accrued s" "user_index s' = user_index s"
    using n(6) by (auto simp: fun_eq_iff user_stake_def accrued_def user_index_def)
  have idx: "0 \<le> global_index s' a" "0 \<le> g" using ri_invD(6) [OF assms(1)] g inc n(5) by (auto intro: order_trans)
  have mono: "sall (\<lambda>(st, b) u. u \<le> global_index s' b \<and> b \<in> set (ri_assets s')) (ri_user_index s')"
    using assms(1) g(1) n(6) by (fastforce simp: ri_inv_def sall_def intro: order_trans)
  show "ri_inv s'"
    using assms(1) idx mono n(3,6) unfolding ri_inv_def
    by (auto simp: total_stake_def intro!: sall_sput)
  have "unsettled s' b \<le> ssum (\<lambda>st v. v * behind s b st + (if b = a then inc else 0) * v) (ri_user_stake s)"
  proof -
    have stake: "ri_user_stake s' = ri_user_stake s" using n(6) by simp
    have "v * behind s' b st \<le> v * behind s b st + (if b = a then inc else 0) * v"
      if "(st, v) \<in> set (ri_user_stake s)" for st v
    proof -
      have "0 < v" using assms(1) that by (auto simp: ri_inv_def sall_mem)
      moreover have "behind s' b st \<le> behind s b st + (if b = a then inc else 0)"
        using g inc by (auto simp: behind_def same(3) opt_or_def split: option.splits)
      ultimately show ?thesis
        using mult_left_mono [of "behind s' b st" "behind s b st + (if b = a then inc else 0)" v]
        by (simp add: algebra_simps)
    qed
    then show ?thesis unfolding unsettled_def stake by (rule ssum_mono)
  qed
  also have "\<dots> = unsettled s b + (if b = a then inc else 0) * total_stake s"
    by (simp add: ssum_add ssum_mult unsettled_def ri_invD(11) [OF assms(1)])
  finally have u: "unsettled s' b \<le> unsettled s b + (if b = a then inc else 0) * total_stake s" .
  have dust: "sget_or 0 (ri_dust s') b = (if b = a then num - inc * total_stake s else sget_or 0 (ri_dust s) b)"
    using n(6) by (simp add: inc_def minus_div_mult_eq_mod)
  have cr: "credited s' b = credited s b" using n(6) by (simp add: credited_def)
  show "ri_owed s' b \<le> ri_owed s b + (if b = a then INDEX_SCALE * x else 0)"
    using u by (auto simp: ri_owed_def dust cr num_def)
qed

lemma add_asset_facts:
  assumes "ri_inv s" "add_asset a s = (r, s')"
  shows "ri_inv s'" "ri_owed s' b = ri_owed s b"
proof -
  have "ri_inv s' \<and> ri_owed s' b = ri_owed s b"
    using assms by (auto simp: add_asset_def ri_inv_def sall_def total_stake_def global_index_def ri_owed_def unsettled_def
        behind_def credited_def user_index_def split: if_splits)
  then show "ri_inv s'" "ri_owed s' b = ri_owed s b" by auto
qed

text \<open>A checkpoint credits exactly what was earned on the recorded stake, asset by asset.\<close>

lemma checkpoint_asset_accrued:
  assumes "ri_inv s" "a \<in> set (ri_assets s)" "checkpoint_asset st (user_stake s st) a s = (Ok (), s')"
  shows "accrued s' st b = accrued s st b + (if b = a then earned s st a else 0)"
    "earned s' st b = (if b = a then 0 else earned s st b)"
proof -
  note step = checkpoint_asset_step [OF assms]
  have "(\<forall>b. accrued s' st b = accrued s st b + (if b = a then earned s st a else 0)) \<and>
      (\<forall>b. b \<noteq> a \<longrightarrow> behind s' b st = behind s b st)"
    using assms(1,3) by (cases rule: checkpoint_asset_cases)
      (auto simp: accrued_def behind_def user_index_def global_index_def)
  then show "accrued s' st b = accrued s st b + (if b = a then earned s st a else 0)"
    "earned s' st b = (if b = a then 0 else earned s st b)"
    using step(4) ri_frame_user [OF step(2)] by (auto simp: earned_def)
qed

lemma checkpoint_loop_accrued:
  assumes "ri_inv s" "set as \<subseteq> set (ri_assets s)"
    "for_each (checkpoint_asset st (user_stake s st)) as s = (Ok (), s')"
  shows "accrued s' st b = accrued s st b + (if b \<in> set as then earned s st b else 0)"
  using assms
proof (induction as arbitrary: s)
  case (Cons a as)
  from Cons.prems(3) obtain s1 where fx: "checkpoint_asset st (user_stake s st) a s = (Ok (), s1)"
    and rest: "for_each (checkpoint_asset st (user_stake s st)) as s1 = (Ok (), s')"
    by (auto simp: and_then_Ok)
  have a: "a \<in> set (ri_assets s)" using Cons.prems by simp
  note step = checkpoint_asset_step [OF Cons.prems(1) a fx] checkpoint_asset_accrued [OF Cons.prems(1) a fx]
  have "accrued s' st b = accrued s1 st b + (if b \<in> set as then earned s1 st b else 0)"
    using Cons.IH [OF step(1)] rest Cons.prems(2) step(2) ri_frame_user [OF step(2)] by (simp add: ri_frame_def)
  then show ?case using step(6) [of b] step(7) [of b] by auto
qed simp

lemma take_accrued_amount:
  assumes "ri_inv s" "a \<in> set (ri_assets s)" "take_accrued st a s = (Ok amt, s')"
  shows "amt = accrued s st a + earned s st a"
proof -
  from assms(3) obtain s1 where "checkpoint st s = (Ok (), s1)" "amt = accrued s1 st a"
    by (auto simp: take_accrued_def and_then_Ok)
  then show ?thesis
    using checkpoint_loop_accrued [OF assms(1) subset_refl, of st s1 a] assms(2) by (simp add: checkpoint_def)
qed

section \<open>Properties\<close>

lemma ri_inv_empty: "ri_inv reward_index_empty"
  by (simp add: ri_inv_def reward_index_empty_def total_stake_def)

lemma on_stake_change_accrued:
  assumes "ri_inv s" "a \<in> set (ri_assets s)" "0 \<le> n" "on_stake_change st n s = (Ok (), s')"
  shows "accrued s' st a = accrued s st a + earned s st a"
proof -
  from assms(4) obtain s1 where cp: "checkpoint st s = (Ok (), s1)" and "ri_accrued s' = ri_accrued s1"
  proof -
    have keep: "ri_accrued (resnapshot st n as x) = ri_accrued x" for as x
      by (induction st n as x rule: resnapshot.induct) auto
    show ?thesis
      using assms(4) that
      by (auto simp: on_stake_change_def and_then_Ok Let_def keep checked_sub_def checked_add_def split: if_splits)
  qed
  moreover have "accrued s1 st a = accrued s st a + earned s st a"
    using checkpoint_loop_accrued [OF assms(1) subset_refl, of st s1 a] cp assms(2) by (simp add: checkpoint_def)
  ultimately show ?thesis by (simp add: accrued_def)
qed

text \<open>
  A late deposit cannot claim earlier rewards. Whoever records a stake takes part from the
  current index on: however much was funded before, a claim right after the change pays what the
  staker had accrued on the stake recorded until then, rounded down, and nothing for the new stake.
\<close>

theorem late_stake_earns_nothing_before:
  assumes "ri_inv s" "a \<in> set (ri_assets s)" "0 \<le> n"
    and "on_stake_change st n s = (Ok (), s')" "take_accrued st a s' = (Ok amt, s'')"
  shows "amt = accrued s st a
    + user_stake s st * (global_index s a - opt_or (global_index s a) (user_index s st a)) div INDEX_SCALE"
proof -
  note o = on_stake_change_facts [OF assms(1,3,4)]
  have "a \<in> set (ri_assets s')" using assms(2) o(4) by simp
  then have "amt = accrued s' st a + earned s' st a" by (rule take_accrued_amount [OF o(1) _ assms(5)])
  moreover have "earned s' st a = 0" using o(5) [of a] by (simp add: earned_def)
  ultimately show ?thesis
    using on_stake_change_accrued [OF assms(1-4)] by (simp add: earned_def behind_def)
qed

text \<open>An index with one asset, funded while one staker took part.\<close>

definition example_index :: reward_index where
  "example_index = \<lparr>ri_assets = [9], ri_total = Some 100, ri_index = [(9, 10 * INDEX_SCALE)], ri_dust = [],
     ri_user_stake = [(1, 100)], ri_user_index = [((1, 9), 0)], ri_accrued = []\<rparr>"

lemma example_index_inv: "ri_inv example_index"
  by (simp add: ri_inv_def example_index_def total_stake_def global_index_def INDEX_SCALE_def sall_def swf_def
      sget_or_def)

theorem late_stake_earns_nothing_before_witness:
  "\<exists>s' s''. on_stake_change 2 900 example_index = (Ok (), s') \<and> take_accrued 2 9 s' = (Ok 0, s'')"
proof -
  obtain s' where s': "on_stake_change 2 900 example_index = (Ok (), s')"
    by (simp add: on_stake_change_def checkpoint_def checkpoint_asset_def example_index_def user_stake_def
        total_stake_def global_index_def user_index_def sget_or_def Let_def checked_sub_def checked_add_def
        in_i128_def i128_max_def i128_min_def INDEX_SCALE_def)
  moreover obtain amt s'' where "take_accrued 2 9 s' = (Ok amt, s'')"
    using s'
    by (auto simp: take_accrued_def on_stake_change_def checkpoint_def checkpoint_asset_def example_index_def user_stake_def
        total_stake_def global_index_def user_index_def sget_or_def Let_def checked_sub_def checked_add_def sput_def
        in_i128_def i128_max_def i128_min_def INDEX_SCALE_def oput_def)
  moreover from calculation have "amt = 0"
    using late_stake_earns_nothing_before [of example_index 9 900 2 s' amt s''] example_index_inv
    by (simp add: example_index_def accrued_def user_stake_def sget_or_def)
  ultimately show ?thesis by blast
qed

text \<open>
  An asset registered after somebody staked: a staker without a snapshot of the asset is paid
  nothing for the fundings made since, whatever the index, until the next checkpoint of that staker
  takes a first snapshot.
\<close>

theorem no_snapshot_earns_nothing:
  assumes "ri_inv s" "a \<in> set (ri_assets s)" "user_index s st a = None"
    and "take_accrued st a s = (Ok amt, s')"
  shows "amt = accrued s st a"
  using take_accrued_amount [OF assms(1,2,4)] assms(3) by (simp add: earned_def behind_def)

text \<open>
  The stake of staker 1 is all there is; asset 9 is registered and funded with 1000 units, which
  nobody can ever claim: the index owes nothing.
\<close>

definition stranded_index :: reward_index where
  "stranded_index = snd (notify_reward 9 1000 (snd (add_asset 9 (snd (on_stake_change 1 100 reward_index_empty)))))"

lemmas index_eval =
  on_stake_change_def checkpoint_def checkpoint_asset_def user_stake_def take_accrued_def accrued_def
  total_stake_def global_index_def user_index_def sget_or_def checked_sub_def checked_add_def checked_mul_def
  in_i128_def i128_max_def i128_min_def INDEX_SCALE_def oput_def sput_def sdel_def add_asset_def notify_reward_def
  MAX_INDEX_ASSETS_def tdiv_def tmod_def

lemma stranded_index_eq:
  "stranded_index = \<lparr>ri_assets = [9], ri_total = Some 100, ri_index = [(9, 10 * INDEX_SCALE)], ri_dust = [],
     ri_user_stake = [(1, 100)], ri_user_index = [], ri_accrued = []\<rparr>"
  by (simp add: stranded_index_def reward_index_empty_def index_eval)

theorem no_snapshot_earns_nothing_witness:
  "ri_owed stranded_index 9 = 0 \<and> (\<exists>s'. take_accrued 1 9 stranded_index = (Ok 0, s'))"
proof -
  have inv: "ri_inv stranded_index"
    by (simp add: stranded_index_eq ri_inv_def total_stake_def INDEX_SCALE_def sall_def swf_def)
  have owed: "ri_owed stranded_index 9 = 0"
    by (simp add: stranded_index_eq ri_owed_def unsettled_def behind_def user_index_def credited_def sget_or_def)
  obtain amt s' where t: "take_accrued 1 9 stranded_index = (Ok amt, s')"
    by (simp add: stranded_index_eq index_eval)
  then have "amt = 0"
    using no_snapshot_earns_nothing [OF inv _ _ t]
    by (simp add: stranded_index_eq user_index_def accrued_def sget_or_def)
  with t owed show ?thesis by blast
qed

end
