(* ===== verification/WithdrawalClaims.thy ===== *)
theory WithdrawalClaims
  imports RewardIndex
begin

text \<open>
  \<open>stake_vault/src/withdrawal_claims.rs\<close> and the entry points of \<open>lib.rs\<close> that fund, claim, queue
  and cancel index rewards. A payout whose transfer fails is queued under a per-claimant nonce, can
  be retried once and cancelled back into the accrued balance. The state joins the reward index,
  the queue and the world of the token contracts; the interpretation of \<open>monotone_system\<close> shows
  that what the vault holds of a token covers everything the index and the queue owe, along every
  history of calls.
\<close>

datatype QueuedClaimStatus = Pending | Claimed | Cancelled

record QueuedClaim =
  qc_claimant :: addr
  qc_token :: addr
  qc_amount :: int
  qc_nonce :: nat
  qc_created_at :: nat
  qc_expires_at :: nat
  qc_status :: QueuedClaimStatus

record claim_queue =
  cq_next :: "(addr, nat) smap"
  cq_claims :: "(addr \<times> nat, QueuedClaim) smap"

record 'w index_rewards =
  ir_index :: reward_index
  ir_claims :: claim_queue
  ir_world :: 'w

definition DEFAULT_CLAIM_TTL_SECS :: nat where "DEFAULT_CLAIM_TTL_SECS = 2592000"

section \<open>Operations\<close>

definition get_claim :: "claim_queue \<Rightarrow> addr \<Rightarrow> nat \<Rightarrow> QueuedClaim option" where
  "get_claim q claimant nonce = sget (cq_claims q) (claimant, nonce)"

definition put_claim :: "QueuedClaim \<Rightarrow> claim_queue \<Rightarrow> claim_queue" where
  "put_claim c q = q\<lparr>cq_claims := sset (qc_claimant c, qc_nonce c) c (cq_claims q)\<rparr>"

text \<open>Whether the transfer went through, and the token world after the attempt.\<close>

definition try_pay :: "env \<Rightarrow> 'w token_if \<Rightarrow> addr \<Rightarrow> addr \<Rightarrow> int \<Rightarrow> 'w \<Rightarrow> bool \<times> 'w" where
  "try_pay ev tk tok dst amount w =
     (case try_transfer tk tok (ev_self ev) dst amount w of (Ok _, w') \<Rightarrow> (True, w') | (_, w') \<Rightarrow> (False, w'))"

definition pay_or_queue ::
  "env \<Rightarrow> 'w token_if \<Rightarrow> addr \<Rightarrow> addr \<Rightarrow> int \<Rightarrow> 'w index_rewards \<Rightarrow>
   ('w index_rewards, StakeVaultError, nat option) outcome" where
  "pay_or_queue ev tk claimant tok amount s =
     (if amount \<le> 0 then (Err InvalidAmount, s)
      else case try_pay ev tk tok claimant amount (ir_world s) of
        (True, w') \<Rightarrow> (Ok None, s\<lparr>ir_world := w'\<rparr>)
      | (False, w') \<Rightarrow>
          let s = s\<lparr>ir_world := w'\<rparr>;
              nonce = sget_or 0 (cq_next (ir_claims s)) claimant
          in case u64_checked_add nonce 1 of
               None \<Rightarrow> (Err StakeOverflow, s)
             | Some n' \<Rightarrow>
                 let q = (ir_claims s)\<lparr>cq_next := sset claimant n' (cq_next (ir_claims s))\<rparr>;
                     now = ev_timestamp ev;
                     c = \<lparr>qc_claimant = claimant, qc_token = tok, qc_amount = amount, qc_nonce = nonce,
                          qc_created_at = now, qc_expires_at = u64_sat_add now DEFAULT_CLAIM_TTL_SECS,
                          qc_status = Pending\<rparr>
                 in (Ok (Some nonce), s\<lparr>ir_claims := put_claim c q\<rparr>))"

definition load_pending :: "claim_queue \<Rightarrow> addr \<Rightarrow> nat \<Rightarrow> (StakeVaultError, QueuedClaim) res" where
  "load_pending q claimant nonce =
     (case get_claim q claimant nonce of
        None \<Rightarrow> Err NoUnstakeQueued
      | Some c \<Rightarrow> if qc_status c \<noteq> Pending then Err CampaignAllocationNotClaimable else Ok c)"

definition claim_queued_withdrawal ::
  "env \<Rightarrow> 'w token_if \<Rightarrow> addr \<Rightarrow> nat \<Rightarrow> 'w index_rewards \<Rightarrow> ('w index_rewards, StakeVaultError, int) outcome" where
  "claim_queued_withdrawal ev tk claimant nonce s =
     (if \<not> ev_auth ev claimant then (Panic, s)
      else case load_pending (ir_claims s) claimant nonce of
        Err e \<Rightarrow> (Err e, s)
      | Panic \<Rightarrow> (Panic, s)
      | Ok c \<Rightarrow>
          if qc_expires_at c \<le> ev_timestamp ev then (Err CampaignAllocationExpired, s)
          else let s = s\<lparr>ir_claims := put_claim (c\<lparr>qc_status := Claimed\<rparr>) (ir_claims s)\<rparr>
               in case try_transfer tk (qc_token c) (ev_self ev) claimant (qc_amount c) (ir_world s) of
                    (r, w') \<Rightarrow> and_then (map_err error_of_token_failure r, s\<lparr>ir_world := w'\<rparr>)
                      (\<lambda>_ s. (Ok (qc_amount c), s)))"

definition cancel_queued_withdrawal ::
  "env \<Rightarrow> addr \<Rightarrow> nat \<Rightarrow> 'w index_rewards \<Rightarrow> ('w index_rewards, StakeVaultError, int) outcome" where
  "cancel_queued_withdrawal ev claimant nonce s =
     (if \<not> ev_auth ev claimant then (Panic, s)
      else case load_pending (ir_claims s) claimant nonce of
        Err e \<Rightarrow> (Err e, s)
      | Panic \<Rightarrow> (Panic, s)
      | Ok c \<Rightarrow>
          let s = s\<lparr>ir_claims := put_claim (c\<lparr>qc_status := Cancelled\<rparr>) (ir_claims s)\<rparr>
          in and_then (zoom ir_index (\<lambda>i s. s\<lparr>ir_index := i\<rparr>) (credit_accrued claimant (qc_token c) (qc_amount c)) s)
               (\<lambda>_ s. (Ok (qc_amount c), s)))"

text \<open>Entry points of the vault over the index.\<close>

definition fund_index_rewards ::
  "env \<Rightarrow> 'w token_if \<Rightarrow> addr \<Rightarrow> addr \<Rightarrow> int \<Rightarrow> 'w index_rewards \<Rightarrow> ('w index_rewards, StakeVaultError, int) outcome" where
  "fund_index_rewards ev tk funder asset amount s =
     (if \<not> ev_auth ev funder then (Panic, s)
      else and_then (zoom ir_index (\<lambda>i s. s\<lparr>ir_index := i\<rparr>) (notify_reward asset amount) s)
        (\<lambda>idx s. case try_transfer tk asset funder (ev_self ev) amount (ir_world s) of
           (r, w') \<Rightarrow> and_then (map_err error_of_token_failure r, s\<lparr>ir_world := w'\<rparr>) (\<lambda>_ s. (Ok idx, s))))"

definition claim_index_rewards ::
  "env \<Rightarrow> 'w token_if \<Rightarrow> addr \<Rightarrow> addr \<Rightarrow> 'w index_rewards \<Rightarrow> ('w index_rewards, StakeVaultError, nat option) outcome" where
  "claim_index_rewards ev tk staker asset s =
     (if \<not> ev_auth ev staker then (Panic, s)
      else and_then (zoom ir_index (\<lambda>i s. s\<lparr>ir_index := i\<rparr>) (take_accrued staker asset) s)
        (\<lambda>amount s. if amount \<le> 0 then (Err InvalidAmount, s) else pay_or_queue ev tk staker asset amount s))"

section \<open>Histories\<close>

text \<open>
  Calls of the entry points, in any order and with any arguments; a failed call is rolled back.
  \<open>IrSync\<close> is a stake change of the vault, \<open>IrForeign\<close> activity of the token contracts outside the
  vault, which may not take from the vault.
\<close>

datatype 'w ir_op =
    IrAddAsset addr
  | IrFund env addr addr int
  | IrSync addr nat
  | IrClaim env addr addr
  | IrQueuedClaim env addr nat
  | IrQueuedCancel env addr nat
  | IrForeign 'w

abbreviation set_index :: "reward_index \<Rightarrow> 'w index_rewards \<Rightarrow> 'w index_rewards" where
  "set_index i s \<equiv> s\<lparr>ir_index := i\<rparr>"

fun ir_step :: "'w token_if \<Rightarrow> addr \<Rightarrow> 'w ir_op \<Rightarrow> 'w index_rewards \<Rightarrow> 'w index_rewards" where
  "ir_step tk self (IrAddAsset a) s = snd (commit s (zoom ir_index set_index (add_asset a) s))"
| "ir_step tk self (IrFund ev funder a x) s = snd (commit s (fund_index_rewards (host_env self ev) tk funder a x s))"
| "ir_step tk self (IrSync st n) s = snd (commit s (zoom ir_index set_index (on_stake_change st (int n)) s))"
| "ir_step tk self (IrClaim ev st a) s = snd (commit s (claim_index_rewards (host_env self ev) tk st a s))"
| "ir_step tk self (IrQueuedClaim ev c n) s = snd (commit s (claim_queued_withdrawal (host_env self ev) tk c n s))"
| "ir_step tk self (IrQueuedCancel ev c n) s = snd (commit s (cancel_queued_withdrawal (host_env self ev) c n s))"
| "ir_step tk self (IrForeign w) s =
     (if \<forall>t. tk_balance tk t self (ir_world s) \<le> tk_balance tk t self w then s\<lparr>ir_world := w\<rparr> else s)"

definition claim_ok :: "claim_queue \<Rightarrow> addr \<times> nat \<Rightarrow> QueuedClaim \<Rightarrow> bool" where
  "claim_ok q k c \<longleftrightarrow> (qc_claimant c, qc_nonce c) = k \<and> 0 < qc_amount c \<and> snd k < sget_or 0 (cq_next q) (fst k)"

definition queue_inv :: "claim_queue \<Rightarrow> bool" where
  "queue_inv q \<longleftrightarrow> swf (cq_claims q) \<and> sall (claim_ok q) (cq_claims q)"

definition pending :: "claim_queue \<Rightarrow> addr \<Rightarrow> int" where
  "pending q a = ssum (\<lambda>_ c. if qc_status c = Pending \<and> qc_token c = a then qc_amount c else 0) (cq_claims q)"

definition ir_surplus :: "'w token_if \<Rightarrow> addr \<Rightarrow> addr \<Rightarrow> 'w index_rewards \<Rightarrow> int" where
  "ir_surplus tk self a s = INDEX_SCALE * tk_balance tk a self (ir_world s)
     - ri_owed (ir_index s) a - INDEX_SCALE * pending (ir_claims s) a"

definition ir_inv :: "'w index_rewards \<Rightarrow> bool" where
  "ir_inv s \<longleftrightarrow> ri_inv (ir_index s) \<and> queue_inv (ir_claims s)"

lemma pending_nonneg: "queue_inv q \<Longrightarrow> 0 \<le> pending q a"
  unfolding pending_def by (rule ssum_nonneg) (fastforce simp: queue_inv_def sall_mem claim_ok_def)

text \<open>Closing a pending entry takes its amount off the queue.\<close>

lemma load_pending_Ok:
  "load_pending q cl n = Ok c \<longleftrightarrow> sget (cq_claims q) (cl, n) = Some c \<and> qc_status c = Pending"
  by (auto simp: load_pending_def get_claim_def split: option.splits)

lemma close_claim:
  assumes "queue_inv q" "load_pending q cl n = Ok c" "st \<noteq> Pending"
    "q' = put_claim (c\<lparr>qc_status := st\<rparr>) q"
  shows "queue_inv q'" "pending q' a = pending q a - (if a = qc_token c then qc_amount c else 0)" "0 < qc_amount c"
    "cq_claims q' = sset (cl, n) (c\<lparr>qc_status := st\<rparr>) (cq_claims q)" "cq_next q' = cq_next q"
proof -
  have c: "sget (cq_claims q) (cl, n) = Some c" "qc_status c = Pending" using assms(2) by (auto simp: load_pending_Ok)
  have ok: "claim_ok q (cl, n) c" using assms(1) c by (auto simp: queue_inv_def sall_def)
  then show "0 < qc_amount c" by (simp add: claim_ok_def)
  show q': "cq_claims q' = sset (cl, n) (c\<lparr>qc_status := st\<rparr>) (cq_claims q)" "cq_next q' = cq_next q"
    using ok assms(4) by (auto simp: claim_ok_def put_claim_def)
  have "claim_ok q' k d = claim_ok q k d" for k d by (simp add: claim_ok_def q'(2))
  then show "queue_inv q'"
    using assms(1) ok by (auto simp: queue_inv_def q'(1) claim_ok_def sall_def)
  show "pending q' a = pending q a - (if a = qc_token c then qc_amount c else 0)"
    using assms(1,3) c by (auto simp: pending_def q'(1) ssum_sset queue_inv_def)
qed

lemma try_pay_facts:
  assumes "sep41 tk" "try_pay ev tk tok dst x w = (paid, w')"
  shows "tk_balance tk a (ev_self ev) w - (if paid \<and> a = tok then x else 0) \<le> tk_balance tk a (ev_self ev) w'"
proof (cases "try_transfer tk tok (ev_self ev) dst x w")
  case (Pair r v)
  show ?thesis
  proof (cases r)
    case (Ok u)
    then have t: "tk_transfer tk tok (ev_self ev) dst x w = CallOk w'" "paid"
      using Pair [unfolded Ok try_transfer_Ok] assms(2) Pair Ok by (auto simp: try_pay_def)
    have "0 \<le> x" using sep41_amount(1) [OF assms(1) t(1)] .
    then show ?thesis using sep41_transfer [OF assms(1) t(1), of a "ev_self ev"] t(2) by auto
  next
    case (Err e)
    then show ?thesis using Pair assms try_transfer_Err_world [OF assms(1)] by (fastforce simp: try_pay_def)
  qed (use Pair in auto)
qed

section \<open>Every operation keeps the payouts backed\<close>

lemma fresh_nonce:
  assumes "queue_inv q"
  shows "sget (cq_claims q) (cl, sget_or 0 (cq_next q) cl) = None"
proof (rule ccontr)
  assume "sget (cq_claims q) (cl, sget_or 0 (cq_next q) cl) \<noteq> None"
  then obtain c where "sget (cq_claims q) (cl, sget_or 0 (cq_next q) cl) = Some c" by blast
  then have "claim_ok q (cl, sget_or 0 (cq_next q) cl) c" using assms by (auto simp: queue_inv_def sall_def)
  then show False by (simp add: claim_ok_def)
qed

lemma enqueue_claim:
  assumes "queue_inv q" "n = sget_or 0 (cq_next q) cl" "n' = n + 1"
    "qc_claimant c = cl" "qc_nonce c = n" "0 < qc_amount c" "qc_status c = Pending"
    "q' = put_claim c (q\<lparr>cq_next := sset cl n' (cq_next q)\<rparr>)"
  shows "queue_inv q'" "pending q' a = pending q a + (if a = qc_token c then qc_amount c else 0)"
    "cq_claims q' = sset (cl, n) c (cq_claims q)"
proof -
  show q': "cq_claims q' = sset (cl, n) c (cq_claims q)" using assms by (simp add: put_claim_def)
  have "claim_ok q' k d" if "claim_ok q k d" for k d
    using that assms by (auto simp: claim_ok_def put_claim_def)
  moreover have "claim_ok q' (cl, n) c" using assms by (simp add: claim_ok_def put_claim_def)
  ultimately show "queue_inv q'" using assms(1) by (auto simp: queue_inv_def q' sall_def)
  show "pending q' a = pending q a + (if a = qc_token c then qc_amount c else 0)"
    using fresh_nonce [OF assms(1), of cl] assms(1,2,7) by (auto simp: pending_def q' ssum_sset queue_inv_def)
qed

lemma pay_or_queue_facts:
  assumes "sep41 tk" "ir_inv s" "pay_or_queue ev tk cl tok x s = (Ok r, s')"
  shows "ir_inv s'" "ir_index s' = ir_index s" "0 < x"
    "ir_surplus tk (ev_self ev) a s - (if a = tok then INDEX_SCALE * x else 0) \<le> ir_surplus tk (ev_self ev) a s'"
proof -
  show x: "0 < x" using assms(3) by (auto simp: pay_or_queue_def split: if_splits)
  obtain paid w where pay: "try_pay ev tk tok cl x (ir_world s) = (paid, w)" by fastforce
  note w = try_pay_facts [OF assms(1) pay, of a]
  have "ir_inv s' \<and> ir_index s' = ir_index s \<and>
    ir_surplus tk (ev_self ev) a s - (if a = tok then INDEX_SCALE * x else 0) \<le> ir_surplus tk (ev_self ev) a s'"
  proof (cases paid)
    case True
    then have "s' = s\<lparr>ir_world := w\<rparr>" using assms(3) pay x by (auto simp: pay_or_queue_def)
    then show ?thesis using assms(2) w True by (auto simp: ir_inv_def ir_surplus_def INDEX_SCALE_def)
  next
    case False
    define n where "n = sget_or 0 (cq_next (ir_claims s)) cl"
    define c where "c = \<lparr>qc_claimant = cl, qc_token = tok, qc_amount = x, qc_nonce = n, qc_created_at = ev_timestamp ev,
      qc_expires_at = u64_sat_add (ev_timestamp ev) DEFAULT_CLAIM_TTL_SECS, qc_status = Pending\<rparr>"
    define q' where "q' = put_claim c ((ir_claims s)\<lparr>cq_next := sset cl (n + 1) (cq_next (ir_claims s))\<rparr>)"
    have s': "s' = s\<lparr>ir_world := w, ir_claims := q'\<rparr>"
      using assms(3) pay x False
      by (auto simp: pay_or_queue_def Let_def n_def c_def q'_def u64_checked_add_def split: if_splits)
    have "queue_inv (ir_claims s)" using assms(2) by (simp add: ir_inv_def)
    note e = enqueue_claim [OF this n_def refl _ _ _ _ q'_def]
    have "queue_inv q'" "pending q' a = pending (ir_claims s) a + (if a = tok then x else 0)"
      using e(1) e(2) [of a] x by (simp_all add: c_def)
    then show ?thesis
      using s' assms(2) w False by (auto simp: ir_inv_def ir_surplus_def INDEX_SCALE_def)
  qed
  then show "ir_inv s'" "ir_index s' = ir_index s"
    "ir_surplus tk (ev_self ev) a s - (if a = tok then INDEX_SCALE * x else 0) \<le> ir_surplus tk (ev_self ev) a s'"
    by auto
qed

lemma claim_index_rewards_facts:
  assumes "sep41 tk" "ir_inv s" "claim_index_rewards ev tk st tok s = (Ok r, s')"
  shows "ir_inv s'" "ir_surplus tk (ev_self ev) a s \<le> ir_surplus tk (ev_self ev) a s'"
proof -
  from assms(3) obtain x i where t: "take_accrued st tok (ir_index s) = (Ok x, i)"
    and p: "pay_or_queue ev tk st tok x (s\<lparr>ir_index := i\<rparr>) = (Ok r, s')"
    by (auto simp: claim_index_rewards_def and_then_Ok zoom_eq split: if_splits)
  have inv: "ri_inv (ir_index s)" using assms(2) by (simp add: ir_inv_def)
  note f = take_accrued_facts [OF inv t]
  have "ir_inv (s\<lparr>ir_index := i\<rparr>)" using f(1) assms(2) by (simp add: ir_inv_def)
  note g = pay_or_queue_facts [OF assms(1) this p]
  show "ir_inv s'" by (rule g(1))
  show "ir_surplus tk (ev_self ev) a s \<le> ir_surplus tk (ev_self ev) a s'"
    using g(4) [of a] f(3) [of a] by (auto simp: ir_surplus_def split: if_splits)
qed

lemma fund_index_rewards_facts:
  assumes "sep41 tk" "ir_inv s" "\<not> ev_auth ev (ev_self ev)" "fund_index_rewards ev tk f tok x s = (Ok g, s')"
  shows "ir_inv s'" "ir_surplus tk (ev_self ev) a s \<le> ir_surplus tk (ev_self ev) a s'"
proof -
  from assms(4) obtain i w where t: "notify_reward tok x (ir_index s) = (Ok g, i)"
    and p: "tk_transfer tk tok f (ev_self ev) x (ir_world s) = CallOk w" and f: "ev_auth ev f"
    and s': "s' = s\<lparr>ir_index := i, ir_world := w\<rparr>"
    by (auto simp: fund_index_rewards_def and_then_Ok zoom_eq call_then_Ok try_transfer_Ok split: if_splits)
  have inv: "ri_inv (ir_index s)" using assms(2) by (simp add: ir_inv_def)
  note n = notify_reward_facts [OF inv t]
  show "ir_inv s'" using n(1) assms(2) s' by (simp add: ir_inv_def)
  show "ir_surplus tk (ev_self ev) a s \<le> ir_surplus tk (ev_self ev) a s'"
    using n(2) [of a] sep41_transfer [OF assms(1) p, of a "ev_self ev"] s' f assms(3)
    by (auto simp: ir_surplus_def INDEX_SCALE_def split: if_splits)
qed

lemma claim_queued_withdrawal_facts:
  assumes "sep41 tk" "ir_inv s" "claim_queued_withdrawal ev tk cl n s = (Ok r, s')"
  shows "ir_inv s'" "ir_surplus tk (ev_self ev) a s \<le> ir_surplus tk (ev_self ev) a s'"
    "\<exists>c. sget (cq_claims (ir_claims s')) (cl, n) = Some c \<and> qc_status c = Claimed"
proof -
  from assms(3) obtain c w where l: "load_pending (ir_claims s) cl n = Ok c"
    and p: "tk_transfer tk (qc_token c) (ev_self ev) cl (qc_amount c) (ir_world s) = CallOk w"
    and s': "s' = s\<lparr>ir_claims := put_claim (c\<lparr>qc_status := Claimed\<rparr>) (ir_claims s), ir_world := w\<rparr>"
    by (auto simp: claim_queued_withdrawal_def Let_def call_then_Ok try_transfer_Ok split: if_splits res.splits)
  have q: "queue_inv (ir_claims s)" using assms(2) by (simp add: ir_inv_def)
  note k = close_claim [OF q l _ refl, of Claimed, simplified]
  show "ir_inv s'" using k(1) s' assms(2) by (simp add: ir_inv_def)
  show "ir_surplus tk (ev_self ev) a s \<le> ir_surplus tk (ev_self ev) a s'"
    using k(2) [of a] k(3) sep41_transfer [OF assms(1) p, of a "ev_self ev"] s'
    by (auto simp: ir_surplus_def INDEX_SCALE_def split: if_splits)
  show "\<exists>c. sget (cq_claims (ir_claims s')) (cl, n) = Some c \<and> qc_status c = Claimed" using k(4) s' by simp
qed

lemma cancel_queued_withdrawal_facts:
  assumes "ir_inv s" "cancel_queued_withdrawal ev cl n s = (Ok r, s')"
  shows "ir_inv s'" "ir_surplus tk self a s \<le> ir_surplus tk self a s'"
proof -
  from assms(2) obtain c i where l: "load_pending (ir_claims s) cl n = Ok c"
    and p: "credit_accrued cl (qc_token c) (qc_amount c) (ir_index s) = (Ok (), i)"
    and s': "s' = s\<lparr>ir_claims := put_claim (c\<lparr>qc_status := Cancelled\<rparr>) (ir_claims s), ir_index := i\<rparr>"
    by (auto simp: cancel_queued_withdrawal_def Let_def and_then_Ok zoom_eq split: if_splits res.splits)
  have q: "queue_inv (ir_claims s)" and inv: "ri_inv (ir_index s)" using assms(1) by (simp_all add: ir_inv_def)
  note k = close_claim [OF q l _ refl, of Cancelled, simplified]
  note f = credit_accrued_facts [OF inv less_imp_le [OF k(3)] p]
  show "ir_inv s'" using k(1) f(1) s' by (simp add: ir_inv_def)
  show "ir_surplus tk self a s \<le> ir_surplus tk self a s'"
    using k(2) [of a] f(2) [of a] s' by (auto simp: ir_surplus_def INDEX_SCALE_def split: if_splits)
qed

lemma ir_step_facts:
  assumes "sep41 tk" "ir_inv s"
  shows "ir_inv (ir_step tk self o1 s)" "ir_surplus tk self a s \<le> ir_surplus tk self a (ir_step tk self o1 s)"
proof -
  let ?P = "\<lambda>t. ir_inv t \<and> ir_surplus tk self a s \<le> ir_surplus tk self a t"
  have ri: "ri_inv (ir_index s)" using assms(2) by (simp add: ir_inv_def)
  have "?P (ir_step tk self o1 s)"
  proof (cases o1)
    case (IrAddAsset x)
    show ?thesis unfolding IrAddAsset ir_step.simps
      by (rule commit_inv [of ?P])
        (use assms(2) add_asset_facts [OF ri] in \<open>auto simp: zoom_eq ir_inv_def ir_surplus_def\<close>)
  next
    case (IrSync st n)
    show ?thesis unfolding IrSync ir_step.simps
      by (rule commit_inv [of ?P])
        (use assms(2) on_stake_change_facts(1,2) [OF ri of_nat_0_le_iff] in \<open>auto simp: zoom_eq ir_inv_def ir_surplus_def\<close>)
  next
    case (IrFund ev f x n)
    show ?thesis unfolding IrFund ir_step.simps
      by (rule commit_inv [of ?P])
        (use assms fund_index_rewards_facts [OF assms, of "host_env self ev"] in auto)
  next
    case (IrClaim ev st x)
    show ?thesis unfolding IrClaim ir_step.simps
      by (rule commit_inv [of ?P])
        (use assms claim_index_rewards_facts [OF assms, of "host_env self ev"] in auto)
  next
    case (IrQueuedClaim ev c n)
    show ?thesis unfolding IrQueuedClaim ir_step.simps
      by (rule commit_inv [of ?P])
        (use assms claim_queued_withdrawal_facts [OF assms, of "host_env self ev"] in auto)
  next
    case (IrQueuedCancel ev c n)
    show ?thesis unfolding IrQueuedCancel ir_step.simps
      by (rule commit_inv [of ?P])
        (use assms cancel_queued_withdrawal_facts [OF assms(2), of "host_env self ev"] in auto)
  next
    case (IrForeign w)
    then show ?thesis using assms(2) by (auto simp: ir_inv_def ir_surplus_def INDEX_SCALE_def)
  qed
  then show "ir_inv (ir_step tk self o1 s)" "ir_surplus tk self a s \<le> ir_surplus tk self a (ir_step tk self o1 s)"
    by auto
qed

definition ir_solvent :: "'w token_if \<Rightarrow> addr \<Rightarrow> 'w index_rewards \<Rightarrow> bool" where
  "ir_solvent tk self s \<longleftrightarrow> sep41 tk \<and> ir_inv s \<and> (\<forall>a. 0 \<le> ir_surplus tk self a s)"

definition ir_backed :: "'w token_if \<Rightarrow> addr \<Rightarrow> 'w index_rewards \<Rightarrow> bool" where
  "ir_backed tk self s \<longleftrightarrow> (\<forall>a. credited (ir_index s) a + pending (ir_claims s) a \<le> tk_balance tk a self (ir_world s))"

lemma ir_solvent_backed: "ir_solvent tk self s \<Longrightarrow> ir_backed tk self s"
  unfolding ir_solvent_def ir_backed_def
proof (intro allI)
  fix a
  assume s: "sep41 tk \<and> ir_inv s \<and> (\<forall>a. 0 \<le> ir_surplus tk self a s)"
  then have "0 \<le> unsettled (ir_index s) a" "0 \<le> sget_or 0 (ri_dust (ir_index s)) a"
    by (simp_all add: ir_inv_def unsettled_nonneg ri_invD)
  moreover have "0 \<le> ir_surplus tk self a s" using s by simp
  ultimately show "credited (ir_index s) a + pending (ir_claims s) a \<le> tk_balance tk a self (ir_world s)"
    by (simp add: ir_surplus_def ri_owed_def INDEX_SCALE_def)
qed

interpretation ir: monotone_system "ir_step tk self" "ir_solvent tk self" "ir_backed tk self" "ir_surplus tk self a"
  for tk :: "'w token_if" and self a
proof unfold_locales
  show "ir_solvent tk self (ir_step tk self o1 s)" if "ir_solvent tk self s" for s o1
    using that ir_step_facts unfolding ir_solvent_def by (meson order_trans)
qed (auto simp: ir_solvent_def ir_step_facts intro: ir_solvent_backed)

definition ir_fresh :: "'w \<Rightarrow> 'w index_rewards" where
  "ir_fresh w = \<lparr>ir_index = reward_index_empty, ir_claims = \<lparr>cq_next = [], cq_claims = []\<rparr>, ir_world = w\<rparr>"

lemma ir_fresh_solvent: "sep41 tk \<Longrightarrow> ir_solvent tk self (ir_fresh w)"
  using ri_inv_empty
  by (simp add: ir_solvent_def ir_fresh_def ir_inv_def queue_inv_def ir_surplus_def pending_def
      ri_owed_def unsettled_def credited_def reward_index_empty_def INDEX_SCALE_def sep41_balance)

text \<open>
  (C10) Index rewards are always backed. Whatever sequence of fundings, stake changes, claims,
  retries and cancellations the vault serves from an empty index, its balance of every token covers
  what is credited to stakers together with the queued payouts that are still pending.
\<close>

theorem index_rewards_backed:
  assumes "sep41 tk" "s = fold (ir_step tk self) ops (ir_fresh w)"
  shows "credited (ir_index s) a + pending (ir_claims s) a \<le> tk_balance tk a self (ir_world s)"
  using ir.run_safe [OF ir_fresh_solvent [OF assms(1)], where ops = ops] assms(2) by (simp add: ir_backed_def)

text \<open>The vault at 7 holds nothing; account 5 owns 1000 units of token 9, which claims of staker 1 will pay.\<close>

definition example_world :: ledger where
  "example_world = (\<lambda>t x. if t = 9 \<and> x = 5 then 1000 else 0)"

definition example_ev :: env where
  "example_ev = \<lparr>ev_timestamp = 1000, ev_sequence = 10, ev_self = 7, ev_auth = (\<lambda>_. True), ev_auth_withdraw = (\<lambda>_ _. True)\<rparr>"

theorem index_rewards_backed_witness:
  "\<exists>s. s = fold (ir_step ledger_token 7)
      [IrAddAsset 9, IrSync 1 100, IrFund example_ev 5 9 1000, IrSync 1 0] (ir_fresh example_world) \<and>
    credited (ir_index s) 9 + pending (ir_claims s) 9 \<le> tk_balance ledger_token 9 7 (ir_world s)"
  using index_rewards_backed [OF sep41_ledger_token] by blast

section \<open>A queued claim is paid at most once\<close>

definition claim_settled :: "addr \<Rightarrow> nat \<Rightarrow> claim_queue \<Rightarrow> bool" where
  "claim_settled cl n q \<longleftrightarrow> (\<exists>c. sget (cq_claims q) (cl, n) = Some c \<and> qc_status c \<noteq> Pending)"

lemma load_pending_settled: "claim_settled cl n q \<Longrightarrow> load_pending q cl n \<noteq> Ok c"
  by (auto simp: claim_settled_def load_pending_Ok)

lemma put_other_settled:
  assumes "queue_inv q" "load_pending q cl' n' = Ok c" "claim_settled cl n q"
  shows "claim_settled cl n (put_claim (c\<lparr>qc_status := st\<rparr>) q)"
proof -
  have "claim_ok q (cl', n') c" using assms(1,2) by (auto simp: queue_inv_def sall_def load_pending_Ok)
  then have "put_claim (c\<lparr>qc_status := st\<rparr>) q = q\<lparr>cq_claims := sset (cl', n') (c\<lparr>qc_status := st\<rparr>) (cq_claims q)\<rparr>"
    by (auto simp: put_claim_def claim_ok_def)
  moreover have "(cl', n') \<noteq> (cl, n)" using assms(2,3) load_pending_settled by blast
  ultimately show ?thesis using assms(3) by (auto simp: claim_settled_def)
qed

lemma pay_or_queue_settled:
  assumes "queue_inv (ir_claims s)" "pay_or_queue ev tk cl' tok x s = (r, s')" "claim_settled cl n (ir_claims s)"
  shows "claim_settled cl n (ir_claims s')"
proof -
  have "claim_settled cl n (ir_claims s')" if "ir_claims s' = put_claim c ((ir_claims s)\<lparr>cq_next := m\<rparr>)"
    "qc_claimant c = cl'" "qc_nonce c = sget_or 0 (cq_next (ir_claims s)) cl'" for c m
    using that assms(3) fresh_nonce [OF assms(1), of cl']
    by (auto simp: claim_settled_def put_claim_def)
  then show ?thesis
    using assms(2,3) by (auto simp: pay_or_queue_def Let_def split: if_splits prod.splits bool.splits option.splits)
qed

definition ir_settled :: "'w token_if \<Rightarrow> addr \<Rightarrow> nat \<Rightarrow> 'w index_rewards \<Rightarrow> bool" where
  "ir_settled tk cl n s \<longleftrightarrow> sep41 tk \<and> ir_inv s \<and> claim_settled cl n (ir_claims s)"

lemma ir_step_settled:
  assumes "ir_inv s" "claim_settled cl n (ir_claims s)"
  shows "claim_settled cl n (ir_claims (ir_step tk self o1 s))"
proof -
  let ?P = "\<lambda>t. claim_settled cl n (ir_claims t)"
  have q: "queue_inv (ir_claims s)" using assms(1) by (simp add: ir_inv_def)
  show ?thesis
  proof (cases o1)
    case (IrClaim ev st x)
    show ?thesis unfolding IrClaim ir_step.simps
      by (rule commit_inv [of ?P])
        (use assms(2) q in \<open>auto simp: claim_index_rewards_def and_then_Ok zoom_eq split: if_splits
           elim!: pay_or_queue_settled [rotated]\<close>)
  next
    case (IrQueuedClaim ev c m)
    show ?thesis unfolding IrQueuedClaim ir_step.simps
      by (rule commit_inv [of ?P])
        (use assms(2) q in \<open>auto simp: claim_queued_withdrawal_def Let_def call_then_Ok
           split: if_splits res.splits intro: put_other_settled\<close>)
  next
    case (IrQueuedCancel ev c m)
    show ?thesis unfolding IrQueuedCancel ir_step.simps
      by (rule commit_inv [of ?P])
        (use assms(2) q in \<open>auto simp: cancel_queued_withdrawal_def Let_def and_then_Ok zoom_eq
           split: if_splits res.splits intro: put_other_settled\<close>)
  qed (use assms(2) in \<open>auto intro!: commit_inv [of ?P] simp: zoom_eq fund_index_rewards_def and_then_Ok call_then_Ok
        split: if_splits\<close>)
qed

interpretation settled: invariant_system "ir_step tk self" "ir_settled tk cl n"
    "\<lambda>s. \<forall>c. load_pending (ir_claims s) cl n \<noteq> Ok c"
  for tk :: "'w token_if" and self cl n
  by unfold_locales (auto simp: ir_settled_def ir_step_settled ir_step_facts load_pending_settled)

text \<open>
  A queued payout is paid at most once: after a claim of a nonce succeeded, no later claim and
  no cancellation of that nonce succeeds, whatever calls happen in between.
\<close>

theorem queued_claim_paid_once:
  assumes "sep41 tk" "ir_inv s" "claim_queued_withdrawal ev tk cl n s = (Ok amt, s')"
    and "t = fold (ir_step tk self) ops s'"
  shows "(\<nexists>x u. claim_queued_withdrawal ev' tk cl n t = (Ok x, u)) \<and>
    (\<nexists>x u. cancel_queued_withdrawal ev' cl n t = (Ok x, u))"
proof -
  note f = claim_queued_withdrawal_facts [OF assms(1-3)]
  have "ir_settled tk cl n s'" using assms(1) f(1,3) by (auto simp: ir_settled_def claim_settled_def)
  then have "\<forall>c. load_pending (ir_claims t) cl n \<noteq> Ok c" unfolding assms(4) by (rule settled.run_safe)
  then show ?thesis
    by (auto simp: claim_queued_withdrawal_def cancel_queued_withdrawal_def split: res.splits if_splits)
qed

text \<open>A queue with one pending claim of 40 units of token 9 for account 1.\<close>

definition example_claims :: "ledger index_rewards" where
  "example_claims = \<lparr>ir_index = reward_index_empty,
     ir_claims = \<lparr>cq_next = [(1, 1)], cq_claims = [((1, 0), \<lparr>qc_claimant = 1, qc_token = 9, qc_amount = 40, qc_nonce = 0,
        qc_created_at = 0, qc_expires_at = 2000, qc_status = Pending\<rparr>)]\<rparr>,
     ir_world = (\<lambda>t x. if t = 9 \<and> x = 7 then 50 else 0)\<rparr>"

theorem queued_claim_paid_once_witness:
  "\<exists>s'. claim_queued_withdrawal example_ev ledger_token 1 0 example_claims = (Ok 40, s') \<and>
    (\<nexists>x u. claim_queued_withdrawal example_ev ledger_token 1 0 (fold (ir_step ledger_token 7) [IrAddAsset 9] s') = (Ok x, u))"
proof -
  obtain s' where s': "claim_queued_withdrawal example_ev ledger_token 1 0 example_claims = (Ok 40, s')"
    by (simp add: claim_queued_withdrawal_def example_claims_def example_ev_def load_pending_def get_claim_def
        try_transfer_def ledger_token_def ledger_transfer_def ledger_balance_def i128_max_def Let_def)
  moreover have "ir_inv example_claims"
    by (simp add: ir_inv_def example_claims_def ri_inv_empty queue_inv_def swf_def sall_def claim_ok_def sget_or_def)
  ultimately show ?thesis
    using queued_claim_paid_once [OF sep41_ledger_token _ s' refl, of example_ev 7 "[IrAddAsset 9]"] by blast
qed

end
