(* ===== verification/VaultState.thy ===== *)
theory VaultState
  imports Multisig RateLimit WithdrawalClaims
begin

text \<open>
  The state of the stake vault (\<open>stake_vault/src/lib.rs\<close>): one field per storage key of
  \<open>StorageKey\<close> and of the modules the core entry points use, an absent entry being \<^const>\<open>None\<close> or a
  missing key. \<open>v_world\<close> is the world of the token contracts the vault calls. The helpers here are
  the private functions of \<open>lib.rs\<close> that several entry points share.
\<close>

record StakeInfoV2 =
  balance :: int
  locked_until :: nat
  last_updated :: nat

record ProviderLockup =
  start_ledger :: nat
  end_ledger :: nat

record UnstakeRequest =
  ticket :: nat
  rq_user :: addr
  queued_at :: nat

datatype AppealStatus = Pending | Upheld | Reversed

record SlashRecord =
  sr_slash_id :: nat
  sr_provider :: addr
  sr_severity :: nat
  sr_slash_amount :: int
  sr_slashed_at :: nat
  sr_reason :: symbol
  sr_cooldown_expires_at :: nat

record SlashAppeal =
  ap_slash_id :: nat
  ap_appellant :: addr
  ap_evidence_uri :: string
  ap_submitted_at :: nat
  ap_status :: AppealStatus

record EmergencyMultiSigConfig =
  em_admins :: "addr list"
  em_required :: nat
  em_penalty_bps :: nat
  em_timeout_secs :: nat

record EmergencyRequest =
  er_staker :: addr
  er_requested_at :: nat
  er_approvals :: "addr list"

text \<open>The entries of \<open>StorageKey\<close>, grouped: settings, slashes and appeals, the unstake queue, emergency requests.\<close>

record vault_config =
  vc_admin :: "addr option"
  vc_token :: "addr option"
  vc_registry :: "addr option"
  vc_governance :: "addr option"
  vc_min_stake :: "int option"
  vc_min_duration :: "nat option"
  vc_slash_tiers :: "SlashTierConfig option"
  vc_slash_cooldown :: "nat option"
  vc_appeal_window :: "nat option"
  vc_withdrawal_cooldown :: "nat option"
  vc_lock_tiers :: "LockMultiplierTier list option"
  vc_max_queue :: "nat option"
  vc_default_lockup :: "nat option"

record slash_book =
  sb_counter :: "nat option"
  sb_records :: "(nat, SlashRecord) smap"
  sb_appeals :: "(nat, SlashAppeal) smap"
  sb_held :: "(nat, int) smap"
  sb_last :: "(addr, nat) smap"

record unstake_queue =
  uq_head :: "nat option"
  uq_tail :: "nat option"
  uq_entries :: "(nat, UnstakeRequest) smap"
  uq_tickets :: "(addr, nat) smap"

record emergency =
  em_config :: "EmergencyMultiSigConfig option"
  em_requests :: "(addr, EmergencyRequest) smap"
  em_cooldown :: "nat option"
  em_last :: "(addr, nat) smap"

record 'w vault =
  v_config :: vault_config
  v_stakes :: "(addr, StakeInfoV2) smap"
  v_delegated :: "(addr, (addr, int) smap) smap"
  v_total_delegated :: "(addr, int) smap"
  v_slashes :: slash_book
  v_queue :: unstake_queue
  v_emergency :: emergency
  v_lockups :: "(addr, ProviderLockup) smap"
  v_below_since :: "(addr, nat) smap"
  v_large_request :: "(addr, nat) smap"
  v_deposit_time :: "(addr, nat) smap"
  v_last_stake :: "(addr, nat) smap"
  v_pause :: pausable
  v_multisig :: multisig
  v_rate :: rate_state
  v_index :: reward_index
  v_claims :: claim_queue
  v_initialized :: "bool option"
  v_version :: "nat option"
  v_layout :: "nat option"
  v_reentrancy :: "bool option"
  v_withdraw_lock :: "bool option"
  v_world :: 'w

type_synonym ('w, 'a) vault_call = "('w vault, StakeVaultError, 'a) outcome"

section \<open>Shared helpers\<close>

definition no_stake_info :: StakeInfoV2 where
  "no_stake_info = \<lparr>balance = 0, locked_until = 0, last_updated = 0\<rparr>"

definition get_stake :: "'w vault \<Rightarrow> addr \<Rightarrow> int" where
  "get_stake v staker = (case sget (v_stakes v) staker of None \<Rightarrow> 0 | Some i \<Rightarrow> balance i)"

definition put_stake :: "addr \<Rightarrow> StakeInfoV2 \<Rightarrow> 'w vault \<Rightarrow> 'w vault" where
  "put_stake staker i v = v\<lparr>v_stakes := sset staker i (v_stakes v)\<rparr>"

definition stake_token :: "'w vault \<Rightarrow> addr option" where
  "stake_token v = vc_token (v_config v)"

definition index_change :: "addr \<Rightarrow> int \<Rightarrow> 'w vault \<Rightarrow> ('w, unit) vault_call" where
  "index_change staker n v = zoom v_index (\<lambda>i v. v\<lparr>v_index := i\<rparr>) (on_stake_change staker n) v"

text \<open>A call of the stake token whose failure is mapped to an error of the vault.\<close>

definition token_call :: "('w \<Rightarrow> ('w, TokenFailure, unit) outcome) \<Rightarrow> 'w vault \<Rightarrow> ('w, unit) vault_call" where
  "token_call f v = (case f (v_world v) of (r, w) \<Rightarrow> (map_err error_of_token_failure r, v\<lparr>v_world := w\<rparr>))"

definition get_withdrawal_cooldown_secs :: "'w vault \<Rightarrow> nat" where
  "get_withdrawal_cooldown_secs v = opt_or LARGE_WITHDRAWAL_TIMELOCK_SECS (vc_withdrawal_cooldown (v_config v))"

definition default_lockup_ledgers :: "'w vault \<Rightarrow> nat" where
  "default_lockup_ledgers v = opt_or DEFAULT_PROVIDER_LOCKUP_LEDGERS (vc_default_lockup (v_config v))"

definition read_provider_lockup :: "'w vault \<Rightarrow> addr \<Rightarrow> ProviderLockup option" where
  "read_provider_lockup v provider = sget (v_lockups v) provider"

definition lock_provider :: "env \<Rightarrow> addr \<Rightarrow> nat \<Rightarrow> 'w vault \<Rightarrow> 'w vault" where
  "lock_provider ev provider ledgers v =
     (if ledgers = 0 then v
      else let now = ev_sequence ev;
               end' = u32_sat_add now ledgers;
               lockup = (case read_provider_lockup v provider of
                   Some existing \<Rightarrow>
                     if now \<le> end_ledger existing
                     then \<lparr>start_ledger = start_ledger existing, end_ledger = max (end_ledger existing) end'\<rparr>
                     else \<lparr>start_ledger = now, end_ledger = end'\<rparr>
                 | None \<Rightarrow> \<lparr>start_ledger = now, end_ledger = end'\<rparr>)
           in v\<lparr>v_lockups := sset provider lockup (v_lockups v)\<rparr>)"

definition require_lockup_released :: "env \<Rightarrow> addr \<Rightarrow> 'w vault \<Rightarrow> ('w, unit) vault_call" where
  "require_lockup_released ev provider v =
     (case read_provider_lockup v provider of
        Some lockup \<Rightarrow>
          if ev_sequence ev \<le> end_ledger lockup then (Err StakeLocked, v)
          else (Ok (), v\<lparr>v_lockups := sdel provider (v_lockups v)\<rparr>)
      | None \<Rightarrow> (Ok (), v))"

definition vault_require_not_paused :: "'w vault \<Rightarrow> ('w, unit) vault_call" where
  "vault_require_not_paused v = (map_err (\<lambda>_. ContractPaused) (require_not_paused (v_pause v)), v)"

definition require_signal_registry :: "addr \<Rightarrow> 'w vault \<Rightarrow> ('w, unit) vault_call" where
  "require_signal_registry caller v =
     (case vc_registry (v_config v) of
        None \<Rightarrow> (Err NotInitialized, v)
      | Some r \<Rightarrow> if caller \<noteq> r then (Err StakeVaultError.Unauthorized, v) else (Ok (), v))"

text \<open>
  The reentrancy wrapper of \<open>do_withdraw\<close> and \<open>do_partial_unstake\<close>: a lock in temporary storage
  around the body, removed whatever the body returns.
\<close>

definition withdraw_locked :: "('w vault \<Rightarrow> ('w, 'a) vault_call) \<Rightarrow> 'w vault \<Rightarrow> ('w, 'a) vault_call" where
  "withdraw_locked body v =
     (if opt_or False (v_withdraw_lock v) then (Err StakeVaultError.ReentrancyDetected, v)
      else case body (v\<lparr>v_withdraw_lock := Some True\<rparr>) of
             (Panic, t) \<Rightarrow> (Panic, t)
           | (r, t) \<Rightarrow> (r, t\<lparr>v_withdraw_lock := None\<rparr>))"

text \<open>The flash-loan check and the time-lock of a withdrawal of \<open>amount\<close>; both only read.\<close>

definition flash_loan_detected :: "env \<Rightarrow> addr \<Rightarrow> 'w vault \<Rightarrow> bool" where
  "flash_loan_detected ev staker v \<longleftrightarrow>
     sget_or 0 (v_last_stake v) staker = ev_sequence ev \<and> ev_sequence ev \<noteq> 0"

definition large_withdrawal_check :: "env \<Rightarrow> addr \<Rightarrow> int \<Rightarrow> 'w vault \<Rightarrow> (StakeVaultError, bool) res" where
  "large_withdrawal_check ev staker amount v =
     (if LARGE_WITHDRAWAL_THRESHOLD \<le> amount then
        (case sget (v_large_request v) staker of
           None \<Rightarrow> Err TimelockRequired
         | Some requested_at \<Rightarrow>
             if ev_timestamp ev < u64_sat_add requested_at (get_withdrawal_cooldown_secs v)
             then Err TimelockNotElapsed else Ok True)
      else Ok False)"

section \<open>Properties of the helpers\<close>

lemma token_call_Ok_eq:
  "token_call f v = (Ok u, v') \<longleftrightarrow> (\<exists>w. f (v_world v) = (Ok (), w) \<and> v' = v\<lparr>v_world := w\<rparr>)"
  by (auto simp: token_call_def map_err_Ok split: prod.splits)

lemma index_change_eq:
  "index_change st n v = (r, v') \<longleftrightarrow> (\<exists>i. on_stake_change st n (v_index v) = (r, i) \<and> v' = v\<lparr>v_index := i\<rparr>)"
  by (simp add: index_change_def zoom_eq)

lemma vault_require_not_paused_Ok [res_simps]:
  "vault_require_not_paused v = (Ok u, v') \<longleftrightarrow> \<not> is_paused (v_pause v) \<and> v' = v"
  by (auto simp: vault_require_not_paused_def require_not_paused_def)

lemma vault_paused: "is_paused (v_pause v) \<Longrightarrow> vault_require_not_paused v = (Err ContractPaused, v)"
  by (simp add: vault_require_not_paused_def require_not_paused_def)

lemma require_lockup_released_Ok:
  "require_lockup_released ev st v = (Ok u, v') \<Longrightarrow>
     v' = v\<lparr>v_lockups := sdel st (v_lockups v)\<rparr> \<or> v' = v"
  by (auto simp: require_lockup_released_def split: option.splits if_splits)

lemma require_lockup_released_Err:
  "require_lockup_released ev st v = (Err e, v') \<Longrightarrow> v' = v \<and> e = StakeLocked"
  by (auto simp: require_lockup_released_def split: option.splits if_splits)

lemma require_lockup_released_no_panic [simp]: "require_lockup_released ev st v \<noteq> (Panic, v')"
  by (auto simp: require_lockup_released_def split: option.splits if_splits)

lemma require_signal_registry_Ok [res_simps]:
  "require_signal_registry c v = (Ok u, v') \<longleftrightarrow> vc_registry (v_config v) = Some c \<and> v' = v"
  by (auto simp: require_signal_registry_def split: option.splits if_splits)

lemma withdraw_locked_Ok:
  "withdraw_locked body v = (Ok x, v') \<longleftrightarrow>
     \<not> opt_or False (v_withdraw_lock v) \<and>
     (\<exists>t. body (v\<lparr>v_withdraw_lock := Some True\<rparr>) = (Ok x, t) \<and> v' = t\<lparr>v_withdraw_lock := None\<rparr>)"
  by (auto simp: withdraw_locked_def split: prod.splits res.splits)

text \<open>
  A lockup only ever extends: after a lockup event the provider is locked through at least the end
  of the new window and of any window still active.
\<close>

lemma lock_provider_end:
  assumes "0 < n" "u = lock_provider ev p n v"
  shows "\<exists>l. read_provider_lockup u p = Some l \<and> u32_sat_add (ev_sequence ev) n \<le> end_ledger l \<and>
    (\<forall>old. read_provider_lockup v p = Some old \<longrightarrow> ev_sequence ev \<le> end_ledger old \<longrightarrow> end_ledger old \<le> end_ledger l)"
  using assms by (auto simp: lock_provider_def Let_def read_provider_lockup_def split: option.splits)

lemma lock_provider_frame:
  "\<exists>ls. lock_provider ev p n v = v\<lparr>v_lockups := ls\<rparr>"
proof (cases "n = 0")
  case True
  then have "lock_provider ev p n v = v\<lparr>v_lockups := v_lockups v\<rparr>" by (simp add: lock_provider_def)
  then show ?thesis by blast
qed (auto simp: lock_provider_def Let_def)

section \<open>Liabilities\<close>

text \<open>
  What the vault owes in stake tokens: the stakes, the delegated stakes and the slashed funds held
  for appeals. Beside it stand the index rewards and queued payouts of any token. The surplus of a
  token is what the vault holds of it beyond all of that, in the scale of the index.
\<close>

definition stakes_total :: "'w vault \<Rightarrow> int" where
  "stakes_total v = ssum (\<lambda>_ i. balance i) (v_stakes v)"

definition delegated_total :: "'w vault \<Rightarrow> int" where
  "delegated_total v = ssum (\<lambda>_ d. ssum (\<lambda>_ x. x) d) (v_delegated v)"

definition held_total :: "'w vault \<Rightarrow> int" where
  "held_total v = ssum (\<lambda>_ x. x) (sb_held (v_slashes v))"

definition core_liability :: "'w vault \<Rightarrow> int" where
  "core_liability v = stakes_total v + delegated_total v + held_total v"

definition vault_surplus :: "'w token_if \<Rightarrow> addr \<Rightarrow> addr \<Rightarrow> 'w vault \<Rightarrow> int" where
  "vault_surplus tk self a v = INDEX_SCALE * tk_balance tk a self (v_world v) - ri_owed (v_index v) a
     - INDEX_SCALE * pending (v_claims v) a
     - INDEX_SCALE * (if stake_token v = Some a then core_liability v else 0)"

definition vault_inv :: "'w vault \<Rightarrow> bool" where
  "vault_inv v \<longleftrightarrow>
     swf (v_stakes v) \<and> sall (\<lambda>_ i. 0 \<le> balance i) (v_stakes v) \<and>
     swf (v_delegated v) \<and> sall (\<lambda>_ d. swf d \<and> sall (\<lambda>_ x. 0 \<le> x) d) (v_delegated v) \<and>
     (\<forall>p. sget_or 0 (v_total_delegated v) p = ssum (\<lambda>_ x. x) (opt_or [] (sget (v_delegated v) p))) \<and>
     swf (sb_held (v_slashes v)) \<and> sall (\<lambda>_ x. 0 \<le> x) (sb_held (v_slashes v)) \<and>
     ri_inv (v_index v) \<and> queue_inv (v_claims v)"

definition vault_solvent :: "'w token_if \<Rightarrow> addr \<Rightarrow> 'w vault \<Rightarrow> bool" where
  "vault_solvent tk self v \<longleftrightarrow> sep41 tk \<and> vault_inv v \<and> (\<forall>a. 0 \<le> vault_surplus tk self a v)"

text \<open>The part of the storage these quantities read.\<close>

definition money :: "'w vault \<Rightarrow> _" where
  "money v = (v_stakes v, v_delegated v, v_total_delegated v, sb_held (v_slashes v), v_index v, v_claims v, v_world v, stake_token v)"

lemma money_cong:
  assumes "money v' = money v"
  shows "vault_inv v' = vault_inv v" "vault_surplus tk self a v' = vault_surplus tk self a v"
    "core_liability v' = core_liability v" "vault_solvent tk self v' = vault_solvent tk self v"
  using assms by (auto simp: money_def vault_inv_def vault_surplus_def core_liability_def stakes_total_def
      delegated_total_def held_total_def vault_solvent_def)

lemma vault_invD:
  assumes "vault_inv v"
  shows "0 \<le> stakes_total v" "0 \<le> delegated_total v" "0 \<le> held_total v" "0 \<le> get_stake v st"
proof -
  show "0 \<le> stakes_total v" unfolding stakes_total_def
    by (rule ssum_nonneg) (use assms in \<open>auto simp: vault_inv_def sall_mem\<close>)
  have "0 \<le> ssum (\<lambda>_ x. x) d" if "(p, d) \<in> set (v_delegated v)" for p d
    by (rule ssum_nonneg) (use assms that in \<open>force simp: vault_inv_def sall_mem\<close>)
  then show "0 \<le> delegated_total v" unfolding delegated_total_def by (rule ssum_nonneg)
  show "0 \<le> held_total v" unfolding held_total_def
    by (rule ssum_nonneg) (use assms in \<open>auto simp: vault_inv_def sall_mem\<close>)
  show "0 \<le> get_stake v st" using assms by (auto simp: vault_inv_def sall_def get_stake_def split: option.splits)
qed

lemma stakes_total_put:
  assumes "swf (v_stakes v)"
  shows "stakes_total (put_stake st i v) = stakes_total v - get_stake v st + balance i"
  using assms by (cases "sget (v_stakes v) st") (simp_all add: stakes_total_def put_stake_def ssum_sset get_stake_def)

text \<open>A solvent vault holds at least its liabilities; none of them can overflow.\<close>

lemma solvent_backed:
  assumes "vault_solvent tk self v" "stake_token v = Some tok"
  shows "core_liability v + credited (v_index v) tok + pending (v_claims v) tok \<le> tk_balance tk tok self (v_world v)"
proof -
  have inv: "ri_inv (v_index v)" using assms by (simp add: vault_solvent_def vault_inv_def)
  have "0 \<le> vault_surplus tk self tok v" using assms by (simp add: vault_solvent_def)
  then show ?thesis
    using assms(2) unsettled_nonneg [OF inv, of tok] ri_invD(7) [OF inv, of tok]
    by (simp add: vault_surplus_def ri_owed_def INDEX_SCALE_def)
qed

lemma solvent_bound:
  assumes "vault_solvent tk self v" "stake_token v = Some tok"
  shows "core_liability v \<le> i128_max"
proof -
  have "core_liability v \<le> tk_balance tk tok self (v_world v)"
    using solvent_backed [OF assms] assms credited_nonneg [of "v_index v" tok] pending_nonneg [of "v_claims v" tok]
    by (simp add: vault_solvent_def vault_inv_def)
  also have "\<dots> \<le> i128_max" using assms(1) sep41_balance(2) [of tk tok self "v_world v"] by (simp add: vault_solvent_def in_i128_def)
  finally show ?thesis .
qed

text \<open>What a step has to show: the invariant again, and no token's surplus smaller than before.\<close>

definition covered :: "'w token_if \<Rightarrow> addr \<Rightarrow> 'w vault \<Rightarrow> 'w vault \<Rightarrow> bool" where
  "covered tk self v v' \<longleftrightarrow> vault_inv v' \<and> (\<forall>a. vault_surplus tk self a v \<le> vault_surplus tk self a v')"

lemma covered_solvent: "vault_solvent tk self v \<Longrightarrow> covered tk self v v' \<Longrightarrow> vault_solvent tk self v'"
  unfolding vault_solvent_def covered_def by (meson order_trans)

lemma covered_trans: "covered tk self v v' \<Longrightarrow> covered tk self v' v'' \<Longrightarrow> covered tk self v v''"
  unfolding covered_def by (meson order_trans)

lemma covered_money: "vault_solvent tk self v \<Longrightarrow> money v' = money v \<Longrightarrow> covered tk self v v'"
  using money_cong(1,2) [of v' v] by (simp add: covered_def vault_solvent_def)

text \<open>The quantities of a step, compared one by one.\<close>

lemma coveredI:
  assumes "vault_solvent tk self v" "vault_inv v'" "stake_token v' = stake_token v" "v_claims v' = v_claims v"
    "\<And>a. ri_owed (v_index v') a \<le> ri_owed (v_index v) a"
    "\<And>a. stake_token v \<noteq> Some a \<Longrightarrow> tk_balance tk a self (v_world v) \<le> tk_balance tk a self (v_world v')"
    "\<And>tok. stake_token v = Some tok \<Longrightarrow>
       tk_balance tk tok self (v_world v) - core_liability v \<le> tk_balance tk tok self (v_world v') - core_liability v'"
  shows "covered tk self v v'"
  unfolding covered_def
proof (intro conjI allI)
  fix a
  show "vault_surplus tk self a v \<le> vault_surplus tk self a v'"
    using assms(3,4) assms(5-7) [of a] by (cases "stake_token v = Some a")
      (auto simp: vault_surplus_def INDEX_SCALE_def)
qed (rule assms(2))

section \<open>A vault without storage, and an example\<close>

definition empty_config :: vault_config where
  "empty_config = \<lparr>vc_admin = None, vc_token = None, vc_registry = None, vc_governance = None, vc_min_stake = None,
     vc_min_duration = None, vc_slash_tiers = None, vc_slash_cooldown = None, vc_appeal_window = None,
     vc_withdrawal_cooldown = None, vc_lock_tiers = None, vc_max_queue = None, vc_default_lockup = None\<rparr>"

definition empty_vault :: "'w \<Rightarrow> 'w vault" where
  "empty_vault w = \<lparr>v_config = empty_config, v_stakes = [], v_delegated = [], v_total_delegated = [],
     v_slashes = \<lparr>sb_counter = None, sb_records = [], sb_appeals = [], sb_held = [], sb_last = []\<rparr>,
     v_queue = \<lparr>uq_head = None, uq_tail = None, uq_entries = [], uq_tickets = []\<rparr>,
     v_emergency = \<lparr>em_config = None, em_requests = [], em_cooldown = None, em_last = []\<rparr>,
     v_lockups = [], v_below_since = [], v_large_request = [], v_deposit_time = [], v_last_stake = [],
     v_pause = \<lparr>pz_paused = None, pz_scoped = (\<lambda>_. None)\<rparr>, v_multisig = \<lparr>ms_config = None, ms_next_id = None, ms_proposals = []\<rparr>,
     v_rate = \<lparr>rs_config = (\<lambda>_. None), rs_first_action = (\<lambda>_. None), rs_windows = (\<lambda>_. None)\<rparr>,
     v_index = reward_index_empty, v_claims = \<lparr>cq_next = [], cq_claims = []\<rparr>, v_initialized = None, v_version = None,
     v_layout = None, v_reentrancy = None, v_withdraw_lock = None, v_world = w\<rparr>"

lemma empty_vault_solvent: "sep41 tk \<Longrightarrow> vault_solvent tk self (empty_vault w)"
  using ri_inv_empty
  by (simp add: vault_solvent_def vault_inv_def empty_vault_def vault_surplus_def queue_inv_def pending_def ri_owed_def
      unsettled_def credited_def reward_index_empty_def stake_token_def empty_config_def INDEX_SCALE_def sep41_balance)

text \<open>
  The vault at 7 with stake token 9, admin 1 and signal registry 2. Account 3 has 1000 staked and is
  delegated 400 by account 4; the vault holds the 1400 tokens, account 3 has 500 more.
\<close>

definition example_ledger :: ledger where
  "example_ledger = (\<lambda>t x. if t = 9 \<and> x = 7 then 1400 else if t = 9 \<and> x = 3 then 500 else 0)"

definition example_vault :: "ledger vault" where
  "example_vault = (empty_vault example_ledger)
     \<lparr>v_config := empty_config\<lparr>vc_admin := Some 1, vc_token := Some 9, vc_registry := Some 2\<rparr>,
      v_stakes := [(3, \<lparr>balance = 1000, locked_until = 0, last_updated = 0\<rparr>)],
      v_delegated := [(3, [(4, 400)])], v_total_delegated := [(3, 400)], v_initialized := Some True\<rparr>"

lemma example_vault_solvent: "vault_solvent ledger_token 7 example_vault"
  using ri_inv_empty sep41_ledger_token
  by (auto simp: vault_solvent_def vault_inv_def example_vault_def empty_vault_def vault_surplus_def
      queue_inv_def pending_def ri_owed_def unsettled_def credited_def reward_index_empty_def stake_token_def
      empty_config_def INDEX_SCALE_def ledger_token_def ledger_balance_def example_ledger_def core_liability_def
      stakes_total_def delegated_total_def held_total_def i128_max_def swf_def sall_def sget_or_def)

lemmas vault_eval =
  example_vault_def empty_vault_def empty_config_def example_ev_def example_ledger_def stake_token_def get_stake_def
  put_stake_def token_call_def index_change_def zoom_def try_transfer_def try_burn_def ledger_token_def ledger_transfer_def
  ledger_burn_def ledger_balance_def ledger_put_def vault_require_not_paused_def require_not_paused_def is_paused_def
  require_not_locked_def require_lockup_released_def read_provider_lockup_def withdraw_locked_def flash_loan_detected_def
  large_withdrawal_check_def LARGE_WITHDRAWAL_THRESHOLD_def no_stake_info_def require_signal_registry_def
  reward_index_empty_def on_stake_change_def checkpoint_def user_stake_def total_stake_def oput_def sput_def
  checked_add_def checked_sub_def checked_mul_def in_i128_def i128_max_def i128_min_def sget_or_def sdel_def
  check_rate_limit_def check_def get_config_def effective_max_def get_first_action_def current_count_def

end
