(* ===== verification/VaultStake.thy ===== *)
theory VaultStake
  imports VaultState
begin

text \<open>
  The staking entry points of \<open>stake_vault/src/lib.rs\<close>: deposits, delegation, voting power,
  withdrawal requests, full and partial withdrawals and the submission gate. A failed
  \<open>require_auth\<close> is \<^const>\<open>Panic\<close>; the storage returned with an \<^const>\<open>Err\<close> is the storage at that
  point, which only matters to callers inside the contract (the host rolls it back otherwise).
\<close>

section \<open>Deposits and delegation\<close>

definition deposit_lock :: "StakeInfoV2 \<Rightarrow> nat \<Rightarrow> nat \<Rightarrow> nat" where
  "deposit_lock current now min_duration =
     (if balance current = 0 then u64_sat_add now min_duration
      else if 0 < min_duration then max (locked_until current) (u64_sat_add now min_duration)
      else locked_until current)"

definition deposit_stake :: "env \<Rightarrow> 'w token_if \<Rightarrow> addr \<Rightarrow> int \<Rightarrow> 'w vault \<Rightarrow> ('w, unit) vault_call" where
  "deposit_stake ev tk staker amount v =
     (case require_not_locked (v_reentrancy v) of
        Err _ \<Rightarrow> (Err StakeVaultError.ReentrancyDetected, v)
      | Panic \<Rightarrow> (Panic, v)
      | Ok _ \<Rightarrow>
      if \<not> ev_auth ev staker then (Panic, v)
      else and_then (vault_require_not_paused v) (\<lambda>_ v.
        if amount \<le> 0 then (Err NoStake, v)
        else case stake_token v of
          None \<Rightarrow> (Err NotInitialized, v)
        | Some tok \<Rightarrow>
            let now = ev_timestamp ev;
                current = opt_or no_stake_info (sget (v_stakes v) staker)
            in case checked_add (balance current) amount of
                 None \<Rightarrow> (Err StakeOverflow, v)
               | Some new_balance \<Rightarrow>
                   let lock = deposit_lock current now (opt_or 0 (vc_min_duration (v_config v)));
                       v = put_stake staker \<lparr>balance = new_balance, locked_until = lock, last_updated = now\<rparr> v
                   in and_then (index_change staker new_balance v) (\<lambda>_ v.
                        token_call (try_transfer tk tok staker (ev_self ev) amount)
                          (v\<lparr>v_deposit_time := sset staker now (v_deposit_time v),
                             v_last_stake := sset staker (ev_sequence ev) (v_last_stake v)\<rparr>))))"

definition delegated_to :: "'w vault \<Rightarrow> addr \<Rightarrow> (addr, int) smap" where
  "delegated_to v provider = opt_or [] (sget (v_delegated v) provider)"

definition get_delegated_stake :: "'w vault \<Rightarrow> addr \<Rightarrow> addr \<Rightarrow> int" where
  "get_delegated_stake v delegator provider = sget_or 0 (delegated_to v provider) delegator"

definition get_total_delegated :: "'w vault \<Rightarrow> addr \<Rightarrow> int" where
  "get_total_delegated v provider = sget_or 0 (v_total_delegated v) provider"

definition get_total_stake_for_provider :: "'w vault \<Rightarrow> addr \<Rightarrow> int" where
  "get_total_stake_for_provider v provider = saturating_add (get_stake v provider) (get_total_delegated v provider)"

definition delegate_stake :: "env \<Rightarrow> 'w token_if \<Rightarrow> addr \<Rightarrow> addr \<Rightarrow> int \<Rightarrow> 'w vault \<Rightarrow> ('w, unit) vault_call" where
  "delegate_stake ev tk delegator provider amount v =
     (if \<not> ev_auth ev delegator then (Panic, v)
      else and_then (vault_require_not_paused v) (\<lambda>_ v.
        if amount \<le> 0 then (Err NoStake, v)
        else case stake_token v of
          None \<Rightarrow> (Err NotInitialized, v)
        | Some tok \<Rightarrow>
            (case checked_add (sget_or 0 (delegated_to v provider) delegator) amount of
               None \<Rightarrow> (Err StakeOverflow, v)
             | Some new_amount \<Rightarrow>
                 let v = v\<lparr>v_delegated := sset provider (sset delegator new_amount (delegated_to v provider)) (v_delegated v)\<rparr>
                 in case checked_add (get_total_delegated v provider) amount of
                      None \<Rightarrow> (Err StakeOverflow, v)
                    | Some new_total \<Rightarrow>
                        token_call (try_transfer tk tok delegator (ev_self ev) amount)
                          (v\<lparr>v_total_delegated := sset provider new_total (v_total_delegated v)\<rparr>))))"

section \<open>Voting power\<close>

definition get_lock_multiplier_tiers :: "'w vault \<Rightarrow> LockMultiplierTier list" where
  "get_lock_multiplier_tiers v = opt_or default_lock_multiplier_tiers (vc_lock_tiers (v_config v))"

definition get_voting_power :: "env \<Rightarrow> 'w vault \<Rightarrow> addr \<Rightarrow> int" where
  "get_voting_power ev v staker =
     (case sget (v_stakes v) staker of
        None \<Rightarrow> 0
      | Some info \<Rightarrow>
          if balance info = 0 then 0
          else if locked_until info = 0 \<or> locked_until info \<le> ev_timestamp ev then balance info
          else let remaining = locked_until info - ev_timestamp ev;
                   bps = lock_multiplier_bps_for_remaining (get_lock_multiplier_tiers v) remaining
               in if bps = 0 then 0 else apply_multiplier_bps (balance info) bps)"

section \<open>Minimum stake and the submission gate\<close>

definition get_minimum_stake :: "'w vault \<Rightarrow> int" where
  "get_minimum_stake v = opt_or 0 (vc_min_stake (v_config v))"

definition notify_stake_below_minimum :: "env \<Rightarrow> addr \<Rightarrow> 'w vault \<Rightarrow> 'w vault" where
  "notify_stake_below_minimum ev provider v =
     (if get_minimum_stake v \<le> get_stake v provider then v
      else case sget (v_below_since v) provider of
        None \<Rightarrow> v\<lparr>v_below_since := sset provider (ev_timestamp ev) (v_below_since v)\<rparr>
      | Some _ \<Rightarrow> v)"

definition check_signal_submission_allowed :: "env \<Rightarrow> addr \<Rightarrow> 'w vault \<Rightarrow> ('w, unit) vault_call" where
  "check_signal_submission_allowed ev provider v =
     (if get_minimum_stake v \<le> get_stake v provider
      then (Ok (), v\<lparr>v_below_since := sdel provider (v_below_since v)\<rparr>)
      else let below_since = opt_or (ev_timestamp ev) (sget (v_below_since v) provider)
           in if GRACE_PERIOD_SECS < ev_timestamp ev - below_since then (Err StakeBelowMinimum, v) else (Ok (), v))"

section \<open>Withdrawals\<close>

definition request_withdrawal :: "env \<Rightarrow> addr \<Rightarrow> 'w vault \<Rightarrow> ('w, unit) vault_call" where
  "request_withdrawal ev staker v =
     (if \<not> ev_auth ev staker then (Panic, v)
      else and_then (vault_require_not_paused v) (\<lambda>_ v.
        if get_stake v staker < LARGE_WITHDRAWAL_THRESHOLD then (Ok (), v)
        else (Ok (), v\<lparr>v_large_request := sset staker (ev_timestamp ev) (v_large_request v)\<rparr>)))"


text \<open>
  The checks both kinds of withdrawal make after those on the stake itself: the slash or reward
  lockup (an elapsed one is cleared), the same-ledger deposit, the time-lock of a large amount.
  The result says whether a large-withdrawal request has to be consumed.
\<close>

definition withdraw_checks :: "env \<Rightarrow> addr \<Rightarrow> int \<Rightarrow> 'w vault \<Rightarrow> ('w, bool) vault_call" where
  "withdraw_checks ev staker amount v =
     and_then (require_lockup_released ev staker v) (\<lambda>_ v.
       if flash_loan_detected ev staker v then (Err FlashLoanDetected, v)
       else (large_withdrawal_check ev staker amount v, v))"

text \<open>
  The interaction and the effects: the transfer first, then consume the large-withdrawal request if
  one was needed, write the stake and update the index.
\<close>

definition pay_out ::
  "env \<Rightarrow> 'w token_if \<Rightarrow> addr \<Rightarrow> addr \<Rightarrow> StakeInfoV2 \<Rightarrow> int \<Rightarrow> int \<Rightarrow> bool \<Rightarrow> 'w vault \<Rightarrow> ('w, int) vault_call" where
  "pay_out ev tk tok staker info amount remaining large v =
     and_then (token_call (try_transfer tk tok (ev_self ev) staker amount) v) (\<lambda>_ v.
       let v = (if large then v\<lparr>v_large_request := sdel staker (v_large_request v)\<rparr> else v);
           v = put_stake staker \<lparr>balance = remaining, locked_until = locked_until info, last_updated = ev_timestamp ev\<rparr> v
       in and_then (index_change staker remaining v) (\<lambda>_ v. (Ok amount, v)))"

definition do_withdraw_locked :: "env \<Rightarrow> 'w token_if \<Rightarrow> addr \<Rightarrow> 'w vault \<Rightarrow> ('w, int) vault_call" where
  "do_withdraw_locked ev tk staker v =
     (case stake_token v of
        None \<Rightarrow> (Err NotInitialized, v)
      | Some tok \<Rightarrow>
      (case sget (v_stakes v) staker of
        None \<Rightarrow> (Err NoStake, v)
      | Some info \<Rightarrow>
          if balance info = 0 then (Err NoStake, v)
          else if ev_timestamp ev < locked_until info then (Err StakeLocked, v)
          else and_then (withdraw_checks ev staker (balance info) v)
            (pay_out ev tk tok staker info (balance info) 0)))"

definition do_withdraw :: "env \<Rightarrow> 'w token_if \<Rightarrow> addr \<Rightarrow> 'w vault \<Rightarrow> ('w, int) vault_call" where
  "do_withdraw ev tk staker v = withdraw_locked (do_withdraw_locked ev tk staker) v"

text \<open>A successful withdrawal counts as a stake change for the rate limit.\<close>

definition record_if_ok :: "env \<Rightarrow> addr \<Rightarrow> ('w, 'a) vault_call \<Rightarrow> ('w, 'a) vault_call" where
  "record_if_ok ev staker r =
     (case r of (Ok x, v) \<Rightarrow> (Ok x, v\<lparr>v_rate := record_action ev staker StakeChange (v_rate v)\<rparr>) | _ \<Rightarrow> r)"

definition withdraw_stake :: "env \<Rightarrow> 'w token_if \<Rightarrow> addr \<Rightarrow> 'w vault \<Rightarrow> ('w, int) vault_call" where
  "withdraw_stake ev tk staker v =
     and_then (vault_require_not_paused v) (\<lambda>_ v.
       case check_rate_limit ev staker StakeChange 0 (v_rate v) of
         Ok _ \<Rightarrow>
           if \<not> ev_auth_withdraw ev staker (get_stake v staker) then (Panic, v)
           else record_if_ok ev staker (do_withdraw ev tk staker v)
       | Err _ \<Rightarrow> (Err RateLimitExceeded, v)
       | Panic \<Rightarrow> (Panic, v))"

definition do_partial_unstake_locked ::
  "env \<Rightarrow> 'w token_if \<Rightarrow> addr \<Rightarrow> int \<Rightarrow> 'w vault \<Rightarrow> ('w, int) vault_call" where
  "do_partial_unstake_locked ev tk staker amount v =
     (case stake_token v of
        None \<Rightarrow> (Err NotInitialized, v)
      | Some tok \<Rightarrow>
      (case sget (v_stakes v) staker of
        None \<Rightarrow> (Err NoStake, v)
      | Some info \<Rightarrow>
          if balance info = 0 then (Err NoStake, v)
          else if balance info \<le> amount then (Err InvalidAmount, v)
          else if ev_timestamp ev < locked_until info then (Err StakeLocked, v)
          else and_then (withdraw_checks ev staker amount v) (\<lambda>large v.
            case checked_sub (balance info) amount of
              None \<Rightarrow> (Panic, v)
            | Some remaining \<Rightarrow>
                if 0 < get_minimum_stake v \<and> remaining < get_minimum_stake v then (Err RemainingStakeBelowMinimum, v)
                else pay_out ev tk tok staker info amount remaining large v)))"

definition do_partial_unstake :: "env \<Rightarrow> 'w token_if \<Rightarrow> addr \<Rightarrow> int \<Rightarrow> 'w vault \<Rightarrow> ('w, int) vault_call" where
  "do_partial_unstake ev tk staker amount v = withdraw_locked (do_partial_unstake_locked ev tk staker amount) v"

definition partial_unstake :: "env \<Rightarrow> 'w token_if \<Rightarrow> addr \<Rightarrow> int \<Rightarrow> 'w vault \<Rightarrow> ('w, int) vault_call" where
  "partial_unstake ev tk staker amount v =
     and_then (vault_require_not_paused v) (\<lambda>_ v.
       if amount \<le> 0 then (Err InvalidAmount, v)
       else case check_rate_limit ev staker StakeChange 0 (v_rate v) of
         Ok _ \<Rightarrow>
           if \<not> ev_auth ev staker then (Panic, v)
           else record_if_ok ev staker (do_partial_unstake ev tk staker amount v)
       | Err _ \<Rightarrow> (Err RateLimitExceeded, v)
       | Panic \<Rightarrow> (Panic, v))"

section \<open>Successful calls\<close>

lemma opt_stake_balance: "balance (opt_or no_stake_info (sget (v_stakes v) st)) = get_stake v st"
  by (simp add: get_stake_def no_stake_info_def opt_or_def split: option.splits)

text \<open>The storage after a deposit, given the new index and the new token world.\<close>

definition deposited :: "env \<Rightarrow> addr \<Rightarrow> int \<Rightarrow> reward_index \<Rightarrow> 'w \<Rightarrow> 'w vault \<Rightarrow> 'w vault" where
  "deposited ev st x i w v =
     (put_stake st \<lparr>balance = get_stake v st + x,
          locked_until = deposit_lock (opt_or no_stake_info (sget (v_stakes v) st)) (ev_timestamp ev)
            (opt_or 0 (vc_min_duration (v_config v))),
          last_updated = ev_timestamp ev\<rparr> v)
       \<lparr>v_index := i, v_deposit_time := sset st (ev_timestamp ev) (v_deposit_time v),
        v_last_stake := sset st (ev_sequence ev) (v_last_stake v), v_world := w\<rparr>"

lemma deposit_stake_Ok:
  "deposit_stake ev tk st x v = (Ok u, v') \<longleftrightarrow>
     \<not> opt_or False (v_reentrancy v) \<and> ev_auth ev st \<and> \<not> is_paused (v_pause v) \<and> 0 < x \<and> in_i128 (get_stake v st + x) \<and>
     (\<exists>tok i w. stake_token v = Some tok \<and> on_stake_change st (get_stake v st + x) (v_index v) = (Ok (), i) \<and>
        tk_transfer tk tok st (ev_self ev) x (v_world v) = CallOk w \<and> v' = deposited ev st x i w v)"
  by (cases "stake_token v"; cases "v_reentrancy v")
    (auto simp: deposit_stake_def and_then_Ok vault_require_not_paused_Ok Let_def opt_stake_balance require_not_locked_def
      index_change_eq token_call_Ok_eq try_transfer_Ok put_stake_def checked_add_def deposited_def)

definition delegated_state :: "addr \<Rightarrow> addr \<Rightarrow> int \<Rightarrow> 'w \<Rightarrow> 'w vault \<Rightarrow> 'w vault" where
  "delegated_state dl p x w v =
     v\<lparr>v_delegated := sset p (sset dl (get_delegated_stake v dl p + x) (delegated_to v p)) (v_delegated v),
       v_total_delegated := sset p (get_total_delegated v p + x) (v_total_delegated v), v_world := w\<rparr>"

lemma delegate_stake_Ok:
  "delegate_stake ev tk dl p x v = (Ok u, v') \<longleftrightarrow>
     ev_auth ev dl \<and> \<not> is_paused (v_pause v) \<and> 0 < x \<and> in_i128 (get_delegated_stake v dl p + x) \<and>
     in_i128 (get_total_delegated v p + x) \<and>
     (\<exists>tok w. stake_token v = Some tok \<and> tk_transfer tk tok dl (ev_self ev) x (v_world v) = CallOk w \<and>
        v' = delegated_state dl p x w v)"
  by (cases "stake_token v")
    (auto simp: delegate_stake_def and_then_Ok vault_require_not_paused_Ok Let_def token_call_Ok_eq try_transfer_Ok
      checked_add_def delegated_state_def get_delegated_stake_def get_total_delegated_def)

text \<open>What has to hold for a withdrawal of \<open>amount\<close> from a stake to go through.\<close>

definition may_withdraw :: "env \<Rightarrow> addr \<Rightarrow> StakeInfoV2 \<Rightarrow> int \<Rightarrow> 'w vault \<Rightarrow> bool" where
  "may_withdraw ev st info amount v \<longleftrightarrow>
     balance info \<noteq> 0 \<and> locked_until info \<le> ev_timestamp ev \<and>
     (\<forall>l. read_provider_lockup v st = Some l \<longrightarrow> end_ledger l < ev_sequence ev) \<and>
     \<not> flash_loan_detected ev st v \<and>
     (LARGE_WITHDRAWAL_THRESHOLD \<le> amount \<longrightarrow>
        (\<exists>t. sget (v_large_request v) st = Some t \<and> u64_sat_add t (get_withdrawal_cooldown_secs v) \<le> ev_timestamp ev))"

definition paid_out ::
  "env \<Rightarrow> addr \<Rightarrow> StakeInfoV2 \<Rightarrow> int \<Rightarrow> bool \<Rightarrow> reward_index \<Rightarrow> 'w \<Rightarrow> 'w vault \<Rightarrow> 'w vault" where
  "paid_out ev st info remaining large i w v =
     (put_stake st \<lparr>balance = remaining, locked_until = locked_until info, last_updated = ev_timestamp ev\<rparr> v)
       \<lparr>v_large_request := (if large then sdel st (v_large_request v) else v_large_request v), v_index := i, v_world := w\<rparr>"

definition withdrawn :: "env \<Rightarrow> addr \<Rightarrow> StakeInfoV2 \<Rightarrow> int \<Rightarrow> reward_index \<Rightarrow> 'w \<Rightarrow> 'w vault \<Rightarrow> 'w vault" where
  "withdrawn ev st info amount i w v =
     paid_out ev st info (balance info - amount) (LARGE_WITHDRAWAL_THRESHOLD \<le> amount) i w
       (v\<lparr>v_lockups := sdel st (v_lockups v)\<rparr>)"

lemma sdel_None: "sget m k = None \<Longrightarrow> sdel k m = m"
  by (rule sdel_absent) (simp add: map_of_eq_None_iff)

lemma require_lockup_released_eq:
  "require_lockup_released ev st v = (Ok u, v') \<longleftrightarrow>
     (\<forall>l. read_provider_lockup v st = Some l \<longrightarrow> end_ledger l < ev_sequence ev) \<and> v' = v\<lparr>v_lockups := sdel st (v_lockups v)\<rparr>"
  by (auto simp: require_lockup_released_def read_provider_lockup_def sdel_None split: option.splits)

lemma large_withdrawal_check_Ok:
  "large_withdrawal_check ev st x v = Ok b \<longleftrightarrow>
     b = (LARGE_WITHDRAWAL_THRESHOLD \<le> x) \<and>
     (LARGE_WITHDRAWAL_THRESHOLD \<le> x \<longrightarrow>
        (\<exists>t. sget (v_large_request v) st = Some t \<and> u64_sat_add t (get_withdrawal_cooldown_secs v) \<le> ev_timestamp ev))"
  by (auto simp: large_withdrawal_check_def split: option.splits)

lemma withdraw_checks_Ok:
  "withdraw_checks ev st x v = (Ok b, v') \<longleftrightarrow>
     b = (LARGE_WITHDRAWAL_THRESHOLD \<le> x) \<and> v' = v\<lparr>v_lockups := sdel st (v_lockups v)\<rparr> \<and>
     (\<forall>l. read_provider_lockup v st = Some l \<longrightarrow> end_ledger l < ev_sequence ev) \<and> \<not> flash_loan_detected ev st v \<and>
     (LARGE_WITHDRAWAL_THRESHOLD \<le> x \<longrightarrow>
        (\<exists>t. sget (v_large_request v) st = Some t \<and> u64_sat_add t (get_withdrawal_cooldown_secs v) \<le> ev_timestamp ev))"
  by (simp add: withdraw_checks_def and_then_Ok require_lockup_released_eq large_withdrawal_check_Ok
      flash_loan_detected_def get_withdrawal_cooldown_secs_def) auto

lemma pay_out_Ok:
  "pay_out ev tk tok st info x rest large v = (Ok y, v') \<longleftrightarrow>
     y = x \<and> (\<exists>w i. tk_transfer tk tok (ev_self ev) st x (v_world v) = CallOk w \<and>
       on_stake_change st rest (v_index v) = (Ok (), i) \<and> v' = paid_out ev st info rest large i w v)"
  by (auto simp: pay_out_def and_then_Ok token_call_Ok_eq try_transfer_Ok Let_def index_change_eq put_stake_def paid_out_def)

lemma do_withdraw_locked_Ok:
  "do_withdraw_locked ev tk st v = (Ok x, v') \<longleftrightarrow>
     (\<exists>tok info. stake_token v = Some tok \<and> sget (v_stakes v) st = Some info \<and> x = balance info \<and>
        may_withdraw ev st info x v \<and>
        (\<exists>w i. tk_transfer tk tok (ev_self ev) st x (v_world v) = CallOk w \<and>
          on_stake_change st 0 (v_index v) = (Ok (), i) \<and> v' = withdrawn ev st info x i w v))"
proof (cases "stake_token v"; cases "sget (v_stakes v) st")
  fix tok info
  assume [simp]: "stake_token v = Some tok" "sget (v_stakes v) st = Some info"
  show ?thesis
    by (auto simp: do_withdraw_locked_def and_then_Ok withdraw_checks_Ok pay_out_Ok may_withdraw_def withdrawn_def)
qed (auto simp: do_withdraw_locked_def)

lemma do_partial_unstake_locked_Ok:
  "do_partial_unstake_locked ev tk st x v = (Ok y, v') \<longleftrightarrow> y = x \<and>
     (\<exists>tok info. stake_token v = Some tok \<and> sget (v_stakes v) st = Some info \<and> x < balance info \<and>
        may_withdraw ev st info x v \<and> in_i128 (balance info - x) \<and>
        (0 < get_minimum_stake v \<longrightarrow> get_minimum_stake v \<le> balance info - x) \<and>
        (\<exists>w i. tk_transfer tk tok (ev_self ev) st x (v_world v) = CallOk w \<and>
          on_stake_change st (balance info - x) (v_index v) = (Ok (), i) \<and> v' = withdrawn ev st info x i w v))"
proof (cases "stake_token v"; cases "sget (v_stakes v) st")
  fix tok info
  assume [simp]: "stake_token v = Some tok" "sget (v_stakes v) st = Some info"
  show ?thesis
    by (auto simp: do_partial_unstake_locked_def and_then_Ok withdraw_checks_Ok pay_out_Ok may_withdraw_def withdrawn_def
        checked_sub_def get_minimum_stake_def not_less)
qed (auto simp: do_partial_unstake_locked_def)

section \<open>Every staking call keeps the vault covered\<close>

lemma money_simps [simp]:
  "money (v\<lparr>v_lockups := ls\<rparr>) = money v" "money (v\<lparr>v_withdraw_lock := b\<rparr>) = money v"
  "money (v\<lparr>v_rate := r\<rparr>) = money v" "money (v\<lparr>v_large_request := q\<rparr>) = money v"
  "money (v\<lparr>v_below_since := q\<rparr>) = money v" "money (v\<lparr>v_queue := uq\<rparr>) = money v"
  "money (v\<lparr>v_emergency := em\<rparr>) = money v" "money (v\<lparr>v_pause := p\<rparr>) = money v"
  "money (v\<lparr>v_multisig := m\<rparr>) = money v" "money (v\<lparr>v_version := n\<rparr>) = money v" "money (v\<lparr>v_layout := n\<rparr>) = money v"
  by (simp_all add: money_def stake_token_def)

text \<open>A stake moved to a new value, with the index told and the token world changed to match.\<close>

lemma stake_moved:
  assumes "vault_solvent tk self v" "stake_token v = Some tok" "0 \<le> n"
    "v_stakes v' = sset st info' (v_stakes v)" "balance info' = n"
    "v_delegated v' = v_delegated v \<and> v_total_delegated v' = v_total_delegated v" "v_slashes v' = v_slashes v" "v_claims v' = v_claims v"
    "stake_token v' = stake_token v" "v_world v' = w"
    "on_stake_change st m (v_index v) = (r, v_index v') \<and> 0 \<le> m \<or> v_index v' = v_index v"
    "\<And>a. tk_balance tk a self (v_world v) + (if a = tok then n - get_stake v st else 0) \<le> tk_balance tk a self w"
  shows "covered tk self v v'"
proof -
  have inv: "vault_inv v" and ri: "ri_inv (v_index v)" using assms(1) by (simp_all add: vault_solvent_def vault_inv_def)
  have idx: "ri_inv (v_index v') \<and> (\<forall>a. ri_owed (v_index v') a \<le> ri_owed (v_index v) a)"
    using assms(11) on_stake_change_facts(1,2) [OF ri] ri by auto
  have "stakes_total v' = stakes_total v - get_stake v st + n"
    using stakes_total_put [of v st info'] inv assms(4,5) by (simp add: stakes_total_def put_stake_def vault_inv_def)
  then have liab: "core_liability v' = core_liability v - get_stake v st + n"
    using assms(6,7) by (simp add: core_liability_def delegated_total_def held_total_def)
  have inv': "vault_inv v'"
    using inv idx assms(3-8) by (auto simp: vault_inv_def)
  show ?thesis
  proof (rule coveredI [OF assms(1) inv' assms(9,8)])
    show "ri_owed (v_index v') a \<le> ri_owed (v_index v) a" for a using idx by simp
    show "tk_balance tk a self (v_world v) \<le> tk_balance tk a self (v_world v')" if "stake_token v \<noteq> Some a" for a
      using that assms(12) [of a] assms(2,10) by auto
    show "tk_balance tk t self (v_world v) - core_liability v \<le> tk_balance tk t self (v_world v') - core_liability v'"
      if "stake_token v = Some t" for t
      using that assms(12) [of t] assms(2,10) liab by simp
  qed
qed

lemma deposit_stake_covered:
  assumes "vault_solvent tk (ev_self ev) v" "\<not> ev_auth ev (ev_self ev)" "deposit_stake ev tk st x v = (Ok u, v')"
  shows "covered tk (ev_self ev) v v'"
proof -
  from assms(3) obtain tok i w where d: "ev_auth ev st" "0 < x" "stake_token v = Some tok"
    "on_stake_change st (get_stake v st + x) (v_index v) = (Ok (), i)"
    "tk_transfer tk tok st (ev_self ev) x (v_world v) = CallOk w" "v' = deposited ev st x i w v"
    unfolding deposit_stake_Ok by blast
  have n: "0 \<le> get_stake v st + x"
    using d(2) vault_invD(4) [of v st] assms(1) by (simp add: vault_solvent_def)
  have "st \<noteq> ev_self ev" using d(1) assms(2) by blast
  then have bal: "tk_balance tk a (ev_self ev) w = tk_balance tk a (ev_self ev) (v_world v) + (if a = tok then x else 0)" for a
    using sep41_transfer [OF _ d(5), of a "ev_self ev"] assms(1) by (auto simp: vault_solvent_def)
  show ?thesis
    by (rule stake_moved [OF assms(1) d(3) n, where st = st and w = w and m = "get_stake v st + x" and r = "Ok ()"])
      (use d bal n in \<open>auto simp: deposited_def put_stake_def stake_token_def\<close>)
qed

lemma pay_out_covered:
  assumes "vault_solvent tk (ev_self ev) v" "stake_token v = Some tok" "sget (v_stakes v) st = Some info"
    "rest = balance info - x" "0 \<le> rest" "pay_out ev tk tok st info x rest large v = (r, v')"
  shows "covered tk (ev_self ev) v v'"
proof -
  have sep: "sep41 tk" using assms(1) by (simp add: vault_solvent_def)
  obtain r1 w where tr: "try_transfer tk tok (ev_self ev) st x (v_world v) = (r1, w)" by fastforce
  show ?thesis
  proof (cases r1)
    case (Ok u)
    then have t: "tk_transfer tk tok (ev_self ev) st x (v_world v) = CallOk w" using tr by (simp add: try_transfer_Ok)
    have x: "0 \<le> x" using sep41_amount(1) [OF sep t] .
    obtain r2 i where oc: "on_stake_change st rest (v_index v) = (r2, i)" by fastforce
    have v': "v' = paid_out ev st info rest large i w v"
      using assms(6) tr Ok oc
      by (cases r2) (auto simp: pay_out_def token_call_def Let_def index_change_def zoom_def paid_out_def put_stake_def)
    show ?thesis
    proof (rule stake_moved [OF assms(1,2,5), where st = st and w = w and m = rest and r = r2])
      show "tk_balance tk a (ev_self ev) (v_world v) + (if a = tok then rest - get_stake v st else 0)
          \<le> tk_balance tk a (ev_self ev) w" for a
        using sep41_transfer [OF sep t, of a "ev_self ev"] x assms(3,4) by (auto simp: get_stake_def)
    qed (use v' oc assms(5) in \<open>auto simp: paid_out_def put_stake_def stake_token_def\<close>)
  next
    case (Err e)
    then have "w = v_world v" using try_transfer_Err_world [OF sep] tr by blast
    then have "v' = v" using assms(6) tr Err by (simp add: pay_out_def token_call_def)
    then show ?thesis using assms(1) by (simp add: covered_def vault_solvent_def)
  qed (use tr in auto)
qed

lemma withdraw_checks_money: "withdraw_checks ev st x v = (r, v') \<Longrightarrow> money v' = money v"
  by (auto simp: withdraw_checks_def require_lockup_released_def split: option.splits if_splits)

lemma covered_refl: "vault_solvent tk self v \<Longrightarrow> covered tk self v v"
  by (simp add: covered_def vault_solvent_def)

lemma checked_pay_out_covered:
  assumes "vault_solvent tk (ev_self ev) v" "stake_token v = Some tok" "sget (v_stakes v) st = Some info"
    "and_then (withdraw_checks ev st x v) k = (r, v')"
    "\<And>large u r v'. k large u = (r, v') \<Longrightarrow> v' = u \<or> (\<exists>rest r'. rest = balance info - x \<and> 0 \<le> rest \<and>
       pay_out ev tk tok st info x rest large u = (r', v'))"
  shows "covered tk (ev_self ev) v v'"
proof -
  obtain r1 v1 where c: "withdraw_checks ev st x v = (r1, v1)" by fastforce
  have m: "money v1 = money v" by (rule withdraw_checks_money [OF c])
  then have v1: "vault_solvent tk (ev_self ev) v1" "covered tk (ev_self ev) v v1"
    using assms(1) money_cong(4) covered_money by blast+
  show ?thesis
  proof (cases r1)
    case (Ok large)
    then have "k large v1 = (r, v')" using assms(4) c by simp
    from assms(5) [OF this] show ?thesis
    proof
      assume "v' = v1" then show ?thesis using v1 by simp
    next
      assume "\<exists>rest r'. rest = balance info - x \<and> 0 \<le> rest \<and> pay_out ev tk tok st info x rest large v1 = (r', v')"
      then have "covered tk (ev_self ev) v1 v'"
        using pay_out_covered [OF v1(1)] m assms(2,3) by (auto simp: money_def)
      then show ?thesis using v1(2) covered_trans by blast
    qed
  qed (use assms(4) c v1 in auto)
qed

lemma do_withdraw_locked_covered:
  assumes "vault_solvent tk (ev_self ev) v" "do_withdraw_locked ev tk st v = (r, v')"
  shows "covered tk (ev_self ev) v v'"
proof (cases "stake_token v"; cases "sget (v_stakes v) st")
  fix tok info
  assume s: "stake_token v = Some tok" "sget (v_stakes v) st = Some info"
  show ?thesis
  proof (cases "balance info = 0 \<or> ev_timestamp ev < locked_until info")
    case False
    then have "and_then (withdraw_checks ev st (balance info) v) (pay_out ev tk tok st info (balance info) 0) = (r, v')"
      using assms(2) s by (simp add: do_withdraw_locked_def)
    then show ?thesis by (rule checked_pay_out_covered [OF assms(1) s]) auto
  qed (use assms s covered_refl in \<open>auto simp: do_withdraw_locked_def split: if_splits\<close>)
qed (use assms covered_refl in \<open>auto simp: do_withdraw_locked_def\<close>)

lemma do_partial_unstake_locked_covered:
  assumes "vault_solvent tk (ev_self ev) v" "do_partial_unstake_locked ev tk st x v = (r, v')"
  shows "covered tk (ev_self ev) v v'"
proof (cases "stake_token v"; cases "sget (v_stakes v) st")
  fix tok info
  assume s: "stake_token v = Some tok" "sget (v_stakes v) st = Some info"
  show ?thesis
  proof (cases "balance info = 0 \<or> balance info \<le> x \<or> ev_timestamp ev < locked_until info")
    case False
    then have "and_then (withdraw_checks ev st x v) (\<lambda>large v. case checked_sub (balance info) x of None \<Rightarrow> (Panic, v)
        | Some remaining \<Rightarrow> if 0 < get_minimum_stake v \<and> remaining < get_minimum_stake v
            then (Err RemainingStakeBelowMinimum, v) else pay_out ev tk tok st info x remaining large v) = (r, v')"
      using assms(2) s by (simp add: do_partial_unstake_locked_def)
    then show ?thesis
      by (rule checked_pay_out_covered [OF assms(1) s])
        (use False in \<open>auto simp: checked_sub_def split: if_splits\<close>)
  qed (use assms s covered_refl in \<open>auto simp: do_partial_unstake_locked_def split: if_splits\<close>)
qed (use assms covered_refl in \<open>auto simp: do_partial_unstake_locked_def\<close>)

lemma covered_money_left: "money u = money v \<Longrightarrow> covered tk self u v' \<longleftrightarrow> covered tk self v v'"
  using money_cong(2) [of u v] by (simp add: covered_def)

lemma covered_money_right: "money u = money v' \<Longrightarrow> covered tk self v u \<longleftrightarrow> covered tk self v v'"
  using money_cong(1,2) [of u v'] by (simp add: covered_def)

lemma withdraw_locked_covered:
  assumes "vault_solvent tk self v" "withdraw_locked body v = (r, v')"
    "\<And>u r u'. vault_solvent tk self u \<Longrightarrow> body u = (r, u') \<Longrightarrow> covered tk self u u'"
  shows "covered tk self v v'"
proof (cases "opt_or False (v_withdraw_lock v)")
  case False
  let ?u = "v\<lparr>v_withdraw_lock := Some True\<rparr>"
  obtain r1 t where b: "body ?u = (r1, t)" by fastforce
  have "vault_solvent tk self ?u" using assms(1) money_cong(4) [of ?u v] by simp
  then have "covered tk self v t" using assms(3) [OF _ b] covered_money_left [of ?u v] by simp
  moreover have "v' = t \<or> v' = t\<lparr>v_withdraw_lock := None\<rparr>"
    using assms(2) b False by (cases r1) (auto simp: withdraw_locked_def)
  ultimately show ?thesis using covered_money_right [of v' t] by auto
qed (use assms covered_refl in \<open>auto simp: withdraw_locked_def\<close>)

lemma do_withdraw_covered:
  "vault_solvent tk (ev_self ev) v \<Longrightarrow> do_withdraw ev tk st v = (r, v') \<Longrightarrow> covered tk (ev_self ev) v v'"
  unfolding do_withdraw_def by (erule (1) withdraw_locked_covered) (rule do_withdraw_locked_covered)

lemma do_partial_unstake_covered:
  "vault_solvent tk (ev_self ev) v \<Longrightarrow> do_partial_unstake ev tk st x v = (r, v') \<Longrightarrow> covered tk (ev_self ev) v v'"
  unfolding do_partial_unstake_def by (erule (1) withdraw_locked_covered) (rule do_partial_unstake_locked_covered)

lemma record_if_ok_Ok:
  "record_if_ok ev st m = (Ok x, v') \<longleftrightarrow> (\<exists>u. m = (Ok x, u) \<and> v' = u\<lparr>v_rate := record_action ev st StakeChange (v_rate u)\<rparr>)"
  by (auto simp: record_if_ok_def split: prod.splits res.splits)

lemma withdraw_stake_Ok:
  "withdraw_stake ev tk st v = (Ok x, v') \<longleftrightarrow>
     \<not> is_paused (v_pause v) \<and> check_rate_limit ev st StakeChange 0 (v_rate v) = Ok () \<and>
     ev_auth_withdraw ev st (get_stake v st) \<and>
     (\<exists>u. do_withdraw ev tk st v = (Ok x, u) \<and> v' = u\<lparr>v_rate := record_action ev st StakeChange (v_rate u)\<rparr>)"
  by (auto simp: withdraw_stake_def and_then_Ok vault_require_not_paused_Ok record_if_ok_Ok split: res.splits)

lemma partial_unstake_Ok:
  "partial_unstake ev tk st x v = (Ok y, v') \<longleftrightarrow>
     \<not> is_paused (v_pause v) \<and> 0 < x \<and> check_rate_limit ev st StakeChange 0 (v_rate v) = Ok () \<and> ev_auth ev st \<and>
     (\<exists>u. do_partial_unstake ev tk st x v = (Ok y, u) \<and> v' = u\<lparr>v_rate := record_action ev st StakeChange (v_rate u)\<rparr>)"
  by (auto simp: partial_unstake_def and_then_Ok vault_require_not_paused_Ok record_if_ok_Ok split: res.splits)

lemma withdraw_stake_covered:
  assumes "vault_solvent tk (ev_self ev) v" "withdraw_stake ev tk st v = (Ok x, v')"
  shows "covered tk (ev_self ev) v v'"
proof -
  from assms(2) obtain u where u: "do_withdraw ev tk st v = (Ok x, u)"
    and v': "v' = u\<lparr>v_rate := record_action ev st StakeChange (v_rate u)\<rparr>"
    unfolding withdraw_stake_Ok by blast
  have "money v' = money u" unfolding v' by simp
  with do_withdraw_covered [OF assms(1) u] show ?thesis using covered_money_right by blast
qed

lemma partial_unstake_covered:
  assumes "vault_solvent tk (ev_self ev) v" "partial_unstake ev tk st x v = (Ok y, v')"
  shows "covered tk (ev_self ev) v v'"
proof -
  from assms(2) obtain u where u: "do_partial_unstake ev tk st x v = (Ok y, u)"
    and v': "v' = u\<lparr>v_rate := record_action ev st StakeChange (v_rate u)\<rparr>"
    unfolding partial_unstake_Ok by blast
  have "money v' = money u" unfolding v' by simp
  with do_partial_unstake_covered [OF assms(1) u] show ?thesis using covered_money_right by blast
qed

lemma delegate_stake_covered:
  assumes "vault_solvent tk (ev_self ev) v" "\<not> ev_auth ev (ev_self ev)" "delegate_stake ev tk dl p x v = (Ok u, v')"
  shows "covered tk (ev_self ev) v v'"
proof -
  from assms(3) obtain tok w where d: "ev_auth ev dl" "0 < x" "stake_token v = Some tok"
    "tk_transfer tk tok dl (ev_self ev) x (v_world v) = CallOk w" "v' = delegated_state dl p x w v"
    unfolding delegate_stake_Ok by blast
  have inv: "vault_inv v" using assms(1) by (simp add: vault_solvent_def)
  have "dl \<noteq> ev_self ev" using d(1) assms(2) by blast
  then have bal: "tk_balance tk a (ev_self ev) w = tk_balance tk a (ev_self ev) (v_world v) + (if a = tok then x else 0)" for a
    using sep41_transfer [OF _ d(4), of a "ev_self ev"] assms(1) by (auto simp: vault_solvent_def)
  have to: "swf (delegated_to v p)" "sall (\<lambda>_ x. 0 \<le> x) (delegated_to v p)"
    using inv by (auto simp: vault_inv_def delegated_to_def opt_or_def sall_def split: option.splits)
  have n: "0 \<le> get_delegated_stake v dl p + x"
    using to(2) d(2) by (simp add: get_delegated_stake_def add_nonneg_nonneg sall_sget_or)
  have sum1: "ssum (\<lambda>_ x. x) (sset dl (get_delegated_stake v dl p + x) (delegated_to v p)) = ssum (\<lambda>_ x. x) (delegated_to v p) + x"
    using to(1) by (cases "sget (delegated_to v p) dl") (auto simp: ssum_sset get_delegated_stake_def sget_or_def)
  have "opt_or 0 (map_option (ssum (\<lambda>_ x. x)) (sget (v_delegated v) p)) = ssum (\<lambda>_ x. x) (delegated_to v p)"
    by (cases "sget (v_delegated v) p") (auto simp: delegated_to_def)
  then have "delegated_total v' = delegated_total v + x"
    using inv d(5) sum1 by (simp add: delegated_total_def delegated_state_def ssum_sset vault_inv_def)
  then have liab: "core_liability v' = core_liability v + x"
    using d(5) by (simp add: core_liability_def stakes_total_def held_total_def delegated_state_def)
  have sum: "ssum (\<lambda>_ x. x) (sset dl (get_delegated_stake v dl p + x) (delegated_to v p)) = get_total_delegated v p + x"
    using inv sum1 by (simp add: vault_inv_def delegated_to_def get_total_delegated_def)
  have "vault_inv v'"
    using inv d(5) to n sum by (auto simp: vault_inv_def delegated_state_def)
  then show ?thesis
    by (rule coveredI [OF assms(1)])
      (use d(3,5) bal liab in \<open>auto simp: delegated_state_def stake_token_def\<close>)
qed

section \<open>Properties\<close>



text \<open>
  A deposit cannot be flashed: after a successful deposit no full and no partial withdrawal of
  that staker succeeds in the same ledger.
\<close>

theorem flash_loan_blocked:
  assumes "deposit_stake ev tk st x v = (Ok (), v1)" "ev_sequence ev' = ev_sequence ev" "ev_sequence ev \<noteq> 0"
  shows "(\<nexists>y v'. withdraw_stake ev' tk' st v1 = (Ok y, v')) \<and> (\<nexists>y v'. partial_unstake ev' tk' st z v1 = (Ok y, v'))"
proof -
  from assms(1) obtain i w where "v1 = deposited ev st x i w v" unfolding deposit_stake_Ok by blast
  then have "flash_loan_detected ev' st (v1\<lparr>v_withdraw_lock := Some True\<rparr>)"
    using assms(2,3) by (simp add: deposited_def flash_loan_detected_def)
  then show ?thesis
    unfolding withdraw_stake_Ok partial_unstake_Ok do_withdraw_def do_partial_unstake_def withdraw_locked_Ok
      do_withdraw_locked_Ok do_partial_unstake_locked_Ok may_withdraw_def
    by blast
qed

theorem flash_loan_blocked_witness:
  "\<exists>v1. deposit_stake example_ev ledger_token 3 500 example_vault = (Ok (), v1) \<and>
    (\<nexists>y v'. withdraw_stake example_ev ledger_token 3 v1 = (Ok y, v'))"
proof -
  obtain v1 where v1: "deposit_stake example_ev ledger_token 3 500 example_vault = (Ok (), v1)"
    by (simp add: deposit_stake_def vault_eval)
  with flash_loan_blocked [OF v1 refl] show ?thesis by (auto simp: example_ev_def)
qed

text \<open>
  The reward index follows the stakes: after a successful deposit, withdrawal or partial
  withdrawal the stake the index records for the staker is the staker's balance, and the recorded
  stake of every other account is what it was.
\<close>

theorem index_follows_stake:
  assumes "vault_inv v"
    and "deposit_stake ev tk st x v = (Ok (), v') \<or> withdraw_stake ev tk st v = (Ok y, v') \<or>
      partial_unstake ev tk st z v = (Ok y, v')"
  shows "user_stake (v_index v') st = get_stake v' st \<and>
    (\<forall>a. a \<noteq> st \<longrightarrow> user_stake (v_index v') a = user_stake (v_index v) a)"
proof -
  have ri: "ri_inv (v_index v)" and nn: "0 \<le> get_stake v st" using assms(1) vault_invD(4) by (auto simp: vault_inv_def)
  have "\<exists>n. on_stake_change st n (v_index v) = (Ok (), v_index v') \<and> 0 \<le> n \<and> get_stake v' st = n"
    using assms(2)
  proof (elim disjE)
    assume "deposit_stake ev tk st x v = (Ok (), v')"
    then obtain i w where "on_stake_change st (get_stake v st + x) (v_index v) = (Ok (), i)" "0 < x" "v' = deposited ev st x i w v"
      unfolding deposit_stake_Ok by blast
    then show ?thesis using nn by (auto simp: deposited_def put_stake_def get_stake_def)
  next
    assume "withdraw_stake ev tk st v = (Ok y, v')"
    then obtain t info i w where "on_stake_change st 0 (v_index v) = (Ok (), i)" "y = balance info"
      "t = withdrawn ev st info y i w (v\<lparr>v_withdraw_lock := Some True\<rparr>)"
      "v' = t\<lparr>v_withdraw_lock := None, v_rate := record_action ev st StakeChange (v_rate t)\<rparr>"
      unfolding withdraw_stake_Ok do_withdraw_def withdraw_locked_Ok do_withdraw_locked_Ok by auto
    then show ?thesis by (auto simp: withdrawn_def paid_out_def put_stake_def get_stake_def)
  next
    assume "partial_unstake ev tk st z v = (Ok y, v')"
    then obtain t info i w where "on_stake_change st (balance info - z) (v_index v) = (Ok (), i)" "z < balance info"
      "t = withdrawn ev st info z i w (v\<lparr>v_withdraw_lock := Some True\<rparr>)"
      "v' = t\<lparr>v_withdraw_lock := None, v_rate := record_action ev st StakeChange (v_rate t)\<rparr>"
      unfolding partial_unstake_Ok do_partial_unstake_def withdraw_locked_Ok do_partial_unstake_locked_Ok by auto
    then show ?thesis by (auto simp: withdrawn_def paid_out_def put_stake_def get_stake_def)
  qed
  then obtain n where n: "on_stake_change st n (v_index v) = (Ok (), v_index v')" "0 \<le> n" "get_stake v' st = n" by blast
  note f = on_stake_change_facts(5,6) [OF ri n(2,1)]
  show ?thesis using f n(3) by simp
qed

theorem index_follows_stake_witness:
  "\<exists>v'. deposit_stake example_ev ledger_token 3 500 example_vault = (Ok (), v') \<and> user_stake (v_index v') 3 = 1500"
proof -
  obtain v' where v': "deposit_stake example_ev ledger_token 3 500 example_vault = (Ok (), v')"
    by (simp add: deposit_stake_def vault_eval)
  have "vault_inv example_vault" using example_vault_solvent by (simp add: vault_solvent_def)
  then have "user_stake (v_index v') 3 = get_stake v' 3" using index_follows_stake v' by blast
  moreover have "get_stake v' 3 = 1500"
  proof -
    from v' obtain i w where "v' = deposited example_ev 3 500 i w example_vault" unfolding deposit_stake_Ok by blast
    then show ?thesis by (simp add: deposited_def put_stake_def get_stake_def example_vault_def)
  qed
  ultimately show ?thesis using v' by simp
qed

end
