(* ===== verification/VaultQueue.thy ===== *)
theory VaultQueue
  imports VaultStake
begin

text \<open>
  The unstake request queue of \<open>stake_vault/src/lib.rs\<close> (issue #663): tickets from head to tail, one
  pending request per account, processed in order of arrival.
\<close>

definition queue_head :: "'w vault \<Rightarrow> nat" where
  "queue_head v = opt_or 0 (uq_head (v_queue v))"

definition queue_tail :: "'w vault \<Rightarrow> nat" where
  "queue_tail v = opt_or 0 (uq_tail (v_queue v))"

definition get_max_unstake_queue_size :: "'w vault \<Rightarrow> nat" where
  "get_max_unstake_queue_size v = opt_or DEFAULT_MAX_UNSTAKE_QUEUE_SIZE (vc_max_queue (v_config v))"

definition queue_unstake :: "env \<Rightarrow> addr \<Rightarrow> 'w vault \<Rightarrow> ('w, nat) vault_call" where
  "queue_unstake ev staker v =
     (if \<not> ev_auth ev staker then (Panic, v)
      else and_then (vault_require_not_paused v) (\<lambda>_ v.
        if sget (uq_tickets (v_queue v)) staker \<noteq> None then (Err UnstakeAlreadyQueued, v)
        else case sget (v_stakes v) staker of
          None \<Rightarrow> (Err NoStake, v)
        | Some info \<Rightarrow>
            if balance info = 0 then (Err NoStake, v)
            else let tail = queue_tail v; head = queue_head v
            in if get_max_unstake_queue_size v \<le> tail - head then (Err QueueFull, v)
               else let q = v_queue v;
                        rq = \<lparr>ticket = tail, rq_user = staker, queued_at = ev_timestamp ev\<rparr>
                    in (Ok tail, v\<lparr>v_queue := q\<lparr>uq_entries := sset tail rq (uq_entries q),
                                              uq_tickets := sset staker tail (uq_tickets q),
                                              uq_tail := Some (u64_sat_add tail 1)\<rparr>\<rparr>)))"

text \<open>The bookkeeping after a request was served.\<close>

definition dequeue :: "env \<Rightarrow> nat \<Rightarrow> addr \<Rightarrow> 'w vault \<Rightarrow> 'w vault" where
  "dequeue ev t user v =
     v\<lparr>v_queue := (v_queue v)\<lparr>uq_entries := sdel t (uq_entries (v_queue v)),
                              uq_tickets := sdel user (uq_tickets (v_queue v))\<rparr>,
       v_rate := record_action ev user StakeChange (v_rate v)\<rparr>"

text \<open>
  The loop, from ticket \<open>head\<close>: an orphaned slot is skipped, a request that cannot be served stops
  the loop. The result is the number served and the new head. It ends because the head moves towards
  the tail (tickets are \<open>u64\<close>, so \<open>tail\<close> is at most the largest one and the head never saturates).
\<close>

function process_loop ::
  "env \<Rightarrow> 'w token_if \<Rightarrow> nat \<Rightarrow> nat \<Rightarrow> nat \<Rightarrow> nat \<Rightarrow> 'w vault \<Rightarrow> ('w, nat \<times> nat) vault_call" where
  "process_loop ev tk limit tail processed head v =
     (if processed < limit \<and> head < tail then
        (case sget (uq_entries (v_queue v)) head of
           None \<Rightarrow> process_loop ev tk limit tail processed (Suc head) v
         | Some rq \<Rightarrow>
             (case do_withdraw ev tk (rq_user rq) v of
                (Ok _, v') \<Rightarrow>
                  process_loop ev tk limit tail (u32_sat_add processed 1) (Suc head) (dequeue ev head (rq_user rq) v')
              | (Err _, v') \<Rightarrow> (Ok (processed, head), v')
              | (Panic, v') \<Rightarrow> (Panic, v')))
      else (Ok (processed, head), v))"
  by auto
termination
  by (relation "measure (\<lambda>(ev, tk, limit, tail, processed, head, v). tail - head)") auto

declare process_loop.simps [simp del]

definition process_unstake_queue :: "env \<Rightarrow> 'w token_if \<Rightarrow> nat \<Rightarrow> 'w vault \<Rightarrow> ('w, nat) vault_call" where
  "process_unstake_queue ev tk limit v =
     and_then (vault_require_not_paused v) (\<lambda>_ v.
       if limit = 0 then (Ok 0, v)
       else let head = queue_head v; tail = queue_tail v
            in if tail \<le> head then (Err QueueEmpty, v)
               else and_then (process_loop ev tk limit tail 0 head v) (\<lambda>r v.
                      (Ok (fst r), v\<lparr>v_queue := (v_queue v)\<lparr>uq_head := Some (snd r)\<rparr>\<rparr>)))"

definition get_queue_position :: "'w vault \<Rightarrow> addr \<Rightarrow> nat option" where
  "get_queue_position v user = map_option (\<lambda>t. t - queue_head v) (sget (uq_tickets (v_queue v)) user)"

section \<open>What a withdrawal leaves alone\<close>

definition withdraw_frame :: "addr \<Rightarrow> 'w vault \<Rightarrow> 'w vault \<Rightarrow> bool" where
  "withdraw_frame st v v' \<longleftrightarrow> v_queue v' = v_queue v \<and> v_slashes v' = v_slashes v \<and> v_config v' = v_config v \<and>
     (\<forall>x. get_stake v' x = get_stake v x \<or> x = st \<and> get_stake v' x = 0)"

lemma token_call_frame:
  "token_call f v = (r, v') \<Longrightarrow> \<exists>w. v' = v\<lparr>v_world := w\<rparr>"
  by (auto simp: token_call_def split: prod.splits)

lemma pay_out_frame:
  assumes "pay_out ev tk tok st info x 0 large v = (r, v')"
  shows "withdraw_frame st v v' \<and> (\<forall>y. r = Ok y \<longrightarrow> y = x \<and> get_stake v' st = 0)"
proof -
  obtain r1 u where tc: "token_call (try_transfer tk tok (ev_self ev) st x) v = (r1, u)" by fastforce
  then obtain w where u: "u = v\<lparr>v_world := w\<rparr>" using token_call_frame by blast
  show ?thesis
  proof (cases r1)
    case (Ok a)
    obtain r2 i where oc: "on_stake_change st 0 (v_index v) = (r2, i)" by fastforce
    have "v' = paid_out ev st info 0 large i w v \<and> (\<forall>y. r = Ok y \<longrightarrow> y = x)"
      using assms tc Ok oc u
      by (cases r2) (auto simp: pay_out_def Let_def index_change_def zoom_def paid_out_def put_stake_def)
    then show ?thesis by (auto simp: withdraw_frame_def paid_out_def put_stake_def get_stake_def)
  qed (use assms tc u in \<open>auto simp: pay_out_def withdraw_frame_def get_stake_def\<close>)
qed

lemma do_withdraw_frame:
  assumes "do_withdraw ev tk st v = (r, v')"
  shows "withdraw_frame st v v' \<and> (\<forall>y. r = Ok y \<longrightarrow> y = get_stake v st \<and> get_stake v' st = 0)"
proof -
  have checks: "\<exists>ls. u' = u\<lparr>v_lockups := ls\<rparr>" if "withdraw_checks ev st x u = (r1, u')" for x r1 and u u' :: "'a vault"
  proof -
    from that have "u' = u \<or> u' = u\<lparr>v_lockups := sdel st (v_lockups u)\<rparr>"
      by (auto simp: withdraw_checks_def require_lockup_released_def split: option.splits if_splits)
    moreover have "u = u\<lparr>v_lockups := v_lockups u\<rparr>" by simp
    ultimately show ?thesis by metis
  qed
  have locked: "withdraw_frame st u u' \<and> (\<forall>y. r1 = Ok y \<longrightarrow> y = get_stake u st \<and> get_stake u' st = 0)"
    if dw: "do_withdraw_locked ev tk st u = (r1, u')" for r1 and u u' :: "'a vault"
  proof (cases "stake_token u"; cases "sget (v_stakes u) st")
    fix tok info
    assume s: "stake_token u = Some tok" "sget (v_stakes u) st = Some info"
    obtain r2 t where c: "withdraw_checks ev st (balance info) u = (r2, t)" by fastforce
    then obtain ls where t: "t = u\<lparr>v_lockups := ls\<rparr>" using checks by blast
    show ?thesis
    proof (cases "balance info = 0 \<or> ev_timestamp ev < locked_until info")
      case True
      then show ?thesis using dw s by (auto simp: do_withdraw_locked_def withdraw_frame_def split: if_splits)
    next
      case False
      then have k: "and_then (r2, t) (pay_out ev tk tok st info (balance info) 0) = (r1, u')"
        using dw s c by (simp add: do_withdraw_locked_def)
      show ?thesis
      proof (cases r2)
        case (Ok large)
        then have "pay_out ev tk tok st info (balance info) 0 large t = (r1, u')" using k by simp
        from pay_out_frame [OF this] show ?thesis
          using t s by (auto simp: withdraw_frame_def get_stake_def)
      qed (use k t in \<open>auto simp: withdraw_frame_def get_stake_def\<close>)
    qed
  qed (use dw in \<open>auto simp: do_withdraw_locked_def withdraw_frame_def\<close>)
  show ?thesis
  proof (cases "opt_or False (v_withdraw_lock v)")
    case False
    obtain r1 t where b: "do_withdraw_locked ev tk st (v\<lparr>v_withdraw_lock := Some True\<rparr>) = (r1, t)" by fastforce
    have "r = r1 \<and> (v' = t \<or> v' = t\<lparr>v_withdraw_lock := None\<rparr>)"
      using assms b False by (cases r1) (auto simp: do_withdraw_def withdraw_locked_def)
    then show ?thesis using locked [OF b] by (auto simp: withdraw_frame_def get_stake_def)
  qed (use assms in \<open>auto simp: do_withdraw_def withdraw_locked_def withdraw_frame_def\<close>)
qed

section \<open>The queue is first in, first out\<close>

abbreviation entry :: "'w vault \<Rightarrow> nat \<Rightarrow> UnstakeRequest option" where
  "entry v t \<equiv> sget (uq_entries (v_queue v)) t"

definition served :: "nat \<Rightarrow> nat \<Rightarrow> 'w vault \<Rightarrow> nat set" where
  "served h h' v = {t. h \<le> t \<and> t < h' \<and> entry v t \<noteq> None}"

lemma served_step:
  assumes "Suc h \<le> h'" "\<And>t. h < t \<Longrightarrow> entry u t = entry v t"
  shows "card (served h h' v) = (if entry v h = None then 0 else 1) + card (served (Suc h) h' u)"
proof -
  have "served h h' v = (if entry v h = None then {} else {h}) \<union> served (Suc h) h' u"
    using assms by (auto simp: served_def le_Suc_eq Suc_le_eq dest: le_neq_implies_less)
  moreover have "h \<notin> served (Suc h) h' u" "finite (served (Suc h) h' u)" by (auto simp: served_def)
  ultimately show ?thesis by simp
qed

definition drained :: "nat \<Rightarrow> nat \<Rightarrow> 'w vault \<Rightarrow> 'w vault \<Rightarrow> bool" where
  "drained h h' v v' \<longleftrightarrow>
     (\<forall>t. entry v' t = (if h \<le> t \<and> t < h' then None else entry v t)) \<and>
     (\<forall>t rq. h \<le> t \<longrightarrow> t < h' \<longrightarrow> entry v t = Some rq \<longrightarrow> get_stake v' (rq_user rq) = 0) \<and>
     (\<forall>x. get_stake v' x = get_stake v x \<or> get_stake v' x = 0)"

lemma drained_skip:
  assumes "entry v h = None" "drained (Suc h) h' v v'"
  shows "drained h h' v v'"
  unfolding drained_def
proof (intro conjI allI impI)
  fix t show "entry v' t = (if h \<le> t \<and> t < h' then None else entry v t)"
    using assms by (cases "t = h") (auto simp: drained_def)
next
  fix t rq assume t: "h \<le> t" "t < h'" "entry v t = Some rq"
  then have "Suc h \<le> t" using assms(1) by (cases "t = h") auto
  then show "get_stake v' (rq_user rq) = 0" using assms(2) t unfolding drained_def by blast
qed (use assms in \<open>auto simp: drained_def\<close>)

lemma drained_serve:
  assumes "entry v h = Some rq" "withdraw_frame (rq_user rq) v u" "get_stake u (rq_user rq) = 0"
    "drained (Suc h) h' (dequeue ev h (rq_user rq) u) v'" "Suc h \<le> h'"
  shows "drained h h' v v'"
proof -
  let ?w = "dequeue ev h (rq_user rq) u"
  have e: "entry ?w t = (if t = h then None else entry v t)" for t
    using assms(2) by (simp add: dequeue_def withdraw_frame_def)
  have g: "get_stake ?w x = get_stake u x" for x by (simp add: dequeue_def get_stake_def)
  have d: "\<And>t. entry v' t = (if Suc h \<le> t \<and> t < h' then None else entry ?w t)"
    "\<And>t r. Suc h \<le> t \<Longrightarrow> t < h' \<Longrightarrow> entry ?w t = Some r \<Longrightarrow> get_stake v' (rq_user r) = 0"
    "\<And>x. get_stake v' x = get_stake ?w x \<or> get_stake v' x = 0"
    using assms(4) unfolding drained_def by blast+
  show ?thesis
    unfolding drained_def
  proof (intro conjI allI impI)
    fix t show "entry v' t = (if h \<le> t \<and> t < h' then None else entry v t)"
      using d(1) [of t] e [of t] assms(5) by (cases "t = h") auto
  next
    fix t r assume t: "h \<le> t" "t < h'" "entry v t = Some r"
    show "get_stake v' (rq_user r) = 0"
    proof (cases "t = h")
      case True
      then have "r = rq" using t assms(1) by simp
      then show ?thesis using d(3) [of "rq_user rq"] g assms(3) by auto
    next
      case False
      then show ?thesis using d(2) [of t r] t e [of t] by auto
    qed
  next
    fix x show "get_stake v' x = get_stake v x \<or> get_stake v' x = 0"
      using d(3) [of x] g [of x] assms(2) unfolding withdraw_frame_def by metis
  qed
qed

lemma drained_stop: "withdraw_frame st v v' \<Longrightarrow> drained h h v v'"
  unfolding withdraw_frame_def drained_def by auto

lemma withdraw_frame_refl: "withdraw_frame st v v"
  by (simp add: withdraw_frame_def)

text \<open>
  What the loop returns: the tickets it passed are gone, and with them their users' stakes; the
  count is the number of requests among them; it stops early only at a request still in the queue.
\<close>

definition loop_result :: "nat \<Rightarrow> nat \<Rightarrow> nat \<Rightarrow> nat \<Rightarrow> 'w vault \<Rightarrow> nat \<Rightarrow> nat \<Rightarrow> 'w vault \<Rightarrow> bool" where
  "loop_result limit tail n h v m h' v' \<longleftrightarrow>
     h \<le> h' \<and> h' \<le> tail \<and> m = n + card (served h h' v) \<and> m \<le> limit \<and> drained h h' v v' \<and>
     (m < limit \<longrightarrow> h' < tail \<longrightarrow> entry v' h' \<noteq> None)"

lemma served_empty [simp]: "served h h v = {}"
  by (auto simp: served_def)

lemma loop_result_skip:
  assumes "loop_result limit tail n (Suc h) v m h' v'" "entry v h = None"
  shows "loop_result limit tail n h v m h' v'"
  using assms drained_skip [of v h h' v'] served_step [of h h' v v] by (simp add: loop_result_def)

lemma loop_result_serve:
  assumes "loop_result limit tail (Suc n) (Suc h) (dequeue ev h (rq_user rq) u) m h' v'" "entry v h = Some rq"
    "withdraw_frame (rq_user rq) v u" "get_stake u (rq_user rq) = 0"
  shows "loop_result limit tail n h v m h' v'"
proof -
  have "entry (dequeue ev h (rq_user rq) u) t = entry v t" if "h < t" for t
    using assms(3) that by (simp add: dequeue_def withdraw_frame_def)
  then show ?thesis
    using assms drained_serve [of v h rq u h' ev v'] served_step [of h h' "dequeue ev h (rq_user rq) u" v]
    by (simp add: loop_result_def)
qed

lemma process_loop_fifo:
  assumes "process_loop ev tk limit tail n h v = (Ok (m, h'), v')" "h \<le> tail" "n \<le> limit" "limit \<le> u32_max"
  shows "loop_result limit tail n h v m h' v'"
  using assms
proof (induction ev tk limit tail n h v rule: process_loop.induct)
  case (1 ev tk limit tail n h v)
  note run = "1.prems"(1) [unfolded process_loop.simps [of ev tk limit tail n h v]]
  show ?case
  proof (cases "n < limit \<and> h < tail")
    case False
    then have "m = n" "h' = h" "v' = v" using run by (auto split: if_splits)
    then show ?thesis using False "1.prems" drained_stop [OF withdraw_frame_refl] by (auto simp: loop_result_def)
  next
    case go: True
    show ?thesis
    proof (cases "entry v h")
      case None
      then show ?thesis using go run "1.IH"(1) [OF go None] "1.prems" loop_result_skip by simp
    next
      case (Some rq)
      obtain r u where dw: "do_withdraw ev tk (rq_user rq) v = (r, u)" by fastforce
      note frame = do_withdraw_frame [OF dw]
      show ?thesis
      proof (cases r)
        case (Ok y)
        have "u32_sat_add n 1 = Suc n" using go "1.prems"(4) by (simp add: u32_sat_add_def)
        then have "loop_result limit tail (Suc n) (Suc h) (dequeue ev h (rq_user rq) u) m h' v'"
          using "1.IH"(2) [OF go Some dw [symmetric] Ok] run go Some dw Ok "1.prems" by simp
        then show ?thesis using loop_result_serve Some frame Ok by blast
      next
        case (Err e)
        then have "m = n" "h' = h" "v' = u" using run go Some dw by auto
        then show ?thesis using frame Some go drained_stop by (auto simp: loop_result_def withdraw_frame_def)
      qed (use run go Some dw in simp)
    qed
  qed
qed

lemma process_loop_tail:
  "process_loop ev tk limit tail n h v = (r, v') \<Longrightarrow> queue_tail v' = queue_tail v"
proof (induction ev tk limit tail n h v arbitrary: r rule: process_loop.induct)
  case (1 ev tk limit tail n h v)
  note run = "1.prems"(1) [unfolded process_loop.simps [of ev tk limit tail n h v]]
  show ?case
  proof (cases "n < limit \<and> h < tail")
    case go: True
    show ?thesis
    proof (cases "entry v h")
      case None
      then show ?thesis using go run "1.IH"(1) [OF go None] by simp
    next
      case (Some rq)
      obtain r1 u where dw: "do_withdraw ev tk (rq_user rq) v = (r1, u)" by fastforce
      have u: "queue_tail u = queue_tail v" "queue_tail (dequeue ev h (rq_user rq) u) = queue_tail v"
        using do_withdraw_frame [OF dw] by (simp_all add: withdraw_frame_def queue_tail_def dequeue_def)
      show ?thesis
        using "1.IH"(2) [OF go Some dw [symmetric]] run go Some dw u by (cases r1) auto
    qed
  qed (use run in \<open>auto split: if_splits\<close>)
qed

section \<open>Processing keeps the vault solvent\<close>

lemma money_dequeue [simp]: "money (dequeue ev t st v) = money v"
  by (simp add: dequeue_def)

lemma process_loop_covered:
  assumes "process_loop ev tk limit tail n h v = (r, v')" "vault_solvent tk (ev_self ev) v"
  shows "covered tk (ev_self ev) v v'"
  using assms
proof (induction ev tk limit tail n h v arbitrary: r rule: process_loop.induct)
  case (1 ev tk limit tail n h v)
  note run = "1.prems"(1) [unfolded process_loop.simps [of ev tk limit tail n h v]]
  show ?case
  proof (cases "n < limit \<and> h < tail")
    case go: True
    show ?thesis
    proof (cases "entry v h")
      case None
      then show ?thesis using go run "1.IH"(1) [OF go None] "1.prems" by simp
    next
      case (Some rq)
      obtain r1 u where dw: "do_withdraw ev tk (rq_user rq) v = (r1, u)" by fastforce
      have cov: "covered tk (ev_self ev) v u" by (rule do_withdraw_covered [OF "1.prems"(2) dw])
      show ?thesis
      proof (cases r1)
        case (Ok y)
        let ?d = "dequeue ev h (rq_user rq) u"
        have d: "covered tk (ev_self ev) v ?d" using cov covered_money_right [of ?d u] by simp
        have "covered tk (ev_self ev) ?d v'"
          using "1.IH"(2) [OF go Some dw [symmetric] Ok] run go Some dw Ok covered_solvent [OF "1.prems"(2) d] by simp
        then show ?thesis by (rule covered_trans [OF d])
      qed (use run go Some dw cov in auto)
    qed
  qed (use run "1.prems"(2) covered_refl in \<open>auto split: if_splits\<close>)
qed

lemma process_unstake_queue_Ok:
  "process_unstake_queue ev tk limit v = (Ok m, v') \<longleftrightarrow> \<not> is_paused (v_pause v) \<and>
     (limit = 0 \<and> m = 0 \<and> v' = v \<or> 0 < limit \<and> queue_head v < queue_tail v \<and>
      (\<exists>h' u. process_loop ev tk limit (queue_tail v) 0 (queue_head v) v = (Ok (m, h'), u) \<and>
         v' = u\<lparr>v_queue := (v_queue u)\<lparr>uq_head := Some h'\<rparr>\<rparr>))"
  by (auto simp: process_unstake_queue_def and_then_Ok vault_require_not_paused_Ok Let_def)

lemma process_unstake_queue_covered:
  assumes "vault_solvent tk (ev_self ev) v" "process_unstake_queue ev tk limit v = (Ok m, v')"
  shows "covered tk (ev_self ev) v v'"
  using assms(2) unfolding process_unstake_queue_Ok
proof (elim conjE disjE exE)
  fix h' u assume u: "process_loop ev tk limit (queue_tail v) 0 (queue_head v) v = (Ok (m, h'), u)"
    and v': "v' = u\<lparr>v_queue := (v_queue u)\<lparr>uq_head := Some h'\<rparr>\<rparr>"
  have "money v' = money u" unfolding v' by simp
  then show ?thesis using process_loop_covered [OF u assms(1)] covered_money_right by blast
qed (use assms(1) covered_refl in auto)

lemma queue_unstake_covered:
  assumes "vault_solvent tk self v" "queue_unstake ev st v = (Ok t, v')"
  shows "covered tk self v v'"
proof (rule covered_money [OF assms(1)])
  show "money v' = money v"
    using assms(2) by (auto simp: queue_unstake_def and_then_Ok vault_require_not_paused_Ok Let_def split: if_splits option.splits)
qed

section \<open>Properties\<close>

text \<open>
  The unstake queue is served first in, first out. A successful \<open>process_unstake_queue\<close> with a
  positive limit serves a prefix of the waiting tickets: every request it passes is removed and its
  user's stake paid out, the result is the number of requests served and never exceeds the limit,
  tickets behind the new head are untouched, and the loop stops below the limit only at the end of
  the queue or at a request that could not be served, which stays at the head.
\<close>

theorem unstake_queue_fifo:
  assumes "process_unstake_queue ev tk limit v = (Ok m, v')" "0 < limit" "limit \<le> u32_max"
  shows "queue_head v \<le> queue_head v' \<and> queue_head v' \<le> queue_tail v \<and> queue_tail v' = queue_tail v \<and>
    m = card {t. queue_head v \<le> t \<and> t < queue_head v' \<and> sget (uq_entries (v_queue v)) t \<noteq> None} \<and> m \<le> limit \<and>
    (\<forall>t. sget (uq_entries (v_queue v')) t =
       (if queue_head v \<le> t \<and> t < queue_head v' then None else sget (uq_entries (v_queue v)) t)) \<and>
    (\<forall>t rq. queue_head v \<le> t \<longrightarrow> t < queue_head v' \<longrightarrow> sget (uq_entries (v_queue v)) t = Some rq \<longrightarrow>
       get_stake v' (rq_user rq) = 0) \<and>
    (m < limit \<longrightarrow> queue_head v' < queue_tail v \<longrightarrow> sget (uq_entries (v_queue v')) (queue_head v') \<noteq> None)"
proof -
  from assms obtain h' u where run: "process_loop ev tk limit (queue_tail v) 0 (queue_head v) v = (Ok (m, h'), u)"
    and lt: "queue_head v < queue_tail v" and v': "v' = u\<lparr>v_queue := (v_queue u)\<lparr>uq_head := Some h'\<rparr>\<rparr>"
    unfolding process_unstake_queue_Ok by auto
  have res: "loop_result limit (queue_tail v) 0 (queue_head v) v m h' u"
    by (rule process_loop_fifo [OF run]) (use lt assms in auto)
  have "queue_tail u = queue_tail v" by (rule process_loop_tail [OF run])
  then have q: "queue_head v' = h'" "queue_tail v' = queue_tail v" "entry v' t = entry u t" "get_stake v' x = get_stake u x" for t x
    by (simp_all add: v' queue_head_def queue_tail_def get_stake_def)
  show ?thesis unfolding q using res by (auto simp: loop_result_def drained_def served_def)
qed

text \<open>
  Accounts 3 and 4 wait with tickets 0 and 1; account 4 has nothing staked, so its request stops the
  queue.
\<close>

definition queued_example :: "ledger vault" where
  "queued_example = example_vault\<lparr>v_queue := \<lparr>uq_head = None, uq_tail = Some 2,
     uq_entries = [(0, \<lparr>ticket = 0, rq_user = 3, queued_at = 5\<rparr>), (1, \<lparr>ticket = 1, rq_user = 4, queued_at = 6\<rparr>)],
     uq_tickets = [(3, 0), (4, 1)]\<rparr>\<rparr>"

lemma queued_example_run:
  "\<exists>v'. process_unstake_queue example_ev ledger_token 5 queued_example = (Ok 1, v')"
  by (simp add: process_unstake_queue_def process_loop.simps queued_example_def queue_head_def queue_tail_def do_withdraw_def
      do_withdraw_locked_def withdraw_checks_def pay_out_def dequeue_def u32_sat_add_def u32_max_def vault_eval)

theorem unstake_queue_fifo_witness:
  "\<exists>v'. process_unstake_queue example_ev ledger_token 5 queued_example = (Ok 1, v') \<and> queue_head v' \<le> 2 \<and>
     sget (uq_entries (v_queue v')) 5 = None"
proof -
  obtain v' where v': "process_unstake_queue example_ev ledger_token 5 queued_example = (Ok 1, v')"
    using queued_example_run by blast
  have "queue_tail queued_example = 2" by (simp add: queued_example_def queue_tail_def)
  moreover have "sget (uq_entries (v_queue queued_example)) 5 = None" by (simp add: queued_example_def)
  ultimately show ?thesis using unstake_queue_fifo [OF v'] v' by (simp add: u32_max_def)
qed

text \<open>
  Joining the queue: a successful \<open>queue_unstake\<close> appends one request of the signer at the tail
  and records its ticket, only when the account has a stake, is not queued yet and fewer than the
  maximum are waiting; the number waiting is then at most the maximum, and no stake moves.
\<close>

theorem queue_unstake_appends:
  assumes "queue_unstake ev st v = (Ok t, v')" "queue_tail v < u64_max" "queue_head v \<le> queue_tail v"
  shows "t = queue_tail v \<and> ev_auth ev st \<and> \<not> is_paused (v_pause v) \<and> get_stake v st \<noteq> 0 \<and>
    sget (uq_tickets (v_queue v)) st = None \<and> queue_tail v' = Suc t \<and> queue_head v' = queue_head v \<and>
    queue_tail v' - queue_head v' \<le> get_max_unstake_queue_size v \<and>
    sget (uq_entries (v_queue v')) t = Some \<lparr>ticket = t, rq_user = st, queued_at = ev_timestamp ev\<rparr> \<and>
    get_queue_position v' st = Some (t - queue_head v) \<and>
    (\<forall>j. j \<noteq> t \<longrightarrow> sget (uq_entries (v_queue v')) j = sget (uq_entries (v_queue v)) j) \<and> money v' = money v"
  using assms
  by (auto simp: queue_unstake_def and_then_Ok vault_require_not_paused_Ok Let_def get_stake_def queue_tail_def queue_head_def
      get_queue_position_def u64_sat_add_def split: if_splits option.splits)

theorem queue_unstake_appends_witness:
  "\<exists>v'. queue_unstake example_ev 3 example_vault = (Ok 0, v') \<and> get_queue_position v' 3 = Some 0"
proof -
  obtain v' where v': "queue_unstake example_ev 3 example_vault = (Ok 0, v')"
    by (simp add: queue_unstake_def queue_head_def queue_tail_def get_max_unstake_queue_size_def
        DEFAULT_MAX_UNSTAKE_QUEUE_SIZE_def vault_eval)
  have q: "queue_tail example_vault = 0" "queue_head example_vault = 0"
    by (simp_all add: queue_tail_def queue_head_def example_vault_def empty_vault_def)
  show ?thesis using queue_unstake_appends [OF v'] v' q by (simp add: u64_max_def)
qed

end
