(* ===== verification/VaultSlash.thy ===== *)
theory VaultSlash
  imports VaultStake
begin

text \<open>
  Slashing and appeals of \<open>stake_vault/src/lib.rs\<close>: the slash of a provider's own and delegated
  stake, the held funds of a slash under appeal, and the resolution of appeals, singly and in
  batches. A batch catches the errors of its items and goes on with the storage they left.
\<close>

section \<open>Slashing\<close>

text \<open>The loop over the delegators of the provider, in key order.\<close>

fun slash_delegators :: "nat \<Rightarrow> addr list \<Rightarrow> (addr, int) smap \<Rightarrow> int \<Rightarrow> (addr, int) smap \<times> int" where
  "slash_delegators bps [] d tot = (d, tot)"
| "slash_delegators bps (k # ks) d tot =
     (let d_amount = sget_or 0 d k
      in if d_amount = 0 then slash_delegators bps ks d tot
         else let d_slash = slash_part d_amount bps
              in slash_delegators bps ks (sset k (saturating_sub d_amount d_slash) d) (saturating_add tot d_slash))"

definition slash_delegated :: "nat \<Rightarrow> addr \<Rightarrow> 'w vault \<Rightarrow> int \<times> 'w vault" where
  "slash_delegated bps provider v =
     (let delegated = delegated_to v provider
      in case slash_delegators bps (map fst delegated) delegated 0 of
           (delegated', tot) \<Rightarrow>
             (tot, if 0 < tot
                   then v\<lparr>v_delegated := sset provider delegated' (v_delegated v),
                          v_total_delegated := sset provider (saturating_sub (get_total_delegated v provider) tot)
                            (v_total_delegated v)\<rparr>
                   else v))"

definition slash_cooldown_ledgers :: "'w vault \<Rightarrow> nat" where
  "slash_cooldown_ledgers v = opt_or DEFAULT_SLASH_COOLDOWN_LEDGERS (vc_slash_cooldown (v_config v))"

definition slash_cooldown_active :: "env \<Rightarrow> addr \<Rightarrow> 'w vault \<Rightarrow> bool" where
  "slash_cooldown_active ev provider v \<longleftrightarrow>
     (let last_slash = sget_or 0 (sb_last (v_slashes v)) provider
      in 0 < last_slash \<and> ev_sequence ev - (last_slash - 1) < slash_cooldown_ledgers v)"

definition get_slash_tier_config :: "'w vault \<Rightarrow> SlashTierConfig" where
  "get_slash_tier_config v = opt_or default_slash_config (vc_slash_tiers (v_config v))"

text \<open>The new slash record, under the next identifier, and the ledger of the provider's last slash.\<close>

definition record_slash :: "env \<Rightarrow> addr \<Rightarrow> SlashSeverity \<Rightarrow> symbol \<Rightarrow> int \<Rightarrow> 'w vault \<Rightarrow> nat \<times> 'w vault" where
  "record_slash ev provider severity reason amount v =
     (let sb = v_slashes v;
          slash_id = opt_or 0 (sb_counter sb);
          cooldown = slash_cooldown_ledgers v;
          r = \<lparr>sr_slash_id = slash_id, sr_provider = provider, sr_severity = severity_code severity,
               sr_slash_amount = amount, sr_slashed_at = ev_timestamp ev, sr_reason = reason,
               sr_cooldown_expires_at = (if 0 < cooldown then u32_sat_add (ev_sequence ev) cooldown else 0)\<rparr>
      in (slash_id,
          v\<lparr>v_slashes := sb\<lparr>sb_counter := Some (u64_sat_add slash_id 1),
                              sb_records := sset slash_id r (sb_records sb),
                              sb_last := sset provider (u32_sat_add (ev_sequence ev) 1) (sb_last sb)\<rparr>\<rparr>))"

text \<open>With an appeal window the slashed funds are parked, without one they are burned at once.\<close>

definition dispose_slashed :: "env \<Rightarrow> 'w token_if \<Rightarrow> addr \<Rightarrow> nat \<Rightarrow> int \<Rightarrow> 'w vault \<Rightarrow> ('w, unit) vault_call" where
  "dispose_slashed ev tk tok slash_id amount v =
     (if 0 < opt_or 0 (vc_appeal_window (v_config v))
      then (Ok (), v\<lparr>v_slashes := (v_slashes v)\<lparr>sb_held := sset slash_id amount (sb_held (v_slashes v))\<rparr>\<rparr>)
      else token_call (try_burn tk tok (ev_self ev) amount) v)"

definition do_slash ::
  "env \<Rightarrow> 'w token_if \<Rightarrow> addr \<Rightarrow> SlashSeverity \<Rightarrow> symbol \<Rightarrow> 'w vault \<Rightarrow> ('w, int) vault_call" where
  "do_slash ev tk provider severity reason v =
     (case stake_token v of
        None \<Rightarrow> (Err NotInitialized, v)
      | Some tok \<Rightarrow>
      if slash_cooldown_active ev provider v then (Err SlashCooldownActive, v)
      else let bps = tier_bps (get_slash_tier_config v) severity
      in case sget (v_stakes v) provider of
        None \<Rightarrow> (Err NoStake, v)
      | Some info \<Rightarrow>
          if balance info = 0 then (Err NoStake, v)
          else let own_slash = (if 0 < balance info then slash_part (balance info) bps else 0);
                   v = put_stake provider
                         (info\<lparr>balance := saturating_sub (balance info) own_slash, last_updated := ev_timestamp ev\<rparr>) v
          in case slash_delegated bps provider v of (delegated_slash, v) \<Rightarrow>
             let tot = saturating_add own_slash delegated_slash;
                 slash_amount = (if tot = 0 then 1 else tot)
             in case record_slash ev provider severity reason slash_amount v of (slash_id, v) \<Rightarrow>
                and_then (dispose_slashed ev tk tok slash_id slash_amount v) (\<lambda>_ v.
                  (Ok slash_amount, lock_provider ev provider (default_lockup_ledgers v) v)))"

definition slash_stake ::
  "env \<Rightarrow> 'w token_if \<Rightarrow> addr \<Rightarrow> addr \<Rightarrow> SlashSeverity \<Rightarrow> symbol \<Rightarrow> 'w vault \<Rightarrow> ('w, int) vault_call" where
  "slash_stake ev tk caller provider severity reason v =
     (case require_not_locked (v_reentrancy v) of
        Err _ \<Rightarrow> (Err StakeVaultError.ReentrancyDetected, v)
      | Panic \<Rightarrow> (Panic, v)
      | Ok _ \<Rightarrow>
      if \<not> ev_auth ev caller then (Panic, v)
      else and_then (require_signal_registry caller v) (\<lambda>_. do_slash ev tk provider severity reason))"

text \<open>The loop of a batch: an item that fails counts as zero, whatever it wrote stays.\<close>

fun slash_items ::
  "env \<Rightarrow> 'w token_if \<Rightarrow> symbol \<Rightarrow> (addr \<times> SlashSeverity) list \<Rightarrow> 'w vault \<Rightarrow> ('w, int list) vault_call" where
  "slash_items ev tk reason [] v = (Ok [], v)"
| "slash_items ev tk reason ((provider, severity) # items) v =
     (case do_slash ev tk provider severity reason v of
        (Panic, t) \<Rightarrow> (Panic, t)
      | (r, t) \<Rightarrow> and_then (slash_items ev tk reason items t)
          (\<lambda>rs u. (Ok ((case r of Ok a \<Rightarrow> a | _ \<Rightarrow> 0) # rs), u)))"

definition batch_slash_stake ::
  "env \<Rightarrow> 'w token_if \<Rightarrow> addr \<Rightarrow> addr list \<Rightarrow> SlashSeverity list \<Rightarrow> symbol \<Rightarrow> 'w vault \<Rightarrow> ('w, int list) vault_call" where
  "batch_slash_stake ev tk caller providers severities reason v =
     (if \<not> ev_auth ev caller then (Panic, v)
      else and_then (require_signal_registry caller v) (\<lambda>_ v.
        if providers = [] \<or> MAX_BATCH_SIZE < length providers then (Err BatchSizeInvalid, v)
        else if length providers \<noteq> length severities then (Err BatchLengthMismatch, v)
        else slash_items ev tk reason (zip providers severities) v))"

section \<open>Appeals\<close>

definition appeal_slash :: "env \<Rightarrow> addr \<Rightarrow> nat \<Rightarrow> string \<Rightarrow> 'w vault \<Rightarrow> ('w, unit) vault_call" where
  "appeal_slash ev appellant slash_id uri v =
     (if \<not> ev_auth ev appellant then (Panic, v)
      else case sget (sb_records (v_slashes v)) slash_id of
        None \<Rightarrow> (Err SlashNotFound, v)
      | Some r \<Rightarrow>
          if sr_provider r \<noteq> appellant then (Err StakeVaultError.Unauthorized, v)
          else let window = opt_or 0 (vc_appeal_window (v_config v))
               in if window = 0 \<or> u64_sat_add (sr_slashed_at r) window < ev_timestamp ev then (Err AppealWindowClosed, v)
                  else if sget (sb_appeals (v_slashes v)) slash_id \<noteq> None then (Err AppealAlreadyExists, v)
                  else let a = \<lparr>ap_slash_id = slash_id, ap_appellant = appellant, ap_evidence_uri = uri,
                               ap_submitted_at = ev_timestamp ev, ap_status = Pending\<rparr>
                       in (Ok (), v\<lparr>v_slashes := (v_slashes v)\<lparr>sb_appeals := sset slash_id a (sb_appeals (v_slashes v))\<rparr>\<rparr>))"

definition drop_held :: "nat \<Rightarrow> 'w vault \<Rightarrow> 'w vault" where
  "drop_held slash_id v = v\<lparr>v_slashes := (v_slashes v)\<lparr>sb_held := sdel slash_id (sb_held (v_slashes v))\<rparr>\<rparr>"

definition save_appeal :: "nat \<Rightarrow> SlashAppeal \<Rightarrow> 'w vault \<Rightarrow> 'w vault" where
  "save_appeal slash_id a v = v\<lparr>v_slashes := (v_slashes v)\<lparr>sb_appeals := sset slash_id a (sb_appeals (v_slashes v))\<rparr>\<rparr>"

text \<open>A reversal credits the provider's own stake with the held funds, or with the recorded amount if none are held.\<close>

definition restore_stake :: "env \<Rightarrow> addr \<Rightarrow> int \<Rightarrow> 'w vault \<Rightarrow> 'w vault" where
  "restore_stake ev provider amount v =
     (let current = opt_or no_stake_info (sget (v_stakes v) provider)
      in put_stake provider \<lparr>balance = saturating_add (balance current) amount,
            locked_until = locked_until current, last_updated = ev_timestamp ev\<rparr> v)"

definition do_resolve_appeal :: "env \<Rightarrow> 'w token_if \<Rightarrow> nat \<Rightarrow> bool \<Rightarrow> 'w vault \<Rightarrow> ('w, unit) vault_call" where
  "do_resolve_appeal ev tk slash_id uphold v =
     (case sget (sb_records (v_slashes v)) slash_id of
        None \<Rightarrow> (Err SlashNotFound, v)
      | Some r \<Rightarrow>
      (case sget (sb_appeals (v_slashes v)) slash_id of
        None \<Rightarrow> (Err SlashNotFound, v)
      | Some appeal \<Rightarrow>
          if ap_status appeal \<noteq> Pending then (Err AppealAlreadyResolved, v)
          else let held = sget_or 0 (sb_held (v_slashes v)) slash_id
          in case stake_token v of
            None \<Rightarrow> (Err NotInitialized, v)
          | Some tok \<Rightarrow>
              if uphold then
                and_then
                  (if 0 < held then token_call (try_burn tk tok (ev_self ev) held) (drop_held slash_id v) else (Ok (), v))
                  (\<lambda>_ v. (Ok (), save_appeal slash_id (appeal\<lparr>ap_status := Upheld\<rparr>) v))
              else
                let v = restore_stake ev (sr_provider r) (if 0 < held then held else sr_slash_amount r) v;
                    v = (if 0 < held then drop_held slash_id v else v)
                in (Ok (), save_appeal slash_id (appeal\<lparr>ap_status := Reversed\<rparr>) v)))"

definition resolve_appeal :: "env \<Rightarrow> 'w token_if \<Rightarrow> nat \<Rightarrow> bool \<Rightarrow> 'w vault \<Rightarrow> ('w, unit) vault_call" where
  "resolve_appeal ev tk slash_id uphold v =
     (if ms_config (v_multisig v) \<noteq> None then (Err RequiresMultisig, v)
      else case vc_admin (v_config v) of
        None \<Rightarrow> (Err NotInitialized, v)
      | Some admin \<Rightarrow> if \<not> ev_auth ev admin then (Panic, v) else do_resolve_appeal ev tk slash_id uphold v)"

fun resolve_items :: "env \<Rightarrow> 'w token_if \<Rightarrow> (nat \<times> bool) list \<Rightarrow> nat \<Rightarrow> 'w vault \<Rightarrow> ('w, nat) vault_call" where
  "resolve_items ev tk [] n v = (Ok n, v)"
| "resolve_items ev tk ((slash_id, uphold) # items) n v =
     (case do_resolve_appeal ev tk slash_id uphold v of
        (Panic, t) \<Rightarrow> (Panic, t)
      | (Ok _, t) \<Rightarrow> resolve_items ev tk items (u32_sat_add n 1) t
      | (Err _, t) \<Rightarrow> resolve_items ev tk items n t)"

definition batch_resolve_appeal ::
  "env \<Rightarrow> 'w token_if \<Rightarrow> nat list \<Rightarrow> bool list \<Rightarrow> 'w vault \<Rightarrow> ('w, nat) vault_call" where
  "batch_resolve_appeal ev tk slash_ids upholds v =
     (case vc_admin (v_config v) of
        None \<Rightarrow> (Err NotInitialized, v)
      | Some admin \<Rightarrow>
          if \<not> ev_auth ev admin then (Panic, v)
          else if slash_ids = [] \<or> MAX_BATCH_SIZE < length slash_ids then (Err BatchSizeInvalid, v)
          else if length slash_ids \<noteq> length upholds then (Err BatchLengthMismatch, v)
          else resolve_items ev tk (zip slash_ids upholds) 0 v)"

section \<open>What a slash takes\<close>

lemma slash_delegators_facts:
  assumes "swf d" "sall (\<lambda>_ x. 0 \<le> x) d" "0 \<le> tot" "tot + ssum (\<lambda>_ x. x) d \<le> i128_max"
    "slash_delegators bps ks d tot = (d', tot')"
  shows "swf d' \<and> sall (\<lambda>_ x. 0 \<le> x) d' \<and> tot \<le> tot' \<and> tot' + ssum (\<lambda>_ x. x) d' = tot + ssum (\<lambda>_ x. x) d"
  using assms
proof (induction ks arbitrary: d tot)
  case (Cons k ks)
  define x where "x = sget_or 0 d k"
  show ?case
  proof (cases "x = 0")
    case True
    then show ?thesis using Cons by (simp add: x_def)
  next
    case False
    then have dk: "sget d k = Some x" by (cases "sget d k") (auto simp: x_def sget_or_def)
    then have pos: "0 < x" using Cons.prems(2) False by (auto simp: sall_def less_le)
    define p where "p = slash_part x bps"
    have p: "1 \<le> p" "p \<le> x" using slash_part_bounds [OF pos] by (auto simp: p_def)
    have "x \<le> ssum (\<lambda>_ x. x) d"
      using Cons.prems(2) by (intro ssum_member_le [OF Cons.prems(1) _ dk]) (auto simp: sall_mem [OF Cons.prems(1)])
    then have exact: "saturating_sub x p = x - p" "saturating_add tot p = tot + p"
      using p pos Cons.prems(3,4) by (auto simp: saturating_sub_def saturating_add_def sat_i128_def i128_min_def)
    have sum: "ssum (\<lambda>_ x. x) (sset k (x - p) d) = ssum (\<lambda>_ x. x) d - p"
      using dk by (simp add: ssum_sset [OF Cons.prems(1)])
    have "slash_delegators bps ks (sset k (x - p) d) (tot + p) = (d', tot')"
      using Cons.prems(5) False by (simp add: Let_def flip: x_def p_def) (simp add: exact)
    then have "swf d' \<and> sall (\<lambda>_ x. 0 \<le> x) d' \<and> tot + p \<le> tot' \<and>
        tot' + ssum (\<lambda>_ x. x) d' = tot + p + ssum (\<lambda>_ x. x) (sset k (x - p) d)"
      using Cons.prems(1-4) p sum by (intro Cons.IH) auto
    then show ?thesis using sum p by auto
  qed
qed simp

lemma delegated_member:
  assumes "vault_inv v"
  shows "swf (delegated_to v p)" "sall (\<lambda>_ x. 0 \<le> x) (delegated_to v p)"
    "ssum (\<lambda>_ x. x) (delegated_to v p) \<le> delegated_total v"
    "get_total_delegated v p = ssum (\<lambda>_ x. x) (delegated_to v p)" "0 \<le> get_total_delegated v p"
proof -
  show wf: "swf (delegated_to v p)" "sall (\<lambda>_ x. 0 \<le> x) (delegated_to v p)"
    using assms by (auto simp: vault_inv_def delegated_to_def opt_or_def sall_def split: option.splits)
  show tot: "get_total_delegated v p = ssum (\<lambda>_ x. x) (delegated_to v p)"
    using assms by (simp add: vault_inv_def get_total_delegated_def delegated_to_def)
  have nn: "0 \<le> ssum (\<lambda>_ x. x) d" if "(q, d) \<in> set (v_delegated v)" for q d
    by (rule ssum_nonneg) (use assms that in \<open>force simp: vault_inv_def sall_mem\<close>)
  show "ssum (\<lambda>_ x. x) (delegated_to v p) \<le> delegated_total v"
  proof (cases "sget (v_delegated v) p")
    case None
    then show ?thesis using vault_invD(2) [OF assms] by (simp add: delegated_to_def)
  next
    case (Some d)
    then show ?thesis
      unfolding delegated_total_def delegated_to_def
      using assms nn ssum_member_le [of "v_delegated v" "\<lambda>_ d. ssum (\<lambda>_ x. x) d" p d] by (simp add: vault_inv_def)
  qed
  show "0 \<le> get_total_delegated v p"
    unfolding tot by (rule ssum_nonneg) (use wf in \<open>auto simp: sall_mem\<close>)
qed

lemma slash_delegated_facts:
  assumes "vault_inv v" "delegated_total v \<le> i128_max" "slash_delegated bps p v = (tot, v')"
  shows "0 \<le> tot" "delegated_total v' = delegated_total v - tot" "vault_inv v'"
    "get_total_delegated v' p = get_total_delegated v p - tot"
    "v_stakes v' = v_stakes v" "v_slashes v' = v_slashes v" "v_index v' = v_index v" "v_claims v' = v_claims v"
    "v_world v' = v_world v" "v_config v' = v_config v" "v_lockups v' = v_lockups v" "stake_token v' = stake_token v"
proof -
  note m = delegated_member [OF assms(1), of p]
  obtain d t where sd: "slash_delegators bps (map fst (delegated_to v p)) (delegated_to v p) 0 = (d, t)" by fastforce
  have tot: "tot = t" and v': "v' = (if 0 < t then v\<lparr>v_delegated := sset p d (v_delegated v),
      v_total_delegated := sset p (saturating_sub (get_total_delegated v p) t) (v_total_delegated v)\<rparr> else v)"
    using assms(3) sd by (auto simp: slash_delegated_def Let_def)
  have f: "swf d \<and> sall (\<lambda>_ x. 0 \<le> x) d \<and> 0 \<le> t \<and> t + ssum (\<lambda>_ x. x) d = 0 + ssum (\<lambda>_ x. x) (delegated_to v p)"
    using m(3) assms(2) by (intro slash_delegators_facts [OF m(1,2) order_refl _ sd]) simp
  have dn: "0 \<le> ssum (\<lambda>_ x. x) d" by (rule ssum_nonneg) (use f in \<open>auto simp: sall_mem\<close>)
  have sat: "saturating_sub (get_total_delegated v p) t = get_total_delegated v p - t"
    using f dn m(3-5) assms(2) by (auto simp: saturating_sub_def sat_i128_def i128_min_def)
  have old: "opt_or 0 (map_option (ssum (\<lambda>_ x. x)) (sget (v_delegated v) p)) = ssum (\<lambda>_ x. x) (delegated_to v p)"
    by (cases "sget (v_delegated v) p") (auto simp: delegated_to_def)
  show "0 \<le> tot" using f tot by simp
  show "v_stakes v' = v_stakes v" "v_slashes v' = v_slashes v" "v_index v' = v_index v" "v_claims v' = v_claims v"
    "v_world v' = v_world v" "v_config v' = v_config v" "v_lockups v' = v_lockups v" "stake_token v' = stake_token v"
    using v' by (auto simp: stake_token_def)
  show "delegated_total v' = delegated_total v - tot"
    using f tot v' old assms(1) by (auto simp: delegated_total_def ssum_sset vault_inv_def)
  show "get_total_delegated v' p = get_total_delegated v p - tot"
    using f tot v' sat by (auto simp: get_total_delegated_def)
  have tt: "get_total_delegated v p - t = ssum (\<lambda>_ x. x) d" using f m(4) by simp
  have "vault_inv (v\<lparr>v_delegated := sset p d (v_delegated v),
      v_total_delegated := sset p (get_total_delegated v p - t) (v_total_delegated v)\<rparr>)"
    using assms(1) f tt by (auto simp: vault_inv_def)
  then show "vault_inv v'" using assms(1) v' sat by simp
qed

text \<open>A slash is refused before it writes, or reduces the stakes, records itself and disposes of the funds.\<close>

lemma do_slash_cases:
  assumes "do_slash ev tk p sev reason v = (r, v')"
  obtains (refused) e where "r = Err e" "v' = v"
  | (slashed) tok info own dtot v1 v2 v3 amt sid where
      "stake_token v = Some tok" "\<not> slash_cooldown_active ev p v" "sget (v_stakes v) p = Some info" "balance info \<noteq> 0"
      "own = (if 0 < balance info then slash_part (balance info) (tier_bps (get_slash_tier_config v) sev) else 0)"
      "v1 = put_stake p (info\<lparr>balance := saturating_sub (balance info) own, last_updated := ev_timestamp ev\<rparr>) v"
      "slash_delegated (tier_bps (get_slash_tier_config v) sev) p v1 = (dtot, v2)"
      "amt = (if saturating_add own dtot = 0 then 1 else saturating_add own dtot)"
      "record_slash ev p sev reason amt v2 = (sid, v3)"
      "and_then (dispose_slashed ev tk tok sid amt v3)
         (\<lambda>_ v. (Ok amt, lock_provider ev p (default_lockup_ledgers v) v)) = (r, v')"
proof (cases "stake_token v")
  case None
  then show ?thesis using assms refused by (auto simp: do_slash_def)
next
  case (Some tok)
  note tok = Some
  show ?thesis
  proof (cases "slash_cooldown_active ev p v")
    case True
    then show ?thesis using assms tok refused by (auto simp: do_slash_def)
  next
    case False
    note cool = False
    show ?thesis
    proof (cases "sget (v_stakes v) p")
      case None
      then show ?thesis using assms tok cool refused by (auto simp: do_slash_def Let_def)
    next
      case (Some info)
      show ?thesis
      proof (cases "balance info = 0")
        case True
        then show ?thesis using assms tok cool Some refused by (auto simp: do_slash_def Let_def)
      next
        case False
        let ?bps = "tier_bps (get_slash_tier_config v) sev"
        let ?own = "if 0 < balance info then slash_part (balance info) ?bps else 0"
        let ?v1 = "put_stake p (info\<lparr>balance := saturating_sub (balance info) ?own, last_updated := ev_timestamp ev\<rparr>) v"
        obtain dtot v2 where sd: "slash_delegated ?bps p ?v1 = (dtot, v2)" by fastforce
        let ?amt = "if saturating_add ?own dtot = 0 then 1 else saturating_add ?own dtot"
        obtain sid v3 where rs: "record_slash ev p sev reason ?amt v2 = (sid, v3)" by fastforce
        have "and_then (dispose_slashed ev tk tok sid ?amt v3)
            (\<lambda>_ v. (Ok ?amt, lock_provider ev p (default_lockup_ledgers v) v)) = (r, v')"
          using assms tok cool Some False sd rs unfolding do_slash_def Let_def by (simp cong: if_cong)
        then show ?thesis by (rule slashed [OF tok cool Some False refl refl sd refl rs])
      qed
    qed
  qed
qed

lemma record_slash_facts:
  assumes "record_slash ev p sev reason amt v = (sid, v')"
  shows "money v' = money v" "v_lockups v' = v_lockups v" "v_config v' = v_config v"
    "sid = opt_or 0 (sb_counter (v_slashes v))" "get_total_delegated v' = get_total_delegated v" "get_stake v' = get_stake v"
    "\<exists>rec. sget (sb_records (v_slashes v')) sid = Some rec \<and> sr_slash_amount rec = amt \<and> sr_provider rec = p"
  using assms by (auto simp: record_slash_def Let_def money_def stake_token_def get_total_delegated_def get_stake_def fun_eq_iff)

lemma held_total_sset:
  assumes "vault_inv v" "0 \<le> x"
    "v' = v\<lparr>v_slashes := (v_slashes v)\<lparr>sb_held := sset sid x (sb_held (v_slashes v))\<rparr>\<rparr>"
  shows "held_total v' \<le> held_total v + x" "vault_inv v'"
proof -
  have wf: "swf (sb_held (v_slashes v))" "sall (\<lambda>_ x. 0 \<le> x) (sb_held (v_slashes v))"
    using assms(1) by (auto simp: vault_inv_def)
  show "held_total v' \<le> held_total v + x"
    using wf assms(3) by (cases "sget (sb_held (v_slashes v)) sid") (auto simp: held_total_def ssum_sset sall_def)
  show "vault_inv v'" using assms by (auto simp: vault_inv_def)
qed

lemma token_call_burn_cases:
  assumes "sep41 tk" "token_call (try_burn tk tok src x) v = (r, v')"
  obtains (burned) w where "r = Ok ()" "tk_burn tk tok src x (v_world v) = CallOk w" "v' = v\<lparr>v_world := w\<rparr>"
  | (failed) e where "r = Err e" "v' = v"
proof -
  obtain r1 w where b: "try_burn tk tok src x (v_world v) = (r1, w)" by fastforce
  show thesis
  proof (cases r1)
    case (Ok u)
    then have "tk_burn tk tok src x (v_world v) = CallOk w" using b by (simp add: try_burn_Ok)
    moreover have "r = Ok ()" "v' = v\<lparr>v_world := w\<rparr>" using b Ok assms(2) by (auto simp: token_call_def)
    ultimately show thesis by (intro burned)
  next
    case (Err e)
    then have "w = v_world v" using try_burn_Err_world [OF assms(1)] b by blast
    then show thesis using b Err assms(2) failed by (auto simp: token_call_def)
  qed (use b in auto)
qed

text \<open>The funds of a slash are parked or burned: either way they cover what the books lost.\<close>

lemma dispose_slashed_covered:
  assumes "vault_solvent tk (ev_self ev) v" "stake_token v = Some tok"
    "vault_inv v3" "core_liability v3 = core_liability v - amt" "0 \<le> amt"
    "v_index v3 = v_index v" "v_claims v3 = v_claims v" "v_world v3 = v_world v" "stake_token v3 = stake_token v"
    "dispose_slashed ev tk tok sid amt v3 = (r, v')"
  shows "covered tk (ev_self ev) v v'"
proof (cases "0 < opt_or 0 (vc_appeal_window (v_config v3))")
  case True
  then have v': "v' = v3\<lparr>v_slashes := (v_slashes v3)\<lparr>sb_held := sset sid amt (sb_held (v_slashes v3))\<rparr>\<rparr>"
    using assms(10) by (simp add: dispose_slashed_def)
  note h = held_total_sset [OF assms(3,5) v']
  have "core_liability v' \<le> core_liability v"
    using h(1) assms(4) v' by (simp add: core_liability_def stakes_total_def delegated_total_def)
  then show ?thesis
    by (intro coveredI [OF assms(1) h(2)]) (use assms v' in \<open>auto simp: stake_token_def\<close>)
next
  case False
  then have tc: "token_call (try_burn tk tok (ev_self ev) amt) v3 = (r, v')" using assms(10) by (simp add: dispose_slashed_def)
  have sep: "sep41 tk" using assms(1) by (simp add: vault_solvent_def)
  from sep tc show ?thesis
  proof (cases rule: token_call_burn_cases)
    case (burned w)
    have inv': "vault_inv v'" using assms(3) burned(3) by (simp add: vault_inv_def)
    have liab: "core_liability v' = core_liability v - amt"
      using assms(4) burned(3) by (simp add: core_liability_def stakes_total_def delegated_total_def held_total_def)
    show ?thesis
    proof (rule coveredI [OF assms(1) inv'])
      show "tk_balance tk a (ev_self ev) (v_world v) \<le> tk_balance tk a (ev_self ev) (v_world v')"
        if "stake_token v \<noteq> Some a" for a
        using that sep41_burn [OF sep burned(2), of a "ev_self ev"] assms(2,8) burned(3) by auto
      show "tk_balance tk t (ev_self ev) (v_world v) - core_liability v \<le> tk_balance tk t (ev_self ev) (v_world v') - core_liability v'"
        if "stake_token v = Some t" for t
        using that sep41_burn [OF sep burned(2), of t "ev_self ev"] assms(2,8) burned(3) liab by auto
    qed (use assms burned(3) in \<open>auto simp: stake_token_def\<close>)
  next
    case (failed e)
    then show ?thesis
      by (intro coveredI [OF assms(1)]) (use assms in auto)
  qed
qed

lemma stake_le_total:
  assumes "vault_inv v"
  shows "get_stake v st \<le> stakes_total v"
proof (cases "sget (v_stakes v) st")
  case None
  then show ?thesis using vault_invD(1) [OF assms] by (simp add: get_stake_def)
next
  case (Some info)
  have "balance info \<le> stakes_total v" unfolding stakes_total_def
    by (rule ssum_member_le [OF _ _ Some]) (use assms in \<open>auto simp: vault_inv_def sall_mem\<close>)
  then show ?thesis using Some by (simp add: get_stake_def)
qed

lemma slashed_books:
  assumes "vault_solvent tk self v" "stake_token v = Some tok" "sget (v_stakes v) p = Some info" "balance info \<noteq> 0"
    "own = (if 0 < balance info then slash_part (balance info) bps else 0)"
    "v1 = put_stake p (info\<lparr>balance := saturating_sub (balance info) own, last_updated := t\<rparr>) v"
    "slash_delegated bps p v1 = (dtot, v2)"
    "amt = (if saturating_add own dtot = 0 then 1 else saturating_add own dtot)"
  shows "vault_inv v2" "core_liability v2 = core_liability v - amt" "amt = own + dtot" "own = slash_part (balance info) bps"
    "1 \<le> own" "own \<le> balance info" "0 \<le> dtot" "get_stake v2 x = (if x = p then balance info - own else get_stake v x)"
    "get_total_delegated v2 p = get_total_delegated v p - dtot"
    "v_index v2 = v_index v" "v_claims v2 = v_claims v" "v_world v2 = v_world v" "stake_token v2 = stake_token v"
    "v_config v2 = v_config v" "v_lockups v2 = v_lockups v"
proof -
  have inv: "vault_inv v" using assms(1) by (simp add: vault_solvent_def)
  have bound: "core_liability v \<le> i128_max" by (rule solvent_bound [OF assms(1,2)])
  have bal: "0 < balance info" using inv assms(3,4) by (fastforce simp: vault_inv_def sall_def)
  then show own: "own = slash_part (balance info) bps" "1 \<le> own" "own \<le> balance info"
    using slash_part_bounds [OF bal, of bps] assms(5) by auto
  have gs: "get_stake v p = balance info" using assms(3) by (simp add: get_stake_def)
  have "get_stake v p \<le> stakes_total v" by (rule stake_le_total [OF inv])
  then have b2: "balance info \<le> i128_max" "stakes_total v \<le> i128_max" "delegated_total v \<le> i128_max"
    "balance info + delegated_total v \<le> i128_max"
    using bound gs vault_invD(1-3) [OF inv] by (auto simp: core_liability_def)
  have sat: "saturating_sub (balance info) own = balance info - own"
    using own b2(1) by (auto simp: saturating_sub_def sat_i128_def i128_min_def)
  have inv1: "vault_inv v1" using inv assms(6) sat own(3) by (auto simp: vault_inv_def put_stake_def)
  have d1: "delegated_total v1 = delegated_total v" using assms(6) by (simp add: delegated_total_def put_stake_def)
  have st1: "stakes_total v1 = stakes_total v - own"
    using stakes_total_put [of v p] inv assms(6) sat gs by (simp add: vault_inv_def)
  note f = slash_delegated_facts [OF inv1 _ assms(7)]
  have dle: "delegated_total v1 \<le> i128_max" using d1 b2 by simp
  show "0 \<le> dtot" "vault_inv v2" using f(1,3) dle by auto
  have "dtot \<le> delegated_total v"
    using f(2) [OF dle] vault_invD(2) [OF f(3) [OF dle]] d1 by simp
  then have sum: "saturating_add own dtot = own + dtot"
    using own f(1) [OF dle] b2(4) by (auto simp: saturating_add_def sat_i128_def i128_min_def)
  then show amt: "amt = own + dtot" using assms(8) own(2) f(1) [OF dle] by auto
  show "core_liability v2 = core_liability v - amt"
    using f(2,5,6) [OF dle] st1 d1 amt assms(6)
    by (simp add: core_liability_def stakes_total_def held_total_def put_stake_def)
  show "get_stake v2 x = (if x = p then balance info - own else get_stake v x)"
    using f(5) [OF dle] assms(6) sat by (simp add: get_stake_def put_stake_def)
  show "get_total_delegated v2 p = get_total_delegated v p - dtot"
    using f(4) [OF dle] assms(6) by (simp add: get_total_delegated_def put_stake_def)
  show "v_index v2 = v_index v" "v_claims v2 = v_claims v" "v_world v2 = v_world v" "stake_token v2 = stake_token v"
    "v_config v2 = v_config v" "v_lockups v2 = v_lockups v"
    using f(7-12) [OF dle] assms(6) by (simp_all add: put_stake_def stake_token_def)
qed

lemma do_slash_covered:
  assumes "vault_solvent tk (ev_self ev) v" "do_slash ev tk p sev reason v = (r, v')"
  shows "covered tk (ev_self ev) v v'"
  using assms(2)
proof (cases rule: do_slash_cases)
  case (refused e)
  then show ?thesis using assms(1) covered_refl by simp
next
  case (slashed tok info own dtot v1 v2 v3 amt sid)
  note b = slashed_books [OF assms(1) slashed(1,3,4,5,6,7,8)]
  note rs = record_slash_facts [OF slashed(9)]
  note m3 = money_cong(1,3) [OF rs(1)]
  obtain r4 v4 where d: "dispose_slashed ev tk tok sid amt v3 = (r4, v4)" by fastforce
  have "covered tk (ev_self ev) v v4"
  proof (rule dispose_slashed_covered [OF assms(1) slashed(1) _ _ _ _ _ _ _ d])
    show "vault_inv v3" "core_liability v3 = core_liability v - amt" using b(1,2) m3 by auto
    show "0 \<le> amt" using b(3,5,7) by simp
    show "v_index v3 = v_index v" "v_claims v3 = v_claims v" "v_world v3 = v_world v" "stake_token v3 = stake_token v"
      using rs(1) b(10-13) by (auto simp: money_def)
  qed
  moreover have "money v' = money v4"
    using slashed(10) d lock_provider_frame [of ev p "default_lockup_ledgers v4" v4] by (cases r4) auto
  ultimately show ?thesis using covered_money_right by blast
qed

lemma slash_items_covered:
  assumes "vault_solvent tk (ev_self ev) v" "slash_items ev tk reason items v = (r, v')"
  shows "covered tk (ev_self ev) v v'"
  using assms
proof (induction items arbitrary: v r v')
  case Nil
  then show ?case using covered_refl by simp
next
  case (Cons it items)
  obtain p sev where it: "it = (p, sev)" by fastforce
  obtain r1 t where ds: "do_slash ev tk p sev reason v = (r1, t)" by fastforce
  have t: "covered tk (ev_self ev) v t" by (rule do_slash_covered [OF Cons.prems(1) ds])
  obtain r2 u where si: "slash_items ev tk reason items t = (r2, u)" by fastforce
  have "covered tk (ev_self ev) t u" by (rule Cons.IH [OF covered_solvent [OF Cons.prems(1) t] si])
  moreover have "v' = t \<or> v' = u"
    using Cons.prems(2) ds si it by (cases r1; cases r2) auto
  ultimately show ?case using t covered_trans by blast
qed

section \<open>What an appeal gives back\<close>

lemma held_total_drop:
  assumes "vault_inv v"
  shows "held_total (drop_held sid v) = held_total v - sget_or 0 (sb_held (v_slashes v)) sid" "vault_inv (drop_held sid v)"
proof -
  have wf: "swf (sb_held (v_slashes v))" using assms by (simp add: vault_inv_def)
  show "held_total (drop_held sid v) = held_total v - sget_or 0 (sb_held (v_slashes v)) sid"
    using wf by (cases "sget (sb_held (v_slashes v)) sid") (auto simp: held_total_def drop_held_def ssum_sdel sget_or_def)
  show "vault_inv (drop_held sid v)" using assms by (auto simp: vault_inv_def drop_held_def)
qed

lemma money_save_appeal [simp]: "money (save_appeal sid a v) = money v"
  by (simp add: money_def save_appeal_def stake_token_def)

lemma do_resolve_appeal_covered:
  assumes "vault_solvent tk (ev_self ev) v" "do_resolve_appeal ev tk sid uphold v = (r, v')"
    "uphold \<or> 0 < sget_or 0 (sb_held (v_slashes v)) sid"
  shows "covered tk (ev_self ev) v v'"
proof -
  let ?held = "sget_or 0 (sb_held (v_slashes v)) sid"
  have inv: "vault_inv v" and sep: "sep41 tk" using assms(1) by (simp_all add: vault_solvent_def)
  note h = held_total_drop [OF inv, of sid]
  have same: "v_stakes (drop_held sid v) = v_stakes v" "v_delegated (drop_held sid v) = v_delegated v"
    "v_world (drop_held sid v) = v_world v" "v_index (drop_held sid v) = v_index v" "v_claims (drop_held sid v) = v_claims v"
    "stake_token (drop_held sid v) = stake_token v" by (simp_all add: drop_held_def stake_token_def)
  consider (unchanged) "v' = v" | (resolved) rec appeal tok where
    "sget (sb_records (v_slashes v)) sid = Some rec" "sget (sb_appeals (v_slashes v)) sid = Some appeal"
    "ap_status appeal = Pending" "stake_token v = Some tok"
    using assms(2) by (auto simp: do_resolve_appeal_def Let_def split: option.splits if_splits)
  then show ?thesis
  proof cases
    case unchanged
    then show ?thesis using assms(1) covered_refl by simp
  next
    case (resolved rec appeal tok)
    note bound = solvent_bound [OF assms(1) resolved(4)]
    show ?thesis
    proof (cases uphold)
      case True
      show ?thesis
      proof (cases "0 < ?held")
        case False
        then have "money v' = money v" using assms(2) resolved True by (auto simp: do_resolve_appeal_def Let_def)
        then show ?thesis using assms(1) covered_money by blast
      next
        case held: True
        obtain r1 u where tc: "token_call (try_burn tk tok (ev_self ev) ?held) (drop_held sid v) = (r1, u)" by fastforce
        have "money v' = money u"
          using assms(2) resolved True held tc by (cases r1) (auto simp: do_resolve_appeal_def Let_def)
        moreover have "covered tk (ev_self ev) v u"
          using sep tc
        proof (cases rule: token_call_burn_cases)
          case (burned w)
          have inv': "vault_inv u" using h(2) burned(3) by (simp add: vault_inv_def)
          have liab: "core_liability u = core_liability v - ?held"
            using h(1) same burned(3) by (simp add: core_liability_def stakes_total_def delegated_total_def held_total_def)
          show ?thesis
            by (rule coveredI [OF assms(1) inv'])
              (use sep41_burn [OF sep burned(2)] same burned(3) liab resolved(4) in \<open>auto simp: stake_token_def\<close>)
        next
          case (failed e)
          have "core_liability u = core_liability v - ?held"
            using h(1) same failed(2) by (simp add: core_liability_def stakes_total_def delegated_total_def)
          then show ?thesis
            by (intro coveredI [OF assms(1)]) (use h(2) same failed(2) held in auto)
        qed
        ultimately show ?thesis using covered_money_right by blast
      qed
    next
      case False
      with assms(3) have held: "0 < ?held" by simp
      define u where "u = drop_held sid (restore_stake ev (sr_provider rec) ?held v)"
      have "money v' = money u"
        using assms(2) resolved False held by (auto simp: do_resolve_appeal_def Let_def u_def)
      moreover have "covered tk (ev_self ev) v u"
      proof -
        let ?b = "get_stake v (sr_provider rec)"
        have "?held \<le> held_total v" using h(1) vault_invD(3) [OF h(2)] by simp
        then have "?b + ?held \<le> i128_max"
          using stake_le_total [OF inv, of "sr_provider rec"] bound vault_invD(2) [OF inv] by (simp add: core_liability_def)
        then have sat: "saturating_add ?b ?held = ?b + ?held"
          using vault_invD(4) [OF inv, of "sr_provider rec"] held by (auto simp: saturating_add_def sat_i128_def i128_min_def)
        define w where "w = restore_stake ev (sr_provider rec) ?held v"
        have ws: "stakes_total w = stakes_total v + ?held"
          using stakes_total_put [of v "sr_provider rec"] inv sat
          by (simp add: w_def restore_stake_def Let_def vault_inv_def opt_stake_balance)
        have wf: "sb_held (v_slashes w) = sb_held (v_slashes v)" "v_delegated w = v_delegated v" "v_world w = v_world v"
          "v_index w = v_index v" "v_claims w = v_claims v" "stake_token w = stake_token v"
          by (simp_all add: w_def restore_stake_def Let_def put_stake_def stake_token_def)
        have winv: "vault_inv w"
          using inv sat held vault_invD(4) [OF inv, of "sr_provider rec"]
          by (auto simp: vault_inv_def w_def restore_stake_def Let_def put_stake_def opt_stake_balance)
        note hw = held_total_drop [OF winv, of sid]
        have u: "u = drop_held sid w" by (simp add: u_def w_def)
        have "core_liability u = core_liability v"
          using hw(1) ws wf(1,2) unfolding u
          by (simp add: core_liability_def drop_held_def stakes_total_def delegated_total_def held_total_def)
        then show ?thesis
          by (intro coveredI [OF assms(1)]) (use hw(2) wf u in \<open>auto simp: drop_held_def stake_token_def\<close>)
      qed
      ultimately show ?thesis using covered_money_right by blast
    qed
  qed
qed

lemma do_resolve_appeal_other:
  assumes "do_resolve_appeal ev tk sid uphold v = (r, v')" "sid' \<noteq> sid"
  shows "sget (sb_held (v_slashes v')) sid' = sget (sb_held (v_slashes v)) sid'"
proof -
  have tc: "v_slashes u = v_slashes t" if "token_call f t = (r1, u)" for f r1 and t u :: "'a vault"
    using that by (auto simp: token_call_def split: prod.splits)
  have "sget (sb_held (v_slashes u)) sid' = sget (sb_held (v_slashes v)) sid'"
    if "token_call f (drop_held sid v) = (r1, u)" for f r1 u
    using tc [OF that] assms(2) by (simp add: drop_held_def)
  then show ?thesis
    using assms
    by (auto simp: do_resolve_appeal_def Let_def save_appeal_def restore_stake_def drop_held_def put_stake_def
        split: option.splits if_splits elim!: and_then.elims)
qed

lemma resolve_items_covered:
  assumes "vault_solvent tk (ev_self ev) v" "resolve_items ev tk items n v = (r, v')"
    "distinct (map fst items)" "\<And>sid. (sid, False) \<in> set items \<Longrightarrow> 0 < sget_or 0 (sb_held (v_slashes v)) sid"
  shows "covered tk (ev_self ev) v v'"
  using assms
proof (induction items arbitrary: v n)
  case Nil
  then show ?case using covered_refl by simp
next
  case (Cons it items)
  obtain sid uphold where it: "it = (sid, uphold)" by fastforce
  obtain r1 t where dr: "do_resolve_appeal ev tk sid uphold v = (r1, t)" by fastforce
  have "uphold \<or> 0 < sget_or 0 (sb_held (v_slashes v)) sid" using Cons.prems(4) it by (cases uphold) auto
  then have t: "covered tk (ev_self ev) v t" by (rule do_resolve_appeal_covered [OF Cons.prems(1) dr])
  have held: "0 < sget_or 0 (sb_held (v_slashes t)) s" if "(s, False) \<in> set items" for s
  proof -
    have "s \<noteq> sid" using that Cons.prems(3) it by force
    then show ?thesis
      using that Cons.prems(4) do_resolve_appeal_other [OF dr] by (simp add: sget_or_def)
  qed
  have rest: "covered tk (ev_self ev) v v'" if "resolve_items ev tk items m t = (r, v')" for m
    using Cons.IH [OF covered_solvent [OF Cons.prems(1) t] that] Cons.prems(3) held t covered_trans by auto
  show ?case
    using Cons.prems(2) dr it t rest by (cases r1) auto
qed

section \<open>Properties\<close>


definition frozen_token :: "ledger token_if" where
  "frozen_token = ledger_token\<lparr>tk_burn := (\<lambda>_ _ _ _. CallError AuthType)\<rparr>"

lemmas slash_eval =
  slash_stake_def do_slash_def slash_cooldown_active_def slash_cooldown_ledgers_def get_slash_tier_config_def
  default_slash_config_def slash_part_def apply_multiplier_bps_def BPS_DENOMINATOR_def checked_div_def tdiv_def
  saturating_sub_def saturating_add_def sat_i128_def slash_delegated_def delegated_to_def get_total_delegated_def
  record_slash_def dispose_slashed_def lock_provider_def default_lockup_ledgers_def DEFAULT_PROVIDER_LOCKUP_LEDGERS_def
  DEFAULT_SLASH_COOLDOWN_LEDGERS_def u32_sat_add_def u64_sat_add_def u32_max_def u64_max_def

lemma example_slash_delegated:
  "slash_delegated 3000 3 (put_stake 3 \<lparr>balance = 700, locked_until = 0, last_updated = 1000\<rparr> example_vault)
   = (120, put_stake 3 \<lparr>balance = 700, locked_until = 0, last_updated = 1000\<rparr> example_vault
       \<lparr>v_delegated := [(3, [(4, 280)])], v_total_delegated := [(3, 280)]\<rparr>)"
  by (simp add: slash_eval vault_eval)

lemma example_slash: "\<exists>v'. slash_stake example_ev ledger_token 2 3 Major ''abuse'' example_vault = (Ok 420, v')"
proof -
  have a: "stake_token example_vault = Some 9" "\<not> slash_cooldown_active example_ev 3 example_vault"
    "sget (v_stakes example_vault) 3 = Some \<lparr>balance = 1000, locked_until = 0, last_updated = 0\<rparr>"
    "major_bps (get_slash_tier_config example_vault) = 3000" "ev_timestamp example_ev = 1000"
    by (simp_all add: slash_cooldown_active_def get_slash_tier_config_def default_slash_config_def vault_eval)
  have part: "slash_part 1000 3000 = 300" by (simp add: slash_eval vault_eval)
  have sat: "saturating_sub 1000 300 = 700" "saturating_add 300 120 = 420" by (simp_all add: slash_eval vault_eval)
  have "\<exists>v'. do_slash example_ev ledger_token 3 Major ''abuse'' example_vault = (Ok 420, v')"
    by (simp add: do_slash_def Let_def a part sat example_slash_delegated) (simp add: slash_eval vault_eval Let_def)
  moreover have "require_signal_registry 2 example_vault = (Ok (), example_vault)" "ev_auth example_ev 2"
    "require_not_locked (v_reentrancy example_vault) = Ok ()"
    by (simp_all add: vault_eval)
  ultimately show ?thesis by (simp add: slash_stake_def)
qed


text \<open>
  A slashed provider cannot run: while the default lockup after a slash lasts, neither a full
  nor a partial withdrawal of the slashed provider succeeds.
\<close>

theorem slash_locks_provider:
  assumes "slash_stake ev tk caller p sev reason v = (Ok amount, v')" "0 < default_lockup_ledgers v"
    "ev_sequence ev' \<le> u32_sat_add (ev_sequence ev) (default_lockup_ledgers v)"
  shows "(\<nexists>y u. withdraw_stake ev' tk' p v' = (Ok y, u)) \<and> (\<nexists>y u. partial_unstake ev' tk' p x v' = (Ok y, u))"
proof -
  from assms(1) have "do_slash ev tk p sev reason v = (Ok amount, v')"
    by (auto simp: slash_stake_def and_then_Ok require_signal_registry_Ok split: res.splits if_splits)
  then have "\<exists>l. read_provider_lockup v' p = Some l \<and> u32_sat_add (ev_sequence ev) (default_lockup_ledgers v) \<le> end_ledger l"
  proof (cases rule: do_slash_cases)
    case (slashed tok info own dtot v1 v2 v3 amt sid)
    from slashed(10) obtain v4 where d: "dispose_slashed ev tk tok sid amt v3 = (Ok (), v4)"
      and v': "v' = lock_provider ev p (default_lockup_ledgers v4) v4"
      by (auto simp: and_then_Ok)
    have "v_config v2 = v_config v1"
      using slashed(7) by (auto simp: slash_delegated_def Let_def split: prod.splits if_splits)
    then have "v_config v3 = v_config v"
      using record_slash_facts(3) [OF slashed(9)] slashed(6) by (simp add: put_stake_def)
    moreover have "v_config v4 = v_config v3"
      using d by (auto simp: dispose_slashed_def token_call_Ok_eq split: if_splits)
    ultimately have "default_lockup_ledgers v4 = default_lockup_ledgers v" by (simp add: default_lockup_ledgers_def)
    then show ?thesis using lock_provider_end [OF _ v'] assms(2) by auto
  qed simp
  then obtain l where l: "read_provider_lockup v' p = Some l" "ev_sequence ev' \<le> end_ledger l" using assms(3) by auto
  then have "\<not> may_withdraw ev' p info y (v'\<lparr>v_withdraw_lock := Some True\<rparr>)" for info y
    by (auto simp: may_withdraw_def read_provider_lockup_def)
  then show ?thesis
    unfolding withdraw_stake_Ok partial_unstake_Ok do_withdraw_def do_partial_unstake_def withdraw_locked_Ok
      do_withdraw_locked_Ok do_partial_unstake_locked_Ok by blast
qed

theorem slash_locks_provider_witness:
  "\<exists>v'. slash_stake example_ev ledger_token 2 3 Major ''abuse'' example_vault = (Ok 420, v') \<and>
    (\<nexists>y u. withdraw_stake (example_ev\<lparr>ev_sequence := 110\<rparr>) ledger_token 3 v' = (Ok y, u))"
proof -
  obtain v' where v': "slash_stake example_ev ledger_token 2 3 Major ''abuse'' example_vault = (Ok 420, v')"
    using example_slash by blast
  have d: "default_lockup_ledgers example_vault = 100"
    by (simp add: default_lockup_ledgers_def DEFAULT_PROVIDER_LOCKUP_LEDGERS_def vault_eval)
  have s: "u32_sat_add (ev_sequence example_ev) 100 = 110" by (simp add: example_ev_def u32_sat_add_def u32_max_def)
  have "\<nexists>y u. withdraw_stake (example_ev\<lparr>ev_sequence := 110\<rparr>) ledger_token 3 v' = (Ok y, u)"
    using slash_locks_provider [OF v', of "example_ev\<lparr>ev_sequence := 110\<rparr>" ledger_token] d s by simp
  with v' show ?thesis by blast
qed

lemma do_resolve_appeal_Ok:
  assumes "do_resolve_appeal ev tk sid uphold v = (Ok u, v')"
  obtains rec appeal tok u' where "sget (sb_records (v_slashes v)) sid = Some rec"
    "sget (sb_appeals (v_slashes v)) sid = Some appeal" "ap_status appeal = Pending" "stake_token v = Some tok"
    "v' = save_appeal sid (appeal\<lparr>ap_status := (if uphold then Upheld else Reversed)\<rparr>) u'"
    "uphold \<Longrightarrow> 0 < sget_or 0 (sb_held (v_slashes v)) sid \<Longrightarrow>
       token_call (try_burn tk tok (ev_self ev) (sget_or 0 (sb_held (v_slashes v)) sid)) (drop_held sid v) = (Ok (), u')"
    "uphold \<Longrightarrow> \<not> 0 < sget_or 0 (sb_held (v_slashes v)) sid \<Longrightarrow> u' = v"
    "\<not> uphold \<Longrightarrow> 0 < sget_or 0 (sb_held (v_slashes v)) sid \<Longrightarrow>
       u' = drop_held sid (restore_stake ev (sr_provider rec) (sget_or 0 (sb_held (v_slashes v)) sid) v)"
    "\<not> uphold \<Longrightarrow> \<not> 0 < sget_or 0 (sb_held (v_slashes v)) sid \<Longrightarrow>
       u' = restore_stake ev (sr_provider rec) (sr_slash_amount rec) v"
proof -
  from assms obtain rec appeal tok where p: "sget (sb_records (v_slashes v)) sid = Some rec"
    "sget (sb_appeals (v_slashes v)) sid = Some appeal" "ap_status appeal = Pending" "stake_token v = Some tok"
    by (auto simp: do_resolve_appeal_def Let_def split: option.splits if_splits)
  let ?held = "sget_or 0 (sb_held (v_slashes v)) sid"
  show thesis
  proof (cases "uphold \<and> 0 < ?held")
    case True
    with assms p obtain u' where "token_call (try_burn tk tok (ev_self ev) ?held) (drop_held sid v) = (Ok (), u')"
      "v' = save_appeal sid (appeal\<lparr>ap_status := Upheld\<rparr>) u'"
      by (auto simp: do_resolve_appeal_def and_then_Ok)
    then show thesis using True p by (intro that [of rec appeal tok u']) auto
  next
    case False
    define u' where "u' = (if uphold then v else if 0 < ?held
        then drop_held sid (restore_stake ev (sr_provider rec) ?held v)
        else restore_stake ev (sr_provider rec) (sr_slash_amount rec) v)"
    have "v' = save_appeal sid (appeal\<lparr>ap_status := (if uphold then Upheld else Reversed)\<rparr>) u'"
      using assms p False by (auto simp: do_resolve_appeal_def Let_def u'_def)
    then show thesis using False p by (intro that [of rec appeal tok u']) (auto simp: u'_def)
  qed
qed

text \<open>
  Each appeal is resolved at most once: once a resolution, upheld or reversed, went through, any
  further resolution of the same slash is refused and changes nothing.
\<close>

theorem appeal_resolved_once:
  assumes "do_resolve_appeal ev tk sid uphold v = (Ok (), v')"
  shows "do_resolve_appeal ev' tk' sid uphold' v' = (Err AppealAlreadyResolved, v')"
proof -
  from assms obtain rec appeal tok u' where r: "sget (sb_records (v_slashes v)) sid = Some rec"
    "v' = save_appeal sid (appeal\<lparr>ap_status := (if uphold then Upheld else Reversed)\<rparr>) u'"
    and recs: "sb_records (v_slashes u') = sb_records (v_slashes v)"
  proof (rule do_resolve_appeal_Ok, goal_cases)
    case (1 rec appeal tok u')
    have "sb_records (v_slashes u') = sb_records (v_slashes v)"
    proof (cases uphold; cases "0 < sget_or 0 (sb_held (v_slashes v)) sid")
    qed (use 1 in \<open>auto simp: token_call_Ok_eq drop_held_def restore_stake_def put_stake_def Let_def\<close>)
    with 1 show ?case by blast
  qed
  then show ?thesis by (simp add: do_resolve_appeal_def save_appeal_def)
qed

text \<open>A slash of 300 from provider 3 with the funds held, and one whose funds were burned, both under appeal.\<close>

definition example_record :: SlashRecord where
  "example_record = \<lparr>sr_slash_id = 0, sr_provider = 3, sr_severity = 1, sr_slash_amount = 300, sr_slashed_at = 900,
     sr_reason = ''abuse'', sr_cooldown_expires_at = 110\<rparr>"

definition example_appeal :: SlashAppeal where
  "example_appeal = \<lparr>ap_slash_id = 0, ap_appellant = 3, ap_evidence_uri = ''uri'', ap_submitted_at = 950, ap_status = Pending\<rparr>"

definition example_appealed :: "(nat, int) smap \<Rightarrow> ledger vault" where
  "example_appealed held = example_vault
     \<lparr>v_stakes := [(3, \<lparr>balance = 700, locked_until = 0, last_updated = 900\<rparr>)],
      v_slashes := \<lparr>sb_counter = Some 1, sb_records = [(0, example_record)], sb_appeals = [(0, example_appeal)],
        sb_held = held, sb_last = [(3, 10)]\<rparr>,
      v_world := (\<lambda>t x. if t = 9 \<and> x = 7 then 1100 + ssum (\<lambda>_ x. x) held else 0)\<rparr>"

lemmas appeal_eval =
  do_resolve_appeal_def example_appealed_def example_record_def example_appeal_def restore_stake_def save_appeal_def drop_held_def

theorem appeal_resolved_once_witness:
  "\<exists>v'. do_resolve_appeal example_ev ledger_token 0 False (example_appealed [(0, 300)]) = (Ok (), v') \<and>
    do_resolve_appeal example_ev ledger_token 0 True v' = (Err AppealAlreadyResolved, v')"
proof -
  obtain v' where v': "do_resolve_appeal example_ev ledger_token 0 False (example_appealed [(0, 300)]) = (Ok (), v')"
    by (simp add: appeal_eval vault_eval)
  with appeal_resolved_once [OF v'] show ?thesis by blast
qed

text \<open>
  A reversal without held funds creates stake out of nothing: when the slashed funds were burned at
  once (no appeal window at the time) and the appeal is reversed later, the provider's stake and the
  vault's liabilities grow by the recorded amount while no token moves.
\<close>

theorem reversal_without_held_funds:
  assumes "vault_inv v" "sget_or 0 (sb_held (v_slashes v)) sid = 0" "sget (sb_records (v_slashes v)) sid = Some rec"
    "in_i128 (get_stake v (sr_provider rec) + sr_slash_amount rec)"
    "do_resolve_appeal ev tk sid False v = (Ok (), v')"
  shows "core_liability v' = core_liability v + sr_slash_amount rec \<and> v_world v' = v_world v"
  using assms(5)
proof (rule do_resolve_appeal_Ok)
  fix rec' appeal tok u'
  assume r: "sget (sb_records (v_slashes v)) sid = Some rec'"
    "v' = save_appeal sid (appeal\<lparr>ap_status := (if False then Upheld else Reversed)\<rparr>) u'"
    "\<not> False \<Longrightarrow> \<not> 0 < sget_or 0 (sb_held (v_slashes v)) sid \<Longrightarrow>
       u' = restore_stake ev (sr_provider rec') (sr_slash_amount rec') v"
  then have u': "u' = restore_stake ev (sr_provider rec) (sr_slash_amount rec) v" using assms(2,3) by simp
  have "stakes_total u' = stakes_total v + sr_slash_amount rec"
    using stakes_total_put [of v "sr_provider rec"] assms(1,4) u'
    by (simp add: restore_stake_def Let_def vault_inv_def opt_stake_balance saturating_add_exact)
  then have "core_liability u' = core_liability v + sr_slash_amount rec"
    using u' by (simp add: core_liability_def delegated_total_def held_total_def restore_stake_def Let_def put_stake_def)
  moreover have "core_liability v' = core_liability u'" "v_world v' = v_world u'"
    using money_cong(3) [OF money_save_appeal] r(2) by (simp_all add: save_appeal_def)
  ultimately show ?thesis using u' by (simp add: restore_stake_def Let_def put_stake_def)
qed

theorem reversal_without_held_funds_witness:
  "\<exists>v'. do_resolve_appeal example_ev ledger_token 0 False (example_appealed []) = (Ok (), v') \<and>
    core_liability v' = 1400 \<and> tk_balance ledger_token 9 7 (v_world v') = 1100"
proof -
  let ?v = "example_appealed []"
  obtain v' where v': "do_resolve_appeal example_ev ledger_token 0 False ?v = (Ok (), v')"
    by (simp add: appeal_eval vault_eval)
  have inv: "vault_inv ?v"
    using ri_inv_empty
    by (auto simp: vault_inv_def appeal_eval vault_eval swf_def sall_def queue_inv_def)
  have held: "sget_or 0 (sb_held (v_slashes ?v)) 0 = 0" and rec: "sget (sb_records (v_slashes ?v)) 0 = Some example_record"
    and i: "in_i128 (get_stake ?v (sr_provider example_record) + sr_slash_amount example_record)"
    and l: "core_liability ?v = 1100" and b: "tk_balance ledger_token 9 7 (v_world ?v) = 1100"
    and a: "sr_slash_amount example_record = 300"
    by (simp_all add: appeal_eval vault_eval core_liability_def stakes_total_def delegated_total_def held_total_def)
  show ?thesis
    using reversal_without_held_funds [OF inv held rec i v'] v' l b a by auto
qed

text \<open>
  Resolving an appeal whose funds are held is exact: upholding burns precisely the held amount and
  leaves every stake alone, reversing adds precisely the held amount to the provider's stake and
  moves no token; either way the funds are no longer held.
\<close>

theorem appeal_resolution_exact:
  assumes "vault_solvent tk (ev_self ev) v" "sget (sb_records (v_slashes v)) sid = Some rec"
    "sget (sb_held (v_slashes v)) sid = Some held" "0 < held" "stake_token v = Some tok"
    "do_resolve_appeal ev tk sid uphold v = (Ok (), v')"
  shows "sget (sb_held (v_slashes v')) sid = None \<and>
    (\<forall>x. get_stake v' x = get_stake v x + (if \<not> uphold \<and> x = sr_provider rec then held else 0)) \<and>
    tk_balance tk tok (ev_self ev) (v_world v') = tk_balance tk tok (ev_self ev) (v_world v) - (if uphold then held else 0)"
  using assms(6)
proof (rule do_resolve_appeal_Ok)
  have h: "sget_or 0 (sb_held (v_slashes v)) sid = held" using assms(3) by (simp add: sget_or_def)
  fix rec' appeal tok' u'
  assume r: "sget (sb_records (v_slashes v)) sid = Some rec'" "stake_token v = Some tok'"
    "v' = save_appeal sid (appeal\<lparr>ap_status := (if uphold then Upheld else Reversed)\<rparr>) u'"
    "uphold \<Longrightarrow> 0 < sget_or 0 (sb_held (v_slashes v)) sid \<Longrightarrow>
       token_call (try_burn tk tok' (ev_self ev) (sget_or 0 (sb_held (v_slashes v)) sid)) (drop_held sid v) = (Ok (), u')"
    "\<not> uphold \<Longrightarrow> 0 < sget_or 0 (sb_held (v_slashes v)) sid \<Longrightarrow>
       u' = drop_held sid (restore_stake ev (sr_provider rec') (sget_or 0 (sb_held (v_slashes v)) sid) v)"
  have sep: "sep41 tk" and inv: "vault_inv v" using assms(1) by (simp_all add: vault_solvent_def)
  show ?thesis
  proof (cases uphold)
    case True
    then have "token_call (try_burn tk tok (ev_self ev) held) (drop_held sid v) = (Ok (), u')"
      using r(2,4) assms(4,5) h by simp
    then obtain w where w: "tk_burn tk tok (ev_self ev) held (v_world v) = CallOk w" "u' = (drop_held sid v)\<lparr>v_world := w\<rparr>"
      by (auto simp: token_call_Ok_eq try_burn_Ok drop_held_def)
    show ?thesis
      using sep41_burn [OF sep w(1), of tok "ev_self ev"] w(2) r(3) True
      by (simp add: save_appeal_def drop_held_def get_stake_def)
  next
    case False
    let ?p = "sr_provider rec"
    have "held \<le> held_total v"
      using held_total_drop(1) [OF inv, of sid] vault_invD(3) [OF held_total_drop(2) [OF inv], of sid] h by simp
    then have "get_stake v ?p + held \<le> i128_max"
      using stake_le_total [OF inv, of ?p] solvent_bound [OF assms(1,5)] vault_invD(2) [OF inv]
      by (simp add: core_liability_def)
    then have "saturating_add (get_stake v ?p) held = get_stake v ?p + held"
      using vault_invD(4) [OF inv, of ?p] assms(4) by (auto simp: saturating_add_def sat_i128_def i128_min_def)
    moreover have "u' = drop_held sid (restore_stake ev ?p held v)"
      using r(1,5) False assms(2,4) h by simp
    ultimately show ?thesis
      using r(3) False
      by (simp add: save_appeal_def drop_held_def restore_stake_def put_stake_def Let_def opt_stake_balance)
        (simp add: get_stake_def)
  qed
qed

theorem appeal_resolution_exact_witness:
  "\<exists>v'. do_resolve_appeal example_ev ledger_token 0 False (example_appealed [(0, 300)]) = (Ok (), v') \<and> get_stake v' 3 = 1000"
proof -
  let ?v = "example_appealed [(0, 300)]"
  obtain v' where v': "do_resolve_appeal example_ev ledger_token 0 False ?v = (Ok (), v')"
    by (simp add: appeal_eval vault_eval)
  have sol: "vault_solvent ledger_token (ev_self example_ev) ?v"
    using ri_inv_empty sep41_ledger_token
    by (auto simp: vault_solvent_def vault_inv_def vault_surplus_def queue_inv_def pending_def ri_owed_def unsettled_def
        credited_def core_liability_def stakes_total_def delegated_total_def held_total_def swf_def sall_def INDEX_SCALE_def
        appeal_eval vault_eval)
  have p: "sget (sb_records (v_slashes ?v)) 0 = Some example_record" "sget (sb_held (v_slashes ?v)) 0 = Some 300"
    "stake_token ?v = Some 9" "get_stake ?v 3 = 700" "sr_provider example_record = 3"
    by (simp_all add: appeal_eval vault_eval)
  have "get_stake v' 3 = 1000"
    using appeal_resolution_exact [OF sol p(1,2) _ p(3) v'] p(4,5) by simp
  with v' show ?thesis by blast
qed

text \<open>
  A batch of one resolves an appeal that needs multi-sig approval: with a multi-sig configuration in
  place \<open>resolve_appeal\<close> is refused, but \<open>batch_resolve_appeal\<close> with the admin's authorisation alone
  resolves the same appeal.
\<close>

theorem batch_bypasses_multisig:
  assumes "ms_config (v_multisig v) \<noteq> None" "vc_admin (v_config v) = Some admin" "ev_auth ev admin"
    "do_resolve_appeal ev tk sid uphold v = (Ok (), v')"
  shows "resolve_appeal ev tk sid uphold v = (Err RequiresMultisig, v) \<and>
    batch_resolve_appeal ev tk [sid] [uphold] v = (Ok 1, v')"
  using assms by (simp add: resolve_appeal_def batch_resolve_appeal_def MAX_BATCH_SIZE_def u32_sat_add_def u32_max_def)

theorem batch_bypasses_multisig_witness:
  "\<exists>v'. batch_resolve_appeal example_ev ledger_token [0] [False]
      ((example_appealed [(0, 300)])\<lparr>v_multisig := example_multisig\<rparr>) = (Ok 1, v')"
proof -
  let ?v = "(example_appealed [(0, 300)])\<lparr>v_multisig := example_multisig\<rparr>"
  obtain v' where v': "do_resolve_appeal example_ev ledger_token 0 False ?v = (Ok (), v')"
    by (simp add: appeal_eval vault_eval)
  have "ms_config (v_multisig ?v) \<noteq> None" "vc_admin (v_config ?v) = Some 1" "ev_auth example_ev 1"
    by (simp_all add: example_multisig_def example_env_def multisig_empty_def set_config_def validate_config_def
        propose_def approve_def get_next_id_def get_proposal_def is_signer_def has_approved_def MAX_SIGNERS_def u64_max_def
        appeal_eval vault_eval)
  then show ?thesis using batch_bypasses_multisig [OF _ _ _ v'] by blast
qed

text \<open>
  A batch hides a half-done slash: when the token refuses the burn, \<open>batch_slash_stake\<close> reports that
  nothing was taken from the provider although the stake is already reduced.
\<close>

theorem batch_slash_hides_failed_burn:
  "\<exists>v'. batch_slash_stake example_ev frozen_token 2 [3] [Major] ''abuse'' example_vault = (Ok [0], v') \<and>
    get_stake example_vault 3 = 1000 \<and> get_stake v' 3 = 700"
proof -
  have a: "stake_token example_vault = Some 9" "\<not> slash_cooldown_active example_ev 3 example_vault"
    "sget (v_stakes example_vault) 3 = Some \<lparr>balance = 1000, locked_until = 0, last_updated = 0\<rparr>"
    "major_bps (get_slash_tier_config example_vault) = 3000" "ev_timestamp example_ev = 1000"
    by (simp_all add: slash_cooldown_active_def get_slash_tier_config_def default_slash_config_def vault_eval)
  have part: "slash_part 1000 3000 = 300" by (simp add: slash_eval vault_eval)
  have sat: "saturating_sub 1000 300 = 700" "saturating_add 300 120 = 420" by (simp_all add: slash_eval vault_eval)
  have "\<exists>v'. do_slash example_ev frozen_token 3 Major ''abuse'' example_vault = (Err StakeVaultError.Unauthorized, v') \<and>
      get_stake v' 3 = 700"
    by (simp add: do_slash_def Let_def a part sat example_slash_delegated)
      (simp add: slash_eval vault_eval Let_def frozen_token_def)
  moreover have "require_signal_registry 2 example_vault = (Ok (), example_vault)" "ev_auth example_ev 2"
    "get_stake example_vault 3 = 1000"
    by (simp_all add: vault_eval)
  ultimately show ?thesis by (auto simp: batch_slash_stake_def MAX_BATCH_SIZE_def)
qed

end
