(* ===== verification/AssetDecimals.thy ===== *)
theory AssetDecimals
  imports VaultTypes
begin

text \<open>
  \<open>stake_vault/src/asset_decimals.rs\<close>: every reward asset must report the decimals of the stake token.
  What a token's \<open>decimals()\<close> replies is part of the token interface.
\<close>

definition MAX_DECIMALS :: nat where "MAX_DECIMALS = 18"

datatype DecimalsError = Missing | Malformed | Incompatible

fun error_of_decimals :: "DecimalsError \<Rightarrow> StakeVaultError" where
  "error_of_decimals Missing = TokenOperationFailed"
| "error_of_decimals Malformed = TokenOperationFailed"
| "error_of_decimals Incompatible = InvalidAmount"

definition read_decimals :: "'w token_if \<Rightarrow> 'w \<Rightarrow> addr \<Rightarrow> (DecimalsError, nat) res" where
  "read_decimals tk w asset =
     (case tk_decimals tk asset w of
        DecimalsFailed \<Rightarrow> Err Missing
      | DecimalsNotU32 \<Rightarrow> Err Malformed
      | DecimalsValue d \<Rightarrow> if MAX_DECIMALS < d then Err Malformed else Ok d)"

definition require_compatible :: "'w token_if \<Rightarrow> 'w \<Rightarrow> addr \<Rightarrow> addr \<Rightarrow> (DecimalsError, nat) res" where
  "require_compatible tk w stake reward =
     res_then (read_decimals tk w stake) (\<lambda>s.
     res_then (read_decimals tk w reward) (\<lambda>r.
       if s \<noteq> r then Err Incompatible else Ok s))"

fun all_compatible :: "'w token_if \<Rightarrow> 'w \<Rightarrow> addr \<Rightarrow> addr list \<Rightarrow> (DecimalsError, unit) res" where
  "all_compatible tk w stake [] = Ok ()"
| "all_compatible tk w stake (a # as) =
     res_then (require_compatible tk w stake a) (\<lambda>_. all_compatible tk w stake as)"

definition require_migration_compatible ::
  "'w token_if \<Rightarrow> 'w \<Rightarrow> addr \<Rightarrow> addr \<Rightarrow> addr list \<Rightarrow> (DecimalsError, nat) res" where
  "require_migration_compatible tk w old_stake new_stake reward_assets =
     res_then (require_compatible tk w old_stake new_stake) (\<lambda>d.
     res_then (all_compatible tk w new_stake reward_assets) (\<lambda>_. Ok d))"

lemma read_decimals_Ok: "read_decimals tk w a = Ok d \<longleftrightarrow> tk_decimals tk a w = DecimalsValue d \<and> d \<le> MAX_DECIMALS"
  by (auto simp: read_decimals_def split: decimals_reply.splits)

lemma require_compatible_Ok:
  "require_compatible tk w s r = Ok d \<longleftrightarrow> read_decimals tk w s = Ok d \<and> read_decimals tk w r = Ok d"
  by (auto simp: require_compatible_def res_then_Ok split: if_splits)

lemma all_compatible_Ok:
  "all_compatible tk w s as = Ok () \<longleftrightarrow> (\<forall>a \<in> set as. \<exists>d. require_compatible tk w s a = Ok d)"
  by (induction as) (auto simp: res_then_Ok)

text \<open>
  A migration of the stake token passes the check exactly when the old token, the new token and
  every reward asset report one and the same well-formed number of decimals.
\<close>

theorem migration_check_exact:
  "require_migration_compatible tk w old_stake new_stake assets = Ok d \<longleftrightarrow>
     d \<le> 18 \<and> (\<forall>a \<in> {old_stake, new_stake} \<union> set assets. tk_decimals tk a w = DecimalsValue d)"
proof
  assume "require_migration_compatible tk w old_stake new_stake assets = Ok d"
  then have "require_compatible tk w old_stake new_stake = Ok d" "all_compatible tk w new_stake assets = Ok ()"
    by (auto simp: require_migration_compatible_def res_then_Ok)
  then show "d \<le> 18 \<and> (\<forall>a \<in> {old_stake, new_stake} \<union> set assets. tk_decimals tk a w = DecimalsValue d)"
    by (auto simp: require_compatible_Ok all_compatible_Ok read_decimals_Ok MAX_DECIMALS_def)
next
  assume d: "d \<le> 18 \<and> (\<forall>a \<in> {old_stake, new_stake} \<union> set assets. tk_decimals tk a w = DecimalsValue d)"
  then have read: "read_decimals tk w a = Ok d" if "a \<in> {old_stake, new_stake} \<union> set assets" for a
    using that by (auto simp: read_decimals_Ok MAX_DECIMALS_def)
  then have "all_compatible tk w new_stake assets = Ok ()"
    by (auto simp: all_compatible_Ok require_compatible_Ok)
  with read show "require_migration_compatible tk w old_stake new_stake assets = Ok d"
    by (simp add: require_migration_compatible_def require_compatible_def)
qed

theorem migration_check_exact_witness:
  "require_migration_compatible ledger_token (\<lambda>_ _. 0) 1 2 [3] = Ok 7"
  by (simp add: migration_check_exact ledger_token_def)

end
