(* ===== verification/StorageVersion.thy ===== *)
theory StorageVersion
  imports VaultTypes
begin

text \<open>
  \<open>stake_vault/src/storage_version.rs\<close>: the layout version and the guard of storage upgrades. Whether
  a bare symbol is a key of the persistent storage is an argument: no part of the contract stores
  under such a key.
\<close>

definition INITIAL_LAYOUT_VERSION :: nat where "INITIAL_LAYOUT_VERSION = 1"

datatype StorageVersionError = IncompatibleLayoutVersion | MissingRequiredKey | NotInitialized

definition init_storage_version :: "nat option \<Rightarrow> nat option" where
  "init_storage_version l = Some INITIAL_LAYOUT_VERSION"

definition guard_storage_upgrade ::
  "(symbol \<Rightarrow> bool) \<Rightarrow> nat \<Rightarrow> symbol list \<Rightarrow> nat option \<Rightarrow> (nat option, StorageVersionError, unit) outcome" where
  "guard_storage_upgrade has next_layout_version required_keys layout =
     (case layout of
        None \<Rightarrow> (Err StorageVersionError.NotInitialized, layout)
      | Some current \<Rightarrow>
          if next_layout_version \<noteq> u32_sat_add current 1 then (Err IncompatibleLayoutVersion, layout)
          else if \<exists>k \<in> set required_keys. \<not> has k then (Err MissingRequiredKey, layout)
          else (Ok (), Some next_layout_version))"

fun error_of_storage_version :: "StorageVersionError \<Rightarrow> StakeVaultError" where
  "error_of_storage_version IncompatibleLayoutVersion = StakeVaultError.IncompatibleContractVersion"
| "error_of_storage_version MissingRequiredKey = StakeVaultError.NotInitialized"
| "error_of_storage_version StorageVersionError.NotInitialized = StakeVaultError.NotInitialized"

lemma guard_storage_upgrade_Ok:
  "guard_storage_upgrade has n ks l = (Ok (), l') \<longleftrightarrow>
     (\<exists>c. l = Some c \<and> n = u32_sat_add c 1 \<and> (\<forall>k \<in> set ks. has k) \<and> l' = Some n)"
  by (auto simp: guard_storage_upgrade_def split: option.splits if_splits)

lemma guard_storage_upgrade_failed:
  "guard_storage_upgrade has n ks l = (r, l') \<Longrightarrow> r \<noteq> Ok () \<Longrightarrow> l' = l"
  by (auto simp: guard_storage_upgrade_def split: option.splits if_splits)

text \<open>
  The layout versions an upgrade history visits are consecutive: after any sequence of guarded
  upgrades, accepted or not, the version is the initial one plus the number of accepted ones.
\<close>

definition layout_step :: "(symbol \<Rightarrow> bool) \<Rightarrow> nat \<times> symbol list \<Rightarrow> nat option \<times> nat \<Rightarrow> nat option \<times> nat" where
  "layout_step has u s =
     (case guard_storage_upgrade has (fst u) (snd u) (fst s) of
        (Ok _, l) \<Rightarrow> (l, Suc (snd s))
      | (_, l) \<Rightarrow> (l, snd s))"

definition layout_inv :: "nat option \<times> nat \<Rightarrow> bool" where
  "layout_inv s \<longleftrightarrow> fst s = Some (min (INITIAL_LAYOUT_VERSION + snd s) u32_max)"

interpretation layout: invariant_system "layout_step has" layout_inv layout_inv for has
proof unfold_locales
  show "layout_inv (layout_step has u s)" if inv: "layout_inv s" for s u
  proof (cases "guard_storage_upgrade has (fst u) (snd u) (fst s)")
    case (Pair r l)
    show ?thesis
    proof (cases "r = Ok ()")
      case True
      then have "layout_step has u s = (l, Suc (snd s))" using Pair by (simp add: layout_step_def)
      then show ?thesis
        using Pair [unfolded True guard_storage_upgrade_Ok] inv by (auto simp: layout_inv_def u32_sat_add_def)
    next
      case False
      then have "l = fst s" using guard_storage_upgrade_failed [OF Pair] by blast
      with False Pair inv show ?thesis
        by (cases r) (auto simp: layout_step_def layout_inv_def)
    qed
  qed
qed

text \<open>
  Storage migrations are sequential: whatever upgrades are attempted, with whatever layout
  versions and required keys, the stored layout version is the initial one plus the number of
  accepted upgrades (up to the largest \<open>u32\<close>), so no version is skipped or taken back.
\<close>

theorem layout_versions_sequential:
  "fst (fold (layout_step has) upgrades (init_storage_version l, 0)) =
     Some (min (1 + snd (fold (layout_step has) upgrades (init_storage_version l, 0))) u32_max)"
  using layout.run_safe [of "(init_storage_version l, 0)" has upgrades]
  by (simp add: layout_inv_def init_storage_version_def INITIAL_LAYOUT_VERSION_def u32_max_def)

end
