(* ===== verification/VaultAdmin.thy ===== *)
theory VaultAdmin
  imports VaultSlash AssetDecimals StorageVersion
begin

text \<open>
  The administration of the vault (\<open>stake_vault/src/lib.rs\<close>): initialisation, upgrades, pause, the
  settings, and the multi-sig flow that replaces the single admin once it is configured, with the
  byte encoding of its action payloads.
\<close>

section \<open>Initialisation, upgrades and pause\<close>

definition initialize :: "addr \<Rightarrow> addr \<Rightarrow> addr \<Rightarrow> 'w vault \<Rightarrow> ('w, unit) vault_call" where
  "initialize admin tok registry v =
     (if is_initialized (v_initialized v) then (Panic, v)
      else (Ok (), v\<lparr>v_config := (v_config v)\<lparr>vc_admin := Some admin, vc_token := Some tok, vc_registry := Some registry\<rparr>,
                     v_pause := (v_pause v)\<lparr>pz_paused := Some False\<rparr>,
                     v_initialized := Some True,
                     v_version := Some STAKE_VAULT_VERSION,
                     v_layout := init_storage_version (v_layout v)\<rparr>))"

text \<open>Admin entry points read the admin and require its authorisation.\<close>

definition with_admin :: "env \<Rightarrow> ('w vault \<Rightarrow> ('w, 'a) vault_call) \<Rightarrow> 'w vault \<Rightarrow> ('w, 'a) vault_call" where
  "with_admin ev k v =
     (case vc_admin (v_config v) of
        None \<Rightarrow> (Err StakeVaultError.NotInitialized, v)
      | Some admin \<Rightarrow> if \<not> ev_auth ev admin then (Panic, v) else k v)"

text \<open>The older entry points \<open>expect\<close> the admin and trap without one.\<close>

definition with_admin_expect :: "env \<Rightarrow> ('w vault \<Rightarrow> ('w, 'a) vault_call) \<Rightarrow> 'w vault \<Rightarrow> ('w, 'a) vault_call" where
  "with_admin_expect ev k v =
     (case vc_admin (v_config v) of
        None \<Rightarrow> (Panic, v)
      | Some admin \<Rightarrow> if \<not> ev_auth ev admin then (Panic, v) else k v)"

definition unless_multisig :: "('w vault \<Rightarrow> ('w, 'a) vault_call) \<Rightarrow> 'w vault \<Rightarrow> ('w, 'a) vault_call" where
  "unless_multisig k v = (if ms_config (v_multisig v) \<noteq> None then (Err RequiresMultisig, v) else k v)"

definition upgrade :: "env \<Rightarrow> nat \<Rightarrow> 'w vault \<Rightarrow> ('w, unit) vault_call" where
  "upgrade ev new_version v =
     with_admin ev (\<lambda>v.
       and_then (map_err (\<lambda>_. StakeVaultError.IncompatibleContractVersion)
                   (guard_upgrade (get_contract_version (v_version v)) new_version), v)
         (\<lambda>_ v. (Ok (), v\<lparr>v_version := Some new_version\<rparr>))) v"

definition upgrade_with_migration_guard ::
  "env \<Rightarrow> (symbol \<Rightarrow> bool) \<Rightarrow> nat \<Rightarrow> nat \<Rightarrow> symbol list \<Rightarrow> 'w vault \<Rightarrow> ('w, unit) vault_call" where
  "upgrade_with_migration_guard ev has new_version next_layout required v =
     with_admin ev (\<lambda>v.
       and_then (map_err (\<lambda>_. StakeVaultError.IncompatibleContractVersion)
                   (guard_upgrade (get_contract_version (v_version v)) new_version), v) (\<lambda>_ v.
         case guard_storage_upgrade has next_layout required (v_layout v) of
           (r, l) \<Rightarrow> and_then (map_err error_of_storage_version r, v\<lparr>v_layout := l\<rparr>)
             (\<lambda>_ v. (Ok (), v\<lparr>v_version := Some new_version\<rparr>)))) v"

definition do_pause :: "'w vault \<Rightarrow> 'w vault" where
  "do_pause v = v\<lparr>v_pause := set_paused True (v_pause v)\<rparr>"

definition do_unpause :: "'w vault \<Rightarrow> 'w vault" where
  "do_unpause v = v\<lparr>v_pause := set_paused False (v_pause v)\<rparr>"

definition pause :: "env \<Rightarrow> 'w vault \<Rightarrow> ('w, unit) vault_call" where
  "pause ev v = unless_multisig (with_admin_expect ev (\<lambda>v. (Ok (), do_pause v))) v"

definition unpause :: "env \<Rightarrow> 'w vault \<Rightarrow> ('w, unit) vault_call" where
  "unpause ev v = unless_multisig (with_admin_expect ev (\<lambda>v. (Ok (), do_unpause v))) v"

section \<open>Governance\<close>

definition set_governance :: "env \<Rightarrow> addr \<Rightarrow> addr \<Rightarrow> 'w vault \<Rightarrow> ('w, unit) vault_call" where
  "set_governance ev admin governance v =
     (case vc_admin (v_config v) of
        None \<Rightarrow> (Err StakeVaultError.NotInitialized, v)
      | Some stored \<Rightarrow>
          if \<not> ev_auth ev admin then (Panic, v)
          else if admin \<noteq> stored then (Err StakeVaultError.Unauthorized, v)
          else (Ok (), v\<lparr>v_config := (v_config v)\<lparr>vc_governance := Some governance\<rparr>\<rparr>))"

definition apply_governance_pause :: "env \<Rightarrow> bool \<Rightarrow> 'w vault \<Rightarrow> ('w, unit) vault_call" where
  "apply_governance_pause ev paused v =
     (case vc_governance (v_config v) of
        None \<Rightarrow> (Err StakeVaultError.Unauthorized, v)
      | Some g \<Rightarrow> if \<not> ev_auth ev g then (Panic, v) else (Ok (), v\<lparr>v_pause := set_paused paused (v_pause v)\<rparr>))"

section \<open>Settings\<close>

definition set_slash_tiers :: "nat \<Rightarrow> nat \<Rightarrow> nat \<Rightarrow> 'w vault \<Rightarrow> ('w, unit) vault_call" where
  "set_slash_tiers mi ma cr v =
     and_then (validate_slash_tiers mi ma cr, v) (\<lambda>_ v.
       (Ok (), v\<lparr>v_config := (v_config v)\<lparr>vc_slash_tiers := Some \<lparr>minor_bps = mi, major_bps = ma, critical_bps = cr\<rparr>\<rparr>\<rparr>))"

definition configure_slash_tiers :: "env \<Rightarrow> nat \<Rightarrow> nat \<Rightarrow> nat \<Rightarrow> 'w vault \<Rightarrow> ('w, unit) vault_call" where
  "configure_slash_tiers ev mi ma cr v = unless_multisig (with_admin ev (set_slash_tiers mi ma cr)) v"

definition governance_configure_slash_tiers ::
  "env \<Rightarrow> addr \<Rightarrow> nat \<Rightarrow> nat \<Rightarrow> nat \<Rightarrow> 'w vault \<Rightarrow> ('w, unit) vault_call" where
  "governance_configure_slash_tiers ev governance mi ma cr v =
     (case vc_governance (v_config v) of
        None \<Rightarrow> (Err StakeVaultError.Unauthorized, v)
      | Some stored \<Rightarrow>
          if governance \<noteq> stored then (Err StakeVaultError.Unauthorized, v)
          else if \<not> ev_auth ev governance then (Panic, v)
          else set_slash_tiers mi ma cr v)"

fun update_tier :: "nat \<Rightarrow> nat \<Rightarrow> LockMultiplierTier list \<Rightarrow> LockMultiplierTier list \<times> bool" where
  "update_tier weeks bps [] = ([], False)"
| "update_tier weeks bps (t # ts) =
     (case update_tier weeks bps ts of (ts', replaced) \<Rightarrow>
        if lt_weeks t = weeks then (\<lparr>lt_weeks = weeks, lt_bps = bps\<rparr> # ts', True) else (t # ts', replaced))"

definition set_lock_multiplier_tier :: "env \<Rightarrow> nat \<Rightarrow> nat \<Rightarrow> 'w vault \<Rightarrow> ('w, unit) vault_call" where
  "set_lock_multiplier_tier ev weeks bps v =
     with_admin ev (\<lambda>v.
       if weeks = 0 \<or> bps < 10000 \<or> MAX_LOCK_MULTIPLIER_BPS < bps then (Err InvalidLockMultiplierTier, v)
       else case update_tier weeks bps (get_lock_multiplier_tiers v) of (ts, replaced) \<Rightarrow>
         let ts = (if replaced then ts else ts @ [\<lparr>lt_weeks = weeks, lt_bps = bps\<rparr>])
         in (Ok (), v\<lparr>v_config := (v_config v)\<lparr>vc_lock_tiers := Some ts\<rparr>\<rparr>)) v"

definition put_minimum_stake_duration :: "nat \<Rightarrow> 'w vault \<Rightarrow> 'w vault" where
  "put_minimum_stake_duration secs v = v\<lparr>v_config := (v_config v)\<lparr>vc_min_duration := Some secs\<rparr>\<rparr>"

definition set_minimum_stake_duration :: "env \<Rightarrow> nat \<Rightarrow> 'w vault \<Rightarrow> ('w, unit) vault_call" where
  "set_minimum_stake_duration ev secs v =
     unless_multisig (with_admin ev (\<lambda>v. (Ok (), put_minimum_stake_duration secs v))) v"

definition put_minimum_stake :: "int \<Rightarrow> 'w vault \<Rightarrow> 'w vault" where
  "put_minimum_stake m v = v\<lparr>v_config := (v_config v)\<lparr>vc_min_stake := Some m\<rparr>\<rparr>"

definition set_minimum_stake :: "env \<Rightarrow> int \<Rightarrow> 'w vault \<Rightarrow> ('w, unit) vault_call" where
  "set_minimum_stake ev m v = unless_multisig (with_admin_expect ev (\<lambda>v. (Ok (), put_minimum_stake m v))) v"

definition put_withdrawal_cooldown :: "nat \<Rightarrow> 'w vault \<Rightarrow> ('w, unit) vault_call" where
  "put_withdrawal_cooldown secs v =
     and_then (validate_cooldown secs, v) (\<lambda>_ v.
       (Ok (), v\<lparr>v_config := (v_config v)\<lparr>vc_withdrawal_cooldown := Some secs\<rparr>\<rparr>))"

definition set_withdrawal_cooldown :: "env \<Rightarrow> nat \<Rightarrow> 'w vault \<Rightarrow> ('w, unit) vault_call" where
  "set_withdrawal_cooldown ev secs v = unless_multisig (with_admin ev (put_withdrawal_cooldown secs)) v"

definition set_slash_cooldown :: "env \<Rightarrow> nat \<Rightarrow> 'w vault \<Rightarrow> ('w, unit) vault_call" where
  "set_slash_cooldown ev ledgers v =
     with_admin_expect ev (\<lambda>v. (Ok (), v\<lparr>v_config := (v_config v)\<lparr>vc_slash_cooldown := Some ledgers\<rparr>\<rparr>)) v"

definition put_appeal_window :: "nat \<Rightarrow> 'w vault \<Rightarrow> ('w, unit) vault_call" where
  "put_appeal_window secs v =
     (if 2592000 < secs then (Err InvalidAppealWindow, v)
      else (Ok (), v\<lparr>v_config := (v_config v)\<lparr>vc_appeal_window := Some secs\<rparr>\<rparr>))"

definition set_appeal_window :: "env \<Rightarrow> nat \<Rightarrow> 'w vault \<Rightarrow> ('w, unit) vault_call" where
  "set_appeal_window ev secs v = unless_multisig (with_admin ev (put_appeal_window secs)) v"

definition set_max_unstake_queue_size :: "env \<Rightarrow> nat \<Rightarrow> 'w vault \<Rightarrow> ('w, unit) vault_call" where
  "set_max_unstake_queue_size ev size' v =
     unless_multisig (with_admin ev (\<lambda>v. (Ok (), v\<lparr>v_config := (v_config v)\<lparr>vc_max_queue := Some size'\<rparr>\<rparr>))) v"

definition set_default_provider_lockup :: "env \<Rightarrow> nat \<Rightarrow> 'w vault \<Rightarrow> ('w, unit) vault_call" where
  "set_default_provider_lockup ev ledgers v =
     unless_multisig (with_admin ev (\<lambda>v.
       if MAX_PROVIDER_LOCKUP_LEDGERS < ledgers then (Err InvalidAmount, v)
       else (Ok (), v\<lparr>v_config := (v_config v)\<lparr>vc_default_lockup := Some ledgers\<rparr>\<rparr>))) v"

definition release_provider_lockup :: "env \<Rightarrow> addr \<Rightarrow> 'w vault \<Rightarrow> ('w, unit) vault_call" where
  "release_provider_lockup ev provider v = require_lockup_released ev provider v"

text \<open>
  The reward assets the check ranges over are those of the reward vault, another part of the storage.
  The source declares \<open>add_index_reward_asset\<close> twice, once with the body of this function: the model
  follows the declaration that bears its name.
\<close>

definition migrate_stake_token :: "env \<Rightarrow> 'w token_if \<Rightarrow> addr list \<Rightarrow> addr \<Rightarrow> 'w vault \<Rightarrow> ('w, nat) vault_call" where
  "migrate_stake_token ev tk reward_assets new_token v =
     with_admin ev (\<lambda>v.
       case stake_token v of
         None \<Rightarrow> (Err StakeVaultError.NotInitialized, v)
       | Some old \<Rightarrow>
           and_then (map_err error_of_decimals (require_migration_compatible tk (v_world v) old new_token reward_assets), v)
             (\<lambda>d v. (Ok d, v\<lparr>v_config := (v_config v)\<lparr>vc_token := Some new_token\<rparr>\<rparr>))) v"

section \<open>Index rewards of the vault\<close>

text \<open>The part of the vault that the index rewards work on.\<close>

definition get_rewards :: "'w vault \<Rightarrow> 'w index_rewards" where
  "get_rewards v = \<lparr>ir_index = v_index v, ir_claims = v_claims v, ir_world = v_world v\<rparr>"

definition put_rewards :: "'w index_rewards \<Rightarrow> 'w vault \<Rightarrow> 'w vault" where
  "put_rewards r v = v\<lparr>v_index := ir_index r, v_claims := ir_claims r, v_world := ir_world r\<rparr>"

definition add_index_reward_asset :: "env \<Rightarrow> addr \<Rightarrow> 'w vault \<Rightarrow> ('w, unit) vault_call" where
  "add_index_reward_asset ev asset v =
     with_admin ev (zoom v_index (\<lambda>i v. v\<lparr>v_index := i\<rparr>) (add_asset asset)) v"

definition sync_index_stake :: "addr \<Rightarrow> 'w vault \<Rightarrow> ('w, unit) vault_call" where
  "sync_index_stake staker v = index_change staker (get_stake v staker) v"

section \<open>Multi-sig actions\<close>

text \<open>Little-endian bytes of fixed-width integers; a byte beyond the payload reads as zero.\<close>

definition byte_at :: "nat list \<Rightarrow> nat \<Rightarrow> nat" where
  "byte_at bs i = (if i < length bs then bs ! i else 0)"

fun le_bytes :: "nat \<Rightarrow> nat \<Rightarrow> nat list" where
  "le_bytes 0 x = []"
| "le_bytes (Suc n) x = x mod 256 # le_bytes n (x div 256)"

fun from_le_bytes :: "nat list \<Rightarrow> nat" where
  "from_le_bytes [] = 0"
| "from_le_bytes (b # bs) = b + 256 * from_le_bytes bs"

definition read_le :: "nat \<Rightarrow> nat list \<Rightarrow> nat \<Rightarrow> nat" where
  "read_le n data offset = from_le_bytes (map (\<lambda>i. byte_at data (offset + i)) [0..<n])"

definition encode_action :: "nat \<Rightarrow> nat list \<Rightarrow> nat list" where
  "encode_action tag bs = tag # bs"

definition encode_i128_bytes :: "int \<Rightarrow> nat list" where
  "encode_i128_bytes x = le_bytes 16 (nat (x mod 2 ^ 128))"

definition decode_i128_from_bytes :: "nat list \<Rightarrow> nat \<Rightarrow> int" where
  "decode_i128_from_bytes data offset =
     (let u = int (read_le 16 data offset) in if u < 2 ^ 127 then u else u - 2 ^ 128)"

definition perform_action :: "env \<Rightarrow> 'w token_if \<Rightarrow> nat list \<Rightarrow> 'w vault \<Rightarrow> ('w, unit) vault_call" where
  "perform_action ev tk data v =
     (case data of
        [] \<Rightarrow> (Err StakeVaultError.Unauthorized, v)
      | tag # _ \<Rightarrow>
          if tag = 0 then (Ok (), do_pause v)
          else if tag = 1 then (Ok (), do_unpause v)
          else if tag = 2 then (Ok (), put_minimum_stake (decode_i128_from_bytes data 1) v)
          else if tag = 3 then (Ok (), put_minimum_stake_duration (read_le 8 data 1) v)
          else if tag = 4 then
            set_slash_tiers (i128_as_u32 (decode_i128_from_bytes data 1))
              (i128_as_u32 (decode_i128_from_bytes data 17)) (i128_as_u32 (decode_i128_from_bytes data 33)) v
          else if tag = 5 then put_appeal_window (read_le 8 data 1) v
          else if tag = 6 then put_withdrawal_cooldown (read_le 8 data 1) v
          else if tag = 7 then do_resolve_appeal ev tk (read_le 8 data 1) (byte_at data 9 = 1) v
          else (Err StakeVaultError.Unauthorized, v))"

definition set_multisig_config :: "env \<Rightarrow> addr \<Rightarrow> MultisigConfig option \<Rightarrow> 'w vault \<Rightarrow> ('w, unit) vault_call" where
  "set_multisig_config ev caller config v =
     (if \<not> ev_auth ev caller then (Panic, v)
      else case vc_admin (v_config v) of
        None \<Rightarrow> (Err StakeVaultError.NotInitialized, v)
      | Some admin \<Rightarrow>
          if caller \<noteq> admin then (Err StakeVaultError.Unauthorized, v)
          else case config of
            Some c \<Rightarrow> (case set_config c (v_multisig v) of
                (r, m) \<Rightarrow> (map_err (\<lambda>_. InvalidMultiSigConfig) r, v\<lparr>v_multisig := m\<rparr>))
          | None \<Rightarrow> (Ok (), v\<lparr>v_multisig := (v_multisig v)\<lparr>ms_config := None\<rparr>\<rparr>))"

definition propose_action :: "env \<Rightarrow> addr \<Rightarrow> nat list \<Rightarrow> 'w vault \<Rightarrow> ('w, nat) vault_call" where
  "propose_action ev caller data v =
     (if \<not> ev_auth ev caller then (Panic, v)
      else case propose ev caller data (v_multisig v) of
        (r, m) \<Rightarrow> (map_err (\<lambda>_. StakeVaultError.Unauthorized) r, v\<lparr>v_multisig := m\<rparr>))"

fun error_of_approve :: "MultisigError \<Rightarrow> StakeVaultError" where
  "error_of_approve ProposalNotFound = EmergencyRequestNotFound"
| "error_of_approve MultisigError.AlreadyApproved = StakeVaultError.AlreadyApproved"
| "error_of_approve ProposalExpired = EmergencyRequestExpired"
| "error_of_approve _ = StakeVaultError.Unauthorized"

fun error_of_execute :: "MultisigError \<Rightarrow> StakeVaultError" where
  "error_of_execute AlreadyExecuted = EmergencyRequestNotFound"
| "error_of_execute ThresholdNotMet = StakeVaultError.Unauthorized"
| "error_of_execute ProposalExpired = EmergencyRequestExpired"
| "error_of_execute _ = StakeVaultError.Unauthorized"

definition approve_action :: "env \<Rightarrow> addr \<Rightarrow> nat \<Rightarrow> 'w vault \<Rightarrow> ('w, nat) vault_call" where
  "approve_action ev caller i v =
     (if \<not> ev_auth ev caller then (Panic, v)
      else case approve ev caller i (v_multisig v) of
        (r, m) \<Rightarrow> (map_err error_of_approve r, v\<lparr>v_multisig := m\<rparr>))"

definition execute_action :: "env \<Rightarrow> 'w token_if \<Rightarrow> addr \<Rightarrow> nat \<Rightarrow> 'w vault \<Rightarrow> ('w, unit) vault_call" where
  "execute_action ev tk caller i v =
     (if \<not> ev_auth ev caller then (Panic, v)
      else and_then (map_err (\<lambda>_. EmergencyRequestNotFound) (get_proposal (v_multisig v) i), v) (\<lambda>p v.
        and_then (map_err error_of_execute (require_can_execute ev p (v_multisig v)), v) (\<lambda>_ v.
        and_then (perform_action ev tk (payload p) v) (\<lambda>_ v.
        case mark_executed i (v_multisig v) of
          (r, m) \<Rightarrow> (map_err (\<lambda>_. StakeVaultError.Unauthorized) r, v\<lparr>v_multisig := m\<rparr>)))))"

section \<open>Little-endian integers\<close>

lemma le_bytes_length [simp]: "length (le_bytes n x) = n"
  by (induction n x rule: le_bytes.induct) simp_all

lemma from_le_bytes_le_bytes: "from_le_bytes (le_bytes n x) = x mod 256 ^ n"
  by (induction n x rule: le_bytes.induct) (simp_all add: mod_mult2_eq mult.commute)

lemma read_le_prefix:
  assumes "length bs = n"
  shows "read_le n (pre @ bs @ rest) (length pre) = from_le_bytes bs"
proof -
  have "map (\<lambda>i. byte_at (pre @ bs @ rest) (length pre + i)) [0..<n] = bs"
    using assms by (auto simp: byte_at_def nth_append intro: nth_equalityI)
  then show ?thesis by (simp add: read_le_def)
qed

lemma decode_i128_prefix:
  assumes "in_i128 x" "length pre = k"
  shows "decode_i128_from_bytes (pre @ encode_i128_bytes x @ rest) k = x"
proof -
  have "read_le 16 (pre @ encode_i128_bytes x @ rest) k = nat (x mod 2 ^ 128)"
  proof -
    have "nat (x mod 2 ^ 128) mod 256 ^ 16 = nat (x mod 2 ^ 128)" by (simp add: nat_less_iff)
    moreover have "length (encode_i128_bytes x) = 16" by (simp add: encode_i128_bytes_def)
    ultimately show ?thesis
      using read_le_prefix [of "encode_i128_bytes x" 16 pre rest] assms(2)
      by (simp add: encode_i128_bytes_def from_le_bytes_le_bytes)
  qed
  moreover have "x mod 2 ^ 128 = (if 0 \<le> x then x else x + 2 ^ 128)"
  proof (cases "0 \<le> x")
    case False
    then have "(x + 2 ^ 128) mod 2 ^ 128 = x + 2 ^ 128"
      using assms(1) by (intro mod_pos_pos_trivial) (auto simp: in_i128_def i128_min_def)
    then show ?thesis using False by simp
  qed (use assms(1) in \<open>auto simp: in_i128_def i128_max_def\<close>)
  ultimately show ?thesis
    using assms(1) by (simp add: decode_i128_from_bytes_def Let_def in_i128_def i128_min_def i128_max_def)
qed

section \<open>Successful calls\<close>

lemma with_admin_Ok [res_simps]:
  "with_admin ev k v = (Ok x, v') \<longleftrightarrow> (\<exists>a. vc_admin (v_config v) = Some a \<and> ev_auth ev a) \<and> k v = (Ok x, v')"
  by (auto simp: with_admin_def split: option.splits)

lemma with_admin_expect_Ok [res_simps]:
  "with_admin_expect ev k v = (Ok x, v') \<longleftrightarrow> (\<exists>a. vc_admin (v_config v) = Some a \<and> ev_auth ev a) \<and> k v = (Ok x, v')"
  by (auto simp: with_admin_expect_def split: option.splits)

lemma unless_multisig_Ok [res_simps]:
  "unless_multisig k v = (Ok x, v') \<longleftrightarrow> ms_config (v_multisig v) = None \<and> k v = (Ok x, v')"
  by (auto simp: unless_multisig_def)

lemma unless_multisig_refuses: "ms_config (v_multisig v) = Some c \<Longrightarrow> unless_multisig k v = (Err RequiresMultisig, v)"
  by (simp add: unless_multisig_def)

lemmas setting_defs =
  pause_def unpause_def do_pause_def do_unpause_def set_governance_def apply_governance_pause_def set_slash_tiers_def
  configure_slash_tiers_def governance_configure_slash_tiers_def set_lock_multiplier_tier_def
  put_minimum_stake_duration_def set_minimum_stake_duration_def put_minimum_stake_def set_minimum_stake_def
  put_withdrawal_cooldown_def set_withdrawal_cooldown_def set_slash_cooldown_def put_appeal_window_def set_appeal_window_def
  set_max_unstake_queue_size_def set_default_provider_lockup_def upgrade_def upgrade_with_migration_guard_def

lemma call_map_Ok [res_simps]:
  "(case m of (r, w) \<Rightarrow> (map_err f r, g w)) = (Ok x, t) \<longleftrightarrow> (\<exists>w. m = (Ok x, w) \<and> t = g w)"
  by (cases m) (auto simp: map_err_Ok)

lemma execute_action_Ok:
  "execute_action ev tk c i v = (Ok u, v') \<longleftrightarrow> ev_auth ev c \<and>
     (\<exists>p u1 m. get_proposal (v_multisig v) i = Ok p \<and> require_can_execute ev p (v_multisig v) = Ok () \<and>
        perform_action ev tk (payload p) v = (Ok (), u1) \<and> mark_executed i (v_multisig u1) = (Ok (), m) \<and>
        v' = u1\<lparr>v_multisig := m\<rparr>)"
  by (auto simp: execute_action_def and_then_Ok map_err_Ok call_map_Ok)

lemma do_resolve_appeal_multisig:
  assumes "do_resolve_appeal ev tk sid b v = (Ok u, v')"
  shows "v_multisig v' = v_multisig v"
proof -
  have tc: "v_multisig y = v_multisig x" if "token_call f x = (r, y)" for f r and x y :: "'a vault"
    using that by (auto simp: token_call_def split: prod.splits)
  show ?thesis
    using assms tc
    by (fastforce simp: do_resolve_appeal_def Let_def and_then_Ok save_appeal_def drop_held_def restore_stake_def put_stake_def
        split: option.splits if_splits prod.splits)
qed

lemma perform_action_multisig:
  assumes "perform_action ev tk data v = (Ok u, v')"
  shows "v_multisig v' = v_multisig v"
  using assms do_resolve_appeal_multisig
  by (auto simp: perform_action_def setting_defs and_then_Ok split: list.splits if_splits)

section \<open>Valid settings\<close>

text \<open>
  What the setters enforce: ordered slash tiers of at most 100 percent, a bounded cooldown, appeal
  window and default lockup, and lock multipliers between 1x and 100x.
\<close>

definition tier_valid :: "LockMultiplierTier \<Rightarrow> bool" where
  "tier_valid t \<longleftrightarrow> 0 < lt_weeks t \<and> 10000 \<le> lt_bps t \<and> lt_bps t \<le> MAX_LOCK_MULTIPLIER_BPS"

definition settings_valid :: "'w vault \<Rightarrow> bool" where
  "settings_valid v \<longleftrightarrow>
     (\<forall>c. vc_slash_tiers (v_config v) = Some c \<longrightarrow> validate_slash_tiers (minor_bps c) (major_bps c) (critical_bps c) = Ok ()) \<and>
     (\<forall>s. vc_withdrawal_cooldown (v_config v) = Some s \<longrightarrow> s \<le> MAX_WITHDRAWAL_COOLDOWN_SECS) \<and>
     (\<forall>s. vc_appeal_window (v_config v) = Some s \<longrightarrow> s \<le> 2592000) \<and>
     (\<forall>n. vc_default_lockup (v_config v) = Some n \<longrightarrow> n \<le> MAX_PROVIDER_LOCKUP_LEDGERS) \<and>
     (\<forall>t \<in> set (get_lock_multiplier_tiers v). tier_valid t)"

lemma settings_valid_config: "v_config v' = v_config v \<Longrightarrow> settings_valid v \<Longrightarrow> settings_valid v'"
  by (simp add: settings_valid_def get_lock_multiplier_tiers_def)

lemma update_tier_valid:
  assumes "update_tier w b ts = (ts', r)" "\<forall>t \<in> set ts. tier_valid t" "tier_valid \<lparr>lt_weeks = w, lt_bps = b\<rparr>"
  shows "\<forall>t \<in> set ts'. tier_valid t"
  using assms
proof (induction ts arbitrary: ts' r)
  case (Cons t ts)
  obtain us q where u: "update_tier w b ts = (us, q)" by fastforce
  have "\<forall>t \<in> set us. tier_valid t" using Cons.IH [OF u] Cons.prems by simp
  then show ?case using Cons.prems u by (auto split: if_splits)
qed auto

lemma set_slash_tiers_settings:
  assumes "set_slash_tiers mi ma cr v = (Ok u, v')" "settings_valid v"
  shows "settings_valid v'"
  using assms by (auto simp: set_slash_tiers_def and_then_Ok settings_valid_def get_lock_multiplier_tiers_def)

lemma set_lock_multiplier_tier_settings:
  assumes "set_lock_multiplier_tier ev w b v = (Ok u, v')" "settings_valid v"
  shows "settings_valid v'"
proof -
  obtain ts r where up: "update_tier w b (get_lock_multiplier_tiers v) = (ts, r)" by fastforce
  from assms(1) have new: "tier_valid \<lparr>lt_weeks = w, lt_bps = b\<rparr>"
    and v': "v' = v\<lparr>v_config := (v_config v)\<lparr>vc_lock_tiers := Some (if r then ts else ts @ [\<lparr>lt_weeks = w, lt_bps = b\<rparr>])\<rparr>\<rparr>"
    using up by (auto simp: set_lock_multiplier_tier_def with_admin_Ok Let_def tier_valid_def split: if_splits)
  have "\<forall>t \<in> set ts. tier_valid t" using update_tier_valid [OF up _ new] assms(2) by (simp add: settings_valid_def)
  then show ?thesis using assms(2) new v' by (auto simp: settings_valid_def get_lock_multiplier_tiers_def)
qed

text \<open>The calls that only change settings, as data.\<close>

datatype setting_op =
    SetSlashTiers nat nat nat
  | GovernSlashTiers addr nat nat nat
  | SetLockTier nat nat
  | SetMinDuration nat
  | SetMinStake int
  | SetCooldown nat
  | SetSlashCooldown nat
  | SetAppealWindow nat
  | SetQueueSize nat
  | SetLockup nat
  | SetGovernance addr addr
  | SetPause
  | SetUnpause
  | GovernPause bool
  | SetVersion nat

fun setting_call :: "env \<Rightarrow> setting_op \<Rightarrow> 'w vault \<Rightarrow> ('w, unit) vault_call" where
  "setting_call ev (SetSlashTiers mi ma cr) v = configure_slash_tiers ev mi ma cr v"
| "setting_call ev (GovernSlashTiers g mi ma cr) v = governance_configure_slash_tiers ev g mi ma cr v"
| "setting_call ev (SetLockTier w b) v = set_lock_multiplier_tier ev w b v"
| "setting_call ev (SetMinDuration s) v = set_minimum_stake_duration ev s v"
| "setting_call ev (SetMinStake x) v = set_minimum_stake ev x v"
| "setting_call ev (SetCooldown s) v = set_withdrawal_cooldown ev s v"
| "setting_call ev (SetSlashCooldown n) v = set_slash_cooldown ev n v"
| "setting_call ev (SetAppealWindow s) v = set_appeal_window ev s v"
| "setting_call ev (SetQueueSize n) v = set_max_unstake_queue_size ev n v"
| "setting_call ev (SetLockup n) v = set_default_provider_lockup ev n v"
| "setting_call ev (SetGovernance a g) v = set_governance ev a g v"
| "setting_call ev SetPause v = pause ev v"
| "setting_call ev SetUnpause v = unpause ev v"
| "setting_call ev (GovernPause b) v = apply_governance_pause ev b v"
| "setting_call ev (SetVersion n) v = upgrade ev n v"

lemma setting_call_settings:
  assumes "setting_call ev s v = (Ok u, v')" "settings_valid v"
  shows "settings_valid v'"
proof (cases s)
  case (SetLockTier w b)
  then show ?thesis using assms set_lock_multiplier_tier_settings by simp
next
  case (GovernSlashTiers g mi ma cr)
  then show ?thesis using assms set_slash_tiers_settings
    by (auto simp: governance_configure_slash_tiers_def split: option.splits if_splits)
next
  case (SetSlashTiers mi ma cr)
  then show ?thesis using assms set_slash_tiers_settings by (auto simp: configure_slash_tiers_def res_simps)
qed (use assms in \<open>auto simp: setting_defs res_simps settings_valid_def get_lock_multiplier_tiers_def validate_cooldown_def
      split: option.splits if_splits\<close>)

lemma money_config [simp]: "vc_token c = vc_token (v_config v) \<Longrightarrow> money (v\<lparr>v_config := c\<rparr>) = money v"
  by (simp add: money_def stake_token_def)

lemma setting_call_money:
  assumes "setting_call ev s v = (Ok u, v')"
  shows "money v' = money v"
proof -
  have tiers: "money y = money x" if "set_slash_tiers mi ma cr x = (Ok u, y)" for mi ma cr and x y :: "'a vault"
    using that by (auto simp: set_slash_tiers_def and_then_Ok)
  show ?thesis
  proof (cases s)
    case (GovernSlashTiers g mi ma cr)
    then show ?thesis using assms tiers by (auto simp: governance_configure_slash_tiers_def split: option.splits if_splits)
  next
    case (SetSlashTiers mi ma cr)
    then show ?thesis using assms tiers by (auto simp: configure_slash_tiers_def res_simps)
  next
    case (SetLockTier w b)
    then show ?thesis using assms by (auto simp: set_lock_multiplier_tier_def with_admin_Ok Let_def split: prod.splits if_splits)
  qed (use assms in \<open>auto simp: setting_defs res_simps split: option.splits if_splits\<close>)
qed

lemma setting_covered:
  "vault_solvent tk self v \<Longrightarrow> setting_call ev s v = (Ok u, v') \<Longrightarrow> covered tk self v v'"
  by (rule covered_money) (auto dest: setting_call_money)

section \<open>Properties\<close>

text \<open>
  (C36) A multi-sig action is executed as proposed, by the quorum, and once. A successful
  \<open>execute_action\<close> has a stored, pending proposal with at least the threshold of approvals, not past
  its deadline; the vault afterwards is the result of performing exactly its payload with the
  proposal marked executed, and no later attempt to execute the same proposal succeeds.
\<close>

theorem execute_action_once:
  assumes "execute_action ev tk c i v = (Ok (), v')"
  shows "(\<exists>p cfg u. sget (ms_proposals (v_multisig v)) i = Some p \<and> ms_config (v_multisig v) = Some cfg \<and>
      p_status p = ProposalStatus.Pending \<and> threshold cfg \<le> length (approvals p) \<and> ev_timestamp ev \<le> p_expires_at p \<and>
      perform_action ev tk (payload p) v = (Ok (), u) \<and>
      v' = u\<lparr>v_multisig := (v_multisig v)\<lparr>ms_proposals := sset i (p\<lparr>p_status := Executed\<rparr>) (ms_proposals (v_multisig v))\<rparr>\<rparr>) \<and>
    (\<nexists>v''. execute_action ev' tk' c' i v' = (Ok (), v''))"
proof (rule conjI)
  from assms obtain p u m where p: "get_proposal (v_multisig v) i = Ok p" "require_can_execute ev p (v_multisig v) = Ok ()"
    "perform_action ev tk (payload p) v = (Ok (), u)" "mark_executed i (v_multisig u) = (Ok (), m)" "v' = u\<lparr>v_multisig := m\<rparr>"
    unfolding execute_action_Ok by blast
  have ms: "v_multisig u = v_multisig v" by (rule perform_action_multisig [OF p(3)])
  from mark_executed_Ok [OF p(4)] obtain q where q: "sget (ms_proposals (v_multisig v)) i = Some q" "p_status q = ProposalStatus.Pending"
    "m = (v_multisig v)\<lparr>ms_proposals := sset i (q\<lparr>p_status := Executed\<rparr>) (ms_proposals (v_multisig v))\<rparr>"
    unfolding ms by blast
  have "q = p" using p(1) q(1) by (simp add: get_proposal_def)
  then show "\<exists>p cfg u. sget (ms_proposals (v_multisig v)) i = Some p \<and> ms_config (v_multisig v) = Some cfg \<and>
      p_status p = ProposalStatus.Pending \<and> threshold cfg \<le> length (approvals p) \<and> ev_timestamp ev \<le> p_expires_at p \<and>
      perform_action ev tk (payload p) v = (Ok (), u) \<and>
      v' = u\<lparr>v_multisig := (v_multisig v)\<lparr>ms_proposals := sset i (p\<lparr>p_status := Executed\<rparr>) (ms_proposals (v_multisig v))\<rparr>\<rparr>"
    using p q by (auto simp: require_can_execute_def split: option.splits if_splits)
  have "get_proposal (v_multisig v') i = Ok (q\<lparr>p_status := Executed\<rparr>)" using p(5) q(3) by (simp add: get_proposal_def)
  moreover have "ms_config (v_multisig v') = ms_config (v_multisig v)" using p(5) q(3) by simp
  ultimately show "\<nexists>v''. execute_action ev' tk' c' i v' = (Ok (), v'')"
    unfolding execute_action_Ok by (auto simp: require_can_execute_def split: option.splits)
qed

text \<open>Proposal 1 to set the minimum stake to 5, approved by both signers.\<close>

definition example_proposed :: "ledger vault" where
  "example_proposed = example_vault\<lparr>v_multisig :=
     \<lparr>ms_config = Some \<lparr>signers = [1, 5], threshold = 2, proposal_timeout_secs = 100\<rparr>, ms_next_id = Some 2,
      ms_proposals = [(1, \<lparr>p_id = 1, proposer = 1, payload = encode_action 2 (encode_i128_bytes 5), approvals = [1, 5],
        p_status = ProposalStatus.Pending, p_created_at = 990, p_expires_at = 1090\<rparr>)]\<rparr>\<rparr>"

theorem execute_action_once_witness:
  "\<exists>v'. execute_action example_ev ledger_token 8 1 example_proposed = (Ok (), v') \<and>
     (\<nexists>v''. execute_action example_ev ledger_token 8 1 v' = (Ok (), v''))"
proof -
  obtain v' where v': "execute_action example_ev ledger_token 8 1 example_proposed = (Ok (), v')"
    by (simp add: execute_action_def example_proposed_def get_proposal_def require_can_execute_def example_ev_def
        perform_action_def encode_action_def mark_executed_def put_minimum_stake_def)
  with execute_action_once [OF v', THEN conjunct2] show ?thesis by blast
qed

text \<open>
  (C38) The payload of a proposal is read back as it was written: performing the encoded
  \<open>SET_MIN_STAKE\<close> action sets the minimum stake to exactly the encoded \<open>i128\<close>, negative values
  included, and performing an encoded \<open>SET_SLASH_TIERS\<close> action is \<open>set_slash_tiers\<close> on exactly the
  three encoded \<open>u32\<close> values, whatever follows them in the payload.
\<close>

theorem action_payload_roundtrip:
  assumes "in_i128 x" "mi \<le> u32_max" "ma \<le> u32_max" "cr \<le> u32_max"
  shows "perform_action ev tk (encode_action 2 (encode_i128_bytes x @ rest)) v = (Ok (), put_minimum_stake x v) \<and>
    perform_action ev tk
        (encode_action 4 (encode_i128_bytes (int mi) @ encode_i128_bytes (int ma) @ encode_i128_bytes (int cr) @ rest)) v =
      set_slash_tiers mi ma cr v"
proof (rule conjI)
  show "perform_action ev tk (encode_action 2 (encode_i128_bytes x @ rest)) v = (Ok (), put_minimum_stake x v)"
    using decode_i128_prefix [OF assms(1), of "[2]" 1 rest] by (simp add: perform_action_def encode_action_def)
  have fits: "in_i128 (int n)" if "n \<le> u32_max" for n using that by (auto simp: in_i128_def u32_max_def i128_max_def i128_min_def)
  have low: "i128_as_u32 (int n) = n" if "n \<le> u32_max" for n using that by (simp add: i128_as_u32_def u32_max_def)
  have len: "length (encode_i128_bytes y) = 16" for y by (simp add: encode_i128_bytes_def)
  let ?e = encode_i128_bytes
  have d: "decode_i128_from_bytes (4 # ?e (int mi) @ ?e (int ma) @ ?e (int cr) @ rest) 1 = int mi"
    "decode_i128_from_bytes (4 # ?e (int mi) @ ?e (int ma) @ ?e (int cr) @ rest) 17 = int ma"
    "decode_i128_from_bytes (4 # ?e (int mi) @ ?e (int ma) @ ?e (int cr) @ rest) 33 = int cr"
    using decode_i128_prefix [OF fits [OF assms(2)], of "[4]" 1 "?e (int ma) @ ?e (int cr) @ rest"]
      decode_i128_prefix [OF fits [OF assms(3)], of "4 # ?e (int mi)" 17 "?e (int cr) @ rest"]
      decode_i128_prefix [OF fits [OF assms(4)], of "4 # ?e (int mi) @ ?e (int ma)" 33 rest]
    by (simp_all add: len)
  show "perform_action ev tk (encode_action 4 (?e (int mi) @ ?e (int ma) @ ?e (int cr) @ rest)) v = set_slash_tiers mi ma cr v"
    by (simp add: perform_action_def encode_action_def d low assms del: One_nat_def)
qed

theorem action_payload_roundtrip_witness:
  "perform_action example_ev ledger_token (encode_action 2 (encode_i128_bytes (- 5) @ [])) example_vault =
    (Ok (), put_minimum_stake (- 5) example_vault)"
  by (rule action_payload_roundtrip [THEN conjunct1, of "- 5" 1 1 1]) (simp_all add: in_i128_def i128_min_def i128_max_def u32_max_def)

text \<open>
  With a multi-sig configured the admin alone changes nothing it governs: every gated setter,
  \<open>pause\<close>, \<open>unpause\<close> and \<open>resolve_appeal\<close> return \<open>RequiresMultisig\<close> and leave the storage alone,
  whoever signs.
\<close>

theorem multisig_gates_admin:
  assumes "ms_config (v_multisig v) = Some cfg"
    and "s \<in> {SetSlashTiers mi ma cr, SetMinDuration n, SetMinStake x, SetCooldown n, SetAppealWindow n, SetQueueSize n,
      SetLockup n, SetPause, SetUnpause}"
  shows "setting_call ev s v = (Err RequiresMultisig, v) \<and> resolve_appeal ev tk sid b v = (Err RequiresMultisig, v)"
  using assms
  by (auto simp: unless_multisig_refuses configure_slash_tiers_def set_minimum_stake_duration_def set_minimum_stake_def
      set_withdrawal_cooldown_def set_appeal_window_def set_max_unstake_queue_size_def set_default_provider_lockup_def
      pause_def unpause_def resolve_appeal_def)

theorem multisig_gates_admin_witness:
  "setting_call example_ev SetPause example_proposed = (Err RequiresMultisig, example_proposed)"
  by (rule multisig_gates_admin [THEN conjunct1, of _ "\<lparr>signers = [1, 5], threshold = 2, proposal_timeout_secs = 100\<rparr>"])
    (auto simp: example_proposed_def)

definition setting_step :: "env \<times> setting_op \<Rightarrow> 'w vault \<Rightarrow> 'w vault" where
  "setting_step o1 v = snd (commit v (setting_call (fst o1) (snd o1) v))"

interpretation settings: invariant_system setting_step settings_valid settings_valid
proof
  fix v :: "'a vault" and o1
  assume "settings_valid v"
  then show "settings_valid (setting_step o1 v)"
    unfolding setting_step_def by (rule commit_inv) (use \<open>settings_valid v\<close> setting_call_settings in blast)
qed

lemma lock_multiplier_valid:
  assumes "\<forall>t \<in> set ts. tier_valid t"
  shows "lock_multiplier_bps_for_remaining ts r = 0 \<or>
    10000 \<le> lock_multiplier_bps_for_remaining ts r \<and> lock_multiplier_bps_for_remaining ts r \<le> MAX_LOCK_MULTIPLIER_BPS"
proof -
  let ?f = "\<lambda>w tier applicable. if lt_weeks tier \<le> w \<and> applicable < lt_bps tier then lt_bps tier else applicable"
  let ?P = "\<lambda>n. n = 0 \<or> 10000 \<le> n \<and> n \<le> MAX_LOCK_MULTIPLIER_BPS"
  have "?P (fold (?f w) ts n)" if "?P n" for w n
    using that assms by (induction ts arbitrary: n) (auto simp: tier_valid_def)
  from this [of 0] show ?thesis by (simp add: lock_multiplier_bps_for_remaining_def Let_def)
qed

text \<open>
  Settings stay valid and bound the voting power: whatever sequence of setting calls is made,
  by whoever and with whatever outcome, valid settings stay valid; under them the voting power of
  an account with a stake is the balance once the lock has ended and otherwise zero or between one
  and a hundred times the balance, as long as the hundredfold balance is an \<open>i128\<close>.
\<close>

theorem voting_power_bounds:
  assumes "settings_valid v" "vault_inv v" "u = fold setting_step ops v"
    "in_i128 (get_stake u st * 1000000)" "p = get_voting_power ev u st"
  shows "settings_valid u \<and> (p = 0 \<or> get_stake u st \<le> p \<and> p \<le> 100 * get_stake u st) \<and>
    (\<forall>info. sget (v_stakes u) st = Some info \<longrightarrow> locked_until info \<le> ev_timestamp ev \<longrightarrow> p = balance info)"
proof -
  have valid: "settings_valid u" using assms(1,3) settings.run_inv by blast
  have "money u = money v"
    unfolding assms(3)
  proof (induction ops arbitrary: v)
    case (Cons o1 ops)
    have "money (setting_step o1 v) = money v"
      unfolding setting_step_def by (rule commit_inv) (auto dest: setting_call_money)
    then show ?case using Cons by simp
  qed simp
  then have nn: "0 \<le> get_stake u st" using money_cong(1) [of u v] assms(2) vault_invD(4) by blast
  have scaled: "get_stake u st \<le> apply_multiplier_bps (get_stake u st) b \<and>
      apply_multiplier_bps (get_stake u st) b \<le> 100 * get_stake u st"
    if b: "10000 \<le> b" "b \<le> MAX_LOCK_MULTIPLIER_BPS" for b
  proof -
    let ?s = "get_stake u st"
    have le: "?s * int b \<le> ?s * 1000000" "?s * 10000 \<le> ?s * int b"
      using nn b by (auto intro!: mult_left_mono simp: MAX_LOCK_MULTIPLIER_BPS_def)
    then have "in_i128 (?s * int b)" using in_i128_between [OF assms(4)] nn by simp
    then have e: "apply_multiplier_bps ?s b = ?s * int b div 10000" by (rule apply_multiplier_bps_exact [OF nn])
    have "?s * int b div 10000 \<le> ?s * 1000000 div 10000" by (rule zdiv_mono1 [OF le(1)]) simp
    moreover have "?s * 10000 div 10000 \<le> ?s * int b div 10000" by (rule zdiv_mono1 [OF le(2)]) simp
    ultimately show ?thesis unfolding e by simp
  qed
  have "p = 0 \<or> get_stake u st \<le> p \<and> p \<le> 100 * get_stake u st"
  proof (cases "sget (v_stakes u) st")
    case (Some info)
    let ?b = "lock_multiplier_bps_for_remaining (get_lock_multiplier_tiers u) (locked_until info - ev_timestamp ev)"
    have bal: "get_stake u st = balance info" using Some by (simp add: get_stake_def)
    have "p \<in> {0, balance info} \<or> ?b \<noteq> 0 \<and> p = apply_multiplier_bps (balance info) ?b"
      using Some assms(5) by (auto simp: get_voting_power_def Let_def)
    moreover have "?b = 0 \<or> 10000 \<le> ?b \<and> ?b \<le> MAX_LOCK_MULTIPLIER_BPS"
      by (rule lock_multiplier_valid) (use valid in \<open>simp add: settings_valid_def\<close>)
    ultimately show ?thesis using scaled [of ?b] nn bal by auto
  qed (use assms(5) in \<open>simp add: get_voting_power_def\<close>)
  then show ?thesis using valid assms(5) by (auto simp: get_voting_power_def)
qed

theorem voting_power_bounds_witness:
  "settings_valid (fold setting_step [(example_ev, SetLockTier 2 15000)] example_vault)"
proof -
  let ?u = "fold setting_step [(example_ev, SetLockTier 2 15000)] example_vault"
  have v: "settings_valid example_vault"
    by (simp add: settings_valid_def example_vault_def empty_config_def empty_vault_def get_lock_multiplier_tiers_def
        default_lock_multiplier_tiers_def tier_valid_def MAX_LOCK_MULTIPLIER_BPS_def)
  have "get_stake ?u 3 = 1000"
    by (simp add: setting_step_def set_lock_multiplier_tier_def with_admin_def Let_def MAX_LOCK_MULTIPLIER_BPS_def
        get_lock_multiplier_tiers_def default_lock_multiplier_tiers_def example_vault_def empty_vault_def empty_config_def
        example_ev_def get_stake_def)
  then have "in_i128 (get_stake ?u 3 * 1000000)" by (simp add: in_i128_def i128_min_def i128_max_def)
  moreover have "vault_inv example_vault" using example_vault_solvent by (simp add: vault_solvent_def)
  ultimately show ?thesis using voting_power_bounds [OF v _ refl _ refl] by blast
qed

end
