(* ===== verification/EmergencyUnstake.thy ===== *)
theory EmergencyUnstake
  imports VaultSlash
begin

text \<open>
  \<open>stake_vault/src/emergency_unstake.rs\<close> and its entry points: the early unstake that N of M admins
  approve, with a penalty, a timeout and a cooldown per account.
\<close>

definition get_emergency_request :: "'w vault \<Rightarrow> addr \<Rightarrow> EmergencyRequest option" where
  "get_emergency_request v staker = sget (em_requests (v_emergency v)) staker"

definition save_request :: "EmergencyRequest \<Rightarrow> 'w vault \<Rightarrow> 'w vault" where
  "save_request req v =
     v\<lparr>v_emergency := (v_emergency v)\<lparr>em_requests := sset (er_staker req) req (em_requests (v_emergency v))\<rparr>\<rparr>"

definition remove_request :: "addr \<Rightarrow> 'w vault \<Rightarrow> 'w vault" where
  "remove_request staker v =
     v\<lparr>v_emergency := (v_emergency v)\<lparr>em_requests := sdel staker (em_requests (v_emergency v))\<rparr>\<rparr>"

definition set_last_unstake_at :: "addr \<Rightarrow> nat \<Rightarrow> 'w vault \<Rightarrow> 'w vault" where
  "set_last_unstake_at staker ts v =
     v\<lparr>v_emergency := (v_emergency v)\<lparr>em_last := sset staker ts (em_last (v_emergency v))\<rparr>\<rparr>"

definition cooldown_remaining_secs :: "env \<Rightarrow> 'w vault \<Rightarrow> addr \<Rightarrow> nat" where
  "cooldown_remaining_secs ev v staker =
     (let cooldown = opt_or 0 (em_cooldown (v_emergency v))
      in if cooldown = 0 then 0
         else case sget (em_last (v_emergency v)) staker of
           None \<Rightarrow> 0
         | Some last_at \<Rightarrow> u64_sat_add last_at cooldown - ev_timestamp ev)"

definition configure_emergency_multisig ::
  "env \<Rightarrow> addr \<Rightarrow> addr list \<Rightarrow> nat \<Rightarrow> nat \<Rightarrow> nat \<Rightarrow> 'w vault \<Rightarrow> ('w, unit) vault_call" where
  "configure_emergency_multisig ev caller admins required penalty_bps timeout_secs v =
     (if \<not> ev_auth ev caller then (Panic, v)
      else case vc_admin (v_config v) of
        None \<Rightarrow> (Err NotInitialized, v)
      | Some admin \<Rightarrow>
          if caller \<noteq> admin then (Err StakeVaultError.Unauthorized, v)
          else if required = 0 \<or> length admins < required then (Err InvalidMultiSigConfig, v)
          else if 10000 < penalty_bps then (Err InvalidEmergencyPenalty, v)
          else (Ok (), v\<lparr>v_emergency := (v_emergency v)\<lparr>em_config :=
                 Some \<lparr>em_admins = admins, em_required = required, em_penalty_bps = penalty_bps,
                       em_timeout_secs = timeout_secs\<rparr>\<rparr>\<rparr>))"

definition set_emergency_cooldown :: "env \<Rightarrow> addr \<Rightarrow> nat \<Rightarrow> 'w vault \<Rightarrow> ('w, unit) vault_call" where
  "set_emergency_cooldown ev caller secs v =
     (if \<not> ev_auth ev caller then (Panic, v)
      else case vc_admin (v_config v) of
        None \<Rightarrow> (Err NotInitialized, v)
      | Some admin \<Rightarrow>
          if caller \<noteq> admin then (Err StakeVaultError.Unauthorized, v)
          else (Ok (), v\<lparr>v_emergency := (v_emergency v)\<lparr>em_cooldown := Some secs\<rparr>\<rparr>))"

definition request_emergency_unstake :: "env \<Rightarrow> addr \<Rightarrow> 'w vault \<Rightarrow> ('w, unit) vault_call" where
  "request_emergency_unstake ev staker v =
     (if \<not> ev_auth ev staker then (Panic, v)
      else case em_config (v_emergency v) of
        None \<Rightarrow> (Err EmergencyNotConfigured, v)
      | Some _ \<Rightarrow>
          if get_emergency_request v staker \<noteq> None then (Err EmergencyRequestAlreadyExists, v)
          else if 0 < cooldown_remaining_secs ev v staker then (Err EmergencyCooldownActive, v)
          else (Ok (), save_request \<lparr>er_staker = staker, er_requested_at = ev_timestamp ev, er_approvals = []\<rparr> v))"

definition penalty_of :: "int \<Rightarrow> nat \<Rightarrow> int" where
  "penalty_of gross bps = min (apply_multiplier_bps gross bps) gross"

text \<open>The stake is zeroed first; the burn and the transfer trap when the token refuses them.\<close>

definition execute_early_unstake ::
  "env \<Rightarrow> 'w token_if \<Rightarrow> addr \<Rightarrow> addr \<Rightarrow> nat \<Rightarrow> 'w vault \<Rightarrow> ('w, unit) vault_call" where
  "execute_early_unstake ev tk staker tok penalty_bps v =
     (case sget (v_stakes v) staker of
        None \<Rightarrow> (Err NoStake, v)
      | Some info \<Rightarrow>
          if balance info = 0 then (Err NoStake, v)
          else and_then (require_lockup_released ev staker v) (\<lambda>_ v.
            let gross = balance info;
                penalty = penalty_of gross penalty_bps;
                net = saturating_sub gross penalty;
                v = put_stake staker \<lparr>balance = 0, locked_until = 0, last_updated = ev_timestamp ev\<rparr> v;
                call = (\<lambda>f v. zoom v_world (\<lambda>w v. v\<lparr>v_world := w\<rparr>) f v)
            in and_then (if 0 < penalty then call (must_burn tk tok (ev_self ev) penalty) v else (Ok (), v)) (\<lambda>_ v.
                 if 0 < net then call (must_transfer tk tok (ev_self ev) staker net) v else (Ok (), v))))"

definition approve_emergency_unstake ::
  "env \<Rightarrow> 'w token_if \<Rightarrow> addr \<Rightarrow> addr \<Rightarrow> 'w vault \<Rightarrow> ('w, unit) vault_call" where
  "approve_emergency_unstake ev tk signer staker v =
     (if \<not> ev_auth ev signer then (Panic, v)
      else case stake_token v of
        None \<Rightarrow> (Err NotInitialized, v)
      | Some tok \<Rightarrow>
      (case em_config (v_emergency v) of
        None \<Rightarrow> (Err EmergencyNotConfigured, v)
      | Some cfg \<Rightarrow>
          if signer \<notin> set (em_admins cfg) then (Err StakeVaultError.Unauthorized, v)
          else case get_emergency_request v staker of
            None \<Rightarrow> (Err EmergencyRequestNotFound, v)
          | Some req \<Rightarrow>
              let now = ev_timestamp ev
              in if 0 < em_timeout_secs cfg \<and> u64_sat_add (er_requested_at req) (em_timeout_secs cfg) < now
                 then (Err EmergencyRequestExpired, remove_request staker v)
                 else if signer \<in> set (er_approvals req) then (Err StakeVaultError.AlreadyApproved, v)
                 else let req = req\<lparr>er_approvals := er_approvals req @ [signer]\<rparr>
                      in if em_required cfg \<le> length (er_approvals req)
                         then and_then (execute_early_unstake ev tk staker tok (em_penalty_bps cfg) v) (\<lambda>_ v.
                                (Ok (), set_last_unstake_at staker now (remove_request staker v)))
                         else (Ok (), save_request req v)))"

definition expire_emergency_request :: "env \<Rightarrow> addr \<Rightarrow> 'w vault \<Rightarrow> ('w, unit) vault_call" where
  "expire_emergency_request ev staker v =
     (case em_config (v_emergency v) of
        None \<Rightarrow> (Err EmergencyNotConfigured, v)
      | Some cfg \<Rightarrow>
      (case get_emergency_request v staker of
        None \<Rightarrow> (Err EmergencyRequestNotFound, v)
      | Some req \<Rightarrow>
          if em_timeout_secs cfg = 0 \<or> ev_timestamp ev \<le> u64_sat_add (er_requested_at req) (em_timeout_secs cfg)
          then (Err EmergencyRequestNotExpired, v)
          else (Ok (), remove_request staker v)))"

section \<open>The early unstake\<close>

lemma penalty_bounds: "0 \<le> gross \<Longrightarrow> 0 \<le> penalty_of gross bps \<and> penalty_of gross bps \<le> gross"
  by (simp add: penalty_of_def apply_multiplier_bps_nonneg)

lemma must_burn_world: "sep41 tk \<Longrightarrow> must_burn tk tok src x w = (Ok u, w') \<Longrightarrow>
    tk_balance tk a y w' = tk_balance tk a y w - (if a = tok \<and> y = src then x else 0)"
  by (simp add: must_burn_Ok sep41_burn)

lemma must_transfer_world: "sep41 tk \<Longrightarrow> must_transfer tk tok src dst x w = (Ok u, w') \<Longrightarrow>
    tk_balance tk a y w' = tk_balance tk a y w - (if a = tok \<and> y = src then x else 0) + (if a = tok \<and> y = dst then x else 0)"
  by (simp add: must_transfer_Ok sep41_transfer)

lemma optional_call_Ok:
  "(if b then zoom v_world (\<lambda>w v. v\<lparr>v_world := w\<rparr>) f v else (Ok (), v)) = (Ok u, v') \<longleftrightarrow>
     (\<exists>w. (if b then f (v_world v) else (Ok (), v_world v)) = (Ok (), w) \<and> v' = v\<lparr>v_world := w\<rparr>)"
  by (auto simp: zoom_eq)

lemma execute_early_unstake_Ok:
  assumes "sep41 tk" "vault_inv v" "get_stake v st \<le> i128_max" "execute_early_unstake ev tk st tok bps v = (Ok u, v')"
  shows "\<exists>info w. sget (v_stakes v) st = Some info \<and> 0 < balance info \<and>
    (\<forall>l. read_provider_lockup v st = Some l \<longrightarrow> end_ledger l < ev_sequence ev) \<and>
    v' = (put_stake st \<lparr>balance = 0, locked_until = 0, last_updated = ev_timestamp ev\<rparr> v)
           \<lparr>v_lockups := sdel st (v_lockups v), v_world := w\<rparr> \<and>
    (\<forall>a y. tk_balance tk a y w = tk_balance tk a y (v_world v)
       - (if a = tok \<and> y = ev_self ev then balance info else 0)
       + (if a = tok \<and> y = st then balance info - penalty_of (balance info) bps else 0))"
proof -
  from assms(4) obtain info where info: "sget (v_stakes v) st = Some info" "balance info \<noteq> 0"
    by (auto simp: execute_early_unstake_def split: option.splits if_splits)
  then have pos: "0 < balance info" using assms(2) by (fastforce simp: vault_inv_def sall_def)
  note pb = penalty_bounds [OF less_imp_le [OF pos], of bps]
  have net: "saturating_sub (balance info) (penalty_of (balance info) bps) = balance info - penalty_of (balance info) bps"
    using pb assms(3) info(1) by (auto simp: saturating_sub_def sat_i128_def i128_min_def get_stake_def)
  define v1 where "v1 = put_stake st \<lparr>balance = 0, locked_until = 0, last_updated = ev_timestamp ev\<rparr> (v\<lparr>v_lockups := sdel st (v_lockups v)\<rparr>)"
  have lock: "\<forall>l. read_provider_lockup v st = Some l \<longrightarrow> end_ledger l < ev_sequence ev"
    and calls: "and_then (if 0 < penalty_of (balance info) bps
        then zoom v_world (\<lambda>w v. v\<lparr>v_world := w\<rparr>) (must_burn tk tok (ev_self ev) (penalty_of (balance info) bps)) v1
        else (Ok (), v1))
      (\<lambda>_ v. if 0 < balance info - penalty_of (balance info) bps
        then zoom v_world (\<lambda>w v. v\<lparr>v_world := w\<rparr>) (must_transfer tk tok (ev_self ev) st (balance info - penalty_of (balance info) bps)) v
        else (Ok (), v)) = ((Ok () :: (StakeVaultError, unit) res), v')"
    using assms(4) info
    by (auto simp: execute_early_unstake_def and_then_Ok [of "require_lockup_released ev st v"] require_lockup_released_eq
        Let_def net v1_def put_stake_def)
  have wv: "v_world v1 = v_world v" by (simp add: v1_def put_stake_def)
  from calls obtain w1 w where w1: "(if 0 < penalty_of (balance info) bps
      then must_burn tk tok (ev_self ev) (penalty_of (balance info) bps) (v_world v)
      else (Ok (), v_world v)) = ((Ok () :: (StakeVaultError, unit) res), w1)"
    and w: "(if 0 < balance info - penalty_of (balance info) bps
      then must_transfer tk tok (ev_self ev) st (balance info - penalty_of (balance info) bps) w1
      else (Ok (), w1)) = ((Ok () :: (StakeVaultError, unit) res), w)"
    and v': "v' = v1\<lparr>v_world := w\<rparr>"
    unfolding and_then_Ok optional_call_Ok wv by (auto simp del: diff_gt_0_iff_gt cong: if_cong)
  have "tk_balance tk a y w1 = tk_balance tk a y (v_world v) - (if a = tok \<and> y = ev_self ev then penalty_of (balance info) bps else 0)" for a y
  proof (cases "0 < penalty_of (balance info) bps")
    case True
    then have "must_burn tk tok (ev_self ev) (penalty_of (balance info) bps) (v_world v) = ((Ok () :: (StakeVaultError, unit) res), w1)"
      using w1 by simp
    from must_burn_world [OF assms(1) this] show ?thesis .
  qed (use w1 pb in auto)
  moreover have "tk_balance tk a y w = tk_balance tk a y w1
      - (if a = tok \<and> y = ev_self ev then balance info - penalty_of (balance info) bps else 0)
      + (if a = tok \<and> y = st then balance info - penalty_of (balance info) bps else 0)" for a y
  proof (cases "0 < balance info - penalty_of (balance info) bps")
    case True
    then have "must_transfer tk tok (ev_self ev) st (balance info - penalty_of (balance info) bps) w1 =
        ((Ok () :: (StakeVaultError, unit) res), w)"
      using w by simp
    from must_transfer_world [OF assms(1) this] show ?thesis .
  qed (use w pb in auto)
  ultimately show ?thesis
    using info(1) pos lock v' by (intro exI [of _ info] exI [of _ w]) (auto simp: v1_def put_stake_def)
qed

lemma execute_early_unstake_covered:
  assumes "vault_solvent tk (ev_self ev) v" "stake_token v = Some tok" "execute_early_unstake ev tk st tok bps v = (Ok u, v')"
  shows "covered tk (ev_self ev) v v'"
proof -
  have sep: "sep41 tk" and inv: "vault_inv v" using assms(1) by (simp_all add: vault_solvent_def)
  have "get_stake v st \<le> i128_max"
    using stake_le_total [OF inv, of st] solvent_bound [OF assms(1,2)] vault_invD(2,3) [OF inv] by (simp add: core_liability_def)
  from execute_early_unstake_Ok [OF sep inv this assms(3)] obtain info w where e:
    "sget (v_stakes v) st = Some info" "0 < balance info"
    "v' = (put_stake st \<lparr>balance = 0, locked_until = 0, last_updated = ev_timestamp ev\<rparr> v)
           \<lparr>v_lockups := sdel st (v_lockups v), v_world := w\<rparr>"
    and bal: "\<And>a y. tk_balance tk a y w = tk_balance tk a y (v_world v)
       - (if a = tok \<and> y = ev_self ev then balance info else 0)
       + (if a = tok \<and> y = st then balance info - penalty_of (balance info) bps else 0)"
    by blast
  have pb: "penalty_of (balance info) bps \<le> balance info" using penalty_bounds e(2) by simp
  show ?thesis
    by (rule stake_moved [OF assms(1,2) order_refl, where st = st and w = w])
      (use e bal pb in \<open>auto simp: put_stake_def stake_token_def get_stake_def\<close>)
qed

lemma money_requests [simp]:
  "money (save_request q v) = money v" "money (remove_request st v) = money v" "money (set_last_unstake_at st t v) = money v"
  by (simp_all add: save_request_def remove_request_def set_last_unstake_at_def)

text \<open>An approval is recorded, or it is the one that completes the quorum and the unstake runs.\<close>

lemma approve_emergency_Ok:
  assumes "approve_emergency_unstake ev tk signer st v = (Ok u, v')"
  obtains cfg req tok where "ev_auth ev signer" "stake_token v = Some tok" "em_config (v_emergency v) = Some cfg"
    "signer \<in> set (em_admins cfg)" "get_emergency_request v st = Some req"
    "em_timeout_secs cfg = 0 \<or> ev_timestamp ev \<le> u64_sat_add (er_requested_at req) (em_timeout_secs cfg)"
    "signer \<notin> set (er_approvals req)"
    "(Suc (length (er_approvals req)) < em_required cfg \<and> v' = save_request (req\<lparr>er_approvals := er_approvals req @ [signer]\<rparr>) v) \<or>
     (em_required cfg \<le> Suc (length (er_approvals req)) \<and>
       (\<exists>t. execute_early_unstake ev tk st tok (em_penalty_bps cfg) v = (Ok (), t) \<and>
         v' = set_last_unstake_at st (ev_timestamp ev) (remove_request st t)))"
proof -
  from assms obtain cfg req tok where c: "ev_auth ev signer" "stake_token v = Some tok" "em_config (v_emergency v) = Some cfg"
    "signer \<in> set (em_admins cfg)" "get_emergency_request v st = Some req"
    "\<not> (0 < em_timeout_secs cfg \<and> u64_sat_add (er_requested_at req) (em_timeout_secs cfg) < ev_timestamp ev)"
    "signer \<notin> set (er_approvals req)"
    by (auto simp: approve_emergency_unstake_def Let_def split: if_splits option.splits)
  show thesis
    by (rule that [OF c(1-5) _ c(7)])
      (use c assms in \<open>auto simp: approve_emergency_unstake_def Let_def and_then_Ok not_le split: if_splits\<close>)
qed

lemma approve_emergency_covered:
  assumes "vault_solvent tk (ev_self ev) v" "approve_emergency_unstake ev tk signer st v = (Ok u, v')"
  shows "covered tk (ev_self ev) v v'"
  using assms(2)
proof (rule approve_emergency_Ok)
  fix cfg req tok
  assume a: "stake_token v = Some tok"
    "(Suc (length (er_approvals req)) < em_required cfg \<and> v' = save_request (req\<lparr>er_approvals := er_approvals req @ [signer]\<rparr>) v) \<or>
     (em_required cfg \<le> Suc (length (er_approvals req)) \<and>
       (\<exists>t. execute_early_unstake ev tk st tok (em_penalty_bps cfg) v = (Ok (), t) \<and>
         v' = set_last_unstake_at st (ev_timestamp ev) (remove_request st t)))"
  from a(2) show ?thesis
  proof (elim disjE conjE exE)
    assume "v' = save_request (req\<lparr>er_approvals := er_approvals req @ [signer]\<rparr>) v"
    then have "money v' = money v" by simp
    then show ?thesis using assms(1) covered_money by blast
  next
    fix t
    assume t: "execute_early_unstake ev tk st tok (em_penalty_bps cfg) v = (Ok (), t)"
      "v' = set_last_unstake_at st (ev_timestamp ev) (remove_request st t)"
    then have "money v' = money t" by simp
    then show ?thesis using execute_early_unstake_covered [OF assms(1) a(1) t(1)] covered_money_right by blast
  qed
qed

section \<open>Properties\<close>

text \<open>The approvals a request collects are those of distinct admins.\<close>

definition emergency_inv :: "'w vault \<Rightarrow> bool" where
  "emergency_inv v \<longleftrightarrow> sall (\<lambda>st req. er_staker req = st \<and> distinct (er_approvals req)) (em_requests (v_emergency v))"

lemma emergency_inv_request:
  "emergency_inv v \<Longrightarrow> request_emergency_unstake ev st v = (r, v') \<Longrightarrow> emergency_inv v'"
  by (auto simp: request_emergency_unstake_def emergency_inv_def save_request_def split: if_splits option.splits)

lemma emergency_inv_approve:
  assumes "emergency_inv v" "approve_emergency_unstake ev tk signer st v = (Ok u, v')" "sep41 tk" "vault_inv v"
    "get_stake v st \<le> i128_max"
  shows "emergency_inv v'"
  using assms(2)
proof (rule approve_emergency_Ok)
  fix cfg req tok
  assume a: "get_emergency_request v st = Some req" "signer \<notin> set (er_approvals req)"
    "(Suc (length (er_approvals req)) < em_required cfg \<and> v' = save_request (req\<lparr>er_approvals := er_approvals req @ [signer]\<rparr>) v) \<or>
     (em_required cfg \<le> Suc (length (er_approvals req)) \<and>
       (\<exists>t. execute_early_unstake ev tk st tok (em_penalty_bps cfg) v = (Ok (), t) \<and>
         v' = set_last_unstake_at st (ev_timestamp ev) (remove_request st t)))"
  have req: "er_staker req = st" "distinct (er_approvals req)"
    using assms(1) a(1) by (auto simp: emergency_inv_def sall_def get_emergency_request_def)
  have "v_emergency t = v_emergency v" if "execute_early_unstake ev tk st tok b v = (Ok (), t)" for t b
    using execute_early_unstake_Ok [OF assms(3-5) that] by (auto simp: put_stake_def)
  then show ?thesis
    using a req assms(1) by (auto simp: emergency_inv_def save_request_def remove_request_def set_last_unstake_at_def)
qed

text \<open>
  (C37) An early unstake needs a quorum and takes the penalty. If an approval changes the staker's stake,
  then the signer is one of the configured admins, the approvals including this one come from at
  least the required number of distinct addresses, the request has not timed out, no slash or reward
  lockup is active, and the whole stake leaves: the staker receives it less the penalty, the penalty
  is burned, and it is never more than the stake.
\<close>

theorem emergency_needs_quorum:
  assumes "vault_solvent tk (ev_self ev) v" "emergency_inv v" "st \<noteq> ev_self ev"
    "approve_emergency_unstake ev tk signer st v = (Ok (), v')" "get_stake v' st \<noteq> get_stake v st"
    "stake_token v = Some tok" "em_config (v_emergency v) = Some cfg" "get_emergency_request v st = Some req"
  shows "signer \<in> set (em_admins cfg) \<and> em_required cfg \<le> card (insert signer (set (er_approvals req))) \<and>
    (em_timeout_secs cfg = 0 \<or> ev_timestamp ev \<le> u64_sat_add (er_requested_at req) (em_timeout_secs cfg)) \<and>
    (\<forall>l. read_provider_lockup v st = Some l \<longrightarrow> end_ledger l < ev_sequence ev) \<and> get_stake v' st = 0 \<and>
    0 \<le> penalty_of (get_stake v st) (em_penalty_bps cfg) \<and> penalty_of (get_stake v st) (em_penalty_bps cfg) \<le> get_stake v st \<and>
    tk_balance tk tok st (v_world v') =
      tk_balance tk tok st (v_world v) + get_stake v st - penalty_of (get_stake v st) (em_penalty_bps cfg) \<and>
    tk_balance tk tok (ev_self ev) (v_world v') = tk_balance tk tok (ev_self ev) (v_world v) - get_stake v st"
  using assms(4)
proof (rule approve_emergency_Ok)
  fix cfg' req' tok'
  assume a': "stake_token v = Some tok'" "em_config (v_emergency v) = Some cfg'" "signer \<in> set (em_admins cfg')"
    "get_emergency_request v st = Some req'"
    "em_timeout_secs cfg' = 0 \<or> ev_timestamp ev \<le> u64_sat_add (er_requested_at req') (em_timeout_secs cfg')"
    "signer \<notin> set (er_approvals req')"
    "(Suc (length (er_approvals req')) < em_required cfg' \<and> v' = save_request (req'\<lparr>er_approvals := er_approvals req' @ [signer]\<rparr>) v) \<or>
     (em_required cfg' \<le> Suc (length (er_approvals req')) \<and>
       (\<exists>t. execute_early_unstake ev tk st tok' (em_penalty_bps cfg') v = (Ok (), t) \<and>
         v' = set_last_unstake_at st (ev_timestamp ev) (remove_request st t)))"
  have [simp]: "tok' = tok" "cfg' = cfg" "req' = req" using a' assms(6-8) by auto
  have sep: "sep41 tk" and inv: "vault_inv v" using assms(1) by (simp_all add: vault_solvent_def)
  have "get_stake v st \<le> i128_max"
    using stake_le_total [OF inv, of st] solvent_bound [OF assms(1,6)] vault_invD(2,3) [OF inv] by (simp add: core_liability_def)
  note ex = execute_early_unstake_Ok [OF sep inv this]
  have "v' \<noteq> save_request (req\<lparr>er_approvals := er_approvals req @ [signer]\<rparr>) v"
    using assms(5) by (auto simp: save_request_def get_stake_def)
  then obtain t where n: "em_required cfg \<le> Suc (length (er_approvals req))"
    and t: "execute_early_unstake ev tk st tok (em_penalty_bps cfg) v = (Ok (), t)"
    and v': "v' = set_last_unstake_at st (ev_timestamp ev) (remove_request st t)"
    using a'(7) by auto
  from ex [OF t] obtain info w where e: "sget (v_stakes v) st = Some info" "0 < balance info"
    "\<forall>l. read_provider_lockup v st = Some l \<longrightarrow> end_ledger l < ev_sequence ev"
    "t = (put_stake st \<lparr>balance = 0, locked_until = 0, last_updated = ev_timestamp ev\<rparr> v)
           \<lparr>v_lockups := sdel st (v_lockups v), v_world := w\<rparr>"
    and bal: "\<And>a y. tk_balance tk a y w = tk_balance tk a y (v_world v)
       - (if a = tok \<and> y = ev_self ev then balance info else 0)
       + (if a = tok \<and> y = st then balance info - penalty_of (balance info) (em_penalty_bps cfg) else 0)"
    by blast
  have "distinct (er_approvals req)"
    using assms(2) a'(4) by (auto simp: emergency_inv_def sall_def get_emergency_request_def)
  then have "card (insert signer (set (er_approvals req))) = Suc (length (er_approvals req))"
    using a'(6) by (simp add: distinct_card)
  moreover have "get_stake v st = balance info" using e(1) by (simp add: get_stake_def)
  moreover have "v_world v' = w" "get_stake v' st = 0"
    using v' e(4) by (simp_all add: set_last_unstake_at_def remove_request_def put_stake_def get_stake_def)
  ultimately show ?thesis
    using a'(3,5) n e(2,3) bal assms(3) penalty_bounds [of "balance info" "em_penalty_bps cfg"] by simp
qed

definition example_emergency :: "ledger vault" where
  "example_emergency = example_vault\<lparr>v_emergency :=
     \<lparr>em_config = Some \<lparr>em_admins = [5, 6], em_required = 2, em_penalty_bps = 1000, em_timeout_secs = 0\<rparr>,
      em_requests = [(3, \<lparr>er_staker = 3, er_requested_at = 900, er_approvals = [5]\<rparr>)], em_cooldown = None, em_last = []\<rparr>\<rparr>"

theorem emergency_needs_quorum_witness:
  "\<exists>v'. approve_emergency_unstake example_ev ledger_token 6 3 example_emergency = (Ok (), v') \<and>
    tk_balance ledger_token 9 3 (v_world v') = 1400"
proof -
  let ?v = example_emergency
  have pen: "penalty_of 1000 1000 = 100" "saturating_sub 1000 100 = 900"
    by (simp_all add: penalty_of_def apply_multiplier_bps_def BPS_DENOMINATOR_def checked_div_def tdiv_def saturating_sub_def
        sat_i128_def vault_eval)
  have burn: "must_burn ledger_token 9 7 100 example_ledger = (Ok (), ledger_put 9 7 1300 example_ledger)"
    by (simp add: must_burn_def ledger_token_def ledger_burn_def ledger_balance_def example_ledger_def i128_max_def)
  have pay: "must_transfer ledger_token 9 7 3 900 (ledger_put 9 7 1300 example_ledger) =
      (Ok (), ledger_put 9 3 1400 (ledger_put 9 7 400 (ledger_put 9 7 1300 example_ledger)))"
    by (simp add: must_transfer_def ledger_token_def ledger_transfer_def ledger_balance_def ledger_put_def example_ledger_def i128_max_def)
  have st: "sget (v_stakes ?v) 3 = Some \<lparr>balance = 1000, locked_until = 0, last_updated = 0\<rparr>" "v_world ?v = example_ledger"
    "require_lockup_released example_ev 3 ?v = (Ok (), ?v)" "ev_self example_ev = 7"
    by (simp_all add: example_emergency_def require_lockup_released_def read_provider_lockup_def example_vault_def empty_vault_def
        example_ev_def)
  obtain t where "execute_early_unstake example_ev ledger_token 3 9 1000 ?v = (Ok (), t)" "get_stake t 3 = 0"
    by (simp add: execute_early_unstake_def st pen burn pay zoom_def Let_def put_stake_def get_stake_def)
  moreover have c: "em_config (v_emergency ?v) = Some \<lparr>em_admins = [5, 6], em_required = 2, em_penalty_bps = 1000, em_timeout_secs = 0\<rparr>"
    "get_emergency_request ?v 3 = Some \<lparr>er_staker = 3, er_requested_at = 900, er_approvals = [5]\<rparr>" "3 \<noteq> ev_self example_ev"
    and au: "ev_auth example_ev 6" "stake_token ?v = Some 9"
    by (simp_all add: example_emergency_def get_emergency_request_def example_ev_def stake_token_def example_vault_def)
  moreover have "get_stake (set_last_unstake_at x y (remove_request z t)) 3 = get_stake t 3" for x y z and t :: "ledger vault"
    by (simp add: get_stake_def set_last_unstake_at_def remove_request_def)
  ultimately obtain v' where v': "approve_emergency_unstake example_ev ledger_token 6 3 ?v = (Ok (), v')" and s: "get_stake v' 3 = 0"
    by (auto simp: approve_emergency_unstake_def Let_def)
  have "money ?v = money example_vault" by (simp add: example_emergency_def)
  then have sol: "vault_solvent ledger_token (ev_self example_ev) ?v"
    using money_cong(4) example_vault_solvent by (auto simp: example_ev_def)
  have inv: "emergency_inv ?v" by (simp add: emergency_inv_def example_emergency_def sall_def)
  have p: "stake_token ?v = Some 9" "get_stake ?v 3 = 1000" "tk_balance ledger_token 9 3 (v_world ?v) = 500"
    "penalty_of 1000 1000 = 100"
    by (simp_all add: example_emergency_def penalty_of_def apply_multiplier_bps_def BPS_DENOMINATOR_def checked_div_def tdiv_def
        vault_eval)
  show ?thesis
    using emergency_needs_quorum [OF sol inv c(3) v' _ p(1) c(1,2)] v' s p by auto
qed

text \<open>
  \<open>configure_emergency_multisig\<close> counts repeated admins towards the number it compares \<open>required\<close> with,
  but approvals are counted by distinct signer: a configuration with fewer distinct admins than
  required approvals is accepted, and under it no sequence of approvals by admins ever unstakes.
\<close>

theorem emergency_unreachable_quorum:
  assumes "emergency_inv v" "em_config (v_emergency v) = Some cfg" "card (set (em_admins cfg)) < em_required cfg"
    "get_emergency_request v st = Some req" "set (er_approvals req) \<subseteq> set (em_admins cfg)"
    "approve_emergency_unstake ev tk signer st v = (Ok (), v')"
  shows "v_stakes v' = v_stakes v \<and> v_world v' = v_world v"
  using assms(6)
proof (rule approve_emergency_Ok)
  fix cfg' req' tok'
  assume a': "em_config (v_emergency v) = Some cfg'" "signer \<in> set (em_admins cfg')"
    "get_emergency_request v st = Some req'" "signer \<notin> set (er_approvals req')"
    "(Suc (length (er_approvals req')) < em_required cfg' \<and> v' = save_request (req'\<lparr>er_approvals := er_approvals req' @ [signer]\<rparr>) v) \<or>
     (em_required cfg' \<le> Suc (length (er_approvals req')) \<and>
       (\<exists>t. execute_early_unstake ev tk st tok' (em_penalty_bps cfg') v = (Ok (), t) \<and>
         v' = set_last_unstake_at st (ev_timestamp ev) (remove_request st t)))"
  have [simp]: "cfg' = cfg" "req' = req" using a' assms(2,4) by auto
  have "distinct (er_approvals req)"
    using assms(1,4) by (auto simp: emergency_inv_def sall_def get_emergency_request_def)
  then have "card (insert signer (set (er_approvals req))) = Suc (length (er_approvals req))"
    using a'(4) by (simp add: distinct_card)
  moreover have "card (insert signer (set (er_approvals req))) \<le> card (set (em_admins cfg))"
    using assms(5) a'(2) by (intro card_mono) auto
  ultimately have "v' = save_request (req\<lparr>er_approvals := er_approvals req @ [signer]\<rparr>) v"
    using a'(5) assms(3) by auto
  then show ?thesis by (simp add: save_request_def)
qed

theorem emergency_unreachable_quorum_witness:
  "\<exists>v v'. configure_emergency_multisig example_ev 1 [5, 5] 2 0 0 example_emergency = (Ok (), v) \<and>
    approve_emergency_unstake example_ev ledger_token 5 3
      (save_request \<lparr>er_staker = 3, er_requested_at = 900, er_approvals = []\<rparr> v) = (Ok (), v') \<and> v_stakes v' = v_stakes v"
proof -
  obtain v where v: "configure_emergency_multisig example_ev 1 [5, 5] 2 0 0 example_emergency = (Ok (), v)"
    and e: "v = example_emergency\<lparr>v_emergency := (v_emergency example_emergency)\<lparr>em_config :=
      Some \<lparr>em_admins = [5, 5], em_required = 2, em_penalty_bps = 0, em_timeout_secs = 0\<rparr>\<rparr>\<rparr>"
    by (simp add: configure_emergency_multisig_def example_emergency_def vault_eval)
  let ?u = "save_request \<lparr>er_staker = 3, er_requested_at = 900, er_approvals = []\<rparr> v"
  obtain v' where v': "approve_emergency_unstake example_ev ledger_token 5 3 ?u = (Ok (), v')"
    by (simp add: e approve_emergency_unstake_def example_emergency_def get_emergency_request_def save_request_def vault_eval)
  have "emergency_inv ?u" by (simp add: e emergency_inv_def save_request_def example_emergency_def sall_def)
  moreover have "em_config (v_emergency ?u) = Some \<lparr>em_admins = [5, 5], em_required = 2, em_penalty_bps = 0, em_timeout_secs = 0\<rparr>"
    "get_emergency_request ?u 3 = Some \<lparr>er_staker = 3, er_requested_at = 900, er_approvals = []\<rparr>"
    by (simp_all add: e save_request_def get_emergency_request_def)
  ultimately have "v_stakes v' = v_stakes ?u"
    using emergency_unreachable_quorum [OF _ _ _ _ _ v'] by simp
  moreover have "v_stakes ?u = v_stakes v" by (simp add: save_request_def)
  ultimately show ?thesis using v v' by auto
qed

end
