(* ===== verification/RewardVault.thy ===== *)
theory RewardVault
  imports VaultTypes
begin

text \<open>
  The multi-asset reward vault (\<open>stake_vault/src/reward_vault.rs\<close>): reward buckets of registered
  assets, per-provider balances, and the bounded all-or-nothing batch claim. The operations work on
  the module's storage and the world of the token contracts. What a provider can still claim of an
  asset is a liability of the vault in that asset.
\<close>

record RewardBucket =
  bk_id :: nat
  bk_provider :: addr
  bk_asset :: addr
  bk_amount :: int
  bk_epoch :: nat

datatype RewardVaultError =
    UnsupportedAsset | InvalidAmount | BatchSizeInvalid | BucketNotFound | NotBucketOwner | AlreadyClaimed
  | DuplicateBucket | Overflow | Token TokenFailure

record reward_vault =
  rv_supported :: "addr list"
  rv_deposited :: "(addr, int) smap"
  rv_balance :: "(addr \<times> addr, int) smap"
  rv_counter :: "nat option"
  rv_buckets :: "(nat, RewardBucket) smap"
  rv_claimed :: "(addr \<times> nat, bool) smap"

type_synonym ('w, 'a) reward_call = "(reward_vault \<times> 'w, RewardVaultError, 'a) outcome"

definition MAX_REWARD_BATCH :: nat where "MAX_REWARD_BATCH = 50"

section \<open>Operations\<close>

definition is_supported :: "reward_vault \<Rightarrow> addr \<Rightarrow> bool" where
  "is_supported s asset \<longleftrightarrow> asset \<in> set (rv_supported s)"

definition add_supported_asset :: "addr \<Rightarrow> reward_vault \<Rightarrow> reward_vault" where
  "add_supported_asset asset s =
     (if is_supported s asset then s else s\<lparr>rv_supported := rv_supported s @ [asset]\<rparr>)"

definition get_provider_reward_balance :: "reward_vault \<Rightarrow> addr \<Rightarrow> addr \<Rightarrow> int" where
  "get_provider_reward_balance s provider asset = sget_or 0 (rv_balance s) (provider, asset)"

definition get_asset_total_deposited :: "reward_vault \<Rightarrow> addr \<Rightarrow> int" where
  "get_asset_total_deposited s asset = sget_or 0 (rv_deposited s) asset"

definition put_bucket :: "addr \<Rightarrow> addr \<Rightarrow> int \<Rightarrow> nat \<Rightarrow> reward_vault \<Rightarrow> nat \<times> reward_vault" where
  "put_bucket provider asset amount epoch s =
     (let bucket_id = opt_or 0 (rv_counter s);
          b = \<lparr>bk_id = bucket_id, bk_provider = provider, bk_asset = asset, bk_amount = amount, bk_epoch = epoch\<rparr>
      in (bucket_id, s\<lparr>rv_counter := Some (u64_sat_add bucket_id 1), rv_buckets := sset bucket_id b (rv_buckets s)\<rparr>))"

definition deposit_bucket ::
  "env \<Rightarrow> 'w token_if \<Rightarrow> addr \<Rightarrow> addr \<Rightarrow> addr \<Rightarrow> int \<Rightarrow> nat \<Rightarrow> reward_vault \<times> 'w \<Rightarrow> ('w, nat) reward_call" where
  "deposit_bucket ev tk depositor provider asset amount epoch sw =
     (case sw of (s, w) \<Rightarrow>
      if \<not> is_supported s asset then (Err UnsupportedAsset, s, w)
      else if amount \<le> 0 then (Err InvalidAmount, s, w)
      else case put_bucket provider asset amount epoch s of (bucket_id, s) \<Rightarrow>
        let s = s\<lparr>rv_deposited := sset asset (saturating_add (get_asset_total_deposited s asset) amount) (rv_deposited s)\<rparr>;
            s = s\<lparr>rv_balance := sset (provider, asset)
                    (saturating_add (get_provider_reward_balance s provider asset) amount) (rv_balance s)\<rparr>
        in and_then (zoom snd (\<lambda>w sw. (fst sw, w)) (must_transfer tk asset depositor (ev_self ev) amount) (s, w))
             (\<lambda>_ sw. (Ok bucket_id, sw)))"

text \<open>The per-asset totals of a batch, in first-seen order; \<open>None\<close> when a sum leaves \<open>i128\<close>.\<close>

fun add_total :: "addr \<Rightarrow> int \<Rightarrow> (addr \<times> int) list \<Rightarrow> (addr \<times> int) list option" where
  "add_total asset x [] = Some [(asset, x)]"
| "add_total asset x ((a, t) # ts) =
     (if a = asset then map_option (\<lambda>n. (a, n) # ts) (checked_add t x)
      else map_option (\<lambda>us. (a, t) # us) (add_total asset x ts))"

text \<open>Phase 1: validate every id and total per asset, reading only.\<close>

fun total_batch ::
  "reward_vault \<Rightarrow> addr \<Rightarrow> nat list \<Rightarrow> nat list \<Rightarrow> (addr \<times> int) list \<Rightarrow> (RewardVaultError, (addr \<times> int) list) res" where
  "total_batch s provider seen [] totals = Ok totals"
| "total_batch s provider seen (bid # bids) totals =
     (if bid \<in> set seen then Err DuplicateBucket
      else case sget (rv_buckets s) bid of
        None \<Rightarrow> Err BucketNotFound
      | Some b \<Rightarrow>
          if bk_provider b \<noteq> provider then Err NotBucketOwner
          else if sget (rv_claimed s) (provider, bid) \<noteq> None then Err AlreadyClaimed
          else if bk_asset b \<notin> set (rv_supported s) then Err UnsupportedAsset
          else case add_total (bk_asset b) (bk_amount b) totals of
            None \<Rightarrow> Err Overflow
          | Some totals \<Rightarrow> total_batch s provider (seen @ [bid]) bids totals)"

fun new_balances :: "reward_vault \<Rightarrow> addr \<Rightarrow> (addr \<times> int) list \<Rightarrow> (RewardVaultError, (addr \<times> int) list) res" where
  "new_balances s provider [] = Ok []"
| "new_balances s provider ((asset, t) # ts) =
     (case checked_sub (get_provider_reward_balance s provider asset) t of
        None \<Rightarrow> Err Overflow
      | Some n \<Rightarrow> if n < 0 then Err Overflow
                  else res_then (new_balances s provider ts) (\<lambda>ns. Ok ((asset, n) # ns)))"

text \<open>Phase 2: commit the claimed flags and the balances, before any transfer.\<close>

definition commit_claims :: "addr \<Rightarrow> nat list \<Rightarrow> (addr \<times> int) list \<Rightarrow> reward_vault \<Rightarrow> reward_vault" where
  "commit_claims provider bids ns s =
     s\<lparr>rv_claimed := fold (\<lambda>bid. sset (provider, bid) True) bids (rv_claimed s),
       rv_balance := fold (\<lambda>(asset, n). sset (provider, asset) n) ns (rv_balance s)\<rparr>"

text \<open>Phase 3: one transfer per asset.\<close>

fun pay_totals :: "env \<Rightarrow> 'w token_if \<Rightarrow> addr \<Rightarrow> (addr \<times> int) list \<Rightarrow> 'w \<Rightarrow> ('w, RewardVaultError, unit) outcome" where
  "pay_totals ev tk provider [] w = (Ok (), w)"
| "pay_totals ev tk provider ((asset, t) # ts) w =
     (case try_transfer tk asset (ev_self ev) provider t w of
        (r, w) \<Rightarrow> and_then (map_err Token r, w) (\<lambda>_. pay_totals ev tk provider ts))"

definition batch_claim ::
  "env \<Rightarrow> 'w token_if \<Rightarrow> addr \<Rightarrow> nat list \<Rightarrow> reward_vault \<times> 'w \<Rightarrow> ('w, (addr \<times> int) list) reward_call" where
  "batch_claim ev tk provider bids sw =
     (case sw of (s, w) \<Rightarrow>
      if bids = [] \<or> MAX_REWARD_BATCH < length bids then (Err BatchSizeInvalid, s, w)
      else and_then (total_batch s provider [] bids [], s, w) (\<lambda>totals _.
        and_then (new_balances s provider totals, s, w) (\<lambda>ns _.
          and_then (zoom snd (\<lambda>w sw. (fst sw, w)) (pay_totals ev tk provider totals) (commit_claims provider bids ns s, w))
            (\<lambda>_ sw. (Ok totals, sw)))))"

section \<open>Claimable balances are a liability\<close>

definition rv_liability :: "reward_vault \<Rightarrow> addr \<Rightarrow> int" where
  "rv_liability s a = ssum (\<lambda>k x. if snd k = a then x else 0) (rv_balance s)"

definition rv_inv :: "reward_vault \<Rightarrow> bool" where
  "rv_inv s \<longleftrightarrow> swf (rv_balance s) \<and> sall (\<lambda>_ x. 0 \<le> x) (rv_balance s) \<and> swf (rv_claimed s) \<and> swf (rv_buckets s) \<and>
     sall (\<lambda>_ b. 0 < bk_amount b) (rv_buckets s)"

lemma rv_liability_nonneg: "rv_inv s \<Longrightarrow> 0 \<le> rv_liability s a"
  unfolding rv_liability_def by (rule ssum_nonneg) (auto simp: rv_inv_def sall_mem)

lemma balance_sset_sum:
  assumes "swf m"
  shows "ssum (\<lambda>k x. if snd k = a then x else 0) (sset (p, b) n m) =
    ssum (\<lambda>k x. if snd k = a then x else 0) m + (if b = a then n - sget_or 0 m (p, b) else 0)"
  using assms by (cases "sget m (p, b)") (auto simp: ssum_sset sget_or_def)

lemma deposit_bucket_Ok:
  "deposit_bucket ev tk d p a x e (s, w) = (Ok i, s', w') \<longleftrightarrow>
     is_supported s a \<and> 0 < x \<and> tk_transfer tk a d (ev_self ev) x w = CallOk w' \<and> i = opt_or 0 (rv_counter s) \<and>
     s' = s\<lparr>rv_counter := Some (u64_sat_add i 1),
            rv_buckets := sset i \<lparr>bk_id = i, bk_provider = p, bk_asset = a, bk_amount = x, bk_epoch = e\<rparr> (rv_buckets s),
            rv_deposited := sset a (saturating_add (get_asset_total_deposited s a) x) (rv_deposited s),
            rv_balance := sset (p, a) (saturating_add (get_provider_reward_balance s p a) x) (rv_balance s)\<rparr>"
  by (auto simp: deposit_bucket_def put_bucket_def Let_def and_then_Ok zoom_eq must_transfer_Ok get_asset_total_deposited_def
      get_provider_reward_balance_def)

lemma saturating_add_le: "0 \<le> a \<Longrightarrow> 0 \<le> b \<Longrightarrow> saturating_add a b \<le> a + b"
  by (auto simp: arith_defs)

lemma deposit_bucket_facts:
  assumes "rv_inv s" "sep41 tk" "d \<noteq> ev_self ev" "deposit_bucket ev tk d p a x e (s, w) = (Ok i, s', w')"
  shows "rv_inv s'" "tk_balance tk c (ev_self ev) w - rv_liability s c \<le> tk_balance tk c (ev_self ev) w' - rv_liability s' c"
    "tk_balance tk c (ev_self ev) w \<le> tk_balance tk c (ev_self ev) w'"
proof -
  note d = assms(4) [unfolded deposit_bucket_Ok]
  have nn: "0 \<le> get_provider_reward_balance s p a"
    using assms(1) by (simp add: rv_inv_def get_provider_reward_balance_def sall_sget_or)
  have "0 \<le> saturating_add (get_provider_reward_balance s p a) x" using nn d by (simp add: saturating_add_nonneg)
  then show "rv_inv s'" using assms(1) d by (auto simp: rv_inv_def)
  have sat: "saturating_add (get_provider_reward_balance s p a) x \<le> get_provider_reward_balance s p a + x"
    using nn d by (simp add: saturating_add_le)
  have "rv_liability s' c = rv_liability s c +
      (if a = c then saturating_add (get_provider_reward_balance s p a) x - get_provider_reward_balance s p a else 0)"
    using assms(1) d balance_sset_sum [of "rv_balance s" c p a]
    by (auto simp: rv_liability_def rv_inv_def get_provider_reward_balance_def)
  moreover have "tk_balance tk c (ev_self ev) w' = tk_balance tk c (ev_self ev) w + (if c = a then x else 0)"
    using sep41_transfer [OF assms(2), of a d "ev_self ev" x w w' c "ev_self ev"] d assms(3) by auto
  ultimately show "tk_balance tk c (ev_self ev) w - rv_liability s c \<le> tk_balance tk c (ev_self ev) w' - rv_liability s' c"
    "tk_balance tk c (ev_self ev) w \<le> tk_balance tk c (ev_self ev) w'"
    using sat d by auto
qed

section \<open>What a batch claim pays\<close>

text \<open>The sum of the listed buckets in one asset.\<close>

definition batch_sum :: "reward_vault \<Rightarrow> nat list \<Rightarrow> addr \<Rightarrow> int" where
  "batch_sum s bids a =
     sum_list (map (\<lambda>bid. case sget (rv_buckets s) bid of None \<Rightarrow> 0 | Some b \<Rightarrow> if bk_asset b = a then bk_amount b else 0) bids)"

lemma add_total_facts:
  assumes "add_total c x ts = Some us" "distinct (map fst ts)"
  shows "distinct (map fst us) \<and> fst ` set us = insert c (fst ` set ts) \<and>
    (\<forall>a. sget_or 0 us a = sget_or 0 ts a + (if a = c then x else 0))"
  using assms
proof (induction ts arbitrary: us)
  case (Cons p ts)
  obtain a t where p: "p = (a, t)" by fastforce
  show ?case
  proof (cases "a = c")
    case True
    then show ?thesis using Cons.prems p by (auto simp: sget_or_def checked_add_def split: if_splits)
  next
    case False
    with Cons.prems p obtain vs where vs: "add_total c x ts = Some vs" "us = (a, t) # vs" by auto
    from Cons.IH [OF vs(1)] Cons.prems(2) p vs(2) False show ?thesis
      by (auto simp: sget_or_def image_iff)
  qed
qed (auto simp: sget_or_def)

lemma total_batch_facts:
  assumes "total_batch s p seen bids ts = Ok us" "distinct (map fst ts)" "distinct seen"
  shows "distinct (map fst us) \<and> distinct (seen @ bids) \<and> (\<forall>a. sget_or 0 us a = sget_or 0 ts a + batch_sum s bids a) \<and>
    (\<forall>bid \<in> set bids. sget (rv_claimed s) (p, bid) = None \<and>
       (\<exists>b. sget (rv_buckets s) bid = Some b \<and> bk_provider b = p \<and> is_supported s (bk_asset b)))"
  using assms
proof (induction bids arbitrary: seen ts)
  case (Cons bid bids)
  then obtain b vs where b: "bid \<notin> set seen" "sget (rv_buckets s) bid = Some b" "bk_provider b = p"
    "sget (rv_claimed s) (p, bid) = None" "bk_asset b \<in> set (rv_supported s)"
    "add_total (bk_asset b) (bk_amount b) ts = Some vs" "total_batch s p (seen @ [bid]) bids vs = Ok us"
    by (auto split: if_splits option.splits)
  note t = add_total_facts [OF b(6) Cons.prems(2)]
  have "distinct (seen @ [bid])" using Cons.prems(3) b(1) by simp
  note ih = Cons.IH [OF b(7) conjunct1 [OF t] this]
  show ?case
    using ih t b by (auto simp: batch_sum_def is_supported_def)
qed (simp add: batch_sum_def)

lemma new_balances_facts:
  assumes "new_balances s p ts = Ok ns"
  shows "map fst ns = map fst ts \<and> (\<forall>(a, n) \<in> set ns. 0 \<le> n) \<and>
    (distinct (map fst ts) \<longrightarrow> (\<forall>a n. sget ns a = Some n \<longrightarrow> n = get_provider_reward_balance s p a - sget_or 0 ts a))"
  using assms
proof (induction ts arbitrary: ns)
  case (Cons pr ts)
  obtain a t where pr: "pr = (a, t)" by fastforce
  from Cons.prems pr obtain ms where ms: "new_balances s p ts = Ok ms" "0 \<le> get_provider_reward_balance s p a - t"
    "ns = (a, get_provider_reward_balance s p a - t) # ms"
    by (auto simp: res_then_Ok checked_sub_def split: if_splits)
  have "distinct (map fst ts) \<Longrightarrow> a \<notin> fst ` set ts \<Longrightarrow> sget ms c = Some n \<Longrightarrow> c \<noteq> a" for c n
    using Cons.IH [OF ms(1)] by (metis image_set map_of_eq_None_iff option.distinct(1))
  then show ?case using Cons.IH [OF ms(1)] ms pr by (auto simp: sget_or_def)
qed simp

lemma commit_balances:
  assumes "swf m" "sall (\<lambda>_ x. 0 \<le> x) m" "distinct (map fst ns)" "\<forall>(a, n) \<in> set ns. 0 \<le> n"
    "m' = fold (\<lambda>(asset, n). sset (p, asset) n) ns m"
  shows "swf m' \<and> sall (\<lambda>_ x. 0 \<le> x) m' \<and>
    (\<forall>q c. sget_or 0 m' (q, c) = (if q = p then opt_or (sget_or 0 m (q, c)) (sget ns c) else sget_or 0 m (q, c))) \<and>
    ssum (\<lambda>k x. if snd k = a then x else 0) m' =
      ssum (\<lambda>k x. if snd k = a then x else 0) m + (case sget ns a of None \<Rightarrow> 0 | Some n \<Rightarrow> n - sget_or 0 m (p, a))"
  using assms
proof (induction ns arbitrary: m)
  case (Cons pr ns)
  obtain b n where pr: "pr = (b, n)" by fastforce
  let ?m = "sset (p, b) n m"
  have absent: "sget ns b = None" using Cons.prems(3) pr by (auto simp: map_of_eq_None_iff)
  have "swf ?m \<and> sall (\<lambda>_ x. 0 \<le> x) ?m" using Cons.prems pr by auto
  note ih = Cons.IH [of ?m]
  have h: "swf m'" "sall (\<lambda>_ x. 0 \<le> x) m'"
    "\<And>q c. sget_or 0 m' (q, c) = (if q = p then opt_or (sget_or 0 ?m (q, c)) (sget ns c) else sget_or 0 ?m (q, c))"
    "ssum (\<lambda>k x. if snd k = a then x else 0) m' =
      ssum (\<lambda>k x. if snd k = a then x else 0) ?m + (case sget ns a of None \<Rightarrow> 0 | Some n \<Rightarrow> n - sget_or 0 ?m (p, a))"
    using ih Cons.prems pr by auto
  have "ssum (\<lambda>k x. if snd k = a then x else 0) ?m =
    ssum (\<lambda>k x. if snd k = a then x else 0) m + (if b = a then n - sget_or 0 m (p, b) else 0)"
    by (rule balance_sset_sum [OF Cons.prems(1)])
  then show ?case using h absent pr by (auto split: option.splits)
qed auto

lemma pay_totals_facts:
  assumes "sep41 tk" "pay_totals ev tk p ts w = (Ok u, w')" "distinct (map fst ts)"
  shows "tk_balance tk c (ev_self ev) w - sget_or 0 ts c \<le> tk_balance tk c (ev_self ev) w'"
  using assms
proof (induction ts arbitrary: w)
  case (Cons pr ts)
  obtain a t where pr: "pr = (a, t)" by fastforce
  from Cons.prems pr obtain w1 where w1: "tk_transfer tk a (ev_self ev) p t w = CallOk w1" "pay_totals ev tk p ts w1 = (Ok u, w')"
    by (auto simp: call_then_Ok try_transfer_Ok)
  have "sget ts a = None" using Cons.prems(3) pr by (auto simp: map_of_eq_None_iff)
  moreover have "0 \<le> t" by (rule sep41_amount(1) [OF assms(1) w1(1)])
  ultimately show ?case
    using Cons.IH [OF assms(1) w1(2)] Cons.prems(3) sep41_transfer [OF assms(1) w1(1), of c "ev_self ev"] pr
    by (auto simp: sget_or_def split: if_splits)
qed simp

lemma batch_claim_Ok:
  "batch_claim ev tk p bids (s, w) = (Ok ts, s', w') \<longleftrightarrow>
     bids \<noteq> [] \<and> length bids \<le> MAX_REWARD_BATCH \<and> total_batch s p [] bids [] = Ok ts \<and>
     (\<exists>ns. new_balances s p ts = Ok ns \<and> s' = commit_claims p bids ns s \<and> pay_totals ev tk p ts w = (Ok (), w'))"
  by (auto simp: batch_claim_def and_then_Ok zoom_eq)

lemma claimed_fold:
  "sget (fold (\<lambda>bid. sset (p, bid) True) bids m) (q, i) = (if q = p \<and> i \<in> set bids then Some True else sget m (q, i))"
  by (induction bids arbitrary: m) auto

lemma claimed_fold_swf: "swf m \<Longrightarrow> swf (fold (\<lambda>bid. sset (p, bid) True) bids m)"
  by (induction bids arbitrary: m) auto

lemma batch_claim_facts:
  assumes "rv_inv s" "sep41 tk" "batch_claim ev tk p bids (s, w) = (Ok ts, s', w')"
  shows "rv_inv s'" "tk_balance tk c (ev_self ev) w - rv_liability s c \<le> tk_balance tk c (ev_self ev) w' - rv_liability s' c"
    "rv_liability s' c = rv_liability s c - batch_sum s bids c"
    "get_provider_reward_balance s' q c = get_provider_reward_balance s q c - (if q = p then batch_sum s bids c else 0)"
    "sget_or 0 ts c = batch_sum s bids c"
proof -
  from assms(3) obtain ns where b: "total_batch s p [] bids [] = Ok ts" "new_balances s p ts = Ok ns"
    "s' = commit_claims p bids ns s" "pay_totals ev tk p ts w = (Ok (), w')"
    unfolding batch_claim_Ok by blast
  note t = total_batch_facts [OF b(1), simplified]
  note n = new_balances_facts [OF b(2)]
  show ts: "sget_or 0 ts c = batch_sum s bids c" for c using t by simp
  have d: "distinct (map fst ns)" using t n by simp
  have m: "swf (rv_balance s)" "sall (\<lambda>_ x. 0 \<le> x) (rv_balance s)" using assms(1) by (simp_all add: rv_inv_def)
  have n0: "\<forall>(a, n) \<in> set ns. 0 \<le> n" using n by blast
  note k = commit_balances [OF m d n0 refl, of p]
  have bal: "rv_balance s' = fold (\<lambda>(asset, n). sset (p, asset) n) ns (rv_balance s)" using b(3) by (simp add: commit_claims_def)
  show "rv_inv s'"
    using assms(1) k b(3) claimed_fold_swf by (auto simp: rv_inv_def bal commit_claims_def)
  have val: "opt_or (get_provider_reward_balance s p c) (sget ns c) = get_provider_reward_balance s p c - batch_sum s bids c" for c
  proof (cases "sget ns c")
    case None
    then have "sget ts c = None" using n by (metis list.set_map map_of_eq_None_iff)
    then have "batch_sum s bids c = 0" using ts [of c] by (simp add: sget_or_def)
    then show ?thesis using None by simp
  qed (use n t ts in auto)
  show "get_provider_reward_balance s' q c = get_provider_reward_balance s q c - (if q = p then batch_sum s bids c else 0)"
    using k val [of c] unfolding get_provider_reward_balance_def bal by auto
  show l: "rv_liability s' c = rv_liability s c - batch_sum s bids c"
    using k [of c] val [of c] unfolding rv_liability_def bal get_provider_reward_balance_def by (auto split: option.splits)
  show "tk_balance tk c (ev_self ev) w - rv_liability s c \<le> tk_balance tk c (ev_self ev) w' - rv_liability s' c"
    using pay_totals_facts [OF assms(2) b(4), of c] t ts [of c] l by simp
qed

section \<open>Histories of the module\<close>

datatype 'w rv_op =
    RvAdd addr
  | RvDeposit env addr addr addr int nat
  | RvClaim env addr "nat list"
  | RvForeign 'w

fun rv_step :: "'w token_if \<Rightarrow> 'w rv_op \<Rightarrow> reward_vault \<times> 'w \<Rightarrow> reward_vault \<times> 'w" where
  "rv_step tk (RvAdd a) sw = (add_supported_asset a (fst sw), snd sw)"
| "rv_step tk (RvDeposit ev d p a x e) sw = snd (commit sw (deposit_bucket ev tk d p a x e sw))"
| "rv_step tk (RvClaim ev p bids) sw = snd (commit sw (batch_claim ev tk p bids sw))"
| "rv_step tk (RvForeign w) sw = (fst sw, w)"

definition rv_settled :: "addr \<Rightarrow> nat \<Rightarrow> reward_vault \<times> 'w \<Rightarrow> bool" where
  "rv_settled p i sw \<longleftrightarrow> sget (rv_claimed (fst sw)) (p, i) \<noteq> None"

definition rv_unclaimable :: "'w token_if \<Rightarrow> addr \<Rightarrow> nat \<Rightarrow> reward_vault \<times> 'w \<Rightarrow> bool" where
  "rv_unclaimable tk p i sw \<longleftrightarrow> (\<forall>ev bids ts sw'. i \<in> set bids \<longrightarrow> batch_claim ev tk p bids sw \<noteq> (Ok ts, sw'))"

lemma settled_unclaimable:
  assumes "rv_settled p i sw"
  shows "rv_unclaimable tk p i sw"
  unfolding rv_unclaimable_def
proof (intro allI impI notI)
  fix ev bids ts sw' assume i: "i \<in> set bids" and c: "batch_claim ev tk p bids sw = (Ok ts, sw')"
  obtain s w s' w' where sw: "sw = (s, w)" "sw' = (s', w')" by fastforce
  have "total_batch s p [] bids [] = Ok ts" using c unfolding sw batch_claim_Ok by blast
  from total_batch_facts [OF this, simplified] show False using i assms sw by (auto simp: rv_settled_def)
qed

lemma batch_claim_settles:
  assumes "batch_claim ev tk p bids sw = (Ok ts, sw')"
  shows "sget (rv_claimed (fst sw')) (q, i) = (if q = p \<and> i \<in> set bids then Some True else sget (rv_claimed (fst sw)) (q, i))"
proof -
  obtain s w s' w' where sw: "sw = (s, w)" "sw' = (s', w')" by fastforce
  show ?thesis using assms unfolding sw batch_claim_Ok by (auto simp: commit_claims_def claimed_fold)
qed

lemma deposit_bucket_claimed:
  assumes "deposit_bucket ev tk d q a x e sw = (Ok n, s', w')"
  shows "rv_claimed s' = rv_claimed (fst sw)"
proof -
  obtain s w where sw: "sw = (s, w)" by fastforce
  show ?thesis using assms unfolding sw deposit_bucket_Ok by simp
qed

interpretation claimed: invariant_system "rv_step tk" "rv_settled p i" "rv_unclaimable tk p i"
  for tk :: "'w token_if" and p i
proof
  fix sw :: "reward_vault \<times> 'w" and o1 assume inv: "rv_settled p i sw"
  show "rv_settled p i (rv_step tk o1 sw)"
  proof (cases o1)
    case (RvAdd a)
    then show ?thesis using inv by (simp add: rv_settled_def add_supported_asset_def)
  next
    case (RvDeposit ev d q a x e)
    show ?thesis unfolding RvDeposit rv_step.simps
      by (rule commit_inv [of "rv_settled p i"])
        (use inv in \<open>auto simp: rv_settled_def dest: deposit_bucket_claimed\<close>)
  next
    case (RvClaim ev q bids)
    show ?thesis unfolding RvClaim rv_step.simps
      by (rule commit_inv [of "rv_settled p i"])
        (use inv batch_claim_settles [of ev tk q bids sw _ _ p i] in \<open>auto simp: rv_settled_def\<close>)
  qed (use inv in \<open>simp add: rv_settled_def\<close>)
qed (rule settled_unclaimable)

section \<open>Properties\<close>

text \<open>
  A reward bucket is paid exactly once. After a successful batch claim no history of further
  deposits, claims, asset registrations and outside token movements lets the provider claim one of
  its buckets again.
\<close>

theorem reward_bucket_claimed_once:
  assumes "batch_claim ev tk p bids sw = (Ok ts, sw')" "i \<in> set bids" "i \<in> set bids'"
  shows "batch_claim ev' tk p bids' (fold (rv_step tk) ops sw') \<noteq> (Ok ts', sw'')"
proof -
  have "rv_settled p i sw'" using batch_claim_settles [OF assms(1), of p i] assms(2) by (simp add: rv_settled_def)
  then have "rv_unclaimable tk p i (fold (rv_step tk) ops sw')" by (rule claimed.run_safe)
  then show ?thesis using assms(3) unfolding rv_unclaimable_def by blast
qed

text \<open>
  A batch claim pays exactly what the buckets hold: it succeeds only for 1 to 50 distinct,
  unclaimed buckets of the caller in supported assets; per asset the payout is the sum of those
  buckets, the caller's claimable balance falls by exactly that sum and no other provider's does, and
  the vault's token balance falls by at most what its reward liabilities fall.
\<close>

theorem batch_claim_exact:
  assumes "rv_inv s" "sep41 tk" "batch_claim ev tk p bids (s, w) = (Ok ts, s', w')"
  shows "bids \<noteq> [] \<and> length bids \<le> MAX_REWARD_BATCH \<and> distinct bids \<and>
    (\<forall>bid \<in> set bids. sget (rv_claimed s) (p, bid) = None \<and>
       (\<exists>b. sget (rv_buckets s) bid = Some b \<and> bk_provider b = p \<and> is_supported s (bk_asset b))) \<and>
    (\<forall>a. sget_or 0 ts a = batch_sum s bids a) \<and>
    (\<forall>q a. get_provider_reward_balance s' q a = get_provider_reward_balance s q a - (if q = p then batch_sum s bids a else 0)) \<and>
    (\<forall>a. tk_balance tk a (ev_self ev) w - tk_balance tk a (ev_self ev) w' \<le> rv_liability s a - rv_liability s' a)"
proof -
  have b: "bids \<noteq> []" "length bids \<le> MAX_REWARD_BATCH" "total_batch s p [] bids [] = Ok ts"
    using assms(3) unfolding batch_claim_Ok by blast+
  note t = total_batch_facts [OF b(3), simplified]
  note f = batch_claim_facts [OF assms]
  have "tk_balance tk a (ev_self ev) w - tk_balance tk a (ev_self ev) w' \<le> rv_liability s a - rv_liability s' a" for a
    using f(2) [of a] by simp
  then show ?thesis using b t f(4,5) by blast
qed

text \<open>Account 3 has buckets 0 and 1 of 30 and 12 in asset 8.\<close>

definition example_reward_vault :: reward_vault where
  "example_reward_vault = \<lparr>rv_supported = [8], rv_deposited = [(8, 42)], rv_balance = [((3, 8), 42)], rv_counter = Some 2,
     rv_buckets = [(0, \<lparr>bk_id = 0, bk_provider = 3, bk_asset = 8, bk_amount = 30, bk_epoch = 1\<rparr>),
                   (1, \<lparr>bk_id = 1, bk_provider = 3, bk_asset = 8, bk_amount = 12, bk_epoch = 1\<rparr>)], rv_claimed = []\<rparr>"

definition example_reward_env :: env where
  "example_reward_env = \<lparr>ev_timestamp = 1000, ev_sequence = 10, ev_self = 7, ev_auth = (\<lambda>_. True), ev_auth_withdraw = (\<lambda>_ _. True)\<rparr>"

definition example_reward_world :: ledger where
  "example_reward_world = (\<lambda>t x. if t = 8 \<and> x = 7 then 42 else 0)"

lemma example_claim:
  "\<exists>s' w'. batch_claim example_reward_env ledger_token 3 [0, 1] (example_reward_vault, example_reward_world) = (Ok [(8, 42)], s', w')"
  by (simp add: batch_claim_def example_reward_vault_def MAX_REWARD_BATCH_def checked_add_def checked_sub_def in_i128_def
      i128_min_def i128_max_def get_provider_reward_balance_def sget_or_def zoom_def try_transfer_def example_reward_env_def
      example_reward_world_def ledger_token_def ledger_transfer_def ledger_balance_def ledger_put_def)

theorem reward_bucket_claimed_once_witness:
  "\<exists>sw'. batch_claim example_reward_env ledger_token 3 [0, 1] (example_reward_vault, example_reward_world) = (Ok [(8, 42)], sw') \<and>
    batch_claim example_reward_env ledger_token 3 [1] (fold (rv_step ledger_token) [RvAdd 9] sw') \<noteq> (Ok [(8, 12)], sw')"
proof -
  obtain s' w' where c: "batch_claim example_reward_env ledger_token 3 [0, 1] (example_reward_vault, example_reward_world) = (Ok [(8, 42)], s', w')"
    using example_claim by blast
  have "batch_claim example_reward_env ledger_token 3 [1] (fold (rv_step ledger_token) [RvAdd 9] (s', w')) \<noteq> (Ok [(8, 12)], s', w')"
    by (rule reward_bucket_claimed_once [OF c, of 1]) simp_all
  with c show ?thesis by blast
qed

theorem batch_claim_exact_witness:
  "\<exists>s' w'. batch_claim example_reward_env ledger_token 3 [0, 1] (example_reward_vault, example_reward_world) = (Ok [(8, 42)], s', w') \<and>
    get_provider_reward_balance s' 3 8 = 0"
proof -
  obtain s' w' where c: "batch_claim example_reward_env ledger_token 3 [0, 1] (example_reward_vault, example_reward_world) = (Ok [(8, 42)], s', w')"
    using example_claim by blast
  have inv: "rv_inv example_reward_vault" by (simp add: rv_inv_def example_reward_vault_def swf_def sall_def)
  have "get_provider_reward_balance s' 3 8 = get_provider_reward_balance example_reward_vault 3 8 - batch_sum example_reward_vault [0, 1] 8"
    using batch_claim_exact [OF inv sep41_ledger_token c] by simp
  then show ?thesis using c by (simp add: get_provider_reward_balance_def example_reward_vault_def sget_or_def batch_sum_def)
qed

end
