(* ===== verification/RewardDust.thy ===== *)
theory RewardDust
  imports VaultTypes
begin

text \<open>
  Reward dust (\<open>stake_vault/src/reward_dust.rs\<close>): sub-unit rounding remainders per asset, recorded in
  scaled units and paid out in whole units by the dust authority. The module states a conservation
  invariant; every operation keeps it.
\<close>

record reward_dust =
  rd_authority :: "addr option"
  rd_dust :: "(addr, int) smap"
  rd_recorded :: "(addr, int) smap"
  rd_reconciled :: "(addr, int) smap"

datatype DustError = Unauthorized | InvalidAmount | NothingToReconcile | Overflow

record DustTotals =
  dust_scaled :: int
  recorded_scaled :: int
  reconciled_units :: int

definition DUST_PRECISION :: int where "DUST_PRECISION = 10000000"

definition set_authority :: "addr \<Rightarrow> reward_dust \<Rightarrow> reward_dust" where
  "set_authority authority d = d\<lparr>rd_authority := Some authority\<rparr>"

definition totals :: "reward_dust \<Rightarrow> addr \<Rightarrow> DustTotals" where
  "totals d asset = \<lparr>dust_scaled = sget_or 0 (rd_dust d) asset, recorded_scaled = sget_or 0 (rd_recorded d) asset,
     reconciled_units = sget_or 0 (rd_reconciled d) asset\<rparr>"

definition is_conserved :: "reward_dust \<Rightarrow> addr \<Rightarrow> bool" where
  "is_conserved d asset \<longleftrightarrow>
     (let t = totals d asset
      in (case checked_mul (reconciled_units t) DUST_PRECISION of
            None \<Rightarrow> None
          | Some r \<Rightarrow> checked_add r (dust_scaled t)) = Some (recorded_scaled t))"

definition record_dust :: "addr \<Rightarrow> int \<Rightarrow> reward_dust \<Rightarrow> (reward_dust, DustError, DustTotals) outcome" where
  "record_dust asset scaled d =
     (if scaled \<le> 0 then (Err InvalidAmount, d)
      else let t = totals d asset
      in case checked_add (dust_scaled t) scaled of
        None \<Rightarrow> (Err Overflow, d)
      | Some dust \<Rightarrow>
          (case checked_add (recorded_scaled t) scaled of
             None \<Rightarrow> (Err Overflow, d)
           | Some recorded \<Rightarrow>
               let d = d\<lparr>rd_dust := sset asset dust (rd_dust d), rd_recorded := sset asset recorded (rd_recorded d)\<rparr>
               in (Ok (totals d asset), d)))"

definition reconcile ::
  "env \<Rightarrow> 'w token_if \<Rightarrow> addr \<Rightarrow> addr \<Rightarrow> addr \<Rightarrow> reward_dust \<times> 'w \<Rightarrow> (reward_dust \<times> 'w, DustError, int) outcome" where
  "reconcile ev tk caller asset recipient dw =
     (case dw of (d, w) \<Rightarrow>
      case rd_authority d of
        None \<Rightarrow> (Err Unauthorized, d, w)
      | Some authority \<Rightarrow>
          if caller \<noteq> authority then (Err Unauthorized, d, w)
          else if \<not> ev_auth ev caller then (Panic, d, w)
          else let before = totals d asset;
                   units = tdiv (dust_scaled before) DUST_PRECISION
          in if units = 0 then (Err NothingToReconcile, d, w)
             else let dust_after = dust_scaled before - units * DUST_PRECISION
             in case checked_add (reconciled_units before) units of
                  None \<Rightarrow> (Err Overflow, d, w)
                | Some reconciled \<Rightarrow>
                    let d = d\<lparr>rd_dust := sset asset dust_after (rd_dust d),
                              rd_reconciled := sset asset reconciled (rd_reconciled d)\<rparr>
                    in and_then (zoom snd (\<lambda>w dw. (fst dw, w)) (must_transfer tk asset (ev_self ev) recipient units) (d, w))
                         (\<lambda>_ dw. (Ok units, dw)))"

section \<open>Conservation\<close>

text \<open>Per asset: non-negative totals, and what was recorded is what is held plus what was paid out.\<close>

definition asset_conserved :: "DustTotals \<Rightarrow> bool" where
  "asset_conserved t \<longleftrightarrow> 0 \<le> dust_scaled t \<and> 0 \<le> reconciled_units t \<and>
     recorded_scaled t = dust_scaled t + reconciled_units t * DUST_PRECISION \<and> in_i128 (recorded_scaled t)"

definition dust_inv :: "reward_dust \<Rightarrow> bool" where
  "dust_inv d \<longleftrightarrow> (\<forall>a. asset_conserved (totals d a))"

definition dust_empty :: reward_dust where
  "dust_empty = \<lparr>rd_authority = None, rd_dust = [], rd_recorded = [], rd_reconciled = []\<rparr>"

lemma dust_inv_empty [simp]: "dust_inv dust_empty"
  by (simp add: dust_inv_def dust_empty_def totals_def asset_conserved_def)

lemma dust_inv_conserved:
  assumes "dust_inv d"
  shows "is_conserved d a"
proof -
  have t: "0 \<le> dust_scaled (totals d a)" "0 \<le> reconciled_units (totals d a)"
    "recorded_scaled (totals d a) = dust_scaled (totals d a) + reconciled_units (totals d a) * DUST_PRECISION"
    "in_i128 (recorded_scaled (totals d a))"
    using assms unfolding dust_inv_def asset_conserved_def by blast+
  have p: "0 \<le> reconciled_units (totals d a) * DUST_PRECISION" using t(2) by (simp add: DUST_PRECISION_def)
  then have "in_i128 (reconciled_units (totals d a) * DUST_PRECISION)"
    using in_i128_between [OF t(4)] t(1,3) by simp
  then show ?thesis using t p by (simp add: is_conserved_def Let_def checked_mul_def checked_add_def add.commute)
qed

lemma record_dust_Ok:
  "record_dust a x d = (Ok t, d') \<longleftrightarrow> 0 < x \<and> in_i128 (sget_or 0 (rd_dust d) a + x) \<and> in_i128 (sget_or 0 (rd_recorded d) a + x) \<and>
     d' = d\<lparr>rd_dust := sset a (sget_or 0 (rd_dust d) a + x) (rd_dust d),
            rd_recorded := sset a (sget_or 0 (rd_recorded d) a + x) (rd_recorded d)\<rparr> \<and> t = totals d' a"
  by (auto simp: record_dust_def Let_def totals_def checked_add_def)

lemma reconcile_Ok:
  "reconcile ev tk c a r (d, w) = (Ok u, d', w') \<longleftrightarrow> rd_authority d = Some c \<and> ev_auth ev c \<and>
     u = tdiv (sget_or 0 (rd_dust d) a) DUST_PRECISION \<and> u \<noteq> 0 \<and> in_i128 (sget_or 0 (rd_reconciled d) a + u) \<and>
     tk_transfer tk a (ev_self ev) r u w = CallOk w' \<and>
     d' = d\<lparr>rd_dust := sset a (sget_or 0 (rd_dust d) a - u * DUST_PRECISION) (rd_dust d),
            rd_reconciled := sset a (sget_or 0 (rd_reconciled d) a + u) (rd_reconciled d)\<rparr>"
  by (auto simp: reconcile_def Let_def totals_def checked_add_def and_then_Ok zoom_eq must_transfer_Ok split: option.splits if_splits)

lemma record_dust_inv:
  assumes "dust_inv d" "record_dust a x d = (Ok t, d')"
  shows "dust_inv d'"
proof -
  note k = assms(2) [unfolded record_dust_Ok]
  have a: "asset_conserved (totals d b)" for b using assms(1) by (simp add: dust_inv_def)
  have "asset_conserved (totals d' a)" using a [of a] k unfolding asset_conserved_def totals_def by simp
  moreover have "totals d' b = totals d b" if "b \<noteq> a" for b using k that by (simp add: totals_def)
  ultimately show ?thesis unfolding dust_inv_def using a by metis
qed

lemma reconcile_inv:
  assumes "dust_inv d" "reconcile ev tk c a r (d, w) = (Ok u, d', w')"
  shows "dust_inv d'" "0 < u" "u * DUST_PRECISION \<le> dust_scaled (totals d a)"
proof -
  note k = assms(2) [unfolded reconcile_Ok]
  have nn: "0 \<le> sget_or 0 (rd_dust d) a" using assms(1) by (simp add: dust_inv_def totals_def asset_conserved_def)
  have u: "u = sget_or 0 (rd_dust d) a div DUST_PRECISION" using k nn by (simp add: tdiv_nonneg DUST_PRECISION_def)
  then have "0 \<le> u" using nn by (simp add: DUST_PRECISION_def pos_imp_zdiv_nonneg_iff)
  then show "0 < u" using k by simp
  show le: "u * DUST_PRECISION \<le> dust_scaled (totals d a)"
    using u div_floor(1) [of DUST_PRECISION "sget_or 0 (rd_dust d) a"] by (simp add: totals_def DUST_PRECISION_def mult.commute)
  have c: "asset_conserved (totals d b)" for b using assms(1) by (simp add: dust_inv_def)
  have "asset_conserved (totals d' a)"
    using c [of a] k le \<open>0 < u\<close> unfolding asset_conserved_def totals_def by (auto simp: ring_distribs)
  moreover have "totals d' b = totals d b" if "b \<noteq> a" for b using k that by (simp add: totals_def)
  ultimately show "dust_inv d'" unfolding dust_inv_def using c by metis
qed

section \<open>Histories\<close>

datatype dust_op =
    DustAuthority addr
  | DustRecord addr int
  | DustReconcile env addr addr addr

fun dust_step :: "'w token_if \<Rightarrow> dust_op \<Rightarrow> reward_dust \<times> 'w \<Rightarrow> reward_dust \<times> 'w" where
  "dust_step tk (DustAuthority a) dw = (set_authority a (fst dw), snd dw)"
| "dust_step tk (DustRecord a x) dw = (snd (commit (fst dw) (record_dust a x (fst dw))), snd dw)"
| "dust_step tk (DustReconcile ev c a r) dw = snd (commit dw (reconcile ev tk c a r dw))"

interpretation dust: invariant_system "dust_step tk" "\<lambda>dw. dust_inv (fst dw)" "\<lambda>dw. \<forall>a. is_conserved (fst dw) a"
  for tk :: "'w token_if"
proof
  fix dw :: "reward_dust \<times> 'w" and o1 assume inv: "dust_inv (fst dw)"
  show "dust_inv (fst (dust_step tk o1 dw))"
  proof (cases o1)
    case (DustAuthority a)
    then show ?thesis using inv by (simp add: set_authority_def dust_inv_def totals_def)
  next
    case (DustRecord a x)
    have "dust_inv (snd (commit (fst dw) (record_dust a x (fst dw))))"
      by (rule commit_inv [of dust_inv]) (use inv record_dust_inv in auto)
    then show ?thesis using DustRecord by simp
  next
    case (DustReconcile ev c a r)
    obtain d w where dw: "dw = (d, w)" by fastforce
    have "dust_inv (fst (snd (commit dw (reconcile ev tk c a r dw))))"
      by (rule commit_inv [of "\<lambda>dw. dust_inv (fst dw)"]) (use inv reconcile_inv(1) dw in auto)
    then show ?thesis using DustReconcile by simp
  qed
qed (simp add: dust_inv_conserved)

text \<open>
  Reward dust is conserved: after every sequence of authority changes, records and
  reconciliations, successful or not, the module's own check \<open>is_conserved\<close> answers yes for every
  asset: what was recorded is what is still held plus what was paid out.
\<close>

theorem dust_conserved:
  "is_conserved (fst (fold (dust_step tk) ops (dust_empty, w))) asset"
  using dust.run_safe [of "(dust_empty, w)" tk ops] by simp

end
