(* ===== verification/SlashStrategy.thy ===== *)
theory SlashStrategy
  imports VaultTypes
begin

text \<open>
  Named slash strategies (\<open>stake_vault/src/slash_strategy.rs\<close>): validated thresholds per strategy, the
  list of registered names, and the slash amount under a strategy.
\<close>

record SlashStrategyConfig =
  ss_minor_bps :: nat
  ss_major_bps :: nat
  ss_critical_bps :: nat
  risk_window_secs :: nat
  penalty_window_secs :: nat

datatype SlashStrategyError = BpsOutOfRange | InvalidSeverityOrder | InvalidRiskWindow | StrategyNotFound

record slash_strategies =
  ss_names :: "symbol list"
  ss_configs :: "symbol \<Rightarrow> SlashStrategyConfig option"

definition validate :: "SlashStrategyConfig \<Rightarrow> (SlashStrategyError, unit) res" where
  "validate cfg =
     (if 10000 < ss_minor_bps cfg \<or> 10000 < ss_major_bps cfg \<or> 10000 < ss_critical_bps cfg then Err BpsOutOfRange
      else if ss_major_bps cfg < ss_minor_bps cfg \<or> ss_critical_bps cfg < ss_major_bps cfg then Err InvalidSeverityOrder
      else if risk_window_secs cfg = 0 then Err InvalidRiskWindow
      else Ok ())"

definition set_slash_strategy ::
  "symbol \<Rightarrow> SlashStrategyConfig \<Rightarrow> slash_strategies \<Rightarrow> (slash_strategies, SlashStrategyError, unit) outcome" where
  "set_slash_strategy name cfg s =
     and_then (validate cfg, s) (\<lambda>_ s.
       let s = (if name \<in> set (ss_names s) then s else s\<lparr>ss_names := ss_names s @ [name]\<rparr>)
       in (Ok (), s\<lparr>ss_configs := (ss_configs s)(name \<mapsto> cfg)\<rparr>))"

definition compute_slash_amount :: "slash_strategies \<Rightarrow> symbol \<Rightarrow> int \<Rightarrow> nat \<Rightarrow> (SlashStrategyError, int) res" where
  "compute_slash_amount s name bal severity =
     res_then (ok_or StrategyNotFound (ss_configs s name)) (\<lambda>cfg.
       let bps = (if severity = 0 then ss_minor_bps cfg else if severity = 1 then ss_major_bps cfg else ss_critical_bps cfg)
       in Ok (min (max (apply_multiplier_bps bal bps) (if 0 < bal then 1 else 0)) bal))"

text \<open>Registered are exactly the names with a configuration, each once, and every configuration is valid.\<close>

definition strategies_inv :: "slash_strategies \<Rightarrow> bool" where
  "strategies_inv s \<longleftrightarrow> distinct (ss_names s) \<and> (\<forall>n. n \<in> set (ss_names s) \<longleftrightarrow> ss_configs s n \<noteq> None) \<and>
     (\<forall>n c. ss_configs s n = Some c \<longrightarrow> validate c = Ok ())"

definition strategy_step :: "symbol \<times> SlashStrategyConfig \<Rightarrow> slash_strategies \<Rightarrow> slash_strategies" where
  "strategy_step o1 s = snd (commit s (set_slash_strategy (fst o1) (snd o1) s))"

text \<open>What the amounts of a valid strategy satisfy: they stay within the balance and grow with the severity.\<close>

definition graded :: "slash_strategies \<Rightarrow> bool" where
  "graded s \<longleftrightarrow> (\<forall>name bal x y. 0 \<le> bal \<longrightarrow> in_i128 bal \<longrightarrow>
     compute_slash_amount s name bal x \<in> {Err StrategyNotFound} \<union> Ok ` {(if 0 < bal then 1 else 0)..bal} \<and>
     (x \<le> y \<longrightarrow> (\<forall>a b. compute_slash_amount s name bal x = Ok a \<longrightarrow> compute_slash_amount s name bal y = Ok b \<longrightarrow> a \<le> b)))"

lemma apply_multiplier_bps_mono:
  assumes "0 \<le> bal" "b \<le> c"
  shows "apply_multiplier_bps bal b \<le> apply_multiplier_bps bal c"
proof -
  have le: "bal * int b \<le> bal * int c" using assms by (intro mult_left_mono) auto
  show ?thesis
  proof (cases "in_i128 (bal * int c)")
    case True
    then have "in_i128 (bal * int b)" using in_i128_between [OF True] le assms(1) by simp
    then show ?thesis using True assms(1) le by (simp add: apply_multiplier_bps_exact zdiv_mono1)
  next
    case False
    have "apply_multiplier_bps bal b \<le> i128_max"
    proof (cases "in_i128 (bal * int b)")
      case True
      then show ?thesis using assms(1) bps_quotient_bounds [of "bal * int b"]
        by (simp add: apply_multiplier_bps_exact in_i128_def)
    qed (simp add: apply_multiplier_bps_saturates)
    then show ?thesis using False by (simp add: apply_multiplier_bps_saturates)
  qed
qed

lemma strategies_graded:
  assumes "strategies_inv s"
  shows "graded s"
  unfolding graded_def
proof (intro allI impI conjI)
  fix name x y and bal :: int assume bal: "0 \<le> bal"
  let ?bps = "\<lambda>c sev. if sev = (0::nat) then ss_minor_bps c else if sev = 1 then ss_major_bps c else ss_critical_bps c"
  show "compute_slash_amount s name bal x \<in> {Err StrategyNotFound} \<union> Ok ` {(if 0 < bal then 1 else 0)..bal}"
    using bal by (cases "ss_configs s name") (auto simp: compute_slash_amount_def Let_def)
  fix a b assume xy: "x \<le> y" and a: "compute_slash_amount s name bal x = Ok a" and b: "compute_slash_amount s name bal y = Ok b"
  then obtain c where c: "ss_configs s name = Some c" by (auto simp: compute_slash_amount_def res_then_Ok ok_or_Ok)
  then have "validate c = Ok ()" using assms by (simp add: strategies_inv_def)
  then have "?bps c x \<le> ?bps c y" using xy by (auto simp: validate_def split: if_splits)
  from apply_multiplier_bps_mono [OF bal this] show "a \<le> b"
    using a b c by (auto simp: compute_slash_amount_def Let_def)
qed

interpretation strategies: invariant_system strategy_step strategies_inv graded
proof
  fix s o1 assume "strategies_inv s"
  then show "strategies_inv (strategy_step o1 s)"
    unfolding strategy_step_def
    by (intro commit_inv [of strategies_inv])
      (auto simp: set_slash_strategy_def and_then_Ok strategies_inv_def Let_def)
qed (rule strategies_graded)

definition no_strategies :: slash_strategies where
  "no_strategies = \<lparr>ss_names = [], ss_configs = (\<lambda>_. None)\<rparr>"

text \<open>
  Whatever strategies are set, in whatever order: registered names and stored configurations
  agree, each name is listed once, the slash amount of a non-negative balance is at least one unit
  of a positive balance and never more than the balance, and a higher severity never slashes less.
\<close>

theorem slash_strategies_graded:
  assumes "s = fold strategy_step ops no_strategies" "0 \<le> bal" "in_i128 bal"
    and "compute_slash_amount s name bal x = Ok a" "compute_slash_amount s name bal y = Ok b" "x \<le> y"
  shows "(if 0 < bal then 1 else 0) \<le> a \<and> a \<le> b \<and> b \<le> bal \<and> distinct (ss_names s) \<and> name \<in> set (ss_names s)"
proof -
  have inv: "strategies_inv s"
    using strategies.run_inv [of no_strategies ops] assms(1) by (simp add: strategies_inv_def no_strategies_def)
  have g: "graded s" by (rule strategies_graded [OF inv])
  have "compute_slash_amount s name bal z \<in> {Err StrategyNotFound} \<union> Ok ` {(if 0 < bal then 1 else 0)..bal}" for z
    using g assms(2,3) unfolding graded_def by blast
  from this [of x] this [of y] have "a \<in> {(if 0 < bal then 1 else 0)..bal}" "b \<in> {(if 0 < bal then 1 else 0)..bal}"
    unfolding assms(4,5) by auto
  moreover have "a \<le> b" using g assms(2-6) unfolding graded_def by blast
  moreover have "ss_configs s name \<noteq> None" using assms(4) by (auto simp: compute_slash_amount_def res_then_Ok ok_or_Ok)
  ultimately show ?thesis using inv by (auto simp: strategies_inv_def)
qed

theorem slash_strategies_graded_witness:
  "(1::int) \<le> 5 \<and> distinct (ss_names (fold strategy_step
     [(''momentum'', \<lparr>ss_minor_bps = 500, ss_major_bps = 3000, ss_critical_bps = 10000, risk_window_secs = 60, penalty_window_secs = 0\<rparr>)]
     no_strategies))"
proof -
  let ?s = "fold strategy_step
     [(''momentum'', \<lparr>ss_minor_bps = 500, ss_major_bps = 3000, ss_critical_bps = 10000, risk_window_secs = 60, penalty_window_secs = 0\<rparr>)]
     no_strategies"
  have i: "in_i128 100" "in_i128 (100 * 500)" "in_i128 (100 * 3000)" by (simp_all add: in_i128_def i128_min_def i128_max_def)
  have "compute_slash_amount ?s ''momentum'' 100 0 = Ok 5" "compute_slash_amount ?s ''momentum'' 100 1 = Ok 30"
    using i apply_multiplier_bps_exact [of 100 500] apply_multiplier_bps_exact [of 100 3000]
    by (simp_all add: compute_slash_amount_def strategy_step_def set_slash_strategy_def validate_def no_strategies_def)
  from slash_strategies_graded [OF refl _ i(1) this] show ?thesis by simp
qed

end
