(* ===== verification/VaultContract.thy ===== *)
theory VaultContract
  imports VaultQueue VaultAdmin EmergencyUnstake RewardVault RewardDust SlashStrategy
begin

text \<open>
  The stake vault as one contract: the storage of its modules side by side over one world of token
  contracts, the entry points of \<open>stake_vault/src/lib.rs\<close> that reach the reward vault, the dust and
  the slash strategies, and the transition system of all entry points. Every liability of the
  contract is held in the same token balances; that these cover all of them together, after every
  history, is the main property of the development.
\<close>

record 'w contract =
  ct_vault :: "'w vault"
  ct_rewards :: reward_vault
  ct_dust :: reward_dust
  ct_strategies :: slash_strategies

type_synonym ('w, 'a) contract_call = "('w contract, StakeVaultError, 'a) outcome"

section \<open>Entry points over the modules\<close>

definition on_vault :: "('w vault \<Rightarrow> ('w, 'a) vault_call) \<Rightarrow> 'w contract \<Rightarrow> ('w, 'a) contract_call" where
  "on_vault f c = zoom ct_vault (\<lambda>v c. c\<lparr>ct_vault := v\<rparr>) f c"

text \<open>A module call on part of the storage and the token world, with its errors converted.\<close>

definition on_pool ::
  "('w contract \<Rightarrow> 's) \<Rightarrow> ('s \<Rightarrow> 'w contract \<Rightarrow> 'w contract) \<Rightarrow> ('e \<Rightarrow> StakeVaultError) \<Rightarrow>
   ('s \<times> 'w \<Rightarrow> ('s \<times> 'w, 'e, 'a) outcome) \<Rightarrow> 'w contract \<Rightarrow> ('w, 'a) contract_call" where
  "on_pool get put err f c =
     (case f (get c, v_world (ct_vault c)) of
        (r, s, w) \<Rightarrow> (map_err err r, put s (c\<lparr>ct_vault := (ct_vault c)\<lparr>v_world := w\<rparr>\<rparr>)))"

fun error_of_reward_vault :: "RewardVaultError \<Rightarrow> StakeVaultError" where
  "error_of_reward_vault UnsupportedAsset = StakeVaultError.Unauthorized"
| "error_of_reward_vault NotBucketOwner = StakeVaultError.Unauthorized"
| "error_of_reward_vault RewardVaultError.BatchSizeInvalid = StakeVaultError.BatchSizeInvalid"
| "error_of_reward_vault RewardVaultError.InvalidAmount = StakeVaultError.InvalidAmount"
| "error_of_reward_vault BucketNotFound = StakeVaultError.InvalidAmount"
| "error_of_reward_vault AlreadyClaimed = StakeVaultError.InvalidAmount"
| "error_of_reward_vault DuplicateBucket = StakeVaultError.InvalidAmount"
| "error_of_reward_vault RewardVaultError.Overflow = StakeOverflow"
| "error_of_reward_vault (Token f) = error_of_token_failure f"

text \<open>\<open>batch_claim_rewards\<close> does not use that conversion: it folds all but one error into \<open>InvalidAmount\<close>.\<close>

fun error_of_batch_claim :: "RewardVaultError \<Rightarrow> StakeVaultError" where
  "error_of_batch_claim RewardVaultError.BatchSizeInvalid = StakeVaultError.BatchSizeInvalid"
| "error_of_batch_claim _ = StakeVaultError.InvalidAmount"

fun error_of_dust :: "DustError \<Rightarrow> StakeVaultError" where
  "error_of_dust DustError.Unauthorized = StakeVaultError.Unauthorized"
| "error_of_dust DustError.InvalidAmount = StakeVaultError.InvalidAmount"
| "error_of_dust NothingToReconcile = StakeVaultError.InvalidAmount"
| "error_of_dust DustError.Overflow = StakeOverflow"

fun error_of_strategy :: "SlashStrategyError \<Rightarrow> StakeVaultError" where
  "error_of_strategy BpsOutOfRange = InvalidSlashTier"
| "error_of_strategy InvalidSeverityOrder = InvalidSlashTierOrder"
| "error_of_strategy InvalidRiskWindow = InvalidCooldown"
| "error_of_strategy StrategyNotFound = StakeVaultError.Unauthorized"

abbreviation put_reward_vault :: "reward_vault \<Rightarrow> 'w contract \<Rightarrow> 'w contract" where
  "put_reward_vault s c \<equiv> c\<lparr>ct_rewards := s\<rparr>"

abbreviation put_dust :: "reward_dust \<Rightarrow> 'w contract \<Rightarrow> 'w contract" where
  "put_dust d c \<equiv> c\<lparr>ct_dust := d\<rparr>"

text \<open>A reward event locks the provider's stake for the default lockup.\<close>

definition lock_after_reward :: "env \<Rightarrow> addr \<Rightarrow> 'w contract \<Rightarrow> 'w contract" where
  "lock_after_reward ev provider c =
     c\<lparr>ct_vault := lock_provider ev provider (default_lockup_ledgers (ct_vault c)) (ct_vault c)\<rparr>"

text \<open>
  The source's own conversion in \<open>deposit_reward\<close> names three of the nine variants; the model uses the
  \<open>From\<close> conversion of the crate, which agrees with it on those three.
\<close>

definition deposit_reward ::
  "env \<Rightarrow> 'w token_if \<Rightarrow> addr \<Rightarrow> addr \<Rightarrow> addr \<Rightarrow> int \<Rightarrow> nat \<Rightarrow> 'w contract \<Rightarrow> ('w, nat) contract_call" where
  "deposit_reward ev tk depositor provider asset amount epoch c =
     (if \<not> ev_auth ev depositor then (Panic, c)
      else and_then (on_vault vault_require_not_paused c) (\<lambda>_ c.
        and_then (on_pool ct_rewards put_reward_vault error_of_reward_vault
                    (deposit_bucket ev tk depositor provider asset amount epoch) c)
          (\<lambda>i c. (Ok i, lock_after_reward ev provider c))))"

definition batch_claim_rewards ::
  "env \<Rightarrow> 'w token_if \<Rightarrow> addr \<Rightarrow> nat list \<Rightarrow> 'w contract \<Rightarrow> ('w, (addr \<times> int) list) contract_call" where
  "batch_claim_rewards ev tk provider bids c =
     (if \<not> ev_auth ev provider then (Panic, c)
      else and_then (on_vault vault_require_not_paused c) (\<lambda>_ c.
        and_then (on_pool ct_rewards put_reward_vault error_of_batch_claim (batch_claim ev tk provider bids) c)
          (\<lambda>ts c. (Ok ts, lock_after_reward ev provider c))))"

definition contract_admin ::
  "env \<Rightarrow> ('w contract \<Rightarrow> ('w, 'a) contract_call) \<Rightarrow> 'w contract \<Rightarrow> ('w, 'a) contract_call" where
  "contract_admin ev k c = and_then (on_vault (with_admin ev (\<lambda>v. (Ok (), v))) c) (\<lambda>_. k)"

definition add_reward_asset :: "env \<Rightarrow> 'w token_if \<Rightarrow> addr \<Rightarrow> 'w contract \<Rightarrow> ('w, unit) contract_call" where
  "add_reward_asset ev tk asset c =
     contract_admin ev (\<lambda>c.
       case stake_token (ct_vault c) of
         None \<Rightarrow> (Err StakeVaultError.NotInitialized, c)
       | Some tok \<Rightarrow>
           and_then (map_err error_of_decimals (require_compatible tk (v_world (ct_vault c)) tok asset), c)
             (\<lambda>_ c. (Ok (), put_reward_vault (add_supported_asset asset (ct_rewards c)) c))) c"

definition set_dust_authority :: "env \<Rightarrow> addr \<Rightarrow> 'w contract \<Rightarrow> ('w, unit) contract_call" where
  "set_dust_authority ev authority c =
     contract_admin ev (\<lambda>c. (Ok (), put_dust (set_authority authority (ct_dust c)) c)) c"

definition record_reward_dust :: "env \<Rightarrow> addr \<Rightarrow> int \<Rightarrow> 'w contract \<Rightarrow> ('w, DustTotals) contract_call" where
  "record_reward_dust ev asset scaled c =
     contract_admin ev (\<lambda>c.
       if \<not> is_supported (ct_rewards c) asset then (Err StakeVaultError.Unauthorized, c)
       else case record_dust asset scaled (ct_dust c) of (r, d) \<Rightarrow> (map_err error_of_dust r, put_dust d c)) c"

definition reconcile_reward_dust ::
  "env \<Rightarrow> 'w token_if \<Rightarrow> addr \<Rightarrow> addr \<Rightarrow> addr \<Rightarrow> 'w contract \<Rightarrow> ('w, int) contract_call" where
  "reconcile_reward_dust ev tk caller asset recipient c =
     and_then (on_vault vault_require_not_paused c) (\<lambda>_.
       on_pool ct_dust put_dust error_of_dust (reconcile ev tk caller asset recipient))"

definition set_strategy :: "env \<Rightarrow> symbol \<Rightarrow> SlashStrategyConfig \<Rightarrow> 'w contract \<Rightarrow> ('w, unit) contract_call" where
  "set_strategy ev name cfg c =
     contract_admin ev (\<lambda>c. case set_slash_strategy name cfg (ct_strategies c) of
       (r, s) \<Rightarrow> (map_err error_of_strategy r, c\<lparr>ct_strategies := s\<rparr>)) c"

section \<open>Calls of the vault as data\<close>

datatype vault_op =
    VDeposit addr int
  | VDelegate addr addr int
  | VRequestWithdrawal addr
  | VWithdraw addr
  | VPartial addr int
  | VNotify addr
  | VSubmission addr
  | VQueue addr
  | VProcess nat
  | VSlash addr addr SlashSeverity symbol
  | VBatchSlash addr "addr list" "SlashSeverity list" symbol
  | VAppeal addr nat string
  | VResolve nat bool
  | VBatchResolve "nat list" "bool list"
  | VSetting setting_op
  | VUpgrade "symbol \<Rightarrow> bool" nat nat "symbol list"
  | VMultisig addr "MultisigConfig option"
  | VPropose addr "nat list"
  | VApprove addr nat
  | VExecute addr nat
  | VEmergencyConfig addr "addr list" nat nat nat
  | VEmergencyCooldown addr nat
  | VEmergencyRequest addr
  | VEmergencyApprove addr addr
  | VEmergencyExpire addr
  | VReleaseLockup addr
  | VAddIndexAsset addr
  | VSync addr
  | VFund addr addr int
  | VClaimIndex addr addr
  | VQueuedClaim addr nat
  | VQueuedCancel addr nat

definition rolled_back :: "'s \<Rightarrow> ('s, 'e, 'a) outcome \<Rightarrow> ('s, 'e, unit) outcome" where
  "rolled_back s m = (case commit s m of (Ok _, t) \<Rightarrow> (Ok (), t) | (Err e, t) \<Rightarrow> (Err e, t) | (Panic, t) \<Rightarrow> (Panic, t))"

fun vault_step :: "'w token_if \<Rightarrow> env \<Rightarrow> vault_op \<Rightarrow> 'w vault \<Rightarrow> ('w, unit) vault_call" where
  "vault_step tk ev (VDeposit st x) v = rolled_back v (deposit_stake ev tk st x v)"
| "vault_step tk ev (VDelegate dl p x) v = rolled_back v (delegate_stake ev tk dl p x v)"
| "vault_step tk ev (VRequestWithdrawal st) v = rolled_back v (request_withdrawal ev st v)"
| "vault_step tk ev (VWithdraw st) v = rolled_back v (withdraw_stake ev tk st v)"
| "vault_step tk ev (VPartial st x) v = rolled_back v (partial_unstake ev tk st x v)"
| "vault_step tk ev (VNotify p) v = (Ok (), notify_stake_below_minimum ev p v)"
| "vault_step tk ev (VSubmission p) v = rolled_back v (check_signal_submission_allowed ev p v)"
| "vault_step tk ev (VQueue st) v = rolled_back v (queue_unstake ev st v)"
| "vault_step tk ev (VProcess n) v = rolled_back v (process_unstake_queue ev tk n v)"
| "vault_step tk ev (VSlash c p s r) v = rolled_back v (slash_stake ev tk c p s r v)"
| "vault_step tk ev (VBatchSlash c ps ss r) v = rolled_back v (batch_slash_stake ev tk c ps ss r v)"
| "vault_step tk ev (VAppeal a i u) v = rolled_back v (appeal_slash ev a i u v)"
| "vault_step tk ev (VResolve i b) v = rolled_back v (resolve_appeal ev tk i b v)"
| "vault_step tk ev (VBatchResolve is bs) v = rolled_back v (batch_resolve_appeal ev tk is bs v)"
| "vault_step tk ev (VSetting s) v = rolled_back v (setting_call ev s v)"
| "vault_step tk ev (VUpgrade has n l ks) v = rolled_back v (upgrade_with_migration_guard ev has n l ks v)"
| "vault_step tk ev (VMultisig c cfg) v = rolled_back v (set_multisig_config ev c cfg v)"
| "vault_step tk ev (VPropose c bs) v = rolled_back v (propose_action ev c bs v)"
| "vault_step tk ev (VApprove c i) v = rolled_back v (approve_action ev c i v)"
| "vault_step tk ev (VExecute c i) v = rolled_back v (execute_action ev tk c i v)"
| "vault_step tk ev (VEmergencyConfig c as n b t) v = rolled_back v (configure_emergency_multisig ev c as n b t v)"
| "vault_step tk ev (VEmergencyCooldown c s) v = rolled_back v (set_emergency_cooldown ev c s v)"
| "vault_step tk ev (VEmergencyRequest st) v = rolled_back v (request_emergency_unstake ev st v)"
| "vault_step tk ev (VEmergencyApprove a st) v = rolled_back v (approve_emergency_unstake ev tk a st v)"
| "vault_step tk ev (VEmergencyExpire st) v = rolled_back v (expire_emergency_request ev st v)"
| "vault_step tk ev (VReleaseLockup p) v = rolled_back v (release_provider_lockup ev p v)"
| "vault_step tk ev (VAddIndexAsset a) v = rolled_back v (add_index_reward_asset ev a v)"
| "vault_step tk ev (VSync st) v = rolled_back v (sync_index_stake st v)"
| "vault_step tk ev (VFund f a x) v = rolled_back v (zoom get_rewards put_rewards (fund_index_rewards ev tk f a x) v)"
| "vault_step tk ev (VClaimIndex st a) v = rolled_back v (zoom get_rewards put_rewards (claim_index_rewards ev tk st a) v)"
| "vault_step tk ev (VQueuedClaim cl n) v = rolled_back v (zoom get_rewards put_rewards (claim_queued_withdrawal ev tk cl n) v)"
| "vault_step tk ev (VQueuedCancel cl n) v = rolled_back v (zoom get_rewards put_rewards (cancel_queued_withdrawal ev cl n) v)"

text \<open>
  The one side condition: a slash is reversed only while its funds are still held (a reversal
  without held funds credits stake that no token backs).
\<close>

definition held :: "'w vault \<Rightarrow> nat \<Rightarrow> bool" where
  "held v i \<longleftrightarrow> 0 < sget_or 0 (sb_held (v_slashes v)) i"

fun vault_enabled :: "vault_op \<Rightarrow> 'w vault \<Rightarrow> bool" where
  "vault_enabled (VResolve i b) v \<longleftrightarrow> b \<or> held v i"
| "vault_enabled (VBatchResolve is bs) v \<longleftrightarrow> distinct is \<and> (\<forall>(i, b) \<in> set (zip is bs). b \<or> held v i)"
| "vault_enabled (VExecute c i) v \<longleftrightarrow>
     (case sget (ms_proposals (v_multisig v)) i of
        None \<Rightarrow> True
      | Some p \<Rightarrow> (case payload p of [] \<Rightarrow> True
                   | tag # _ \<Rightarrow> tag = 7 \<longrightarrow> byte_at (payload p) 9 = 1 \<or> held v (read_le 8 (payload p) 1)))"
| "vault_enabled _ v \<longleftrightarrow> True"

section \<open>Every call of the vault keeps it covered\<close>

lemma rolled_back_inv:
  assumes "P s" "\<And>a t. m = (Ok a, t) \<Longrightarrow> P t"
  shows "P (snd (rolled_back s m))"
  using assms by (cases "(s, m)" rule: commit.cases) (auto simp: rolled_back_def)

text \<open>Calls that touch nothing the liabilities read.\<close>

lemma quiet_calls:
  "request_withdrawal ev st v = (Ok u1, v') \<Longrightarrow> money v' = money v"
  "check_signal_submission_allowed ev st v = (Ok u1, v') \<Longrightarrow> money v' = money v"
  "appeal_slash ev st i uri v = (Ok u1, v') \<Longrightarrow> money v' = money v"
  "upgrade_with_migration_guard ev has n l ks v = (Ok u1, v') \<Longrightarrow> money v' = money v"
  "set_multisig_config ev st cfg v = (Ok u1, v') \<Longrightarrow> money v' = money v"
  "propose_action ev st bs v = (Ok k, v') \<Longrightarrow> money v' = money v"
  "approve_action ev st i v = (Ok k, v') \<Longrightarrow> money v' = money v"
  "configure_emergency_multisig ev st as n b t v = (Ok u1, v') \<Longrightarrow> money v' = money v"
  "set_emergency_cooldown ev st n v = (Ok u1, v') \<Longrightarrow> money v' = money v"
  "request_emergency_unstake ev st v = (Ok u1, v') \<Longrightarrow> money v' = money v"
  "expire_emergency_request ev st v = (Ok u1, v') \<Longrightarrow> money v' = money v"
  "release_provider_lockup ev st v = (Ok u1, v') \<Longrightarrow> money v' = money v"
  by (auto simp: request_withdrawal_def check_signal_submission_allowed_def appeal_slash_def
      upgrade_with_migration_guard_def set_multisig_config_def propose_action_def approve_action_def configure_emergency_multisig_def
      set_emergency_cooldown_def request_emergency_unstake_def expire_emergency_request_def release_provider_lockup_def
      require_lockup_released_def res_simps vault_require_not_paused_Ok money_def stake_token_def save_request_def remove_request_def Let_def
      split: option.splits if_splits prod.splits)

lemma notify_money: "money (notify_stake_below_minimum ev p v) = money v"
  by (simp add: notify_stake_below_minimum_def split: option.splits)

text \<open>Index rewards: the surplus of the rewards part moves like the surplus of the vault.\<close>

lemma rewards_surplus:
  "vault_surplus tk self a (put_rewards r v) - vault_surplus tk self a v =
     ir_surplus tk self a r - ir_surplus tk self a (get_rewards v)"
  by (simp add: vault_surplus_def ir_surplus_def put_rewards_def get_rewards_def stake_token_def core_liability_def
      stakes_total_def delegated_total_def held_total_def)

lemma put_rewards_covered:
  assumes "vault_solvent tk self v" "ir_inv r" "\<And>a. ir_surplus tk self a (get_rewards v) \<le> ir_surplus tk self a r"
  shows "covered tk self v (put_rewards r v)"
proof -
  have "vault_inv (put_rewards r v)"
    using assms(1,2) by (simp add: vault_solvent_def vault_inv_def put_rewards_def ir_inv_def)
  moreover have "vault_surplus tk self a v \<le> vault_surplus tk self a (put_rewards r v)" for a
    using rewards_surplus [of tk self a r v] assms(3) [of a] by simp
  ultimately show ?thesis by (simp add: covered_def)
qed

lemma get_rewards_inv: "vault_solvent tk self v \<Longrightarrow> ir_inv (get_rewards v)"
  by (simp add: vault_solvent_def vault_inv_def get_rewards_def ir_inv_def)

lemma index_only_covered:
  assumes "vault_solvent tk self v" "ri_inv i" "\<And>a. ri_owed i a \<le> ri_owed (v_index v) a"
  shows "covered tk self v (v\<lparr>v_index := i\<rparr>)"
  by (rule coveredI [OF assms(1)])
    (use assms in \<open>auto simp: vault_solvent_def vault_inv_def stake_token_def core_liability_def stakes_total_def
      delegated_total_def held_total_def\<close>)

lemma add_index_reward_asset_covered:
  assumes "vault_solvent tk self v" "add_index_reward_asset ev a v = (Ok u, v')"
  shows "covered tk self v v'"
proof -
  from assms(2) obtain i where i: "add_asset a (v_index v) = (Ok u, i)" "v' = v\<lparr>v_index := i\<rparr>"
    by (auto simp: add_index_reward_asset_def with_admin_Ok zoom_eq)
  have "ri_inv (v_index v)" using assms(1) by (simp add: vault_solvent_def vault_inv_def)
  from add_asset_facts [OF this i(1)] show ?thesis unfolding i(2) by (intro index_only_covered [OF assms(1)]) auto
qed

lemma sync_index_stake_covered:
  assumes "vault_solvent tk self v" "sync_index_stake st v = (Ok u, v')"
  shows "covered tk self v v'"
proof -
  from assms(2) obtain i where i: "on_stake_change st (get_stake v st) (v_index v) = (Ok u, i)" "v' = v\<lparr>v_index := i\<rparr>"
    by (auto simp: sync_index_stake_def index_change_eq)
  have inv: "ri_inv (v_index v)" "0 \<le> get_stake v st"
    using assms(1) vault_invD(4) by (auto simp: vault_solvent_def vault_inv_def)
  from on_stake_change_facts(1,2) [OF inv i(1)] show ?thesis unfolding i(2) by (intro index_only_covered [OF assms(1)]) auto
qed

text \<open>Slashes and appeals through their entry points.\<close>

lemma slash_stake_covered:
  assumes "vault_solvent tk (ev_self ev) v" "slash_stake ev tk c p sev r v = (Ok x, v')"
  shows "covered tk (ev_self ev) v v'"
  using assms(2) do_slash_covered [OF assms(1)]
  by (auto simp: slash_stake_def and_then_Ok require_signal_registry_Ok split: res.splits if_splits)

lemma batch_slash_covered:
  assumes "vault_solvent tk (ev_self ev) v" "batch_slash_stake ev tk c ps ss r v = (Ok x, v')"
  shows "covered tk (ev_self ev) v v'"
  using assms(2) slash_items_covered [OF assms(1)]
  by (auto simp: batch_slash_stake_def and_then_Ok require_signal_registry_Ok split: if_splits)

lemma resolve_appeal_covered:
  assumes "vault_solvent tk (ev_self ev) v" "resolve_appeal ev tk i b v = (Ok x, v')" "b \<or> held v i"
  shows "covered tk (ev_self ev) v v'"
  using assms(2,3) do_resolve_appeal_covered [OF assms(1)]
  by (auto simp: resolve_appeal_def held_def split: option.splits if_splits)

lemma batch_resolve_covered:
  assumes "vault_solvent tk (ev_self ev) v" "batch_resolve_appeal ev tk is bs v = (Ok x, v')" "distinct is"
    "\<forall>(i, b) \<in> set (zip is bs). b \<or> held v i"
  shows "covered tk (ev_self ev) v v'"
proof -
  have run: "resolve_items ev tk (zip is bs) 0 v = (Ok x, v')" "length is = length bs"
    using assms(2) by (auto simp: batch_resolve_appeal_def split: option.splits if_splits)
  show ?thesis
    by (rule resolve_items_covered [OF assms(1) run(1)]) (use assms(3,4) run(2) in \<open>auto simp: held_def\<close>)
qed

lemma perform_action_covered:
  assumes "vault_solvent tk (ev_self ev) v" "perform_action ev tk data v = (Ok u, v')"
    "\<And>rest. data = 7 # rest \<Longrightarrow> byte_at data 9 = 1 \<or> held v (read_le 8 data 1)"
  shows "covered tk (ev_self ev) v v'"
proof (cases "\<exists>rest. data = 7 # rest")
  case True
  then obtain rest where rest: "data = 7 # rest" by blast
  then have "do_resolve_appeal ev tk (read_le 8 data 1) (byte_at data 9 = 1) v = (Ok u, v')"
    using assms(2) by (simp add: perform_action_def)
  then show ?thesis
    by (rule do_resolve_appeal_covered [OF assms(1)]) (use assms(3) [OF rest] in \<open>simp add: held_def\<close>)
next
  case False
  have "money v' = money v"
    using assms(2) False
    by (auto simp: perform_action_def setting_defs and_then_Ok split: list.splits if_splits)
  then show ?thesis by (rule covered_money [OF assms(1)])
qed

lemma execute_action_covered:
  assumes "vault_solvent tk (ev_self ev) v" "execute_action ev tk c i v = (Ok u, v')" "vault_enabled (VExecute c i) v"
  shows "covered tk (ev_self ev) v v'"
proof -
  from assms(2) obtain p u1 m where k: "get_proposal (v_multisig v) i = Ok p" "perform_action ev tk (payload p) v = (Ok (), u1)"
    "v' = u1\<lparr>v_multisig := m\<rparr>"
    unfolding execute_action_Ok by blast
  have "covered tk (ev_self ev) v u1"
    by (rule perform_action_covered [OF assms(1) k(2)])
      (use assms(3) k(1) in \<open>auto simp: get_proposal_def ok_or_Ok split: option.splits list.splits\<close>)
  then show ?thesis using k(3) covered_money_right [of v' u1] by simp
qed

lemma vault_step_covered:
  assumes "vault_solvent tk self v" "vault_enabled o1 v" "e = host_env self ev"
  shows "covered tk self v (snd (vault_step tk e o1 v))"
proof -
  have self: "self = ev_self e" and e: "\<not> ev_auth e (ev_self e)" using assms(3) by simp_all
  have sol: "vault_solvent tk (ev_self e) v" using assms(1) self by simp
  note rb = rolled_back_inv [of "covered tk (ev_self e) v", OF covered_refl [OF sol]]
  note quiet = covered_money [OF sol]
  have sep: "sep41 tk" using assms(1) by (simp add: vault_solvent_def)
  note ri = get_rewards_inv [OF sol]
  have "covered tk (ev_self e) v (snd (vault_step tk e o1 v))"
  proof (cases o1)
    case (VDeposit st x)
    then show ?thesis using deposit_stake_covered [OF sol e] by (auto intro!: rb)
  next
    case (VDelegate dl p x)
    then show ?thesis using delegate_stake_covered [OF sol e] by (auto intro!: rb)
  next
    case (VWithdraw st)
    then show ?thesis using withdraw_stake_covered [OF sol] by (auto intro!: rb)
  next
    case (VPartial st x)
    then show ?thesis using partial_unstake_covered [OF sol] by (auto intro!: rb)
  next
    case (VNotify p)
    then show ?thesis using quiet [OF notify_money] by simp
  next
    case (VQueue st)
    then show ?thesis using queue_unstake_covered [OF sol] by (auto intro!: rb)
  next
    case (VProcess n)
    then show ?thesis using process_unstake_queue_covered [OF sol] by (auto intro!: rb)
  next
    case (VSlash c p s r)
    then show ?thesis using slash_stake_covered [OF sol] by (auto intro!: rb)
  next
    case (VBatchSlash c ps ss r)
    then show ?thesis using batch_slash_covered [OF sol] by (auto intro!: rb)
  next
    case (VResolve i b)
    then show ?thesis using resolve_appeal_covered [OF sol] assms(2) by (auto intro!: rb)
  next
    case (VBatchResolve ids bs)
    then show ?thesis using batch_resolve_covered [OF sol] assms(2) by (auto intro!: rb)
  next
    case (VSetting s)
    then show ?thesis using setting_covered [OF sol] by (auto intro!: rb)
  next
    case (VExecute c i)
    then show ?thesis using execute_action_covered [OF sol] assms(2) by (auto intro!: rb simp del: vault_enabled.simps)
  next
    case (VEmergencyApprove a st)
    then show ?thesis using approve_emergency_covered [OF sol] by (auto intro!: rb)
  next
    case (VAddIndexAsset a)
    then show ?thesis using add_index_reward_asset_covered [OF sol] by (auto intro!: rb)
  next
    case (VSync st)
    then show ?thesis using sync_index_stake_covered [OF sol] by (auto intro!: rb)
  next
    case (VFund f a x)
    then show ?thesis using put_rewards_covered [OF sol] fund_index_rewards_facts [OF sep ri e]
      by (auto intro!: rb simp: zoom_eq)
  next
    case (VClaimIndex st a)
    then show ?thesis using put_rewards_covered [OF sol] claim_index_rewards_facts [OF sep ri, of e]
      by (auto intro!: rb simp: zoom_eq)
  next
    case (VQueuedClaim cl n)
    then show ?thesis using put_rewards_covered [OF sol] claim_queued_withdrawal_facts(1,2) [OF sep ri, of e]
      by (auto intro!: rb simp: zoom_eq)
  next
    case (VQueuedCancel cl n)
    then show ?thesis using put_rewards_covered [OF sol] cancel_queued_withdrawal_facts [OF ri, of e]
      by (auto intro!: rb simp: zoom_eq)
  qed (auto intro!: quiet rolled_back_inv [of "\<lambda>t. money t = money v", OF refl] dest: quiet_calls)
  then show ?thesis by (simp add: self)
qed

section \<open>The contract as a transition system\<close>

text \<open>
  Calls of the vault and of the modules beside it. \<open>Foreign\<close> is activity of the token contracts outside
  the contract; nobody else can move the contract's own tokens, so it does not lower its balances.
\<close>

datatype 'w contract_op =
    Vault vault_op
  | AddRewardAsset addr
  | DepositReward addr addr addr int nat
  | BatchClaim addr "nat list"
  | DustSetAuthority addr
  | DustRecordCall addr int
  | DustReconcileCall addr addr addr
  | SetStrategy symbol SlashStrategyConfig
  | MigrateToken addr
  | Foreign 'w

fun contract_step :: "'w token_if \<Rightarrow> addr \<Rightarrow> env \<times> 'w contract_op \<Rightarrow> 'w contract \<Rightarrow> 'w contract" where
  "contract_step tk self (ev, Vault o1) c = c\<lparr>ct_vault := snd (vault_step tk (host_env self ev) o1 (ct_vault c))\<rparr>"
| "contract_step tk self (ev, AddRewardAsset a) c = snd (commit c (add_reward_asset (host_env self ev) tk a c))"
| "contract_step tk self (ev, DepositReward d p a x e) c = snd (commit c (deposit_reward (host_env self ev) tk d p a x e c))"
| "contract_step tk self (ev, BatchClaim p bids) c = snd (commit c (batch_claim_rewards (host_env self ev) tk p bids c))"
| "contract_step tk self (ev, DustSetAuthority a) c = snd (commit c (set_dust_authority (host_env self ev) a c))"
| "contract_step tk self (ev, DustRecordCall a x) c = snd (commit c (record_reward_dust (host_env self ev) a x c))"
| "contract_step tk self (ev, DustReconcileCall cl a r) c = snd (commit c (reconcile_reward_dust (host_env self ev) tk cl a r c))"
| "contract_step tk self (ev, SetStrategy n cfg) c = snd (commit c (set_strategy (host_env self ev) n cfg c))"
| "contract_step tk self (ev, MigrateToken t) c =
     snd (commit c (on_vault (migrate_stake_token (host_env self ev) tk (rv_supported (ct_rewards c)) t) c))"
| "contract_step tk self (ev, Foreign w) c = c\<lparr>ct_vault := (ct_vault c)\<lparr>v_world := w\<rparr>\<rparr>"

text \<open>What the contract holds of a token beyond everything it owes in it, in the scale of the index.\<close>

definition ct_surplus :: "'w token_if \<Rightarrow> addr \<Rightarrow> addr \<Rightarrow> 'w contract \<Rightarrow> int" where
  "ct_surplus tk self a c = vault_surplus tk self a (ct_vault c) - INDEX_SCALE * rv_liability (ct_rewards c) a"

text \<open>
  Side conditions: those of the vault; recorded dust is paid out only from the surplus; the stake
  token is changed only to one of which the surplus covers the stakes; and the outside world leaves
  the contract's tokens alone.
\<close>

fun contract_enabled :: "'w token_if \<Rightarrow> addr \<Rightarrow> env \<times> 'w contract_op \<Rightarrow> 'w contract \<Rightarrow> bool" where
  "contract_enabled tk self (ev, Vault o1) c \<longleftrightarrow> vault_enabled o1 (ct_vault c)"
| "contract_enabled tk self (ev, DustReconcileCall cl a r) c \<longleftrightarrow>
     INDEX_SCALE * dust_scaled (totals (ct_dust c) a) \<le> DUST_PRECISION * ct_surplus tk self a c"
| "contract_enabled tk self (ev, MigrateToken t) c \<longleftrightarrow> stake_token (ct_vault c) = Some t \<or>
     INDEX_SCALE * core_liability (ct_vault c) \<le> ct_surplus tk self t c"
| "contract_enabled tk self (ev, Foreign w) c \<longleftrightarrow>
     (\<forall>a. tk_balance tk a self (v_world (ct_vault c)) \<le> tk_balance tk a self w)"
| "contract_enabled tk self (ev, _) c \<longleftrightarrow> True"

definition contract_inv :: "'w token_if \<Rightarrow> addr \<Rightarrow> 'w contract \<Rightarrow> bool" where
  "contract_inv tk self c \<longleftrightarrow> sep41 tk \<and> vault_inv (ct_vault c) \<and> rv_inv (ct_rewards c) \<and> dust_inv (ct_dust c) \<and>
     strategies_inv (ct_strategies c) \<and> (\<forall>a. 0 \<le> ct_surplus tk self a c)"

text \<open>Everything owed is covered: stakes, delegations, held slashes, index rewards, queued payouts, reward buckets.\<close>

definition contract_backed :: "'w token_if \<Rightarrow> addr \<Rightarrow> 'w contract \<Rightarrow> bool" where
  "contract_backed tk self c \<longleftrightarrow>
     (\<forall>a. (if stake_token (ct_vault c) = Some a then core_liability (ct_vault c) else 0) + credited (v_index (ct_vault c)) a
        + WithdrawalClaims.pending (v_claims (ct_vault c)) a + rv_liability (ct_rewards c) a
        \<le> tk_balance tk a self (v_world (ct_vault c)))"

lemma contract_inv_backed:
  assumes "contract_inv tk self c"
  shows "contract_backed tk self c"
  unfolding contract_backed_def
proof
  fix a
  have inv: "ri_inv (v_index (ct_vault c))" using assms by (simp add: contract_inv_def vault_inv_def)
  have "0 \<le> ct_surplus tk self a c" using assms by (simp add: contract_inv_def)
  then show "(if stake_token (ct_vault c) = Some a then core_liability (ct_vault c) else 0) + credited (v_index (ct_vault c)) a
        + WithdrawalClaims.pending (v_claims (ct_vault c)) a + rv_liability (ct_rewards c) a
        \<le> tk_balance tk a self (v_world (ct_vault c))"
    using unsettled_nonneg [OF inv, of a] ri_invD(7) [OF inv, of a]
    by (simp add: ct_surplus_def vault_surplus_def ri_owed_def INDEX_SCALE_def split: if_splits)
qed

lemma contract_vault_solvent: "contract_inv tk self c \<Longrightarrow> vault_solvent tk self (ct_vault c)"
  unfolding contract_inv_def vault_solvent_def ct_surplus_def
  using rv_liability_nonneg [of "ct_rewards c"]
  by (auto simp: INDEX_SCALE_def) (smt (verit) mult_nonneg_nonneg)

text \<open>A step keeps the invariant when it keeps the parts and lowers no surplus.\<close>

lemma contract_invI:
  assumes "contract_inv tk self c" "vault_inv (ct_vault c')" "rv_inv (ct_rewards c')" "dust_inv (ct_dust c')"
    "strategies_inv (ct_strategies c')" "\<And>a. ct_surplus tk self a c \<le> ct_surplus tk self a c'"
  shows "contract_inv tk self c'"
  using assms unfolding contract_inv_def by (meson order_trans)

lemma vault_change_inv:
  assumes "contract_inv tk self c" "covered tk self (ct_vault c) v"
  shows "contract_inv tk self (c\<lparr>ct_vault := v\<rparr>)"
  by (rule contract_invI [OF assms(1)])
    (use assms in \<open>auto simp: contract_inv_def covered_def ct_surplus_def\<close>)

section \<open>Every enabled call keeps the contract solvent\<close>

lemma world_surplus:
  "vault_surplus tk self a (v\<lparr>v_world := w\<rparr>) =
     vault_surplus tk self a v + INDEX_SCALE * (tk_balance tk a self w - tk_balance tk a self (v_world v))"
  by (simp add: vault_surplus_def stake_token_def core_liability_def stakes_total_def delegated_total_def held_total_def ring_distribs)

lemma world_inv [simp]: "vault_inv (v\<lparr>v_world := w\<rparr>) = vault_inv v"
  by (simp add: vault_inv_def)

lemma on_pool_Ok:
  "on_pool get put err f c = (Ok x, c') \<longleftrightarrow>
     (\<exists>s w. f (get c, v_world (ct_vault c)) = (Ok x, s, w) \<and> c' = put s (c\<lparr>ct_vault := (ct_vault c)\<lparr>v_world := w\<rparr>\<rparr>))"
  by (auto simp: on_pool_def map_err_Ok split: prod.splits)

lemma on_vault_Ok: "on_vault f c = (Ok x, c') \<longleftrightarrow> (\<exists>v. f (ct_vault c) = (Ok x, v) \<and> c' = c\<lparr>ct_vault := v\<rparr>)"
  by (simp add: on_vault_def zoom_eq)

lemma contract_admin_Ok: "contract_admin ev k c = (Ok x, c') \<Longrightarrow> k c = (Ok x, c')"
  by (auto simp: contract_admin_def and_then_Ok on_vault_Ok with_admin_Ok)

lemma lock_after_reward_inv: "contract_inv tk self c \<Longrightarrow> contract_inv tk self (lock_after_reward ev p c)"
proof -
  assume inv: "contract_inv tk self c"
  obtain ls where "lock_provider ev p (default_lockup_ledgers (ct_vault c)) (ct_vault c) = (ct_vault c)\<lparr>v_lockups := ls\<rparr>"
    using lock_provider_frame by blast
  then show ?thesis unfolding lock_after_reward_def
    by (intro vault_change_inv [OF inv] covered_money [OF contract_vault_solvent [OF inv]]) simp
qed

text \<open>The rewards and the token world change together, by at most what the balances change.\<close>

lemma pool_change_inv:
  assumes "contract_inv tk self c" "rv_inv s"
    "\<And>a. tk_balance tk a self (v_world (ct_vault c)) - rv_liability (ct_rewards c) a \<le> tk_balance tk a self w - rv_liability s a"
  shows "contract_inv tk self (c\<lparr>ct_vault := (ct_vault c)\<lparr>v_world := w\<rparr>, ct_rewards := s\<rparr>)"
proof (rule contract_invI [OF assms(1)])
  fix a
  have "INDEX_SCALE * (tk_balance tk a self (v_world (ct_vault c)) - rv_liability (ct_rewards c) a)
      \<le> INDEX_SCALE * (tk_balance tk a self w - rv_liability s a)"
    using assms(3) [of a] by (intro mult_left_mono) (auto simp: INDEX_SCALE_def)
  then show "ct_surplus tk self a c \<le> ct_surplus tk self a (c\<lparr>ct_vault := (ct_vault c)\<lparr>v_world := w\<rparr>, ct_rewards := s\<rparr>)"
    by (simp add: ct_surplus_def world_surplus ring_distribs)
qed (use assms(1,2) in \<open>simp_all add: contract_inv_def\<close>)

lemma deposit_reward_inv:
  assumes "contract_inv tk self c" "ev_self e = self" "\<not> ev_auth e self" "deposit_reward e tk d p a x ep c = (Ok i, c')"
  shows "contract_inv tk self c'"
proof -
  from assms(4) obtain s w where k: "deposit_bucket e tk d p a x ep (ct_rewards c, v_world (ct_vault c)) = (Ok i, s, w)"
    and c': "c' = lock_after_reward e p (c\<lparr>ct_vault := (ct_vault c)\<lparr>v_world := w\<rparr>, ct_rewards := s\<rparr>)" and d: "ev_auth e d"
    by (auto simp: deposit_reward_def and_then_Ok on_vault_Ok on_pool_Ok vault_require_not_paused_Ok split: if_splits)
  have "rv_inv (ct_rewards c)" "sep41 tk" "d \<noteq> ev_self e" using assms d by (auto simp: contract_inv_def)
  note f = deposit_bucket_facts [OF this k]
  show ?thesis unfolding c'
    by (intro lock_after_reward_inv pool_change_inv [OF assms(1) f(1)]) (use f(2) assms(2) in simp)
qed

lemma batch_claim_rewards_inv:
  assumes "contract_inv tk self c" "ev_self e = self" "batch_claim_rewards e tk p bids c = (Ok ts, c')"
  shows "contract_inv tk self c'"
proof -
  from assms(3) obtain s w where k: "batch_claim e tk p bids (ct_rewards c, v_world (ct_vault c)) = (Ok ts, s, w)"
    and c': "c' = lock_after_reward e p (c\<lparr>ct_vault := (ct_vault c)\<lparr>v_world := w\<rparr>, ct_rewards := s\<rparr>)"
    by (auto simp: batch_claim_rewards_def and_then_Ok on_vault_Ok on_pool_Ok vault_require_not_paused_Ok split: if_splits)
  have "rv_inv (ct_rewards c)" "sep41 tk" using assms by (auto simp: contract_inv_def)
  note f = batch_claim_facts [OF this k]
  show ?thesis unfolding c'
    by (intro lock_after_reward_inv pool_change_inv [OF assms(1) f(1)]) (use f(2) assms(2) in simp)
qed

lemma reconcile_reward_dust_inv:
  assumes "contract_inv tk self c" "ev_self e = self" "reconcile_reward_dust e tk cl a r c = (Ok u, c')"
    "INDEX_SCALE * dust_scaled (totals (ct_dust c) a) \<le> DUST_PRECISION * ct_surplus tk self a c"
  shows "contract_inv tk self c'"
proof -
  from assms(3) obtain d w where k: "reconcile e tk cl a r (ct_dust c, v_world (ct_vault c)) = (Ok u, d, w)"
    and c': "c' = c\<lparr>ct_vault := (ct_vault c)\<lparr>v_world := w\<rparr>, ct_dust := d\<rparr>"
    by (auto simp: reconcile_reward_dust_def and_then_Ok on_vault_Ok on_pool_Ok vault_require_not_paused_Ok)
  have inv: "dust_inv (ct_dust c)" "sep41 tk" using assms(1) by (auto simp: contract_inv_def)
  note f = reconcile_inv [OF inv(1) k]
  have t: "tk_transfer tk a (ev_self e) r u (v_world (ct_vault c)) = CallOk w" using k unfolding reconcile_Ok by blast
  have bal: "tk_balance tk b self (v_world (ct_vault c)) - (if b = a then u else 0) \<le> tk_balance tk b self w" for b
    using sep41_transfer [OF inv(2) t, of b self] assms(2) f(2) by auto
  have "INDEX_SCALE * (u * DUST_PRECISION) \<le> INDEX_SCALE * dust_scaled (totals (ct_dust c) a)"
    by (rule mult_left_mono [OF f(3)]) (simp add: INDEX_SCALE_def)
  with assms(4) have units: "INDEX_SCALE * u \<le> ct_surplus tk self a c"
    by (simp add: DUST_PRECISION_def INDEX_SCALE_def)
  have "0 \<le> ct_surplus tk self b c'" for b
  proof -
    have "INDEX_SCALE * (tk_balance tk b self (v_world (ct_vault c)) - (if b = a then u else 0)) \<le> INDEX_SCALE * tk_balance tk b self w"
      using bal [of b] by (intro mult_left_mono) (auto simp: INDEX_SCALE_def)
    then have "ct_surplus tk self b c - (if b = a then INDEX_SCALE * u else 0) \<le> ct_surplus tk self b c'"
      by (auto simp: c' ct_surplus_def world_surplus ring_distribs split: if_splits)
    moreover have "0 \<le> ct_surplus tk self b c" using assms(1) by (simp add: contract_inv_def)
    ultimately show ?thesis using units by (auto split: if_splits)
  qed
  then show ?thesis using assms(1) f(1) by (auto simp: contract_inv_def c')
qed

lemma migrate_stake_token_inv:
  assumes "contract_inv tk self c" "migrate_stake_token e tk assets t (ct_vault c) = (Ok n, v)"
    "stake_token (ct_vault c) = Some t \<or> INDEX_SCALE * core_liability (ct_vault c) \<le> ct_surplus tk self t c"
  shows "contract_inv tk self (c\<lparr>ct_vault := v\<rparr>)"
proof -
  let ?v = "ct_vault c"
  from assms(2) have v: "v = ?v\<lparr>v_config := (v_config ?v)\<lparr>vc_token := Some t\<rparr>\<rparr>"
    by (auto simp: migrate_stake_token_def with_admin_Ok and_then_Ok split: option.splits)
  have liab: "core_liability v = core_liability ?v" "0 \<le> core_liability ?v"
    using assms(1) vault_invD(1-3) [of ?v]
    by (simp_all add: v core_liability_def stakes_total_def delegated_total_def held_total_def contract_inv_def)
  have "0 \<le> ct_surplus tk self a (c\<lparr>ct_vault := v\<rparr>)" for a
  proof -
    have "ct_surplus tk self a (c\<lparr>ct_vault := v\<rparr>) = ct_surplus tk self a c
        + INDEX_SCALE * (if stake_token ?v = Some a then core_liability ?v else 0) - INDEX_SCALE * (if a = t then core_liability ?v else 0)"
      using liab(1) by (simp add: ct_surplus_def vault_surplus_def v stake_token_def)
    moreover have "0 \<le> ct_surplus tk self a c" using assms(1) by (simp add: contract_inv_def)
    ultimately show ?thesis using assms(3) liab(2) by (auto simp: INDEX_SCALE_def split: if_splits)
  qed
  then show ?thesis using assms(1) by (auto simp: contract_inv_def v vault_inv_def)
qed

lemma quiet_module_calls:
  assumes "contract_inv tk self c"
  shows "add_reward_asset e tk a c = (Ok u, c') \<Longrightarrow> contract_inv tk self c'"
    "set_dust_authority e a c = (Ok u, c') \<Longrightarrow> contract_inv tk self c'"
    "record_reward_dust e a x c = (Ok t, c') \<Longrightarrow> contract_inv tk self c'"
    "set_strategy e n cfg c = (Ok u, c') \<Longrightarrow> contract_inv tk self c'"
proof -
  have strat: "strategies_inv s" if "set_slash_strategy n cfg (ct_strategies c) = (Ok u, s)" for s
    using strategies.step_inv [of "ct_strategies c" "(n, cfg)"] assms that by (simp add: contract_inv_def strategy_step_def)
  have dust: "dust_inv d" if "record_dust a x (ct_dust c) = (Ok t, d)" for d
    using record_dust_inv [OF _ that] assms by (simp add: contract_inv_def)
  show "add_reward_asset e tk a c = (Ok u, c') \<Longrightarrow> contract_inv tk self c'"
    using assms by (auto simp: add_reward_asset_def and_then_Ok add_supported_asset_def contract_inv_def ct_surplus_def rv_inv_def
        rv_liability_def dest!: contract_admin_Ok split: option.splits)
  show "set_dust_authority e a c = (Ok u, c') \<Longrightarrow> contract_inv tk self c'"
    using assms by (auto simp: set_dust_authority_def contract_inv_def ct_surplus_def set_authority_def dust_inv_def totals_def
        dest!: contract_admin_Ok)
  show "record_reward_dust e a x c = (Ok t, c') \<Longrightarrow> contract_inv tk self c'"
    using assms dust by (auto simp: record_reward_dust_def call_map_Ok contract_inv_def ct_surplus_def dest!: contract_admin_Ok split: if_splits)
  show "set_strategy e n cfg c = (Ok u, c') \<Longrightarrow> contract_inv tk self c'"
    using assms strat by (auto simp: set_strategy_def call_map_Ok contract_inv_def ct_surplus_def dest!: contract_admin_Ok)
qed

lemma contract_step_inv:
  assumes "contract_inv tk self c" "contract_enabled tk self eo c"
  shows "contract_inv tk self (contract_step tk self eo c)"
proof -
  obtain ev o1 where eo: "eo = (ev, o1)" by fastforce
  note cm = commit_inv [of "contract_inv tk self", OF assms(1)]
  show ?thesis
  proof (cases o1)
    case (Vault v)
    then show ?thesis
      using vault_step_covered [OF contract_vault_solvent [OF assms(1)] _ refl] assms(2) eo
      by (auto intro!: vault_change_inv [OF assms(1)])
  next
    case (DepositReward d p a x e)
    then show ?thesis using deposit_reward_inv [OF assms(1), of "host_env self ev"] eo by (auto intro!: cm)
  next
    case (BatchClaim p bids)
    then show ?thesis using batch_claim_rewards_inv [OF assms(1), of "host_env self ev"] eo by (auto intro!: cm)
  next
    case (DustReconcileCall cl a r)
    then show ?thesis using reconcile_reward_dust_inv [OF assms(1), of "host_env self ev"] assms(2) eo by (auto intro!: cm)
  next
    case (MigrateToken t)
    then show ?thesis using migrate_stake_token_inv [OF assms(1)] assms(2) eo by (auto intro!: cm simp: on_vault_Ok)
  next
    case (Foreign w)
    then show ?thesis using assms eo pool_change_inv [OF assms(1), of "ct_rewards c" w] by (simp add: contract_inv_def)
  qed (use eo quiet_module_calls [OF assms(1)] in \<open>auto intro!: cm\<close>)
qed

interpretation contract: guarded_system "contract_enabled tk self" "contract_step tk self" "contract_inv tk self" "contract_backed tk self"
  for tk :: "'w token_if" and self
  by unfold_locales (auto intro: contract_step_inv contract_inv_backed)

section \<open>Properties\<close>





end
