(* ===== verification/QueueRefinement.thy ===== *)
theory QueueRefinement
  imports VaultQueue
begin



text \<open>The specification: nothing happens, a new account joins at the back, or some are served at the front.\<close>

inductive fifo_step :: "'a list \<Rightarrow> 'a list \<Rightarrow> bool" where
  fifo_idle: "fifo_step q q"
| fifo_join: "x \<notin> set q \<Longrightarrow> fifo_step q (q @ [x])"
| fifo_serve: "fifo_step q (drop n q)"

inductive_cases fifo_stepE: "fifo_step q q'"


lemma fifo_distinct: "fifo_step q q' \<Longrightarrow> distinct q \<Longrightarrow> distinct q'"
  by (auto elim!: fifo_stepE)

section \<open>Calls\<close>










section \<open>The calls implement the specification\<close>













section \<open>Properties\<close>



end
