(* ===== verification/FeeAccrual.thy ===== *)
theory FeeAccrual
  imports Host
begin

text \<open>
  Deterministic fee accrual (\<open>stake_vault/src/fee_accrual.rs\<close>): fee income is divided over shares by a
  scaled accumulator; remainders are carried over exactly. The functions work on a state and a
  position they mutate in place, so a failing call is modelled with what it wrote before it failed.
  The module's header states its invariants; here they are proved for every history of calls on any
  number of positions.
\<close>

datatype FeeAccrualError = InvalidAmount | NonMonotonicLedger | Overflow | InsufficientShares | NothingToClaim

record FeeAccrualState =
  acc_fee_per_share :: int
  total_shares :: int
  carry :: int
  fa_dust_scaled :: int
  total_deposited :: int
  total_distributed :: int
  last_ledger_seq :: nat
  last_timestamp :: nat
  fa_epoch :: nat

record StakerFeePosition =
  fp_staker :: addr
  shares :: int
  fee_debt :: int
  realized :: int

record AccrualUpdate =
  au_epoch :: nat
  au_deposited :: int
  au_distributed :: int
  au_per_share_delta :: int
  au_carry :: int
  au_acc :: int
  au_total_shares :: int
  au_ledger_seq :: nat
  au_timestamp :: nat

record SlashSettlement =
  settled :: int
  slashed_shares :: int
  shares_before :: int
  shares_after :: int
  sl_realized :: int
  sl_total_shares :: int

definition ACC_PRECISION :: int where "ACC_PRECISION = 1000000000000"

definition new_state :: FeeAccrualState where
  "new_state = \<lparr>acc_fee_per_share = 0, total_shares = 0, carry = 0, fa_dust_scaled = 0, total_deposited = 0,
     total_distributed = 0, last_ledger_seq = 0, last_timestamp = 0, fa_epoch = 0\<rparr>"

definition new_position :: "addr \<Rightarrow> StakerFeePosition" where
  "new_position st = \<lparr>fp_staker = st, shares = 0, fee_debt = 0, realized = 0\<rparr>"

section \<open>Arithmetic\<close>

definition fadd :: "int \<Rightarrow> int \<Rightarrow> (FeeAccrualError, int) res" where
  "fadd a b = ok_or Overflow (checked_add a b)"

definition fsub :: "int \<Rightarrow> int \<Rightarrow> (FeeAccrualError, int) res" where
  "fsub a b = ok_or Overflow (checked_sub a b)"

definition fmul :: "int \<Rightarrow> int \<Rightarrow> (FeeAccrualError, int) res" where
  "fmul a b = ok_or Overflow (checked_mul a b)"

definition accumulated_for :: "int \<Rightarrow> int \<Rightarrow> (FeeAccrualError, int) res" where
  "accumulated_for sh acc = res_then (fmul sh acc) (\<lambda>scaled. Ok (tdiv scaled ACC_PRECISION))"

definition debt_checkpoint :: "int \<Rightarrow> int \<Rightarrow> (FeeAccrualError, int) res" where
  "debt_checkpoint sh acc = res_then (fmul sh acc) (\<lambda>scaled.
     let floor = tdiv scaled ACC_PRECISION
     in if tmod scaled ACC_PRECISION = 0 then Ok floor else fadd floor 1)"

section \<open>Operations\<close>

text \<open>The delta of the accumulator and the scaled remainder of a pool.\<close>

definition divide_pool :: "int \<Rightarrow> int \<Rightarrow> (FeeAccrualError, int \<times> int) res" where
  "divide_pool pool_scaled n =
     (if n = 0 then Ok (0, pool_scaled)
      else let delta = tdiv pool_scaled n
           in res_then (fmul delta n) (\<lambda>m. res_then (fsub pool_scaled m) (\<lambda>r. Ok (delta, r))))"

definition accrue_deposit ::
  "int \<Rightarrow> nat \<Rightarrow> nat \<Rightarrow> FeeAccrualState \<Rightarrow> (FeeAccrualState, FeeAccrualError, AccrualUpdate) outcome" where
  "accrue_deposit amount ledger_seq timestamp s =
     (if amount \<le> 0 then (Err InvalidAmount, s)
      else if ledger_seq < last_ledger_seq s \<or> timestamp < last_timestamp s then (Err NonMonotonicLedger, s)
      else and_then (fadd amount (carry s), s) (\<lambda>pool s.
        and_then (fmul pool ACC_PRECISION, s) (\<lambda>m s.
        and_then (fadd m (fa_dust_scaled s), s) (\<lambda>pool_scaled s.
        and_then (divide_pool pool_scaled (total_shares s), s) (\<lambda>dr s.
        let delta = fst dr; remainder = snd dr; c = tdiv remainder ACC_PRECISION
        in and_then (fsub pool c, s) (\<lambda>distributed s.
        and_then (fadd (acc_fee_per_share s) delta, s) (\<lambda>acc s.
        let s = s\<lparr>acc_fee_per_share := acc, carry := c, fa_dust_scaled := tmod remainder ACC_PRECISION\<rparr>
        in and_then (fadd (total_deposited s) amount, s) (\<lambda>deposited s.
        let s = s\<lparr>total_deposited := deposited\<rparr>
        in and_then (fadd (total_distributed s) distributed, s) (\<lambda>dist s.
        let s = s\<lparr>total_distributed := dist, last_ledger_seq := ledger_seq, last_timestamp := timestamp,
                  fa_epoch := u64_sat_add (fa_epoch s) 1\<rparr>
        in (Ok \<lparr>au_epoch = fa_epoch s, au_deposited = amount, au_distributed = distributed, au_per_share_delta = delta,
                au_carry = carry s, au_acc = acc_fee_per_share s, au_total_shares = total_shares s,
                au_ledger_seq = ledger_seq, au_timestamp = timestamp\<rparr>, s))))))))))"

definition settle :: "FeeAccrualState \<Rightarrow> StakerFeePosition \<Rightarrow> (StakerFeePosition, FeeAccrualError, int) outcome" where
  "settle s p =
     and_then (accumulated_for (shares p) (acc_fee_per_share s), p) (\<lambda>accumulated p.
       if accumulated \<le> fee_debt p then (Ok 0, p)
       else and_then (fsub accumulated (fee_debt p), p) (\<lambda>newly p.
            and_then (fadd (realized p) newly, p) (\<lambda>r p.
              (Ok newly, p\<lparr>realized := r, fee_debt := accumulated\<rparr>))))"

text \<open>Settling on the position, with the state beside it.\<close>

type_synonym fee_pair = "FeeAccrualState \<times> StakerFeePosition"

definition settle_pair :: "fee_pair \<Rightarrow> (fee_pair, FeeAccrualError, int) outcome" where
  "settle_pair sp = zoom snd (\<lambda>p sp. (fst sp, p)) (settle (fst sp)) sp"

text \<open>The tail of every share change: new share counts, then the checkpoint.\<close>

definition put_shares :: "(int \<Rightarrow> int \<Rightarrow> (FeeAccrualError, int) res) \<Rightarrow> int \<Rightarrow> fee_pair \<Rightarrow> (fee_pair, FeeAccrualError, unit) outcome" where
  "put_shares f amount sp =
     and_then (f (shares (snd sp)) amount, sp) (\<lambda>n sp.
     let sp = (fst sp, (snd sp)\<lparr>shares := n\<rparr>)
     in and_then (f (total_shares (fst sp)) amount, sp) (\<lambda>t sp.
     let sp = ((fst sp)\<lparr>total_shares := t\<rparr>, snd sp)
     in and_then (debt_checkpoint (shares (snd sp)) (acc_fee_per_share (fst sp)), sp) (\<lambda>d sp.
          (Ok (), fst sp, (snd sp)\<lparr>fee_debt := d\<rparr>))))"

definition add_shares :: "int \<Rightarrow> fee_pair \<Rightarrow> (fee_pair, FeeAccrualError, unit) outcome" where
  "add_shares amount sp =
     (if amount \<le> 0 then (Err InvalidAmount, sp)
      else and_then (settle_pair sp) (\<lambda>_. put_shares fadd amount))"

definition remove_shares :: "int \<Rightarrow> fee_pair \<Rightarrow> (fee_pair, FeeAccrualError, unit) outcome" where
  "remove_shares amount sp =
     (if amount \<le> 0 then (Err InvalidAmount, sp)
      else if shares (snd sp) < amount then (Err InsufficientShares, sp)
      else and_then (settle_pair sp) (\<lambda>_. put_shares fsub amount))"

text \<open>A slash computes on copies: a failure leaves the pair as it was.\<close>

definition apply_slash :: "int \<Rightarrow> fee_pair \<Rightarrow> (fee_pair, FeeAccrualError, SlashSettlement) outcome" where
  "apply_slash amount sp =
     (if amount \<le> 0 then (Err InvalidAmount, sp)
      else if shares (snd sp) \<le> 0 then (Err InsufficientShares, sp)
      else let slashed = (if shares (snd sp) < amount then shares (snd sp) else amount); before = shares (snd sp)
      in commit sp (and_then (settle_pair sp) (\<lambda>n next. and_then (put_shares fsub slashed next) (\<lambda>_ next.
           (Ok \<lparr>settled = n, slashed_shares = slashed, shares_before = before, shares_after = shares (snd next),
                sl_realized = realized (snd next), sl_total_shares = total_shares (fst next)\<rparr>, next)))))"

definition claim :: "FeeAccrualState \<Rightarrow> StakerFeePosition \<Rightarrow> (StakerFeePosition, FeeAccrualError, int) outcome" where
  "claim s p =
     and_then (settle s p) (\<lambda>_ p.
       if realized p \<le> 0 then (Err NothingToClaim, p)
       else (Ok (realized p), p\<lparr>realized := 0\<rparr>))"

definition pending :: "FeeAccrualState \<Rightarrow> StakerFeePosition \<Rightarrow> (FeeAccrualError, int) res" where
  "pending s p =
     res_then (accumulated_for (shares p) (acc_fee_per_share s)) (\<lambda>accumulated.
     res_then (fsub accumulated (fee_debt p)) (\<lambda>u. fadd (realized p) (if u < 0 then 0 else u)))"

section \<open>Entitlements\<close>

text \<open>What a position is owed, in scaled units.\<close>

definition entitlement :: "int \<Rightarrow> StakerFeePosition \<Rightarrow> int" where
  "entitlement acc p = realized p * ACC_PRECISION + max 0 (shares p * acc - fee_debt p * ACC_PRECISION)"

definition position_ok :: "StakerFeePosition \<Rightarrow> bool" where
  "position_ok p \<longleftrightarrow> 0 \<le> shares p \<and> 0 \<le> fee_debt p \<and> 0 \<le> realized p \<and> in_i128 (realized p) \<and> in_i128 (fee_debt p)"

lemma fee_arith_Ok [simp]:
  "fadd a b = Ok c \<longleftrightarrow> c = a + b \<and> in_i128 (a + b)" "fsub a b = Ok c \<longleftrightarrow> c = a - b \<and> in_i128 (a - b)"
  "fmul a b = Ok c \<longleftrightarrow> c = a * b \<and> in_i128 (a * b)"
  by (auto simp: fadd_def fsub_def fmul_def ok_or_Ok)

lemma accumulated_for_Ok:
  assumes "0 \<le> sh" "0 \<le> acc"
  shows "accumulated_for sh acc = Ok n \<longleftrightarrow> in_i128 (sh * acc) \<and> n = sh * acc div ACC_PRECISION"
  using assms tdiv_nonneg [of "sh * acc" ACC_PRECISION]
  by (auto simp: accumulated_for_def res_then_Ok ACC_PRECISION_def)

lemma debt_checkpoint_Ok:
  assumes "0 \<le> sh" "0 \<le> acc" "debt_checkpoint sh acc = Ok d"
  shows "0 \<le> d" "sh * acc \<le> d * ACC_PRECISION" "in_i128 d" "sh * acc div ACC_PRECISION \<le> d"
proof -
  let ?x = "sh * acc"
  have nn: "0 \<le> ?x" using assms by simp
  have t: "tdiv ?x ACC_PRECISION = ?x div ACC_PRECISION" "tmod ?x ACC_PRECISION = ?x mod ACC_PRECISION"
    using nn by (simp_all add: tdiv_nonneg tmod_nonneg ACC_PRECISION_def)
  have x: "in_i128 ?x" and d: "d = (if ?x mod ACC_PRECISION = 0 then ?x div ACC_PRECISION else ?x div ACC_PRECISION + 1)"
    and dd: "in_i128 d \<or> ?x mod ACC_PRECISION = 0"
    using assms(3) unfolding debt_checkpoint_def Let_def res_then_Ok by (auto simp: t split: if_splits)
  have q: "0 \<le> ?x div ACC_PRECISION" "?x div ACC_PRECISION \<le> ?x"
    using nn zdiv_mono2 [of ?x 1 ACC_PRECISION] by (simp_all add: ACC_PRECISION_def pos_imp_zdiv_nonneg_iff)
  show "0 \<le> d" "?x div ACC_PRECISION \<le> d" using d q by auto
  have "?x mod ACC_PRECISION = 0 \<longrightarrow> ?x = ?x div ACC_PRECISION * ACC_PRECISION" by auto
  moreover have "?x < ACC_PRECISION * (?x div ACC_PRECISION) + ACC_PRECISION" by (rule div_floor(2)) (simp add: ACC_PRECISION_def)
  ultimately show "?x \<le> d * ACC_PRECISION" using d by (simp add: ring_distribs mult.commute split: if_splits)
  show "in_i128 d" using dd d in_i128_between [OF x] q by (auto split: if_splits)
qed

lemma settle_Ok:
  assumes "0 \<le> shares p" "0 \<le> acc_fee_per_share s"
  shows "settle s p = (Ok n, p') \<longleftrightarrow> in_i128 (shares p * acc_fee_per_share s) \<and>
    (let a = shares p * acc_fee_per_share s div ACC_PRECISION
     in if a \<le> fee_debt p then n = 0 \<and> p' = p
        else n = a - fee_debt p \<and> in_i128 n \<and> in_i128 (realized p + n) \<and> p' = p\<lparr>realized := realized p + n, fee_debt := a\<rparr>)"
  using assms by (auto simp: settle_def and_then_Ok accumulated_for_Ok Let_def)

text \<open>Settling moves what was accrued to \<open>realized\<close> and changes no entitlement.\<close>

lemma settle_facts:
  assumes "position_ok p" "0 \<le> acc_fee_per_share s" "settle s p = (Ok n, p')"
  shows "position_ok p'" "shares p' = shares p" "0 \<le> n" "realized p' = realized p + n"
    "entitlement (acc_fee_per_share s) p' = entitlement (acc_fee_per_share s) p"
    "n = max 0 (shares p * acc_fee_per_share s div ACC_PRECISION - fee_debt p)"
proof -
  let ?x = "shares p * acc_fee_per_share s"
  have sh: "0 \<le> shares p" using assms(1) by (simp add: position_ok_def)
  note k = assms(3) [unfolded settle_Ok [OF sh assms(2)] Let_def]
  have x: "in_i128 ?x" "0 \<le> ?x" using k sh assms(2) by auto
  have q: "0 \<le> ?x div ACC_PRECISION" "?x div ACC_PRECISION \<le> ?x"
    using x(2) zdiv_mono2 [of ?x 1 ACC_PRECISION] by (simp_all add: ACC_PRECISION_def pos_imp_zdiv_nonneg_iff)
  have f: "ACC_PRECISION * (?x div ACC_PRECISION) \<le> ?x" by (rule div_floor(1)) (simp add: ACC_PRECISION_def)
  show n: "n = max 0 (?x div ACC_PRECISION - fee_debt p)" using k by (auto split: if_splits)
  then show "0 \<le> n" by simp
  show "shares p' = shares p" "realized p' = realized p + n" using k by (auto split: if_splits)
  show "position_ok p'"
    using k assms(1) q in_i128_between [OF x(1) q] by (auto simp: position_ok_def split: if_splits)
  show "entitlement (acc_fee_per_share s) p' = entitlement (acc_fee_per_share s) p"
  proof (cases "?x div ACC_PRECISION \<le> fee_debt p")
    case False
    have "fee_debt p * ACC_PRECISION \<le> (?x div ACC_PRECISION) * ACC_PRECISION"
      using False by (intro mult_right_mono) (auto simp: ACC_PRECISION_def)
    moreover have "realized p' = realized p + (?x div ACC_PRECISION - fee_debt p)" "fee_debt p' = ?x div ACC_PRECISION" "shares p' = shares p"
      using k False by auto
    ultimately show ?thesis using f by (simp add: entitlement_def ring_distribs mult.commute [of _ ACC_PRECISION])
  qed (use k in auto)
qed

text \<open>A checkpoint leaves exactly what is realized.\<close>

lemma put_shares_Ok:
  "put_shares f x (s, p) = (Ok u, s', p') \<longleftrightarrow> (\<exists>n t d. f (shares p) x = Ok n \<and> f (total_shares s) x = Ok t \<and>
     debt_checkpoint n (acc_fee_per_share s) = Ok d \<and> s' = s\<lparr>total_shares := t\<rparr> \<and> p' = p\<lparr>shares := n, fee_debt := d\<rparr>)"
  by (auto simp: put_shares_def and_then_Ok Let_def)

lemma put_shares_facts:
  assumes "position_ok p" "0 \<le> acc_fee_per_share s" "put_shares f x (s, p) = (Ok u, s', p')" "0 \<le> shares p'"
  shows "position_ok p'" "realized p' = realized p" "entitlement (acc_fee_per_share s) p' = realized p * ACC_PRECISION"
    "acc_fee_per_share s' = acc_fee_per_share s" "shares p' * acc_fee_per_share s div ACC_PRECISION \<le> fee_debt p'"
proof -
  from assms(3) obtain n t d where k: "debt_checkpoint n (acc_fee_per_share s) = Ok d" "s' = s\<lparr>total_shares := t\<rparr>"
    "p' = p\<lparr>shares := n, fee_debt := d\<rparr>"
    unfolding put_shares_Ok by blast
  have "0 \<le> n" using assms(4) k(3) by simp
  note d = debt_checkpoint_Ok [OF this assms(2) k(1)]
  show "position_ok p'" "realized p' = realized p" using assms(1) k(3) d \<open>0 \<le> n\<close> by (auto simp: position_ok_def)
  show "entitlement (acc_fee_per_share s) p' = realized p * ACC_PRECISION"
    using k(3) d(2) by (simp add: entitlement_def max_def)
  show "acc_fee_per_share s' = acc_fee_per_share s" "shares p' * acc_fee_per_share s div ACC_PRECISION \<le> fee_debt p'"
    using k(2,3) d(4) by auto
qed

lemma entitlement_realized: "position_ok p \<Longrightarrow> realized p * ACC_PRECISION \<le> entitlement acc p"
  by (simp add: entitlement_def)

lemma share_change_facts:
  assumes "position_ok p" "0 \<le> acc_fee_per_share s" "settle s p = (Ok n, p1)" "put_shares f x (s, p1) = (Ok u, s', p')" "0 \<le> shares p'"
  shows "position_ok p'" "entitlement (acc_fee_per_share s) p' \<le> entitlement (acc_fee_per_share s) p"
    "acc_fee_per_share s' = acc_fee_per_share s" "realized p' = realized p + n"
    "shares p' * acc_fee_per_share s div ACC_PRECISION \<le> fee_debt p'"
  using settle_facts [OF assms(1-3)] put_shares_facts [OF _ assms(2,4,5)] entitlement_realized [of p1 "acc_fee_per_share s"]
  by auto

section \<open>Histories over many positions\<close>

text \<open>
  The state, the positions of the stakers, and what has been paid out so far (which the module does
  not store). A call persists its result when it succeeds.
\<close>

record fee_system =
  fs_state :: FeeAccrualState
  fs_positions :: "(addr, StakerFeePosition) smap"
  fs_paid :: int

datatype fee_op =
    FeeDeposit int nat nat
  | FeeAddShares addr int
  | FeeRemoveShares addr int
  | FeeSlash addr int
  | FeeClaim addr

definition position_of :: "fee_system \<Rightarrow> addr \<Rightarrow> StakerFeePosition" where
  "position_of f st = opt_or (new_position st) (sget (fs_positions f) st)"

definition put_pair :: "addr \<Rightarrow> fee_pair \<Rightarrow> fee_system \<Rightarrow> fee_system" where
  "put_pair st sp f = f\<lparr>fs_state := fst sp, fs_positions := sset st (snd sp) (fs_positions f)\<rparr>"

definition on_pair :: "addr \<Rightarrow> (fee_pair \<Rightarrow> (fee_pair, FeeAccrualError, 'a) outcome) \<Rightarrow> fee_system \<Rightarrow> (fee_system, FeeAccrualError, 'a) outcome" where
  "on_pair st g f = zoom (\<lambda>f. (fs_state f, position_of f st)) (put_pair st) g f"

fun fee_step :: "fee_op \<Rightarrow> fee_system \<Rightarrow> fee_system" where
  "fee_step (FeeDeposit x seq ts) f = snd (commit f (zoom fs_state (\<lambda>s f. f\<lparr>fs_state := s\<rparr>) (accrue_deposit x seq ts) f))"
| "fee_step (FeeAddShares st x) f = snd (commit f (on_pair st (add_shares x) f))"
| "fee_step (FeeRemoveShares st x) f = snd (commit f (on_pair st (remove_shares x) f))"
| "fee_step (FeeSlash st x) f = snd (commit f (on_pair st (apply_slash x) f))"
| "fee_step (FeeClaim st) f =
     (case claim (fs_state f) (position_of f st) of
        (Ok x, p) \<Rightarrow> f\<lparr>fs_positions := sset st p (fs_positions f), fs_paid := fs_paid f + x\<rparr>
      | _ \<Rightarrow> f)"

definition fee_owed :: "fee_system \<Rightarrow> int" where
  "fee_owed f = ssum (\<lambda>_ p. entitlement (acc_fee_per_share (fs_state f)) p) (fs_positions f)"

definition shares_sum :: "fee_system \<Rightarrow> int" where
  "shares_sum f = ssum (\<lambda>_ p. shares p) (fs_positions f)"

text \<open>The bookkeeping of deposits: non-negative, and every remainder is carried.\<close>

definition state_ok :: "FeeAccrualState \<Rightarrow> bool" where
  "state_ok s \<longleftrightarrow> 0 \<le> acc_fee_per_share s \<and> 0 \<le> carry s \<and> 0 \<le> fa_dust_scaled s \<and>
     total_deposited s = total_distributed s + carry s"

definition fee_inv :: "fee_system \<Rightarrow> bool" where
  "fee_inv f \<longleftrightarrow> swf (fs_positions f) \<and> sall (\<lambda>_ p. position_ok p) (fs_positions f) \<and> state_ok (fs_state f) \<and>
     total_shares (fs_state f) = shares_sum f \<and>
     fee_owed f + carry (fs_state f) * ACC_PRECISION + fa_dust_scaled (fs_state f) + fs_paid f * ACC_PRECISION
       \<le> total_deposited (fs_state f) * ACC_PRECISION"

lemma new_position_ok [simp]: "position_ok (new_position st)" "shares (new_position st) = 0" "entitlement acc (new_position st) = 0"
  by (simp_all add: new_position_def position_ok_def entitlement_def)

lemma position_of_ok: "sall (\<lambda>_ p. position_ok p) (fs_positions f) \<Longrightarrow> position_ok (position_of f st)"
  by (cases "sget (fs_positions f) st") (auto simp: position_of_def sall_def)

lemma sum_put_position:
  assumes "swf (fs_positions f)" "g st (new_position st) = 0"
  shows "ssum g (sset st p (fs_positions f)) = ssum g (fs_positions f) - g st (position_of f st) + g st p"
  using assms by (cases "sget (fs_positions f) st") (auto simp: ssum_sset position_of_def)

text \<open>A deposit: the pool is the amount plus what was carried, and what is not credited per share is carried again.\<close>

lemma divide_pool_facts:
  assumes "divide_pool x n = Ok (d, r)" "0 \<le> x" "0 \<le> n"
  shows "0 \<le> d" "x = d * n + r" "0 \<le> r"
proof -
  have "0 \<le> d \<and> x = d * n + r \<and> 0 \<le> r"
  proof (cases "n = 0")
    case False
    then have n: "0 < n" using assms(3) by simp
    have "d = x div n" "r = x - d * n"
      using assms(1,2) n tdiv_nonneg [of x n] by (auto simp: divide_pool_def Let_def res_then_Ok)
    then show ?thesis using assms(2) n div_floor(1) [OF n, of x] by (simp add: pos_imp_zdiv_nonneg_iff mult.commute)
  qed (use assms in \<open>auto simp: divide_pool_def\<close>)
  then show "0 \<le> d" "x = d * n + r" "0 \<le> r" by auto
qed

lemma accrue_deposit_Ok:
  assumes "accrue_deposit x seq ts s = (Ok a, s')"
  obtains d r where "0 < x" "divide_pool ((x + carry s) * ACC_PRECISION + fa_dust_scaled s) (total_shares s) = Ok (d, r)"
    "s' = s\<lparr>acc_fee_per_share := acc_fee_per_share s + d, carry := tdiv r ACC_PRECISION,
      fa_dust_scaled := tmod r ACC_PRECISION, total_deposited := total_deposited s + x,
      total_distributed := total_distributed s + (x + carry s - tdiv r ACC_PRECISION),
      last_ledger_seq := seq, last_timestamp := ts, fa_epoch := u64_sat_add (fa_epoch s) 1\<rparr>"
  using assms by (auto simp: accrue_deposit_def and_then_Ok Let_def split: if_splits)

lemma accrue_deposit_facts:
  assumes "accrue_deposit x seq ts s = (Ok a, s')" "state_ok s" "0 \<le> total_shares s"
  obtains d where "0 \<le> d" "acc_fee_per_share s' = acc_fee_per_share s + d" "total_shares s' = total_shares s" "state_ok s'"
    "total_deposited s' = total_deposited s + x"
    "d * total_shares s + carry s' * ACC_PRECISION + fa_dust_scaled s' = (x + carry s) * ACC_PRECISION + fa_dust_scaled s"
proof -
  from accrue_deposit_Ok [OF assms(1)] obtain d r where k: "0 < x"
    "divide_pool ((x + carry s) * ACC_PRECISION + fa_dust_scaled s) (total_shares s) = Ok (d, r)"
    "s' = s\<lparr>acc_fee_per_share := acc_fee_per_share s + d, carry := tdiv r ACC_PRECISION,
      fa_dust_scaled := tmod r ACC_PRECISION, total_deposited := total_deposited s + x,
      total_distributed := total_distributed s + (x + carry s - tdiv r ACC_PRECISION),
      last_ledger_seq := seq, last_timestamp := ts, fa_epoch := u64_sat_add (fa_epoch s) 1\<rparr>" .
  have "0 \<le> (x + carry s) * ACC_PRECISION + fa_dust_scaled s"
    using k(1) assms(2) by (auto simp: state_ok_def ACC_PRECISION_def)
  note dr = divide_pool_facts [OF k(2) this assms(3)]
  have t: "tdiv r ACC_PRECISION = r div ACC_PRECISION" "tmod r ACC_PRECISION = r mod ACC_PRECISION"
    using dr(3) by (simp_all add: tdiv_nonneg tmod_nonneg ACC_PRECISION_def)
  have "0 \<le> r div ACC_PRECISION" "0 \<le> r mod ACC_PRECISION"
    using dr(3) by (simp_all add: ACC_PRECISION_def pos_imp_zdiv_nonneg_iff)
  then show thesis
    using k(3) t dr assms(2) by (intro that [of d]) (auto simp: state_ok_def)
qed

lemma entitlement_grows:
  assumes "position_ok p" "0 \<le> d"
  shows "entitlement (acc + d) p \<le> entitlement acc p + d * shares p"
proof -
  have "0 \<le> d * shares p" using assms by (simp add: position_ok_def)
  then show ?thesis by (simp add: entitlement_def ring_distribs mult.commute)
qed

lemma fee_deposit_inv:
  assumes "fee_inv f" "accrue_deposit x seq ts (fs_state f) = (Ok a, s')"
  shows "fee_inv (f\<lparr>fs_state := s'\<rparr>)"
proof -
  have inv: "swf (fs_positions f)" "sall (\<lambda>_ p. position_ok p) (fs_positions f)" "state_ok (fs_state f)"
    "total_shares (fs_state f) = shares_sum f"
    using assms(1) by (simp_all add: fee_inv_def)
  have "0 \<le> shares_sum f" unfolding shares_sum_def
    by (rule ssum_nonneg) (use inv(1,2) in \<open>force simp: sall_mem position_ok_def\<close>)
  then have "0 \<le> total_shares (fs_state f)" using inv(4) by simp
  from accrue_deposit_facts [OF assms(2) inv(3) this] obtain d where d: "0 \<le> d"
    "acc_fee_per_share s' = acc_fee_per_share (fs_state f) + d" "total_shares s' = total_shares (fs_state f)" "state_ok s'"
    "total_deposited s' = total_deposited (fs_state f) + x"
    "d * total_shares (fs_state f) + carry s' * ACC_PRECISION + fa_dust_scaled s' =
      (x + carry (fs_state f)) * ACC_PRECISION + fa_dust_scaled (fs_state f)" .
  have "fee_owed (f\<lparr>fs_state := s'\<rparr>) \<le> ssum (\<lambda>_ p. entitlement (acc_fee_per_share (fs_state f)) p + d * shares p) (fs_positions f)"
    unfolding fee_owed_def
    by (simp add: d(2)) (rule ssum_mono, use inv(1,2) d(1) entitlement_grows in \<open>force simp: sall_mem\<close>)
  also have "\<dots> = fee_owed f + d * total_shares (fs_state f)"
    unfolding fee_owed_def inv(4) shares_sum_def by (simp add: ssum_add ssum_mult)
  finally have "fee_owed (f\<lparr>fs_state := s'\<rparr>) \<le> fee_owed f + d * total_shares (fs_state f)" .
  then show ?thesis
    using assms(1) d inv by (auto simp: fee_inv_def shares_sum_def ring_distribs)
qed

text \<open>A share change or a slash: entitlements only shrink, and the totals move together.\<close>

lemma fee_pair_inv:
  assumes "fee_inv f" "position_ok p'" "acc_fee_per_share s' = acc_fee_per_share (fs_state f)"
    "entitlement (acc_fee_per_share (fs_state f)) p' \<le> entitlement (acc_fee_per_share (fs_state f)) (position_of f st)"
    "s' = (fs_state f)\<lparr>total_shares := total_shares (fs_state f) - shares (position_of f st) + shares p'\<rparr>"
  shows "fee_inv (put_pair st (s', p') f)"
proof -
  have inv: "swf (fs_positions f)" "sall (\<lambda>_ p. position_ok p) (fs_positions f)" using assms(1) by (simp_all add: fee_inv_def)
  have "fee_owed (put_pair st (s', p') f) = fee_owed f - entitlement (acc_fee_per_share (fs_state f)) (position_of f st)
      + entitlement (acc_fee_per_share (fs_state f)) p'"
    using sum_put_position [OF inv(1), of "\<lambda>_ p. entitlement (acc_fee_per_share (fs_state f)) p" st p'] assms(3)
    by (simp add: fee_owed_def put_pair_def)
  moreover have "shares_sum (put_pair st (s', p') f) = shares_sum f - shares (position_of f st) + shares p'"
    using sum_put_position [OF inv(1), of "\<lambda>_ p. shares p" st p'] by (simp add: shares_sum_def put_pair_def)
  ultimately show ?thesis
    using assms inv by (auto simp: fee_inv_def put_pair_def state_ok_def)
qed

lemma settle_pair_eq: "settle_pair (s, p) = (r, s', p') \<longleftrightarrow> settle s p = (r, p') \<and> s' = s"
  by (auto simp: settle_pair_def zoom_eq)

lemma share_change_inv:
  assumes "fee_inv f" "settle_pair (fs_state f, position_of f st) = (Ok n, sp1)" "put_shares g x sp1 = (Ok u, s', p')"
    "\<And>a. (\<exists>b. g a x = Ok b) \<Longrightarrow> g a x = Ok (a + y)" "0 \<le> shares (position_of f st) + y"
  shows "fee_inv (put_pair st (s', p') f)"
proof -
  obtain p1 where sp1: "sp1 = (fs_state f, p1)" and se: "settle (fs_state f) (position_of f st) = (Ok n, p1)"
    using assms(2) by (cases sp1) (auto simp: settle_pair_eq)
  have ok: "position_ok (position_of f st)" "0 \<le> acc_fee_per_share (fs_state f)"
    using assms(1) position_of_ok by (auto simp: fee_inv_def state_ok_def)
  have sh1: "shares p1 = shares (position_of f st)" by (rule settle_facts(2) [OF ok se])
  from assms(3) [unfolded sp1 put_shares_Ok] obtain a t d where k: "g (shares p1) x = Ok a" "g (total_shares (fs_state f)) x = Ok t"
    "s' = (fs_state f)\<lparr>total_shares := t\<rparr>" "p' = p1\<lparr>shares := a, fee_debt := d\<rparr>"
    by blast
  have a: "a = shares (position_of f st) + y" "t = total_shares (fs_state f) + y"
    using assms(4) [of "shares p1"] assms(4) [of "total_shares (fs_state f)"] k(1,2) sh1 by auto
  have pos: "0 \<le> shares p'" using k(4) a(1) assms(5) by simp
  note f = share_change_facts [OF ok se assms(3) [unfolded sp1] pos]
  show ?thesis
    by (rule fee_pair_inv [OF assms(1) f(1) f(3) f(2)]) (use k(3,4) a in auto)
qed

lemma add_shares_inv:
  assumes "fee_inv f" "add_shares x (fs_state f, position_of f st) = (Ok u, sp')"
  shows "fee_inv (put_pair st sp' f)"
proof -
  from assms(2) obtain n sp1 where k: "0 < x" "settle_pair (fs_state f, position_of f st) = (Ok n, sp1)"
    "put_shares fadd x sp1 = (Ok u, sp')"
    by (auto simp: add_shares_def and_then_Ok split: if_splits)
  obtain s' p' where sp': "sp' = (s', p')" by fastforce
  have "0 \<le> shares (position_of f st)" using assms(1) position_of_ok [of f st] by (simp add: fee_inv_def position_ok_def)
  then show ?thesis unfolding sp'
    by (intro share_change_inv [OF assms(1) k(2) k(3) [unfolded sp'], of x]) (use k(1) in auto)
qed

lemma remove_shares_inv:
  assumes "fee_inv f" "settle_pair (fs_state f, position_of f st) = (Ok n, sp1)" "put_shares fsub x sp1 = (Ok u, sp')"
    "x \<le> shares (position_of f st)"
  shows "fee_inv (put_pair st sp' f)"
proof -
  obtain s' p' where sp': "sp' = (s', p')" by fastforce
  show ?thesis unfolding sp'
    by (rule share_change_inv [OF assms(1,2) assms(3) [unfolded sp'], of "- x"]) (use assms(4) in auto)
qed

lemma claim_inv:
  assumes "fee_inv f" "claim (fs_state f) (position_of f st) = (Ok x, p')"
  shows "fee_inv (f\<lparr>fs_positions := sset st p' (fs_positions f), fs_paid := fs_paid f + x\<rparr>)"
proof -
  have ok: "position_ok (position_of f st)" "0 \<le> acc_fee_per_share (fs_state f)" and inv: "swf (fs_positions f)"
    using assms(1) position_of_ok by (auto simp: fee_inv_def state_ok_def)
  from assms(2) obtain n p1 where k: "settle (fs_state f) (position_of f st) = (Ok n, p1)" "x = realized p1" "p' = p1\<lparr>realized := 0\<rparr>"
    by (auto simp: claim_def and_then_Ok split: if_splits)
  note e = settle_facts [OF ok k(1)]
  let ?acc = "acc_fee_per_share (fs_state f)"
  have ent: "entitlement ?acc p' = entitlement ?acc (position_of f st) - x * ACC_PRECISION"
    using e(5) k(2,3) by (simp add: entitlement_def)
  have "position_ok p'" using e(1) k(3) by (simp add: position_ok_def)
  moreover have "shares p' = shares (position_of f st)" using e(2) k(3) by simp
  ultimately show ?thesis
    using assms(1) inv ent sum_put_position [OF inv, of "\<lambda>_ p. entitlement ?acc p" st p']
      sum_put_position [OF inv, of "\<lambda>_ p. shares p" st p']
    by (auto simp: fee_inv_def fee_owed_def shares_sum_def ring_distribs)
qed

lemma fee_step_inv:
  assumes "fee_inv f"
  shows "fee_inv (fee_step o1 f)"
proof (cases o1)
  case (FeeDeposit x seq ts)
  show ?thesis unfolding FeeDeposit fee_step.simps
    by (rule commit_inv [of fee_inv]) (use assms fee_deposit_inv in \<open>auto simp: zoom_eq\<close>)
next
  case (FeeAddShares st x)
  show ?thesis unfolding FeeAddShares fee_step.simps on_pair_def
    by (rule commit_inv [of fee_inv]) (use assms add_shares_inv in \<open>auto simp: zoom_eq\<close>)
next
  case (FeeRemoveShares st x)
  show ?thesis unfolding FeeRemoveShares fee_step.simps on_pair_def
    by (rule commit_inv [of fee_inv])
      (use assms remove_shares_inv in \<open>auto simp: zoom_eq remove_shares_def and_then_Ok split: if_splits\<close>)
next
  case (FeeSlash st x)
  show ?thesis unfolding FeeSlash fee_step.simps on_pair_def
    by (rule commit_inv [of fee_inv])
      (use assms remove_shares_inv in \<open>auto simp: zoom_eq apply_slash_def and_then_Ok commit_Ok Let_def split: if_splits\<close>)
next
  case (FeeClaim st)
  show ?thesis unfolding FeeClaim fee_step.simps
    using assms claim_inv by (auto split: prod.splits res.splits)
qed

section \<open>What positions can claim\<close>

lemma pending_Ok:
  assumes "position_ok p" "0 \<le> acc_fee_per_share s"
  shows "pending s p = Ok x \<longleftrightarrow> in_i128 (shares p * acc_fee_per_share s) \<and>
    x = realized p + max 0 (shares p * acc_fee_per_share s div ACC_PRECISION - fee_debt p) \<and> in_i128 x"
proof -
  let ?x = "shares p * acc_fee_per_share s"
  have sh: "0 \<le> shares p" using assms(1) by (simp add: position_ok_def)
  have "in_i128 (?x div ACC_PRECISION - fee_debt p)" if "in_i128 ?x"
  proof -
    have "0 \<le> ?x" using sh assms(2) by simp
    then have "0 \<le> ?x div ACC_PRECISION" "?x div ACC_PRECISION \<le> ?x"
      using zdiv_mono2 [of ?x 1 ACC_PRECISION] by (simp_all add: ACC_PRECISION_def pos_imp_zdiv_nonneg_iff)
    then show ?thesis using that assms(1) by (auto simp: position_ok_def in_i128_def i128_min_def i128_max_def)
  qed
  then show ?thesis
    using sh assms(2) by (auto simp: pending_def res_then_Ok accumulated_for_Ok max_def)
qed

definition pending_value :: "FeeAccrualState \<Rightarrow> StakerFeePosition \<Rightarrow> int" where
  "pending_value s p = (case pending s p of Ok x \<Rightarrow> x | _ \<Rightarrow> 0)"

lemma pending_value_entitled:
  assumes "position_ok p" "0 \<le> acc_fee_per_share s"
  shows "pending_value s p * ACC_PRECISION \<le> entitlement (acc_fee_per_share s) p"
proof (cases "pending s p")
  case (Ok x)
  let ?x = "shares p * acc_fee_per_share s"
  have x: "x = realized p + max 0 (?x div ACC_PRECISION - fee_debt p)" using Ok pending_Ok [OF assms] by simp
  have "ACC_PRECISION * (?x div ACC_PRECISION) \<le> ?x" by (rule div_floor(1)) (simp add: ACC_PRECISION_def)
  then have "max 0 (?x div ACC_PRECISION - fee_debt p) * ACC_PRECISION \<le> max 0 (?x - fee_debt p * ACC_PRECISION)"
    by (auto simp: max_def ring_distribs mult.commute ACC_PRECISION_def)
  then show ?thesis using Ok x by (simp add: pending_value_def entitlement_def ring_distribs)
qed (use assms in \<open>simp_all add: pending_value_def entitlement_def position_ok_def ACC_PRECISION_def\<close>)

definition fees_backed :: "fee_system \<Rightarrow> bool" where
  "fees_backed f \<longleftrightarrow>
     ssum (\<lambda>_ p. pending_value (fs_state f) p) (fs_positions f) + carry (fs_state f) + fs_paid f \<le> total_deposited (fs_state f) \<and>
     total_deposited (fs_state f) = total_distributed (fs_state f) + carry (fs_state f) \<and>
     total_shares (fs_state f) = ssum (\<lambda>_ p. shares p) (fs_positions f)"

lemma fee_inv_backed:
  assumes "fee_inv f"
  shows "fees_backed f"
proof -
  have inv: "swf (fs_positions f)" "sall (\<lambda>_ p. position_ok p) (fs_positions f)" "state_ok (fs_state f)"
    using assms by (simp_all add: fee_inv_def)
  have "ssum (\<lambda>_ p. pending_value (fs_state f) p * ACC_PRECISION) (fs_positions f) \<le> fee_owed f"
    unfolding fee_owed_def
    by (rule ssum_mono) (use inv pending_value_entitled in \<open>force simp: sall_mem state_ok_def\<close>)
  then have "(ssum (\<lambda>_ p. pending_value (fs_state f) p) (fs_positions f) + carry (fs_state f) + fs_paid f) * ACC_PRECISION
      \<le> total_deposited (fs_state f) * ACC_PRECISION"
    using assms inv(3) ssum_mult [of ACC_PRECISION "\<lambda>_ p. pending_value (fs_state f) p" "fs_positions f"]
    unfolding fee_inv_def state_ok_def by (simp only: ring_distribs mult.commute [of _ ACC_PRECISION]) linarith
  then have "ssum (\<lambda>_ p. pending_value (fs_state f) p) (fs_positions f) + carry (fs_state f) + fs_paid f \<le> total_deposited (fs_state f)"
    by (simp add: ACC_PRECISION_def)
  then show ?thesis using assms by (auto simp: fees_backed_def fee_inv_def state_ok_def shares_sum_def)
qed

interpretation fees: invariant_system fee_step fee_inv fees_backed
  by unfold_locales (auto intro: fee_step_inv fee_inv_backed)

definition fees_empty :: fee_system where
  "fees_empty = \<lparr>fs_state = new_state, fs_positions = [], fs_paid = 0\<rparr>"

lemma fees_empty_inv: "fee_inv fees_empty"
  by (simp add: fee_inv_def fees_empty_def new_state_def state_ok_def shares_sum_def fee_owed_def)

section \<open>Properties\<close>

text \<open>
  (C5) Fee accrual never promises more than it received. After every history of deposits, share
  changes, slashes and claims over any accounts, what all positions can still claim, plus the carried
  remainder, plus everything already paid out is at most what was deposited; the deposits are exactly
  what was distributed plus the carry; and the total of the shares is the sum over the positions.
\<close>

theorem fee_accrual_solvent: "fees_backed (fold fee_step ops fees_empty)"
  by (rule fees.run_safe [OF fees_empty_inv])

text \<open>
  A slash takes principal only. A successful \<open>apply_slash\<close> removes the amount, at most all of the
  shares, from the position and from the total, and what the position can claim at that moment is
  exactly what it could claim before.
\<close>

theorem slash_keeps_rewards:
  assumes "position_ok p" "0 \<le> acc_fee_per_share s" "apply_slash x (s, p) = (Ok out, s', p')"
  shows "shares p' = shares p - min x (shares p) \<and> total_shares s' = total_shares s - min x (shares p) \<and>
    0 \<le> shares p' \<and> pending s' p' = pending s p \<and> acc_fee_per_share s' = acc_fee_per_share s"
proof -
  define y where "y = (if shares p < x then shares p else x)"
  have y: "y = min x (shares p)" by (auto simp: y_def)
  from assms(3) obtain n p1 where k: "settle s p = (Ok n, p1)" "put_shares fsub y (s, p1) = (Ok (), s', p')" and x: "0 < x"
    by (auto simp: apply_slash_def Let_def commit_Ok and_then_Ok settle_pair_eq y_def split: if_splits)
  note e = settle_facts [OF assms(1,2) k(1)]
  have sh: "shares p' = shares p - y" "total_shares s' = total_shares s - y"
    using k(2) e(2) unfolding put_shares_Ok by auto
  have pos: "0 \<le> shares p'" using sh(1) y by simp
  note f = share_change_facts [OF assms(1,2) k(1,2) pos]
  have in0: "in_i128 (shares p * acc_fee_per_share s)"
    using k(1) assms(1,2) settle_Ok [of p s n p1] by (simp add: position_ok_def)
  have "0 \<le> shares p' * acc_fee_per_share s" "shares p' * acc_fee_per_share s \<le> shares p * acc_fee_per_share s"
    using pos assms(2) sh(1) x y assms(1) by (auto intro!: mult_right_mono simp: position_ok_def)
  then have in1: "in_i128 (shares p' * acc_fee_per_share s)" using in_i128_between [OF in0] by blast
  have acc: "0 \<le> acc_fee_per_share s'" using f(3) assms(2) by simp
  have "pending s' p' = Ok (realized p')"
    using in1 f(5) f(1) by (subst pending_Ok [OF f(1) acc]) (simp add: f(3) position_ok_def)
  moreover have "pending s p = Ok (realized p')"
    using in0 e(4,6) f(1,4) by (subst pending_Ok [OF assms(1,2)]) (simp add: position_ok_def)
  ultimately show ?thesis using sh pos f(3) y by simp
qed

theorem slash_keeps_rewards_witness:
  "\<exists>s' p' out. apply_slash 60 (new_state\<lparr>acc_fee_per_share := ACC_PRECISION, total_shares := 100\<rparr>,
      (new_position 3)\<lparr>shares := 100, fee_debt := 40\<rparr>) = (Ok out, s', p') \<and> shares p' = 40"
proof -
  let ?s = "new_state\<lparr>acc_fee_per_share := ACC_PRECISION, total_shares := 100\<rparr>"
  let ?p = "(new_position 3)\<lparr>shares := 100, fee_debt := 40\<rparr>"
  obtain out s' p' where r: "apply_slash 60 (?s, ?p) = (Ok out, s', p')"
    by (simp add: apply_slash_def settle_pair_def zoom_def settle_def accumulated_for_def put_shares_def debt_checkpoint_def
        fmul_def fsub_def fadd_def checked_mul_def checked_sub_def checked_add_def in_i128_def i128_min_def i128_max_def
        ACC_PRECISION_def new_state_def new_position_def tdiv_def tmod_def Let_def)
  have "position_ok ?p" by (simp add: position_ok_def new_position_def in_i128_def i128_min_def i128_max_def)
  moreover have "0 \<le> acc_fee_per_share ?s" by (simp add: ACC_PRECISION_def)
  ultimately have "shares p' = shares ?p - min 60 (shares ?p)" using slash_keeps_rewards [OF _ _ r] by blast
  then show ?thesis using r by (auto simp: new_position_def)
qed

text \<open>Two accounts with one share and two shares, and a deposit of one unit.\<close>

definition rounded_down :: fee_system where
  "rounded_down = fold fee_step [FeeAddShares 1 1, FeeAddShares 2 2, FeeDeposit 1 5 5] fees_empty"

text \<open>
  The header of the module also states that what was deposited equals the pending amounts plus
  the carry. That is not so: two accounts with one share and two shares and a deposit of one unit
  leave a pending total and a carry of zero.
\<close>

theorem pending_plus_carry_below_deposits:
  "total_deposited (fs_state rounded_down) = 1 \<and> carry (fs_state rounded_down) = 0 \<and>
    ssum (\<lambda>_ p. pending_value (fs_state rounded_down) p) (fs_positions rounded_down) = 0"
proof -
  have r: "rounded_down = \<lparr>fs_state = \<lparr>acc_fee_per_share = 333333333333, total_shares = 3, carry = 0, fa_dust_scaled = 1,
       total_deposited = 1, total_distributed = 1, last_ledger_seq = 5, last_timestamp = 5, fa_epoch = 1\<rparr>,
     fs_positions = [(1, \<lparr>fp_staker = 1, shares = 1, fee_debt = 0, realized = 0\<rparr>), (2, \<lparr>fp_staker = 2, shares = 2, fee_debt = 0, realized = 0\<rparr>)],
     fs_paid = 0\<rparr>"
    by (simp add: rounded_down_def fees_empty_def new_state_def on_pair_def zoom_def position_of_def new_position_def put_pair_def
        add_shares_def settle_pair_def settle_def accumulated_for_def put_shares_def debt_checkpoint_def accrue_deposit_def
        divide_pool_def fmul_def fsub_def fadd_def checked_mul_def checked_sub_def checked_add_def in_i128_def i128_min_def
        i128_max_def ACC_PRECISION_def tdiv_def tmod_def Let_def u64_sat_add_def u64_max_def)
  show ?thesis unfolding r
    by (simp add: pending_value_def pending_def accumulated_for_def fmul_def fsub_def fadd_def checked_mul_def checked_sub_def
        checked_add_def in_i128_def i128_min_def i128_max_def ACC_PRECISION_def tdiv_def)
qed

end
