(* ===== verification/CampaignSplit.thy ===== *)
theory CampaignSplit
  imports VaultTypes
begin

text \<open>
  The weighted split of \<open>stake_vault/src/reward_campaign.rs\<close> (issue #1202): recipients are put into
  address order, everybody gets the rounded-down share, and what is left is handed out one unit at a
  time by the largest-remainder rule.
\<close>

datatype CampaignError =
    CampaignNotFound
  | CampaignClosed
  | InvalidAmount
  | InvalidClaimWindow
  | InsufficientCampaignFunds
  | InvalidRecipients
  | BatchSizeInvalid
  | AllocationNotClaimable
  | AllocationExpired
  | AllocationNotExpired
  | OutstandingLiabilities
  | Overflow
  | CampaignNotPending
  | WrongFundingAsset
  | InvalidVestingSchedule
  | VestingNotFound
  | NothingVested
  | ClaimLimitExceeded

definition MAX_CAMPAIGN_BATCH :: nat where "MAX_CAMPAIGN_BATCH = 50"

definition campaign_add :: "int \<Rightarrow> int \<Rightarrow> (CampaignError, int) res" where
  "campaign_add a b = ok_or CampaignError.Overflow (checked_add a b)"

section \<open>Canonical order\<close>

text \<open>Insertion at the first greater address; an equal one is refused.\<close>

fun insert_recipient :: "addr \<times> nat \<Rightarrow> (addr \<times> nat) list \<Rightarrow> (CampaignError, (addr \<times> nat) list) res" where
  "insert_recipient (a, w) [] = Ok [(a, w)]"
| "insert_recipient (a, w) ((b, v) # rest) =
     (if b = a then Err InvalidRecipients
      else if a < b then Ok ((a, w) # (b, v) # rest)
      else res_then (insert_recipient (a, w) rest) (\<lambda>rest. Ok ((b, v) # rest)))"

fun sort_recipients :: "(addr \<times> nat) list \<Rightarrow> (addr \<times> nat) list \<Rightarrow> (CampaignError, (addr \<times> nat) list) res" where
  "sort_recipients [] canonical = Ok canonical"
| "sort_recipients ((a, w) # rest) canonical =
     (if w = 0 then Err InvalidRecipients
      else res_then (insert_recipient (a, w) canonical) (sort_recipients rest))"

section \<open>Shares\<close>

fun sum_weights :: "(addr \<times> nat) list \<Rightarrow> int \<Rightarrow> (CampaignError, int) res" where
  "sum_weights [] acc = Ok acc"
| "sum_weights ((a, w) # rest) acc = res_then (campaign_add acc (int w)) (sum_weights rest)"

text \<open>Rounded-down shares, remainders and the sum of the shares.\<close>

fun floor_shares :: "int \<Rightarrow> int \<Rightarrow> (addr \<times> nat) list \<Rightarrow> int \<Rightarrow> (CampaignError, int list \<times> int list \<times> int) res" where
  "floor_shares amount total_weight [] floor_sum = Ok ([], [], floor_sum)"
| "floor_shares amount total_weight ((a, w) # rest) floor_sum =
     res_then (ok_or CampaignError.Overflow (checked_mul amount (int w))) (\<lambda>scaled.
     res_then (campaign_add floor_sum (tdiv scaled total_weight)) (\<lambda>floor_sum.
     res_then (floor_shares amount total_weight rest floor_sum) (\<lambda>(shares, fractions, floor_sum).
       Ok (tdiv scaled total_weight # shares, tmod scaled total_weight # fractions, floor_sum))))"

text \<open>The scan for the largest remainder: the first one wins, recipients that were served are marked \<open>-1\<close>.\<close>

definition best_remainder :: "int list \<Rightarrow> nat option" where
  "best_remainder fractions =
     fold (\<lambda>i best.
       if fractions ! i < 0 then best
       else case best of
         Some b \<Rightarrow> if fractions ! i \<le> fractions ! b then best else Some i
       | None \<Rightarrow> Some i) [0..<length fractions] None"

fun hand_out :: "nat \<Rightarrow> int list \<Rightarrow> int list \<Rightarrow> (CampaignError, int list) res" where
  "hand_out 0 shares fractions = Ok shares"
| "hand_out (Suc remainder) shares fractions =
     (case best_remainder fractions of
        None \<Rightarrow> Err CampaignError.Overflow
      | Some b \<Rightarrow>
          if \<not> in_i128 (shares ! b + 1) then Panic
          else hand_out remainder (shares[b := shares ! b + 1]) (fractions[b := - 1]))"

definition split_by_weight :: "int \<Rightarrow> (addr \<times> nat) list \<Rightarrow> (CampaignError, (addr \<times> int) list) res" where
  "split_by_weight amount recipients =
     (if amount \<le> 0 then Err CampaignError.InvalidAmount
      else if recipients = [] \<or> MAX_CAMPAIGN_BATCH < length recipients then Err InvalidRecipients
      else
        res_then (sort_recipients recipients []) (\<lambda>canonical.
        res_then (sum_weights canonical 0) (\<lambda>total_weight.
        res_then (floor_shares amount total_weight canonical 0) (\<lambda>(shares, fractions, floor_sum).
        res_then (hand_out (nat (amount - floor_sum)) shares fractions) (\<lambda>shares.
          Ok (zip (map fst canonical) shares))))))"

section \<open>Canonical order is sorting\<close>

definition recipients_ok :: "(addr \<times> nat) list \<Rightarrow> bool" where
  "recipients_ok rs \<longleftrightarrow> distinct (map fst rs) \<and> (\<forall>r \<in> set rs. 0 < snd r)"

lemma insert_recipient_sorted:
  assumes "swf rs"
  shows "insert_recipient (a, w) rs =
    (if a \<in> fst ` set rs then Err InvalidRecipients else Ok (sset a w rs))"
  using assms
proof (induction "(a, w)" rs rule: insert_recipient.induct)
  case (2 b v rest)
  have "a \<notin> fst ` set rest" if "a < b" using "2.prems" that by (auto simp: swf_Cons)
  then show ?case using 2 by (auto simp: swf_Cons)
qed simp

lemma sort_recipients_eq:
  assumes "swf acc"
  shows "sort_recipients rs acc =
    (if recipients_ok rs \<and> fst ` set rs \<inter> fst ` set acc = {} then Ok (fold (\<lambda>(a, w). sset a w) rs acc) else Err InvalidRecipients)"
  using assms
proof (induction rs acc rule: sort_recipients.induct)
  case (2 a w rest acc)
  show ?case
  proof (cases "w = 0 \<or> a \<in> fst ` set acc")
    case True
    then show ?thesis using 2 by (auto simp: recipients_ok_def insert_recipient_sorted)
  next
    case False
    then have "sort_recipients ((a, w) # rest) acc = sort_recipients rest (sset a w acc)"
      using 2 by (simp add: insert_recipient_sorted)
    also have "\<dots> = (if recipients_ok rest \<and> fst ` set rest \<inter> fst ` set (sset a w acc) = {}
        then Ok (fold (\<lambda>(a, w). sset a w) rest (sset a w acc)) else Err InvalidRecipients)"
      using 2 False by (simp add: insert_recipient_sorted)
    finally show ?thesis using False by (auto simp: recipients_ok_def keys_sset)
  qed
qed (simp add: recipients_ok_def)

lemma swf_eqI: "swf m \<Longrightarrow> swf m' \<Longrightarrow> set m = set m' \<Longrightarrow> m = m'"
  by (rule map_sorted_distinct_set_unique [of fst])
    (auto simp: swf_def strict_sorted_iff distinct_map intro: inj_on_subset)

lemma fold_sset:
  assumes "recipients_ok rs" "fst ` set rs \<inter> fst ` set acc = {}" "swf acc"
  shows "swf (fold (\<lambda>(a, w). sset a w) rs acc) \<and> set (fold (\<lambda>(a, w). sset a w) rs acc) = set rs \<union> set acc"
  using assms
proof (induction rs arbitrary: acc)
  case (Cons r rs)
  obtain a w where r: "r = (a, w)" by (cases r)
  have new: "a \<notin> fst ` set acc" using Cons.prems(2) r by auto
  have "set (sset a w acc) = insert (a, w) (set acc)"
    using new by (induction a w acc rule: sset.induct) auto
  then show ?case
    using Cons.IH [of "sset a w acc"] Cons.prems r by (auto simp: recipients_ok_def keys_sset)
qed simp

definition canonical_order :: "(addr \<times> nat) list \<Rightarrow> (addr \<times> nat) list" where
  "canonical_order rs = fold (\<lambda>(a, w). sset a w) rs []"

lemma canonical_order:
  assumes "recipients_ok rs"
  shows "swf (canonical_order rs)" "set (canonical_order rs) = set rs" "recipients_ok (canonical_order rs)"
    "length (canonical_order rs) = length rs"
proof -
  show f: "swf (canonical_order rs)" "set (canonical_order rs) = set rs"
    using fold_sset [of rs "[]"] assms by (simp_all add: canonical_order_def)
  then show ok: "recipients_ok (canonical_order rs)"
    using assms swf_distinct [OF f(1)] by (simp add: recipients_ok_def)
  show "length (canonical_order rs) = length rs"
    using ok assms f(2) by (metis distinct_card distinct_map recipients_ok_def)
qed

lemma sort_recipients_Ok:
  "sort_recipients rs [] = (if recipients_ok rs then Ok (canonical_order rs) else Err InvalidRecipients)"
  by (simp add: sort_recipients_eq canonical_order_def)

lemma canonical_order_perm:
  assumes "recipients_ok rs" "recipients_ok rs'" "set rs = set rs'"
  shows "canonical_order rs = canonical_order rs'"
  using canonical_order [OF assms(1)] canonical_order [OF assms(2)] assms(3) by (auto intro: swf_eqI)

section \<open>Shares and remainders\<close>

definition total_weight :: "(addr \<times> nat) list \<Rightarrow> int" where
  "total_weight rs = (\<Sum>r\<leftarrow>rs. int (snd r))"

lemma sum_weights_Ok: "sum_weights rs acc = Ok W \<Longrightarrow> W = acc + total_weight rs"
  by (induction rs acc rule: sum_weights.induct) (fastforce simp: res_then_Ok campaign_add_def ok_or_Ok total_weight_def)+

lemma total_weight_pos: "recipients_ok rs \<Longrightarrow> rs \<noteq> [] \<Longrightarrow> 0 < total_weight rs"
proof (induction rs)
  case (Cons r rs)
  have "0 \<le> total_weight rs" unfolding total_weight_def by (rule sum_list_nonneg) auto
  then show ?case using Cons by (auto simp: recipients_ok_def total_weight_def)
qed simp

definition floors :: "int \<Rightarrow> int \<Rightarrow> (addr \<times> nat) list \<Rightarrow> int list" where
  "floors T W rs = map (\<lambda>r. T * int (snd r) div W) rs"

definition remainders :: "int \<Rightarrow> int \<Rightarrow> (addr \<times> nat) list \<Rightarrow> int list" where
  "remainders T W rs = map (\<lambda>r. T * int (snd r) mod W) rs"

lemma floor_shares_Ok:
  assumes "floor_shares T W rs acc = Ok (sh, fr, F)" "0 < T" "0 < W"
  shows "sh = floors T W rs \<and> fr = remainders T W rs \<and> F = acc + sum_list (floors T W rs)"
  using assms
proof (induction T W rs acc arbitrary: sh fr F rule: floor_shares.induct)
  case (2 T W a w rest acc)
  then show ?case
    by (fastforce simp: res_then_Ok ok_or_Ok campaign_add_def floors_def remainders_def tdiv_nonneg tmod_nonneg)
qed (simp add: floors_def remainders_def)

text \<open>The remainders add up to the missing units times the total weight.\<close>

lemma remainders_sum:
  "sum_list (remainders T W rs) = T * total_weight rs - W * sum_list (floors T W rs)"
proof (induction rs)
  case (Cons r rs)
  have "T * int (snd r) mod W = T * int (snd r) - W * (T * int (snd r) div W)"
    by (simp add: minus_mult_div_eq_mod)
  then show ?case using Cons by (simp add: remainders_def floors_def total_weight_def algebra_simps)
qed (simp add: remainders_def floors_def total_weight_def)

section \<open>The scan and the hand-out\<close>

abbreviation eligible :: "int list \<Rightarrow> nat set" where
  "eligible fr \<equiv> {i. i < length fr \<and> 0 \<le> fr ! i}"

text \<open>\<open>i\<close> is served before \<open>j\<close>: a larger remainder, or the same one and an earlier position.\<close>

definition ahead :: "int list \<Rightarrow> nat \<Rightarrow> nat \<Rightarrow> bool" where
  "ahead fr i j \<longleftrightarrow> fr ! j < fr ! i \<or> fr ! j = fr ! i \<and> i < j"

lemma best_remainder_scan:
  fixes fr :: "int list"
  defines "f \<equiv> \<lambda>i best. if fr ! i < 0 then best
       else case best of Some b \<Rightarrow> if fr ! i \<le> fr ! b then best else Some i | None \<Rightarrow> Some i"
  shows "case fold f [0..<m] None of
     None \<Rightarrow> \<forall>i < m. fr ! i < 0
   | Some b \<Rightarrow> b < m \<and> 0 \<le> fr ! b \<and> (\<forall>i < m. 0 \<le> fr ! i \<longrightarrow> i \<noteq> b \<longrightarrow> ahead fr b i)"
proof (induction m)
  case (Suc m)
  have step: "fold f [0..<Suc m] None = f m (fold f [0..<m] None)" by simp
  show ?case
    unfolding step using Suc
    by (cases "fold f [0..<m] None") (auto simp: f_def ahead_def less_Suc_eq split: if_splits)
qed simp

lemma best_remainder_None: "best_remainder fr = None \<Longrightarrow> eligible fr = {}"
  using best_remainder_scan [where fr = fr and m = "length fr"] by (auto simp: best_remainder_def)

lemma best_remainder_Some:
  assumes "best_remainder fr = Some b"
  shows "b \<in> eligible fr" "\<And>i. i \<in> eligible fr \<Longrightarrow> i \<noteq> b \<Longrightarrow> ahead fr b i"
  using best_remainder_scan [where fr = fr and m = "length fr"] assms by (auto simp: best_remainder_def)

text \<open>The units go to the positions that are ahead of all others.\<close>

definition served_first :: "int list \<Rightarrow> nat set \<Rightarrow> bool" where
  "served_first fr S \<longleftrightarrow> S \<subseteq> eligible fr \<and> (\<forall>i \<in> S. \<forall>j \<in> eligible fr - S. ahead fr i j)"

definition bumped :: "nat set \<Rightarrow> int list \<Rightarrow> int list" where
  "bumped S sh = map (\<lambda>i. sh ! i + (if i \<in> S then 1 else 0)) [0..<length sh]"

lemma eligible_served: "b < length fr \<Longrightarrow> eligible (fr[b := - 1]) = eligible fr - {b}"
  by (auto simp: nth_list_update)

lemma served_first_insert:
  assumes "best_remainder fr = Some b" "served_first (fr[b := - 1]) S"
  shows "served_first fr (insert b S)" "b \<notin> S"
proof -
  note best = best_remainder_Some [OF assms(1)]
  have S: "S \<subseteq> eligible fr - {b}" "\<And>i j. i \<in> S \<Longrightarrow> j \<in> eligible fr - {b} - S \<Longrightarrow> ahead (fr[b := - 1]) i j"
    using assms(2) best(1) eligible_served [of b fr] unfolding served_first_def by blast+
  show "b \<notin> S" using S(1) by blast
  have "ahead fr i j" if "i \<in> S" "j \<in> eligible fr - {b} - S" for i j
  proof -
    have "i \<noteq> b" "j \<noteq> b" using S(1) that by auto
    then show ?thesis using S(2) [OF that] by (simp add: ahead_def)
  qed
  then show "served_first fr (insert b S)"
    using best S(1) unfolding served_first_def by blast
qed

lemma hand_out_Ok:
  assumes "hand_out k sh fr = Ok sh'" "length sh = length fr"
  shows "\<exists>S. served_first fr S \<and> card S = k \<and> sh' = bumped S sh"
  using assms
proof (induction k sh fr rule: hand_out.induct)
  case (1 sh fr)
  have "served_first fr {} \<and> card ({} :: nat set) = 0 \<and> sh = bumped {} sh"
    by (simp add: served_first_def bumped_def map_nth)
  then show ?case using 1 by fastforce
next
  case (2 k sh fr)
  from "2.prems" obtain b where b: "best_remainder fr = Some b" "in_i128 (sh ! b + 1)"
    and run: "hand_out k (sh[b := sh ! b + 1]) (fr[b := - 1]) = Ok sh'"
    by (auto split: option.splits if_splits)
  then obtain S where S: "served_first (fr[b := - 1]) S" "card S = k" "sh' = bumped S (sh[b := sh ! b + 1])"
    using "2.IH" [OF b(1)] "2.prems"(2) by auto
  note ins = served_first_insert [OF b(1) S(1)]
  have "finite S" using S(1) by (auto simp: served_first_def intro: finite_subset [of _ "{..<length fr}"])
  then have "card (insert b S) = Suc k" using S(2) ins(2) by simp
  moreover have "sh' = bumped (insert b S) sh"
    unfolding S(3) bumped_def using ins(2) best_remainder_Some(1) [OF b(1)] "2.prems"(2)
    by (auto simp: nth_list_update intro!: map_cong)
  ultimately show ?case using ins(1) by blast
qed

lemma hand_out_total:
  assumes "k \<le> card (eligible fr)" "length sh = length fr" "\<And>i. i \<in> eligible fr \<Longrightarrow> in_i128 (sh ! i + 1)"
  shows "\<exists>sh'. hand_out k sh fr = Ok sh'"
  using assms
proof (induction k sh fr rule: hand_out.induct)
  case (2 k sh fr)
  show ?case
  proof (cases "best_remainder fr")
    case None
    then show ?thesis using "2.prems"(1) by (simp add: best_remainder_None [OF None])
  next
    case (Some b)
    note b = best_remainder_Some [OF Some]
    have e: "eligible (fr[b := - 1]) = eligible fr - {b}" using b(1) eligible_served by blast
    have "\<exists>sh'. hand_out k (sh[b := sh ! b + 1]) (fr[b := - 1]) = Ok sh'"
    proof (rule "2.IH" [OF Some])
      show "k \<le> card (eligible (fr[b := - 1]))" unfolding e using "2.prems"(1) b(1) by simp
      show "in_i128 (sh[b := sh ! b + 1] ! i + 1)" if "i \<in> eligible (fr[b := - 1])" for i
        using that "2.prems"(3) [of i] unfolding e by auto
    qed (use "2.prems"(2,3) b(1) in auto)
    then show ?thesis using Some "2.prems"(3) b(1) by simp
  qed
qed simp

section \<open>The whole split\<close>

text \<open>A successful split in closed form.\<close>

lemma split_by_weight_Ok:
  assumes "split_by_weight T rs = Ok out"
  obtains S cs W where "0 < T" "recipients_ok rs" "rs \<noteq> []" "length rs \<le> MAX_CAMPAIGN_BATCH"
    "cs = canonical_order rs" "W = total_weight cs" "served_first (remainders T W cs) S"
    "card S = nat (T - sum_list (floors T W cs))" "out = zip (map fst cs) (bumped S (floors T W cs))"
proof -
  from assms have pre: "0 < T" "recipients_ok rs" "rs \<noteq> []" "length rs \<le> MAX_CAMPAIGN_BATCH"
    by (auto simp: split_by_weight_def sort_recipients_Ok split: if_splits)
  let ?cs = "canonical_order rs"
  from assms pre obtain W sh fr F sh' where run: "sum_weights ?cs 0 = Ok W" "floor_shares T W ?cs 0 = Ok (sh, fr, F)"
    "hand_out (nat (T - F)) sh fr = Ok sh'" "out = zip (map fst ?cs) sh'"
    by (auto simp: split_by_weight_def sort_recipients_Ok res_then_Ok split: if_splits)
  have W: "W = total_weight ?cs" using sum_weights_Ok [OF run(1)] by simp
  have "?cs \<noteq> []" using canonical_order(4) [OF pre(2)] pre(3) by fastforce
  then have pos: "0 < W" using total_weight_pos [OF canonical_order(3) [OF pre(2)]] W by simp
  have f: "sh = floors T W ?cs" "fr = remainders T W ?cs" "F = sum_list (floors T W ?cs)"
    using floor_shares_Ok [OF run(2) pre(1) pos] by simp_all
  have "length sh = length fr" by (simp add: f floors_def remainders_def)
  from hand_out_Ok [OF run(3) this] show thesis using that pre W f run(4) by blast
qed

lemma remainder_bounds:
  assumes "i < length cs" "0 < W"
  shows "0 \<le> remainders T W cs ! i" "remainders T W cs ! i < W"
    "T * int (snd (cs ! i)) = W * (floors T W cs ! i) + remainders T W cs ! i"
  using assms by (simp_all add: remainders_def floors_def)

lemma eligible_all: "0 < W \<Longrightarrow> eligible (remainders T W cs) = {..<length cs}"
  using remainder_bounds(1) [of _ cs W T] by (auto simp: remainders_def)

text \<open>Fewer units are missing than there are positive remainders, so only those get one.\<close>

lemma served_positive:
  assumes "served_first (remainders T W cs) S" "card S = nat (T - sum_list (floors T W cs))"
    "W = total_weight cs" "0 < W" "i \<in> S"
  shows "0 < remainders T W cs ! i"
proof (rule ccontr)
  let ?fr = "remainders T W cs"
  have len: "length ?fr = length cs" by (simp add: remainders_def)
  assume "\<not> 0 < ?fr ! i"
  moreover have i: "i < length cs" "S \<subseteq> {..<length cs}"
    using assms(1,5) eligible_all [OF assms(4)] by (auto simp: served_first_def)
  ultimately have zero: "?fr ! i = 0" using remainder_bounds(1) [OF i(1) assms(4), of T] by simp
  have rest: "?fr ! j = 0" if "j < length cs" "j \<notin> S" for j
  proof -
    have "ahead ?fr i j" using assms(1,5) that eligible_all [OF assms(4)] by (auto simp: served_first_def)
    then show ?thesis using zero remainder_bounds(1) [OF that(1) assms(4), of T] by (simp add: ahead_def)
  qed
  have fin: "finite S" using i(2) finite_subset by blast
  have "sum_list ?fr = (\<Sum>j<length cs. ?fr ! j)" by (simp add: sum_list_sum_nth len atLeast0LessThan)
  also have "\<dots> = (\<Sum>j\<in>S - {i}. ?fr ! j)"
    by (rule sum.mono_neutral_right) (use i(2) rest zero in auto)
  also have "\<dots> \<le> (\<Sum>j\<in>S - {i}. W)"
    by (rule sum_mono) (use i(2) remainder_bounds(2) [OF _ assms(4), of _ cs T] in \<open>auto intro: less_imp_le\<close>)
  also have "\<dots> = int (card S - 1) * W" using assms(5) fin by simp
  finally have "W * (T - sum_list (floors T W cs)) \<le> int (card S - 1) * W"
    using remainders_sum [of T W cs] assms(3) by (simp add: algebra_simps)
  then have "T - sum_list (floors T W cs) \<le> int (card S - 1)"
    using assms(4) by (simp add: mult.commute)
  moreover have "0 < card S" using assms(5) fin card_gt_0_iff by blast
  ultimately show False using assms(2) by linarith
qed

lemma bumped_sum: "S \<subseteq> {..<length sh} \<Longrightarrow> sum_list (bumped S sh) = sum_list sh + int (card S)"
proof -
  assume S: "S \<subseteq> {..<length sh}"
  have "sum_list (bumped S sh) = (\<Sum>i<length sh. sh ! i + (if i \<in> S then 1 else 0))"
    by (simp add: bumped_def sum_list_sum_nth atLeast0LessThan)
  also have "\<dots> = sum_list sh + (\<Sum>i<length sh. if i \<in> S then 1 else 0)"
    by (simp add: sum.distrib sum_list_sum_nth atLeast0LessThan)
  also have "(\<Sum>i<length sh. if i \<in> S then 1 else 0) = int (card S)"
    using S by (simp add: sum.If_cases Int_absorb1)
  finally show ?thesis .
qed

lemma missing_nonneg:
  assumes "W = total_weight cs" "0 < W"
  shows "0 \<le> T - sum_list (floors T W cs)"
proof -
  have "0 \<le> sum_list (remainders T W cs)"
    by (rule sum_list_nonneg) (use assms(2) in \<open>auto simp: remainders_def\<close>)
  then have "0 \<le> W * (T - sum_list (floors T W cs))"
    using remainders_sum [of T W cs] assms(1) by (simp add: algebra_simps)
  then show ?thesis using assms(2) by (simp add: zero_le_mult_iff)
qed

lemma total_weight_perm: "distinct rs \<Longrightarrow> distinct rs' \<Longrightarrow> set rs = set rs' \<Longrightarrow> total_weight rs = total_weight rs'"
  by (simp add: total_weight_def sum_list_distinct_conv_sum_set)

lemma recipients_ok_distinct: "recipients_ok rs \<Longrightarrow> distinct rs"
  by (auto simp: recipients_ok_def distinct_map)

text \<open>A recipient's share, by position in the canonical order.\<close>

lemma share_at:
  assumes "i < length cs" "recipients_ok cs"
  shows "sget_or 0 (zip (map fst cs) (bumped S (floors T W cs))) (fst (cs ! i)) =
    floors T W cs ! i + (if i \<in> S then 1 else 0)"
proof -
  let ?ys = "bumped S (floors T W cs)"
  have len: "length ?ys = length cs" by (simp add: bumped_def floors_def)
  have "sget (zip (map fst cs) ?ys) (map fst cs ! i) = Some (?ys ! i)"
    using assms len by (intro map_of_zip_nth) (simp_all add: recipients_ok_def)
  then have "sget_or 0 (zip (map fst cs) ?ys) (fst (cs ! i)) = ?ys ! i"
    using assms(1) by (intro sget_or_Some) simp
  then show ?thesis using assms(1) by (simp add: bumped_def floors_def)
qed

text \<open>What a split gives to each position of the canonical order.\<close>

definition split_result :: "int \<Rightarrow> (addr \<times> nat) list \<Rightarrow> (addr \<times> nat) list \<Rightarrow> nat set \<Rightarrow> (addr \<times> int) list \<Rightarrow> bool" where
  "split_result T rs cs S out \<longleftrightarrow>
     0 < T \<and> recipients_ok cs \<and> swf cs \<and> set cs = set rs \<and> 0 < total_weight rs \<and> S \<subseteq> {..<length cs} \<and>
     map fst out = map fst cs \<and> sum_list (map snd out) = T \<and>
     (\<forall>i < length cs. sget_or 0 out (fst (cs ! i)) = T * int (snd (cs ! i)) div total_weight rs + (if i \<in> S then 1 else 0)) \<and>
     (\<forall>i \<in> S. 0 < T * int (snd (cs ! i)) mod total_weight rs) \<and>
     (\<forall>i \<in> S. \<forall>j < length cs. j \<notin> S \<longrightarrow> ahead (remainders T (total_weight rs) cs) i j)"

lemma split_result:
  assumes "split_by_weight T rs = Ok out"
  obtains cs S where "split_result T rs cs S out" "distinct (map fst rs)"
proof -
  from assms obtain S cs W where pre: "0 < T" "recipients_ok rs" "rs \<noteq> []" "cs = canonical_order rs" "W = total_weight cs"
    "served_first (remainders T W cs) S" "card S = nat (T - sum_list (floors T W cs))"
    and out: "out = zip (map fst cs) (bumped S (floors T W cs))"
    by (rule split_by_weight_Ok)
  have cs: "swf cs" "set cs = set rs" "recipients_ok cs" "length cs = length rs"
    using canonical_order [OF pre(2)] pre(4) by simp_all
  have W: "W = total_weight rs"
    using total_weight_perm [of cs rs] cs pre(2,5) recipients_ok_distinct by blast
  have pos: "0 < W" using total_weight_pos [OF pre(2,3)] W by simp
  have S: "S \<subseteq> {..<length cs}" using pre(6) eligible_all [OF pos] by (auto simp: served_first_def)
  have amount: "sum_list (map snd out) = T"
    using bumped_sum [of S "floors T W cs"] S pre(7) missing_nonneg [OF pre(5) pos, of T]
    by (simp add: out bumped_def floors_def)
  have share: "sget_or 0 out (fst (cs ! i)) = T * int (snd (cs ! i)) div W + (if i \<in> S then 1 else 0)" if "i < length cs" for i
    using share_at [OF that cs(3), of S T W] that by (simp add: out floors_def)
  have positive: "0 < T * int (snd (cs ! i)) mod W" if "i \<in> S" for i
    using served_positive [OF pre(6,7,5) pos that] S that by (auto simp: remainders_def)
  have "ahead (remainders T W cs) i j" if "i \<in> S" "j < length cs" "j \<notin> S" for i j
    using pre(6) eligible_all [OF pos] that by (auto simp: served_first_def)
  then have "split_result T rs cs S out"
    unfolding split_result_def using pre(1) cs S pos amount share positive W by (simp add: out bumped_def floors_def)
  then show thesis using that pre(2) by (simp add: recipients_ok_def)
qed

lemma split_quota:
  assumes "split_result T rs cs S out" "(a, w) \<in> set rs"
  shows "0 \<le> sget_or 0 out a" "\<bar>sget_or 0 out a * total_weight rs - T * int w\<bar> < total_weight rs"
    "T * int w < sget_or 0 out a * total_weight rs \<Longrightarrow> \<exists>i \<in> S. i < length cs \<and> cs ! i = (a, w)"
    "sget_or 0 out a * total_weight rs < T * int w \<Longrightarrow> \<exists>i. i < length cs \<and> i \<notin> S \<and> cs ! i = (a, w)"
proof -
  let ?W = "total_weight rs" and ?q = "T * int w"
  from assms obtain i where i: "i < length cs" "cs ! i = (a, w)"
    unfolding split_result_def by (metis in_set_conv_nth)
  have share: "sget_or 0 out a = ?q div ?W + (if i \<in> S then 1 else 0)" and pos: "0 < ?W" "0 < T"
    and up: "i \<in> S \<Longrightarrow> 0 < ?q mod ?W"
    using assms(1) i by (auto simp: split_result_def)
  have q: "?q = ?W * (?q div ?W) + ?q mod ?W" "0 \<le> ?q mod ?W" "?q mod ?W < ?W" "0 \<le> ?q div ?W"
    using pos by (simp_all add: pos_imp_zdiv_nonneg_iff)
  show "0 \<le> sget_or 0 out a" using share q(4) by simp
  have "sget_or 0 out a * ?W - ?q = (if i \<in> S then ?W else 0) - ?q mod ?W"
    using q(1) unfolding share by (simp add: algebra_simps)
  then show "\<bar>sget_or 0 out a * ?W - ?q\<bar> < ?W"
    "?q < sget_or 0 out a * ?W \<Longrightarrow> \<exists>i \<in> S. i < length cs \<and> cs ! i = (a, w)"
    "sget_or 0 out a * ?W < ?q \<Longrightarrow> \<exists>i. i < length cs \<and> i \<notin> S \<and> cs ! i = (a, w)"
    using q(2,3) up i by (auto split: if_splits)
qed

lemma split_shares_bounds:
  assumes "split_by_weight T rs = Ok out"
  shows "length out \<le> MAX_CAMPAIGN_BATCH" "\<forall>p \<in> set out. 0 \<le> snd p"
proof -
  from assms obtain cs S where r: "split_result T rs cs S out" "distinct (map fst rs)" by (rule split_result)
  have "rs \<noteq> [] \<and> length rs \<le> MAX_CAMPAIGN_BATCH" using assms by (auto simp: split_by_weight_def split: if_splits)
  moreover have "length out = length rs"
  proof -
    have eq: "map fst out = map fst cs" "distinct cs" "set cs = set rs"
      using r(1) recipients_ok_distinct by (auto simp: split_result_def)
    have "length out = length cs" using map_eq_imp_length_eq [OF eq(1)] .
    also have "\<dots> = card (set rs)" using distinct_card [OF eq(2)] eq(3) by simp
    also have "\<dots> = length rs" using r(2) by (simp add: distinct_map distinct_card)
    finally show ?thesis .
  qed
  ultimately show "length out \<le> MAX_CAMPAIGN_BATCH" by simp
  show "\<forall>p \<in> set out. 0 \<le> snd p"
  proof
    fix p assume p: "p \<in> set out"
    have d: "map fst out = map fst cs" "distinct (map fst cs)" "set cs = set rs" using r(1) by (auto simp: split_result_def recipients_ok_def)
    have "fst p \<in> set (map fst out)" using p by simp
    then have "fst p \<in> fst ` set rs" unfolding d(1) using d(3) by simp
    then obtain w where w: "(fst p, w) \<in> set rs" by auto
    have "distinct (map fst out)" using d(1,2) by simp
    then have "sget out (fst p) = Some (snd p)" using p by simp
    then show "0 \<le> snd p" using split_quota(1) [OF r(1) w] by (simp add: sget_or_def)
  qed
qed

section \<open>The split succeeds\<close>

lemma in_i128_le: "0 \<le> x \<Longrightarrow> x \<le> y \<Longrightarrow> in_i128 y \<Longrightarrow> in_i128 x"
  by (auto simp: arith_defs)

lemma total_weight_nonneg [simp]: "0 \<le> total_weight rs"
  unfolding total_weight_def by (rule sum_list_nonneg) auto

lemma total_weight_le: "\<forall>r \<in> set rs. snd r \<le> m \<Longrightarrow> total_weight rs \<le> int (length rs) * int m"
  by (induction rs) (auto simp: total_weight_def ring_distribs)

lemma sum_weights_total: "0 \<le> acc \<Longrightarrow> in_i128 (acc + total_weight rs) \<Longrightarrow> \<exists>W. sum_weights rs acc = Ok W"
proof (induction rs acc rule: sum_weights.induct)
  case (2 a w rest acc)
  have "in_i128 (acc + int w)"
    by (rule in_i128_le [OF _ _ "2.prems"(2)]) (use "2.prems"(1) total_weight_nonneg [of rest] in \<open>simp_all add: total_weight_def\<close>)
  then show ?case using 2 by (simp add: campaign_add_def checked_add_def total_weight_def algebra_simps)
qed simp

lemma floor_shares_total:
  assumes "0 < T" "0 < W" "0 \<le> acc" "in_i128 (acc + sum_list (floors T W rs))" "\<forall>r \<in> set rs. in_i128 (T * int (snd r))"
  shows "\<exists>x. floor_shares T W rs acc = Ok x"
  using assms(3-5)
proof (induction rs arbitrary: acc)
  case (Cons r rest)
  obtain a w where r: "r = (a, w)" by (cases r)
  let ?q = "T * int w div W"
  have q: "0 \<le> ?q" "tdiv (T * int w) W = ?q" using assms(1,2) by (simp_all add: pos_imp_zdiv_nonneg_iff tdiv_nonneg)
  have "0 \<le> sum_list (floors T W rest)"
    by (rule sum_list_nonneg) (use assms(1,2) in \<open>auto simp: floors_def pos_imp_zdiv_nonneg_iff\<close>)
  then have "in_i128 (acc + ?q)"
    using q Cons.prems(1) by (intro in_i128_le [OF _ _ Cons.prems(2)]) (simp_all add: floors_def r)
  moreover have "\<exists>x. floor_shares T W rest (acc + ?q) = Ok x"
    by (rule Cons.IH) (use Cons.prems q(1) in \<open>auto simp: floors_def r algebra_simps\<close>)
  ultimately show ?case
    using Cons.prems(3) q by (auto simp: r campaign_add_def checked_add_def checked_mul_def)
qed simp

lemma missing_below:
  assumes "W = total_weight cs" "0 < W"
  shows "T - sum_list (floors T W cs) \<le> int (length cs)"
proof -
  have "sum_list (remainders T W cs) \<le> int (length cs) * W"
    using less_imp_le [OF pos_mod_bound [OF assms(2)]]
    by (induction cs) (auto simp: remainders_def ring_distribs intro!: add_mono)
  then have "W * (T - sum_list (floors T W cs)) \<le> W * int (length cs)"
    using remainders_sum [of T W cs] assms(1) by (simp add: algebra_simps)
  then show ?thesis using assms(2) by simp
qed

lemma hand_out_floors:
  assumes "W = total_weight cs" "0 < W" "0 < T" "in_i128 T"
  shows "\<exists>sh. hand_out (nat (T - sum_list (floors T W cs))) (floors T W cs) (remainders T W cs) = Ok sh"
proof (cases "sum_list (floors T W cs) < T")
  case True
  have nonneg: "\<forall>x \<in> set (floors T W cs). 0 \<le> x"
    using assms(2,3) by (auto simp: floors_def pos_imp_zdiv_nonneg_iff)
  show ?thesis
  proof (rule hand_out_total)
    show "nat (T - sum_list (floors T W cs)) \<le> card (eligible (remainders T W cs))"
      using missing_below [OF assms(1,2), of T] by (simp add: eligible_all [OF assms(2)])
    fix i assume "i \<in> eligible (remainders T W cs)"
    then have i: "floors T W cs ! i \<in> set (floors T W cs)" by (simp add: remainders_def floors_def)
    then have "floors T W cs ! i \<le> sum_list (floors T W cs)" using nonneg by (intro member_le_sum_list) auto
    then show "in_i128 (floors T W cs ! i + 1)" using nonneg i True by (intro in_i128_le [OF _ _ assms(4)]) auto
  qed (simp add: floors_def remainders_def)
qed simp

lemma split_total:
  assumes "0 < T" "in_i128 T" "rs \<noteq> []" "length rs \<le> MAX_CAMPAIGN_BATCH" "recipients_ok rs"
    "\<forall>r \<in> set rs. snd r \<le> u32_max \<and> in_i128 (T * int (snd r))"
  shows "\<exists>out. split_by_weight T rs = Ok out"
proof -
  let ?cs = "canonical_order rs" and ?W = "total_weight (canonical_order rs)"
  note cs = canonical_order [OF assms(5)]
  have pos: "0 < ?W" by (rule total_weight_pos [OF cs(3)]) (use cs(4) assms(3) in auto)
  have "?W \<le> int (length ?cs) * int u32_max"
    by (rule total_weight_le) (use assms(6) cs(2) in blast)
  also have "\<dots> \<le> 50 * int u32_max" using assms(4) cs(4) by (simp add: MAX_CAMPAIGN_BATCH_def u32_max_def)
  finally have "in_i128 ?W" using pos by (simp add: arith_defs)
  then obtain W where W: "sum_weights ?cs 0 = Ok W" using sum_weights_total [of 0 ?cs] by auto
  then have W': "W = ?W" using sum_weights_Ok by fastforce
  have "0 \<le> sum_list (floors T ?W ?cs)"
    by (rule sum_list_nonneg) (use pos assms(1) in \<open>auto simp: floors_def pos_imp_zdiv_nonneg_iff\<close>)
  then have "in_i128 (sum_list (floors T ?W ?cs))"
    using missing_nonneg [OF refl pos, of T] by (intro in_i128_le [OF _ _ assms(2)]) auto
  then obtain x where x: "floor_shares T ?W ?cs 0 = Ok x"
    using floor_shares_total [OF assms(1) pos, of 0 ?cs] assms(6) cs(2) by auto
  obtain sh fr F where F: "x = (sh, fr, F)" by (cases x)
  have "sh = floors T ?W ?cs \<and> fr = remainders T ?W ?cs \<and> F = sum_list (floors T ?W ?cs)"
    using floor_shares_Ok [OF x [unfolded F] assms(1) pos] by simp
  with hand_out_floors [OF refl pos assms(1,2)] show ?thesis
    using assms x W W' F by (auto simp: split_by_weight_def sort_recipients_Ok)
qed

section \<open>Properties\<close>

text \<open>
  (C7) A weighted split is exact and fair. A successful split lists every recipient once, in address
  order, and hands out exactly the amount; every share is the recipient's exact proportion rounded
  down or up to the next unit; and among the recipients the ones rounded up are those with the largest
  fractional parts, ties going to the lower address.
\<close>

theorem weighted_split_exact:
  assumes "split_by_weight T rs = Ok out"
  shows "map fst out = sort (map fst rs) \<and> sum_list (map snd out) = T \<and>
    (\<forall>(a, w) \<in> set rs. 0 \<le> sget_or 0 out a \<and> \<bar>sget_or 0 out a * total_weight rs - T * int w\<bar> < total_weight rs) \<and>
    (\<forall>(a, w) \<in> set rs. \<forall>(b, u) \<in> set rs.
       T * int w < sget_or 0 out a * total_weight rs \<longrightarrow> sget_or 0 out b * total_weight rs < T * int u \<longrightarrow>
       T * int u mod total_weight rs < T * int w mod total_weight rs \<or>
       T * int u mod total_weight rs = T * int w mod total_weight rs \<and> a < b)"
proof -
  from assms obtain cs S where r: "split_result T rs cs S out" "distinct (map fst rs)" by (rule split_result)
  then have cs: "swf cs" "set cs = set rs" "map fst out = map fst cs" "sum_list (map snd out) = T"
    and fair: "\<And>i j. i \<in> S \<Longrightarrow> j < length cs \<Longrightarrow> j \<notin> S \<Longrightarrow> ahead (remainders T (total_weight rs) cs) i j"
    and dom: "S \<subseteq> {..<length cs}"
    by (auto simp: split_result_def)
  have "map fst cs = sort (map fst rs)"
    using cs(1,2) r(2) by (intro sorted_distinct_set_unique) (auto simp: swf_def strict_sorted_iff)
  moreover have "T * int u mod total_weight rs < T * int w mod total_weight rs \<or>
       T * int u mod total_weight rs = T * int w mod total_weight rs \<and> a < b"
    if ab: "(a, w) \<in> set rs" "(b, u) \<in> set rs"
      "T * int w < sget_or 0 out a * total_weight rs" "sget_or 0 out b * total_weight rs < T * int u" for a w b u
  proof -
    obtain i where i: "i \<in> S" "i < length cs" "cs ! i = (a, w)" using split_quota(3) [OF r(1) ab(1,3)] by blast
    obtain j where j: "j < length cs" "j \<notin> S" "cs ! j = (b, u)" using split_quota(4) [OF r(1) ab(2,4)] by blast
    have "a < b" if "i < j"
      using sorted_wrt_nth_less [OF cs(1) [unfolded swf_def] that] i j by simp
    then show ?thesis using fair [OF i(1) j(1,2)] i j by (auto simp: ahead_def remainders_def)
  qed
  ultimately show ?thesis using cs(3,4) split_quota(1,2) [OF r(1)] by auto
qed

theorem weighted_split_exact_witness:
  "split_by_weight 10 [(8, 3), (4, 1), (6, 2)] = Ok [(4, 2), (6, 3), (8, 5)] \<and> sum_list (map snd [(4 :: addr, 2), (6, 3), (8, 5 :: int)]) = 10"
proof -
  have run: "split_by_weight 10 [(8, 3), (4, 1), (6, 2)] = Ok [(4, 2), (6, 3), (8, 5)]"
    by (simp add: split_by_weight_def MAX_CAMPAIGN_BATCH_def campaign_add_def checked_add_def checked_mul_def arith_defs
        tdiv_def tmod_def best_remainder_def upt_rec)
  from weighted_split_exact [OF this] run show ?thesis by blast
qed

text \<open>
  The split does not depend on the order in which the recipients are passed, neither its result nor
  its failure.
\<close>

theorem split_order_independent:
  assumes "distinct rs" "distinct rs'" "set rs = set rs'"
  shows "split_by_weight T rs = split_by_weight T rs'"
proof -
  have len: "length rs = length rs'" using assms by (metis distinct_card)
  have ok: "recipients_ok rs \<longleftrightarrow> recipients_ok rs'"
    unfolding recipients_ok_def distinct_map using assms by simp
  have "canonical_order rs = canonical_order rs'" if "recipients_ok rs"
    by (rule canonical_order_perm) (use that ok assms(3) in blast)+
  then have "sort_recipients rs [] = sort_recipients rs' []" unfolding sort_recipients_Ok ok by presburger
  moreover have "rs = [] \<longleftrightarrow> rs' = []" using len by auto
  ultimately show ?thesis unfolding split_by_weight_def len by presburger
qed

theorem split_order_independent_witness:
  "split_by_weight 10 [(8, 3), (4, 1), (6, 2)] = split_by_weight 10 [(4, 1), (6, 2), (8, 3)]"
  by (rule split_order_independent) auto

text \<open>
  A well-formed split always succeeds: for a positive amount and 1 to 50 different recipients with
  positive \<open>u32\<close> weights whose products with the amount fit an \<open>i128\<close>, the search for the next remainder
  never comes up empty and no addition overflows, so the loop ends with a result.
\<close>

theorem split_succeeds:
  assumes "0 < T" "in_i128 T" "rs \<noteq> []" "length rs \<le> MAX_CAMPAIGN_BATCH" "recipients_ok rs"
    "\<forall>r \<in> set rs. snd r \<le> u32_max \<and> in_i128 (T * int (snd r))"
  shows "\<exists>out. split_by_weight T rs = Ok out"
  using assms by (rule split_total)

theorem split_succeeds_witness: "\<exists>out. split_by_weight 10 [(8, 3), (4, 1), (6, 2)] = Ok out"
  by (rule split_succeeds) (auto simp: MAX_CAMPAIGN_BATCH_def recipients_ok_def arith_defs)

end
