(* ===== verification/RewardCampaign.thy ===== *)
theory RewardCampaign
  imports CampaignSplit Host
begin

text \<open>
  Reward campaigns of \<open>stake_vault/src/reward_campaign.rs\<close>: funded budgets that are allocated to
  recipients, claimed before a deadline, expired back into the budget, and closed once settled; and
  linear vesting schedules paid from the same budget. The module does the accounting, the contract's
  entry points move the tokens.

  The source calls \<open>claimed_by_account\<close>, which is not defined in the repository; it is a parameter
  of \<open>claim_allocations\<close> here. The functions that fund, activate and cancel a campaign are missing
  there too, so a campaign that was created does not become open by an operation of this module;
  histories start from campaigns in any consistent state.
\<close>

section \<open>Data\<close>

definition MIN_CLAIM_WINDOW_SECS :: nat where "MIN_CLAIM_WINDOW_SECS = 86400"
definition MAX_CLAIM_WINDOW_SECS :: nat where "MAX_CLAIM_WINDOW_SECS = 2 * 365 * 86400"

datatype CampaignStatus = Open | Closed | Pending | Canceled

datatype AllocationStatus = Pending | Claimed | Expired

record RewardCampaign =
  rc_id :: nat
  rc_funder :: addr
  rc_asset :: addr
  rc_budget :: int
  rc_allocated :: int
  rc_claimed :: int
  rc_expired :: int
  rc_pending_allocations :: nat
  rc_next_allocation_id :: nat
  rc_claim_window_secs :: nat
  rc_status :: CampaignStatus
  rc_created_at :: nat
  rc_closed_at :: nat
  rc_funded :: int
  rc_epoch_id :: nat
  rc_per_account_claim_cap :: int

record CampaignAllocation =
  ca_campaign_id :: nat
  ca_allocation_id :: nat
  ca_recipient :: addr
  ca_amount :: int
  ca_allocated_at :: nat
  ca_expires_at :: nat
  ca_status :: AllocationStatus
  ca_epoch_id :: nat

record VestingAllocation =
  va_campaign_id :: nat
  va_vesting_id :: nat
  va_recipient :: addr
  va_total_amount :: int
  va_start :: nat
  va_cliff_secs :: nat
  va_duration_secs :: nat
  va_claimed :: int

text \<open>The storage of the module, one map per kind of key.\<close>

record campaigns =
  cs_counter :: "nat option"
  cs_campaigns :: "(nat, RewardCampaign) smap"
  cs_allocations :: "(nat \<times> nat, CampaignAllocation) smap"
  cs_vesting_counter :: "(nat, nat) smap"
  cs_vestings :: "(nat \<times> nat, VestingAllocation) smap"
  cs_claimed_by :: "(nat \<times> addr, int) smap"

type_synonym 'a campaign_call = "(campaigns, CampaignError, 'a) outcome"

section \<open>Helpers\<close>

text \<open>Unchecked \<open>i128\<close> subtraction and addition: they trap on overflow.\<close>

definition plain_sub :: "int \<Rightarrow> int \<Rightarrow> ('e, int) res" where
  "plain_sub a b = (if in_i128 (a - b) then Ok (a - b) else Panic)"

definition plain_add :: "int \<Rightarrow> int \<Rightarrow> ('e, int) res" where
  "plain_add a b = (if in_i128 (a + b) then Ok (a + b) else Panic)"

definition outstanding :: "RewardCampaign \<Rightarrow> (CampaignError, int) res" where
  "outstanding c = res_then (plain_sub (rc_allocated c) (rc_claimed c)) (\<lambda>x. plain_sub x (rc_expired c))"

definition available :: "RewardCampaign \<Rightarrow> (CampaignError, int) res" where
  "available c = res_then (plain_sub (rc_budget c) (rc_allocated c)) (\<lambda>x. plain_add x (rc_expired c))"

definition load_campaign :: "campaigns \<Rightarrow> nat \<Rightarrow> (CampaignError, RewardCampaign) res" where
  "load_campaign s i = ok_or CampaignNotFound (sget (cs_campaigns s) i)"

definition load_open :: "campaigns \<Rightarrow> nat \<Rightarrow> (CampaignError, RewardCampaign) res" where
  "load_open s i = res_then (load_campaign s i) (\<lambda>c. if rc_status c \<noteq> Open then Err CampaignClosed else Ok c)"

definition save_campaign :: "RewardCampaign \<Rightarrow> campaigns \<Rightarrow> campaigns" where
  "save_campaign c s = s\<lparr>cs_campaigns := sset (rc_id c) c (cs_campaigns s)\<rparr>"

definition save_allocation :: "nat \<Rightarrow> CampaignAllocation \<Rightarrow> campaigns \<Rightarrow> campaigns" where
  "save_allocation i a s = s\<lparr>cs_allocations := sset (i, ca_allocation_id a) a (cs_allocations s)\<rparr>"

definition check_batch :: "nat \<Rightarrow> (CampaignError, unit) res" where
  "check_batch len = (if len = 0 \<or> MAX_CAMPAIGN_BATCH < len then Err CampaignError.BatchSizeInvalid else Ok ())"

section \<open>Creation and distribution\<close>

definition create_campaign :: "env \<Rightarrow> addr \<Rightarrow> addr \<Rightarrow> int \<Rightarrow> nat \<Rightarrow> campaigns \<Rightarrow> nat campaign_call" where
  "create_campaign ev funder asset budget claim_window_secs s =
     (if budget \<le> 0 then (Err CampaignError.InvalidAmount, s)
      else if \<not> (MIN_CLAIM_WINDOW_SECS \<le> claim_window_secs \<and> claim_window_secs \<le> MAX_CLAIM_WINDOW_SECS)
      then (Err InvalidClaimWindow, s)
      else let campaign_id = opt_or 0 (cs_counter s);
               s = s\<lparr>cs_counter := Some (u64_sat_add campaign_id 1)\<rparr>;
               c = \<lparr>rc_id = campaign_id, rc_funder = funder, rc_asset = asset, rc_budget = budget, rc_allocated = 0,
                    rc_claimed = 0, rc_expired = 0, rc_pending_allocations = 0, rc_next_allocation_id = 0,
                    rc_claim_window_secs = claim_window_secs, rc_status = CampaignStatus.Pending,
                    rc_created_at = ev_timestamp ev, rc_closed_at = 0, rc_funded = 0, rc_epoch_id = 0,
                    rc_per_account_claim_cap = 0\<rparr>
           in (Ok campaign_id, save_campaign c s))"

text \<open>The loop that stores an allocation for every share that is not zero.\<close>

fun allocate_shares ::
  "nat \<Rightarrow> nat \<Rightarrow> (addr \<times> int) list \<Rightarrow> RewardCampaign \<Rightarrow> campaigns \<Rightarrow> RewardCampaign \<times> campaigns \<times> (addr \<times> nat \<times> int) list" where
  "allocate_shares now expires_at [] c s = (c, s, [])"
| "allocate_shares now expires_at ((recipient, amount) # rest) c s =
     (if amount = 0 then allocate_shares now expires_at rest c s
      else let allocation_id = rc_next_allocation_id c;
               c = c\<lparr>rc_next_allocation_id := u64_sat_add allocation_id 1,
                     rc_pending_allocations := u32_sat_add (rc_pending_allocations c) 1\<rparr>;
               a = \<lparr>ca_campaign_id = rc_id c, ca_allocation_id = allocation_id, ca_recipient = recipient,
                    ca_amount = amount, ca_allocated_at = now, ca_expires_at = expires_at,
                    ca_status = AllocationStatus.Pending, ca_epoch_id = rc_epoch_id c\<rparr>
           in case allocate_shares now expires_at rest c (save_allocation (rc_id c) a s) of
                (c, s, created) \<Rightarrow> (c, s, (recipient, allocation_id, amount) # created))"

definition distribute ::
  "env \<Rightarrow> nat \<Rightarrow> int \<Rightarrow> (addr \<times> nat) list \<Rightarrow> campaigns \<Rightarrow> (addr \<times> nat \<times> int) list campaign_call" where
  "distribute ev campaign_id amount recipients s =
     and_then (load_open s campaign_id, s) (\<lambda>c s.
       if amount \<le> 0 then (Err CampaignError.InvalidAmount, s)
       else and_then (available c, s) (\<lambda>free s.
         if free < amount then (Err InsufficientCampaignFunds, s)
         else and_then (split_by_weight amount recipients, s) (\<lambda>shares s.
           let now = ev_timestamp ev;
               expires_at = u64_sat_add now (rc_claim_window_secs c)
           in case allocate_shares now expires_at shares c s of (c, s, created) \<Rightarrow>
                and_then (campaign_add (rc_allocated c) amount, s) (\<lambda>allocated s.
                  (Ok created, save_campaign (c\<lparr>rc_allocated := allocated\<rparr>) s)))))"

section \<open>Claims and expiry\<close>

text \<open>
  The validation loops: each id must be new in the batch and name a pending allocation that passes the
  check. The result is the list of allocations and their total.
\<close>

fun gather ::
  "campaigns \<Rightarrow> nat \<Rightarrow> (CampaignAllocation \<Rightarrow> (CampaignError, unit) res) \<Rightarrow> nat list \<Rightarrow> nat list \<Rightarrow> int \<Rightarrow>
   (CampaignError, CampaignAllocation list \<times> int) res" where
  "gather s campaign_id ok seen [] tot = Ok ([], tot)"
| "gather s campaign_id ok seen (i # ids) tot =
     (if i \<in> set seen then Err AllocationNotClaimable
      else res_then (ok_or AllocationNotClaimable (sget (cs_allocations s) (campaign_id, i))) (\<lambda>a.
           res_then (ok a) (\<lambda>_.
           res_then (campaign_add tot (ca_amount a)) (\<lambda>tot.
           res_then (gather s campaign_id ok (seen @ [i]) ids tot) (\<lambda>(as, tot). Ok (a # as, tot))))))"

definition claimable :: "nat \<Rightarrow> addr \<Rightarrow> RewardCampaign \<Rightarrow> CampaignAllocation \<Rightarrow> (CampaignError, unit) res" where
  "claimable now recipient c a =
     (if ca_recipient a \<noteq> recipient \<or> ca_status a \<noteq> AllocationStatus.Pending then Err AllocationNotClaimable
      else if ca_expires_at a \<le> now then Err AllocationExpired
      else if ca_epoch_id a \<noteq> rc_epoch_id c then Err AllocationNotClaimable
      else Ok ())"

definition expirable :: "nat \<Rightarrow> CampaignAllocation \<Rightarrow> (CampaignError, unit) res" where
  "expirable now a =
     (if ca_status a \<noteq> AllocationStatus.Pending then Err AllocationNotClaimable
      else if now < ca_expires_at a then Err AllocationNotExpired
      else Ok ())"

definition mark_allocations :: "nat \<Rightarrow> AllocationStatus \<Rightarrow> CampaignAllocation list \<Rightarrow> campaigns \<Rightarrow> campaigns" where
  "mark_allocations campaign_id st as s = fold (\<lambda>a. save_allocation campaign_id (a\<lparr>ca_status := st\<rparr>)) as s"

text \<open>\<open>pending_allocations -= len\<close> traps when it would go below zero.\<close>

definition settle_pending :: "nat \<Rightarrow> RewardCampaign \<Rightarrow> (CampaignError, RewardCampaign) res" where
  "settle_pending n c =
     (if rc_pending_allocations c < n then Panic
      else Ok (c\<lparr>rc_pending_allocations := rc_pending_allocations c - n\<rparr>))"

definition claim_allocations ::
  "(campaigns \<Rightarrow> nat \<Rightarrow> addr \<Rightarrow> int) \<Rightarrow> env \<Rightarrow> nat \<Rightarrow> addr \<Rightarrow> nat list \<Rightarrow> campaigns \<Rightarrow> int campaign_call" where
  "claim_allocations claimed_by_account ev campaign_id recipient ids s =
     and_then (load_open s campaign_id, s) (\<lambda>c s.
     and_then (check_batch (length ids), s) (\<lambda>_ s.
     and_then (gather s campaign_id (claimable (ev_timestamp ev) recipient c) [] ids 0, s) (\<lambda>(as, tot) s.
     and_then (campaign_add (claimed_by_account s campaign_id recipient) tot, s) (\<lambda>new_total s.
       if 0 < rc_per_account_claim_cap c \<and> rc_per_account_claim_cap c < new_total then (Err ClaimLimitExceeded, s)
       else let s = (mark_allocations campaign_id Claimed as s)
                      \<lparr>cs_claimed_by := sset (campaign_id, recipient) new_total (cs_claimed_by s)\<rparr>
            in and_then (campaign_add (rc_claimed c) tot, s) (\<lambda>claimed s.
               and_then (settle_pending (length as) (c\<lparr>rc_claimed := claimed\<rparr>), s) (\<lambda>c s.
                 (Ok tot, save_campaign c s)))))))"

definition expire_allocations :: "env \<Rightarrow> nat \<Rightarrow> nat list \<Rightarrow> campaigns \<Rightarrow> int campaign_call" where
  "expire_allocations ev campaign_id ids s =
     and_then (load_open s campaign_id, s) (\<lambda>c s.
     and_then (check_batch (length ids), s) (\<lambda>_ s.
     and_then (gather s campaign_id (expirable (ev_timestamp ev)) [] ids 0, s) (\<lambda>(as, tot) s.
       let s = mark_allocations campaign_id Expired as s
       in and_then (campaign_add (rc_expired c) tot, s) (\<lambda>expired s.
          and_then (settle_pending (length as) (c\<lparr>rc_expired := expired\<rparr>), s) (\<lambda>c s.
            (Ok tot, save_campaign c s))))))"

definition close_campaign :: "env \<Rightarrow> nat \<Rightarrow> campaigns \<Rightarrow> int campaign_call" where
  "close_campaign ev campaign_id s =
     and_then (load_open s campaign_id, s) (\<lambda>c s.
     and_then (outstanding c, s) (\<lambda>owed s.
       if owed \<noteq> 0 \<or> rc_pending_allocations c \<noteq> 0 then (Err OutstandingLiabilities, s)
       else and_then (available c, s) (\<lambda>refund s.
         (Ok refund, save_campaign (c\<lparr>rc_status := Closed, rc_closed_at := ev_timestamp ev\<rparr>) s))))"

section \<open>Vesting\<close>

definition u128_max :: nat where "u128_max = 340282366920938463463374607431768211455"

text \<open>The amounts are cast to \<open>u128\<close>; they are positive. The product saturates there.\<close>

definition vested_amount :: "nat \<Rightarrow> VestingAllocation \<Rightarrow> int" where
  "vested_amount now v =
     (let cliff_at = u64_sat_add (va_start v) (va_cliff_secs v)
      in if now < cliff_at then 0
         else let end_at = u64_sat_add (va_start v) (va_duration_secs v)
              in if end_at \<le> now then va_total_amount v
                 else let elapsed = now - va_start v;
                          vested = min (nat (va_total_amount v) * elapsed) u128_max div max (va_duration_secs v) 1
                      in int vested)"

definition load_vesting :: "campaigns \<Rightarrow> nat \<Rightarrow> nat \<Rightarrow> (CampaignError, VestingAllocation) res" where
  "load_vesting s campaign_id vesting_id = ok_or VestingNotFound (sget (cs_vestings s) (campaign_id, vesting_id))"

definition save_vesting :: "VestingAllocation \<Rightarrow> campaigns \<Rightarrow> campaigns" where
  "save_vesting v s = s\<lparr>cs_vestings := sset (va_campaign_id v, va_vesting_id v) v (cs_vestings s)\<rparr>"

definition create_vesting_allocation ::
  "nat \<Rightarrow> addr \<Rightarrow> int \<Rightarrow> nat \<Rightarrow> nat \<Rightarrow> nat \<Rightarrow> campaigns \<Rightarrow> nat campaign_call" where
  "create_vesting_allocation campaign_id recipient amount start cliff_secs duration_secs s =
     and_then (load_open s campaign_id, s) (\<lambda>c s.
       if amount \<le> 0 then (Err CampaignError.InvalidAmount, s)
       else if duration_secs = 0 \<or> duration_secs < cliff_secs then (Err InvalidVestingSchedule, s)
       else and_then (available c, s) (\<lambda>free s.
         if free < amount then (Err InsufficientCampaignFunds, s)
         else let vesting_id = sget_or 0 (cs_vesting_counter s) campaign_id;
                  s = s\<lparr>cs_vesting_counter := sset campaign_id (u64_sat_add vesting_id 1) (cs_vesting_counter s)\<rparr>;
                  v = \<lparr>va_campaign_id = campaign_id, va_vesting_id = vesting_id, va_recipient = recipient,
                       va_total_amount = amount, va_start = start, va_cliff_secs = cliff_secs,
                       va_duration_secs = duration_secs, va_claimed = 0\<rparr>;
                  s = save_vesting v s
              in and_then (campaign_add (rc_allocated c) amount, s) (\<lambda>allocated s.
                   (Ok vesting_id,
                    save_campaign (c\<lparr>rc_allocated := allocated,
                                     rc_pending_allocations := u32_sat_add (rc_pending_allocations c) 1\<rparr>) s))))"

definition claim_vesting :: "env \<Rightarrow> nat \<Rightarrow> nat \<Rightarrow> addr \<Rightarrow> campaigns \<Rightarrow> int campaign_call" where
  "claim_vesting ev campaign_id vesting_id recipient s =
     and_then (load_open s campaign_id, s) (\<lambda>c s.
     and_then (load_vesting s campaign_id vesting_id, s) (\<lambda>v s.
       if va_recipient v \<noteq> recipient then (Err VestingNotFound, s)
       else let total_vested = vested_amount (ev_timestamp ev) v
       in and_then (ok_or CampaignError.Overflow (checked_sub total_vested (va_claimed v)), s) (\<lambda>payout s.
            if payout \<le> 0 then (Err NothingVested, s)
            else let fully_settled = va_total_amount v \<le> saturating_add (va_claimed v) payout
            in and_then (campaign_add (va_claimed v) payout, s) (\<lambda>vclaimed s.
               let s = save_vesting (v\<lparr>va_claimed := vclaimed\<rparr>) s
               in and_then (campaign_add (rc_claimed c) payout, s) (\<lambda>claimed s.
                    (Ok payout,
                     save_campaign (c\<lparr>rc_claimed := claimed,
                       rc_pending_allocations := rc_pending_allocations c - (if fully_settled then 1 else 0)\<rparr>) s))))))"

section \<open>What a campaign owes\<close>

definition pending_amounts :: "(nat \<times> nat, CampaignAllocation) smap \<Rightarrow> nat \<Rightarrow> int" where
  "pending_amounts m i = ssum (\<lambda>k a. if fst k = i \<and> ca_status a = AllocationStatus.Pending then ca_amount a else 0) m"

definition unvested :: "(nat \<times> nat, VestingAllocation) smap \<Rightarrow> nat \<Rightarrow> int" where
  "unvested m i = ssum (\<lambda>k v. if fst k = i then va_total_amount v - va_claimed v else 0) m"

definition owed :: "campaigns \<Rightarrow> nat \<Rightarrow> int" where
  "owed s i = pending_amounts (cs_allocations s) i + unvested (cs_vestings s) i"

text \<open>Allocations are stored under their own ids, below the next id of their campaign.\<close>

definition allocations_ok :: "(nat \<Rightarrow> nat) \<Rightarrow> (nat \<times> nat, CampaignAllocation) smap \<Rightarrow> bool" where
  "allocations_ok nxt m \<longleftrightarrow> swf m \<and>
     sall (\<lambda>k a. ca_campaign_id a = fst k \<and> ca_allocation_id a = snd k \<and> 0 < ca_amount a \<and> snd k < nxt (fst k)) m"

definition vestings_ok :: "(nat \<Rightarrow> nat) \<Rightarrow> (nat \<times> nat, VestingAllocation) smap \<Rightarrow> bool" where
  "vestings_ok nxt m \<longleftrightarrow> swf m \<and>
     sall (\<lambda>k v. va_campaign_id v = fst k \<and> va_vesting_id v = snd k \<and> 0 < va_total_amount v \<and> 0 \<le> va_claimed v \<and>
       va_claimed v \<le> va_total_amount v \<and> snd k < nxt (fst k)) m"

definition next_ids :: "campaigns \<Rightarrow> nat \<Rightarrow> nat" where
  "next_ids s i = (case sget (cs_campaigns s) i of None \<Rightarrow> 0 | Some c \<Rightarrow> rc_next_allocation_id c)"

definition vesting_ids :: "campaigns \<Rightarrow> nat \<Rightarrow> nat" where
  "vesting_ids s i = (if sget (cs_campaigns s) i = None then 0 else sget_or 0 (cs_vesting_counter s) i)"

definition campaign_ok :: "campaigns \<Rightarrow> nat \<Rightarrow> RewardCampaign \<Rightarrow> bool" where
  "campaign_ok s i c \<longleftrightarrow> rc_id c = i \<and> i < opt_or 0 (cs_counter s) \<and> 0 \<le> rc_claimed c \<and> 0 \<le> rc_expired c \<and>
     rc_allocated c = rc_claimed c + rc_expired c + owed s i \<and> rc_allocated c \<le> rc_budget c + rc_expired c \<and>
     (rc_status c = Closed \<longrightarrow> owed s i = 0)"

definition campaigns_inv :: "campaigns \<Rightarrow> bool" where
  "campaigns_inv s \<longleftrightarrow> swf (cs_campaigns s) \<and> allocations_ok (next_ids s) (cs_allocations s) \<and>
     vestings_ok (vesting_ids s) (cs_vestings s) \<and> (\<forall>i c. sget (cs_campaigns s) i = Some c \<longrightarrow> campaign_ok s i c)"

lemma pending_amounts_sset:
  "swf m \<Longrightarrow> pending_amounts (sset k a m) i = pending_amounts m i
     - (case sget m k of Some b \<Rightarrow> if fst k = i \<and> ca_status b = AllocationStatus.Pending then ca_amount b else 0 | None \<Rightarrow> 0)
     + (if fst k = i \<and> ca_status a = AllocationStatus.Pending then ca_amount a else 0)"
  by (auto simp: pending_amounts_def ssum_sset split: option.splits)

lemma unvested_sset:
  "swf m \<Longrightarrow> unvested (sset k v m) i = unvested m i
     - (case sget m k of Some u \<Rightarrow> if fst k = i then va_total_amount u - va_claimed u else 0 | None \<Rightarrow> 0)
     + (if fst k = i then va_total_amount v - va_claimed v else 0)"
  by (auto simp: unvested_def ssum_sset split: option.splits)

lemma pending_amounts_nonneg: "allocations_ok nxt m \<Longrightarrow> 0 \<le> pending_amounts m i"
  unfolding pending_amounts_def
  by (rule ssum_nonneg) (auto simp: allocations_ok_def sall_mem split: prod.splits intro: less_imp_le)

lemma unvested_nonneg: "vestings_ok nxt m \<Longrightarrow> 0 \<le> unvested m i"
  unfolding unvested_def by (rule ssum_nonneg) (auto simp: vestings_ok_def sall_mem)

lemma owed_nonneg: "campaigns_inv s \<Longrightarrow> 0 \<le> owed s i"
  unfolding owed_def campaigns_inv_def using pending_amounts_nonneg unvested_nonneg by (metis add_nonneg_nonneg)

lemma ssum_zero [simp]: "ssum (\<lambda>_ _. 0) m = 0"
  by (induction m) auto

text \<open>A campaign that does not exist owes nothing.\<close>

lemma owed_absent:
  assumes "campaigns_inv s" "sget (cs_campaigns s) i = None"
  shows "owed s i = 0"
proof -
  have "pending_amounts (cs_allocations s) i = ssum (\<lambda>_ _. 0) (cs_allocations s)"
    unfolding pending_amounts_def
    by (rule ssum_cong) (use assms in \<open>force simp: campaigns_inv_def allocations_ok_def sall_mem next_ids_def\<close>)
  moreover have "unvested (cs_vestings s) i = ssum (\<lambda>_ _. 0) (cs_vestings s)"
    unfolding unvested_def
    by (rule ssum_cong) (use assms in \<open>force simp: campaigns_inv_def vestings_ok_def sall_mem vesting_ids_def\<close>)
  ultimately show ?thesis by (simp add: owed_def ssum_zero)
qed

text \<open>
  Saving a campaign: the new record must be consistent with what is owed now; everything else is
  unchanged.
\<close>

lemma save_campaign_inv:
  assumes "swf (cs_campaigns s)" "\<And>j d. j \<noteq> rc_id c \<Longrightarrow> sget (cs_campaigns s) j = Some d \<Longrightarrow> campaign_ok s j d"
    "campaign_ok s (rc_id c) c"
    "allocations_ok ((next_ids s)(rc_id c := rc_next_allocation_id c)) (cs_allocations s)"
    "vestings_ok ((vesting_ids s)(rc_id c := sget_or 0 (cs_vesting_counter s) (rc_id c))) (cs_vestings s)"
  shows "campaigns_inv (save_campaign c s)"
proof -
  have ok: "campaign_ok (save_campaign c s) j d = campaign_ok s j d" for j d
    by (simp add: campaign_ok_def save_campaign_def owed_def)
  have n: "next_ids (save_campaign c s) = (next_ids s)(rc_id c := rc_next_allocation_id c)"
    by (auto simp: next_ids_def save_campaign_def fun_eq_iff)
  have v: "vesting_ids (save_campaign c s) = (vesting_ids s)(rc_id c := sget_or 0 (cs_vesting_counter s) (rc_id c))"
    by (auto simp: vesting_ids_def save_campaign_def fun_eq_iff)
  have maps: "cs_allocations (save_campaign c s) = cs_allocations s" "cs_vestings (save_campaign c s) = cs_vestings s"
    "cs_campaigns (save_campaign c s) = sset (rc_id c) c (cs_campaigns s)"
    by (simp_all add: save_campaign_def)
  show ?thesis
    unfolding campaigns_inv_def n v maps ok using assms by (auto split: if_splits)
qed

lemma load_open_Ok: "load_open s i = Ok c \<longleftrightarrow> sget (cs_campaigns s) i = Some c \<and> rc_status c = Open"
  by (auto simp: load_open_def load_campaign_def res_then_Ok ok_or_Ok)

lemma campaigns_invD:
  assumes "campaigns_inv s" "sget (cs_campaigns s) i = Some c"
  shows "campaign_ok s i c" "rc_id c = i" "next_ids s i = rc_next_allocation_id c" "vesting_ids s i = sget_or 0 (cs_vesting_counter s) i"
proof -
  show ok: "campaign_ok s i c" using assms by (simp add: campaigns_inv_def)
  then show "rc_id c = i" by (simp add: campaign_ok_def)
qed (use assms(2) in \<open>simp_all add: next_ids_def vesting_ids_def\<close>)

section \<open>Creation and closure\<close>

lemma create_campaign_inv:
  assumes "campaigns_inv s" "create_campaign ev f a b w s = (Ok i, s')" "opt_or 0 (cs_counter s) < u64_max"
  shows "campaigns_inv s'"
proof -
  let ?i = "opt_or 0 (cs_counter s)" and ?s = "s\<lparr>cs_counter := Some (Suc (opt_or 0 (cs_counter s)))\<rparr>"
  from assms(2,3) obtain c where c: "s' = save_campaign c ?s" "rc_id c = ?i" "rc_allocated c = 0" "rc_claimed c = 0"
    "rc_expired c = 0" "rc_status c = CampaignStatus.Pending" "rc_next_allocation_id c = 0" "0 < rc_budget c"
    by (auto simp: create_campaign_def Let_def u64_sat_add_def split: if_splits)
  have absent: "sget (cs_campaigns s) ?i = None"
    using assms(1) by (cases "sget (cs_campaigns s) ?i") (auto simp: campaigns_inv_def campaign_ok_def)
  have owed: "owed ?s = owed s" by (simp add: owed_def fun_eq_iff)
  have ids: "next_ids ?s = next_ids s" "vesting_ids ?s = vesting_ids s" by (simp_all add: next_ids_def vesting_ids_def fun_eq_iff)
  have n: "next_ids s ?i = 0" "vesting_ids s ?i = 0" using absent by (simp_all add: next_ids_def vesting_ids_def)
  show ?thesis
    unfolding c(1)
  proof (rule save_campaign_inv)
    show "campaign_ok ?s (rc_id c) c"
      using c owed_absent [OF assms(1) absent] by (simp add: campaign_ok_def owed)
    show "allocations_ok ((next_ids ?s)(rc_id c := rc_next_allocation_id c)) (cs_allocations ?s)"
      using assms(1) n(1) c by (simp add: ids campaigns_inv_def fun_upd_idem)
    show "vestings_ok ((vesting_ids ?s)(rc_id c := sget_or 0 (cs_vesting_counter ?s) (rc_id c))) (cs_vestings ?s)"
      using assms(1) n(2) c unfolding ids campaigns_inv_def vestings_ok_def sall_def by fastforce
    show "campaign_ok ?s j d" if "sget (cs_campaigns ?s) j = Some d" for j d
    proof -
      have "campaign_ok s j d" using campaigns_invD(1) [OF assms(1)] that by simp
      then show ?thesis unfolding campaign_ok_def owed by auto
    qed
  qed (use assms(1) in \<open>auto simp: campaigns_inv_def\<close>)
qed

text \<open>An update of a campaign's record that keeps its accounting.\<close>

lemma update_campaign_inv:
  assumes "campaigns_inv s" "sget (cs_campaigns s) i = Some c" "rc_id c' = i" "rc_allocated c' = rc_allocated c"
    "rc_claimed c' = rc_claimed c" "rc_expired c' = rc_expired c" "rc_budget c' = rc_budget c"
    "rc_next_allocation_id c' = rc_next_allocation_id c" "rc_status c' = Closed \<Longrightarrow> owed s i = 0"
  shows "campaigns_inv (save_campaign c' s)"
proof (rule save_campaign_inv)
  note inv = campaigns_invD [OF assms(1,2)]
  show "campaign_ok s (rc_id c') c'" using inv(1) assms by (simp add: campaign_ok_def)
  have eq: "(next_ids s)(rc_id c' := rc_next_allocation_id c') = next_ids s"
    "(vesting_ids s)(rc_id c' := sget_or 0 (cs_vesting_counter s) (rc_id c')) = vesting_ids s"
    using inv(3,4) assms(3,8) by (simp_all add: fun_upd_idem)
  show "allocations_ok ((next_ids s)(rc_id c' := rc_next_allocation_id c')) (cs_allocations s)"
    "vestings_ok ((vesting_ids s)(rc_id c' := sget_or 0 (cs_vesting_counter s) (rc_id c'))) (cs_vestings s)"
    unfolding eq using assms(1) by (simp_all add: campaigns_inv_def)
qed (use assms(1) in \<open>auto simp: campaigns_inv_def\<close>)

lemma outstanding_Ok: "outstanding c = Ok x \<Longrightarrow> x = rc_allocated c - rc_claimed c - rc_expired c"
  by (auto simp: outstanding_def res_then_Ok plain_sub_def split: if_splits)

lemma available_Ok: "available c = Ok x \<Longrightarrow> x = rc_budget c - rc_allocated c + rc_expired c"
  by (auto simp: available_def res_then_Ok plain_sub_def plain_add_def split: if_splits)

lemma close_campaign_facts:
  assumes "campaigns_inv s" "close_campaign ev i s = (Ok refund, s')"
  shows "campaigns_inv s'" "owed s i = 0" "\<exists>c. sget (cs_campaigns s) i = Some c \<and> rc_status c = Open \<and>
    s' = save_campaign (c\<lparr>rc_status := Closed, rc_closed_at := ev_timestamp ev\<rparr>) s \<and> refund = rc_budget c - rc_claimed c"
proof -
  from assms(2) obtain c where c: "sget (cs_campaigns s) i = Some c" "rc_status c = Open" "outstanding c = Ok 0"
    "available c = Ok refund" "s' = save_campaign (c\<lparr>rc_status := Closed, rc_closed_at := ev_timestamp ev\<rparr>) s"
    by (auto simp: close_campaign_def and_then_Ok load_open_Ok split: if_splits)
  note inv = campaigns_invD [OF assms(1) c(1)]
  show "owed s i = 0" using outstanding_Ok [OF c(3)] inv(1) by (simp add: campaign_ok_def)
  then show "campaigns_inv s'" unfolding c(5) using inv by (intro update_campaign_inv [OF assms(1) c(1)]) auto
  have "refund = rc_budget c - rc_claimed c" using outstanding_Ok [OF c(3)] available_Ok [OF c(4)] by simp
  then show "\<exists>c. sget (cs_campaigns s) i = Some c \<and> rc_status c = Open \<and>
    s' = save_campaign (c\<lparr>rc_status := Closed, rc_closed_at := ev_timestamp ev\<rparr>) s \<and> refund = rc_budget c - rc_claimed c"
    using c by blast
qed

section \<open>Distribution\<close>

lemma allocations_ok_mono:
  "allocations_ok nxt m \<Longrightarrow> (\<And>i. nxt i \<le> nxt' i) \<Longrightarrow> allocations_ok nxt' m"
  unfolding allocations_ok_def sall_def by (meson less_le_trans)

definition shares_stored ::
  "(nat \<Rightarrow> nat) \<Rightarrow> RewardCampaign \<Rightarrow> campaigns \<Rightarrow> int \<Rightarrow> RewardCampaign \<Rightarrow> campaigns \<Rightarrow> bool" where
  "shares_stored nxt c s amount c' s' \<longleftrightarrow>
     (\<exists>n p m. c' = c\<lparr>rc_next_allocation_id := n, rc_pending_allocations := p\<rparr> \<and> s' = s\<lparr>cs_allocations := m\<rparr> \<and>
       rc_next_allocation_id c \<le> n \<and> allocations_ok (nxt(rc_id c := n)) m \<and>
       (\<forall>j. pending_amounts m j = pending_amounts (cs_allocations s) j + (if j = rc_id c then amount else 0)) \<and>
       (\<forall>k. fst k \<noteq> rc_id c \<or> snd k < rc_next_allocation_id c \<longrightarrow> sget m k = sget (cs_allocations s) k))"

lemma allocate_shares_facts:
  assumes "allocate_shares now ex shares c s = (c', s', created)"
    "allocations_ok (nxt(rc_id c := rc_next_allocation_id c)) (cs_allocations s)"
    "\<forall>p \<in> set shares. 0 \<le> snd p" "rc_next_allocation_id c + length shares \<le> u64_max"
  shows "shares_stored nxt c s (sum_list (map snd shares)) c' s'"
  using assms
proof (induction shares arbitrary: c s c' s' created)
  case Nil
  have c: "c' = c\<lparr>rc_next_allocation_id := rc_next_allocation_id c, rc_pending_allocations := rc_pending_allocations c\<rparr>"
    and s: "s' = s\<lparr>cs_allocations := cs_allocations s\<rparr>"
    using Nil.prems(1) by simp_all
  show ?case
    unfolding shares_stored_def by (intro exI conjI allI, rule c, rule s, rule order_refl, rule Nil.prems(2)) simp_all
next
  case (Cons p rest)
  obtain recipient amount where p: "p = (recipient, amount)" by (cases p)
  show ?case
  proof (cases "amount = 0")
    case True
    then show ?thesis using Cons.IH [of c s c' s' created] Cons.prems by (simp add: p)
  next
    case False
    let ?n = "rc_next_allocation_id c"
    let ?c = "c\<lparr>rc_next_allocation_id := u64_sat_add ?n 1, rc_pending_allocations := u32_sat_add (rc_pending_allocations c) 1\<rparr>"
    let ?a = "\<lparr>ca_campaign_id = rc_id c, ca_allocation_id = ?n, ca_recipient = recipient, ca_amount = amount,
       ca_allocated_at = now, ca_expires_at = ex, ca_status = AllocationStatus.Pending, ca_epoch_id = rc_epoch_id c\<rparr>"
    let ?s = "save_allocation (rc_id c) ?a s"
    have suc: "u64_sat_add ?n 1 = Suc ?n" using Cons.prems(4) by (simp add: p u64_sat_add_def)
    obtain created' where run: "allocate_shares now ex rest ?c ?s = (c', s', created')"
      using Cons.prems(1) False by (auto simp: p Let_def split: prod.splits)
    have old: "swf (cs_allocations s)" "\<And>k b. sget (cs_allocations s) k = Some b \<Longrightarrow> ca_campaign_id b = fst k \<and>
        ca_allocation_id b = snd k \<and> 0 < ca_amount b \<and> snd k < (nxt(rc_id c := ?n)) (fst k)"
      using Cons.prems(2) unfolding allocations_ok_def sall_def by blast+
    have new: "sget (cs_allocations s) (rc_id c, ?n) = None"
      using old(2) [of "(rc_id c, ?n)"] by (cases "sget (cs_allocations s) (rc_id c, ?n)") auto
    have later: "snd k < (nxt(rc_id c := Suc ?n)) (fst k)" if "snd k < (nxt(rc_id c := ?n)) (fst k)" for k
      using that by (auto split: if_splits)
    have m: "cs_allocations ?s = sset (rc_id c, ?n) ?a (cs_allocations s)" by (simp add: save_allocation_def)
    have "allocations_ok (nxt(rc_id c := Suc ?n)) (cs_allocations ?s)"
      unfolding m allocations_ok_def
    proof (intro conjI sall_sset)
      show "sall (\<lambda>k a. ca_campaign_id a = fst k \<and> ca_allocation_id a = snd k \<and> 0 < ca_amount a \<and>
          snd k < (nxt(rc_id c := Suc ?n)) (fst k)) (cs_allocations s)"
        unfolding sall_def using old(2) later by blast
    qed (use old(1) False Cons.prems(3) in \<open>auto simp: p\<close>)
    then have stored: "shares_stored nxt ?c ?s (sum_list (map snd rest)) c' s'"
      by (intro Cons.IH [OF run]) (use Cons.prems(3,4) suc in \<open>simp_all del: fun_upd_apply\<close>)
    have pend: "pending_amounts (cs_allocations ?s) j = pending_amounts (cs_allocations s) j + (if j = rc_id c then amount else 0)" for j
      using old(1) new by (simp add: m pending_amounts_sset)
    from stored obtain n p m where f: "c' = ?c\<lparr>rc_next_allocation_id := n, rc_pending_allocations := p\<rparr>"
      "s' = ?s\<lparr>cs_allocations := m\<rparr>" "Suc ?n \<le> n" "allocations_ok (nxt(rc_id c := n)) m"
      "\<And>j. pending_amounts m j = pending_amounts (cs_allocations ?s) j + (if j = rc_id c then sum_list (map snd rest) else 0)"
      "\<And>k. fst k \<noteq> rc_id c \<or> snd k < Suc ?n \<Longrightarrow> sget m k = sget (cs_allocations ?s) k"
      unfolding shares_stored_def suc by (auto simp del: fun_upd_apply)
    have c: "c' = c\<lparr>rc_next_allocation_id := n, rc_pending_allocations := p\<rparr>" and s: "s' = s\<lparr>cs_allocations := m\<rparr>"
      by (simp_all add: f(1,2) save_allocation_def)
    have frame: "sget m k = sget (cs_allocations s) k" if "fst k \<noteq> rc_id c \<or> snd k < ?n" for k
      using that f(6) [of k] by (cases k) (auto simp: save_allocation_def)
    show ?thesis
      unfolding shares_stored_def
      by (intro exI conjI allI impI, rule c, rule s, use f(3) in simp, rule f(4))
        (simp add: f(5) pend p, rule frame)
  qed
qed

text \<open>What a successful distribution did.\<close>

lemma distribute_stored:
  assumes "campaigns_inv s" "distribute ev i amount rs s = (Ok created, s')" "next_ids s i + MAX_CAMPAIGN_BATCH \<le> u64_max"
  obtains c c1 s1 where "sget (cs_campaigns s) i = Some c" "rc_status c = Open" "0 < amount"
    "rc_allocated c + amount \<le> rc_budget c + rc_expired c" "shares_stored (next_ids s) c s amount c1 s1"
    "s' = save_campaign (c1\<lparr>rc_allocated := rc_allocated c1 + amount\<rparr>) s1"
proof -
  from assms(2) obtain c free shares where c: "sget (cs_campaigns s) i = Some c" "rc_status c = Open" "0 < amount"
    and free: "available c = Ok free" "amount \<le> free" and split: "split_by_weight amount rs = Ok shares"
    by (auto simp: distribute_def and_then_Ok load_open_Ok not_less split: if_splits)
  obtain c1 s1 cr where run: "allocate_shares (ev_timestamp ev) (u64_sat_add (ev_timestamp ev) (rc_claim_window_secs c)) shares c s = (c1, s1, cr)"
    by (rule prod_cases3)
  have s': "s' = save_campaign (c1\<lparr>rc_allocated := rc_allocated c1 + amount\<rparr>) s1"
    using assms(2) c free split run by (auto simp: distribute_def and_then_Ok load_open_Ok campaign_add_def ok_or_Ok Let_def split: if_splits)
  note inv = campaigns_invD [OF assms(1) c(1)]
  have "sum_list (map snd shares) = amount" using split by (rule split_result) (simp add: split_result_def)
  moreover have "allocations_ok ((next_ids s)(rc_id c := rc_next_allocation_id c)) (cs_allocations s)"
    using assms(1) inv(2,3) by (simp add: campaigns_inv_def fun_upd_idem)
  ultimately have "shares_stored (next_ids s) c s amount c1 s1"
    using allocate_shares_facts [OF run, of "next_ids s"] split_shares_bounds [OF split] assms(3) inv(3) by simp
  moreover have "rc_allocated c + amount \<le> rc_budget c + rc_expired c" using available_Ok [OF free(1)] free(2) by simp
  ultimately show thesis using that c s' by blast
qed

lemma distribute_inv:
  assumes "campaigns_inv s" "distribute ev i amount rs s = (Ok created, s')" "next_ids s i + MAX_CAMPAIGN_BATCH \<le> u64_max"
  shows "campaigns_inv s'"
proof -
  from assms obtain c c1 s1 where c: "sget (cs_campaigns s) i = Some c" "rc_status c = Open" "0 < amount"
    and bound: "rc_allocated c + amount \<le> rc_budget c + rc_expired c" and st: "shares_stored (next_ids s) c s amount c1 s1"
    and s': "s' = save_campaign (c1\<lparr>rc_allocated := rc_allocated c1 + amount\<rparr>) s1"
    by (rule distribute_stored)
  note inv = campaigns_invD [OF assms(1) c(1)]
  have all: "vestings_ok (vesting_ids s) (cs_vestings s)" using assms(1) by (simp add: campaigns_inv_def)
  from st obtain n p m where f:
    "c1 = c\<lparr>rc_next_allocation_id := n, rc_pending_allocations := p\<rparr>" "s1 = s\<lparr>cs_allocations := m\<rparr>"
    "allocations_ok ((next_ids s)(i := n)) m" "\<And>j. pending_amounts m j = pending_amounts (cs_allocations s) j + (if j = i then amount else 0)"
    using inv(2) unfolding shares_stored_def by auto
  have owed: "owed s1 j = owed s j + (if j = i then amount else 0)" for j by (simp add: f owed_def)
  have ids: "next_ids s1 = next_ids s" "vesting_ids s1 = vesting_ids s" by (simp_all add: f next_ids_def vesting_ids_def fun_eq_iff)
  show ?thesis
    unfolding s'
  proof (rule save_campaign_inv)
    show "campaign_ok s1 j d" if "j \<noteq> rc_id (c1\<lparr>rc_allocated := rc_allocated c1 + amount\<rparr>)" "sget (cs_campaigns s1) j = Some d" for j d
    proof -
      have "campaign_ok s j d" "j \<noteq> i" using campaigns_invD(1) [OF assms(1)] that inv(2) by (simp_all add: f)
      then show ?thesis by (simp add: campaign_ok_def owed) (simp add: f)
    qed
    show "campaign_ok s1 (rc_id (c1\<lparr>rc_allocated := rc_allocated c1 + amount\<rparr>)) (c1\<lparr>rc_allocated := rc_allocated c1 + amount\<rparr>)"
      using inv(1,2) bound c(2) by (auto simp: campaign_ok_def owed) (simp_all add: f)
    show "allocations_ok ((next_ids s1)(rc_id (c1\<lparr>rc_allocated := rc_allocated c1 + amount\<rparr>) :=
        rc_next_allocation_id (c1\<lparr>rc_allocated := rc_allocated c1 + amount\<rparr>))) (cs_allocations s1)"
      using f(3) inv(2) unfolding ids by (simp add: f(1,2))
    show "vestings_ok ((vesting_ids s1)(rc_id (c1\<lparr>rc_allocated := rc_allocated c1 + amount\<rparr>) :=
        sget_or 0 (cs_vesting_counter s1) (rc_id (c1\<lparr>rc_allocated := rc_allocated c1 + amount\<rparr>)))) (cs_vestings s1)"
      using all inv(2,4) unfolding ids by (simp add: f(1,2) fun_upd_idem)
    show "swf (cs_campaigns s1)" using assms(1) by (simp add: f(2) campaigns_inv_def)
  qed
qed

section \<open>Claims and expiry\<close>

abbreviation amounts :: "CampaignAllocation list \<Rightarrow> int" where
  "amounts as \<equiv> sum_list (map ca_amount as)"

text \<open>What the validation loop has checked when it succeeds.\<close>

lemma gather_Ok:
  assumes "gather s i ok seen ids t0 = Ok (as, t)"
  shows "t = t0 + amounts as \<and> length as = length ids \<and> distinct ids \<and> set ids \<inter> set seen = {} \<and>
    map (\<lambda>n. sget (cs_allocations s) (i, n)) ids = map Some as \<and> (\<forall>a \<in> set as. ok a = Ok ())"
  using assms
proof (induction ids arbitrary: seen t0 as t)
  case (Cons n ids)
  from Cons.prems obtain a as' where a: "n \<notin> set seen" "sget (cs_allocations s) (i, n) = Some a" "ok a = Ok ()"
    "gather s i ok (seen @ [n]) ids (t0 + ca_amount a) = Ok (as', t)" "as = a # as'"
    by (fastforce simp: res_then_Ok ok_or_Ok campaign_add_def split: if_splits)
  from Cons.IH [OF a(4)] show ?case using a by auto
qed simp

text \<open>Marking distinct stored allocations as no longer pending takes their amounts out of what is owed.\<close>

definition marked_to ::
  "nat \<Rightarrow> AllocationStatus \<Rightarrow> CampaignAllocation list \<Rightarrow> (nat \<times> nat, CampaignAllocation) smap \<Rightarrow>
   (nat \<times> nat, CampaignAllocation) smap \<Rightarrow> bool" where
  "marked_to i st as m m' \<longleftrightarrow> swf m' \<and>
     (\<forall>j. pending_amounts m' j = pending_amounts m j - (if j = i then amounts as else 0)) \<and>
     (\<forall>k. sget m' k = (if fst k = i \<and> snd k \<in> ca_allocation_id ` set as
       then map_option (\<lambda>a. a\<lparr>ca_status := st\<rparr>) (sget m k) else sget m k))"

lemma marked_to_Nil: "swf m \<Longrightarrow> marked_to i st [] m m"
  by (simp add: marked_to_def)

lemma marked_to_Cons:
  assumes "swf m" "sget m (i, ca_allocation_id a) = Some a" "ca_status a = AllocationStatus.Pending"
    "st \<noteq> AllocationStatus.Pending" "ca_allocation_id a \<notin> ca_allocation_id ` set as"
    "marked_to i st as (sset (i, ca_allocation_id a) (a\<lparr>ca_status := st\<rparr>) m) m'"
  shows "marked_to i st (a # as) m m'"
  unfolding marked_to_def
proof (intro conjI allI)
  let ?k = "(i, ca_allocation_id a)"
  let ?m = "sset ?k (a\<lparr>ca_status := st\<rparr>) m"
  have p: "\<And>j. pending_amounts m' j = pending_amounts ?m j - (if j = i then amounts as else 0)"
    and l: "\<And>k. sget m' k = (if fst k = i \<and> snd k \<in> ca_allocation_id ` set as
       then map_option (\<lambda>a. a\<lparr>ca_status := st\<rparr>) (sget ?m k) else sget ?m k)"
    using assms(6) unfolding marked_to_def by blast+
  show "swf m'" using assms(6) by (simp add: marked_to_def)
  show "pending_amounts m' j = pending_amounts m j - (if j = i then amounts (a # as) else 0)" for j
    using p [of j] assms(1-4) by (simp add: pending_amounts_sset)
  show "sget m' k = (if fst k = i \<and> snd k \<in> ca_allocation_id ` set (a # as)
       then map_option (\<lambda>a. a\<lparr>ca_status := st\<rparr>) (sget m k) else sget m k)" for k
  proof (cases "k = ?k")
    case True
    then show ?thesis using l [of k] assms(2,5) by simp
  next
    case False
    then have "sget ?m k = sget m k" by simp
    then show ?thesis using l [of k] False by (cases k) auto
  qed
qed

lemma mark_allocations_facts:
  assumes "swf (cs_allocations s)" "distinct (map ca_allocation_id as)" "st \<noteq> AllocationStatus.Pending"
    "\<forall>a \<in> set as. sget (cs_allocations s) (i, ca_allocation_id a) = Some a \<and> ca_status a = AllocationStatus.Pending"
  shows "\<exists>m. mark_allocations i st as s = s\<lparr>cs_allocations := m\<rparr> \<and> marked_to i st as (cs_allocations s) m"
  using assms
proof (induction as arbitrary: s)
  case Nil
  then show ?case using marked_to_Nil by (intro exI [of _ "cs_allocations s"]) (simp add: mark_allocations_def)
next
  case (Cons a as)
  let ?s = "save_allocation i (a\<lparr>ca_status := st\<rparr>) s"
  have m: "cs_allocations ?s = sset (i, ca_allocation_id a) (a\<lparr>ca_status := st\<rparr>) (cs_allocations s)"
    by (simp add: save_allocation_def)
  have other: "ca_allocation_id b \<noteq> ca_allocation_id a" if "b \<in> set as" for b 
    using Cons.prems(2) that imageI [of b "set as" ca_allocation_id] by (metis distinct.simps(2) list.map(2) set_map)
  have pre: "swf (cs_allocations ?s)" "distinct (map ca_allocation_id as)" using Cons.prems(1,2) by (simp_all add: m)
  have "\<forall>b \<in> set as. sget (cs_allocations ?s) (i, ca_allocation_id b) = Some b \<and> ca_status b = AllocationStatus.Pending"
    unfolding m using other Cons.prems(4) by simp
  from Cons.IH [OF pre Cons.prems(3) this] obtain m' where
    m': "mark_allocations i st as ?s = ?s\<lparr>cs_allocations := m'\<rparr>" "marked_to i st as (cs_allocations ?s) m'"
    by blast
  have "mark_allocations i st (a # as) s = s\<lparr>cs_allocations := m'\<rparr>"
    using m'(1) by (simp add: mark_allocations_def save_allocation_def)
  moreover have "marked_to i st (a # as) (cs_allocations s) m'"
    by (rule marked_to_Cons [OF Cons.prems(1) _ _ Cons.prems(3) _ m'(2) [unfolded m]]) (use Cons.prems(2,4) in simp_all)
  ultimately show ?case by blast
qed

lemma marked_allocations_ok:
  assumes "allocations_ok nxt (cs_allocations s)" "swf m"
    "\<And>k. sget m k = (if fst k = i \<and> snd k \<in> S then map_option (\<lambda>a. a\<lparr>ca_status := st\<rparr>) (sget (cs_allocations s) k)
      else sget (cs_allocations s) k)"
  shows "allocations_ok nxt m"
  using assms unfolding allocations_ok_def sall_def by (auto split: if_splits)

text \<open>
  The common part of a claim and an expiry: gathered pending allocations are marked, and the
  campaign's books move by their total.
\<close>

definition settled :: "nat \<Rightarrow> AllocationStatus \<Rightarrow> nat list \<Rightarrow> campaigns \<Rightarrow> campaigns \<Rightarrow> int \<Rightarrow> bool" where
  "settled i st ids s s' tot \<longleftrightarrow>
     (\<forall>k. sget (cs_allocations s') k = (if fst k = i \<and> snd k \<in> set ids
        then map_option (\<lambda>a. a\<lparr>ca_status := st\<rparr>) (sget (cs_allocations s) k) else sget (cs_allocations s) k)) \<and>
     (\<forall>n \<in> set ids. \<exists>a. sget (cs_allocations s) (i, n) = Some a \<and> ca_status a = AllocationStatus.Pending) \<and>
     (\<forall>j. owed s' j = owed s j - (if j = i then tot else 0)) \<and> distinct ids \<and> 0 \<le> tot \<and>
     tot = (\<Sum>n\<leftarrow>ids. ca_amount (the (sget (cs_allocations s) (i, n))))"

lemma gather_settled:
  assumes "campaigns_inv s" "gather s i ok [] ids 0 = Ok (as, tot)" "st \<noteq> AllocationStatus.Pending"
    "\<And>a. ok a = Ok () \<Longrightarrow> ca_status a = AllocationStatus.Pending"
  shows "settled i st ids s (mark_allocations i st as s) tot" "length as = length ids"
    "\<exists>m. mark_allocations i st as s = s\<lparr>cs_allocations := m\<rparr> \<and> allocations_ok (next_ids s) m"
proof -
  note g = gather_Ok [OF assms(2)]
  have inv: "allocations_ok (next_ids s) (cs_allocations s)" using assms(1) by (simp add: campaigns_inv_def)
  have stored: "sget (cs_allocations s) (i, ids ! j) = Some (as ! j)" if "j < length ids" for j
    using g that by (metis nth_map)
  have idx: "ca_allocation_id (as ! j) = ids ! j" "0 < ca_amount (as ! j)" if "j < length ids" for j
    using inv stored [OF that] by (auto simp: allocations_ok_def sall_def)
  have ids: "map ca_allocation_id as = ids" using g idx(1) by (auto intro: nth_equalityI)
  have pend: "\<forall>a \<in> set as. sget (cs_allocations s) (i, ca_allocation_id a) = Some a \<and> ca_status a = AllocationStatus.Pending"
    using g stored idx(1) assms(4) by (metis in_set_conv_nth)
  have "distinct (map ca_allocation_id as)" using g ids by simp
  moreover have "swf (cs_allocations s)" using inv by (simp add: allocations_ok_def)
  ultimately obtain m where mm: "mark_allocations i st as s = s\<lparr>cs_allocations := m\<rparr>" "marked_to i st as (cs_allocations s) m"
    using mark_allocations_facts [of s as st i] pend assms(3) by blast
  then have m: "mark_allocations i st as s = s\<lparr>cs_allocations := m\<rparr>" "swf m"
    "\<And>j. pending_amounts m j = pending_amounts (cs_allocations s) j - (if j = i then amounts as else 0)"
    "\<And>k. sget m k = (if fst k = i \<and> snd k \<in> ca_allocation_id ` set as
       then map_option (\<lambda>a. a\<lparr>ca_status := st\<rparr>) (sget (cs_allocations s) k) else sget (cs_allocations s) k)"
    unfolding marked_to_def by blast+
  have dom: "ca_allocation_id ` set as = set ids" using ids by (metis set_map)
  show "length as = length ids" using g by simp
  show "\<exists>m. mark_allocations i st as s = s\<lparr>cs_allocations := m\<rparr> \<and> allocations_ok (next_ids s) m"
    using m marked_allocations_ok [OF inv m(2,4)] by blast
  have sums: "amounts as = (\<Sum>n\<leftarrow>ids. ca_amount (the (sget (cs_allocations s) (i, n))))"
  proof -
    have "map ca_amount as = map (\<lambda>n. ca_amount (the (sget (cs_allocations s) (i, n)))) ids"
      using g stored by (auto intro: nth_equalityI)
    then show ?thesis by simp
  qed
  have "0 \<le> amounts as"
    using g idx(2) by (intro sum_list_nonneg) (auto simp: in_set_conv_nth less_imp_le)
  moreover have "\<forall>n \<in> set ids. \<exists>a. sget (cs_allocations s) (i, n) = Some a \<and> ca_status a = AllocationStatus.Pending"
    unfolding dom [symmetric] using pend by blast
  moreover have "\<forall>j. owed (mark_allocations i st as s) j = owed s j - (if j = i then tot else 0)"
    using g m(3) by (simp add: m(1) owed_def)
  ultimately show "settled i st ids s (mark_allocations i st as s) tot"
    unfolding settled_def using g m(4) sums by (simp add: m(1) dom)
qed

lemma settle_inv:
  assumes "campaigns_inv s" "sget (cs_campaigns s) i = Some c" "rc_status c = Open"
    "settled i st ids s s1 tot" "s1 = s\<lparr>cs_allocations := m, cs_claimed_by := cl\<rparr>" "allocations_ok (next_ids s) m"
    "rc_id c' = i" "rc_allocated c' = rc_allocated c" "rc_budget c' = rc_budget c" "rc_status c' = Open"
    "rc_next_allocation_id c' = rc_next_allocation_id c" "rc_claimed c' + rc_expired c' = rc_claimed c + rc_expired c + tot"
    "rc_claimed c \<le> rc_claimed c'" "rc_expired c \<le> rc_expired c'"
  shows "campaigns_inv (save_campaign c' s1)"
proof (rule save_campaign_inv)
  note inv = campaigns_invD [OF assms(1,2)]
  have owed: "owed s1 j = owed s j - (if j = i then tot else 0)" for j
    using assms(4) unfolding settled_def by blast
  have ids: "next_ids s1 = next_ids s" "vesting_ids s1 = vesting_ids s" by (simp_all add: assms(5) next_ids_def vesting_ids_def fun_eq_iff)
  have upd: "(next_ids s)(i := rc_next_allocation_id c) = next_ids s" "(vesting_ids s)(i := sget_or 0 (cs_vesting_counter s) i) = vesting_ids s"
    using inv(3,4) by (simp_all add: fun_upd_idem)
  show "campaign_ok s1 j d" if "j \<noteq> rc_id c'" "sget (cs_campaigns s1) j = Some d" for j d
  proof -
    have "campaign_ok s j d" "j \<noteq> i" using campaigns_invD(1) [OF assms(1)] that assms(7) by (simp_all add: assms(5))
    then show ?thesis by (simp add: campaign_ok_def owed) (simp add: assms(5))
  qed
  have "i < opt_or 0 (cs_counter s1)" using inv(1) by (simp add: campaign_ok_def assms(5))
  then show "campaign_ok s1 (rc_id c') c'"
    using inv(1) assms(7-14) by (simp add: campaign_ok_def owed)
  show "allocations_ok ((next_ids s1)(rc_id c' := rc_next_allocation_id c')) (cs_allocations s1)"
    using assms(6) unfolding ids assms(7,11) upd by (simp add: assms(5))
  have "vestings_ok (vesting_ids s) (cs_vestings s)" using assms(1) by (simp add: campaigns_inv_def)
  then show "vestings_ok ((vesting_ids s1)(rc_id c' := sget_or 0 (cs_vesting_counter s1) (rc_id c'))) (cs_vestings s1)"
    using upd(2) unfolding ids assms(7) by (simp add: assms(5) del: fun_upd_apply)
  show "swf (cs_campaigns s1)" using assms(1) by (simp add: assms(5) campaigns_inv_def)
qed

lemma claimable_pending: "claimable now r c a = Ok () \<Longrightarrow> ca_status a = AllocationStatus.Pending \<and> ca_recipient a = r \<and>
    now < ca_expires_at a \<and> ca_epoch_id a = rc_epoch_id c"
  by (simp add: claimable_def not_le split: if_splits)

lemma expirable_pending: "expirable now a = Ok () \<Longrightarrow> ca_status a = AllocationStatus.Pending \<and> ca_expires_at a \<le> now"
  by (simp add: expirable_def not_less split: if_splits)

lemma settle_pending_Ok: "settle_pending n c = Ok c' \<longleftrightarrow> n \<le> rc_pending_allocations c \<and>
    c' = c\<lparr>rc_pending_allocations := rc_pending_allocations c - n\<rparr>"
  by (auto simp: settle_pending_def)

lemma settled_cong:
  "cs_allocations s1 = cs_allocations s2 \<Longrightarrow> cs_vestings s1 = cs_vestings s2 \<Longrightarrow> settled i st ids s s1 tot = settled i st ids s s2 tot"
  by (simp add: settled_def owed_def)

lemma settledD:
  assumes "settled i st ids s s' tot"
  shows "owed s' j = owed s j - (if j = i then tot else 0)" "0 \<le> tot" "distinct ids"
  using assms unfolding settled_def by blast+

text \<open>What a successful claim did.\<close>

lemma claim_allocations_Ok:
  assumes "claim_allocations cba ev i r ids s = (Ok tot, s')"
  obtains c as where "sget (cs_campaigns s) i = Some c" "rc_status c = Open" "ids \<noteq> []" "length ids \<le> MAX_CAMPAIGN_BATCH"
    "gather s i (claimable (ev_timestamp ev) r c) [] ids 0 = Ok (as, tot)"
    "rc_per_account_claim_cap c \<le> 0 \<or> cba s i r + tot \<le> rc_per_account_claim_cap c"
    "s' = save_campaign (c\<lparr>rc_claimed := rc_claimed c + tot, rc_pending_allocations := rc_pending_allocations c - length as\<rparr>)
       ((mark_allocations i Claimed as s)\<lparr>cs_claimed_by := sset (i, r) (cba s i r + tot) (cs_claimed_by s)\<rparr>)"
    "length as \<le> rc_pending_allocations c"
proof -
  from assms obtain c as where c: "sget (cs_campaigns s) i = Some c" "rc_status c = Open" "check_batch (length ids) = Ok ()"
    and g: "gather s i (claimable (ev_timestamp ev) r c) [] ids 0 = Ok (as, tot)"
    and lim: "\<not> (0 < rc_per_account_claim_cap c \<and> rc_per_account_claim_cap c < cba s i r + tot)"
    and sp: "length as \<le> rc_pending_allocations c"
    and s': "s' = save_campaign (c\<lparr>rc_claimed := rc_claimed c + tot, rc_pending_allocations := rc_pending_allocations c - length as\<rparr>)
       ((mark_allocations i Claimed as s)\<lparr>cs_claimed_by := sset (i, r) (cba s i r + tot) (cs_claimed_by s)\<rparr>)"
    by (auto simp: claim_allocations_def and_then_Ok load_open_Ok campaign_add_def ok_or_Ok Let_def settle_pending_Ok split: if_splits)
  have "ids \<noteq> []" "length ids \<le> MAX_CAMPAIGN_BATCH" using c(3) by (auto simp: check_batch_def split: if_splits)
  then show thesis using that [OF c(1,2) _ _ g _ s' sp] lim by force
qed

lemma claim_allocations_facts:
  assumes "campaigns_inv s" "claim_allocations cba ev i r ids s = (Ok tot, s')"
  shows "campaigns_inv s'" "settled i Claimed ids s s' tot"
    "\<exists>c. sget (cs_campaigns s) i = Some c \<and> rc_status c = Open \<and> rc_claimed c + tot \<le> rc_budget c \<and>
      (0 < rc_per_account_claim_cap c \<longrightarrow> cba s i r + tot \<le> rc_per_account_claim_cap c) \<and>
      (\<forall>n \<in> set ids. \<exists>a. sget (cs_allocations s) (i, n) = Some a \<and> ca_recipient a = r \<and>
         ev_timestamp ev < ca_expires_at a \<and> ca_epoch_id a = rc_epoch_id c)"
proof -
  from assms(2) obtain c as where c: "sget (cs_campaigns s) i = Some c" "rc_status c = Open" "ids \<noteq> []" "length ids \<le> MAX_CAMPAIGN_BATCH"
    and g: "gather s i (claimable (ev_timestamp ev) r c) [] ids 0 = Ok (as, tot)"
    and cap: "rc_per_account_claim_cap c \<le> 0 \<or> cba s i r + tot \<le> rc_per_account_claim_cap c"
    and s': "s' = save_campaign (c\<lparr>rc_claimed := rc_claimed c + tot, rc_pending_allocations := rc_pending_allocations c - length as\<rparr>)
       ((mark_allocations i Claimed as s)\<lparr>cs_claimed_by := sset (i, r) (cba s i r + tot) (cs_claimed_by s)\<rparr>)"
    by (rule claim_allocations_Ok)
  note inv = campaigns_invD [OF assms(1) c(1)]
  have pend: "ca_status a = AllocationStatus.Pending" if "claimable (ev_timestamp ev) r c a = Ok ()" for a
    using claimable_pending [OF that] by simp
  note gs = gather_settled [OF assms(1) g AllocationStatus.distinct(2) pend]
  have settled: "settled i Claimed ids s (mark_allocations i Claimed as s) tot" by (rule gs(1))
  obtain m where m: "mark_allocations i Claimed as s = s\<lparr>cs_allocations := m\<rparr>" "allocations_ok (next_ids s) m"
    using gs(3) by blast
  show "settled i Claimed ids s s' tot"
    using settled by (subst settled_cong [where ?s2.0 = "mark_allocations i Claimed as s"]) (simp_all add: s' save_campaign_def)
  have tot: "0 \<le> tot" "owed s i = rc_allocated c - rc_claimed c - rc_expired c"
    using settledD(2) [OF settled] inv(1) by (simp_all add: campaign_ok_def)
  show "campaigns_inv s'"
    unfolding s'
  proof (rule settle_inv [OF assms(1) c(1,2) _ _ m(2)])
    let ?s = "(mark_allocations i Claimed as s)\<lparr>cs_claimed_by := sset (i, r) (cba s i r + tot) (cs_claimed_by s)\<rparr>"
    show "settled i Claimed ids s ?s tot"
      using settled by (subst settled_cong [where ?s2.0 = "mark_allocations i Claimed as s"]) simp_all
    show "?s = s\<lparr>cs_allocations := m, cs_claimed_by := sset (i, r) (cba s i r + tot) (cs_claimed_by s)\<rparr>"
      by (simp add: m(1))
  qed (use tot(1) inv(2) c(2) in simp_all)
  have "tot \<le> owed s i"
  proof -
    have "0 \<le> owed s' i" using owed_nonneg [OF \<open>campaigns_inv s'\<close>] .
    then show ?thesis using settledD(1) [OF \<open>settled i Claimed ids s s' tot\<close>, of i] by simp
  qed
  then have "rc_claimed c + tot \<le> rc_budget c" using inv(1) tot(2) by (simp add: campaign_ok_def)
  moreover have "\<exists>a. sget (cs_allocations s) (i, n) = Some a \<and> ca_recipient a = r \<and> ev_timestamp ev < ca_expires_at a \<and>
      ca_epoch_id a = rc_epoch_id c" if "n \<in> set ids" for n
  proof -
    have eq: "map (\<lambda>n. sget (cs_allocations s) (i, n)) ids = map Some as" using gather_Ok [OF g] by blast
    have "sget (cs_allocations s) (i, n) \<in> set (map (\<lambda>n. sget (cs_allocations s) (i, n)) ids)" using that by simp
    then obtain a where "a \<in> set as" "sget (cs_allocations s) (i, n) = Some a" unfolding eq by auto
    moreover from this(1) have "claimable (ev_timestamp ev) r c a = Ok ()" using gather_Ok [OF g] by simp
    ultimately show ?thesis using claimable_pending by blast
  qed
  ultimately show "\<exists>c. sget (cs_campaigns s) i = Some c \<and> rc_status c = Open \<and> rc_claimed c + tot \<le> rc_budget c \<and>
      (0 < rc_per_account_claim_cap c \<longrightarrow> cba s i r + tot \<le> rc_per_account_claim_cap c) \<and>
      (\<forall>n \<in> set ids. \<exists>a. sget (cs_allocations s) (i, n) = Some a \<and> ca_recipient a = r \<and>
         ev_timestamp ev < ca_expires_at a \<and> ca_epoch_id a = rc_epoch_id c)"
    using c(1,2) cap by (intro exI [of _ c] conjI ballI impI) simp_all
qed

lemma expire_allocations_facts:
  assumes "campaigns_inv s" "expire_allocations ev i ids s = (Ok tot, s')"
  shows "campaigns_inv s'" "settled i Expired ids s s' tot"
proof -
  from assms(2) obtain c as where c: "sget (cs_campaigns s) i = Some c" "rc_status c = Open" "check_batch (length ids) = Ok ()"
    and g: "gather s i (expirable (ev_timestamp ev)) [] ids 0 = Ok (as, tot)"
    and s': "s' = save_campaign (c\<lparr>rc_expired := rc_expired c + tot, rc_pending_allocations := rc_pending_allocations c - length as\<rparr>)
       (mark_allocations i Expired as s)"
    unfolding expire_allocations_def and_then_Ok prod.inject load_open_Ok
    by (auto simp: and_then_Ok campaign_add_def ok_or_Ok Let_def settle_pending_Ok)
  note inv = campaigns_invD [OF assms(1) c(1)]
  have pend: "ca_status a = AllocationStatus.Pending" if "expirable (ev_timestamp ev) a = Ok ()" for a
    using expirable_pending [OF that] by simp
  note gs = gather_settled [OF assms(1) g AllocationStatus.distinct(4) pend]
  have settled: "settled i Expired ids s (mark_allocations i Expired as s) tot" by (rule gs(1))
  obtain m where m: "mark_allocations i Expired as s = s\<lparr>cs_allocations := m\<rparr>" "allocations_ok (next_ids s) m"
    using gs(3) by blast
  show "settled i Expired ids s s' tot"
    using settled by (subst settled_cong [where ?s2.0 = "mark_allocations i Expired as s"]) (simp_all add: s' save_campaign_def)
  have tot: "0 \<le> tot" using settledD(2) [OF settled] .
  show "campaigns_inv s'"
    unfolding s' by (rule settle_inv [OF assms(1) c(1,2) settled, where m = m and cl = "cs_claimed_by s"])
      (use m tot inv(2) c(2) in simp_all)
qed

section \<open>Vesting\<close>

text \<open>
  The vesting curve: never negative, never more than the grant, and never falling. The product of
  the code saturates at the largest \<open>u128\<close>, which only lowers it.
\<close>

lemma vested_amount_bounds:
  assumes "0 \<le> va_total_amount v"
  shows "0 \<le> vested_amount now v" "vested_amount now v \<le> va_total_amount v"
proof -
  show "0 \<le> vested_amount now v" using assms by (simp add: vested_amount_def Let_def)
  have partial: "int (min (nat (va_total_amount v) * (now - va_start v)) u128_max div max (va_duration_secs v) 1) \<le> va_total_amount v"
    if "now < u64_sat_add (va_start v) (va_duration_secs v)"
  proof -
    have "now - va_start v \<le> max (va_duration_secs v) 1" using that u64_sat_add_le [of "va_start v" "va_duration_secs v"] by simp
    then have "nat (va_total_amount v) * (now - va_start v) \<le> nat (va_total_amount v) * max (va_duration_secs v) 1" by simp
    then have "min (nat (va_total_amount v) * (now - va_start v)) u128_max \<le> nat (va_total_amount v) * max (va_duration_secs v) 1"
      by (rule min.coboundedI1)
    then have "min (nat (va_total_amount v) * (now - va_start v)) u128_max div max (va_duration_secs v) 1
        \<le> nat (va_total_amount v) * max (va_duration_secs v) 1 div max (va_duration_secs v) 1"
      by (rule div_le_mono)
    also have "\<dots> = nat (va_total_amount v)" by (rule nonzero_mult_div_cancel_right) simp
    finally have "min (nat (va_total_amount v) * (now - va_start v)) u128_max div max (va_duration_secs v) 1 \<le> nat (va_total_amount v)" .
    then show ?thesis using assms by linarith
  qed
  then show "vested_amount now v \<le> va_total_amount v"
    using assms by (auto simp: vested_amount_def Let_def not_le)
qed

lemma vested_amount_mono:
  assumes "0 \<le> va_total_amount v" "now \<le> later"
  shows "vested_amount now v \<le> vested_amount later v"
proof -
  consider "now < u64_sat_add (va_start v) (va_cliff_secs v)"
    | "u64_sat_add (va_start v) (va_duration_secs v) \<le> later"
    | "u64_sat_add (va_start v) (va_cliff_secs v) \<le> now" "later < u64_sat_add (va_start v) (va_duration_secs v)"
    by linarith
  then show ?thesis
  proof cases
    case 1
    then show ?thesis using vested_amount_bounds(1) [OF assms(1), of later] by (simp add: vested_amount_def)
  next
    case 2
    have "vested_amount later v = (if later < u64_sat_add (va_start v) (va_cliff_secs v) then 0 else va_total_amount v)"
      using 2 by (simp add: vested_amount_def)
    then show ?thesis using vested_amount_bounds(2) [OF assms(1), of now] assms(2) by (auto simp: vested_amount_def)
  next
    case 3
    have "nat (va_total_amount v) * (now - va_start v) \<le> nat (va_total_amount v) * (later - va_start v)"
      using assms(2) by (intro mult_le_mono) auto
    then have "min (nat (va_total_amount v) * (now - va_start v)) u128_max div max (va_duration_secs v) 1 \<le>
        min (nat (va_total_amount v) * (later - va_start v)) u128_max div max (va_duration_secs v) 1"
      by (intro div_le_mono min.mono) auto
    then show ?thesis using 3 assms(2) by (simp add: vested_amount_def Let_def)
  qed
qed

lemma create_vesting_inv:
  assumes "campaigns_inv s" "create_vesting_allocation i r amount st cl du s = (Ok n, s')"
    "sget_or 0 (cs_vesting_counter s) i < u64_max"
  shows "campaigns_inv s'"
proof -
  let ?n = "sget_or 0 (cs_vesting_counter s) i"
  let ?v = "\<lparr>va_campaign_id = i, va_vesting_id = ?n, va_recipient = r, va_total_amount = amount, va_start = st,
     va_cliff_secs = cl, va_duration_secs = du, va_claimed = 0\<rparr>"
  let ?s = "s\<lparr>cs_vesting_counter := sset i (Suc ?n) (cs_vesting_counter s), cs_vestings := sset (i, ?n) ?v (cs_vestings s)\<rparr>"
  from assms(2) obtain c free where c: "sget (cs_campaigns s) i = Some c" "rc_status c = Open" "0 < amount"
    and free: "available c = Ok free" "amount \<le> free"
    and s': "s' = save_campaign (c\<lparr>rc_allocated := rc_allocated c + amount,
       rc_pending_allocations := u32_sat_add (rc_pending_allocations c) 1\<rparr>) ?s"
    using assms(3) by (auto simp: create_vesting_allocation_def and_then_Ok load_open_Ok campaign_add_def ok_or_Ok Let_def not_less
        save_vesting_def u64_sat_add_def split: if_splits)
  note inv = campaigns_invD [OF assms(1) c(1)]
  have vs: "vestings_ok (vesting_ids s) (cs_vestings s)" "allocations_ok (next_ids s) (cs_allocations s)"
    using assms(1) by (simp_all add: campaigns_inv_def)
  have absent: "sget (cs_vestings s) (i, ?n) = None"
  proof (cases "sget (cs_vestings s) (i, ?n)")
    case (Some v)
    then have "?n < vesting_ids s i" using vs(1) by (auto simp: vestings_ok_def sall_def)
    then show ?thesis using inv(4) by simp
  qed
  have owed: "owed ?s j = owed s j + (if j = i then amount else 0)" for j
    using vs(1) absent by (simp add: owed_def unvested_sset vestings_ok_def)
  have ids: "next_ids ?s = next_ids s" "vesting_ids ?s = (vesting_ids s)(i := Suc ?n)"
    using c(1) by (auto simp: next_ids_def vesting_ids_def fun_eq_iff)
  have bound: "rc_allocated c + amount \<le> rc_budget c + rc_expired c" using available_Ok [OF free(1)] free(2) by simp
  have new: "vestings_ok ((vesting_ids s)(i := Suc ?n)) (cs_vestings ?s)"
    unfolding vestings_ok_def
  proof
    have "snd k < ((vesting_ids s)(i := Suc ?n)) (fst k)" if "snd k < vesting_ids s (fst k)" for k
      using that inv(4) by (cases "fst k = i") auto
    then have "sall (\<lambda>k v. va_campaign_id v = fst k \<and> va_vesting_id v = snd k \<and> 0 < va_total_amount v \<and> 0 \<le> va_claimed v \<and>
       va_claimed v \<le> va_total_amount v \<and> snd k < ((vesting_ids s)(i := Suc ?n)) (fst k)) (cs_vestings s)"
      using vs(1) unfolding vestings_ok_def sall_def by blast
    then show "sall (\<lambda>k v. va_campaign_id v = fst k \<and> va_vesting_id v = snd k \<and> 0 < va_total_amount v \<and> 0 \<le> va_claimed v \<and>
       va_claimed v \<le> va_total_amount v \<and> snd k < ((vesting_ids s)(i := Suc ?n)) (fst k)) (cs_vestings ?s)"
      using c(3) by (auto intro!: sall_sset)
  qed (use vs(1) in \<open>simp add: vestings_ok_def\<close>)
  show ?thesis
    unfolding s'
  proof (rule save_campaign_inv)
    let ?c = "c\<lparr>rc_allocated := rc_allocated c + amount, rc_pending_allocations := u32_sat_add (rc_pending_allocations c) 1\<rparr>"
    show "campaign_ok ?s j d" if "j \<noteq> rc_id ?c" "sget (cs_campaigns ?s) j = Some d" for j d
      using campaigns_invD(1) [OF assms(1), of j d] that inv(2) by (simp add: campaign_ok_def owed)
    show "campaign_ok ?s (rc_id ?c) ?c" using inv(1,2) bound c(2) by (simp add: campaign_ok_def owed)
    show "allocations_ok ((next_ids ?s)(rc_id ?c := rc_next_allocation_id ?c)) (cs_allocations ?s)"
      using vs(2) inv(2,3) unfolding ids by (simp add: fun_upd_idem)
    show "vestings_ok ((vesting_ids ?s)(rc_id ?c := sget_or 0 (cs_vesting_counter ?s) (rc_id ?c))) (cs_vestings ?s)"
      using new inv(2) unfolding ids by simp
    show "swf (cs_campaigns ?s)" using assms(1) by (simp add: campaigns_inv_def)
  qed
qed

lemma claim_vesting_facts:
  assumes "campaigns_inv s" "claim_vesting ev i n r s = (Ok payout, s')"
  shows "campaigns_inv s'" "0 < payout"
    "\<exists>v. sget (cs_vestings s) (i, n) = Some v \<and> va_recipient v = r \<and>
      sget (cs_vestings s') (i, n) = Some (v\<lparr>va_claimed := vested_amount (ev_timestamp ev) v\<rparr>) \<and>
      va_claimed v + payout = vested_amount (ev_timestamp ev) v"
proof -
  from assms(2) obtain c v where c: "sget (cs_campaigns s) i = Some c" "rc_status c = Open"
    and v: "sget (cs_vestings s) (i, n) = Some v" "va_recipient v = r"
    and p: "payout = vested_amount (ev_timestamp ev) v - va_claimed v" "0 < payout"
    and s': "s' = save_campaign (c\<lparr>rc_claimed := rc_claimed c + payout, rc_pending_allocations := rc_pending_allocations c -
        (if va_total_amount v \<le> saturating_add (va_claimed v) payout then 1 else 0)\<rparr>)
        (save_vesting (v\<lparr>va_claimed := va_claimed v + payout\<rparr>) s)"
    by (auto simp: claim_vesting_def and_then_Ok load_open_Ok load_vesting_def campaign_add_def ok_or_Ok Let_def not_le split: if_splits)
  note inv = campaigns_invD [OF assms(1) c(1)]
  let ?v = "v\<lparr>va_claimed := va_claimed v + payout\<rparr>"
  have vs: "vestings_ok (vesting_ids s) (cs_vestings s)" "allocations_ok (next_ids s) (cs_allocations s)"
    using assms(1) by (simp_all add: campaigns_inv_def)
  then have vok: "va_campaign_id v = i" "va_vesting_id v = n" "0 < va_total_amount v" "0 \<le> va_claimed v" "n < vesting_ids s i"
    using v(1) by (auto simp: vestings_ok_def sall_def)
  have le: "va_claimed v + payout \<le> va_total_amount v"
    using p(1) vested_amount_bounds(2) [of v "ev_timestamp ev"] vok(3) by simp
  let ?s = "s\<lparr>cs_vestings := sset (i, n) ?v (cs_vestings s)\<rparr>"
  have sv: "save_vesting ?v s = ?s" using vok by (simp add: save_vesting_def)
  have owed: "owed ?s j = owed s j - (if j = i then payout else 0)" for j
    using vs(1) v(1) by (simp add: owed_def unvested_sset vestings_ok_def)
  have ids: "next_ids ?s = next_ids s" "vesting_ids ?s = vesting_ids s" by (simp_all add: next_ids_def vesting_ids_def fun_eq_iff)
  have new: "vestings_ok (vesting_ids s) (cs_vestings ?s)"
    using vs(1) vok le p(2) unfolding vestings_ok_def by (auto intro!: sall_sset)
  show "campaigns_inv s'"
    unfolding s' sv
  proof (rule save_campaign_inv)
    let ?c = "c\<lparr>rc_claimed := rc_claimed c + payout, rc_pending_allocations := rc_pending_allocations c -
        (if va_total_amount v \<le> saturating_add (va_claimed v) payout then 1 else 0)\<rparr>"
    show "campaign_ok ?s j d" if "j \<noteq> rc_id ?c" "sget (cs_campaigns ?s) j = Some d" for j d
      using campaigns_invD(1) [OF assms(1), of j d] that inv(2) by (simp add: campaign_ok_def owed)
    show "campaign_ok ?s (rc_id ?c) ?c" using inv(1,2) c(2) p(2) by (simp add: campaign_ok_def owed)
    show "allocations_ok ((next_ids ?s)(rc_id ?c := rc_next_allocation_id ?c)) (cs_allocations ?s)"
      using vs(2) inv(2,3) unfolding ids by (simp add: fun_upd_idem)
    show "vestings_ok ((vesting_ids ?s)(rc_id ?c := sget_or 0 (cs_vesting_counter ?s) (rc_id ?c))) (cs_vestings ?s)"
      using new inv(2,4) unfolding ids by (simp add: fun_upd_idem)
    show "swf (cs_campaigns ?s)" using assms(1) by (simp add: campaigns_inv_def)
  qed
  show "0 < payout" by (rule p(2))
  show "\<exists>v. sget (cs_vestings s) (i, n) = Some v \<and> va_recipient v = r \<and>
      sget (cs_vestings s') (i, n) = Some (v\<lparr>va_claimed := vested_amount (ev_timestamp ev) v\<rparr>) \<and>
      va_claimed v + payout = vested_amount (ev_timestamp ev) v"
    using v p(1) unfolding s' sv by (intro exI [of _ v]) (simp add: save_campaign_def)
qed

section \<open>Histories\<close>

text \<open>
  Calls of the module. \<open>CLifecycle\<close> stands for the missing functions that fund, activate and cancel: as
  the module's documentation has it, they change only the status, the funded amount and the epoch of
  a campaign that is still pending, and never close it.
\<close>

datatype campaign_op =
    CCreate env addr addr int nat
  | CLifecycle nat CampaignStatus int nat
  | CDistribute env nat int "(addr \<times> nat) list"
  | CClaim env nat addr "nat list"
  | CExpire env nat "nat list"
  | CClose env nat
  | CVest nat addr int nat nat nat
  | CClaimVesting env nat nat addr

definition lifecycle :: "nat \<Rightarrow> CampaignStatus \<Rightarrow> int \<Rightarrow> nat \<Rightarrow> campaigns \<Rightarrow> campaigns" where
  "lifecycle i st funded epoch s =
     (case sget (cs_campaigns s) i of
        None \<Rightarrow> s
      | Some c \<Rightarrow> if rc_status c = CampaignStatus.Pending \<and> st \<noteq> Closed
                  then save_campaign (c\<lparr>rc_status := st, rc_funded := funded, rc_epoch_id := epoch\<rparr>) s else s)"

fun campaign_step :: "(campaigns \<Rightarrow> nat \<Rightarrow> addr \<Rightarrow> int) \<Rightarrow> campaign_op \<Rightarrow> campaigns \<Rightarrow> campaigns" where
  "campaign_step cba (CCreate ev f a b w) s = snd (commit s (create_campaign ev f a b w s))"
| "campaign_step cba (CLifecycle i st fu ep) s = lifecycle i st fu ep s"
| "campaign_step cba (CDistribute ev i amount rs) s = snd (commit s (distribute ev i amount rs s))"
| "campaign_step cba (CClaim ev i r ids) s = snd (commit s (claim_allocations cba ev i r ids s))"
| "campaign_step cba (CExpire ev i ids) s = snd (commit s (expire_allocations ev i ids s))"
| "campaign_step cba (CClose ev i) s = snd (commit s (close_campaign ev i s))"
| "campaign_step cba (CVest i r amount st cl du) s = snd (commit s (create_vesting_allocation i r amount st cl du s))"
| "campaign_step cba (CClaimVesting ev i n r) s = snd (commit s (claim_vesting ev i n r s))"

text \<open>No id counter has used up its \<open>u64\<close> range.\<close>

fun campaign_enabled :: "campaign_op \<Rightarrow> campaigns \<Rightarrow> bool" where
  "campaign_enabled (CCreate ev f a b w) s \<longleftrightarrow> opt_or 0 (cs_counter s) < u64_max"
| "campaign_enabled (CDistribute ev i amount rs) s \<longleftrightarrow> next_ids s i + MAX_CAMPAIGN_BATCH \<le> u64_max"
| "campaign_enabled (CVest i r amount st cl du) s \<longleftrightarrow> sget_or 0 (cs_vesting_counter s) i < u64_max"
| "campaign_enabled _ s \<longleftrightarrow> True"

lemma campaign_step_inv:
  assumes "campaigns_inv s" "campaign_enabled o1 s"
  shows "campaigns_inv (campaign_step cba o1 s)"
proof (cases o1)
  case (CLifecycle i st fu ep)
  show ?thesis
  proof (cases "sget (cs_campaigns s) i")
    case (Some c)
    then show ?thesis
      using assms(1) campaigns_invD [OF assms(1) Some] CLifecycle
      by (auto simp: lifecycle_def intro!: update_campaign_inv [OF assms(1) Some])
  qed (use assms(1) CLifecycle in \<open>simp add: lifecycle_def\<close>)
qed (use assms in \<open>auto intro!: commit_inv [of campaigns_inv] dest: create_campaign_inv distribute_inv claim_allocations_facts(1)
  expire_allocations_facts(1) close_campaign_facts(1) create_vesting_inv claim_vesting_facts(1)\<close>)

text \<open>The accounting equation of the module, and what closure means.\<close>

definition campaign_balanced :: "campaigns \<Rightarrow> nat \<Rightarrow> RewardCampaign \<Rightarrow> bool" where
  "campaign_balanced s i c \<longleftrightarrow>
     rc_allocated c - rc_claimed c - rc_expired c = owed s i \<and>
     rc_claimed c + owed s i + (rc_budget c - rc_allocated c + rc_expired c) = rc_budget c \<and>
     0 \<le> rc_claimed c \<and> 0 \<le> owed s i \<and> 0 \<le> rc_budget c - rc_allocated c + rc_expired c \<and>
     (rc_status c = Closed \<longrightarrow>
        (\<forall>n a. sget (cs_allocations s) (i, n) = Some a \<longrightarrow> ca_status a \<noteq> AllocationStatus.Pending) \<and>
        (\<forall>n v. sget (cs_vestings s) (i, n) = Some v \<longrightarrow> va_claimed v = va_total_amount v))"

lemma owed_zero_settled:
  assumes "campaigns_inv s" "owed s i = 0"
  shows "sget (cs_allocations s) (i, n) = Some a \<Longrightarrow> ca_status a \<noteq> AllocationStatus.Pending"
    "sget (cs_vestings s) (i, n) = Some v \<Longrightarrow> va_claimed v = va_total_amount v"
proof -
  have ok: "allocations_ok (next_ids s) (cs_allocations s)" "vestings_ok (vesting_ids s) (cs_vestings s)"
    using assms(1) by (simp_all add: campaigns_inv_def)
  have z: "pending_amounts (cs_allocations s) i = 0" "unvested (cs_vestings s) i = 0"
    using assms(2) pending_amounts_nonneg [OF ok(1), of i] unvested_nonneg [OF ok(2), of i] by (simp_all add: owed_def)
  show "ca_status a \<noteq> AllocationStatus.Pending" if a: "sget (cs_allocations s) (i, n) = Some a"
  proof
    assume pend: "ca_status a = AllocationStatus.Pending"
    have "(\<lambda>k a. if fst k = i \<and> ca_status a = AllocationStatus.Pending then ca_amount a else 0) (i, n) a
        \<le> pending_amounts (cs_allocations s) i"
      unfolding pending_amounts_def
      by (rule ssum_member_le) (use ok(1) a in \<open>auto simp: allocations_ok_def sall_mem split: prod.splits intro: less_imp_le\<close>)
    moreover have "0 < ca_amount a" using ok(1) a by (auto simp: allocations_ok_def sall_def)
    ultimately show False using z(1) pend by simp
  qed
  show "va_claimed v = va_total_amount v" if v: "sget (cs_vestings s) (i, n) = Some v"
  proof -
    have "(\<lambda>k v. if fst k = i then va_total_amount v - va_claimed v else 0) (i, n) v \<le> unvested (cs_vestings s) i"
      unfolding unvested_def
      by (rule ssum_member_le) (use ok(2) v in \<open>auto simp: vestings_ok_def sall_mem\<close>)
    moreover have "va_claimed v \<le> va_total_amount v" using ok(2) v by (auto simp: vestings_ok_def sall_def)
    ultimately show ?thesis using z(2) by simp
  qed
qed

lemma campaigns_inv_balanced:
  assumes "campaigns_inv s" "sget (cs_campaigns s) i = Some c"
  shows "campaign_balanced s i c"
  using campaigns_invD(1) [OF assms] owed_nonneg [OF assms(1), of i] owed_zero_settled [OF assms(1), of i]
  by (auto simp: campaign_balanced_def campaign_ok_def)

definition campaigns_balanced :: "campaigns \<Rightarrow> bool" where
  "campaigns_balanced s \<longleftrightarrow> (\<forall>i c. sget (cs_campaigns s) i = Some c \<longrightarrow> campaign_balanced s i c)"

interpretation campaign: guarded_system campaign_enabled "campaign_step cba" campaigns_inv campaigns_balanced
  for cba :: "campaigns \<Rightarrow> nat \<Rightarrow> addr \<Rightarrow> int"
  by unfold_locales (auto simp: campaigns_balanced_def intro: campaign_step_inv campaigns_inv_balanced)

section \<open>Settled allocations stay settled\<close>

definition allocation_settled :: "nat \<Rightarrow> nat \<Rightarrow> campaigns \<Rightarrow> bool" where
  "allocation_settled i n s \<longleftrightarrow> (\<exists>a. sget (cs_allocations s) (i, n) = Some a \<and> ca_status a \<noteq> AllocationStatus.Pending)"

lemma settled_allocation:
  assumes "settled i st ids s s' tot" "allocation_settled j n s" "st \<noteq> AllocationStatus.Pending"
  shows "allocation_settled j n s'"
proof -
  have "sget (cs_allocations s') (j, n) = (if j = i \<and> n \<in> set ids
      then map_option (\<lambda>a. a\<lparr>ca_status := st\<rparr>) (sget (cs_allocations s) (j, n)) else sget (cs_allocations s) (j, n))"
    using assms(1) unfolding settled_def by (metis fst_conv snd_conv)
  then show ?thesis using assms(2,3) by (auto simp: allocation_settled_def)
qed

lemma settled_makes_settled:
  assumes "settled i st ids s s' tot" "n \<in> set ids" "st \<noteq> AllocationStatus.Pending"
  shows "allocation_settled i n s'"
proof -
  have "sget (cs_allocations s') (i, n) = map_option (\<lambda>a. a\<lparr>ca_status := st\<rparr>) (sget (cs_allocations s) (i, n))"
    and "\<exists>a. sget (cs_allocations s) (i, n) = Some a"
    using assms(1,2) unfolding settled_def by (metis fst_conv snd_conv)+
  then show ?thesis using assms(3) by (auto simp: allocation_settled_def)
qed

lemma settled_not_settled:
  assumes "settled i st ids s s' tot" "n \<in> set ids"
  shows "\<not> allocation_settled i n s"
  using assms unfolding settled_def allocation_settled_def by (metis option.inject)

lemma distribute_frame:
  assumes "campaigns_inv s" "distribute ev i amount rs s = (Ok created, s')" "next_ids s i + MAX_CAMPAIGN_BATCH \<le> u64_max"
    "sget (cs_allocations s) k = Some a"
  shows "sget (cs_allocations s') k = Some a"
proof -
  from assms(1-3) obtain c c1 s1 where c: "sget (cs_campaigns s) i = Some c" and st: "shares_stored (next_ids s) c s amount c1 s1"
    and s': "s' = save_campaign (c1\<lparr>rc_allocated := rc_allocated c1 + amount\<rparr>) s1"
    by (rule distribute_stored)
  note inv = campaigns_invD [OF assms(1) c]
  have "\<forall>k. fst k \<noteq> rc_id c \<or> snd k < rc_next_allocation_id c \<longrightarrow> sget (cs_allocations s1) k = sget (cs_allocations s) k"
    using st unfolding shares_stored_def by (elim exE conjE) (simp del: split_paired_All)
  moreover have "snd k < next_ids s (fst k)" using assms(1,4) by (cases k) (auto simp: campaigns_inv_def allocations_ok_def sall_def)
  moreover have "cs_allocations s' = cs_allocations s1" by (simp add: s' save_campaign_def)
  ultimately show ?thesis using assms(4) inv(2,3) by (cases "fst k = i") (auto simp del: split_paired_All)
qed

lemma vesting_frame:
  "create_vesting_allocation j r amount st cl du s = (Ok x, t) \<Longrightarrow> cs_allocations t = cs_allocations s"
  "claim_vesting ev j m r s = (Ok y, t) \<Longrightarrow> cs_allocations t = cs_allocations s"
  by (auto simp: create_vesting_allocation_def claim_vesting_def and_then_Ok Let_def save_campaign_def save_vesting_def split: if_splits)

definition kept_settled :: "nat \<Rightarrow> nat \<Rightarrow> campaigns \<Rightarrow> bool" where
  "kept_settled i n s \<longleftrightarrow> campaigns_inv s \<and> allocation_settled i n s"

lemma campaign_step_settled:
  assumes "kept_settled i n s" "campaign_enabled o1 s"
  shows "kept_settled i n (campaign_step cba o1 s)"
proof -
  have inv: "campaigns_inv s" and old: "allocation_settled i n s" using assms(1) by (simp_all add: kept_settled_def)
  note cm = commit_inv [of "allocation_settled i n", OF old]
  have "allocation_settled i n (campaign_step cba o1 s)"
  proof (cases o1)
    case (CCreate ev f a b w)
    then show ?thesis using old by (auto intro!: cm simp: create_campaign_def Let_def save_campaign_def allocation_settled_def split: if_splits)
  next
    case (CLifecycle j st fu ep)
    then show ?thesis using old by (auto simp: lifecycle_def save_campaign_def allocation_settled_def split: option.splits)
  next
    case (CDistribute ev j amount rs)
    then show ?thesis using distribute_frame [OF inv] old assms(2) by (auto intro!: cm) (auto simp: allocation_settled_def)
  next
    case (CClaim ev j r ids)
    then show ?thesis using settled_allocation [OF claim_allocations_facts(2) [OF inv] old] by (auto intro!: cm)
  next
    case (CExpire ev j ids)
    then show ?thesis using settled_allocation [OF expire_allocations_facts(2) [OF inv] old] by (auto intro!: cm)
  next
    case (CClose ev j)
    have "allocation_settled i n t" if "close_campaign ev j s = (Ok x, t)" for x t
      using close_campaign_facts(3) [OF inv that] old by (auto simp: save_campaign_def allocation_settled_def)
    then show ?thesis using CClose by (auto intro!: cm)
  next
    case (CVest j r amount st cl du)
    have "allocation_settled i n t" if "create_vesting_allocation j r amount st cl du s = (Ok x, t)" for x t
      using vesting_frame(1) [OF that] old by (simp add: allocation_settled_def)
    then show ?thesis using CVest by (auto intro!: cm)
  next
    case (CClaimVesting ev j m r)
    have "allocation_settled i n t" if "claim_vesting ev j m r s = (Ok x, t)" for x t
      using vesting_frame(2) [OF that] old by (simp add: allocation_settled_def)
    then show ?thesis using CClaimVesting by (auto intro!: cm)
  qed
  then show ?thesis using campaign_step_inv [OF inv assms(2)] by (simp add: kept_settled_def)
qed

definition unclaimable :: "(campaigns \<Rightarrow> nat \<Rightarrow> addr \<Rightarrow> int) \<Rightarrow> nat \<Rightarrow> nat \<Rightarrow> campaigns \<Rightarrow> bool" where
  "unclaimable cba i n s \<longleftrightarrow> (\<forall>ev r ids t u. n \<in> set ids \<longrightarrow>
     claim_allocations cba ev i r ids s \<noteq> (Ok t, u) \<and> expire_allocations ev i ids s \<noteq> (Ok t, u))"

lemma settled_allocation_unclaimable: "kept_settled i n s \<Longrightarrow> unclaimable cba i n s"
  unfolding unclaimable_def kept_settled_def
  using claim_allocations_facts(2) expire_allocations_facts(2) settled_not_settled by metis

interpretation settled_allocation: guarded_system campaign_enabled "campaign_step cba" "kept_settled i n" "unclaimable cba i n"
  for cba :: "campaigns \<Rightarrow> nat \<Rightarrow> addr \<Rightarrow> int" and i n
  by unfold_locales (auto intro: campaign_step_settled settled_allocation_unclaimable)

section \<open>Properties\<close>

definition campaigns_empty :: campaigns where
  "campaigns_empty = \<lparr>cs_counter = None, cs_campaigns = [], cs_allocations = [], cs_vesting_counter = [], cs_vestings = [],
     cs_claimed_by = []\<rparr>"

lemma campaigns_inv_empty: "campaigns_inv campaigns_empty"
  by (simp add: campaigns_inv_def campaigns_empty_def allocations_ok_def vestings_ok_def)

text \<open>
  Account 5 creates a campaign of 100 units of asset 8 at time 1000; it is activated in epoch 1 and
  10 units are distributed to the accounts 8, 4 and 6 by the weights 6, 2 and 4.
\<close>

definition campaign_env :: "nat \<Rightarrow> env" where
  "campaign_env t = \<lparr>ev_timestamp = t, ev_sequence = 10, ev_self = 7, ev_auth = (\<lambda>_. True), ev_auth_withdraw = (\<lambda>_ _. True)\<rparr>"

definition example_campaigns :: campaigns where
  "example_campaigns = fold (campaign_step (\<lambda>s i r. sget_or 0 (cs_claimed_by s) (i, r)))
     [CCreate (campaign_env 1000) 5 8 100 86400, CLifecycle 0 Open 100 1, CDistribute (campaign_env 2000) 0 10 [(8, 6), (4, 2), (6, 4)]]
     campaigns_empty"

lemma example_split: "split_by_weight 10 [(8, 6), (4, 2), (6, 4)] = Ok [(4, 2), (6, 3), (8, 5)]"
  by (simp add: split_by_weight_def MAX_CAMPAIGN_BATCH_def campaign_add_def checked_add_def checked_mul_def arith_defs
      tdiv_def tmod_def best_remainder_def upt_rec)

lemmas campaign_eval = MIN_CLAIM_WINDOW_SECS_def MAX_CLAIM_WINDOW_SECS_def lifecycle_def save_campaign_def load_open_def
  load_campaign_def available_def outstanding_def plain_sub_def plain_add_def campaign_add_def save_allocation_def Let_def
  checked_add_def arith_defs campaign_env_def

lemma example_campaigns_eq:
  "example_campaigns = \<lparr>cs_counter = Some 1,
     cs_campaigns = [(0, \<lparr>rc_id = 0, rc_funder = 5, rc_asset = 8, rc_budget = 100, rc_allocated = 10, rc_claimed = 0, rc_expired = 0,
       rc_pending_allocations = 3, rc_next_allocation_id = 3, rc_claim_window_secs = 86400, rc_status = Open, rc_created_at = 1000,
       rc_closed_at = 0, rc_funded = 100, rc_epoch_id = 1, rc_per_account_claim_cap = 0\<rparr>)],
     cs_allocations = map (\<lambda>(n, r, x). ((0, n), \<lparr>ca_campaign_id = 0, ca_allocation_id = n, ca_recipient = r, ca_amount = x,
       ca_allocated_at = 2000, ca_expires_at = 88400, ca_status = AllocationStatus.Pending, ca_epoch_id = 1\<rparr>))
       [(0, 4, 2), (1, 6, 3), (2, 8, 5)],
     cs_vesting_counter = [], cs_vestings = [], cs_claimed_by = []\<rparr>"
  by (simp add: example_campaigns_def create_campaign_def distribute_def campaigns_empty_def example_split campaign_eval)

abbreviation example_cba :: "campaigns \<Rightarrow> nat \<Rightarrow> addr \<Rightarrow> int" where
  "example_cba \<equiv> \<lambda>s i r. sget_or 0 (cs_claimed_by s) (i, r)"

lemma example_reach: "reach campaign_enabled (campaign_step example_cba) campaigns_empty example_campaigns"
proof -
  let ?s1 = "campaign_step example_cba (CCreate (campaign_env 1000) 5 8 100 86400) campaigns_empty"
  let ?s2 = "campaign_step example_cba (CLifecycle 0 Open 100 1) ?s1"
  have e1: "campaign_enabled (CCreate (campaign_env 1000) 5 8 100 86400) campaigns_empty"
    by (simp add: campaigns_empty_def u64_max_def)
  have e3: "campaign_enabled (CDistribute (campaign_env 2000) 0 10 [(8, 6), (4, 2), (6, 4)]) ?s2"
    by (simp add: create_campaign_def campaigns_empty_def next_ids_def MAX_CAMPAIGN_BATCH_def campaign_eval)
  have "reach campaign_enabled (campaign_step example_cba) campaigns_empty ?s1"
    by (rule reach_step [OF reach_start]) (rule e1)
  then have "reach campaign_enabled (campaign_step example_cba) campaigns_empty ?s2"
    by (rule reach_step) simp
  then show ?thesis
    unfolding example_campaigns_def fold_simps by (rule reach_step) (rule e3)
qed

lemma example_campaigns_inv: "campaigns_inv example_campaigns"
  by (rule campaign.reach_inv [OF example_reach campaigns_inv_empty])

text \<open>
  (C6) The accounting of every campaign balances. After any history of calls on an initially empty module,
  what was claimed, what is owed to pending allocations and vesting schedules, and what is free add up
  to the budget, none of them negative; and a closed campaign has no pending allocation and no
  unfinished vesting schedule left.
\<close>

theorem campaign_accounting:
  assumes "reach campaign_enabled (campaign_step cba) campaigns_empty s" "sget (cs_campaigns s) i = Some c"
  shows "campaign_balanced s i c"
  using campaign.reach_safe [OF assms(1) campaigns_inv_empty] assms(2) by (simp add: campaigns_balanced_def)

theorem campaign_accounting_witness:
  "\<exists>c. sget (cs_campaigns example_campaigns) 0 = Some c \<and> campaign_balanced example_campaigns 0 c"
  using campaign_accounting [OF example_reach, of 0] by (simp add: example_campaigns_eq)

text \<open>
  A claim pays exactly what it may. A successful claim names distinct allocations of the claimant that
  were pending, unexpired and of the campaign's epoch; it pays the sum of their amounts, marks them
  claimed, reduces what the campaign owes by exactly that, stays within the budget and, when the
  campaign has a cap, within the cap on top of what the account had claimed.
\<close>

theorem campaign_claim_exact:
  assumes "campaigns_inv s" "claim_allocations cba ev i r ids s = (Ok tot, s')"
  shows "distinct ids \<and> tot = (\<Sum>n\<leftarrow>ids. ca_amount (the (sget (cs_allocations s) (i, n)))) \<and>
    owed s' i = owed s i - tot \<and>
    (\<forall>n \<in> set ids. \<exists>a. sget (cs_allocations s) (i, n) = Some a \<and> ca_status a = AllocationStatus.Pending \<and>
       ca_recipient a = r \<and> ev_timestamp ev < ca_expires_at a \<and>
       sget (cs_allocations s') (i, n) = Some (a\<lparr>ca_status := Claimed\<rparr>)) \<and>
    (\<exists>c. sget (cs_campaigns s) i = Some c \<and> rc_status c = Open \<and> rc_claimed c + tot \<le> rc_budget c \<and>
       (0 < rc_per_account_claim_cap c \<longrightarrow> cba s i r + tot \<le> rc_per_account_claim_cap c))"
proof -
  note f = claim_allocations_facts [OF assms]
  have "\<exists>a. sget (cs_allocations s) (i, n) = Some a \<and> ca_status a = AllocationStatus.Pending \<and>
       ca_recipient a = r \<and> ev_timestamp ev < ca_expires_at a \<and>
       sget (cs_allocations s') (i, n) = Some (a\<lparr>ca_status := Claimed\<rparr>)" if n: "n \<in> set ids" for n
  proof -
    obtain a where a: "sget (cs_allocations s) (i, n) = Some a" "ca_recipient a = r" "ev_timestamp ev < ca_expires_at a"
      using f(3) n by blast
    moreover have "ca_status a = AllocationStatus.Pending" using f(2) n a(1) unfolding settled_def by force
    moreover have "sget (cs_allocations s') (i, n) = map_option (\<lambda>a. a\<lparr>ca_status := Claimed\<rparr>) (sget (cs_allocations s) (i, n))"
      using f(2) n unfolding settled_def by (metis fst_conv snd_conv)
    ultimately show ?thesis by simp
  qed
  moreover have "tot = (\<Sum>n\<leftarrow>ids. ca_amount (the (sget (cs_allocations s) (i, n))))" using f(2) unfolding settled_def by blast
  ultimately show ?thesis using f(3) settledD(1) [OF f(2), of i] settledD(3) [OF f(2)] by auto
qed

lemma example_claim_run:
  "\<exists>s'. claim_allocations example_cba (campaign_env 3000) 0 8 [2] example_campaigns = (Ok 5, s')"
  by (simp add: claim_allocations_def example_campaigns_eq campaign_eval check_batch_def MAX_CAMPAIGN_BATCH_def claimable_def
      settle_pending_def mark_allocations_def)

theorem campaign_claim_exact_witness:
  "\<exists>s'. claim_allocations example_cba (campaign_env 3000) 0 8 [2] example_campaigns = (Ok 5, s') \<and>
    owed s' 0 = owed example_campaigns 0 - 5"
  using example_claim_run campaign_claim_exact [OF example_campaigns_inv] by blast

text \<open>
  A claimed allocation is settled for good: after a successful claim no history of calls lets anyone
  claim or expire one of its allocations again.
\<close>

theorem campaign_claim_final:
  assumes "campaigns_inv s" "claim_allocations cba ev i r ids s = (Ok tot, s')" "n \<in> set ids"
    "reach campaign_enabled (campaign_step cba) s' s''" "n \<in> set ids'"
  shows "claim_allocations cba ev' i r' ids' s'' \<noteq> (Ok t, u) \<and> expire_allocations ev' i ids' s'' \<noteq> (Ok t, u)"
proof -
  note f = claim_allocations_facts [OF assms(1,2)]
  have "kept_settled i n s'" using f(1) settled_makes_settled [OF f(2) assms(3)] by (simp add: kept_settled_def)
  then show ?thesis using settled_allocation.reach_safe [OF assms(4)] assms(5) unfolding unclaimable_def by blast
qed

theorem campaign_claim_final_witness:
  "\<exists>s'. claim_allocations example_cba (campaign_env 3000) 0 8 [2] example_campaigns = (Ok 5, s') \<and>
    claim_allocations example_cba (campaign_env 4000) 0 8 [2] s' \<noteq> (Ok 5, s')"
proof -
  obtain s' where c: "claim_allocations example_cba (campaign_env 3000) 0 8 [2] example_campaigns = (Ok 5, s')"
    using example_claim_run by blast
  have "claim_allocations example_cba (campaign_env 4000) 0 8 [2] s' \<noteq> (Ok 5, s')"
    by (rule campaign_claim_final [OF example_campaigns_inv c _ reach_start, THEN conjunct1]) simp_all
  with c show ?thesis by blast
qed

text \<open>
  Vesting pays along the curve. The curve never falls, is zero before the cliff and the whole grant at
  the end, and a successful claim brings what was paid exactly up to the curve, hence never above the
  grant; at the same time there is then nothing more to claim.
\<close>

theorem vesting_follows_curve:
  assumes "campaigns_inv s" "claim_vesting ev i n r s = (Ok payout, s')"
  shows "\<exists>v. sget (cs_vestings s) (i, n) = Some v \<and> 0 < payout \<and>
    va_claimed v + payout = vested_amount (ev_timestamp ev) v \<and> vested_amount (ev_timestamp ev) v \<le> va_total_amount v \<and>
    u64_sat_add (va_start v) (va_cliff_secs v) \<le> ev_timestamp ev \<and>
    (\<forall>later \<ge> ev_timestamp ev. vested_amount (ev_timestamp ev) v \<le> vested_amount later v) \<and>
    claim_vesting ev i n r s' = (Err NothingVested, s')"
proof -
  note f = claim_vesting_facts [OF assms]
  then obtain v where v: "sget (cs_vestings s) (i, n) = Some v" "va_recipient v = r"
    "sget (cs_vestings s') (i, n) = Some (v\<lparr>va_claimed := vested_amount (ev_timestamp ev) v\<rparr>)"
    "va_claimed v + payout = vested_amount (ev_timestamp ev) v"
    by blast
  have "0 < va_total_amount v" "0 \<le> va_claimed v"
    using assms(1) v(1) unfolding campaigns_inv_def vestings_ok_def sall_def by blast+
  then have vok: "0 \<le> va_total_amount v" "0 \<le> va_claimed v" by simp_all
  have cliff: "u64_sat_add (va_start v) (va_cliff_secs v) \<le> ev_timestamp ev"
    using v(4) f(2) vok(2) by (auto simp: vested_amount_def split: if_splits)
  have op: "\<exists>c. sget (cs_campaigns s') i = Some c \<and> rc_status c = Open"
    using assms campaigns_invD(2) [OF assms(1)] by (auto simp: claim_vesting_def and_then_Ok load_open_Ok Let_def save_campaign_def split: if_splits)
  have curve: "vested_amount t (v\<lparr>va_claimed := x\<rparr>) = vested_amount t v" for t x by (simp add: vested_amount_def)
  have "claim_vesting ev i n r s' = (Err NothingVested, s')"
    using op v(2,3) by (auto simp: claim_vesting_def load_open_def load_campaign_def load_vesting_def curve checked_sub_def)
  then show ?thesis
    using v f(2) cliff vested_amount_bounds(2) [OF vok(1)] vested_amount_mono [OF vok(1)] by blast
qed

theorem vesting_follows_curve_witness:
  "let s = campaign_step example_cba (CVest 0 3 60 2000 100 600) example_campaigns
   in \<exists>s'. claim_vesting (campaign_env 2300) 0 0 3 s = (Ok 30, s') \<and>
        claim_vesting (campaign_env 2300) 0 0 3 s' = (Err NothingVested, s')"
proof -
  let ?s = "campaign_step example_cba (CVest 0 3 60 2000 100 600) example_campaigns"
  have inv: "campaigns_inv ?s"
    by (rule campaign_step_inv [OF example_campaigns_inv]) (simp add: example_campaigns_eq u64_max_def)
  obtain s' where c: "claim_vesting (campaign_env 2300) 0 0 3 ?s = (Ok 30, s')"
    by (simp add: create_vesting_allocation_def claim_vesting_def example_campaigns_eq campaign_eval load_vesting_def
        save_vesting_def vested_amount_def checked_sub_def u128_max_def)
  then show ?thesis using vesting_follows_curve [OF inv c] by (simp only: Let_def) blast
qed

end
