(* ===== verification/StakeMigration.thy ===== *)
theory StakeMigration
  imports VaultState
begin

text \<open>
  The storage migration of \<open>stake_vault/src/migration.rs\<close>: stakes stored as bare balances (V1) are
  copied in batches into records with lock metadata (V2), with a persisted cursor, a read-back check
  per entry, and a recovery list for entries that fail it.
\<close>

record MigrationState =
  mg_migrated :: "addr list"
  mg_total_v1_providers :: nat
  mg_complete :: bool
  mg_batch_number :: nat
  mg_pending_recovery :: "addr list"

record MigrationBatchResult =
  mb_migrated_this_batch :: nat
  mb_total_migrated :: nat
  mb_complete :: bool
  mb_batch_number :: nat
  mb_pending_recovery_count :: nat

record MigrationRecoveryResult =
  mr_provider :: addr
  mr_corrected_balance :: int
  mr_remaining_recovery :: nat
  mr_migration_complete :: bool

datatype MigrationError =
    Unauthorized
  | BalanceMismatch addr int int
  | AlreadyComplete
  | NotInRecovery

text \<open>The storage under the keys \<open>StakesV1\<close>, \<open>StakesV2\<close> and \<open>MigrationState\<close>; an absent map is an empty one.\<close>

record migration =
  mi_v1 :: "(addr, int) smap"
  mi_v2 :: "(addr, StakeInfoV2) smap"
  mi_state :: "MigrationState option"

type_synonym 'a migration_call = "(migration, MigrationError, 'a) outcome"

definition get_state :: "migration \<Rightarrow> MigrationState" where
  "get_state m = opt_or \<lparr>mg_migrated = [], mg_total_v1_providers = 0, mg_complete = False, mg_batch_number = 0,
     mg_pending_recovery = []\<rparr> (mi_state m)"

definition remove_from_vec :: "addr list \<Rightarrow> addr \<Rightarrow> addr list" where
  "remove_from_vec xs target = filter (\<lambda>a. a \<noteq> target) xs"

text \<open>Completion: all V1 providers are accounted for and none awaits recovery.\<close>

definition all_done :: "nat \<Rightarrow> MigrationState \<Rightarrow> bool" where
  "all_done total_v1 st \<longleftrightarrow> total_v1 \<le> length (mg_migrated st) + length (mg_pending_recovery st) \<and> mg_pending_recovery st = []"

text \<open>The loop over a batch. A failed read-back parks the provider, saves and returns the error.\<close>

fun migrate_loop ::
  "nat \<Rightarrow> (addr, int) smap \<Rightarrow> addr list \<Rightarrow> MigrationState \<times> (addr, StakeInfoV2) smap \<Rightarrow>
   (MigrationState \<times> (addr, StakeInfoV2) smap, MigrationError, unit) outcome" where
  "migrate_loop now v1 [] s = (Ok (), s)"
| "migrate_loop now v1 (provider # rest) (st, v2) =
     (let old_balance = sget_or 0 v1 provider;
          v2 = sset provider \<lparr>balance = old_balance, locked_until = 0, last_updated = now\<rparr> v2
      in case sget v2 provider of
           None \<Rightarrow> (Panic, (st, v2))
         | Some written \<Rightarrow>
             if balance written \<noteq> old_balance
             then (Err (BalanceMismatch provider old_balance (balance written)),
                   (st\<lparr>mg_pending_recovery := mg_pending_recovery st @ [provider]\<rparr>, v2))
             else migrate_loop now v1 rest (st\<lparr>mg_migrated := mg_migrated st @ [provider]\<rparr>, v2))"

definition pending_providers :: "(addr, int) smap \<Rightarrow> MigrationState \<Rightarrow> addr list" where
  "pending_providers v1 st =
     filter (\<lambda>k. k \<notin> set (mg_migrated st) \<and> k \<notin> set (mg_pending_recovery st)) (map fst v1)"

definition migrate_stakes_v1_to_v2 :: "env \<Rightarrow> addr \<Rightarrow> nat \<Rightarrow> migration \<Rightarrow> MigrationBatchResult migration_call" where
  "migrate_stakes_v1_to_v2 ev admin batch_size m =
     (if \<not> ev_auth ev admin then (Panic, m)
      else let st = get_state m
      in if mg_complete st then (Err AlreadyComplete, m)
      else let total_v1 = length (mi_v1 m);
               pending = pending_providers (mi_v1 m) st;
               to_process = min batch_size (length pending)
      in if u32_max < mg_batch_number st + 1 then (Panic, m)
      else let st = st\<lparr>mg_total_v1_providers := total_v1, mg_batch_number := mg_batch_number st + 1\<rparr>
      in case migrate_loop (ev_timestamp ev) (mi_v1 m) (take to_process pending) (st, mi_v2 m) of
           (Ok _, st, v2) \<Rightarrow>
             let st = st\<lparr>mg_complete := all_done total_v1 st\<rparr>
             in (Ok \<lparr>mb_migrated_this_batch = to_process, mb_total_migrated = length (mg_migrated st),
                     mb_complete = mg_complete st, mb_batch_number = mg_batch_number st,
                     mb_pending_recovery_count = length (mg_pending_recovery st)\<rparr>,
                 m\<lparr>mi_v2 := v2, mi_state := Some st\<rparr>)
         | (Err e, st, v2) \<Rightarrow> (Err e, m\<lparr>mi_v2 := v2, mi_state := Some st\<rparr>)
         | (Panic, st, v2) \<Rightarrow> (Panic, m))"

definition recover_migration_entry ::
  "env \<Rightarrow> addr \<Rightarrow> addr \<Rightarrow> int \<Rightarrow> migration \<Rightarrow> MigrationRecoveryResult migration_call" where
  "recover_migration_entry ev admin provider verified_balance m =
     (if \<not> ev_auth ev admin then (Panic, m)
      else let st = get_state m
      in if provider \<notin> set (mg_pending_recovery st) then (Err NotInRecovery, m)
      else let v2 = sset provider \<lparr>balance = verified_balance, locked_until = 0, last_updated = ev_timestamp ev\<rparr> (mi_v2 m);
               st = st\<lparr>mg_pending_recovery := remove_from_vec (mg_pending_recovery st) provider,
                       mg_migrated := mg_migrated st @ [provider]\<rparr>;
               st = st\<lparr>mg_complete := all_done (mg_total_v1_providers st) st\<rparr>
           in (Ok \<lparr>mr_provider = provider, mr_corrected_balance = verified_balance,
                   mr_remaining_recovery = length (mg_pending_recovery st), mr_migration_complete = mg_complete st\<rparr>,
               m\<lparr>mi_v2 := v2, mi_state := Some st\<rparr>))"

definition get_v2_balance :: "migration \<Rightarrow> addr \<Rightarrow> int option" where
  "get_v2_balance m provider = map_option balance (sget (mi_v2 m) provider)"

section \<open>One batch\<close>

text \<open>The read-back never fails, so a batch migrates all its providers, each with its V1 balance.\<close>

lemma migrate_loop_result:
  assumes "distinct ps"
  shows "\<exists>v2'. migrate_loop now v1 ps (st, v2) = (Ok (), st\<lparr>mg_migrated := mg_migrated st @ ps\<rparr>, v2') \<and>
    (\<forall>p. map_option balance (sget v2' p) = (if p \<in> set ps then Some (sget_or 0 v1 p) else map_option balance (sget v2 p))) \<and>
    (\<forall>p. p \<notin> set ps \<longrightarrow> sget v2' p = sget v2 p)"
  using assms
proof (induction ps arbitrary: st v2)
  case (Cons p ps)
  let ?v2 = "sset p \<lparr>balance = sget_or 0 v1 p, locked_until = 0, last_updated = now\<rparr> v2"
  let ?st = "st\<lparr>mg_migrated := mg_migrated st @ [p]\<rparr>"
  obtain v2' where ih: "migrate_loop now v1 ps (?st, ?v2) = (Ok (), ?st\<lparr>mg_migrated := mg_migrated ?st @ ps\<rparr>, v2')"
    "\<And>q. map_option balance (sget v2' q) = (if q \<in> set ps then Some (sget_or 0 v1 q) else map_option balance (sget ?v2 q))"
    "\<And>q. q \<notin> set ps \<Longrightarrow> sget v2' q = sget ?v2 q"
    using Cons.IH [of ?st ?v2] Cons.prems by auto
  have "migrate_loop now v1 (p # ps) (st, v2) = (Ok (), st\<lparr>mg_migrated := mg_migrated st @ p # ps\<rparr>, v2')"
    using ih(1) by simp
  then show ?case using ih(2,3) by (intro exI [of _ v2']) auto
qed auto

text \<open>The state of a migration that started from nothing.\<close>

definition migration_inv :: "(addr, int) smap \<Rightarrow> migration \<Rightarrow> bool" where
  "migration_inv v1 m \<longleftrightarrow> mi_v1 m = v1 \<and> swf v1 \<and> mg_pending_recovery (get_state m) = [] \<and>
     distinct (mg_migrated (get_state m)) \<and> set (mg_migrated (get_state m)) \<subseteq> fst ` set v1 \<and>
     (\<forall>p \<in> set (mg_migrated (get_state m)). get_v2_balance m p = sget v1 p) \<and>
     (mg_complete (get_state m) \<longrightarrow> set (mg_migrated (get_state m)) = fst ` set v1) \<and>
     (0 < mg_batch_number (get_state m) \<longrightarrow> set (mg_migrated (get_state m)) = fst ` set v1 \<longrightarrow> mg_complete (get_state m))"

lemma migration_start: "swf v1 \<Longrightarrow> migration_inv v1 \<lparr>mi_v1 = v1, mi_v2 = v2, mi_state = None\<rparr>"
  by (simp add: migration_inv_def get_state_def)

lemma pending_providers_facts:
  assumes "migration_inv v1 m"
  shows "distinct (pending_providers v1 (get_state m))"
    "set (pending_providers v1 (get_state m)) = fst ` set v1 - set (mg_migrated (get_state m))"
    "length (mg_migrated (get_state m)) + length (pending_providers v1 (get_state m)) = length v1"
proof -
  let ?st = "get_state m"
  have d: "distinct (map fst v1)" using assms by (simp add: migration_inv_def swf_distinct)
  show dp: "distinct (pending_providers v1 ?st)" using d by (simp add: pending_providers_def)
  show sp: "set (pending_providers v1 ?st) = fst ` set v1 - set (mg_migrated ?st)"
    using assms by (auto simp: pending_providers_def migration_inv_def)
  have "length (pending_providers v1 ?st) = card (fst ` set v1) - card (set (mg_migrated ?st))"
    using distinct_card [OF dp] sp assms by (simp add: card_Diff_subset migration_inv_def)
  moreover have "card (set (mg_migrated ?st)) \<le> card (fst ` set v1)"
    using assms by (intro card_mono) (auto simp: migration_inv_def)
  moreover have "card (fst ` set v1) = length v1" using distinct_card [OF d] by simp
  moreover have "card (set (mg_migrated ?st)) = length (mg_migrated ?st)"
    by (rule distinct_card) (use assms in \<open>simp add: migration_inv_def\<close>)
  ultimately show "length (mg_migrated ?st) + length (pending_providers v1 ?st) = length v1" by simp
qed

text \<open>A batch in closed form.\<close>

lemma migrate_batch:
  fixes b :: nat
  assumes "migration_inv v1 m" "ev_auth ev admin" "\<not> mg_complete (get_state m)" "mg_batch_number (get_state m) < u32_max"
  defines "ps \<equiv> take b (pending_providers v1 (get_state m))"
  shows "\<exists>r m'. migrate_stakes_v1_to_v2 ev admin b m = (Ok r, m') \<and> migration_inv v1 m' \<and>
    mg_migrated (get_state m') = mg_migrated (get_state m) @ ps \<and> mg_batch_number (get_state m') = Suc (mg_batch_number (get_state m)) \<and>
    mb_migrated_this_batch r = length ps \<and> mb_complete r = mg_complete (get_state m') \<and>
    (\<forall>p. p \<notin> set ps \<longrightarrow> sget (mi_v2 m') p = sget (mi_v2 m) p)"
proof -
  let ?st = "get_state m"
  let ?st1 = "?st\<lparr>mg_total_v1_providers := length v1, mg_batch_number := Suc (mg_batch_number ?st)\<rparr>"
  let ?st2 = "?st1\<lparr>mg_migrated := mg_migrated ?st @ ps\<rparr>"
  note pf = pending_providers_facts [OF assms(1)]
  have v1: "mi_v1 m = v1" "swf v1" using assms(1) by (simp_all add: migration_inv_def)
  have ps: "distinct ps" "set ps \<subseteq> fst ` set v1 - set (mg_migrated ?st)"
    using pf(1,2) set_take_subset [of b "pending_providers v1 ?st"] by (auto simp: ps_def)
  obtain v2 where loop: "migrate_loop (ev_timestamp ev) v1 ps (?st1, mi_v2 m) = (Ok (), ?st2, v2)"
    "\<And>p. map_option balance (sget v2 p) = (if p \<in> set ps then Some (sget_or 0 v1 p) else map_option balance (sget (mi_v2 m) p))"
    "\<And>p. p \<notin> set ps \<Longrightarrow> sget v2 p = sget (mi_v2 m) p"
    using migrate_loop_result [OF ps(1), of "ev_timestamp ev" v1 ?st1 "mi_v2 m"] by auto
  let ?st3 = "?st2\<lparr>mg_complete := all_done (length v1) ?st2\<rparr>"
  let ?m = "m\<lparr>mi_v2 := v2, mi_state := Some ?st3\<rparr>"
  let ?r = "\<lparr>mb_migrated_this_batch = length ps, mb_total_migrated = length (mg_migrated ?st3), mb_complete = mg_complete ?st3,
     mb_batch_number = mg_batch_number ?st3, mb_pending_recovery_count = length (mg_pending_recovery ?st3)\<rparr>"
  have "take (min b (length (pending_providers v1 ?st))) (pending_providers v1 ?st) = ps" by (simp add: ps_def min_def)
  moreover have "min b (length (pending_providers v1 ?st)) = length ps" by (simp add: ps_def)
  ultimately have run: "migrate_stakes_v1_to_v2 ev admin b m = (Ok ?r, ?m)"
    using assms(2-4) loop(1) v1 by (simp add: migrate_stakes_v1_to_v2_def Let_def)
  have st: "get_state ?m = ?st3" by (simp add: get_state_def)
  have new: "set (mg_migrated ?st3) \<subseteq> fst ` set v1" "distinct (mg_migrated ?st3)"
    using assms(1) ps by (auto simp: migration_inv_def)
  have full: "set (mg_migrated ?st3) = fst ` set v1 \<longleftrightarrow> length v1 \<le> length (mg_migrated ?st3)"
  proof -
    have "card (set (mg_migrated ?st3)) = length (mg_migrated ?st3)" by (rule distinct_card [OF new(2)])
    moreover have "card (fst ` set v1) = length v1" using distinct_card [OF swf_distinct [OF v1(2)]] by simp
    ultimately show ?thesis using card_mono [OF _ new(1)] card_subset_eq [OF _ new(1)] by (metis finite_imageI finite_set le_antisym order_refl)
  qed
  have "migration_inv v1 ?m"
    unfolding migration_inv_def st get_v2_balance_def
  proof (intro conjI ballI impI)
    fix p assume p: "p \<in> set (mg_migrated ?st3)"
    show "map_option balance (sget (mi_v2 ?m) p) = sget v1 p"
    proof (cases "p \<in> set ps")
      case True
      then have "p \<in> fst ` set v1" using ps(2) by blast
      then obtain x where "sget v1 p = Some x" using map_of_eq_None_iff [of v1 p] by (cases "sget v1 p") auto
      then show ?thesis using loop(2) [of p] True by (simp add: sget_or_def)
    next
      case False
      then have "p \<in> set (mg_migrated ?st)" using p by simp
      then show ?thesis using assms(1) False loop(2) [of p] by (simp add: migration_inv_def get_v2_balance_def)
    qed
  next
    assume "mg_complete ?st3"
    then show "set (mg_migrated ?st3) = fst ` set v1" using full by (auto simp: all_done_def)
  next
    assume "set (mg_migrated ?st3) = fst ` set v1"
    then have "length v1 \<le> length (mg_migrated ?st3)" using full by blast
    then show "mg_complete ?st3" using assms(1) by (simp add: all_done_def migration_inv_def)
  qed (use assms(1) v1 new in \<open>simp_all add: migration_inv_def\<close>)
  then show ?thesis using run st loop(3) by (intro exI [of _ ?r] exI [of _ ?m]) simp
qed

section \<open>Histories\<close>

datatype migration_op = MBatch env addr nat | MRecover env addr addr int

fun migration_step :: "migration_op \<Rightarrow> migration \<Rightarrow> migration" where
  "migration_step (MBatch ev admin b) m = snd (commit m (migrate_stakes_v1_to_v2 ev admin b m))"
| "migration_step (MRecover ev admin p x) m = snd (commit m (recover_migration_entry ev admin p x m))"

definition untouched :: "(addr, StakeInfoV2) smap \<Rightarrow> migration \<Rightarrow> bool" where
  "untouched v2 m \<longleftrightarrow> (\<forall>p. p \<notin> set (mg_migrated (get_state m)) \<longrightarrow> sget (mi_v2 m) p = sget v2 p)"

text \<open>What a caller can rely on at any point: migrated providers have their V1 balance, all others their V2 entry.\<close>

definition migration_faithful :: "(addr, int) smap \<Rightarrow> (addr, StakeInfoV2) smap \<Rightarrow> migration \<Rightarrow> bool" where
  "migration_faithful v1 v2 m \<longleftrightarrow> distinct (mg_migrated (get_state m)) \<and> set (mg_migrated (get_state m)) \<subseteq> fst ` set v1 \<and>
     (\<forall>p. get_v2_balance m p = (if p \<in> set (mg_migrated (get_state m)) then sget v1 p else map_option balance (sget v2 p))) \<and>
     (mg_complete (get_state m) \<longrightarrow> (\<forall>p x. sget v1 p = Some x \<longrightarrow> get_v2_balance m p = Some x)) \<and>
     (\<forall>ev admin b p x y. fst (migrate_stakes_v1_to_v2 ev admin b m) \<noteq> Err (BalanceMismatch p x y))"

lemma migrate_no_mismatch:
  assumes "migration_inv v1 m"
  shows "fst (migrate_stakes_v1_to_v2 ev admin b m) \<noteq> Err (BalanceMismatch p x y)"
proof (cases "ev_auth ev admin \<and> \<not> mg_complete (get_state m) \<and> mg_batch_number (get_state m) < u32_max")
  case True
  then show ?thesis using migrate_batch [OF assms, of ev admin b] by auto
qed (auto simp: migrate_stakes_v1_to_v2_def Let_def)

lemma migration_step_inv:
  assumes "migration_inv v1 m \<and> untouched v2 m"
  shows "migration_inv v1 (migration_step o1 m) \<and> untouched v2 (migration_step o1 m)"
proof (cases o1)
  case (MBatch ev admin b)
  show ?thesis
  proof (cases "ev_auth ev admin \<and> \<not> mg_complete (get_state m) \<and> mg_batch_number (get_state m) < u32_max")
    case True
    then obtain r m' where m': "migrate_stakes_v1_to_v2 ev admin b m = (Ok r, m')" "migration_inv v1 m'"
      "mg_migrated (get_state m') = mg_migrated (get_state m) @ take b (pending_providers v1 (get_state m))"
      "\<And>p. p \<notin> set (take b (pending_providers v1 (get_state m))) \<Longrightarrow> sget (mi_v2 m') p = sget (mi_v2 m) p"
      using migrate_batch [of v1 m ev admin b] assms by blast
    then show ?thesis using assms MBatch by (auto simp: untouched_def)
  next
    case False
    then have "snd (commit m (migrate_stakes_v1_to_v2 ev admin b m)) = m"
      by (auto simp: migrate_stakes_v1_to_v2_def Let_def)
    then show ?thesis using assms MBatch by simp
  qed
next
  case (MRecover ev admin p x)
  then have "migration_step o1 m = m" using assms by (auto simp: recover_migration_entry_def migration_inv_def Let_def)
  then show ?thesis using assms by simp
qed

lemma migration_inv_faithful:
  assumes "migration_inv v1 m \<and> untouched v2 m"
  shows "migration_faithful v1 v2 m"
proof -
  have "get_v2_balance m p = Some x" if "mg_complete (get_state m)" "sget v1 p = Some x" for p x
  proof -
    have "p \<in> fst ` set v1" using that(2) by (metis domI dom_map_of_conv_image_fst)
    then show ?thesis using assms that by (auto simp: migration_inv_def)
  qed
  moreover have "get_v2_balance m p = (if p \<in> set (mg_migrated (get_state m)) then sget v1 p else map_option balance (sget v2 p))" for p
    using assms by (auto simp: migration_inv_def untouched_def get_v2_balance_def)
  moreover have "fst (migrate_stakes_v1_to_v2 ev admin b m) \<noteq> Err (BalanceMismatch p x y)" for ev admin b p x y
    by (rule migrate_no_mismatch) (use assms in blast)
  ultimately show ?thesis using assms by (simp add: migration_faithful_def migration_inv_def)
qed

interpretation migration: invariant_system migration_step "\<lambda>m. migration_inv v1 m \<and> untouched v2 m" "migration_faithful v1 v2"
  for v1 v2
  by unfold_locales (use migration_step_inv migration_inv_faithful in blast)+

section \<open>Properties\<close>

text \<open>
  (C39) The migration keeps balances. After any sequence of batches and recovery attempts, by whoever and with
  whatever batch sizes, every migrated provider has exactly its V1 balance and every other V2 entry is
  what it was; no provider is migrated twice; the read-back check never fails; and once the migration
  reports completion every V1 provider has its balance in V2.
\<close>

theorem migration_preserves_balances:
  assumes "swf v1"
  shows "migration_faithful v1 v2 (fold migration_step ops \<lparr>mi_v1 = v1, mi_v2 = v2, mi_state = None\<rparr>)"
  by (rule migration.run_safe) (use migration_start [OF assms] in \<open>simp add: untouched_def get_state_def\<close>)

theorem migration_preserves_balances_witness:
  "migration_faithful [(3, 100), (4, 0), (6, 70)] []
     (fold migration_step [MBatch example_ev 1 2, MRecover example_ev 1 3 5, MBatch example_ev 1 2]
        \<lparr>mi_v1 = [(3, 100), (4, 0), (6, 70)], mi_v2 = [], mi_state = None\<rparr>)"
  by (rule migration_preserves_balances) (simp add: swf_def)

lemma migration_progress:
  fixes b :: nat and v2 :: "(addr, StakeInfoV2) smap"
  assumes "swf v1" "ev_auth ev admin" "k \<le> u32_max"
  defines "m \<equiv> fold migration_step (replicate k (MBatch ev admin b)) \<lparr>mi_v1 = v1, mi_v2 = v2, mi_state = None\<rparr>"
  shows "migration_inv v1 m \<and> (mg_complete (get_state m) \<or>
    mg_batch_number (get_state m) = k \<and> k * b \<le> length (mg_migrated (get_state m)))"
  using assms(3) unfolding m_def
proof (induction k)
  case 0
  then show ?case using migration_start [OF assms(1)] by (simp add: get_state_def)
next
  case (Suc k)
  let ?m = "fold migration_step (replicate k (MBatch ev admin b)) \<lparr>mi_v1 = v1, mi_v2 = v2, mi_state = None\<rparr>"
  have step: "fold migration_step (replicate (Suc k) (MBatch ev admin b)) \<lparr>mi_v1 = v1, mi_v2 = v2, mi_state = None\<rparr> =
      migration_step (MBatch ev admin b) ?m"
    by (simp add: replicate_append_same [symmetric] del: replicate.simps)
  have inv: "migration_inv v1 ?m" using Suc by simp
  show ?case
  proof (cases "mg_complete (get_state ?m)")
    case True
    then have "migration_step (MBatch ev admin b) ?m = ?m"
      using assms(2) by (simp add: migrate_stakes_v1_to_v2_def Let_def)
    then show ?thesis unfolding step using inv True by simp
  next
    case False
    then have k: "mg_batch_number (get_state ?m) = k" "k * b \<le> length (mg_migrated (get_state ?m))" using Suc by simp_all
    obtain r m' where m': "migrate_stakes_v1_to_v2 ev admin b ?m = (Ok r, m')" "migration_inv v1 m'"
      "mg_migrated (get_state m') = mg_migrated (get_state ?m) @ take b (pending_providers v1 (get_state ?m))"
      "mg_batch_number (get_state m') = Suc k"
      using migrate_batch [OF inv assms(2) False, of b] k(1) Suc.prems by auto
    have all: "mg_complete (get_state m')" if "length (pending_providers v1 (get_state ?m)) < b"
    proof -
      have "set (mg_migrated (get_state m')) = fst ` set v1"
        using m'(3) that pending_providers_facts(2) [OF inv] inv by (auto simp: migration_inv_def)
      then show ?thesis using m'(2,4) by (simp add: migration_inv_def)
    qed
    have "Suc k * b \<le> length (mg_migrated (get_state m'))" if "b \<le> length (pending_providers v1 (get_state ?m))"
      using m'(3) that k(2) by simp
    then show ?thesis unfolding step using m' all by (cases "b \<le> length (pending_providers v1 (get_state ?m))") auto
  qed
qed

text \<open>
  (C12) The migration ends. With a positive number of calls whose batches together cover the V1 providers the
  migration is complete, whatever the batch size and the number of providers (the batch counter is a
  \<open>u32\<close>).
\<close>

theorem migration_completes:
  assumes "swf v1" "ev_auth ev admin" "0 < n" "n \<le> u32_max" "length v1 \<le> n * b"
  shows "mg_complete (get_state (fold migration_step (replicate n (MBatch ev admin b)) \<lparr>mi_v1 = v1, mi_v2 = v2, mi_state = None\<rparr>))"
proof -
  let ?m = "fold migration_step (replicate n (MBatch ev admin b)) \<lparr>mi_v1 = v1, mi_v2 = v2, mi_state = None\<rparr>"
  note p = migration_progress [OF assms(1,2,4), of b v2]
  then have inv: "migration_inv v1 ?m" by blast
  show ?thesis
  proof (rule ccontr)
    assume undone: "\<not> mg_complete (get_state ?m)"
    then have n: "mg_batch_number (get_state ?m) = n" "n * b \<le> length (mg_migrated (get_state ?m))" using p by auto
    then have "length (pending_providers v1 (get_state ?m)) = 0"
      using pending_providers_facts(3) [OF inv] assms(5) by linarith
    then have "pending_providers v1 (get_state ?m) = []" by blast
    then have "set (mg_migrated (get_state ?m)) = fst ` set v1"
      using pending_providers_facts(2) [OF inv] inv by (auto simp: migration_inv_def)
    then show False using inv n(1) assms(3) undone by (simp add: migration_inv_def)
  qed
qed

theorem migration_completes_witness:
  "mg_complete (get_state (fold migration_step (replicate 2 (MBatch example_ev 1 2))
     \<lparr>mi_v1 = [(3, 100), (4, 0), (6, 70)], mi_v2 = [], mi_state = None\<rparr>))"
  by (rule migration_completes) (simp_all add: swf_def example_ev_def u32_max_def)

text \<open>
  A provider that already has a V2 stake loses it: the first batch overwrites the entry with the V1
  balance.
\<close>

lemma migration_overwrites_stake:
  "get_v2_balance (migration_step (MBatch example_ev 1 1)
     \<lparr>mi_v1 = [(3, 100)], mi_v2 = [(3, \<lparr>balance = 500, locked_until = 9, last_updated = 9\<rparr>)], mi_state = None\<rparr>) 3 = Some 100"
  by (simp add: migrate_stakes_v1_to_v2_def get_state_def pending_providers_def get_v2_balance_def example_ev_def sget_or_def
      u32_max_def Let_def)

end
