(* ===== verification/Assets.thy ===== *)
theory Assets
  imports Prelude
begin

text \<open>
  \<open>common/src/assets.rs\<close>: a Stellar asset, by its code and issuer (no issuer for the native asset).
\<close>

record asset =
  as_code :: string
  as_issuer :: "addr option"

end
