(* ===== verification/FeeState.thy ===== *)
theory FeeState
  imports Guards Assets
begin

text \<open>
  The storage of the fee collector (\<open>fee_collector/src/storage.rs\<close>, \<open>errors.rs\<close>, \<open>lib.rs\<close>): settings in
  \<open>fee_config\<close>, balances, books and records in \<open>fees\<close>, one field per storage key, and the operations
  that only write settings. A keyed entry that is absent is \<^const>\<open>None\<close>. The price oracle is another
  contract: its replies are a parameter.
\<close>

datatype ContractError =
    AlreadyInitialized | NotInitialized | Unauthorized | InvalidAmount | InsufficientTreasuryBalance
  | WithdrawalNotQueued | TimelockNotElapsed | ArithmeticOverflow | FeeRateTooHigh | FeeRateTooLow
  | OracleNotConfigured | OracleConversionFailed | FeeRoundedToZero | BurnRateTooHigh | DivisionByZero
  | InvalidFeeConfiguration | NetworkConditionInvalid | FailedCollectionNotFound | RetryLimitExceeded
  | IterationLimitExceeded | WaterfallNotConfigured | PreferredTokenInsufficient | PayoutCurrencyUnchanged
  | InvalidMultiplierBounds | SelfReferralNotAllowed | ReferralAlreadyRegistered | IncompatibleContractVersion
  | UnauthorizedCaller | SnapshotNotFound | InvalidTokenMetadata | PayoutExceedsCap
  | InsufficientInsuranceBalance | ClaimAlreadyProcessed | ContractPaused | InsufficientTokenBalance
  | InsufficientTokenAllowance | TokenOperationFailed

fun error_of_fee_token :: "TokenFailure \<Rightarrow> ContractError" where
  "error_of_fee_token TokenFailure.Unauthorized = Unauthorized"
| "error_of_fee_token TokenFailure.InsufficientBalance = InsufficientTokenBalance"
| "error_of_fee_token TokenFailure.InsufficientAllowance = InsufficientTokenAllowance"
| "error_of_fee_token _ = TokenOperationFailed"

section \<open>Constants\<close>

definition MAX_FEE_RATE_BPS :: nat where "MAX_FEE_RATE_BPS = 100"
definition MIN_FEE_RATE_BPS :: nat where "MIN_FEE_RATE_BPS = 1"
definition DEFAULT_FEE_RATE_BPS :: nat where "DEFAULT_FEE_RATE_BPS = 30"
definition DEFAULT_BURN_RATE_BPS :: nat where "DEFAULT_BURN_RATE_BPS = 1000"
definition MAX_BURN_RATE_BPS :: nat where "MAX_BURN_RATE_BPS = 10000"
definition DEFAULT_REVENUE_SHARE_RATE_BPS :: nat where "DEFAULT_REVENUE_SHARE_RATE_BPS = 2000"
definition DEFAULT_MAX_REBATE_BPS :: nat where "DEFAULT_MAX_REBATE_BPS = 8000"
definition LEDGERS_PER_MONTH_APPROX :: nat where "LEDGERS_PER_MONTH_APPROX = 518400"
definition SILVER_TIER_VOLUME_USD :: int where "SILVER_TIER_VOLUME_USD = 10000 * 10000000"
definition GOLD_TIER_VOLUME_USD :: int where "GOLD_TIER_VOLUME_USD = 50000 * 10000000"
definition SILVER_DISCOUNT_BPS :: nat where "SILVER_DISCOUNT_BPS = 5"
definition GOLD_DISCOUNT_BPS :: nat where "GOLD_DISCOUNT_BPS = 10"
definition SECS_PER_DAY :: nat where "SECS_PER_DAY = 86400"
definition MAX_BATCH_FEE_SIZE :: nat where "MAX_BATCH_FEE_SIZE = 20"
definition MAX_AUDIT_TOKENS :: nat where "MAX_AUDIT_TOKENS = 20"
definition BPS_TOTAL :: nat where "BPS_TOTAL = 10000"
definition FEE_COLLECTOR_VERSION :: nat where "FEE_COLLECTOR_VERSION = 2"

lemmas fee_consts =
  MAX_FEE_RATE_BPS_def MIN_FEE_RATE_BPS_def DEFAULT_FEE_RATE_BPS_def DEFAULT_BURN_RATE_BPS_def
  MAX_BURN_RATE_BPS_def DEFAULT_REVENUE_SHARE_RATE_BPS_def DEFAULT_MAX_REBATE_BPS_def
  LEDGERS_PER_MONTH_APPROX_def SILVER_TIER_VOLUME_USD_def GOLD_TIER_VOLUME_USD_def
  SILVER_DISCOUNT_BPS_def GOLD_DISCOUNT_BPS_def SECS_PER_DAY_def MAX_BATCH_FEE_SIZE_def
  MAX_AUDIT_TOKENS_def BPS_TOTAL_def FEE_COLLECTOR_VERSION_def

section \<open>Stored data\<close>

record TokenMetadata =
  md_symbol :: string
  md_name :: string
  md_decimals :: nat

record WaterfallTier =
  wt_name :: string
  wt_priority :: nat
  wt_target :: int
  wt_minimum :: int
  wt_recipient :: addr

record WaterfallTierResult =
  wr_name :: string
  wr_recipient :: addr
  wr_priority :: nat
  wr_allocated :: int

record FeeOptimizationConfig =
  max_dynamic_rate_bps :: nat
  congestion_sensitivity_bps :: nat
  min_effective_rate_bps :: nat
  max_retry_attempts :: nat

datatype ErrorCategory = Validation | Authorization | ExternalDependency | Arithmetic | Upgrade | Network
  | Recovery | CapacityLimit | InvariantViolation

datatype RecoveryStrategy = Retry | Defer | Escalate | ManualReview

record ErrorReport =
  er_category :: ErrorCategory
  er_strategy :: RecoveryStrategy
  er_timestamp :: nat

record FailedFeeCollection =
  ff_id :: string
  ff_trader :: addr
  ff_token :: addr
  ff_trade_amount :: int
  ff_trade_asset :: asset
  ff_retry_count :: nat
  ff_last_error :: string

record QueuedWithdrawal =
  qw_recipient :: addr
  qw_token :: addr
  qw_amount :: int
  qw_queued_at :: nat

record MonthlyTradeVolume =
  month_bucket :: nat
  volume_usd :: int

record VolumeTier =
  volume_threshold_usd :: int
  discount_bps :: nat

record ForecastConfigData =
  epoch_cadence_days :: nat
  window_days :: nat

record CongestionConfig =
  min_multiplier_bps :: nat
  max_multiplier_bps :: nat
  staleness_threshold_secs :: nat
  default_multiplier_bps :: nat

record CongestionSignal =
  multiplier_bps :: nat
  updated_at :: nat

record FeeSplitPolicy =
  protocol_bps :: nat
  provider_bps :: nat

record VolatilityBand =
  volatility_threshold_bps :: nat
  band_fee_rate_bps :: nat

record VolatilityBandConfig =
  bands :: "VolatilityBand list"
  base_fee_rate_bps :: nat

record TxFeeConfigCache =
  ch_optimization :: FeeOptimizationConfig
  ch_network_score :: nat
  ch_burn_rate :: nat
  ch_protocol_token :: "addr option"

text \<open>Settings: the instance storage that the administrator writes.\<close>

record fee_config =
  fg_admin :: "addr option"
  fg_initialized :: "bool option"
  fg_version :: "nat option"
  fg_callers :: "addr \<Rightarrow> bool option"
  fg_oracle :: "addr option"
  fg_fee_rate :: "nat option"
  fg_burn_rate :: "nat option"
  fg_congestion :: "CongestionConfig option"
  fg_signal :: "CongestionSignal option"
  fg_optimization :: "FeeOptimizationConfig option"
  fg_network_score :: "nat option"
  fg_config_version :: "nat option"
  fg_protocol_token :: "addr option"
  fg_revenue_share :: "nat option"
  fg_waterfall :: "WaterfallTier list option"
  fg_discounts :: "VolumeTier list option"
  fg_forecast :: "ForecastConfigData option"
  fg_referral_share :: "nat option"
  fg_metadata :: "addr \<Rightarrow> TokenMetadata option"
  fg_max_rebate :: "nat option"
  fg_split :: "FeeSplitPolicy option"
  fg_bands :: "VolatilityBandConfig option"

text \<open>Earnings of providers, per day and in total.\<close>

record earnings =
  en_daily :: "addr \<times> nat \<Rightarrow> int option"
  en_first_day :: "addr \<Rightarrow> nat option"
  en_total :: "addr \<Rightarrow> int option"
  en_index :: "addr list"

text \<open>Books, records and the token world; \<open>fc_cache\<close> is the temporary storage of the fee cache.\<close>

record 'w fees =
  fc_config :: fee_config
  fc_pause :: pausable
  fc_lock :: "bool option"
  fc_treasury :: "addr \<Rightarrow> int option"
  fc_queued :: "QueuedWithdrawal option"
  fc_insurance :: "addr \<Rightarrow> int option"
  fc_payout_cap :: "addr \<Rightarrow> int option"
  fc_processed :: "string \<Rightarrow> bool option"
  fc_pending :: "addr \<times> addr \<Rightarrow> int option"
  fc_pool :: "addr \<Rightarrow> int option"
  fc_pool_index :: "addr list"
  fc_last_snapshot :: "nat option"
  fc_volume :: "addr \<Rightarrow> MonthlyTradeVolume option"
  fc_traded :: "addr \<Rightarrow> bool option"
  fc_referrer :: "addr \<Rightarrow> addr option"
  fc_payout_currency :: "addr \<Rightarrow> addr option"
  fc_daily :: "addr \<times> nat \<Rightarrow> int option"
  fc_rebated :: "addr \<times> nat \<Rightarrow> int option"
  fc_last_forecast :: "addr \<Rightarrow> nat option"
  fc_failed :: "string \<Rightarrow> FailedFeeCollection option"
  fc_report :: "ErrorReport option"
  fc_earnings :: earnings
  fc_cache :: "nat \<Rightarrow> TxFeeConfigCache option"
  fc_world :: 'w

type_synonym ('w, 'a) fee_call = "('w fees, ContractError, 'a) outcome"

text \<open>
  What the oracle contract at an address answers: the value of an amount of an asset in the base
  currency, and the rate between two tokens. \<^const>\<open>None\<close> is a call that fails or returns another type.
\<close>

record fee_oracle =
  fo_convert :: "addr \<Rightarrow> int \<Rightarrow> asset \<Rightarrow> int option"
  fo_rate :: "addr \<Rightarrow> addr \<Rightarrow> addr \<Rightarrow> int option"

section \<open>Reading the storage\<close>

abbreviation config_of :: "(fee_config \<Rightarrow> 'a option) \<Rightarrow> 'a \<Rightarrow> 'w fees \<Rightarrow> 'a" where
  "config_of f d s \<equiv> opt_or d (f (fc_config s))"

definition put_config :: "(fee_config \<Rightarrow> fee_config) \<Rightarrow> 'w fees \<Rightarrow> 'w fees" where
  "put_config f s = s\<lparr>fc_config := f (fc_config s)\<rparr>"

definition get_fee_rate :: "'w fees \<Rightarrow> nat" where
  "get_fee_rate s = config_of fg_fee_rate DEFAULT_FEE_RATE_BPS s"

definition get_burn_rate :: "'w fees \<Rightarrow> nat" where
  "get_burn_rate s = config_of fg_burn_rate DEFAULT_BURN_RATE_BPS s"

definition get_network_condition_score :: "'w fees \<Rightarrow> nat" where
  "get_network_condition_score s = config_of fg_network_score 0 s"

definition get_fee_optimization_config :: "'w fees \<Rightarrow> FeeOptimizationConfig" where
  "get_fee_optimization_config s = config_of fg_optimization
     \<lparr>max_dynamic_rate_bps = 100, congestion_sensitivity_bps = 50,
      min_effective_rate_bps = MIN_FEE_RATE_BPS, max_retry_attempts = 3\<rparr> s"

definition get_congestion_config :: "'w fees \<Rightarrow> CongestionConfig" where
  "get_congestion_config s = config_of fg_congestion
     \<lparr>min_multiplier_bps = 10000, max_multiplier_bps = 50000, staleness_threshold_secs = 300,
      default_multiplier_bps = 10000\<rparr> s"

definition get_forecast_config :: "'w fees \<Rightarrow> ForecastConfigData" where
  "get_forecast_config s = config_of fg_forecast \<lparr>epoch_cadence_days = 1, window_days = 7\<rparr> s"

definition get_fee_split_policy :: "'w fees \<Rightarrow> FeeSplitPolicy" where
  "get_fee_split_policy s = config_of fg_split \<lparr>protocol_bps = 3000, provider_bps = 7000\<rparr> s"

definition get_revenue_share_rate_bps :: "'w fees \<Rightarrow> nat" where
  "get_revenue_share_rate_bps s = config_of fg_revenue_share DEFAULT_REVENUE_SHARE_RATE_BPS s"

definition get_referral_fee_share_bps :: "'w fees \<Rightarrow> nat" where
  "get_referral_fee_share_bps s = config_of fg_referral_share 0 s"

definition get_max_rebate_bps :: "'w fees \<Rightarrow> nat" where
  "get_max_rebate_bps s = config_of fg_max_rebate DEFAULT_MAX_REBATE_BPS s"

definition get_config_version :: "'w fees \<Rightarrow> nat" where
  "get_config_version s = config_of fg_config_version 0 s"

definition get_treasury_balance :: "'w fees \<Rightarrow> addr \<Rightarrow> int" where
  "get_treasury_balance s t = opt_or 0 (fc_treasury s t)"

definition set_treasury_balance :: "addr \<Rightarrow> int \<Rightarrow> 'w fees \<Rightarrow> 'w fees" where
  "set_treasury_balance t x s = s\<lparr>fc_treasury := (fc_treasury s)(t \<mapsto> x)\<rparr>"

definition get_insurance_balance :: "'w fees \<Rightarrow> addr \<Rightarrow> int" where
  "get_insurance_balance s t = opt_or 0 (fc_insurance s t)"

definition set_insurance_balance :: "addr \<Rightarrow> int \<Rightarrow> 'w fees \<Rightarrow> 'w fees" where
  "set_insurance_balance t x s = s\<lparr>fc_insurance := (fc_insurance s)(t \<mapsto> x)\<rparr>"

definition get_insurance_payout_cap :: "'w fees \<Rightarrow> addr \<Rightarrow> int" where
  "get_insurance_payout_cap s t = opt_or 0 (fc_payout_cap s t)"

definition is_insurance_claim_processed :: "'w fees \<Rightarrow> string \<Rightarrow> bool" where
  "is_insurance_claim_processed s i = opt_or False (fc_processed s i)"

definition get_pending_fees :: "'w fees \<Rightarrow> addr \<Rightarrow> addr \<Rightarrow> int" where
  "get_pending_fees s p t = opt_or 0 (fc_pending s (p, t))"

definition set_pending_fees :: "addr \<Rightarrow> addr \<Rightarrow> int \<Rightarrow> 'w fees \<Rightarrow> 'w fees" where
  "set_pending_fees p t x s = s\<lparr>fc_pending := (fc_pending s)((p, t) \<mapsto> x)\<rparr>"

definition get_revenue_share_pool :: "'w fees \<Rightarrow> addr \<Rightarrow> int" where
  "get_revenue_share_pool s t = opt_or 0 (fc_pool s t)"

definition has_traded :: "'w fees \<Rightarrow> addr \<Rightarrow> bool" where
  "has_traded s a = opt_or False (fc_traded s a)"

definition get_daily_fee_total :: "'w fees \<Rightarrow> addr \<Rightarrow> nat \<Rightarrow> int" where
  "get_daily_fee_total s t d = opt_or 0 (fc_daily s (t, d))"

definition add_daily_fee_total :: "addr \<Rightarrow> nat \<Rightarrow> int \<Rightarrow> 'w fees \<Rightarrow> 'w fees" where
  "add_daily_fee_total t d x s =
     s\<lparr>fc_daily := (fc_daily s)((t, d) \<mapsto> saturating_add (get_daily_fee_total s t d) x)\<rparr>"

definition get_last_forecast_day :: "'w fees \<Rightarrow> addr \<Rightarrow> nat" where
  "get_last_forecast_day s t = opt_or 0 (fc_last_forecast s t)"

definition get_epoch_rebate_distributed :: "'w fees \<Rightarrow> addr \<Rightarrow> nat \<Rightarrow> int" where
  "get_epoch_rebate_distributed s t d = opt_or 0 (fc_rebated s (t, d))"

definition add_epoch_rebate_distributed :: "addr \<Rightarrow> nat \<Rightarrow> int \<Rightarrow> 'w fees \<Rightarrow> 'w fees" where
  "add_epoch_rebate_distributed t d x s =
     s\<lparr>fc_rebated := (fc_rebated s)((t, d) \<mapsto> saturating_add (get_epoch_rebate_distributed s t d) x)\<rparr>"

definition is_authorized_caller :: "'w fees \<Rightarrow> addr \<Rightarrow> bool" where
  "is_authorized_caller s a = opt_or False (fg_callers (fc_config s) a)"

text \<open>The pool and the index of tokens with a non-empty pool.\<close>

definition add_to_revenue_share_pool_index :: "addr \<Rightarrow> 'w fees \<Rightarrow> 'w fees" where
  "add_to_revenue_share_pool_index t s =
     (if t \<in> set (fc_pool_index s) then s else s\<lparr>fc_pool_index := fc_pool_index s @ [t]\<rparr>)"

definition remove_from_revenue_share_pool_index :: "addr \<Rightarrow> 'w fees \<Rightarrow> 'w fees" where
  "remove_from_revenue_share_pool_index t s = s\<lparr>fc_pool_index := filter (\<lambda>u. u \<noteq> t) (fc_pool_index s)\<rparr>"

definition add_revenue_share_pool :: "addr \<Rightarrow> int \<Rightarrow> 'w fees \<Rightarrow> 'w fees" where
  "add_revenue_share_pool t x s =
     (let s' = s\<lparr>fc_pool := (fc_pool s)(t \<mapsto> saturating_add (get_revenue_share_pool s t) x)\<rparr>
      in if 0 < x then add_to_revenue_share_pool_index t s' else s')"

definition clear_revenue_share_pool :: "addr \<Rightarrow> 'w fees \<Rightarrow> 'w fees" where
  "clear_revenue_share_pool t s =
     remove_from_revenue_share_pool_index t (s\<lparr>fc_pool := (fc_pool s)(t := None)\<rparr>)"

definition bump_config_version :: "'w fees \<Rightarrow> 'w fees" where
  "bump_config_version s =
     put_config (fg_config_version_update (\<lambda>_. Some (as_u32 (get_config_version s + 1)))) s"

section \<open>Guards of the entry points\<close>

definition if_initialized :: "('w fees \<Rightarrow> ('w, 'a) fee_call) \<Rightarrow> 'w fees \<Rightarrow> ('w, 'a) fee_call" where
  "if_initialized k s =
     (if is_initialized (fg_initialized (fc_config s)) then k s else (Err NotInitialized, s))"

definition if_not_paused :: "('w fees \<Rightarrow> ('w, 'a) fee_call) \<Rightarrow> 'w fees \<Rightarrow> ('w, 'a) fee_call" where
  "if_not_paused k s = and_then (map_err (\<lambda>_. ContractPaused) (require_not_paused (fc_pause s)), s) (\<lambda>_. k)"

definition if_unlocked :: "('w fees \<Rightarrow> ('w, 'a) fee_call) \<Rightarrow> 'w fees \<Rightarrow> ('w, 'a) fee_call" where
  "if_unlocked k s = and_then (map_err (\<lambda>_. Unauthorized) (require_not_locked (fc_lock s)), s) (\<lambda>_. k)"

definition if_signed :: "env \<Rightarrow> addr \<Rightarrow> ('w fees \<Rightarrow> ('w, 'a) fee_call) \<Rightarrow> 'w fees \<Rightarrow> ('w, 'a) fee_call" where
  "if_signed ev a k s = (if ev_auth ev a then k s else (Panic, s))"

text \<open>\<open>get_admin\<close> unwraps the stored address; then the admin must sign.\<close>

definition if_admin :: "env \<Rightarrow> ('w fees \<Rightarrow> ('w, 'a) fee_call) \<Rightarrow> 'w fees \<Rightarrow> ('w, 'a) fee_call" where
  "if_admin ev k s = (case fg_admin (fc_config s) of None \<Rightarrow> (Panic, s) | Some a \<Rightarrow> if_signed ev a k s)"

definition admin_call :: "env \<Rightarrow> ('w fees \<Rightarrow> ('w, 'a) fee_call) \<Rightarrow> 'w fees \<Rightarrow> ('w, 'a) fee_call" where
  "admin_call ev k = if_initialized (if_admin ev k)"

text \<open>Calls that also name the admin: the stored admin signs, then the argument is compared.\<close>

definition named_admin_call :: "env \<Rightarrow> addr \<Rightarrow> ('w fees \<Rightarrow> ('w, 'a) fee_call) \<Rightarrow> 'w fees \<Rightarrow> ('w, 'a) fee_call" where
  "named_admin_call ev a k =
     admin_call ev (\<lambda>s. if fg_admin (fc_config s) \<noteq> Some a then (Err Unauthorized, s) else k s)"

text \<open>Calls of the admin or an allowlisted caller: the caller signs, then is looked up.\<close>

definition keeper_check :: "addr \<Rightarrow> ('w fees \<Rightarrow> ('w, 'a) fee_call) \<Rightarrow> 'w fees \<Rightarrow> ('w, 'a) fee_call" where
  "keeper_check caller k s =
     (case fg_admin (fc_config s) of None \<Rightarrow> (Panic, s)
      | Some a \<Rightarrow> if caller \<noteq> a \<and> \<not> is_authorized_caller s caller then (Err UnauthorizedCaller, s) else k s)"

text \<open>A token call of the contract; its failure becomes an error of the contract.\<close>

definition fee_token_call :: "('w \<Rightarrow> ('w, TokenFailure, unit) outcome) \<Rightarrow> 'w fees \<Rightarrow> ('w, unit) fee_call" where
  "fee_token_call f s = (case f (fc_world s) of (r, w) \<Rightarrow> (map_err error_of_fee_token r, s\<lparr>fc_world := w\<rparr>))"

section \<open>Settings\<close>

definition initialize :: "env \<Rightarrow> addr \<Rightarrow> 'w fees \<Rightarrow> ('w, unit) fee_call" where
  "initialize ev admin =
     if_signed ev admin (\<lambda>s.
       if is_initialized (fg_initialized (fc_config s)) then (Err AlreadyInitialized, s)
       else (Ok (), put_config (\<lambda>c. c\<lparr>fg_admin := Some admin, fg_initialized := Some True,
                                     fg_version := Some FEE_COLLECTOR_VERSION\<rparr>) s))"

definition upgrade :: "env \<Rightarrow> nat \<Rightarrow> 'w fees \<Rightarrow> ('w, unit) fee_call" where
  "upgrade ev new_version =
     admin_call ev (\<lambda>s.
       and_then (map_err (\<lambda>_. IncompatibleContractVersion)
           (guard_upgrade (get_contract_version (fg_version (fc_config s))) new_version), s)
         (\<lambda>_ s. (Ok (), put_config (fg_version_update (\<lambda>_. Some new_version)) s)))"

definition put_paused :: "env \<Rightarrow> bool \<Rightarrow> 'w fees \<Rightarrow> ('w, unit) fee_call" where
  "put_paused ev b = admin_call ev (\<lambda>s. (Ok (), s\<lparr>fc_pause := set_paused b (fc_pause s)\<rparr>))"

definition pause :: "env \<Rightarrow> 'w fees \<Rightarrow> ('w, unit) fee_call" where
  "pause ev = put_paused ev True"

definition unpause :: "env \<Rightarrow> 'w fees \<Rightarrow> ('w, unit) fee_call" where
  "unpause ev = put_paused ev False"

definition authorize_caller :: "env \<Rightarrow> addr \<Rightarrow> 'w fees \<Rightarrow> ('w, unit) fee_call" where
  "authorize_caller ev caller =
     admin_call ev (\<lambda>s. (Ok (), put_config (fg_callers_update (\<lambda>m. m(caller \<mapsto> True))) s))"

definition revoke_caller :: "env \<Rightarrow> addr \<Rightarrow> 'w fees \<Rightarrow> ('w, unit) fee_call" where
  "revoke_caller ev caller =
     admin_call ev (\<lambda>s. (Ok (), put_config (fg_callers_update (\<lambda>m. m(caller := None))) s))"

definition set_oracle_contract :: "env \<Rightarrow> addr \<Rightarrow> 'w fees \<Rightarrow> ('w, unit) fee_call" where
  "set_oracle_contract ev a = admin_call ev (\<lambda>s. (Ok (), put_config (fg_oracle_update (\<lambda>_. Some a)) s))"

definition set_insurance_payout_cap :: "env \<Rightarrow> addr \<Rightarrow> addr \<Rightarrow> int \<Rightarrow> 'w fees \<Rightarrow> ('w, unit) fee_call" where
  "set_insurance_payout_cap ev caller t cap =
     if_initialized (if_signed ev caller (\<lambda>s.
       case fg_admin (fc_config s) of None \<Rightarrow> (Panic, s)
       | Some a \<Rightarrow>
           if caller \<noteq> a then (Err UnauthorizedCaller, s)
           else if cap < 0 then (Err InvalidAmount, s)
           else (Ok (), s\<lparr>fc_payout_cap := (fc_payout_cap s)(t \<mapsto> cap)\<rparr>)))"

definition set_fee_rate :: "env \<Rightarrow> nat \<Rightarrow> 'w fees \<Rightarrow> ('w, unit) fee_call" where
  "set_fee_rate ev r =
     admin_call ev (\<lambda>s.
       if MAX_FEE_RATE_BPS < r then (Err FeeRateTooHigh, s)
       else if r < MIN_FEE_RATE_BPS then (Err FeeRateTooLow, s)
       else (Ok (), bump_config_version (put_config (fg_fee_rate_update (\<lambda>_. Some r)) s)))"

definition set_burn_rate :: "env \<Rightarrow> nat \<Rightarrow> 'w fees \<Rightarrow> ('w, unit) fee_call" where
  "set_burn_rate ev r =
     admin_call ev (\<lambda>s.
       if MAX_BURN_RATE_BPS < r then (Err BurnRateTooHigh, s)
       else (Ok (), bump_config_version (put_config (fg_burn_rate_update (\<lambda>_. Some r)) s)))"

definition set_congestion_config :: "env \<Rightarrow> CongestionConfig \<Rightarrow> 'w fees \<Rightarrow> ('w, unit) fee_call" where
  "set_congestion_config ev c =
     admin_call ev (\<lambda>s.
       if min_multiplier_bps c = 0 \<or> max_multiplier_bps c < min_multiplier_bps c
          \<or> default_multiplier_bps c < min_multiplier_bps c \<or> max_multiplier_bps c < default_multiplier_bps c
       then (Err InvalidMultiplierBounds, s)
       else (Ok (), put_config (fg_congestion_update (\<lambda>_. Some c)) s))"

definition set_congestion_signal :: "env \<Rightarrow> addr \<Rightarrow> nat \<Rightarrow> 'w fees \<Rightarrow> ('w, unit) fee_call" where
  "set_congestion_signal ev caller m =
     if_initialized (if_signed ev caller (keeper_check caller (\<lambda>s.
       if m < min_multiplier_bps (get_congestion_config s) \<or> max_multiplier_bps (get_congestion_config s) < m
       then (Err InvalidMultiplierBounds, s)
       else (Ok (), put_config (fg_signal_update (\<lambda>_. Some \<lparr>multiplier_bps = m, updated_at = ev_timestamp ev\<rparr>)) s))))"

definition set_fee_optimization_config :: "env \<Rightarrow> addr \<Rightarrow> FeeOptimizationConfig \<Rightarrow> 'w fees \<Rightarrow> ('w, unit) fee_call" where
  "set_fee_optimization_config ev admin c =
     named_admin_call ev admin (\<lambda>s.
       if max_dynamic_rate_bps c < MIN_FEE_RATE_BPS \<or> MAX_FEE_RATE_BPS < max_dynamic_rate_bps c
          \<or> 10000 < congestion_sensitivity_bps c \<or> min_effective_rate_bps c < MIN_FEE_RATE_BPS
          \<or> 10 < max_retry_attempts c
       then (Err InvalidFeeConfiguration, s)
       else (Ok (), bump_config_version (put_config (fg_optimization_update (\<lambda>_. Some c)) s)))"

definition update_network_conditions :: "env \<Rightarrow> addr \<Rightarrow> nat \<Rightarrow> 'w fees \<Rightarrow> ('w, unit) fee_call" where
  "update_network_conditions ev admin score =
     named_admin_call ev admin (\<lambda>s.
       if 10000 < score then (Err NetworkConditionInvalid, s)
       else (Ok (), bump_config_version (put_config (fg_network_score_update (\<lambda>_. Some score)) s)))"

text \<open>
  Clearing the protocol token stores a sentinel address, which no token has: the model's sentinel is
  the argument \<open>zero\<close>.
\<close>

definition set_protocol_token :: "env \<Rightarrow> addr \<Rightarrow> addr option \<Rightarrow> 'w fees \<Rightarrow> ('w, unit) fee_call" where
  "set_protocol_token ev zero t =
     admin_call ev (\<lambda>s. (Ok (), put_config (fg_protocol_token_update (\<lambda>_. Some (opt_or zero t))) s))"

definition validate_metadata :: "TokenMetadata \<Rightarrow> bool" where
  "validate_metadata m \<longleftrightarrow> md_decimals m \<le> 18 \<and> 1 \<le> length (md_symbol m) \<and> length (md_symbol m) \<le> 12
     \<and> length (md_name m) \<noteq> 0 \<and> length (md_name m) \<le> 64"

definition register_token :: "env \<Rightarrow> addr \<Rightarrow> addr \<Rightarrow> string \<Rightarrow> string \<Rightarrow> nat \<Rightarrow> 'w fees \<Rightarrow> ('w, unit) fee_call" where
  "register_token ev admin t sy nm dec =
     named_admin_call ev admin (\<lambda>s.
       let m = \<lparr>md_symbol = sy, md_name = nm, md_decimals = dec\<rparr>
       in if \<not> validate_metadata m then (Err InvalidTokenMetadata, s)
          else (Ok (), put_config (fg_metadata_update (\<lambda>f. f(t \<mapsto> m))) s))"

definition validate_token_metadata_for_token :: "addr \<Rightarrow> ('w fees \<Rightarrow> ('w, 'a) fee_call) \<Rightarrow> 'w fees \<Rightarrow> ('w, 'a) fee_call" where
  "validate_token_metadata_for_token t k s =
     (case fg_metadata (fc_config s) t of
        None \<Rightarrow> k s
      | Some m \<Rightarrow> if validate_metadata m then k s else (Err InvalidTokenMetadata, s))"

definition set_revenue_share_rate_bps :: "env \<Rightarrow> nat \<Rightarrow> 'w fees \<Rightarrow> ('w, unit) fee_call" where
  "set_revenue_share_rate_bps ev r =
     admin_call ev (\<lambda>s.
       if 10000 < r then (Err InvalidAmount, s)
       else (Ok (), put_config (fg_revenue_share_update (\<lambda>_. Some r)) s))"

definition set_waterfall_config :: "env \<Rightarrow> WaterfallTier list \<Rightarrow> 'w fees \<Rightarrow> ('w, unit) fee_call" where
  "set_waterfall_config ev tiers = admin_call ev (\<lambda>s. (Ok (), put_config (fg_waterfall_update (\<lambda>_. Some tiers)) s))"

definition set_volume_discount_config :: "env \<Rightarrow> addr \<Rightarrow> VolumeTier list \<Rightarrow> 'w fees \<Rightarrow> ('w, unit) fee_call" where
  "set_volume_discount_config ev admin tiers =
     named_admin_call ev admin (\<lambda>s.
       if length tiers < 3 then (Err InvalidFeeConfiguration, s)
       else if list_ex (\<lambda>t. volume_threshold_usd t < 0 \<or> discount_bps t = 0 \<or> MAX_FEE_RATE_BPS < discount_bps t) tiers
       then (Err InvalidFeeConfiguration, s)
       else (Ok (), put_config (fg_discounts_update (\<lambda>_. Some tiers)) s))"

definition set_forecast_config :: "env \<Rightarrow> addr \<Rightarrow> ForecastConfigData \<Rightarrow> 'w fees \<Rightarrow> ('w, unit) fee_call" where
  "set_forecast_config ev admin c =
     named_admin_call ev admin (\<lambda>s.
       if epoch_cadence_days c = 0 \<or> window_days c = 0 then (Err InvalidFeeConfiguration, s)
       else (Ok (), put_config (fg_forecast_update (\<lambda>_. Some c)) s))"

definition set_max_rebate_bps :: "env \<Rightarrow> nat \<Rightarrow> 'w fees \<Rightarrow> ('w, unit) fee_call" where
  "set_max_rebate_bps ev bps =
     admin_call ev (\<lambda>s.
       if 10000 < bps then (Err InvalidFeeConfiguration, s)
       else (Ok (), put_config (fg_max_rebate_update (\<lambda>_. Some bps)) s))"

definition set_volatility_bands :: "env \<Rightarrow> VolatilityBandConfig \<Rightarrow> 'w fees \<Rightarrow> ('w, unit) fee_call" where
  "set_volatility_bands ev c = admin_call ev (\<lambda>s. (Ok (), put_config (fg_bands_update (\<lambda>_. Some c)) s))"

section \<open>Referrals and payout currencies\<close>

definition set_referrer :: "addr \<Rightarrow> addr \<Rightarrow> 'w fees \<Rightarrow> 'w fees" where
  "set_referrer referee referrer s = s\<lparr>fc_referrer := (fc_referrer s)(referee \<mapsto> referrer)\<rparr>"

definition register_referral :: "env \<Rightarrow> addr \<Rightarrow> addr \<Rightarrow> 'w fees \<Rightarrow> ('w, unit) fee_call" where
  "register_referral ev referrer referee =
     if_initialized (if_signed ev referee (\<lambda>s.
       if referrer = referee then (Err SelfReferralNotAllowed, s)
       else if fc_referrer s referee \<noteq> None then (Err ReferralAlreadyRegistered, s)
       else (Ok (), set_referrer referee referrer s)))"

definition admin_override_referral :: "env \<Rightarrow> addr \<Rightarrow> addr \<Rightarrow> addr \<Rightarrow> 'w fees \<Rightarrow> ('w, unit) fee_call" where
  "admin_override_referral ev admin referrer referee =
     named_admin_call ev admin (\<lambda>s.
       if referrer = referee then (Err SelfReferralNotAllowed, s)
       else (Ok (), set_referrer referee referrer s))"

definition set_referral_fee_share :: "env \<Rightarrow> addr \<Rightarrow> nat \<Rightarrow> 'w fees \<Rightarrow> ('w, unit) fee_call" where
  "set_referral_fee_share ev admin bps =
     named_admin_call ev admin (\<lambda>s.
       if 10000 < bps then (Err InvalidFeeConfiguration, s)
       else (Ok (), put_config (fg_referral_share_update (\<lambda>_. Some bps)) s))"

definition set_payout_currency :: "env \<Rightarrow> addr \<Rightarrow> addr \<Rightarrow> 'w fees \<Rightarrow> ('w, unit) fee_call" where
  "set_payout_currency ev provider t =
     if_initialized (if_signed ev provider (\<lambda>s.
       (Ok (), s\<lparr>fc_payout_currency := (fc_payout_currency s)(provider \<mapsto> t)\<rparr>)))"

definition clear_payout_currency :: "env \<Rightarrow> addr \<Rightarrow> 'w fees \<Rightarrow> ('w, unit) fee_call" where
  "clear_payout_currency ev provider =
     if_initialized (if_signed ev provider (\<lambda>s.
       (Ok (), s\<lparr>fc_payout_currency := (fc_payout_currency s)(provider := None)\<rparr>)))"

end
