(* ===== verification/FeeRates.thy ===== *)
theory FeeRates
  imports FeeState
begin

text \<open>
  The fee rate of a trade: the congestion multiplier (\<open>fee_collector/src/lib.rs\<close>), monthly volumes and
  volume discounts (\<open>rebates.rs\<close>), the cached settings and the dynamic rate (\<open>fee_cache.rs\<close>), and the
  volatility bands (\<open>volatility.rs\<close>). The cache lives in temporary storage and is addressed by the
  last digit of the configuration version.
\<close>

section \<open>Congestion\<close>

definition current_effective_multiplier :: "env \<Rightarrow> 'w fees \<Rightarrow> nat" where
  "current_effective_multiplier ev s =
     (let c = get_congestion_config s
      in case fg_signal (fc_config s) of
           None \<Rightarrow> default_multiplier_bps c
         | Some sig \<Rightarrow>
             if staleness_threshold_secs c < ev_timestamp ev - updated_at sig then default_multiplier_bps c
             else min (max (multiplier_bps sig) (min_multiplier_bps c)) (max_multiplier_bps c))"

section \<open>Monthly volume and discounts\<close>

definition current_month_bucket :: "env \<Rightarrow> nat" where
  "current_month_bucket ev = ev_sequence ev div LEDGERS_PER_MONTH_APPROX"

text \<open>Reading the volume of an earlier month removes it.\<close>

definition active_monthly_trade_volume :: "env \<Rightarrow> addr \<Rightarrow> 'w fees \<Rightarrow> MonthlyTradeVolume option \<times> 'w fees" where
  "active_monthly_trade_volume ev user s =
     (case fc_volume s user of
        None \<Rightarrow> (None, s)
      | Some v \<Rightarrow> if month_bucket v = current_month_bucket ev then (Some v, s)
                  else (None, s\<lparr>fc_volume := (fc_volume s)(user := None)\<rparr>))"

definition get_active_volume_usd :: "env \<Rightarrow> addr \<Rightarrow> 'w fees \<Rightarrow> int \<times> 'w fees" where
  "get_active_volume_usd ev user s =
     (case active_monthly_trade_volume ev user s of
        (None, s) \<Rightarrow> (0, s)
      | (Some v, s) \<Rightarrow> (volume_usd v, s))"

definition best_discount :: "int \<Rightarrow> VolumeTier list \<Rightarrow> nat" where
  "best_discount volume tiers =
     fold (\<lambda>t best. if volume_threshold_usd t \<le> volume \<and> best < discount_bps t then discount_bps t else best) tiers 0"

definition volume_discount :: "int \<Rightarrow> VolumeTier list option \<Rightarrow> nat" where
  "volume_discount volume cfg =
     (case cfg of
        Some tiers \<Rightarrow> best_discount volume tiers
      | None \<Rightarrow> if GOLD_TIER_VOLUME_USD \<le> volume then GOLD_DISCOUNT_BPS
                else if SILVER_TIER_VOLUME_USD \<le> volume then SILVER_DISCOUNT_BPS
                else 0)"

definition get_fee_rate_for_user :: "env \<Rightarrow> addr \<Rightarrow> 'w fees \<Rightarrow> nat \<times> 'w fees" where
  "get_fee_rate_for_user ev user s =
     (let adjusted = as_u32 (min (get_fee_rate s * current_effective_multiplier ev s) u64_max div 10000)
      in case get_active_volume_usd ev user s of
           (volume, s) \<Rightarrow> (max (adjusted - volume_discount volume (fg_discounts (fc_config s))) MIN_FEE_RATE_BPS, s))"

definition record_trade_volume :: "env \<Rightarrow> fee_oracle \<Rightarrow> addr \<Rightarrow> asset \<Rightarrow> int \<Rightarrow> 'w fees \<Rightarrow> ('w, unit) fee_call" where
  "record_trade_volume ev orc user a amount s =
     and_then (ok_or OracleNotConfigured (fg_oracle (fc_config s)), s) (\<lambda>oracle s.
     and_then (ok_or OracleConversionFailed (fo_convert orc oracle amount a), s) (\<lambda>usd s.
     case active_monthly_trade_volume ev user s of
       (v, s) \<Rightarrow>
         and_then (ok_or ArithmeticOverflow (checked_add (opt_or 0 (map_option volume_usd v)) usd), s) (\<lambda>total_usd s.
           (Ok (), s\<lparr>fc_volume := (fc_volume s)(user \<mapsto> \<lparr>month_bucket = current_month_bucket ev, volume_usd = total_usd\<rparr>)\<rparr>))))"

section \<open>The fee cache\<close>

definition versioned_cache_key :: "'w fees \<Rightarrow> nat" where
  "versioned_cache_key s = get_config_version s mod 10"

definition stored_fee_config :: "'w fees \<Rightarrow> TxFeeConfigCache" where
  "stored_fee_config s =
     \<lparr>ch_optimization = get_fee_optimization_config s, ch_network_score = get_network_condition_score s,
      ch_burn_rate = get_burn_rate s, ch_protocol_token = fg_protocol_token (fc_config s)\<rparr>"

definition load_tx_fee_config :: "'w fees \<Rightarrow> TxFeeConfigCache \<times> 'w fees" where
  "load_tx_fee_config s =
     (case fc_cache s (versioned_cache_key s) of
        Some c \<Rightarrow> (c, s)
      | None \<Rightarrow> (stored_fee_config s, s\<lparr>fc_cache := (fc_cache s)(versioned_cache_key s \<mapsto> stored_fee_config s)\<rparr>))"

definition effective_fee_rate_cached :: "nat \<Rightarrow> addr \<Rightarrow> TxFeeConfigCache \<Rightarrow> nat" where
  "effective_fee_rate_cached base_rate t c =
     (let o1 = ch_optimization c;
          adjustment = as_u32 (min (ch_network_score c * congestion_sensitivity_bps o1) u64_max div 10000);
          r = max (u32_sat_add base_rate adjustment) (min_effective_rate_bps o1);
          r = min r (min (max_dynamic_rate_bps o1) MAX_FEE_RATE_BPS)
      in if ch_protocol_token c = Some t then max (r div 2) MIN_FEE_RATE_BPS else r)"

definition effective_fee_rate_for_trade :: "env \<Rightarrow> addr \<Rightarrow> addr \<Rightarrow> 'w fees \<Rightarrow> nat \<times> 'w fees" where
  "effective_fee_rate_for_trade ev trader t s =
     (case load_tx_fee_config s of (c, s) \<Rightarrow>
        case get_fee_rate_for_user ev trader s of (base, s) \<Rightarrow> (effective_fee_rate_cached base t c, s))"

definition fee_rate_for_user :: "env \<Rightarrow> addr \<Rightarrow> 'w fees \<Rightarrow> ('w, nat) fee_call" where
  "fee_rate_for_user ev user =
     if_initialized (\<lambda>s. case get_fee_rate_for_user ev user s of (r, s) \<Rightarrow> (Ok r, s))"

definition monthly_trade_volume :: "env \<Rightarrow> addr \<Rightarrow> 'w fees \<Rightarrow> ('w, int) fee_call" where
  "monthly_trade_volume ev user =
     if_initialized (\<lambda>s. case get_active_volume_usd ev user s of (v, s) \<Rightarrow> (Ok v, s))"

definition current_dynamic_fee_rate :: "env \<Rightarrow> addr \<Rightarrow> addr \<Rightarrow> 'w fees \<Rightarrow> ('w, nat) fee_call" where
  "current_dynamic_fee_rate ev trader t s =
     (case effective_fee_rate_for_trade ev trader t s of (r, s) \<Rightarrow> (Ok r, s))"

section \<open>Volatility bands\<close>

definition selected_band :: "nat \<Rightarrow> VolatilityBandConfig \<Rightarrow> nat" where
  "selected_band multiplier c =
     fold (\<lambda>b sel. if volatility_threshold_bps b \<le> multiplier then band_fee_rate_bps b else sel)
       (bands c) (base_fee_rate_bps c)"

definition fee_rate_for_current_volatility :: "'w fees \<Rightarrow> nat option" where
  "fee_rate_for_current_volatility s =
     map_option (selected_band (opt_or 10000 (map_option multiplier_bps (fg_signal (fc_config s))))) (fg_bands (fc_config s))"

definition current_volatility_fee_rate :: "'w fees \<Rightarrow> nat" where
  "current_volatility_fee_rate s = opt_or (get_fee_rate s) (fee_rate_for_current_volatility s)"

section \<open>Settings that can be stored\<close>

definition optimization_ok :: "FeeOptimizationConfig \<Rightarrow> bool" where
  "optimization_ok c \<longleftrightarrow> MIN_FEE_RATE_BPS \<le> max_dynamic_rate_bps c \<and> max_dynamic_rate_bps c \<le> MAX_FEE_RATE_BPS
     \<and> MIN_FEE_RATE_BPS \<le> min_effective_rate_bps c \<and> congestion_sensitivity_bps c \<le> 10000 \<and> max_retry_attempts c \<le> 10"

definition cache_ok :: "TxFeeConfigCache \<Rightarrow> bool" where
  "cache_ok c \<longleftrightarrow> optimization_ok (ch_optimization c) \<and> ch_burn_rate c \<le> MAX_BURN_RATE_BPS \<and> ch_network_score c \<le> 10000"

definition congestion_ok :: "CongestionConfig \<Rightarrow> bool" where
  "congestion_ok c \<longleftrightarrow> 0 < min_multiplier_bps c \<and> min_multiplier_bps c \<le> default_multiplier_bps c
     \<and> default_multiplier_bps c \<le> max_multiplier_bps c"

definition rates_ok :: "'w fees \<Rightarrow> bool" where
  "rates_ok s \<longleftrightarrow> MIN_FEE_RATE_BPS \<le> get_fee_rate s \<and> get_fee_rate s \<le> MAX_FEE_RATE_BPS
     \<and> congestion_ok (get_congestion_config s) \<and> cache_ok (stored_fee_config s)
     \<and> (\<forall>k c. fc_cache s k = Some c \<longrightarrow> cache_ok c)"

lemma multiplier_bounds:
  "congestion_ok (get_congestion_config s) \<Longrightarrow>
   min_multiplier_bps (get_congestion_config s) \<le> current_effective_multiplier ev s
   \<and> current_effective_multiplier ev s \<le> max_multiplier_bps (get_congestion_config s)"
  by (auto simp: current_effective_multiplier_def congestion_ok_def Let_def split: option.splits)

lemma effective_rate_bounds:
  assumes "cache_ok c"
  shows "MIN_FEE_RATE_BPS \<le> effective_fee_rate_cached base t c" "effective_fee_rate_cached base t c \<le> MAX_FEE_RATE_BPS"
  using assms by (auto simp: effective_fee_rate_cached_def Let_def cache_ok_def optimization_ok_def fee_consts)

lemmas rate_reads = stored_fee_config_def get_fee_rate_def get_congestion_config_def
  get_fee_optimization_config_def get_network_condition_score_def get_burn_rate_def

lemma rates_ok_cache:
  "rates_ok s \<Longrightarrow> (\<And>k c. ch k = Some c \<Longrightarrow> cache_ok c) \<Longrightarrow> rates_ok (s\<lparr>fc_cache := ch\<rparr>)"
  by (simp add: rates_ok_def rate_reads)

lemma load_tx_fee_config_ok:
  assumes "rates_ok s" "load_tx_fee_config s = (c, s')"
  shows "cache_ok c" "rates_ok s'" "\<exists>ch. s' = s\<lparr>fc_cache := ch\<rparr>"
proof -
  have stored: "cache_ok (stored_fee_config s)" "\<And>k c. fc_cache s k = Some c \<Longrightarrow> cache_ok c"
    using assms(1) unfolding rates_ok_def by blast+
  have "cache_ok c \<and> (\<exists>ch. s' = s\<lparr>fc_cache := ch\<rparr>) \<and> rates_ok s'"
  proof (cases "fc_cache s (versioned_cache_key s)")
    case None
    then have e: "c = stored_fee_config s" "s' = s\<lparr>fc_cache := (fc_cache s)(versioned_cache_key s \<mapsto> stored_fee_config s)\<rparr>"
      using assms(2) by (auto simp: load_tx_fee_config_def)
    have "rates_ok s'" unfolding e(2)
      by (rule rates_ok_cache [OF assms(1)]) (use stored in \<open>auto split: if_splits\<close>)
    then show ?thesis using stored(1) e by blast
  next
    case (Some d)
    then have e: "c = d" "s' = s" using assms(2) by (auto simp: load_tx_fee_config_def)
    have "s = s\<lparr>fc_cache := fc_cache s\<rparr>" by simp
    then show ?thesis using stored(2) [OF Some] assms(1) e by blast
  qed
  then show "cache_ok c" "rates_ok s'" "\<exists>ch. s' = s\<lparr>fc_cache := ch\<rparr>" by blast+
qed

lemma active_volume_frame:
  "active_monthly_trade_volume ev user s = (v, s') \<Longrightarrow> \<exists>m. s' = s\<lparr>fc_volume := m\<rparr>"
  by (auto simp: active_monthly_trade_volume_def split: option.splits if_splits intro: exI [of _ "fc_volume s"])

lemma fee_rate_for_user_frame:
  "get_fee_rate_for_user ev user s = (r, s') \<Longrightarrow> \<exists>m. s' = s\<lparr>fc_volume := m\<rparr>"
  by (auto simp: get_fee_rate_for_user_def get_active_volume_usd_def Let_def split: prod.splits option.splits
      dest!: active_volume_frame)

lemma record_trade_volume_frame:
  "record_trade_volume ev orc user a amount s = (r, s') \<Longrightarrow> \<exists>m. s' = s\<lparr>fc_volume := m\<rparr>"
proof -
  assume r: "record_trade_volume ev orc user a amount s = (r, s')"
  obtain v s1 where v: "active_monthly_trade_volume ev user s = (v, s1)" by fastforce
  then obtain m where m: "s1 = s\<lparr>fc_volume := m\<rparr>" using active_volume_frame by blast
  show ?thesis
  proof (cases "fg_oracle (fc_config s)")
    case None
    with r show ?thesis by (auto simp: record_trade_volume_def intro: exI [of _ "fc_volume s"])
  next
    case (Some oc)
    show ?thesis
    proof (cases "fo_convert orc oc amount a")
      case None
      with r Some show ?thesis by (auto simp: record_trade_volume_def intro: exI [of _ "fc_volume s"])
    next
      case (Some usd)
      with r v m \<open>fg_oracle (fc_config s) = Some oc\<close> show ?thesis
        by (cases "checked_add (opt_or 0 (map_option volume_usd v)) usd") (auto simp: record_trade_volume_def)
    qed
  qed
qed

lemma rates_ok_volume [simp]: "rates_ok (s\<lparr>fc_volume := m\<rparr>) = rates_ok s"
  by (simp add: rates_ok_def rate_reads)

section \<open>Properties\<close>

lemma best_discount_member:
  "best_discount v tiers \<in> insert 0 (discount_bps ` {t \<in> set tiers. volume_threshold_usd t \<le> v})"
  "t \<in> set tiers \<Longrightarrow> volume_threshold_usd t \<le> v \<Longrightarrow> discount_bps t \<le> best_discount v tiers"
proof -
  let ?f = "\<lambda>t best. if volume_threshold_usd t \<le> v \<and> best < discount_bps t then discount_bps t else best"
  have "b \<le> fold ?f ts b \<and> fold ?f ts b \<in> insert b (discount_bps ` {t \<in> set ts. volume_threshold_usd t \<le> v})
      \<and> (\<forall>t \<in> set ts. volume_threshold_usd t \<le> v \<longrightarrow> discount_bps t \<le> fold ?f ts b)" for ts b
  proof (induction ts arbitrary: b)
    case (Cons t ts)
    from Cons.IH [of "?f t b"] show ?case by (auto split: if_splits)
  qed simp
  from this [of 0 tiers] show
    "best_discount v tiers \<in> insert 0 (discount_bps ` {t \<in> set tiers. volume_threshold_usd t \<le> v})"
    "t \<in> set tiers \<Longrightarrow> volume_threshold_usd t \<le> v \<Longrightarrow> discount_bps t \<le> best_discount v tiers"
    by (auto simp: best_discount_def)
qed

end
