(* ===== verification/RetryBackoff.thy ===== *)
theory RetryBackoff
  imports Prelude
begin

text \<open>
  Retries with exponential backoff (\<open>common/src/retry_backoff.rs\<close>): whether another attempt is allowed,
  and after how many ledgers.
\<close>

record RetryConfig =
  max_attempts :: nat
  base_delay_ledgers :: nat
  max_delay_ledgers :: "nat option"

record RetryState =
  attempt :: nat

definition u32_checked_shl1 :: "nat \<Rightarrow> nat option" where
  "u32_checked_shl1 n = (if n < 32 then Some (2 ^ n) else None)"

text \<open>The assertion on the configuration is a trap.\<close>

definition should_retry :: "RetryState \<Rightarrow> RetryConfig \<Rightarrow> ('e, nat option) res" where
  "should_retry st c =
     (if max_attempts c = 0 then Panic
      else if max_attempts c \<le> attempt st then Ok None
      else let multiplier = opt_or u32_max (u32_checked_shl1 (attempt st - 1));
               raw_delay = u32_sat_mul (base_delay_ledgers c) multiplier
           in Ok (Some (case max_delay_ledgers c of Some cap \<Rightarrow> min raw_delay cap | None \<Rightarrow> raw_delay)))"

definition next_retry_state :: "RetryState \<Rightarrow> RetryState" where
  "next_retry_state st = \<lparr>attempt = u32_sat_add (attempt st) 1\<rparr>"

definition has_remaining_attempts :: "RetryState \<Rightarrow> RetryConfig \<Rightarrow> bool" where
  "has_remaining_attempts st c \<longleftrightarrow> attempt st < max_attempts c"

lemma should_retry_Ok:
  "should_retry st c = Ok r \<Longrightarrow> 0 < max_attempts c \<and> (r = None \<longleftrightarrow> \<not> has_remaining_attempts st c)"
  by (auto simp: should_retry_def has_remaining_attempts_def Let_def split: if_splits)

lemma u32_shl1_le: "m \<le> n \<Longrightarrow> opt_or u32_max (u32_checked_shl1 m) \<le> opt_or u32_max (u32_checked_shl1 n)"
proof -
  assume "m \<le> n"
  moreover have "(2::nat) ^ k \<le> u32_max" if "k < 32" for k
    using power_increasing [of k 31 "2::nat"] that by (simp add: u32_max_def)
  ultimately show ?thesis by (auto simp: u32_checked_shl1_def intro: power_increasing)
qed

text \<open>
  The delay never shrinks from one attempt to the next, and no delay exceeds the configured cap.
\<close>

lemma backoff_monotone:
  assumes "attempt st \<le> attempt st'" "should_retry st c = Ok (Some d)" "should_retry st' c = Ok (Some d')"
  shows "d \<le> d' \<and> (\<forall>cap. max_delay_ledgers c = Some cap \<longrightarrow> d' \<le> cap)"
proof -
  have "opt_or u32_max (u32_checked_shl1 (attempt st - 1)) \<le> opt_or u32_max (u32_checked_shl1 (attempt st' - 1))"
    using assms(1) by (intro u32_shl1_le) simp
  then have "u32_sat_mul (base_delay_ledgers c) (opt_or u32_max (u32_checked_shl1 (attempt st - 1)))
      \<le> u32_sat_mul (base_delay_ledgers c) (opt_or u32_max (u32_checked_shl1 (attempt st' - 1)))"
    by (auto simp: u32_sat_mul_def intro: min.coboundedI1 mult_le_mono2)
  then show ?thesis using assms(2,3)
    by (auto simp: should_retry_def Let_def split: if_splits option.splits intro: min.mono)
qed

end
