(* ===== verification/FeeCollect.thy ===== *)
theory FeeCollect
  imports FeeRates RetryBackoff
begin

text \<open>
  The collection of fees (\<open>fee_collector/src/lib.rs\<close>): the fee of a trade is taken from the trader, a
  part is burned, a part goes to the referrer, a part to the revenue pool of the token holders, and
  the rest to the treasury; with batches, retries and the revenue forecast.
\<close>

definition fee_amount_floor :: "int \<Rightarrow> nat \<Rightarrow> int option" where
  "fee_amount_floor trade_amount bps = map_option (\<lambda>x. tdiv x 10000) (checked_mul trade_amount (int bps))"

definition fee_and_burn_amounts :: "int \<Rightarrow> nat \<Rightarrow> nat \<Rightarrow> (int \<times> int) option" where
  "fee_and_burn_amounts trade_amount fee_bps burn_bps =
     Option.bind (fee_amount_floor trade_amount fee_bps) (\<lambda>fee.
     Option.bind (checked_mul fee (int burn_bps)) (\<lambda>b. Some (fee, tdiv b 10000)))"

text \<open>A share in basis points; an overflow counts as no share.\<close>

definition share_of :: "int \<Rightarrow> nat \<Rightarrow> int" where
  "share_of x bps = opt_or 0 (map_option (\<lambda>y. tdiv y 10000) (checked_mul x (int bps)))"

section \<open>Forecast\<close>

fun window_total :: "'w fees \<Rightarrow> addr \<Rightarrow> nat \<Rightarrow> nat \<Rightarrow> int \<times> nat" where
  "window_total s t today 0 = (0, 0)"
| "window_total s t today (Suc i) =
     (case window_total s t today i of (tot, days) \<Rightarrow>
        let x = get_daily_fee_total s t (today - i)
        in if 0 < x then (saturating_add tot x, u64_sat_add days 1) else (tot, days))"

definition projected_fees :: "'w fees \<Rightarrow> addr \<Rightarrow> nat \<Rightarrow> int" where
  "projected_fees s t today =
     (case window_total s t today (window_days (get_forecast_config s)) of (tot, days) \<Rightarrow>
        if days = 0 then 0
        else opt_or 0 (Option.bind (checked_div tot (int days))
               (\<lambda>avg. checked_mul avg (int (epoch_cadence_days (get_forecast_config s))))))"

definition current_day :: "env \<Rightarrow> nat" where
  "current_day ev = ev_timestamp ev div SECS_PER_DAY"

definition set_last_forecast_day :: "addr \<Rightarrow> nat \<Rightarrow> 'w fees \<Rightarrow> 'w fees" where
  "set_last_forecast_day t d s = s\<lparr>fc_last_forecast := (fc_last_forecast s)(t \<mapsto> d)\<rparr>"

definition trigger_fee_forecast :: "env \<Rightarrow> addr \<Rightarrow> addr \<Rightarrow> 'w fees \<Rightarrow> ('w, int) fee_call" where
  "trigger_fee_forecast ev admin t =
     named_admin_call ev admin (\<lambda>s.
       (Ok (projected_fees s t (current_day ev)), set_last_forecast_day t (current_day ev) s))"

section \<open>Collection\<close>

definition pay_referral :: "env \<Rightarrow> 'w token_if \<Rightarrow> addr \<Rightarrow> addr \<Rightarrow> int \<Rightarrow> int \<Rightarrow> 'w fees \<Rightarrow> ('w, int) fee_call" where
  "pay_referral ev tk trader t fee remaining s =
     (case fc_referrer s trader of
        None \<Rightarrow> (Ok remaining, s)
      | Some referrer \<Rightarrow>
          let x = min (share_of fee (get_referral_fee_share_bps s)) remaining
          in if 0 < x
             then and_then (fee_token_call (try_transfer tk t (ev_self ev) referrer x) s)
                    (\<lambda>_ s. (Ok (saturating_sub remaining x), s))
             else (Ok remaining, s))"

definition credit_shares :: "addr \<Rightarrow> int \<Rightarrow> int \<Rightarrow> 'w fees \<Rightarrow> ('w, unit) fee_call" where
  "credit_shares t distributable remaining s =
     (let revenue = min (share_of distributable (get_revenue_share_rate_bps s)) remaining;
          treasury_credit = saturating_sub remaining revenue;
          s = (if 0 < revenue then add_revenue_share_pool t revenue s else s)
      in and_then (ok_or ArithmeticOverflow (checked_add (get_treasury_balance s t) treasury_credit), s)
           (\<lambda>bal s. (Ok (), set_treasury_balance t bal s)))"

definition note_daily_fee :: "env \<Rightarrow> addr \<Rightarrow> int \<Rightarrow> 'w fees \<Rightarrow> 'w fees" where
  "note_daily_fee ev t fee s =
     (let s = add_daily_fee_total t (current_day ev) fee s
      in if u64_sat_add (get_last_forecast_day s t) (epoch_cadence_days (get_forecast_config s)) \<le> current_day ev
         then set_last_forecast_day t (current_day ev) s else s)"

definition burn_slice :: "env \<Rightarrow> 'w token_if \<Rightarrow> addr \<Rightarrow> int \<Rightarrow> 'w fees \<Rightarrow> ('w, unit) fee_call" where
  "burn_slice ev tk t x s =
     (if 0 < x then fee_token_call (try_burn tk t (ev_self ev) x) s else (Ok (), s))"

definition distribute_fee ::
  "env \<Rightarrow> 'w token_if \<Rightarrow> addr \<Rightarrow> addr \<Rightarrow> int \<Rightarrow> int \<Rightarrow> 'w fees \<Rightarrow> ('w, unit) fee_call" where
  "distribute_fee ev tk trader t fee burn s =
     and_then (fee_token_call (try_transfer tk t trader (ev_self ev) fee) s) (\<lambda>_ s.
     and_then (ok_or ArithmeticOverflow (checked_sub fee burn), s) (\<lambda>distributable s.
     and_then (burn_slice ev tk t burn s) (\<lambda>_ s.
     and_then (pay_referral ev tk trader t fee distributable s) (\<lambda>remaining s.
     credit_shares t distributable remaining s))))"

definition collect_fee_with_recovery ::
  "env \<Rightarrow> 'w token_if \<Rightarrow> fee_oracle \<Rightarrow> addr \<Rightarrow> addr \<Rightarrow> int \<Rightarrow> asset \<Rightarrow> 'w fees \<Rightarrow> ('w, int) fee_call" where
  "collect_fee_with_recovery ev tk orc trader t trade_amount a =
     if_initialized (if_not_paused (if_signed ev trader (\<lambda>s.
       if trade_amount \<le> 0 then (Err InvalidAmount, s)
       else if \<not> has_traded s trader
       then (Ok 0, snd (record_trade_volume ev orc trader a trade_amount
                          (s\<lparr>fc_traded := (fc_traded s)(trader \<mapsto> True)\<rparr>)))
       else case load_tx_fee_config s of (c, s) \<Rightarrow>
            case get_fee_rate_for_user ev trader s of (base, s) \<Rightarrow>
            and_then (ok_or ArithmeticOverflow
                (fee_and_burn_amounts trade_amount (effective_fee_rate_cached base t c) (ch_burn_rate c)), s) (\<lambda>(fee, burn) s.
              if fee \<le> 0 then (Err FeeRoundedToZero, s)
              else and_then (distribute_fee ev tk trader t fee burn s) (\<lambda>_ s.
                   and_then (record_trade_volume ev orc trader a trade_amount s) (\<lambda>_ s.
                   (Ok fee, note_daily_fee ev t fee s)))))))"

definition collect_fee ::
  "env \<Rightarrow> 'w token_if \<Rightarrow> fee_oracle \<Rightarrow> addr \<Rightarrow> addr \<Rightarrow> int \<Rightarrow> asset \<Rightarrow> 'w fees \<Rightarrow> ('w, int) fee_call" where
  "collect_fee ev tk orc trader t trade_amount a s =
     (case collect_fee_with_recovery ev tk orc trader t trade_amount a s of
        (Err e, s) \<Rightarrow> (Err e, s\<lparr>fc_report := Some \<lparr>er_category = ExternalDependency, er_strategy = Retry,
                                                   er_timestamp = ev_timestamp ev\<rparr>\<rparr>)
      | (r, s) \<Rightarrow> (r, s))"

record BatchFeeInput =
  bf_trader :: addr
  bf_token :: addr
  bf_trade_amount :: int
  bf_trade_asset :: asset

fun collect_items ::
  "env \<Rightarrow> 'w token_if \<Rightarrow> fee_oracle \<Rightarrow> BatchFeeInput list \<Rightarrow> 'w fees \<Rightarrow> ('w, int list) fee_call" where
  "collect_items ev tk orc [] s = (Ok [], s)"
| "collect_items ev tk orc (i # items) s =
     and_then (collect_fee_with_recovery ev tk orc (bf_trader i) (bf_token i) (bf_trade_amount i) (bf_trade_asset i) s)
       (\<lambda>fee s. and_then (collect_items ev tk orc items s) (\<lambda>fees s. (Ok (fee # fees), s)))"

definition batch_collect_fees ::
  "env \<Rightarrow> 'w token_if \<Rightarrow> fee_oracle \<Rightarrow> BatchFeeInput list \<Rightarrow> 'w fees \<Rightarrow> ('w, int list) fee_call" where
  "batch_collect_fees ev tk orc items s =
     (if items = [] \<or> MAX_BATCH_FEE_SIZE < length items then (Err InvalidAmount, s)
      else collect_items ev tk orc items (snd (load_tx_fee_config s)))"

section \<open>Failed collections\<close>

definition set_failed_fee_collection :: "FailedFeeCollection \<Rightarrow> 'w fees \<Rightarrow> 'w fees" where
  "set_failed_fee_collection f s = s\<lparr>fc_failed := (fc_failed s)(ff_id f \<mapsto> f)\<rparr>"

definition queue_failed_fee_collection :: "env \<Rightarrow> addr \<Rightarrow> FailedFeeCollection \<Rightarrow> 'w fees \<Rightarrow> ('w, unit) fee_call" where
  "queue_failed_fee_collection ev admin f =
     named_admin_call ev admin (\<lambda>s. (Ok (), set_failed_fee_collection f s))"

definition retry_failed_fee_collection ::
  "env \<Rightarrow> 'w token_if \<Rightarrow> fee_oracle \<Rightarrow> addr \<Rightarrow> string \<Rightarrow> 'w fees \<Rightarrow> ('w, int) fee_call" where
  "retry_failed_fee_collection ev tk orc admin i =
     named_admin_call ev admin (\<lambda>s.
       and_then (ok_or FailedCollectionNotFound (fc_failed s i), s) (\<lambda>f s.
       and_then (should_retry \<lparr>attempt = ff_retry_count f\<rparr>
           \<lparr>max_attempts = max_retry_attempts (get_fee_optimization_config s), base_delay_ledgers = 5,
            max_delay_ledgers = Some 200\<rparr>, s) (\<lambda>delay s.
         if delay = None then (Err RetryLimitExceeded, s)
         else let f = f\<lparr>ff_retry_count := attempt (next_retry_state \<lparr>attempt = ff_retry_count f\<rparr>)\<rparr>
              in and_then (collect_fee_with_recovery ev tk orc (ff_trader f) (ff_token f) (ff_trade_amount f) (ff_trade_asset f)
                    (set_failed_fee_collection f s))
                   (\<lambda>fee s. (Ok fee, s\<lparr>fc_failed := (fc_failed s)(i := None)\<rparr>)))))"

section \<open>The books of the contract\<close>

text \<open>
  What the contract owes in a token: the treasury, the insurance fund and the revenue pool. \<open>books_ok\<close>
  says the settings are within their bounds, no account is negative and no provider has a pending
  payout; the surplus of a token is what the contract holds beyond what it owes. A change is covered when
  it keeps the books in order, lowers no surplus and forgets no paid insurance claim.
\<close>

definition collector_owed :: "'w fees \<Rightarrow> addr \<Rightarrow> int" where
  "collector_owed s t = get_treasury_balance s t + get_insurance_balance s t + get_revenue_share_pool s t"

definition books_ok :: "'w fees \<Rightarrow> bool" where
  "books_ok s \<longleftrightarrow> rates_ok s
     \<and> (\<forall>t. 0 \<le> get_treasury_balance s t \<and> 0 \<le> get_insurance_balance s t \<and> 0 \<le> get_revenue_share_pool s t)
     \<and> (\<forall>p t. get_pending_fees s p t = 0)"

definition fee_surplus :: "'w token_if \<Rightarrow> addr \<Rightarrow> 'w fees \<Rightarrow> addr \<Rightarrow> int" where
  "fee_surplus tk self s t = tk_balance tk t self (fc_world s) - collector_owed s t"

definition fees_covered :: "'w token_if \<Rightarrow> addr \<Rightarrow> 'w fees \<Rightarrow> 'w fees \<Rightarrow> bool" where
  "fees_covered tk self s s' \<longleftrightarrow> books_ok s' \<and> (\<forall>t. fee_surplus tk self s t \<le> fee_surplus tk self s' t)
     \<and> (\<forall>c. is_insurance_claim_processed s c \<longrightarrow> is_insurance_claim_processed s' c)"

definition fee_books :: "'w fees \<Rightarrow> fee_config \<times> (addr \<Rightarrow> int option) \<times> (addr \<Rightarrow> int option) \<times> (addr \<Rightarrow> int option)
    \<times> (addr \<times> addr \<Rightarrow> int option) \<times> (string \<Rightarrow> bool option) \<times> (nat \<Rightarrow> TxFeeConfigCache option) \<times> 'w" where
  "fee_books s = (fc_config s, fc_treasury s, fc_insurance s, fc_pool s, fc_pending s, fc_processed s, fc_cache s, fc_world s)"

named_theorems book_reads \<open>what the books are read through\<close>

lemmas book_read_defs [book_reads] = get_treasury_balance_def get_insurance_balance_def get_revenue_share_pool_def get_pending_fees_def
  is_insurance_claim_processed_def

lemma books_okD:
  assumes "books_ok s"
  shows "rates_ok s" "0 \<le> get_treasury_balance s t" "0 \<le> get_insurance_balance s t" "0 \<le> get_revenue_share_pool s t"
    "get_pending_fees s p t = 0"
  using assms by (simp_all add: books_ok_def)

lemma rates_ok_books: "fc_config s' = fc_config s \<Longrightarrow> fc_cache s' = fc_cache s \<Longrightarrow> rates_ok s' = rates_ok s"
  by (simp add: rates_ok_def rate_reads)

lemma fees_covered_refl: "books_ok s \<Longrightarrow> fees_covered tk self s s"
  by (simp add: fees_covered_def)

lemma fees_covered_trans:
  "fees_covered tk self s s' \<Longrightarrow> fees_covered tk self s' s'' \<Longrightarrow> fees_covered tk self s s''"
  by (auto simp: fees_covered_def intro: order_trans)

lemma fees_covered_ok: "fees_covered tk self s s' \<Longrightarrow> books_ok s'"
  by (simp add: fees_covered_def)

lemma fees_covered_books: "fee_books s' = fee_books s \<Longrightarrow> books_ok s \<Longrightarrow> fees_covered tk self s s'"
  using rates_ok_books [of s' s]
  by (simp add: fee_books_def fees_covered_def books_ok_def fee_surplus_def collector_owed_def book_reads)

text \<open>Settings and caches may change as long as the rates stay within their bounds.\<close>

lemma fees_covered_rates:
  assumes "books_ok s" "rates_ok s'" "fc_treasury s' = fc_treasury s" "fc_insurance s' = fc_insurance s"
    "fc_pool s' = fc_pool s" "fc_pending s' = fc_pending s" "fc_processed s' = fc_processed s" "fc_world s' = fc_world s"
  shows "fees_covered tk self s s'"
  using assms by (simp add: fees_covered_def books_ok_def fee_surplus_def collector_owed_def book_reads)

section \<open>Where a fee goes\<close>

lemma fee_token_call_Ok:
  "fee_token_call f s = (Ok u, s') \<longleftrightarrow> (\<exists>w. f (fc_world s) = (Ok u, w) \<and> s' = s\<lparr>fc_world := w\<rparr>)"
  by (auto simp: fee_token_call_def map_err_Ok split: prod.splits)

lemma share_of_nonneg: "0 \<le> x \<Longrightarrow> 0 \<le> share_of x bps"
  by (auto simp: share_of_def checked_mul_def tdiv_nonneg pos_imp_zdiv_nonneg_iff)

lemma pay_referral_facts:
  assumes "pay_referral ev tk trader t fee remaining s = (Ok r, s')" "0 \<le> fee" "0 \<le> remaining" "in_i128 remaining"
  obtains x w where "0 \<le> x" "x \<le> remaining" "r = remaining - x" "s' = s\<lparr>fc_world := w\<rparr>"
    "x = 0 \<and> w = fc_world s \<or> (\<exists>p. fc_referrer s trader = Some p \<and>
       tk_transfer tk t (ev_self ev) p x (fc_world s) = CallOk w)"
proof (cases "fc_referrer s trader")
  case None
  with assms(1) have "r = remaining" "s' = s\<lparr>fc_world := fc_world s\<rparr>" by (auto simp: pay_referral_def)
  then show thesis using that [of 0 "fc_world s"] assms(3) by simp
next
  case (Some p)
  let ?x = "min (share_of fee (get_referral_fee_share_bps s)) remaining"
  have x: "0 \<le> ?x" "?x \<le> remaining" using share_of_nonneg [OF assms(2)] assms(3) by auto
  show thesis
  proof (cases "0 < ?x")
    case True
    then obtain w where "tk_transfer tk t (ev_self ev) p ?x (fc_world s) = CallOk w" "s' = s\<lparr>fc_world := w\<rparr>"
      "r = saturating_sub remaining ?x"
      using assms(1) Some by (auto simp: pay_referral_def Let_def and_then_Ok fee_token_call_Ok try_transfer_Ok)
    moreover have "saturating_sub remaining ?x = remaining - ?x"
      using x in_i128_between [OF assms(4), of "remaining - ?x"] by (intro saturating_sub_exact) auto
    ultimately show thesis using that [of ?x w] x Some by simp
  next
    case False
    then have "r = remaining" "s' = s\<lparr>fc_world := fc_world s\<rparr>"
      using assms(1) Some by (auto simp: pay_referral_def Let_def)
    then show thesis using that [of 0 "fc_world s"] assms(3) by simp
  qed
qed

lemma add_pool_eq:
  "0 < x \<Longrightarrow> \<exists>idx. add_revenue_share_pool t x s =
     s\<lparr>fc_pool := (fc_pool s)(t \<mapsto> saturating_add (get_revenue_share_pool s t) x), fc_pool_index := idx\<rparr>"
proof -
  assume x: "0 < x"
  let ?s = "s\<lparr>fc_pool := (fc_pool s)(t \<mapsto> saturating_add (get_revenue_share_pool s t) x)\<rparr>"
  have "\<exists>idx. add_to_revenue_share_pool_index t ?s = ?s\<lparr>fc_pool_index := idx\<rparr>"
    unfolding add_to_revenue_share_pool_index_def by (rule exI [of _ "if t \<in> set (fc_pool_index ?s) then fc_pool_index ?s else fc_pool_index ?s @ [t]"]) simp
  with x show ?thesis by (simp add: add_revenue_share_pool_def Let_def)
qed

lemma credit_shares_facts:
  assumes "credit_shares t d remaining s = (Ok (), s')" "0 \<le> d" "0 \<le> remaining" "in_i128 remaining"
  obtains share idx where "0 \<le> share" "share \<le> remaining"
    "s' = s\<lparr>fc_treasury := (fc_treasury s)(t \<mapsto> get_treasury_balance s t + (remaining - share)),
        fc_pool := (if 0 < share then (fc_pool s)(t \<mapsto> saturating_add (get_revenue_share_pool s t) share) else fc_pool s),
        fc_pool_index := idx\<rparr>"
proof -
  define share where "share = min (share_of d (get_revenue_share_rate_bps s)) remaining"
  have share: "0 \<le> share" "share \<le> remaining" using share_of_nonneg [OF assms(2)] assms(3) by (auto simp: share_def)
  have sub: "saturating_sub remaining share = remaining - share"
    using share in_i128_between [OF assms(4), of "remaining - share"] by (intro saturating_sub_exact) auto
  define s1 where "s1 = (if 0 < share then add_revenue_share_pool t share s else s)"
  have run: "s' = set_treasury_balance t (get_treasury_balance s1 t + (remaining - share)) s1"
    using assms(1) unfolding credit_shares_def Let_def share_def [symmetric] s1_def [symmetric] sub
    by (auto simp: and_then_Ok ok_or_Ok)
  obtain idx where s1: "s1 = s\<lparr>fc_pool := (if 0 < share then (fc_pool s)(t \<mapsto> saturating_add (get_revenue_share_pool s t) share) else fc_pool s),
      fc_pool_index := idx\<rparr>"
  proof (cases "0 < share")
    case True
    with add_pool_eq [OF True, of t s] that show thesis by (auto simp: s1_def)
  next
    case False
    with that [of "fc_pool_index s"] show thesis by (simp add: s1_def)
  qed
  show thesis
    by (rule that [OF share, of idx]) (simp add: run s1 set_treasury_balance_def get_treasury_balance_def)
qed

definition fee_paid_out :: "env \<Rightarrow> 'w token_if \<Rightarrow> addr option \<Rightarrow> addr \<Rightarrow> addr \<Rightarrow> int \<Rightarrow> int \<Rightarrow> int \<Rightarrow> 'w \<Rightarrow> 'w \<Rightarrow> bool" where
  "fee_paid_out ev tk referrer trader t fee burn ref w w' \<longleftrightarrow>
     (\<exists>w1 w2. tk_transfer tk t trader (ev_self ev) fee w = CallOk w1 \<and>
       (burn = 0 \<and> w2 = w1 \<or> tk_burn tk t (ev_self ev) burn w1 = CallOk w2) \<and>
       (ref = 0 \<and> w' = w2 \<or> (\<exists>p. referrer = Some p \<and> tk_transfer tk t (ev_self ev) p ref w2 = CallOk w')))"

definition fee_credited :: "addr \<Rightarrow> int \<Rightarrow> int \<Rightarrow> 'w fees \<Rightarrow> 'w fees \<Rightarrow> bool" where
  "fee_credited t cred share s s' \<longleftrightarrow>
     fc_treasury s' = (fc_treasury s)(t \<mapsto> get_treasury_balance s t + cred) \<and>
     fc_pool s' = (if 0 < share then (fc_pool s)(t \<mapsto> saturating_add (get_revenue_share_pool s t) share) else fc_pool s) \<and>
     fc_config s' = fc_config s \<and> fc_insurance s' = fc_insurance s \<and> fc_pending s' = fc_pending s \<and> fc_processed s' = fc_processed s"

lemma burn_slice_Ok:
  assumes "burn_slice ev tk t x s = (Ok (), s')" "0 \<le> x"
  obtains w where "s' = s\<lparr>fc_world := w\<rparr>" "x = 0 \<and> w = fc_world s \<or> tk_burn tk t (ev_self ev) x (fc_world s) = CallOk w"
proof (cases "x = 0")
  case True
  with assms have "s' = s\<lparr>fc_world := fc_world s\<rparr>" by (simp add: burn_slice_def)
  with True that show thesis by blast
next
  case False
  with assms obtain w where "tk_burn tk t (ev_self ev) x (fc_world s) = CallOk w" "s' = s\<lparr>fc_world := w\<rparr>"
    by (auto simp: burn_slice_def fee_token_call_Ok try_burn_Ok)
  with that show thesis by blast
qed

lemma distribute_fee_facts:
  assumes "distribute_fee ev tk trader t fee burn s = (Ok (), s')" "0 \<le> burn" "burn \<le> fee" "in_i128 fee"
  obtains ref share where "0 \<le> ref" "0 \<le> share" "burn + ref + share \<le> fee"
    "fee_paid_out ev tk (fc_referrer s trader) trader t fee burn ref (fc_world s) (fc_world s')"
    "fee_credited t (fee - burn - ref - share) share s s'" "fc_cache s' = fc_cache s"
proof -
  from assms(1) obtain w1 s2 s3 r where t: "tk_transfer tk t trader (ev_self ev) fee (fc_world s) = CallOk w1"
    and b: "burn_slice ev tk t burn (s\<lparr>fc_world := w1\<rparr>) = (Ok (), s2)"
    and r: "pay_referral ev tk trader t fee (fee - burn) s2 = (Ok r, s3)"
    and c: "credit_shares t (fee - burn) r s3 = (Ok (), s')"
    by (auto simp: distribute_fee_def and_then_Ok fee_token_call_Ok try_transfer_Ok ok_or_Ok)
  have d: "0 \<le> fee" "0 \<le> fee - burn" "in_i128 (fee - burn)"
    using assms(2-4) in_i128_between [OF assms(4), of "fee - burn"] by auto
  obtain w2 where s2: "s2 = s\<lparr>fc_world := w2\<rparr>"
    and w2: "burn = 0 \<and> w2 = w1 \<or> tk_burn tk t (ev_self ev) burn w1 = CallOk w2"
    by (rule burn_slice_Ok [OF b assms(2)]) auto
  from pay_referral_facts [OF r d] obtain x w3 where x: "0 \<le> x" "x \<le> fee - burn" "r = fee - burn - x" "s3 = s2\<lparr>fc_world := w3\<rparr>"
    and w3: "x = 0 \<and> w3 = w2 \<or> (\<exists>p. fc_referrer s trader = Some p \<and> tk_transfer tk t (ev_self ev) p x w2 = CallOk w3)"
    by (auto simp: s2)
  have rr: "0 \<le> r" "in_i128 r" using x in_i128_between [OF d(3), of r] by auto
  from credit_shares_facts [OF c d(2) rr] obtain share idx where share: "0 \<le> share" "share \<le> r"
    and s': "s' = s3\<lparr>fc_treasury := (fc_treasury s3)(t \<mapsto> get_treasury_balance s3 t + (r - share)),
        fc_pool := (if 0 < share then (fc_pool s3)(t \<mapsto> saturating_add (get_revenue_share_pool s3 t) share) else fc_pool s3),
        fc_pool_index := idx\<rparr>" by blast
  show thesis
  proof (rule that [of x share])
    show "fee_paid_out ev tk (fc_referrer s trader) trader t fee burn x (fc_world s) (fc_world s')"
      unfolding fee_paid_out_def using t w2 w3 by (auto simp: s' x(4) s2)
    show "fee_credited t (fee - burn - x - share) share s s'"
      by (simp add: fee_credited_def s' x(3,4) s2 book_reads)
  qed (use x share in \<open>auto simp: s' s2\<close>)
qed

lemma paid_out_balance:
  assumes "sep41 tk" "fee_paid_out ev tk rf trader t fee burn ref w w'" "trader \<noteq> ev_self ev"
  shows "tk_balance tk u (ev_self ev) w + (if u = t then fee - burn - ref else 0) \<le> tk_balance tk u (ev_self ev) w'"
proof -
  from assms(2) obtain w1 w2 where w: "tk_transfer tk t trader (ev_self ev) fee w = CallOk w1"
    "burn = 0 \<and> w2 = w1 \<or> tk_burn tk t (ev_self ev) burn w1 = CallOk w2"
    "ref = 0 \<and> w' = w2 \<or> (\<exists>p. rf = Some p \<and> tk_transfer tk t (ev_self ev) p ref w2 = CallOk w')"
    unfolding fee_paid_out_def by blast
  have "tk_balance tk u (ev_self ev) w1 = tk_balance tk u (ev_self ev) w + (if u = t then fee else 0)"
    using sep41_transfer [OF assms(1) w(1), of u "ev_self ev"] assms(3) by simp
  moreover have "tk_balance tk u (ev_self ev) w2 = tk_balance tk u (ev_self ev) w1 - (if u = t then burn else 0)"
    using w(2) sep41_burn [OF assms(1), of t "ev_self ev" burn w1 w2 u "ev_self ev"] by auto
  moreover have "tk_balance tk u (ev_self ev) w2 - (if u = t then ref else 0) \<le> tk_balance tk u (ev_self ev) w'"
    using w(3) sep41_transfer [OF assms(1), of t "ev_self ev" _ ref w2 w' u "ev_self ev"] sep41_amount(1) [OF assms(1)]
    by fastforce
  ultimately show ?thesis by auto
qed

lemma credited_covered:
  assumes "sep41 tk" "books_ok s" "fee_paid_out ev tk rf trader t fee burn ref (fc_world s) (fc_world s')" "trader \<noteq> ev_self ev"
    "fee_credited t (fee - burn - ref - share) share s s'" "0 \<le> ref" "0 \<le> share" "burn + ref + share \<le> fee" "rates_ok s'"
  shows "fees_covered tk (ev_self ev) s s'"
proof -
  note ok = books_okD [OF assms(2)]
  note c = assms(5) [unfolded fee_credited_def]
  have pool: "saturating_add (get_revenue_share_pool s t) share \<le> get_revenue_share_pool s t + share"
    "0 \<le> saturating_add (get_revenue_share_pool s t) share"
    using ok(4) [of t] assms(7) by (auto simp: saturating_add_nonneg) (auto simp: arith_defs)
  have "books_ok s'"
    using ok assms(7,8,9) c pool(2) by (auto simp: books_ok_def book_reads split: if_splits)
  moreover have "collector_owed s' u \<le> collector_owed s u + (if u = t then fee - burn - ref else 0)" for u
    using c pool(1) assms(7) by (auto simp: collector_owed_def book_reads split: if_splits)
  moreover have "is_insurance_claim_processed s' k = is_insurance_claim_processed s k" for k
    using c by (simp add: is_insurance_claim_processed_def)
  ultimately show ?thesis
    using paid_out_balance [OF assms(1,3,4)] by (auto simp: fees_covered_def fee_surplus_def) (smt (verit))+
qed

section \<open>What a collection does\<close>

definition fee_collected :: "env \<Rightarrow> 'w token_if \<Rightarrow> addr \<Rightarrow> addr \<Rightarrow> int \<Rightarrow> int \<Rightarrow> 'w fees \<Rightarrow> 'w fees \<Rightarrow> bool" where
  "fee_collected ev tk trader t amount fee s s' \<longleftrightarrow>
     (\<exists>bps burn ref share. MIN_FEE_RATE_BPS \<le> bps \<and> bps \<le> MAX_FEE_RATE_BPS \<and> fee = amount * int bps div 10000 \<and> 0 < fee \<and>
       0 \<le> burn \<and> 0 \<le> ref \<and> 0 \<le> share \<and> burn + ref + share \<le> fee \<and>
       fee_paid_out ev tk (fc_referrer s trader) trader t fee burn ref (fc_world s) (fc_world s') \<and>
       fee_credited t (fee - burn - ref - share) share s s')"

lemma fee_and_burn_amounts_Some:
  assumes "fee_and_burn_amounts amount r b = Some (fee, burn)" "0 < amount"
  shows "fee = amount * int r div 10000" "in_i128 fee" "burn = fee * int b div 10000" "0 \<le> fee"
proof -
  have "fee = tdiv (amount * int r) 10000" "in_i128 (amount * int r)" "burn = tdiv (fee * int b) 10000"
    using assms(1) by (auto simp: fee_and_burn_amounts_def fee_amount_floor_def bind_eq_Some_conv)
  moreover have "0 \<le> amount * int r" using assms(2) by simp
  ultimately show "fee = amount * int r div 10000" "0 \<le> fee" "burn = fee * int b div 10000" "in_i128 fee"
    using div_floor [of 10000 "amount * int r"]
    by (simp_all add: tdiv_nonneg pos_imp_zdiv_nonneg_iff in_i128_between)
qed

lemma note_daily_fee_frame:
  "\<exists>d l. note_daily_fee ev t fee s = s\<lparr>fc_daily := d, fc_last_forecast := l\<rparr>"
  by (intro exI [of _ "fc_daily (note_daily_fee ev t fee s)"] exI [of _ "fc_last_forecast (note_daily_fee ev t fee s)"])
    (simp add: note_daily_fee_def Let_def set_last_forecast_day_def add_daily_fee_total_def)

lemma fee_guards_Ok:
  "if_initialized k s = (Ok x, s') \<longleftrightarrow> is_initialized (fg_initialized (fc_config s)) \<and> k s = (Ok x, s')"
  "if_not_paused k s = (Ok x, s') \<longleftrightarrow> \<not> is_paused (fc_pause s) \<and> k s = (Ok x, s')"
  "if_unlocked k s = (Ok x, s') \<longleftrightarrow> \<not> opt_or False (fc_lock s) \<and> k s = (Ok x, s')"
  "if_signed ev a k s = (Ok x, s') \<longleftrightarrow> ev_auth ev a \<and> k s = (Ok x, s')"
  "if_admin ev k s = (Ok x, s') \<longleftrightarrow> (\<exists>a. fg_admin (fc_config s) = Some a \<and> ev_auth ev a \<and> k s = (Ok x, s'))"
  "keeper_check c k s = (Ok x, s') \<longleftrightarrow>
     (\<exists>a. fg_admin (fc_config s) = Some a \<and> (c = a \<or> is_authorized_caller s c) \<and> k s = (Ok x, s'))"
  by (auto simp: if_initialized_def if_not_paused_def if_unlocked_def if_signed_def if_admin_def keeper_check_def
      require_not_paused_def require_not_locked_def split: option.splits)

lemma admin_call_Ok:
  "admin_call ev k s = (Ok x, s') \<longleftrightarrow>
     is_initialized (fg_initialized (fc_config s)) \<and> (\<exists>a. fg_admin (fc_config s) = Some a \<and> ev_auth ev a) \<and> k s = (Ok x, s')"
  "named_admin_call ev b k s = (Ok x, s') \<longleftrightarrow>
     is_initialized (fg_initialized (fc_config s)) \<and> fg_admin (fc_config s) = Some b \<and> ev_auth ev b \<and> k s = (Ok x, s')"
  by (auto simp: admin_call_def named_admin_call_def fee_guards_Ok split: if_splits)

lemma collect_guards:
  assumes "collect_fee_with_recovery ev tk orc trader t amount a s = (Ok fee, s')"
  shows "ev_auth ev trader" "0 < amount"
    "\<not> has_traded s trader \<Longrightarrow> fee = 0 \<and>
       s' = snd (record_trade_volume ev orc trader a amount (s\<lparr>fc_traded := (fc_traded s)(trader \<mapsto> True)\<rparr>))"
    "has_traded s trader \<Longrightarrow> load_tx_fee_config s = (c, s1) \<Longrightarrow> get_fee_rate_for_user ev trader s1 = (base, s2) \<Longrightarrow>
       and_then (ok_or ArithmeticOverflow
           (fee_and_burn_amounts amount (effective_fee_rate_cached base t c) (ch_burn_rate c)), s2) (\<lambda>(fee, burn) s.
         if fee \<le> 0 then (Err FeeRoundedToZero, s)
         else and_then (distribute_fee ev tk trader t fee burn s) (\<lambda>_ s.
              and_then (record_trade_volume ev orc trader a amount s) (\<lambda>_ s.
              (Ok fee, note_daily_fee ev t fee s)))) = (Ok fee, s')"
proof -
  note g = assms [unfolded collect_fee_with_recovery_def fee_guards_Ok]
  show "ev_auth ev trader" using g by blast
  show pos: "0 < amount" using g by (cases "amount \<le> 0") simp_all
  show "fee = 0 \<and> s' = snd (record_trade_volume ev orc trader a amount (s\<lparr>fc_traded := (fc_traded s)(trader \<mapsto> True)\<rparr>))"
    if "\<not> has_traded s trader" using g pos that by simp
  show "and_then (ok_or ArithmeticOverflow
           (fee_and_burn_amounts amount (effective_fee_rate_cached base t c) (ch_burn_rate c)), s2) (\<lambda>(fee, burn) s.
         if fee \<le> 0 then (Err FeeRoundedToZero, s)
         else and_then (distribute_fee ev tk trader t fee burn s) (\<lambda>_ s.
              and_then (record_trade_volume ev orc trader a amount s) (\<lambda>_ s.
              (Ok fee, note_daily_fee ev t fee s)))) = (Ok fee, s')"
    if "has_traded s trader" "load_tx_fee_config s = (c, s1)" "get_fee_rate_for_user ev trader s1 = (base, s2)"
    using g pos that by simp
qed

lemma collect_charged:
  assumes "collect_fee_with_recovery ev tk orc trader t amount a s = (Ok fee, s')" "has_traded s trader"
    "load_tx_fee_config s = (c, s1)" "get_fee_rate_for_user ev trader s1 = (base, s2)"
  obtains burn s3 s4 where
    "fee_and_burn_amounts amount (effective_fee_rate_cached base t c) (ch_burn_rate c) = Some (fee, burn)" "0 < fee"
    "distribute_fee ev tk trader t fee burn s2 = (Ok (), s3)"
    "record_trade_volume ev orc trader a amount s3 = (Ok (), s4)" "s' = note_daily_fee ev t fee s4"
proof -
  from collect_guards(4) [OF assms] obtain f burn where
    f: "fee_and_burn_amounts amount (effective_fee_rate_cached base t c) (ch_burn_rate c) = Some (f, burn)"
    and run: "(if f \<le> 0 then (Err FeeRoundedToZero, s2)
      else and_then (distribute_fee ev tk trader t f burn s2) (\<lambda>_ s.
           and_then (record_trade_volume ev orc trader a amount s) (\<lambda>_ s. (Ok f, note_daily_fee ev t f s)))) = (Ok fee, s')"
    unfolding and_then_Ok ok_or_Ok by (auto simp only: prod.inject prod.case res.inject ok_or_Ok)
  have pos: "0 < f" using run by (cases "f \<le> 0") simp_all
  with run have "and_then (distribute_fee ev tk trader t f burn s2) (\<lambda>_ s.
      and_then (record_trade_volume ev orc trader a amount s) (\<lambda>_ s. (Ok f, note_daily_fee ev t f s))) = (Ok fee, s')" by simp
  then obtain s3 s4 where "distribute_fee ev tk trader t f burn s2 = (Ok (), s3)"
    "record_trade_volume ev orc trader a amount s3 = (Ok (), s4)" "fee = f" "s' = note_daily_fee ev t f s4"
    by (auto simp: and_then_Ok)
  with that f pos show thesis by blast
qed

lemma collect_fee_with_recovery_Ok:
  assumes "collect_fee_with_recovery ev tk orc trader t amount a s = (Ok fee, s')" "rates_ok s"
  shows "ev_auth ev trader \<and> 0 < amount \<and> rates_ok s' \<and>
    (\<not> has_traded s trader \<and> fee = 0 \<and> (\<exists>tr m. s' = s\<lparr>fc_traded := tr, fc_volume := m\<rparr>)
     \<or> has_traded s trader \<and> fee_collected ev tk trader t amount fee s s')"
proof (cases "has_traded s trader")
  case False
  let ?s = "s\<lparr>fc_traded := (fc_traded s)(trader \<mapsto> True)\<rparr>"
  obtain r s1 where r: "record_trade_volume ev orc trader a amount ?s = (r, s1)" by fastforce
  with record_trade_volume_frame obtain m where "s1 = ?s\<lparr>fc_volume := m\<rparr>" by blast
  then have "s' = s\<lparr>fc_traded := (fc_traded s)(trader \<mapsto> True), fc_volume := m\<rparr>" "fee = 0"
    using collect_guards(3) [OF assms(1) False] r by simp_all
  moreover have "rates_ok (s\<lparr>fc_traded := (fc_traded s)(trader \<mapsto> True), fc_volume := m\<rparr>)"
    using assms(2) rates_ok_books [of "s\<lparr>fc_traded := (fc_traded s)(trader \<mapsto> True), fc_volume := m\<rparr>" s] by simp
  ultimately show ?thesis using False collect_guards(1,2) [OF assms(1)] by blast
next
  case True
  obtain c s1 where c: "load_tx_fee_config s = (c, s1)" by fastforce
  obtain base s2 where b: "get_fee_rate_for_user ev trader s1 = (base, s2)" by fastforce
  let ?bps = "effective_fee_rate_cached base t c"
  note auth = collect_guards(1,2) [OF assms(1)]
  obtain burn s3 s4 where f: "fee_and_burn_amounts amount ?bps (ch_burn_rate c) = Some (fee, burn)" "0 < fee"
    and d: "distribute_fee ev tk trader t fee burn s2 = (Ok (), s3)"
    and v: "record_trade_volume ev orc trader a amount s3 = (Ok (), s4)" and s': "s' = note_daily_fee ev t fee s4"
    by (rule collect_charged [OF assms(1) True c b])
  note cache = load_tx_fee_config_ok [OF assms(2) c]
  obtain ch m where s2: "s2 = s\<lparr>fc_cache := ch, fc_volume := m\<rparr>"
    using cache(3) fee_rate_for_user_frame [OF b] by auto
  obtain m' where s4: "s4 = s3\<lparr>fc_volume := m'\<rparr>" using record_trade_volume_frame [OF v] by blast
  obtain dl l where s'4: "s' = s4\<lparr>fc_daily := dl, fc_last_forecast := l\<rparr>"
    using note_daily_fee_frame [of ev t fee s4] s' by blast
  note amt = fee_and_burn_amounts_Some [OF f(1) auth(2)]
  have burn: "0 \<le> burn" "burn \<le> fee"
  proof -
    have "fee * int (ch_burn_rate c) \<le> fee * 10000"
      using cache(1) amt(4) by (intro mult_left_mono) (auto simp: cache_ok_def fee_consts)
    then have "fee * int (ch_burn_rate c) div 10000 \<le> fee" using div_floor(1) [of 10000 "fee * int (ch_burn_rate c)"] by linarith
    then show "burn \<le> fee" using amt(3) by simp
    show "0 \<le> burn" using amt(3,4) by (simp add: pos_imp_zdiv_nonneg_iff)
  qed
  obtain ref share where p: "0 \<le> ref" "0 \<le> share" "burn + ref + share \<le> fee"
    "fee_paid_out ev tk (fc_referrer s2 trader) trader t fee burn ref (fc_world s2) (fc_world s3)"
    "fee_credited t (fee - burn - ref - share) share s2 s3" "fc_cache s3 = fc_cache s2"
    by (rule distribute_fee_facts [OF d burn amt(2)])
  have "fee_collected ev tk trader t amount fee s s'"
    unfolding fee_collected_def
  proof (intro exI conjI)
    show "fee_paid_out ev tk (fc_referrer s trader) trader t fee burn ref (fc_world s) (fc_world s')"
      using p(4) by (simp add: s2 s4 s'4)
    show "fee_credited t (fee - burn - ref - share) share s s'"
      using p(5) by (simp add: s2 s4 s'4 fee_credited_def book_reads)
  qed (use p(1-3) burn f(2) amt(1) effective_rate_bounds [OF cache(1)] in auto)
  moreover have "rates_ok s'"
  proof -
    have "rates_ok s1" by (rule cache(2))
    then have "rates_ok s2" using fee_rate_for_user_frame [OF b] by auto
    then show ?thesis using rates_ok_books [of s' s2] p(5,6) by (simp add: s4 s'4 fee_credited_def)
  qed
  ultimately show ?thesis using True auth by blast
qed

lemma collect_covered:
  assumes "sep41 tk" "books_ok s" "\<not> ev_auth ev (ev_self ev)"
    "collect_fee_with_recovery ev tk orc trader t amount a s = (Ok fee, s')"
  shows "fees_covered tk (ev_self ev) s s'"
proof -
  note c = collect_fee_with_recovery_Ok [OF assms(4) books_okD(1) [OF assms(2)]]
  show ?thesis
  proof (cases "has_traded s trader")
    case False
    then obtain tr m where "s' = s\<lparr>fc_traded := tr, fc_volume := m\<rparr>" using c by blast
    then show ?thesis using assms(2) by (intro fees_covered_books) (auto simp: fee_books_def)
  next
    case True
    then obtain bps burn ref share where p: "0 \<le> ref" "0 \<le> share" "burn + ref + share \<le> fee"
       "fee_paid_out ev tk (fc_referrer s trader) trader t fee burn ref (fc_world s) (fc_world s')"
       "fee_credited t (fee - burn - ref - share) share s s'"
      using c unfolding fee_collected_def by blast
    have "trader \<noteq> ev_self ev" using c assms(3) by auto
    with p c show ?thesis by (intro credited_covered [OF assms(1,2) p(4)]) auto
  qed
qed

end
