(* ===== verification/StableSort.thy ===== *)
theory StableSort
  imports Prelude "HOL-Library.Multiset"
begin

text \<open>
  The two bubble sorts the contracts write out: passes over the whole list until one makes no swap, and
  a fixed number of passes over a shrinking prefix. Both only swap neighbours whose keys are out of
  order, so both compute the library's stable \<^const>\<open>sort_key\<close>.
\<close>

fun bubble_pass :: "('a \<Rightarrow> 'k::linorder) \<Rightarrow> 'a list \<Rightarrow> 'a list \<times> bool" where
  "bubble_pass key (a # b # xs) =
     (if key b < key a
      then (case bubble_pass key (a # xs) of (ys, _) \<Rightarrow> (b # ys, True))
      else (case bubble_pass key (b # xs) of (ys, sw) \<Rightarrow> (a # ys, sw)))"
| "bubble_pass key xs = (xs, False)"

fun inversions :: "('a \<Rightarrow> 'k::linorder) \<Rightarrow> 'a list \<Rightarrow> nat" where
  "inversions key [] = 0"
| "inversions key (x # xs) = length (filter (\<lambda>y. key y < key x) xs) + inversions key xs"

lemma bubble_pass_Cons2 [simp]:
  "fst (bubble_pass key (a # b # xs)) =
     (if key b < key a then b # fst (bubble_pass key (a # xs)) else a # fst (bubble_pass key (b # xs)))"
  "snd (bubble_pass key (a # b # xs)) = (key b < key a \<or> snd (bubble_pass key (b # xs)))"
  by (simp_all split: prod.splits)

declare bubble_pass.simps(1) [simp del]

lemma bubble_pass_mset: "mset (fst (bubble_pass key xs)) = mset xs"
  by (induction key xs rule: bubble_pass.induct) (auto split: prod.splits)

lemma bubble_pass_set [simp]: "set (fst (bubble_pass key xs)) = set xs"
  by (rule mset_eq_setD) (rule bubble_pass_mset)

lemma bubble_pass_length [simp]: "length (fst (bubble_pass key xs)) = length xs"
  by (rule mset_eq_length) (rule bubble_pass_mset)

lemma bubble_pass_count: "length (filter P (fst (bubble_pass key xs))) = length (filter P xs)"
  by (metis bubble_pass_mset mset_filter size_mset)

lemma bubble_pass_inversions:
  "inversions key (fst (bubble_pass key xs)) + (if snd (bubble_pass key xs) then 1 else 0) \<le> inversions key xs"
proof (induction key xs rule: bubble_pass.induct)
  case (1 key a b xs)
  show ?case
  proof (cases "key b < key a")
    case True
    have "length (filter (\<lambda>y. key y < key b) (fst (bubble_pass key (a # xs)))) = length (filter (\<lambda>y. key y < key b) xs)"
      using True by (simp add: bubble_pass_count)
    with 1(1) [OF True] True show ?thesis by (simp split: prod.splits if_splits)
  next
    case False
    have "length (filter (\<lambda>y. key y < key a) (fst (bubble_pass key (b # xs)))) = length (filter (\<lambda>y. key y < key a) xs)"
      using False by (simp add: bubble_pass_count)
    with 1(2) [OF False] False show ?thesis by (simp split: prod.splits if_splits)
  qed
qed simp_all

lemma bubble_pass_stable:
  "filter (\<lambda>x. key x = k) (fst (bubble_pass key xs)) = filter (\<lambda>x. key x = k) xs"
proof (induction key xs rule: bubble_pass.induct)
  case (1 key a b xs)
  then show ?case by (cases "key b < key a") (auto split: prod.splits)
qed simp_all

lemma bubble_pass_unchanged:
  "\<not> snd (bubble_pass key xs) \<Longrightarrow> fst (bubble_pass key xs) = xs \<and> sorted (map key xs)"
proof (induction key xs rule: bubble_pass.induct)
  case (1 key a b xs)
  then show ?case by (cases "key b < key a") (auto split: prod.splits)
qed simp_all

text \<open>Passes until nothing was swapped: every pass with a swap removes an inversion.\<close>

function bubble_sort :: "('a \<Rightarrow> 'k::linorder) \<Rightarrow> 'a list \<Rightarrow> 'a list" where
  "bubble_sort key xs =
     (if snd (bubble_pass key xs) then bubble_sort key (fst (bubble_pass key xs)) else fst (bubble_pass key xs))"
  by auto
termination
proof (relation "measure (\<lambda>(key, xs). inversions key xs)")
  fix key :: "'a \<Rightarrow> 'k::linorder" and xs
  assume "snd (bubble_pass key xs)"
  with bubble_pass_inversions [of key xs]
  show "((key, fst (bubble_pass key xs)), (key, xs)) \<in> measure (\<lambda>(key, xs). inversions key xs)" by simp
qed simp

declare bubble_sort.simps [simp del]

lemma bubble_sort_eq: "bubble_sort key xs = sort_key key xs"
proof (induction key xs rule: bubble_sort.induct)
  case (1 key xs)
  let ?p = "bubble_pass key xs"
  have same: "sort_key key (fst ?p) = sort_key key xs"
  proof (rule properties_for_sort_key)
    show "mset (sort_key key xs) = mset (fst ?p)" by (simp add: bubble_pass_mset)
    show "filter (\<lambda>x. key k = key x) (sort_key key xs) = filter (\<lambda>x. key k = key x) (fst ?p)"
      if "k \<in> set (sort_key key xs)" for k
      using bubble_pass_stable [of key "key k" xs] sort_key_stable [of key "key k" xs] by (simp add: eq_commute)
  qed simp
  show ?case
  proof (cases "snd ?p")
    case True
    then show ?thesis using 1 same by (subst bubble_sort.simps) simp
  next
    case False
    then have "fst ?p = xs" "sorted (map key xs)" using bubble_pass_unchanged by blast+
    then show ?thesis using False by (subst bubble_sort.simps) (simp add: sort_key_id_if_sorted)
  qed
qed

text \<open>A fixed number of passes, each one shorter than the one before.\<close>

fun bubble_passes :: "('a \<Rightarrow> 'k::linorder) \<Rightarrow> nat \<Rightarrow> 'a list \<Rightarrow> 'a list" where
  "bubble_passes key 0 xs = xs"
| "bubble_passes key (Suc n) xs =
     bubble_passes key n (fst (bubble_pass key (take (Suc n) xs)) @ drop (Suc n) xs)"

lemma bubble_pass_last: "\<forall>x \<in> set xs. key x \<le> key (last (fst (bubble_pass key xs)))"
proof (induction key xs rule: bubble_pass.induct)
  case (1 key a b xs)
  have ne: "fst (bubble_pass key (c # xs)) \<noteq> []" for c
    using bubble_pass_length [of key "c # xs"] by (metis length_0_conv list.distinct(1))
  show ?case
  proof (cases "key b < key a")
    case True
    then have "key a \<le> key (last (fst (bubble_pass key (a # xs))))" using 1(1) by simp
    with True have "key b \<le> key (last (fst (bubble_pass key (a # xs))))" by (meson less_imp_le order_trans)
    with True 1(1) ne [of a] show ?thesis by simp
  next
    case False
    then have "key b \<le> key (last (fst (bubble_pass key (b # xs))))" using 1(2) by simp
    with False have "key a \<le> key (last (fst (bubble_pass key (b # xs))))" by (meson not_less order_trans)
    with False 1(2) ne [of b] show ?thesis by simp
  qed
qed simp_all

lemma bubble_passes_step:
  "mset (bubble_passes key n xs) = mset xs \<and> filter (\<lambda>x. key x = k) (bubble_passes key n xs) = filter (\<lambda>x. key x = k) xs"
proof (induction n arbitrary: xs)
  case (Suc n)
  let ?ys = "fst (bubble_pass key (take (Suc n) xs)) @ drop (Suc n) xs"
  have "mset ?ys = mset (take (Suc n) xs @ drop (Suc n) xs)" unfolding mset_append by (simp add: bubble_pass_mset)
  then have "mset ?ys = mset xs" by (simp only: append_take_drop_id)
  moreover have "filter (\<lambda>x. key x = k) ?ys = filter (\<lambda>x. key x = k) (take (Suc n) xs @ drop (Suc n) xs)"
    unfolding filter_append by (simp add: bubble_pass_stable)
  then have "filter (\<lambda>x. key x = k) ?ys = filter (\<lambda>x. key x = k) xs" by (simp only: append_take_drop_id)
  ultimately show ?case using Suc [of ?ys] by simp
qed simp

lemma bubble_passes_sorted:
  "n \<le> length xs \<Longrightarrow> sorted (map key (drop n xs)) \<Longrightarrow> (\<And>x y. x \<in> set (take n xs) \<Longrightarrow> y \<in> set (drop n xs) \<Longrightarrow> key x \<le> key y)
   \<Longrightarrow> sorted (map key (bubble_passes key n xs))"
proof (induction n arbitrary: xs)
  case (Suc n)
  let ?p = "fst (bubble_pass key (take (Suc n) xs))"
  let ?ys = "?p @ drop (Suc n) xs"
  have len: "length ?p = Suc n" using Suc.prems(1) by simp
  then have ne: "?p \<noteq> []" by (metis length_0_conv nat.distinct(1))
  have split: "take n ?ys = butlast ?p" "drop n ?ys = last ?p # drop (Suc n) xs"
    using len ne by (simp_all add: butlast_conv_take) (metis Cons_nth_drop_Suc drop_all last_conv_nth lessI diff_Suc_1 le_refl len)
  have sub: "set ?p = set (take (Suc n) xs)" by simp
  have lastm: "last ?p \<in> set (take (Suc n) xs)" using last_in_set [OF ne] sub by blast
  show ?case
    unfolding bubble_passes.simps
  proof (rule Suc.IH)
    show "n \<le> length ?ys" using len by simp
    show "sorted (map key (drop n ?ys))" unfolding split using Suc.prems(2,3) lastm by auto
    show "key x \<le> key y" if "x \<in> set (take n ?ys)" "y \<in> set (drop n ?ys)" for x y
    proof -
      have x: "x \<in> set (take (Suc n) xs)" using that(1) in_set_butlastD sub unfolding split by fastforce
      from that(2) consider "y = last ?p" | "y \<in> set (drop (Suc n) xs)" unfolding split by auto
      then show ?thesis using bspec [OF bubble_pass_last x, of key] Suc.prems(3) [OF x] by cases auto
    qed
  qed
qed simp

lemma bubble_passes_eq: "bubble_passes key (length xs) xs = sort_key key xs"
proof (rule properties_for_sort_key [symmetric])
  show "mset (bubble_passes key (length xs) xs) = mset xs" using bubble_passes_step by blast
  show "filter (\<lambda>x. key k = key x) (bubble_passes key (length xs) xs) = filter (\<lambda>x. key k = key x) xs"
    if "k \<in> set (bubble_passes key (length xs) xs)" for k
    using bubble_passes_step [of key "length xs" xs "key k"] by (simp add: eq_commute)
  show "sorted (map key (bubble_passes key (length xs) xs))" by (rule bubble_passes_sorted) simp_all
qed

text \<open>Sorting indices by the keys of what they point at sorts what they point at.\<close>

lemma map_insort_key: "map f (insort_key (\<lambda>i. key (f i)) x xs) = insort_key key (f x) (map f xs)"
  by (induction xs) simp_all

lemma map_sort_key: "map f (sort_key (\<lambda>i. key (f i)) xs) = sort_key key (map f xs)"
  by (induction xs) (simp_all add: map_insort_key)

end
