(* ===== verification/FeePayout.thy ===== *)
theory FeePayout
  imports FeeCollect StableSort
begin

text \<open>
  Payments out of the fee collector (\<open>fee_collector/src/lib.rs\<close>): timelocked treasury withdrawals, the
  insurance fund, the claims of providers, the snapshot of the revenue pool and the waterfall.
\<close>

section \<open>Treasury withdrawals\<close>

definition queue_withdrawal :: "env \<Rightarrow> addr \<Rightarrow> addr \<Rightarrow> int \<Rightarrow> 'w fees \<Rightarrow> ('w, unit) fee_call" where
  "queue_withdrawal ev recipient t amount =
     if_initialized (if_not_paused (if_admin ev (\<lambda>s.
       if amount \<le> 0 then (Err InvalidAmount, s)
       else validate_token_metadata_for_token t (\<lambda>s.
         if get_treasury_balance s t < amount then (Err InsufficientTreasuryBalance, s)
         else and_then (ok_or ArithmeticOverflow (u64_checked_add (ev_timestamp ev) SECS_PER_DAY), s) (\<lambda>_ s.
           (Ok (), s\<lparr>fc_queued := Some \<lparr>qw_recipient = recipient, qw_token = t, qw_amount = amount,
                                        qw_queued_at = ev_timestamp ev\<rparr>\<rparr>))) s)))"

definition pay_queued_withdrawal ::
  "env \<Rightarrow> 'w token_if \<Rightarrow> addr \<Rightarrow> addr \<Rightarrow> int \<Rightarrow> QueuedWithdrawal \<Rightarrow> 'w fees \<Rightarrow> ('w, unit) fee_call" where
  "pay_queued_withdrawal ev tk recipient t amount q s =
     and_then (ok_or ArithmeticOverflow (u64_checked_add (qw_queued_at q) SECS_PER_DAY), s) (\<lambda>available_at s.
       if ev_timestamp ev < available_at then (Err TimelockNotElapsed, s)
       else if get_treasury_balance s t < amount then (Err InsufficientTreasuryBalance, s)
       else and_then (ok_or ArithmeticOverflow (checked_sub (get_treasury_balance s t) amount), s) (\<lambda>new_balance s.
         and_then (fee_token_call (try_transfer tk t (ev_self ev) recipient amount) s) (\<lambda>_ s.
         (Ok (), (set_treasury_balance t new_balance s)\<lparr>fc_queued := None\<rparr>))))"

definition withdraw_treasury_fees :: "env \<Rightarrow> 'w token_if \<Rightarrow> addr \<Rightarrow> addr \<Rightarrow> int \<Rightarrow> 'w fees \<Rightarrow> ('w, unit) fee_call" where
  "withdraw_treasury_fees ev tk recipient t amount =
     if_unlocked (if_initialized (if_not_paused (if_admin ev (validate_token_metadata_for_token t (\<lambda>s.
       case fc_queued s of
         None \<Rightarrow> (Err WithdrawalNotQueued, s)
       | Some q \<Rightarrow>
           if qw_recipient q \<noteq> recipient \<or> qw_token q \<noteq> t \<or> qw_amount q \<noteq> amount then (Err WithdrawalNotQueued, s)
           else pay_queued_withdrawal ev tk recipient t amount q s)))))"

section \<open>Insurance\<close>

definition deposit_insurance_fund :: "env \<Rightarrow> 'w token_if \<Rightarrow> addr \<Rightarrow> addr \<Rightarrow> int \<Rightarrow> 'w fees \<Rightarrow> ('w, unit) fee_call" where
  "deposit_insurance_fund ev tk src t amount =
     if_initialized (if_not_paused (if_signed ev src (\<lambda>s.
       if amount \<le> 0 then (Err InvalidAmount, s)
       else and_then (fee_token_call (try_transfer tk t src (ev_self ev) amount) s) (\<lambda>_ s.
            and_then (ok_or ArithmeticOverflow (checked_add (get_insurance_balance s t) amount), s) (\<lambda>new_bal s.
              (Ok (), set_insurance_balance t new_bal s))))))"

definition payout_insurance ::
  "env \<Rightarrow> 'w token_if \<Rightarrow> addr \<Rightarrow> addr \<Rightarrow> addr \<Rightarrow> int \<Rightarrow> string \<Rightarrow> 'w fees \<Rightarrow> ('w, unit) fee_call" where
  "payout_insurance ev tk caller recipient t amount claim_id =
     if_unlocked (if_initialized (if_not_paused (if_signed ev caller (keeper_check caller (\<lambda>s.
       if amount \<le> 0 then (Err InvalidAmount, s)
       else if is_insurance_claim_processed s claim_id then (Err ClaimAlreadyProcessed, s)
       else if 0 < get_insurance_payout_cap s t \<and> get_insurance_payout_cap s t < amount then (Err PayoutExceedsCap, s)
       else if get_insurance_balance s t < amount then (Err InsufficientInsuranceBalance, s)
       else and_then (ok_or ArithmeticOverflow (checked_sub (get_insurance_balance s t) amount), s) (\<lambda>new_balance s.
         fee_token_call (try_transfer tk t (ev_self ev) recipient amount)
           ((set_insurance_balance t new_balance s)\<lparr>fc_processed := (fc_processed s)(claim_id \<mapsto> True)\<rparr>)))))))"

section \<open>Claims of providers\<close>

definition ORACLE_RATE_PRECISION :: int where "ORACLE_RATE_PRECISION = 1000000"

text \<open>\<^const>\<open>None\<close> is the fall back to the source token; a payout that fails after the claim was zeroed traps.\<close>

definition try_claim_in_preferred_currency ::
  "env \<Rightarrow> 'w token_if \<Rightarrow> fee_oracle \<Rightarrow> addr \<Rightarrow> addr \<Rightarrow> int \<Rightarrow> addr \<Rightarrow> 'w fees \<Rightarrow> ('w, int option) fee_call" where
  "try_claim_in_preferred_currency ev tk orc provider source amount pref s =
     (case Option.bind (fg_oracle (fc_config s)) (\<lambda>oracle. fo_rate orc oracle source pref) of
        None \<Rightarrow> (Ok None, s)
      | Some rate \<Rightarrow>
          if rate \<le> 0 then (Ok None, s)
          else (case Option.bind (checked_mul amount rate) (\<lambda>x. checked_div x ORACLE_RATE_PRECISION) of
              None \<Rightarrow> (Ok None, s)
            | Some pref_amount \<Rightarrow>
                if pref_amount \<le> 0 \<or> tk_balance tk pref (ev_self ev) (fc_world s) < pref_amount then (Ok None, s)
                else (case fee_token_call (try_transfer tk pref (ev_self ev) provider pref_amount)
                          (set_pending_fees provider source 0 s) of
                    (Ok _, s) \<Rightarrow> (Ok (Some pref_amount), s)
                  | (_, s) \<Rightarrow> (Panic, s))))"

definition capped_claim :: "env \<Rightarrow> addr \<Rightarrow> int \<Rightarrow> 'w fees \<Rightarrow> int" where
  "capped_claim ev t requested s =
     (let epoch_fees = get_daily_fee_total s t (current_day ev)
      in if 0 < epoch_fees
         then let epoch_cap = opt_or i128_max (map_option (\<lambda>x. tdiv x 10000) (checked_mul epoch_fees (int (get_max_rebate_bps s))));
                  headroom = saturating_sub epoch_cap (get_epoch_rebate_distributed s t (current_day ev))
              in if headroom < requested then headroom else requested
         else requested)"

definition settle_claim :: "env \<Rightarrow> 'w token_if \<Rightarrow> addr \<Rightarrow> addr \<Rightarrow> int \<Rightarrow> 'w fees \<Rightarrow> ('w, unit) fee_call" where
  "settle_claim ev tk provider t amount s =
     and_then (if 0 < amount then fee_token_call (try_transfer tk t (ev_self ev) provider amount) s else (Ok (), s))
       (\<lambda>_ s. (Ok (), set_pending_fees provider t 0 s))"

definition claim_fees :: "env \<Rightarrow> 'w token_if \<Rightarrow> fee_oracle \<Rightarrow> addr \<Rightarrow> addr \<Rightarrow> 'w fees \<Rightarrow> ('w, int) fee_call" where
  "claim_fees ev tk orc provider t =
     if_unlocked (if_initialized (if_not_paused (validate_token_metadata_for_token t (if_signed ev provider (\<lambda>s.
       if get_pending_fees s provider t \<le> 0 then (Ok 0, s)
       else let amount = capped_claim ev t (get_pending_fees s provider t) s;
                s = (if 0 < amount \<and> 0 < get_daily_fee_total s t (current_day ev)
                     then add_epoch_rebate_distributed t (current_day ev) amount s else s)
            in and_then (case (0 < amount, fc_payout_currency s provider) of
                   (True, Some pref) \<Rightarrow>
                     if pref \<noteq> t then try_claim_in_preferred_currency ev tk orc provider t amount pref s else (Ok None, s)
                 | _ \<Rightarrow> (Ok None, s)) (\<lambda>converted s.
               and_then (if converted = None then settle_claim ev tk provider t amount s else (Ok (), s))
                 (\<lambda>_ s. (Ok amount, s))))))))"

section \<open>Revenue pool\<close>

definition trigger_revenue_share_snapshot :: "env \<Rightarrow> addr \<Rightarrow> addr \<Rightarrow> 'w fees \<Rightarrow> ('w, unit) fee_call" where
  "trigger_revenue_share_snapshot ev caller t =
     admin_call ev (if_signed ev caller (\<lambda>s.
       if 0 < get_revenue_share_pool s t
       then (Ok (), clear_revenue_share_pool t (s\<lparr>fc_last_snapshot := Some (ev_sequence ev)\<rparr>))
       else (Ok (), s)))"

section \<open>Waterfall\<close>

definition tier_result :: "WaterfallTier \<Rightarrow> int \<Rightarrow> WaterfallTierResult" where
  "tier_result w x = \<lparr>wr_name = wt_name w, wr_recipient = wt_recipient w, wr_priority = wt_priority w, wr_allocated = x\<rparr>"

fun fund_tiers ::
  "env \<Rightarrow> 'w token_if \<Rightarrow> addr \<Rightarrow> WaterfallTier list \<Rightarrow> int \<Rightarrow> int \<Rightarrow> 'w fees \<Rightarrow> ('w, WaterfallTierResult list \<times> int) fee_call" where
  "fund_tiers ev tk t [] remaining distributed s = (Ok ([], distributed), s)"
| "fund_tiers ev tk t (w # ws) remaining distributed s =
     (if wt_target w \<le> remaining \<or> wt_minimum w \<le> remaining
      then let x = (if wt_target w \<le> remaining then wt_target w else remaining)
           in and_then (fee_token_call (try_transfer tk t (ev_self ev) (wt_recipient w) x) s) (\<lambda>_ s.
              and_then (ok_or ArithmeticOverflow (checked_sub remaining x), s) (\<lambda>remaining s.
              and_then (ok_or ArithmeticOverflow (checked_add distributed x), s) (\<lambda>distributed s.
              and_then (fund_tiers ev tk t ws remaining distributed s) (\<lambda>(rs, d) s. (Ok (tier_result w x # rs, d), s)))))
      else and_then (fund_tiers ev tk t ws remaining distributed s) (\<lambda>(rs, d) s. (Ok (tier_result w 0 # rs, d), s)))"

definition waterfall_order :: "WaterfallTier list \<Rightarrow> WaterfallTier list" where
  "waterfall_order tiers = map (\<lambda>i. tiers ! i) (bubble_sort (\<lambda>i. wt_priority (tiers ! i)) [0..<length tiers])"

definition distribute_waterfall :: "env \<Rightarrow> 'w token_if \<Rightarrow> addr \<Rightarrow> int \<Rightarrow> 'w fees \<Rightarrow> ('w, WaterfallTierResult list) fee_call" where
  "distribute_waterfall ev tk t total_amount =
     if_initialized (if_not_paused (if_admin ev (\<lambda>s.
       if total_amount \<le> 0 then (Err InvalidAmount, s)
       else and_then (ok_or WaterfallNotConfigured (fg_waterfall (fc_config s)), s) (\<lambda>tiers s.
         let treasury_bal = get_treasury_balance s t
         in if treasury_bal < total_amount then (Err InsufficientTreasuryBalance, s)
            else and_then (fund_tiers ev tk t (waterfall_order tiers) total_amount 0 s) (\<lambda>(rs, distributed) s.
                 and_then (ok_or ArithmeticOverflow (checked_sub treasury_bal distributed), s) (\<lambda>new_bal s.
                 (Ok rs, set_treasury_balance t new_bal s)))))))"

section \<open>Read-only audits\<close>

record BalanceMismatch =
  bm_token :: addr
  bm_expected :: int
  bm_actual :: int
  bm_delta :: int

definition audit_balances :: "env \<Rightarrow> 'w token_if \<Rightarrow> addr list \<Rightarrow> 'w fees \<Rightarrow> ('w, BalanceMismatch list) fee_call" where
  "audit_balances ev tk ts =
     if_initialized (\<lambda>s.
       if MAX_AUDIT_TOKENS < length ts then (Err IterationLimitExceeded, s)
       else (Ok (concat (map (\<lambda>t.
              let expected = get_treasury_balance s t; actual = tk_balance tk t (ev_self ev) (fc_world s)
              in if actual \<noteq> expected
                 then [\<lparr>bm_token = t, bm_expected = expected, bm_actual = actual, bm_delta = saturating_sub actual expected\<rparr>]
                 else []) ts)), s))"

record FeeSnapshot =
  fs_ledger :: nat
  fs_timestamp :: nat
  fs_total_amount :: int
  fs_entries :: "(addr \<times> int) list"

definition batch_snapshot :: "env \<Rightarrow> addr list \<Rightarrow> 'w fees \<Rightarrow> ('w, FeeSnapshot) fee_call" where
  "batch_snapshot ev ts =
     if_initialized (\<lambda>s.
       if MAX_AUDIT_TOKENS < length ts then (Err IterationLimitExceeded, s)
       else (Ok \<lparr>fs_ledger = ev_sequence ev, fs_timestamp = ev_timestamp ev,
                 fs_total_amount = fold (\<lambda>t x. saturating_add x (get_revenue_share_pool s t)) ts 0,
                 fs_entries = map (\<lambda>t. (t, get_revenue_share_pool s t)) ts\<rparr>, s))"

section \<open>Every payment is covered\<close>

lemma outflow_covered:
  assumes "sep41 tk" "books_ok s" "tk_transfer tk t (ev_self ev) r x (fc_world s) = CallOk w"
    "fc_world s' = w" "fc_config s' = fc_config s" "fc_cache s' = fc_cache s" "fc_pending s' = fc_pending s"
    "\<And>u. 0 \<le> get_treasury_balance s' u \<and> 0 \<le> get_insurance_balance s' u \<and> 0 \<le> get_revenue_share_pool s' u"
    "\<And>u. collector_owed s' u = collector_owed s u - (if u = t then x else 0)"
    "\<And>c. is_insurance_claim_processed s c \<Longrightarrow> is_insurance_claim_processed s' c"
  shows "fees_covered tk (ev_self ev) s s'"
proof -
  have "books_ok s'"
    using assms(2,7,8) rates_ok_books [OF assms(5,6)] by (simp add: books_ok_def get_pending_fees_def)
  moreover have "fee_surplus tk (ev_self ev) s u \<le> fee_surplus tk (ev_self ev) s' u" for u
    using sep41_transfer [OF assms(1,3), of u "ev_self ev"] sep41_amount(1) [OF assms(1,3)] assms(4,9)
    by (auto simp: fee_surplus_def)
  ultimately show ?thesis using assms(10) by (simp add: fees_covered_def)
qed

lemma validate_metadata_call_Ok:
  "validate_token_metadata_for_token t k s = (Ok x, s') \<Longrightarrow> k s = (Ok x, s')"
  by (auto simp: validate_token_metadata_for_token_def split: option.splits if_splits)

lemma pay_queued_withdrawal_Ok:
  assumes "pay_queued_withdrawal ev tk recipient t amount q s = (Ok u, s')"
  obtains w where "qw_queued_at q + SECS_PER_DAY \<le> ev_timestamp ev" "amount \<le> get_treasury_balance s t"
    "tk_transfer tk t (ev_self ev) recipient amount (fc_world s) = CallOk w"
    "s' = s\<lparr>fc_world := w, fc_treasury := (fc_treasury s)(t \<mapsto> get_treasury_balance s t - amount), fc_queued := None\<rparr>"
proof -
  note r = assms [unfolded pay_queued_withdrawal_def and_then_Ok]
  then have "qw_queued_at q + SECS_PER_DAY \<le> ev_timestamp ev" "amount \<le> get_treasury_balance s t"
    by (auto simp: ok_or_Ok u64_checked_add_def split: if_splits)
  with r obtain w where "tk_transfer tk t (ev_self ev) recipient amount (fc_world s) = CallOk w"
    "s' = s\<lparr>fc_world := w, fc_treasury := (fc_treasury s)(t \<mapsto> get_treasury_balance s t - amount), fc_queued := None\<rparr>"
    by (auto simp: ok_or_Ok u64_checked_add_def and_then_Ok fee_token_call_Ok try_transfer_Ok set_treasury_balance_def split: if_splits)
  with that \<open>qw_queued_at q + SECS_PER_DAY \<le> ev_timestamp ev\<close> \<open>amount \<le> get_treasury_balance s t\<close> show thesis by blast
qed

lemma withdraw_treasury_fees_Ok:
  assumes "withdraw_treasury_fees ev tk recipient t amount s = (Ok u, s')"
  obtains q where "fc_queued s = Some q" "qw_recipient q = recipient" "qw_token q = t" "qw_amount q = amount"
    "\<not> is_paused (fc_pause s)" "\<exists>a. fg_admin (fc_config s) = Some a \<and> ev_auth ev a"
    "pay_queued_withdrawal ev tk recipient t amount q s = (Ok u, s')"
proof -
  note g = assms [unfolded withdraw_treasury_fees_def fee_guards_Ok]
  then obtain q where q: "fc_queued s = Some q" "\<not> (qw_recipient q \<noteq> recipient \<or> qw_token q \<noteq> t \<or> qw_amount q \<noteq> amount)"
    "pay_queued_withdrawal ev tk recipient t amount q s = (Ok u, s')"
    by (auto dest!: validate_metadata_call_Ok split: option.splits if_splits)
  with that g show thesis by blast
qed

lemma withdraw_treasury_covered:
  assumes "sep41 tk" "books_ok s" "withdraw_treasury_fees ev tk recipient t amount s = (Ok u, s')"
  shows "fees_covered tk (ev_self ev) s s'"
proof -
  obtain w where w: "tk_transfer tk t (ev_self ev) recipient amount (fc_world s) = CallOk w" "amount \<le> get_treasury_balance s t"
    "s' = s\<lparr>fc_world := w, fc_treasury := (fc_treasury s)(t \<mapsto> get_treasury_balance s t - amount), fc_queued := None\<rparr>"
    by (rule withdraw_treasury_fees_Ok [OF assms(3)]) (rule pay_queued_withdrawal_Ok)
  show ?thesis
    by (rule outflow_covered [OF assms(1,2) w(1)])
      (use w(2) books_okD [OF assms(2)] in \<open>auto simp: w(3) collector_owed_def book_reads\<close>)
qed

lemma queue_withdrawal_Ok:
  assumes "queue_withdrawal ev recipient t amount s = (Ok u, s')"
  shows "s' = s\<lparr>fc_queued := Some \<lparr>qw_recipient = recipient, qw_token = t, qw_amount = amount, qw_queued_at = ev_timestamp ev\<rparr>\<rparr>"
    "0 < amount" "amount \<le> get_treasury_balance s t"
proof -
  have "0 < amount \<and> amount \<le> get_treasury_balance s t \<and>
     s' = s\<lparr>fc_queued := Some \<lparr>qw_recipient = recipient, qw_token = t, qw_amount = amount, qw_queued_at = ev_timestamp ev\<rparr>\<rparr>"
    using assms by (auto simp: queue_withdrawal_def fee_guards_Ok and_then_Ok ok_or_Ok dest!: validate_metadata_call_Ok split: if_splits)
  then show "s' = s\<lparr>fc_queued := Some \<lparr>qw_recipient = recipient, qw_token = t, qw_amount = amount, qw_queued_at = ev_timestamp ev\<rparr>\<rparr>"
    "0 < amount" "amount \<le> get_treasury_balance s t" by blast+
qed

lemma deposit_insurance_covered:
  assumes "sep41 tk" "books_ok s" "\<not> ev_auth ev (ev_self ev)" "deposit_insurance_fund ev tk src t amount s = (Ok u, s')"
  shows "fees_covered tk (ev_self ev) s s'"
proof -
  obtain w where w: "ev_auth ev src" "0 < amount" "tk_transfer tk t src (ev_self ev) amount (fc_world s) = CallOk w"
    "s' = s\<lparr>fc_world := w, fc_insurance := (fc_insurance s)(t \<mapsto> get_insurance_balance s t + amount)\<rparr>"
    using assms(4)
    by (auto simp: deposit_insurance_fund_def fee_guards_Ok and_then_Ok ok_or_Ok fee_token_call_Ok try_transfer_Ok set_insurance_balance_def
        get_insurance_balance_def split: if_splits)
  have "src \<noteq> ev_self ev" using w(1) assms(3) by auto
  then have "tk_balance tk v (ev_self ev) w = tk_balance tk v (ev_self ev) (fc_world s) + (if v = t then amount else 0)" for v
    using sep41_transfer [OF assms(1) w(3), of v "ev_self ev"] by simp
  then show ?thesis
    using books_okD [OF assms(2)] w(2) rates_ok_books [of s' s]
    by (auto simp: fees_covered_def books_ok_def fee_surplus_def collector_owed_def book_reads w(4))
qed

lemma payout_insurance_Ok:
  assumes "payout_insurance ev tk caller recipient t amount claim_id s = (Ok u, s')"
  obtains w where "0 < amount" "\<not> is_insurance_claim_processed s claim_id" "amount \<le> get_insurance_balance s t"
    "0 < get_insurance_payout_cap s t \<longrightarrow> amount \<le> get_insurance_payout_cap s t"
    "\<exists>a. fg_admin (fc_config s) = Some a \<and> (caller = a \<or> is_authorized_caller s caller)" "ev_auth ev caller"
    "tk_transfer tk t (ev_self ev) recipient amount (fc_world s) = CallOk w"
    "s' = s\<lparr>fc_world := w, fc_insurance := (fc_insurance s)(t \<mapsto> get_insurance_balance s t - amount),
            fc_processed := (fc_processed s)(claim_id \<mapsto> True)\<rparr>"
proof -
  note g = assms [unfolded payout_insurance_def fee_guards_Ok]
  then have body: "(if amount \<le> 0 then (Err InvalidAmount, s)
       else if is_insurance_claim_processed s claim_id then (Err ClaimAlreadyProcessed, s)
       else if 0 < get_insurance_payout_cap s t \<and> get_insurance_payout_cap s t < amount then (Err PayoutExceedsCap, s)
       else if get_insurance_balance s t < amount then (Err InsufficientInsuranceBalance, s)
       else and_then (ok_or ArithmeticOverflow (checked_sub (get_insurance_balance s t) amount), s) (\<lambda>new_balance s.
         fee_token_call (try_transfer tk t (ev_self ev) recipient amount)
           ((set_insurance_balance t new_balance s)\<lparr>fc_processed := (fc_processed s)(claim_id \<mapsto> True)\<rparr>))) = (Ok u, s')"
    by blast
  have c: "0 < amount" "\<not> is_insurance_claim_processed s claim_id" "amount \<le> get_insurance_balance s t"
    "0 < get_insurance_payout_cap s t \<longrightarrow> amount \<le> get_insurance_payout_cap s t"
    using body by (auto split: if_splits)
  with body obtain w where "tk_transfer tk t (ev_self ev) recipient amount (fc_world s) = CallOk w"
    "s' = s\<lparr>fc_world := w, fc_insurance := (fc_insurance s)(t \<mapsto> get_insurance_balance s t - amount),
            fc_processed := (fc_processed s)(claim_id \<mapsto> True)\<rparr>"
    by (auto simp: and_then_Ok ok_or_Ok fee_token_call_Ok try_transfer_Ok set_insurance_balance_def)
  with that c g show thesis by blast
qed

lemma payout_insurance_covered:
  assumes "sep41 tk" "books_ok s" "payout_insurance ev tk caller recipient t amount claim_id s = (Ok u, s')"
  shows "fees_covered tk (ev_self ev) s s'"
proof -
  obtain w where w: "amount \<le> get_insurance_balance s t" "tk_transfer tk t (ev_self ev) recipient amount (fc_world s) = CallOk w"
    "s' = s\<lparr>fc_world := w, fc_insurance := (fc_insurance s)(t \<mapsto> get_insurance_balance s t - amount),
            fc_processed := (fc_processed s)(claim_id \<mapsto> True)\<rparr>"
    by (rule payout_insurance_Ok [OF assms(3)]) blast
  show ?thesis
    by (rule outflow_covered [OF assms(1,2) w(2)])
      (use w(1) books_okD [OF assms(2)] in \<open>auto simp: w(3) collector_owed_def book_reads\<close>)
qed

lemma claim_fees_nothing_pending:
  assumes "get_pending_fees s provider t = 0" "claim_fees ev tk orc provider t s = (Ok x, s')"
  shows "x = 0 \<and> s' = s"
  using assms by (auto simp: claim_fees_def fee_guards_Ok dest!: validate_metadata_call_Ok)

lemma clear_pool_eq:
  "clear_revenue_share_pool t s = s\<lparr>fc_pool := (fc_pool s)(t := None), fc_pool_index := filter (\<lambda>u. u \<noteq> t) (fc_pool_index s)\<rparr>"
  by (simp add: clear_revenue_share_pool_def remove_from_revenue_share_pool_index_def)

lemma snapshot_covered:
  assumes "books_ok s" "trigger_revenue_share_snapshot ev caller t s = (Ok u, s')"
  shows "fees_covered tk self s s'"
proof -
  have "s' = s \<or> s' = clear_revenue_share_pool t (s\<lparr>fc_last_snapshot := Some (ev_sequence ev)\<rparr>)"
    using assms(2) by (auto simp: trigger_revenue_share_snapshot_def admin_call_Ok fee_guards_Ok split: if_splits)
  then show ?thesis
  proof
    assume "s' = s"
    then show ?thesis using assms(1) by (simp add: fees_covered_refl)
  next
    assume s': "s' = clear_revenue_share_pool t (s\<lparr>fc_last_snapshot := Some (ev_sequence ev)\<rparr>)"
    show ?thesis
      using books_okD [OF assms(1)] rates_ok_books [of s' s]
      by (auto simp: s' clear_pool_eq fees_covered_def books_ok_def fee_surplus_def collector_owed_def book_reads split: if_splits)
  qed
qed

subsection \<open>The waterfall\<close>

text \<open>What each tier receives of a sum, in order: its target, the rest when that reaches its minimum, or nothing.\<close>

fun waterfall_plan :: "int \<Rightarrow> WaterfallTier list \<Rightarrow> int list" where
  "waterfall_plan remaining [] = []"
| "waterfall_plan remaining (w # ws) =
     (let x = (if wt_target w \<le> remaining then wt_target w else if wt_minimum w \<le> remaining then remaining else 0)
      in x # waterfall_plan (remaining - x) ws)"

lemma waterfall_order_eq: "waterfall_order tiers = sort_key wt_priority tiers"
  unfolding waterfall_order_def bubble_sort_eq using map_sort_key [of "\<lambda>i. tiers ! i" wt_priority "[0..<length tiers]"]
  by (simp add: map_nth)

lemma fund_tiers_facts:
  assumes "sep41 tk" "fund_tiers ev tk t ws remaining distributed s = (Ok (rs, d), s')" "0 \<le> remaining"
  shows "rs = map2 tier_result ws (waterfall_plan remaining ws) \<and> d = distributed + sum_list (waterfall_plan remaining ws) \<and>
    (\<forall>x \<in> set (waterfall_plan remaining ws). 0 \<le> x) \<and> sum_list (waterfall_plan remaining ws) \<le> remaining \<and>
    (\<exists>w. s' = s\<lparr>fc_world := w\<rparr>) \<and>
    (\<forall>u. tk_balance tk u (ev_self ev) (fc_world s) - (if u = t then sum_list (waterfall_plan remaining ws) else 0)
       \<le> tk_balance tk u (ev_self ev) (fc_world s'))"
  using assms(2,3)
proof (induction ws arbitrary: remaining distributed s rs d)
  case Nil
  then show ?case by (auto intro: exI [of _ "fc_world s"])
next
  case (Cons w ws)
  show ?case
  proof (cases "wt_target w \<le> remaining \<or> wt_minimum w \<le> remaining")
    case False
    with Cons.prems(1) obtain rs1 where run: "fund_tiers ev tk t ws remaining distributed s = (Ok (rs1, d), s')" "rs = tier_result w 0 # rs1"
      by (auto simp: and_then_Ok)
    have plan: "waterfall_plan remaining (w # ws) = 0 # waterfall_plan remaining ws" using False by simp
    from Cons.IH [OF run(1) Cons.prems(2)] show ?thesis unfolding plan run(2) by (simp split del: if_split cong: if_cong)
  next
    case True
    define x where "x = (if wt_target w \<le> remaining then wt_target w else remaining)"
    from True Cons.prems(1) obtain w1 rs1 where tr: "tk_transfer tk t (ev_self ev) (wt_recipient w) x (fc_world s) = CallOk w1"
      and run: "fund_tiers ev tk t ws (remaining - x) (distributed + x) (s\<lparr>fc_world := w1\<rparr>) = (Ok (rs1, d), s')"
      and rs: "rs = tier_result w x # rs1"
      by (auto simp: and_then_Ok fee_token_call_Ok try_transfer_Ok ok_or_Ok Let_def simp flip: x_def)
    have x: "0 \<le> x" "x \<le> remaining" using sep41_amount(1) [OF assms(1) tr] by (auto simp: x_def)
    have plan: "waterfall_plan remaining (w # ws) = x # waterfall_plan (remaining - x) ws"
      using True by (auto simp: x_def Let_def)
    have bal: "tk_balance tk u (ev_self ev) (fc_world s) - (if u = t then x else 0) \<le> tk_balance tk u (ev_self ev) w1" for u
      using sep41_transfer [OF assms(1) tr, of u "ev_self ev"] x(1) by auto
    have "0 \<le> remaining - x" using x by simp
    note ih = Cons.IH [OF run this]
    then have world: "\<exists>w. s' = s\<lparr>fc_world := w\<rparr>" by auto
    have bal2: "tk_balance tk u (ev_self ev) (fc_world s) - (if u = t then sum_list (x # waterfall_plan (remaining - x) ws) else 0)
        \<le> tk_balance tk u (ev_self ev) (fc_world s')" for u
    proof -
      from ih have "tk_balance tk u (ev_self ev) w1 - (if u = t then sum_list (waterfall_plan (remaining - x) ws) else 0)
          \<le> tk_balance tk u (ev_self ev) (fc_world s')" by (simp split del: if_split)
      with bal [of u] show ?thesis by (auto split: if_splits)
    qed
    have parts: "rs1 = map2 tier_result ws (waterfall_plan (remaining - x) ws)" "d = distributed + x + sum_list (waterfall_plan (remaining - x) ws)"
      "\<forall>y \<in> set (waterfall_plan (remaining - x) ws). 0 \<le> y" "sum_list (waterfall_plan (remaining - x) ws) \<le> remaining - x"
      using ih by blast+
    show ?thesis unfolding plan rs
      by (intro conjI world allI bal2) (use parts x in auto)
  qed
qed

lemma distribute_waterfall_Ok:
  assumes "distribute_waterfall ev tk t total_amount s = (Ok rs, s')"
  obtains tiers d s1 where "fg_waterfall (fc_config s) = Some tiers" "0 < total_amount" "total_amount \<le> get_treasury_balance s t"
    "fund_tiers ev tk t (waterfall_order tiers) total_amount 0 s = (Ok (rs, d), s1)"
    "s' = set_treasury_balance t (get_treasury_balance s t - d) s1"
proof -
  from assms obtain tiers where t: "fg_waterfall (fc_config s) = Some tiers" "\<not> total_amount \<le> 0" "\<not> get_treasury_balance s t < total_amount"
    and run: "and_then (fund_tiers ev tk t (waterfall_order tiers) total_amount 0 s) (\<lambda>(rs, distributed) s1.
        and_then (ok_or ArithmeticOverflow (checked_sub (get_treasury_balance s t) distributed), s1) (\<lambda>new_bal s1.
        (Ok rs, set_treasury_balance t new_bal s1))) = (Ok rs, s')"
    by (auto simp: distribute_waterfall_def fee_guards_Ok and_then_Ok [of "(ok_or WaterfallNotConfigured _, _)"] ok_or_Ok Let_def split: if_splits)
  from run obtain d s1 where "fund_tiers ev tk t (waterfall_order tiers) total_amount 0 s = (Ok (rs, d), s1)"
    "s' = set_treasury_balance t (get_treasury_balance s t - d) s1"
    by (auto simp: and_then_Ok ok_or_Ok)
  with that t show thesis by force
qed

lemma distribute_waterfall_facts:
  assumes "sep41 tk" "books_ok s" "distribute_waterfall ev tk t total_amount s = (Ok rs, s')"
  obtains tiers w where "fg_waterfall (fc_config s) = Some tiers"
    "rs = map2 tier_result (sort_key wt_priority tiers) (waterfall_plan total_amount (sort_key wt_priority tiers))"
    "\<forall>x \<in> set (waterfall_plan total_amount (sort_key wt_priority tiers)). 0 \<le> x"
    "sum_list (waterfall_plan total_amount (sort_key wt_priority tiers)) \<le> total_amount"
    "total_amount \<le> get_treasury_balance s t"
    "s' = s\<lparr>fc_world := w, fc_treasury := (fc_treasury s)(t \<mapsto> get_treasury_balance s t
             - sum_list (waterfall_plan total_amount (sort_key wt_priority tiers)))\<rparr>"
    "fees_covered tk (ev_self ev) s s'"
proof -
  obtain tiers d s1 where t: "fg_waterfall (fc_config s) = Some tiers" "0 < total_amount" "total_amount \<le> get_treasury_balance s t"
    and run: "fund_tiers ev tk t (waterfall_order tiers) total_amount 0 s = (Ok (rs, d), s1)"
    and s': "s' = set_treasury_balance t (get_treasury_balance s t - d) s1"
    by (rule distribute_waterfall_Ok [OF assms(3)])
  let ?plan = "waterfall_plan total_amount (sort_key wt_priority tiers)"
  note f = fund_tiers_facts [OF assms(1) run less_imp_le [OF t(2)], unfolded waterfall_order_eq]
  then obtain w where s1: "s1 = s\<lparr>fc_world := w\<rparr>" by auto
  have d: "d = sum_list ?plan" "rs = map2 tier_result (sort_key wt_priority tiers) ?plan" "\<forall>x \<in> set ?plan. 0 \<le> x" "sum_list ?plan \<le> total_amount"
    using f by auto
  have w: "tk_balance tk u (ev_self ev) (fc_world s) - (if u = t then d else 0) \<le> tk_balance tk u (ev_self ev) w" for u
    using f s1 unfolding d(1) by (simp split del: if_split)
  have eq: "s' = s\<lparr>fc_world := w, fc_treasury := (fc_treasury s)(t \<mapsto> get_treasury_balance s t - d)\<rparr>"
    by (simp add: s' s1 set_treasury_balance_def)
  have "fee_surplus tk (ev_self ev) s u \<le> fee_surplus tk (ev_self ev) s' u" for u
    using w [of u] by (auto simp: eq fee_surplus_def collector_owed_def book_reads split: if_splits)
  moreover have "books_ok s'"
    using books_okD [OF assms(2)] rates_ok_books [of s' s] d(1,4) t(3)
    by (auto simp: books_ok_def eq get_insurance_balance_def get_revenue_share_pool_def get_pending_fees_def)
      (auto simp: get_treasury_balance_def)
  ultimately have "fees_covered tk (ev_self ev) s s'" by (simp add: fees_covered_def eq is_insurance_claim_processed_def)
  with that [OF t(1) d(2-4) t(3)] eq d(1) show thesis by blast
qed

end
