(* ===== verification/FeeEarnings.thy ===== *)
theory FeeEarnings
  imports FeePayout
begin

text \<open>
  What the fee collector records about the earnings of providers: the protocol/provider split
  (\<open>fee_collector/src/fee_split_policy.rs\<close>), the daily buckets and totals (\<open>storage.rs\<close>), the earnings
  report and the leaderboard (\<open>reports.rs\<close>), with the entry points of \<open>lib.rs\<close> that write them.
\<close>

section \<open>The split policy\<close>

definition u32_checked_add :: "nat \<Rightarrow> nat \<Rightarrow> nat option" where
  "u32_checked_add a b = (if a + b \<le> u32_max then Some (a + b) else None)"

definition validate_policy :: "FeeSplitPolicy \<Rightarrow> (ContractError, unit) res" where
  "validate_policy p =
     res_then (ok_or ArithmeticOverflow (u32_checked_add (protocol_bps p) (provider_bps p))) (\<lambda>tot.
       if tot \<noteq> BPS_TOTAL then Err InvalidFeeConfiguration else Ok ())"

definition split_fee :: "FeeSplitPolicy \<Rightarrow> int \<Rightarrow> (ContractError, int \<times> int) res" where
  "split_fee p gross =
     (if gross < 0 then Err InvalidAmount
      else res_then (ok_or ArithmeticOverflow (Option.bind (checked_mul gross (int (protocol_bps p))) (\<lambda>v. checked_div v (int BPS_TOTAL))))
        (\<lambda>protocol_share. res_then (ok_or ArithmeticOverflow (checked_sub gross protocol_share))
          (\<lambda>provider_share. Ok (protocol_share, provider_share))))"

definition set_fee_split_policy :: "env \<Rightarrow> nat \<Rightarrow> nat \<Rightarrow> 'w fees \<Rightarrow> ('w, unit) fee_call" where
  "set_fee_split_policy ev protocol provider =
     admin_call ev (\<lambda>s.
       let p = \<lparr>protocol_bps = protocol, provider_bps = provider\<rparr>
       in and_then (validate_policy p, s) (\<lambda>_ s. (Ok (), put_config (fg_split_update (\<lambda>_. Some p)) s)))"

definition preview_fee_split :: "int \<Rightarrow> 'w fees \<Rightarrow> ('w, int \<times> int) fee_call" where
  "preview_fee_split gross = if_initialized (\<lambda>s. (split_fee (get_fee_split_policy s) gross, s))"

section \<open>Daily buckets\<close>

definition get_provider_daily_fee_shares :: "earnings \<Rightarrow> addr \<Rightarrow> nat \<Rightarrow> int" where
  "get_provider_daily_fee_shares e p d = opt_or 0 (en_daily e (p, d))"

definition get_provider_total_earnings :: "earnings \<Rightarrow> addr \<Rightarrow> int" where
  "get_provider_total_earnings e p = opt_or 0 (en_total e p)"

definition add_provider_to_earnings_index :: "addr \<Rightarrow> earnings \<Rightarrow> earnings" where
  "add_provider_to_earnings_index p e = (if p \<in> set (en_index e) then e else e\<lparr>en_index := en_index e @ [p]\<rparr>)"

definition add_provider_total_earnings :: "addr \<Rightarrow> int \<Rightarrow> earnings \<Rightarrow> earnings" where
  "add_provider_total_earnings p x e =
     add_provider_to_earnings_index p
       (e\<lparr>en_total := (en_total e)(p \<mapsto> saturating_add (get_provider_total_earnings e p) x)\<rparr>)"

definition add_provider_daily_fee_shares :: "addr \<Rightarrow> nat \<Rightarrow> int \<Rightarrow> earnings \<Rightarrow> earnings" where
  "add_provider_daily_fee_shares p d x e =
     (let e = e\<lparr>en_daily := (en_daily e)((p, d) \<mapsto> saturating_add (get_provider_daily_fee_shares e p d) x)\<rparr>;
          e = (if en_first_day e p = None then e\<lparr>en_first_day := (en_first_day e)(p \<mapsto> d)\<rparr> else e)
      in add_provider_total_earnings p x e)"

definition put_earnings :: "(earnings \<Rightarrow> earnings) \<Rightarrow> 'w fees \<Rightarrow> 'w fees" where
  "put_earnings f s = s\<lparr>fc_earnings := f (fc_earnings s)\<rparr>"

definition record_provider_fee_share :: "env \<Rightarrow> addr \<Rightarrow> addr \<Rightarrow> int \<Rightarrow> 'w fees \<Rightarrow> ('w, unit) fee_call" where
  "record_provider_fee_share ev caller provider amount =
     if_initialized (if_signed ev caller (keeper_check caller (\<lambda>s.
       if amount \<le> 0 then (Err InvalidAmount, s)
       else (Ok (), put_earnings (add_provider_daily_fee_shares provider (current_day ev) amount) s))))"

definition record_provider_gross_fee_share :: "env \<Rightarrow> addr \<Rightarrow> addr \<Rightarrow> int \<Rightarrow> 'w fees \<Rightarrow> ('w, int \<times> int) fee_call" where
  "record_provider_gross_fee_share ev caller provider gross =
     if_initialized (if_signed ev caller (keeper_check caller (\<lambda>s.
       if gross \<le> 0 then (Err InvalidAmount, s)
       else and_then (split_fee (get_fee_split_policy s) gross, s) (\<lambda>(protocol_amount, provider_amount) s.
         (Ok (protocol_amount, provider_amount),
          if 0 < provider_amount
          then put_earnings (add_provider_daily_fee_shares provider (current_day ev) provider_amount) s else s)))))"

section \<open>Reports\<close>

datatype ReportPeriod = Daily | Weekly | Monthly | AllTime

record EarningsReport =
  rp_fee_shares_earned :: int
  rp_stake_rewards_earned :: int
  rp_subscription_fees_earned :: int
  rp_total_earned :: int
  rp_period_start :: nat
  rp_period_end :: nat

definition sum_fee_shares_days :: "earnings \<Rightarrow> addr \<Rightarrow> nat \<Rightarrow> nat \<Rightarrow> int" where
  "sum_fee_shares_days e p start_day end_day =
     fold (\<lambda>d tot. saturating_add tot (get_provider_daily_fee_shares e p d)) [start_day..<Suc end_day] 0"

definition report_start :: "env \<Rightarrow> addr \<Rightarrow> ReportPeriod \<Rightarrow> earnings \<Rightarrow> nat" where
  "report_start ev p period e =
     (let today = current_day ev
      in case period of Daily \<Rightarrow> today - 1 | Weekly \<Rightarrow> today - 7 | Monthly \<Rightarrow> today - 30
         | AllTime \<Rightarrow> opt_or today (en_first_day e p))"

text \<open>The start of the period is multiplied out in \<open>u64\<close>, which traps on overflow.\<close>

definition earnings_report :: "env \<Rightarrow> addr \<Rightarrow> ReportPeriod \<Rightarrow> earnings \<Rightarrow> (ContractError, EarningsReport) res" where
  "earnings_report ev p period e =
     (let start = report_start ev p period e; x = sum_fee_shares_days e p start (current_day ev)
      in if u64_max < start * SECS_PER_DAY then Panic
         else Ok \<lparr>rp_fee_shares_earned = x, rp_stake_rewards_earned = 0, rp_subscription_fees_earned = 0, rp_total_earned = x,
                  rp_period_start = start * SECS_PER_DAY, rp_period_end = ev_timestamp ev\<rparr>)"

definition get_provider_earnings_report :: "env \<Rightarrow> addr \<Rightarrow> ReportPeriod \<Rightarrow> 'w fees \<Rightarrow> ('w, EarningsReport) fee_call" where
  "get_provider_earnings_report ev p period = if_initialized (\<lambda>s. (earnings_report ev p period (fc_earnings s), s))"

record EarningsLeaderboardEntry =
  lb_rank :: nat
  lb_provider :: addr
  lb_total_earned :: int
  lb_first_earned_day :: nat

definition leaderboard_entries :: "earnings \<Rightarrow> EarningsLeaderboardEntry list" where
  "leaderboard_entries e =
     map (\<lambda>p. \<lparr>lb_rank = 0, lb_provider = p, lb_total_earned = get_provider_total_earnings e p,
               lb_first_earned_day = opt_or 0 (en_first_day e p)\<rparr>)
       (filter (\<lambda>p. \<not> get_provider_total_earnings e p \<le> 0) (en_index e))"

definition get_provider_earnings_leaderboard :: "nat \<Rightarrow> earnings \<Rightarrow> EarningsLeaderboardEntry list" where
  "get_provider_earnings_leaderboard limit e =
     (let limit = (if limit = 0 then 10 else min limit 50);
          entries = leaderboard_entries e;
          ranked = bubble_passes (\<lambda>x. - lb_total_earned x) (length entries) entries
      in map (\<lambda>i. (ranked ! i)\<lparr>lb_rank := i + 1\<rparr>) [0..<min limit (length ranked)])"

section \<open>Every recorded share is in the total\<close>

definition daily_sum :: "earnings \<Rightarrow> addr \<Rightarrow> nat \<Rightarrow> int" where
  "daily_sum e p today = (\<Sum>d = 0..today. get_provider_daily_fee_shares e p d)"

definition earnings_ok :: "earnings \<Rightarrow> nat \<Rightarrow> bool" where
  "earnings_ok e today \<longleftrightarrow>
     (\<forall>p d. 0 \<le> get_provider_daily_fee_shares e p d) \<and>
     (\<forall>p d. get_provider_daily_fee_shares e p d \<noteq> 0 \<longrightarrow> (\<exists>f. en_first_day e p = Some f \<and> f \<le> d) \<and> d \<le> today) \<and>
     (\<forall>p f. en_first_day e p = Some f \<longrightarrow> f \<le> today) \<and>
     (\<forall>p. get_provider_total_earnings e p = min i128_max (daily_sum e p today))"

lemma earnings_okD:
  assumes "earnings_ok e today"
  shows "0 \<le> get_provider_daily_fee_shares e p d"
    "get_provider_daily_fee_shares e p d \<noteq> 0 \<Longrightarrow> \<exists>f. en_first_day e p = Some f \<and> f \<le> d"
    "get_provider_daily_fee_shares e p d \<noteq> 0 \<Longrightarrow> d \<le> today"
    "get_provider_total_earnings e p = min i128_max (daily_sum e p today)"
    "en_first_day e p = Some f \<Longrightarrow> f \<le> today"
  using assms unfolding earnings_ok_def by blast+

lemma saturating_add_min: "0 \<le> a \<Longrightarrow> 0 \<le> b \<Longrightarrow> saturating_add (min i128_max a) b = min i128_max (a + b)"
  by (auto simp: arith_defs)

lemma saturating_add_min': "0 \<le> a \<Longrightarrow> 0 \<le> b \<Longrightarrow> saturating_add a b = min i128_max (a + b)"
  by (auto simp: arith_defs)

lemma sum_fee_shares_days_eq:
  assumes "\<And>d. 0 \<le> get_provider_daily_fee_shares e p d" "a \<le> Suc b"
  shows "sum_fee_shares_days e p a b = min i128_max (\<Sum>d = a..<Suc b. get_provider_daily_fee_shares e p d)"
proof -
  have "fold (\<lambda>d tot. saturating_add tot (get_provider_daily_fee_shares e p d)) ds (min i128_max x)
      = min i128_max (x + (\<Sum>d\<leftarrow>ds. get_provider_daily_fee_shares e p d))" if "0 \<le> x" for ds x
    using that
  proof (induction ds arbitrary: x)
    case (Cons d ds)
    then show ?case using assms(1) [of d] Cons.IH [of "x + get_provider_daily_fee_shares e p d"]
      by (simp add: saturating_add_min algebra_simps)
  qed simp
  from this [of 0 "[a..<Suc b]"] show ?thesis
    by (simp add: sum_fee_shares_days_def i128_max_def interv_sum_list_conv_sum_set_nat del: upt_Suc)
qed

lemma earnings_parts:
  "get_provider_daily_fee_shares (add_provider_daily_fee_shares p d x e) q c =
     (if q = p \<and> c = d then saturating_add (get_provider_daily_fee_shares e p d) x else get_provider_daily_fee_shares e q c)"
  "get_provider_total_earnings (add_provider_daily_fee_shares p d x e) q =
     (if q = p then saturating_add (get_provider_total_earnings e p) x else get_provider_total_earnings e q)"
  "en_first_day (add_provider_daily_fee_shares p d x e) q =
     (if q = p \<and> en_first_day e p = None then Some d else en_first_day e q)"
  by (auto simp: add_provider_daily_fee_shares_def add_provider_total_earnings_def add_provider_to_earnings_index_def
      get_provider_daily_fee_shares_def get_provider_total_earnings_def Let_def)

lemma add_earnings_ok:
  assumes "earnings_ok e today" "today \<le> d" "0 < x"
  shows "earnings_ok (add_provider_daily_fee_shares p d x e) d"
proof -
  let ?e = "add_provider_daily_fee_shares p d x e"
  let ?g = "get_provider_daily_fee_shares e"
  note ok = earnings_okD [OF assms(1)]
  have daily: "?g q c = 0" if "today < c" for q c using ok(3) [of q c] that by fastforce
  have sum: "daily_sum e q d = daily_sum e q today" for q
    unfolding daily_sum_def using assms(2) daily by (intro sum.mono_neutral_right) auto
  have new: "saturating_add (?g p d) x = min i128_max (?g p d + x)" using ok(1) assms(3) by (intro saturating_add_min') auto
  have pos: "0 \<le> daily_sum e q d" for q unfolding daily_sum_def using ok(1) by (intro sum_nonneg) auto
  have grow: "daily_sum ?e p d = daily_sum e p d - ?g p d + min i128_max (?g p d + x)"
    unfolding daily_sum_def by (simp add: earnings_parts new sum.remove [of "{0..d}" d])
  have other: "daily_sum ?e q d = daily_sum e q d" if "q \<noteq> p" for q
    unfolding daily_sum_def using that by (simp add: earnings_parts)
  have le: "?g p d \<le> daily_sum e p d" unfolding daily_sum_def using ok(1) by (intro member_le_sum) auto
  have "get_provider_total_earnings ?e q = min i128_max (daily_sum ?e q d)" for q
  proof (cases "q = p")
    case True
    have "get_provider_total_earnings ?e p = min i128_max (daily_sum e p d + x)"
      using pos [of p] assms(3) by (simp add: earnings_parts ok(4) sum [symmetric] saturating_add_min)
    then show ?thesis using grow le True by (auto simp: min_def)
  next
    case False
    then show ?thesis using other [OF False] by (simp add: earnings_parts ok(4) sum)
  qed
  moreover have "0 \<le> get_provider_daily_fee_shares ?e q c" for q c
    using ok(1) assms(3) by (simp add: earnings_parts saturating_add_nonneg)
  moreover have "(\<exists>f. en_first_day ?e q = Some f \<and> f \<le> c) \<and> c \<le> d" if "get_provider_daily_fee_shares ?e q c \<noteq> 0" for q c
  proof (cases "q = p \<and> c = d")
    case True
    have "\<exists>f. en_first_day ?e p = Some f \<and> f \<le> d"
      using ok(5) [of p] assms(2) by (cases "en_first_day e p") (auto simp: earnings_parts)
    with True show ?thesis by simp
  next
    case False
    then have "?g q c \<noteq> 0" using that by (auto simp: earnings_parts split: if_splits)
    then show ?thesis using ok(2,3) [of q c] assms(2) by (auto simp: earnings_parts)
  qed
  moreover have "f \<le> d" if "en_first_day ?e q = Some f" for q f
    using that ok(5) [of q f] assms(2) by (auto simp: earnings_parts split: if_splits)
  ultimately show ?thesis unfolding earnings_ok_def by blast
qed

text \<open>The report over all time equals the total, whatever saturated.\<close>

lemma alltime_sum:
  assumes "earnings_ok e today"
  shows "sum_fee_shares_days e p (opt_or today (en_first_day e p)) today = get_provider_total_earnings e p"
proof -
  let ?g = "get_provider_daily_fee_shares e p"
  let ?f = "opt_or today (en_first_day e p)"
  note ok = earnings_okD [OF assms]
  have f: "?f \<le> today" using ok(5) by (cases "en_first_day e p") auto
  have "(\<Sum>d = ?f..<Suc today. ?g d) = daily_sum e p today"
    unfolding daily_sum_def
  proof (rule sum.mono_neutral_left)
    show "\<forall>d \<in> {0..today} - {?f..<Suc today}. ?g d = 0" using ok(2) [of p] by fastforce
  qed auto
  then show ?thesis using sum_fee_shares_days_eq [of e p ?f today] ok(1,4) f by simp
qed

text \<open>A history of recorded shares, on days that do not go back.\<close>

definition earnings_step :: "nat \<times> addr \<times> int \<Rightarrow> earnings \<times> nat \<Rightarrow> earnings \<times> nat" where
  "earnings_step = (\<lambda>(d, p, x) (e, today). (add_provider_daily_fee_shares p d x e, d))"

definition earnings_enabled :: "nat \<times> addr \<times> int \<Rightarrow> earnings \<times> nat \<Rightarrow> bool" where
  "earnings_enabled = (\<lambda>(d, p, x) (e, today). today \<le> d \<and> 0 < x)"

definition totals_reported :: "earnings \<times> nat \<Rightarrow> bool" where
  "totals_reported = (\<lambda>(e, today). \<forall>p. sum_fee_shares_days e p (opt_or today (en_first_day e p)) today = get_provider_total_earnings e p)"

interpretation earned: guarded_system earnings_enabled earnings_step "\<lambda>(e, today). earnings_ok e today" totals_reported
  by unfold_locales (auto simp: earnings_enabled_def earnings_step_def totals_reported_def intro: add_earnings_ok alltime_sum)

definition no_earnings :: earnings where
  "no_earnings = \<lparr>en_daily = (\<lambda>_. None), en_first_day = (\<lambda>_. None), en_total = (\<lambda>_. None), en_index = []\<rparr>"

lemma no_earnings_ok: "earnings_ok no_earnings today"
  by (simp add: earnings_ok_def no_earnings_def get_provider_daily_fee_shares_def get_provider_total_earnings_def daily_sum_def i128_max_def)

section \<open>Properties\<close>

text \<open>
  The report over all time is complete: after any history of recorded fee shares, in the order of
  time, the sum over the daily buckets from a provider's first day to today, saturating as the report
  does, is exactly the provider's stored total, which the leaderboard ranks by.
\<close>

theorem alltime_report_is_total:
  assumes "reach earnings_enabled earnings_step (no_earnings, day) (e, current_day ev)"
    and "earnings_report ev p AllTime e = Ok r"
  shows "rp_total_earned r = get_provider_total_earnings e p"
proof -
  have "totals_reported (e, current_day ev)" using earned.reach_safe [OF assms(1)] no_earnings_ok by simp
  then show ?thesis
    using assms(2) by (auto simp: totals_reported_def earnings_report_def report_start_def Let_def split: if_splits)
qed

definition earning_env :: env where
  "earning_env = \<lparr>ev_timestamp = 3 * 86400 + 50, ev_sequence = 10, ev_self = 7, ev_auth = (\<lambda>_. True), ev_auth_withdraw = (\<lambda>_ _. True)\<rparr>"

theorem alltime_report_is_total_witness:
  "let e = add_provider_daily_fee_shares 5 3 30 (add_provider_daily_fee_shares 5 2 12 no_earnings)
   in get_provider_total_earnings e 5 = 42 \<and> (\<forall>r. earnings_report earning_env 5 AllTime e = Ok r \<longrightarrow> rp_total_earned r = 42)"
proof -
  let ?e1 = "add_provider_daily_fee_shares 5 2 12 no_earnings"
  let ?e = "add_provider_daily_fee_shares 5 3 30 ?e1"
  have day: "current_day earning_env = 3" by (simp add: current_day_def earning_env_def SECS_PER_DAY_def)
  have "reach earnings_enabled earnings_step (no_earnings, 0) (earnings_step (2, 5, 12) (no_earnings, 0))"
    by (rule reach_step [OF reach_start]) (simp add: earnings_enabled_def)
  from reach_step [OF this, of "(3, 5, 30)"]
  have "reach earnings_enabled earnings_step (no_earnings, 0) (?e, current_day earning_env)"
    by (simp add: earnings_enabled_def earnings_step_def day)
  note r = alltime_report_is_total [OF this, of 5]
  have "get_provider_total_earnings ?e 5 = 42"
    by (simp add: earnings_parts(2)) (simp add: no_earnings_def get_provider_total_earnings_def arith_defs)
  with r show ?thesis by (simp add: Let_def)
qed

text \<open>
  The split of a fee loses nothing and favours nobody: under a policy that the setter
  accepts, a split succeeds for every fee whose product with the protocol's share fits, the protocol
  gets the floored share, the provider exactly the rest, and neither part is negative.
\<close>

theorem policy_split_exact:
  assumes "validate_policy p = Ok ()" "0 \<le> gross" "in_i128 gross" "in_i128 (gross * int (protocol_bps p))"
  shows "\<exists>a b. split_fee p gross = Ok (a, b) \<and> a = gross * int (protocol_bps p) div 10000 \<and> a + b = gross \<and> 0 \<le> a \<and> 0 \<le> b"
proof -
  let ?a = "gross * int (protocol_bps p) div 10000"
  have "protocol_bps p \<le> 10000"
    using assms(1) by (auto simp: validate_policy_def res_then_Ok ok_or_Ok u32_checked_add_def BPS_TOTAL_def split: if_splits)
  then have "gross * int (protocol_bps p) \<le> gross * 10000" using assms(2) by (intro mult_left_mono) auto
  then have a: "?a \<le> gross" using div_floor(1) [of 10000 "gross * int (protocol_bps p)"] by linarith
  have nn: "0 \<le> ?a" using assms(2) by (simp add: pos_imp_zdiv_nonneg_iff)
  have fit: "in_i128 ?a" "in_i128 (gross - ?a)" using a nn assms(2,3) in_i128_between by (auto intro: in_i128_between)
  have "tdiv (gross * int (protocol_bps p)) 10000 = ?a" using assms(2) by (simp add: tdiv_nonneg)
  then have "split_fee p gross = Ok (?a, gross - ?a)"
    using assms(2,4) fit by (simp add: split_fee_def checked_mul_def checked_div_def checked_sub_def BPS_TOTAL_def)
  then show ?thesis using a nn by simp
qed

theorem policy_split_exact_witness:
  "\<exists>a b. split_fee \<lparr>protocol_bps = 3333, provider_bps = 6667\<rparr> 100 = Ok (a, b) \<and> a = 33 \<and> a + b = 100 \<and> 0 \<le> a \<and> 0 \<le> b"
  using policy_split_exact [of "\<lparr>protocol_bps = 3333, provider_bps = 6667\<rparr>" 100]
  by (simp add: validate_policy_def u32_checked_add_def BPS_TOTAL_def arith_defs)

lemma leaderboard_sorted:
  "map lb_total_earned (get_provider_earnings_leaderboard limit e) =
     map lb_total_earned (take (if limit = 0 then 10 else min limit 50) (sort_key (\<lambda>x. - lb_total_earned x) (leaderboard_entries e)))"
proof -
  have "map (\<lambda>i. lb_total_earned ((xs ! i)\<lparr>lb_rank := i + 1\<rparr>)) [0..<min n (length xs)] = map lb_total_earned (take n xs)"
    for n and xs :: "EarningsLeaderboardEntry list"
    by (rule nth_equalityI) auto
  from this [where xs = "sort_key (\<lambda>x. - lb_total_earned x) (leaderboard_entries e)"]
  show ?thesis by (simp add: get_provider_earnings_leaderboard_def Let_def bubble_passes_eq o_def)
qed

text \<open>
  The leaderboard is a ranking: it lists providers with positive totals, at most the requested number,
  by descending total with consecutive ranks, and nobody left out of it earned more than anybody on it.
\<close>

theorem leaderboard_ranks_earners:
  assumes "board = get_provider_earnings_leaderboard limit e" "n = (if limit = 0 then 10 else min limit 50)"
  shows "length board = min n (length (leaderboard_entries e)) \<and> sorted_wrt (\<ge>) (map lb_total_earned board) \<and>
    map lb_rank board = [1..<Suc (length board)] \<and> (\<forall>x \<in> set board. 0 < lb_total_earned x) \<and>
    (\<forall>x \<in> set board. \<forall>y \<in> set (drop n (sort_key (\<lambda>x. - lb_total_earned x) (leaderboard_entries e))). lb_total_earned y \<le> lb_total_earned x)"
proof -
  let ?s = "sort_key (\<lambda>x. - lb_total_earned x) (leaderboard_entries e)"
  have tot: "map lb_total_earned board = map lb_total_earned (take n ?s)" using leaderboard_sorted [of limit e] assms by simp
  have srt: "sorted_wrt (\<ge>) (map lb_total_earned ?s)"
    using sorted_sort_key [of "\<lambda>x. - lb_total_earned x" "leaderboard_entries e"] by (simp add: sorted_wrt_map)
  have pos: "\<forall>x \<in> set ?s. 0 < lb_total_earned x" by (auto simp: leaderboard_entries_def)
  have len: "length board = min n (length (leaderboard_entries e))"
    using assms by (simp add: get_provider_earnings_leaderboard_def Let_def bubble_passes_eq)
  have mem: "lb_total_earned ` set board = lb_total_earned ` set (take n ?s)" using tot by (metis list.set_map)
  have "sorted_wrt (\<ge>) (map lb_total_earned (take n ?s @ drop n ?s))" using srt by simp
  then have split: "sorted_wrt (\<ge>) (map lb_total_earned (take n ?s))"
    "\<forall>x \<in> set (take n ?s). \<forall>y \<in> set (drop n ?s). lb_total_earned y \<le> lb_total_earned x"
    unfolding map_append sorted_wrt_append by auto
  have "\<forall>x \<in> set board. 0 < lb_total_earned x" using mem pos by (metis (no_types, lifting) image_iff in_set_takeD)
  moreover have "\<forall>x \<in> set board. \<forall>y \<in> set (drop n ?s). lb_total_earned y \<le> lb_total_earned x"
    using mem split(2) by (metis (no_types, lifting) image_iff)
  moreover have "map lb_rank board = [1..<Suc (length board)]"
    using assms by (simp add: get_provider_earnings_leaderboard_def Let_def o_def map_Suc_upt [symmetric] del: upt_Suc)
  ultimately show ?thesis using len tot split(1) by simp
qed

theorem leaderboard_ranks_earners_witness:
  "let e = add_provider_daily_fee_shares 6 3 30 (add_provider_daily_fee_shares 5 2 12 no_earnings)
   in map lb_total_earned (get_provider_earnings_leaderboard 5 e) = [30, 12] \<and> map lb_rank (get_provider_earnings_leaderboard 5 e) = [1, 2] \<and>
      (\<forall>x \<in> set (get_provider_earnings_leaderboard 5 e). 0 < lb_total_earned x)"
proof -
  let ?e = "add_provider_daily_fee_shares 6 3 30 (add_provider_daily_fee_shares 5 2 12 no_earnings)"
  let ?b = "get_provider_earnings_leaderboard 5 ?e"
  have e: "leaderboard_entries ?e = [\<lparr>lb_rank = 0, lb_provider = 5, lb_total_earned = 12, lb_first_earned_day = 2\<rparr>,
      \<lparr>lb_rank = 0, lb_provider = 6, lb_total_earned = 30, lb_first_earned_day = 3\<rparr>]"
    by (simp add: leaderboard_entries_def add_provider_daily_fee_shares_def add_provider_total_earnings_def add_provider_to_earnings_index_def
        get_provider_total_earnings_def get_provider_daily_fee_shares_def no_earnings_def arith_defs)
  note r = leaderboard_ranks_earners [of ?b 5 ?e "if (5::nat) = 0 then 10 else min 5 50", OF refl refl]
  have "map lb_total_earned ?b = [30, 12]" using leaderboard_sorted [of 5 ?e] by (simp add: e)
  moreover have "length ?b = 2" using r by (simp add: e)
  moreover have "map lb_rank ?b = [1..<Suc (length ?b)]" using r by blast
  ultimately show ?thesis using r by (simp add: Let_def upt_rec numeral_2_eq_2)
qed

end
