(* ===== verification/FeeContract.thy ===== *)
theory FeeContract
  imports FeeEarnings
begin

text \<open>
  The fee collector as a transition system: every entry point of \<open>fee_collector/src/lib.rs\<close>, called by
  anybody with any arguments and any replies of the oracle, the expiry of cache entries by the host
  and the token movements of the rest of the world.
\<close>

datatype collector_setting =
    Initialize addr | Upgrade nat | Pause | Unpause | AuthorizeCaller addr | RevokeCaller addr
  | SetOracle addr | SetPayoutCap addr addr int | SetFeeRate nat | SetBurnRate nat
  | SetCongestionConfig CongestionConfig | SetCongestionSignal addr nat
  | SetOptimization addr FeeOptimizationConfig | UpdateNetwork addr nat | SetProtocolToken addr "addr option"
  | RegisterToken addr addr string string nat | SetRevenueShare nat | SetWaterfall "WaterfallTier list"
  | SetDiscounts addr "VolumeTier list" | SetForecast addr ForecastConfigData | SetMaxRebate nat
  | SetBands VolatilityBandConfig | SetSplit nat nat | RegisterReferral addr addr
  | OverrideReferral addr addr addr | SetReferralShare addr nat | SetPayoutCurrency addr addr | ClearPayoutCurrency addr
  | QueueWithdrawal addr addr int | QueueFailed addr FailedFeeCollection | RecordShare addr addr int

fun collector_setting_call :: "env \<Rightarrow> collector_setting \<Rightarrow> 'w fees \<Rightarrow> ('w, unit) fee_call" where
  "collector_setting_call ev (Initialize a) = initialize ev a"
| "collector_setting_call ev (Upgrade n) = upgrade ev n"
| "collector_setting_call ev Pause = pause ev"
| "collector_setting_call ev Unpause = unpause ev"
| "collector_setting_call ev (AuthorizeCaller a) = authorize_caller ev a"
| "collector_setting_call ev (RevokeCaller a) = revoke_caller ev a"
| "collector_setting_call ev (SetOracle a) = set_oracle_contract ev a"
| "collector_setting_call ev (SetPayoutCap c t x) = set_insurance_payout_cap ev c t x"
| "collector_setting_call ev (SetFeeRate r) = set_fee_rate ev r"
| "collector_setting_call ev (SetBurnRate r) = set_burn_rate ev r"
| "collector_setting_call ev (SetCongestionConfig c) = set_congestion_config ev c"
| "collector_setting_call ev (SetCongestionSignal a m) = set_congestion_signal ev a m"
| "collector_setting_call ev (SetOptimization a c) = set_fee_optimization_config ev a c"
| "collector_setting_call ev (UpdateNetwork a x) = update_network_conditions ev a x"
| "collector_setting_call ev (SetProtocolToken z t) = set_protocol_token ev z t"
| "collector_setting_call ev (RegisterToken a t sy nm d) = register_token ev a t sy nm d"
| "collector_setting_call ev (SetRevenueShare r) = set_revenue_share_rate_bps ev r"
| "collector_setting_call ev (SetWaterfall ws) = set_waterfall_config ev ws"
| "collector_setting_call ev (SetDiscounts a ts) = set_volume_discount_config ev a ts"
| "collector_setting_call ev (SetForecast a c) = set_forecast_config ev a c"
| "collector_setting_call ev (SetMaxRebate r) = set_max_rebate_bps ev r"
| "collector_setting_call ev (SetBands c) = set_volatility_bands ev c"
| "collector_setting_call ev (SetSplit a b) = set_fee_split_policy ev a b"
| "collector_setting_call ev (RegisterReferral r e) = register_referral ev r e"
| "collector_setting_call ev (OverrideReferral a r e) = admin_override_referral ev a r e"
| "collector_setting_call ev (SetReferralShare a x) = set_referral_fee_share ev a x"
| "collector_setting_call ev (SetPayoutCurrency p t) = set_payout_currency ev p t"
| "collector_setting_call ev (ClearPayoutCurrency p) = clear_payout_currency ev p"
| "collector_setting_call ev (QueueWithdrawal r t x) = queue_withdrawal ev r t x"
| "collector_setting_call ev (QueueFailed a f) = queue_failed_fee_collection ev a f"
| "collector_setting_call ev (RecordShare c p x) = record_provider_fee_share ev c p x"

datatype 'w collector_op =
    Setting collector_setting
  | Collect addr addr int asset
  | CollectBatch "BatchFeeInput list"
  | RetryFailed addr string
  | Withdraw addr addr int
  | DepositInsurance addr addr int
  | PayoutInsurance addr addr addr int string
  | ClaimFees addr addr
  | RevenueSnapshot addr addr
  | Waterfall addr int
  | GrossShare addr addr int
  | Forecast addr addr
  | QueryRate addr
  | QueryVolume addr
  | QueryDynamicRate addr addr
  | CacheExpires nat
  | Foreign 'w

fun collector_step :: "'w token_if \<Rightarrow> addr \<Rightarrow> env \<times> fee_oracle \<times> 'w collector_op \<Rightarrow> 'w fees \<Rightarrow> 'w fees" where
  "collector_step tk self (ev, orc, Setting o1) s = snd (commit s (collector_setting_call (host_env self ev) o1 s))"
| "collector_step tk self (ev, orc, Collect tr t x a) s = snd (commit s (collect_fee (host_env self ev) tk orc tr t x a s))"
| "collector_step tk self (ev, orc, CollectBatch xs) s = snd (commit s (batch_collect_fees (host_env self ev) tk orc xs s))"
| "collector_step tk self (ev, orc, RetryFailed a i) s = snd (commit s (retry_failed_fee_collection (host_env self ev) tk orc a i s))"
| "collector_step tk self (ev, orc, Withdraw r t x) s = snd (commit s (withdraw_treasury_fees (host_env self ev) tk r t x s))"
| "collector_step tk self (ev, orc, DepositInsurance f t x) s = snd (commit s (deposit_insurance_fund (host_env self ev) tk f t x s))"
| "collector_step tk self (ev, orc, PayoutInsurance c r t x i) s = snd (commit s (payout_insurance (host_env self ev) tk c r t x i s))"
| "collector_step tk self (ev, orc, ClaimFees p t) s = snd (commit s (claim_fees (host_env self ev) tk orc p t s))"
| "collector_step tk self (ev, orc, RevenueSnapshot c t) s = snd (commit s (trigger_revenue_share_snapshot (host_env self ev) c t s))"
| "collector_step tk self (ev, orc, Waterfall t x) s = snd (commit s (distribute_waterfall (host_env self ev) tk t x s))"
| "collector_step tk self (ev, orc, GrossShare c p x) s = snd (commit s (record_provider_gross_fee_share (host_env self ev) c p x s))"
| "collector_step tk self (ev, orc, Forecast a t) s = snd (commit s (trigger_fee_forecast (host_env self ev) a t s))"
| "collector_step tk self (ev, orc, QueryRate u) s = snd (commit s (fee_rate_for_user (host_env self ev) u s))"
| "collector_step tk self (ev, orc, QueryVolume u) s = snd (commit s (monthly_trade_volume (host_env self ev) u s))"
| "collector_step tk self (ev, orc, QueryDynamicRate u t) s = snd (commit s (current_dynamic_fee_rate (host_env self ev) u t s))"
| "collector_step tk self (ev, orc, CacheExpires k) s = s\<lparr>fc_cache := (fc_cache s)(k := None)\<rparr>"
| "collector_step tk self (ev, orc, Foreign w) s = s\<lparr>fc_world := w\<rparr>"

text \<open>The rest of the world leaves the contract's tokens alone.\<close>

fun collector_enabled :: "'w token_if \<Rightarrow> addr \<Rightarrow> env \<times> fee_oracle \<times> 'w collector_op \<Rightarrow> 'w fees \<Rightarrow> bool" where
  "collector_enabled tk self (ev, orc, Foreign w) s \<longleftrightarrow> (\<forall>t. tk_balance tk t self (fc_world s) \<le> tk_balance tk t self w)"
| "collector_enabled tk self (ev, orc, _) s \<longleftrightarrow> True"

section \<open>Settings keep the rates within their bounds\<close>

lemma rates_ok_put_config:
  assumes "rates_ok s" "MIN_FEE_RATE_BPS \<le> get_fee_rate (put_config f s)" "get_fee_rate (put_config f s) \<le> MAX_FEE_RATE_BPS"
    "congestion_ok (get_congestion_config (put_config f s))" "cache_ok (stored_fee_config (put_config f s))"
  shows "rates_ok (put_config f s)"
  using assms by (simp add: rates_ok_def put_config_def)

lemma rates_ok_bump [simp]: "rates_ok (bump_config_version s) = rates_ok s"
  by (simp add: rates_ok_def bump_config_version_def put_config_def rate_reads)

definition config_only :: "'w fees \<Rightarrow> 'w fees \<Rightarrow> bool" where
  "config_only s s' \<longleftrightarrow> rates_ok s' \<and> (\<exists>c. s' = s\<lparr>fc_config := c\<rparr>)"

lemma config_only_covered: "books_ok s \<Longrightarrow> config_only s s' \<Longrightarrow> fees_covered tk self s s'"
  unfolding config_only_def by (elim conjE exE) (rule fees_covered_rates, simp_all)

lemma config_only_put:
  assumes "rates_ok s" "rates_ok (put_config f s)"
  shows "config_only s (put_config f s)" "config_only s (bump_config_version (put_config f s))"
  using assms by (auto simp: config_only_def) (auto simp: put_config_def bump_config_version_def)

text \<open>Settings the rates do not read.\<close>

lemma rates_unread:
  assumes "rates_ok s" "\<And>c. fg_fee_rate (f c) = fg_fee_rate c" "\<And>c. fg_congestion (f c) = fg_congestion c"
    "\<And>c. fg_optimization (f c) = fg_optimization c" "\<And>c. fg_network_score (f c) = fg_network_score c"
    "\<And>c. fg_burn_rate (f c) = fg_burn_rate c"
  shows "config_only s (put_config f s)"
proof (rule config_only_put(1) [OF assms(1)])
  show "rates_ok (put_config f s)"
    using assms by (simp add: rates_ok_def put_config_def rate_reads cache_ok_def)
qed

lemma rate_settings_config_only:
  assumes "rates_ok s"
  shows "set_fee_rate ev r s = (Ok u, s') \<Longrightarrow> config_only s s'"
    "set_burn_rate ev r s = (Ok u, s') \<Longrightarrow> config_only s s'"
    "set_congestion_config ev cc s = (Ok u, s') \<Longrightarrow> config_only s s'"
    "set_fee_optimization_config ev a oc s = (Ok u, s') \<Longrightarrow> config_only s s'"
    "update_network_conditions ev a x s = (Ok u, s') \<Longrightarrow> config_only s s'"
proof -
  note r = assms [unfolded rates_ok_def rate_reads cache_ok_def]
  show "set_fee_rate ev r s = (Ok u, s') \<Longrightarrow> config_only s s'"
    using r by (auto simp: set_fee_rate_def admin_call_Ok split: if_splits intro!: config_only_put(2) [OF assms])
      (auto simp: rates_ok_def put_config_def rate_reads cache_ok_def)
  show "set_burn_rate ev r s = (Ok u, s') \<Longrightarrow> config_only s s'"
    using r by (auto simp: set_burn_rate_def admin_call_Ok split: if_splits intro!: config_only_put(2) [OF assms])
      (auto simp: rates_ok_def put_config_def rate_reads cache_ok_def)
  show "set_congestion_config ev cc s = (Ok u, s') \<Longrightarrow> config_only s s'"
    using r by (auto simp: set_congestion_config_def admin_call_Ok split: if_splits intro!: config_only_put(1) [OF assms])
      (auto simp: rates_ok_def put_config_def rate_reads cache_ok_def congestion_ok_def)
  show "set_fee_optimization_config ev a oc s = (Ok u, s') \<Longrightarrow> config_only s s'"
    using r by (auto simp: set_fee_optimization_config_def admin_call_Ok split: if_splits intro!: config_only_put(2) [OF assms])
      (auto simp: rates_ok_def put_config_def rate_reads cache_ok_def optimization_ok_def)
  show "update_network_conditions ev a x s = (Ok u, s') \<Longrightarrow> config_only s s'"
    using r by (auto simp: update_network_conditions_def admin_call_Ok split: if_splits intro!: config_only_put(2) [OF assms])
      (auto simp: rates_ok_def put_config_def rate_reads cache_ok_def)
qed

lemma other_settings_config_only:
  assumes "rates_ok s"
  shows "initialize ev a s = (Ok u, s') \<Longrightarrow> config_only s s'"
    "upgrade ev n s = (Ok u, s') \<Longrightarrow> config_only s s'"
    "authorize_caller ev a s = (Ok u, s') \<Longrightarrow> config_only s s'"
    "revoke_caller ev a s = (Ok u, s') \<Longrightarrow> config_only s s'"
    "set_oracle_contract ev a s = (Ok u, s') \<Longrightarrow> config_only s s'"
    "set_congestion_signal ev a n s = (Ok u, s') \<Longrightarrow> config_only s s'"
    "set_protocol_token ev a pt s = (Ok u, s') \<Longrightarrow> config_only s s'"
    "register_token ev a t sy nm n s = (Ok u, s') \<Longrightarrow> config_only s s'"
    "set_revenue_share_rate_bps ev n s = (Ok u, s') \<Longrightarrow> config_only s s'"
    "set_waterfall_config ev ws s = (Ok u, s') \<Longrightarrow> config_only s s'"
    "set_volume_discount_config ev a ts s = (Ok u, s') \<Longrightarrow> config_only s s'"
    "set_forecast_config ev a fcfg s = (Ok u, s') \<Longrightarrow> config_only s s'"
    "set_max_rebate_bps ev n s = (Ok u, s') \<Longrightarrow> config_only s s'"
    "set_volatility_bands ev bc s = (Ok u, s') \<Longrightarrow> config_only s s'"
    "set_fee_split_policy ev n m s = (Ok u, s') \<Longrightarrow> config_only s s'"
    "set_referral_fee_share ev a n s = (Ok u, s') \<Longrightarrow> config_only s s'"
  using assms
  by (auto simp: initialize_def upgrade_def authorize_caller_def revoke_caller_def set_oracle_contract_def set_congestion_signal_def
      set_protocol_token_def register_token_def set_revenue_share_rate_bps_def set_waterfall_config_def set_volume_discount_config_def
      set_forecast_config_def set_max_rebate_bps_def set_volatility_bands_def set_fee_split_policy_def set_referral_fee_share_def
      admin_call_Ok fee_guards_Ok and_then_Ok Let_def split: if_splits intro!: rates_unread)

lemma record_settings_books:
  "put_paused ev b s = (Ok u, s') \<Longrightarrow> fee_books s' = fee_books s"
  "set_insurance_payout_cap ev a t x s = (Ok u, s') \<Longrightarrow> fee_books s' = fee_books s"
  "register_referral ev a t s = (Ok u, s') \<Longrightarrow> fee_books s' = fee_books s"
  "admin_override_referral ev b' a t s = (Ok u, s') \<Longrightarrow> fee_books s' = fee_books s"
  "set_payout_currency ev a t s = (Ok u, s') \<Longrightarrow> fee_books s' = fee_books s"
  "clear_payout_currency ev a s = (Ok u, s') \<Longrightarrow> fee_books s' = fee_books s"
  "queue_withdrawal ev a t x s = (Ok u, s') \<Longrightarrow> fee_books s' = fee_books s"
  "queue_failed_fee_collection ev a f s = (Ok u, s') \<Longrightarrow> fee_books s' = fee_books s"
  "record_provider_fee_share ev a t x s = (Ok u, s') \<Longrightarrow> fee_books s' = fee_books s"
  "record_provider_gross_fee_share ev a t x s = (Ok ab, s') \<Longrightarrow> fee_books s' = fee_books s"
  "trigger_fee_forecast ev a t s = (Ok y, s') \<Longrightarrow> fee_books s' = fee_books s"
  by (auto simp: put_paused_def set_insurance_payout_cap_def register_referral_def admin_override_referral_def set_payout_currency_def
      clear_payout_currency_def queue_failed_fee_collection_def set_failed_fee_collection_def record_provider_fee_share_def
      record_provider_gross_fee_share_def trigger_fee_forecast_def set_last_forecast_day_def put_earnings_def set_referrer_def
      admin_call_Ok fee_guards_Ok and_then_Ok fee_books_def dest!: queue_withdrawal_Ok(1) split: if_splits option.splits)

lemma collector_setting_covered:
  assumes "books_ok s" "collector_setting_call ev o1 s = (Ok u, s')"
  shows "fees_covered tk self s s'"
proof -
  note r = books_okD(1) [OF assms(1)]
  have "config_only s s' \<or> fee_books s' = fee_books s"
    using assms(2)
    by (cases o1; simp only: collector_setting_call.simps pause_def unpause_def)
      (blast dest: rate_settings_config_only [OF r] other_settings_config_only [OF r] record_settings_books)+
  then show ?thesis using config_only_covered [OF assms(1)] fees_covered_books [OF _ assms(1)] by blast
qed

section \<open>Every enabled call keeps the collector solvent\<close>

definition collector_inv :: "'w token_if \<Rightarrow> addr \<Rightarrow> 'w fees \<Rightarrow> bool" where
  "collector_inv tk self s \<longleftrightarrow> sep41 tk \<and> books_ok s \<and> (\<forall>t. 0 \<le> fee_surplus tk self s t)"

definition fee_solvent :: "'w token_if \<Rightarrow> addr \<Rightarrow> 'w fees \<Rightarrow> bool" where
  "fee_solvent tk self s \<longleftrightarrow>
     (\<forall>t. get_treasury_balance s t + get_insurance_balance s t + get_revenue_share_pool s t \<le> tk_balance tk t self (fc_world s))"

lemma fee_inv_covered: "collector_inv tk self s \<Longrightarrow> fees_covered tk self s s' \<Longrightarrow> collector_inv tk self s'"
  unfolding collector_inv_def fees_covered_def by (meson order_trans)

lemma collect_items_covered:
  assumes "sep41 tk" "books_ok s" "\<not> ev_auth ev (ev_self ev)" "collect_items ev tk orc xs s = (Ok fees, s')"
  shows "fees_covered tk (ev_self ev) s s'"
  using assms(2,4)
proof (induction xs arbitrary: s fees)
  case Nil
  then show ?case by (simp add: fees_covered_refl)
next
  case (Cons i xs)
  from Cons.prems(2) obtain f s1 fs where
    c: "collect_fee_with_recovery ev tk orc (bf_trader i) (bf_token i) (bf_trade_amount i) (bf_trade_asset i) s = (Ok f, s1)"
    and r: "collect_items ev tk orc xs s1 = (Ok fs, s')" by (auto simp: and_then_Ok)
  note 1 = collect_covered [OF assms(1) Cons.prems(1) assms(3) c]
  show ?case by (rule fees_covered_trans [OF 1 Cons.IH [OF fees_covered_ok [OF 1] r]])
qed

lemma load_cache_covered: "books_ok s \<Longrightarrow> load_tx_fee_config s = (c, s') \<Longrightarrow> fees_covered tk self s s'"
  using load_tx_fee_config_ok [OF books_okD(1), of s c s'] by (auto intro!: fees_covered_rates)

lemma volume_covered: "books_ok s \<Longrightarrow> s' = s\<lparr>fc_volume := m\<rparr> \<Longrightarrow> fees_covered tk self s s'"
  by (intro fees_covered_books) (simp_all add: fee_books_def)

lemma batch_covered:
  assumes "sep41 tk" "books_ok s" "\<not> ev_auth ev (ev_self ev)" "batch_collect_fees ev tk orc xs s = (Ok fees, s')"
  shows "fees_covered tk (ev_self ev) s s'"
proof -
  obtain c s1 where l: "load_tx_fee_config s = (c, s1)" by fastforce
  with assms(4) have r: "collect_items ev tk orc xs s1 = (Ok fees, s')" by (auto simp: batch_collect_fees_def split: if_splits)
  note 1 = load_cache_covered [OF assms(2) l, of tk "ev_self ev"]
  show ?thesis by (rule fees_covered_trans [OF 1 collect_items_covered [OF assms(1) fees_covered_ok [OF 1] assms(3) r]])
qed

lemma failed_covered: "books_ok s \<Longrightarrow> fees_covered tk self s (s\<lparr>fc_failed := m\<rparr>)"
  by (rule fees_covered_books) (simp add: fee_books_def)

lemma retry_covered:
  assumes "sep41 tk" "books_ok s" "\<not> ev_auth ev (ev_self ev)" "retry_failed_fee_collection ev tk orc a i s = (Ok fee, s')"
  shows "fees_covered tk (ev_self ev) s s'"
proof -
  from assms(4) obtain f m s1 where c: "collect_fee_with_recovery ev tk orc (ff_trader f) (ff_token f) (ff_trade_amount f)
      (ff_trade_asset f) (s\<lparr>fc_failed := m\<rparr>) = (Ok fee, s1)" and s': "s' = s1\<lparr>fc_failed := (fc_failed s1)(i := None)\<rparr>"
    by (auto simp: retry_failed_fee_collection_def admin_call_Ok and_then_Ok ok_or_Ok Let_def set_failed_fee_collection_def
        split: if_splits) (metis FailedFeeCollection.select_convs FailedFeeCollection.simps)
  note 1 = failed_covered [OF assms(2), of tk "ev_self ev" m]
  note 2 = collect_covered [OF assms(1) fees_covered_ok [OF 1] assms(3) c]
  show ?thesis unfolding s'
    by (rule fees_covered_trans [OF fees_covered_trans [OF 1 2] failed_covered [OF fees_covered_ok [OF 2]]])
qed

lemma queries_covered:
  assumes "books_ok s"
  shows "fee_rate_for_user ev u s = (Ok r, s') \<Longrightarrow> fees_covered tk self s s'"
    "monthly_trade_volume ev u s = (Ok v, s') \<Longrightarrow> fees_covered tk self s s'"
    "current_dynamic_fee_rate ev u t s = (Ok r, s') \<Longrightarrow> fees_covered tk self s s'"
proof -
  show "fee_rate_for_user ev u s = (Ok r, s') \<Longrightarrow> fees_covered tk self s s'"
    by (auto simp: fee_rate_for_user_def fee_guards_Ok split: prod.splits dest!: fee_rate_for_user_frame intro: volume_covered [OF assms])
  show "monthly_trade_volume ev u s = (Ok v, s') \<Longrightarrow> fees_covered tk self s s'"
    by (auto simp: monthly_trade_volume_def fee_guards_Ok get_active_volume_usd_def split: prod.splits option.splits
        dest!: active_volume_frame intro: volume_covered [OF assms])
  assume "current_dynamic_fee_rate ev u t s = (Ok r, s')"
  then obtain c s1 b where c: "load_tx_fee_config s = (c, s1)" "get_fee_rate_for_user ev u s1 = (b, s')"
    by (auto simp: current_dynamic_fee_rate_def effective_fee_rate_for_trade_def split: prod.splits)
  note 1 = load_cache_covered [OF assms c(1), of tk self]
  obtain m where "s' = s1\<lparr>fc_volume := m\<rparr>" using fee_rate_for_user_frame [OF c(2)] by blast
  then show "fees_covered tk self s s'" by (intro fees_covered_trans [OF 1 volume_covered [OF fees_covered_ok [OF 1]]])
qed

lemma collect_fee_Ok: "collect_fee ev tk orc tr t x a s = (Ok f, s') \<longleftrightarrow> collect_fee_with_recovery ev tk orc tr t x a s = (Ok f, s')"
  by (auto simp: collect_fee_def split: prod.splits res.splits)

lemma collector_step_inv:
  assumes "collector_inv tk self s" "collector_enabled tk self eo s"
  shows "fees_covered tk self s (collector_step tk self eo s)"
proof -
  obtain ev orc o1 where eo: "eo = (ev, orc, o1)" using prod_cases3 by blast
  let ?e = "host_env self ev"
  have sep: "sep41 tk" and ok: "books_ok s" and auth: "\<not> ev_auth ?e (ev_self ?e)" and self: "ev_self ?e = self"
    using assms(1) by (auto simp: collector_inv_def)
  note cm = commit_inv [of "fees_covered tk self s", OF fees_covered_refl [OF ok]]
  note books = fees_covered_books [OF _ ok]
  show ?thesis
  proof (cases o1)
    case (Setting o2)
    then show ?thesis unfolding eo using collector_setting_covered [OF ok] by (auto intro!: cm)
  next
    case (Collect tr t x a)
    then show ?thesis unfolding eo using collect_covered [OF sep ok auth] self by (auto simp: collect_fee_Ok intro!: cm)
  next
    case (CollectBatch xs)
    then show ?thesis unfolding eo using batch_covered [OF sep ok auth] self by (auto intro!: cm)
  next
    case (RetryFailed a i)
    then show ?thesis unfolding eo using retry_covered [OF sep ok auth] self by (auto intro!: cm)
  next
    case (Withdraw r t x)
    then show ?thesis unfolding eo using withdraw_treasury_covered [OF sep ok, where ev = ?e] self by (auto intro!: cm)
  next
    case (DepositInsurance f t x)
    then show ?thesis unfolding eo using deposit_insurance_covered [OF sep ok auth] self by (auto intro!: cm)
  next
    case (PayoutInsurance c r t x i)
    then show ?thesis unfolding eo using payout_insurance_covered [OF sep ok, where ev = ?e] self by (auto intro!: cm)
  next
    case (ClaimFees p t)
    have "fees_covered tk self s s'" if "claim_fees ?e tk orc p t s = (Ok x, s')" for x s'
      using claim_fees_nothing_pending [OF books_okD(5) [OF ok] that] fees_covered_refl [OF ok] by simp
    with ClaimFees show ?thesis unfolding eo by (auto intro!: cm)
  next
    case (RevenueSnapshot c t)
    then show ?thesis unfolding eo using snapshot_covered [OF ok] by (auto intro!: cm)
  next
    case (Waterfall t x)
    have "fees_covered tk self s s'" if "distribute_waterfall ?e tk t x s = (Ok rs, s')" for rs s'
      by (rule distribute_waterfall_facts [OF sep ok that]) (simp add: self)
    with Waterfall show ?thesis unfolding eo by (auto intro!: cm)
  next
    case (GrossShare c p x)
    have "fees_covered tk self s s'" if "record_provider_gross_fee_share ?e c p x s = (Ok ab, s')" for ab s'
      by (rule books [OF record_settings_books(10) [OF that]])
    with GrossShare show ?thesis unfolding eo by (auto intro!: cm)
  next
    case (Forecast a t)
    have "fees_covered tk self s s'" if "trigger_fee_forecast ?e a t s = (Ok y, s')" for y s'
      by (rule books [OF record_settings_books(11) [OF that]])
    with Forecast show ?thesis unfolding eo by (auto intro!: cm)
  next
    case (QueryRate u)
    then show ?thesis unfolding eo using queries_covered(1) [OF ok] by (auto intro!: cm)
  next
    case (QueryVolume u)
    then show ?thesis unfolding eo using queries_covered(2) [OF ok] by (auto intro!: cm)
  next
    case (QueryDynamicRate u t)
    then show ?thesis unfolding eo using queries_covered(3) [OF ok] by (auto intro!: cm)
  next
    case (CacheExpires k)
    have "rates_ok (s\<lparr>fc_cache := (fc_cache s)(k := None)\<rparr>)"
      by (rule rates_ok_cache [OF books_okD(1) [OF ok]])
        (use books_okD(1) [OF ok] in \<open>auto simp: rates_ok_def split: if_splits\<close>)
    with CacheExpires show ?thesis unfolding eo by (auto intro!: fees_covered_rates [OF ok])
  next
    case (Foreign w)
    with assms(2) ok rates_ok_books [of "s\<lparr>fc_world := w\<rparr>" s] show ?thesis unfolding eo
      by (auto simp: fees_covered_def books_ok_def fee_surplus_def collector_owed_def book_reads)
  qed
qed

lemma fee_inv_solvent: "collector_inv tk self s \<Longrightarrow> fee_solvent tk self s"
  by (auto simp: collector_inv_def fee_solvent_def fee_surplus_def collector_owed_def)

interpretation fee_collector: guarded_system "collector_enabled tk self" "collector_step tk self" "collector_inv tk self" "fee_solvent tk self"
  for tk :: "'w token_if" and self
  by unfold_locales (auto intro: fee_inv_covered collector_step_inv fee_inv_solvent)

text \<open>A paid insurance claim stays paid: a second system over the same steps.\<close>

interpretation paid_claim: guarded_system "collector_enabled tk self" "collector_step tk self"
    "\<lambda>s. collector_inv tk self s \<and> is_insurance_claim_processed s c" "\<lambda>s. is_insurance_claim_processed s c"
  for tk :: "'w token_if" and self c
proof unfold_locales
  fix s eo
  assume "collector_inv tk self s \<and> is_insurance_claim_processed s c" "collector_enabled tk self eo s"
  then show "collector_inv tk self (collector_step tk self eo s) \<and> is_insurance_claim_processed (collector_step tk self eo s) c"
    using collector_step_inv [of tk self s eo] by (auto intro: fee_inv_covered simp: fees_covered_def)
qed simp

section \<open>Examples\<close>

definition no_config :: fee_config where
  "no_config = \<lparr>fg_admin = None, fg_initialized = None, fg_version = None, fg_callers = (\<lambda>_. None), fg_oracle = None,
     fg_fee_rate = None, fg_burn_rate = None, fg_congestion = None, fg_signal = None, fg_optimization = None,
     fg_network_score = None, fg_config_version = None, fg_protocol_token = None, fg_revenue_share = None,
     fg_waterfall = None, fg_discounts = None, fg_forecast = None, fg_referral_share = None, fg_metadata = (\<lambda>_. None),
     fg_max_rebate = None, fg_split = None, fg_bands = None\<rparr>"

definition fees_fresh :: "'w \<Rightarrow> 'w fees" where
  "fees_fresh w = \<lparr>fc_config = no_config, fc_pause = \<lparr>pz_paused = None, pz_scoped = (\<lambda>_. None)\<rparr>, fc_lock = None,
     fc_treasury = (\<lambda>_. None), fc_queued = None, fc_insurance = (\<lambda>_. None), fc_payout_cap = (\<lambda>_. None),
     fc_processed = (\<lambda>_. None), fc_pending = (\<lambda>_. None), fc_pool = (\<lambda>_. None), fc_pool_index = [],
     fc_last_snapshot = None, fc_volume = (\<lambda>_. None), fc_traded = (\<lambda>_. None), fc_referrer = (\<lambda>_. None),
     fc_payout_currency = (\<lambda>_. None), fc_daily = (\<lambda>_. None), fc_rebated = (\<lambda>_. None), fc_last_forecast = (\<lambda>_. None),
     fc_failed = (\<lambda>_. None), fc_report = None, fc_earnings = no_earnings, fc_cache = (\<lambda>_. None), fc_world = w\<rparr>"

lemma fees_fresh_inv: "sep41 tk \<Longrightarrow> collector_inv tk self (fees_fresh w)"
  by (auto simp: collector_inv_def books_ok_def rates_ok_def rate_reads congestion_ok_def cache_ok_def optimization_ok_def fees_fresh_def
      no_config_def fee_surplus_def collector_owed_def book_reads sep41_balance fee_consts)

text \<open>The collector at 7 with administrator 1, and 40 units of token 9 insured by account 3.\<close>

definition no_oracle :: fee_oracle where
  "no_oracle = \<lparr>fo_convert = (\<lambda>_ _ _. None), fo_rate = (\<lambda>_ _ _. None)\<rparr>"

definition fee_world :: ledger where
  "fee_world = (\<lambda>t x. if t = 9 \<and> x = 3 then 1000 else 0)"

definition example_fees :: "ledger fees" where
  "example_fees = (fees_fresh (ledger_put 9 7 40 (ledger_put 9 3 960 fee_world)))
     \<lparr>fc_config := no_config\<lparr>fg_admin := Some 1, fg_initialized := Some True, fg_version := Some FEE_COLLECTOR_VERSION\<rparr>,
      fc_insurance := [9 \<mapsto> 40]\<rparr>"

lemmas fee_eval = if_initialized_def if_not_paused_def if_unlocked_def if_signed_def if_admin_def admin_call_def named_admin_call_def
  keeper_check_def is_initialized_def require_not_paused_def is_paused_def require_not_locked_def put_config_def fee_token_call_def
  try_transfer_def ledger_token_def ledger_transfer_def ledger_balance_def ledger_put_def earning_env_def

lemma example_fees_eq:
  "example_fees = collector_step ledger_token 7 (earning_env, no_oracle, DepositInsurance 3 9 40)
     (collector_step ledger_token 7 (earning_env, no_oracle, Setting (Initialize 1)) (fees_fresh fee_world))"
  by (simp add: example_fees_def fees_fresh_def no_config_def initialize_def deposit_insurance_fund_def fee_eval fee_world_def
      set_insurance_balance_def get_insurance_balance_def checked_add_def arith_defs fun_eq_iff)

lemma example_fees_reach: "reach (collector_enabled ledger_token 7) (collector_step ledger_token 7) (fees_fresh fee_world) example_fees"
  unfolding example_fees_eq by (rule reach_step [OF reach_step [OF reach_start]]) simp_all

section \<open>Properties\<close>

text \<open>
  (C8) The fee collector is solvent. In every state that empty storage reaches by calls of its entry points,
  in any order, by anybody, with any replies of the oracle, with cache entries expiring at any time and
  other token movements in between, the contract's balance of every token covers the treasury, the
  insurance fund and the revenue pool of that token.
\<close>

theorem fee_collector_solvent:
  assumes "sep41 tk" "reach (collector_enabled tk self) (collector_step tk self) (fees_fresh w) s"
  shows "get_treasury_balance s t + get_insurance_balance s t + get_revenue_share_pool s t \<le> tk_balance tk t self (fc_world s)"
  using fee_collector.reach_safe [OF assms(2) fees_fresh_inv [OF assms(1)]] by (simp add: fee_solvent_def)

theorem fee_collector_solvent_witness:
  "get_insurance_balance example_fees 9 = 40 \<and> get_treasury_balance example_fees 9 + get_insurance_balance example_fees 9
     + get_revenue_share_pool example_fees 9 \<le> tk_balance ledger_token 9 7 (fc_world example_fees)"
  using fee_collector_solvent [OF sep41_ledger_token example_fees_reach, of 9]
  by (simp add: example_fees_def get_insurance_balance_def)

text \<open>
  An insurance claim is paid once and within the cap: a payout is positive, covered by the insurance
  fund and at most the cap when one is set, and after it no call in any later state pays the same
  claim again, to anybody, in any token.
\<close>

theorem insurance_claim_paid_once:
  assumes "sep41 tk" "reach (collector_enabled tk self) (collector_step tk self) (fees_fresh w) s"
    and "payout_insurance (host_env self ev) tk c r t x i s = (Ok u, s')"
    and "reach (collector_enabled tk self) (collector_step tk self) s' s''"
  shows "0 < x \<and> x \<le> get_insurance_balance s t \<and> (0 < get_insurance_payout_cap s t \<longrightarrow> x \<le> get_insurance_payout_cap s t) \<and>
    (\<nexists>v s3. payout_insurance ev' tk' c' r' t' x' i s'' = (Ok v, s3))"
proof -
  have inv: "collector_inv tk self s" by (rule fee_collector.reach_inv [OF assms(2) fees_fresh_inv [OF assms(1)]])
  obtain w' where p: "0 < x" "x \<le> get_insurance_balance s t" "0 < get_insurance_payout_cap s t \<longrightarrow> x \<le> get_insurance_payout_cap s t"
    "s' = s\<lparr>fc_world := w', fc_insurance := (fc_insurance s)(t \<mapsto> get_insurance_balance s t - x),
            fc_processed := (fc_processed s)(i \<mapsto> True)\<rparr>"
    by (rule payout_insurance_Ok [OF assms(3)]) blast
  have "collector_inv tk self s'"
  proof (rule fee_inv_covered [OF inv])
    have "books_ok s" using inv by (simp add: collector_inv_def)
    from payout_insurance_covered [OF assms(1) this assms(3)] show "fees_covered tk self s s'" by simp
  qed
  then have "is_insurance_claim_processed s'' i"
    using paid_claim.reach_safe [OF assms(4), of i] p(4) by (simp add: is_insurance_claim_processed_def)
  then have "\<nexists>v s3. payout_insurance ev' tk' c' r' t' x' i s'' = (Ok v, s3)" by (metis payout_insurance_Ok)
  with p show ?thesis by blast
qed

lemma example_payout:
  "payout_insurance (host_env 7 earning_env) ledger_token 1 5 9 25 ''c1'' example_fees =
     (Ok (), example_fees\<lparr>fc_world := ledger_put 9 5 25 (ledger_put 9 7 15 (fc_world example_fees)), fc_insurance := [9 \<mapsto> 15],
                          fc_processed := [''c1'' \<mapsto> True]\<rparr>)"
  by (simp add: payout_insurance_def fee_eval example_fees_def fees_fresh_def no_config_def fee_world_def is_insurance_claim_processed_def
      get_insurance_payout_cap_def get_insurance_balance_def set_insurance_balance_def checked_sub_def arith_defs fun_eq_iff)

theorem insurance_claim_paid_once_witness:
  "\<exists>s'. payout_insurance (host_env 7 earning_env) ledger_token 1 5 9 25 ''c1'' example_fees = (Ok (), s') \<and>
     (\<nexists>v s3. payout_insurance (host_env 7 earning_env) ledger_token 1 5 9 5 ''c1'' s' = (Ok v, s3))"
  using insurance_claim_paid_once [OF sep41_ledger_token example_fees_reach example_payout reach_start] example_payout by blast

text \<open>
  Providers are never paid by \<open>claim_fees\<close>: no operation of the contract credits a provider's pending
  fees, so in every reachable state every claim that succeeds pays nothing and changes nothing.
\<close>

theorem claims_pay_nothing:
  assumes "sep41 tk" "reach (collector_enabled tk self) (collector_step tk self) (fees_fresh w) s"
    and "claim_fees ev tk orc p t s = (Ok x, s')"
  shows "x = 0 \<and> s' = s"
proof -
  have "collector_inv tk self s" by (rule fee_collector.reach_inv [OF assms(2) fees_fresh_inv [OF assms(1)]])
  then have "get_pending_fees s p t = 0" by (simp add: collector_inv_def books_okD)
  with assms(3) show ?thesis by (rule claim_fees_nothing_pending [rotated])
qed

theorem claims_pay_nothing_witness:
  "claim_fees (host_env 7 earning_env) ledger_token no_oracle 5 9 example_fees = (Ok 0, example_fees)"
proof -
  obtain x s' where c: "claim_fees (host_env 7 earning_env) ledger_token no_oracle 5 9 example_fees = (Ok x, s')"
    by (simp add: claim_fees_def fee_eval validate_token_metadata_for_token_def example_fees_def fees_fresh_def no_config_def get_pending_fees_def)
  with claims_pay_nothing [OF sep41_ledger_token example_fees_reach c] show ?thesis by simp
qed

text \<open>
  (C9) Where a fee goes. A fee that is charged is positive and at most 1% of the trade; the trader pays exactly
  the fee, a part is burned, a part goes to the referrer, a part to the revenue pool, and the treasury is
  credited exactly the rest: nothing of the fee is lost and nothing is credited that was not paid.
\<close>

theorem collected_fee_accounted:
  assumes "sep41 tk" "rates_ok s" "collect_fee ev tk orc trader t amount a s = (Ok fee, s')" "has_traded s trader" "trader \<noteq> ev_self ev"
  shows "0 < fee \<and> 100 * fee \<le> amount \<and>
    (\<exists>burn ref share. 0 \<le> burn \<and> 0 \<le> ref \<and> 0 \<le> share \<and> burn + ref + share \<le> fee \<and>
      fee_paid_out ev tk (fc_referrer s trader) trader t fee burn ref (fc_world s) (fc_world s') \<and>
      get_treasury_balance s' t = get_treasury_balance s t + (fee - burn - ref - share) \<and>
      get_revenue_share_pool s' t = (if 0 < share then saturating_add (get_revenue_share_pool s t) share else get_revenue_share_pool s t))"
proof -
  note c = collect_fee_with_recovery_Ok [OF assms(3) [unfolded collect_fee_Ok] assms(2)]
  then obtain bps burn ref share where p: "bps \<le> MAX_FEE_RATE_BPS" "fee = amount * int bps div 10000" "0 < fee"
    "0 \<le> burn" "0 \<le> ref" "0 \<le> share" "burn + ref + share \<le> fee"
    "fee_paid_out ev tk (fc_referrer s trader) trader t fee burn ref (fc_world s) (fc_world s')"
    "fee_credited t (fee - burn - ref - share) share s s'"
    using assms(4) unfolding fee_collected_def by blast
  have "amount * int bps \<le> amount * 100" using c p(1) by (intro mult_left_mono) (auto simp: fee_consts)
  then have "100 * fee \<le> amount" using p(2) div_floor(1) [of 10000 "amount * int bps"] by linarith
  moreover have "get_treasury_balance s' t = get_treasury_balance s t + (fee - burn - ref - share)"
    "get_revenue_share_pool s' t = (if 0 < share then saturating_add (get_revenue_share_pool s t) share else get_revenue_share_pool s t)"
    using p(9) by (auto simp: fee_credited_def book_reads)
  ultimately show ?thesis using p(3-8) by blast
qed

definition linear_oracle :: fee_oracle where
  "linear_oracle = \<lparr>fo_convert = (\<lambda>_ x _. Some x), fo_rate = (\<lambda>_ _ _. None)\<rparr>"

definition example_traded :: "ledger fees" where
  "example_traded = example_fees\<lparr>fc_config := (fc_config example_fees)\<lparr>fg_oracle := Some 4\<rparr>, fc_traded := [3 \<mapsto> True]\<rparr>"

definition example_cache :: TxFeeConfigCache where
  "example_cache = \<lparr>ch_optimization = \<lparr>max_dynamic_rate_bps = 100, congestion_sensitivity_bps = 50, min_effective_rate_bps = 1,
     max_retry_attempts = 3\<rparr>, ch_network_score = 0, ch_burn_rate = 1000, ch_protocol_token = None\<rparr>"

definition example_cached :: "ledger fees" where
  "example_cached = example_traded\<lparr>fc_cache := [0 \<mapsto> example_cache]\<rparr>"

lemmas example_fee_defs = example_cached_def example_traded_def example_fees_def fees_fresh_def no_config_def

lemma example_load: "load_tx_fee_config example_traded = (example_cache, example_cached)"
  by (simp add: load_tx_fee_config_def stored_fee_config_def rate_reads versioned_cache_key_def get_config_version_def example_fee_defs
      example_cache_def fee_consts fun_eq_iff)

lemma example_rate:
  "get_fee_rate_for_user (host_env 7 earning_env) 3 example_cached = (30, example_cached)" "effective_fee_rate_cached 30 9 example_cache = 30"
  by (simp_all add: get_fee_rate_for_user_def get_active_volume_usd_def active_monthly_trade_volume_def current_effective_multiplier_def
      rate_reads volume_discount_def example_fee_defs fee_consts as_u32_def u64_max_def u32_max_def effective_fee_rate_cached_def example_cache_def
      u32_sat_add_def Let_def)

lemma example_amounts: "fee_and_burn_amounts 100000 30 1000 = Some (300, 30)"
  by (simp add: fee_and_burn_amounts_def fee_amount_floor_def checked_mul_def tdiv_def arith_defs)

definition example_credited :: "ledger fees" where
  "example_credited = example_cached\<lparr>fc_world := ledger_put 9 7 310 (ledger_put 9 7 340 (ledger_put 9 3 660 (fc_world example_cached))),
     fc_treasury := [9 \<mapsto> 216], fc_pool := [9 \<mapsto> 54], fc_pool_index := [9]\<rparr>"

lemma example_shares: "share_of 270 2000 = 54"
  by (simp add: share_of_def checked_mul_def tdiv_def arith_defs)

lemma example_distribute:
  "distribute_fee (host_env 7 earning_env) ledger_token 3 9 300 30 example_cached = (Ok (), example_credited)"
proof -
  have c: "credit_shares 9 270 270 (example_cached\<lparr>fc_world := w\<rparr>)
      = (Ok (), example_cached\<lparr>fc_world := w, fc_treasury := [9 \<mapsto> 216], fc_pool := [9 \<mapsto> 54], fc_pool_index := [9]\<rparr>)" for w
    by (simp add: credit_shares_def get_revenue_share_rate_bps_def add_revenue_share_pool_def add_to_revenue_share_pool_index_def
        get_revenue_share_pool_def get_treasury_balance_def set_treasury_balance_def example_shares checked_add_def arith_defs fee_consts
        example_fee_defs Let_def)
  have t: "fc_world example_cached = ledger_put 9 7 40 (ledger_put 9 3 960 fee_world)" "fc_referrer example_cached 3 = None"
    by (simp_all add: example_fee_defs)
  show ?thesis
    by (simp add: distribute_fee_def fee_token_call_def try_transfer_def try_burn_def burn_slice_def ledger_token_def ledger_transfer_def
        ledger_burn_def ledger_balance_def ledger_put_def pay_referral_def c t checked_sub_def arith_defs earning_env_def example_credited_def
        fee_world_def fun_eq_iff)
qed

lemma example_collect:
  "\<exists>s'. collect_fee (host_env 7 earning_env) ledger_token linear_oracle 3 9 100000 \<lparr>as_code = ''XLM'', as_issuer = None\<rparr> example_traded
     = (Ok 300, s') \<and> get_treasury_balance s' 9 = 216"
proof -
  let ?a = "\<lparr>as_code = ''XLM'', as_issuer = None\<rparr>"
  obtain m where v: "record_trade_volume (host_env 7 earning_env) linear_oracle 3 ?a 100000 example_credited = (Ok (), example_credited\<lparr>fc_volume := m\<rparr>)"
    by (simp add: record_trade_volume_def active_monthly_trade_volume_def example_credited_def example_fee_defs linear_oracle_def checked_add_def arith_defs)
  obtain d l where n: "note_daily_fee (host_env 7 earning_env) 9 300 (example_credited\<lparr>fc_volume := m\<rparr>)
      = example_credited\<lparr>fc_volume := m, fc_daily := d, fc_last_forecast := l\<rparr>" using note_daily_fee_frame by blast
  have g: "is_initialized (fg_initialized (fc_config example_traded))" "\<not> is_paused (fc_pause example_traded)" "has_traded example_traded 3"
    "ev_auth earning_env 3" "ch_burn_rate example_cache = 1000"
    by (simp_all add: example_fee_defs is_initialized_def is_paused_def has_traded_def earning_env_def example_cache_def)
  have "collect_fee (host_env 7 earning_env) ledger_token linear_oracle 3 9 100000 ?a example_traded
      = (Ok 300, example_credited\<lparr>fc_volume := m, fc_daily := d, fc_last_forecast := l\<rparr>)"
    by (simp add: collect_fee_Ok collect_fee_with_recovery_def fee_guards_Ok g example_load example_rate example_amounts
        example_distribute v n)
  then show ?thesis by (simp add: get_treasury_balance_def example_credited_def)
qed

theorem collected_fee_accounted_witness:
  "\<exists>s'. collect_fee (host_env 7 earning_env) ledger_token linear_oracle 3 9 100000 \<lparr>as_code = ''XLM'', as_issuer = None\<rparr> example_traded
     = (Ok 300, s') \<and> get_treasury_balance s' 9 = 216 \<and>
     (\<exists>burn ref share. burn + ref + share \<le> 300 \<and> get_treasury_balance s' 9 = get_treasury_balance example_traded 9 + (300 - burn - ref - share))"
proof -
  obtain s' where c: "collect_fee (host_env 7 earning_env) ledger_token linear_oracle 3 9 100000 \<lparr>as_code = ''XLM'', as_issuer = None\<rparr> example_traded
     = (Ok 300, s')" "get_treasury_balance s' 9 = 216" using example_collect by blast
  have "rates_ok example_traded"
    by (simp add: rates_ok_def rate_reads congestion_ok_def cache_ok_def optimization_ok_def example_traded_def example_fees_def fees_fresh_def
        no_config_def fee_consts)
  from collected_fee_accounted [OF sep41_ledger_token this c(1)] show ?thesis
    using c by (auto simp: example_traded_def has_traded_def)
qed

text \<open>
  A treasury withdrawal takes effect only for the recipient, token and amount that were queued at
  least a day before, is covered by the treasury, lowers the treasury by the amount and empties the
  queue: without a new queueing the same withdrawal is refused.
\<close>

theorem treasury_withdrawal_timelocked:
  assumes "withdraw_treasury_fees ev tk recipient t amount s = (Ok u, s')"
  shows "(\<exists>q a. fc_queued s = Some q \<and> qw_recipient q = recipient \<and> qw_token q = t \<and> qw_amount q = amount \<and>
        qw_queued_at q + SECS_PER_DAY \<le> ev_timestamp ev \<and> fg_admin (fc_config s) = Some a \<and> ev_auth ev a) \<and>
      amount \<le> get_treasury_balance s t \<and> get_treasury_balance s' t = get_treasury_balance s t - amount \<and>
      (\<nexists>v s''. withdraw_treasury_fees ev' tk' recipient t amount s' = (Ok v, s''))"
proof -
  obtain q where q: "fc_queued s = Some q" "qw_recipient q = recipient" "qw_token q = t" "qw_amount q = amount"
    "\<exists>a. fg_admin (fc_config s) = Some a \<and> ev_auth ev a"
    and p: "pay_queued_withdrawal ev tk recipient t amount q s = (Ok u, s')"
    by (rule withdraw_treasury_fees_Ok [OF assms])
  obtain w where w: "qw_queued_at q + SECS_PER_DAY \<le> ev_timestamp ev" "amount \<le> get_treasury_balance s t"
    "s' = s\<lparr>fc_world := w, fc_treasury := (fc_treasury s)(t \<mapsto> get_treasury_balance s t - amount), fc_queued := None\<rparr>"
    by (rule pay_queued_withdrawal_Ok [OF p]) blast
  have "fc_queued s' = None" by (simp add: w(3))
  then have "\<nexists>v s''. withdraw_treasury_fees ev' tk' recipient t amount s' = (Ok v, s'')"
    by (metis option.distinct(1) withdraw_treasury_fees_Ok)
  moreover have "get_treasury_balance s' t = get_treasury_balance s t - amount" by (simp add: w(3) get_treasury_balance_def)
  ultimately show ?thesis using q w(1,2) by blast
qed

definition example_queued :: "ledger fees" where
  "example_queued = example_credited\<lparr>fc_queued := Some \<lparr>qw_recipient = 5, qw_token = 9, qw_amount = 200, qw_queued_at = 86400\<rparr>\<rparr>"

lemma example_withdraw:
  "\<exists>s'. withdraw_treasury_fees (host_env 7 earning_env) ledger_token 5 9 200 example_queued = (Ok (), s')"
  by (simp add: withdraw_treasury_fees_def pay_queued_withdrawal_def validate_token_metadata_for_token_def fee_eval example_queued_def
      example_credited_def example_fee_defs book_reads set_treasury_balance_def u64_checked_add_def checked_sub_def arith_defs fee_consts fee_world_def)

theorem treasury_withdrawal_timelocked_witness:
  "\<exists>s'. withdraw_treasury_fees (host_env 7 earning_env) ledger_token 5 9 200 example_queued = (Ok (), s') \<and> get_treasury_balance s' 9 = 16 \<and>
     (\<nexists>v s''. withdraw_treasury_fees (host_env 7 earning_env) ledger_token 5 9 200 s' = (Ok v, s''))"
proof -
  obtain s' where w: "withdraw_treasury_fees (host_env 7 earning_env) ledger_token 5 9 200 example_queued = (Ok (), s')"
    using example_withdraw by blast
  have "get_treasury_balance example_queued 9 = 216" by (simp add: example_queued_def example_credited_def get_treasury_balance_def)
  with treasury_withdrawal_timelocked [OF w, of "host_env 7 earning_env" ledger_token] w show ?thesis by auto
qed







end
