(* ===== verification/GovBase.thy ===== *)
theory GovBase
  imports Guards Assets
begin

text \<open>
  What the modules of the governance contract (\<open>governance/src\<close>) share: the error codes of
  \<open>errors.rs\<close>, the checked arithmetic of \<open>lib.rs\<close>, and loops over lists with an early error return.
  The error enumeration is at the size limit of the host, so several names are constants for another
  code; they are abbreviations here, and the codes are really equal.
\<close>

datatype GovernanceError =
    AlreadyInitialized | NotInitialized | Unauthorized | InvalidSupply | InvalidAmount | InvalidDuration
  | DuplicateSchedule | VestingScheduleNotFound | CliffNotReached | NothingToRelease | InsufficientBalance
  | InsufficientStakedBalance | ActiveVoteLock | BelowMinimumClaim | LiquidityPoolExhausted
  | DuplicateRecipient | ArithmeticOverflow | InvalidRewardConfig | InvalidMetadata | BudgetNotFound
  | BudgetExceeded | BudgetPeriodEnded | MissingAssetPrice | InvalidTreasuryConfig | InvalidCommitteeConfig
  | CommitteeNotFound | CommitteeTermEnded | CommitteeDecisionNotFound | CommitteeDecisionNotOpen
  | AlreadyVoted | NoCommitteeAuthority | CommitteeElectionNotFound | CommitteeElectionNotActive
  | NotCommitteeCandidate | CrossCommitteeRequestNotFound | CommitteeInactive | InvalidCommitteeAction
  | InvalidApprovalRating | InvalidGovernanceConfig | InvalidProposal | ProposalNotFound
  | ProposalNotActive | ProposalNotApproved | VotingNotStarted | VotingEnded | NoVotingPower
  | TimelockNotInitialized | ActionNotFound | InvalidTimelockConfig | ConvictionPoolNotFound

abbreviation "BudgetApprovalRequired \<equiv> BudgetNotFound"
abbreviation "ApprovedCapExceeded \<equiv> BudgetExceeded"
abbreviation "ContractPaused \<equiv> Unauthorized"
abbreviation "DiscussionPeriodActive \<equiv> VotingNotStarted"
abbreviation "ProposalAlreadyWithdrawn \<equiv> ProposalNotActive"
abbreviation "ProposalExpired \<equiv> BudgetPeriodEnded"
abbreviation "ProposalParameterOutOfRange \<equiv> InvalidAmount"
abbreviation "TimelockBypassBlocked \<equiv> Unauthorized"
abbreviation "InvalidElectionVote \<equiv> InvalidCommitteeAction"
abbreviation "IterationLimitExceeded \<equiv> InvalidCommitteeAction"
abbreviation "InvalidCalibrationConfig \<equiv> InvalidGovernanceConfig"
abbreviation "InvalidDecayRate \<equiv> InvalidGovernanceConfig"

type_synonym 'a gres = "(GovernanceError, 'a) res"
type_synonym ('s, 'a) gcall = "('s, GovernanceError, 'a) outcome"

named_theorems gov_arith \<open>checked arithmetic of the governance contract\<close>

definition BPS_DENOMINATOR :: int where "BPS_DENOMINATOR = 10000"

definition gadd :: "int \<Rightarrow> int \<Rightarrow> int gres" where
  "gadd a b = ok_or ArithmeticOverflow (checked_add a b)"

definition gsub :: "int \<Rightarrow> int \<Rightarrow> int gres" where
  "gsub a b = ok_or ArithmeticOverflow (checked_sub a b)"

definition gmul :: "int \<Rightarrow> int \<Rightarrow> int gres" where
  "gmul a b = ok_or ArithmeticOverflow (checked_mul a b)"

definition gdiv :: "int \<Rightarrow> int \<Rightarrow> int gres" where
  "gdiv a b = ok_or ArithmeticOverflow (checked_div a b)"

lemma gadd_Ok [simp, gov_arith]: "gadd a b = Ok c \<longleftrightarrow> c = a + b \<and> in_i128 (a + b)"
  by (simp add: gadd_def ok_or_Ok)

lemma gsub_Ok [simp, gov_arith]: "gsub a b = Ok c \<longleftrightarrow> c = a - b \<and> in_i128 (a - b)"
  by (simp add: gsub_def ok_or_Ok)

lemma gmul_Ok [simp, gov_arith]: "gmul a b = Ok c \<longleftrightarrow> c = a * b \<and> in_i128 (a * b)"
  by (simp add: gmul_def ok_or_Ok)

lemma gdiv_Ok [simp, gov_arith]: "gdiv a b = Ok c \<longleftrightarrow> b \<noteq> 0 \<and> c = tdiv a b \<and> in_i128 (tdiv a b)"
  by (auto simp: gdiv_def ok_or_Ok checked_div_def split: if_splits)

lemma gov_arith_exact:
  "in_i128 (a + b) \<Longrightarrow> gadd a b = Ok (a + b)" "in_i128 (a - b) \<Longrightarrow> gsub a b = Ok (a - b)"
  "in_i128 (a * b) \<Longrightarrow> gmul a b = Ok (a * b)"
  by simp_all

text \<open>A loop over a list that threads a value and may stop with an error.\<close>

fun res_fold :: "('x \<Rightarrow> 'a \<Rightarrow> ('e, 'a) res) \<Rightarrow> 'x list \<Rightarrow> 'a \<Rightarrow> ('e, 'a) res" where
  "res_fold f [] a = Ok a"
| "res_fold f (x # xs) a = res_then (f x a) (res_fold f xs)"

text \<open>A loop that pushes at most one item per element.\<close>

fun res_collect :: "('x \<Rightarrow> ('e, 'b list) res) \<Rightarrow> 'x list \<Rightarrow> ('e, 'b list) res" where
  "res_collect f [] = Ok []"
| "res_collect f (x # xs) = res_then (f x) (\<lambda>ys. res_then (res_collect f xs) (\<lambda>zs. Ok (ys @ zs)))"

lemma res_fold_invariant:
  assumes "\<And>x a b. x \<in> set xs \<Longrightarrow> P a \<Longrightarrow> f x a = Ok b \<Longrightarrow> P b" "P a" "res_fold f xs a = Ok b"
  shows "P b"
  using assms by (induction xs arbitrary: a) (auto simp: res_then_Ok)

lemma res_collect_mem:
  assumes "res_collect f xs = Ok ys" "y \<in> set ys"
  shows "\<exists>x \<in> set xs. \<exists>zs. f x = Ok zs \<and> y \<in> set zs"
  using assms by (induction xs arbitrary: ys) (fastforce simp: res_then_Ok)+

text \<open>The indices kept by the contract as vectors: push unless already there.\<close>

definition push_new :: "'a \<Rightarrow> 'a list \<Rightarrow> 'a list" where
  "push_new x xs = (if x \<in> set xs then xs else xs @ [x])"

lemma push_new_facts [simp]: "set (push_new x xs) = insert x (set xs)" "distinct xs \<Longrightarrow> distinct (push_new x xs)"
  by (auto simp: push_new_def)

text \<open>A history of operations whose side condition does not look at the state.\<close>

lemma reach_fold: "\<forall>x \<in> set xs. E x \<Longrightarrow> reach (\<lambda>x _. E x) step s (fold step xs s)"
proof (induction xs rule: rev_induct)
  case (snoc x xs)
  then have "reach (\<lambda>x _. E x) step s (fold step xs s)" "E x" by auto
  from reach_step [OF this] show ?case by simp
qed (simp add: reach_start)

text \<open>A call environment for the examples, and the equations that evaluate them.\<close>

definition example_env :: "nat \<Rightarrow> env" where
  "example_env now = \<lparr>ev_timestamp = now, ev_sequence = 1, ev_self = 99, ev_auth = (\<lambda>_. True), ev_auth_withdraw = (\<lambda>_ _. True)\<rparr>"

lemmas gov_eval =
  example_env_def gadd_def gsub_def gmul_def gdiv_def checked_div_def tdiv_def ok_or.simps fixed_width_defs Let_def push_new_def

end
