(* ===== verification/GovTreasury.thy ===== *)
theory GovTreasury
  imports GovBase
begin

text \<open>
  \<open>governance/src/treasury.rs\<close>: asset balances, budgets with their renewal, governance-approved caps,
  spends, recurring payments, rebalancing targets and the reports. The Rust functions take
  \<open>&mut Treasury\<close>; here they return the outcome with the treasury at the point where they stopped. A
  Soroban map whose entries are only looked up is a partial function.
\<close>

section \<open>Data\<close>

record BudgetApproval =
  ba_proposal_id :: nat
  ba_category :: string
  ba_approved_cap :: int
  ba_total_drawn :: int
  ba_approved_at :: nat

record Budget =
  bu_category :: string
  bu_allocated :: int
  bu_spent :: int
  bu_remaining :: int
  bu_spend_limit :: int
  bu_period_start :: nat
  bu_period_end :: nat
  bu_auto_renew :: bool

record RecurringPayment =
  rp_id :: nat
  rp_recipient :: addr
  rp_amount :: int
  rp_asset :: asset
  rp_frequency :: nat
  rp_category :: string
  rp_purpose :: string
  rp_approved_by :: "nat option"
  rp_last_payment :: nat
  rp_end_date :: "nat option"
  rp_active :: bool

record TreasurySpend =
  ts_id :: nat
  ts_recipient :: addr
  ts_amount :: int
  ts_asset :: asset
  ts_category :: string
  ts_purpose :: string
  ts_approved_by :: "nat option"
  ts_executed_at :: nat

record Treasury =
  tr_assets :: "asset \<Rightarrow> int option"
  tr_tracked :: "asset list"
  tr_total_value_usd :: int
  tr_budgets :: "string \<Rightarrow> Budget option"
  tr_categories :: "string list"
  tr_approved :: "string \<Rightarrow> BudgetApproval option"
  tr_recurring :: "RecurringPayment list"
  tr_history :: "TreasurySpend list"
  tr_targets :: "asset \<Rightarrow> int option"
  tr_last_rebalance :: nat
  tr_next_recurring_id :: nat
  tr_next_spend_id :: nat

record BudgetReport =
  br_category :: string
  br_allocated :: int
  br_spent :: int
  br_remaining :: int
  br_spend_limit :: int
  br_utilization_bps :: int

record TreasuryReport =
  rt_total_assets :: nat
  rt_total_value_usd :: int
  rt_active_budgets :: nat
  rt_active_recurring :: nat
  rt_total_spends :: nat
  rt_total_spent :: int
  rt_monthly_burn_rate :: int
  rt_runway_months :: nat
  rt_last_rebalance :: nat
  rt_budgets :: "BudgetReport list"

record RebalanceAction =
  ra_asset :: asset
  ra_current_value_usd :: int
  ra_target_value_usd :: int
  ra_delta_value_usd :: int
  ra_target_bps :: int

record AssetAllocation =
  al_asset :: asset
  al_amount :: int
  al_value_usd :: int
  al_concentration_bps :: int

record TreasuryDiversification =
  dv_allocations :: "AssetAllocation list"
  dv_largest_holding_bps :: int
  dv_largest_asset :: asset
  dv_total_value_usd :: int

type_synonym 'a tcall = "(Treasury, 'a) gcall"

definition empty_treasury :: Treasury where
  "empty_treasury =
     \<lparr>tr_assets = (\<lambda>_. None), tr_tracked = [], tr_total_value_usd = 0, tr_budgets = (\<lambda>_. None),
      tr_categories = [], tr_approved = (\<lambda>_. None), tr_recurring = [], tr_history = [],
      tr_targets = (\<lambda>_. None), tr_last_rebalance = 0, tr_next_recurring_id = 1, tr_next_spend_id = 1\<rparr>"

definition balance_of :: "Treasury \<Rightarrow> asset \<Rightarrow> int" where
  "balance_of t a = opt_or 0 (tr_assets t a)"

section \<open>Assets, budgets and approvals\<close>

definition track_asset :: "asset \<Rightarrow> Treasury \<Rightarrow> Treasury" where
  "track_asset a t =
     (if a \<in> set (tr_tracked t) then t
      else t\<lparr>tr_tracked := tr_tracked t @ [a],
             tr_assets := (tr_assets t)(a := Some (balance_of t a)),
             tr_targets := (tr_targets t)(a := Some (opt_or 0 (tr_targets t a)))\<rparr>)"

definition track_category :: "string \<Rightarrow> Treasury \<Rightarrow> Treasury" where
  "track_category c t = t\<lparr>tr_categories := push_new c (tr_categories t)\<rparr>"

definition set_asset_balance :: "asset \<Rightarrow> int \<Rightarrow> Treasury \<Rightarrow> unit tcall" where
  "set_asset_balance a amount t =
     (if amount < 0 then (Err InvalidAmount, t)
      else let t = track_asset a t in (Ok (), t\<lparr>tr_assets := (tr_assets t)(a \<mapsto> amount)\<rparr>))"

definition upsert_budget :: "string \<Rightarrow> int \<Rightarrow> int \<Rightarrow> nat \<Rightarrow> nat \<Rightarrow> bool \<Rightarrow> Treasury \<Rightarrow> Budget tcall" where
  "upsert_budget c allocated spend_limit period_start period_end auto_renew t =
     (if c = [] \<or> allocated \<le> 0 \<or> spend_limit \<le> 0 \<or> allocated < spend_limit then (Err InvalidTreasuryConfig, t)
      else if period_end \<le> period_start then (Err InvalidDuration, t)
      else let b = \<lparr>bu_category = c, bu_allocated = allocated, bu_spent = 0, bu_remaining = allocated,
                    bu_spend_limit = spend_limit, bu_period_start = period_start,
                    bu_period_end = period_end, bu_auto_renew = auto_renew\<rparr>;
               t = track_category c t
           in (Ok b, t\<lparr>tr_budgets := (tr_budgets t)(c \<mapsto> b)\<rparr>))"

definition approve_budget :: "string \<Rightarrow> nat \<Rightarrow> int \<Rightarrow> nat \<Rightarrow> Treasury \<Rightarrow> BudgetApproval tcall" where
  "approve_budget c proposal_id approved_cap now t =
     (if approved_cap \<le> 0 then (Err InvalidAmount, t)
      else and_then (ok_or BudgetNotFound (tr_budgets t c), t) (\<lambda>b t.
        if bu_allocated b < approved_cap then (Err BudgetExceeded, t)
        else let ap = \<lparr>ba_proposal_id = proposal_id, ba_category = c, ba_approved_cap = approved_cap,
                       ba_total_drawn = 0, ba_approved_at = now\<rparr>
             in (Ok ap, t\<lparr>tr_approved := (tr_approved t)(c \<mapsto> ap)\<rparr>)))"

section \<open>Renewal of a budget\<close>

text \<open>
  The loop moves the period forward until it contains \<open>now\<close>. The end saturates at the largest \<open>u64\<close>,
  so the loop need not end: \<^const>\<open>None\<close> is a loop that never returns (the host aborts the call).
\<close>

partial_function (option) renew_loop :: "nat \<Rightarrow> nat \<Rightarrow> nat \<Rightarrow> nat \<Rightarrow> (nat \<times> nat) option" where
  "renew_loop now duration next_start next_end =
     (if next_end \<le> now then renew_loop now duration next_end (u64_sat_add next_end duration)
      else Some (next_start, next_end))"

definition renew_budget_if_needed :: "nat \<Rightarrow> Budget \<Rightarrow> Budget gres" where
  "renew_budget_if_needed now b =
     (if now < bu_period_end b then Ok b
      else if \<not> bu_auto_renew b then Err BudgetPeriodEnded
      else let duration = bu_period_end b - bu_period_start b
           in if duration = 0 then Err InvalidDuration
              else case renew_loop now duration (bu_period_start b) (bu_period_end b) of
                     None \<Rightarrow> Panic
                   | Some (next_start, next_end) \<Rightarrow>
                       Ok (b\<lparr>bu_period_start := next_start, bu_period_end := next_end, bu_spent := 0,
                             bu_remaining := bu_allocated b\<rparr>))"

section \<open>Spending\<close>

definition commit_spend ::
  "addr \<Rightarrow> int \<Rightarrow> asset \<Rightarrow> string \<Rightarrow> string \<Rightarrow> nat option \<Rightarrow> nat \<Rightarrow> Budget \<Rightarrow> BudgetApproval \<Rightarrow> int \<Rightarrow>
   Treasury \<Rightarrow> TreasurySpend tcall" where
  "commit_spend recipient amount a c purpose by now b ap new_drawn t =
     (let t = t\<lparr>tr_approved := (tr_approved t)(c \<mapsto> ap\<lparr>ba_total_drawn := new_drawn\<rparr>)\<rparr>
      in and_then (gadd (bu_spent b) amount, t) (\<lambda>spent t.
         and_then (gsub (bu_remaining b) amount, t) (\<lambda>remaining t.
           let t = t\<lparr>tr_budgets := (tr_budgets t)(c \<mapsto> b\<lparr>bu_spent := spent, bu_remaining := remaining\<rparr>)\<rparr>
           in and_then (gsub (balance_of t a) amount, t) (\<lambda>bal t.
              let spend = \<lparr>ts_id = tr_next_spend_id t, ts_recipient = recipient, ts_amount = amount,
                           ts_asset = a, ts_category = c, ts_purpose = purpose, ts_approved_by = by,
                           ts_executed_at = now\<rparr>
              in (Ok spend, t\<lparr>tr_assets := (tr_assets t)(a \<mapsto> bal),
                             tr_next_spend_id := u64_sat_add (tr_next_spend_id t) 1,
                             tr_history := tr_history t @ [spend]\<rparr>)))))"

definition execute_spend ::
  "addr \<Rightarrow> int \<Rightarrow> asset \<Rightarrow> string \<Rightarrow> string \<Rightarrow> nat option \<Rightarrow> nat \<Rightarrow> Treasury \<Rightarrow> TreasurySpend tcall" where
  "execute_spend recipient amount a c purpose by now t =
     (if purpose = [] then (Err InvalidTreasuryConfig, t)
      else if amount \<le> 0 then (Err InvalidAmount, t)
      else and_then (ok_or BudgetNotFound (tr_budgets t c), t) (\<lambda>b t.
           and_then (renew_budget_if_needed now b, t) (\<lambda>b t.
           if bu_remaining b < amount \<or> bu_spend_limit b < amount then (Err BudgetExceeded, t)
           else and_then (ok_or BudgetApprovalRequired (tr_approved t c), t) (\<lambda>ap t.
             and_then (gadd (ba_total_drawn ap) amount, t) (\<lambda>new_drawn t.
             if ba_approved_cap ap < new_drawn then (Err ApprovedCapExceeded, t)
             else if balance_of t a < amount then (Err InsufficientBalance, t)
             else commit_spend recipient amount a c purpose by now b ap new_drawn t)))))"

section \<open>Recurring payments\<close>

definition schedule_recurring_payment ::
  "env \<Rightarrow> addr \<Rightarrow> int \<Rightarrow> asset \<Rightarrow> nat \<Rightarrow> string \<Rightarrow> string \<Rightarrow> nat option \<Rightarrow> nat option \<Rightarrow> Treasury \<Rightarrow>
   RecurringPayment tcall" where
  "schedule_recurring_payment ev recipient amount a frequency c purpose by end_date t =
     (if amount \<le> 0 then (Err InvalidAmount, t)
      else if frequency = 0 then (Err InvalidDuration, t)
      else if (case end_date of Some e \<Rightarrow> e \<le> ev_timestamp ev | None \<Rightarrow> False) then (Err InvalidDuration, t)
      else if tr_budgets t c = None then (Err BudgetNotFound, t)
      else if tr_approved t c = None then (Err BudgetApprovalRequired, t)
      else let t = track_asset a t;
               p = \<lparr>rp_id = tr_next_recurring_id t, rp_recipient = recipient, rp_amount = amount,
                    rp_asset = a, rp_frequency = frequency, rp_category = c, rp_purpose = purpose,
                    rp_approved_by = by, rp_last_payment = ev_timestamp ev, rp_end_date = end_date,
                    rp_active = True\<rparr>
           in (Ok p, t\<lparr>tr_next_recurring_id := u64_sat_add (tr_next_recurring_id t) 1,
                       tr_recurring := tr_recurring t @ [p]\<rparr>))"

definition put_payment :: "nat \<Rightarrow> RecurringPayment \<Rightarrow> Treasury \<Rightarrow> Treasury" where
  "put_payment i p t = t\<lparr>tr_recurring := (tr_recurring t)[i := p]\<rparr>"

definition process_payment :: "nat \<Rightarrow> nat \<Rightarrow> nat \<Rightarrow> Treasury \<Rightarrow> nat tcall" where
  "process_payment now i n t =
     (let p = tr_recurring t ! i
      in if \<not> rp_active p then (Ok n, t)
         else if (case rp_end_date p of Some e \<Rightarrow> e < now | None \<Rightarrow> False)
         then (Ok n, put_payment i (p\<lparr>rp_active := False\<rparr>) t)
         else if u64_sat_add (rp_last_payment p) (rp_frequency p) \<le> now then
           (case execute_spend (rp_recipient p) (rp_amount p) (rp_asset p) (rp_category p) (rp_purpose p)
                   (rp_approved_by p) now t of
              (Ok _, t) \<Rightarrow>
                (Ok (u32_sat_add n 1),
                 put_payment i (p\<lparr>rp_last_payment := now,
                   rp_active := (case rp_end_date p of Some e \<Rightarrow> now < e | None \<Rightarrow> True)\<rparr>) t)
            | (Err e, t) \<Rightarrow>
                if e \<in> {BudgetExceeded, BudgetNotFound, BudgetPeriodEnded, InsufficientBalance}
                then (Ok n, put_payment i (p\<lparr>rp_active := False\<rparr>) t)
                else (Err e, t)
            | (Panic, t) \<Rightarrow> (Panic, t))
         else (Ok n, t))"

fun process_from :: "nat \<Rightarrow> nat list \<Rightarrow> nat \<Rightarrow> Treasury \<Rightarrow> nat tcall" where
  "process_from now [] n t = (Ok n, t)"
| "process_from now (i # js) n t = and_then (process_payment now i n t) (process_from now js)"

definition process_recurring_payments :: "nat \<Rightarrow> Treasury \<Rightarrow> nat tcall" where
  "process_recurring_payments now t = process_from now [0..<length (tr_recurring t)] 0 t"

section \<open>Rebalancing\<close>

definition total_target_bps :: "Treasury \<Rightarrow> int gres" where
  "total_target_bps t = res_fold (\<lambda>a tot. gadd tot (opt_or 0 (tr_targets t a))) (tr_tracked t) 0"

definition set_rebalance_target :: "asset \<Rightarrow> int \<Rightarrow> Treasury \<Rightarrow> unit tcall" where
  "set_rebalance_target a target_bps t =
     (if \<not> (0 \<le> target_bps \<and> target_bps \<le> BPS_DENOMINATOR) then (Err InvalidTreasuryConfig, t)
      else let t = track_asset a t;
               t = t\<lparr>tr_targets := (tr_targets t)(a \<mapsto> target_bps)\<rparr>
           in and_then (total_target_bps t, t) (\<lambda>tot t.
                if BPS_DENOMINATOR < tot then (Err InvalidTreasuryConfig, t) else (Ok (), t)))"

definition value_usd :: "(asset \<Rightarrow> int option) \<Rightarrow> asset \<Rightarrow> int \<Rightarrow> int gres" where
  "value_usd prices a amount = res_then (ok_or MissingAssetPrice (prices a)) (\<lambda>price. gmul amount price)"

definition add_asset_value :: "(asset \<Rightarrow> int option) \<Rightarrow> Treasury \<Rightarrow> asset \<Rightarrow> int \<Rightarrow> int gres" where
  "add_asset_value prices t a tot =
     (let amount = balance_of t a
      in if 0 < amount then
           res_then (ok_or MissingAssetPrice (prices a)) (\<lambda>price.
             if price < 0 then Err InvalidTreasuryConfig
             else res_then (gmul amount price) (gadd tot))
         else Ok tot)"

definition rebalance_action :: "(asset \<Rightarrow> int option) \<Rightarrow> int \<Rightarrow> Treasury \<Rightarrow> asset \<Rightarrow> RebalanceAction list gres" where
  "rebalance_action prices total_value t a =
     (let amount = balance_of t a; target_bps = opt_or 0 (tr_targets t a)
      in res_then (if 0 < amount then value_usd prices a amount else Ok 0) (\<lambda>current.
         res_then (if 0 < total_value \<and> 0 < target_bps
                   then res_then (gmul total_value target_bps) (\<lambda>x. gdiv x BPS_DENOMINATOR) else Ok 0) (\<lambda>target.
         res_then (gsub target current) (\<lambda>delta.
           Ok (if 0 < current \<or> 0 < target_bps
               then [\<lparr>ra_asset = a, ra_current_value_usd = current, ra_target_value_usd = target,
                      ra_delta_value_usd = delta, ra_target_bps = target_bps\<rparr>] else [])))))"

definition rebalance :: "(asset \<Rightarrow> int option) \<Rightarrow> nat \<Rightarrow> Treasury \<Rightarrow> RebalanceAction list tcall" where
  "rebalance prices now t =
     and_then (total_target_bps t, t) (\<lambda>total_target t.
     if BPS_DENOMINATOR < total_target then (Err InvalidTreasuryConfig, t)
     else and_then (res_fold (add_asset_value prices t) (tr_tracked t) 0, t) (\<lambda>total_value t.
       and_then (res_collect (rebalance_action prices total_value t) (tr_tracked t), t) (\<lambda>actions t.
         (Ok actions, t\<lparr>tr_total_value_usd := total_value, tr_last_rebalance := now\<rparr>))))"

section \<open>Reports\<close>

definition utilization_bps :: "Budget \<Rightarrow> int gres" where
  "utilization_bps b =
     (if bu_allocated b \<le> 0 then Ok 0
      else res_then (gmul (bu_spent b) BPS_DENOMINATOR) (\<lambda>x. gdiv x (bu_allocated b)))"

definition budget_report :: "Treasury \<Rightarrow> string \<Rightarrow> BudgetReport list gres" where
  "budget_report t c =
     (case tr_budgets t c of None \<Rightarrow> Ok []
      | Some b \<Rightarrow> res_then (utilization_bps b) (\<lambda>u.
          Ok [\<lparr>br_category = c, br_allocated = bu_allocated b, br_spent = bu_spent b,
               br_remaining = bu_remaining b, br_spend_limit = bu_spend_limit b, br_utilization_bps = u\<rparr>]))"

definition spend_totals :: "nat \<Rightarrow> TreasurySpend \<Rightarrow> int \<times> int \<Rightarrow> (int \<times> int) gres" where
  "spend_totals since s x =
     (case x of (total_spent, burn) \<Rightarrow>
        res_then (gadd total_spent (ts_amount s)) (\<lambda>total_spent.
          if since \<le> ts_executed_at s then res_then (gadd burn (ts_amount s)) (\<lambda>burn. Ok (total_spent, burn))
          else Ok (total_spent, burn)))"

text \<open>\<open>u32::try_from\<close> refuses what does not fit.\<close>

definition u32_try_from :: "int \<Rightarrow> nat option" where
  "u32_try_from x = (if 0 \<le> x \<and> x \<le> int u32_max then Some (nat x) else None)"

definition build_report :: "env \<Rightarrow> Treasury \<Rightarrow> TreasuryReport gres" where
  "build_report ev t =
     res_then (res_fold (spend_totals (ev_timestamp ev - 30 * 86400)) (tr_history t) (0, 0)) (\<lambda>(total_spent, burn).
     res_then (res_collect (budget_report t) (tr_categories t)) (\<lambda>budgets.
     res_then (if 0 < burn
               then res_then (gdiv (tr_total_value_usd t) burn) (\<lambda>x. ok_or InvalidTreasuryConfig (u32_try_from x))
               else Ok 999) (\<lambda>runway.
       Ok \<lparr>rt_total_assets = length (tr_tracked t), rt_total_value_usd = tr_total_value_usd t,
           rt_active_budgets = length (tr_categories t),
           rt_active_recurring = length (filter rp_active (tr_recurring t)),
           rt_total_spends = length (tr_history t), rt_total_spent = total_spent,
           rt_monthly_burn_rate = burn, rt_runway_months = runway,
           rt_last_rebalance = tr_last_rebalance t, rt_budgets = budgets\<rparr>)))"

text \<open>The diversification report skips assets that are not held or have no positive price.\<close>

definition held_allocation :: "(asset \<Rightarrow> int option) \<Rightarrow> Treasury \<Rightarrow> asset \<Rightarrow> int \<times> AssetAllocation list \<Rightarrow> (int \<times> AssetAllocation list) gres" where
  "held_allocation prices t a x =
     (case x of (tot, als) \<Rightarrow>
        let amount = balance_of t a
        in if amount \<le> 0 then Ok (tot, als)
           else case prices a of
                  Some price \<Rightarrow>
                    if 0 < price then
                      res_then (gmul amount price) (\<lambda>v. res_then (gadd tot v) (\<lambda>tot.
                        Ok (tot, als @ [\<lparr>al_asset = a, al_amount = amount, al_value_usd = v, al_concentration_bps = 0\<rparr>])))
                    else Ok (tot, als)
                | None \<Rightarrow> Ok (tot, als))"

definition concentration :: "int \<Rightarrow> AssetAllocation \<Rightarrow> AssetAllocation gres" where
  "concentration tot al =
     (if 0 < tot then
        res_then (gmul (al_value_usd al) BPS_DENOMINATOR) (\<lambda>x. res_then (gdiv x tot) (\<lambda>bps.
          Ok (al\<lparr>al_concentration_bps := bps\<rparr>)))
      else Ok al)"

definition largest_holding :: "AssetAllocation list \<Rightarrow> int \<times> asset" where
  "largest_holding als =
     fold (\<lambda>al (bps, a). if bps < al_concentration_bps al then (al_concentration_bps al, al_asset al) else (bps, a))
       als (0, \<lparr>as_code = [], as_issuer = None\<rparr>)"

definition get_diversification :: "(asset \<Rightarrow> int option) \<Rightarrow> Treasury \<Rightarrow> TreasuryDiversification gres" where
  "get_diversification prices t =
     res_then (res_fold (held_allocation prices t) (tr_tracked t) (0, [])) (\<lambda>(tot, als).
     res_then (res_collect (\<lambda>al. res_then (concentration tot al) (\<lambda>al. Ok [al])) als) (\<lambda>als.
       Ok \<lparr>dv_allocations = als, dv_largest_holding_bps = fst (largest_holding als),
           dv_largest_asset = snd (largest_holding als), dv_total_value_usd = tot\<rparr>))"

end
