(* ===== verification/GovToken.thy ===== *)
theory GovToken
  imports GovBase StableSort
begin

text \<open>
  The governance token: \<open>governance/src/token.rs\<close>, \<open>distribution.rs\<close>, \<open>proposal_deposit.rs\<close> and the
  balance helpers of \<open>lib.rs\<close>. \<open>gov_books\<close> holds their storage. Rewards, vesting schedules and vote
  locks live in persistent storage, with empty maps of the instance storage as the fallback; an
  absent map is empty here.
\<close>

section \<open>Data\<close>

record TokenMetadata =
  gt_name :: string
  gt_symbol :: string
  gt_decimals :: nat
  gt_total_supply :: int

datatype VestingCategory = Team | EarlyInvestors | CustomVesting

record DistributionRecipients =
  dr_team :: addr
  dr_early_investors :: addr
  dr_community_rewards :: addr
  dr_treasury :: addr
  dr_public_sale :: addr

record DistributionAllocation =
  da_team :: int
  da_early_investors :: int
  da_community_rewards :: int
  da_liquidity_mining :: int
  da_treasury :: int
  da_public_sale :: int

record DistributionState =
  ds_allocation :: DistributionAllocation
  ds_liquidity_reserved :: int
  ds_liquidity_claimed :: int
  ds_liquidity_reward_bps :: nat
  ds_min_claim_threshold :: int

record VestingSchedule =
  vs_beneficiary :: addr
  vs_category :: VestingCategory
  vs_total_amount :: int
  vs_released_amount :: int
  vs_start_time :: nat
  vs_cliff_seconds :: nat
  vs_duration_seconds :: nat

record DepositConfig =
  dc_amount :: int
  dc_min_participation_bps :: nat

record HolderBalance =
  hb_holder :: addr
  hb_balance :: int
  hb_staked :: int
  hb_voting_power :: int
  hb_total :: int

record HolderAnalytics =
  ha_total_holders :: nat
  ha_total_staked :: int
  ha_circulating_supply :: int
  ha_staking_ratio_bps :: int
  ha_concentration_gini_bps :: int
  ha_top_holders :: "HolderBalance list"

record gov_books =
  bk_initialized :: "bool option"
  bk_metadata :: "TokenMetadata option"
  bk_balances :: "(addr, int) smap"
  bk_staked :: "(addr, int) smap"
  bk_rewards :: "(addr, int) smap"
  bk_vesting :: "(addr, VestingSchedule) smap"
  bk_holders :: "addr list"
  bk_distribution :: "DistributionState option"
  bk_vote_locks :: "addr \<Rightarrow> nat"
  bk_deposit_config :: "DepositConfig option"
  bk_deposits :: "(nat, addr) smap"

type_synonym 'a bcall = "(gov_books, 'a) gcall"

definition TEAM_BPS :: int where "TEAM_BPS = 2000"
definition EARLY_INVESTOR_BPS :: int where "EARLY_INVESTOR_BPS = 1500"
definition COMMUNITY_REWARDS_BPS :: int where "COMMUNITY_REWARDS_BPS = 3000"
definition LIQUIDITY_MINING_BPS :: int where "LIQUIDITY_MINING_BPS = 2000"
definition TREASURY_BPS :: int where "TREASURY_BPS = 1000"
definition PUBLIC_SALE_BPS :: int where "PUBLIC_SALE_BPS = 500"
definition YEAR_SECONDS :: nat where "YEAR_SECONDS = 31536000"
definition TEAM_VESTING_DURATION :: nat where "TEAM_VESTING_DURATION = 4 * YEAR_SECONDS"
definition TEAM_CLIFF_DURATION :: nat where "TEAM_CLIFF_DURATION = YEAR_SECONDS"
definition EARLY_INVESTOR_VESTING_DURATION :: nat where "EARLY_INVESTOR_VESTING_DURATION = 2 * YEAR_SECONDS"
definition DEFAULT_DEPOSIT_AMOUNT :: int where "DEFAULT_DEPOSIT_AMOUNT = 1000"
definition DEFAULT_MIN_PARTICIPATION_BPS :: nat where "DEFAULT_MIN_PARTICIPATION_BPS = 500"

lemmas distribution_consts =
  TEAM_BPS_def EARLY_INVESTOR_BPS_def COMMUNITY_REWARDS_BPS_def LIQUIDITY_MINING_BPS_def TREASURY_BPS_def
  PUBLIC_SALE_BPS_def BPS_DENOMINATOR_def

section \<open>Balances\<close>

definition initialized_call :: "(gov_books \<Rightarrow> 'a bcall) \<Rightarrow> gov_books \<Rightarrow> 'a bcall" where
  "initialized_call k b = (if is_initialized (bk_initialized b) then k b else (Err NotInitialized, b))"

definition track_holder :: "addr \<Rightarrow> gov_books \<Rightarrow> gov_books" where
  "track_holder h b = b\<lparr>bk_holders := push_new h (bk_holders b)\<rparr>"

definition get_balance :: "gov_books \<Rightarrow> addr \<Rightarrow> int" where
  "get_balance b h = sget_or 0 (bk_balances b) h"

definition get_staked_balance :: "gov_books \<Rightarrow> addr \<Rightarrow> int" where
  "get_staked_balance b h = sget_or 0 (bk_staked b) h"

definition get_total_supply :: "gov_books \<Rightarrow> int gres" where
  "get_total_supply b = res_then (ok_or NotInitialized (bk_metadata b)) (\<lambda>m. Ok (gt_total_supply m))"

definition get_distribution_state :: "gov_books \<Rightarrow> DistributionState gres" where
  "get_distribution_state b = ok_or NotInitialized (bk_distribution b)"

definition add_balance :: "addr \<Rightarrow> int \<Rightarrow> gov_books \<Rightarrow> unit bcall" where
  "add_balance h x b =
     (if x \<le> 0 then (Err InvalidAmount, b)
      else and_then (gadd (get_balance b h) x, b) (\<lambda>v b.
        (Ok (), track_holder h (b\<lparr>bk_balances := sset h v (bk_balances b)\<rparr>))))"

definition subtract_balance :: "addr \<Rightarrow> int \<Rightarrow> gov_books \<Rightarrow> unit bcall" where
  "subtract_balance h x b =
     (if x \<le> 0 then (Err InvalidAmount, b)
      else if get_balance b h < x then (Err InsufficientBalance, b)
      else and_then (gsub (get_balance b h) x, b) (\<lambda>v b.
        (Ok (), track_holder h (b\<lparr>bk_balances := sset h v (bk_balances b)\<rparr>))))"

definition add_staked_balance :: "addr \<Rightarrow> int \<Rightarrow> gov_books \<Rightarrow> unit bcall" where
  "add_staked_balance h x b =
     (if x \<le> 0 then (Err InvalidAmount, b)
      else and_then (gadd (get_staked_balance b h) x, b) (\<lambda>v b.
        (Ok (), track_holder h (b\<lparr>bk_staked := sset h v (bk_staked b)\<rparr>))))"

definition subtract_staked_balance :: "addr \<Rightarrow> int \<Rightarrow> gov_books \<Rightarrow> unit bcall" where
  "subtract_staked_balance h x b =
     (if x \<le> 0 then (Err InvalidAmount, b)
      else if get_staked_balance b h < x then (Err InsufficientStakedBalance, b)
      else and_then (gsub (get_staked_balance b h) x, b) (\<lambda>v b.
        (Ok (), track_holder h (b\<lparr>bk_staked := sset h v (bk_staked b)\<rparr>))))"

section \<open>Staking and liquidity rewards\<close>

definition stake :: "addr \<Rightarrow> int \<Rightarrow> gov_books \<Rightarrow> unit bcall" where
  "stake user amount = initialized_call (\<lambda>b.
     if amount \<le> 0 then (Err InvalidAmount, b)
     else and_then (subtract_balance user amount b) (\<lambda>_. add_staked_balance user amount))"

definition unstake :: "addr \<Rightarrow> int \<Rightarrow> gov_books \<Rightarrow> unit bcall" where
  "unstake user amount = initialized_call (\<lambda>b.
     if amount \<le> 0 then (Err InvalidAmount, b)
     else if 0 < bk_vote_locks b user then (Err ActiveVoteLock, b)
     else and_then (subtract_staked_balance user amount b) (\<lambda>_. add_balance user amount))"

definition reward_for_volume :: "int \<Rightarrow> gov_books \<Rightarrow> int gres" where
  "reward_for_volume volume b =
     (if volume \<le> 0 then Err InvalidAmount
      else res_then (get_distribution_state b) (\<lambda>d.
           res_then (gmul volume (int (ds_liquidity_reward_bps d))) (\<lambda>x. gdiv x BPS_DENOMINATOR)))"

definition reserve_liquidity_rewards :: "int \<Rightarrow> gov_books \<Rightarrow> unit bcall" where
  "reserve_liquidity_rewards amount b =
     (if amount \<le> 0 then (Err InvalidAmount, b)
      else and_then (get_distribution_state b, b) (\<lambda>d b.
           and_then (gadd (ds_liquidity_claimed d) (ds_liquidity_reserved d), b) (\<lambda>used b.
           and_then (gadd used amount, b) (\<lambda>next_used b.
           if da_liquidity_mining (ds_allocation d) < next_used then (Err LiquidityPoolExhausted, b)
           else and_then (gadd (ds_liquidity_reserved d) amount, b) (\<lambda>r b.
             (Ok (), b\<lparr>bk_distribution := Some (d\<lparr>ds_liquidity_reserved := r\<rparr>)\<rparr>))))))"

definition accrue_liquidity_rewards :: "addr \<Rightarrow> int \<Rightarrow> gov_books \<Rightarrow> int bcall" where
  "accrue_liquidity_rewards h volume = initialized_call (\<lambda>b.
     and_then (reward_for_volume volume b, b) (\<lambda>reward b.
     if reward \<le> 0 then (Err InvalidAmount, b)
     else and_then (reserve_liquidity_rewards reward b) (\<lambda>_ b.
          and_then (gadd (sget_or 0 (bk_rewards b) h) reward, b) (\<lambda>v b.
            (Ok reward, track_holder h (b\<lparr>bk_rewards := sset h v (bk_rewards b)\<rparr>))))))"

definition claim_reserved_liquidity_rewards :: "int \<Rightarrow> gov_books \<Rightarrow> unit bcall" where
  "claim_reserved_liquidity_rewards amount b =
     and_then (get_distribution_state b, b) (\<lambda>d b.
     and_then (gsub (ds_liquidity_reserved d) amount, b) (\<lambda>r b.
     and_then (gadd (ds_liquidity_claimed d) amount, b) (\<lambda>c b.
       (Ok (), b\<lparr>bk_distribution := Some (d\<lparr>ds_liquidity_reserved := r, ds_liquidity_claimed := c\<rparr>)\<rparr>))))"

definition claim_liquidity_rewards :: "addr \<Rightarrow> gov_books \<Rightarrow> int bcall" where
  "claim_liquidity_rewards h = initialized_call (\<lambda>b.
     let pending = sget_or 0 (bk_rewards b) h
     in and_then (get_distribution_state b, b) (\<lambda>d b.
        if pending \<le> 0 then (Err NothingToRelease, b)
        else if pending < ds_min_claim_threshold d then (Err BelowMinimumClaim, b)
        else let b = b\<lparr>bk_rewards := sset h 0 (bk_rewards b)\<rparr>
             in and_then (claim_reserved_liquidity_rewards pending b) (\<lambda>_ b.
                and_then (add_balance h pending b) (\<lambda>_ b. (Ok pending, b)))))"

definition set_vote_lock :: "addr \<Rightarrow> nat \<Rightarrow> gov_books \<Rightarrow> unit bcall" where
  "set_vote_lock h n = initialized_call (\<lambda>b.
     (Ok (), track_holder h (b\<lparr>bk_vote_locks := (bk_vote_locks b)(h := n)\<rparr>)))"

definition update_reward_config :: "nat \<Rightarrow> int \<Rightarrow> gov_books \<Rightarrow> DistributionState bcall" where
  "update_reward_config reward_bps min_claim b =
     (if reward_bps = 0 \<or> min_claim \<le> 0 then (Err InvalidRewardConfig, b)
      else and_then (get_distribution_state b, b) (\<lambda>d b.
        let d = d\<lparr>ds_liquidity_reward_bps := reward_bps, ds_min_claim_threshold := min_claim\<rparr>
        in (Ok d, b\<lparr>bk_distribution := Some d\<rparr>)))"

section \<open>Distribution and vesting\<close>

definition share_of_supply :: "int \<Rightarrow> int \<Rightarrow> int gres" where
  "share_of_supply supply bps = res_then (gmul supply bps) (\<lambda>x. gdiv x BPS_DENOMINATOR)"

definition create_allocation :: "int \<Rightarrow> DistributionAllocation gres" where
  "create_allocation supply =
     res_then (share_of_supply supply TEAM_BPS) (\<lambda>team.
     res_then (share_of_supply supply EARLY_INVESTOR_BPS) (\<lambda>early.
     res_then (share_of_supply supply COMMUNITY_REWARDS_BPS) (\<lambda>community.
     res_then (share_of_supply supply LIQUIDITY_MINING_BPS) (\<lambda>mining.
     res_then (share_of_supply supply TREASURY_BPS) (\<lambda>treasury.
     res_then (share_of_supply supply PUBLIC_SALE_BPS) (\<lambda>sale.
     res_then (gadd team early) (\<lambda>a.
     res_then (gadd community mining) (\<lambda>c.
     res_then (gadd treasury sale) (\<lambda>e.
     res_then (gadd c e) (\<lambda>ce.
     res_then (gadd a ce) (\<lambda>tot.
       if tot \<noteq> supply then Err InvalidSupply
       else Ok \<lparr>da_team = team, da_early_investors = early, da_community_rewards = community,
                da_liquidity_mining = mining, da_treasury = treasury, da_public_sale = sale\<rparr>)))))))))))"

definition put_schedule :: "addr \<Rightarrow> VestingCategory \<Rightarrow> int \<Rightarrow> nat \<Rightarrow> nat \<Rightarrow> nat \<Rightarrow> gov_books \<Rightarrow> unit bcall" where
  "put_schedule h cat amount start cliff duration b =
     (if amount \<le> 0 then (Err InvalidAmount, b)
      else if duration = 0 \<or> duration < cliff then (Err InvalidDuration, b)
      else if sget (bk_vesting b) h \<noteq> None then (Err DuplicateSchedule, b)
      else (Ok (), b\<lparr>bk_vesting := sset h \<lparr>vs_beneficiary = h, vs_category = cat, vs_total_amount = amount,
              vs_released_amount = 0, vs_start_time = start, vs_cliff_seconds = cliff,
              vs_duration_seconds = duration\<rparr> (bk_vesting b)\<rparr>))"

definition unique_recipients :: "DistributionRecipients \<Rightarrow> bool" where
  "unique_recipients r \<longleftrightarrow>
     distinct [dr_team r, dr_early_investors r, dr_community_rewards r, dr_treasury r, dr_public_sale r]"

definition initialize_distribution :: "env \<Rightarrow> DistributionRecipients \<Rightarrow> int \<Rightarrow> nat \<Rightarrow> int \<Rightarrow> gov_books \<Rightarrow> DistributionState bcall" where
  "initialize_distribution ev r supply reward_bps min_claim b =
     (if reward_bps = 0 \<or> min_claim \<le> 0 then (Err InvalidRewardConfig, b)
      else if \<not> unique_recipients r then (Err DuplicateRecipient, b)
      else and_then (create_allocation supply, b) (\<lambda>al b.
           and_then (add_balance (dr_community_rewards r) (da_community_rewards al) b) (\<lambda>_ b.
           and_then (add_balance (dr_treasury r) (da_treasury al) b) (\<lambda>_ b.
           and_then (add_balance (dr_public_sale r) (da_public_sale al) b) (\<lambda>_ b.
           and_then (put_schedule (dr_team r) Team (da_team al) (ev_timestamp ev) TEAM_CLIFF_DURATION TEAM_VESTING_DURATION b) (\<lambda>_ b.
           and_then (put_schedule (dr_early_investors r) EarlyInvestors (da_early_investors al) (ev_timestamp ev) 0
                       EARLY_INVESTOR_VESTING_DURATION b) (\<lambda>_ b.
             let d = \<lparr>ds_allocation = al, ds_liquidity_reserved = 0, ds_liquidity_claimed = 0,
                      ds_liquidity_reward_bps = reward_bps, ds_min_claim_threshold = min_claim\<rparr>
             in (Ok d, b\<lparr>bk_distribution := Some d\<rparr>))))))))"

text \<open>The amount vested at a time, before what was released is taken off.\<close>

definition vested_at :: "nat \<Rightarrow> VestingSchedule \<Rightarrow> int gres" where
  "vested_at now v =
     (let cliff_time = u64_sat_add (vs_start_time v) (vs_cliff_seconds v)
      in if u64_sat_add (vs_start_time v) (vs_duration_seconds v) \<le> now \<or> vs_duration_seconds v = vs_cliff_seconds v
         then Ok (vs_total_amount v)
         else if vs_duration_seconds v < vs_cliff_seconds v then Panic
         else res_then (gmul (vs_total_amount v) (int (now - cliff_time)))
                (\<lambda>x. gdiv x (int (vs_duration_seconds v - vs_cliff_seconds v))))"

definition releasable_of :: "nat \<Rightarrow> VestingSchedule \<Rightarrow> int gres" where
  "releasable_of now v =
     (if now < u64_sat_add (vs_start_time v) (vs_cliff_seconds v) then Ok 0
      else res_then (vested_at now v) (\<lambda>vested. gsub vested (vs_released_amount v)))"

definition releasable_amount :: "env \<Rightarrow> addr \<Rightarrow> gov_books \<Rightarrow> int gres" where
  "releasable_amount ev h b = res_then (ok_or VestingScheduleNotFound (sget (bk_vesting b) h)) (releasable_of (ev_timestamp ev))"

definition release_vested_tokens :: "env \<Rightarrow> addr \<Rightarrow> gov_books \<Rightarrow> int bcall" where
  "release_vested_tokens ev h b =
     and_then (ok_or VestingScheduleNotFound (sget (bk_vesting b) h), b) (\<lambda>v b.
     if ev_timestamp ev < u64_sat_add (vs_start_time v) (vs_cliff_seconds v) then (Err CliffNotReached, b)
     else and_then (releasable_amount ev h b, b) (\<lambda>releasable b.
          if releasable \<le> 0 then (Err NothingToRelease, b)
          else and_then (gadd (vs_released_amount v) releasable, b) (\<lambda>released b.
               let b = b\<lparr>bk_vesting := sset h (v\<lparr>vs_released_amount := released\<rparr>) (bk_vesting b)\<rparr>
               in and_then (add_balance h releasable b) (\<lambda>_ b. (Ok releasable, b)))))"

definition add_locked_vesting :: "gov_books \<Rightarrow> addr \<Rightarrow> int \<Rightarrow> int gres" where
  "add_locked_vesting b h tot =
     (case sget (bk_vesting b) h of None \<Rightarrow> Ok tot
      | Some v \<Rightarrow> res_then (gsub (vs_total_amount v) (vs_released_amount v)) (gadd tot))"

definition circulating_supply :: "gov_books \<Rightarrow> int gres" where
  "circulating_supply b =
     res_then (res_fold (add_locked_vesting b) (bk_holders b) 0) (\<lambda>locked.
     res_then (get_distribution_state b) (\<lambda>d.
     res_then (gsub (da_liquidity_mining (ds_allocation d)) (ds_liquidity_claimed d)) (\<lambda>unclaimed.
     res_then (get_total_supply b) (\<lambda>supply.
     res_then (gsub supply locked) (\<lambda>x. gsub x unclaimed)))))"

section \<open>Proposal deposits\<close>

definition get_deposit_config :: "gov_books \<Rightarrow> DepositConfig" where
  "get_deposit_config b =
     opt_or \<lparr>dc_amount = DEFAULT_DEPOSIT_AMOUNT, dc_min_participation_bps = DEFAULT_MIN_PARTICIPATION_BPS\<rparr> (bk_deposit_config b)"

definition put_deposit_config :: "DepositConfig \<Rightarrow> gov_books \<Rightarrow> unit bcall" where
  "put_deposit_config c b =
     (if dc_amount c \<le> 0 \<or> 10000 < dc_min_participation_bps c then (Err InvalidGovernanceConfig, b)
      else (Ok (), b\<lparr>bk_deposit_config := Some c\<rparr>))"

definition lock_proposal_deposit :: "nat \<Rightarrow> addr \<Rightarrow> gov_books \<Rightarrow> unit bcall" where
  "lock_proposal_deposit pid proposer b =
     (let amount = dc_amount (get_deposit_config b)
      in if amount = 0 then (Ok (), b)
         else and_then (subtract_balance proposer amount b) (\<lambda>_ b.
                (Ok (), b\<lparr>bk_deposits := sset pid proposer (bk_deposits b)\<rparr>)))"

text \<open>Saturating operations on \<open>i128\<close>; \<open>saturating_div\<close> saturates only for the smallest value by -1.\<close>

definition saturating_mul :: "int \<Rightarrow> int \<Rightarrow> int" where
  "saturating_mul a b = sat_i128 (a * b)"

definition settle_proposal_deposit :: "nat \<Rightarrow> int \<Rightarrow> int \<Rightarrow> addr \<Rightarrow> gov_books \<Rightarrow> unit bcall" where
  "settle_proposal_deposit pid total_votes supply treasury b =
     (case sget (bk_deposits b) pid of
        None \<Rightarrow> (Ok (), b)
      | Some proposer \<Rightarrow>
          let c = get_deposit_config b;
              threshold_met = (0 < supply \<and>
                int (dc_min_participation_bps c) \<le> sat_i128 (tdiv (saturating_mul total_votes 10000) supply))
          in and_then (add_balance (if threshold_met then proposer else treasury) (dc_amount c) b) (\<lambda>_ b.
               (Ok (), b\<lparr>bk_deposits := sdel pid (bk_deposits b)\<rparr>)))"

section \<open>Analytics\<close>

definition holder_position :: "gov_books \<Rightarrow> addr \<Rightarrow> (int \<times> int \<times> HolderBalance list) \<Rightarrow> (int \<times> int \<times> HolderBalance list) gres" where
  "holder_position b h x =
     (case x of (staked_sum, supply_sum, ps) \<Rightarrow>
        let balance = get_balance b h; staked = get_staked_balance b h
        in res_then (gadd balance staked) (\<lambda>tot.
           if 0 < tot then
             res_then (gadd staked_sum staked) (\<lambda>staked_sum. res_then (gadd supply_sum tot) (\<lambda>supply_sum.
               Ok (staked_sum, supply_sum, ps @ [\<lparr>hb_holder = h, hb_balance = balance, hb_staked = staked,
                 hb_voting_power = staked, hb_total = tot\<rparr>])))
           else Ok (staked_sum, supply_sum, ps)))"

definition sort_holders_desc :: "HolderBalance list \<Rightarrow> HolderBalance list" where
  "sort_holders_desc ps = bubble_passes (\<lambda>p. - hb_total p) (length ps) ps"

definition sort_i128_asc :: "int list \<Rightarrow> int list" where
  "sort_i128_asc xs = bubble_passes (\<lambda>x. x) (length xs) xs"

definition weigh_balance :: "nat \<times> int \<Rightarrow> int \<Rightarrow> int gres" where
  "weigh_balance = (\<lambda>(i, x) tot. res_then (gmul (int i + 1) x) (gadd tot))"

definition gini_bps :: "HolderBalance list \<Rightarrow> int \<Rightarrow> int gres" where
  "gini_bps ps supply =
     (if length ps \<le> 1 \<or> supply \<le> 0 then Ok 0
      else let xs = sort_i128_asc (map hb_total ps); n = int (length xs)
           in res_then (res_fold weigh_balance (enumerate 0 xs) 0) (\<lambda>weighted.
              res_then (gmul 2 weighted) (\<lambda>a.
              res_then (gmul (n + 1) supply) (\<lambda>c.
              res_then (gsub a c) (\<lambda>diff.
              res_then (gmul diff BPS_DENOMINATOR) (\<lambda>numerator.
              res_then (gmul n supply) (\<lambda>denominator.
                if denominator \<le> 0 then Ok 0
                else res_then (gdiv numerator denominator) (\<lambda>v. Ok (if v < 0 then 0 else v)))))))))"

definition analytics :: "nat \<Rightarrow> gov_books \<Rightarrow> HolderAnalytics gres" where
  "analytics top_n b =
     (if \<not> is_initialized (bk_initialized b) then Err NotInitialized
      else res_then (res_fold (holder_position b) (bk_holders b) (0, 0, [])) (\<lambda>(staked_sum, supply_sum, ps).
           let ps = sort_holders_desc ps
           in res_then (circulating_supply b) (\<lambda>circulating.
              res_then (if circulating \<le> 0 then Ok 0
                        else res_then (gmul staked_sum BPS_DENOMINATOR) (\<lambda>x. gdiv x circulating)) (\<lambda>ratio.
              res_then (gini_bps ps supply_sum) (\<lambda>gini.
                Ok \<lparr>ha_total_holders = length ps, ha_total_staked = staked_sum, ha_circulating_supply = circulating,
                    ha_staking_ratio_bps = ratio, ha_concentration_gini_bps = gini,
                    ha_top_holders = take (min top_n (length ps)) ps\<rparr>)))))"

end
