(* ===== verification/Capabilities.thy ===== *)
theory Capabilities
  imports Prelude
begin

text \<open>
  Roles (\<open>shared/src/access_control.rs\<close>) and capabilities (\<open>shared/src/capabilities.rs\<close>). Granting and
  revoking compute whether the caller may do so and then ignore the answer, as the source does: it
  drops the result of \<open>require_capability\<close>.
\<close>

section \<open>Roles\<close>

datatype Role = RoleNone | Viewer | Moderator | RoleAdmin

fun role_rank :: "Role \<Rightarrow> nat" where
  "role_rank RoleNone = 0"
| "role_rank Viewer = 1"
| "role_rank Moderator = 2"
| "role_rank RoleAdmin = 3"

lemma role_rank_inj: "role_rank r = role_rank r' \<longleftrightarrow> r = r'"
  by (cases r; cases r') simp_all

instantiation Role :: linorder
begin

definition less_eq_Role :: "Role \<Rightarrow> Role \<Rightarrow> bool" where
  "less_eq_Role r r' \<longleftrightarrow> role_rank r \<le> role_rank r'"

definition less_Role :: "Role \<Rightarrow> Role \<Rightarrow> bool" where
  "less_Role r r' \<longleftrightarrow> role_rank r < role_rank r'"

instance
  by standard (auto simp: less_eq_Role_def less_Role_def role_rank_inj)

end

datatype RoleError = InsufficientRole

datatype Capability = CapPause | CapUpgrade | CapTreasury | CapParameterChange | CapEmergency | CapSuperAdmin

datatype CapabilityError = InsufficientCapability

record authority =
  au_roles :: "addr \<Rightarrow> Role option"
  au_grants :: "Capability \<Rightarrow> addr \<Rightarrow> bool option"

definition get_role :: "addr \<Rightarrow> authority \<Rightarrow> Role" where
  "get_role a s = opt_or RoleNone (au_roles s a)"

definition set_role :: "addr \<Rightarrow> Role \<Rightarrow> authority \<Rightarrow> authority" where
  "set_role a r s = s\<lparr>au_roles := (au_roles s)(a \<mapsto> r)\<rparr>"

definition require_role :: "addr \<Rightarrow> Role \<Rightarrow> authority \<Rightarrow> (RoleError, unit) res" where
  "require_role a min_role s = (if get_role a s < min_role then Err InsufficientRole else Ok ())"

section \<open>Capabilities\<close>

definition has_capability :: "addr \<Rightarrow> Capability \<Rightarrow> authority \<Rightarrow> bool" where
  "has_capability a c s \<longleftrightarrow>
     opt_or False (au_grants s CapSuperAdmin a) \<or>
     (c \<noteq> CapSuperAdmin \<and> get_role a s = RoleAdmin) \<or>
     opt_or False (au_grants s c a)"

definition require_capability :: "addr \<Rightarrow> Capability \<Rightarrow> authority \<Rightarrow> (CapabilityError, unit) res" where
  "require_capability a c s = (if has_capability a c s then Ok () else Err InsufficientCapability)"

definition set_grant :: "Capability \<Rightarrow> addr \<Rightarrow> bool option \<Rightarrow> authority \<Rightarrow> authority" where
  "set_grant c a x s = s\<lparr>au_grants := (au_grants s)(c := (au_grants s c)(a := x))\<rparr>"

definition grant_capability :: "addr \<Rightarrow> addr \<Rightarrow> Capability \<Rightarrow> authority \<Rightarrow> authority" where
  "grant_capability caller a c s =
     (let _ = require_capability caller CapSuperAdmin s in set_grant c a (Some True) s)"

definition revoke_capability :: "addr \<Rightarrow> addr \<Rightarrow> Capability \<Rightarrow> authority \<Rightarrow> authority" where
  "revoke_capability caller a c s =
     (let _ = require_capability caller CapSuperAdmin s in set_grant c a None s)"

definition all_capabilities :: "Capability list" where
  "all_capabilities = [CapPause, CapUpgrade, CapTreasury, CapParameterChange, CapEmergency, CapSuperAdmin]"

definition list_capabilities :: "addr \<Rightarrow> authority \<Rightarrow> Capability list" where
  "list_capabilities a s = filter (\<lambda>c. has_capability a c s) all_capabilities"

section \<open>Laws\<close>

lemma get_role_set [simp]: "get_role a (set_role b r s) = (if a = b then r else get_role a s)"
  by (simp add: get_role_def set_role_def)

lemma set_role_grants [simp]: "au_grants (set_role a r s) = au_grants s"
  by (simp add: set_role_def)

lemma set_grant_roles [simp]: "get_role b (set_grant c a x s) = get_role b s"
  by (simp add: get_role_def set_grant_def)

lemma require_role_mono: "require_role a r s = Ok u \<Longrightarrow> r' \<le> r \<Longrightarrow> require_role a r' s = Ok ()"
  by (auto simp: require_role_def not_less split: if_splits)

lemma has_capability_granted: "has_capability a c (grant_capability caller a c s)"
  by (simp add: has_capability_def grant_capability_def set_grant_def)

lemma super_admin_has_all: "au_grants s CapSuperAdmin a = Some True \<Longrightarrow> has_capability a c s"
  by (simp add: has_capability_def)

lemma grant_frame: "b \<noteq> a \<Longrightarrow> has_capability b d (grant_capability caller a c s) = has_capability b d s"
  by (simp add: has_capability_def grant_capability_def set_grant_def get_role_def)

lemma all_capabilities_complete: "c \<in> set all_capabilities"
  by (cases c) (simp_all add: all_capabilities_def)

end
