(* ===== verification/CommitteeTypes.thy ===== *)
theory CommitteeTypes
  imports GovTreasury
begin

text \<open>
  The data of two governance modules: committees with their decisions and elections
  (\<open>governance/src/committees.rs\<close>) and conviction voting (\<open>conviction_voting.rs\<close>). Constructors
  that other enumerations use too have a prefix. A map that is only looked up is a function, a map
  whose keys or length are used is a sorted association list.
\<close>

section \<open>Committees\<close>

datatype Authority =
    AuthTreasurySpend int string
  | AuthParameterAdjustment "string list" nat
  | AuthGrantApproval int
  | AuthEmergencyAction "string list"
  | AuthVeto "string list"

record SpendAction =
  sa_recipient :: addr
  sa_amount :: int
  sa_asset :: asset
  sa_category :: string
  sa_purpose :: string

datatype CommitteeAction =
    ActionTreasurySpend SpendAction
  | ActionRewardConfigUpdate nat int
  | ActionGrantApproval SpendAction
  | ActionEmergency string string
  | ActionVeto string string

datatype DecisionStatus = DecVoting | DecApproved | DecRejected | DecExecuted | DecOverridden

datatype CommitteeVote = ComFor | ComAgainst | ComAbstain

record CommitteeDecision =
  cd_decision_id :: nat
  cd_proposal :: string
  cd_votes_for :: nat
  cd_votes_against :: nat
  cd_votes_abstain :: nat
  cd_status :: DecisionStatus
  cd_executed_at :: "nat option"
  cd_proposed_at :: nat
  cd_action :: CommitteeAction
  cd_votes :: "(addr, CommitteeVote) smap"

record PerformanceMetrics =
  pm_total_decisions :: nat
  pm_decisions_executed :: nat
  pm_avg_decision_time :: nat
  pm_community_approval_rating :: nat
  pm_overridden_decisions :: nat

record Committee =
  co_id :: nat
  co_name :: string
  co_description :: string
  co_members :: "addr list"
  co_chair :: addr
  co_max_members :: nat
  co_delegated_authorities :: "Authority list"
  co_formation_date :: nat
  co_term_end :: "nat option"
  co_decisions :: "CommitteeDecision list"
  co_performance_metrics :: PerformanceMetrics
  co_active :: bool
  co_dissolved_at :: "nat option"

record CommitteeElection =
  el_committee_id :: nat
  el_candidates :: "addr list"
  el_votes :: "(addr, addr) smap"
  el_election_start :: nat
  el_election_end :: nat
  el_positions_available :: nat
  el_min_participation :: nat
  el_quorum_stake_threshold :: int

datatype ElectionStatus =
    ElectionSucceeded
  | FailedQuorumParticipation
  | FailedQuorumStake
  | FailedInsufficientWinners
  | ElectionPending

record ElectionResult =
  er_status :: ElectionStatus
  er_winners :: "addr list"
  er_valid_votes :: nat
  er_total_stake_weight :: int
  er_rejected_votes :: nat

record CommitteeReport =
  cr_committee_id :: nat
  cr_name :: string
  cr_members_count :: nat
  cr_days_active :: nat
  cr_total_decisions :: nat
  cr_decisions_per_month :: nat
  cr_execution_rate :: nat
  cr_avg_decision_time :: nat
  cr_community_approval :: nat
  cr_overridden_count :: nat
  cr_active :: bool

datatype CrossCommitteeStatus = CrossPending | CrossApproved

record CrossCommitteeRequest =
  xr_id :: nat
  xr_requesting_committee :: nat
  xr_approving_committees :: "nat list"
  xr_proposal :: string
  xr_approvals :: "(nat, nat) smap"
  xr_status :: CrossCommitteeStatus

record CommitteesState =
  cs_committees :: "nat \<Rightarrow> Committee option"
  cs_committee_ids :: "nat list"
  cs_elections :: "nat \<Rightarrow> CommitteeElection option"
  cs_cross_committee_requests :: "nat \<Rightarrow> CrossCommitteeRequest option"
  cs_next_committee_id :: nat
  cs_next_decision_id :: nat
  cs_next_cross_req_id :: nat

definition empty_committees_state :: CommitteesState where
  "empty_committees_state =
     \<lparr>cs_committees = (\<lambda>_. None), cs_committee_ids = [], cs_elections = (\<lambda>_. None),
      cs_cross_committee_requests = (\<lambda>_. None), cs_next_committee_id = 1, cs_next_decision_id = 1, cs_next_cross_req_id = 1\<rparr>"

section \<open>Conviction voting\<close>

datatype ConvictionStatus = ConvActive | ConvFunded | ConvCancelled | ConvExpired

record ConvictionCalibration =
  cc_penalty_threshold_days :: nat
  cc_penalty_multiplier :: nat
  cc_reward_bonus_pct :: nat
  cc_max_conviction_cap :: int
  cc_decay_rate_bps :: nat

record ConvictionVote =
  cv_voter :: addr
  cv_tokens_committed :: int
  cv_vote_started :: nat
  cv_last_conviction_update :: nat
  cv_current_conviction :: int

record ConvictionProposal =
  cp_id :: nat
  cp_proposer :: addr
  cp_title :: string
  cp_requested_amount :: int
  cp_beneficiary :: addr
  cp_conviction_accumulated :: int
  cp_conviction_threshold :: int
  cp_status :: ConvictionStatus
  cp_votes :: "addr \<Rightarrow> ConvictionVote option"
  cp_voters :: "addr list"
  cp_funding_granted :: int

record ConvictionVotingPool =
  po_pool_id :: nat
  po_funding_amount :: int
  po_refill_rate :: int
  po_refill_period :: nat
  po_proposals :: "nat \<Rightarrow> ConvictionProposal option"
  po_proposal_ids :: "nat list"
  po_total_conviction :: int
  po_last_refill :: nat

record ConvictionState =
  cst_pools :: "nat \<Rightarrow> ConvictionVotingPool option"
  cst_pool_ids :: "nat list"
  cst_next_pool_id :: nat
  cst_next_proposal_id :: nat

record ConvictionAnalytics =
  cn_proposal_id :: nat
  cn_total_voters :: nat
  cn_total_tokens_committed :: int
  cn_current_conviction :: int
  cn_conviction_threshold :: int
  cn_progress_pct :: nat
  cn_avg_vote_age_days :: nat
  cn_estimated_funding_time :: "nat option"

definition empty_conviction_state :: ConvictionState where
  "empty_conviction_state = \<lparr>cst_pools = (\<lambda>_. None), cst_pool_ids = [], cst_next_pool_id = 1, cst_next_proposal_id = 1\<rparr>"

end
