(* ===== verification/GovTypes.thy ===== *)
theory GovTypes
  imports GovTreasury GovToken Capabilities CommitteeTypes
begin

text \<open>
  The data of the governance modules: proposals and delegations (\<open>governance/src/proposals.rs\<close>),
  reputation (\<open>reputation.rs\<close>), timelock (\<open>timelock.rs\<close>), spend window (\<open>spend_window.rs\<close>) and shadow
  mode (\<open>shadow_mode.rs\<close>), with one record field per field of the source. A constructor whose name
  another enumeration uses too has a prefix.
\<close>

type_synonym bytes = "nat list"

section \<open>Proposals\<close>

datatype ProposalCategory = CatParameterChange | CatContractUpgrade | CatTreasuryTransfer | CatGeneral

record CategoryThreshold =
  ct_quorum_bps :: nat
  ct_supermajority_bps :: nat

datatype ProposalType =
    ParameterChange string int int
  | TreasurySpending addr int asset string
  | FeatureToggle string bool
  | ContractUpgrade string bytes
  | SignalProposal string
  | Custom addr

datatype ProposalStatus = Pending | Active | Succeeded | Failed | Executed | Cancelled | Expired | Withdrawn

datatype VoteType = For | Against | Abstain

record Vote =
  vo_voter :: addr
  vo_vote_type :: VoteType
  vo_voting_power :: int
  vo_timestamp :: nat

record Proposal =
  pr_id :: nat
  pr_proposer :: addr
  pr_proposal_type :: ProposalType
  pr_title :: string
  pr_description :: string
  pr_execution_payload :: bytes
  pr_voting_starts :: nat
  pr_voting_ends :: nat
  pr_votes_for :: int
  pr_votes_against :: int
  pr_votes_abstain :: int
  pr_status :: ProposalStatus
  pr_voters :: "(addr, Vote) smap"
  pr_voter_list :: "addr list"
  pr_executed_at :: "nat option"
  pr_discussion_ends_at :: nat
  pr_category :: ProposalCategory
  pr_use_quadratic_voting :: bool
  pr_quadratic_total_supply :: int
  pr_execution_deadline :: nat

record GovernanceConfig =
  gc_min_proposal_threshold :: int
  gc_voting_period :: nat
  gc_voting_delay :: nat
  gc_quorum_threshold :: nat
  gc_approval_threshold :: nat
  gc_execution_delay :: nat
  gc_discussion_duration :: nat

record ProposalStatistics =
  st_total_proposals :: nat
  st_active_proposals :: nat
  st_succeeded_proposals :: nat
  st_failed_proposals :: nat
  st_executed_proposals :: nat
  st_avg_participation_rate :: nat
  st_avg_approval_rate :: nat

record VoteDelegation =
  vd_delegator :: addr
  vd_delegate :: addr
  vd_delegated_power :: int
  vd_active :: bool

record ExecutionSimulationResult =
  es_proposal_id :: nat
  es_simulation_timestamp :: nat
  es_would_succeed :: bool
  es_old_value :: int
  es_new_value :: int

section \<open>Timelock, spend window, shadow mode\<close>

datatype ActionType = ActTreasurySpend | ActParameterChange | ActContractUpgrade | ActEmergencyPause | ActCustom

record QueuedAction =
  qa_id :: nat
  qa_action_type :: ActionType
  qa_proposal_id :: nat
  qa_execution_payload :: bytes
  qa_queued_at :: nat
  qa_execution_available :: nat
  qa_executed :: bool
  qa_cancelled :: bool

record Timelock =
  tl_queued_actions :: "QueuedAction list"
  tl_delay_config :: "ActionType \<Rightarrow> nat option"
  tl_min_delay :: nat
  tl_max_delay :: nat
  tl_guardian :: addr
  tl_next_action_id :: nat

record TimelockAnalytics =
  ta_total_queued :: nat
  ta_total_executed :: nat
  ta_total_cancelled :: nat
  ta_avg_wait_time :: nat
  ta_actions_by_type :: "ActionType \<Rightarrow> nat option"
  ta_cancellation_rate :: nat

record AdminTimelockEntry =
  ae_id :: nat
  ae_action_type :: symbol
  ae_caller :: addr
  ae_queued_at :: nat
  ae_execution_available :: nat
  ae_executed :: bool
  ae_cancelled :: bool

record SpendWindowConfig =
  sw_window_secs :: nat
  sw_cap :: int
  sw_anchor :: nat

record SpendWindowState =
  ss_window_start :: nat
  ss_spent :: int

record ShadowModeState =
  sm_trial_ends_at :: nat
  sm_new_wasm_hash :: bytes
  sm_promoted :: bool

section \<open>Reputation\<close>

datatype ReputationTier = Bronze | Silver | Gold | Platinum

datatype StalenessLevel = AutoLevel | ActiveLevel | Aging | Stale | Critical

record ReputationConfig =
  rc_decay_enabled :: bool
  rc_stale_penalty_enabled :: bool
  rc_default_tier :: ReputationTier

record ParticipationHistory =
  ph_proposals_created :: nat
  ph_proposals_succeeded :: nat
  ph_votes_cast :: nat
  ph_votes_aligned :: nat
  ph_committee_memberships :: nat
  ph_committee_decisions_approved :: nat
  ph_delegations_received :: nat
  ph_total_tokens_delegated :: int

datatype Badge =
    ActiveVoter nat
  | ProposalAuthor nat
  | CommitteeMember string
  | EarlyAdopter
  | TopDelegator
  | ConsistentParticipant nat

record GovernanceReputation =
  gr_user :: addr
  gr_reputation_score :: nat
  gr_history :: ParticipationHistory
  gr_badges :: "Badge list"
  gr_last_activity :: nat
  gr_decay_rate :: nat
  gr_tier :: ReputationTier
  gr_grace_override :: nat
  gr_staleness_override :: StalenessLevel

record ReputationState =
  rs_reputations :: "addr \<Rightarrow> GovernanceReputation option"
  rs_users :: "addr list"

section \<open>The storage of the contract\<close>

text \<open>
  One field per storage key of the modelled modules. The token module keeps its keys in \<open>gov_books\<close>,
  the initialisation flag and the metadata among them; \<open>g_snapshots\<close> is the family of keys
  \<open>VoteSnapshots(id)\<close>, \<open>g_expiry\<close> the family \<open>Expiry(delegator)\<close>.
\<close>

record gov =
  g_admin :: "addr option"
  g_pending_admin :: "addr option"
  g_guardian :: "addr option"
  g_pause :: pausable
  g_pause_targets :: "addr list"
  g_authority :: authority
  g_enforce_timelock :: "bool option"
  g_books :: gov_books
  g_treasury_state :: Treasury
  g_treasury_address :: "addr option"
  g_config :: "GovernanceConfig option"
  g_thresholds :: "ProposalCategory \<Rightarrow> CategoryThreshold option"
  g_proposals :: "(nat, Proposal) smap"
  g_proposal_ids :: "nat list"
  g_next_proposal_id :: nat
  g_snapshots :: "nat \<Rightarrow> (addr, int) smap"
  g_delegations :: "addr \<Rightarrow> VoteDelegation option"
  g_delegators :: "addr list"
  g_expiry :: "addr \<Rightarrow> nat option"
  g_timelock :: "Timelock option"
  g_admin_pending :: "AdminTimelockEntry list"
  g_window_config :: "SpendWindowConfig option"
  g_window_state :: "SpendWindowState option"
  g_parameters :: "string \<Rightarrow> int option"
  g_features :: "string \<Rightarrow> bool option"
  g_upgrades :: "string \<Rightarrow> bytes option"
  g_reputation :: ReputationState
  g_reputation_config :: "ReputationConfig option"
  g_vote_records :: "addr \<Rightarrow> nat \<Rightarrow> VoteType option"
  g_shadow :: "ShadowModeState option"
  g_storage_version :: "nat option"
  g_migrating :: "bool option"
  g_committees :: CommitteesState
  g_conviction :: ConvictionState
  g_calibration :: "ConvictionCalibration option"

type_synonym 'a ggcall = "(gov, 'a) gcall"

text \<open>A call of the token module or of the treasury module on its part of the storage.\<close>

definition on_books :: "'a bcall \<Rightarrow> gov \<Rightarrow> 'a ggcall" where
  "on_books m g = (fst m, g\<lparr>g_books := snd m\<rparr>)"

definition on_treasury :: "'a tcall \<Rightarrow> gov \<Rightarrow> 'a ggcall" where
  "on_treasury m g = (fst m, g\<lparr>g_treasury_state := snd m\<rparr>)"

lemma on_books_Ok: "on_books m g = (Ok v, g') \<longleftrightarrow> (\<exists>b. m = (Ok v, b) \<and> g' = g\<lparr>g_books := b\<rparr>)"
  by (cases m) (auto simp: on_books_def)

lemma on_treasury_Ok: "on_treasury m g = (Ok v, g') \<longleftrightarrow> (\<exists>t. m = (Ok v, t) \<and> g' = g\<lparr>g_treasury_state := t\<rparr>)"
  by (cases m) (auto simp: on_treasury_def)

section \<open>Guards\<close>

definition require_initialized :: "gov \<Rightarrow> unit gres" where
  "require_initialized g = (if is_initialized (bk_initialized (g_books g)) then Ok () else Err NotInitialized)"

definition require_unpaused :: "gov \<Rightarrow> unit gres" where
  "require_unpaused g = map_err (\<lambda>_. ContractPaused) (require_not_paused (g_pause g))"

text \<open>\<open>require_auth\<close>: the host traps when the address did not authorise the invocation.\<close>

definition signed :: "env \<Rightarrow> addr \<Rightarrow> unit gres" where
  "signed ev a = (if ev_auth ev a then Ok () else Panic)"

definition require_admin_identity :: "addr \<Rightarrow> gov \<Rightarrow> unit gres" where
  "require_admin_identity caller g =
     res_then (require_initialized g) (\<lambda>_.
     res_then (ok_or NotInitialized (g_admin g)) (\<lambda>admin.
       if admin \<noteq> caller then Err Unauthorized else Ok ()))"

definition require_admin :: "env \<Rightarrow> addr \<Rightarrow> gov \<Rightarrow> unit gres" where
  "require_admin ev caller g =
     res_then (require_initialized g) (\<lambda>_. res_then (signed ev caller) (\<lambda>_. require_admin_identity caller g))"

definition admin_timelock_enforced :: "gov \<Rightarrow> bool" where
  "admin_timelock_enforced g = opt_or False (g_enforce_timelock g)"

definition require_no_timelock_bypass :: "gov \<Rightarrow> unit gres" where
  "require_no_timelock_bypass g = (if admin_timelock_enforced g then Err TimelockBypassBlocked else Ok ())"

definition require_gov_capability :: "env \<Rightarrow> addr \<Rightarrow> Capability \<Rightarrow> gov \<Rightarrow> unit gres" where
  "require_gov_capability ev caller c g =
     res_then (require_initialized g) (\<lambda>_.
     res_then (signed ev caller) (\<lambda>_.
       if has_capability caller c (g_authority g) then Ok ()
       else res_then (ok_or NotInitialized (g_admin g)) (\<lambda>admin.
              if admin = caller then Ok () else Err Unauthorized)))"

text \<open>\<open>guard chk k\<close>: run the body only when the check passes; otherwise return its error.\<close>

definition guard :: "(gov \<Rightarrow> unit gres) \<Rightarrow> (gov \<Rightarrow> 'a ggcall) \<Rightarrow> gov \<Rightarrow> 'a ggcall" where
  "guard chk k g = and_then (chk g, g) (\<lambda>_. k)"

lemma guard_Ok: "guard chk k g = (Ok v, g') \<longleftrightarrow> chk g = Ok () \<and> k g = (Ok v, g')"
  by (auto simp: guard_def and_then_Ok)

lemma guards_Ok:
  "require_initialized g = Ok u \<longleftrightarrow> is_initialized (bk_initialized (g_books g))"
  "require_unpaused g = Ok u \<longleftrightarrow> \<not> is_paused (g_pause g)"
  "signed ev a = Ok u \<longleftrightarrow> ev_auth ev a"
  "require_admin_identity a g = Ok u \<longleftrightarrow> is_initialized (bk_initialized (g_books g)) \<and> g_admin g = Some a"
  "require_admin ev a g = Ok u \<longleftrightarrow> is_initialized (bk_initialized (g_books g)) \<and> ev_auth ev a \<and> g_admin g = Some a"
  "require_no_timelock_bypass g = Ok u \<longleftrightarrow> \<not> admin_timelock_enforced g"
  "require_gov_capability ev a c g = Ok u \<longleftrightarrow> is_initialized (bk_initialized (g_books g)) \<and> ev_auth ev a \<and>
     (has_capability a c (g_authority g) \<or> g_admin g = Some a)"
  by (auto simp: require_initialized_def require_unpaused_def require_not_paused_def signed_def require_admin_identity_def
      require_admin_def require_no_timelock_bypass_def require_gov_capability_def res_then_Ok ok_or_Ok)

end
