(* ===== verification/IntSqrt.thy ===== *)
theory IntSqrt
  imports GovBase
begin

text \<open>
  The integer square root of quadratic voting (\<open>isqrt\<close> of \<open>governance/src/proposals.rs\<close>), Newton's
  iteration over \<open>u128\<close>. A division by zero or a sum that does not fit is \<^const>\<open>None\<close>; the proof shows
  that neither happens, that the loop ends and that the result is the floor of the root.
\<close>

definition u128_max :: nat where "u128_max = 2 ^ 128 - 1"

function newton :: "nat \<Rightarrow> nat \<Rightarrow> nat \<Rightarrow> nat option" where
  "newton n x y =
     (if y < x then
        (if y = 0 \<or> u128_max < y + n div y then None else newton n y ((y + n div y) div 2))
      else Some x)"
  by auto
termination by (relation "measure (\<lambda>(n, x, y). x)") auto

declare newton.simps [simp del]

definition isqrt_u128 :: "nat \<Rightarrow> nat option" where
  "isqrt_u128 n = (if n = 0 then Some 0 else newton n n (n div 2 + n mod 2))"

definition isqrt :: "int \<Rightarrow> int gres" where
  "isqrt n =
     (if n \<le> 0 then Ok 0
      else case isqrt_u128 (nat n) of None \<Rightarrow> Panic | Some r \<Rightarrow> Ok (int r))"

section \<open>Newton's step\<close>

definition is_root :: "nat \<Rightarrow> nat \<Rightarrow> bool" where
  "is_root n s \<longleftrightarrow> s * s \<le> n \<and> n < (s + 1) * (s + 1)"

lemma root_exists: "\<exists>s. is_root n s"
proof (induction n)
  case (Suc n)
  then obtain s where s: "s * s \<le> n" "n < (s + 1) * (s + 1)" by (auto simp: is_root_def)
  show ?case
  proof (cases "Suc n < (s + 1) * (s + 1)")
    case True
    with s show ?thesis by (auto simp: is_root_def intro!: exI [of _ s])
  next
    case False
    with s have "Suc n = (s + 1) * (s + 1)" by simp
    then have "is_root (Suc n) (s + 1)" by (simp add: is_root_def)
    then show ?thesis ..
  qed
qed (auto simp: is_root_def)

lemma root_unique:
  assumes "is_root n r" "is_root n s"
  shows "r = s"
proof -
  have "r \<le> s" if "is_root n r" "is_root n s" for r s
  proof (rule ccontr)
    assume "\<not> r \<le> s"
    then have "(s + 1) * (s + 1) \<le> r * r" by (intro mult_mono) auto
    with that show False by (simp add: is_root_def)
  qed
  with assms show ?thesis by (simp add: antisym)
qed

lemma step_ge_root:
  assumes "is_root n s" "0 < y"
  shows "s \<le> (y + n div y) div 2"
proof -
  have "2 * s \<le> y + n div y"
  proof (cases "y \<le> 2 * s")
    case True
    have "(2 * s - y) * y \<le> s * s"
    proof -
      have "int ((2 * s - y) * y) = int (s * s) - (int s - int y) * (int s - int y)"
        using True by (simp add: of_nat_diff algebra_simps)
      moreover have "0 \<le> (int s - int y) * (int s - int y)" by simp
      ultimately have "int ((2 * s - y) * y) \<le> int (s * s)" by linarith
      then show ?thesis by linarith
    qed
    also have "\<dots> \<le> n" using assms by (simp add: is_root_def)
    finally have "2 * s - y \<le> n div y" using assms(2) by (simp add: less_eq_div_iff_mult_less_eq)
    then show ?thesis by simp
  qed simp
  then show ?thesis by simp
qed

lemma step_decreases:
  assumes "is_root n s" "s < x"
  shows "(x + n div x) div 2 < x"
proof -
  have "(s + 1) * (s + 1) \<le> x * x" using assms(2) by (intro mult_mono) auto
  with assms(1) have "n < x * x" by (simp add: is_root_def)
  then have "n div x < x" by (rule less_mult_imp_div_less)
  then show ?thesis by simp
qed

lemma root_small:
  assumes "is_root n s" "n \<le> u128_max"
  shows "s < 2 ^ 64"
proof (rule ccontr)
  assume "\<not> s < 2 ^ 64"
  then have "2 ^ 64 * 2 ^ 64 \<le> s * s" by (intro mult_mono) auto
  with assms show False by (simp add: is_root_def u128_max_def)
qed

lemma step_fits:
  assumes "is_root n s" "n \<le> u128_max" "0 < s" "s \<le> y" "y \<le> 2 ^ 127"
  shows "y + n div y \<le> u128_max"
proof -
  have "n div y \<le> n div s" using assms(3,4) by (intro div_le_mono2) auto
  also have "n < (s + 3) * s" using assms(1,3) by (auto simp: is_root_def algebra_simps)
  then have "n div s < s + 3" by (rule less_mult_imp_div_less)
  finally have "n div y < s + 3" .
  with root_small [OF assms(1,2)] assms(5) show ?thesis by (simp add: u128_max_def)
qed

lemma newton_root:
  assumes "is_root n s" "n \<le> u128_max" "0 < s" "s \<le> x" "s \<le> y" "y \<le> 2 ^ 127" "s < x \<longrightarrow> y < x"
  shows "newton n x y = Some s"
  using assms(3-)
proof (induction x arbitrary: y rule: less_induct)
  case (less x)
  note step = step_ge_root [OF assms(1), of y] step_fits [OF assms(1,2), of y] step_decreases [OF assms(1), of y]
  show ?case
  proof (cases "y < x")
    case True
    have fits: "y + n div y \<le> u128_max" and pos: "0 < y" using step(2) less.prems by auto
    have small: "(y + n div y) div 2 \<le> 2 ^ 127" using fits by (simp add: u128_max_def)
    have "newton n y ((y + n div y) div 2) = Some s"
      by (rule less.IH) (use True fits pos small step(1,3) less.prems in \<open>auto simp: not_less\<close>)
    with True fits pos show ?thesis by (simp add: newton.simps [of n x y])
  next
    case False
    with less.prems have "x = s" by auto
    with False show ?thesis by (simp add: newton.simps)
  qed
qed

lemma isqrt_u128_root:
  assumes "n \<le> u128_max"
  shows "\<exists>s. isqrt_u128 n = Some s \<and> is_root n s"
proof (cases "n = 0")
  case True
  then show ?thesis by (simp add: isqrt_u128_def is_root_def)
next
  case False
  obtain s where s: "is_root n s" using root_exists ..
  have pos: "0 < s" using s False by (cases s) (auto simp: is_root_def)
  have le: "s \<le> n" using s pos by (auto simp: is_root_def intro: le_trans [OF le_square])
  have half: "n div 2 + n mod 2 = (n + 1) div 2" by presburger
  have "s \<le> (n + 1) div 2"
  proof (cases "s \<le> 1")
    case True
    then show ?thesis using False by simp
  next
    case False
    then have "2 * s \<le> s * s" by simp
    also have "\<dots> \<le> n" using s by (simp add: is_root_def)
    finally show ?thesis by linarith
  qed
  moreover have "(n + 1) div 2 \<le> 2 ^ 127" using assms by (simp add: u128_max_def)
  moreover have "s < n \<longrightarrow> (n + 1) div 2 < n" using pos by auto
  ultimately have "newton n n ((n + 1) div 2) = Some s"
    by (intro newton_root [OF s assms pos le])
  with s False half show ?thesis by (simp add: isqrt_u128_def)
qed

lemma isqrt_Ok:
  assumes "in_i128 n" "0 < n"
  shows "\<exists>s. isqrt n = Ok (int s) \<and> is_root (nat n) s \<and> 0 < s"
proof -
  have "nat n \<le> u128_max" using assms by (simp add: u128_max_def in_i128_def i128_max_def nat_le_iff)
  from isqrt_u128_root [OF this] obtain s where s: "isqrt_u128 (nat n) = Some s" "is_root (nat n) s" by blast
  moreover have "0 < s" using s(2) assms(2) by (cases s) (auto simp: is_root_def)
  ultimately show ?thesis using assms(2) by (auto simp: isqrt_def)
qed

text \<open>
  (C35) The voting weight of quadratic voting: for every \<open>i128\<close> the iteration returns, without a division by
  zero or an overflow, the largest integer whose square is not above the argument.
\<close>

theorem isqrt_is_floor:
  assumes "in_i128 n" "0 \<le> n"
  shows "\<exists>r. isqrt n = Ok r \<and> 0 \<le> r \<and> r * r \<le> n \<and> n < (r + 1) * (r + 1)"
proof (cases "n = 0")
  case True
  then show ?thesis by (simp add: isqrt_def)
next
  case False
  from isqrt_Ok [OF assms(1)] False assms(2) obtain s where s: "isqrt n = Ok (int s)" "is_root (nat n) s" by auto
  from s(2) have "int (s * s) \<le> n" "n < int ((s + 1) * (s + 1))"
    using assms(2) by (auto simp: is_root_def nat_less_iff le_nat_iff)
  with s(1) show ?thesis by (auto simp: algebra_simps intro!: exI [of _ "int s"])
qed

theorem isqrt_is_floor_witness: "\<exists>r. isqrt 1000000 = Ok r \<and> 0 \<le> r \<and> r * r \<le> 1000000 \<and> 1000000 < (r + 1) * (r + 1)"
  using isqrt_is_floor [of 1000000] by (simp add: in_i128_def i128_min_def i128_max_def)

end
