(* ===== verification/GovProposals.thy ===== *)
theory GovProposals
  imports GovTypes IntSqrt
begin

text \<open>
  Proposals and delegations of the governance contract: \<open>governance/src/proposals.rs\<close>,
  \<open>delegation_expiry.rs\<close> and the string check of \<open>common/src/sanitize.rs\<close>. \<open>voting.rs\<close> only forwards to
  the functions here.
\<close>

section \<open>Checks on strings and payloads\<close>

datatype SanitizeError = StringTooLong | ControlCharacterFound

definition sanitize_string :: "string \<Rightarrow> nat \<Rightarrow> (SanitizeError, unit) res" where
  "sanitize_string v max_len =
     (if max_len < length v then Err StringTooLong
      else if \<exists>c \<in> set v. of_char c < (32 :: nat) then Err ControlCharacterFound
      else Ok ())"

definition MAX_PARAMETER_VALUE :: int where "MAX_PARAMETER_VALUE = 1000000000000000000"
definition MAX_ACTION_STRING_LEN :: nat where "MAX_ACTION_STRING_LEN = 256"
definition EXECUTION_WINDOW :: nat where "EXECUTION_WINDOW = 7 * 24 * 60 * 60"

definition sanitized :: "string \<Rightarrow> nat \<Rightarrow> unit gres" where
  "sanitized v max_len = map_err (\<lambda>_. InvalidProposal) (sanitize_string v max_len)"

definition is_within_parameter_bounds :: "int \<Rightarrow> bool" where
  "is_within_parameter_bounds v \<longleftrightarrow> - MAX_PARAMETER_VALUE \<le> v \<and> v \<le> MAX_PARAMETER_VALUE"

definition is_all_zero_bytes :: "bytes \<Rightarrow> bool" where
  "is_all_zero_bytes bs \<longleftrightarrow> (\<forall>b \<in> set bs. b = 0)"

fun validate_proposal :: "gov \<Rightarrow> ProposalType \<Rightarrow> unit gres" where
  "validate_proposal g (ParameterChange parameter current proposed) =
     (if parameter = [] then Err InvalidProposal
      else res_then (sanitized parameter MAX_ACTION_STRING_LEN) (\<lambda>_.
        if \<not> is_within_parameter_bounds current \<or> \<not> is_within_parameter_bounds proposed
        then Err ProposalParameterOutOfRange
        else if 0 < current then
          res_then (gsub proposed current) (\<lambda>d. res_then (gmul \<bar>d\<bar> 2) (\<lambda>x.
            if current \<le> x then Err InvalidProposal else Ok ()))
        else Ok ()))"
| "validate_proposal g (TreasurySpending recipient amount a purpose) =
     res_then (sanitized purpose MAX_ACTION_STRING_LEN) (\<lambda>_.
       let bal = balance_of (g_treasury_state g) a
       in if amount \<le> 0 \<or> bal < amount \<or> bal < saturating_mul amount 10 then Err BudgetExceeded else Ok ())"
| "validate_proposal g (FeatureToggle feature enabled) =
     (if feature = [] then Err InvalidProposal else sanitized feature MAX_ACTION_STRING_LEN)"
| "validate_proposal g (ContractUpgrade name hash) =
     (if name = [] then Err InvalidProposal
      else res_then (sanitized name MAX_ACTION_STRING_LEN) (\<lambda>_.
        if length hash \<noteq> 32 then Err InvalidProposal
        else if is_all_zero_bytes hash then Err InvalidProposal else Ok ()))"
| "validate_proposal g (SignalProposal txt) =
     (if txt = [] then Err InvalidProposal else sanitized txt MAX_ACTION_STRING_LEN)"
| "validate_proposal g (Custom executor) = Ok ()"

definition validate_execution_payload :: "ProposalType \<Rightarrow> bytes \<Rightarrow> unit gres" where
  "validate_execution_payload t payload =
     (case t of
        ContractUpgrade _ _ \<Rightarrow> if length payload \<noteq> 32 then Err InvalidProposal else Ok ()
      | TreasurySpending _ _ _ _ \<Rightarrow> if payload \<noteq> [] \<and> hd payload \<noteq> 1 then Err InvalidProposal else Ok ()
      | ParameterChange _ _ _ \<Rightarrow> if payload \<noteq> [] \<and> hd payload \<noteq> 1 then Err InvalidProposal else Ok ()
      | Custom _ \<Rightarrow> if payload = [] then Err InvalidProposal else Ok ()
      | _ \<Rightarrow> Ok ())"

section \<open>Configuration and thresholds\<close>

definition default_governance_config :: GovernanceConfig where
  "default_governance_config =
     \<lparr>gc_min_proposal_threshold = 1000, gc_voting_period = 7 * 24 * 60 * 60, gc_voting_delay = 60,
      gc_quorum_threshold = 1000, gc_approval_threshold = 5000, gc_execution_delay = 0, gc_discussion_duration = 0\<rparr>"

definition get_governance_config :: "gov \<Rightarrow> GovernanceConfig" where
  "get_governance_config g = opt_or default_governance_config (g_config g)"

definition put_governance_config :: "GovernanceConfig \<Rightarrow> gov \<Rightarrow> GovernanceConfig ggcall" where
  "put_governance_config c g =
     (if gc_min_proposal_threshold c \<le> 0 \<or> gc_voting_period c = 0 \<or> 10000 < gc_quorum_threshold c \<or>
         10000 < gc_approval_threshold c
      then (Err InvalidGovernanceConfig, g)
      else (Ok c, g\<lparr>g_config := Some c\<rparr>))"

definition resolve_category_thresholds :: "gov \<Rightarrow> ProposalCategory \<Rightarrow> GovernanceConfig \<Rightarrow> nat \<times> nat" where
  "resolve_category_thresholds g c cfg =
     (case g_thresholds g c of
        Some t \<Rightarrow>
          (if 0 < ct_quorum_bps t then ct_quorum_bps t else gc_quorum_threshold cfg,
           if 0 < ct_supermajority_bps t then ct_supermajority_bps t else gc_approval_threshold cfg)
      | None \<Rightarrow> (gc_quorum_threshold cfg, gc_approval_threshold cfg))"

definition store_category_thresholds :: "env \<Rightarrow> addr \<Rightarrow> ProposalCategory \<Rightarrow> CategoryThreshold \<Rightarrow> gov \<Rightarrow> unit ggcall" where
  "store_category_thresholds ev admin c t = guard (require_admin ev admin) (\<lambda>g.
     if 10000 < ct_quorum_bps t \<or> 10000 < ct_supermajority_bps t then (Err InvalidGovernanceConfig, g)
     else (Ok (), g\<lparr>g_thresholds := (g_thresholds g)(c \<mapsto> t)\<rparr>))"

section \<open>Delegation\<close>

definition MAX_CLEANUP_BATCH :: nat where "MAX_CLEANUP_BATCH = 50"

definition is_expired :: "env \<Rightarrow> gov \<Rightarrow> addr \<Rightarrow> bool" where
  "is_expired ev g a = (case g_expiry g a of Some e \<Rightarrow> e \<le> ev_sequence ev | None \<Rightarrow> False)"

definition is_live :: "env \<Rightarrow> gov \<Rightarrow> VoteDelegation \<Rightarrow> bool" where
  "is_live ev g d \<longleftrightarrow> vd_active d \<and> \<not> is_expired ev g (vd_delegator d)"

definition has_live_delegation :: "env \<Rightarrow> gov \<Rightarrow> addr \<Rightarrow> bool" where
  "has_live_delegation ev g a = (case g_delegations g a of Some d \<Rightarrow> is_live ev g d | None \<Rightarrow> False)"

definition delegated_to :: "env \<Rightarrow> gov \<Rightarrow> addr \<Rightarrow> addr \<Rightarrow> int \<Rightarrow> int" where
  "delegated_to ev g user delegator acc =
     (case g_delegations g delegator of
        Some d \<Rightarrow> if vd_delegate d = user \<and> is_live ev g d then saturating_add acc (vd_delegated_power d) else acc
      | None \<Rightarrow> acc)"

definition get_effective_voting_power :: "env \<Rightarrow> gov \<Rightarrow> addr \<Rightarrow> int" where
  "get_effective_voting_power ev g user =
     saturating_add (if has_live_delegation ev g user then 0 else get_staked_balance (g_books g) user)
       (fold (delegated_to ev g user) (g_delegators g) 0)"

definition clear_expiry :: "addr \<Rightarrow> gov \<Rightarrow> gov" where
  "clear_expiry a g = g\<lparr>g_expiry := (g_expiry g)(a := None)\<rparr>"

definition set_expiry :: "env \<Rightarrow> addr \<Rightarrow> nat \<Rightarrow> gov \<Rightarrow> unit ggcall" where
  "set_expiry ev a e g =
     (if e \<le> ev_sequence ev then (Err InvalidDuration, g) else (Ok (), g\<lparr>g_expiry := (g_expiry g)(a \<mapsto> e)\<rparr>))"

definition delegate_voting_power :: "env \<Rightarrow> addr \<Rightarrow> addr \<Rightarrow> gov \<Rightarrow> unit ggcall" where
  "delegate_voting_power ev delegator delegate = guard (\<lambda>_. signed ev delegator) (\<lambda>g.
     if delegator = delegate then (Err InvalidProposal, g)
     else if has_live_delegation ev g delegator then (Err InvalidCommitteeAction, g)
     else let g = clear_expiry delegator g;
              weight = get_staked_balance (g_books g) delegator
          in if weight \<le> 0 then (Err NoVotingPower, g)
             else (Ok (), g\<lparr>g_delegations := (g_delegations g)(delegator \<mapsto>
                      \<lparr>vd_delegator = delegator, vd_delegate = delegate, vd_delegated_power = weight, vd_active = True\<rparr>),
                    g_delegators := push_new delegator (g_delegators g)\<rparr>))"

definition undelegate_voting_power :: "env \<Rightarrow> addr \<Rightarrow> gov \<Rightarrow> unit ggcall" where
  "undelegate_voting_power ev delegator = guard (\<lambda>_. signed ev delegator) (\<lambda>g.
     and_then (ok_or CrossCommitteeRequestNotFound (g_delegations g delegator), g) (\<lambda>d g.
       let g = clear_expiry delegator g
       in (Ok (), g\<lparr>g_delegations := (g_delegations g)(delegator \<mapsto> d\<lparr>vd_active := False\<rparr>)\<rparr>)))"

definition delegate_until :: "env \<Rightarrow> addr \<Rightarrow> addr \<Rightarrow> nat \<Rightarrow> gov \<Rightarrow> unit ggcall" where
  "delegate_until ev delegator delegate e g =
     (if e \<le> ev_sequence ev then (Err InvalidDuration, g)
      else and_then (delegate_voting_power ev delegator delegate g) (\<lambda>_. set_expiry ev delegator e))"

definition renew :: "env \<Rightarrow> addr \<Rightarrow> nat \<Rightarrow> gov \<Rightarrow> unit ggcall" where
  "renew ev delegator e = guard (\<lambda>_. signed ev delegator) (\<lambda>g.
     and_then (ok_or CrossCommitteeRequestNotFound (g_delegations g delegator), g) (\<lambda>d g.
       if \<not> is_live ev g d then (Err InvalidCommitteeAction, g) else set_expiry ev delegator e g))"

definition expire_delegation :: "env \<Rightarrow> addr \<Rightarrow> nat \<times> gov \<Rightarrow> nat \<times> gov" where
  "expire_delegation ev a x =
     (case x of (cleaned, g) \<Rightarrow>
        if is_expired ev g a then
          (cleaned + 1, clear_expiry a (case g_delegations g a of
             Some d \<Rightarrow> g\<lparr>g_delegations := (g_delegations g)(a \<mapsto> d\<lparr>vd_active := False\<rparr>)\<rparr> | None \<Rightarrow> g))
        else (cleaned, g))"

definition cleanup_expired :: "env \<Rightarrow> nat \<Rightarrow> nat \<Rightarrow> gov \<Rightarrow> nat ggcall" where
  "cleanup_expired ev start limit g =
     (let last = min (u32_sat_add start (min limit MAX_CLEANUP_BATCH)) (length (g_delegators g));
          (cleaned, g) = fold (expire_delegation ev) (map (nth (g_delegators g)) [start..<last]) (0, g)
      in (Ok cleaned, g))"

section \<open>Creating a proposal\<close>

definition snapshot_power :: "env \<Rightarrow> gov \<Rightarrow> bool \<Rightarrow> addr \<Rightarrow> (addr, int) smap \<times> int \<Rightarrow> ((addr, int) smap \<times> int) gres" where
  "snapshot_power ev g quadratic h x =
     (case x of (snapshots, supply) \<Rightarrow>
        let p = get_effective_voting_power ev g h
        in if 0 < p then
             if quadratic then res_then (isqrt p) (\<lambda>r. Ok (sset h p snapshots, saturating_add supply r))
             else Ok (sset h p snapshots, supply)
           else Ok (snapshots, supply))"

definition new_proposal ::
  "env \<Rightarrow> GovernanceConfig \<Rightarrow> nat \<Rightarrow> addr \<Rightarrow> ProposalType \<Rightarrow> string \<Rightarrow> string \<Rightarrow> bytes \<Rightarrow> ProposalCategory \<Rightarrow> bool \<Rightarrow> int \<Rightarrow> Proposal" where
  "new_proposal ev config i proposer ptype title description payload category quadratic supply =
     (let now = ev_timestamp ev;
          starts = u64_sat_add now (gc_voting_delay config);
          ends = u64_sat_add starts (gc_voting_period config)
      in \<lparr>pr_id = i, pr_proposer = proposer, pr_proposal_type = ptype, pr_title = title, pr_description = description,
          pr_execution_payload = payload, pr_voting_starts = starts, pr_voting_ends = ends, pr_votes_for = 0,
          pr_votes_against = 0, pr_votes_abstain = 0, pr_status = Pending, pr_voters = [], pr_voter_list = [],
          pr_executed_at = None,
          pr_discussion_ends_at = (if 0 < gc_discussion_duration config then u64_sat_add now (gc_discussion_duration config) else 0),
          pr_category = category, pr_use_quadratic_voting = quadratic, pr_quadratic_total_supply = supply,
          pr_execution_deadline = u64_sat_add ends EXECUTION_WINDOW\<rparr>)"

definition create_proposal ::
  "env \<Rightarrow> addr \<Rightarrow> ProposalType \<Rightarrow> string \<Rightarrow> string \<Rightarrow> bytes \<Rightarrow> ProposalCategory \<Rightarrow> bool \<Rightarrow> gov \<Rightarrow> nat ggcall" where
  "create_proposal ev proposer ptype title description payload category quadratic = guard (\<lambda>_. signed ev proposer) (\<lambda>g.
     if title = [] \<or> description = [] then (Err InvalidProposal, g)
     else and_then (sanitized title 256, g) (\<lambda>_ g.
          and_then (sanitized description 4096, g) (\<lambda>_ g.
          let config = get_governance_config g
          in if get_effective_voting_power ev g proposer < gc_min_proposal_threshold config then (Err NoVotingPower, g)
             else and_then (validate_proposal g ptype, g) (\<lambda>_ g.
                  and_then (validate_execution_payload ptype payload, g) (\<lambda>_ g.
                  let i = g_next_proposal_id g
                  in and_then (res_fold (snapshot_power ev g quadratic) (bk_holders (g_books g)) ([], 0), g)
                       (\<lambda>(snapshots, supply) g.
                         (Ok i, g\<lparr>g_snapshots := (g_snapshots g)(i := snapshots),
                                 g_proposals := sset i (new_proposal ev config i proposer ptype title description payload
                                                          category quadratic supply) (g_proposals g),
                                 g_proposal_ids := g_proposal_ids g @ [i],
                                 g_next_proposal_id := u64_sat_add i 1\<rparr>)))))))"

definition get_proposal :: "gov \<Rightarrow> nat \<Rightarrow> Proposal gres" where
  "get_proposal g i = ok_or ProposalNotFound (sget (g_proposals g) i)"

definition effective_status :: "env \<Rightarrow> Proposal \<Rightarrow> ProposalStatus" where
  "effective_status ev p =
     (if pr_status p = Succeeded \<and> pr_execution_deadline p < ev_timestamp ev then Expired else pr_status p)"

definition put_proposal :: "Proposal \<Rightarrow> gov \<Rightarrow> unit ggcall" where
  "put_proposal p g =
     (if sget (g_proposals g) (pr_id p) = None then (Err ProposalNotFound, g)
      else (Ok (), g\<lparr>g_proposals := sset (pr_id p) p (g_proposals g)\<rparr>))"

section \<open>Voting\<close>

definition require_voting_open :: "env \<Rightarrow> addr \<Rightarrow> Proposal \<Rightarrow> unit gres" where
  "require_voting_open ev voter p =
     (if 0 < pr_discussion_ends_at p \<and> ev_timestamp ev < pr_discussion_ends_at p then Err DiscussionPeriodActive
      else if ev_timestamp ev < pr_voting_starts p then Err VotingNotStarted
      else if pr_voting_ends p \<le> ev_timestamp ev then Err VotingEnded
      else if pr_status p \<noteq> Pending \<and> pr_status p \<noteq> Active then Err ProposalNotActive
      else if sget (pr_voters p) voter \<noteq> None then Err AlreadyVoted
      else Ok ())"

definition voter_power :: "gov \<Rightarrow> nat \<Rightarrow> Proposal \<Rightarrow> addr \<Rightarrow> int gres" where
  "voter_power g i p voter =
     (let raw = sget_or 0 (g_snapshots g i) voter
      in if raw \<le> 0 then Err NoVotingPower
         else if pr_use_quadratic_voting p then
           res_then (isqrt raw) (\<lambda>q. if q \<le> 0 then Err NoVotingPower else Ok q)
         else Ok raw)"

definition enter_vote :: "env \<Rightarrow> addr \<Rightarrow> VoteType \<Rightarrow> int \<Rightarrow> Proposal \<Rightarrow> Proposal" where
  "enter_vote ev voter vt weight p =
     p\<lparr>pr_voters := sset voter \<lparr>vo_voter = voter, vo_vote_type = vt, vo_voting_power = weight, vo_timestamp = ev_timestamp ev\<rparr>
          (pr_voters p),
       pr_voter_list := pr_voter_list p @ [voter]\<rparr>"

definition tally :: "VoteType \<Rightarrow> int \<Rightarrow> Proposal \<Rightarrow> Proposal gres" where
  "tally vt weight p =
     (case vt of
        For \<Rightarrow> res_then (gadd (pr_votes_for p) weight) (\<lambda>v. Ok (p\<lparr>pr_votes_for := v\<rparr>))
      | Against \<Rightarrow> res_then (gadd (pr_votes_against p) weight) (\<lambda>v. Ok (p\<lparr>pr_votes_against := v\<rparr>))
      | Abstain \<Rightarrow> res_then (gadd (pr_votes_abstain p) weight) (\<lambda>v. Ok (p\<lparr>pr_votes_abstain := v\<rparr>)))"

definition activate :: "Proposal \<Rightarrow> Proposal" where
  "activate p = (if pr_status p = Pending then p\<lparr>pr_status := Active\<rparr> else p)"

definition cast_vote :: "env \<Rightarrow> nat \<Rightarrow> addr \<Rightarrow> VoteType \<Rightarrow> gov \<Rightarrow> unit ggcall" where
  "cast_vote ev i voter vt = guard (\<lambda>_. signed ev voter) (\<lambda>g.
     and_then (get_proposal g i, g) (\<lambda>p g.
     and_then (require_voting_open ev voter p, g) (\<lambda>_ g.
     and_then (voter_power g i p voter, g) (\<lambda>weight g.
     and_then (tally vt weight (enter_vote ev voter vt weight p), g) (\<lambda>p. put_proposal (activate p))))))"

section \<open>Execution\<close>

text \<open>
  \<open>let _ = f(...)\<close> of the source: an error is dropped, what was written before it stays, because the call
  is in the same frame; a trap still abandons everything.
\<close>

definition dropping_error :: "'a ggcall \<Rightarrow> unit ggcall" where
  "dropping_error m = (case m of (Panic, g) \<Rightarrow> (Panic, g) | (_, g) \<Rightarrow> (Ok (), g))"

fun apply_action :: "ProposalType \<Rightarrow> gov \<Rightarrow> unit ggcall" where
  "apply_action (ParameterChange parameter current proposed) g =
     (Ok (), g\<lparr>g_parameters := (g_parameters g)(parameter \<mapsto> proposed)\<rparr>)"
| "apply_action (TreasurySpending recipient amount a purpose) g =
     (let t = g_treasury_state g; bal = balance_of t a
      in if bal < amount then (Err InsufficientBalance, g)
         else and_then (gsub bal amount, g) (\<lambda>v g.
                let g = g\<lparr>g_treasury_state := t\<lparr>tr_assets := (tr_assets t)(a \<mapsto> v)\<rparr>\<rparr>
                in on_books (add_balance recipient amount (g_books g)) g))"
| "apply_action (FeatureToggle feature enabled) g =
     (Ok (), g\<lparr>g_features := (g_features g)(feature \<mapsto> enabled)\<rparr>)"
| "apply_action (ContractUpgrade name hash) g = (Ok (), g\<lparr>g_upgrades := (g_upgrades g)(name \<mapsto> hash)\<rparr>)"
| "apply_action (SignalProposal txt) g = (Ok (), g)"
| "apply_action (Custom executor) g = (Ok (), g)"

definition execute_proposal_action :: "Proposal \<Rightarrow> gov \<Rightarrow> unit ggcall" where
  "execute_proposal_action p = apply_action (pr_proposal_type p)"

definition execute_proposal_action_by_id :: "nat \<Rightarrow> gov \<Rightarrow> unit ggcall" where
  "execute_proposal_action_by_id i g = and_then (get_proposal g i, g) execute_proposal_action"

definition executed_proposal :: "env \<Rightarrow> Proposal \<Rightarrow> Proposal" where
  "executed_proposal ev p = p\<lparr>pr_status := Executed, pr_executed_at := Some (ev_timestamp ev)\<rparr>"

definition mark_proposal_executed :: "env \<Rightarrow> nat \<Rightarrow> gov \<Rightarrow> unit ggcall" where
  "mark_proposal_executed ev i g = and_then (get_proposal g i, g) (\<lambda>p. put_proposal (executed_proposal ev p))"

definition execute_proposal :: "env \<Rightarrow> nat \<Rightarrow> addr \<Rightarrow> gov \<Rightarrow> ProposalStatus ggcall" where
  "execute_proposal ev i executor = guard (\<lambda>_. signed ev executor) (\<lambda>g.
     and_then (get_proposal g i, g) (\<lambda>p g.
     if pr_status p \<noteq> Succeeded then (Err ProposalNotApproved, g)
     else if ev_timestamp ev < u64_sat_add (pr_voting_ends p) (gc_execution_delay (get_governance_config g))
     then (Err InvalidDuration, g)
     else if pr_execution_deadline p < ev_timestamp ev then (Err ProposalExpired, g)
     else and_then (execute_proposal_action p g) (\<lambda>_ g.
          and_then (put_proposal (executed_proposal ev p) g) (\<lambda>_ g. (Ok Executed, g)))))"

section \<open>Counting the votes\<close>

definition total_votes :: "Proposal \<Rightarrow> int" where
  "total_votes p = saturating_add (saturating_add (pr_votes_for p) (pr_votes_against p)) (pr_votes_abstain p)"

definition reference_supply :: "gov \<Rightarrow> Proposal \<Rightarrow> int gres" where
  "reference_supply g p =
     (if pr_use_quadratic_voting p \<and> 0 < pr_quadratic_total_supply p then Ok (pr_quadratic_total_supply p)
      else res_then (get_total_supply (g_books g)) (\<lambda>ts. if ts \<le> 0 then Err InvalidSupply else Ok ts))"

definition quorum_met :: "Proposal \<Rightarrow> int \<Rightarrow> nat \<Rightarrow> bool" where
  "quorum_met p supply bps \<longleftrightarrow> saturating_mul supply (int bps) \<le> saturating_mul (total_votes p) 10000"

definition approved :: "Proposal \<Rightarrow> nat \<Rightarrow> bool" where
  "approved p bps \<longleftrightarrow>
     (let cast_votes = saturating_add (pr_votes_for p) (pr_votes_against p)
      in 0 < cast_votes \<and> saturating_mul cast_votes (int bps) \<le> saturating_mul (pr_votes_for p) 10000)"

definition finalize_proposal :: "env \<Rightarrow> nat \<Rightarrow> gov \<Rightarrow> ProposalStatus ggcall" where
  "finalize_proposal ev i g =
     and_then (get_proposal g i, g) (\<lambda>p g.
     if ev_timestamp ev < pr_voting_ends p then (Err InvalidDuration, g)
     else if pr_status p \<noteq> Pending \<and> pr_status p \<noteq> Active then (Err ProposalNotActive, g)
     else let cfg = get_governance_config g;
              (quorum_bps, approval_bps) = resolve_category_thresholds g (pr_category p) cfg
          in and_then (reference_supply g p, g) (\<lambda>supply g.
             if \<not> quorum_met p supply quorum_bps
             then and_then (put_proposal (p\<lparr>pr_status := Failed\<rparr>) g) (\<lambda>_ g. (Ok Failed, g))
             else let status = (if approved p approval_bps then Succeeded else Failed)
                  in and_then (put_proposal (p\<lparr>pr_status := status\<rparr>) g) (\<lambda>_ g.
                     if status = Succeeded \<and> gc_execution_delay cfg = 0
                     then and_then (dropping_error (execute_proposal ev i (pr_proposer p) g)) (\<lambda>_ g. (Ok status, g))
                     else (Ok status, g))))"

section \<open>Cancellation, withdrawal, expiry\<close>

definition cancel_proposal :: "env \<Rightarrow> nat \<Rightarrow> addr \<Rightarrow> gov \<Rightarrow> ProposalStatus ggcall" where
  "cancel_proposal ev i canceller = guard (\<lambda>_. signed ev canceller) (\<lambda>g.
     and_then (get_proposal g i, g) (\<lambda>p g.
     and_then (ok_or NotInitialized (g_admin g), g) (\<lambda>admin g.
     if canceller \<noteq> pr_proposer p \<and> canceller \<noteq> admin \<and> g_guardian g \<noteq> Some canceller then (Err Unauthorized, g)
     else if pr_status p = Executed then (Err InvalidCommitteeAction, g)
     else and_then (put_proposal (p\<lparr>pr_status := Cancelled\<rparr>) g) (\<lambda>_ g. (Ok Cancelled, g)))))"

definition refund_withdrawn :: "nat \<Rightarrow> addr \<Rightarrow> gov \<Rightarrow> unit ggcall" where
  "refund_withdrawn i proposer g =
     (let amount = dc_amount (get_deposit_config (g_books g))
      in if 0 < amount \<and> sget (bk_deposits (g_books g)) i = Some proposer
         then and_then (dropping_error (on_books (add_balance proposer amount (g_books g)) g)) (\<lambda>_ g.
                (Ok (), g\<lparr>g_books := (g_books g)\<lparr>bk_deposits := sdel i (bk_deposits (g_books g))\<rparr>\<rparr>))
         else (Ok (), g))"

definition withdraw_proposal :: "env \<Rightarrow> nat \<Rightarrow> addr \<Rightarrow> gov \<Rightarrow> ProposalStatus ggcall" where
  "withdraw_proposal ev i proposer = guard (\<lambda>_. signed ev proposer) (\<lambda>g.
     and_then (get_proposal g i, g) (\<lambda>p g.
     if proposer \<noteq> pr_proposer p then (Err Unauthorized, g)
     else if pr_status p = Withdrawn then (Err ProposalAlreadyWithdrawn, g)
     else if pr_status p \<noteq> Pending then (Err ProposalNotActive, g)
     else and_then (put_proposal (p\<lparr>pr_status := Withdrawn\<rparr>) g) (\<lambda>_ g.
          and_then (refund_withdrawn i proposer g) (\<lambda>_ g. (Ok Withdrawn, g)))))"

definition reclaim_expired_proposal :: "env \<Rightarrow> nat \<Rightarrow> addr \<Rightarrow> gov \<Rightarrow> unit ggcall" where
  "reclaim_expired_proposal ev i caller = guard (\<lambda>_. signed ev caller) (\<lambda>g.
     and_then (get_proposal g i, g) (\<lambda>p g.
     if pr_status p \<noteq> Succeeded \<and> pr_status p \<noteq> Expired then (Err ProposalNotApproved, g)
     else if ev_timestamp ev \<le> pr_execution_deadline p then (Err InvalidDuration, g)
     else (Ok (), g\<lparr>g_proposals := sdel i (g_proposals g), g_proposal_ids := remove1 i (g_proposal_ids g)\<rparr>)))"

definition terminal :: "ProposalStatus \<Rightarrow> bool" where
  "terminal st \<longleftrightarrow> st \<in> {Failed, Executed, Cancelled, Expired, Withdrawn}"

function cleanup_from ::
  "env \<Rightarrow> nat \<Rightarrow> nat \<Rightarrow> nat \<Rightarrow> nat list \<Rightarrow> (nat, Proposal) smap \<Rightarrow> (nat \<times> nat list \<times> (nat, Proposal) smap) gres" where
  "cleanup_from ev limit i removed ids ps =
     (if i < length ids \<and> removed < limit then
        (case sget ps (ids ! i) of
           None \<Rightarrow> Err ProposalNotFound
         | Some p \<Rightarrow>
             if terminal (effective_status ev p)
             then cleanup_from ev limit i (removed + 1) (take i ids @ drop (i + 1) ids) (sdel (ids ! i) ps)
             else cleanup_from ev limit (i + 1) removed ids ps)
      else Ok (removed, ids, ps))"
  by pat_completeness auto
termination
  by (relation "measure (\<lambda>(ev, limit, i, removed, ids, ps). length ids - i)") auto

declare cleanup_from.simps [simp del]

definition cleanup_terminal_proposals :: "env \<Rightarrow> nat \<Rightarrow> nat \<Rightarrow> gov \<Rightarrow> nat ggcall" where
  "cleanup_terminal_proposals ev cursor limit g =
     (if limit = 0 \<or> 50 < limit then (Err InvalidAmount, g)
      else and_then (cleanup_from ev limit (min cursor (length (g_proposal_ids g))) 0 (g_proposal_ids g) (g_proposals g), g)
             (\<lambda>(removed, ids, ps) g. (Ok removed, g\<lparr>g_proposals := ps, g_proposal_ids := ids\<rparr>)))"

section \<open>Listings and statistics\<close>

definition get_all_proposals :: "gov \<Rightarrow> Proposal list" where
  "get_all_proposals g = List.map_filter (sget (g_proposals g)) (g_proposal_ids g)"

definition get_active_proposals :: "env \<Rightarrow> gov \<Rightarrow> Proposal list" where
  "get_active_proposals ev g =
     filter (\<lambda>p. pr_status p \<in> {Pending, Active, Succeeded} \<and> ev_timestamp ev \<le> pr_execution_deadline p) (get_all_proposals g)"

definition i128_as_u64 :: "int \<Rightarrow> nat" where
  "i128_as_u64 x = nat (x mod 2 ^ 64)"

record statistics_sums =
  su_stats :: ProposalStatistics
  su_part_total :: nat
  su_part_count :: nat
  su_appr_total :: nat
  su_appr_count :: nat

definition count_status :: "ProposalStatus \<Rightarrow> ProposalStatistics \<Rightarrow> ProposalStatistics" where
  "count_status st s =
     (let s = s\<lparr>st_total_proposals := u32_sat_add (st_total_proposals s) 1\<rparr>
      in case st of
           Pending \<Rightarrow> s\<lparr>st_active_proposals := u32_sat_add (st_active_proposals s) 1\<rparr>
         | Active \<Rightarrow> s\<lparr>st_active_proposals := u32_sat_add (st_active_proposals s) 1\<rparr>
         | Succeeded \<Rightarrow> s\<lparr>st_succeeded_proposals := u32_sat_add (st_succeeded_proposals s) 1\<rparr>
         | Failed \<Rightarrow> s\<lparr>st_failed_proposals := u32_sat_add (st_failed_proposals s) 1\<rparr>
         | Executed \<Rightarrow> s\<lparr>st_executed_proposals := u32_sat_add (st_executed_proposals s) 1\<rparr>
         | _ \<Rightarrow> s)"

definition rate_bps :: "int \<Rightarrow> int \<Rightarrow> nat" where
  "rate_bps votes whole = i128_as_u64 (tdiv (saturating_mul votes 10000) whole)"

definition add_statistics :: "int \<Rightarrow> Proposal \<Rightarrow> statistics_sums \<Rightarrow> statistics_sums" where
  "add_statistics supply p s =
     (let s = s\<lparr>su_stats := count_status (pr_status p) (su_stats s)\<rparr>;
          s = (if 0 < supply then s\<lparr>su_part_total := u64_sat_add (su_part_total s) (rate_bps (total_votes p) supply),
                                    su_part_count := u32_sat_add (su_part_count s) 1\<rparr> else s);
          cast_votes = saturating_add (pr_votes_for p) (pr_votes_against p)
      in if 0 < cast_votes then s\<lparr>su_appr_total := u64_sat_add (su_appr_total s) (rate_bps (pr_votes_for p) cast_votes),
                                  su_appr_count := u32_sat_add (su_appr_count s) 1\<rparr>
         else s)"

definition calculate_proposal_statistics :: "gov \<Rightarrow> ProposalStatistics gres" where
  "calculate_proposal_statistics g =
     res_then (get_total_supply (g_books g)) (\<lambda>supply.
       let zero = \<lparr>su_stats = \<lparr>st_total_proposals = 0, st_active_proposals = 0, st_succeeded_proposals = 0,
                     st_failed_proposals = 0, st_executed_proposals = 0, st_avg_participation_rate = 0, st_avg_approval_rate = 0\<rparr>,
                   su_part_total = 0, su_part_count = 0, su_appr_total = 0, su_appr_count = 0\<rparr>;
           s = fold (add_statistics supply) (get_all_proposals g) zero
       in Ok ((su_stats s)\<lparr>
            st_avg_participation_rate := (if 0 < su_part_count s then as_u32 (su_part_total s div su_part_count s) else 0),
            st_avg_approval_rate := (if 0 < su_appr_count s then as_u32 (su_appr_total s div su_appr_count s) else 0)\<rparr>))"

end
