(* ===== verification/GovTimelock.thy ===== *)
theory GovTimelock
  imports GovProposals
begin

text \<open>
  The timelock of the governance contract (\<open>governance/src/timelock.rs\<close>) with the queue of admin
  actions, the treasury spend window (\<open>spend_window.rs\<close>) and shadow mode (\<open>shadow_mode.rs\<close>).
\<close>

section \<open>The queue of proposal actions\<close>

definition STUCK_GRACE_PERIOD :: nat where "STUCK_GRACE_PERIOD = 86400"
definition ADMIN_ACTION_DELAY :: nat where "ADMIN_ACTION_DELAY = 2 * 86400"

definition default_delays :: "ActionType \<Rightarrow> nat option" where
  "default_delays a =
     (case a of ActTreasurySpend \<Rightarrow> Some (2 * 86400) | ActParameterChange \<Rightarrow> Some (3 * 86400)
      | ActContractUpgrade \<Rightarrow> Some (5 * 86400) | ActEmergencyPause \<Rightarrow> Some 0 | ActCustom \<Rightarrow> Some (2 * 86400))"

definition start_timelock :: "nat \<Rightarrow> nat \<Rightarrow> addr \<Rightarrow> gov \<Rightarrow> Timelock ggcall" where
  "start_timelock min_delay max_delay guardian g =
     (if min_delay < 3600 \<or> 7 * 86400 < max_delay \<or> max_delay < min_delay then (Err InvalidTimelockConfig, g)
      else let t = \<lparr>tl_queued_actions = [], tl_delay_config = default_delays, tl_min_delay = min_delay,
                    tl_max_delay = max_delay, tl_guardian = guardian, tl_next_action_id = 1\<rparr>
           in (Ok t, g\<lparr>g_timelock := Some t, g_guardian := Some guardian\<rparr>))"

definition get_timelock :: "gov \<Rightarrow> Timelock gres" where
  "get_timelock g = ok_or TimelockNotInitialized (g_timelock g)"

definition put_timelock :: "Timelock \<Rightarrow> gov \<Rightarrow> gov" where
  "put_timelock t g = g\<lparr>g_timelock := Some t\<rparr>"

fun classify_proposal_action :: "ProposalType \<Rightarrow> ActionType" where
  "classify_proposal_action (TreasurySpending _ _ _ _) = ActTreasurySpend"
| "classify_proposal_action (ParameterChange _ _ _) = ActParameterChange"
| "classify_proposal_action (ContractUpgrade _ _) = ActContractUpgrade"
| "classify_proposal_action _ = ActCustom"

text \<open>The loops of the source look for the first action with the id.\<close>

fun find_index :: "('a \<Rightarrow> bool) \<Rightarrow> 'a list \<Rightarrow> nat option" where
  "find_index f [] = None"
| "find_index f (x # xs) = (if f x then Some 0 else map_option Suc (find_index f xs))"

definition find_action :: "nat \<Rightarrow> Timelock \<Rightarrow> nat gres" where
  "find_action i t = ok_or ActionNotFound (find_index (\<lambda>a. qa_id a = i) (tl_queued_actions t))"

definition get_queued_action :: "gov \<Rightarrow> nat \<Rightarrow> QueuedAction gres" where
  "get_queued_action g i =
     res_then (get_timelock g) (\<lambda>t. res_then (find_action i t) (\<lambda>n. Ok (tl_queued_actions t ! n)))"

definition put_action :: "nat \<Rightarrow> QueuedAction \<Rightarrow> Timelock \<Rightarrow> Timelock" where
  "put_action n a t = t\<lparr>tl_queued_actions := (tl_queued_actions t)[n := a]\<rparr>"

definition waiting :: "QueuedAction \<Rightarrow> bool" where
  "waiting a \<longleftrightarrow> \<not> qa_executed a \<and> \<not> qa_cancelled a"

definition queue_action :: "env \<Rightarrow> nat \<Rightarrow> gov \<Rightarrow> nat ggcall" where
  "queue_action ev i g =
     and_then (get_proposal g i, g) (\<lambda>p g.
     if pr_status p \<noteq> Succeeded then (Err ProposalNotApproved, g)
     else and_then (get_timelock g, g) (\<lambda>t g.
       let at = classify_proposal_action (pr_proposal_type p);
           delay = opt_or (tl_min_delay t) (tl_delay_config t at)
       in if \<exists>a \<in> set (tl_queued_actions t). qa_proposal_id a = i \<and> waiting a then (Err InvalidCommitteeAction, g)
          else let n = tl_next_action_id t;
                   a = \<lparr>qa_id = n, qa_action_type = at, qa_proposal_id = i, qa_execution_payload = pr_execution_payload p,
                        qa_queued_at = ev_timestamp ev, qa_execution_available = u64_sat_add (ev_timestamp ev) delay,
                        qa_executed = False, qa_cancelled = False\<rparr>
               in (Ok n, put_timelock (t\<lparr>tl_queued_actions := tl_queued_actions t @ [a],
                                       tl_next_action_id := u64_sat_add n 1\<rparr>) g)))"

text \<open>
  What the three ways to execute an action share: execute the proposal's action, mark the queue entry,
  mark the proposal. The timelock written back is the one read at the start.
\<close>

definition run_action :: "env \<Rightarrow> Timelock \<Rightarrow> nat \<Rightarrow> gov \<Rightarrow> unit ggcall" where
  "run_action ev t n g =
     (let a = tl_queued_actions t ! n
      in and_then (execute_proposal_action_by_id (qa_proposal_id a) g) (\<lambda>_ g.
           mark_proposal_executed ev (qa_proposal_id a) (put_timelock (put_action n (a\<lparr>qa_executed := True\<rparr>) t) g)))"

definition execute_queued_action :: "env \<Rightarrow> nat \<Rightarrow> addr \<Rightarrow> gov \<Rightarrow> unit ggcall" where
  "execute_queued_action ev i executor = guard (\<lambda>_. signed ev executor) (\<lambda>g.
     and_then (get_timelock g, g) (\<lambda>t g.
     and_then (find_action i t, g) (\<lambda>n g.
       let a = tl_queued_actions t ! n
       in if \<not> waiting a then (Err InvalidCommitteeAction, g)
          else if ev_timestamp ev < qa_execution_available a then (Err InvalidDuration, g)
          else run_action ev t n g)))"

definition require_timelock_guardian :: "env \<Rightarrow> addr \<Rightarrow> gov \<Rightarrow> Timelock gres" where
  "require_timelock_guardian ev guardian g =
     res_then (signed ev guardian) (\<lambda>_. res_then (get_timelock g) (\<lambda>t.
       if guardian \<noteq> tl_guardian t then Err Unauthorized else Ok t))"

definition emergency_unblock_action :: "env \<Rightarrow> nat \<Rightarrow> addr \<Rightarrow> gov \<Rightarrow> unit ggcall" where
  "emergency_unblock_action ev i guardian g =
     and_then (require_timelock_guardian ev guardian g, g) (\<lambda>t g.
     and_then (find_action i t, g) (\<lambda>n g.
       let a = tl_queued_actions t ! n
       in if \<not> waiting a then (Err InvalidCommitteeAction, g)
          else if ev_timestamp ev < u64_sat_add (qa_execution_available a) STUCK_GRACE_PERIOD then (Err InvalidDuration, g)
          else run_action ev t n g))"

definition emergency_execute :: "env \<Rightarrow> nat \<Rightarrow> addr \<Rightarrow> gov \<Rightarrow> unit ggcall" where
  "emergency_execute ev i guardian g =
     and_then (require_timelock_guardian ev guardian g, g) (\<lambda>t g.
     and_then (find_action i t, g) (\<lambda>n g.
       let a = tl_queued_actions t ! n
       in if qa_action_type a \<noteq> ActEmergencyPause then (Err InvalidCommitteeAction, g)
          else if \<not> waiting a then (Err InvalidCommitteeAction, g)
          else run_action ev t n g))"

definition cancel_queued_action :: "env \<Rightarrow> nat \<Rightarrow> addr \<Rightarrow> gov \<Rightarrow> unit ggcall" where
  "cancel_queued_action ev i canceller = guard (\<lambda>_. signed ev canceller) (\<lambda>g.
     and_then (get_timelock g, g) (\<lambda>t g.
     and_then (ok_or NotInitialized (g_admin g), g) (\<lambda>admin g.
     if canceller \<noteq> tl_guardian t \<and> canceller \<noteq> admin then (Err Unauthorized, g)
     else and_then (find_action i t, g) (\<lambda>n g.
       let a = tl_queued_actions t ! n
       in if \<not> waiting a then (Err InvalidCommitteeAction, g)
          else let g = put_timelock (put_action n (a\<lparr>qa_cancelled := True\<rparr>) t) g
               in and_then (get_proposal g (qa_proposal_id a), g) (\<lambda>p. put_proposal (p\<lparr>pr_status := Cancelled\<rparr>))))))"

definition set_timelock_delay :: "ActionType \<Rightarrow> nat \<Rightarrow> gov \<Rightarrow> unit ggcall" where
  "set_timelock_delay at new_delay g =
     and_then (get_timelock g, g) (\<lambda>t g.
     if new_delay < tl_min_delay t \<or> tl_max_delay t < new_delay then (Err InvalidDuration, g)
     else (Ok (), put_timelock (t\<lparr>tl_delay_config := (tl_delay_config t)(at \<mapsto> new_delay)\<rparr>) g))"

definition extend_window :: "nat \<Rightarrow> nat \<Rightarrow> gov \<Rightarrow> nat ggcall" where
  "extend_window i extension g =
     (if 7 * 86400 < extension then (Err InvalidDuration, g)
      else and_then (get_timelock g, g) (\<lambda>t g.
           and_then (find_action i t, g) (\<lambda>n g.
             let a = tl_queued_actions t ! n
             in if \<not> waiting a then (Err InvalidCommitteeAction, g)
                else let new_time = u64_sat_add (qa_execution_available a) extension
                     in (Ok new_time, put_timelock (put_action n (a\<lparr>qa_execution_available := new_time\<rparr>) t) g))))"

text \<open>An action that fails is skipped; a trap abandons the whole batch.\<close>

fun execute_actions :: "env \<Rightarrow> addr \<Rightarrow> nat list \<Rightarrow> gov \<Rightarrow> nat list ggcall" where
  "execute_actions ev executor [] g = (Ok [], g)"
| "execute_actions ev executor (i # ids) g =
     (case execute_queued_action ev i executor g of
        (Ok _, g) \<Rightarrow> and_then (execute_actions ev executor ids g) (\<lambda>done g. (Ok (i # done), g))
      | (Err _, g) \<Rightarrow> execute_actions ev executor ids g
      | (Panic, g) \<Rightarrow> (Panic, g))"

definition execute_multiple_actions :: "env \<Rightarrow> nat list \<Rightarrow> addr \<Rightarrow> gov \<Rightarrow> nat list ggcall" where
  "execute_multiple_actions ev ids executor = guard (\<lambda>_. signed ev executor) (\<lambda>g.
     if 10 < length ids then (Err InvalidAmount, g) else execute_actions ev executor ids g)"

definition actions_of_type :: "QueuedAction list \<Rightarrow> ActionType \<Rightarrow> nat option" where
  "actions_of_type as at =
     (let n = length (filter (\<lambda>a. qa_action_type a = at) as) in if n = 0 then None else Some (min n u32_max))"

definition total_wait :: "QueuedAction list \<Rightarrow> nat" where
  "total_wait as = fold (\<lambda>a w. u64_sat_add w (qa_execution_available a - qa_queued_at a)) (filter qa_executed as) 0"

definition generate_timelock_analytics :: "gov \<Rightarrow> TimelockAnalytics gres" where
  "generate_timelock_analytics g =
     res_then (get_timelock g) (\<lambda>t.
       let as = tl_queued_actions t; executed = length (filter qa_executed as); cancelled = length (filter qa_cancelled as)
       in if u32_max < cancelled * 10000 then Panic
          else Ok \<lparr>ta_total_queued = length as, ta_total_executed = executed, ta_total_cancelled = cancelled,
                   ta_avg_wait_time = (if executed = 0 then 0 else total_wait as div executed),
                   ta_actions_by_type = actions_of_type as,
                   ta_cancellation_rate = (if as = [] then 0 else cancelled * 10000 div length as)\<rparr>)"

section \<open>Admin actions\<close>

definition queue_admin_action :: "env \<Rightarrow> addr \<Rightarrow> symbol \<Rightarrow> gov \<Rightarrow> nat ggcall" where
  "queue_admin_action ev caller at g =
     and_then (get_timelock g, g) (\<lambda>t g.
       let now = ev_timestamp ev; n = tl_next_action_id t; available = u64_sat_add now ADMIN_ACTION_DELAY;
           a = \<lparr>qa_id = n, qa_action_type = ActCustom, qa_proposal_id = 0, qa_execution_payload = [],
                qa_queued_at = now, qa_execution_available = available, qa_executed = False, qa_cancelled = False\<rparr>;
           e = \<lparr>ae_id = n, ae_action_type = at, ae_caller = caller, ae_queued_at = now,
                ae_execution_available = available, ae_executed = False, ae_cancelled = False\<rparr>;
           g = put_timelock (t\<lparr>tl_queued_actions := tl_queued_actions t @ [a], tl_next_action_id := u64_sat_add n 1\<rparr>) g
       in (Ok n, g\<lparr>g_admin_pending := g_admin_pending g @ [e]\<rparr>))"

definition find_entry :: "nat \<Rightarrow> gov \<Rightarrow> nat gres" where
  "find_entry i g = ok_or ActionNotFound (find_index (\<lambda>e. ae_id e = i) (g_admin_pending g))"

definition put_entry :: "nat \<Rightarrow> AdminTimelockEntry \<Rightarrow> gov \<Rightarrow> gov" where
  "put_entry n e g = g\<lparr>g_admin_pending := (g_admin_pending g)[n := e]\<rparr>"

definition get_admin_action_execution_available :: "gov \<Rightarrow> nat \<Rightarrow> nat gres" where
  "get_admin_action_execution_available g i =
     res_then (find_entry i g) (\<lambda>n. Ok (ae_execution_available (g_admin_pending g ! n)))"

definition execute_admin_action :: "env \<Rightarrow> nat \<Rightarrow> addr \<Rightarrow> gov \<Rightarrow> symbol ggcall" where
  "execute_admin_action ev i caller = guard (\<lambda>_. signed ev caller) (\<lambda>g.
     and_then (get_admin_action_execution_available g i, g) (\<lambda>available g.
     if ev_timestamp ev < available then (Err InvalidDuration, g)
     else and_then (find_entry i g, g) (\<lambda>n g.
       let e = g_admin_pending g ! n
       in if ae_executed e \<or> ae_cancelled e then (Err InvalidCommitteeAction, g)
          else if ae_caller e \<noteq> caller then (Err Unauthorized, g)
          else (Ok (ae_action_type e), put_entry n (e\<lparr>ae_executed := True\<rparr>) g))))"

definition cancel_entry :: "env \<Rightarrow> nat \<Rightarrow> addr \<Rightarrow> gov \<Rightarrow> unit ggcall" where
  "cancel_entry ev i canceller = guard (\<lambda>_. signed ev canceller) (\<lambda>g.
     and_then (ok_or NotInitialized (g_admin g), g) (\<lambda>admin g.
     if canceller \<noteq> admin then (Err Unauthorized, g)
     else and_then (find_entry i g, g) (\<lambda>n g.
       let e = g_admin_pending g ! n
       in if ae_executed e \<or> ae_cancelled e then (Err InvalidCommitteeAction, g)
          else (Ok (), put_entry n (e\<lparr>ae_cancelled := True\<rparr>) g))))"

section \<open>The spend window\<close>

definition configure_window :: "env \<Rightarrow> nat \<Rightarrow> int \<Rightarrow> gov \<Rightarrow> unit ggcall" where
  "configure_window ev window_secs cap g =
     (if window_secs = 0 then (Err InvalidDuration, g)
      else if cap \<le> 0 then (Err InvalidAmount, g)
      else (Ok (), g\<lparr>g_window_config := Some \<lparr>sw_window_secs = window_secs, sw_cap = cap, sw_anchor = ev_timestamp ev\<rparr>,
                    g_window_state := Some \<lparr>ss_window_start = ev_timestamp ev, ss_spent = 0\<rparr>\<rparr>))"

text \<open>The sum fits: the second summand is at most \<open>now - anchor\<close>.\<close>

definition window_start_for :: "SpendWindowConfig \<Rightarrow> nat \<Rightarrow> nat" where
  "window_start_for cfg now = (let elapsed = now - sw_anchor cfg in sw_anchor cfg + (elapsed - elapsed mod sw_window_secs cfg))"

definition current_window :: "env \<Rightarrow> gov \<Rightarrow> (SpendWindowConfig \<times> SpendWindowState) option" where
  "current_window ev g =
     (case g_window_config g of None \<Rightarrow> None
      | Some cfg \<Rightarrow>
          let start = window_start_for cfg (ev_timestamp ev);
              st = opt_or \<lparr>ss_window_start = start, ss_spent = 0\<rparr> (g_window_state g)
          in Some (cfg, if ss_window_start st = start then st else \<lparr>ss_window_start = start, ss_spent = 0\<rparr>))"

definition window_remaining :: "env \<Rightarrow> gov \<Rightarrow> int" where
  "window_remaining ev g =
     (case current_window ev g of Some (cfg, st) \<Rightarrow> max (saturating_sub (sw_cap cfg) (ss_spent st)) 0 | None \<Rightarrow> i128_max)"

definition consume :: "env \<Rightarrow> int \<Rightarrow> gov \<Rightarrow> unit ggcall" where
  "consume ev amount g =
     (case current_window ev g of None \<Rightarrow> (Ok (), g)
      | Some (cfg, st) \<Rightarrow>
          if amount \<le> 0 then (Err InvalidAmount, g)
          else and_then (gadd (ss_spent st) amount, g) (\<lambda>new_spent g.
            if sw_cap cfg < new_spent then (Err BudgetExceeded, g)
            else let g = g\<lparr>g_window_state := Some (st\<lparr>ss_spent := new_spent\<rparr>)\<rparr>
                 in and_then (gsub (sw_cap cfg) new_spent, g) (\<lambda>_ g. (Ok (), g))))"

section \<open>Shadow mode\<close>

definition start_shadow_mode :: "env \<Rightarrow> addr \<Rightarrow> bytes \<Rightarrow> nat \<Rightarrow> gov \<Rightarrow> ShadowModeState ggcall" where
  "start_shadow_mode ev admin hash duration = guard (require_admin ev admin) (\<lambda>g.
     if length hash \<noteq> 32 then (Err InvalidProposal, g)
     else if duration = 0 then (Err InvalidDuration, g)
     else let s = \<lparr>sm_trial_ends_at = u64_sat_add (ev_timestamp ev) duration, sm_new_wasm_hash = hash, sm_promoted = False\<rparr>
          in (Ok s, g\<lparr>g_shadow := Some s\<rparr>))"

definition is_in_shadow_mode :: "env \<Rightarrow> gov \<Rightarrow> bool" where
  "is_in_shadow_mode ev g =
     (case g_shadow g of Some s \<Rightarrow> \<not> sm_promoted s \<and> ev_timestamp ev \<le> sm_trial_ends_at s | None \<Rightarrow> False)"

definition compare_shadow_results :: "env \<Rightarrow> bytes \<Rightarrow> bytes \<Rightarrow> gov \<Rightarrow> bool" where
  "compare_shadow_results ev old_hash new_hash g =
     (case g_shadow g of None \<Rightarrow> True
      | Some s \<Rightarrow> if sm_promoted s \<or> sm_trial_ends_at s < ev_timestamp ev then True else old_hash = new_hash)"

definition promote_shadow :: "env \<Rightarrow> addr \<Rightarrow> gov \<Rightarrow> unit ggcall" where
  "promote_shadow ev admin = guard (require_admin ev admin) (\<lambda>g.
     and_then (ok_or NotInitialized (g_shadow g), g) (\<lambda>s g. (Ok (), g\<lparr>g_shadow := Some (s\<lparr>sm_promoted := True\<rparr>)\<rparr>)))"

definition drop_shadow :: "env \<Rightarrow> addr \<Rightarrow> gov \<Rightarrow> unit ggcall" where
  "drop_shadow ev admin = guard (require_admin ev admin) (\<lambda>g.
     if g_shadow g = None then (Err NotInitialized, g) else (Ok (), g\<lparr>g_shadow := None\<rparr>))"

end
