(* ===== verification/GovReputation.thy ===== *)
theory GovReputation
  imports GovProposals
begin

text \<open>
  Governance reputation (\<open>governance/src/reputation.rs\<close>): participation history, score with decay and
  staleness, badges, reputation-weighted votes, the leaderboard and the reward plan.
\<close>

section \<open>Tiers and staleness\<close>

definition MAX_REPUTATION :: nat where "MAX_REPUTATION = 10000"
definition MAX_REPUTATION_USERS :: nat where "MAX_REPUTATION_USERS = 100"
definition PRECISION :: int where "PRECISION = 10000"

fun decay_rate_bps :: "ReputationTier \<Rightarrow> nat" where
  "decay_rate_bps Bronze = 50"
| "decay_rate_bps Silver = 30"
| "decay_rate_bps Gold = 20"
| "decay_rate_bps Platinum = 10"

fun grace_period_days :: "ReputationTier \<Rightarrow> nat" where
  "grace_period_days Bronze = 30"
| "grace_period_days Silver = 60"
| "grace_period_days Gold = 90"
| "grace_period_days Platinum = 180"

fun max_decay_days :: "ReputationTier \<Rightarrow> nat" where
  "max_decay_days Bronze = 90"
| "max_decay_days Silver = 180"
| "max_decay_days Gold = 270"
| "max_decay_days Platinum = 365"

definition get_reputation_config :: "gov \<Rightarrow> ReputationConfig" where
  "get_reputation_config g =
     opt_or \<lparr>rc_decay_enabled = True, rc_stale_penalty_enabled = True, rc_default_tier = Bronze\<rparr> (g_reputation_config g)"

definition detect_staleness :: "env \<Rightarrow> nat \<Rightarrow> StalenessLevel" where
  "detect_staleness ev last_activity =
     (if ev_timestamp ev \<le> last_activity then ActiveLevel
      else let inactive_days = (ev_timestamp ev - last_activity) div 86400
           in if inactive_days \<le> 30 then ActiveLevel
              else if inactive_days \<le> 90 then Aging
              else if inactive_days \<le> 180 then Stale
              else Critical)"

definition resolve_staleness :: "env \<Rightarrow> GovernanceReputation \<Rightarrow> StalenessLevel" where
  "resolve_staleness ev r =
     (case gr_staleness_override r of AutoLevel \<Rightarrow> detect_staleness ev (gr_last_activity r) | l \<Rightarrow> l)"

fun staleness_penalty_multiplier :: "StalenessLevel \<Rightarrow> nat" where
  "staleness_penalty_multiplier AutoLevel = 10000"
| "staleness_penalty_multiplier ActiveLevel = 10000"
| "staleness_penalty_multiplier Aging = 8000"
| "staleness_penalty_multiplier Stale = 5000"
| "staleness_penalty_multiplier Critical = 2000"

text \<open>The sum of \<open>u32\<close> counters is not saturating: it traps when it does not fit.\<close>

definition compute_tier :: "GovernanceReputation \<Rightarrow> ReputationTier gres" where
  "compute_tier r =
     (let p = gr_history r;
          total_actions = ph_proposals_created p + ph_votes_cast p + ph_committee_memberships p + ph_delegations_received p
      in if u32_max < total_actions then Panic
         else Ok (if 500 \<le> total_actions then Platinum
                  else if 200 \<le> total_actions then Gold
                  else if 50 \<le> total_actions then Silver
                  else Bronze))"

section \<open>Score\<close>

definition new_history :: ParticipationHistory where
  "new_history = \<lparr>ph_proposals_created = 0, ph_proposals_succeeded = 0, ph_votes_cast = 0, ph_votes_aligned = 0,
     ph_committee_memberships = 0, ph_committee_decisions_approved = 0, ph_delegations_received = 0,
     ph_total_tokens_delegated = 0\<rparr>"

definition get_governance_reputation :: "env \<Rightarrow> gov \<Rightarrow> addr \<Rightarrow> GovernanceReputation" where
  "get_governance_reputation ev g user =
     opt_or \<lparr>gr_user = user, gr_reputation_score = 0, gr_history = new_history, gr_badges = [],
             gr_last_activity = ev_timestamp ev, gr_decay_rate = 10, gr_tier = rc_default_tier (get_reputation_config g),
             gr_grace_override = 0, gr_staleness_override = AutoLevel\<rparr>
       (rs_reputations (g_reputation g) user)"

fun badge_bonus :: "Badge \<Rightarrow> nat" where
  "badge_bonus (ActiveVoter _) = 200"
| "badge_bonus (ProposalAuthor n) = min 500 (u32_sat_mul n 100)"
| "badge_bonus (CommitteeMember _) = 300"
| "badge_bonus EarlyAdopter = 500"
| "badge_bonus TopDelegator = 400"
| "badge_bonus (ConsistentParticipant n) = min 600 (u32_sat_mul n 50)"

definition calculate_badge_bonus :: "Badge list \<Rightarrow> nat" where
  "calculate_badge_bonus bs = min 2000 (fold (\<lambda>b n. u32_sat_add n (badge_bonus b)) bs 0)"

definition ratio_score :: "nat \<Rightarrow> nat \<Rightarrow> nat" where
  "ratio_score part whole =
     min 2000 (u32_sat_mul (if whole = 0 then 0 else u32_sat_mul part 10000 div whole) 2 div 10)"

definition apply_tiered_decay :: "env \<Rightarrow> gov \<Rightarrow> nat \<Rightarrow> nat \<Rightarrow> nat \<Rightarrow> ReputationTier \<Rightarrow> nat" where
  "apply_tiered_decay ev g score last_activity grace_override tier =
     (if \<not> rc_decay_enabled (get_reputation_config g) then score
      else if ev_timestamp ev \<le> last_activity then score
      else let inactive_days = (ev_timestamp ev - last_activity) div 86400;
               grace = (if 0 < grace_override then grace_override else grace_period_days tier)
           in if inactive_days = 0 then score
              else if inactive_days \<le> grace then score
              else let capped_days = min (inactive_days - grace) (max_decay_days tier);
                       retention_factor = 10000 - decay_rate_bps tier
                   in as_u32 (((\<lambda>d. d * retention_factor div 10000) ^^ capped_days) score))"

definition base_score :: "GovernanceReputation \<Rightarrow> nat" where
  "base_score r =
     (let p = gr_history r;
          s = u32_sat_add 0 (min 2000 (u32_sat_mul (ph_proposals_created p) 100));
          s = u32_sat_add s (ratio_score (ph_proposals_succeeded p) (ph_proposals_created p));
          s = u32_sat_add s (min 2000 (u32_sat_mul (ph_votes_cast p) 20));
          s = u32_sat_add s (ratio_score (ph_votes_aligned p) (ph_votes_cast p));
          s = u32_sat_add s (min 1000 (u32_sat_mul (ph_committee_memberships p) 200));
          s = u32_sat_add s (min 1000 (u32_sat_mul (ph_delegations_received p) 50))
      in u32_sat_add s (calculate_badge_bonus (gr_badges r)))"

definition calculate_reputation_score :: "env \<Rightarrow> gov \<Rightarrow> addr \<Rightarrow> nat" where
  "calculate_reputation_score ev g user =
     (let r = get_governance_reputation ev g user;
          score = apply_tiered_decay ev g (base_score r) (gr_last_activity r) (gr_grace_override r) (gr_tier r);
          score = (if rc_stale_penalty_enabled (get_reputation_config g)
                   then as_u32 (score * staleness_penalty_multiplier (resolve_staleness ev r) div 10000) else score)
      in min MAX_REPUTATION score)"

section \<open>Recording activity\<close>

definition award :: "bool \<Rightarrow> Badge \<Rightarrow> Badge list \<Rightarrow> Badge list" where
  "award earned b bs = (if earned \<and> b \<notin> set bs then bs @ [b] else bs)"

definition check_and_award_badges :: "GovernanceReputation \<Rightarrow> GovernanceReputation" where
  "check_and_award_badges r =
     (let p = gr_history r
      in r\<lparr>gr_badges := award (100000 * PRECISION \<le> ph_total_tokens_delegated p) TopDelegator
             (award (10 \<le> ph_proposals_succeeded p) (ProposalAuthor 10)
             (award (50 \<le> ph_votes_cast p) (ActiveVoter 50) (gr_badges r)))\<rparr>)"

definition upsert_rep :: "addr \<Rightarrow> GovernanceReputation \<Rightarrow> ReputationState \<Rightarrow> ReputationState" where
  "upsert_rep user r s =
     s\<lparr>rs_users := (if rs_reputations s user = None then rs_users s @ [user] else rs_users s),
       rs_reputations := (rs_reputations s)(user \<mapsto> r)\<rparr>"

definition note_activity ::
  "env \<Rightarrow> addr \<Rightarrow> (ParticipationHistory \<Rightarrow> ParticipationHistory) \<Rightarrow> gov \<Rightarrow> unit ggcall" where
  "note_activity ev user change g =
     (let r = get_governance_reputation ev g user;
          r = r\<lparr>gr_history := change (gr_history r), gr_last_activity := ev_timestamp ev\<rparr>
      in and_then (compute_tier r, g) (\<lambda>tier g.
         let r = check_and_award_badges (r\<lparr>gr_tier := tier, gr_reputation_score := calculate_reputation_score ev g user\<rparr>)
         in (Ok (), g\<lparr>g_reputation := upsert_rep user r (g_reputation g)\<rparr>)))"

definition record_proposal_creation :: "env \<Rightarrow> addr \<Rightarrow> gov \<Rightarrow> unit ggcall" where
  "record_proposal_creation ev user =
     note_activity ev user (\<lambda>p. p\<lparr>ph_proposals_created := u32_sat_add (ph_proposals_created p) 1\<rparr>)"

definition record_vote :: "env \<Rightarrow> addr \<Rightarrow> nat \<Rightarrow> VoteType \<Rightarrow> gov \<Rightarrow> unit ggcall" where
  "record_vote ev user i vt g =
     and_then (note_activity ev user (\<lambda>p. p\<lparr>ph_votes_cast := u32_sat_add (ph_votes_cast p) 1\<rparr>) g) (\<lambda>_ g.
       (Ok (), g\<lparr>g_vote_records := (g_vote_records g)(user := (g_vote_records g user)(i \<mapsto> vt))\<rparr>))"

text \<open>
  The outcome of a proposal: the state is read once and written once, but every reputation is read
  from the storage, not from the state under construction.
\<close>

definition credit_success :: "env \<Rightarrow> gov \<Rightarrow> addr \<Rightarrow> ReputationState \<Rightarrow> ReputationState" where
  "credit_success ev g proposer s =
     (let r = get_governance_reputation ev g proposer; p = gr_history r
      in upsert_rep proposer (r\<lparr>gr_history := p\<lparr>ph_proposals_succeeded := u32_sat_add (ph_proposals_succeeded p) 1\<rparr>,
           gr_reputation_score := calculate_reputation_score ev g proposer\<rparr>) s)"

definition credit_voter :: "env \<Rightarrow> gov \<Rightarrow> Proposal \<Rightarrow> bool \<Rightarrow> addr \<Rightarrow> ReputationState \<Rightarrow> ReputationState" where
  "credit_voter ev g p outcome voter s =
     (case sget (pr_voters p) voter of None \<Rightarrow> s
      | Some v \<Rightarrow>
          if (vo_vote_type v, outcome) \<in> {(For, True), (Against, False)} then
            (let r = get_governance_reputation ev g voter; h = gr_history r
             in upsert_rep voter (r\<lparr>gr_history := h\<lparr>ph_votes_aligned := u32_sat_add (ph_votes_aligned h) 1\<rparr>,
                  gr_reputation_score := calculate_reputation_score ev g voter\<rparr>) s)
          else s)"

definition record_proposal_outcome :: "env \<Rightarrow> nat \<Rightarrow> gov \<Rightarrow> unit ggcall" where
  "record_proposal_outcome ev i g =
     and_then (get_proposal g i, g) (\<lambda>p g.
       let outcome = (pr_status p = Succeeded \<or> pr_status p = Executed);
           s = (if outcome then credit_success ev g (pr_proposer p) (g_reputation g) else g_reputation g);
           s = fold (credit_voter ev g p outcome) (pr_voter_list p) s
       in (Ok (), g\<lparr>g_reputation := s\<rparr>))"

definition refresh_stale_reputation :: "env \<Rightarrow> addr \<Rightarrow> gov \<Rightarrow> nat ggcall" where
  "refresh_stale_reputation ev user g =
     (let r = get_governance_reputation ev g user
      in and_then (compute_tier r, g) (\<lambda>tier g.
         let r = r\<lparr>gr_tier := tier, gr_reputation_score := calculate_reputation_score ev g user\<rparr>;
             g = g\<lparr>g_reputation := upsert_rep user r (g_reputation g)\<rparr>
         in (Ok (gr_reputation_score (get_governance_reputation ev g user)), g)))"

section \<open>Reputation-weighted votes\<close>

definition tally_saturating :: "VoteType \<Rightarrow> int \<Rightarrow> Proposal \<Rightarrow> Proposal" where
  "tally_saturating vt weight p =
     (case vt of
        For \<Rightarrow> p\<lparr>pr_votes_for := saturating_add (pr_votes_for p) weight\<rparr>
      | Against \<Rightarrow> p\<lparr>pr_votes_against := saturating_add (pr_votes_against p) weight\<rparr>
      | Abstain \<Rightarrow> p\<lparr>pr_votes_abstain := saturating_add (pr_votes_abstain p) weight\<rparr>)"

definition reputation_weight :: "env \<Rightarrow> gov \<Rightarrow> nat \<Rightarrow> addr \<Rightarrow> int gres" where
  "reputation_weight ev g i voter =
     (let token_power = sget_or 0 (g_snapshots g i) voter
      in if token_power \<le> 0 then Err NoVotingPower
         else let multiplier = u32_sat_add 10000 (gr_reputation_score (get_governance_reputation ev g voter) div 2)
              in res_then (gmul token_power (int multiplier)) (\<lambda>x. Ok (tdiv x 10000)))"

definition cast_reputation_weighted_vote :: "env \<Rightarrow> nat \<Rightarrow> addr \<Rightarrow> VoteType \<Rightarrow> gov \<Rightarrow> unit ggcall" where
  "cast_reputation_weighted_vote ev i voter vt = guard (\<lambda>_. signed ev voter) (\<lambda>g.
     and_then (get_proposal g i, g) (\<lambda>p g.
     and_then (require_voting_open ev voter p, g) (\<lambda>_ g.
     and_then (reputation_weight ev g i voter, g) (\<lambda>weight g.
     and_then (put_proposal (activate (tally_saturating vt weight (enter_vote ev voter vt weight p))) g) (\<lambda>_.
       record_vote ev voter i vt)))))"

section \<open>Leaderboard and reward plan\<close>

fun insert_leader :: "addr \<times> nat \<Rightarrow> (addr \<times> nat) list \<Rightarrow> (addr \<times> nat) list" where
  "insert_leader x [] = [x]"
| "insert_leader x (y # ys) = (if snd y < snd x then x # y # ys else y # insert_leader x ys)"

definition place_leader :: "gov \<Rightarrow> addr \<Rightarrow> (addr \<times> nat) list \<Rightarrow> (addr \<times> nat) list gres" where
  "place_leader g user xs =
     (case rs_reputations (g_reputation g) user of None \<Rightarrow> Panic
      | Some r \<Rightarrow> Ok (insert_leader (user, gr_reputation_score r) xs))"

definition get_reputation_leaderboard :: "gov \<Rightarrow> nat \<Rightarrow> (addr \<times> nat) list gres" where
  "get_reputation_leaderboard g limit =
     (if MAX_REPUTATION_USERS < length (rs_users (g_reputation g)) then Err IterationLimitExceeded
      else res_then (res_fold (place_leader g) (rs_users (g_reputation g)) []) (\<lambda>xs. Ok (take limit xs)))"

definition reputation_reward :: "int \<Rightarrow> nat \<Rightarrow> addr \<times> nat \<Rightarrow> (addr \<times> int) list gres" where
  "reputation_reward pool whole x =
     res_then (gmul pool (int (snd x))) (\<lambda>y. let reward = tdiv y (int whole)
       in Ok (if 0 < reward then [(fst x, reward)] else []))"

definition distribute_reputation_rewards :: "gov \<Rightarrow> int \<Rightarrow> (addr \<times> int) list gres" where
  "distribute_reputation_rewards g pool =
     (if pool \<le> 0 then Err InvalidAmount
      else res_then (get_reputation_leaderboard g 100) (\<lambda>leaders.
           let whole = fold (\<lambda>x n. u32_sat_add n (snd x)) leaders 0
           in if whole = 0 then Ok [] else res_collect (reputation_reward pool whole) leaders))"

end
