(* ===== verification/GovEntry.thy ===== *)
theory GovEntry
  imports GovTimelock GovReputation
begin

text \<open>
  The entry points of the governance contract (\<open>governance/src/lib.rs\<close>) over the modules. Where an entry
  point has the name of the module function it guards, its name ends in \<open>_entry\<close>. The entry points of
  committees and conviction voting are in \<open>CouncilEntry\<close>; pure getters are left out. The propagation of
  a pause to the registered contracts (\<open>propagate_pause_to_downstream\<close>) drops their answers and has no
  effect on this contract.
\<close>

definition DEFAULT_LIQUIDITY_REWARD_BPS :: nat where "DEFAULT_LIQUIDITY_REWARD_BPS = 100"
definition DEFAULT_MIN_CLAIM_THRESHOLD :: int where "DEFAULT_MIN_CLAIM_THRESHOLD = 100"

section \<open>Initialisation and keys\<close>

text \<open>
  The instance storage the initialisation resets. Rewards, vesting schedules, vote locks, deposits,
  snapshots and expiries are in persistent storage and stay.
\<close>

definition reset_storage :: "addr \<Rightarrow> TokenMetadata \<Rightarrow> gov \<Rightarrow> gov" where
  "reset_storage admin m g =
     g\<lparr>g_admin := Some admin,
       g_books := (g_books g)\<lparr>bk_metadata := Some m, bk_balances := [], bk_staked := [], bk_holders := []\<rparr>,
       g_treasury_state := empty_treasury,
       g_config := Some default_governance_config,
       g_proposals := [], g_proposal_ids := [], g_next_proposal_id := 1,
       g_delegations := (\<lambda>_. None), g_delegators := [],
       g_reputation := \<lparr>rs_reputations = (\<lambda>_. None), rs_users = []\<rparr>,
       g_parameters := (\<lambda>_. None), g_features := (\<lambda>_. None), g_upgrades := (\<lambda>_. None),
       g_vote_records := (\<lambda>_ _. None),
       g_committees := empty_committees_state, g_conviction := empty_conviction_state\<rparr>"

definition track_recipients :: "DistributionRecipients \<Rightarrow> gov_books \<Rightarrow> gov_books" where
  "track_recipients r b =
     fold track_holder [dr_team r, dr_early_investors r, dr_community_rewards r, dr_treasury r, dr_public_sale r] b"

definition initialize :: "env \<Rightarrow> addr \<Rightarrow> string \<Rightarrow> string \<Rightarrow> nat \<Rightarrow> int \<Rightarrow> DistributionRecipients \<Rightarrow> gov \<Rightarrow> unit ggcall" where
  "initialize ev admin name symb decimals supply r = guard (\<lambda>_. signed ev admin) (\<lambda>g.
     if is_initialized (bk_initialized (g_books g)) then (Err AlreadyInitialized, g)
     else if supply \<le> 0 then (Err InvalidSupply, g)
     else if name = [] \<or> symb = [] then (Err InvalidMetadata, g)
     else let m = \<lparr>gt_name = name, gt_symbol = symb, gt_decimals = decimals, gt_total_supply = supply\<rparr>;
              g = reset_storage admin m g
          in and_then (on_books (initialize_distribution ev r supply DEFAULT_LIQUIDITY_REWARD_BPS DEFAULT_MIN_CLAIM_THRESHOLD
                                   (g_books g)) g) (\<lambda>_ g.
             (Ok (), g\<lparr>g_books := track_recipients r ((g_books g)\<lparr>bk_initialized := Some True\<rparr>),
                      g_storage_version := Some 1, g_pause := set_paused False (g_pause g),
                      g_treasury_address := Some (dr_treasury r)\<rparr>)))"

definition propose_key_rotation :: "env \<Rightarrow> addr \<Rightarrow> addr \<Rightarrow> gov \<Rightarrow> unit ggcall" where
  "propose_key_rotation ev admin new_admin = guard (require_admin ev admin) (\<lambda>g.
     if new_admin = admin then (Err InvalidMetadata, g) else (Ok (), g\<lparr>g_pending_admin := Some new_admin\<rparr>))"

text \<open>The acceptance asks for no authorisation of the new admin.\<close>

definition accept_key_rotation :: "env \<Rightarrow> addr \<Rightarrow> gov \<Rightarrow> unit ggcall" where
  "accept_key_rotation ev new_admin g =
     and_then (ok_or Unauthorized (g_pending_admin g), g) (\<lambda>pending g.
     if pending \<noteq> new_admin then (Err Unauthorized, g)
     else (Ok (), g\<lparr>g_admin := Some new_admin, g_pending_admin := None\<rparr>))"

definition cancel_key_rotation :: "env \<Rightarrow> addr \<Rightarrow> gov \<Rightarrow> unit ggcall" where
  "cancel_key_rotation ev admin = guard (require_admin ev admin) (\<lambda>g. (Ok (), g\<lparr>g_pending_admin := None\<rparr>))"

definition emergency_revoke_admin :: "env \<Rightarrow> addr \<Rightarrow> gov \<Rightarrow> unit ggcall" where
  "emergency_revoke_admin ev guardian g =
     and_then (ok_or Unauthorized (g_guardian g), g) (\<lambda>stored g.
     if stored \<noteq> guardian then (Err Unauthorized, g)
     else guard (\<lambda>_. signed ev guardian) (\<lambda>g.
       (Ok (), g\<lparr>g_admin := None, g_pending_admin := None, g_books := (g_books g)\<lparr>bk_initialized := None\<rparr>\<rparr>)) g)"

definition set_contract_paused :: "env \<Rightarrow> addr \<Rightarrow> bool \<Rightarrow> gov \<Rightarrow> unit ggcall" where
  "set_contract_paused ev admin paused = guard (require_gov_capability ev admin CapPause) (\<lambda>g.
     (Ok (), g\<lparr>g_pause := set_paused paused (g_pause g)\<rparr>))"

definition register_pause_target :: "env \<Rightarrow> addr \<Rightarrow> addr \<Rightarrow> gov \<Rightarrow> unit ggcall" where
  "register_pause_target ev admin target = guard (require_gov_capability ev admin CapPause) (\<lambda>g.
     (Ok (), g\<lparr>g_pause_targets := push_new target (g_pause_targets g)\<rparr>))"

definition unregister_pause_target :: "env \<Rightarrow> addr \<Rightarrow> addr \<Rightarrow> gov \<Rightarrow> unit ggcall" where
  "unregister_pause_target ev admin target = guard (require_gov_capability ev admin CapPause) (\<lambda>g.
     (Ok (), g\<lparr>g_pause_targets := filter (\<lambda>t. t \<noteq> target) (g_pause_targets g)\<rparr>))"

definition enforce_admin_timelock :: "env \<Rightarrow> addr \<Rightarrow> gov \<Rightarrow> unit ggcall" where
  "enforce_admin_timelock ev admin = guard (require_admin ev admin) (\<lambda>g. (Ok (), g\<lparr>g_enforce_timelock := Some True\<rparr>))"

definition migrate_storage :: "env \<Rightarrow> addr \<Rightarrow> nat \<Rightarrow> gov \<Rightarrow> nat ggcall" where
  "migrate_storage ev admin from_version = guard (require_admin ev admin) (\<lambda>g.
     let current = opt_or 0 (g_storage_version g)
     in if current = 1 then (Ok 1, g)
        else if from_version \<noteq> 0 \<or> current \<noteq> from_version then (Err InvalidGovernanceConfig, g)
        else let g = g\<lparr>g_migrating := Some True\<rparr>
             in if g_next_proposal_id g = 0 then (Err InvalidProposal, g)
                else (Ok 1, g\<lparr>g_storage_version := Some 1, g_migrating := None\<rparr>))"

section \<open>Guarded forms\<close>

text \<open>
  An operation of the second category of the audit has three entry points: a direct one, closed once the
  timelock is enforced; one that queues it; and one that runs it after the delay. The queueing entry
  points drop the arguments, the running ones drop the type of the queued action.
\<close>

definition initialized :: "(gov \<Rightarrow> 'a ggcall) \<Rightarrow> gov \<Rightarrow> 'a ggcall" where
  "initialized = guard require_initialized"

definition unpaused :: "(gov \<Rightarrow> 'a ggcall) \<Rightarrow> gov \<Rightarrow> 'a ggcall" where
  "unpaused k = initialized (guard require_unpaused k)"

definition direct :: "env \<Rightarrow> addr \<Rightarrow> (gov \<Rightarrow> 'a ggcall) \<Rightarrow> gov \<Rightarrow> 'a ggcall" where
  "direct ev admin k = guard (require_admin ev admin) (guard require_no_timelock_bypass k)"

definition queue_as :: "symbol \<Rightarrow> env \<Rightarrow> addr \<Rightarrow> gov \<Rightarrow> nat ggcall" where
  "queue_as symb ev admin = guard (require_admin ev admin) (queue_admin_action ev admin symb)"

definition with_entry :: "env \<Rightarrow> addr \<Rightarrow> nat \<Rightarrow> (gov \<Rightarrow> 'a ggcall) \<Rightarrow> gov \<Rightarrow> 'a ggcall" where
  "with_entry ev caller i k g = and_then (execute_admin_action ev i caller g) (\<lambda>_. k)"

definition timelocked :: "env \<Rightarrow> addr \<Rightarrow> nat \<Rightarrow> (gov \<Rightarrow> 'a ggcall) \<Rightarrow> gov \<Rightarrow> 'a ggcall" where
  "timelocked ev admin i k = guard (require_admin_identity admin) (with_entry ev admin i k)"

section \<open>Governance settings\<close>

definition configure_governance :: "env \<Rightarrow> addr \<Rightarrow> GovernanceConfig \<Rightarrow> gov \<Rightarrow> GovernanceConfig ggcall" where
  "configure_governance ev admin c =
     guard (require_gov_capability ev admin CapParameterChange) (guard require_no_timelock_bypass (put_governance_config c))"

definition configure_governance_timelocked :: "env \<Rightarrow> addr \<Rightarrow> nat \<Rightarrow> GovernanceConfig \<Rightarrow> gov \<Rightarrow> GovernanceConfig ggcall" where
  "configure_governance_timelocked ev admin i c = initialized (with_entry ev admin i (put_governance_config c))"

definition set_category_thresholds :: "env \<Rightarrow> addr \<Rightarrow> ProposalCategory \<Rightarrow> CategoryThreshold \<Rightarrow> gov \<Rightarrow> unit ggcall" where
  "set_category_thresholds ev admin c t =
     guard (require_gov_capability ev admin CapParameterChange)
       (guard require_no_timelock_bypass (store_category_thresholds ev admin c t))"

definition category_thresholds_timelocked :: "env \<Rightarrow> addr \<Rightarrow> nat \<Rightarrow> ProposalCategory \<Rightarrow> CategoryThreshold \<Rightarrow> gov \<Rightarrow> unit ggcall" where
  "category_thresholds_timelocked ev admin i c t = initialized (with_entry ev admin i (store_category_thresholds ev admin c t))"

definition set_deposit_config :: "env \<Rightarrow> addr \<Rightarrow> DepositConfig \<Rightarrow> gov \<Rightarrow> unit ggcall" where
  "set_deposit_config ev admin c =
     guard (require_gov_capability ev admin CapParameterChange)
       (guard (require_admin ev admin) (\<lambda>g. on_books (put_deposit_config c (g_books g)) g))"

definition initialize_timelock :: "env \<Rightarrow> addr \<Rightarrow> nat \<Rightarrow> nat \<Rightarrow> addr \<Rightarrow> gov \<Rightarrow> Timelock ggcall" where
  "initialize_timelock ev admin min_delay max_delay guardian =
     guard (require_gov_capability ev admin CapParameterChange) (start_timelock min_delay max_delay guardian)"

definition update_timelock_delay :: "env \<Rightarrow> addr \<Rightarrow> ActionType \<Rightarrow> nat \<Rightarrow> gov \<Rightarrow> unit ggcall" where
  "update_timelock_delay ev admin at d = direct ev admin (set_timelock_delay at d)"

definition update_timelock_delay_timelocked :: "env \<Rightarrow> addr \<Rightarrow> nat \<Rightarrow> ActionType \<Rightarrow> nat \<Rightarrow> gov \<Rightarrow> unit ggcall" where
  "update_timelock_delay_timelocked ev admin i at d = timelocked ev admin i (set_timelock_delay at d)"

definition extend_execution_window :: "env \<Rightarrow> addr \<Rightarrow> nat \<Rightarrow> nat \<Rightarrow> gov \<Rightarrow> nat ggcall" where
  "extend_execution_window ev admin i extension = guard (require_admin ev admin) (extend_window i extension)"

definition set_treasury_spend_window :: "env \<Rightarrow> addr \<Rightarrow> nat \<Rightarrow> int \<Rightarrow> gov \<Rightarrow> unit ggcall" where
  "set_treasury_spend_window ev admin secs cap = guard (require_admin ev admin) (configure_window ev secs cap)"

definition update_reputation_config :: "env \<Rightarrow> addr \<Rightarrow> ReputationConfig \<Rightarrow> gov \<Rightarrow> ReputationConfig ggcall" where
  "update_reputation_config ev admin c = guard (require_admin ev admin) (\<lambda>g. (Ok c, g\<lparr>g_reputation_config := Some c\<rparr>))"

definition store_guardian :: "addr \<Rightarrow> gov \<Rightarrow> unit ggcall" where
  "store_guardian a g = (Ok (), g\<lparr>g_guardian := Some a\<rparr>)"

definition set_guardian :: "env \<Rightarrow> addr \<Rightarrow> addr \<Rightarrow> gov \<Rightarrow> unit ggcall" where
  "set_guardian ev admin a = direct ev admin (store_guardian a)"

definition set_guardian_timelocked :: "env \<Rightarrow> addr \<Rightarrow> nat \<Rightarrow> addr \<Rightarrow> gov \<Rightarrow> unit ggcall" where
  "set_guardian_timelocked ev admin i a = timelocked ev admin i (store_guardian a)"

section \<open>Capabilities\<close>

definition change_grant :: "bool \<Rightarrow> addr \<Rightarrow> addr \<Rightarrow> Capability \<Rightarrow> gov \<Rightarrow> unit ggcall" where
  "change_grant granted caller target c g =
     (Ok (), g\<lparr>g_authority := (if granted then grant_capability else revoke_capability) caller target c (g_authority g)\<rparr>)"

definition grant_capability_entry :: "env \<Rightarrow> addr \<Rightarrow> addr \<Rightarrow> Capability \<Rightarrow> gov \<Rightarrow> unit ggcall" where
  "grant_capability_entry ev caller target c =
     guard (require_gov_capability ev caller CapSuperAdmin)
       (guard require_no_timelock_bypass (change_grant True caller target c))"

definition revoke_capability_entry :: "env \<Rightarrow> addr \<Rightarrow> addr \<Rightarrow> Capability \<Rightarrow> gov \<Rightarrow> unit ggcall" where
  "revoke_capability_entry ev caller target c =
     guard (require_gov_capability ev caller CapSuperAdmin)
       (guard require_no_timelock_bypass (change_grant False caller target c))"

definition queue_grant_capability :: "env \<Rightarrow> addr \<Rightarrow> gov \<Rightarrow> nat ggcall" where
  "queue_grant_capability ev caller = initialized (queue_admin_action ev caller ''capgrant'')"

definition queue_revoke_capability :: "env \<Rightarrow> addr \<Rightarrow> gov \<Rightarrow> nat ggcall" where
  "queue_revoke_capability ev caller = initialized (queue_admin_action ev caller ''caprevk'')"

definition grant_capability_timelocked :: "env \<Rightarrow> addr \<Rightarrow> nat \<Rightarrow> addr \<Rightarrow> Capability \<Rightarrow> gov \<Rightarrow> unit ggcall" where
  "grant_capability_timelocked ev caller i target c = initialized (with_entry ev caller i (change_grant True caller target c))"

definition revoke_capability_timelocked :: "env \<Rightarrow> addr \<Rightarrow> nat \<Rightarrow> addr \<Rightarrow> Capability \<Rightarrow> gov \<Rightarrow> unit ggcall" where
  "revoke_capability_timelocked ev caller i target c = initialized (with_entry ev caller i (change_grant False caller target c))"

section \<open>Queueing entry points\<close>

definition queue_set_treasury_asset :: "env \<Rightarrow> addr \<Rightarrow> gov \<Rightarrow> nat ggcall" where
  "queue_set_treasury_asset = queue_as ''trasset''"

definition queue_execute_treasury_spend :: "env \<Rightarrow> addr \<Rightarrow> gov \<Rightarrow> nat ggcall" where
  "queue_execute_treasury_spend = queue_as ''tspspend''"

definition queue_configure_governance :: "env \<Rightarrow> addr \<Rightarrow> gov \<Rightarrow> nat ggcall" where
  "queue_configure_governance = queue_as ''govcfg''"

definition queue_set_category_thresholds :: "env \<Rightarrow> addr \<Rightarrow> gov \<Rightarrow> nat ggcall" where
  "queue_set_category_thresholds = queue_as ''catthresh''"

definition queue_create_committee :: "env \<Rightarrow> addr \<Rightarrow> gov \<Rightarrow> nat ggcall" where
  "queue_create_committee = queue_as ''cmtadd''"

definition queue_dissolve_committee :: "env \<Rightarrow> addr \<Rightarrow> gov \<Rightarrow> nat ggcall" where
  "queue_dissolve_committee = queue_as ''cmtdrop''"

definition queue_committee_override :: "env \<Rightarrow> addr \<Rightarrow> gov \<Rightarrow> nat ggcall" where
  "queue_committee_override = queue_as ''cmtover''"

definition queue_set_guardian :: "env \<Rightarrow> addr \<Rightarrow> gov \<Rightarrow> nat ggcall" where
  "queue_set_guardian = queue_as ''setguard''"

definition queue_create_budget :: "env \<Rightarrow> addr \<Rightarrow> gov \<Rightarrow> nat ggcall" where
  "queue_create_budget = queue_as ''budget''"

definition queue_approve_treasury_budget :: "env \<Rightarrow> addr \<Rightarrow> gov \<Rightarrow> nat ggcall" where
  "queue_approve_treasury_budget = queue_as ''budgapprv''"

definition queue_create_recurring_payment :: "env \<Rightarrow> addr \<Rightarrow> gov \<Rightarrow> nat ggcall" where
  "queue_create_recurring_payment = queue_as ''recur''"

definition queue_enter_shadow_mode :: "env \<Rightarrow> addr \<Rightarrow> gov \<Rightarrow> nat ggcall" where
  "queue_enter_shadow_mode = queue_as ''shadow''"

definition queue_promote_from_shadow_mode :: "env \<Rightarrow> addr \<Rightarrow> gov \<Rightarrow> nat ggcall" where
  "queue_promote_from_shadow_mode = queue_as ''shpromt''"

definition queue_update_timelock_delay :: "env \<Rightarrow> addr \<Rightarrow> gov \<Rightarrow> nat ggcall" where
  "queue_update_timelock_delay = queue_as ''tlupdate''"

definition queue_create_vesting_schedule :: "env \<Rightarrow> addr \<Rightarrow> gov \<Rightarrow> nat ggcall" where
  "queue_create_vesting_schedule = queue_as ''vestadd''"

definition queue_set_rebalance_target :: "env \<Rightarrow> addr \<Rightarrow> gov \<Rightarrow> nat ggcall" where
  "queue_set_rebalance_target = queue_as ''target''"

section \<open>Proposals\<close>

definition create_proposal_entry ::
  "env \<Rightarrow> addr \<Rightarrow> ProposalType \<Rightarrow> string \<Rightarrow> string \<Rightarrow> bytes \<Rightarrow> ProposalCategory \<Rightarrow> bool \<Rightarrow> gov \<Rightarrow> nat ggcall" where
  "create_proposal_entry ev proposer ptype title description payload category quadratic = unpaused (\<lambda>g.
     and_then (create_proposal ev proposer ptype title description payload category quadratic g) (\<lambda>i g.
     and_then (on_books (lock_proposal_deposit i proposer (g_books g)) g) (\<lambda>_ g.
     and_then (dropping_error (record_proposal_creation ev proposer g)) (\<lambda>_ g. (Ok i, g)))))"

definition cast_vote_entry :: "env \<Rightarrow> nat \<Rightarrow> addr \<Rightarrow> VoteType \<Rightarrow> gov \<Rightarrow> unit ggcall" where
  "cast_vote_entry ev i voter vt = unpaused (\<lambda>g.
     and_then (cast_vote ev i voter vt g) (\<lambda>_ g. dropping_error (record_vote ev voter i vt g)))"

definition settle_deposit :: "nat \<Rightarrow> gov \<Rightarrow> unit ggcall" where
  "settle_deposit i g =
     (case sget (g_proposals g) i of None \<Rightarrow> (Panic, g)
      | Some p \<Rightarrow>
          let supply = (case get_total_supply (g_books g) of Ok s \<Rightarrow> s | _ \<Rightarrow> 0)
          in dropping_error (on_books (settle_proposal_deposit i (total_votes p) supply
               (opt_or (pr_proposer p) (g_treasury_address g)) (g_books g)) g))"

definition finalize_proposal_entry :: "env \<Rightarrow> nat \<Rightarrow> gov \<Rightarrow> ProposalStatus ggcall" where
  "finalize_proposal_entry ev i = unpaused (\<lambda>g.
     and_then (finalize_proposal ev i g) (\<lambda>status g.
     and_then (dropping_error (record_proposal_outcome ev i g)) (\<lambda>_ g.
     and_then (settle_deposit i g) (\<lambda>_ g. (Ok status, g)))))"

definition execute_proposal_entry :: "env \<Rightarrow> nat \<Rightarrow> addr \<Rightarrow> gov \<Rightarrow> ProposalStatus ggcall" where
  "execute_proposal_entry ev i executor = unpaused (execute_proposal ev i executor)"

definition cleanup_proposals :: "env \<Rightarrow> nat \<Rightarrow> nat \<Rightarrow> gov \<Rightarrow> nat ggcall" where
  "cleanup_proposals ev cursor limit = initialized (cleanup_terminal_proposals ev cursor limit)"

definition cancel_proposal_entry :: "env \<Rightarrow> nat \<Rightarrow> addr \<Rightarrow> gov \<Rightarrow> ProposalStatus ggcall" where
  "cancel_proposal_entry ev i canceller = initialized (cancel_proposal ev i canceller)"

definition reclaim_expired_proposal_entry :: "env \<Rightarrow> nat \<Rightarrow> addr \<Rightarrow> gov \<Rightarrow> unit ggcall" where
  "reclaim_expired_proposal_entry ev i caller = unpaused (reclaim_expired_proposal ev i caller)"

definition withdraw_proposal_entry :: "env \<Rightarrow> nat \<Rightarrow> addr \<Rightarrow> gov \<Rightarrow> ProposalStatus ggcall" where
  "withdraw_proposal_entry ev i proposer = unpaused (withdraw_proposal ev i proposer)"

fun projected_values :: "gov \<Rightarrow> ProposalType \<Rightarrow> int \<times> int" where
  "projected_values g (ParameterChange key expected v) = (opt_or 0 (g_parameters g key), v)"
| "projected_values g (TreasurySpending recipient amount a purpose) =
     (balance_of (g_treasury_state g) a, saturating_sub (balance_of (g_treasury_state g) a) amount)"
| "projected_values g (FeatureToggle name enabled) =
     (of_bool (opt_or False (g_features g name)), of_bool enabled)"
| "projected_values g (ContractUpgrade name hash) = (0, 1)"
| "projected_values g (SignalProposal txt) = (0, 0)"
| "projected_values g (Custom executor) = (0, 0)"

definition simulate_execution :: "env \<Rightarrow> nat \<Rightarrow> gov \<Rightarrow> ExecutionSimulationResult gres" where
  "simulate_execution ev i g =
     res_then (require_initialized g) (\<lambda>_. res_then (get_proposal g i) (\<lambda>p.
       Ok \<lparr>es_proposal_id = i, es_simulation_timestamp = ev_timestamp ev, es_would_succeed = (pr_status p = Succeeded),
           es_old_value = fst (projected_values g (pr_proposal_type p)),
           es_new_value = snd (projected_values g (pr_proposal_type p))\<rparr>))"

definition delegate_voting_power_entry :: "env \<Rightarrow> addr \<Rightarrow> addr \<Rightarrow> gov \<Rightarrow> unit ggcall" where
  "delegate_voting_power_entry ev delegator delegate = initialized (delegate_voting_power ev delegator delegate)"

definition delegate_voting_power_until :: "env \<Rightarrow> addr \<Rightarrow> addr \<Rightarrow> nat \<Rightarrow> gov \<Rightarrow> unit ggcall" where
  "delegate_voting_power_until ev delegator delegate e = initialized (delegate_until ev delegator delegate e)"

definition renew_delegation :: "env \<Rightarrow> addr \<Rightarrow> nat \<Rightarrow> gov \<Rightarrow> unit ggcall" where
  "renew_delegation ev delegator e = initialized (renew ev delegator e)"

definition undelegate_voting_power_entry :: "env \<Rightarrow> addr \<Rightarrow> gov \<Rightarrow> unit ggcall" where
  "undelegate_voting_power_entry ev delegator = initialized (undelegate_voting_power ev delegator)"

definition cast_reputation_weighted_vote_entry :: "env \<Rightarrow> nat \<Rightarrow> addr \<Rightarrow> VoteType \<Rightarrow> gov \<Rightarrow> unit ggcall" where
  "cast_reputation_weighted_vote_entry ev i voter vt = initialized (cast_reputation_weighted_vote ev i voter vt)"

definition refresh_reputation :: "env \<Rightarrow> addr \<Rightarrow> gov \<Rightarrow> nat ggcall" where
  "refresh_reputation ev user = initialized (refresh_stale_reputation ev user)"

section \<open>Timelock\<close>

definition queue_action_entry :: "env \<Rightarrow> nat \<Rightarrow> gov \<Rightarrow> nat ggcall" where
  "queue_action_entry ev i = unpaused (queue_action ev i)"

definition execute_queued_action_entry :: "env \<Rightarrow> nat \<Rightarrow> addr \<Rightarrow> gov \<Rightarrow> unit ggcall" where
  "execute_queued_action_entry ev i executor = unpaused (execute_queued_action ev i executor)"

definition execute_multiple_actions_entry :: "env \<Rightarrow> nat list \<Rightarrow> addr \<Rightarrow> gov \<Rightarrow> nat list ggcall" where
  "execute_multiple_actions_entry ev ids executor = unpaused (execute_multiple_actions ev ids executor)"

definition cancel_queued_action_entry :: "env \<Rightarrow> nat \<Rightarrow> addr \<Rightarrow> gov \<Rightarrow> unit ggcall" where
  "cancel_queued_action_entry ev i canceller = initialized (cancel_queued_action ev i canceller)"

definition emergency_execute_entry :: "env \<Rightarrow> nat \<Rightarrow> addr \<Rightarrow> gov \<Rightarrow> unit ggcall" where
  "emergency_execute_entry ev i guardian = initialized (emergency_execute ev i guardian)"

definition emergency_unblock_action_entry :: "env \<Rightarrow> nat \<Rightarrow> addr \<Rightarrow> gov \<Rightarrow> unit ggcall" where
  "emergency_unblock_action_entry ev i guardian = initialized (emergency_unblock_action ev i guardian)"

definition cancel_admin_action :: "env \<Rightarrow> nat \<Rightarrow> addr \<Rightarrow> gov \<Rightarrow> unit ggcall" where
  "cancel_admin_action ev i canceller = initialized (cancel_entry ev i canceller)"

section \<open>Shadow mode\<close>

definition enter_shadow_mode :: "env \<Rightarrow> addr \<Rightarrow> bytes \<Rightarrow> nat \<Rightarrow> gov \<Rightarrow> ShadowModeState ggcall" where
  "enter_shadow_mode ev admin hash duration =
     initialized (guard require_no_timelock_bypass (start_shadow_mode ev admin hash duration))"

definition promote_from_shadow_mode :: "env \<Rightarrow> addr \<Rightarrow> gov \<Rightarrow> unit ggcall" where
  "promote_from_shadow_mode ev admin = initialized (guard require_no_timelock_bypass (promote_shadow ev admin))"

definition cancel_shadow_mode :: "env \<Rightarrow> addr \<Rightarrow> gov \<Rightarrow> unit ggcall" where
  "cancel_shadow_mode ev admin = initialized (drop_shadow ev admin)"

definition enter_shadow_mode_timelocked :: "env \<Rightarrow> addr \<Rightarrow> nat \<Rightarrow> bytes \<Rightarrow> nat \<Rightarrow> gov \<Rightarrow> ShadowModeState ggcall" where
  "enter_shadow_mode_timelocked ev admin i hash duration =
     initialized (with_entry ev admin i (start_shadow_mode ev admin hash duration))"

definition shadow_mode_promote_timelocked :: "env \<Rightarrow> addr \<Rightarrow> nat \<Rightarrow> gov \<Rightarrow> unit ggcall" where
  "shadow_mode_promote_timelocked ev admin i = initialized (with_entry ev admin i (promote_shadow ev admin))"

section \<open>Token\<close>

definition stake_entry :: "env \<Rightarrow> addr \<Rightarrow> int \<Rightarrow> gov \<Rightarrow> unit ggcall" where
  "stake_entry ev user amount = unpaused (guard (\<lambda>_. signed ev user) (\<lambda>g. on_books (stake user amount (g_books g)) g))"

definition unstake_entry :: "env \<Rightarrow> addr \<Rightarrow> int \<Rightarrow> gov \<Rightarrow> unit ggcall" where
  "unstake_entry ev user amount = unpaused (guard (\<lambda>_. signed ev user) (\<lambda>g. on_books (unstake user amount (g_books g)) g))"

definition set_vote_lock_entry :: "env \<Rightarrow> addr \<Rightarrow> addr \<Rightarrow> nat \<Rightarrow> gov \<Rightarrow> unit ggcall" where
  "set_vote_lock_entry ev admin h n = guard (require_admin ev admin) (\<lambda>g. on_books (set_vote_lock h n (g_books g)) g)"

definition accrue_liquidity_rewards_entry :: "env \<Rightarrow> addr \<Rightarrow> addr \<Rightarrow> int \<Rightarrow> gov \<Rightarrow> int ggcall" where
  "accrue_liquidity_rewards_entry ev admin h volume =
     guard (require_admin ev admin) (\<lambda>g. on_books (accrue_liquidity_rewards h volume (g_books g)) g)"

definition claim_liquidity_rewards_entry :: "env \<Rightarrow> addr \<Rightarrow> gov \<Rightarrow> int ggcall" where
  "claim_liquidity_rewards_entry ev h =
     initialized (guard (\<lambda>_. signed ev h) (\<lambda>g. on_books (claim_liquidity_rewards h (g_books g)) g))"

definition set_liquidity_mining_config :: "env \<Rightarrow> addr \<Rightarrow> nat \<Rightarrow> int \<Rightarrow> gov \<Rightarrow> DistributionState ggcall" where
  "set_liquidity_mining_config ev admin bps min_claim =
     guard (require_admin ev admin) (\<lambda>g. on_books (update_reward_config bps min_claim (g_books g)) g)"

definition release_vested_tokens_entry :: "env \<Rightarrow> addr \<Rightarrow> gov \<Rightarrow> int ggcall" where
  "release_vested_tokens_entry ev h =
     initialized (guard (\<lambda>_. signed ev h) (\<lambda>g. on_books (release_vested_tokens ev h (g_books g)) g))"

definition grant_vesting :: "addr \<Rightarrow> int \<Rightarrow> nat \<Rightarrow> nat \<Rightarrow> nat \<Rightarrow> gov \<Rightarrow> unit ggcall" where
  "grant_vesting h amount start cliff duration g =
     on_books (and_then (put_schedule h CustomVesting amount start cliff duration (g_books g)) (\<lambda>_ b. (Ok (), track_holder h b))) g"

definition create_vesting_schedule :: "env \<Rightarrow> addr \<Rightarrow> addr \<Rightarrow> int \<Rightarrow> nat \<Rightarrow> nat \<Rightarrow> nat \<Rightarrow> gov \<Rightarrow> unit ggcall" where
  "create_vesting_schedule ev admin h amount start cliff duration = direct ev admin (grant_vesting h amount start cliff duration)"

definition vesting_schedule_timelocked ::
  "env \<Rightarrow> addr \<Rightarrow> nat \<Rightarrow> addr \<Rightarrow> int \<Rightarrow> nat \<Rightarrow> nat \<Rightarrow> nat \<Rightarrow> gov \<Rightarrow> unit ggcall" where
  "vesting_schedule_timelocked ev admin i h amount start cliff duration =
     timelocked ev admin i (grant_vesting h amount start cliff duration)"

section \<open>Treasury\<close>

definition in_treasury :: "(Treasury \<Rightarrow> 'a tcall) \<Rightarrow> gov \<Rightarrow> 'a ggcall" where
  "in_treasury f g = on_treasury (f (g_treasury_state g)) g"

definition set_treasury_asset :: "env \<Rightarrow> addr \<Rightarrow> asset \<Rightarrow> int \<Rightarrow> gov \<Rightarrow> unit ggcall" where
  "set_treasury_asset ev admin a amount = direct ev admin (in_treasury (set_asset_balance a amount))"

definition set_treasury_asset_timelocked :: "env \<Rightarrow> addr \<Rightarrow> nat \<Rightarrow> asset \<Rightarrow> int \<Rightarrow> gov \<Rightarrow> unit ggcall" where
  "set_treasury_asset_timelocked ev admin i a amount = timelocked ev admin i (in_treasury (set_asset_balance a amount))"

definition create_budget :: "env \<Rightarrow> addr \<Rightarrow> string \<Rightarrow> int \<Rightarrow> int \<Rightarrow> nat \<Rightarrow> nat \<Rightarrow> bool \<Rightarrow> gov \<Rightarrow> Budget ggcall" where
  "create_budget ev admin c allocated limit period_start period_end auto_renew =
     direct ev admin (in_treasury (upsert_budget c allocated limit period_start period_end auto_renew))"

definition create_budget_timelocked ::
  "env \<Rightarrow> addr \<Rightarrow> nat \<Rightarrow> string \<Rightarrow> int \<Rightarrow> int \<Rightarrow> nat \<Rightarrow> nat \<Rightarrow> bool \<Rightarrow> gov \<Rightarrow> Budget ggcall" where
  "create_budget_timelocked ev admin i c allocated limit period_start period_end auto_renew =
     timelocked ev admin i (in_treasury (upsert_budget c allocated limit period_start period_end auto_renew))"

definition approve_treasury_budget :: "env \<Rightarrow> addr \<Rightarrow> string \<Rightarrow> nat \<Rightarrow> int \<Rightarrow> gov \<Rightarrow> BudgetApproval ggcall" where
  "approve_treasury_budget ev admin c pid cap = direct ev admin (in_treasury (approve_budget c pid cap (ev_timestamp ev)))"

definition treasury_budget_timelocked :: "env \<Rightarrow> addr \<Rightarrow> nat \<Rightarrow> string \<Rightarrow> nat \<Rightarrow> int \<Rightarrow> gov \<Rightarrow> BudgetApproval ggcall" where
  "treasury_budget_timelocked ev admin i c pid cap = timelocked ev admin i (in_treasury (approve_budget c pid cap (ev_timestamp ev)))"

definition spend_in_window ::
  "env \<Rightarrow> addr \<Rightarrow> int \<Rightarrow> asset \<Rightarrow> string \<Rightarrow> string \<Rightarrow> nat option \<Rightarrow> gov \<Rightarrow> TreasurySpend ggcall" where
  "spend_in_window ev recipient amount a c purpose approved_by g =
     and_then (consume ev amount g) (\<lambda>_.
       in_treasury (execute_spend recipient amount a c purpose approved_by (ev_timestamp ev)))"

definition execute_treasury_spend ::
  "env \<Rightarrow> addr \<Rightarrow> addr \<Rightarrow> int \<Rightarrow> asset \<Rightarrow> string \<Rightarrow> string \<Rightarrow> nat option \<Rightarrow> gov \<Rightarrow> TreasurySpend ggcall" where
  "execute_treasury_spend ev admin recipient amount a c purpose approved_by =
     direct ev admin (spend_in_window ev recipient amount a c purpose approved_by)"

definition treasury_spend_timelocked ::
  "env \<Rightarrow> addr \<Rightarrow> nat \<Rightarrow> addr \<Rightarrow> int \<Rightarrow> asset \<Rightarrow> string \<Rightarrow> string \<Rightarrow> nat option \<Rightarrow> gov \<Rightarrow> TreasurySpend ggcall" where
  "treasury_spend_timelocked ev admin i recipient amount a c purpose approved_by =
     timelocked ev admin i (spend_in_window ev recipient amount a c purpose approved_by)"

definition create_recurring_payment ::
  "env \<Rightarrow> addr \<Rightarrow> addr \<Rightarrow> int \<Rightarrow> asset \<Rightarrow> nat \<Rightarrow> string \<Rightarrow> string \<Rightarrow> nat option \<Rightarrow> nat option \<Rightarrow> gov \<Rightarrow> RecurringPayment ggcall" where
  "create_recurring_payment ev admin recipient amount a frequency c purpose approved_by end_date =
     direct ev admin (in_treasury (schedule_recurring_payment ev recipient amount a frequency c purpose approved_by end_date))"

definition recurring_payment_timelocked ::
  "env \<Rightarrow> addr \<Rightarrow> nat \<Rightarrow> addr \<Rightarrow> int \<Rightarrow> asset \<Rightarrow> nat \<Rightarrow> string \<Rightarrow> string \<Rightarrow> nat option \<Rightarrow> nat option \<Rightarrow> gov \<Rightarrow>
   RecurringPayment ggcall" where
  "recurring_payment_timelocked ev admin i recipient amount a frequency c purpose approved_by end_date =
     timelocked ev admin i (in_treasury (schedule_recurring_payment ev recipient amount a frequency c purpose approved_by end_date))"

definition process_recurring_payments_entry :: "env \<Rightarrow> addr \<Rightarrow> gov \<Rightarrow> nat ggcall" where
  "process_recurring_payments_entry ev admin =
     guard (require_admin ev admin) (in_treasury (process_recurring_payments (ev_timestamp ev)))"

definition set_rebalance_target_entry :: "env \<Rightarrow> addr \<Rightarrow> asset \<Rightarrow> int \<Rightarrow> gov \<Rightarrow> unit ggcall" where
  "set_rebalance_target_entry ev admin a bps = direct ev admin (in_treasury (set_rebalance_target a bps))"

definition set_rebalance_target_timelocked :: "env \<Rightarrow> addr \<Rightarrow> nat \<Rightarrow> asset \<Rightarrow> int \<Rightarrow> gov \<Rightarrow> unit ggcall" where
  "set_rebalance_target_timelocked ev admin i a bps = timelocked ev admin i (in_treasury (set_rebalance_target a bps))"

definition rebalance_treasury :: "env \<Rightarrow> addr \<Rightarrow> (asset \<Rightarrow> int option) \<Rightarrow> gov \<Rightarrow> RebalanceAction list ggcall" where
  "rebalance_treasury ev admin prices = guard (require_admin ev admin) (in_treasury (rebalance prices (ev_timestamp ev)))"

end
