(* ===== verification/VoteTallies.thy ===== *)
theory VoteTallies
  imports GovEntry
begin

text \<open>
  What the votes of a proposal amount to: every tally is the sum of the recorded votes, nobody votes
  twice, and no vote weighs more than one and a half times the power snapshotted when the proposal was
  created. The lemmas here are about single operations; \<open>GovSteps\<close> composes them.
\<close>

section \<open>The invariant of a proposal\<close>

definition ballots :: "VoteType \<Rightarrow> Proposal \<Rightarrow> int" where
  "ballots vt p = ssum (\<lambda>_ v. if vo_vote_type v = vt then vo_voting_power v else 0) (pr_voters p)"

definition votes_of :: "VoteType \<Rightarrow> Proposal \<Rightarrow> int" where
  "votes_of vt p = (case vt of For \<Rightarrow> pr_votes_for p | Against \<Rightarrow> pr_votes_against p | Abstain \<Rightarrow> pr_votes_abstain p)"

definition vote_ok :: "(addr, int) smap \<Rightarrow> addr \<Rightarrow> Vote \<Rightarrow> bool" where
  "vote_ok snapshots a v \<longleftrightarrow> vo_voter v = a \<and> 0 < vo_voting_power v \<and> 2 * vo_voting_power v \<le> 3 * sget_or 0 snapshots a"

definition proposal_ok :: "(addr, int) smap \<Rightarrow> nat \<Rightarrow> Proposal \<Rightarrow> bool" where
  "proposal_ok snapshots i p \<longleftrightarrow> pr_id p = i \<and> swf (pr_voters p) \<and> distinct (pr_voter_list p) \<and>
     set (pr_voter_list p) = fst ` set (pr_voters p) \<and> sall (vote_ok snapshots) (pr_voters p) \<and>
     (\<forall>vt. votes_of vt p = min i128_max (ballots vt p)) \<and> (pr_status p = Pending \<longrightarrow> pr_voters p = [])"

definition snapshots_ok :: "(addr, int) smap \<Rightarrow> bool" where
  "snapshots_ok s \<longleftrightarrow> swf s \<and> sall (\<lambda>_ x. 0 < x \<and> in_i128 x) s"

definition proposals_ok :: "gov \<Rightarrow> bool" where
  "proposals_ok g \<longleftrightarrow> swf (g_proposals g) \<and> (\<forall>i p. sget (g_proposals g) i = Some p \<longrightarrow>
     proposal_ok (g_snapshots g i) i p \<and> snapshots_ok (g_snapshots g i))"

definition scores_ok :: "gov \<Rightarrow> bool" where
  "scores_ok g \<longleftrightarrow> (\<forall>u r. rs_reputations (g_reputation g) u = Some r \<longrightarrow> gr_reputation_score r \<le> MAX_REPUTATION)"

definition voting_ok :: "gov \<Rightarrow> bool" where
  "voting_ok g \<longleftrightarrow> proposals_ok g \<and> scores_ok g"

lemma ballots_nonneg: "proposal_ok s i p \<Longrightarrow> 0 \<le> ballots vt p"
  unfolding ballots_def by (intro ssum_nonneg) (fastforce simp: proposal_ok_def sall_mem vote_ok_def intro: less_imp_le)

lemma votes_nonneg: "proposal_ok s i p \<Longrightarrow> 0 \<le> votes_of vt p"
  using ballots_nonneg [of s i p vt] by (simp add: proposal_ok_def i128_max_def)

lemma proposal_ok_same_votes:
  assumes "proposal_ok s i p" "pr_id q = pr_id p" "pr_voters q = pr_voters p" "pr_voter_list q = pr_voter_list p"
    "\<And>vt. votes_of vt q = votes_of vt p" "pr_status q = Pending \<Longrightarrow> pr_status p = Pending"
  shows "proposal_ok s i q"
  using assms by (auto simp: proposal_ok_def ballots_def)

lemma votes_of_status [simp]:
  "votes_of vt (p\<lparr>pr_status := st\<rparr>) = votes_of vt p" "votes_of vt (executed_proposal ev p) = votes_of vt p"
  by (cases vt; simp add: votes_of_def executed_proposal_def)+

lemma proposal_ok_status: "proposal_ok s i p \<Longrightarrow> st \<noteq> Pending \<Longrightarrow> proposal_ok s i (p\<lparr>pr_status := st\<rparr>)"
  by (erule proposal_ok_same_votes) simp_all

lemma proposal_ok_executed: "proposal_ok s i p \<Longrightarrow> proposal_ok s i (executed_proposal ev p)"
  by (erule proposal_ok_same_votes) (simp_all add: executed_proposal_def votes_of_status [unfolded executed_proposal_def])

section \<open>Entering a vote\<close>

lemma saturating_add_capped: "0 \<le> a \<Longrightarrow> 0 \<le> b \<Longrightarrow> saturating_add a b = min i128_max (a + b)"
  by (auto simp: saturating_add_def sat_i128_def i128_min_def i128_max_def)

lemma tally_exact:
  assumes "tally vt w p = Ok q"
  shows "q = tally_saturating vt w p"
  using assms by (cases vt) (auto simp: tally_def tally_saturating_def res_then_Ok saturating_add_exact)

definition voted :: "env \<Rightarrow> addr \<Rightarrow> VoteType \<Rightarrow> int \<Rightarrow> Proposal \<Rightarrow> Proposal" where
  "voted ev a vt w p = activate (tally_saturating vt w (enter_vote ev a vt w p))"

lemma voted_fields:
  "pr_id (voted ev a vt w p) = pr_id p" "pr_voters (voted ev a vt w p) = pr_voters (enter_vote ev a vt w p)"
  "pr_voter_list (voted ev a vt w p) = pr_voter_list p @ [a]" "pr_status (voted ev a vt w p) \<noteq> Pending"
  "votes_of vt' (voted ev a vt w p) = (if vt' = vt then saturating_add (votes_of vt p) w else votes_of vt' p)"
  "pr_status (voted ev a vt w p) = (if pr_status p = Pending then Active else pr_status p)"
  by (cases vt; cases vt'; auto simp: voted_def activate_def tally_saturating_def enter_vote_def votes_of_def)+

lemma proposal_ok_voted:
  assumes ok: "proposal_ok s i p" and new: "sget (pr_voters p) a = None"
    and w: "0 < w" "2 * w \<le> 3 * sget_or 0 s a"
  shows "proposal_ok s i (voted ev a vt w p)"
proof -
  let ?v = "\<lparr>vo_voter = a, vo_vote_type = vt, vo_voting_power = w, vo_timestamp = ev_timestamp ev\<rparr>"
  have voters: "pr_voters (voted ev a vt w p) = sset a ?v (pr_voters p)" by (simp add: voted_fields enter_vote_def)
  have wf: "swf (pr_voters p)" and keys: "set (pr_voter_list p) = fst ` set (pr_voters p)" using ok by (simp_all add: proposal_ok_def)
  have "a \<notin> fst ` set (pr_voters p)" using new by (auto simp: map_of_eq_None_iff)
  have ball: "ballots vt' (voted ev a vt w p) = ballots vt' p + (if vt' = vt then w else 0)" for vt'
    by (simp add: ballots_def voters ssum_sset [OF wf] new)
  have "votes_of vt' (voted ev a vt w p) = min i128_max (ballots vt' (voted ev a vt w p))" for vt'
    using votes_nonneg [OF ok, of vt] ballots_nonneg [OF ok, of vt] ok w(1)
    by (auto simp: voted_fields ball saturating_add_capped proposal_ok_def)
  moreover have "sall (vote_ok s) (pr_voters (voted ev a vt w p))"
    unfolding voters using ok w by (intro sall_sset) (auto simp: proposal_ok_def vote_ok_def)
  ultimately show ?thesis
    using ok wf keys \<open>a \<notin> _\<close>
    by (auto simp: proposal_ok_def voters keys_sset voted_fields(1,3,4) simp del: voted_fields(2))
qed

lemma voter_power_Ok:
  assumes "voter_power g i p a = Ok w" "snapshots_ok (g_snapshots g i)"
  shows "0 < w" "w \<le> sget_or 0 (g_snapshots g i) a"
    "w = (if pr_use_quadratic_voting p then w else sget_or 0 (g_snapshots g i) a)"
    "pr_use_quadratic_voting p \<Longrightarrow> w * w \<le> sget_or 0 (g_snapshots g i) a \<and> sget_or 0 (g_snapshots g i) a < (w + 1) * (w + 1)"
proof -
  define raw where "raw = sget_or 0 (g_snapshots g i) a"
  have pos: "0 < raw" using assms(1) by (auto simp: voter_power_def raw_def Let_def split: if_splits)
  have fits: "in_i128 raw"
    using assms(2) pos by (auto simp: snapshots_ok_def sall_def raw_def sget_or_def split: option.splits)
  have quad: "w * w \<le> raw \<and> raw < (w + 1) * (w + 1) \<and> 0 < w" if "pr_use_quadratic_voting p"
  proof -
    from assms(1) that pos have r: "isqrt raw = Ok w" "0 < w"
      by (auto simp: voter_power_def raw_def Let_def res_then_Ok split: if_splits)
    obtain s where s: "isqrt raw = Ok (int s)" "is_root (nat raw) s" using isqrt_Ok [OF fits pos] by blast
    with r have ws: "w = int s" by simp
    from s(2) have "int (s * s) \<le> raw" "raw < int ((s + 1) * (s + 1))"
      using pos by (auto simp: is_root_def nat_less_iff le_nat_iff)
    with r(2) ws show ?thesis by (auto simp: algebra_simps)
  qed
  have lin: "w = raw" if "\<not> pr_use_quadratic_voting p"
    using assms(1) that pos by (auto simp: voter_power_def raw_def Let_def split: if_splits)
  show "0 < w" using quad lin pos by (cases "pr_use_quadratic_voting p") auto
  show "w \<le> sget_or 0 (g_snapshots g i) a"
  proof (cases "pr_use_quadratic_voting p")
    case True
    then have "w * w \<le> raw" "0 < w" using quad by auto
    moreover from this(2) have "w * 1 \<le> w * w" by (intro mult_left_mono) auto
    ultimately have "w \<le> raw" by linarith
    then show ?thesis by (simp add: raw_def)
  qed (use lin in \<open>simp add: raw_def\<close>)
  show "w = (if pr_use_quadratic_voting p then w else sget_or 0 (g_snapshots g i) a)" using lin by (simp add: raw_def)
  show "pr_use_quadratic_voting p \<Longrightarrow> w * w \<le> sget_or 0 (g_snapshots g i) a \<and> sget_or 0 (g_snapshots g i) a < (w + 1) * (w + 1)"
    using quad by (simp add: raw_def)
qed

lemma score_le_max: "scores_ok g \<Longrightarrow> gr_reputation_score (get_governance_reputation ev g u) \<le> MAX_REPUTATION"
  by (cases "rs_reputations (g_reputation g) u") (auto simp: get_governance_reputation_def scores_ok_def MAX_REPUTATION_def)

lemma reputation_weight_Ok:
  assumes "reputation_weight ev g i a = Ok w" "scores_ok g"
  shows "sget_or 0 (g_snapshots g i) a \<le> w" "2 * w \<le> 3 * sget_or 0 (g_snapshots g i) a" "0 < w"
proof -
  define raw where "raw = sget_or 0 (g_snapshots g i) a"
  define m where "m = u32_sat_add 10000 (gr_reputation_score (get_governance_reputation ev g a) div 2)"
  have m: "10000 \<le> m" "m \<le> 15000"
    using score_le_max [OF assms(2), of ev a] by (auto simp: m_def u32_sat_add_def u32_max_def MAX_REPUTATION_def)
  have raw: "0 < raw" using assms(1) by (auto simp: reputation_weight_def Let_def raw_def split: if_splits)
  then have "w = tdiv (raw * int m) 10000"
    using assms(1) by (auto simp: reputation_weight_def Let_def raw_def m_def res_then_Ok split: if_splits)
  moreover have "0 \<le> raw * int m" using raw by simp
  ultimately have w: "w = (raw * int m) div 10000" by (simp add: tdiv_nonneg)
  have "raw * 10000 \<le> raw * int m" "raw * int m \<le> raw * 15000" using m raw by (intro mult_left_mono; simp)+
  then show "sget_or 0 (g_snapshots g i) a \<le> w" "2 * w \<le> 3 * sget_or 0 (g_snapshots g i) a"
    unfolding w raw_def [symmetric] by (auto simp: raw_def)
  then show "0 < w" using raw by (simp add: raw_def)
qed

section \<open>The two ways to vote\<close>

lemma require_voting_open_Ok:
  "require_voting_open ev a p = Ok u \<longleftrightarrow>
     (pr_discussion_ends_at p = 0 \<or> pr_discussion_ends_at p \<le> ev_timestamp ev) \<and> pr_voting_starts p \<le> ev_timestamp ev \<and>
     ev_timestamp ev < pr_voting_ends p \<and> (pr_status p = Pending \<or> pr_status p = Active) \<and> sget (pr_voters p) a = None"
  by (auto simp: require_voting_open_def)

lemma get_proposal_Ok: "get_proposal g i = Ok p \<longleftrightarrow> sget (g_proposals g) i = Some p"
  by (simp add: get_proposal_def ok_or_Ok)

lemma put_proposal_Ok:
  "put_proposal p g = (Ok u, g') \<longleftrightarrow> sget (g_proposals g) (pr_id p) \<noteq> None \<and> g' = g\<lparr>g_proposals := sset (pr_id p) p (g_proposals g)\<rparr>"
  by (auto simp: put_proposal_def)

lemma proposals_okD:
  assumes "proposals_ok g" "sget (g_proposals g) i = Some p"
  shows "pr_id p = i" "proposal_ok (g_snapshots g i) i p" "snapshots_ok (g_snapshots g i)"
  using assms by (auto simp: proposals_ok_def proposal_ok_def)

lemma cast_vote_Ok:
  assumes "cast_vote ev i a vt g = (Ok u, g')" "proposals_ok g"
  shows "\<exists>p w. sget (g_proposals g) i = Some p \<and> require_voting_open ev a p = Ok () \<and> voter_power g i p a = Ok w \<and>
    ev_auth ev a \<and> g' = g\<lparr>g_proposals := sset i (voted ev a vt w p) (g_proposals g)\<rparr>"
proof -
  from assms(1) obtain p w q where p: "sget (g_proposals g) i = Some p" "require_voting_open ev a p = Ok ()"
      "voter_power g i p a = Ok w" "tally vt w (enter_vote ev a vt w p) = Ok q" "put_proposal (activate q) g = (Ok u, g')" "ev_auth ev a"
    by (auto simp: cast_vote_def guard_Ok guards_Ok and_then_Ok get_proposal_Ok)
  have v: "activate q = voted ev a vt w p" using tally_exact [OF p(4)] by (simp add: voted_def)
  have "pr_id (voted ev a vt w p) = i" using proposals_okD(1) [OF assms(2) p(1)] by (simp add: voted_fields)
  with p(5) have "g' = g\<lparr>g_proposals := sset i (voted ev a vt w p) (g_proposals g)\<rparr>" unfolding v by (simp add: put_proposal_Ok)
  with p show ?thesis by blast
qed

lemma proposals_ok_put:
  assumes "proposals_ok g" "sget (g_proposals g) i = Some p" "proposal_ok (g_snapshots g i) i q"
  shows "proposals_ok (g\<lparr>g_proposals := sset i q (g_proposals g)\<rparr>)"
  using assms by (auto simp: proposals_ok_def)

lemma scores_ok_proposals [simp]: "scores_ok (g\<lparr>g_proposals := ps\<rparr>) = scores_ok g"
  by (simp add: scores_ok_def)

lemma cast_vote_ok:
  assumes "cast_vote ev i a vt g = (Ok u, g')" "voting_ok g"
  shows "voting_ok g'"
proof -
  have ok: "proposals_ok g" using assms(2) by (simp add: voting_ok_def)
  obtain p w where p: "sget (g_proposals g) i = Some p" "require_voting_open ev a p = Ok ()" "voter_power g i p a = Ok w"
      "g' = g\<lparr>g_proposals := sset i (voted ev a vt w p) (g_proposals g)\<rparr>"
    using cast_vote_Ok [OF assms(1) ok] by blast
  note pk = proposals_okD [OF ok p(1)]
  note w = voter_power_Ok(1,2) [OF p(3) pk(3)]
  have "proposal_ok (g_snapshots g i) i (voted ev a vt w p)"
    by (rule proposal_ok_voted [OF pk(2)]) (use p(2) w in \<open>auto simp: require_voting_open_Ok\<close>)
  with proposals_ok_put [OF ok p(1)] assms(2) show ?thesis unfolding p(4) voting_ok_def by simp
qed

end
