(* ===== verification/Committees.thy ===== *)
theory Committees
  imports GovTypes
begin

text \<open>
  Committees (\<open>governance/src/committees.rs\<close>): formation, decisions by majority of the members and their
  execution within the delegated authority, elections weighted by stake, oversight, and approvals across
  committees. The entry points of \<open>lib.rs\<close> read the state of the committees, run one of these
  functions and write it back.
\<close>

definition APPROVAL_RATING_BPS :: nat where "APPROVAL_RATING_BPS = 10000"

section \<open>Reading and writing\<close>

definition get_committee :: "gov \<Rightarrow> nat \<Rightarrow> Committee gres" where
  "get_committee g i = ok_or CommitteeNotFound (cs_committees (g_committees g) i)"

definition get_election :: "gov \<Rightarrow> nat \<Rightarrow> CommitteeElection gres" where
  "get_election g i = ok_or CommitteeElectionNotFound (cs_elections (g_committees g) i)"

definition get_cross_committee_request :: "gov \<Rightarrow> nat \<Rightarrow> CrossCommitteeRequest gres" where
  "get_cross_committee_request g i = ok_or CrossCommitteeRequestNotFound (cs_cross_committee_requests (g_committees g) i)"

definition put_committee :: "nat \<Rightarrow> Committee \<Rightarrow> gov \<Rightarrow> gov" where
  "put_committee i c g = g\<lparr>g_committees := (g_committees g)\<lparr>cs_committees := (cs_committees (g_committees g))(i \<mapsto> c)\<rparr>\<rparr>"

definition put_election :: "nat \<Rightarrow> CommitteeElection option \<Rightarrow> gov \<Rightarrow> gov" where
  "put_election i e g = g\<lparr>g_committees := (g_committees g)\<lparr>cs_elections := (cs_elections (g_committees g))(i := e)\<rparr>\<rparr>"

definition list_committees :: "gov \<Rightarrow> Committee list" where
  "list_committees g = List.map_filter (cs_committees (g_committees g)) (cs_committee_ids (g_committees g))"

definition ensure_committee_active :: "Committee \<Rightarrow> nat \<Rightarrow> unit gres" where
  "ensure_committee_active c now =
     (if \<not> co_active c then Err CommitteeInactive
      else case co_term_end c of Some t \<Rightarrow> if t \<le> now then Err CommitteeTermEnded else Ok () | None \<Rightarrow> Ok ())"

fun find_decision_index :: "CommitteeDecision list \<Rightarrow> nat \<Rightarrow> nat gres" where
  "find_decision_index [] i = Err CommitteeDecisionNotFound"
| "find_decision_index (d # ds) i =
     (if cd_decision_id d = i then Ok 0 else res_then (find_decision_index ds i) (\<lambda>n. Ok (Suc n)))"

section \<open>Formation\<close>

fun authority_valid :: "Authority \<Rightarrow> bool" where
  "authority_valid (AuthTreasurySpend max_amount category) \<longleftrightarrow> 0 < max_amount \<and> category \<noteq> []"
| "authority_valid (AuthParameterAdjustment parameters max_change_pct) \<longleftrightarrow> parameters \<noteq> [] \<and> max_change_pct \<noteq> 0"
| "authority_valid (AuthGrantApproval max_grant_size) \<longleftrightarrow> 0 < max_grant_size"
| "authority_valid (AuthEmergencyAction action_types) \<longleftrightarrow> action_types \<noteq> []"
| "authority_valid (AuthVeto proposal_types) \<longleftrightarrow> proposal_types \<noteq> []"

definition validate_authorities :: "Authority list \<Rightarrow> unit gres" where
  "validate_authorities as = (if as \<noteq> [] \<and> list_all authority_valid as then Ok () else Err InvalidCommitteeConfig)"

definition create_committee ::
  "env \<Rightarrow> string \<Rightarrow> string \<Rightarrow> addr list \<Rightarrow> addr \<Rightarrow> nat \<Rightarrow> Authority list \<Rightarrow> nat option \<Rightarrow> gov \<Rightarrow> Committee ggcall" where
  "create_committee ev name description members chair max_members authorities term_days g =
     (if name = [] \<or> description = [] then (Err InvalidCommitteeConfig, g)
      else if members = [] \<or> max_members < length members \<or> max_members < 3 \<or> 15 < max_members
      then (Err InvalidCommitteeConfig, g)
      else if chair \<notin> set members \<or> \<not> distinct members then (Err InvalidCommitteeConfig, g)
      else and_then (validate_authorities authorities, g) (\<lambda>_ g.
        if term_days = Some 0 then (Err InvalidDuration, g)
        else let s = g_committees g; i = cs_next_committee_id s;
                 c = \<lparr>co_id = i, co_name = name, co_description = description, co_members = members, co_chair = chair,
                      co_max_members = max_members, co_delegated_authorities = authorities, co_formation_date = ev_timestamp ev,
                      co_term_end = map_option (\<lambda>d. u64_sat_add (ev_timestamp ev) (d * 86400)) term_days,
                      co_decisions = [],
                      co_performance_metrics = \<lparr>pm_total_decisions = 0, pm_decisions_executed = 0, pm_avg_decision_time = 0,
                        pm_community_approval_rating = 0, pm_overridden_decisions = 0\<rparr>,
                      co_active = True, co_dissolved_at = None\<rparr>
             in (Ok c, g\<lparr>g_committees := s\<lparr>cs_committees := (cs_committees s)(i \<mapsto> c), cs_committee_ids := cs_committee_ids s @ [i],
                                           cs_next_committee_id := u64_sat_add i 1\<rparr>\<rparr>)))"

section \<open>Decisions\<close>

definition propose_decision :: "env \<Rightarrow> nat \<Rightarrow> addr \<Rightarrow> string \<Rightarrow> CommitteeAction \<Rightarrow> gov \<Rightarrow> CommitteeDecision ggcall" where
  "propose_decision ev i proposer proposal action g =
     (if proposal = [] then (Err InvalidCommitteeAction, g)
      else and_then (get_committee g i, g) (\<lambda>c g.
           and_then (ensure_committee_active c (ev_timestamp ev), g) (\<lambda>_ g.
           if proposer \<notin> set (co_members c) then (Err Unauthorized, g)
           else let n = cs_next_decision_id (g_committees g);
                    d = \<lparr>cd_decision_id = n, cd_proposal = proposal, cd_votes_for = 0, cd_votes_against = 0, cd_votes_abstain = 0,
                         cd_status = DecVoting, cd_executed_at = None, cd_proposed_at = ev_timestamp ev, cd_action = action,
                         cd_votes = []\<rparr>;
                    m = co_performance_metrics c;
                    c = c\<lparr>co_decisions := co_decisions c @ [d],
                          co_performance_metrics := m\<lparr>pm_total_decisions := u32_sat_add (pm_total_decisions m) 1\<rparr>\<rparr>;
                    g = put_committee i c g
                in (Ok d, g\<lparr>g_committees := (g_committees g)\<lparr>cs_next_decision_id := u64_sat_add n 1\<rparr>\<rparr>))))"

definition count_vote :: "addr \<Rightarrow> CommitteeVote \<Rightarrow> CommitteeDecision \<Rightarrow> CommitteeDecision" where
  "count_vote voter v d =
     (let d = d\<lparr>cd_votes := sset voter v (cd_votes d)\<rparr>
      in case v of
           ComFor \<Rightarrow> d\<lparr>cd_votes_for := u32_sat_add (cd_votes_for d) 1\<rparr>
         | ComAgainst \<Rightarrow> d\<lparr>cd_votes_against := u32_sat_add (cd_votes_against d) 1\<rparr>
         | ComAbstain \<Rightarrow> d\<lparr>cd_votes_abstain := u32_sat_add (cd_votes_abstain d) 1\<rparr>)"

definition decide :: "nat \<Rightarrow> CommitteeDecision \<Rightarrow> CommitteeDecision" where
  "decide members d =
     (let majority = members div 2 + 1;
          votes = u32_sat_add (u32_sat_add (cd_votes_for d) (cd_votes_against d)) (cd_votes_abstain d)
      in if majority \<le> cd_votes_for d then d\<lparr>cd_status := DecApproved\<rparr>
         else if majority \<le> cd_votes_against d then d\<lparr>cd_status := DecRejected\<rparr>
         else if votes = members
         then d\<lparr>cd_status := (if cd_votes_against d < cd_votes_for d then DecApproved else DecRejected)\<rparr>
         else d)"

definition put_decision :: "nat \<Rightarrow> CommitteeDecision \<Rightarrow> Committee \<Rightarrow> Committee" where
  "put_decision n d c = c\<lparr>co_decisions := (co_decisions c)[n := d]\<rparr>"

definition vote_on_decision :: "nat \<Rightarrow> nat \<Rightarrow> addr \<Rightarrow> CommitteeVote \<Rightarrow> gov \<Rightarrow> CommitteeDecision ggcall" where
  "vote_on_decision i k voter v g =
     and_then (get_committee g i, g) (\<lambda>c g.
     if voter \<notin> set (co_members c) then (Err Unauthorized, g)
     else and_then (find_decision_index (co_decisions c) k, g) (\<lambda>n g.
       let d = co_decisions c ! n
       in if cd_status d \<noteq> DecVoting then (Err CommitteeDecisionNotOpen, g)
          else if sget (cd_votes d) voter \<noteq> None then (Err AlreadyVoted, g)
          else let d = decide (length (co_members c)) (count_vote voter v d)
               in (Ok d, put_committee i (put_decision n d c) g)))"

section \<open>Authority\<close>

definition pct_change :: "int \<Rightarrow> int \<Rightarrow> nat gres" where
  "pct_change current proposed =
     (if current \<le> 0 then Err InvalidCommitteeAction
      else res_then (if current \<le> proposed then gsub proposed current else gsub current proposed) (\<lambda>diff.
           res_then (gmul diff 100) (\<lambda>x. res_then (gdiv x current) (\<lambda>pct.
             if pct < 0 \<or> int u32_max < pct then Err ArithmeticOverflow else Ok (nat pct)))))"

definition require_change_allowed :: "string \<Rightarrow> string list \<Rightarrow> nat \<Rightarrow> int \<Rightarrow> int \<Rightarrow> unit gres" where
  "require_change_allowed key parameters max_pct current proposed =
     (if proposed = current then Ok ()
      else if key \<notin> set parameters then Err NoCommitteeAuthority
      else res_then (pct_change current proposed) (\<lambda>pct. if max_pct < pct then Err NoCommitteeAuthority else Ok ()))"

definition validate_reward_config_authority :: "gov \<Rightarrow> string list \<Rightarrow> nat \<Rightarrow> nat \<Rightarrow> int \<Rightarrow> unit gres" where
  "validate_reward_config_authority g parameters max_pct reward_bps min_claim =
     res_then (get_distribution_state (g_books g)) (\<lambda>s.
     res_then (require_change_allowed ''liquidity_reward_bps'' parameters max_pct (int (ds_liquidity_reward_bps s)) (int reward_bps)) (\<lambda>_.
     res_then (require_change_allowed ''min_claim_threshold'' parameters max_pct (ds_min_claim_threshold s) min_claim) (\<lambda>_.
       if reward_bps = ds_liquidity_reward_bps s \<and> min_claim = ds_min_claim_threshold s
       then Err InvalidCommitteeAction else Ok ())))"

text \<open>What one delegated authority says of an action: \<open>None\<close> means look at the next one.\<close>

fun authority_verdict :: "gov \<Rightarrow> CommitteeAction \<Rightarrow> Authority \<Rightarrow> unit gres option" where
  "authority_verdict g (ActionTreasurySpend a) (AuthTreasurySpend max_amount category) =
     (if sa_amount a \<le> max_amount \<and> sa_category a = category then Some (Ok ()) else None)"
| "authority_verdict g (ActionGrantApproval a) (AuthGrantApproval max_grant_size) =
     (if sa_amount a \<le> max_grant_size then Some (Ok ()) else None)"
| "authority_verdict g (ActionRewardConfigUpdate reward_bps min_claim) (AuthParameterAdjustment parameters max_pct) =
     Some (validate_reward_config_authority g parameters max_pct reward_bps min_claim)"
| "authority_verdict g (ActionEmergency action_type details) (AuthEmergencyAction action_types) =
     (if action_type \<in> set action_types then Some (Ok ()) else None)"
| "authority_verdict g (ActionVeto proposal_type reason) (AuthVeto proposal_types) =
     (if proposal_type \<in> set proposal_types then Some (Ok ()) else None)"
| "authority_verdict g _ _ = None"

fun verify_authorities :: "gov \<Rightarrow> CommitteeAction \<Rightarrow> Authority list \<Rightarrow> unit gres" where
  "verify_authorities g action [] = Err NoCommitteeAuthority"
| "verify_authorities g action (a # as) =
     (case authority_verdict g action a of Some r \<Rightarrow> r | None \<Rightarrow> verify_authorities g action as)"

definition verify_committee_authority :: "gov \<Rightarrow> Committee \<Rightarrow> CommitteeAction \<Rightarrow> unit gres" where
  "verify_committee_authority g c action = verify_authorities g action (co_delegated_authorities c)"

definition committee_spend :: "SpendAction \<Rightarrow> nat \<Rightarrow> gov \<Rightarrow> unit ggcall" where
  "committee_spend a now g =
     and_then (on_treasury (execute_spend (sa_recipient a) (sa_amount a) (sa_asset a) (sa_category a) (sa_purpose a) None now
                              (g_treasury_state g)) g) (\<lambda>_ g. (Ok (), g))"

fun execute_decision_action :: "CommitteeAction \<Rightarrow> nat \<Rightarrow> gov \<Rightarrow> unit ggcall" where
  "execute_decision_action (ActionTreasurySpend a) now g = committee_spend a now g"
| "execute_decision_action (ActionGrantApproval a) now g = committee_spend a now g"
| "execute_decision_action (ActionRewardConfigUpdate reward_bps min_claim) now g =
     and_then (on_books (update_reward_config reward_bps min_claim (g_books g)) g) (\<lambda>_ g. (Ok (), g))"
| "execute_decision_action (ActionEmergency action_type details) now g =
     (if details = [] then Err InvalidCommitteeAction else Ok (), g)"
| "execute_decision_action (ActionVeto proposal_type reason) now g =
     (if reason = [] then Err InvalidCommitteeAction else Ok (), g)"

text \<open>The number of executed decisions counts the one at hand already.\<close>

definition update_avg_decision_time :: "PerformanceMetrics \<Rightarrow> CommitteeDecision \<Rightarrow> nat \<Rightarrow> PerformanceMetrics gres" where
  "update_avg_decision_time m d executed_at =
     (let duration = executed_at - cd_proposed_at d
      in if pm_decisions_executed m = 0 then Ok (m\<lparr>pm_avg_decision_time := duration\<rparr>)
         else res_then (gmul (int (pm_avg_decision_time m)) (int (pm_decisions_executed m - 1))) (\<lambda>x.
              res_then (gadd x (int duration)) (\<lambda>y.
              res_then (gdiv y (int (pm_decisions_executed m))) (\<lambda>avg.
                if avg < 0 \<or> int u64_max < avg then Err ArithmeticOverflow else Ok (m\<lparr>pm_avg_decision_time := nat avg\<rparr>)))))"

definition execute_decision :: "env \<Rightarrow> nat \<Rightarrow> nat \<Rightarrow> addr \<Rightarrow> gov \<Rightarrow> CommitteeDecision ggcall" where
  "execute_decision ev i k executor g =
     and_then (get_committee g i, g) (\<lambda>c g.
     and_then (ensure_committee_active c (ev_timestamp ev), g) (\<lambda>_ g.
     if executor \<noteq> co_chair c \<and> executor \<notin> set (co_members c) then (Err Unauthorized, g)
     else and_then (find_decision_index (co_decisions c) k, g) (\<lambda>n g.
       let d = co_decisions c ! n
       in if cd_status d \<noteq> DecApproved then (Err CommitteeDecisionNotOpen, g)
          else and_then (verify_committee_authority g c (cd_action d), g) (\<lambda>_ g.
               and_then (execute_decision_action (cd_action d) (ev_timestamp ev) g) (\<lambda>_ g.
                 let d = d\<lparr>cd_status := DecExecuted, cd_executed_at := Some (ev_timestamp ev)\<rparr>;
                     m = co_performance_metrics c;
                     m = m\<lparr>pm_decisions_executed := u32_sat_add (pm_decisions_executed m) 1\<rparr>
                 in and_then (update_avg_decision_time m d (ev_timestamp ev), g) (\<lambda>m g.
                    (Ok d, put_committee i ((put_decision n d c)\<lparr>co_performance_metrics := m\<rparr>) g)))))))"

definition override_decision :: "nat \<Rightarrow> nat \<Rightarrow> gov \<Rightarrow> CommitteeDecision ggcall" where
  "override_decision i k g =
     and_then (get_committee g i, g) (\<lambda>c g.
     and_then (find_decision_index (co_decisions c) k, g) (\<lambda>n g.
       let d = co_decisions c ! n; m = co_performance_metrics c
       in if cd_status d = DecRejected \<or> cd_status d = DecOverridden then (Err CommitteeDecisionNotOpen, g)
          else let d = d\<lparr>cd_status := DecOverridden\<rparr>
               in (Ok d, put_committee i ((put_decision n d c)\<lparr>co_performance_metrics :=
                     m\<lparr>pm_overridden_decisions := u32_sat_add (pm_overridden_decisions m) 1\<rparr>\<rparr>) g)))"

section \<open>Elections\<close>

definition start_election :: "env \<Rightarrow> nat \<Rightarrow> nat \<Rightarrow> nat \<Rightarrow> nat \<Rightarrow> int \<Rightarrow> gov \<Rightarrow> CommitteeElection ggcall" where
  "start_election ev i positions days min_participation quorum_stake g =
     and_then (get_committee g i, g) (\<lambda>c g.
     and_then (ensure_committee_active c (ev_timestamp ev), g) (\<lambda>_ g.
     if positions < 3 \<or> co_max_members c < positions \<or> days = 0 then (Err InvalidCommitteeConfig, g)
     else if quorum_stake < 0 then (Err InvalidCommitteeConfig, g)
     else if (case cs_elections (g_committees g) i of Some e \<Rightarrow> ev_timestamp ev < el_election_end e | None \<Rightarrow> False)
     then (Err InvalidCommitteeConfig, g)
     else let e = \<lparr>el_committee_id = i, el_candidates = [], el_votes = [], el_election_start = ev_timestamp ev,
                   el_election_end = u64_sat_add (ev_timestamp ev) (days * 86400), el_positions_available = positions,
                   el_min_participation = min_participation, el_quorum_stake_threshold = quorum_stake\<rparr>
          in (Ok e, put_election i (Some e) g)))"

definition nominate_for_committee :: "env \<Rightarrow> nat \<Rightarrow> addr \<Rightarrow> addr \<Rightarrow> gov \<Rightarrow> CommitteeElection ggcall" where
  "nominate_for_committee ev i nominee nominator g =
     and_then (get_election g i, g) (\<lambda>e g.
     if el_election_end e \<le> ev_timestamp ev then (Err CommitteeElectionNotActive, g)
     else if get_staked_balance (g_books g) nominator \<le> 0 then (Err Unauthorized, g)
     else let e = (if nominee \<in> set (el_candidates e) then e else e\<lparr>el_candidates := el_candidates e @ [nominee]\<rparr>)
          in (Ok e, put_election i (Some e) g))"

definition vote_in_election :: "env \<Rightarrow> nat \<Rightarrow> addr \<Rightarrow> addr \<Rightarrow> gov \<Rightarrow> CommitteeElection ggcall" where
  "vote_in_election ev i voter candidate g =
     and_then (get_election g i, g) (\<lambda>e g.
     if ev_timestamp ev < el_election_start e \<or> el_election_end e \<le> ev_timestamp ev then (Err CommitteeElectionNotActive, g)
     else if candidate \<notin> set (el_candidates e) then (Err InvalidElectionVote, g)
     else if get_staked_balance (g_books g) voter \<le> 0 then (Err InvalidElectionVote, g)
     else if sget (el_votes e) voter \<noteq> None then (Err AlreadyVoted, g)
     else let e = e\<lparr>el_votes := sset voter candidate (el_votes e)\<rparr> in (Ok e, put_election i (Some e) g))"

record election_tally =
  ty_candidate_votes :: "addr \<Rightarrow> int option"
  ty_valid :: nat
  ty_weight :: int
  ty_rejected :: nat

definition tally_ballot :: "gov \<Rightarrow> CommitteeElection \<Rightarrow> addr \<times> addr \<Rightarrow> election_tally \<Rightarrow> election_tally gres" where
  "tally_ballot g e ballot t =
     (case ballot of (voter, candidate) \<Rightarrow>
        let p = get_staked_balance (g_books g) voter
        in if p \<le> 0 \<or> candidate \<notin> set (el_candidates e) then Ok (t\<lparr>ty_rejected := u32_sat_add (ty_rejected t) 1\<rparr>)
           else res_then (gadd (opt_or 0 (ty_candidate_votes t candidate)) p) (\<lambda>votes.
                res_then (gadd (ty_weight t) p) (\<lambda>weight.
                  Ok (t\<lparr>ty_candidate_votes := (ty_candidate_votes t)(candidate \<mapsto> votes),
                        ty_valid := u32_sat_add (ty_valid t) 1, ty_weight := weight\<rparr>))))"

definition tally_election_votes :: "gov \<Rightarrow> CommitteeElection \<Rightarrow> election_tally gres" where
  "tally_election_votes g e =
     res_fold (tally_ballot g e) (el_votes e) \<lparr>ty_candidate_votes = (\<lambda>_. None), ty_valid = 0, ty_weight = 0, ty_rejected = 0\<rparr>"

text \<open>The first candidate with the most votes among those not selected yet.\<close>

fun best_candidate :: "(addr \<Rightarrow> int) \<Rightarrow> addr list \<Rightarrow> addr list \<Rightarrow> addr option \<Rightarrow> addr option" where
  "best_candidate votes selected [] best = best"
| "best_candidate votes selected (c # cs) best =
     best_candidate votes selected cs
       (if c \<in> set selected then best
        else if (case best of None \<Rightarrow> i128_min < votes c | Some b \<Rightarrow> votes b < votes c) then Some c else best)"

fun select_winners :: "(addr \<Rightarrow> int) \<Rightarrow> addr list \<Rightarrow> nat \<Rightarrow> addr list \<Rightarrow> addr list" where
  "select_winners votes candidates 0 winners = winners"
| "select_winners votes candidates (Suc n) winners =
     (case best_candidate votes winners candidates None of
        Some c \<Rightarrow> select_winners votes candidates n (winners @ [c])
      | None \<Rightarrow> winners)"

definition select_election_winners :: "CommitteeElection \<Rightarrow> (addr \<Rightarrow> int option) \<Rightarrow> addr list" where
  "select_election_winners e candidate_votes =
     select_winners (\<lambda>c. opt_or 0 (candidate_votes c)) (el_candidates e) (el_positions_available e) []"

definition election_result :: "ElectionStatus \<Rightarrow> addr list \<Rightarrow> election_tally \<Rightarrow> ElectionResult" where
  "election_result st winners t =
     \<lparr>er_status = st, er_winners = winners, er_valid_votes = ty_valid t, er_total_stake_weight = ty_weight t,
      er_rejected_votes = ty_rejected t\<rparr>"

definition finalize_election :: "env \<Rightarrow> nat \<Rightarrow> gov \<Rightarrow> ElectionResult ggcall" where
  "finalize_election ev i g =
     and_then (get_election g i, g) (\<lambda>e g.
     if ev_timestamp ev < el_election_end e then (Err CommitteeElectionNotActive, g)
     else and_then (tally_election_votes g e, g) (\<lambda>t g.
       if 0 < el_min_participation e \<and> ty_valid t < el_min_participation e
       then (Ok (election_result FailedQuorumParticipation [] t), put_election i None g)
       else if 0 < el_quorum_stake_threshold e \<and> ty_weight t < el_quorum_stake_threshold e
       then (Ok (election_result FailedQuorumStake [] t), put_election i None g)
       else let winners = select_election_winners e (ty_candidate_votes t)
            in if length winners < 3
               then (Ok (election_result FailedInsufficientWinners [] t), put_election i None g)
               else and_then (get_committee g i, g) (\<lambda>c g.
                    (Ok (election_result ElectionSucceeded winners t),
                     put_election i None (put_committee i (c\<lparr>co_members := winners, co_chair := hd winners\<rparr>) g)))))"

section \<open>Oversight\<close>

definition set_community_approval_rating :: "nat \<Rightarrow> nat \<Rightarrow> gov \<Rightarrow> Committee ggcall" where
  "set_community_approval_rating i rating g =
     (if APPROVAL_RATING_BPS < rating then (Err InvalidApprovalRating, g)
      else and_then (get_committee g i, g) (\<lambda>c g.
        let c = c\<lparr>co_performance_metrics := (co_performance_metrics c)\<lparr>pm_community_approval_rating := rating\<rparr>\<rparr>
        in (Ok c, put_committee i c g)))"

definition report_activity :: "env \<Rightarrow> nat \<Rightarrow> gov \<Rightarrow> CommitteeReport gres" where
  "report_activity ev i g =
     res_then (get_committee g i) (\<lambda>c.
       let now = opt_or (ev_timestamp ev) (co_dissolved_at c); m = co_performance_metrics c;
           days = (now - co_formation_date c) div 86400
       in Ok \<lparr>cr_committee_id = i, cr_name = co_name c, cr_members_count = length (co_members c), cr_days_active = days,
              cr_total_decisions = pm_total_decisions m,
              cr_decisions_per_month = (if days = 0 then 0 else as_u32 (pm_total_decisions m * 30 div days)),
              cr_execution_rate = (if 0 < pm_total_decisions m
                then as_u32 (pm_decisions_executed m * APPROVAL_RATING_BPS div pm_total_decisions m) else 0),
              cr_avg_decision_time = pm_avg_decision_time m, cr_community_approval = pm_community_approval_rating m,
              cr_overridden_count = pm_overridden_decisions m, cr_active = co_active c\<rparr>)"

definition dissolve_committee :: "env \<Rightarrow> nat \<Rightarrow> gov \<Rightarrow> Committee ggcall" where
  "dissolve_committee ev i g =
     and_then (get_committee g i, g) (\<lambda>c g.
     if \<not> co_active c then (Err CommitteeInactive, g)
     else let c = c\<lparr>co_active := False, co_dissolved_at := Some (ev_timestamp ev)\<rparr>
          in (Ok c, put_election i None (put_committee i c g)))"

section \<open>Approvals across committees\<close>

definition request_cross_committee_approval ::
  "env \<Rightarrow> nat \<Rightarrow> addr \<Rightarrow> nat list \<Rightarrow> string \<Rightarrow> gov \<Rightarrow> CrossCommitteeRequest ggcall" where
  "request_cross_committee_approval ev i requester approving proposal g =
     (if proposal = [] \<or> approving = [] then (Err InvalidCommitteeConfig, g)
      else and_then (get_committee g i, g) (\<lambda>c g.
           and_then (ensure_committee_active c (ev_timestamp ev), g) (\<lambda>_ g.
           if requester \<notin> set (co_members c) then (Err Unauthorized, g)
           else if \<exists>j \<in> set approving. j = i \<or> cs_committees (g_committees g) j = None then (Err InvalidCommitteeConfig, g)
           else let s = g_committees g; n = cs_next_cross_req_id s;
                    r = \<lparr>xr_id = n, xr_requesting_committee = i, xr_approving_committees = approving, xr_proposal = proposal,
                         xr_approvals = [], xr_status = CrossPending\<rparr>
                in (Ok r, g\<lparr>g_committees := s\<lparr>cs_cross_committee_requests := (cs_cross_committee_requests s)(n \<mapsto> r),
                                              cs_next_cross_req_id := u64_sat_add n 1\<rparr>\<rparr>))))"

definition record_approval :: "nat \<Rightarrow> nat \<Rightarrow> CrossCommitteeRequest \<Rightarrow> CrossCommitteeRequest" where
  "record_approval j k r =
     (let r = r\<lparr>xr_approvals := sset j k (xr_approvals r)\<rparr>
      in if length (xr_approvals r) = length (xr_approving_committees r) then r\<lparr>xr_status := CrossApproved\<rparr> else r)"

definition approve_cross_committee_request :: "nat \<Rightarrow> nat \<Rightarrow> addr \<Rightarrow> nat \<Rightarrow> gov \<Rightarrow> CrossCommitteeRequest ggcall" where
  "approve_cross_committee_request i j approver k g =
     and_then (get_cross_committee_request g i, g) (\<lambda>r g.
     if xr_status r \<noteq> CrossPending \<or> j \<notin> set (xr_approving_committees r) then (Err InvalidCommitteeConfig, g)
     else if sget (xr_approvals r) j \<noteq> None then (Err AlreadyVoted, g)
     else and_then (get_committee g j, g) (\<lambda>c g.
       if approver \<notin> set (co_members c) then (Err Unauthorized, g)
       else and_then (find_decision_index (co_decisions c) k, g) (\<lambda>n g.
         let d = co_decisions c ! n
         in if cd_status d \<noteq> DecApproved \<and> cd_status d \<noteq> DecExecuted then (Err CommitteeDecisionNotOpen, g)
            else let r = record_approval j k r; s = g_committees g
                 in (Ok r, g\<lparr>g_committees := s\<lparr>cs_cross_committee_requests := (cs_cross_committee_requests s)(i \<mapsto> r)\<rparr>\<rparr>))))"

end
