(* ===== verification/Conviction.thy ===== *)
theory Conviction
  imports GovTypes IntSqrt
begin

text \<open>
  Conviction voting (\<open>governance/src/conviction_voting.rs\<close>): pools that fund proposals once the support
  committed to them has lasted long enough. Commitments are numbers only: the module never looks at the
  balance of the voter.
\<close>

section \<open>Constants and calibration\<close>

definition CONVICTION_PRECISION :: int where "CONVICTION_PRECISION = 10000"
definition DECAY_SCALE :: int where "DECAY_SCALE = 1000000000000"
definition MIN_DECAY_RATE :: nat where "MIN_DECAY_RATE = 1"
definition MAX_DECAY_RATE :: nat where "MAX_DECAY_RATE = 999"

function pow_loop :: "int \<Rightarrow> nat \<Rightarrow> int \<Rightarrow> int \<Rightarrow> int" where
  "pow_loop base_scaled e scale result =
     (if e = 0 then result
      else pow_loop (tdiv (saturating_mul base_scaled base_scaled) scale) (e div 2) scale
             (if e mod 2 = 1 then tdiv (saturating_mul result base_scaled) scale else result))"
  by pat_completeness auto
termination
  by (relation "measure (\<lambda>(b, e, s, r). e)") auto

declare pow_loop.simps [simp del]

definition pow_fixed_point :: "int \<Rightarrow> nat \<Rightarrow> int \<Rightarrow> int" where
  "pow_fixed_point base_scaled e scale = pow_loop base_scaled e scale scale"

definition get_conviction_calibration :: "gov \<Rightarrow> ConvictionCalibration" where
  "get_conviction_calibration g =
     opt_or \<lparr>cc_penalty_threshold_days = 0, cc_penalty_multiplier = 1, cc_reward_bonus_pct = 0, cc_max_conviction_cap = 0,
             cc_decay_rate_bps = 50\<rparr> (g_calibration g)"

definition decay_rate_valid :: "nat \<Rightarrow> bool" where
  "decay_rate_valid r \<longleftrightarrow> MIN_DECAY_RATE \<le> r \<and> r \<le> MAX_DECAY_RATE"

definition put_conviction_calibration :: "ConvictionCalibration \<Rightarrow> gov \<Rightarrow> unit ggcall" where
  "put_conviction_calibration c g =
     (if \<not> decay_rate_valid (cc_decay_rate_bps c) then (Err InvalidDecayRate, g) else (Ok (), g\<lparr>g_calibration := Some c\<rparr>))"

definition put_decay_rate :: "nat \<Rightarrow> gov \<Rightarrow> unit ggcall" where
  "put_decay_rate r g =
     (if \<not> decay_rate_valid r then (Err InvalidDecayRate, g)
      else (Ok (), g\<lparr>g_calibration := Some ((get_conviction_calibration g)\<lparr>cc_decay_rate_bps := r\<rparr>)\<rparr>))"

section \<open>Conviction of a vote\<close>

definition decayed :: "int \<Rightarrow> nat \<Rightarrow> ConvictionCalibration \<Rightarrow> int" where
  "decayed conviction days c =
     (if decay_rate_valid (cc_decay_rate_bps c) then
        (let factor = tdiv (saturating_mul (1000 - int (cc_decay_rate_bps c)) DECAY_SCALE) 1000
         in tdiv (saturating_mul conviction (pow_fixed_point factor (as_u32 days) DECAY_SCALE)) DECAY_SCALE)
      else conviction)"

definition penalised :: "int \<Rightarrow> nat \<Rightarrow> ConvictionCalibration \<Rightarrow> int" where
  "penalised conviction days c =
     (if 0 < cc_penalty_threshold_days c \<and> days < cc_penalty_threshold_days c \<and> 1 < cc_penalty_multiplier c
      then saturating_sub conviction (tdiv conviction (int (cc_penalty_multiplier c)))
      else conviction)"

definition rewarded :: "int \<Rightarrow> nat \<Rightarrow> ConvictionCalibration \<Rightarrow> int" where
  "rewarded conviction days c =
     (if 0 < cc_reward_bonus_pct c \<and> cc_penalty_threshold_days c \<le> days
      then saturating_add conviction
             (tdiv (case gmul conviction (int (cc_reward_bonus_pct c)) of Ok x \<Rightarrow> x | _ \<Rightarrow> 0) 100)
      else conviction)"

definition capped :: "int \<Rightarrow> ConvictionCalibration \<Rightarrow> int" where
  "capped conviction c =
     (if 0 < cc_max_conviction_cap c \<and> cc_max_conviction_cap c < conviction then cc_max_conviction_cap c else conviction)"

definition calculate_conviction :: "int \<Rightarrow> nat \<Rightarrow> ConvictionCalibration \<Rightarrow> int gres" where
  "calculate_conviction tokens time_elapsed c =
     (let days = time_elapsed div 86400
      in if days = 0 then Ok 0
         else res_then (isqrt (int days)) (\<lambda>sqrt_days.
           let conviction = tdiv (saturating_mul tokens sqrt_days) 1000
           in Ok (capped (rewarded (penalised (decayed conviction days c) days c) days c) c)))"

definition calculate_conviction_threshold :: "int \<Rightarrow> int \<Rightarrow> int \<Rightarrow> int gres" where
  "calculate_conviction_threshold requested whole_pool whole_conviction =
     (if requested \<le> 0 \<or> whole_pool \<le> 0 then Err InvalidAmount
      else res_then (gmul requested CONVICTION_PRECISION) (\<lambda>x.
           let ratio = tdiv x whole_pool
           in res_then (gmul ratio ratio) (\<lambda>y.
              res_then (gmul (tdiv y CONVICTION_PRECISION) whole_conviction) (\<lambda>z.
                Ok (max 1000 (tdiv (saturating_mul z 200) (CONVICTION_PRECISION * 100)))))))"

definition update_vote_conviction :: "env \<Rightarrow> gov \<Rightarrow> ConvictionVote \<Rightarrow> ConvictionVote gres" where
  "update_vote_conviction ev g v =
     res_then (calculate_conviction (cv_tokens_committed v) (ev_timestamp ev - cv_vote_started v) (get_conviction_calibration g))
       (\<lambda>c. Ok (v\<lparr>cv_current_conviction := c, cv_last_conviction_update := ev_timestamp ev\<rparr>))"

definition update_conviction_vote :: "env \<Rightarrow> gov \<Rightarrow> ConvictionVote \<Rightarrow> int \<Rightarrow> ConvictionVote gres" where
  "update_conviction_vote ev g v new_tokens =
     (if cv_tokens_committed v < new_tokens then
        Ok (v\<lparr>cv_tokens_committed := new_tokens, cv_vote_started := ev_timestamp ev,
              cv_last_conviction_update := ev_timestamp ev, cv_current_conviction := 0\<rparr>)
      else if new_tokens < cv_tokens_committed v then
        res_then (update_vote_conviction ev g v) (\<lambda>v.
        res_then (gmul new_tokens CONVICTION_PRECISION) (\<lambda>x.
        res_then (gmul (cv_current_conviction v) (tdiv x (cv_tokens_committed v))) (\<lambda>y.
          Ok (v\<lparr>cv_current_conviction := tdiv y CONVICTION_PRECISION, cv_tokens_committed := new_tokens\<rparr>))))
      else Ok v)"

definition apply_vote_switch_decay :: "int \<Rightarrow> int" where
  "apply_vote_switch_decay tokens = saturating_sub tokens (tdiv tokens 10)"

section \<open>Pools and proposals\<close>

definition get_pool :: "gov \<Rightarrow> nat \<Rightarrow> ConvictionVotingPool gres" where
  "get_pool g i = ok_or ConvictionPoolNotFound (cst_pools (g_conviction g) i)"

definition put_pool :: "nat \<Rightarrow> ConvictionVotingPool \<Rightarrow> gov \<Rightarrow> gov" where
  "put_pool i p g = g\<lparr>g_conviction := (g_conviction g)\<lparr>cst_pools := (cst_pools (g_conviction g))(i \<mapsto> p)\<rparr>\<rparr>"

definition pool_proposal :: "ConvictionVotingPool \<Rightarrow> nat \<Rightarrow> ConvictionProposal gres" where
  "pool_proposal po j = ok_or ProposalNotFound (po_proposals po j)"

definition set_pool_proposal :: "nat \<Rightarrow> ConvictionProposal \<Rightarrow> ConvictionVotingPool \<Rightarrow> ConvictionVotingPool" where
  "set_pool_proposal j p po = po\<lparr>po_proposals := (po_proposals po)(j \<mapsto> p)\<rparr>"

definition create_conviction_pool :: "env \<Rightarrow> int \<Rightarrow> int \<Rightarrow> nat \<Rightarrow> gov \<Rightarrow> nat ggcall" where
  "create_conviction_pool ev funding refill_rate refill_period g =
     (if funding \<le> 0 \<or> refill_rate < 0 \<or> refill_period = 0 then (Err InvalidCommitteeConfig, g)
      else let s = g_conviction g; i = cst_next_pool_id s;
               po = \<lparr>po_pool_id = i, po_funding_amount = funding, po_refill_rate = refill_rate, po_refill_period = refill_period,
                     po_proposals = (\<lambda>_. None), po_proposal_ids = [], po_total_conviction = 0, po_last_refill = ev_timestamp ev\<rparr>
           in (Ok i, g\<lparr>g_conviction := s\<lparr>cst_pools := (cst_pools s)(i \<mapsto> po), cst_pool_ids := cst_pool_ids s @ [i],
                                         cst_next_pool_id := u64_sat_add i 1\<rparr>\<rparr>))"

definition create_conviction_proposal :: "env \<Rightarrow> nat \<Rightarrow> addr \<Rightarrow> string \<Rightarrow> int \<Rightarrow> addr \<Rightarrow> gov \<Rightarrow> nat ggcall" where
  "create_conviction_proposal ev i proposer title requested beneficiary = guard (\<lambda>_. signed ev proposer) (\<lambda>g.
     if requested \<le> 0 \<or> title = [] then (Err InvalidProposal, g)
     else and_then (get_pool g i, g) (\<lambda>po g.
          if po_funding_amount po < requested then (Err InsufficientBalance, g)
          else and_then (calculate_conviction_threshold requested (po_funding_amount po)
                           (if 0 < po_total_conviction po then po_total_conviction po else 1000), g) (\<lambda>threshold g.
            let s = g_conviction g; j = cst_next_proposal_id s;
                p = \<lparr>cp_id = j, cp_proposer = proposer, cp_title = title, cp_requested_amount = requested,
                     cp_beneficiary = beneficiary, cp_conviction_accumulated = 0, cp_conviction_threshold = threshold,
                     cp_status = ConvActive, cp_votes = (\<lambda>_. None), cp_voters = [], cp_funding_granted = 0\<rparr>;
                po = (set_pool_proposal j p po)\<lparr>po_proposal_ids := po_proposal_ids po @ [j]\<rparr>;
                g = put_pool i po g
            in (Ok j, g\<lparr>g_conviction := (g_conviction g)\<lparr>cst_next_proposal_id := u64_sat_add j 1\<rparr>\<rparr>))))"

definition enter_conviction_vote :: "env \<Rightarrow> gov \<Rightarrow> addr \<Rightarrow> int \<Rightarrow> ConvictionProposal \<Rightarrow> ConvictionProposal gres" where
  "enter_conviction_vote ev g voter tokens p =
     (case cp_votes p voter of
        Some v \<Rightarrow> res_then (update_conviction_vote ev g v tokens) (\<lambda>v. Ok (p\<lparr>cp_votes := (cp_votes p)(voter \<mapsto> v)\<rparr>))
      | None \<Rightarrow> Ok (p\<lparr>cp_votes := (cp_votes p)(voter \<mapsto> \<lparr>cv_voter = voter, cv_tokens_committed = tokens,
                       cv_vote_started = ev_timestamp ev, cv_last_conviction_update = ev_timestamp ev, cv_current_conviction = 0\<rparr>),
                    cp_voters := cp_voters p @ [voter]\<rparr>))"

definition vote_conviction :: "env \<Rightarrow> nat \<Rightarrow> nat \<Rightarrow> addr \<Rightarrow> int \<Rightarrow> gov \<Rightarrow> unit ggcall" where
  "vote_conviction ev i j voter tokens = guard (\<lambda>_. signed ev voter) (\<lambda>g.
     if tokens \<le> 0 then (Err InvalidAmount, g)
     else and_then (get_pool g i, g) (\<lambda>po g.
          and_then (pool_proposal po j, g) (\<lambda>p g.
          if cp_status p \<noteq> ConvActive then (Err ProposalNotActive, g)
          else and_then (enter_conviction_vote ev g voter tokens p, g) (\<lambda>p g.
               (Ok (), put_pool i (set_pool_proposal j p po) g)))))"

section \<open>Funding\<close>

definition fund_proposal :: "ConvictionVotingPool \<Rightarrow> ConvictionProposal \<Rightarrow> (ConvictionVotingPool \<times> ConvictionProposal) gres" where
  "fund_proposal po p =
     (if cp_conviction_accumulated p < cp_conviction_threshold p then Err InvalidCommitteeAction
      else if po_funding_amount po < cp_requested_amount p then Err InsufficientBalance
      else Ok (po\<lparr>po_funding_amount := saturating_sub (po_funding_amount po) (cp_requested_amount p)\<rparr>,
               p\<lparr>cp_status := ConvFunded, cp_funding_granted := cp_requested_amount p\<rparr>))"

text \<open>The loop over the list of voters, which may name an account twice.\<close>

definition refresh_vote ::
  "env \<Rightarrow> gov \<Rightarrow> addr \<Rightarrow> (addr \<Rightarrow> ConvictionVote option) \<times> int \<Rightarrow> ((addr \<Rightarrow> ConvictionVote option) \<times> int) gres" where
  "refresh_vote ev g voter x =
     (case x of (votes, total_conviction) \<Rightarrow>
        (case votes voter of None \<Rightarrow> Ok x
         | Some v \<Rightarrow> res_then (update_vote_conviction ev g v) (\<lambda>v.
             Ok (votes(voter \<mapsto> v), saturating_add total_conviction (cv_current_conviction v)))))"

definition update_proposal_conviction :: "env \<Rightarrow> nat \<Rightarrow> nat \<Rightarrow> gov \<Rightarrow> int ggcall" where
  "update_proposal_conviction ev i j g =
     and_then (get_pool g i, g) (\<lambda>po g.
     and_then (pool_proposal po j, g) (\<lambda>p g.
     and_then (res_fold (refresh_vote ev g) (cp_voters p) (cp_votes p, 0), g) (\<lambda>(votes, total_conviction) g.
       let p = p\<lparr>cp_votes := votes, cp_conviction_accumulated := total_conviction\<rparr>
       in and_then (if cp_conviction_threshold p \<le> total_conviction \<and> cp_status p = ConvActive then fund_proposal po p else Ok (po, p), g)
            (\<lambda>(po, p) g. (Ok total_conviction, put_pool i (set_pool_proposal j p po) g)))))"

definition execute_conviction_funding :: "nat \<Rightarrow> nat \<Rightarrow> gov \<Rightarrow> unit ggcall" where
  "execute_conviction_funding i j g =
     and_then (get_pool g i, g) (\<lambda>po g.
     and_then (pool_proposal po j, g) (\<lambda>p g.
     and_then (fund_proposal po p, g) (\<lambda>(po, p) g. (Ok (), put_pool i (set_pool_proposal j p po) g))))"

text \<open>Both proposals are read from the pool before either is written back.\<close>

definition change_conviction_vote :: "env \<Rightarrow> nat \<Rightarrow> nat \<Rightarrow> nat \<Rightarrow> addr \<Rightarrow> gov \<Rightarrow> unit ggcall" where
  "change_conviction_vote ev i from_proposal to_proposal voter = guard (\<lambda>_. signed ev voter) (\<lambda>g.
     and_then (get_pool g i, g) (\<lambda>po g.
     and_then (pool_proposal po from_proposal, g) (\<lambda>source g.
     and_then (ok_or CrossCommitteeRequestNotFound (cp_votes source voter), g) (\<lambda>v g.
     and_then (pool_proposal po to_proposal, g) (\<lambda>target g.
       let source = source\<lparr>cp_votes := (cp_votes source)(voter := None),
             cp_conviction_accumulated := saturating_sub (cp_conviction_accumulated source) (cv_current_conviction v)\<rparr>;
           target = target\<lparr>cp_votes := (cp_votes target)(voter \<mapsto> \<lparr>cv_voter = voter,
               cv_tokens_committed = apply_vote_switch_decay (cv_tokens_committed v), cv_vote_started = ev_timestamp ev,
               cv_last_conviction_update = ev_timestamp ev, cv_current_conviction = 0\<rparr>),
             cp_voters := (if voter \<in> set (cp_voters target) then cp_voters target else cp_voters target @ [voter])\<rparr>
       in (Ok (), put_pool i (set_pool_proposal to_proposal target (set_pool_proposal from_proposal source po)) g))))))"

definition refill_conviction_pool :: "env \<Rightarrow> nat \<Rightarrow> gov \<Rightarrow> int ggcall" where
  "refill_conviction_pool ev i g =
     and_then (get_pool g i, g) (\<lambda>po g.
       let elapsed = ev_timestamp ev - po_last_refill po
       in if elapsed < po_refill_period po then (Ok 0, g)
          else let amount = saturating_mul (po_refill_rate po) (int (elapsed div po_refill_period po))
               in (Ok amount, put_pool i (po\<lparr>po_funding_amount := saturating_add (po_funding_amount po) amount,
                                           po_last_refill := ev_timestamp ev\<rparr>) g))"

text \<open>The withdrawing voter stays in the list of voters.\<close>

definition withdraw_conviction_vote :: "env \<Rightarrow> nat \<Rightarrow> nat \<Rightarrow> addr \<Rightarrow> gov \<Rightarrow> int ggcall" where
  "withdraw_conviction_vote ev i j voter = guard (\<lambda>_. signed ev voter) (\<lambda>g.
     and_then (get_pool g i, g) (\<lambda>po g.
     and_then (pool_proposal po j, g) (\<lambda>p g.
     and_then (ok_or CrossCommitteeRequestNotFound (cp_votes p voter), g) (\<lambda>v g.
       (Ok (cv_current_conviction v),
        put_pool i (set_pool_proposal j (p\<lparr>cp_votes := (cp_votes p)(voter := None),
          cp_conviction_accumulated := saturating_sub (cp_conviction_accumulated p) (cv_current_conviction v)\<rparr>) po) g)))))"

section \<open>Reports\<close>

definition live_votes :: "ConvictionProposal \<Rightarrow> ConvictionVote list" where
  "live_votes p = List.map_filter (cp_votes p) (cp_voters p)"

definition committed_tokens :: "ConvictionProposal \<Rightarrow> int" where
  "committed_tokens p = fold (\<lambda>v n. saturating_add n (cv_tokens_committed v)) (live_votes p) 0"

definition estimate_conviction_completion :: "env \<Rightarrow> ConvictionProposal \<Rightarrow> nat option gres" where
  "estimate_conviction_completion ev p =
     (if cp_voters p = [] then Ok None
      else let tokens = committed_tokens p
           in if tokens \<le> 0 then Ok None
              else let remaining = saturating_sub (cp_conviction_threshold p) (cp_conviction_accumulated p)
                   in if remaining \<le> 0 then Ok (Some (ev_timestamp ev))
                      else let days = nat (tdiv (saturating_mul remaining 1000) (max (saturating_mul tokens 10) 1) mod 2 ^ 64)
                           in if u64_max < days * 86400 then Panic
                              else Ok (Some (u64_sat_add (ev_timestamp ev) (days * 86400))))"

definition analyze_conviction_proposal :: "env \<Rightarrow> nat \<Rightarrow> nat \<Rightarrow> gov \<Rightarrow> ConvictionAnalytics gres" where
  "analyze_conviction_proposal ev i j g =
     res_then (get_pool g i) (\<lambda>po. res_then (pool_proposal po j) (\<lambda>p.
       let voters = length (cp_voters p);
           age = fold (\<lambda>v n. u64_sat_add n (ev_timestamp ev - cv_vote_started v)) (live_votes p) 0;
           progress = (if 0 < cp_conviction_threshold p
                       then i128_as_u32 (tdiv (saturating_mul (cp_conviction_accumulated p) 10000) (cp_conviction_threshold p)) else 0)
       in res_then (if progress < 10000 then estimate_conviction_completion ev p else Ok None) (\<lambda>estimate.
          Ok \<lparr>cn_proposal_id = j, cn_total_voters = voters, cn_total_tokens_committed = committed_tokens p,
              cn_current_conviction = cp_conviction_accumulated p, cn_conviction_threshold = cp_conviction_threshold p,
              cn_progress_pct = progress, cn_avg_vote_age_days = (if 0 < voters then as_u32 (age div voters div 86400) else 0),
              cn_estimated_funding_time = estimate\<rparr>)))"

definition projected_conviction :: "gov \<Rightarrow> nat \<Rightarrow> ConvictionProposal \<Rightarrow> int gres" where
  "projected_conviction g ts p =
     res_fold (\<lambda>v n. res_then (calculate_conviction (cv_tokens_committed v) (ts - cv_vote_started v) (get_conviction_calibration g))
                      (\<lambda>c. Ok (saturating_add n c))) (live_votes p) 0"

definition get_conviction_growth_curve :: "env \<Rightarrow> nat \<Rightarrow> nat \<Rightarrow> nat \<Rightarrow> gov \<Rightarrow> (nat \<times> int) list gres" where
  "get_conviction_growth_curve ev i j days g =
     res_then (get_pool g i) (\<lambda>po. res_then (pool_proposal po j) (\<lambda>p.
       res_collect (\<lambda>day. let ts = u64_sat_add (ev_timestamp ev) (day * 86400)
                           in res_then (projected_conviction g ts p) (\<lambda>c. Ok [(ts, c)])) [0..<days + 1]))"

end
