(* ===== verification/CouncilEntry.thy ===== *)
theory CouncilEntry
  imports GovEntry Committees Conviction
begin

text \<open>
  The entry points of the governance contract (\<open>governance/src/lib.rs\<close>) for committees and conviction
  voting. The three guarded operations on committees share the queueing entry points of \<open>GovEntry\<close>.
\<close>

section \<open>Conviction voting\<close>

definition create_conviction_pool_entry :: "env \<Rightarrow> addr \<Rightarrow> int \<Rightarrow> int \<Rightarrow> nat \<Rightarrow> gov \<Rightarrow> nat ggcall" where
  "create_conviction_pool_entry ev admin funding refill_rate refill_period =
     guard (require_admin ev admin) (create_conviction_pool ev funding refill_rate refill_period)"

definition create_conviction_proposal_entry :: "env \<Rightarrow> nat \<Rightarrow> addr \<Rightarrow> string \<Rightarrow> int \<Rightarrow> addr \<Rightarrow> gov \<Rightarrow> nat ggcall" where
  "create_conviction_proposal_entry ev i proposer title requested beneficiary =
     initialized (create_conviction_proposal ev i proposer title requested beneficiary)"

definition vote_conviction_entry :: "env \<Rightarrow> nat \<Rightarrow> nat \<Rightarrow> addr \<Rightarrow> int \<Rightarrow> gov \<Rightarrow> unit ggcall" where
  "vote_conviction_entry ev i j voter tokens = initialized (vote_conviction ev i j voter tokens)"

definition update_proposal_conviction_entry :: "env \<Rightarrow> nat \<Rightarrow> nat \<Rightarrow> gov \<Rightarrow> int ggcall" where
  "update_proposal_conviction_entry ev i j = initialized (update_proposal_conviction ev i j)"

definition execute_conviction_funding_entry :: "env \<Rightarrow> nat \<Rightarrow> nat \<Rightarrow> gov \<Rightarrow> unit ggcall" where
  "execute_conviction_funding_entry ev i j = initialized (execute_conviction_funding i j)"

definition change_conviction_vote_entry :: "env \<Rightarrow> nat \<Rightarrow> nat \<Rightarrow> nat \<Rightarrow> addr \<Rightarrow> gov \<Rightarrow> unit ggcall" where
  "change_conviction_vote_entry ev i from_proposal to_proposal voter =
     initialized (change_conviction_vote ev i from_proposal to_proposal voter)"

definition refill_conviction_pool_entry :: "env \<Rightarrow> nat \<Rightarrow> gov \<Rightarrow> int ggcall" where
  "refill_conviction_pool_entry ev i = initialized (refill_conviction_pool ev i)"

definition withdraw_conviction_vote_entry :: "env \<Rightarrow> nat \<Rightarrow> nat \<Rightarrow> addr \<Rightarrow> gov \<Rightarrow> int ggcall" where
  "withdraw_conviction_vote_entry ev i j voter = initialized (withdraw_conviction_vote ev i j voter)"

definition set_conviction_calibration :: "env \<Rightarrow> addr \<Rightarrow> ConvictionCalibration \<Rightarrow> gov \<Rightarrow> ConvictionCalibration ggcall" where
  "set_conviction_calibration ev admin c = guard (require_admin ev admin) (\<lambda>g.
     if cc_penalty_multiplier c = 0 \<or> 100 < cc_reward_bonus_pct c then (Err InvalidCalibrationConfig, g)
     else and_then (put_conviction_calibration c g) (\<lambda>_ g. (Ok c, g)))"

definition set_conviction_decay_rate :: "env \<Rightarrow> addr \<Rightarrow> nat \<Rightarrow> gov \<Rightarrow> unit ggcall" where
  "set_conviction_decay_rate ev admin r = guard (require_admin ev admin) (put_decay_rate r)"

section \<open>Committees\<close>

definition create_committee_entry ::
  "env \<Rightarrow> addr \<Rightarrow> string \<Rightarrow> string \<Rightarrow> addr list \<Rightarrow> addr \<Rightarrow> nat \<Rightarrow> Authority list \<Rightarrow> nat option \<Rightarrow> gov \<Rightarrow> Committee ggcall" where
  "create_committee_entry ev admin name description members chair max_members authorities term_days =
     direct ev admin (create_committee ev name description members chair max_members authorities term_days)"

definition create_committee_timelocked ::
  "env \<Rightarrow> addr \<Rightarrow> nat \<Rightarrow> string \<Rightarrow> string \<Rightarrow> addr list \<Rightarrow> addr \<Rightarrow> nat \<Rightarrow> Authority list \<Rightarrow> nat option \<Rightarrow> gov \<Rightarrow> Committee ggcall" where
  "create_committee_timelocked ev admin action_id name description members chair max_members authorities term_days =
     timelocked ev admin action_id (create_committee ev name description members chair max_members authorities term_days)"

definition propose_committee_decision :: "env \<Rightarrow> nat \<Rightarrow> addr \<Rightarrow> string \<Rightarrow> CommitteeAction \<Rightarrow> gov \<Rightarrow> CommitteeDecision ggcall" where
  "propose_committee_decision ev i proposer proposal action =
     initialized (guard (\<lambda>_. signed ev proposer) (propose_decision ev i proposer proposal action))"

definition vote_on_committee_decision :: "env \<Rightarrow> nat \<Rightarrow> nat \<Rightarrow> addr \<Rightarrow> CommitteeVote \<Rightarrow> gov \<Rightarrow> CommitteeDecision ggcall" where
  "vote_on_committee_decision ev i k voter v = initialized (guard (\<lambda>_. signed ev voter) (vote_on_decision i k voter v))"

definition execute_committee_decision :: "env \<Rightarrow> nat \<Rightarrow> nat \<Rightarrow> addr \<Rightarrow> gov \<Rightarrow> CommitteeDecision ggcall" where
  "execute_committee_decision ev i k executor = initialized (guard (\<lambda>_. signed ev executor) (execute_decision ev i k executor))"

definition start_committee_election :: "env \<Rightarrow> addr \<Rightarrow> nat \<Rightarrow> nat \<Rightarrow> nat \<Rightarrow> nat \<Rightarrow> int \<Rightarrow> gov \<Rightarrow> CommitteeElection ggcall" where
  "start_committee_election ev admin i positions days min_participation quorum_stake =
     guard (require_admin ev admin) (start_election ev i positions days min_participation quorum_stake)"

definition nominate_for_committee_entry :: "env \<Rightarrow> nat \<Rightarrow> addr \<Rightarrow> addr \<Rightarrow> gov \<Rightarrow> CommitteeElection ggcall" where
  "nominate_for_committee_entry ev i nominee nominator =
     initialized (guard (\<lambda>_. signed ev nominee) (guard (\<lambda>_. signed ev nominator) (nominate_for_committee ev i nominee nominator)))"

definition vote_in_committee_election :: "env \<Rightarrow> nat \<Rightarrow> addr \<Rightarrow> addr \<Rightarrow> gov \<Rightarrow> CommitteeElection ggcall" where
  "vote_in_committee_election ev i voter candidate =
     initialized (guard (\<lambda>_. signed ev voter) (vote_in_election ev i voter candidate))"

definition finalize_committee_election :: "env \<Rightarrow> addr \<Rightarrow> nat \<Rightarrow> gov \<Rightarrow> ElectionResult ggcall" where
  "finalize_committee_election ev admin i = guard (require_admin ev admin) (finalize_election ev i)"

definition set_committee_approval_rating :: "env \<Rightarrow> addr \<Rightarrow> nat \<Rightarrow> nat \<Rightarrow> gov \<Rightarrow> Committee ggcall" where
  "set_committee_approval_rating ev admin i rating = guard (require_admin ev admin) (set_community_approval_rating i rating)"

definition override_committee_decision :: "env \<Rightarrow> addr \<Rightarrow> nat \<Rightarrow> nat \<Rightarrow> gov \<Rightarrow> CommitteeDecision ggcall" where
  "override_committee_decision ev admin i k = direct ev admin (override_decision i k)"

definition committee_override_timelocked :: "env \<Rightarrow> addr \<Rightarrow> nat \<Rightarrow> nat \<Rightarrow> nat \<Rightarrow> gov \<Rightarrow> CommitteeDecision ggcall" where
  "committee_override_timelocked ev admin action_id i k = timelocked ev admin action_id (override_decision i k)"

definition dissolve_committee_entry :: "env \<Rightarrow> addr \<Rightarrow> nat \<Rightarrow> gov \<Rightarrow> Committee ggcall" where
  "dissolve_committee_entry ev admin i = direct ev admin (dissolve_committee ev i)"

definition dissolve_committee_timelocked :: "env \<Rightarrow> addr \<Rightarrow> nat \<Rightarrow> nat \<Rightarrow> gov \<Rightarrow> Committee ggcall" where
  "dissolve_committee_timelocked ev admin action_id i = timelocked ev admin action_id (dissolve_committee ev i)"

definition request_cross_committee_approval_entry ::
  "env \<Rightarrow> nat \<Rightarrow> addr \<Rightarrow> nat list \<Rightarrow> string \<Rightarrow> gov \<Rightarrow> CrossCommitteeRequest ggcall" where
  "request_cross_committee_approval_entry ev i requester approving proposal =
     initialized (guard (\<lambda>_. signed ev requester) (request_cross_committee_approval ev i requester approving proposal))"

definition approve_cross_committee_request_entry :: "env \<Rightarrow> nat \<Rightarrow> nat \<Rightarrow> addr \<Rightarrow> nat \<Rightarrow> gov \<Rightarrow> CrossCommitteeRequest ggcall" where
  "approve_cross_committee_request_entry ev i j approver k =
     initialized (guard (\<lambda>_. signed ev approver) (approve_cross_committee_request i j approver k))"

end
