(* ===== verification/GovSteps.thy ===== *)
theory GovSteps
  imports VoteTallies CouncilEntry
begin

text \<open>
  The governance contract as a transition system: one step is one entry point of \<open>GovEntry\<close> or \<open>CouncilEntry\<close>, called by
  anybody with any arguments at any time, and rolled back when it fails. The invariant of the votes is
  kept by every step, whatever the result of the call is.
\<close>

section \<open>Operations\<close>

datatype proposal_op =
    CreateProposal addr ProposalType string string bytes ProposalCategory bool
  | CastVote nat addr VoteType
  | ReputationVote nat addr VoteType
  | FinalizeProposal nat
  | ExecuteProposal nat addr
  | CleanupProposals nat nat
  | CancelProposal nat addr
  | ReclaimProposal nat addr
  | WithdrawProposal nat addr
  | Delegate addr addr
  | DelegateUntil addr addr nat
  | RenewDelegation addr nat
  | Undelegate addr
  | CleanupDelegations nat nat
  | RefreshReputation addr

datatype timelock_op =
    InitializeTimelock addr nat nat addr
  | QueueAction nat
  | ExecuteQueued nat addr
  | ExecuteMany "nat list" addr
  | CancelQueued nat addr
  | EmergencyExecute nat addr
  | EmergencyUnblock nat addr
  | UpdateDelay addr ActionType nat
  | UpdateDelayTimelocked addr nat ActionType nat
  | ExtendWindow addr nat nat
  | QueueAdmin symbol addr
  | QueueGrant addr
  | QueueRevoke addr
  | GrantTimelocked addr nat addr Capability
  | RevokeTimelocked addr nat addr Capability
  | CancelAdmin nat addr

datatype setting_op =
    Initialize addr string string nat int DistributionRecipients
  | ProposeRotation addr addr
  | AcceptRotation addr
  | CancelRotation addr
  | RevokeAdmin addr
  | SetPaused addr bool
  | RegisterTarget addr addr
  | UnregisterTarget addr addr
  | EnforceTimelock addr
  | MigrateStorage addr nat
  | Configure addr GovernanceConfig
  | ConfigureTimelocked addr nat GovernanceConfig
  | SetThresholds addr ProposalCategory CategoryThreshold
  | SetThresholdsTimelocked addr nat ProposalCategory CategoryThreshold
  | SetDepositConfig addr DepositConfig
  | SetSpendWindow addr nat int
  | SetReputationConfig addr ReputationConfig
  | SetGuardian addr addr
  | SetGuardianTimelocked addr nat addr
  | Grant addr addr Capability
  | Revoke addr addr Capability
  | EnterShadow addr bytes nat
  | EnterShadowTimelocked addr nat bytes nat
  | PromoteShadow addr
  | PromoteShadowTimelocked addr nat
  | CancelShadow addr

datatype money_op =
    StakeTokens addr int
  | UnstakeTokens addr int
  | VoteLock addr addr nat
  | AccrueFor addr addr int
  | ClaimLiquidity addr
  | MiningConfig addr nat int
  | ReleaseVesting addr
  | GrantVesting addr addr int nat nat nat
  | GrantVestingTimelocked addr nat addr int nat nat nat
  | TreasuryAsset addr asset int
  | TreasuryAssetTimelocked addr nat asset int
  | CreateBudget addr string int int nat nat bool
  | CreateBudgetTimelocked addr nat string int int nat nat bool
  | ApproveTreasuryBudget addr string nat int
  | ApproveBudgetTimelocked addr nat string nat int
  | SpendTreasury addr addr int asset string string "nat option"
  | SpendTimelocked addr nat addr int asset string string "nat option"
  | RecurringTreasuryPayment addr addr int asset nat string string "nat option" "nat option"
  | RecurringTimelocked addr nat addr int asset nat string string "nat option" "nat option"
  | ProcessRecurring addr
  | RebalanceTarget addr asset int
  | RebalanceTargetTimelocked addr nat asset int
  | RebalanceTreasury addr "asset \<Rightarrow> int option"

datatype committee_op =
    CreateCommittee addr string string "addr list" addr nat "Authority list" "nat option"
  | CreateCommitteeTimelocked addr nat string string "addr list" addr nat "Authority list" "nat option"
  | ProposeDecision nat addr string CommitteeAction
  | VoteOnDecision nat nat addr CommitteeVote
  | ExecuteDecision nat nat addr
  | StartElection addr nat nat nat nat int
  | Nominate nat addr addr
  | VoteInElection nat addr addr
  | FinalizeElection addr nat
  | RateCommittee addr nat nat
  | OverrideDecision addr nat nat
  | OverrideTimelocked addr nat nat nat
  | DissolveCommittee addr nat
  | DissolveTimelocked addr nat nat
  | RequestCross nat addr "nat list" string
  | ApproveCross nat nat addr nat

datatype conviction_op =
    CreatePool addr int int nat
  | CreateConvictionProposal nat addr string int addr
  | VoteConviction nat nat addr int
  | UpdateConviction nat nat
  | FundProposal nat nat
  | ChangeConvictionVote nat nat nat addr
  | RefillPool nat
  | WithdrawConvictionVote nat nat addr
  | SetCalibration addr ConvictionCalibration
  | SetDecayRate addr nat

datatype gov_op =
    OnProposals proposal_op
  | OnTimelock timelock_op
  | OnSettings setting_op
  | OnMoney money_op
  | OnCommittees committee_op
  | OnConviction conviction_op

fun proposal_call :: "env \<Rightarrow> proposal_op \<Rightarrow> gov \<Rightarrow> gov" where
  "proposal_call ev (CreateProposal a t ti d pl c q) g = snd (commit g (create_proposal_entry ev a t ti d pl c q g))"
| "proposal_call ev (CastVote i a vt) g = snd (commit g (cast_vote_entry ev i a vt g))"
| "proposal_call ev (ReputationVote i a vt) g = snd (commit g (cast_reputation_weighted_vote_entry ev i a vt g))"
| "proposal_call ev (FinalizeProposal i) g = snd (commit g (finalize_proposal_entry ev i g))"
| "proposal_call ev (ExecuteProposal i a) g = snd (commit g (execute_proposal_entry ev i a g))"
| "proposal_call ev (CleanupProposals c l) g = snd (commit g (cleanup_proposals ev c l g))"
| "proposal_call ev (CancelProposal i a) g = snd (commit g (cancel_proposal_entry ev i a g))"
| "proposal_call ev (ReclaimProposal i a) g = snd (commit g (reclaim_expired_proposal_entry ev i a g))"
| "proposal_call ev (WithdrawProposal i a) g = snd (commit g (withdraw_proposal_entry ev i a g))"
| "proposal_call ev (Delegate a b) g = snd (commit g (delegate_voting_power_entry ev a b g))"
| "proposal_call ev (DelegateUntil a b e) g = snd (commit g (delegate_voting_power_until ev a b e g))"
| "proposal_call ev (RenewDelegation a e) g = snd (commit g (renew_delegation ev a e g))"
| "proposal_call ev (Undelegate a) g = snd (commit g (undelegate_voting_power_entry ev a g))"
| "proposal_call ev (CleanupDelegations s l) g = snd (commit g (cleanup_expired ev s l g))"
| "proposal_call ev (RefreshReputation a) g = snd (commit g (refresh_reputation ev a g))"

fun timelock_call :: "env \<Rightarrow> timelock_op \<Rightarrow> gov \<Rightarrow> gov" where
  "timelock_call ev (InitializeTimelock a mi ma gu) g = snd (commit g (initialize_timelock ev a mi ma gu g))"
| "timelock_call ev (QueueAction i) g = snd (commit g (queue_action_entry ev i g))"
| "timelock_call ev (ExecuteQueued i a) g = snd (commit g (execute_queued_action_entry ev i a g))"
| "timelock_call ev (ExecuteMany ids a) g = snd (commit g (execute_multiple_actions_entry ev ids a g))"
| "timelock_call ev (CancelQueued i a) g = snd (commit g (cancel_queued_action_entry ev i a g))"
| "timelock_call ev (EmergencyExecute i a) g = snd (commit g (emergency_execute_entry ev i a g))"
| "timelock_call ev (EmergencyUnblock i a) g = snd (commit g (emergency_unblock_action_entry ev i a g))"
| "timelock_call ev (UpdateDelay a at d) g = snd (commit g (update_timelock_delay ev a at d g))"
| "timelock_call ev (UpdateDelayTimelocked a i at d) g = snd (commit g (update_timelock_delay_timelocked ev a i at d g))"
| "timelock_call ev (ExtendWindow a i x) g = snd (commit g (extend_execution_window ev a i x g))"
| "timelock_call ev (QueueAdmin s a) g = snd (commit g (queue_as s ev a g))"
| "timelock_call ev (QueueGrant a) g = snd (commit g (queue_grant_capability ev a g))"
| "timelock_call ev (QueueRevoke a) g = snd (commit g (queue_revoke_capability ev a g))"
| "timelock_call ev (GrantTimelocked a i b c) g = snd (commit g (grant_capability_timelocked ev a i b c g))"
| "timelock_call ev (RevokeTimelocked a i b c) g = snd (commit g (revoke_capability_timelocked ev a i b c g))"
| "timelock_call ev (CancelAdmin i a) g = snd (commit g (cancel_admin_action ev i a g))"

fun setting_call :: "env \<Rightarrow> setting_op \<Rightarrow> gov \<Rightarrow> gov" where
  "setting_call ev (Initialize a n s d x r) g = snd (commit g (initialize ev a n s d x r g))"
| "setting_call ev (ProposeRotation a b) g = snd (commit g (propose_key_rotation ev a b g))"
| "setting_call ev (AcceptRotation b) g = snd (commit g (accept_key_rotation ev b g))"
| "setting_call ev (CancelRotation a) g = snd (commit g (cancel_key_rotation ev a g))"
| "setting_call ev (RevokeAdmin a) g = snd (commit g (emergency_revoke_admin ev a g))"
| "setting_call ev (SetPaused a b) g = snd (commit g (set_contract_paused ev a b g))"
| "setting_call ev (RegisterTarget a t) g = snd (commit g (register_pause_target ev a t g))"
| "setting_call ev (UnregisterTarget a t) g = snd (commit g (unregister_pause_target ev a t g))"
| "setting_call ev (EnforceTimelock a) g = snd (commit g (enforce_admin_timelock ev a g))"
| "setting_call ev (MigrateStorage a n) g = snd (commit g (migrate_storage ev a n g))"
| "setting_call ev (Configure a c) g = snd (commit g (configure_governance ev a c g))"
| "setting_call ev (ConfigureTimelocked a i c) g = snd (commit g (configure_governance_timelocked ev a i c g))"
| "setting_call ev (SetThresholds a c t) g = snd (commit g (set_category_thresholds ev a c t g))"
| "setting_call ev (SetThresholdsTimelocked a i c t) g = snd (commit g (category_thresholds_timelocked ev a i c t g))"
| "setting_call ev (SetDepositConfig a c) g = snd (commit g (set_deposit_config ev a c g))"
| "setting_call ev (SetSpendWindow a n x) g = snd (commit g (set_treasury_spend_window ev a n x g))"
| "setting_call ev (SetReputationConfig a c) g = snd (commit g (update_reputation_config ev a c g))"
| "setting_call ev (SetGuardian a b) g = snd (commit g (set_guardian ev a b g))"
| "setting_call ev (SetGuardianTimelocked a i b) g = snd (commit g (set_guardian_timelocked ev a i b g))"
| "setting_call ev (Grant a b c) g = snd (commit g (grant_capability_entry ev a b c g))"
| "setting_call ev (Revoke a b c) g = snd (commit g (revoke_capability_entry ev a b c g))"
| "setting_call ev (EnterShadow a h d) g = snd (commit g (enter_shadow_mode ev a h d g))"
| "setting_call ev (EnterShadowTimelocked a i h d) g = snd (commit g (enter_shadow_mode_timelocked ev a i h d g))"
| "setting_call ev (PromoteShadow a) g = snd (commit g (promote_from_shadow_mode ev a g))"
| "setting_call ev (PromoteShadowTimelocked a i) g = snd (commit g (shadow_mode_promote_timelocked ev a i g))"
| "setting_call ev (CancelShadow a) g = snd (commit g (cancel_shadow_mode ev a g))"

fun money_call :: "env \<Rightarrow> money_op \<Rightarrow> gov \<Rightarrow> gov" where
  "money_call ev (StakeTokens a x) g = snd (commit g (stake_entry ev a x g))"
| "money_call ev (UnstakeTokens a x) g = snd (commit g (unstake_entry ev a x g))"
| "money_call ev (VoteLock a h n) g = snd (commit g (set_vote_lock_entry ev a h n g))"
| "money_call ev (AccrueFor a h x) g = snd (commit g (accrue_liquidity_rewards_entry ev a h x g))"
| "money_call ev (ClaimLiquidity h) g = snd (commit g (claim_liquidity_rewards_entry ev h g))"
| "money_call ev (MiningConfig a n x) g = snd (commit g (set_liquidity_mining_config ev a n x g))"
| "money_call ev (ReleaseVesting h) g = snd (commit g (release_vested_tokens_entry ev h g))"
| "money_call ev (GrantVesting a h x s c d) g = snd (commit g (create_vesting_schedule ev a h x s c d g))"
| "money_call ev (GrantVestingTimelocked a i h x s c d) g = snd (commit g (vesting_schedule_timelocked ev a i h x s c d g))"
| "money_call ev (TreasuryAsset a t x) g = snd (commit g (set_treasury_asset ev a t x g))"
| "money_call ev (TreasuryAssetTimelocked a i t x) g = snd (commit g (set_treasury_asset_timelocked ev a i t x g))"
| "money_call ev (CreateBudget a c x l s e r) g = snd (commit g (create_budget ev a c x l s e r g))"
| "money_call ev (CreateBudgetTimelocked a i c x l s e r) g = snd (commit g (create_budget_timelocked ev a i c x l s e r g))"
| "money_call ev (ApproveTreasuryBudget a c p x) g = snd (commit g (approve_treasury_budget ev a c p x g))"
| "money_call ev (ApproveBudgetTimelocked a i c p x) g = snd (commit g (treasury_budget_timelocked ev a i c p x g))"
| "money_call ev (SpendTreasury a r x t c p b) g = snd (commit g (execute_treasury_spend ev a r x t c p b g))"
| "money_call ev (SpendTimelocked a i r x t c p b) g = snd (commit g (treasury_spend_timelocked ev a i r x t c p b g))"
| "money_call ev (RecurringTreasuryPayment a r x t f c p b e) g = snd (commit g (create_recurring_payment ev a r x t f c p b e g))"
| "money_call ev (RecurringTimelocked a i r x t f c p b e) g =
     snd (commit g (recurring_payment_timelocked ev a i r x t f c p b e g))"
| "money_call ev (ProcessRecurring a) g = snd (commit g (process_recurring_payments_entry ev a g))"
| "money_call ev (RebalanceTarget a t x) g = snd (commit g (set_rebalance_target_entry ev a t x g))"
| "money_call ev (RebalanceTargetTimelocked a i t x) g = snd (commit g (set_rebalance_target_timelocked ev a i t x g))"
| "money_call ev (RebalanceTreasury a ps) g = snd (commit g (rebalance_treasury ev a ps g))"

fun committee_call :: "env \<Rightarrow> committee_op \<Rightarrow> gov \<Rightarrow> gov" where
  "committee_call ev (CreateCommittee a n d ms c m au t) g = snd (commit g (create_committee_entry ev a n d ms c m au t g))"
| "committee_call ev (CreateCommitteeTimelocked a i n d ms c m au t) g =
     snd (commit g (create_committee_timelocked ev a i n d ms c m au t g))"
| "committee_call ev (ProposeDecision i a s x) g = snd (commit g (propose_committee_decision ev i a s x g))"
| "committee_call ev (VoteOnDecision i k a v) g = snd (commit g (vote_on_committee_decision ev i k a v g))"
| "committee_call ev (ExecuteDecision i k a) g = snd (commit g (execute_committee_decision ev i k a g))"
| "committee_call ev (StartElection a i n d mi q) g = snd (commit g (start_committee_election ev a i n d mi q g))"
| "committee_call ev (Nominate i a b) g = snd (commit g (nominate_for_committee_entry ev i a b g))"
| "committee_call ev (VoteInElection i a b) g = snd (commit g (vote_in_committee_election ev i a b g))"
| "committee_call ev (FinalizeElection a i) g = snd (commit g (finalize_committee_election ev a i g))"
| "committee_call ev (RateCommittee a i r) g = snd (commit g (set_committee_approval_rating ev a i r g))"
| "committee_call ev (OverrideDecision a i k) g = snd (commit g (override_committee_decision ev a i k g))"
| "committee_call ev (OverrideTimelocked a n i k) g = snd (commit g (committee_override_timelocked ev a n i k g))"
| "committee_call ev (DissolveCommittee a i) g = snd (commit g (dissolve_committee_entry ev a i g))"
| "committee_call ev (DissolveTimelocked a n i) g = snd (commit g (dissolve_committee_timelocked ev a n i g))"
| "committee_call ev (RequestCross i a js s) g = snd (commit g (request_cross_committee_approval_entry ev i a js s g))"
| "committee_call ev (ApproveCross i j a k) g = snd (commit g (approve_cross_committee_request_entry ev i j a k g))"

fun conviction_call :: "env \<Rightarrow> conviction_op \<Rightarrow> gov \<Rightarrow> gov" where
  "conviction_call ev (CreatePool a x r p) g = snd (commit g (create_conviction_pool_entry ev a x r p g))"
| "conviction_call ev (CreateConvictionProposal i a t x b) g = snd (commit g (create_conviction_proposal_entry ev i a t x b g))"
| "conviction_call ev (VoteConviction i j a x) g = snd (commit g (vote_conviction_entry ev i j a x g))"
| "conviction_call ev (UpdateConviction i j) g = snd (commit g (update_proposal_conviction_entry ev i j g))"
| "conviction_call ev (FundProposal i j) g = snd (commit g (execute_conviction_funding_entry ev i j g))"
| "conviction_call ev (ChangeConvictionVote i j k a) g = snd (commit g (change_conviction_vote_entry ev i j k a g))"
| "conviction_call ev (RefillPool i) g = snd (commit g (refill_conviction_pool_entry ev i g))"
| "conviction_call ev (WithdrawConvictionVote i j a) g = snd (commit g (withdraw_conviction_vote_entry ev i j a g))"
| "conviction_call ev (SetCalibration a c) g = snd (commit g (set_conviction_calibration ev a c g))"
| "conviction_call ev (SetDecayRate a r) g = snd (commit g (set_conviction_decay_rate ev a r g))"

fun gov_step :: "env \<times> gov_op \<Rightarrow> gov \<Rightarrow> gov" where
  "gov_step (ev, OnProposals p) g = proposal_call ev p g"
| "gov_step (ev, OnTimelock p) g = timelock_call ev p g"
| "gov_step (ev, OnSettings p) g = setting_call ev p g"
| "gov_step (ev, OnMoney p) g = money_call ev p g"
| "gov_step (ev, OnCommittees p) g = committee_call ev p g"
| "gov_step (ev, OnConviction p) g = conviction_call ev p g"

section \<open>Rules to push a predicate through a call\<close>

lemma keep_and_then: "P (snd m) \<Longrightarrow> (\<And>v. fst m = Ok v \<Longrightarrow> P (snd (k v (snd m)))) \<Longrightarrow> P (snd (and_then m k))"
  by (cases m; cases "fst m") auto

lemma keep_guard: "P g \<Longrightarrow> (chk g = Ok () \<Longrightarrow> P (snd (k g))) \<Longrightarrow> P (snd (guard chk k g))"
  unfolding guard_def by (rule keep_and_then) simp_all

lemma keep_dropping: "P (snd m) \<Longrightarrow> P (snd (dropping_error m))"
  by (cases m; cases "fst m") (auto simp: dropping_error_def)

lemma keep_commit: "P g \<Longrightarrow> P (snd m) \<Longrightarrow> P (snd (commit g m))"
  by (cases m; cases "fst m") auto

lemma snd_if: "snd (if b then x else y) = (if b then snd x else snd y)"
  by simp

lemma snd_on [simp]:
  "snd (on_books m g) = g\<lparr>g_books := snd m\<rparr>" "snd (on_treasury t g) = g\<lparr>g_treasury_state := snd t\<rparr>"
  "snd (in_treasury f g) = g\<lparr>g_treasury_state := snd (f (g_treasury_state g))\<rparr>"
  by (simp_all add: on_books_def on_treasury_def in_treasury_def)

end
