(* ===== verification/GovVotes.thy ===== *)
theory GovVotes
  imports GovSteps
begin

text \<open>
  The votes of the governance contract along its histories: \<open>voting_ok\<close> is kept by every entry point,
  so tallies, voters and weights are what the recorded votes and the snapshots say, always.
\<close>

section \<open>Calls that do not touch proposals\<close>

lemma voting_ok_frame [simp]:
  "voting_ok (g\<lparr>g_admin := a1\<rparr>) = voting_ok g" "voting_ok (g\<lparr>g_pending_admin := a2\<rparr>) = voting_ok g"
  "voting_ok (g\<lparr>g_guardian := a3\<rparr>) = voting_ok g" "voting_ok (g\<lparr>g_pause := a4\<rparr>) = voting_ok g"
  "voting_ok (g\<lparr>g_pause_targets := a5\<rparr>) = voting_ok g" "voting_ok (g\<lparr>g_authority := a6\<rparr>) = voting_ok g"
  "voting_ok (g\<lparr>g_enforce_timelock := a7\<rparr>) = voting_ok g" "voting_ok (g\<lparr>g_books := a8\<rparr>) = voting_ok g"
  "voting_ok (g\<lparr>g_treasury_state := a9\<rparr>) = voting_ok g" "voting_ok (g\<lparr>g_treasury_address := b1\<rparr>) = voting_ok g"
  "voting_ok (g\<lparr>g_config := b2\<rparr>) = voting_ok g" "voting_ok (g\<lparr>g_thresholds := b3\<rparr>) = voting_ok g"
  "voting_ok (g\<lparr>g_proposal_ids := b4\<rparr>) = voting_ok g" "voting_ok (g\<lparr>g_next_proposal_id := b5\<rparr>) = voting_ok g"
  "voting_ok (g\<lparr>g_delegations := b6\<rparr>) = voting_ok g" "voting_ok (g\<lparr>g_delegators := b7\<rparr>) = voting_ok g"
  "voting_ok (g\<lparr>g_expiry := b8\<rparr>) = voting_ok g" "voting_ok (g\<lparr>g_timelock := b9\<rparr>) = voting_ok g"
  "voting_ok (g\<lparr>g_admin_pending := c1\<rparr>) = voting_ok g" "voting_ok (g\<lparr>g_window_config := c2\<rparr>) = voting_ok g"
  "voting_ok (g\<lparr>g_window_state := c3\<rparr>) = voting_ok g" "voting_ok (g\<lparr>g_parameters := c4\<rparr>) = voting_ok g"
  "voting_ok (g\<lparr>g_features := c5\<rparr>) = voting_ok g" "voting_ok (g\<lparr>g_upgrades := c6\<rparr>) = voting_ok g"
  "voting_ok (g\<lparr>g_reputation_config := c7\<rparr>) = voting_ok g" "voting_ok (g\<lparr>g_vote_records := c8\<rparr>) = voting_ok g"
  "voting_ok (g\<lparr>g_shadow := c9\<rparr>) = voting_ok g" "voting_ok (g\<lparr>g_storage_version := d1\<rparr>) = voting_ok g"
  "voting_ok (g\<lparr>g_migrating := d2\<rparr>) = voting_ok g" "voting_ok (g\<lparr>g_committees := d3\<rparr>) = voting_ok g"
  "voting_ok (g\<lparr>g_conviction := d4\<rparr>) = voting_ok g" "voting_ok (g\<lparr>g_calibration := d5\<rparr>) = voting_ok g"
  by (simp_all add: voting_ok_def proposals_ok_def scores_ok_def)

lemmas voting_keep =
  keep_and_then [of voting_ok] keep_guard [of voting_ok] keep_dropping [of voting_ok] keep_commit [of voting_ok]

lemmas wrapper_defs = initialized_def unpaused_def direct_def queue_as_def with_entry_def timelocked_def

lemma execute_admin_action_voting: "voting_ok g \<Longrightarrow> voting_ok (snd (execute_admin_action ev i a g))"
  by (auto simp: execute_admin_action_def put_entry_def Let_def intro!: voting_keep)

lemmas money_defs =
  stake_entry_def unstake_entry_def set_vote_lock_entry_def accrue_liquidity_rewards_entry_def
  claim_liquidity_rewards_entry_def set_liquidity_mining_config_def release_vested_tokens_entry_def
  create_vesting_schedule_def vesting_schedule_timelocked_def grant_vesting_def set_treasury_asset_def
  set_treasury_asset_timelocked_def create_budget_def create_budget_timelocked_def approve_treasury_budget_def
  treasury_budget_timelocked_def execute_treasury_spend_def treasury_spend_timelocked_def spend_in_window_def consume_def
  create_recurring_payment_def recurring_payment_timelocked_def process_recurring_payments_entry_def
  set_rebalance_target_entry_def set_rebalance_target_timelocked_def rebalance_treasury_def

lemma money_call_voting: "voting_ok g \<Longrightarrow> voting_ok (money_call ev p g)"
  by (cases p)
    (auto simp: money_defs wrapper_defs Let_def intro!: voting_keep execute_admin_action_voting split: option.splits)

lemmas gov_setting_defs =
  propose_key_rotation_def accept_key_rotation_def cancel_key_rotation_def emergency_revoke_admin_def
  set_contract_paused_def register_pause_target_def unregister_pause_target_def enforce_admin_timelock_def
  migrate_storage_def configure_governance_def configure_governance_timelocked_def put_governance_config_def
  set_category_thresholds_def category_thresholds_timelocked_def store_category_thresholds_def set_deposit_config_def
  set_treasury_spend_window_def configure_window_def update_reputation_config_def set_guardian_def
  set_guardian_timelocked_def store_guardian_def grant_capability_entry_def revoke_capability_entry_def change_grant_def
  enter_shadow_mode_def enter_shadow_mode_timelocked_def start_shadow_mode_def promote_from_shadow_mode_def
  shadow_mode_promote_timelocked_def promote_shadow_def cancel_shadow_mode_def drop_shadow_def

lemma initialize_voting: "voting_ok g \<Longrightarrow> voting_ok (snd (commit g (initialize ev a n s d x r g)))"
proof (rule commit_inv [of voting_ok])
  fix v g'
  assume "voting_ok g" "initialize ev a n s d x r g = (Ok v, g')"
  then have "g_proposals g' = []" "g_reputation g' = \<lparr>rs_reputations = (\<lambda>_. None), rs_users = []\<rparr>"
    by (auto simp: initialize_def guard_Ok and_then_Ok on_books_Ok reset_storage_def Let_def split: if_splits)
  then show "voting_ok g'" by (simp add: voting_ok_def proposals_ok_def scores_ok_def)
qed

lemma setting_call_voting: "voting_ok g \<Longrightarrow> voting_ok (setting_call ev p g)"
proof (cases p)
  case (Initialize a n s d x r)
  then show "voting_ok g \<Longrightarrow> ?thesis" by (simp add: initialize_voting)
qed (auto simp: gov_setting_defs wrapper_defs Let_def intro!: voting_keep execute_admin_action_voting)

lemmas committee_entry_defs =
  create_committee_entry_def create_committee_timelocked_def propose_committee_decision_def vote_on_committee_decision_def
  execute_committee_decision_def start_committee_election_def nominate_for_committee_entry_def vote_in_committee_election_def
  finalize_committee_election_def set_committee_approval_rating_def override_committee_decision_def
  committee_override_timelocked_def dissolve_committee_entry_def dissolve_committee_timelocked_def
  request_cross_committee_approval_entry_def approve_cross_committee_request_entry_def

lemmas committee_defs =
  create_committee_def propose_decision_def vote_on_decision_def start_election_def nominate_for_committee_def
  vote_in_election_def finalize_election_def set_community_approval_rating_def override_decision_def dissolve_committee_def
  request_cross_committee_approval_def approve_cross_committee_request_def execute_decision_def put_committee_def put_election_def

lemma execute_decision_action_voting: "voting_ok g \<Longrightarrow> voting_ok (snd (execute_decision_action a now g))"
  by (cases a) (auto simp: committee_spend_def intro!: voting_keep)

lemma committee_call_voting: "voting_ok g \<Longrightarrow> voting_ok (committee_call ev p g)"
  by (cases p)
    (auto simp: committee_entry_defs committee_defs wrapper_defs Let_def
      intro!: voting_keep execute_admin_action_voting execute_decision_action_voting split: option.splits)

lemmas conviction_entry_defs =
  create_conviction_pool_entry_def create_conviction_proposal_entry_def vote_conviction_entry_def
  update_proposal_conviction_entry_def execute_conviction_funding_entry_def change_conviction_vote_entry_def
  refill_conviction_pool_entry_def withdraw_conviction_vote_entry_def set_conviction_calibration_def set_conviction_decay_rate_def

lemmas conviction_defs =
  create_conviction_pool_def create_conviction_proposal_def vote_conviction_def update_proposal_conviction_def
  execute_conviction_funding_def change_conviction_vote_def refill_conviction_pool_def withdraw_conviction_vote_def
  put_conviction_calibration_def put_decay_rate_def put_pool_def

lemma conviction_call_voting: "voting_ok g \<Longrightarrow> voting_ok (conviction_call ev p g)"
  by (cases p)
    (auto simp: conviction_entry_defs conviction_defs wrapper_defs Let_def intro!: voting_keep split: option.splits prod.splits)

section \<open>Reputation\<close>

definition scores_bounded :: "ReputationState \<Rightarrow> bool" where
  "scores_bounded s \<longleftrightarrow> (\<forall>u r. rs_reputations s u = Some r \<longrightarrow> gr_reputation_score r \<le> MAX_REPUTATION)"

lemma voting_ok_alt: "voting_ok g \<longleftrightarrow> proposals_ok g \<and> scores_bounded (g_reputation g)"
  by (simp add: voting_ok_def scores_ok_def scores_bounded_def)

lemma proposals_ok_reputation [simp]: "proposals_ok (g\<lparr>g_reputation := s\<rparr>) = proposals_ok g"
  by (simp add: proposals_ok_def)

lemma score_bounded: "calculate_reputation_score ev g u \<le> MAX_REPUTATION"
  by (simp add: calculate_reputation_score_def Let_def)

lemma check_badges_score [simp]: "gr_reputation_score (check_and_award_badges r) = gr_reputation_score r"
  by (simp add: check_and_award_badges_def Let_def)

lemma upsert_bounded: "scores_bounded s \<Longrightarrow> gr_reputation_score r \<le> MAX_REPUTATION \<Longrightarrow> scores_bounded (upsert_rep u r s)"
  by (simp add: scores_bounded_def upsert_rep_def)

lemma note_activity_voting: "voting_ok g \<Longrightarrow> voting_ok (snd (note_activity ev u f g))"
  unfolding note_activity_def Let_def
  by (intro voting_keep) (auto simp: voting_ok_alt intro!: upsert_bounded score_bounded)

lemma record_voting:
  assumes "voting_ok g"
  shows "voting_ok (snd (record_proposal_creation ev u g))" "voting_ok (snd (record_vote ev u i vt g))"
    "voting_ok (snd (refresh_stale_reputation ev u g))" "voting_ok (snd (record_proposal_outcome ev i g))"
proof -
  show "voting_ok (snd (record_proposal_creation ev u g))"
    unfolding record_proposal_creation_def by (rule note_activity_voting [OF assms])
  show "voting_ok (snd (record_vote ev u i vt g))"
    unfolding record_vote_def by (intro voting_keep) (auto intro!: note_activity_voting assms)
  show "voting_ok (snd (refresh_stale_reputation ev u g))"
    unfolding refresh_stale_reputation_def Let_def
    by (intro voting_keep) (use assms in \<open>auto simp: voting_ok_alt intro!: upsert_bounded score_bounded\<close>)
  have voter: "scores_bounded s \<Longrightarrow> scores_bounded (credit_voter ev g p oc a s)" for p oc a s
    by (auto simp: credit_voter_def Let_def intro!: upsert_bounded score_bounded split: option.splits)
  have voters: "scores_bounded s \<Longrightarrow> scores_bounded (fold (credit_voter ev g p oc) as s)" for p oc as s
    by (induction as arbitrary: s) (auto intro: voter)
  have "scores_bounded s \<Longrightarrow> scores_bounded (credit_success ev g a s)" for a s
    by (auto simp: credit_success_def Let_def intro!: upsert_bounded score_bounded)
  then show "voting_ok (snd (record_proposal_outcome ev i g))"
    unfolding record_proposal_outcome_def Let_def
    by (intro voting_keep) (use assms in \<open>auto simp: voting_ok_alt intro!: voters\<close>)
qed

section \<open>Proposals\<close>

lemma effective_power_fits: "in_i128 (get_effective_voting_power ev g a)"
  by (simp add: get_effective_voting_power_def saturating_add_def)

lemma snapshots_taken:
  assumes "res_fold (snapshot_power ev g q) hs (s, x) = Ok (s', x')" "snapshots_ok s"
  shows "snapshots_ok s'"
  using assms
proof (induction hs arbitrary: s x)
  case (Cons h hs)
  from Cons.prems(1) obtain s1 x1 where s1: "snapshot_power ev g q h (s, x) = Ok (s1, x1)" "res_fold (snapshot_power ev g q) hs (s1, x1) = Ok (s', x')"
    by (auto simp: res_then_Ok)
  have "snapshots_ok s1"
    using s1(1) Cons.prems(2) effective_power_fits [of ev g h]
    by (auto simp: snapshot_power_def Let_def snapshots_ok_def res_then_Ok split: if_splits)
  with Cons.IH s1(2) show ?case by blast
qed simp

lemma new_proposal_ok: "proposal_ok s i (new_proposal ev c i a t ti d pl cat q x)"
proof -
  have "votes_of vt (new_proposal ev c i a t ti d pl cat q x) = 0" for vt
    by (cases vt) (simp_all add: votes_of_def new_proposal_def Let_def)
  then show ?thesis by (simp add: proposal_ok_def new_proposal_def Let_def ballots_def i128_max_def)
qed

lemma create_proposal_voting:
  assumes ok: "voting_ok g"
  shows "voting_ok (snd (create_proposal ev a t ti d pl cat q g))"
proof -
  have "voting_ok (g\<lparr>g_snapshots := (g_snapshots g)(i := s), g_proposals := sset i (new_proposal ev c i a t ti d pl cat q x) (g_proposals g),
      g_proposal_ids := ids, g_next_proposal_id := n\<rparr>)"
    if "res_fold (snapshot_power ev g q) hs ([], 0) = Ok (s, x)" for c s x hs i ids n
  proof -
    have "snapshots_ok s" by (rule snapshots_taken [OF that]) (simp add: snapshots_ok_def)
    with ok show ?thesis by (auto simp: voting_ok_def proposals_ok_def scores_ok_def new_proposal_ok)
  qed
  then show ?thesis
    unfolding create_proposal_def
    by (intro voting_keep) (auto simp: Let_def ok intro!: voting_keep)
qed

lemma put_proposal_voting:
  assumes "voting_ok g" "sget (g_proposals g) i = Some p" "proposal_ok (g_snapshots g i) i q"
  shows "voting_ok (snd (put_proposal q g))"
proof -
  have "pr_id q = i" using assms(3) by (simp add: proposal_ok_def)
  with assms proposals_ok_put show ?thesis by (auto simp: put_proposal_def voting_ok_def)
qed

lemma put_status_voting:
  assumes "voting_ok g" "sget (g_proposals g) i = Some p"
  shows "st \<noteq> Pending \<Longrightarrow> voting_ok (snd (put_proposal (p\<lparr>pr_status := st\<rparr>) g))"
    "voting_ok (snd (put_proposal (executed_proposal ev p) g))"
  using put_proposal_voting [OF assms] proposals_okD(2) [OF _ assms(2)] assms(1)
  by (auto simp: voting_ok_def proposal_ok_status proposal_ok_executed)

lemma apply_action_frame [simp]:
  "g_proposals (snd (apply_action t g)) = g_proposals g" "voting_ok (snd (apply_action t g)) = voting_ok g"
proof -
  show "g_proposals (snd (apply_action t g)) = g_proposals g"
    by (cases t) (auto simp: Let_def gsub_def on_books_def dest!: and_then_Ok [THEN iffD1] intro!: keep_and_then [of "\<lambda>h. g_proposals h = g_proposals g"])
  show "voting_ok (snd (apply_action t g)) = voting_ok g"
    by (cases t) (auto simp: Let_def intro!: keep_and_then [of "\<lambda>h. voting_ok h = voting_ok g"])
qed

lemma execute_action_voting: "voting_ok g \<Longrightarrow> voting_ok (snd (execute_proposal_action_by_id i g))"
  unfolding execute_proposal_action_by_id_def execute_proposal_action_def by (intro voting_keep) simp_all

lemma mark_executed_voting: "voting_ok g \<Longrightarrow> voting_ok (snd (mark_proposal_executed ev i g))"
  unfolding mark_proposal_executed_def
  by (intro voting_keep) (auto simp: get_proposal_Ok intro: put_status_voting)

lemma execute_proposal_voting: "voting_ok g \<Longrightarrow> voting_ok (snd (execute_proposal ev i a g))"
  unfolding execute_proposal_def execute_proposal_action_def
  by (intro voting_keep) (auto simp: get_proposal_Ok intro!: voting_keep put_status_voting)

lemma finalize_proposal_voting: "voting_ok g \<Longrightarrow> voting_ok (snd (finalize_proposal ev i g))"
  unfolding finalize_proposal_def
  by (intro voting_keep)
    (auto simp: get_proposal_Ok Let_def split_beta intro!: voting_keep put_status_voting execute_proposal_voting)

lemma cancel_proposal_voting: "voting_ok g \<Longrightarrow> voting_ok (snd (cancel_proposal ev i a g))"
  unfolding cancel_proposal_def
  by (intro voting_keep) (auto simp: get_proposal_Ok intro!: voting_keep put_status_voting)

lemma withdraw_proposal_voting: "voting_ok g \<Longrightarrow> voting_ok (snd (withdraw_proposal ev i a g))"
  unfolding withdraw_proposal_def refund_withdrawn_def
  by (intro voting_keep) (auto simp: get_proposal_Ok Let_def intro!: voting_keep put_status_voting)

lemma voting_ok_removed:
  assumes "voting_ok g" "swf ps" "\<And>i p. sget ps i = Some p \<Longrightarrow> sget (g_proposals g) i = Some p"
  shows "voting_ok (g\<lparr>g_proposals := ps\<rparr>)"
  using assms by (auto simp: voting_ok_def proposals_ok_def scores_ok_def)

lemma reclaim_voting: "voting_ok g \<Longrightarrow> voting_ok (snd (reclaim_expired_proposal ev i a g))"
  unfolding reclaim_expired_proposal_def
  by (intro voting_keep)
    (auto simp: get_proposal_Ok voting_ok_def proposals_ok_def scores_ok_def split: if_splits)

lemma cleanup_from_keeps:
  assumes "cleanup_from ev limit i removed ids ps = Ok (n, ids', ps')" "swf ps"
  shows "swf ps' \<and> (\<forall>j p. sget ps' j = Some p \<longrightarrow> sget ps j = Some p)"
  using assms
proof (induction ev limit i removed ids ps rule: cleanup_from.induct)
  case (1 ev limit i removed ids ps)
  show ?case
  proof (cases "i < length ids \<and> removed < limit")
    case True
    with "1.prems"(1) obtain p where p: "sget ps (ids ! i) = Some p"
      by (subst (asm) cleanup_from.simps) (auto split: option.splits)
    show ?thesis
    proof (cases "terminal (effective_status ev p)")
      case t: True
      have "cleanup_from ev limit i (removed + 1) (take i ids @ drop (i + 1) ids) (sdel (ids ! i) ps) = Ok (n, ids', ps')"
        using "1.prems"(1) True p t by (subst (asm) cleanup_from.simps) simp
      from "1.IH"(1) [OF True p t this] "1.prems"(2)
      have "swf ps' \<and> (\<forall>j p. sget ps' j = Some p \<longrightarrow> sget (sdel (ids ! i) ps) j = Some p)" by blast
      then show ?thesis by (metis fun_upd_apply option.distinct(1) sget_sdel)
    next
      case t: False
      have "cleanup_from ev limit (i + 1) removed ids ps = Ok (n, ids', ps')"
        using "1.prems"(1) True p t by (subst (asm) cleanup_from.simps) simp
      from "1.IH"(2) [OF True p t this] "1.prems"(2) show ?thesis by auto
    qed
  next
    case False
    then show ?thesis using "1.prems" by (subst (asm) cleanup_from.simps) auto
  qed
qed

lemma cleanup_voting:
  assumes ok: "voting_ok g"
  shows "voting_ok (snd (cleanup_terminal_proposals ev c l g))"
proof -
  have wf: "swf (g_proposals g)" using ok by (simp add: voting_ok_def proposals_ok_def)
  have "voting_ok (g\<lparr>g_proposals := ps, g_proposal_ids := ids\<rparr>)"
    if "cleanup_from ev l i 0 js (g_proposals g) = Ok (n, ids, ps)" for i js n ids ps
    using cleanup_from_keeps [OF that wf] voting_ok_removed [OF ok, of ps] by auto
  then show ?thesis
    unfolding cleanup_terminal_proposals_def
    by (cases "l = 0 \<or> 50 < l") (auto simp: ok intro!: voting_keep)
qed

lemma delegation_voting:
  assumes "voting_ok g"
  shows "voting_ok (snd (delegate_voting_power ev a b g))" "voting_ok (snd (set_expiry ev a e g))"
    "voting_ok (snd (renew ev a e g))" "voting_ok (snd (undelegate_voting_power ev a g))" "voting_ok (snd (delegate_until ev a b e g))"
proof -
  have d: "voting_ok h \<Longrightarrow> voting_ok (snd (delegate_voting_power ev a b h))" for h
    by (auto simp: delegate_voting_power_def Let_def clear_expiry_def intro!: voting_keep)
  have s: "voting_ok h \<Longrightarrow> voting_ok (snd (set_expiry ev a e h))" for h by (simp add: set_expiry_def)
  show "voting_ok (snd (delegate_voting_power ev a b g))" "voting_ok (snd (set_expiry ev a e g))" using assms d s by blast+
  show "voting_ok (snd (renew ev a e g))" using assms by (auto simp: renew_def intro!: voting_keep s)
  show "voting_ok (snd (undelegate_voting_power ev a g))"
    using assms by (auto simp: undelegate_voting_power_def Let_def clear_expiry_def intro!: voting_keep)
  show "voting_ok (snd (delegate_until ev a b e g))" using assms by (auto simp: delegate_until_def intro!: voting_keep d s)
qed

lemma cleanup_delegations_voting: "voting_ok g \<Longrightarrow> voting_ok (snd (cleanup_expired ev s l g))"
proof -
  have one: "voting_ok (snd x) \<Longrightarrow> voting_ok (snd (expire_delegation ev a x))" for a x
    by (cases x) (auto simp: expire_delegation_def clear_expiry_def split: option.splits)
  have "voting_ok (snd x) \<Longrightarrow> voting_ok (snd (fold (expire_delegation ev) as x))" for as x
  proof (induction as arbitrary: x)
    case (Cons a as)
    show ?case using Cons.IH [OF one [OF Cons.prems]] by simp
  qed simp
  from this [of "(0, g)"] show "voting_ok g \<Longrightarrow> voting_ok (snd (cleanup_expired ev s l g))"
    by (auto simp: cleanup_expired_def Let_def split_beta)
qed

section \<open>Every entry point\<close>

lemma put_voted_voting:
  assumes ok: "voting_ok g" and p: "sget (g_proposals g) i = Some p" "require_voting_open ev a p = Ok u"
    and w: "voter_power g i p a = Ok w \<or> reputation_weight ev g i a = Ok w"
  shows "voting_ok (snd (put_proposal (activate (tally_saturating vt w (enter_vote ev a vt w p))) g))"
proof -
  have oks: "proposals_ok g" "scores_ok g" using ok by (simp_all add: voting_ok_def)
  note pk = proposals_okD [OF oks(1) p(1)]
  have "0 < w" "2 * w \<le> 3 * sget_or 0 (g_snapshots g i) a"
    using w voter_power_Ok(1,2) [OF _ pk(3), of p a w] reputation_weight_Ok [OF _ oks(2), of ev i a w] by auto
  then have "proposal_ok (g_snapshots g i) i (voted ev a vt w p)"
    using p(2) by (intro proposal_ok_voted [OF pk(2)]) (auto simp: require_voting_open_Ok)
  from put_proposal_voting [OF ok p(1) this] show ?thesis by (simp add: voted_def)
qed

lemma cast_vote_voting: "voting_ok g \<Longrightarrow> voting_ok (snd (cast_vote ev i a vt g))"
  unfolding cast_vote_def
  by (auto simp: get_proposal_Ok dest!: tally_exact intro!: voting_keep put_voted_voting)

lemma reputation_vote_voting: "voting_ok g \<Longrightarrow> voting_ok (snd (cast_reputation_weighted_vote ev i a vt g))"
  unfolding cast_reputation_weighted_vote_def
  by (auto simp: get_proposal_Ok intro!: voting_keep put_voted_voting record_voting)

lemma settle_deposit_voting: "voting_ok g \<Longrightarrow> voting_ok (snd (settle_deposit i g))"
  by (auto simp: settle_deposit_def Let_def intro!: voting_keep split: option.splits)

lemma proposal_call_voting: "voting_ok g \<Longrightarrow> voting_ok (proposal_call ev p g)"
  by (cases p)
    (auto simp: create_proposal_entry_def cast_vote_entry_def cast_reputation_weighted_vote_entry_def finalize_proposal_entry_def
      execute_proposal_entry_def cleanup_proposals_def cancel_proposal_entry_def reclaim_expired_proposal_entry_def
      withdraw_proposal_entry_def delegate_voting_power_entry_def delegate_voting_power_until_def renew_delegation_def
      undelegate_voting_power_entry_def refresh_reputation_def wrapper_defs
      intro!: voting_keep create_proposal_voting cast_vote_voting reputation_vote_voting finalize_proposal_voting record_voting
        settle_deposit_voting execute_proposal_voting cleanup_voting cancel_proposal_voting reclaim_voting withdraw_proposal_voting
        delegation_voting cleanup_delegations_voting)

section \<open>The timelock\<close>

lemma run_action_voting: "voting_ok g \<Longrightarrow> voting_ok (snd (run_action ev t n g))"
  unfolding run_action_def Let_def put_timelock_def
  by (auto intro!: voting_keep execute_action_voting mark_executed_voting)

lemma execute_queued_voting: "voting_ok g \<Longrightarrow> voting_ok (snd (execute_queued_action ev i a g))"
  unfolding execute_queued_action_def Let_def
  by (auto intro!: voting_keep run_action_voting)

lemma execute_actions_voting: "voting_ok g \<Longrightarrow> voting_ok (snd (execute_actions ev a ids g))"
proof (induction ids arbitrary: g)
  case (Cons i ids)
  obtain r h where r: "execute_queued_action ev i a g = (r, h)" by fastforce
  then have h: "voting_ok h" using execute_queued_voting [OF Cons.prems, of ev i a] by simp
  with Cons.IH show ?case by (cases r) (auto simp: r intro!: voting_keep)
qed simp

lemma queue_admin_action_voting: "voting_ok g \<Longrightarrow> voting_ok (snd (queue_admin_action ev a s g))"
  unfolding queue_admin_action_def Let_def put_timelock_def by (auto intro!: voting_keep)

lemmas timelock_defs =
  initialize_timelock_def start_timelock_def queue_action_entry_def queue_action_def execute_queued_action_entry_def
  execute_multiple_actions_entry_def execute_multiple_actions_def cancel_queued_action_entry_def cancel_queued_action_def
  emergency_execute_entry_def emergency_execute_def emergency_unblock_action_entry_def emergency_unblock_action_def
  update_timelock_delay_def update_timelock_delay_timelocked_def set_timelock_delay_def extend_execution_window_def
  extend_window_def queue_grant_capability_def queue_revoke_capability_def grant_capability_timelocked_def
  revoke_capability_timelocked_def change_grant_def cancel_admin_action_def cancel_entry_def put_timelock_def put_entry_def

lemma timelock_call_voting: "voting_ok g \<Longrightarrow> voting_ok (timelock_call ev p g)"
  by (cases p)
    (auto simp: timelock_defs wrapper_defs Let_def get_proposal_Ok
      intro!: voting_keep execute_admin_action_voting queue_admin_action_voting execute_queued_voting execute_actions_voting
        run_action_voting put_status_voting)

lemma gov_step_voting: "voting_ok g \<Longrightarrow> voting_ok (gov_step o1 g)"
  by (cases o1; cases "snd o1")
    (auto intro: proposal_call_voting timelock_call_voting setting_call_voting money_call_voting
      committee_call_voting conviction_call_voting)

definition tallies_right :: "gov \<Rightarrow> bool" where
  "tallies_right g \<longleftrightarrow> (\<forall>i p. sget (g_proposals g) i = Some p \<longrightarrow>
     (\<forall>vt. votes_of vt p = min i128_max (ballots vt p)) \<and> distinct (pr_voter_list p) \<and>
     set (pr_voter_list p) = fst ` set (pr_voters p) \<and> sall (vote_ok (g_snapshots g i)) (pr_voters p))"

interpretation gov_votes: invariant_system gov_step voting_ok tallies_right
proof
  show "voting_ok g \<Longrightarrow> tallies_right g" for g
    by (auto simp: voting_ok_def proposals_ok_def proposal_ok_def tallies_right_def)
qed (rule gov_step_voting)

definition deployed :: gov where
  "deployed =
     \<lparr>g_admin = None, g_pending_admin = None, g_guardian = None,
      g_pause = \<lparr>pz_paused = None, pz_scoped = (\<lambda>_. None)\<rparr>, g_pause_targets = [],
      g_authority = \<lparr>au_roles = (\<lambda>_. None), au_grants = (\<lambda>_ _. None)\<rparr>, g_enforce_timelock = None,
      g_books = \<lparr>bk_initialized = None, bk_metadata = None, bk_balances = [], bk_staked = [], bk_rewards = [], bk_vesting = [],
        bk_holders = [], bk_distribution = None, bk_vote_locks = (\<lambda>_. 0), bk_deposit_config = None, bk_deposits = []\<rparr>,
      g_treasury_state = empty_treasury, g_treasury_address = None, g_config = None, g_thresholds = (\<lambda>_. None),
      g_proposals = [], g_proposal_ids = [], g_next_proposal_id = 1, g_snapshots = (\<lambda>_. []),
      g_delegations = (\<lambda>_. None), g_delegators = [], g_expiry = (\<lambda>_. None), g_timelock = None, g_admin_pending = [],
      g_window_config = None, g_window_state = None, g_parameters = (\<lambda>_. None), g_features = (\<lambda>_. None),
      g_upgrades = (\<lambda>_. None), g_reputation = \<lparr>rs_reputations = (\<lambda>_. None), rs_users = []\<rparr>,
      g_reputation_config = None, g_vote_records = (\<lambda>_ _. None), g_shadow = None, g_storage_version = None, g_migrating = None,
      g_committees = empty_committees_state, g_conviction = empty_conviction_state, g_calibration = None\<rparr>"

text \<open>A state without proposals and without reputations, as the deployment and the initialisation leave it.\<close>

lemma unused_voting:
  "g_proposals g = [] \<Longrightarrow> rs_reputations (g_reputation g) = (\<lambda>_. None) \<Longrightarrow> voting_ok g"
  by (simp add: voting_ok_def proposals_ok_def scores_ok_def)

lemma deployed_voting: "voting_ok deployed"
  by (rule unused_voting) (simp_all add: deployed_def)

section \<open>An example\<close>

definition example_town :: gov where
  "example_town = deployed\<lparr>g_admin := Some 1, g_books := (g_books deployed)\<lparr>bk_initialized := Some True,
     bk_metadata := Some \<lparr>gt_name = ''Gov'', gt_symbol = ''GOV'', gt_decimals = 7, gt_total_supply = 1000000\<rparr>,
     bk_balances := [(3, 50000)], bk_staked := [(3, 200000), (5, 40000)], bk_holders := [3, 5]\<rparr>\<rparr>"

lemmas proposal_eval =
  create_proposal_entry_def create_proposal_def unpaused_def initialized_def guard_def require_initialized_def require_unpaused_def
  require_not_paused_def is_paused_def is_initialized_def signed_def sanitized_def sanitize_string_def
  get_governance_config_def default_governance_config_def get_effective_voting_power_def has_live_delegation_def
  get_staked_balance_def sget_or_def validate_execution_payload_def snapshot_power_def new_proposal_def
  lock_proposal_deposit_def get_deposit_config_def EXECUTION_WINDOW_def MAX_ACTION_STRING_LEN_def
  on_books_def subtract_balance_def get_balance_def DEFAULT_DEPOSIT_AMOUNT_def DEFAULT_MIN_PARTICIPATION_BPS_def
  track_holder_def u64_sat_add_def gov_eval

lemmas ballot_eval =
  cast_vote_entry_def cast_vote_def get_proposal_def require_voting_open_def voter_power_def tally_def enter_vote_def
  put_proposal_def activate_def

definition example_proposal :: Proposal where
  "example_proposal = new_proposal (example_env 10) default_governance_config 1 3 (SignalProposal ''hi'') ''t'' ''d'' [] CatGeneral False 0"

text \<open>The first activity of an account always goes through and touches nothing but its reputation.\<close>

lemma first_activity:
  assumes "rs_reputations (g_reputation g) u = None"
    and "\<And>h. ph_proposals_created (f h) + ph_votes_cast (f h) + ph_committee_memberships (f h) + ph_delegations_received (f h) \<le>
           ph_proposals_created h + ph_votes_cast h + ph_committee_memberships h + ph_delegations_received h + 1"
  shows "\<exists>s. note_activity ev u f g = (Ok (), g\<lparr>g_reputation := s\<rparr>) \<and> (\<forall>a. a \<noteq> u \<longrightarrow> rs_reputations s a = rs_reputations (g_reputation g) a)"
proof -
  let ?r = "get_governance_reputation ev g u"
  let ?q = "?r\<lparr>gr_history := f (gr_history ?r), gr_last_activity := ev_timestamp ev\<rparr>"
  have "gr_history ?r = new_history" using assms(1) by (simp add: get_governance_reputation_def)
  then have "\<not> u32_max < ph_proposals_created (f new_history) + ph_votes_cast (f new_history) +
      ph_committee_memberships (f new_history) + ph_delegations_received (f new_history)"
    using assms(2) [of new_history] by (simp add: new_history_def u32_max_def)
  with \<open>gr_history ?r = _\<close> have "compute_tier ?q \<noteq> Panic" "compute_tier ?q \<noteq> Err e" for e
    by (simp_all add: compute_tier_def Let_def)
  then obtain t where "compute_tier ?q = Ok t" by (cases "compute_tier ?q") auto
  then show ?thesis by (auto simp: note_activity_def Let_def upsert_rep_def)
qed

lemma first_records:
  assumes "rs_reputations (g_reputation g) u = None"
  shows "\<exists>s. record_proposal_creation ev u g = (Ok (), g\<lparr>g_reputation := s\<rparr>) \<and>
      (\<forall>a. a \<noteq> u \<longrightarrow> rs_reputations s a = rs_reputations (g_reputation g) a)"
    "\<exists>s r. record_vote ev u i vt g = (Ok (), g\<lparr>g_reputation := s, g_vote_records := r\<rparr>)"
proof -
  have sat: "u32_sat_add n (Suc 0) \<le> Suc n" for n by (simp add: u32_sat_add_def)
  show "\<exists>s. record_proposal_creation ev u g = (Ok (), g\<lparr>g_reputation := s\<rparr>) \<and>
      (\<forall>a. a \<noteq> u \<longrightarrow> rs_reputations s a = rs_reputations (g_reputation g) a)"
    unfolding record_proposal_creation_def by (rule first_activity [OF assms]) (simp add: sat)
  obtain s where "note_activity ev u (\<lambda>p. p\<lparr>ph_votes_cast := u32_sat_add (ph_votes_cast p) 1\<rparr>) g = (Ok (), g\<lparr>g_reputation := s\<rparr>)"
    using first_activity [OF assms, where f = "\<lambda>p. p\<lparr>ph_votes_cast := u32_sat_add (ph_votes_cast p) 1\<rparr>" and ev = ev] by (auto simp: sat)
  then show "\<exists>s r. record_vote ev u i vt g = (Ok (), g\<lparr>g_reputation := s, g_vote_records := r\<rparr>)"
    by (auto simp: record_vote_def)
qed

lemma example_created:
  "\<exists>s. gov_step (example_env 10, OnProposals (CreateProposal 3 (SignalProposal ''hi'') ''t'' ''d'' [] CatGeneral False)) example_town =
     example_town\<lparr>g_snapshots := (\<lambda>_. [])(1 := [(3, 200000), (5, 40000)]), g_proposals := [(1, example_proposal)],
       g_proposal_ids := [1], g_next_proposal_id := 2,
       g_books := (g_books example_town)\<lparr>bk_balances := [(3, 49000)], bk_deposits := [(1, 3)]\<rparr>, g_reputation := s\<rparr> \<and>
     rs_reputations s 5 = None"
proof -
  let ?g = "example_town\<lparr>g_snapshots := (\<lambda>_. [])(1 := [(3, 200000), (5, 40000)]), g_proposals := [(1, example_proposal)],
       g_proposal_ids := [1], g_next_proposal_id := 2,
       g_books := (g_books example_town)\<lparr>bk_balances := [(3, 49000)], bk_deposits := [(1, 3)]\<rparr>\<rparr>"
  have none: "rs_reputations (g_reputation ?g) a = None" for a by (simp add: example_town_def deployed_def)
  obtain s where s: "record_proposal_creation (example_env 10) 3 ?g = (Ok (), ?g\<lparr>g_reputation := s\<rparr>)"
      "\<forall>a. a \<noteq> 3 \<longrightarrow> rs_reputations s a = rs_reputations (g_reputation ?g) a"
    using first_records(1) [OF none, of "example_env 10" 3] by blast
  have s5: "rs_reputations s 5 = None" using s(2) none [of 5] by simp
  have "create_proposal (example_env 10) 3 (SignalProposal ''hi'') ''t'' ''d'' [] CatGeneral False example_town =
      (Ok 1, example_town\<lparr>g_snapshots := (\<lambda>_. [])(1 := [(3, 200000), (5, 40000)]), g_proposals := [(1, example_proposal)],
         g_proposal_ids := [1], g_next_proposal_id := 2\<rparr>)"
    by (simp add: example_town_def deployed_def proposal_eval example_proposal_def)
  moreover have "require_initialized example_town = Ok ()" "require_unpaused example_town = Ok ()"
    by (simp_all add: example_town_def deployed_def proposal_eval)
  moreover have "lock_proposal_deposit 1 3 (g_books example_town) =
      (Ok (), (g_books example_town)\<lparr>bk_balances := [(3, 49000)], bk_deposits := [(1, 3)]\<rparr>)"
    by (simp add: example_town_def deployed_def proposal_eval)
  ultimately show ?thesis
    using s(1) s5 by (intro exI [of _ s]) (simp add: create_proposal_entry_def unpaused_def initialized_def guard_def dropping_error_def on_books_def)
qed

text \<open>The run of the example: a proposal of account 3 and a vote of account 5 for it.\<close>

definition example_run :: "(env \<times> gov_op) list" where
  "example_run =
     [(example_env 10, OnProposals (CreateProposal 3 (SignalProposal ''hi'') ''t'' ''d'' [] CatGeneral False)),
      (example_env 100, OnProposals (CastVote 1 5 For))]"

lemma example_voted:
  "cast_vote (example_env 100) 1 5 For (fold gov_step (take 1 example_run) example_town) =
     (Ok (), (fold gov_step (take 1 example_run) example_town)\<lparr>g_proposals := [(1, voted (example_env 100) 5 For 40000 example_proposal)]\<rparr>)"
  "g_proposals (fold gov_step example_run example_town) = [(1, voted (example_env 100) 5 For 40000 example_proposal)]"
proof -
  obtain s where s: "fold gov_step (take 1 example_run) example_town =
      example_town\<lparr>g_snapshots := (\<lambda>_. [])(1 := [(3, 200000), (5, 40000)]), g_proposals := [(1, example_proposal)],
        g_proposal_ids := [1], g_next_proposal_id := 2,
        g_books := (g_books example_town)\<lparr>bk_balances := [(3, 49000)], bk_deposits := [(1, 3)]\<rparr>, g_reputation := s\<rparr>"
      (is "_ = ?g") and s5: "rs_reputations s 5 = None"
    using example_created by (auto simp: example_run_def)
  have v: "cast_vote (example_env 100) 1 5 For ?g = (Ok (), ?g\<lparr>g_proposals := [(1, voted (example_env 100) 5 For 40000 example_proposal)]\<rparr>)"
    by (simp add: ballot_eval proposal_eval example_proposal_def voted_def tally_saturating_def saturating_add_def)
  then show "cast_vote (example_env 100) 1 5 For (fold gov_step (take 1 example_run) example_town) =
     (Ok (), (fold gov_step (take 1 example_run) example_town)\<lparr>g_proposals := [(1, voted (example_env 100) 5 For 40000 example_proposal)]\<rparr>)"
    unfolding s .
  let ?h = "?g\<lparr>g_proposals := [(1, voted (example_env 100) 5 For 40000 example_proposal)]\<rparr>"
  have "rs_reputations (g_reputation ?h) 5 = None" using s5 by simp
  then obtain s' r where r: "record_vote (example_env 100) 5 1 For ?h = (Ok (), ?h\<lparr>g_reputation := s', g_vote_records := r\<rparr>)"
    using first_records(2) [of ?h 5 "example_env 100" 1 For] by blast
  have "require_initialized ?g = Ok ()" "require_unpaused ?g = Ok ()"
    by (simp_all add: example_town_def deployed_def proposal_eval)
  then have "g_proposals (gov_step (example_env 100, OnProposals (CastVote 1 5 For)) ?g) = g_proposals ?h"
    using v r by (simp add: cast_vote_entry_def unpaused_def initialized_def guard_def dropping_error_def)
  moreover have "fold gov_step example_run example_town =
      gov_step (example_env 100, OnProposals (CastVote 1 5 For)) (fold gov_step (take 1 example_run) example_town)"
    by (simp add: example_run_def)
  ultimately show "g_proposals (fold gov_step example_run example_town) = [(1, voted (example_env 100) 5 For 40000 example_proposal)]"
    using s by simp
qed

lemma example_town_unused: "g_proposals example_town = []" "rs_reputations (g_reputation example_town) = (\<lambda>_. None)"
  by (simp_all add: example_town_def deployed_def)

section \<open>Properties\<close>

text \<open>
  (C17) From a state without proposals and reputations on (a deployed or freshly initialised contract), whatever
  entry points are called by whomever: the three tallies of a proposal
  are the sums of the weights of its recorded votes (capped at the largest \<open>i128\<close>), its voters are
  distinct and are exactly those with a recorded vote, and every vote weighs more than nothing and at most
  one and a half times the power its voter had when the proposal was created.
\<close>

theorem tallies_are_votes:
  assumes "g_proposals g0 = []" "rs_reputations (g_reputation g0) = (\<lambda>_. None)"
    and "sget (g_proposals (fold gov_step ops g0)) i = Some p"
  shows "(\<forall>vt. votes_of vt p = min i128_max (ballots vt p)) \<and> distinct (pr_voter_list p) \<and>
    (\<forall>a v. sget (pr_voters p) a = Some v \<longrightarrow> a \<in> set (pr_voter_list p) \<and> 0 < vo_voting_power v \<and>
       2 * vo_voting_power v \<le> 3 * sget_or 0 (g_snapshots (fold gov_step ops g0) i) a)"
proof -
  have "tallies_right (fold gov_step ops g0)" by (rule gov_votes.run_safe [OF unused_voting [OF assms(1,2)]])
  then have "(\<forall>vt. votes_of vt p = min i128_max (ballots vt p)) \<and> distinct (pr_voter_list p) \<and>
      set (pr_voter_list p) = fst ` set (pr_voters p) \<and> sall (vote_ok (g_snapshots (fold gov_step ops g0) i)) (pr_voters p)"
    using assms(3) by (simp add: tallies_right_def)
  moreover have "sget (pr_voters p) a = Some v \<Longrightarrow> a \<in> fst ` set (pr_voters p)" for a v by (force dest: map_of_SomeD)
  ultimately show ?thesis by (auto simp: sall_def vote_ok_def)
qed

theorem tallies_are_votes_witness:
  "\<exists>p. sget (g_proposals (fold gov_step example_run example_town)) 1 = Some p \<and> distinct (pr_voter_list p) \<and>
     pr_votes_for p = 40000 \<and> ballots For p = 40000"
proof -
  let ?p = "voted (example_env 100) 5 For 40000 example_proposal"
  have p: "sget (g_proposals (fold gov_step example_run example_town)) 1 = Some ?p" by (simp add: example_voted(2))
  have f: "pr_votes_for ?p = 40000" "ballots For ?p = 40000"
    using voted_fields(5) [of For "example_env 100" 5 For 40000 example_proposal]
    by (simp_all add: votes_of_def ballots_def voted_fields(2) enter_vote_def example_proposal_def new_proposal_def Let_def
        saturating_add_def fixed_width_defs)
  from tallies_are_votes [OF example_town_unused p] f p show ?thesis by blast
qed

text \<open>
  (C18) A token-weighted vote that succeeds was cast in the voting window, by an account that signed, had not
  voted yet and had power in the snapshot; it adds exactly the snapshotted power, under quadratic voting
  its integer square root, to the chosen tally, and changes no other proposal.
\<close>

theorem vote_adds_snapshot_power:
  assumes "g_proposals g0 = []" "rs_reputations (g_reputation g0) = (\<lambda>_. None)"
    and "cast_vote ev i a vt (fold gov_step ops g0) = (Ok u, g')"
  shows "\<exists>p q w. sget (g_proposals (fold gov_step ops g0)) i = Some p \<and> sget (g_proposals g') i = Some q \<and> ev_auth ev a \<and>
    pr_voting_starts p \<le> ev_timestamp ev \<and> ev_timestamp ev < pr_voting_ends p \<and> sget (pr_voters p) a = None \<and>
    (\<forall>vt'. votes_of vt' q = votes_of vt' p + (if vt' = vt then w else 0)) \<and>
    (if pr_use_quadratic_voting p
     then w * w \<le> sget_or 0 (g_snapshots g' i) a \<and> sget_or 0 (g_snapshots g' i) a < (w + 1) * (w + 1)
     else w = sget_or 0 (g_snapshots g' i) a) \<and>
    (\<forall>j. j \<noteq> i \<longrightarrow> sget (g_proposals g') j = sget (g_proposals (fold gov_step ops g0)) j)"
proof -
  define g where "g = fold gov_step ops g0"
  have ok: "voting_ok g" unfolding g_def by (rule gov_votes.run_inv [OF unused_voting [OF assms(1,2)]])
  then have pok: "proposals_ok g" by (simp add: voting_ok_def)
  from cast_vote_Ok [OF assms(3) [folded g_def] pok] obtain p w where p: "sget (g_proposals g) i = Some p"
      "require_voting_open ev a p = Ok ()" "voter_power g i p a = Ok w" "ev_auth ev a"
      "g' = g\<lparr>g_proposals := sset i (voted ev a vt w p) (g_proposals g)\<rparr>" by blast
  note pk = proposals_okD [OF pok p(1)]
  note w = voter_power_Ok [OF p(3) pk(3)]
  obtain q where q: "tally vt w (enter_vote ev a vt w p) = Ok q"
    using assms(3) [folded g_def] p by (auto simp: cast_vote_def guard_Ok and_then_Ok get_proposal_Ok)
  have "in_i128 (votes_of vt p + w)"
    using q by (cases vt) (auto simp: tally_def res_then_Ok votes_of_def enter_vote_def)
  then have "votes_of vt' (voted ev a vt w p) = votes_of vt' p + (if vt' = vt then w else 0)" for vt'
    by (simp add: voted_fields saturating_add_exact)
  then show ?thesis
    using p w unfolding g_def [symmetric]
    by (intro exI [of _ p] exI [of _ "voted ev a vt w p"] exI [of _ w]) (auto simp: require_voting_open_Ok)
qed

theorem vote_adds_snapshot_power_witness:
  "\<exists>q. sget (g_proposals (snd (cast_vote (example_env 100) 1 5 For (fold gov_step (take 1 example_run) example_town)))) 1 = Some q \<and>
     votes_of For q = 40000"
proof -
  from vote_adds_snapshot_power [OF example_town_unused example_voted(1)]
  have "\<exists>p q. sget (g_proposals (fold gov_step (take 1 example_run) example_town)) 1 = Some p" by blast
  then show ?thesis
    using voted_fields(5) [of For "example_env 100" 5 For 40000 example_proposal]
    unfolding example_voted(1) by (simp add: votes_of_def example_proposal_def new_proposal_def Let_def saturating_add_def fixed_width_defs)
qed

end
