(* ===== verification/TokenSupply.thy ===== *)
theory TokenSupply
  imports GovToken
begin

text \<open>
  The books of the governance token: where the supply is (balances, stakes, unreleased vesting,
  unclaimed liquidity rewards, locked deposits), that every operation of the token module only moves
  it, and what releases, rewards and the concentration index can be.
\<close>

section \<open>Where the supply is\<close>

abbreviation amounts :: "('k, int) smap \<Rightarrow> int" where
  "amounts m \<equiv> ssum (\<lambda>_ x. x) m"

definition unvested_supply :: "gov_books \<Rightarrow> int" where
  "unvested_supply b = ssum (\<lambda>_ v. vs_total_amount v - vs_released_amount v) (bk_vesting b)"

definition unclaimed_liquidity :: "gov_books \<Rightarrow> int" where
  "unclaimed_liquidity b =
     (case bk_distribution b of None \<Rightarrow> 0 | Some d \<Rightarrow> da_liquidity_mining (ds_allocation d) - ds_liquidity_claimed d)"

definition deposits_held :: "gov_books \<Rightarrow> int" where
  "deposits_held b = ssum (\<lambda>_ _. dc_amount (get_deposit_config b)) (bk_deposits b)"

definition issued :: "gov_books \<Rightarrow> int" where
  "issued b = amounts (bk_balances b) + amounts (bk_staked b) + unvested_supply b + unclaimed_liquidity b + deposits_held b"

definition schedule_ok :: "VestingSchedule \<Rightarrow> bool" where
  "schedule_ok v \<longleftrightarrow> 0 \<le> vs_released_amount v \<and> vs_released_amount v \<le> vs_total_amount v \<and> 0 < vs_total_amount v \<and>
     0 < vs_duration_seconds v \<and> vs_cliff_seconds v \<le> vs_duration_seconds v"

definition books_wf :: "gov_books \<Rightarrow> bool" where
  "books_wf b \<longleftrightarrow> swf (bk_balances b) \<and> swf (bk_staked b) \<and> swf (bk_rewards b) \<and> swf (bk_vesting b) \<and> swf (bk_deposits b) \<and>
     sall (\<lambda>_ x. 0 \<le> x) (bk_balances b) \<and> sall (\<lambda>_ x. 0 \<le> x) (bk_staked b) \<and> sall (\<lambda>_ x. 0 \<le> x) (bk_rewards b) \<and>
     sall (\<lambda>_ v. schedule_ok v) (bk_vesting b) \<and> 0 \<le> dc_amount (get_deposit_config b) \<and>
     (\<forall>d. bk_distribution b = Some d \<longrightarrow> amounts (bk_rewards b) = ds_liquidity_reserved d \<and> 0 \<le> ds_liquidity_claimed d \<and>
        ds_liquidity_claimed d + ds_liquidity_reserved d \<le> da_liquidity_mining (ds_allocation d))"

lemma track_holder_frame [simp]:
  "bk_initialized (track_holder h b) = bk_initialized b" "bk_metadata (track_holder h b) = bk_metadata b"
  "bk_balances (track_holder h b) = bk_balances b" "bk_staked (track_holder h b) = bk_staked b"
  "bk_rewards (track_holder h b) = bk_rewards b" "bk_vesting (track_holder h b) = bk_vesting b"
  "bk_distribution (track_holder h b) = bk_distribution b" "bk_vote_locks (track_holder h b) = bk_vote_locks b"
  "bk_deposit_config (track_holder h b) = bk_deposit_config b" "bk_deposits (track_holder h b) = bk_deposits b"
  by (simp_all add: track_holder_def)

lemma initialized_call_Ok: "initialized_call k b = (Ok v, b') \<longleftrightarrow> is_initialized (bk_initialized b) \<and> k b = (Ok v, b')"
  by (auto simp: initialized_call_def)

lemma balance_ops_Ok:
  "add_balance h x b = (Ok u, b') \<longleftrightarrow>
     0 < x \<and> in_i128 (get_balance b h + x) \<and> b' = track_holder h (b\<lparr>bk_balances := sset h (get_balance b h + x) (bk_balances b)\<rparr>)"
  "subtract_balance h x b = (Ok u, b') \<longleftrightarrow>
     0 < x \<and> x \<le> get_balance b h \<and> in_i128 (get_balance b h - x) \<and>
     b' = track_holder h (b\<lparr>bk_balances := sset h (get_balance b h - x) (bk_balances b)\<rparr>)"
  "add_staked_balance h x b = (Ok u, b') \<longleftrightarrow>
     0 < x \<and> in_i128 (get_staked_balance b h + x) \<and>
     b' = track_holder h (b\<lparr>bk_staked := sset h (get_staked_balance b h + x) (bk_staked b)\<rparr>)"
  "subtract_staked_balance h x b = (Ok u, b') \<longleftrightarrow>
     0 < x \<and> x \<le> get_staked_balance b h \<and> in_i128 (get_staked_balance b h - x) \<and>
     b' = track_holder h (b\<lparr>bk_staked := sset h (get_staked_balance b h - x) (bk_staked b)\<rparr>)"
  by (auto simp: add_balance_def subtract_balance_def add_staked_balance_def subtract_staked_balance_def and_then_Ok)

text \<open>What a change of one balance or stake does to the books.\<close>

lemma amounts_sset: "swf m \<Longrightarrow> amounts (sset k v m) = amounts m - sget_or 0 m k + v"
  by (cases "sget m k") (auto simp: ssum_sset sget_or_def)

lemma issued_balance:
  assumes "books_wf b" "0 \<le> v"
  shows "books_wf (b\<lparr>bk_balances := sset h v (bk_balances b)\<rparr>)"
    "issued (b\<lparr>bk_balances := sset h v (bk_balances b)\<rparr>) = issued b - get_balance b h + v"
  using assms by (auto simp: books_wf_def issued_def unvested_supply_def unclaimed_liquidity_def deposits_held_def
      get_deposit_config_def get_balance_def amounts_sset)

lemma issued_staked:
  assumes "books_wf b" "0 \<le> v"
  shows "books_wf (b\<lparr>bk_staked := sset h v (bk_staked b)\<rparr>)"
    "issued (b\<lparr>bk_staked := sset h v (bk_staked b)\<rparr>) = issued b - get_staked_balance b h + v"
  using assms by (auto simp: books_wf_def issued_def unvested_supply_def unclaimed_liquidity_def deposits_held_def
      get_deposit_config_def get_staked_balance_def amounts_sset)

lemma track_holder_books [simp]:
  "books_wf (track_holder h b) = books_wf b" "issued (track_holder h b) = issued b"
  "get_balance (track_holder h b) = get_balance b" "get_staked_balance (track_holder h b) = get_staked_balance b"
  by (simp_all add: books_wf_def issued_def unvested_supply_def unclaimed_liquidity_def deposits_held_def
      get_deposit_config_def get_balance_def get_staked_balance_def fun_eq_iff)

lemma balances_nonneg:
  assumes "books_wf b"
  shows "0 \<le> get_balance b h" "0 \<le> get_staked_balance b h" "0 \<le> sget_or 0 (bk_rewards b) h"
  using assms sall_sget_or by (auto simp: books_wf_def get_balance_def get_staked_balance_def)

lemma balance_ops_books:
  assumes "books_wf b"
  shows "add_balance h x b = (Ok u, b') \<Longrightarrow> books_wf b' \<and> issued b' = issued b + x"
    "subtract_balance h x b = (Ok u, b') \<Longrightarrow> books_wf b' \<and> issued b' = issued b - x"
    "add_staked_balance h x b = (Ok u, b') \<Longrightarrow> books_wf b' \<and> issued b' = issued b + x"
    "subtract_staked_balance h x b = (Ok u, b') \<Longrightarrow> books_wf b' \<and> issued b' = issued b - x"
  using assms balances_nonneg [OF assms] issued_balance [OF assms] issued_staked [OF assms]
  by (auto simp: balance_ops_Ok add_nonneg_nonneg less_imp_le)

section \<open>The operations\<close>

lemma stake_books:
  assumes "books_wf b" "stake h x b = (Ok u, b')"
  shows "books_wf b' \<and> issued b' = issued b"
proof -
  from assms(2) obtain v c where c: "subtract_balance h x b = (Ok v, c)" "add_staked_balance h x c = (Ok u, b')"
    by (auto simp: stake_def initialized_call_Ok and_then_Ok split: if_splits)
  note c1 = balance_ops_books(2) [OF assms(1) c(1)]
  then show ?thesis using balance_ops_books(3) [OF _ c(2)] by simp
qed

lemma unstake_books:
  assumes "books_wf b" "unstake h x b = (Ok u, b')"
  shows "books_wf b' \<and> issued b' = issued b"
proof -
  from assms(2) obtain v c where c: "subtract_staked_balance h x b = (Ok v, c)" "add_balance h x c = (Ok u, b')"
    by (auto simp: unstake_def initialized_call_Ok and_then_Ok split: if_splits)
  note c1 = balance_ops_books(4) [OF assms(1) c(1)]
  then show ?thesis using balance_ops_books(1) [OF _ c(2)] by simp
qed

lemma accrue_books:
  assumes "books_wf b" "accrue_liquidity_rewards h volume b = (Ok reward, b')"
  shows "books_wf b' \<and> issued b' = issued b"
proof -
  from assms(2) obtain d where d: "bk_distribution b = Some d" "0 < reward"
      "ds_liquidity_claimed d + ds_liquidity_reserved d + reward \<le> da_liquidity_mining (ds_allocation d)"
      "b' = track_holder h (b\<lparr>bk_distribution := Some (d\<lparr>ds_liquidity_reserved := ds_liquidity_reserved d + reward\<rparr>),
              bk_rewards := sset h (sget_or 0 (bk_rewards b) h + reward) (bk_rewards b)\<rparr>)"
    by (auto simp: accrue_liquidity_rewards_def initialized_call_Ok and_then_Ok reserve_liquidity_rewards_def
        get_distribution_state_def ok_or_Ok not_less not_le split: if_splits)
  have "0 \<le> sget_or 0 (bk_rewards b) h" using balances_nonneg(3) [OF assms(1)] .
  with assms(1) d(1-3) show ?thesis unfolding d(4)
    by (auto simp: books_wf_def issued_def unvested_supply_def unclaimed_liquidity_def deposits_held_def get_deposit_config_def amounts_sset)
qed

lemma claim_rewards_books:
  assumes "books_wf b" "claim_liquidity_rewards h b = (Ok amount, b')"
  shows "books_wf b' \<and> issued b' = issued b"
proof -
  let ?x = "sget_or 0 (bk_rewards b) h"
  from assms(2) obtain d c u where d: "bk_distribution b = Some d" "0 < ?x" "amount = ?x"
      "c = b\<lparr>bk_rewards := sset h 0 (bk_rewards b),
             bk_distribution := Some (d\<lparr>ds_liquidity_reserved := ds_liquidity_reserved d - ?x, ds_liquidity_claimed := ds_liquidity_claimed d + ?x\<rparr>)\<rparr>"
      "add_balance h ?x c = (Ok u, b')"
    by (auto simp: claim_liquidity_rewards_def initialized_call_Ok and_then_Ok claim_reserved_liquidity_rewards_def Let_def
        get_distribution_state_def ok_or_Ok not_less not_le split: if_splits)
  have "books_wf c \<and> issued c = issued b - ?x"
    using assms(1) d(1,2) unfolding d(4)
    by (auto simp: books_wf_def issued_def unvested_supply_def unclaimed_liquidity_def deposits_held_def get_deposit_config_def amounts_sset)
  then show ?thesis using balance_ops_books(1) [OF _ d(5)] by simp
qed

lemma vested_at_bounds:
  assumes "schedule_ok v" "vested_at now v = Ok x" "u64_sat_add (vs_start_time v) (vs_cliff_seconds v) \<le> now"
  shows "0 \<le> x" "x \<le> vs_total_amount v"
proof -
  let ?cliff = "u64_sat_add (vs_start_time v) (vs_cliff_seconds v)"
  let ?w = "vs_duration_seconds v - vs_cliff_seconds v"
  have tot: "0 < vs_total_amount v" "vs_cliff_seconds v \<le> vs_duration_seconds v" using assms(1) by (simp_all add: schedule_ok_def)
  consider "x = vs_total_amount v"
    | "x = tdiv (vs_total_amount v * int (now - ?cliff)) (int ?w)" "0 < ?w" "now - ?cliff < ?w"
    using assms(2,3) tot(2) by (auto simp: vested_at_def Let_def res_then_Ok u64_sat_add_def split: if_splits)
  then have "0 \<le> x \<and> x \<le> vs_total_amount v"
  proof cases
    case 2
    then have x: "x = (vs_total_amount v * int (now - ?cliff)) div int ?w" using tot(1) by (simp add: tdiv_nonneg)
    also have "\<dots> \<le> (vs_total_amount v * int ?w) div int ?w"
      using 2 tot(1) by (intro zdiv_mono1 mult_left_mono) auto
    finally have up: "x \<le> vs_total_amount v" using 2(2) by simp
    have "0 \<le> x" unfolding x using tot(1) 2(2) by (simp add: pos_imp_zdiv_nonneg_iff)
    with up show ?thesis by simp
  qed (use tot in auto)
  then show "0 \<le> x" "x \<le> vs_total_amount v" by simp_all
qed

lemma release_vested_Ok:
  assumes "release_vested_tokens ev h b = (Ok x, b')"
  obtains v vested u where "sget (bk_vesting b) h = Some v" "0 < x" "vested_at (ev_timestamp ev) v = Ok vested"
    "u64_sat_add (vs_start_time v) (vs_cliff_seconds v) \<le> ev_timestamp ev" "vs_released_amount v + x = vested"
    "add_balance h x (b\<lparr>bk_vesting := sset h (v\<lparr>vs_released_amount := vested\<rparr>) (bk_vesting b)\<rparr>) = (Ok u, b')"
  using assms
  by (auto simp: release_vested_tokens_def releasable_amount_def releasable_of_def and_then_Ok ok_or_Ok res_then_Ok
      not_less not_le Let_def split: if_splits)

lemma release_books:
  assumes "books_wf b" "release_vested_tokens ev h b = (Ok x, b')"
  shows "books_wf b' \<and> issued b' = issued b"
proof -
  obtain v vested u where v: "sget (bk_vesting b) h = Some v" "0 < x" "vested_at (ev_timestamp ev) v = Ok vested"
      "u64_sat_add (vs_start_time v) (vs_cliff_seconds v) \<le> ev_timestamp ev" "vs_released_amount v + x = vested"
      "add_balance h x (b\<lparr>bk_vesting := sset h (v\<lparr>vs_released_amount := vested\<rparr>) (bk_vesting b)\<rparr>) = (Ok u, b')"
    by (rule release_vested_Ok [OF assms(2)])
  let ?c = "b\<lparr>bk_vesting := sset h (v\<lparr>vs_released_amount := vested\<rparr>) (bk_vesting b)\<rparr>"
  have ok: "schedule_ok v" using assms(1) v(1) by (auto simp: books_wf_def sall_def)
  then have "schedule_ok (v\<lparr>vs_released_amount := vested\<rparr>)"
    using vested_at_bounds [OF ok v(3,4)] by (simp add: schedule_ok_def)
  then have "books_wf ?c \<and> issued ?c = issued b - x"
    using assms(1) v(1) v(5) [symmetric]
    by (auto simp: books_wf_def issued_def unvested_supply_def unclaimed_liquidity_def deposits_held_def get_deposit_config_def ssum_sset)
  then show ?thesis using balance_ops_books(1) [OF _ v(6)] by simp
qed

lemma lock_books:
  assumes "books_wf b" "lock_proposal_deposit pid h b = (Ok u, b')" "sget (bk_deposits b) pid = None"
  shows "books_wf b' \<and> issued b' = issued b"
proof -
  let ?x = "dc_amount (get_deposit_config b)"
  consider "b' = b" | v c where "subtract_balance h ?x b = (Ok v, c)" "b' = c\<lparr>bk_deposits := sset pid h (bk_deposits c)\<rparr>"
    using assms(2) by (auto simp: lock_proposal_deposit_def Let_def and_then_Ok split: if_splits)
  then show ?thesis
  proof cases
    case 2
    note c = balance_ops_books(2) [OF assms(1) 2(1)]
    have "bk_deposits c = bk_deposits b" "get_deposit_config c = get_deposit_config b"
      using 2(1) by (auto simp: balance_ops_Ok get_deposit_config_def)
    with c assms(1,3) show ?thesis unfolding 2(2)
      by (auto simp: books_wf_def issued_def unvested_supply_def unclaimed_liquidity_def deposits_held_def get_deposit_config_def ssum_sset)
  qed (simp add: assms(1))
qed

lemma settle_books:
  assumes "books_wf b" "settle_proposal_deposit pid votes supply treasury b = (Ok u, b')"
  shows "books_wf b' \<and> issued b' = issued b"
proof (cases "sget (bk_deposits b) pid")
  case None
  then show ?thesis using assms by (simp add: settle_proposal_deposit_def)
next
  case (Some proposer)
  let ?x = "dc_amount (get_deposit_config b)"
  from assms(2) Some obtain h v c where c: "add_balance h ?x b = (Ok v, c)" "b' = c\<lparr>bk_deposits := sdel pid (bk_deposits c)\<rparr>"
    by (auto simp: settle_proposal_deposit_def Let_def and_then_Ok)
  note cb = balance_ops_books(1) [OF assms(1) c(1)]
  have "bk_deposits c = bk_deposits b" "get_deposit_config c = get_deposit_config b"
    using c(1) by (auto simp: balance_ops_Ok get_deposit_config_def)
  with cb assms(1) Some show ?thesis unfolding c(2)
    by (auto simp: books_wf_def issued_def unvested_supply_def unclaimed_liquidity_def deposits_held_def get_deposit_config_def ssum_sdel)
qed

lemma config_books:
  assumes "books_wf b"
  shows "set_vote_lock h n b = (Ok u, b') \<Longrightarrow> books_wf b' \<and> issued b' = issued b"
    "update_reward_config bps m b = (Ok d, b') \<Longrightarrow> books_wf b' \<and> issued b' = issued b"
  using assms
  by (auto simp: set_vote_lock_def initialized_call_Ok update_reward_config_def and_then_Ok get_distribution_state_def ok_or_Ok Let_def
      books_wf_def issued_def unvested_supply_def unclaimed_liquidity_def deposits_held_def get_deposit_config_def split: if_splits)

section \<open>The initial distribution\<close>

lemma share_of_supply_Ok:
  assumes "0 \<le> supply" "0 \<le> bps" "share_of_supply supply bps = Ok x"
  shows "x = supply * bps div 10000" "0 \<le> x"
proof -
  show "x = supply * bps div 10000" using assms by (auto simp: share_of_supply_def res_then_Ok BPS_DENOMINATOR_def tdiv_nonneg)
  then show "0 \<le> x" using assms by (simp add: pos_imp_zdiv_nonneg_iff)
qed

lemma create_allocation_Ok:
  assumes "create_allocation supply = Ok al"
  shows "da_team al + da_early_investors al + da_community_rewards al + da_liquidity_mining al + da_treasury al + da_public_sale al = supply"
    "share_of_supply supply LIQUIDITY_MINING_BPS = Ok (da_liquidity_mining al)"
  using assms by (auto simp: create_allocation_def res_then_Ok split: if_splits)

lemma put_schedule_books:
  assumes "books_wf b" "put_schedule h cat x start cliff dur b = (Ok u, b')"
  shows "books_wf b' \<and> issued b' = issued b + x \<and> bk_distribution b' = bk_distribution b \<and> bk_deposits b' = bk_deposits b
    \<and> bk_rewards b' = bk_rewards b"
  using assms
  by (auto simp: put_schedule_def books_wf_def issued_def unvested_supply_def unclaimed_liquidity_def deposits_held_def
      get_deposit_config_def ssum_sset schedule_ok_def split: if_splits)

lemma initialize_distribution_books:
  assumes "books_wf b" "bk_distribution b = None" "bk_rewards b = []" "0 \<le> supply"
    and "initialize_distribution ev r supply bps m b = (Ok d, b')"
  shows "books_wf b' \<and> issued b' = issued b + supply"
proof -
  from assms(5) obtain al b1 b2 b3 b4 b5 u1 u2 u3 u4 u5 where st: "create_allocation supply = Ok al"
      "add_balance (dr_community_rewards r) (da_community_rewards al) b = (Ok u1, b1)"
      "add_balance (dr_treasury r) (da_treasury al) b1 = (Ok u2, b2)"
      "add_balance (dr_public_sale r) (da_public_sale al) b2 = (Ok u3, b3)"
      "put_schedule (dr_team r) Team (da_team al) (ev_timestamp ev) TEAM_CLIFF_DURATION TEAM_VESTING_DURATION b3 = (Ok u4, b4)"
      "put_schedule (dr_early_investors r) EarlyInvestors (da_early_investors al) (ev_timestamp ev) 0 EARLY_INVESTOR_VESTING_DURATION b4 = (Ok u5, b5)"
      and d: "d = \<lparr>ds_allocation = al, ds_liquidity_reserved = 0, ds_liquidity_claimed = 0, ds_liquidity_reward_bps = bps, ds_min_claim_threshold = m\<rparr>"
        "b' = b5\<lparr>bk_distribution := Some d\<rparr>"
    by (auto simp: initialize_distribution_def and_then_Ok Let_def split: if_splits)
  note i1 = balance_ops_books(1) [OF assms(1) st(2)]
  note i2 = balance_ops_books(1) [OF i1 [THEN conjunct1] st(3)]
  note i3 = balance_ops_books(1) [OF i2 [THEN conjunct1] st(4)]
  note i4 = put_schedule_books [OF i3 [THEN conjunct1] st(5)]
  note i5 = put_schedule_books [OF i4 [THEN conjunct1] st(6)]
  have same: "bk_distribution b3 = None" "bk_rewards b3 = []" using assms(2,3) st(2-4) by (auto simp: balance_ops_Ok)
  have mining: "0 \<le> da_liquidity_mining al"
    using share_of_supply_Ok(2) [OF assms(4) _ create_allocation_Ok(2) [OF st(1)]] by (simp add: LIQUIDITY_MINING_BPS_def)
  have "books_wf b' \<and> issued b' = issued b5 + da_liquidity_mining al"
    using i5 i4 same mining unfolding d(2) d(1)
    by (auto simp: books_wf_def issued_def unvested_supply_def unclaimed_liquidity_def deposits_held_def get_deposit_config_def)
  then show ?thesis using i1 i2 i3 i4 i5 create_allocation_Ok(1) [OF st(1)] by simp
qed

section \<open>Histories\<close>

datatype token_op =
    Stake addr int
  | Unstake addr int
  | AccrueRewards addr int
  | ClaimRewards addr
  | SetVoteLock addr nat
  | UpdateRewardConfig nat int
  | ReleaseVested addr
  | LockDeposit nat addr
  | SettleDeposit nat int int addr

fun token_step :: "env \<times> token_op \<Rightarrow> gov_books \<Rightarrow> gov_books" where
  "token_step (ev, Stake h x) b = snd (commit b (stake h x b))"
| "token_step (ev, Unstake h x) b = snd (commit b (unstake h x b))"
| "token_step (ev, AccrueRewards h v) b = snd (commit b (accrue_liquidity_rewards h v b))"
| "token_step (ev, ClaimRewards h) b = snd (commit b (claim_liquidity_rewards h b))"
| "token_step (ev, SetVoteLock h n) b = snd (commit b (set_vote_lock h n b))"
| "token_step (ev, UpdateRewardConfig bps m) b = snd (commit b (update_reward_config bps m b))"
| "token_step (ev, ReleaseVested h) b = snd (commit b (release_vested_tokens ev h b))"
| "token_step (ev, LockDeposit pid h) b = snd (commit b (lock_proposal_deposit pid h b))"
| "token_step (ev, SettleDeposit pid votes supply treasury) b = snd (commit b (settle_proposal_deposit pid votes supply treasury b))"

text \<open>Proposal ids are fresh: a deposit is locked at most once per proposal.\<close>

fun token_enabled :: "env \<times> token_op \<Rightarrow> gov_books \<Rightarrow> bool" where
  "token_enabled (ev, LockDeposit pid h) b \<longleftrightarrow> sget (bk_deposits b) pid = None"
| "token_enabled _ b \<longleftrightarrow> True"

definition token_inv :: "int \<Rightarrow> gov_books \<Rightarrow> bool" where
  "token_inv supply b \<longleftrightarrow> books_wf b \<and> issued b = supply"

lemma token_step_inv:
  assumes inv: "token_inv supply b" and en: "token_enabled o1 b"
  shows "token_inv supply (token_step o1 b)"
proof -
  have wf: "books_wf b" and iss: "issued b = supply" using inv by (simp_all add: token_inv_def)
  have keep: "token_inv supply (snd (commit b m))" if "\<And>v b'. m = (Ok v, b') \<Longrightarrow> books_wf b' \<and> issued b' = issued b" for m :: "'v bcall"
    by (rule commit_inv [of "token_inv supply", OF inv]) (use that iss in \<open>simp add: token_inv_def\<close>)
  obtain ev p where o1: "o1 = (ev, p)" by (cases o1)
  show ?thesis
    using en
    by (cases p; simp only: o1 token_step.simps token_enabled.simps)
      (rule keep; (erule stake_books [OF wf] unstake_books [OF wf] accrue_books [OF wf] claim_rewards_books [OF wf]
          config_books [OF wf] release_books [OF wf] settle_books [OF wf] | rule lock_books [OF wf], assumption, assumption))+
qed

definition token_bounded :: "int \<Rightarrow> gov_books \<Rightarrow> bool" where
  "token_bounded supply b \<longleftrightarrow> issued b = supply \<and>
     (\<forall>h. 0 \<le> get_balance b h \<and> 0 \<le> get_staked_balance b h \<and> get_balance b h + get_staked_balance b h \<le> supply)"

lemma amounts_member_le: "swf m \<Longrightarrow> sall (\<lambda>_ x. 0 \<le> x) m \<Longrightarrow> sget_or 0 m k \<le> amounts m"
proof (cases "sget m k")
  case None
  assume "swf m" "sall (\<lambda>_ x. 0 \<le> x) m"
  then have "0 \<le> amounts m" by (intro ssum_nonneg) (auto simp: sall_mem)
  with None show ?thesis by (simp add: sget_or_def)
next
  case (Some v)
  assume "swf m" "sall (\<lambda>_ x. 0 \<le> x) m"
  then show ?thesis using ssum_member_le [of m "\<lambda>_ x. x" k v] Some by (auto simp: sall_mem sget_or_def)
qed

lemma token_inv_bounded: "token_inv supply b \<Longrightarrow> token_bounded supply b"
proof -
  assume inv: "token_inv supply b"
  then have wf: "books_wf b" by (simp add: token_inv_def)
  have "0 \<le> unvested_supply b" unfolding unvested_supply_def
    using wf by (intro ssum_nonneg) (auto simp: books_wf_def sall_mem schedule_ok_def)
  moreover have "0 \<le> amounts (bk_rewards b)" using wf by (intro ssum_nonneg) (auto simp: books_wf_def sall_mem)
  then have "0 \<le> unclaimed_liquidity b" using wf by (auto simp: books_wf_def unclaimed_liquidity_def split: option.splits)
  moreover have "0 \<le> deposits_held b" unfolding deposits_held_def using wf by (intro ssum_nonneg) (simp add: books_wf_def)
  moreover have "get_balance b h \<le> amounts (bk_balances b)" "get_staked_balance b h \<le> amounts (bk_staked b)" for h
    using wf by (simp_all add: books_wf_def get_balance_def get_staked_balance_def amounts_member_le)
  ultimately have "get_balance b h + get_staked_balance b h \<le> supply" for h
    using inv by (simp add: token_inv_def issued_def) (smt (verit))
  then show ?thesis using inv balances_nonneg [OF wf] by (simp add: token_inv_def token_bounded_def)
qed

interpretation gov_token: guarded_system token_enabled token_step "token_inv supply" "token_bounded supply"
  by unfold_locales (auto intro: token_step_inv token_inv_bounded)

definition fresh_books :: "TokenMetadata \<Rightarrow> gov_books" where
  "fresh_books m = \<lparr>bk_initialized = Some True, bk_metadata = Some m, bk_balances = [], bk_staked = [], bk_rewards = [],
     bk_vesting = [], bk_holders = [], bk_distribution = None, bk_vote_locks = (\<lambda>_. 0), bk_deposit_config = None, bk_deposits = []\<rparr>"

lemma fresh_books_inv: "token_inv 0 (fresh_books m)"
  by (simp add: token_inv_def books_wf_def issued_def unvested_supply_def unclaimed_liquidity_def deposits_held_def
      fresh_books_def get_deposit_config_def DEFAULT_DEPOSIT_AMOUNT_def)

lemma distributed_inv:
  assumes "initialize_distribution ev r supply bps mc (fresh_books m) = (Ok d, b)" "0 \<le> supply"
  shows "token_inv supply b"
  using initialize_distribution_books [OF _ _ _ assms(2,1)] fresh_books_inv [of m]
  by (simp add: token_inv_def fresh_books_def)

section \<open>Properties\<close>


text \<open>
  The liquidity rewards promised and paid never exceed the share of the supply set aside for them, and
  the reserve equals the sum of what the beneficiaries can still claim.
\<close>

theorem liquidity_rewards_backed:
  assumes "initialize_distribution ev r supply bps mc (fresh_books m) = (Ok d, b0)" "0 \<le> supply"
    and "reach token_enabled token_step b0 b" "bk_distribution b = Some st"
  shows "amounts (bk_rewards b) = ds_liquidity_reserved st \<and>
    ds_liquidity_claimed st + amounts (bk_rewards b) \<le> da_liquidity_mining (ds_allocation st)"
  using gov_token.reach_inv [OF assms(3) distributed_inv [OF assms(1,2)]] assms(4)
  by (auto simp: token_inv_def books_wf_def)

text \<open>
  A release pays exactly what the schedule has vested and not yet released, never beyond the grant and
  never before the cliff, and the schedule then records all of it as released.
\<close>

theorem vesting_release_exact:
  assumes "release_vested_tokens ev h b = (Ok x, b')" "sget (bk_vesting b) h = Some v" "schedule_ok v"
  shows "\<exists>vested. vested_at (ev_timestamp ev) v = Ok vested \<and> 0 < x \<and> x = vested - vs_released_amount v \<and>
    vested \<le> vs_total_amount v \<and> u64_sat_add (vs_start_time v) (vs_cliff_seconds v) \<le> ev_timestamp ev \<and>
    sget (bk_vesting b') h = Some (v\<lparr>vs_released_amount := vested\<rparr>) \<and> get_balance b' h = get_balance b h + x"
proof -
  obtain w vested u where v: "sget (bk_vesting b) h = Some w" "0 < x" "vested_at (ev_timestamp ev) w = Ok vested"
      "u64_sat_add (vs_start_time w) (vs_cliff_seconds w) \<le> ev_timestamp ev" "vs_released_amount w + x = vested"
      "add_balance h x (b\<lparr>bk_vesting := sset h (w\<lparr>vs_released_amount := vested\<rparr>) (bk_vesting b)\<rparr>) = (Ok u, b')"
    by (rule release_vested_Ok [OF assms(1)])
  have "w = v" using v(1) assms(2) by simp
  moreover have "vested \<le> vs_total_amount v" using vested_at_bounds(2) [OF assms(3)] v(3,4) calculation by blast
  ultimately show ?thesis using v by (auto simp: balance_ops_Ok get_balance_def)
qed

lemma supply_parts:
  fixes s :: int
  defines "parts \<equiv> s div 5 + 3 * s div 20 + (3 * s div 10 + s div 5 + (s div 10 + s div 20))"
  shows "parts \<le> s" "parts = s \<longleftrightarrow> 20 dvd s"
proof -
  define a where "a = s mod 5"
  define b where "b = 3 * s mod 20"
  define c where "c = 3 * s mod 10"
  define d where "d = s mod 10"
  define e where "e = s mod 20"
  note mods = a_def b_def c_def d_def e_def
  have "20 * (s div 5) = 4 * (s - a)" "20 * (3 * s div 20) = 3 * s - b" "20 * (3 * s div 10) = 2 * (3 * s - c)"
    "20 * (s div 10) = 2 * (s - d)" "20 * (s div 20) = s - e"
    by (simp_all add: mods minus_mod_eq_mult_div)
  then have e: "20 * parts = 20 * s - (8 * a + b + 2 * c + 2 * d + e)"
    unfolding parts_def by (simp add: algebra_simps)
  have nn: "0 \<le> a" "0 \<le> b" "0 \<le> c" "0 \<le> d" "0 \<le> e" by (simp_all add: mods)
  from e nn show "parts \<le> s" by linarith
  have "a = 0 \<and> b = 0 \<and> c = 0 \<and> d = 0 \<and> e = 0" if "20 dvd s"
  proof -
    from that obtain k where "s = 20 * k" by (auto simp: dvd_def)
    then show ?thesis by (simp add: mods)
  qed
  moreover have "parts = s \<Longrightarrow> e = 0" using e nn by linarith
  ultimately show "parts = s \<longleftrightarrow> 20 dvd s" using e by (auto simp: dvd_eq_mod_eq_0 e_def)
qed
lemma supply_shares:
  fixes s :: int
  shows "s * 2000 div 10000 = s div 5" "s * 1500 div 10000 = (3 * s) div 20"
    "s * 3000 div 10000 = (3 * s) div 10" "s * 1000 div 10000 = s div 10" "s * 500 div 10000 = s div 20"
    using div_mult_mult1 [of 2000 s 5] div_mult_mult1 [of 500 "3 * s" 20] div_mult_mult1 [of 1000 "3 * s" 10]
      div_mult_mult1 [of 1000 s 10] div_mult_mult1 [of 500 s 20] by (simp_all add: mult.commute)

lemma create_allocation_sum:
  assumes "share_of_supply n TEAM_BPS = Ok a" "share_of_supply n EARLY_INVESTOR_BPS = Ok b"
    "share_of_supply n COMMUNITY_REWARDS_BPS = Ok c" "share_of_supply n LIQUIDITY_MINING_BPS = Ok d"
    "share_of_supply n TREASURY_BPS = Ok e" "share_of_supply n PUBLIC_SALE_BPS = Ok f"
    and nn: "0 \<le> a" "0 \<le> b" "0 \<le> c" "0 \<le> d" "0 \<le> e" "0 \<le> f" and le: "a + b + (c + d + (e + f)) \<le> n" and n: "in_i128 n"
  shows "(\<exists>al. create_allocation n = Ok al) \<longleftrightarrow> a + b + (c + d + (e + f)) = n"
proof -
  have fits: "in_i128 (a + b)" "in_i128 (c + d)" "in_i128 (e + f)" "in_i128 (c + d + (e + f))" "in_i128 (a + b + (c + d + (e + f)))"
    by (rule in_i128_between [OF n]; use nn le in linarith)+
  show ?thesis by (simp add: create_allocation_def assms(1-6) gov_arith_exact fits)
qed

lemma share_of_supply_exact:
  assumes "0 < n" "n * 3000 \<le> i128_max" "0 \<le> bps" "bps \<le> 3000"
  shows "share_of_supply n bps = Ok (n * bps div 10000)"
proof -
  have le: "n * bps \<le> n * 3000" and nn: "0 \<le> n * bps" using assms by (auto intro: mult_left_mono)
  have qb: "0 \<le> n * bps div 10000" "n * bps div 10000 \<le> n * bps"
    using nn zdiv_mono2 [of "n * bps" 1 10000] by (simp_all add: pos_imp_zdiv_nonneg_iff)
  have big: "in_i128 (n * 3000)" using assms by (auto simp: in_i128_def i128_min_def)
  have fit: "in_i128 (n * bps)" by (rule in_i128_between [OF big nn le])
  have fit2: "in_i128 (n * bps div 10000)" by (rule in_i128_between [OF fit qb])
  have "gdiv (n * bps) 10000 = Ok (n * bps div 10000)" using nn fit2 by (simp add: tdiv_nonneg)
  then show ?thesis using fit by (simp add: share_of_supply_def BPS_DENOMINATOR_def gov_arith_exact)
qed

lemma all_shares:
  assumes "0 < n" "n * 3000 \<le> i128_max"
  shows "share_of_supply n TEAM_BPS = Ok (n div 5)" "share_of_supply n EARLY_INVESTOR_BPS = Ok ((3 * n) div 20)"
    "share_of_supply n COMMUNITY_REWARDS_BPS = Ok ((3 * n) div 10)" "share_of_supply n LIQUIDITY_MINING_BPS = Ok (n div 5)"
    "share_of_supply n TREASURY_BPS = Ok (n div 10)" "share_of_supply n PUBLIC_SALE_BPS = Ok (n div 20)"
proof -
  note share = share_of_supply_exact [OF assms]
  show "share_of_supply n TEAM_BPS = Ok (n div 5)" using share [of 2000] by (simp only: TEAM_BPS_def supply_shares; simp)
  show "share_of_supply n EARLY_INVESTOR_BPS = Ok ((3 * n) div 20)"
    using share [of 1500] by (simp only: EARLY_INVESTOR_BPS_def supply_shares; simp)
  show "share_of_supply n COMMUNITY_REWARDS_BPS = Ok ((3 * n) div 10)"
    using share [of 3000] by (simp only: COMMUNITY_REWARDS_BPS_def supply_shares; simp)
  show "share_of_supply n LIQUIDITY_MINING_BPS = Ok (n div 5)"
    using share [of 2000] by (simp only: LIQUIDITY_MINING_BPS_def supply_shares; simp)
  show "share_of_supply n TREASURY_BPS = Ok (n div 10)"
    using share [of 1000] by (simp only: TREASURY_BPS_def supply_shares; simp)
  show "share_of_supply n PUBLIC_SALE_BPS = Ok (n div 20)"
    using share [of 500] by (simp only: PUBLIC_SALE_BPS_def supply_shares; simp)
qed

text \<open>
  The initial distribution hands out fixed percentages, rounded down, and refuses a remainder: it
  exists exactly for the supplies divisible by twenty.
\<close>

theorem allocation_needs_multiple_of_20:
  assumes "0 < n" "n * 3000 \<le> i128_max"
  shows "(\<exists>al. create_allocation n = Ok al) \<longleftrightarrow> 20 dvd n"
proof -
  have fits: "in_i128 n" using assms by (auto simp: in_i128_def i128_min_def)
  have nn: "0 \<le> n div 5" "0 \<le> (3 * n) div 20" "0 \<le> (3 * n) div 10" "0 \<le> n div 10" "0 \<le> n div 20"
    using assms(1) by (simp_all only: pos_imp_zdiv_nonneg_iff zero_less_numeral)
  have le: "n div 5 + (3 * n) div 20 + ((3 * n) div 10 + n div 5 + (n div 10 + n div 20)) \<le> n"
    by (rule supply_parts(1))
  show ?thesis
    by (rule create_allocation_sum [OF all_shares [OF assms] nn(1-3) nn(1) nn(4,5) le fits,
      unfolded supply_parts(2)])
qed

section \<open>The concentration index\<close>

lemma weighted_sum:
  assumes "res_fold weigh_balance (enumerate k xs) tot = Ok w"
  shows "w = tot + sum_list (map (\<lambda>(i, x). (int i + 1) * x) (enumerate k xs))"
  using assms
proof (induction xs arbitrary: k tot)
  case (Cons x xs)
  then obtain t where "weigh_balance (k, x) tot = Ok t" "res_fold weigh_balance (enumerate (Suc k) xs) t = Ok w"
    by (auto simp: res_then_Ok)
  moreover from this(1) have "t = tot + (int k + 1) * x" by (simp add: weigh_balance_def res_then_Ok)
  ultimately show ?case using Cons.IH [of "Suc k" t] by simp
qed simp

lemma weighted_sum_le:
  assumes "\<forall>x \<in> set xs. (0::int) \<le> x"
  shows "sum_list (map (\<lambda>(i, x). (int i + 1) * x) (enumerate k xs)) \<le> (int k + int (length xs)) * sum_list xs"
  using assms
proof (induction xs arbitrary: k)
  case (Cons x xs)
  have "sum_list (map (\<lambda>(i, x). (int i + 1) * x) (enumerate (Suc k) xs)) \<le> (int (Suc k) + int (length xs)) * sum_list xs"
    using Cons.IH [of "Suc k"] Cons.prems by simp
  moreover have "(int k + 1) * x \<le> (int (Suc k) + int (length xs)) * x" using Cons.prems by (intro mult_right_mono) auto
  ultimately show ?case by (simp add: algebra_simps)
qed simp

lemma weighted_sum_equal:
  assumes "\<forall>x \<in> set xs. x = (c::int)"
  shows "2 * sum_list (map (\<lambda>(i, x). (int i + 1) * x) (enumerate k xs)) = (2 * int k + int (length xs) + 1) * (int (length xs) * c)"
  using assms
proof (induction xs arbitrary: k)
  case (Cons x xs)
  have "2 * sum_list (map (\<lambda>(i, x). (int i + 1) * x) (enumerate (Suc k) xs)) = (2 * int (Suc k) + int (length xs) + 1) * (int (length xs) * c)"
    using Cons.IH [of "Suc k"] Cons.prems by simp
  with Cons.prems show ?case by (simp add: algebra_simps)
qed simp

lemma sort_i128_asc_eq: "sort_i128_asc xs = sort xs"
  by (simp add: sort_i128_asc_def bubble_passes_eq sort_key_id_if_sorted flip: sort_key_def)

text \<open>
  The concentration index is a Gini coefficient in basis points: for balances that are not negative
  and add up to the given total it lies between 0 and 10000, and it is 0 when all balances are equal.
\<close>

theorem gini_within_bounds:
  assumes "gini_bps ps supply = Ok g" "\<forall>p \<in> set ps. 0 \<le> hb_total p" "supply = sum_list (map hb_total ps)"
  shows "0 \<le> g \<and> g \<le> 10000 \<and> ((\<forall>p \<in> set ps. hb_total p = c) \<longrightarrow> g = 0)"
proof (cases "length ps \<le> 1 \<or> supply \<le> 0")
  case True
  then show ?thesis using assms(1) by (simp add: gini_bps_def)
next
  case False
  define xs where "xs = sort (map hb_total ps)"
  let ?n = "int (length ps)"
  have set_xs: "set xs = hb_total ` set ps" and len: "length xs = length ps" by (simp_all add: xs_def)
  have "sum_list xs = supply"
    unfolding xs_def assms(3) by (metis mset_sort sum_mset_sum_list)
  have den: "0 < ?n * supply" using False by (intro mult_pos_pos) auto
  from assms(1) False den obtain w where w: "res_fold weigh_balance (enumerate 0 xs) 0 = Ok w"
      and g: "g = max 0 (tdiv ((2 * w - (?n + 1) * supply) * 10000) (?n * supply))"
    by (auto simp: gini_bps_def Let_def res_then_Ok sort_i128_asc_eq xs_def BPS_DENOMINATOR_def max_def not_less split: if_splits)
  note ws = weighted_sum [OF w]
  have "w \<le> ?n * supply"
    using weighted_sum_le [of xs 0] assms(2) ws \<open>sum_list xs = supply\<close> by (simp add: set_xs len)
  then have "(2 * w - (?n + 1) * supply) * 10000 \<le> 10000 * (?n * supply)" using False by (simp add: algebra_simps)
  then have "g \<le> 10000"
  proof (cases "0 \<le> (2 * w - (?n + 1) * supply) * 10000")
    case True
    have "(2 * w - (?n + 1) * supply) * 10000 div (?n * supply) \<le> 10000 * (?n * supply) div (?n * supply)"
      using \<open>_ \<le> 10000 * (?n * supply)\<close> den by (rule zdiv_mono1)
    also have "\<dots> = 10000" by (rule nonzero_mult_div_cancel_right) (use den in linarith)
    finally show ?thesis using True den g by (simp add: tdiv_nonneg)
  next
    case neg: False
    then have "tdiv ((2 * w - (?n + 1) * supply) * 10000) (?n * supply) \<le> 0"
      using den by (simp add: tdiv_def sgn_if pos_imp_zdiv_nonneg_iff)
    then show ?thesis using g by simp
  qed
  moreover have "g = 0" if "\<forall>p \<in> set ps. hb_total p = c"
  proof -
    have "\<forall>x \<in> set xs. x = c" using that by (auto simp: set_xs)
    moreover have "supply = ?n * c" using that assms(3) by (simp add: sum_list_triv cong: map_cong)
    ultimately have "2 * w = (?n + 1) * supply" using weighted_sum_equal [of xs c 0] ws len by simp
    then show ?thesis using g by (simp add: tdiv_def)
  qed
  ultimately show ?thesis using g by simp
qed

section \<open>A small run\<close>

definition example_metadata :: TokenMetadata where
  "example_metadata = \<lparr>gt_name = ''Gov'', gt_symbol = ''GOV'', gt_decimals = 7, gt_total_supply = 20000\<rparr>"

definition example_recipients :: DistributionRecipients where
  "example_recipients = \<lparr>dr_team = 1, dr_early_investors = 2, dr_community_rewards = 3, dr_treasury = 4, dr_public_sale = 5\<rparr>"

definition example_allocation :: DistributionAllocation where
  "example_allocation = \<lparr>da_team = 4000, da_early_investors = 3000, da_community_rewards = 6000, da_liquidity_mining = 4000,
     da_treasury = 2000, da_public_sale = 1000\<rparr>"

definition distributed_books :: gov_books where
  "distributed_books = snd (initialize_distribution (example_env 100) example_recipients 20000 1000 5 (fresh_books example_metadata))"

lemma example_allocated: "create_allocation 20000 = Ok example_allocation"
  by (simp add: create_allocation_def share_of_supply_def distribution_consts example_allocation_def gov_eval)

lemmas token_eval =
  initialize_distribution_def unique_recipients_def example_recipients_def example_allocated add_balance_def subtract_balance_def
  add_staked_balance_def subtract_staked_balance_def put_schedule_def get_balance_def get_staked_balance_def track_holder_def
  fresh_books_def stake_def unstake_def initialized_call_def accrue_liquidity_rewards_def reward_for_volume_def
  get_distribution_state_def reserve_liquidity_rewards_def TEAM_VESTING_DURATION_def TEAM_CLIFF_DURATION_def
  EARLY_INVESTOR_VESTING_DURATION_def YEAR_SECONDS_def BPS_DENOMINATOR_def sget_or_def is_initialized_def gov_eval

lemma distributed_run:
  "initialize_distribution (example_env 100) example_recipients 20000 1000 5 (fresh_books example_metadata) =
     (Ok \<lparr>ds_allocation = example_allocation, ds_liquidity_reserved = 0, ds_liquidity_claimed = 0,
          ds_liquidity_reward_bps = 1000, ds_min_claim_threshold = 5\<rparr>, distributed_books)"
  by (simp add: distributed_books_def token_eval) (simp add: example_allocation_def token_eval)

definition busy_books :: gov_books where
  "busy_books = fold token_step [(example_env 200, Stake 3 500), (example_env 200, AccrueRewards 5 100)] distributed_books"

lemma busy_reach: "reach token_enabled token_step distributed_books busy_books"
  unfolding busy_books_def fold_simps
  by (intro reach_step reach_start) simp_all


lemma busy_distribution:
  "bk_distribution busy_books = Some \<lparr>ds_allocation = example_allocation, ds_liquidity_reserved = 10, ds_liquidity_claimed = 0,
          ds_liquidity_reward_bps = 1000, ds_min_claim_threshold = 5\<rparr>"
  by (simp add: busy_books_def distributed_books_def token_eval) (simp add: example_allocation_def token_eval)

theorem liquidity_rewards_backed_witness:
  "amounts (bk_rewards busy_books) = 10 \<and> 10 \<le> da_liquidity_mining example_allocation"
  using liquidity_rewards_backed [OF distributed_run _ busy_reach busy_distribution] by simp

definition grant :: VestingSchedule where
  "grant = \<lparr>vs_beneficiary = 1, vs_category = Team, vs_total_amount = 1000, vs_released_amount = 0, vs_start_time = 0,
     vs_cliff_seconds = 10, vs_duration_seconds = 110\<rparr>"

definition granted_books :: gov_books where
  "granted_books = (fresh_books example_metadata)\<lparr>bk_vesting := [(1, grant)]\<rparr>"

lemma grant_released: "release_vested_tokens (example_env 60) 1 granted_books =
    (Ok 500, snd (release_vested_tokens (example_env 60) 1 granted_books))"
  by (simp add: release_vested_tokens_def releasable_amount_def releasable_of_def vested_at_def granted_books_def grant_def token_eval)

theorem vesting_release_exact_witness:
  "get_balance (snd (release_vested_tokens (example_env 60) 1 granted_books)) 1 = 500"
proof -
  have "sget (bk_vesting granted_books) 1 = Some grant" "schedule_ok grant" "get_balance granted_books 1 = 0"
    by (simp_all add: granted_books_def grant_def schedule_ok_def get_balance_def fresh_books_def sget_or_def)
  from vesting_release_exact [OF grant_released this(1,2)] this(3) show ?thesis by auto
qed

theorem allocation_needs_multiple_of_20_witness:
  "(\<exists>al. create_allocation 20000 = Ok al) \<and> \<not> (\<exists>al. create_allocation 20001 = Ok al)"
  using allocation_needs_multiple_of_20 [of 20000] allocation_needs_multiple_of_20 [of 20001] by (simp add: i128_max_def)

definition holding :: "addr \<Rightarrow> int \<Rightarrow> HolderBalance" where
  "holding h x = \<lparr>hb_holder = h, hb_balance = x, hb_staked = 0, hb_voting_power = 0, hb_total = x\<rparr>"

theorem gini_within_bounds_witness: "\<exists>g. gini_bps [holding 1 30, holding 2 10] 40 = Ok g \<and> 0 \<le> g \<and> g \<le> 10000"
proof -
  have "gini_bps [holding 1 30, holding 2 10] 40 = Ok 2500"
    by (simp add: gini_bps_def sort_i128_asc_eq holding_def weigh_balance_def BPS_DENOMINATOR_def gov_eval)
  from gini_within_bounds [OF this] this show ?thesis by (simp add: holding_def)
qed

end
