(* ===== verification/TreasuryBooks.thy ===== *)
theory TreasuryBooks
  imports GovTreasury
begin

text \<open>
  What the treasury module guarantees: budgets balance, no approval is overdrawn, no asset goes
  negative, along every history of its operations; how much can be spent under one approval; where a
  renewal lands; and what one spend changes.
\<close>

section \<open>Renewal\<close>

lemma renew_loop_closed:
  assumes "0 < d" "now < u64_max" "e \<le> now"
  shows "renew_loop now d s e = Some (e + (now - e) div d * d, u64_sat_add (e + (now - e) div d * d) d)"
  using assms(3)
proof (induction "now - e" arbitrary: s e rule: less_induct)
  case less
  have unfold1: "renew_loop now d s e = renew_loop now d e (u64_sat_add e d)"
    using less.prems by (subst renew_loop.simps) simp
  show ?case
  proof (cases "e + d \<le> now")
    case True
    then have sat: "u64_sat_add e d = e + d" using assms(2) by (simp add: u64_sat_add_def)
    have "now - (e + d) < now - e" using True assms(1) by simp
    note IH = less.hyps [OF this True, of e]
    have "(now - e) div d = Suc ((now - (e + d)) div d)"
      using True assms(1) le_div_geq [of d "now - e"] by simp
    with IH unfold1 sat show ?thesis by (simp add: algebra_simps)
  next
    case False
    then have "now < u64_sat_add e d" using assms(2) by (simp add: u64_sat_add_def)
    then have "renew_loop now d e (u64_sat_add e d) = Some (e, u64_sat_add e d)"
      by (subst renew_loop.simps) simp
    moreover have "(now - e) div d = 0" using False less.prems by simp
    ultimately show ?thesis using unfold1 by simp
  qed
qed

lemma renewed_period:
  assumes "0 < d" "e \<le> now" "now < u64_max"
  shows "e + (now - e) div d * d \<le> now" "now < u64_sat_add (e + (now - e) div d * d) d"
proof -
  have "(now - e) div d * d \<le> now - e" by (simp add: div_times_less_eq_dividend)
  moreover have "now - e < d + (now - e) div d * d" using assms(1) by (rule dividend_less_div_times)
  ultimately show "e + (now - e) div d * d \<le> now" "now < u64_sat_add (e + (now - e) div d * d) d"
    using assms(2,3) unfolding u64_sat_add_def by linarith+
qed

definition budget_ok :: "Budget \<Rightarrow> bool" where
  "budget_ok b \<longleftrightarrow> 0 \<le> bu_spent b \<and> 0 \<le> bu_remaining b \<and> bu_spent b + bu_remaining b = bu_allocated b \<and>
     0 < bu_spend_limit b \<and> bu_spend_limit b \<le> bu_allocated b \<and>
     bu_period_start b < bu_period_end b"

lemma renewed_budget:
  assumes "budget_ok b" "now < u64_max" "renew_budget_if_needed now b = Ok b'"
  shows "budget_ok b'" "now < bu_period_end b'" "bu_allocated b' = bu_allocated b"
proof -
  let ?d = "bu_period_end b - bu_period_start b" and ?e = "bu_period_end b"
  let ?s = "?e + (now - ?e) div ?d * ?d"
  have d: "0 < ?d" using assms(1) by (simp add: budget_ok_def)
  have "b' = b \<and> now < ?e \<or>
      \<not> now < ?e \<and> b' = b\<lparr>bu_period_start := ?s, bu_period_end := u64_sat_add ?s ?d, bu_spent := 0, bu_remaining := bu_allocated b\<rparr>"
    using assms(3) renew_loop_closed [OF d assms(2), of ?e "bu_period_start b"]
    by (auto simp: renew_budget_if_needed_def Let_def split: if_splits)
  moreover have "?s \<le> now \<and> now < u64_sat_add ?s ?d" if "\<not> now < ?e"
    using renewed_period [OF d _ assms(2), of ?e] that by simp
  ultimately show "budget_ok b'" "now < bu_period_end b'" "bu_allocated b' = bu_allocated b"
    using assms(1) by (auto simp: budget_ok_def)
qed

section \<open>One spend\<close>

lemma commit_spend_Ok:
  assumes "commit_spend r x a c p by now b ap d t = (Ok sp, t')"
  shows "in_i128 (bu_spent b + x)" "in_i128 (bu_remaining b - x)"
    and "sp = \<lparr>ts_id = tr_next_spend_id t, ts_recipient = r, ts_amount = x, ts_asset = a, ts_category = c,
               ts_purpose = p, ts_approved_by = by, ts_executed_at = now\<rparr>"
    and "t' = t\<lparr>tr_assets := (tr_assets t)(a \<mapsto> balance_of t a - x),
               tr_budgets := (tr_budgets t)(c \<mapsto> b\<lparr>bu_spent := bu_spent b + x, bu_remaining := bu_remaining b - x\<rparr>),
               tr_approved := (tr_approved t)(c \<mapsto> ap\<lparr>ba_total_drawn := d\<rparr>),
               tr_history := tr_history t @ [sp], tr_next_spend_id := u64_sat_add (tr_next_spend_id t) 1\<rparr>"
  using assms by (auto simp: commit_spend_def Let_def and_then_Ok balance_of_def)

lemma execute_spend_Ok:
  assumes "execute_spend r x a c p by now t = (Ok sp, t')"
  obtains b0 b ap where "p \<noteq> []" "0 < x" "tr_budgets t c = Some b0" "renew_budget_if_needed now b0 = Ok b"
    "x \<le> bu_remaining b" "x \<le> bu_spend_limit b" "tr_approved t c = Some ap"
    "ba_total_drawn ap + x \<le> ba_approved_cap ap" "x \<le> balance_of t a"
    "commit_spend r x a c p by now b ap (ba_total_drawn ap + x) t = (Ok sp, t')"
  using assms by (auto simp: execute_spend_def and_then_Ok ok_or_Ok not_less not_le split: if_splits)

lemma commit_spend_Err: "commit_spend r x a c p by now b ap d t = (Err e, t') \<Longrightarrow> e = ArithmeticOverflow"
  by (auto simp: commit_spend_def Let_def gadd_def gsub_def checked_add_def checked_sub_def split: if_splits)

lemma execute_spend_Err:
  assumes "execute_spend r x a c p by now t = (Err e, t')"
  shows "t' = t \<or> e = ArithmeticOverflow"
proof -
  note defs = execute_spend_def renew_budget_if_needed_def gadd_def
  show ?thesis
  proof (cases "p = [] \<or> x \<le> 0 \<or> tr_budgets t c = None")
    case True
    then show ?thesis using assms by (auto simp: execute_spend_def split: if_splits)
  next
    case False
    then obtain b0 where b0: "p \<noteq> []" "0 < x" "tr_budgets t c = Some b0" by auto
    show ?thesis
    proof (cases "renew_budget_if_needed now b0")
      case (Ok b)
      then show ?thesis
        using assms b0 commit_spend_Err [of r x a c p "by" now b]
        by (cases "tr_approved t c") (auto simp: execute_spend_def gadd_def checked_add_def split: if_splits)
    qed (use assms b0 in \<open>auto simp: execute_spend_def\<close>)
  qed
qed

section \<open>Histories\<close>

datatype treasury_op =
    SetAsset asset int
  | UpsertBudget string int int nat nat bool
  | ApproveBudget string nat int
  | Spend addr int asset string string "nat option"
  | ScheduleRecurring addr int asset nat string string "nat option" "nat option"
  | ProcessRecurring
  | SetTarget asset int
  | Rebalance "asset \<Rightarrow> int option"

fun treasury_step :: "env \<times> treasury_op \<Rightarrow> Treasury \<Rightarrow> Treasury" where
  "treasury_step (ev, SetAsset a x) t = snd (commit t (set_asset_balance a x t))"
| "treasury_step (ev, UpsertBudget c al lim st en renew) t = snd (commit t (upsert_budget c al lim st en renew t))"
| "treasury_step (ev, ApproveBudget c pid cap) t = snd (commit t (approve_budget c pid cap (ev_timestamp ev) t))"
| "treasury_step (ev, Spend r x a c p by) t = snd (commit t (execute_spend r x a c p by (ev_timestamp ev) t))"
| "treasury_step (ev, ScheduleRecurring r x a f c p by en) t =
     snd (commit t (schedule_recurring_payment ev r x a f c p by en t))"
| "treasury_step (ev, ProcessRecurring) t = snd (commit t (process_recurring_payments (ev_timestamp ev) t))"
| "treasury_step (ev, SetTarget a bps) t = snd (commit t (set_rebalance_target a bps t))"
| "treasury_step (ev, Rebalance prices) t = snd (commit t (rebalance prices (ev_timestamp ev) t))"

definition treasury_ok :: "Treasury \<Rightarrow> bool" where
  "treasury_ok t \<longleftrightarrow> (\<forall>c b. tr_budgets t c = Some b \<longrightarrow> budget_ok b) \<and>
     (\<forall>c ap. tr_approved t c = Some ap \<longrightarrow> 0 \<le> ba_total_drawn ap \<and> ba_total_drawn ap \<le> ba_approved_cap ap) \<and>
     (\<forall>a. 0 \<le> balance_of t a)"

definition spent_in :: "string \<Rightarrow> Treasury \<Rightarrow> int" where
  "spent_in c t = sum_list (map ts_amount (filter (\<lambda>s. ts_category s = c) (tr_history t)))"

text \<open>
  An operation other than a spend leaves the history and, unless it approves the category, the
  approval of a category alone.
\<close>

definition books_of :: "string \<Rightarrow> Treasury \<Rightarrow> BudgetApproval option \<times> TreasurySpend list" where
  "books_of c t = (tr_approved t c, tr_history t)"

lemma put_payment_frame [simp]:
  "books_of c (put_payment i p t) = books_of c t" "treasury_ok (put_payment i p t) = treasury_ok t"
  by (simp_all add: put_payment_def books_of_def treasury_ok_def balance_of_def)

lemma track_asset_frame [simp]:
  "books_of c (track_asset a t) = books_of c t" "balance_of (track_asset a t) b = balance_of t b"
  "tr_budgets (track_asset a t) = tr_budgets t" "tr_approved (track_asset a t) = tr_approved t"
  by (simp_all add: track_asset_def books_of_def balance_of_def)

lemma process_payment_invariant:
  assumes spend: "\<And>r x a c p by t sp t'. P t \<Longrightarrow> execute_spend r x a c p by now t = (Ok sp, t') \<Longrightarrow> P t'"
    and put: "\<And>i p t. P t \<Longrightarrow> P (put_payment i p t)"
    and start: "P t" and run: "process_payment now i n t = (Ok m, t')"
  shows "P t'"
proof -
  let ?p = "tr_recurring t ! i"
  let ?run = "execute_spend (rp_recipient ?p) (rp_amount ?p) (rp_asset ?p) (rp_category ?p) (rp_purpose ?p) (rp_approved_by ?p) now t"
  consider "t' = t" | q where "t' = put_payment i q t" | sp u q where "?run = (Ok sp, u)" "t' = put_payment i q u"
  proof (cases ?run)
    case (Pair r u)
    have "(\<exists>e. r = Err e \<and> e \<noteq> ArithmeticOverflow) \<Longrightarrow> u = t"
      using Pair execute_spend_Err by metis
    with Pair run that show ?thesis
      by (cases r) (auto simp: process_payment_def Let_def split: if_splits)
  qed
  then show ?thesis by cases (use start spend put in blast)+
qed

lemma process_from_invariant:
  assumes "\<And>r x a c p by t sp t'. P t \<Longrightarrow> execute_spend r x a c p by now t = (Ok sp, t') \<Longrightarrow> P t'"
    "\<And>i p t. P t \<Longrightarrow> P (put_payment i p t)"
  shows "P t \<Longrightarrow> process_from now js n t = (Ok m, t') \<Longrightarrow> P t'"
proof (induction js arbitrary: n t)
  case (Cons i js)
  then obtain k u where "process_payment now i n t = (Ok k, u)" "process_from now js k u = (Ok m, t')"
    by (auto simp: and_then_Ok)
  moreover have "P u" by (rule process_payment_invariant [where P = P, OF _ _ Cons.prems(1) calculation(1)]) (fact assms)+
  ultimately show ?case using Cons.IH by blast
qed simp

lemma execute_spend_ok:
  assumes "execute_spend r x a c p by now t = (Ok sp, t')" "treasury_ok t" "now < u64_max"
  shows "treasury_ok t'"
proof -
  obtain b0 b ap where b: "0 < x" "tr_budgets t c = Some b0" "renew_budget_if_needed now b0 = Ok b"
      "x \<le> bu_remaining b" "tr_approved t c = Some ap" "ba_total_drawn ap + x \<le> ba_approved_cap ap"
      "x \<le> balance_of t a" "commit_spend r x a c p by now b ap (ba_total_drawn ap + x) t = (Ok sp, t')"
    by (rule execute_spend_Ok [OF assms(1)]) blast
  have "budget_ok b" using renewed_budget(1) [OF _ assms(3) b(3)] b(2) assms(2) by (simp add: treasury_ok_def)
  moreover have "0 \<le> ba_total_drawn ap" using assms(2) b(5) by (auto simp: treasury_ok_def)
  ultimately show ?thesis
    using assms(2) b(1,4,6,7) unfolding commit_spend_Ok(4) [OF b(8)] treasury_ok_def balance_of_def budget_ok_def by auto
qed

lemma execute_spend_books:
  assumes "execute_spend r x a c p by now t = (Ok sp, t')"
  obtains ap where "tr_approved t c = Some ap" "ba_total_drawn ap + x \<le> ba_approved_cap ap"
    "tr_approved t' = (tr_approved t)(c \<mapsto> ap\<lparr>ba_total_drawn := ba_total_drawn ap + x\<rparr>)"
    "tr_history t' = tr_history t @ [sp]" "ts_amount sp = x" "ts_category sp = c"
proof -
  obtain b0 b ap where b: "tr_approved t c = Some ap" "ba_total_drawn ap + x \<le> ba_approved_cap ap"
      "commit_spend r x a c p by now b ap (ba_total_drawn ap + x) t = (Ok sp, t')"
    by (rule execute_spend_Ok [OF assms]) blast
  note sp = commit_spend_Ok(3) [OF b(3)]
  show ?thesis
  proof (rule that [OF b(1,2)])
    show "tr_approved t' = (tr_approved t)(c \<mapsto> ap\<lparr>ba_total_drawn := ba_total_drawn ap + x\<rparr>)"
      "tr_history t' = tr_history t @ [sp]"
      by (simp_all add: commit_spend_Ok(4) [OF b(3)])
  qed (simp_all add: sp)
qed

lemma other_ops_frame:
  "set_asset_balance a y t = (Ok u, t') \<Longrightarrow> books_of c t' = books_of c t"
  "upsert_budget d al lim st en renew t = (Ok b, t') \<Longrightarrow> books_of c t' = books_of c t"
  "approve_budget d pid cap now t = (Ok ap, t') \<Longrightarrow> d \<noteq> c \<Longrightarrow> books_of c t' = books_of c t"
  "schedule_recurring_payment ev r x a f d p by ed t = (Ok q, t') \<Longrightarrow> books_of c t' = books_of c t"
  "set_rebalance_target a bps t = (Ok u, t') \<Longrightarrow> books_of c t' = books_of c t"
  "rebalance prices now t = (Ok acts, t') \<Longrightarrow> books_of c t' = books_of c t"
proof -
  have tr: "tr_history (track_asset a t) = tr_history t" for a t by (simp add: track_asset_def)
  show "set_asset_balance a y t = (Ok u, t') \<Longrightarrow> books_of c t' = books_of c t"
    by (auto simp: set_asset_balance_def Let_def books_of_def tr split: if_splits)
  show "upsert_budget d al lim st en renew t = (Ok b, t') \<Longrightarrow> books_of c t' = books_of c t"
    by (auto simp: upsert_budget_def Let_def books_of_def track_category_def split: if_splits)
  show "approve_budget d pid cap now t = (Ok ap, t') \<Longrightarrow> d \<noteq> c \<Longrightarrow> books_of c t' = books_of c t"
    by (auto simp: approve_budget_def Let_def books_of_def and_then_Ok split: if_splits)
  show "schedule_recurring_payment ev r x a f d p by ed t = (Ok q, t') \<Longrightarrow> books_of c t' = books_of c t"
    by (auto simp: schedule_recurring_payment_def Let_def books_of_def tr split: if_splits)
  show "set_rebalance_target a bps t = (Ok u, t') \<Longrightarrow> books_of c t' = books_of c t"
    by (auto simp: set_rebalance_target_def Let_def books_of_def and_then_Ok tr split: if_splits)
  show "rebalance prices now t = (Ok acts, t') \<Longrightarrow> books_of c t' = books_of c t"
    by (auto simp: rebalance_def books_of_def and_then_Ok split: if_splits)
qed

lemma other_ops_ok:
  assumes "treasury_ok t"
  shows "set_asset_balance a y t = (Ok u, t') \<Longrightarrow> treasury_ok t'"
    "upsert_budget d al lim st en renew t = (Ok b, t') \<Longrightarrow> treasury_ok t'"
    "approve_budget d pid cap now t = (Ok ap, t') \<Longrightarrow> treasury_ok t'"
    "schedule_recurring_payment ev r x a f d p by ed t = (Ok q, t') \<Longrightarrow> treasury_ok t'"
    "set_rebalance_target a bps t = (Ok u, t') \<Longrightarrow> treasury_ok t'"
    "rebalance prices now t = (Ok acts, t') \<Longrightarrow> treasury_ok t'"
proof -
  note ok = assms [unfolded treasury_ok_def]
  have tr: "treasury_ok (track_asset a t)" for a using assms by (simp add: treasury_ok_def)
  show "set_asset_balance a y t = (Ok u, t') \<Longrightarrow> treasury_ok t'"
    using tr [of a] by (auto simp: set_asset_balance_def Let_def treasury_ok_def balance_of_def split: if_splits)
  show "upsert_budget d al lim st en renew t = (Ok b, t') \<Longrightarrow> treasury_ok t'"
    using ok by (auto simp: upsert_budget_def Let_def treasury_ok_def balance_of_def budget_ok_def track_category_def split: if_splits)
  show "approve_budget d pid cap now t = (Ok ap, t') \<Longrightarrow> treasury_ok t'"
    using ok by (auto simp: approve_budget_def Let_def treasury_ok_def balance_of_def and_then_Ok split: if_splits)
  show "schedule_recurring_payment ev r x a f d p by ed t = (Ok q, t') \<Longrightarrow> treasury_ok t'"
    using tr [of a] by (auto simp: schedule_recurring_payment_def Let_def treasury_ok_def balance_of_def split: if_splits)
  show "set_rebalance_target a bps t = (Ok u, t') \<Longrightarrow> treasury_ok t'"
    using tr [of a] by (auto simp: set_rebalance_target_def Let_def treasury_ok_def balance_of_def and_then_Ok split: if_splits)
  show "rebalance prices now t = (Ok acts, t') \<Longrightarrow> treasury_ok t'"
    using ok by (auto simp: rebalance_def treasury_ok_def balance_of_def and_then_Ok split: if_splits)
qed


lemma process_recurring_ok:
  assumes "treasury_ok t" "now < u64_max" "process_recurring_payments now t = (Ok n, t')"
  shows "treasury_ok t'"
  by (rule process_from_invariant [where P = treasury_ok, OF _ _ assms(1) assms(3) [unfolded process_recurring_payments_def]])
    (use assms(2) execute_spend_ok in auto)

text \<open>
  Under one approval: what was spent in the category since a point of the history is what was drawn
  from the approval since then.
\<close>

definition drawn_tracks :: "string \<Rightarrow> int \<Rightarrow> BudgetApproval \<Rightarrow> Treasury \<Rightarrow> bool" where
  "drawn_tracks c k ap0 t \<longleftrightarrow> (\<exists>d. tr_approved t c = Some (ap0\<lparr>ba_total_drawn := d\<rparr>) \<and>
     spent_in c t = k + d \<and> d \<le> ba_approved_cap ap0)"

lemma drawn_tracks_books: "books_of c t' = books_of c t \<Longrightarrow> drawn_tracks c k ap0 t \<Longrightarrow> drawn_tracks c k ap0 t'"
  by (simp add: books_of_def drawn_tracks_def spent_in_def)

lemma execute_spend_tracks:
  assumes "drawn_tracks c k ap0 t" "execute_spend r x a d p by now t = (Ok sp, t')"
  shows "drawn_tracks c k ap0 t'"
proof -
  obtain ap where ap: "tr_approved t d = Some ap" "ba_total_drawn ap + x \<le> ba_approved_cap ap"
    "tr_approved t' = (tr_approved t)(d \<mapsto> ap\<lparr>ba_total_drawn := ba_total_drawn ap + x\<rparr>)"
    "tr_history t' = tr_history t @ [sp]" "ts_amount sp = x" "ts_category sp = d"
    by (rule execute_spend_books [OF assms(2)])
  have "spent_in c t' = spent_in c t + (if d = c then x else 0)"
    by (simp add: spent_in_def ap(4-6))
  then show ?thesis using assms(1) ap(1,2,3) by (cases "d = c") (auto simp: drawn_tracks_def)
qed

definition approves :: "string \<Rightarrow> treasury_op \<Rightarrow> bool" where
  "approves c o1 \<longleftrightarrow> (\<exists>pid cap. o1 = ApproveBudget c pid cap)"

lemma treasury_step_tracks:
  assumes "drawn_tracks c k ap0 t" "\<not> approves c (snd o1)"
  shows "drawn_tracks c k ap0 (treasury_step o1 t)"
proof -
  have keep: "drawn_tracks c k ap0 (snd (commit t m))" if "\<And>v t'. m = (Ok v, t') \<Longrightarrow> books_of c t' = books_of c t"
    for m :: "'v tcall"
    by (rule commit_inv [of "drawn_tracks c k ap0", OF assms(1)]) (rule drawn_tracks_books [OF that assms(1)])
  obtain ev p where o1: "o1 = (ev, p)" by (cases o1)
  show ?thesis
  proof (cases p)
    case (SetAsset a x)
    show ?thesis unfolding o1 SetAsset treasury_step.simps by (rule keep, erule other_ops_frame(1))
  next
    case (UpsertBudget d al lim st en renew)
    show ?thesis unfolding o1 UpsertBudget treasury_step.simps by (rule keep, erule other_ops_frame(2))
  next
    case (ApproveBudget d pid cap)
    then have dc: "d \<noteq> c" using assms(2) by (auto simp: approves_def o1)
    show ?thesis unfolding o1 ApproveBudget treasury_step.simps by (rule keep, erule other_ops_frame(3), rule dc)
  next
    case (Spend r x a d p b)
    show ?thesis unfolding o1 Spend treasury_step.simps
      by (rule commit_inv [of "drawn_tracks c k ap0", OF assms(1)]) (rule execute_spend_tracks [OF assms(1)])
  next
    case (ScheduleRecurring r x a f d p b ed)
    show ?thesis unfolding o1 ScheduleRecurring treasury_step.simps by (rule keep, erule other_ops_frame(4))
  next
    case ProcessRecurring
    have "drawn_tracks c k ap0 u" if "process_recurring_payments (ev_timestamp ev) t = (Ok n, u)" for n u
      by (rule process_from_invariant [where P = "drawn_tracks c k ap0", OF _ _ assms(1) that [unfolded process_recurring_payments_def]])
        (erule (1) execute_spend_tracks, erule drawn_tracks_books [rotated], simp)
    then show ?thesis unfolding o1 ProcessRecurring treasury_step.simps
      by (rule commit_inv [of "drawn_tracks c k ap0", OF assms(1)])
  next
    case (SetTarget a bps)
    show ?thesis unfolding o1 SetTarget treasury_step.simps by (rule keep, erule other_ops_frame(5))
  next
    case (Rebalance prices)
    show ?thesis unfolding o1 Rebalance treasury_step.simps by (rule keep, erule other_ops_frame(6))
  qed
qed

interpretation budget_cap: guarded_system
  "\<lambda>o1 t. \<not> approves c (snd o1)" treasury_step "drawn_tracks c k ap0"
  "\<lambda>t. spent_in c t \<le> k + ba_approved_cap ap0"
proof
  show "drawn_tracks c k ap0 t \<Longrightarrow> \<not> approves c (snd o1) \<Longrightarrow> drawn_tracks c k ap0 (treasury_step o1 t)" for t o1
    by (rule treasury_step_tracks)
  show "drawn_tracks c k ap0 t \<Longrightarrow> spent_in c t \<le> k + ba_approved_cap ap0" for t
    by (auto simp: drawn_tracks_def)
qed

lemma treasury_step_ok:
  assumes "treasury_ok t" "ev_timestamp (fst o1) < u64_max"
  shows "treasury_ok (treasury_step o1 t)"
proof -
  obtain ev p where o1: "o1 = (ev, p)" by (cases o1)
  have keep: "treasury_ok (snd (commit t m))" if "\<And>v t'. m = (Ok v, t') \<Longrightarrow> treasury_ok t'" for m :: "'v tcall"
    by (rule commit_inv [of treasury_ok, OF assms(1)]) (rule that)
  note ok = other_ops_ok [OF assms(1)]
  have now: "ev_timestamp ev < u64_max" using assms(2) by (simp add: o1)
  have pay: "execute_spend r x a c d b (ev_timestamp ev) t = (Ok sp, t') \<Longrightarrow> treasury_ok t'" for r x a c d b sp t'
    using execute_spend_ok assms(1) now by blast
  have pays: "process_recurring_payments (ev_timestamp ev) t = (Ok n, t') \<Longrightarrow> treasury_ok t'" for n t'
    using process_recurring_ok assms(1) now by blast
  show ?thesis
    by (cases p; simp only: o1 treasury_step.simps; rule keep; (erule ok | erule pay | erule pays))
qed

interpretation treasury: guarded_system
  "\<lambda>o1 t. ev_timestamp (fst o1) < u64_max" treasury_step treasury_ok treasury_ok
  by unfold_locales (auto intro: treasury_step_ok)

section \<open>Properties\<close>

lemma empty_treasury_ok: "treasury_ok empty_treasury"
  by (simp add: treasury_ok_def empty_treasury_def balance_of_def)

text \<open>
  (C14) Along every history of treasury operations from an empty treasury, each budget splits its
  allocation into a spent and a remaining part that are not negative, no approval is drawn beyond its
  cap, and no asset balance is negative.
\<close>

theorem treasury_books_balanced:
  assumes "reach (\<lambda>o1 t. ev_timestamp (fst o1) < u64_max) treasury_step empty_treasury t"
  shows "(\<forall>c b. tr_budgets t c = Some b \<longrightarrow>
            bu_spent b + bu_remaining b = bu_allocated b \<and> 0 \<le> bu_spent b \<and> 0 \<le> bu_remaining b) \<and>
         (\<forall>c ap. tr_approved t c = Some ap \<longrightarrow> ba_total_drawn ap \<le> ba_approved_cap ap) \<and>
         (\<forall>a. 0 \<le> balance_of t a)"
  using treasury.reach_safe [OF assms empty_treasury_ok] by (simp add: treasury_ok_def budget_ok_def)

text \<open>
  (C15) A governance approval bounds spending: however spends, recurring payments, renewals and other
  operations are interleaved, until the category is approved again the amounts spent in it add up to
  at most the approved cap.
\<close>

theorem approved_cap_bounds_spending:
  assumes "reach (\<lambda>o1 t. \<not> approves c (snd o1)) treasury_step t t'"
    and "tr_approved t c = Some ap" "ba_total_drawn ap = 0" "0 \<le> ba_approved_cap ap"
  shows "spent_in c t' - spent_in c t \<le> ba_approved_cap ap"
proof -
  have "ap = ap\<lparr>ba_total_drawn := 0\<rparr>" using assms(3) by simp
  then have "drawn_tracks c (spent_in c t) ap t"
    using assms(2-4) by (auto simp: drawn_tracks_def intro!: exI [of _ 0])
  from budget_cap.reach_safe [OF assms(1) this] show ?thesis by simp
qed

text \<open>
  (C16) An overdue budget that renews automatically always finds its period (the loop ends for every
  timestamp but the last one): the new period is a whole number of periods later, contains the
  current time, and starts with nothing spent.
\<close>

theorem budget_renewal_lands:
  assumes "bu_auto_renew b" "bu_period_start b < bu_period_end b" "bu_period_end b \<le> now" "now < u64_max"
  shows "\<exists>b' k. renew_budget_if_needed now b = Ok b' \<and>
    bu_period_start b' = bu_period_end b + k * (bu_period_end b - bu_period_start b) \<and>
    bu_period_start b' \<le> now \<and> now < bu_period_end b' \<and>
    bu_period_end b' = min (bu_period_start b' + (bu_period_end b - bu_period_start b)) u64_max \<and>
    bu_spent b' = 0 \<and> bu_remaining b' = bu_allocated b"
proof -
  let ?d = "bu_period_end b - bu_period_start b" and ?e = "bu_period_end b"
  define k where "k = (now - ?e) div ?d"
  have d: "0 < ?d" using assms(2) by simp
  have loop: "renew_loop now ?d (bu_period_start b) ?e = Some (?e + k * ?d, u64_sat_add (?e + k * ?d) ?d)"
    using renew_loop_closed [OF d assms(4,3)] by (simp add: k_def)
  have "?e + k * ?d \<le> now" "now < u64_sat_add (?e + k * ?d) ?d"
    unfolding k_def by (rule renewed_period [OF d assms(3,4)])+
  with loop assms(1-3) show ?thesis
    by (intro exI [of _ "b\<lparr>bu_period_start := ?e + k * ?d, bu_period_end := u64_sat_add (?e + k * ?d) ?d,
          bu_spent := 0, bu_remaining := bu_allocated b\<rparr>"] exI [of _ k])
      (simp add: renew_budget_if_needed_def Let_def u64_sat_add_def)
qed

text \<open>
  One recurring payment without a purpose stops them all: scheduling accepts it, a spend refuses an
  empty purpose with an error that the loop does not absorb, so from the moment the payment is due no
  run of the recurring payments succeeds.
\<close>

theorem purposeless_payment_blocks:
  assumes "p \<in> set (tr_recurring t)" "rp_active p" "rp_purpose p = []"
    and "rp_end_date p = None" "u64_sat_add (rp_last_payment p) (rp_frequency p) \<le> now"
  shows "process_recurring_payments now t \<noteq> (Ok n, t')"
proof
  assume run: "process_recurring_payments now t = (Ok n, t')"
  from assms(1) obtain i where i: "i < length (tr_recurring t)" "tr_recurring t ! i = p"
    by (auto simp: in_set_conv_nth)
  have stuck: "process_payment now i m u \<noteq> (Ok l, u')" if "tr_recurring u ! i = p" for m u l u'
    using that assms(2-5) by (simp add: process_payment_def Let_def execute_spend_def)
  have same: "tr_recurring u' = tr_recurring u" if "execute_spend r x a c d b w u = (Ok sp, u')" for r x a c d b w u sp u'
    by (rule execute_spend_Ok [OF that]) (drule commit_spend_Ok(4), simp)
  have kept: "tr_recurring u' ! i = tr_recurring u ! i"
    if "process_payment now j m u = (Ok l, u')" "j \<noteq> i" for j m u l u'
    using that same execute_spend_Err
    by (fastforce simp: process_payment_def put_payment_def Let_def split: if_splits prod.splits res.splits)
  have "process_from now js m u \<noteq> (Ok l, u')" if "i \<in> set js" "tr_recurring u ! i = p" for js m u l u'
    using that
  proof (induction js arbitrary: m u)
    case (Cons j js)
    show ?case
    proof
      assume "process_from now (j # js) m u = (Ok l, u')"
      then obtain q v where v: "process_payment now j m u = (Ok q, v)" "process_from now js q v = (Ok l, u')"
        by (auto simp: and_then_Ok)
      show False
      proof (cases "j = i")
        case True
        with v(1) stuck Cons.prems(2) show ?thesis by blast
      next
        case False
        with kept [OF v(1)] Cons v(2) show ?thesis by auto
      qed
    qed
  qed simp
  then show False using run i by (auto simp: process_recurring_payments_def)
qed

definition xlm :: asset where "xlm = \<lparr>as_code = ''XLM'', as_issuer = None\<rparr>"

definition funded_treasury :: Treasury where
  "funded_treasury = fold treasury_step
     [(example_env 5, SetAsset xlm 1000), (example_env 5, UpsertBudget ''ops'' 500 200 0 100 True),
      (example_env 6, ApproveBudget ''ops'' 1 300)] empty_treasury"

definition spent_treasury :: Treasury where
  "spent_treasury = fold treasury_step
     [(example_env 10, Spend 7 150 xlm ''ops'' ''rent'' None), (example_env 120, Spend 7 150 xlm ''ops'' ''rent'' None),
      (example_env 121, Spend 7 150 xlm ''ops'' ''rent'' None)] funded_treasury"

lemmas treasury_eval =
  set_asset_balance_def upsert_budget_def approve_budget_def execute_spend_def commit_spend_def
  track_asset_def track_category_def push_new_def balance_of_def renew_budget_if_needed_def
  gadd_def gsub_def ok_or.simps fixed_width_defs Let_def

lemma funded_treasury_eq:
  "tr_budgets funded_treasury = [''ops'' \<mapsto> \<lparr>bu_category = ''ops'', bu_allocated = 500, bu_spent = 0, bu_remaining = 500,
      bu_spend_limit = 200, bu_period_start = 0, bu_period_end = 100, bu_auto_renew = True\<rparr>]"
  "tr_approved funded_treasury = [''ops'' \<mapsto> \<lparr>ba_proposal_id = 1, ba_category = ''ops'', ba_approved_cap = 300,
      ba_total_drawn = 0, ba_approved_at = 6\<rparr>]"
  "tr_history funded_treasury = []" "tr_assets funded_treasury = [xlm \<mapsto> 1000]"
  by (simp_all add: funded_treasury_def empty_treasury_def treasury_eval example_env_def)

lemma spent_treasury_eq:
  "tr_budgets spent_treasury ''ops'' = Some \<lparr>bu_category = ''ops'', bu_allocated = 500, bu_spent = 150, bu_remaining = 350,
      bu_spend_limit = 200, bu_period_start = 100, bu_period_end = 200, bu_auto_renew = True\<rparr>"
  "spent_in ''ops'' spent_treasury = 300"
proof -
  have loop: "renew_loop 120 100 0 100 = Some (100, 200)"
    by (simp add: renew_loop.simps [of 120] u64_sat_add_def u64_max_def)
  note b = funded_treasury_eq
  show "tr_budgets spent_treasury ''ops'' = Some \<lparr>bu_category = ''ops'', bu_allocated = 500, bu_spent = 150, bu_remaining = 350,
      bu_spend_limit = 200, bu_period_start = 100, bu_period_end = 200, bu_auto_renew = True\<rparr>"
    "spent_in ''ops'' spent_treasury = 300"
    by (simp_all add: spent_treasury_def b treasury_eval example_env_def loop spent_in_def)
qed

lemma spent_treasury_reach: "reach (\<lambda>o1 t. ev_timestamp (fst o1) < u64_max) treasury_step empty_treasury spent_treasury"
  unfolding spent_treasury_def funded_treasury_def fold_append [THEN fun_cong, unfolded o_apply, symmetric]
  by (rule reach_fold) (simp add: example_env_def u64_max_def)

theorem treasury_books_balanced_witness:
  "\<exists>b. tr_budgets spent_treasury ''ops'' = Some b \<and> bu_spent b = 150 \<and> bu_spent b + bu_remaining b = bu_allocated b"
  using treasury_books_balanced [OF spent_treasury_reach] spent_treasury_eq(1) by auto

theorem approved_cap_bounds_spending_witness:
  "spent_in ''ops'' spent_treasury = 300 \<and> spent_in ''ops'' spent_treasury - spent_in ''ops'' funded_treasury \<le> 300"
proof -
  have "reach (\<lambda>o1 t. \<not> approves ''ops'' (snd o1)) treasury_step funded_treasury spent_treasury"
    unfolding spent_treasury_def by (rule reach_fold) (simp add: approves_def)
  from approved_cap_bounds_spending [OF this] spent_treasury_eq(2) show ?thesis by (simp add: funded_treasury_eq)
qed

theorem budget_renewal_lands_witness:
  "\<exists>b'. renew_budget_if_needed 350 \<lparr>bu_category = ''ops'', bu_allocated = 500, bu_spent = 150, bu_remaining = 350,
      bu_spend_limit = 200, bu_period_start = 0, bu_period_end = 100, bu_auto_renew = True\<rparr> = Ok b' \<and>
    bu_period_start b' \<le> 350 \<and> 350 < bu_period_end b' \<and> bu_spent b' = 0"
  using budget_renewal_lands [of "\<lparr>bu_category = ''ops'', bu_allocated = 500, bu_spent = 150, bu_remaining = 350,
      bu_spend_limit = 200, bu_period_start = 0, bu_period_end = 100, bu_auto_renew = True\<rparr>" 350]
  by (auto simp: u64_max_def)

definition purposeless :: RecurringPayment where
  "purposeless = \<lparr>rp_id = 1, rp_recipient = 7, rp_amount = 10, rp_asset = xlm, rp_frequency = 50, rp_category = ''ops'',
     rp_purpose = [], rp_approved_by = None, rp_last_payment = 10, rp_end_date = None, rp_active = True\<rparr>"

lemma purposeless_scheduled:
  "fst (schedule_recurring_payment (example_env 10) 7 10 xlm 50 ''ops'' [] None None funded_treasury) = Ok purposeless"
  "tr_recurring (snd (schedule_recurring_payment (example_env 10) 7 10 xlm 50 ''ops'' [] None None funded_treasury)) = [purposeless]"
  by (simp_all add: schedule_recurring_payment_def purposeless_def funded_treasury_def empty_treasury_def treasury_eval example_env_def)

theorem purposeless_payment_blocks_witness:
  "fst (process_recurring_payments 60
     (snd (schedule_recurring_payment (example_env 10) 7 10 xlm 50 ''ops'' [] None None funded_treasury))) \<noteq> Ok 0"
proof
  let ?t = "snd (schedule_recurring_payment (example_env 10) 7 10 xlm 50 ''ops'' [] None None funded_treasury)"
  assume "fst (process_recurring_payments 60 ?t) = Ok 0"
  then have "process_recurring_payments 60 ?t = (Ok 0, snd (process_recurring_payments 60 ?t))" by (simp add: prod_eq_iff)
  moreover have "purposeless \<in> set (tr_recurring ?t)" by (simp add: purposeless_scheduled(2))
  ultimately show False
    using purposeless_payment_blocks [of purposeless ?t 60 0] by (simp add: purposeless_def u64_sat_add_def)
qed

section \<open>Concentration\<close>

lemma held_allocations:
  assumes "res_fold (held_allocation prices t) xs (tot, als) = Ok (tot', als')"
    and "tot = sum_list (map al_value_usd als)" "\<forall>al \<in> set als. 0 < al_value_usd al \<and> al_concentration_bps al = 0"
  shows "tot' = sum_list (map al_value_usd als') \<and> (\<forall>al \<in> set als'. 0 < al_value_usd al \<and> al_concentration_bps al = 0)"
  using assms
proof (induction xs arbitrary: tot als)
  case (Cons x xs)
  from Cons.prems(1) obtain u us where step: "held_allocation prices t x (tot, als) = Ok (u, us)"
    "res_fold (held_allocation prices t) xs (u, us) = Ok (tot', als')"
    by (auto simp: res_then_Ok)
  have "u = sum_list (map al_value_usd us) \<and> (\<forall>al \<in> set us. 0 < al_value_usd al \<and> al_concentration_bps al = 0)"
    using step(1) Cons.prems(2,3)
    by (auto simp: held_allocation_def Let_def res_then_Ok split: if_splits option.splits)
  then show ?case using Cons.IH [OF step(2)] by blast
qed simp

lemma concentrations:
  assumes "res_collect (\<lambda>al. res_then (concentration tot al) (\<lambda>al. Ok [al])) als = Ok als'"
    and "\<forall>al \<in> set als. 0 < al_value_usd al \<and> al_concentration_bps al = 0" "0 < tot"
  shows "map al_value_usd als' = map al_value_usd als \<and>
    (\<forall>al \<in> set als'. al_concentration_bps al = (al_value_usd al * 10000) div tot)"
  using assms(1,2)
proof (induction als arbitrary: als')
  case (Cons al als)
  then obtain c cs where "concentration tot al = Ok c"
      "res_collect (\<lambda>al. res_then (concentration tot al) (\<lambda>al. Ok [al])) als = Ok cs" "als' = c # cs"
    by (auto simp: res_then_Ok)
  with Cons show ?case using assms(3)
    by (auto simp: concentration_def res_then_Ok BPS_DENOMINATOR_def tdiv_nonneg)
qed simp

lemma sum_list_div_le: "0 < (d::int) \<Longrightarrow> \<forall>x \<in> set xs. 0 \<le> f x \<Longrightarrow> sum_list (map (\<lambda>x. f x div d) xs) \<le> sum_list (map f xs) div d"
proof (induction xs)
  case (Cons x xs)
  have "f x div d + sum_list (map f xs) div d \<le> (f x + sum_list (map f xs)) div d"
    unfolding div_add1_eq [of "f x" "sum_list (map f xs)"] using Cons.prems(1) by (simp add: pos_imp_zdiv_nonneg_iff)
  with Cons show ?case by simp
qed simp

lemma largest_holding_max:
  "fst (largest_holding als) = fold max (map al_concentration_bps als) 0"
proof -
  have "fst (fold (\<lambda>al (bps, a). if bps < al_concentration_bps al then (al_concentration_bps al, al_asset al) else (bps, a)) als x) =
        fold max (map al_concentration_bps als) (fst x)" for x :: "int \<times> asset"
    by (induction als arbitrary: x) (auto simp: max_def split: prod.splits)
  then show ?thesis by (simp add: largest_holding_def)
qed

text \<open>
  The diversification report: the total is the sum of the reported values, every concentration lies
  between 0 and 10000 basis points, no reported holding exceeds the largest one, and together the
  concentrations do not exceed the whole.
\<close>

theorem diversification_bounds:
  assumes "get_diversification prices t = Ok dv"
  shows "dv_total_value_usd dv = sum_list (map al_value_usd (dv_allocations dv)) \<and>
    (\<forall>al \<in> set (dv_allocations dv). 0 \<le> al_concentration_bps al \<and> al_concentration_bps al \<le> dv_largest_holding_bps dv) \<and>
    sum_list (map al_concentration_bps (dv_allocations dv)) \<le> 10000"
proof -
  from assms obtain tot als als' where run:
    "res_fold (held_allocation prices t) (tr_tracked t) (0, []) = Ok (tot, als)"
    "res_collect (\<lambda>al. res_then (concentration tot al) (\<lambda>al. Ok [al])) als = Ok als'"
    and dv: "dv_allocations dv = als'" "dv_largest_holding_bps dv = fst (largest_holding als')" "dv_total_value_usd dv = tot"
    by (auto simp: get_diversification_def res_then_Ok split: prod.splits)
  have als: "tot = sum_list (map al_value_usd als)" "\<forall>al \<in> set als. 0 < al_value_usd al \<and> al_concentration_bps al = 0"
    using held_allocations [OF run(1)] by simp_all
  show ?thesis
  proof (cases "als = []")
    case True
    then show ?thesis using run(2) dv als by (simp add: largest_holding_max)
  next
    case False
    then obtain al0 where al0: "al0 \<in> set als" by fastforce
    have "0 < al_value_usd al0" using als(2) al0 by blast
    also have "\<dots> \<le> tot" unfolding als(1) using al0 als(2) by (intro member_le_sum_list) auto
    finally have pos: "0 < tot" .
    note c = concentrations [OF run(2) als(2) pos]
    have vals: "al \<in> set als' \<Longrightarrow> 0 < al_value_usd al" for al
      using c als(2) by (metis (no_types, lifting) image_eqI image_iff list.set_map)
    have nonneg: "al \<in> set als' \<Longrightarrow> 0 \<le> al_concentration_bps al" for al
      using c vals pos by (simp add: pos_imp_zdiv_nonneg_iff less_imp_le)
    have "al \<in> set als' \<Longrightarrow> al_concentration_bps al \<le> fst (largest_holding als')" for al
      unfolding largest_holding_max by (simp add: Max.set_eq_fold [symmetric])
    moreover have "sum_list (map al_concentration_bps als') \<le> 10000"
    proof -
      have conc: "map al_concentration_bps als' = map (\<lambda>al. (al_value_usd al * 10000) div tot) als'" using c by simp
      have "sum_list (map al_concentration_bps als') \<le> sum_list (map (\<lambda>al. al_value_usd al * 10000) als') div tot"
        unfolding conc by (rule sum_list_div_le [OF pos]) (simp add: vals less_imp_le)
      also have "\<dots> = (tot * 10000) div tot" using c als(1) by (simp add: sum_list_mult_const)
      finally show ?thesis using pos by simp
    qed
    ultimately show ?thesis using c als(1) dv nonneg by simp
  qed
qed

theorem diversification_bounds_witness:
  "\<exists>dv. get_diversification (\<lambda>a. Some 3) funded_treasury = Ok dv \<and> dv_largest_holding_bps dv = 10000 \<and>
     sum_list (map al_concentration_bps (dv_allocations dv)) \<le> 10000"
proof -
  have tr: "tr_tracked funded_treasury = [xlm]"
    by (simp add: funded_treasury_def empty_treasury_def treasury_eval example_env_def)
  have run: "get_diversification (\<lambda>a. Some 3) funded_treasury =
      Ok \<lparr>dv_allocations = [\<lparr>al_asset = xlm, al_amount = 1000, al_value_usd = 3000, al_concentration_bps = 10000\<rparr>],
          dv_largest_holding_bps = 10000, dv_largest_asset = xlm, dv_total_value_usd = 3000\<rparr>"
    by (simp add: get_diversification_def tr funded_treasury_eq held_allocation_def concentration_def
        largest_holding_def treasury_eval gmul_def gdiv_def checked_div_def tdiv_def BPS_DENOMINATOR_def)
  from diversification_bounds [OF run] run show ?thesis by simp
qed

text \<open>
  A successful spend was within the remaining budget, the limit per spend, the approved cap and the
  asset balance; it debits exactly that asset and appends one entry to the history; no other asset,
  budget or approval changes.
\<close>

theorem treasury_spend_exact:
  assumes "execute_spend recipient amount a c purpose by now t = (Ok sp, t')"
  shows "\<exists>ap. 0 < amount \<and> amount \<le> balance_of t a \<and> balance_of t' a = balance_of t a - amount \<and>
    (\<forall>d. d \<noteq> a \<longrightarrow> balance_of t' d = balance_of t d) \<and>
    tr_approved t c = Some ap \<and> ba_total_drawn ap + amount \<le> ba_approved_cap ap \<and>
    tr_approved t' = (tr_approved t)(c \<mapsto> ap\<lparr>ba_total_drawn := ba_total_drawn ap + amount\<rparr>) \<and>
    (\<forall>d. d \<noteq> c \<longrightarrow> tr_budgets t' d = tr_budgets t d) \<and>
    tr_history t' = tr_history t @ [sp] \<and> ts_amount sp = amount \<and> ts_recipient sp = recipient"
proof (rule execute_spend_Ok [OF assms])
  fix b0 b ap
  assume b: "0 < amount" "tr_approved t c = Some ap" "ba_total_drawn ap + amount \<le> ba_approved_cap ap"
    "amount \<le> balance_of t a" "commit_spend recipient amount a c purpose by now b ap (ba_total_drawn ap + amount) t = (Ok sp, t')"
  note sp = commit_spend_Ok(3,4) [OF b(5)]
  have "balance_of t' d = (if d = a then balance_of t a - amount else balance_of t d)" for d
    by (subst sp(2)) (simp add: balance_of_def)
  moreover have "tr_history t' = tr_history t @ [sp]"
    "tr_approved t' = (tr_approved t)(c \<mapsto> ap\<lparr>ba_total_drawn := ba_total_drawn ap + amount\<rparr>)"
    "d \<noteq> c \<Longrightarrow> tr_budgets t' d = tr_budgets t d" for d
    by (subst sp(2), simp)+
  moreover have "ts_amount sp = amount \<and> ts_recipient sp = recipient" by (simp add: sp(1))
  ultimately show ?thesis using b(1-4) by simp
qed

theorem treasury_spend_exact_witness:
  "\<exists>sp t'. execute_spend 7 150 xlm ''ops'' ''rent'' None 10 funded_treasury = (Ok sp, t') \<and>
     balance_of t' xlm = 850 \<and> tr_history t' = [sp] \<and> ts_amount sp = 150"
proof -
  obtain sp t' where run: "execute_spend 7 150 xlm ''ops'' ''rent'' None 10 funded_treasury = (Ok sp, t')"
    by (simp add: treasury_eval funded_treasury_eq)
  have "balance_of funded_treasury xlm = 1000" by (simp add: balance_of_def funded_treasury_eq)
  with treasury_spend_exact [OF run] run funded_treasury_eq(3) show ?thesis by auto
qed

end
