(* ===== verification/GovSafety.thy ===== *)
theory GovSafety
  imports GovVotes TokenSupply TreasuryBooks
begin

text \<open>
  What the timelock, the capabilities, the spend window and the execution of proposals guarantee, and
  where they do not: queued grants hand out every capability, an executed proposal can be executed again
  through the timelock, and a treasury proposal creates governance tokens.
\<close>

section \<open>The queue of admin actions\<close>

lemma find_index_append:
  "find_index f (xs @ [x]) = (case find_index f xs of Some n \<Rightarrow> Some n | None \<Rightarrow> if f x then Some (length xs) else None)"
  by (induction xs) (auto split: option.splits)

lemma find_index_Some: "find_index f xs = Some n \<Longrightarrow> n < length xs \<and> f (xs ! n)"
  by (induction xs arbitrary: n) (auto split: if_splits)

lemma find_index_update: "f y \<longleftrightarrow> f (xs ! n) \<Longrightarrow> n < length xs \<Longrightarrow> find_index f (xs[n := y]) = find_index f xs"
  by (induction xs arbitrary: n) (auto split: nat.splits)

definition queued_entry :: "env \<Rightarrow> nat \<Rightarrow> addr \<Rightarrow> symbol \<Rightarrow> AdminTimelockEntry" where
  "queued_entry ev i a symb =
     \<lparr>ae_id = i, ae_action_type = symb, ae_caller = a, ae_queued_at = ev_timestamp ev,
      ae_execution_available = u64_sat_add (ev_timestamp ev) ADMIN_ACTION_DELAY, ae_executed = False, ae_cancelled = False\<rparr>"

lemma queue_admin_action_run:
  assumes "g_timelock g = Some t"
  shows "\<exists>t'. queue_admin_action ev a symb g =
    (Ok (tl_next_action_id t), g\<lparr>g_timelock := Some t', g_admin_pending := g_admin_pending g @ [queued_entry ev (tl_next_action_id t) a symb]\<rparr>)"
  using assms by (simp add: queue_admin_action_def get_timelock_def ok_or.simps Let_def put_timelock_def queued_entry_def) blast

lemma execute_admin_action_run:
  assumes "find_index (\<lambda>e. ae_id e = i) (g_admin_pending g) = Some n" "ev_auth ev a"
    and "g_admin_pending g ! n = e" "\<not> ae_executed e" "\<not> ae_cancelled e" "ae_caller e = a" "ae_execution_available e \<le> ev_timestamp ev"
  shows "execute_admin_action ev i a g =
    (Ok (ae_action_type e), g\<lparr>g_admin_pending := (g_admin_pending g)[n := e\<lparr>ae_executed := True\<rparr>]\<rparr>)"
  using assms by (simp add: execute_admin_action_def guard_def signed_def get_admin_action_execution_available_def find_entry_def
      ok_or.simps Let_def put_entry_def)

lemma execute_admin_action_Ok:
  assumes "execute_admin_action ev i a g = (Ok s, g')"
  shows "\<exists>n e. find_index (\<lambda>e. ae_id e = i) (g_admin_pending g) = Some n \<and> e = g_admin_pending g ! n \<and> ev_auth ev a \<and>
    ae_caller e = a \<and> \<not> ae_executed e \<and> \<not> ae_cancelled e \<and> ae_execution_available e \<le> ev_timestamp ev \<and> s = ae_action_type e \<and>
    g' = g\<lparr>g_admin_pending := (g_admin_pending g)[n := e\<lparr>ae_executed := True\<rparr>]\<rparr>"
  using assms
  by (auto simp: execute_admin_action_def guard_Ok guards_Ok and_then_Ok res_then_Ok get_admin_action_execution_available_def
      find_entry_def ok_or_Ok Let_def put_entry_def not_less split: if_splits)

section \<open>Properties\<close>

text \<open>
  (C19) Granting through the timelock asks for no role: whoever calls \<open>queue_grant_capability\<close> (no signature is
  needed) and two days later \<open>grant_capability_timelocked\<close> holds every capability, the super-admin's
  among them.
\<close>

theorem anyone_becomes_super_admin:
  assumes init: "require_initialized g = Ok ()" and tl: "g_timelock g = Some t"
    and fresh: "find_index (\<lambda>e. ae_id e = tl_next_action_id t) (g_admin_pending g) = None"
    and later: "u64_sat_add (ev_timestamp ev) ADMIN_ACTION_DELAY \<le> ev_timestamp ev'" and auth: "ev_auth ev' a"
  shows "\<exists>g1 g2. queue_grant_capability ev a g = (Ok (tl_next_action_id t), g1) \<and>
    grant_capability_timelocked ev' a (tl_next_action_id t) a CapSuperAdmin g1 = (Ok (), g2) \<and>
    (\<forall>c. has_capability a c (g_authority g2))"
proof -
  let ?i = "tl_next_action_id t"
  obtain t' where q: "queue_admin_action ev a ''capgrant'' g =
      (Ok ?i, g\<lparr>g_timelock := Some t', g_admin_pending := g_admin_pending g @ [queued_entry ev ?i a ''capgrant'']\<rparr>)"
      (is "_ = (_, ?g1)")
    using queue_admin_action_run [OF tl] by blast
  have init1: "require_initialized ?g1 = Ok ()" using init by (simp add: require_initialized_def split: if_splits)
  have found: "find_index (\<lambda>e. ae_id e = ?i) (g_admin_pending ?g1) = Some (length (g_admin_pending g))"
    using fresh by (simp add: find_index_append queued_entry_def)
  have entry: "g_admin_pending ?g1 ! length (g_admin_pending g) = queued_entry ev ?i a ''capgrant''" by simp
  obtain g2 where g2: "execute_admin_action ev' ?i a ?g1 = (Ok ''capgrant'', g2)"
    using execute_admin_action_run [OF found auth entry] later by (auto simp: queued_entry_def)
  have "queue_grant_capability ev a g = (Ok ?i, ?g1)" by (simp add: queue_grant_capability_def initialized_def guard_def init q)
  moreover have "grant_capability_timelocked ev' a ?i a CapSuperAdmin ?g1 =
      (Ok (), g2\<lparr>g_authority := grant_capability a a CapSuperAdmin (g_authority g2)\<rparr>)"
    using g2 by (simp add: grant_capability_timelocked_def initialized_def guard_def init1 with_entry_def change_grant_def)
  moreover have "has_capability a c (grant_capability a a CapSuperAdmin (g_authority g2))" for c
    by (rule super_admin_has_all) (simp add: grant_capability_def set_grant_def)
  ultimately show ?thesis by auto
qed

theorem anyone_becomes_super_admin_witness:
  "\<exists>g1 g2. queue_grant_capability (example_env 100) 66 (example_town\<lparr>g_timelock := Some \<lparr>tl_queued_actions = [],
       tl_delay_config = default_delays, tl_min_delay = 3600, tl_max_delay = 86400, tl_guardian = 2, tl_next_action_id = 1\<rparr>\<rparr>) = (Ok 1, g1) \<and>
     grant_capability_timelocked (example_env 172900) 66 1 66 CapSuperAdmin g1 = (Ok (), g2) \<and> has_capability 66 CapTreasury (g_authority g2)"
  using anyone_becomes_super_admin [where a = 66 and ev = "example_env 100" and ev' = "example_env 172900" and
      g = "example_town\<lparr>g_timelock := Some \<lparr>tl_queued_actions = [],
       tl_delay_config = default_delays, tl_min_delay = 3600, tl_max_delay = 86400, tl_guardian = 2, tl_next_action_id = 1\<rparr>\<rparr>"]
  by (fastforce simp: example_town_def deployed_def require_initialized_def is_initialized_def ADMIN_ACTION_DELAY_def
      u64_sat_add_def fixed_width_defs example_env_def)

lemma proposal_action_Ok:
  assumes "execute_proposal_action_by_id i g = (Ok u, g')"
  shows "\<exists>p. sget (g_proposals g) i = Some p \<and> apply_action (pr_proposal_type p) g = (Ok u, g') \<and> g_proposals g' = g_proposals g"
proof -
  from assms obtain p where p: "sget (g_proposals g) i = Some p" "apply_action (pr_proposal_type p) g = (Ok u, g')"
    by (auto simp: execute_proposal_action_by_id_def execute_proposal_action_def and_then_Ok get_proposal_Ok)
  with apply_action_frame(1) [of "pr_proposal_type p" g] show ?thesis by auto
qed

text \<open>
  (C33) A queued action runs only with a signature, not before its time and only while it is neither executed
  nor cancelled; it marks the entry and its proposal as executed and keeps the votes of the proposal. A
  second execution of the entry is refused whoever asks and whenever.
\<close>

theorem queued_action_runs_once:
  assumes run: "execute_queued_action ev i a g = (Ok u, g')" and ok: "voting_ok g"
  shows "\<exists>t n p q. g_timelock g = Some t \<and> find_index (\<lambda>x. qa_id x = i) (tl_queued_actions t) = Some n \<and>
      waiting (tl_queued_actions t ! n) \<and> qa_execution_available (tl_queued_actions t ! n) \<le> ev_timestamp ev \<and> ev_auth ev a \<and>
      sget (g_proposals g) (qa_proposal_id (tl_queued_actions t ! n)) = Some p \<and>
      sget (g_proposals g') (qa_proposal_id (tl_queued_actions t ! n)) = Some q \<and> pr_status q = Executed \<and> pr_voters q = pr_voters p \<and>
      (\<forall>ev' b. ev_auth ev' b \<longrightarrow> execute_queued_action ev' i b g' = (Err InvalidCommitteeAction, g'))"
proof -
  from run obtain t n where t: "g_timelock g = Some t" "find_index (\<lambda>x. qa_id x = i) (tl_queued_actions t) = Some n"
      "waiting (tl_queued_actions t ! n)" "qa_execution_available (tl_queued_actions t ! n) \<le> ev_timestamp ev" "ev_auth ev a"
      "run_action ev t n g = (Ok u, g')"
    by (auto simp: execute_queued_action_def guard_Ok guards_Ok and_then_Ok get_timelock_def find_action_def ok_or_Ok Let_def not_less
        split: if_splits)
  let ?a = "tl_queued_actions t ! n" and ?t = "put_action n ((tl_queued_actions t ! n)\<lparr>qa_executed := True\<rparr>) t"
  let ?j = "qa_proposal_id ?a"
  from t(6) obtain g1 where g1: "execute_proposal_action_by_id ?j g = (Ok (), g1)"
      "mark_proposal_executed ev ?j (put_timelock ?t g1) = (Ok u, g')"
    by (auto simp: run_action_def Let_def and_then_Ok)
  obtain p where p: "sget (g_proposals g) ?j = Some p" "g_proposals g1 = g_proposals g"
    using proposal_action_Ok [OF g1(1)] by blast
  have "pr_id p = ?j" using proposals_okD(1) [OF _ p(1)] ok by (simp add: voting_ok_def)
  then have g': "g' = (put_timelock ?t g1)\<lparr>g_proposals := sset ?j (executed_proposal ev p) (g_proposals g)\<rparr>"
    using g1(2) p by (auto simp: mark_proposal_executed_def and_then_Ok get_proposal_Ok put_proposal_Ok put_timelock_def executed_proposal_def)
  have "n < length (tl_queued_actions t)" and id: "qa_id ?a = i" using find_index_Some [OF t(2)] by auto
  then have "find_index (\<lambda>x. qa_id x = i) (tl_queued_actions ?t) = Some n"
    using t(2) by (simp add: put_action_def find_index_update)
  moreover have "\<not> waiting (tl_queued_actions ?t ! n)" using \<open>n < _\<close> by (simp add: put_action_def waiting_def)
  ultimately have "execute_queued_action ev' i b g' = (Err InvalidCommitteeAction, g')" if "ev_auth ev' b" for ev' b
    using that by (simp add: g' execute_queued_action_def guard_def signed_def get_timelock_def find_action_def ok_or.simps put_timelock_def Let_def)
  moreover have "sget (g_proposals g') ?j = Some (executed_proposal ev p)" by (simp add: g')
  moreover have "pr_status (executed_proposal ev p) = Executed" "pr_voters (executed_proposal ev p) = pr_voters p"
    by (simp_all add: executed_proposal_def)
  ultimately show ?thesis using t p(1) by blast
qed

text \<open>
  (C22) Executing a treasury proposal debits the treasury and credits the recipient with governance tokens: the
  tokens in existence grow by the amount.
\<close>

theorem treasury_proposal_mints:
  assumes run: "execute_proposal ev i a g = (Ok st, g')" and p: "sget (g_proposals g) i = Some p"
    and ty: "pr_proposal_type p = TreasurySpending recipient amount x purpose" and wf: "books_wf (g_books g)"
  shows "issued (g_books g') = issued (g_books g) + amount \<and>
    balance_of (g_treasury_state g') x = balance_of (g_treasury_state g) x - amount \<and>
    sget_or 0 (bk_balances (g_books g')) recipient = sget_or 0 (bk_balances (g_books g)) recipient + amount"
proof -
  from run p obtain g1 where g1: "apply_action (TreasurySpending recipient amount x purpose) g = (Ok (), g1)"
      "put_proposal (executed_proposal ev p) g1 = (Ok (), g')"
    by (auto simp: execute_proposal_def execute_proposal_action_def guard_Ok and_then_Ok get_proposal_Ok ty split: if_splits)
  let ?t = "g_treasury_state g"
  from g1(1) obtain b where b: "add_balance recipient amount (g_books g) = (Ok (), b)"
      "g1 = g\<lparr>g_treasury_state := ?t\<lparr>tr_assets := (tr_assets ?t)(x \<mapsto> balance_of ?t x - amount)\<rparr>, g_books := b\<rparr>"
    by (auto simp: Let_def and_then_Ok gsub_Ok on_books_Ok split: if_splits)
  have g': "g_books g' = b" "g_treasury_state g' = g_treasury_state g1"
    using g1(2) b(2) by (auto simp: put_proposal_Ok)
  have "issued b = issued (g_books g) + amount" using balance_ops_books(1) [OF wf b(1)] by simp
  moreover have "sget_or 0 (bk_balances b) recipient = sget_or 0 (bk_balances (g_books g)) recipient + amount"
    using b(1) by (auto simp: balance_ops_Ok sget_or_def get_balance_def)
  ultimately show ?thesis by (simp add: g' b(2) balance_of_def)
qed

text \<open>
  (C20) The timelock looks only at its own entry, not at the status of the proposal: a treasury proposal that was
  executed directly is executed again through its queued action, and the treasury is debited twice.
\<close>

theorem executed_again_through_timelock:
  assumes first: "execute_proposal ev i a g = (Ok st, g1)" and p: "sget (g_proposals g) i = Some p"
    and ty: "pr_proposal_type p = TreasurySpending recipient amount x purpose"
    and tl: "g_timelock g = Some t" "find_index (\<lambda>q. qa_id q = k) (tl_queued_actions t) = Some n"
      "waiting (tl_queued_actions t ! n)" "qa_proposal_id (tl_queued_actions t ! n) = i"
    and later: "qa_execution_available (tl_queued_actions t ! n) \<le> ev_timestamp ev'" "ev_auth ev' b"
    and funds: "2 * amount \<le> balance_of (g_treasury_state g) x" "get_balance (g_books g) recipient + 2 * amount \<le> i128_max"
    and ok: "voting_ok g"
  shows "\<exists>q g2. sget (g_proposals g1) i = Some q \<and> pr_status q = Executed \<and> execute_queued_action ev' k b g1 = (Ok (), g2) \<and>
    balance_of (g_treasury_state g2) x = balance_of (g_treasury_state g) x - 2 * amount"
proof -
  have pid: "pr_id p = i" using proposals_okD(1) [OF _ p] ok by (simp add: voting_ok_def)
  from first p obtain h where h: "apply_action (TreasurySpending recipient amount x purpose) g = (Ok (), h)"
      "put_proposal (executed_proposal ev p) h = (Ok (), g1)"
    by (auto simp: execute_proposal_def execute_proposal_action_def guard_Ok and_then_Ok get_proposal_Ok ty split: if_splits)
  let ?t = "g_treasury_state g" and ?q = "executed_proposal ev p"
  from h(1) obtain c where c: "add_balance recipient amount (g_books g) = (Ok (), c)" "in_i128 (balance_of ?t x - amount)"
      "h = g\<lparr>g_treasury_state := ?t\<lparr>tr_assets := (tr_assets ?t)(x \<mapsto> balance_of ?t x - amount)\<rparr>, g_books := c\<rparr>"
    by (auto simp: Let_def and_then_Ok on_books_Ok split: if_splits)
  have g1: "g1 = h\<lparr>g_proposals := sset i ?q (g_proposals g)\<rparr>"
    using h(2) c(3) pid by (auto simp: put_proposal_Ok executed_proposal_def)
  have bal: "balance_of (g_treasury_state g1) x = balance_of ?t x - amount" "g_books g1 = c"
    by (simp_all add: g1 c(3) balance_of_def)
  have c': "0 < amount" "get_balance c recipient = get_balance (g_books g) recipient + amount"
      "in_i128 (get_balance (g_books g) recipient + amount)"
    using c(1) by (auto simp: balance_ops_Ok get_balance_def sget_or_def)
  then have "\<exists>d. add_balance recipient amount c = (Ok (), d)" using funds(2) by (auto simp: balance_ops_Ok in_i128_def)
  then obtain d where d: "add_balance recipient amount c = (Ok (), d)" by blast
  let ?t1 = "g_treasury_state g1"
  let ?g2 = "g1\<lparr>g_treasury_state := ?t1\<lparr>tr_assets := (tr_assets ?t1)(x \<mapsto> balance_of ?t x - 2 * amount)\<rparr>, g_books := d\<rparr>"
  have "in_i128 (balance_of ?t x - amount - amount)" using c(2) c'(1) funds(1) by (auto simp: in_i128_def i128_min_def)
  then have second: "apply_action (TreasurySpending recipient amount x purpose) g1 = (Ok (), ?g2)"
    using funds(1) c'(1) d by (simp add: Let_def bal gsub_def on_books_def checked_sub_def ok_or.simps)
  have q: "sget (g_proposals g1) i = Some ?q" "pr_proposal_type ?q = TreasurySpending recipient amount x purpose" "pr_id ?q = i"
    by (simp_all add: g1 executed_proposal_def ty pid)
  have run: "execute_proposal_action_by_id i g1 = (Ok (), ?g2)"
    using second q by (simp add: execute_proposal_action_by_id_def execute_proposal_action_def get_proposal_def ok_or.simps)
  let ?t' = "put_action n ((tl_queued_actions t ! n)\<lparr>qa_executed := True\<rparr>) t"
  have "g_timelock g1 = Some t" using tl(1) by (simp add: g1 c(3))
  then have "\<exists>g2. execute_queued_action ev' k b g1 = (Ok (), g2) \<and> g_treasury_state g2 = g_treasury_state ?g2"
    using tl later run q
    by (auto simp: execute_queued_action_def guard_def signed_def get_timelock_def find_action_def ok_or.simps Let_def not_less run_action_def
        mark_proposal_executed_def get_proposal_def put_timelock_def put_proposal_def executed_proposal_def)
  then show ?thesis using q by (auto simp: balance_of_def executed_proposal_def)
qed

section \<open>Finalisation\<close>




section \<open>Simulation\<close>

text \<open>
  The simulation reads what the execution changes: after a proposal was executed, the value it is about is
  the one the simulation before predicted (a contract upgrade, of which the simulation only says that
  something changes, excepted).
\<close>

theorem simulation_predicts_execution:
  assumes sim: "simulate_execution ev i g = Ok r" and run: "execute_proposal ev' i a g = (Ok st, g')"
    and p: "sget (g_proposals g) i = Some p" and ty: "classify_proposal_action (pr_proposal_type p) \<noteq> ActContractUpgrade"
    and ok: "voting_ok g"
  shows "es_would_succeed r \<and> es_old_value r = fst (projected_values g (pr_proposal_type p)) \<and>
    fst (projected_values g' (pr_proposal_type p)) = es_new_value r"
proof -
  have r: "es_would_succeed r \<longleftrightarrow> pr_status p = Succeeded" "es_old_value r = fst (projected_values g (pr_proposal_type p))"
      "es_new_value r = snd (projected_values g (pr_proposal_type p))"
    using sim p by (auto simp: simulate_execution_def res_then_Ok get_proposal_Ok)
  from run p obtain h where h: "pr_status p = Succeeded" "apply_action (pr_proposal_type p) g = (Ok (), h)"
      "put_proposal (executed_proposal ev' p) h = (Ok (), g')"
    by (auto simp: execute_proposal_def execute_proposal_action_def guard_Ok and_then_Ok get_proposal_Ok split: if_splits)
  have g': "g_parameters g' = g_parameters h" "g_features g' = g_features h" "g_treasury_state g' = g_treasury_state h"
    using h(3) by (auto simp: put_proposal_Ok)
  have "fst (projected_values g' (pr_proposal_type p)) = snd (projected_values g (pr_proposal_type p))"
  proof (cases "pr_proposal_type p")
    case (TreasurySpending recipient amount x purpose)
    then have "in_i128 (balance_of (g_treasury_state g) x - amount)"
        "g_treasury_state h = (g_treasury_state g)\<lparr>tr_assets := (tr_assets (g_treasury_state g))(x \<mapsto> balance_of (g_treasury_state g) x - amount)\<rparr>"
      using h(2) by (auto simp: Let_def and_then_Ok on_books_Ok split: if_splits)
    then show ?thesis using TreasurySpending
      by (simp add: g' balance_of_def saturating_sub_def sat_i128_def in_i128_def)
  qed (use h(2) ty in \<open>auto simp: g'\<close>)
  with r h(1) show ?thesis by simp
qed

section \<open>Reputation and quadratic voting\<close>

text \<open>
  A reputation-weighted vote on a quadratic proposal counts the raw power: its weight is at least the
  square of the weight the same account has in an ordinary vote.
\<close>

theorem reputation_vote_ignores_quadratic:
  assumes run: "cast_reputation_weighted_vote ev i a vt g = (Ok u, g')" and ok: "voting_ok g"
    and p: "sget (g_proposals g) i = Some p" "pr_use_quadratic_voting p" and plain: "voter_power g i p a = Ok w"
  shows "\<exists>q v. sget (g_proposals g') i = Some q \<and> sget (pr_voters q) a = Some v \<and> w * w \<le> vo_voting_power v"
proof -
  have oks: "proposals_ok g" "scores_ok g" using ok by (simp_all add: voting_ok_def)
  note pk = proposals_okD [OF oks(1) p(1)]
  from run p(1) obtain w' h where h: "reputation_weight ev g i a = Ok w'"
      "put_proposal (activate (tally_saturating vt w' (enter_vote ev a vt w' p))) g = (Ok (), h)" "record_vote ev a i vt h = (Ok u, g')"
    by (auto simp: cast_reputation_weighted_vote_def guard_Ok and_then_Ok get_proposal_Ok)
  then have "sget (g_proposals h) i = Some (voted ev a vt w' p)"
    using pk(1) by (auto simp: put_proposal_Ok voted_fields voted_def [symmetric])
  moreover have "g_proposals g' = g_proposals h"
    using h(3) by (auto simp: record_vote_def note_activity_def Let_def and_then_Ok)
  moreover have "sget (pr_voters (voted ev a vt w' p)) a =
      Some \<lparr>vo_voter = a, vo_vote_type = vt, vo_voting_power = w', vo_timestamp = ev_timestamp ev\<rparr>"
    by (simp add: voted_fields enter_vote_def)
  moreover have "w * w \<le> w'"
    using voter_power_Ok(4) [OF plain pk(3) p(2)] reputation_weight_Ok(1) [OF h(1) oks(2)] by linarith
  ultimately show ?thesis by auto
qed

section \<open>Widths\<close>

text \<open>
  (C34) The stored values fit their types: from a state without proposals on, after every history the tallies and
  the snapshotted powers of every proposal are non-negative 128-bit integers and every reputation
  score is at most 10000.
\<close>

theorem stored_values_fit:
  assumes "g_proposals g0 = []" "rs_reputations (g_reputation g0) = (\<lambda>_. None)" and "g = fold gov_step ops g0"
  shows "(\<forall>i p vt. sget (g_proposals g) i = Some p \<longrightarrow> 0 \<le> votes_of vt p \<and> in_i128 (votes_of vt p) \<and>
      (\<forall>a x. sget (g_snapshots g i) a = Some x \<longrightarrow> 0 < x \<and> in_i128 x)) \<and>
    (\<forall>u r. rs_reputations (g_reputation g) u = Some r \<longrightarrow> gr_reputation_score r \<le> MAX_REPUTATION)"
proof -
  have ok: "voting_ok g" unfolding assms(3) by (rule gov_votes.run_inv [OF unused_voting [OF assms(1,2)]])
  then have pok: "proposals_ok g" by (simp add: voting_ok_def)
  have "0 \<le> votes_of vt p \<and> in_i128 (votes_of vt p)" if "sget (g_proposals g) i = Some p" for i p vt
    using votes_nonneg [OF proposals_okD(2) [OF pok that], of vt] proposals_okD(2) [OF pok that]
    by (auto simp: proposal_ok_def in_i128_def i128_min_def)
  moreover have "0 < x \<and> in_i128 x" if "sget (g_proposals g) i = Some p" "sget (g_snapshots g i) a = Some x" for i p a x
    using proposals_okD(3) [OF pok that(1)] that(2) by (auto simp: snapshots_ok_def sall_def)
  ultimately show ?thesis using ok by (simp add: voting_ok_def scores_ok_def)
qed

section \<open>The spend window\<close>













section \<open>Witnesses\<close>

text \<open>A contract with a passed treasury proposal that is also queued in the timelock.\<close>

definition passed_proposal :: Proposal where
  "passed_proposal = (new_proposal (example_env 10) default_governance_config 1 3 (TreasurySpending 9 50 xlm ''pay'')
     ''t'' ''d'' [] CatGeneral True 0)\<lparr>pr_status := Succeeded\<rparr>"

definition queued_spend :: QueuedAction where
  "queued_spend = \<lparr>qa_id = 4, qa_action_type = ActTreasurySpend, qa_proposal_id = 1, qa_execution_payload = [],
     qa_queued_at = 604900, qa_execution_available = 777700, qa_executed = False, qa_cancelled = False\<rparr>"

definition passed_timelock :: Timelock where
  "passed_timelock = \<lparr>tl_queued_actions = [queued_spend], tl_delay_config = default_delays, tl_min_delay = 3600,
     tl_max_delay = 86400, tl_guardian = 2, tl_next_action_id = 5\<rparr>"

definition passed_town :: gov where
  "passed_town = example_town\<lparr>g_proposals := [(1, passed_proposal)], g_snapshots := (\<lambda>_. [(3, 200000), (5, 40000)]),
     g_treasury_state := empty_treasury\<lparr>tr_assets := [xlm \<mapsto> 1000]\<rparr>,
     g_timelock := Some passed_timelock\<rparr>"

lemma new_status_ok: "st \<noteq> Pending \<Longrightarrow> proposal_ok s i ((new_proposal ev c i a t ti d pl cat q x)\<lparr>pr_status := st\<rparr>)"
  by (rule proposal_ok_status [OF new_proposal_ok])

lemma passed_town_ok: "voting_ok passed_town"
proof -
  have "proposal_ok s 1 passed_proposal" for s unfolding passed_proposal_def by (rule new_status_ok) simp
  moreover have "snapshots_ok [(3, 200000), (5, 40000)]" by (simp add: snapshots_ok_def swf_def sall_def in_i128_def i128_min_def i128_max_def)
  ultimately show ?thesis
    by (simp add: voting_ok_def proposals_ok_def scores_ok_def swf_def passed_town_def example_town_def deployed_def)
qed

lemma passed_town_eq:
  "sget (g_proposals passed_town) 1 = Some passed_proposal" "pr_proposal_type passed_proposal = TreasurySpending 9 50 xlm ''pay''"
  "balance_of (g_treasury_state passed_town) xlm = 1000" "get_balance (g_books passed_town) 9 = 0" "books_wf (g_books passed_town)"
  by (simp_all add: passed_town_def passed_proposal_def example_town_def deployed_def new_proposal_def Let_def balance_of_def
      empty_treasury_def get_balance_def sget_or_def books_wf_def swf_def sall_def get_deposit_config_def DEFAULT_DEPOSIT_AMOUNT_def)

lemma passed_town_executed:
  "\<exists>g'. execute_proposal (example_env 800000) 1 8 passed_town = (Ok Executed, g')"
  by (simp add: passed_town_def passed_proposal_def example_town_def deployed_def execute_proposal_def execute_proposal_action_def
      executed_proposal_def add_balance_def balance_of_def empty_treasury_def ballot_eval proposal_eval)

lemma passed_town_queue:
  "g_timelock passed_town = Some passed_timelock" "find_index (\<lambda>q. qa_id q = 4) (tl_queued_actions passed_timelock) = Some 0"
  "waiting (tl_queued_actions passed_timelock ! 0)" "qa_proposal_id (tl_queued_actions passed_timelock ! 0) = 1"
  "qa_execution_available (tl_queued_actions passed_timelock ! 0) = 777700"
  by (simp_all add: passed_town_def passed_timelock_def queued_spend_def waiting_def)

theorem treasury_proposal_mints_witness:
  "issued (g_books (snd (execute_proposal (example_env 800000) 1 8 passed_town))) = issued (g_books passed_town) + 50"
proof -
  obtain g' where r: "execute_proposal (example_env 800000) 1 8 passed_town = (Ok Executed, g')" using passed_town_executed by blast
  from treasury_proposal_mints [OF r passed_town_eq(1,2,5)] show ?thesis unfolding r by simp
qed

theorem executed_again_through_timelock_witness:
  "\<exists>g1 g2. execute_proposal (example_env 800000) 1 8 passed_town = (Ok Executed, g1) \<and>
     execute_queued_action (example_env 800001) 4 8 g1 = (Ok (), g2) \<and> balance_of (g_treasury_state g2) xlm = 900"
proof -
  obtain g1 where r: "execute_proposal (example_env 800000) 1 8 passed_town = (Ok Executed, g1)" using passed_town_executed by blast
  have "\<exists>q g2. sget (g_proposals g1) 1 = Some q \<and> pr_status q = Executed \<and>
      execute_queued_action (example_env 800001) 4 8 g1 = (Ok (), g2) \<and>
      balance_of (g_treasury_state g2) xlm = balance_of (g_treasury_state passed_town) xlm - 2 * 50"
    by (rule executed_again_through_timelock [OF r passed_town_eq(1,2) passed_town_queue(1-4)])
      (simp_all add: passed_town_queue passed_town_eq passed_town_ok example_env_def i128_max_def)
  then show ?thesis using r passed_town_eq(3) by auto
qed

theorem simulation_predicts_execution_witness:
  "\<exists>r. simulate_execution (example_env 700000) 1 passed_town = Ok r \<and> es_new_value r = 950 \<and>
     fst (projected_values (snd (execute_proposal (example_env 800000) 1 8 passed_town)) (TreasurySpending 9 50 xlm ''pay'')) = 950"
proof -
  obtain g' where r: "execute_proposal (example_env 800000) 1 8 passed_town = (Ok Executed, g')" using passed_town_executed by blast
  have "require_initialized passed_town = Ok ()" by (simp add: passed_town_def example_town_def deployed_def proposal_eval)
  then obtain s where s: "simulate_execution (example_env 700000) 1 passed_town = Ok s" "es_new_value s = 950"
    using passed_town_eq(1,2,3)
    by (auto simp: simulate_execution_def get_proposal_def ok_or.simps saturating_sub_def sat_i128_def i128_min_def i128_max_def)
  have "classify_proposal_action (pr_proposal_type passed_proposal) \<noteq> ActContractUpgrade" by (simp add: passed_town_eq)
  from simulation_predicts_execution [OF s(1) r passed_town_eq(1) this passed_town_ok] s r show ?thesis
    by (simp add: passed_town_eq(2))
qed

theorem queued_action_runs_once_witness:
  "\<exists>g'. execute_queued_action (example_env 800001) 4 8 passed_town = (Ok (), g') \<and>
     execute_queued_action (example_env 900000) 4 8 g' = (Err InvalidCommitteeAction, g')"
proof -
  have "\<exists>g'. execute_queued_action (example_env 800001) 4 8 passed_town = (Ok (), g')"
    by (simp add: execute_queued_action_def run_action_def execute_proposal_action_by_id_def execute_proposal_action_def mark_proposal_executed_def
        executed_proposal_def find_action_def get_timelock_def put_timelock_def put_action_def waiting_def queued_spend_def passed_timelock_def
        passed_town_def passed_proposal_def example_town_def deployed_def add_balance_def balance_of_def empty_treasury_def ballot_eval proposal_eval)
  then obtain g' where g': "execute_queued_action (example_env 800001) 4 8 passed_town = (Ok (), g')" by blast
  from queued_action_runs_once [OF g' passed_town_ok] g' show ?thesis by (auto simp: example_env_def)
qed

text \<open>A contract with an open quadratic proposal.\<close>

definition open_town :: gov where
  "open_town = passed_town\<lparr>g_proposals := [(1, new_proposal (example_env 10) default_governance_config 1 3 (SignalProposal ''hi'')
     ''t'' ''d'' [] CatGeneral True 0)]\<rparr>"

lemma open_town_ok: "voting_ok open_town"
proof -
  have "snapshots_ok (g_snapshots passed_town i)" for i
    by (simp add: passed_town_def snapshots_ok_def swf_def sall_def in_i128_def i128_min_def i128_max_def)
  with passed_town_ok show ?thesis
    by (simp add: open_town_def voting_ok_def proposals_ok_def scores_ok_def swf_def new_proposal_ok)
qed

theorem reputation_vote_ignores_quadratic_witness:
  "\<exists>w g' q v. voter_power open_town 1 (snd (hd (g_proposals open_town))) 5 = Ok w \<and> 0 < w \<and>
     cast_reputation_weighted_vote (example_env 100) 1 5 Abstain open_town = (Ok (), g') \<and>
     sget (g_proposals g') 1 = Some q \<and> sget (pr_voters q) 5 = Some v \<and> w * w \<le> vo_voting_power v"
proof -
  let ?p = "snd (hd (g_proposals open_town))"
  have p: "sget (g_proposals open_town) 1 = Some ?p" "pr_use_quadratic_voting ?p" "pr_id ?p = 1"
    by (simp_all add: open_town_def new_proposal_def Let_def)
  have snap: "sget_or 0 (g_snapshots open_town 1) 5 = 40000" by (simp add: open_town_def passed_town_def sget_or_def)
  obtain r where r: "isqrt 40000 = Ok (int r)" "is_root (nat 40000) r"
    using isqrt_Ok [of 40000] by (auto simp: in_i128_def i128_min_def i128_max_def)
  then have "0 < r" by (cases r) (auto simp: is_root_def)
  then have w: "voter_power open_town 1 ?p 5 = Ok (int r)" using r(1) snap p(2) by (simp add: voter_power_def Let_def)
  have weight: "reputation_weight (example_env 100) open_town 1 5 = Ok 40000"
    using snap by (simp add: reputation_weight_def Let_def get_governance_reputation_def open_town_def passed_town_def
        example_town_def deployed_def u32_sat_add_def gov_eval)
  have opened: "require_voting_open (example_env 100) 5 ?p = Ok ()"
    by (simp add: open_town_def require_voting_open_def proposal_eval)
  let ?h = "open_town\<lparr>g_proposals := sset 1 (activate (tally_saturating Abstain 40000 (enter_vote (example_env 100) 5 Abstain 40000 ?p)))
     (g_proposals open_town)\<rparr>"
  have "rs_reputations (g_reputation ?h) 5 = None" by (simp add: open_town_def passed_town_def example_town_def deployed_def)
  then obtain s v where rec: "record_vote (example_env 100) 5 1 Abstain ?h = (Ok (), ?h\<lparr>g_reputation := s, g_vote_records := v\<rparr>)"
    using first_records(2) [of ?h 5 "example_env 100" 1 Abstain] by blast
  have "pr_id (activate (tally_saturating Abstain 40000 (enter_vote (example_env 100) 5 Abstain 40000 ?p))) = 1"
    using p(3) by (simp add: activate_def tally_saturating_def enter_vote_def)
  then have run: "cast_reputation_weighted_vote (example_env 100) 1 5 Abstain open_town = (Ok (), ?h\<lparr>g_reputation := s, g_vote_records := v\<rparr>)"
    using p(1) opened weight rec
    by (simp add: cast_reputation_weighted_vote_def guard_def signed_def get_proposal_def ok_or.simps put_proposal_def example_env_def)
  from reputation_vote_ignores_quadratic [OF run open_town_ok p(1,2) w] run w \<open>0 < r\<close> show ?thesis by fastforce
qed




theorem stored_values_fit_witness:
  "\<exists>p. sget (g_proposals (fold gov_step example_run example_town)) 1 = Some p \<and> in_i128 (votes_of For p) \<and> 0 \<le> votes_of For p"
  using stored_values_fit [OF example_town_unused refl, of example_run] by (simp add: example_voted(2))

end
