(* ===== verification/CouncilFrame.thy ===== *)
theory CouncilFrame
  imports GovVotes
begin

text \<open>
  The proposals, the timelock, the settings and the money of the governance contract leave the state of
  the committees and of the conviction pools alone; only the initialisation resets both. So an invariant
  of that state only has to be checked on the entry points of \<open>CouncilEntry\<close>.
\<close>

section \<open>Calls that keep a state\<close>

definition kept :: "CommitteesState \<times> ConvictionState \<Rightarrow> gov \<Rightarrow> bool" where
  "kept K g \<longleftrightarrow> (g_committees g, g_conviction g) = K"

lemma kept_frame [simp]:
  "kept K (g\<lparr>g_admin := x0\<rparr>) = kept K g" "kept K (g\<lparr>g_pending_admin := x1\<rparr>) = kept K g"
  "kept K (g\<lparr>g_guardian := x2\<rparr>) = kept K g" "kept K (g\<lparr>g_pause := x3\<rparr>) = kept K g"
  "kept K (g\<lparr>g_pause_targets := x4\<rparr>) = kept K g" "kept K (g\<lparr>g_authority := x5\<rparr>) = kept K g"
  "kept K (g\<lparr>g_enforce_timelock := x6\<rparr>) = kept K g" "kept K (g\<lparr>g_books := x7\<rparr>) = kept K g"
  "kept K (g\<lparr>g_treasury_state := x8\<rparr>) = kept K g" "kept K (g\<lparr>g_treasury_address := x9\<rparr>) = kept K g"
  "kept K (g\<lparr>g_config := x10\<rparr>) = kept K g" "kept K (g\<lparr>g_thresholds := x11\<rparr>) = kept K g"
  "kept K (g\<lparr>g_proposals := x12\<rparr>) = kept K g" "kept K (g\<lparr>g_proposal_ids := x13\<rparr>) = kept K g"
  "kept K (g\<lparr>g_next_proposal_id := x14\<rparr>) = kept K g" "kept K (g\<lparr>g_snapshots := x15\<rparr>) = kept K g"
  "kept K (g\<lparr>g_delegations := x16\<rparr>) = kept K g" "kept K (g\<lparr>g_delegators := x17\<rparr>) = kept K g"
  "kept K (g\<lparr>g_expiry := x18\<rparr>) = kept K g" "kept K (g\<lparr>g_timelock := x19\<rparr>) = kept K g"
  "kept K (g\<lparr>g_admin_pending := x20\<rparr>) = kept K g" "kept K (g\<lparr>g_window_config := x21\<rparr>) = kept K g"
  "kept K (g\<lparr>g_window_state := x22\<rparr>) = kept K g" "kept K (g\<lparr>g_parameters := x23\<rparr>) = kept K g"
  "kept K (g\<lparr>g_features := x24\<rparr>) = kept K g" "kept K (g\<lparr>g_upgrades := x25\<rparr>) = kept K g"
  "kept K (g\<lparr>g_reputation := x26\<rparr>) = kept K g" "kept K (g\<lparr>g_reputation_config := x27\<rparr>) = kept K g"
  "kept K (g\<lparr>g_vote_records := x28\<rparr>) = kept K g" "kept K (g\<lparr>g_shadow := x29\<rparr>) = kept K g"
  "kept K (g\<lparr>g_storage_version := x30\<rparr>) = kept K g" "kept K (g\<lparr>g_migrating := x31\<rparr>) = kept K g"
  "kept K (g\<lparr>g_calibration := x32\<rparr>) = kept K g"
  by (simp_all add: kept_def)

lemmas kept_keep =
  keep_and_then [of "kept K" for K] keep_guard [of "kept K" for K] keep_dropping [of "kept K" for K] keep_commit [of "kept K" for K]

lemma execute_admin_action_kept: "kept K g \<Longrightarrow> kept K (snd (execute_admin_action ev i a g))"
  by (auto simp: execute_admin_action_def put_entry_def Let_def intro!: kept_keep)

lemma money_call_kept: "kept K g \<Longrightarrow> kept K (money_call ev p g)"
  by (cases p)
    (auto simp: money_defs wrapper_defs Let_def intro!: kept_keep execute_admin_action_kept split: option.splits)

lemma setting_call_kept:
  assumes "\<nexists>a n s d x r. p = Initialize a n s d x r" "kept K g"
  shows "kept K (setting_call ev p g)"
proof (cases p)
  case (Initialize a n s d x r)
  with assms(1) show ?thesis by blast
qed (use assms(2) in \<open>auto simp: gov_setting_defs wrapper_defs Let_def intro!: kept_keep execute_admin_action_kept\<close>)

lemma initialize_kept:
  assumes "kept K g"
  shows "kept K (snd (commit g (initialize ev a n s d x r g))) \<or>
    kept (empty_committees_state, empty_conviction_state) (snd (commit g (initialize ev a n s d x r g)))"
proof (cases "initialize ev a n s d x r g")
  case (Pair v g')
  show ?thesis
  proof (cases v)
    case (Ok u)
    with Pair have "initialize ev a n s d x r g = (Ok (), g')" by simp
    then have "kept (empty_committees_state, empty_conviction_state) g'"
      by (auto simp: initialize_def guard_Ok and_then_Ok on_books_Ok reset_storage_def Let_def kept_def split: if_splits)
    with Pair Ok show ?thesis by simp
  qed (use Pair assms in simp_all)
qed

section \<open>Reputation and proposals\<close>

lemma note_activity_kept: "kept K g \<Longrightarrow> kept K (snd (note_activity ev u f g))"
  unfolding note_activity_def Let_def by (intro kept_keep) auto

lemma record_kept:
  assumes "kept K g"
  shows "kept K (snd (record_proposal_creation ev u g))" "kept K (snd (record_vote ev u i vt g))"
    "kept K (snd (refresh_stale_reputation ev u g))" "kept K (snd (record_proposal_outcome ev i g))"
  using assms unfolding record_proposal_creation_def record_vote_def refresh_stale_reputation_def record_proposal_outcome_def Let_def
  by (auto intro!: kept_keep note_activity_kept)

lemma create_proposal_kept: "kept K g \<Longrightarrow> kept K (snd (create_proposal ev a t ti d pl cat q g))"
  unfolding create_proposal_def by (intro kept_keep) (auto simp: Let_def intro!: kept_keep)

lemma put_proposal_kept [simp]: "kept K (snd (put_proposal q g)) = kept K g"
  by (simp add: put_proposal_def)

lemma apply_action_kept [simp]: "kept K (snd (apply_action t g)) = kept K g"
  by (cases t) (auto simp: Let_def intro!: keep_and_then [of "\<lambda>h. kept K h = kept K g"])

lemma execute_action_kept: "kept K g \<Longrightarrow> kept K (snd (execute_proposal_action_by_id i g))"
  unfolding execute_proposal_action_by_id_def execute_proposal_action_def by (intro kept_keep) simp_all

lemma mark_executed_kept: "kept K g \<Longrightarrow> kept K (snd (mark_proposal_executed ev i g))"
  unfolding mark_proposal_executed_def by (intro kept_keep) auto

lemma execute_proposal_kept: "kept K g \<Longrightarrow> kept K (snd (execute_proposal ev i a g))"
  unfolding execute_proposal_def execute_proposal_action_def by (intro kept_keep) (auto intro!: kept_keep)

lemma finalize_proposal_kept: "kept K g \<Longrightarrow> kept K (snd (finalize_proposal ev i g))"
  unfolding finalize_proposal_def
  by (intro kept_keep) (auto simp: Let_def split_beta intro!: kept_keep execute_proposal_kept)

lemma close_proposal_kept:
  "kept K g \<Longrightarrow> kept K (snd (cancel_proposal ev i a g))" "kept K g \<Longrightarrow> kept K (snd (withdraw_proposal ev i a g))"
  "kept K g \<Longrightarrow> kept K (snd (reclaim_expired_proposal ev i a g))"
  unfolding cancel_proposal_def withdraw_proposal_def refund_withdrawn_def reclaim_expired_proposal_def
  by (auto simp: Let_def intro!: kept_keep)

lemma cleanup_kept: "kept K g \<Longrightarrow> kept K (snd (cleanup_terminal_proposals ev c l g))"
  unfolding cleanup_terminal_proposals_def by (auto intro!: kept_keep)

lemma delegation_kept:
  assumes "kept K g"
  shows "kept K (snd (delegate_voting_power ev a b g))" "kept K (snd (renew ev a e g))"
    "kept K (snd (undelegate_voting_power ev a g))" "kept K (snd (delegate_until ev a b e g))"
proof -
  have d: "kept K h \<Longrightarrow> kept K (snd (delegate_voting_power ev a b h))" for h
    by (auto simp: delegate_voting_power_def Let_def clear_expiry_def intro!: kept_keep)
  have s: "kept K h \<Longrightarrow> kept K (snd (set_expiry ev a e h))" for h by (simp add: set_expiry_def)
  show "kept K (snd (delegate_voting_power ev a b g))" using assms d by blast
  show "kept K (snd (renew ev a e g))" using assms by (auto simp: renew_def intro!: kept_keep s)
  show "kept K (snd (undelegate_voting_power ev a g))"
    using assms by (auto simp: undelegate_voting_power_def Let_def clear_expiry_def intro!: kept_keep)
  show "kept K (snd (delegate_until ev a b e g))" using assms by (auto simp: delegate_until_def intro!: kept_keep d s)
qed

lemma cleanup_delegations_kept: "kept K g \<Longrightarrow> kept K (snd (cleanup_expired ev s l g))"
proof -
  have one: "kept K (snd x) \<Longrightarrow> kept K (snd (expire_delegation ev a x))" for a x
    by (cases x) (auto simp: expire_delegation_def clear_expiry_def split: option.splits)
  have "kept K (snd x) \<Longrightarrow> kept K (snd (fold (expire_delegation ev) as x))" for as x
  proof (induction as arbitrary: x)
    case (Cons a as)
    show ?case using Cons.IH [OF one [OF Cons.prems]] by simp
  qed simp
  from this [of "(0, g)"] show "kept K g \<Longrightarrow> kept K (snd (cleanup_expired ev s l g))"
    by (auto simp: cleanup_expired_def Let_def split_beta)
qed

lemma vote_kept:
  "kept K g \<Longrightarrow> kept K (snd (cast_vote ev i a vt g))"
  "kept K g \<Longrightarrow> kept K (snd (cast_reputation_weighted_vote ev i a vt g))"
  unfolding cast_vote_def cast_reputation_weighted_vote_def by (auto intro!: kept_keep record_kept)

lemma settle_deposit_kept: "kept K g \<Longrightarrow> kept K (snd (settle_deposit i g))"
  by (auto simp: settle_deposit_def Let_def intro!: kept_keep split: option.splits)

lemma proposal_call_kept: "kept K g \<Longrightarrow> kept K (proposal_call ev p g)"
  by (cases p)
    (auto simp: create_proposal_entry_def cast_vote_entry_def cast_reputation_weighted_vote_entry_def finalize_proposal_entry_def
      execute_proposal_entry_def cleanup_proposals_def cancel_proposal_entry_def reclaim_expired_proposal_entry_def
      withdraw_proposal_entry_def delegate_voting_power_entry_def delegate_voting_power_until_def renew_delegation_def
      undelegate_voting_power_entry_def refresh_reputation_def wrapper_defs
      intro!: kept_keep create_proposal_kept vote_kept finalize_proposal_kept record_kept
        settle_deposit_kept execute_proposal_kept cleanup_kept close_proposal_kept delegation_kept cleanup_delegations_kept)

section \<open>The timelock\<close>

lemma run_action_kept: "kept K g \<Longrightarrow> kept K (snd (run_action ev t n g))"
  unfolding run_action_def Let_def put_timelock_def
  by (auto intro!: kept_keep execute_action_kept mark_executed_kept)

lemma execute_queued_kept: "kept K g \<Longrightarrow> kept K (snd (execute_queued_action ev i a g))"
  unfolding execute_queued_action_def Let_def by (auto intro!: kept_keep run_action_kept)

lemma execute_actions_kept: "kept K g \<Longrightarrow> kept K (snd (execute_actions ev a ids g))"
proof (induction ids arbitrary: g)
  case (Cons i ids)
  obtain r h where r: "execute_queued_action ev i a g = (r, h)" by fastforce
  then have h: "kept K h" using execute_queued_kept [OF Cons.prems, of ev i a] by simp
  with Cons.IH show ?case by (cases r) (auto simp: r intro!: kept_keep)
qed simp

lemma queue_admin_action_kept: "kept K g \<Longrightarrow> kept K (snd (queue_admin_action ev a s g))"
  unfolding queue_admin_action_def Let_def put_timelock_def by (auto intro!: kept_keep)

lemma timelock_call_kept: "kept K g \<Longrightarrow> kept K (timelock_call ev p g)"
  by (cases p)
    (auto simp: timelock_defs wrapper_defs Let_def
      intro!: kept_keep execute_admin_action_kept queue_admin_action_kept execute_queued_kept execute_actions_kept run_action_kept)

section \<open>Committees and pools do not touch each other\<close>

definition pools_same :: "ConvictionState \<Rightarrow> gov \<Rightarrow> bool" where
  "pools_same K g \<longleftrightarrow> g_conviction g = K"

lemma pools_same_frame [simp]:
  "pools_same K (g\<lparr>g_committees := x0\<rparr>) = pools_same K g"
  "pools_same K (g\<lparr>g_calibration := x1\<rparr>) = pools_same K g"
  "pools_same K (g\<lparr>g_books := x2\<rparr>) = pools_same K g"
  "pools_same K (g\<lparr>g_treasury_state := x3\<rparr>) = pools_same K g"
  "pools_same K (g\<lparr>g_timelock := x4\<rparr>) = pools_same K g"
  "pools_same K (g\<lparr>g_admin_pending := x5\<rparr>) = pools_same K g"
  by (simp_all add: pools_same_def)

lemmas pools_same_keep =
  keep_and_then [of "pools_same K" for K] keep_guard [of "pools_same K" for K] keep_commit [of "pools_same K" for K]

lemma execute_decision_action_pools: "pools_same K g \<Longrightarrow> pools_same K (snd (execute_decision_action a now g))"
  by (cases a) (auto simp: committee_spend_def intro!: pools_same_keep)

lemma execute_admin_action_pools: "pools_same K g \<Longrightarrow> pools_same K (snd (execute_admin_action ev i a g))"
  by (auto simp: execute_admin_action_def put_entry_def Let_def intro!: pools_same_keep)

lemma committee_call_pools: "pools_same K g \<Longrightarrow> pools_same K (committee_call ev p g)"
  by (cases p)
    (auto simp: committee_entry_defs committee_defs wrapper_defs Let_def
      intro!: pools_same_keep execute_admin_action_pools execute_decision_action_pools split: option.splits)

definition councils_same :: "CommitteesState \<Rightarrow> gov \<Rightarrow> bool" where
  "councils_same K g \<longleftrightarrow> g_committees g = K"

lemma councils_same_frame [simp]:
  "councils_same K (g\<lparr>g_conviction := x0\<rparr>) = councils_same K g"
  "councils_same K (g\<lparr>g_calibration := x1\<rparr>) = councils_same K g"
  "councils_same K (g\<lparr>g_books := x2\<rparr>) = councils_same K g"
  "councils_same K (g\<lparr>g_treasury_state := x3\<rparr>) = councils_same K g"
  "councils_same K (g\<lparr>g_timelock := x4\<rparr>) = councils_same K g"
  "councils_same K (g\<lparr>g_admin_pending := x5\<rparr>) = councils_same K g"
  by (simp_all add: councils_same_def)

lemmas councils_same_keep =
  keep_and_then [of "councils_same K" for K] keep_guard [of "councils_same K" for K] keep_commit [of "councils_same K" for K]

lemma conviction_call_councils: "councils_same K g \<Longrightarrow> councils_same K (conviction_call ev p g)"
  by (cases p)
    (auto simp: conviction_entry_defs conviction_defs wrapper_defs Let_def intro!: councils_same_keep split: option.splits prod.splits)

lemma committee_call_conviction [simp]: "g_conviction (committee_call ev p g) = g_conviction g"
  using committee_call_pools [of "g_conviction g" g ev p] by (simp add: pools_same_def)

lemma conviction_call_committees [simp]: "g_committees (conviction_call ev p g) = g_committees g"
  using conviction_call_councils [of "g_committees g" g ev p] by (simp add: councils_same_def)

section \<open>Invariants of the councils\<close>

text \<open>
  What it takes for a property of the committees and the pools to hold along every history: it says
  nothing of the rest of the storage, it holds of the empty state, and the entry points of \<open>CouncilEntry\<close>
  keep it.
\<close>

locale council_invariant =
  fixes inv :: "gov \<Rightarrow> bool"
  assumes local_inv: "g_committees g' = g_committees g \<Longrightarrow> g_conviction g' = g_conviction g \<Longrightarrow> inv g \<Longrightarrow> inv g'"
    and empty_inv: "g_committees g = empty_committees_state \<Longrightarrow> g_conviction g = empty_conviction_state \<Longrightarrow> inv g"
    and committee_inv: "inv g \<Longrightarrow> inv (committee_call ev c g)"
    and conviction_inv: "inv g \<Longrightarrow> inv (conviction_call ev v g)"
begin

lemma kept_inv: "kept (g_committees g, g_conviction g) g' \<Longrightarrow> inv g \<Longrightarrow> inv g'"
  by (rule local_inv) (simp_all add: kept_def)

lemma gov_step_inv:
  assumes "inv g"
  shows "inv (gov_step o1 g)"
proof -
  obtain ev c where o1: "o1 = (ev, c)" by fastforce
  have kept: "kept (g_committees g, g_conviction g) g" by (simp add: kept_def)
  show ?thesis
  proof (cases c)
    case (OnSettings p)
    show ?thesis
    proof (cases "\<exists>a n s d x r. p = Initialize a n s d x r")
      case True
      then obtain a n s d x r where p: "p = Initialize a n s d x r" by blast
      from initialize_kept [OF kept, of ev a n s d x r] show ?thesis
        using kept_inv [OF _ assms] empty_inv by (auto simp: o1 OnSettings p kept_def)
    next
      case False
      then show ?thesis by (auto simp: o1 OnSettings intro!: kept_inv [OF _ assms] setting_call_kept kept)
    qed
  qed (auto simp: o1 assms intro: committee_inv conviction_inv kept_inv [OF _ assms]
      proposal_call_kept [OF kept] timelock_call_kept [OF kept] money_call_kept [OF kept])
qed

lemma gov_run_inv: "inv g \<Longrightarrow> inv (fold gov_step ops g)"
  by (induction ops arbitrary: g) (auto intro: gov_step_inv)

end

end
