(* ===== verification/ConvictionMath.thy ===== *)
theory ConvictionMath
  imports Conviction
begin

text \<open>
  The arithmetic of conviction voting: the fixed-point power never saturates and never exceeds the exact
  power, and the conviction of a vote always exists, is never negative and stays below the undecayed
  value with its bonus.
\<close>

section \<open>Fixed-point powers\<close>

lemma saturating_mul_exact: "in_i128 (a * b) \<Longrightarrow> saturating_mul a b = a * b"
  by (simp add: saturating_mul_def sat_i128_id)

lemma scale_square: "0 \<le> a \<Longrightarrow> a \<le> DECAY_SCALE \<Longrightarrow> 0 \<le> b \<Longrightarrow> b \<le> DECAY_SCALE \<Longrightarrow> in_i128 (a * b)"
proof -
  assume ab: "0 \<le> a" "a \<le> DECAY_SCALE" "0 \<le> b" "b \<le> DECAY_SCALE"
  then have "0 \<le> a * b" "a * b \<le> DECAY_SCALE * DECAY_SCALE" by (auto intro: mult_mono)
  then show ?thesis by (simp add: in_i128_def i128_min_def i128_max_def DECAY_SCALE_def)
qed

definition scaled :: "int \<Rightarrow> int \<Rightarrow> int" where
  "scaled a b = tdiv (saturating_mul a b) DECAY_SCALE"

lemma scaled_bounds:
  assumes "0 \<le> a" "a \<le> DECAY_SCALE" "0 \<le> b" "b \<le> DECAY_SCALE"
  shows "0 \<le> scaled a b" "scaled a b \<le> DECAY_SCALE" "scaled a b * DECAY_SCALE \<le> a * b"
proof -
  have s: "0 < DECAY_SCALE" by (simp add: DECAY_SCALE_def)
  have ab: "0 \<le> a * b" "a * b \<le> DECAY_SCALE * DECAY_SCALE" using assms by (auto intro: mult_mono)
  have eq: "scaled a b = a * b div DECAY_SCALE"
    using ab s by (simp add: scaled_def saturating_mul_exact [OF scale_square [OF assms]] tdiv_nonneg)
  show "0 \<le> scaled a b" using ab(1) s by (simp add: eq pos_imp_zdiv_nonneg_iff)
  have "a * b div DECAY_SCALE \<le> DECAY_SCALE * DECAY_SCALE div DECAY_SCALE" by (rule zdiv_mono1 [OF ab(2) s])
  with s show "scaled a b \<le> DECAY_SCALE" by (simp add: eq)
  have "a * b = a * b div DECAY_SCALE * DECAY_SCALE + a * b mod DECAY_SCALE" by simp
  moreover have "0 \<le> a * b mod DECAY_SCALE" using s by simp
  ultimately show "scaled a b * DECAY_SCALE \<le> a * b" unfolding eq by linarith
qed

lemma pow_loop_scaled:
  "pow_loop b e DECAY_SCALE r =
     (if e = 0 then r else pow_loop (scaled b b) (e div 2) DECAY_SCALE (if e mod 2 = 1 then scaled r b else r))"
  by (subst pow_loop.simps) (simp add: scaled_def)

lemma square_scaled_power:
  assumes "0 \<le> b" "b \<le> DECAY_SCALE"
  shows "scaled b b ^ k * DECAY_SCALE ^ k \<le> b ^ (2 * k)"
proof -
  have "(scaled b b * DECAY_SCALE) ^ k \<le> (b * b) ^ k"
    using scaled_bounds [OF assms assms] by (intro power_mono) (auto simp: DECAY_SCALE_def)
  then show ?thesis by (simp add: power_mult_distrib power_mult power2_eq_square)
qed

lemma pow_loop_bounds:
  assumes "0 \<le> b" "b \<le> DECAY_SCALE" "0 \<le> r" "r \<le> DECAY_SCALE"
  shows "0 \<le> pow_loop b e DECAY_SCALE r \<and> pow_loop b e DECAY_SCALE r \<le> DECAY_SCALE \<and>
    pow_loop b e DECAY_SCALE r * DECAY_SCALE ^ e \<le> r * b ^ e"
  using assms
proof (induction e arbitrary: b r rule: less_induct)
  case (less e)
  show ?case
  proof (cases "e = 0")
    case True
    with less.prems show ?thesis by (subst (1 2 3) pow_loop_scaled) simp
  next
    case False
    define k where "k = e div 2"
    define q where "q = (if e mod 2 = 1 then scaled r b else r)"
    note bb = scaled_bounds [OF less.prems(1,2) less.prems(1,2)] and rb = scaled_bounds [OF less.prems(3,4) less.prems(1,2)]
    have q: "0 \<le> q" "q \<le> DECAY_SCALE" using rb less.prems by (auto simp: q_def)
    have "k < e" using False by (simp add: k_def)
    from less.IH [OF this bb(1,2) q] have ih: "0 \<le> pow_loop (scaled b b) k DECAY_SCALE q"
      "pow_loop (scaled b b) k DECAY_SCALE q \<le> DECAY_SCALE"
      "pow_loop (scaled b b) k DECAY_SCALE q * DECAY_SCALE ^ k \<le> q * scaled b b ^ k" by blast+
    have eq: "pow_loop b e DECAY_SCALE r = pow_loop (scaled b b) k DECAY_SCALE q"
      using False by (subst pow_loop_scaled) (simp add: k_def q_def)
    have s: "0 \<le> DECAY_SCALE ^ n" for n by (simp add: DECAY_SCALE_def)
    have "pow_loop (scaled b b) k DECAY_SCALE q * DECAY_SCALE ^ k * DECAY_SCALE ^ k \<le> q * scaled b b ^ k * DECAY_SCALE ^ k"
      by (rule mult_right_mono [OF ih(3) s])
    also have "\<dots> = q * (scaled b b ^ k * DECAY_SCALE ^ k)" by simp
    also have "\<dots> \<le> q * b ^ (2 * k)" by (rule mult_left_mono [OF square_scaled_power [OF less.prems(1,2)] q(1)])
    finally have even: "pow_loop (scaled b b) k DECAY_SCALE q * DECAY_SCALE ^ (2 * k) \<le> q * b ^ (2 * k)"
      by (simp add: mult_2 power_add mult.assoc)
    have "pow_loop (scaled b b) k DECAY_SCALE q * DECAY_SCALE ^ e \<le> r * b ^ e"
    proof (cases "e mod 2 = 1")
      case True
      then have e: "e = 2 * k + 1" by (simp add: k_def) presburger
      have "pow_loop (scaled b b) k DECAY_SCALE q * DECAY_SCALE ^ (2 * k) * DECAY_SCALE \<le> q * b ^ (2 * k) * DECAY_SCALE"
        by (rule mult_right_mono [OF even]) (simp add: DECAY_SCALE_def)
      also have "\<dots> = scaled r b * DECAY_SCALE * b ^ (2 * k)" using True by (simp add: q_def)
      also have "\<dots> \<le> r * b * b ^ (2 * k)" by (rule mult_right_mono [OF rb(3)]) (use less.prems in simp)
      finally show ?thesis by (simp add: e power_add mult.assoc mult.commute mult.left_commute)
    next
      case False
      then have "e = 2 * k" by (simp add: k_def) presburger
      with even False show ?thesis by (simp add: q_def)
    qed
    with ih eq show ?thesis by simp
  qed
qed

text \<open>
  The decay multiplier is a ratio between 0 and 1 and at most the exact power of the daily factor, for
  every number of days: no product of the loop saturates.
\<close>

theorem decay_power_bounded:
  assumes "0 \<le> b" "b \<le> DECAY_SCALE"
  shows "0 \<le> pow_fixed_point b e DECAY_SCALE \<and> pow_fixed_point b e DECAY_SCALE \<le> DECAY_SCALE \<and>
    pow_fixed_point b e DECAY_SCALE * DECAY_SCALE ^ e \<le> DECAY_SCALE * b ^ e"
  unfolding pow_fixed_point_def by (rule pow_loop_bounds [OF assms]) (simp_all add: DECAY_SCALE_def)

theorem decay_power_bounded_witness:
  "pow_fixed_point 950000000000 30 DECAY_SCALE * DECAY_SCALE ^ 30 \<le> DECAY_SCALE * 950000000000 ^ 30"
  using decay_power_bounded [of 950000000000 30] by (simp add: DECAY_SCALE_def)

section \<open>Conviction of a vote\<close>

lemma saturating_mul_le: "0 \<le> a * b \<Longrightarrow> 0 \<le> saturating_mul a b \<and> saturating_mul a b \<le> a * b"
  by (auto simp: saturating_mul_def sat_i128_def i128_min_def i128_max_def)

lemma decayed_bounds:
  assumes "0 \<le> x"
  shows "0 \<le> decayed x d c \<and> decayed x d c \<le> x"
proof (cases "decay_rate_valid (cc_decay_rate_bps c)")
  case True
  define b where "b = tdiv (saturating_mul (1000 - int (cc_decay_rate_bps c)) DECAY_SCALE) 1000"
  have r: "0 \<le> 1000 - int (cc_decay_rate_bps c)" "1000 - int (cc_decay_rate_bps c) \<le> 1000"
    using True by (auto simp: decay_rate_valid_def MIN_DECAY_RATE_def MAX_DECAY_RATE_def)
  then have m: "in_i128 ((1000 - int (cc_decay_rate_bps c)) * DECAY_SCALE)"
    by (simp add: in_i128_def i128_min_def i128_max_def DECAY_SCALE_def)
  have "b = (1000 - int (cc_decay_rate_bps c)) * DECAY_SCALE div 1000"
    unfolding b_def saturating_mul_exact [OF m] by (rule tdiv_nonneg) (use r in \<open>simp_all add: DECAY_SCALE_def\<close>)
  with r have b: "0 \<le> b" "b \<le> DECAY_SCALE" by (auto simp: DECAY_SCALE_def)
  define p where "p = pow_fixed_point b (as_u32 d) DECAY_SCALE"
  have p: "0 \<le> p" "p \<le> DECAY_SCALE" using decay_power_bounded [OF b, of "as_u32 d"] by (simp_all add: p_def)
  have xp: "0 \<le> saturating_mul x p" "saturating_mul x p \<le> x * DECAY_SCALE"
    using saturating_mul_le [of x p] mult_left_mono [OF p(2) assms] assms p(1) by auto
  have eq: "decayed x d c = saturating_mul x p div DECAY_SCALE"
    using True xp(1) by (simp add: decayed_def Let_def tdiv_nonneg p_def b_def DECAY_SCALE_def)
  have "saturating_mul x p div DECAY_SCALE \<le> x * DECAY_SCALE div DECAY_SCALE"
    by (rule zdiv_mono1 [OF xp(2)]) (simp add: DECAY_SCALE_def)
  with xp(1) show ?thesis by (simp add: eq pos_imp_zdiv_nonneg_iff DECAY_SCALE_def)
qed (use assms in \<open>simp add: decayed_def\<close>)

lemma penalised_bounds:
  assumes "0 \<le> x"
  shows "0 \<le> penalised x d c \<and> penalised x d c \<le> x"
proof -
  have "0 \<le> saturating_sub x (x div m) \<and> saturating_sub x (x div m) \<le> x" if "1 < m" for m :: int
  proof -
    have "0 \<le> x div m" "x div m \<le> x" using that assms zdiv_mono2 [of x 1 m] by (auto simp: pos_imp_zdiv_nonneg_iff)
    then show ?thesis by (simp add: saturating_sub_def sat_i128_def i128_min_def i128_max_def)
  qed
  then show ?thesis using assms by (simp add: penalised_def tdiv_nonneg)
qed

lemma rewarded_bounds:
  assumes "0 \<le> x"
  shows "0 \<le> rewarded x d c \<and> rewarded x d c \<le> x * (100 + int (cc_reward_bonus_pct c)) div 100"
proof -
  define k where "k = int (cc_reward_bonus_pct c)"
  have k: "0 \<le> x * k div 100" using assms by (simp add: k_def pos_imp_zdiv_nonneg_iff)
  have sum: "x * (100 + k) div 100 = x + x * k div 100"
  proof -
    have "x * (100 + k) = x * k + x * 100" by (simp add: algebra_simps)
    then show ?thesis by simp
  qed
  have bonus: "tdiv (case gmul x k of Ok y \<Rightarrow> y | _ \<Rightarrow> 0) 100 \<in> {0, x * k div 100}"
    using assms by (auto simp: gmul_def checked_mul_def ok_or.simps tdiv_nonneg k_def)
  have "0 \<le> saturating_add x y \<and> saturating_add x y \<le> x + x * k div 100" if "y \<in> {0, x * k div 100}" for y
    using that assms k by (auto simp: saturating_add_def sat_i128_def i128_min_def i128_max_def)
  with bonus k assms sum show ?thesis by (auto simp: rewarded_def k_def)
qed

lemma capped_bounds: "0 \<le> x \<Longrightarrow> 0 \<le> capped x c \<and> capped x c \<le> x \<and> (0 < cc_max_conviction_cap c \<longrightarrow> capped x c \<le> cc_max_conviction_cap c)"
  by (auto simp: capped_def)

text \<open>
  (C29) The conviction of a vote exists for every time elapsed, is never negative, respects the configured cap
  and is at most tokens times the whole square root of the days, a thousandth of it, with the bonus.
\<close>

theorem conviction_bounded:
  assumes "0 \<le> tokens" "elapsed \<le> u64_max"
  shows "\<exists>x s. calculate_conviction tokens elapsed c = Ok x \<and> is_root (elapsed div 86400) s \<and> 0 \<le> x \<and>
    x \<le> tokens * int s div 1000 * (100 + int (cc_reward_bonus_pct c)) div 100 \<and>
    (0 < cc_max_conviction_cap c \<longrightarrow> x \<le> cc_max_conviction_cap c)"
proof (cases "elapsed div 86400 = 0")
  case True
  then have "calculate_conviction tokens elapsed c = Ok 0" "is_root (elapsed div 86400) 0"
    by (simp_all add: calculate_conviction_def is_root_def)
  then show ?thesis by (intro exI [of _ 0]) auto
next
  case False
  define d where "d = elapsed div 86400"
  have "d \<le> elapsed" by (simp add: d_def)
  then have fits: "in_i128 (int d)" "0 < int d"
    using assms(2) False by (auto simp: in_i128_def i128_min_def i128_max_def u64_max_def d_def)
  from isqrt_Ok [OF fits] obtain s where s: "isqrt (int d) = Ok (int s)" "is_root d s" by auto
  define x0 where "x0 = tdiv (saturating_mul tokens (int s)) 1000"
  have m: "0 \<le> saturating_mul tokens (int s)" "saturating_mul tokens (int s) \<le> tokens * int s"
    using saturating_mul_le [of tokens "int s"] assms(1) by auto
  then have x0: "0 \<le> x0" "x0 \<le> tokens * int s div 1000"
    by (simp_all add: x0_def tdiv_nonneg zdiv_mono1)
  define x1 where "x1 = penalised (decayed x0 d c) d c"
  have x1: "0 \<le> x1" "x1 \<le> x0"
    using decayed_bounds [OF x0(1), of d c] penalised_bounds [of "decayed x0 d c" d c] by (auto simp: x1_def)
  define x2 where "x2 = rewarded x1 d c"
  have r: "0 \<le> x2" "x2 \<le> x1 * (100 + int (cc_reward_bonus_pct c)) div 100"
    using rewarded_bounds [OF x1(1), of d c] by (auto simp: x2_def)
  have "x1 * (100 + int (cc_reward_bonus_pct c)) div 100 \<le> tokens * int s div 1000 * (100 + int (cc_reward_bonus_pct c)) div 100"
    using x0 x1 by (intro zdiv_mono1 mult_right_mono) auto
  with r(2) have x2: "x2 \<le> tokens * int s div 1000 * (100 + int (cc_reward_bonus_pct c)) div 100" by linarith
  have eq: "calculate_conviction tokens elapsed c = Ok (capped x2 c)"
    using False s(1) by (simp add: calculate_conviction_def Let_def d_def x0_def x1_def x2_def)
  from capped_bounds [OF r(1), of c] x2 have "0 \<le> capped x2 c \<and>
    capped x2 c \<le> tokens * int s div 1000 * (100 + int (cc_reward_bonus_pct c)) div 100 \<and>
    (0 < cc_max_conviction_cap c \<longrightarrow> capped x2 c \<le> cc_max_conviction_cap c)"
    by (meson order_trans)
  with eq s(2) show ?thesis unfolding d_def by blast
qed

theorem conviction_bounded_witness:
  "\<exists>x s. calculate_conviction 1000000 864000 \<lparr>cc_penalty_threshold_days = 5, cc_penalty_multiplier = 2, cc_reward_bonus_pct = 10,
      cc_max_conviction_cap = 3000, cc_decay_rate_bps = 50\<rparr> = Ok x \<and> is_root 10 s \<and> 0 \<le> x \<and>
    x \<le> 1000000 * int s div 1000 * 110 div 100 \<and> x \<le> 3000"
  using conviction_bounded [of 1000000 864000 "\<lparr>cc_penalty_threshold_days = 5, cc_penalty_multiplier = 2, cc_reward_bonus_pct = 10,
      cc_max_conviction_cap = 3000, cc_decay_rate_bps = 50\<rparr>"] by (simp add: u64_max_def)

end
