(* ===== verification/ConvictionSafety.thy ===== *)
theory ConvictionSafety
  imports CouncilFrame ConvictionMath
begin

text \<open>
  Conviction voting along the histories of the governance contract: what holds of pools and proposals in
  every reachable state, the exactness of the decay factor, and three ways in which a pool is emptied
  that the module does not prevent.
\<close>

section \<open>Pools and proposals\<close>

definition funding_terms :: "ConvictionProposal \<Rightarrow> bool" where
  "funding_terms p \<longleftrightarrow> 0 < cp_requested_amount p \<and> 1000 \<le> cp_conviction_threshold p \<and> cp_conviction_threshold p \<le> 2000 \<and>
     (cp_status p = ConvActive \<and> cp_funding_granted p = 0 \<or> cp_status p = ConvFunded \<and> cp_funding_granted p = cp_requested_amount p)"

definition votes_listed :: "ConvictionProposal \<Rightarrow> bool" where
  "votes_listed p \<longleftrightarrow> (\<forall>a v. cp_votes p a = Some v \<longrightarrow> cv_voter v = a \<and> 0 < cv_tokens_committed v \<and> a \<in> set (cp_voters p))"

definition pool_ok :: "ConvictionVotingPool \<Rightarrow> bool" where
  "pool_ok po \<longleftrightarrow> 0 \<le> po_funding_amount po \<and> 0 \<le> po_refill_rate po \<and> po_total_conviction po = 0 \<and>
     (\<forall>j p. po_proposals po j = Some p \<longrightarrow> funding_terms p \<and> votes_listed p)"

definition pools_ok :: "gov \<Rightarrow> bool" where
  "pools_ok g \<longleftrightarrow> (\<forall>i po. cst_pools (g_conviction g) i = Some po \<longrightarrow> pool_ok po)"

lemma pools_okD: "get_pool g i = Ok po \<Longrightarrow> pools_ok g \<Longrightarrow> pool_ok po"
  by (auto simp: pools_ok_def get_pool_def ok_or_Ok)

lemma pool_proposal_okD: "pool_proposal po j = Ok p \<Longrightarrow> pool_ok po \<Longrightarrow> funding_terms p \<and> votes_listed p"
  by (auto simp: pool_ok_def pool_proposal_def ok_or_Ok)

lemma set_pool_proposal_ok: "pool_ok po \<Longrightarrow> funding_terms p \<Longrightarrow> votes_listed p \<Longrightarrow> pool_ok (set_pool_proposal j p po)"
  by (auto simp: pool_ok_def set_pool_proposal_def)

lemma pools_ok_put: "pools_ok g \<Longrightarrow> pool_ok po \<Longrightarrow> pools_ok (put_pool i po g)"
  by (auto simp: pools_ok_def put_pool_def)

lemma pools_ok_frame [simp]:
  "pools_ok (g\<lparr>g_calibration := c\<rparr>) = pools_ok g" "pools_ok (g\<lparr>g_books := b\<rparr>) = pools_ok g"
  "pools_ok (g\<lparr>g_treasury_state := t\<rparr>) = pools_ok g" "pools_ok (g\<lparr>g_committees := cs\<rparr>) = pools_ok g"
  "pools_ok (g\<lparr>g_admin_pending := ap\<rparr>) = pools_ok g"
  "pools_ok (g\<lparr>g_conviction := (g_conviction g)\<lparr>cst_next_proposal_id := n\<rparr>\<rparr>) = pools_ok g"
  by (simp_all add: pools_ok_def)

lemma write_proposal:
  assumes "pools_ok g" "pool_ok po" "funding_terms p \<and> votes_listed p"
  shows "pools_ok (put_pool i (set_pool_proposal j p po) g)"
  using assms by (simp add: pools_ok_put set_pool_proposal_ok)

lemma pool_ok_ids [simp]: "pool_ok (po\<lparr>po_proposal_ids := js\<rparr>) = pool_ok po"
  by (simp add: pool_ok_def)

lemmas conviction_Ok = and_then_Ok guard_Ok guards_Ok initialized_def

section \<open>What the operations keep\<close>

lemma threshold_range:
  assumes "calculate_conviction_threshold r x 1000 = Ok t" "r \<le> x"
  shows "1000 \<le> t \<and> t \<le> 2000"
proof -
  from assms(1) have r: "0 < r" "0 < x" and t: "t = max 1000 (tdiv (saturating_mul (tdiv (tdiv (r * 10000) x * tdiv (r * 10000) x) 10000 * 1000) 200) 1000000)"
    by (auto simp: calculate_conviction_threshold_def CONVICTION_PRECISION_def res_then_Ok Let_def split: if_splits)
  define a where "a = r * 10000 div x"
  have "0 \<le> a" using r by (simp add: a_def pos_imp_zdiv_nonneg_iff)
  moreover have "a \<le> 10000"
  proof -
    have "a \<le> x * 10000 div x" unfolding a_def by (rule zdiv_mono1) (use assms(2) r in auto)
    with r show ?thesis by simp
  qed
  ultimately have "0 \<le> a * a" "a * a \<le> 10000 * 10000" using mult_mono [of a 10000 a 10000] by auto
  then have b: "0 \<le> a * a div 10000" "a * a div 10000 \<le> 10000"
    by (auto simp only: pos_imp_zdiv_nonneg_iff)
  then have "saturating_mul (a * a div 10000 * 1000) 200 = a * a div 10000 * 1000 * 200"
    by (simp add: saturating_mul_def sat_i128_def i128_min_def i128_max_def)
  with t r \<open>0 \<le> a\<close> b have "t = max 1000 (a * a div 10000 * 1000 * 200 div 1000000)"
    by (simp add: tdiv_nonneg a_def)
  moreover have "q * 1000 * 200 div 1000000 \<le> 2000" if "q \<le> 10000" for q :: int using that by simp
  ultimately show ?thesis using b by (simp only: max_def) (auto split: if_splits)
qed

lemma saturating_sub_nonneg: "b \<le> a \<Longrightarrow> 0 \<le> saturating_sub a b"
  by (simp add: saturating_sub_def sat_i128_def i128_min_def i128_max_def)

lemma saturating_mul_nonneg: "0 \<le> a \<Longrightarrow> 0 \<le> b \<Longrightarrow> 0 \<le> saturating_mul a b"
proof -
  have "0 \<le> c \<Longrightarrow> 0 \<le> sat_i128 c" for c by (simp add: sat_i128_def i128_min_def i128_max_def)
  then show "0 \<le> a \<Longrightarrow> 0 \<le> b \<Longrightarrow> ?thesis" by (simp add: saturating_mul_def)
qed

lemma funded_ok:
  assumes "fund_proposal po p = Ok (po', p')" "pool_ok po" "funding_terms p" "votes_listed p"
  shows "pool_ok po' \<and> funding_terms p' \<and> votes_listed p'"
proof -
  from assms(1) have r: "cp_requested_amount p \<le> po_funding_amount po"
      "po' = po\<lparr>po_funding_amount := saturating_sub (po_funding_amount po) (cp_requested_amount p)\<rparr>"
      "p' = p\<lparr>cp_status := ConvFunded, cp_funding_granted := cp_requested_amount p\<rparr>"
    by (auto simp: fund_proposal_def split: if_splits)
  have "pool_ok po'" using assms(2) saturating_sub_nonneg [OF r(1)] by (simp add: pool_ok_def r(2))
  moreover have "funding_terms p'" "votes_listed p'" using assms(3,4) by (simp_all add: funding_terms_def votes_listed_def r(3))
  ultimately show ?thesis by blast
qed

lemma update_vote_conviction_Ok:
  assumes "update_vote_conviction ev g v = Ok w"
  shows "cv_voter w = cv_voter v \<and> cv_tokens_committed w = cv_tokens_committed v"
  using assms by (auto simp: update_vote_conviction_def res_then_Ok)

lemma update_conviction_vote_Ok:
  assumes "update_conviction_vote ev g v n = Ok w"
  shows "cv_voter w = cv_voter v \<and> cv_tokens_committed w = n"
  using assms
  by (auto simp: update_conviction_vote_def res_then_Ok split: if_splits dest!: update_vote_conviction_Ok)

lemma enter_conviction_vote_ok:
  assumes "enter_conviction_vote ev g a n p = Ok q" "funding_terms p" "votes_listed p" "0 < n"
  shows "funding_terms q \<and> votes_listed q"
  using assms
  by (auto simp: enter_conviction_vote_def votes_listed_def funding_terms_def res_then_Ok split: option.splits if_splits
      dest!: update_conviction_vote_Ok)

lemma refresh_votes_ok:
  assumes "res_fold (refresh_vote ev g) as (votes, n) = Ok (votes', n')"
    and "\<forall>a v. votes a = Some v \<longrightarrow> cv_voter v = a \<and> 0 < cv_tokens_committed v \<and> a \<in> S"
  shows "\<forall>a v. votes' a = Some v \<longrightarrow> cv_voter v = a \<and> 0 < cv_tokens_committed v \<and> a \<in> S"
proof -
  have "case (votes', n') of (w, _) \<Rightarrow> \<forall>a v. w a = Some v \<longrightarrow> cv_voter v = a \<and> 0 < cv_tokens_committed v \<and> a \<in> S"
    by (rule res_fold_invariant [OF _ _ assms(1),
          where P = "\<lambda>(w, _). \<forall>a v. w a = Some v \<longrightarrow> cv_voter v = a \<and> 0 < cv_tokens_committed v \<and> a \<in> S"])
      (use assms(2) in \<open>auto simp: refresh_vote_def res_then_Ok split: option.splits if_splits dest!: update_vote_conviction_Ok\<close>)
  then show ?thesis by simp
qed

lemma switch_decay_pos: "0 < n \<Longrightarrow> 0 < apply_vote_switch_decay n"
  by (auto simp: apply_vote_switch_decay_def tdiv_nonneg saturating_sub_def sat_i128_def i128_min_def i128_max_def)

section \<open>Every entry point keeps the pools\<close>

lemma create_pool_keeps: "create_conviction_pool ev f r n g = (Ok v, g') \<Longrightarrow> pools_ok g \<Longrightarrow> pools_ok g'"
  by (auto simp: create_conviction_pool_def Let_def pools_ok_def pool_ok_def split: if_splits)

lemma read_total: "get_pool g i = Ok po \<Longrightarrow> pools_ok g \<Longrightarrow> po_total_conviction po = 0"
  by (auto simp: pool_ok_def dest: pools_okD)

lemma threshold_range': "calculate_conviction_threshold r x 1000 = Ok t \<Longrightarrow> \<not> x < r \<Longrightarrow> 1000 \<le> t \<and> t \<le> 2000"
  using threshold_range by simp

lemma create_conviction_proposal_keeps:
  "create_conviction_proposal ev i a t r b g = (Ok v, g') \<Longrightarrow> pools_ok g \<Longrightarrow> pools_ok g'"
  unfolding create_conviction_proposal_def Let_def
  by (auto simp: conviction_Ok funding_terms_def votes_listed_def split: if_splits intro!: pools_ok_put set_pool_proposal_ok
      dest: read_total)
    (use pools_okD threshold_range' in blast)+

lemma vote_conviction_keeps:
  assumes "vote_conviction ev i j a n g = (Ok v, g')" "pools_ok g"
  shows "pools_ok g'"
proof -
  from assms(1) obtain po p q where r: "get_pool g i = Ok po" "pool_proposal po j = Ok p" "enter_conviction_vote ev g a n p = Ok q"
      "0 < n" "g' = put_pool i (set_pool_proposal j q po) g"
    unfolding vote_conviction_def by (auto simp: conviction_Ok split: if_splits)
  with assms(2) show ?thesis
    using enter_conviction_vote_ok [OF r(3)] by (auto dest: pools_okD pool_proposal_okD intro!: write_proposal)
qed

lemma update_conviction_keeps:
  assumes "update_proposal_conviction ev i j g = (Ok v, g')" "pools_ok g"
  shows "pools_ok g'"
proof -
  from assms(1) obtain po p x y where r: "get_pool g i = Ok po" "pool_proposal po j = Ok p"
      "res_fold (refresh_vote ev g) (cp_voters p) (cp_votes p, 0) = Ok x"
      "(if cp_conviction_threshold p \<le> snd x \<and> cp_status p = ConvActive
        then fund_proposal po (p\<lparr>cp_votes := fst x, cp_conviction_accumulated := snd x\<rparr>)
        else Ok (po, p\<lparr>cp_votes := fst x, cp_conviction_accumulated := snd x\<rparr>)) = Ok y"
      "g' = put_pool i (set_pool_proposal j (snd y) (fst y)) g"
    unfolding update_proposal_conviction_def Let_def and_then_Ok split_beta
    by (elim exE conjE, simp only: prod.inject res.inject, elim conjE, hypsubst)
      (rule that, assumption, assumption, assumption, simp_all split del: if_split)
  let ?q = "p\<lparr>cp_votes := fst x, cp_conviction_accumulated := snd x\<rparr>"
  have p: "pool_ok po" "funding_terms p" "votes_listed p" using assms(2) r(1,2) pools_okD pool_proposal_okD by blast+
  have "res_fold (refresh_vote ev g) (cp_voters p) (cp_votes p, 0) = Ok (fst x, snd x)" using r(3) by simp
  from refresh_votes_ok [OF this, of "set (cp_voters p)"] p(3) have "votes_listed ?q"
    unfolding votes_listed_def by simp
  moreover have "funding_terms ?q" using p(2) by (simp add: funding_terms_def)
  ultimately have q: "funding_terms ?q" "votes_listed ?q" by simp_all
  have "pool_ok (fst y) \<and> funding_terms (snd y) \<and> votes_listed (snd y)"
  proof (cases "cp_conviction_threshold p \<le> snd x \<and> cp_status p = ConvActive")
    case True
    have "fund_proposal po ?q = Ok (fst y, snd y)" using r(4) by (simp only: if_P [OF True] prod.collapse)
    from funded_ok [OF this p(1) q] show ?thesis .
  next
    case False
    have "y = (po, ?q)" using r(4) by (simp only: if_not_P [OF False] res.inject)
    with p(1) q show ?thesis by simp
  qed
  with assms(2) show ?thesis by (simp add: r(5) write_proposal)
qed

lemma fund_keeps: "execute_conviction_funding i j g = (Ok v, g') \<Longrightarrow> pools_ok g \<Longrightarrow> pools_ok g'"
  unfolding execute_conviction_funding_def
  by (auto simp: conviction_Ok split_beta dest!: funded_ok dest: pools_okD pool_proposal_okD intro!: write_proposal)

lemma change_conviction_keeps:
  assumes "change_conviction_vote ev i j k a g = (Ok v, g')" "pools_ok g"
  shows "pools_ok g'"
proof -
  from assms(1) obtain po p q w x y where r: "get_pool g i = Ok po" "pool_proposal po j = Ok p" "pool_proposal po k = Ok q"
      "cp_votes p a = Some w" "g' = put_pool i (set_pool_proposal k y (set_pool_proposal j x po)) g"
    and x: "x = p\<lparr>cp_votes := (cp_votes p)(a := None),
      cp_conviction_accumulated := saturating_sub (cp_conviction_accumulated p) (cv_current_conviction w)\<rparr>"
    and y: "y = q\<lparr>cp_votes := (cp_votes q)(a \<mapsto> \<lparr>cv_voter = a, cv_tokens_committed = apply_vote_switch_decay (cv_tokens_committed w),
        cv_vote_started = ev_timestamp ev, cv_last_conviction_update = ev_timestamp ev, cv_current_conviction = 0\<rparr>),
      cp_voters := (if a \<in> set (cp_voters q) then cp_voters q else cp_voters q @ [a])\<rparr>"
    unfolding change_conviction_vote_def Let_def by (auto simp: conviction_Ok ok_or_Ok)
  have p: "pool_ok po" "funding_terms p" "votes_listed p" "funding_terms q" "votes_listed q"
    using assms(2) r(1-3) pools_okD pool_proposal_okD by blast+
  then have "funding_terms x \<and> votes_listed x" by (auto simp: x funding_terms_def votes_listed_def)
  moreover have "0 < apply_vote_switch_decay (cv_tokens_committed w)"
    using p(3) r(4) by (intro switch_decay_pos) (auto simp: votes_listed_def)
  then have "funding_terms y \<and> votes_listed y" using p by (auto simp: y funding_terms_def votes_listed_def)
  ultimately show ?thesis using p(1) assms(2) by (simp add: r(5) write_proposal set_pool_proposal_ok)
qed

lemma refill_keeps: "refill_conviction_pool ev i g = (Ok v, g') \<Longrightarrow> pools_ok g \<Longrightarrow> pools_ok g'"
  unfolding refill_conviction_pool_def Let_def
  by (auto simp: conviction_Ok pool_ok_def saturating_add_nonneg saturating_mul_nonneg
      split: if_splits dest: pools_okD intro!: pools_ok_put)

lemma withdraw_conviction_keeps: "withdraw_conviction_vote ev i j a g = (Ok v, g') \<Longrightarrow> pools_ok g \<Longrightarrow> pools_ok g'"
  unfolding withdraw_conviction_vote_def
  by (auto simp: conviction_Ok ok_or_Ok intro!: write_proposal dest: pools_okD)
    (auto simp: funding_terms_def votes_listed_def dest!: pool_proposal_okD dest: pools_okD)

lemmas conviction_keeps =
  create_pool_keeps create_conviction_proposal_keeps vote_conviction_keeps update_conviction_keeps fund_keeps
  change_conviction_keeps refill_keeps withdraw_conviction_keeps

lemma calibration_keeps:
  "put_conviction_calibration c g = (Ok v, g') \<Longrightarrow> pools_ok g \<Longrightarrow> pools_ok g'"
  "put_decay_rate r g = (Ok v, g') \<Longrightarrow> pools_ok g \<Longrightarrow> pools_ok g'"
  by (auto simp: put_conviction_calibration_def put_decay_rate_def split: if_splits)

lemma commit_guarded:
  "pools_ok g \<Longrightarrow> (\<And>v g'. k g = (Ok v, g') \<Longrightarrow> pools_ok g \<Longrightarrow> pools_ok g') \<Longrightarrow> pools_ok (snd (commit g (guard chk k g)))"
  by (rule commit_inv [of pools_ok]) (auto simp: guard_Ok)

lemma conviction_call_keeps:
  assumes "pools_ok g"
  shows "pools_ok (conviction_call ev c g)"
proof (cases c)
  case (SetCalibration a x)
  show ?thesis
    unfolding SetCalibration conviction_call.simps set_conviction_calibration_def
    by (rule commit_guarded [OF assms]) (auto simp: and_then_Ok split: if_splits dest: calibration_keeps)
next
  case (SetDecayRate a r)
  show ?thesis
    unfolding SetDecayRate conviction_call.simps set_conviction_decay_rate_def
    by (rule commit_guarded [OF assms]) (rule calibration_keeps)
qed (simp_all only: conviction_call.simps conviction_entry_defs initialized_def, (rule commit_guarded [OF assms], erule (1) conviction_keeps)+)

interpretation pools: council_invariant pools_ok
proof
  show "g_committees g' = g_committees g \<Longrightarrow> g_conviction g' = g_conviction g \<Longrightarrow> pools_ok g \<Longrightarrow> pools_ok g'" for g g'
    by (simp add: pools_ok_def)
  show "g_conviction g = empty_conviction_state \<Longrightarrow> pools_ok g" for g
    by (simp add: pools_ok_def empty_conviction_state_def)
  show "pools_ok g \<Longrightarrow> pools_ok (committee_call ev c g)" for ev c g by (simp add: pools_ok_def)
qed (rule conviction_call_keeps)

section \<open>Along every history\<close>

text \<open>
  (C26) (C) Along every history from a state without pools, a pool never owes more than it has: its funds never
  become negative, a funded proposal was granted exactly what it asked for, every recorded vote commits a
  positive amount for a listed voter, and every threshold lies between 1000 and 2000 whatever the size of
  the pool and of the request, because the conviction of a pool is never added up.
\<close>

theorem pools_sound:
  assumes "g_conviction g0 = empty_conviction_state"
    and "cst_pools (g_conviction (fold gov_step ops g0)) i = Some po"
  shows "0 \<le> po_funding_amount po \<and> po_total_conviction po = 0 \<and>
    (\<forall>j p. po_proposals po j = Some p \<longrightarrow> 0 < cp_requested_amount p \<and>
       1000 \<le> cp_conviction_threshold p \<and> cp_conviction_threshold p \<le> 2000 \<and>
       (cp_status p = ConvActive \<and> cp_funding_granted p = 0 \<or>
        cp_status p = ConvFunded \<and> cp_funding_granted p = cp_requested_amount p) \<and>
       (\<forall>a v. cp_votes p a = Some v \<longrightarrow> cv_voter v = a \<and> 0 < cv_tokens_committed v \<and> a \<in> set (cp_voters p)))"
proof -
  have "pools_ok g0" using assms(1) by (simp add: pools_ok_def empty_conviction_state_def)
  then have "pools_ok (fold gov_step ops g0)" by (rule pools.gov_run_inv)
  with assms(2) have "pool_ok po" by (simp add: pools_ok_def)
  then show ?thesis by (simp add: pool_ok_def funding_terms_def votes_listed_def)
qed

section \<open>Funding without an end\<close>

lemma fund_once:
  assumes "is_initialized (bk_initialized (g_books g))" "cst_pools (g_conviction g) i = Some po" "po_proposals po j = Some p"
    and "cp_conviction_threshold p \<le> cp_conviction_accumulated p" "0 \<le> cp_requested_amount p"
    and "cp_requested_amount p \<le> po_funding_amount po" "in_i128 (po_funding_amount po)"
  shows "gov_step (ev, OnConviction (FundProposal i j)) g =
    put_pool i (set_pool_proposal j (p\<lparr>cp_status := ConvFunded, cp_funding_granted := cp_requested_amount p\<rparr>)
      (po\<lparr>po_funding_amount := po_funding_amount po - cp_requested_amount p\<rparr>)) g"
proof -
  have "in_i128 (po_funding_amount po - cp_requested_amount p)" using assms(5-7) by (auto simp: in_i128_def i128_min_def)
  then have "fund_proposal po p = Ok (po\<lparr>po_funding_amount := po_funding_amount po - cp_requested_amount p\<rparr>,
      p\<lparr>cp_status := ConvFunded, cp_funding_granted := cp_requested_amount p\<rparr>)"
    using assms(4,6) by (simp add: fund_proposal_def saturating_sub_exact)
  then show ?thesis
    using assms(1-3)
    by (simp add: execute_conviction_funding_entry_def execute_conviction_funding_def initialized_def guard_def require_initialized_def
        get_pool_def pool_proposal_def ok_or.simps)
qed

text \<open>
  (C28) (C) A proposal whose conviction once reached its threshold can be funded again and again: anybody, without
  a signature, takes the requested amount out of the pool with every further call, until the pool is empty,
  while the proposal records a single grant.
\<close>

theorem funded_again_and_again:
  assumes "is_initialized (bk_initialized (g_books g))" "cst_pools (g_conviction g) i = Some po" "po_proposals po j = Some p"
    and "cp_conviction_threshold p \<le> cp_conviction_accumulated p" "0 \<le> cp_requested_amount p"
    and "int n * cp_requested_amount p \<le> po_funding_amount po" "in_i128 (po_funding_amount po)"
  shows "\<exists>po' p'. cst_pools (g_conviction (fold gov_step (replicate n (ev, OnConviction (FundProposal i j))) g)) i = Some po' \<and>
    po_funding_amount po' = po_funding_amount po - int n * cp_requested_amount p \<and> po_proposals po' j = Some p' \<and>
    (0 < n \<longrightarrow> cp_status p' = ConvFunded \<and> cp_funding_granted p' = cp_requested_amount p)"
  using assms
proof (induction n arbitrary: g po p)
  case 0
  then show ?case by simp
next
  case (Suc n)
  let ?p = "p\<lparr>cp_status := ConvFunded, cp_funding_granted := cp_requested_amount p\<rparr>"
  let ?po = "set_pool_proposal j ?p (po\<lparr>po_funding_amount := po_funding_amount po - cp_requested_amount p\<rparr>)"
  let ?g = "put_pool i ?po g"
  have n: "0 \<le> int n * cp_requested_amount p" using Suc.prems(5) by simp
  have sum: "int (Suc n) * cp_requested_amount p = cp_requested_amount p + int n * cp_requested_amount p" by (simp add: algebra_simps)
  have r: "cp_requested_amount p \<le> po_funding_amount po" using Suc.prems(6) n sum by linarith
  note step = fund_once [OF Suc.prems(1-5) r Suc.prems(7), of ev]
  have fits: "in_i128 (po_funding_amount po - cp_requested_amount p)" using Suc.prems(5,7) r by (auto simp: in_i128_def i128_min_def)
  have "\<exists>po' p'. cst_pools (g_conviction (fold gov_step (replicate n (ev, OnConviction (FundProposal i j))) ?g)) i = Some po' \<and>
      po_funding_amount po' = po_funding_amount ?po - int n * cp_requested_amount ?p \<and> po_proposals po' j = Some p' \<and>
      (0 < n \<longrightarrow> cp_status p' = ConvFunded \<and> cp_funding_granted p' = cp_requested_amount ?p)"
    by (rule Suc.IH [of ?g ?po ?p]) (use Suc.prems fits sum in \<open>simp_all add: put_pool_def set_pool_proposal_def\<close>)
  then obtain po' p' where q: "cst_pools (g_conviction (fold gov_step (replicate n (ev, OnConviction (FundProposal i j))) ?g)) i = Some po'"
      "po_funding_amount po' = po_funding_amount po - cp_requested_amount p - int n * cp_requested_amount p" "po_proposals po' j = Some p'"
      "0 < n \<longrightarrow> cp_status p' = ConvFunded \<and> cp_funding_granted p' = cp_requested_amount p"
    by (auto simp: set_pool_proposal_def)
  have "n = 0 \<longrightarrow> cp_status p' = ConvFunded \<and> cp_funding_granted p' = cp_requested_amount p"
    using q(1,3) by (auto simp: put_pool_def set_pool_proposal_def)
  with q step show ?case by (auto simp: algebra_simps)
qed

text \<open>One account asks for the funds, and backs its own proposal with a number.\<close>

definition asking :: "nat \<Rightarrow> addr \<Rightarrow> string \<Rightarrow> int \<Rightarrow> int \<Rightarrow> ConvictionProposal" where
  "asking j a s r t =
     \<lparr>cp_id = j, cp_proposer = a, cp_title = s, cp_requested_amount = r, cp_beneficiary = a, cp_conviction_accumulated = 0,
      cp_conviction_threshold = t, cp_status = ConvActive, cp_votes = (\<lambda>_. None), cp_voters = [], cp_funding_granted = 0\<rparr>"

definition commitment :: "env \<Rightarrow> addr \<Rightarrow> int \<Rightarrow> ConvictionVote" where
  "commitment ev a x = \<lparr>cv_voter = a, cv_tokens_committed = x, cv_vote_started = ev_timestamp ev,
     cv_last_conviction_update = ev_timestamp ev, cv_current_conviction = 0\<rparr>"

lemmas pool_reads = initialized_def guard_def require_initialized_def get_pool_def pool_proposal_def ok_or.simps signed_def

lemma threshold_exists:
  assumes "0 < r" "r \<le> f" "in_i128 (r * 10000)"
  shows "\<exists>t. calculate_conviction_threshold r f 1000 = Ok t \<and> 1000 \<le> t \<and> t \<le> 2000"
proof -
  define a where "a = r * 10000 div f"
  have a: "0 \<le> a" "a \<le> 10000"
    using assms zdiv_mono1 [of "r * 10000" "f * 10000" f] by (auto simp: a_def pos_imp_zdiv_nonneg_iff)
  have sq: "0 \<le> a * a" "a * a \<le> 10000 * 10000" using a mult_mono [of a 10000 a 10000] by auto
  have q: "0 \<le> a * a div 10000" "a * a div 10000 \<le> 10000" using sq by (auto simp only: pos_imp_zdiv_nonneg_iff)
  have ok: "in_i128 (a * a)" "in_i128 (a * a div 10000 * 1000)"
    using sq q by (auto simp: in_i128_def i128_min_def i128_max_def)
  have td: "tdiv (r * 10000) f = a" "tdiv (a * a) 10000 = a * a div 10000"
    using assms(1,2) sq(1) by (simp_all add: tdiv_nonneg a_def)
  obtain t where t: "calculate_conviction_threshold r f 1000 = Ok t"
    using assms ok td by (simp add: calculate_conviction_threshold_def CONVICTION_PRECISION_def gmul_def checked_mul_def ok_or.simps Let_def)
  from threshold_range [OF t assms(2)] t show ?thesis by blast
qed

lemma ask_pool:
  assumes "is_initialized (bk_initialized (g_books g))" "cst_pools (g_conviction g) i = Some po" "po_total_conviction po = 0"
    and "ev_auth ev a" "s \<noteq> []" "0 < r" "r \<le> po_funding_amount po"
    and "calculate_conviction_threshold r (po_funding_amount po) 1000 = Ok t" "j = cst_next_proposal_id (g_conviction g)"
  shows "\<exists>js n. gov_step (ev, OnConviction (CreateConvictionProposal i a s r a)) g =
    (let h = put_pool i ((set_pool_proposal j (asking j a s r t) po)\<lparr>po_proposal_ids := js\<rparr>) g
     in h\<lparr>g_conviction := (g_conviction h)\<lparr>cst_next_proposal_id := n\<rparr>\<rparr>)"
  using assms
  by (intro exI) (simp add: create_conviction_proposal_entry_def create_conviction_proposal_def pool_reads Let_def asking_def)

lemma back_proposal:
  assumes "is_initialized (bk_initialized (g_books g))" "cst_pools (g_conviction g) i = Some po" "po_proposals po j = Some p"
    and "ev_auth ev a" "cp_status p = ConvActive" "cp_votes p a = None" "0 < x"
  shows "gov_step (ev, OnConviction (VoteConviction i j a x)) g =
    put_pool i (set_pool_proposal j (p\<lparr>cp_votes := (cp_votes p)(a \<mapsto> commitment ev a x), cp_voters := cp_voters p @ [a]\<rparr>) po) g"
  using assms
  by (simp add: vote_conviction_entry_def vote_conviction_def pool_reads enter_conviction_vote_def commitment_def)

lemma conviction_after_a_day:
  assumes "g_calibration g = None" "ev_timestamp ev1 = ev_timestamp ev + 86400"
  shows "update_vote_conviction ev1 g (commitment ev a 10000000) =
    Ok ((commitment ev a 10000000)\<lparr>cv_current_conviction := 9500, cv_last_conviction_update := ev_timestamp ev1\<rparr>)"
proof -
  define c where "c = \<lparr>cc_penalty_threshold_days = 0, cc_penalty_multiplier = 1, cc_reward_bonus_pct = 0, cc_max_conviction_cap = 0,
    cc_decay_rate_bps = 50\<rparr>"
  have c: "get_conviction_calibration g = c" using assms(1) by (simp add: get_conviction_calibration_def c_def)
  have root: "isqrt 1 = Ok 1" by (simp add: isqrt_def isqrt_u128_def newton.simps)
  have one: "as_u32 1 = 1" by (simp add: as_u32_def)
  have pow: "pow_fixed_point 950000000000 1 DECAY_SCALE = 950000000000"
    unfolding pow_fixed_point_def DECAY_SCALE_def
    by (subst pow_loop.simps, subst pow_loop.simps) (simp add: saturating_mul_def sat_i128_def i128_min_def i128_max_def tdiv_def)
  have factor: "tdiv (saturating_mul (1000 - int (cc_decay_rate_bps c)) DECAY_SCALE) 1000 = 950000000000"
    by (simp add: c_def saturating_mul_def sat_i128_def i128_min_def i128_max_def tdiv_def DECAY_SCALE_def)
  have dec: "decayed 10000 1 c = 9500"
    unfolding decayed_def Let_def factor one pow
    by (simp add: c_def decay_rate_valid_def MIN_DECAY_RATE_def MAX_DECAY_RATE_def saturating_mul_def sat_i128_def i128_min_def
        i128_max_def tdiv_def DECAY_SCALE_def)
  have flat: "capped (rewarded (penalised 9500 1 c) 1 c) c = 9500" by (simp add: c_def penalised_def rewarded_def capped_def)
  have raw: "tdiv (saturating_mul 10000000 1) 1000 = 10000"
    by (simp add: saturating_mul_def sat_i128_def i128_min_def i128_max_def tdiv_def)
  have day: "86400 div 86400 = (1 :: nat)" by simp
  have "calculate_conviction 10000000 86400 c = Ok 9500"
    unfolding calculate_conviction_def Let_def day of_nat_1 root res_then.simps raw dec flat by simp
  with assms(2) c show ?thesis by (simp add: update_vote_conviction_def commitment_def)
qed

lemma first_update_funds:
  assumes "is_initialized (bk_initialized (g_books g))" "cst_pools (g_conviction g) i = Some po" "po_proposals po j = Some p"
    and "cp_voters p = [a]" "cp_votes p a = Some v" "update_vote_conviction ev g v = Ok w" "in_i128 (cv_current_conviction w)"
    and "cp_conviction_threshold p \<le> cv_current_conviction w" "cp_status p = ConvActive"
    and "0 \<le> cp_requested_amount p" "cp_requested_amount p \<le> po_funding_amount po" "in_i128 (po_funding_amount po)"
  shows "gov_step (ev, OnConviction (UpdateConviction i j)) g =
    put_pool i (set_pool_proposal j (p\<lparr>cp_votes := (cp_votes p)(a \<mapsto> w), cp_conviction_accumulated := cv_current_conviction w,
        cp_status := ConvFunded, cp_funding_granted := cp_requested_amount p\<rparr>)
      (po\<lparr>po_funding_amount := po_funding_amount po - cp_requested_amount p\<rparr>)) g"
proof -
  have "in_i128 (po_funding_amount po - cp_requested_amount p)" using assms(10-12) by (auto simp: in_i128_def i128_min_def)
  then show ?thesis
    using assms
    by (simp add: update_proposal_conviction_entry_def update_proposal_conviction_def pool_reads refresh_vote_def Let_def
        fund_proposal_def saturating_sub_exact saturating_add_exact)
qed

text \<open>
  (C27) (C) Any account, without a balance or a stake, empties any pool within a day under the default
  calibration: it files a proposal in its own favour, commits ten million tokens it does not have and has
  the conviction refreshed a day later. The books of the token do not change.
\<close>

theorem unbacked_commitment_takes_pool:
  assumes "is_initialized (bk_initialized (g_books g))" "g_calibration g = None"
    and "cst_pools (g_conviction g) i = Some po" "po_total_conviction po = 0" "in_i128 (po_funding_amount po)"
    and "0 < r" "r \<le> po_funding_amount po" "in_i128 (r * 10000)" "s \<noteq> []" "ev_auth ev a"
    and "ev_timestamp ev1 = ev_timestamp ev + 86400" "j = cst_next_proposal_id (g_conviction g)"
  defines "g' \<equiv> fold gov_step [(ev, OnConviction (CreateConvictionProposal i a s r a)),
      (ev, OnConviction (VoteConviction i j a 10000000)), (ev1, OnConviction (UpdateConviction i j))] g"
  shows "\<exists>po' p. cst_pools (g_conviction g') i = Some po' \<and> po_funding_amount po' = po_funding_amount po - r \<and>
    po_proposals po' j = Some p \<and> cp_status p = ConvFunded \<and> cp_funding_granted p = r \<and> cp_beneficiary p = a \<and>
    g_books g' = g_books g"
proof -
  obtain t where t: "calculate_conviction_threshold r (po_funding_amount po) 1000 = Ok t" "t \<le> 2000"
    using threshold_exists [OF assms(6-8)] by blast
  obtain js n where one: "gov_step (ev, OnConviction (CreateConvictionProposal i a s r a)) g =
    (let h = put_pool i ((set_pool_proposal j (asking j a s r t) po)\<lparr>po_proposal_ids := js\<rparr>) g
     in h\<lparr>g_conviction := (g_conviction h)\<lparr>cst_next_proposal_id := n\<rparr>\<rparr>)" (is "_ = ?g1")
    using ask_pool [OF assms(1,3,4,10,9,6,7) t(1) assms(12)] by blast
  let ?po1 = "(set_pool_proposal j (asking j a s r t) po)\<lparr>po_proposal_ids := js\<rparr>"
  let ?p1 = "asking j a s r t"
  let ?p2 = "?p1\<lparr>cp_votes := (cp_votes ?p1)(a \<mapsto> commitment ev a 10000000), cp_voters := cp_voters ?p1 @ [a]\<rparr>"
  let ?po2 = "set_pool_proposal j ?p2 ?po1"
  let ?g2 = "put_pool i ?po2 ?g1"
  have two: "gov_step (ev, OnConviction (VoteConviction i j a 10000000)) ?g1 = ?g2"
    by (rule back_proposal) (use assms(1,10) in \<open>simp_all add: put_pool_def set_pool_proposal_def asking_def Let_def\<close>)
  let ?w = "(commitment ev a 10000000)\<lparr>cv_current_conviction := 9500, cv_last_conviction_update := ev_timestamp ev1\<rparr>"
  have cal: "g_calibration ?g2 = None" using assms(2) by (simp add: put_pool_def Let_def)
  have three: "gov_step (ev1, OnConviction (UpdateConviction i j)) ?g2 =
      put_pool i (set_pool_proposal j (?p2\<lparr>cp_votes := (cp_votes ?p2)(a \<mapsto> ?w), cp_conviction_accumulated := cv_current_conviction ?w,
        cp_status := ConvFunded, cp_funding_granted := cp_requested_amount ?p2\<rparr>)
      (?po2\<lparr>po_funding_amount := po_funding_amount ?po2 - cp_requested_amount ?p2\<rparr>)) ?g2"
    by (rule first_update_funds [OF _ _ _ _ _ conviction_after_a_day [OF cal assms(11)]])
      (use assms(1,5-7) t(2) in \<open>simp_all add: put_pool_def set_pool_proposal_def asking_def Let_def in_i128_def i128_min_def i128_max_def\<close>)
  have "g' = gov_step (ev1, OnConviction (UpdateConviction i j)) ?g2"
    unfolding g'_def fold_simps one two by simp
  then show ?thesis unfolding three by (simp add: put_pool_def set_pool_proposal_def asking_def Let_def)
qed

section \<open>One voter, many times\<close>

lemma put_pool_twice [simp]: "put_pool i po' (put_pool i po g) = put_pool i po' g"
  by (simp add: put_pool_def)

lemma set_pool_proposal_twice [simp]: "set_pool_proposal j q (set_pool_proposal j p po) = set_pool_proposal j q po"
  by (simp add: set_pool_proposal_def)

lemma put_pool_sel [simp]:
  "cst_pools (g_conviction (put_pool i po g)) i = Some po" "g_books (put_pool i po g) = g_books g"
  "get_conviction_calibration (put_pool i po g) = get_conviction_calibration g" "po_proposals (set_pool_proposal j p po) j = Some p"
  by (simp_all add: put_pool_def set_pool_proposal_def get_conviction_calibration_def)

lemma take_back:
  assumes "is_initialized (bk_initialized (g_books g))" "cst_pools (g_conviction g) i = Some po" "po_proposals po j = Some p"
    and "ev_auth ev a" "cp_votes p a = Some v" "cv_current_conviction v = 0" "in_i128 (cp_conviction_accumulated p)"
  shows "gov_step (ev, OnConviction (WithdrawConvictionVote i j a)) g =
    put_pool i (set_pool_proposal j (p\<lparr>cp_votes := (cp_votes p)(a := None)\<rparr>) po) g"
proof -
  have "p\<lparr>cp_votes := (cp_votes p)(a := None), cp_conviction_accumulated := saturating_sub (cp_conviction_accumulated p) 0\<rparr> =
      p\<lparr>cp_votes := (cp_votes p)(a := None)\<rparr>"
    using assms(7) by (simp add: saturating_sub_exact)
  with assms show ?thesis
    by (simp add: withdraw_conviction_vote_entry_def withdraw_conviction_vote_def pool_reads)
qed

lemma vote_and_withdraw:
  assumes "is_initialized (bk_initialized (g_books g))" "cst_pools (g_conviction g) i = Some po" "po_proposals po j = Some p"
    and "ev_auth ev a" "cp_status p = ConvActive" "cp_votes p a = None" "0 < x" "in_i128 (cp_conviction_accumulated p)"
  shows "fold gov_step [(ev, OnConviction (VoteConviction i j a x)), (ev, OnConviction (WithdrawConvictionVote i j a))] g =
    put_pool i (set_pool_proposal j (p\<lparr>cp_voters := cp_voters p @ [a]\<rparr>) po) g"
proof -
  let ?p = "p\<lparr>cp_votes := (cp_votes p)(a \<mapsto> commitment ev a x), cp_voters := cp_voters p @ [a]\<rparr>"
  let ?g = "put_pool i (set_pool_proposal j ?p po) g"
  have "gov_step (ev, OnConviction (WithdrawConvictionVote i j a)) ?g =
      put_pool i (set_pool_proposal j (?p\<lparr>cp_votes := (cp_votes ?p)(a := None)\<rparr>) (set_pool_proposal j ?p po)) ?g"
    by (rule take_back [where v = "commitment ev a x"]) (use assms in \<open>simp_all add: commitment_def\<close>)
  moreover have "?p\<lparr>cp_votes := (cp_votes ?p)(a := None)\<rparr> = p\<lparr>cp_voters := cp_voters p @ [a]\<rparr>"
    using assms(6) by (simp add: fun_upd_idem)
  ultimately show ?thesis unfolding fold_simps back_proposal [OF assms(1-7)] by simp
qed

lemma vote_and_withdraw_often:
  assumes "is_initialized (bk_initialized (g_books g))" "cst_pools (g_conviction g) i = Some po" "po_proposals po j = Some p"
    and "ev_auth ev a" "cp_status p = ConvActive" "cp_votes p a = None" "0 < x" "in_i128 (cp_conviction_accumulated p)"
  shows "\<exists>h. fold gov_step (concat (replicate n [(ev, OnConviction (VoteConviction i j a x)),
      (ev, OnConviction (WithdrawConvictionVote i j a))])) g = h \<and> g_books h = g_books g \<and>
    get_conviction_calibration h = get_conviction_calibration g \<and>
    (\<exists>po'. cst_pools (g_conviction h) i = Some po' \<and> po_funding_amount po' = po_funding_amount po \<and>
       po_proposals po' j = Some (p\<lparr>cp_voters := cp_voters p @ replicate n a\<rparr>))"
  using assms
proof (induction n arbitrary: g po p)
  case (Suc n)
  let ?p = "p\<lparr>cp_voters := cp_voters p @ [a]\<rparr>"
  let ?g = "put_pool i (set_pool_proposal j ?p po) g"
  from vote_and_withdraw [OF Suc.prems] have step: "fold gov_step (concat (replicate (Suc n) [(ev, OnConviction (VoteConviction i j a x)),
      (ev, OnConviction (WithdrawConvictionVote i j a))])) g =
    fold gov_step (concat (replicate n [(ev, OnConviction (VoteConviction i j a x)),
      (ev, OnConviction (WithdrawConvictionVote i j a))])) ?g"
    unfolding replicate_Suc concat.simps fold_append comp_def by (rule arg_cong)
  have tail: "po_funding_amount (set_pool_proposal j ?p po) = po_funding_amount po" by (simp add: set_pool_proposal_def)
  have "cp_voters p @ replicate (Suc n) a = cp_voters ?p @ replicate n a" by simp
  with Suc.IH [of ?g "set_pool_proposal j ?p po" ?p] Suc.prems show ?case
    unfolding step by (simp add: tail)
qed simp

lemma refresh_repeated:
  assumes "update_vote_conviction ev g v = Ok w" "update_vote_conviction ev g w = Ok w" "votes a = Some v"
    and "0 \<le> cv_current_conviction w" "0 \<le> m" "in_i128 (m + int (Suc n) * cv_current_conviction w)"
  shows "res_fold (refresh_vote ev g) (replicate (Suc n) a) (votes, m) = Ok (votes(a \<mapsto> w), m + int (Suc n) * cv_current_conviction w)"
  using assms
proof (induction n arbitrary: v votes m)
  case 0
  then show ?case by (simp add: refresh_vote_def saturating_add_exact fun_eq_iff)
next
  case (Suc n)
  let ?c = "cv_current_conviction w"
  have "0 \<le> int n * ?c" using Suc.prems(4) by simp
  then have "0 \<le> m + ?c" "m + ?c \<le> m + int (Suc (Suc n)) * ?c" using Suc.prems(4,5) by (auto simp: algebra_simps)
  then have "in_i128 (m + ?c)" using Suc.prems(6) by (metis in_i128_between)
  then have first: "refresh_vote ev g a (votes, m) = Ok (votes(a \<mapsto> w), m + ?c)"
    using Suc.prems(1,3) by (simp add: refresh_vote_def saturating_add_exact)
  have "res_fold (refresh_vote ev g) (replicate (Suc n) a) (votes(a \<mapsto> w), m + ?c) =
      Ok ((votes(a \<mapsto> w))(a \<mapsto> w), m + ?c + int (Suc n) * ?c)"
    by (rule Suc.IH [OF Suc.prems(2,2)]) (use Suc.prems(4-6) in \<open>auto simp: algebra_simps\<close>)
  then show ?case by (simp add: first replicate_Suc [of "Suc n"] algebra_simps fun_eq_iff del: replicate_Suc)
qed

text \<open>
  (C) A voter that withdraws and votes again stays listed, so its one commitment is counted once for every
  time it voted: after \<open>n\<close> withdrawals the proposal has \<open>n + 1\<close> times the conviction of the vote.
\<close>

theorem revote_multiplies_conviction:
  assumes "is_initialized (bk_initialized (g_books g))" "cst_pools (g_conviction g) i = Some po" "po_proposals po j = Some p"
    and "ev_auth ev a" "cp_status p = ConvActive" "cp_votes p = (\<lambda>_. None)" "cp_voters p = []" "cp_conviction_accumulated p = 0"
    and "0 < x" "cp_requested_amount p \<le> po_funding_amount po"
    and "calculate_conviction x (ev_timestamp ev1 - ev_timestamp ev) (get_conviction_calibration g) = Ok c" "0 \<le> c"
    and "in_i128 (int (Suc n) * c)"
  shows "fst (update_proposal_conviction_entry ev1 i j (fold gov_step
      (concat (replicate n [(ev, OnConviction (VoteConviction i j a x)), (ev, OnConviction (WithdrawConvictionVote i j a))]) @
       [(ev, OnConviction (VoteConviction i j a x))]) g)) = Ok (int (Suc n) * c)"
proof -
  have free: "cp_votes p a = None" "in_i128 (cp_conviction_accumulated p)" using assms(6,8) by simp_all
  from vote_and_withdraw_often [OF assms(1-5) free(1) assms(9) free(2), of n] obtain h po' where
    h: "fold gov_step (concat (replicate n [(ev, OnConviction (VoteConviction i j a x)),
      (ev, OnConviction (WithdrawConvictionVote i j a))])) g = h" "g_books h = g_books g"
    "get_conviction_calibration h = get_conviction_calibration g" "cst_pools (g_conviction h) i = Some po'"
    "po_funding_amount po' = po_funding_amount po" "po_proposals po' j = Some (p\<lparr>cp_voters := cp_voters p @ replicate n a\<rparr>)"
    by blast
  let ?p = "p\<lparr>cp_votes := (cp_votes p)(a \<mapsto> commitment ev a x), cp_voters := replicate (Suc n) a\<rparr>"
  let ?k = "put_pool i (set_pool_proposal j ?p po') h"
  have k: "gov_step (ev, OnConviction (VoteConviction i j a x)) h = ?k"
    using back_proposal [of h i po' j _ ev a x, OF _ h(4,6)] assms(1,4-7,9) h(2) by (simp add: replicate_append_same)
  let ?w = "(commitment ev a x)\<lparr>cv_current_conviction := c, cv_last_conviction_update := ev_timestamp ev1\<rparr>"
  have w: "update_vote_conviction ev1 ?k (commitment ev a x) = Ok ?w" "update_vote_conviction ev1 ?k ?w = Ok ?w"
    using assms(11) h(3) by (simp_all add: update_vote_conviction_def commitment_def)
  have "res_fold (refresh_vote ev1 ?k) (replicate (Suc n) a) ((cp_votes p)(a \<mapsto> commitment ev a x), 0) =
      Ok (((cp_votes p)(a \<mapsto> commitment ev a x))(a \<mapsto> ?w), 0 + int (Suc n) * cv_current_conviction ?w)"
    by (rule refresh_repeated [OF w]) (use assms(12,13) in simp_all)
  then have fold: "res_fold (refresh_vote ev1 ?k) (cp_voters ?p) (cp_votes ?p, 0) = Ok ((cp_votes p)(a \<mapsto> ?w), int (Suc n) * c)"
    by simp
  have "fst (update_proposal_conviction_entry ev1 i j ?k) = Ok (int (Suc n) * c)"
    using assms(1,10) h(2,5) fold
    by (auto simp: update_proposal_conviction_entry_def update_proposal_conviction_def pool_reads Let_def fund_proposal_def set_pool_proposal_def
        simp del: replicate_Suc of_nat_Suc)
  with k h(1) show ?thesis by simp
qed

section \<open>Examples\<close>

text \<open>A pool of a million that account 1 opens, and a proposal of account 7, which has nothing, for 400000 of it.\<close>

definition example_asking :: ConvictionProposal where
  "example_asking = asking 1 7 ''x'' 400000 1000"

definition example_pool :: ConvictionVotingPool where
  "example_pool = \<lparr>po_pool_id = 1, po_funding_amount = 1000000, po_refill_rate = 0, po_refill_period = 1,
     po_proposals = [1 \<mapsto> example_asking], po_proposal_ids = [1], po_total_conviction = 0, po_last_refill = 10\<rparr>"

definition pool_town :: gov where
  "pool_town = example_town\<lparr>g_conviction := \<lparr>cst_pools = [1 \<mapsto> example_pool], cst_pool_ids = [1], cst_next_pool_id = 2,
     cst_next_proposal_id = 2\<rparr>\<rparr>"

definition pool_run :: "(env \<times> gov_op) list" where
  "pool_run = [(example_env 10, OnConviction (CreatePool 1 1000000 0 1)),
     (example_env 10, OnConviction (CreateConvictionProposal 1 7 ''x'' 400000 7))]"

lemma town_simps:
  "is_initialized (bk_initialized (g_books example_town))" "g_admin example_town = Some 1"
  "g_conviction example_town = empty_conviction_state" "g_calibration example_town = None"
  "g_committees example_town = empty_committees_state"
  by (simp_all add: example_town_def deployed_def is_initialized_def)

lemma example_threshold: "calculate_conviction_threshold 400000 1000000 1000 = Ok 1000"
  by (simp add: calculate_conviction_threshold_def CONVICTION_PRECISION_def gov_eval saturating_mul_def)

lemma pool_run_eq: "fold gov_step pool_run example_town = pool_town"
proof -
  define po where "po = \<lparr>po_pool_id = 1, po_funding_amount = 1000000, po_refill_rate = 0, po_refill_period = 1,
     po_proposals = (\<lambda>_. None), po_proposal_ids = [], po_total_conviction = 0, po_last_refill = 10\<rparr>"
  define g where "g = example_town\<lparr>g_conviction := \<lparr>cst_pools = [1 \<mapsto> po], cst_pool_ids = [1], cst_next_pool_id = 2,
     cst_next_proposal_id = 1\<rparr>\<rparr>"
  have auth: "ev_auth (example_env 10) a" "ev_timestamp (example_env 10) = 10" for a by (simp_all add: example_env_def)
  have one: "gov_step (example_env 10, OnConviction (CreatePool 1 1000000 0 1)) example_town = g"
    using town_simps auth
    by (simp add: create_conviction_pool_entry_def create_conviction_pool_def require_admin_def require_admin_identity_def pool_reads
        empty_conviction_state_def Let_def u64_sat_add_def u64_max_def g_def po_def)
  have pool: "cst_pools (g_conviction g) 1 = Some po" "is_initialized (bk_initialized (g_books g))"
      "cst_next_proposal_id (g_conviction g) = 1"
    using town_simps by (simp_all add: g_def)
  have "gov_step (example_env 10, OnConviction (CreateConvictionProposal 1 7 ''x'' 400000 7)) g = pool_town"
    using pool auth example_threshold
    by (simp add: create_conviction_proposal_entry_def create_conviction_proposal_def pool_reads Let_def po_def set_pool_proposal_def
        put_pool_def u64_sat_add_def u64_max_def pool_town_def example_pool_def example_asking_def asking_def g_def)
  with one show ?thesis by (simp add: pool_run_def)
qed

lemma pool_town_simps:
  "is_initialized (bk_initialized (g_books pool_town))" "g_calibration pool_town = None"
  "cst_pools (g_conviction pool_town) 1 = Some example_pool" "cst_next_proposal_id (g_conviction pool_town) = 2"
  using town_simps by (simp_all add: pool_town_def)

theorem pools_sound_witness:
  "\<exists>po p. cst_pools (g_conviction (fold gov_step pool_run example_town)) 1 = Some po \<and> po_proposals po 1 = Some p \<and>
     0 \<le> po_funding_amount po \<and> 1000 \<le> cp_conviction_threshold p \<and> cp_conviction_threshold p \<le> 2000"
  using pools_sound [of example_town pool_run 1 example_pool] town_simps(3) pool_town_simps(3)
  by (auto simp: pool_run_eq example_pool_def)

text \<open>The proposal once it was funded.\<close>

definition funded_asking :: ConvictionProposal where
  "funded_asking = example_asking\<lparr>cp_conviction_accumulated := 9500, cp_status := ConvFunded, cp_funding_granted := 400000\<rparr>"

theorem funded_again_and_again_witness:
  "\<exists>po. cst_pools (g_conviction (fold gov_step (replicate 2 (example_env 10, OnConviction (FundProposal 1 1)))
      (put_pool 1 (set_pool_proposal 1 funded_asking example_pool) pool_town))) 1 = Some po \<and> po_funding_amount po = 200000"
  using funded_again_and_again [of "put_pool 1 (set_pool_proposal 1 funded_asking example_pool) pool_town" 1
      "set_pool_proposal 1 funded_asking example_pool" 1 funded_asking 2 "example_env 10"] pool_town_simps
  by (auto simp: funded_asking_def example_asking_def asking_def example_pool_def set_pool_proposal_def in_i128_def i128_min_def i128_max_def)

theorem unbacked_commitment_takes_pool_witness:
  "\<exists>po. cst_pools (g_conviction (fold gov_step [(example_env 10, OnConviction (CreateConvictionProposal 1 7 ''y'' 1000000 7)),
      (example_env 10, OnConviction (VoteConviction 1 2 7 10000000)),
      (example_env 86410, OnConviction (UpdateConviction 1 2))] pool_town)) 1 = Some po \<and> po_funding_amount po = 0"
  using unbacked_commitment_takes_pool [of pool_town 1 example_pool 1000000 "''y''" "example_env 10" 7 "example_env 86410" 2] pool_town_simps
  by (auto simp: example_pool_def example_env_def in_i128_def i128_min_def i128_max_def)

theorem revote_multiplies_conviction_witness:
  "fst (update_proposal_conviction_entry (example_env 86410) 1 1 (fold gov_step
      (concat (replicate 9 [(example_env 10, OnConviction (VoteConviction 1 1 7 10000000)),
         (example_env 10, OnConviction (WithdrawConvictionVote 1 1 7))]) @
       [(example_env 10, OnConviction (VoteConviction 1 1 7 10000000))]) pool_town)) = Ok 95000"
proof -
  have t: "ev_timestamp (example_env 86410) = ev_timestamp (example_env 10) + 86400" by (simp add: example_env_def)
  have "calculate_conviction 10000000 (ev_timestamp (example_env 86410) - ev_timestamp (example_env 10)) (get_conviction_calibration pool_town) = Ok 9500"
    using conviction_after_a_day [OF pool_town_simps(2) t, of 7]
    by (auto simp: update_vote_conviction_def commitment_def res_then_Ok)
  then show ?thesis
    using revote_multiplies_conviction [of pool_town 1 example_pool 1 example_asking "example_env 10" 7 10000000 "example_env 86410" 9500 9]
      pool_town_simps
    by (simp add: example_pool_def example_asking_def asking_def in_i128_def i128_min_def i128_max_def example_env_def)
qed

end
