(* ===== verification/CommitteeElections.thy ===== *)
theory CommitteeElections
  imports Committees
begin

text \<open>
  What an election computes: the tally is the stake behind the ballots, and the repeated search for the
  best remaining candidate is the front of the list of candidates sorted by votes, ties in the order of
  nomination.
\<close>

section \<open>Selection\<close>

lemma best_candidate_remaining:
  "best_candidate votes sel cs b = best_candidate votes [] (filter (\<lambda>c. c \<notin> set sel) cs) b"
  by (induction cs arbitrary: b) auto

lemma hd_insort_key: "hd (insort_key f x xs) = (if xs = [] \<or> f x \<le> f (hd xs) then x else hd xs)"
  by (cases xs) auto

lemma sort_key_empty_iff: "sort_key f xs = [] \<longleftrightarrow> xs = []"
  by (metis length_0_conv length_sort)

lemma best_of_two: "hd (sort_key f (b # c # cs)) = hd (sort_key f ((if f c < f b then c else b) # cs))"
  for f :: "'a \<Rightarrow> 'b::linorder"
  by (auto simp: hd_insort_key sort_key_empty_iff)

lemma best_candidate_Some: "best_candidate votes [] cs (Some b) = Some (hd (sort_key (\<lambda>c. - votes c) (b # cs)))"
proof (induction cs arbitrary: b)
  case (Cons c cs)
  let ?f = "\<lambda>c. - votes c"
  have "best_candidate votes [] (c # cs) (Some b) = best_candidate votes [] cs (Some (if ?f c < ?f b then c else b))" by auto
  also have "\<dots> = Some (hd (sort_key ?f ((if ?f c < ?f b then c else b) # cs)))" by (rule Cons.IH)
  also have "\<dots> = Some (hd (sort_key ?f (b # c # cs)))" by (simp only: best_of_two [of ?f b c cs])
  finally show ?case .
qed simp

lemma best_candidate_hd:
  assumes "\<forall>c \<in> set cs. i128_min < votes c"
  shows "best_candidate votes [] cs None = (case sort_key (\<lambda>c. - votes c) cs of [] \<Rightarrow> None | c # _ \<Rightarrow> Some c)"
proof (cases cs)
  case (Cons c ds)
  then have "best_candidate votes [] cs None = best_candidate votes [] ds (Some c)" using assms by simp
  also have "\<dots> = Some (hd (sort_key (\<lambda>c. - votes c) cs))" by (simp add: best_candidate_Some Cons)
  also have "\<dots> = (case sort_key (\<lambda>c. - votes c) cs of [] \<Rightarrow> None | c # _ \<Rightarrow> Some c)"
    using sort_key_empty_iff [of "\<lambda>c. - votes c" cs] Cons by (auto split: list.splits)
  finally show ?thesis .
qed simp

lemma select_winners_sorted:
  assumes "distinct cs" "\<forall>c \<in> set cs. i128_min < votes c"
  shows "select_winners votes cs n ws = ws @ take n (sort_key (\<lambda>c. - votes c) (filter (\<lambda>c. c \<notin> set ws) cs))"
proof (induction n arbitrary: ws)
  case (Suc n)
  let ?f = "\<lambda>c. - votes c" and ?rest = "\<lambda>ws. filter (\<lambda>c. c \<notin> set ws) cs"
  have best: "best_candidate votes ws cs None = (case sort_key ?f (?rest ws) of [] \<Rightarrow> None | c # _ \<Rightarrow> Some c)"
    using assms(2) by (subst best_candidate_remaining) (rule best_candidate_hd, simp)
  show ?case
  proof (cases "sort_key ?f (?rest ws)")
    case Nil
    then show ?thesis by (simp add: best)
  next
    case (Cons x xs)
    have "distinct (sort_key ?f (?rest ws))" using assms(1) by simp
    then have x: "x \<notin> set xs" by (simp add: Cons)
    have "sort_key ?f (?rest (ws @ [x])) = sort_key ?f (filter (\<lambda>c. c \<noteq> x) (?rest ws))"
      by (rule arg_cong [where f = "sort_key ?f"]) (auto intro: filter_cong)
    also have "\<dots> = filter (\<lambda>c. c \<noteq> x) (x # xs)" unfolding Cons [symmetric] by (rule filter_sort [symmetric])
    also have "\<dots> = xs" using x by (auto simp: filter_id_conv)
    finally show ?thesis using Suc.IH [of "ws @ [x]"] by (simp add: best Cons)
  qed
qed simp

section \<open>Tally\<close>

text \<open>The stake behind the ballots for a candidate; a ballot of an account without stake does not count.\<close>

definition ballot_counts :: "gov \<Rightarrow> CommitteeElection \<Rightarrow> addr \<times> addr \<Rightarrow> bool" where
  "ballot_counts g e b \<longleftrightarrow> 0 < get_staked_balance (g_books g) (fst b) \<and> snd b \<in> set (el_candidates e)"

definition stake_for :: "gov \<Rightarrow> CommitteeElection \<Rightarrow> addr \<Rightarrow> int" where
  "stake_for g e c = (\<Sum>b \<leftarrow> filter (\<lambda>b. ballot_counts g e b \<and> snd b = c) (el_votes e). get_staked_balance (g_books g) (fst b))"

definition stake_cast :: "gov \<Rightarrow> CommitteeElection \<Rightarrow> int" where
  "stake_cast g e = (\<Sum>b \<leftarrow> filter (ballot_counts g e) (el_votes e). get_staked_balance (g_books g) (fst b))"

lemma tally_ballot_Ok:
  assumes "tally_ballot g e b t = Ok t1"
  shows "t1 = (if ballot_counts g e b
      then t\<lparr>ty_candidate_votes := (ty_candidate_votes t)(snd b \<mapsto>
          opt_or 0 (ty_candidate_votes t (snd b)) + get_staked_balance (g_books g) (fst b)),
        ty_valid := u32_sat_add (ty_valid t) 1, ty_weight := ty_weight t + get_staked_balance (g_books g) (fst b)\<rparr>
      else t\<lparr>ty_rejected := u32_sat_add (ty_rejected t) 1\<rparr>)"
  using assms by (auto simp: tally_ballot_def ballot_counts_def res_then_Ok Let_def split: prod.splits if_splits)

lemma tally_fold:
  assumes "res_fold (tally_ballot g e) bs t = Ok t'" "ty_valid t \<le> u32_max"
  shows "opt_or 0 (ty_candidate_votes t' c) = opt_or 0 (ty_candidate_votes t c) +
      (\<Sum>b \<leftarrow> filter (\<lambda>b. ballot_counts g e b \<and> snd b = c) bs. get_staked_balance (g_books g) (fst b))"
    "ty_weight t' = ty_weight t + (\<Sum>b \<leftarrow> filter (ballot_counts g e) bs. get_staked_balance (g_books g) (fst b))"
    "ty_valid t' = min u32_max (ty_valid t + length (filter (ballot_counts g e) bs))"
  using assms
proof (induction bs arbitrary: t)
  case (Cons b bs)
  { case 1
    then obtain t1 where t1: "tally_ballot g e b t = Ok t1" "res_fold (tally_ballot g e) bs t1 = Ok t'" by (auto simp: res_then_Ok)
    note eq = tally_ballot_Ok [OF t1(1)]
    have "ty_valid t1 \<le> u32_max" using 1(2) by (simp add: eq u32_sat_add_def)
    from Cons.IH(1) [OF t1(2) this] show ?case by (auto simp: eq)
  next
    case 2
    then obtain t1 where t1: "tally_ballot g e b t = Ok t1" "res_fold (tally_ballot g e) bs t1 = Ok t'" by (auto simp: res_then_Ok)
    note eq = tally_ballot_Ok [OF t1(1)]
    have "ty_valid t1 \<le> u32_max" using 2(2) by (simp add: eq u32_sat_add_def)
    from Cons.IH(2) [OF t1(2) this] show ?case by (simp add: eq)
  next
    case 3
    then obtain t1 where t1: "tally_ballot g e b t = Ok t1" "res_fold (tally_ballot g e) bs t1 = Ok t'" by (auto simp: res_then_Ok)
    note eq = tally_ballot_Ok [OF t1(1)]
    have "ty_valid t1 \<le> u32_max" using 3(2) by (simp add: eq u32_sat_add_def)
    from Cons.IH(3) [OF t1(2) this] show ?case by (auto simp: eq u32_sat_add_def min_def)
  }
qed simp_all

lemma tally_Ok:
  assumes "tally_election_votes g e = Ok t"
  shows "opt_or 0 (ty_candidate_votes t c) = stake_for g e c" "ty_weight t = stake_cast g e"
    "ty_valid t = min u32_max (length (filter (ballot_counts g e) (el_votes e)))"
  using tally_fold [OF assms [unfolded tally_election_votes_def]]
  by (simp_all add: stake_for_def stake_cast_def u32_max_def)

lemma stake_for_nonneg: "0 \<le> stake_for g e c"
  unfolding stake_for_def by (rule sum_list_nonneg) (auto simp: ballot_counts_def)

definition elected :: "gov \<Rightarrow> CommitteeElection \<Rightarrow> addr list" where
  "elected g e = take (el_positions_available e) (sort_key (\<lambda>c. - stake_for g e c) (el_candidates e))"

lemma winners_elected:
  assumes "tally_election_votes g e = Ok t" "distinct (el_candidates e)"
  shows "select_election_winners e (ty_candidate_votes t) = elected g e"
proof -
  have "\<forall>c \<in> set (el_candidates e). i128_min < stake_for g e c"
  proof
    fix c
    have "i128_min < 0" by (simp add: i128_min_def)
    also have "0 \<le> stake_for g e c" by (rule stake_for_nonneg)
    finally show "i128_min < stake_for g e c" .
  qed
  from select_winners_sorted [OF assms(2) this, of "el_positions_available e" "[]"] show ?thesis
    by (simp add: select_election_winners_def tally_Ok(1) [OF assms(1)] elected_def)
qed

lemma elected_distinct: "distinct (el_candidates e) \<Longrightarrow> distinct (elected g e)"
  by (simp add: elected_def)

lemma elected_candidates: "set (elected g e) \<subseteq> set (el_candidates e)"
  using set_take_subset [of "el_positions_available e" "sort_key (\<lambda>c. - stake_for g e c) (el_candidates e)"]
  by (simp add: elected_def)

lemma elected_length: "length (elected g e) = min (length (el_candidates e)) (el_positions_available e)"
  by (simp add: elected_def)

lemma elected_most:
  assumes "c \<in> set (elected g e)" "d \<in> set (el_candidates e) - set (elected g e)"
  shows "stake_for g e d \<le> stake_for g e c"
proof -
  let ?f = "\<lambda>c. - stake_for g e c" and ?n = "el_positions_available e"
  let ?s = "sort_key ?f (el_candidates e)"
  have split: "?s = elected g e @ drop ?n ?s" by (simp add: elected_def)
  have "sorted (map ?f (elected g e @ drop ?n ?s))" by (simp only: split [symmetric] sorted_sort_key)
  moreover have "d \<in> set (drop ?n ?s)" using assms(2) split by (metis Diff_iff UnE set_append set_sort)
  ultimately show ?thesis using assms(1) by (auto simp: sorted_append)
qed

end
