(* ===== verification/CommitteeSafety.thy ===== *)
theory CommitteeSafety
  imports CouncilFrame CommitteeElections
begin

text \<open>
  Committees along the histories of the governance contract: who sits on a committee, what its books of
  decisions say, who wins an election, what an executed decision may spend, and when a request across
  committees is approved.
\<close>

section \<open>Decisions\<close>

definition votes_counted :: "CommitteeVote \<Rightarrow> CommitteeDecision \<Rightarrow> nat" where
  "votes_counted v d = length (filter (\<lambda>b. snd b = v) (cd_votes d))"

definition decision_ok :: "CommitteeDecision \<Rightarrow> bool" where
  "decision_ok d \<longleftrightarrow> swf (cd_votes d) \<and> cd_votes_for d = min u32_max (votes_counted ComFor d) \<and>
     cd_votes_against d = min u32_max (votes_counted ComAgainst d) \<and>
     cd_votes_abstain d = min u32_max (votes_counted ComAbstain d) \<and>
     (cd_status d \<in> {DecApproved, DecExecuted} \<longrightarrow> 0 < cd_votes_for d) \<and>
     (cd_status d = DecExecuted \<longrightarrow> cd_executed_at d \<noteq> None) \<and>
     (cd_executed_at d \<noteq> None \<longrightarrow> cd_status d \<in> {DecExecuted, DecOverridden})"

lemma count_new_ballot:
  assumes "swf m" "sget m k = None"
  shows "length (filter (\<lambda>b. snd b = w) (sset k v m)) = length (filter (\<lambda>b. snd b = w) m) + (if v = w then 1 else 0)"
  using assms(2) by (induction m rule: sset.induct [where ?a0.0 = k and ?a1.0 = v]) auto

lemma count_vote_fields:
  "cd_status (count_vote a v d) = cd_status d" "cd_executed_at (count_vote a v d) = cd_executed_at d"
  "cd_votes (count_vote a v d) = sset a v (cd_votes d)" "cd_decision_id (count_vote a v d) = cd_decision_id d"
  by (simp_all add: count_vote_def Let_def split: CommitteeVote.split)

lemma count_vote_ok:
  assumes "decision_ok d" "cd_status d = DecVoting" "sget (cd_votes d) a = None"
  shows "decision_ok (count_vote a v d)"
proof -
  have wf: "swf (cd_votes d)" using assms(1) by (simp add: decision_ok_def)
  have n: "votes_counted w (count_vote a v d) = votes_counted w d + (if v = w then 1 else 0)" for w
    unfolding votes_counted_def count_vote_fields by (rule count_new_ballot [OF wf assms(3)])
  have "cd_votes_for (count_vote a v d) = min u32_max (votes_counted ComFor d + (if v = ComFor then 1 else 0))"
    "cd_votes_against (count_vote a v d) = min u32_max (votes_counted ComAgainst d + (if v = ComAgainst then 1 else 0))"
    "cd_votes_abstain (count_vote a v d) = min u32_max (votes_counted ComAbstain d + (if v = ComAbstain then 1 else 0))"
    using assms(1) by (cases v; auto simp: decision_ok_def count_vote_def Let_def u32_sat_add_def min_def)+
  with n show ?thesis
    using assms wf by (auto simp: decision_ok_def count_vote_fields)
qed

lemma decide_fields:
  "cd_votes (decide n d) = cd_votes d" "cd_votes_for (decide n d) = cd_votes_for d" "cd_votes_against (decide n d) = cd_votes_against d"
  "cd_votes_abstain (decide n d) = cd_votes_abstain d" "cd_executed_at (decide n d) = cd_executed_at d"
  "cd_decision_id (decide n d) = cd_decision_id d" "cd_action (decide n d) = cd_action d"
  by (simp_all add: decide_def Let_def)

lemma decide_ok:
  assumes "decision_ok d" "cd_status d = DecVoting"
  shows "decision_ok (decide n d)"
proof -
  have "cd_executed_at d = None" using assms by (auto simp: decision_ok_def)
  moreover have "cd_status (decide n d) \<noteq> DecExecuted" "cd_status (decide n d) = DecApproved \<longrightarrow> 0 < cd_votes_for d"
    using assms(2) by (auto simp: decide_def Let_def)
  ultimately show ?thesis using assms(1) by (auto simp: decision_ok_def decide_fields votes_counted_def)
qed

section \<open>Committees\<close>

definition executed_once :: "CommitteeDecision \<Rightarrow> bool" where
  "executed_once d \<longleftrightarrow> cd_executed_at d \<noteq> None"

definition metrics_ok :: "CommitteeDecision list \<Rightarrow> PerformanceMetrics \<Rightarrow> bool" where
  "metrics_ok ds m \<longleftrightarrow> pm_total_decisions m = min u32_max (length ds) \<and>
     pm_decisions_executed m = min u32_max (length (filter executed_once ds)) \<and>
     pm_overridden_decisions m = min u32_max (length (filter (\<lambda>d. cd_status d = DecOverridden) ds))"

definition seats_ok :: "Committee \<Rightarrow> bool" where
  "seats_ok c \<longleftrightarrow> distinct (co_members c) \<and> co_chair c \<in> set (co_members c) \<and> length (co_members c) \<le> 15 \<and>
     3 \<le> co_max_members c \<and> co_max_members c \<le> 15 \<and> co_delegated_authorities c \<noteq> [] \<and>
     list_all authority_valid (co_delegated_authorities c)"

definition committee_ok :: "Committee \<Rightarrow> bool" where
  "committee_ok c \<longleftrightarrow> seats_ok c \<and> metrics_ok (co_decisions c) (co_performance_metrics c) \<and> (\<forall>d \<in> set (co_decisions c). decision_ok d)"

lemma find_decision_index_Ok:
  "find_decision_index ds k = Ok n \<Longrightarrow> n < length ds \<and> cd_decision_id (ds ! n) = k"
  by (induction ds arbitrary: n) (auto simp: res_then_Ok split: if_splits)

lemma count_update:
  "n < length xs \<Longrightarrow> length (filter P (xs[n := y])) + (if P (xs ! n) then 1 else 0) = length (filter P xs) + (if P y then 1 else 0)"
proof (induction xs arbitrary: n)
  case (Cons x xs)
  then show ?case by (cases n) auto
qed simp

lemma put_decision_ok:
  assumes "committee_ok c" "n < length (co_decisions c)" "decision_ok d"
    and "executed_once d = executed_once (co_decisions c ! n)"
    and "(cd_status d = DecOverridden) = (cd_status (co_decisions c ! n) = DecOverridden)"
  shows "committee_ok (put_decision n d c)"
proof -
  note count = count_update [OF assms(2), of _ d]
  have "length (filter executed_once ((co_decisions c)[n := d])) = length (filter executed_once (co_decisions c))"
    "length (filter (\<lambda>d. cd_status d = DecOverridden) ((co_decisions c)[n := d])) = length (filter (\<lambda>d. cd_status d = DecOverridden) (co_decisions c))"
    using count [of executed_once] count [of "\<lambda>d. cd_status d = DecOverridden"] assms(4,5) by (auto split: if_splits)
  moreover have "\<forall>e \<in> set ((co_decisions c)[n := d]). decision_ok e"
    using assms(1,3) set_update_subset_insert [of "co_decisions c" n d] by (auto simp: committee_ok_def)
  ultimately show ?thesis
    using assms(1) by (simp add: committee_ok_def put_decision_def metrics_ok_def seats_ok_def)
qed

text \<open>The decision is executed, respectively overridden, and the count of the metrics goes up by one.\<close>

lemma executed_ok:
  assumes "committee_ok c" "n < length (co_decisions c)" "cd_status (co_decisions c ! n) = DecApproved"
    and "pm_total_decisions m = pm_total_decisions (co_performance_metrics c)"
    and "pm_decisions_executed m = u32_sat_add (pm_decisions_executed (co_performance_metrics c)) 1"
    and "pm_overridden_decisions m = pm_overridden_decisions (co_performance_metrics c)"
  shows "committee_ok ((put_decision n ((co_decisions c ! n)\<lparr>cd_status := DecExecuted, cd_executed_at := Some t\<rparr>) c)
    \<lparr>co_performance_metrics := m\<rparr>)"
proof -
  let ?d = "(co_decisions c ! n)\<lparr>cd_status := DecExecuted, cd_executed_at := Some t\<rparr>"
  have old: "decision_ok (co_decisions c ! n)" using assms(1,2) by (simp add: committee_ok_def)
  then have d: "decision_ok ?d" "\<not> executed_once (co_decisions c ! n)"
    using assms(3) by (auto simp: decision_ok_def votes_counted_def executed_once_def)
  note count = count_update [OF assms(2), of _ ?d]
  have "length (filter executed_once ((co_decisions c)[n := ?d])) = length (filter executed_once (co_decisions c)) + 1"
    using count [of executed_once] d(2) by (simp add: executed_once_def)
  moreover have "length (filter (\<lambda>d. cd_status d = DecOverridden) ((co_decisions c)[n := ?d])) =
      length (filter (\<lambda>d. cd_status d = DecOverridden) (co_decisions c))"
    using count [of "\<lambda>d. cd_status d = DecOverridden"] assms(3) by simp
  moreover have "\<forall>e \<in> set ((co_decisions c)[n := ?d]). decision_ok e"
    using assms(1) d(1) set_update_subset_insert [of "co_decisions c" n ?d] by (auto simp: committee_ok_def)
  ultimately show ?thesis
    using assms(1,4-6) by (simp add: committee_ok_def put_decision_def metrics_ok_def seats_ok_def u32_sat_add_def)
qed

lemma overridden_ok:
  assumes "committee_ok c" "n < length (co_decisions c)" "cd_status (co_decisions c ! n) \<noteq> DecOverridden"
  shows "committee_ok ((put_decision n ((co_decisions c ! n)\<lparr>cd_status := DecOverridden\<rparr>) c)
    \<lparr>co_performance_metrics := (co_performance_metrics c)
      \<lparr>pm_overridden_decisions := u32_sat_add (pm_overridden_decisions (co_performance_metrics c)) 1\<rparr>\<rparr>)"
proof -
  let ?d = "(co_decisions c ! n)\<lparr>cd_status := DecOverridden\<rparr>"
  have "decision_ok (co_decisions c ! n)" using assms(1,2) by (simp add: committee_ok_def)
  then have d: "decision_ok ?d" by (auto simp: decision_ok_def votes_counted_def)
  note count = count_update [OF assms(2), of _ ?d]
  have "length (filter executed_once ((co_decisions c)[n := ?d])) = length (filter executed_once (co_decisions c))"
    using count [of executed_once] by (auto simp: executed_once_def split: if_splits)
  moreover have "length (filter (\<lambda>d. cd_status d = DecOverridden) ((co_decisions c)[n := ?d])) =
      length (filter (\<lambda>d. cd_status d = DecOverridden) (co_decisions c)) + 1"
    using count [of "\<lambda>d. cd_status d = DecOverridden"] assms(3) by simp
  moreover have "\<forall>e \<in> set ((co_decisions c)[n := ?d]). decision_ok e"
    using assms(1) d(1) set_update_subset_insert [of "co_decisions c" n ?d] by (auto simp: committee_ok_def)
  ultimately show ?thesis
    using assms(1) by (simp add: committee_ok_def put_decision_def metrics_ok_def seats_ok_def u32_sat_add_def)
qed

lemma proposed_ok:
  assumes "committee_ok c" "decision_ok d" "cd_status d = DecVoting"
  shows "committee_ok (c\<lparr>co_decisions := co_decisions c @ [d], co_performance_metrics := (co_performance_metrics c)
    \<lparr>pm_total_decisions := u32_sat_add (pm_total_decisions (co_performance_metrics c)) 1\<rparr>\<rparr>)"
proof -
  have "\<not> executed_once d" using assms(2,3) by (auto simp: executed_once_def decision_ok_def)
  then show ?thesis
    using assms by (simp add: committee_ok_def metrics_ok_def seats_ok_def u32_sat_add_def ball_Un)
qed

section \<open>Elections and requests\<close>

definition election_ok :: "CommitteeElection \<Rightarrow> bool" where
  "election_ok e \<longleftrightarrow> distinct (el_candidates e) \<and> swf (el_votes e) \<and> snd ` set (el_votes e) \<subseteq> set (el_candidates e) \<and>
     3 \<le> el_positions_available e \<and> el_positions_available e \<le> 15"

definition request_ok :: "CrossCommitteeRequest \<Rightarrow> bool" where
  "request_ok r \<longleftrightarrow> swf (xr_approvals r) \<and> fst ` set (xr_approvals r) \<subseteq> set (xr_approving_committees r) \<and>
     (xr_status r = CrossApproved \<longrightarrow> length (xr_approvals r) = length (xr_approving_committees r))"

definition councils_ok :: "gov \<Rightarrow> bool" where
  "councils_ok g \<longleftrightarrow> (\<forall>i c. cs_committees (g_committees g) i = Some c \<longrightarrow> committee_ok c) \<and>
     (\<forall>i e. cs_elections (g_committees g) i = Some e \<longrightarrow> election_ok e) \<and>
     (\<forall>i r. cs_cross_committee_requests (g_committees g) i = Some r \<longrightarrow> request_ok r)"

lemma councils_okD:
  "get_committee g i = Ok c \<Longrightarrow> councils_ok g \<Longrightarrow> committee_ok c"
  "get_election g i = Ok e \<Longrightarrow> councils_ok g \<Longrightarrow> election_ok e"
  "get_cross_committee_request g i = Ok r \<Longrightarrow> councils_ok g \<Longrightarrow> request_ok r"
  by (simp_all add: councils_ok_def get_committee_def get_election_def get_cross_committee_request_def ok_or_Ok)

lemma put_committee_keeps: "councils_ok g \<Longrightarrow> committee_ok c \<Longrightarrow> councils_ok (put_committee i c g)"
  by (simp add: councils_ok_def put_committee_def)

lemma put_election_keeps:
  assumes "councils_ok g" "\<And>e. eo = Some e \<Longrightarrow> election_ok e"
  shows "councils_ok (put_election i eo g)"
  using assms by (simp add: councils_ok_def put_election_def)

lemma put_request_keeps:
  assumes "councils_ok g" "request_ok r"
  shows "councils_ok (g\<lparr>g_committees := (g_committees g)\<lparr>cs_cross_committee_requests :=
      (cs_cross_committee_requests (g_committees g))(i \<mapsto> r)\<rparr>\<rparr>)"
  using assms by (simp add: councils_ok_def)

lemma councils_frame [simp]:
  "councils_ok (g\<lparr>g_books := b\<rparr>) = councils_ok g" "councils_ok (g\<lparr>g_treasury_state := t\<rparr>) = councils_ok g"
  "councils_ok (g\<lparr>g_admin_pending := ap\<rparr>) = councils_ok g"
  "councils_ok (g\<lparr>g_committees := (g_committees g)\<lparr>cs_next_decision_id := n\<rparr>\<rparr>) = councils_ok g"
  "councils_ok (g\<lparr>g_committees := (g_committees g)\<lparr>cs_next_cross_req_id := n\<rparr>\<rparr>) = councils_ok g"
  "councils_ok (g\<lparr>g_committees := (g_committees g)\<lparr>cs_next_committee_id := n\<rparr>\<rparr>) = councils_ok g"
  by (simp_all add: councils_ok_def)

lemma length_members_candidates: "distinct xs \<Longrightarrow> set xs \<subseteq> set ys \<Longrightarrow> length xs \<le> length ys"
  by (metis card_length card_mono distinct_card finite_set order_trans)

section \<open>Every entry point keeps the committees\<close>

lemmas committee_Ok = and_then_Ok guard_Ok guards_Ok wrapper_defs

lemma committee_ok_parts:
  "committee_ok c \<Longrightarrow> committee_ok (c\<lparr>co_performance_metrics := (co_performance_metrics c)\<lparr>pm_community_approval_rating := r\<rparr>\<rparr>)"
  "committee_ok c \<Longrightarrow> committee_ok (c\<lparr>co_active := b, co_dissolved_at := t\<rparr>)"
  "committee_ok c \<Longrightarrow> distinct ws \<Longrightarrow> h \<in> set ws \<Longrightarrow> length ws \<le> 15 \<Longrightarrow> committee_ok (c\<lparr>co_members := ws, co_chair := h\<rparr>)"
  by (simp_all add: committee_ok_def seats_ok_def metrics_ok_def)

lemma new_committee_ok:
  assumes "m \<noteq> []" "distinct m" "ch \<in> set m" "length m \<le> mx" "3 \<le> mx" "mx \<le> 15" "au \<noteq> []" "list_all authority_valid au"
  shows "committee_ok \<lparr>co_id = i, co_name = n, co_description = s, co_members = m, co_chair = ch, co_max_members = mx,
    co_delegated_authorities = au, co_formation_date = t, co_term_end = e, co_decisions = [],
    co_performance_metrics = \<lparr>pm_total_decisions = 0, pm_decisions_executed = 0, pm_avg_decision_time = 0,
      pm_community_approval_rating = 0, pm_overridden_decisions = 0\<rparr>, co_active = True, co_dissolved_at = None\<rparr>"
  using assms by (simp add: committee_ok_def seats_ok_def metrics_ok_def)

lemma create_committee_keeps:
  assumes "create_committee ev n s ms ch mx au td g = (Ok v, g')" "councils_ok g"
  shows "councils_ok g'"
proof -
  from assms(1) have g': "\<exists>ids k. g' = (let h = put_committee (cs_next_committee_id (g_committees g)) v g
      in h\<lparr>g_committees := (g_committees h)\<lparr>cs_committee_ids := ids, cs_next_committee_id := k\<rparr>\<rparr>)" and v: "committee_ok v"
    by (auto simp: create_committee_def validate_authorities_def put_committee_def committee_Ok Let_def split: if_splits
        intro!: new_committee_ok)
  from put_committee_keeps [OF assms(2) v] g' show ?thesis
    by (auto simp: councils_ok_def Let_def)
qed

lemma propose_decision_Ok:
  assumes "propose_decision ev i a s x g = (Ok d, g')"
  shows "\<exists>c. get_committee g i = Ok c \<and> a \<in> set (co_members c) \<and>
    d = \<lparr>cd_decision_id = cs_next_decision_id (g_committees g), cd_proposal = s, cd_votes_for = 0, cd_votes_against = 0,
      cd_votes_abstain = 0, cd_status = DecVoting, cd_executed_at = None, cd_proposed_at = ev_timestamp ev, cd_action = x, cd_votes = []\<rparr> \<and>
    g' = put_committee i (c\<lparr>co_decisions := co_decisions c @ [d], co_performance_metrics := (co_performance_metrics c)
        \<lparr>pm_total_decisions := u32_sat_add (pm_total_decisions (co_performance_metrics c)) 1\<rparr>\<rparr>) g
      \<lparr>g_committees := (g_committees (put_committee i (c\<lparr>co_decisions := co_decisions c @ [d], co_performance_metrics := (co_performance_metrics c)
        \<lparr>pm_total_decisions := u32_sat_add (pm_total_decisions (co_performance_metrics c)) 1\<rparr>\<rparr>) g))
        \<lparr>cs_next_decision_id := u64_sat_add (cs_next_decision_id (g_committees g)) 1\<rparr>\<rparr>"
  using assms unfolding propose_decision_def Let_def by (auto simp: committee_Ok split: if_splits)

lemma propose_decision_keeps:
  assumes "propose_decision ev i a s x g = (Ok d, g')" "councils_ok g"
  shows "councils_ok g'"
proof -
  from propose_decision_Ok [OF assms(1)] obtain c where c: "get_committee g i = Ok c"
    and d: "d = \<lparr>cd_decision_id = cs_next_decision_id (g_committees g), cd_proposal = s, cd_votes_for = 0, cd_votes_against = 0,
      cd_votes_abstain = 0, cd_status = DecVoting, cd_executed_at = None, cd_proposed_at = ev_timestamp ev, cd_action = x, cd_votes = []\<rparr>"
    and g': "g' = put_committee i (c\<lparr>co_decisions := co_decisions c @ [d], co_performance_metrics := (co_performance_metrics c)
        \<lparr>pm_total_decisions := u32_sat_add (pm_total_decisions (co_performance_metrics c)) 1\<rparr>\<rparr>) g
      \<lparr>g_committees := (g_committees (put_committee i (c\<lparr>co_decisions := co_decisions c @ [d], co_performance_metrics := (co_performance_metrics c)
        \<lparr>pm_total_decisions := u32_sat_add (pm_total_decisions (co_performance_metrics c)) 1\<rparr>\<rparr>) g))
        \<lparr>cs_next_decision_id := u64_sat_add (cs_next_decision_id (g_committees g)) 1\<rparr>\<rparr>"
    by blast
  have "decision_ok d" "cd_status d = DecVoting" by (simp_all add: d decision_ok_def votes_counted_def)
  from put_committee_keeps [OF assms(2) proposed_ok [OF councils_okD(1) [OF c assms(2)] this]] show ?thesis
    by (simp add: g')
qed

lemma vote_on_decision_Ok:
  assumes "vote_on_decision i k a v g = (Ok d, g')"
  shows "\<exists>c n. get_committee g i = Ok c \<and> a \<in> set (co_members c) \<and> find_decision_index (co_decisions c) k = Ok n \<and>
    cd_status (co_decisions c ! n) = DecVoting \<and> sget (cd_votes (co_decisions c ! n)) a = None \<and>
    d = decide (length (co_members c)) (count_vote a v (co_decisions c ! n)) \<and> g' = put_committee i (put_decision n d c) g"
  using assms unfolding vote_on_decision_def Let_def by (auto simp: committee_Ok split: if_splits)

lemma vote_on_decision_keeps:
  assumes "vote_on_decision i k a v g = (Ok d, g')" "councils_ok g"
  shows "councils_ok g'"
proof -
  from vote_on_decision_Ok [OF assms(1)] obtain c n where c: "get_committee g i = Ok c"
    and n: "find_decision_index (co_decisions c) k = Ok n" "cd_status (co_decisions c ! n) = DecVoting" "sget (cd_votes (co_decisions c ! n)) a = None"
    and d: "d = decide (length (co_members c)) (count_vote a v (co_decisions c ! n))" and g': "g' = put_committee i (put_decision n d c) g"
    by blast
  have ok: "committee_ok c" using councils_okD(1) [OF c assms(2)] .
  have len: "n < length (co_decisions c)" using find_decision_index_Ok [OF n(1)] by simp
  then have old: "decision_ok (co_decisions c ! n)" using ok by (simp add: committee_ok_def)
  have counted: "decision_ok (count_vote a v (co_decisions c ! n))" by (rule count_vote_ok [OF old n(2,3)])
  then have new: "decision_ok d" unfolding d by (rule decide_ok) (simp add: count_vote_fields n(2))
  have "executed_once d = executed_once (co_decisions c ! n)" by (simp add: d executed_once_def decide_fields count_vote_fields)
  moreover have "(cd_status d = DecOverridden) = (cd_status (co_decisions c ! n) = DecOverridden)"
    using n(2) by (simp add: d decide_def Let_def count_vote_fields)
  ultimately show ?thesis
    unfolding g' by (intro put_committee_keeps [OF assms(2)] put_decision_ok [OF ok len new])
qed

lemma override_decision_keeps:
  assumes "override_decision i k g = (Ok d, g')" "councils_ok g"
  shows "councils_ok g'"
proof -
  from assms(1) obtain c n where c: "get_committee g i = Ok c" and n: "find_decision_index (co_decisions c) k = Ok n"
      "cd_status (co_decisions c ! n) \<noteq> DecOverridden"
    and g': "g' = put_committee i ((put_decision n ((co_decisions c ! n)\<lparr>cd_status := DecOverridden\<rparr>) c)
      \<lparr>co_performance_metrics := (co_performance_metrics c)
        \<lparr>pm_overridden_decisions := u32_sat_add (pm_overridden_decisions (co_performance_metrics c)) 1\<rparr>\<rparr>) g"
    unfolding override_decision_def Let_def by (auto simp: committee_Ok split: if_splits)
  show ?thesis
    unfolding g' using find_decision_index_Ok [OF n(1)] n(2)
    by (intro put_committee_keeps [OF assms(2)] overridden_ok councils_okD(1) [OF c assms(2)]) simp_all
qed

lemma execute_decision_Ok:
  assumes "execute_decision ev i k a g = (Ok d, g')"
  shows "\<exists>c n h m. get_committee g i = Ok c \<and> ensure_committee_active c (ev_timestamp ev) = Ok () \<and>
    (a = co_chair c \<or> a \<in> set (co_members c)) \<and> find_decision_index (co_decisions c) k = Ok n \<and>
    cd_status (co_decisions c ! n) = DecApproved \<and> verify_committee_authority g c (cd_action (co_decisions c ! n)) = Ok () \<and>
    execute_decision_action (cd_action (co_decisions c ! n)) (ev_timestamp ev) g = (Ok (), h) \<and>
    d = (co_decisions c ! n)\<lparr>cd_status := DecExecuted, cd_executed_at := Some (ev_timestamp ev)\<rparr> \<and>
    update_avg_decision_time ((co_performance_metrics c)\<lparr>pm_decisions_executed :=
      u32_sat_add (pm_decisions_executed (co_performance_metrics c)) 1\<rparr>) d (ev_timestamp ev) = Ok m \<and>
    g' = put_committee i ((put_decision n d c)\<lparr>co_performance_metrics := m\<rparr>) h"
  using assms unfolding execute_decision_def Let_def by (auto simp: committee_Ok split: if_splits)

lemma update_avg_Ok:
  assumes "update_avg_decision_time m d t = Ok m'"
  shows "\<exists>x. m' = m\<lparr>pm_avg_decision_time := x\<rparr>"
  using assms by (auto simp: update_avg_decision_time_def Let_def res_then_Ok split: if_splits)

lemma execute_action_councils: "councils_same K g \<Longrightarrow> councils_same K (snd (execute_decision_action a now g))"
  by (cases a) (auto simp: committee_spend_def intro!: councils_same_keep)

lemma execute_decision_action_committees:
  "execute_decision_action a now g = (r, h) \<Longrightarrow> g_committees h = g_committees g"
  using execute_action_councils [of "g_committees g" g a now] by (simp add: councils_same_def)

lemma councils_ok_local: "g_committees h = g_committees g \<Longrightarrow> councils_ok g \<Longrightarrow> councils_ok h"
  by (simp add: councils_ok_def)

lemma execute_decision_keeps:
  assumes "execute_decision ev i k a g = (Ok d, g')" "councils_ok g"
  shows "councils_ok g'"
proof -
  from execute_decision_Ok [OF assms(1)] obtain c n h m where c: "get_committee g i = Ok c"
    and n: "find_decision_index (co_decisions c) k = Ok n" "cd_status (co_decisions c ! n) = DecApproved"
    and h: "execute_decision_action (cd_action (co_decisions c ! n)) (ev_timestamp ev) g = (Ok (), h)"
    and d: "d = (co_decisions c ! n)\<lparr>cd_status := DecExecuted, cd_executed_at := Some (ev_timestamp ev)\<rparr>"
    and m: "update_avg_decision_time ((co_performance_metrics c)\<lparr>pm_decisions_executed :=
      u32_sat_add (pm_decisions_executed (co_performance_metrics c)) 1\<rparr>) d (ev_timestamp ev) = Ok m"
    and g': "g' = put_committee i ((put_decision n d c)\<lparr>co_performance_metrics := m\<rparr>) h"
    by blast
  from update_avg_Ok [OF m] obtain x where x: "m = (co_performance_metrics c)\<lparr>pm_decisions_executed :=
      u32_sat_add (pm_decisions_executed (co_performance_metrics c)) 1, pm_avg_decision_time := x\<rparr>" by blast
  have h_ok: "councils_ok h" using councils_ok_local [OF execute_decision_action_committees [OF h] assms(2)] .
  show ?thesis
    unfolding g' d
    by (rule put_committee_keeps [OF h_ok], rule executed_ok [OF councils_okD(1) [OF c assms(2)]])
      (use find_decision_index_Ok [OF n(1)] n(2) in \<open>simp_all add: x\<close>)
qed

lemma start_election_keeps:
  assumes "start_election ev i n d mi q g = (Ok e, g')" "councils_ok g"
  shows "councils_ok g'"
proof -
  from assms(1) obtain c where c: "get_committee g i = Ok c" "3 \<le> n" "n \<le> co_max_members c" "g' = put_election i (Some e) g"
    "el_candidates e = []" "el_votes e = []" "el_positions_available e = n"
    unfolding start_election_def Let_def by (auto simp: committee_Ok split: if_splits)
  have "co_max_members c \<le> 15" using councils_okD(1) [OF c(1) assms(2)] by (simp add: committee_ok_def seats_ok_def)
  with c assms(2) show ?thesis by (auto simp: election_ok_def intro!: put_election_keeps)
qed

lemma nominate_keeps:
  assumes "nominate_for_committee ev i a b g = (Ok e, g')" "councils_ok g"
  shows "councils_ok g'"
proof -
  from assms(1) obtain e0 where e0: "get_election g i = Ok e0" "g' = put_election i (Some e) g"
    "e = e0 \<or> a \<notin> set (el_candidates e0) \<and> e = e0\<lparr>el_candidates := el_candidates e0 @ [a]\<rparr>"
    unfolding nominate_for_committee_def Let_def by (auto simp: committee_Ok split: if_splits)
  have "election_ok e" using councils_okD(2) [OF e0(1) assms(2)] e0(3) by (fastforce simp: election_ok_def)
  then show ?thesis using assms(2) by (auto simp: e0(2) intro!: put_election_keeps)
qed

lemma sset_range: "snd ` set (sset k v m) \<subseteq> insert v (snd ` set m)"
  by (induction k v m rule: sset.induct) auto

lemma vote_in_election_keeps:
  assumes "vote_in_election ev i a b g = (Ok e, g')" "councils_ok g"
  shows "councils_ok g'"
proof -
  from assms(1) obtain e0 where e0: "get_election g i = Ok e0" "g' = put_election i (Some e) g" "b \<in> set (el_candidates e0)"
    "e = e0\<lparr>el_votes := sset a b (el_votes e0)\<rparr>"
    unfolding vote_in_election_def Let_def by (auto simp: committee_Ok split: if_splits)
  have "election_ok e"
    using councils_okD(2) [OF e0(1) assms(2)] e0(3) sset_range [of a b "el_votes e0"] by (auto simp: e0(4) election_ok_def)
  then show ?thesis using assms(2) by (auto simp: e0(2) intro!: put_election_keeps)
qed

lemma finalize_election_Ok:
  assumes "finalize_election ev i g = (Ok r, g')" "councils_ok g"
  shows "\<exists>e t. get_election g i = Ok e \<and> election_ok e \<and> el_election_end e \<le> ev_timestamp ev \<and> tally_election_votes g e = Ok t \<and>
    (if er_status r = ElectionSucceeded
     then er_winners r = elected g e \<and> 3 \<le> length (elected g e) \<and>
       (\<exists>c. get_committee g i = Ok c \<and>
          g' = put_election i None (put_committee i (c\<lparr>co_members := elected g e, co_chair := hd (elected g e)\<rparr>) g)) \<and>
       (el_min_participation e \<le> ty_valid t \<or> el_min_participation e = 0) \<and>
       (el_quorum_stake_threshold e \<le> stake_cast g e \<or> el_quorum_stake_threshold e \<le> 0)
     else er_winners r = [] \<and> g' = put_election i None g)"
proof -
  from assms(1) obtain e t where e: "get_election g i = Ok e" "tally_election_votes g e = Ok t" "el_election_end e \<le> ev_timestamp ev"
    unfolding finalize_election_def Let_def by (auto simp: committee_Ok split: if_splits)
  have ok: "election_ok e" using councils_okD(2) [OF e(1) assms(2)] .
  then have w: "select_election_winners e (ty_candidate_votes t) = elected g e"
    by (intro winners_elected [OF e(2)]) (simp add: election_ok_def)
  show ?thesis
    using assms(1) e ok w tally_Ok(2) [OF e(2)]
    unfolding finalize_election_def Let_def
    by (intro exI [of _ e] exI [of _ t]) (auto simp: committee_Ok election_result_def split: if_splits)
qed

lemma finalize_election_keeps:
  assumes "finalize_election ev i g = (Ok r, g')" "councils_ok g"
  shows "councils_ok g'"
proof -
  from finalize_election_Ok [OF assms] obtain e where e: "get_election g i = Ok e" "election_ok e"
    and g': "g' = put_election i None g \<or> 3 \<le> length (elected g e) \<and> (\<exists>c. get_committee g i = Ok c \<and>
      g' = put_election i None (put_committee i (c\<lparr>co_members := elected g e, co_chair := hd (elected g e)\<rparr>) g))"
    by (metis (full_types))
  from g' show ?thesis
  proof
    assume "g' = put_election i None g"
    with assms(2) show ?thesis by (auto intro!: put_election_keeps)
  next
    assume "3 \<le> length (elected g e) \<and> (\<exists>c. get_committee g i = Ok c \<and>
      g' = put_election i None (put_committee i (c\<lparr>co_members := elected g e, co_chair := hd (elected g e)\<rparr>) g))"
    then obtain c where len: "3 \<le> length (elected g e)" and c: "get_committee g i = Ok c"
      "g' = put_election i None (put_committee i (c\<lparr>co_members := elected g e, co_chair := hd (elected g e)\<rparr>) g)" by blast
    have "hd (elected g e) \<in> set (elected g e)" using len by (intro hd_in_set) auto
    moreover have "length (elected g e) \<le> 15" "distinct (elected g e)"
      using e(2) by (auto simp: elected_length election_ok_def elected_distinct)
    ultimately show ?thesis
      using councils_okD(1) [OF c(1) assms(2)] assms(2)
      by (auto simp: c(2) intro!: put_election_keeps put_committee_keeps committee_ok_parts)
  qed
qed

lemma rating_keeps: "set_community_approval_rating i r g = (Ok c, g') \<Longrightarrow> councils_ok g \<Longrightarrow> councils_ok g'"
  by (auto simp: set_community_approval_rating_def committee_Ok Let_def split: if_splits
      intro!: put_committee_keeps committee_ok_parts dest: councils_okD)

lemma dissolve_keeps: "dissolve_committee ev i g = (Ok c, g') \<Longrightarrow> councils_ok g \<Longrightarrow> councils_ok g'"
  by (auto simp: dissolve_committee_def committee_Ok Let_def split: if_splits
      intro!: put_election_keeps put_committee_keeps committee_ok_parts dest: councils_okD)

section \<open>Requests across committees\<close>

lemma request_keeps:
  assumes "request_cross_committee_approval ev i a js s g = (Ok r, g')" "councils_ok g"
  shows "councils_ok g'"
proof -
  have "request_ok r" "g' = g\<lparr>g_committees := (g_committees g)\<lparr>cs_cross_committee_requests :=
      (cs_cross_committee_requests (g_committees g))(cs_next_cross_req_id (g_committees g) \<mapsto> r),
      cs_next_cross_req_id := u64_sat_add (cs_next_cross_req_id (g_committees g)) 1\<rparr>\<rparr>"
    using assms(1) unfolding request_cross_committee_approval_def Let_def
    by (auto simp: committee_Ok request_ok_def split: if_splits)
  with assms(2) show ?thesis by (simp add: councils_ok_def)
qed

lemma approve_request_Ok:
  assumes "approve_cross_committee_request i j a k g = (Ok r, g')"
  shows "\<exists>q c n. get_cross_committee_request g i = Ok q \<and> xr_status q = CrossPending \<and> j \<in> set (xr_approving_committees q) \<and>
    sget (xr_approvals q) j = None \<and> get_committee g j = Ok c \<and> a \<in> set (co_members c) \<and>
    find_decision_index (co_decisions c) k = Ok n \<and> cd_status (co_decisions c ! n) \<in> {DecApproved, DecExecuted} \<and>
    r = record_approval j k q \<and>
    g' = g\<lparr>g_committees := (g_committees g)\<lparr>cs_cross_committee_requests := (cs_cross_committee_requests (g_committees g))(i \<mapsto> r)\<rparr>\<rparr>"
  using assms unfolding approve_cross_committee_request_def Let_def
  by (auto simp: committee_Ok split: if_splits)

lemma record_approval_ok:
  assumes "request_ok q" "xr_status q = CrossPending" "j \<in> set (xr_approving_committees q)"
  shows "request_ok (record_approval j k q)"
  using assms by (auto simp: request_ok_def record_approval_def Let_def keys_sset)

lemma approve_keeps:
  assumes "approve_cross_committee_request i j a k g = (Ok r, g')" "councils_ok g"
  shows "councils_ok g'"
proof -
  from approve_request_Ok [OF assms(1)] obtain q where q: "get_cross_committee_request g i = Ok q" "xr_status q = CrossPending"
      "j \<in> set (xr_approving_committees q)" "r = record_approval j k q"
    and g': "g' = g\<lparr>g_committees := (g_committees g)\<lparr>cs_cross_committee_requests := (cs_cross_committee_requests (g_committees g))(i \<mapsto> r)\<rparr>\<rparr>"
    by blast
  have "request_ok r" unfolding q(4) by (rule record_approval_ok [OF councils_okD(3) [OF q(1) assms(2)] q(2,3)])
  with assms(2) show ?thesis by (simp add: g' put_request_keeps)
qed

section \<open>Along every history\<close>

lemma commit_committee:
  assumes "councils_ok g" "\<And>v g'. m = (Ok v, g') \<Longrightarrow> councils_ok g'"
  shows "councils_ok (snd (commit g m))"
  by (rule commit_inv [of councils_ok]) (use assms in auto)

lemma execute_admin_action_committees: "execute_admin_action ev i a g = (r, h) \<Longrightarrow> g_committees h = g_committees g"
proof -
  have "councils_same K g \<Longrightarrow> councils_same K (snd (execute_admin_action ev i a g))" for K
    by (auto simp: execute_admin_action_def put_entry_def Let_def intro!: councils_same_keep)
  from this [of "g_committees g"] show "execute_admin_action ev i a g = (r, h) \<Longrightarrow> ?thesis" by (simp add: councils_same_def)
qed

lemmas committee_keeps =
  create_committee_keeps propose_decision_keeps vote_on_decision_keeps execute_decision_keeps override_decision_keeps
  start_election_keeps nominate_keeps vote_in_election_keeps finalize_election_keeps rating_keeps dissolve_keeps
  request_keeps approve_keeps

lemma timelocked_keeps:
  assumes "timelocked ev a i k g = (Ok v, g')" "councils_ok g" "\<And>h. k h = (Ok v, g') \<Longrightarrow> councils_ok h \<Longrightarrow> councils_ok g'"
  shows "councils_ok g'"
  using assms councils_ok_local [OF execute_admin_action_committees assms(2)] by (auto simp: committee_Ok)

lemma committee_call_keeps:
  assumes "councils_ok g"
  shows "councils_ok (committee_call ev p g)"
  using assms
  by (cases p; simp only: committee_call.simps committee_entry_defs; intro commit_committee)
    (auto simp: initialized_def direct_def guard_Ok elim!: timelocked_keeps intro: committee_keeps)

interpretation councils: council_invariant councils_ok
proof
  show "g_committees g' = g_committees g \<Longrightarrow> g_conviction g' = g_conviction g \<Longrightarrow> councils_ok g \<Longrightarrow> councils_ok g'" for g g'
    by (simp add: councils_ok_def)
  show "g_committees g = empty_committees_state \<Longrightarrow> councils_ok g" for g
    by (simp add: councils_ok_def empty_committees_state_def)
  show "councils_ok g \<Longrightarrow> councils_ok (conviction_call ev v g)" for ev v g by (simp add: councils_ok_def)
qed (rule committee_call_keeps)

end
