(* ===== verification/CommitteeRules.thy ===== *)
theory CommitteeRules
  imports CommitteeSafety TreasuryBooks
begin

text \<open>
  What the governance contract promises of its committees, stated of the entry points and of every
  history, with examples.
\<close>

section \<open>Seats and books\<close>

lemma decision_ok_books:
  assumes "decision_ok d"
  shows "distinct (map fst (cd_votes d)) \<and>
       cd_votes_for d = min u32_max (votes_counted ComFor d) \<and> cd_votes_against d = min u32_max (votes_counted ComAgainst d) \<and>
       (cd_status d \<in> {DecApproved, DecExecuted} \<longrightarrow> 0 < votes_counted ComFor d) \<and>
       (cd_executed_at d \<noteq> None \<longrightarrow> cd_status d \<in> {DecExecuted, DecOverridden})"
  using assms unfolding decision_ok_def by (auto simp: swf_distinct)

text \<open>
  (C23) (C) Along every history from a state without committees: the members of a committee are distinct, at most
  15 and the chair is one of them; its delegated authorities are well-formed; the metrics count its
  decisions, the executed and the overridden ones; and the tallies of a decision are its recorded
  ballots, one per account, with at least one ballot in favour of a decision that was approved.
\<close>

theorem committees_sound:
  assumes "g_committees g0 = empty_committees_state"
    and "cs_committees (g_committees (fold gov_step ops g0)) i = Some c"
  shows "distinct (co_members c) \<and> co_chair c \<in> set (co_members c) \<and> length (co_members c) \<le> 15 \<and>
    list_all authority_valid (co_delegated_authorities c) \<and>
    pm_total_decisions (co_performance_metrics c) = min u32_max (length (co_decisions c)) \<and>
    pm_decisions_executed (co_performance_metrics c) = min u32_max (length (filter (\<lambda>d. cd_executed_at d \<noteq> None) (co_decisions c))) \<and>
    pm_overridden_decisions (co_performance_metrics c) = min u32_max (length (filter (\<lambda>d. cd_status d = DecOverridden) (co_decisions c))) \<and>
    (\<forall>d \<in> set (co_decisions c). distinct (map fst (cd_votes d)) \<and>
       cd_votes_for d = min u32_max (votes_counted ComFor d) \<and> cd_votes_against d = min u32_max (votes_counted ComAgainst d) \<and>
       (cd_status d \<in> {DecApproved, DecExecuted} \<longrightarrow> 0 < votes_counted ComFor d) \<and>
       (cd_executed_at d \<noteq> None \<longrightarrow> cd_status d \<in> {DecExecuted, DecOverridden}))"
proof -
  have "councils_ok g0" using assms(1) by (simp add: councils_ok_def empty_committees_state_def)
  then have "councils_ok (fold gov_step ops g0)" by (rule councils.gov_run_inv)
  with assms(2) have c: "committee_ok c" by (simp add: councils_ok_def)
  have "executed_once = (\<lambda>d. cd_executed_at d \<noteq> None)" by (simp add: fun_eq_iff executed_once_def)
  with c show ?thesis
    unfolding committee_ok_def seats_ok_def metrics_ok_def by (auto dest: decision_ok_books)
qed

section \<open>Elections\<close>

text \<open>
  (C24) (C) A successful election, finalised by the admin after its end, seats exactly the candidates with the most
  stake behind them, ties in the order of nomination: the front of the candidates sorted by stake. They
  are distinct, at least three and no more than the positions, nobody left out has more stake than a
  winner, the first of them becomes the chair and the election is closed.
\<close>

theorem election_elects_top:
  assumes "g_committees g0 = empty_committees_state" and "g = fold gov_step ops g0"
    and "finalize_committee_election ev a i g = (Ok r, g')" "er_status r = ElectionSucceeded"
  shows "\<exists>e c. get_election g i = Ok e \<and> el_election_end e \<le> ev_timestamp ev \<and> ev_auth ev a \<and> g_admin g = Some a \<and>
    er_winners r = take (el_positions_available e) (sort_key (\<lambda>c. - stake_for g e c) (el_candidates e)) \<and>
    distinct (er_winners r) \<and> 3 \<le> length (er_winners r) \<and> length (er_winners r) \<le> el_positions_available e \<and>
    (\<forall>x \<in> set (er_winners r). \<forall>y \<in> set (el_candidates e) - set (er_winners r). stake_for g e y \<le> stake_for g e x) \<and>
    el_quorum_stake_threshold e \<le> max 0 (stake_cast g e) \<and>
    get_committee g' i = Ok c \<and> co_members c = er_winners r \<and> co_chair c = hd (er_winners r) \<and>
    cs_elections (g_committees g') i = None"
proof -
  have "councils_ok g0" using assms(1) by (simp add: councils_ok_def empty_committees_state_def)
  then have ok: "councils_ok g" unfolding assms(2) by (rule councils.gov_run_inv)
  from assms(3) have adm: "ev_auth ev a" "g_admin g = Some a" and fin: "finalize_election ev i g = (Ok r, g')"
    by (auto simp: finalize_committee_election_def guard_Ok guards_Ok)
  from finalize_election_Ok [OF fin ok] assms(4) obtain e c where e: "get_election g i = Ok e" "election_ok e" "el_election_end e \<le> ev_timestamp ev"
    and w: "er_winners r = elected g e" "3 \<le> length (elected g e)"
    and q: "el_quorum_stake_threshold e \<le> stake_cast g e \<or> el_quorum_stake_threshold e \<le> 0"
    and g': "g' = put_election i None (put_committee i (c\<lparr>co_members := elected g e, co_chair := hd (elected g e)\<rparr>) g)"
    by auto
  have "distinct (elected g e)" using e(2) by (intro elected_distinct) (simp add: election_ok_def)
  moreover have "length (elected g e) \<le> el_positions_available e" by (simp add: elected_length)
  moreover have "\<forall>x \<in> set (elected g e). \<forall>y \<in> set (el_candidates e) - set (elected g e). stake_for g e y \<le> stake_for g e x"
    using elected_most by blast
  moreover have "get_committee g' i = Ok (c\<lparr>co_members := elected g e, co_chair := hd (elected g e)\<rparr>)"
    by (simp add: g' put_election_def put_committee_def get_committee_def ok_or.simps)
  moreover have "cs_elections (g_committees g') i = None" by (simp add: g' put_election_def put_committee_def)
  ultimately show ?thesis
    using e(1,3) adm w q
    by (intro exI [of _ e] exI [of _ "c\<lparr>co_members := elected g e, co_chair := hd (elected g e)\<rparr>"]) (auto simp: elected_def)
qed

section \<open>Spending\<close>

lemma verify_authorities_Ok:
  assumes "verify_authorities g x as = Ok ()"
  shows "\<exists>a \<in> set as. authority_verdict g x a = Some (Ok ())"
  using assms by (induction as) (auto split: option.splits)

definition spends :: "CommitteeAction \<Rightarrow> SpendAction \<Rightarrow> bool" where
  "spends x s \<longleftrightarrow> x = ActionTreasurySpend s \<or> x = ActionGrantApproval s"

lemma spends_executed:
  assumes "spends x s" "execute_decision_action x now g = (Ok (), h)"
  shows "\<exists>sp t. execute_spend (sa_recipient s) (sa_amount s) (sa_asset s) (sa_category s) (sa_purpose s) None now (g_treasury_state g) =
      (Ok sp, t) \<and> h = g\<lparr>g_treasury_state := t\<rparr>"
  using assms by (auto simp: spends_def committee_spend_def and_then_Ok on_treasury_Ok)

text \<open>
  (C25) (C) An executed decision that spends was approved, is executed by a member who signed, while the committee
  is active and its term runs; the amount is positive and within an authority of the committee for that
  kind of spending, within the approval of the budget category and covered by the treasury, from which
  exactly it is taken. The spend window of the treasury is neither consulted nor charged.
\<close>

theorem committee_spends_within_authority:
  assumes "execute_committee_decision ev i k a g = (Ok d, g')" "spends (cd_action d) s"
  shows "\<exists>c n ap. ev_auth ev a \<and> get_committee g i = Ok c \<and> (a = co_chair c \<or> a \<in> set (co_members c)) \<and> co_active c \<and>
    (\<forall>t. co_term_end c = Some t \<longrightarrow> ev_timestamp ev < t) \<and>
    find_decision_index (co_decisions c) k = Ok n \<and> cd_status (co_decisions c ! n) = DecApproved \<and>
    (\<exists>au \<in> set (co_delegated_authorities c). case au of
        AuthTreasurySpend m cat \<Rightarrow> cd_action d = ActionTreasurySpend s \<and> sa_amount s \<le> m \<and> sa_category s = cat
      | AuthGrantApproval m \<Rightarrow> cd_action d = ActionGrantApproval s \<and> sa_amount s \<le> m | _ \<Rightarrow> False) \<and>
    0 < sa_amount s \<and> tr_approved (g_treasury_state g) (sa_category s) = Some ap \<and>
    ba_total_drawn ap + sa_amount s \<le> ba_approved_cap ap \<and> sa_amount s \<le> balance_of (g_treasury_state g) (sa_asset s) \<and>
    balance_of (g_treasury_state g') (sa_asset s) = balance_of (g_treasury_state g) (sa_asset s) - sa_amount s \<and>
    g_window_state g' = g_window_state g"
proof -
  from assms(1) have sig: "ev_auth ev a" and ex: "execute_decision ev i k a g = (Ok d, g')"
    by (auto simp: execute_committee_decision_def committee_Ok)
  from execute_decision_Ok [OF ex] obtain c n h m where c: "get_committee g i = Ok c" "ensure_committee_active c (ev_timestamp ev) = Ok ()"
      "a = co_chair c \<or> a \<in> set (co_members c)"
    and n: "find_decision_index (co_decisions c) k = Ok n" "cd_status (co_decisions c ! n) = DecApproved"
    and au: "verify_committee_authority g c (cd_action (co_decisions c ! n)) = Ok ()"
    and h: "execute_decision_action (cd_action (co_decisions c ! n)) (ev_timestamp ev) g = (Ok (), h)"
    and d: "d = (co_decisions c ! n)\<lparr>cd_status := DecExecuted, cd_executed_at := Some (ev_timestamp ev)\<rparr>"
    and g': "g' = put_committee i ((put_decision n d c)\<lparr>co_performance_metrics := m\<rparr>) h"
    by blast
  have act: "cd_action (co_decisions c ! n) = cd_action d" by (simp add: d)
  from spends_executed [OF assms(2)] h act obtain sp t where sp: "execute_spend (sa_recipient s) (sa_amount s) (sa_asset s) (sa_category s)
      (sa_purpose s) None (ev_timestamp ev) (g_treasury_state g) = (Ok sp, t)" "h = g\<lparr>g_treasury_state := t\<rparr>" by metis
  from execute_spend_Ok [OF sp(1)] obtain b ap where b: "0 < sa_amount s" "tr_approved (g_treasury_state g) (sa_category s) = Some ap"
    "ba_total_drawn ap + sa_amount s \<le> ba_approved_cap ap" "sa_amount s \<le> balance_of (g_treasury_state g) (sa_asset s)"
    "commit_spend (sa_recipient s) (sa_amount s) (sa_asset s) (sa_category s) (sa_purpose s) None (ev_timestamp ev) b ap
      (ba_total_drawn ap + sa_amount s) (g_treasury_state g) = (Ok sp, t)" by metis
  have bal: "balance_of t (sa_asset s) = balance_of (g_treasury_state g) (sa_asset s) - sa_amount s"
    unfolding commit_spend_Ok(4) [OF b(5)] by (simp add: balance_of_def)
  from verify_authorities_Ok [OF au [unfolded verify_committee_authority_def act]] obtain x where
    x: "x \<in> set (co_delegated_authorities c)" "authority_verdict g (cd_action d) x = Some (Ok ())" by blast
  have auth: "case x of AuthTreasurySpend m cat \<Rightarrow> cd_action d = ActionTreasurySpend s \<and> sa_amount s \<le> m \<and> sa_category s = cat
      | AuthGrantApproval m \<Rightarrow> cd_action d = ActionGrantApproval s \<and> sa_amount s \<le> m | _ \<Rightarrow> False"
    using x(2) assms(2) by (cases x) (auto simp: spends_def split: if_splits)
  have active: "co_active c \<and> (\<forall>t. co_term_end c = Some t \<longrightarrow> ev_timestamp ev < t)"
    using c(2) by (auto simp: ensure_committee_active_def split: if_splits)
  have "balance_of (g_treasury_state g') (sa_asset s) = balance_of (g_treasury_state g) (sa_asset s) - sa_amount s"
    "g_window_state g' = g_window_state g"
    by (simp_all add: g' sp(2) put_committee_def bal)
  with sig c n x(1) auth active b(1-4) show ?thesis by blast
qed

section \<open>Requests across committees\<close>

text \<open>
  (C30) (C) Along every history a request across committees is approved only if the list of approving committees
  names nobody twice and every one of them has recorded an approval; so a request whose list repeats a
  committee, which is accepted, is never approved.
\<close>

theorem cross_approval_complete:
  assumes "g_committees g0 = empty_committees_state"
    and "cs_cross_committee_requests (g_committees (fold gov_step ops g0)) i = Some r" "xr_status r = CrossApproved"
  shows "distinct (xr_approving_committees r) \<and> (\<forall>j \<in> set (xr_approving_committees r). sget (xr_approvals r) j \<noteq> None)"
proof -
  let ?as = "xr_approvals r" and ?js = "xr_approving_committees r"
  have "councils_ok g0" using assms(1) by (simp add: councils_ok_def empty_committees_state_def)
  then have "councils_ok (fold gov_step ops g0)" by (rule councils.gov_run_inv)
  with assms(2,3) have r: "swf ?as" "fst ` set ?as \<subseteq> set ?js" "length ?as = length ?js"
    by (auto simp: councils_ok_def request_ok_def)
  have "card (fst ` set ?as) = length ?as" using distinct_card [OF swf_distinct [OF r(1)]] by simp
  moreover have "card (fst ` set ?as) \<le> card (set ?js)" by (rule card_mono [OF _ r(2)]) simp
  ultimately have len: "card (set ?js) = length ?js" using r(3) card_length [of ?js] by linarith
  then have "fst ` set ?as = set ?js"
    using card_subset_eq [OF _ r(2)] \<open>card (fst ` set ?as) = length ?as\<close> r(3) by simp
  with len show ?thesis by (auto simp: card_distinct map_of_eq_None_iff)
qed

section \<open>What the rules allow\<close>


text \<open>
  (C) Nobody has to vote: without quorums an election in which no ballot was cast succeeds and seats the
  first nominees, as many as there are positions.
\<close>

theorem election_without_votes:
  assumes "is_initialized (bk_initialized (g_books g))" "g_admin g = Some a" "ev_auth ev a"
    and "get_election g i = Ok e" "get_committee g i = Ok c" "el_election_end e \<le> ev_timestamp ev" "el_votes e = []"
    and "distinct (el_candidates e)" "el_min_participation e = 0" "el_quorum_stake_threshold e \<le> 0"
    and "3 \<le> el_positions_available e" "3 \<le> length (el_candidates e)"
  shows "\<exists>r g'. finalize_committee_election ev a i g = (Ok r, g') \<and> er_status r = ElectionSucceeded \<and> er_valid_votes r = 0 \<and>
    er_winners r = take (el_positions_available e) (el_candidates e)"
proof -
  let ?t = "\<lparr>ty_candidate_votes = (\<lambda>_. None), ty_valid = 0, ty_weight = 0, ty_rejected = 0\<rparr>"
  have t: "tally_election_votes g e = Ok ?t" using assms(7) by (simp add: tally_election_votes_def)
  have zero: "stake_for g e = (\<lambda>_. 0)" using assms(7) by (simp add: stake_for_def fun_eq_iff)
  have id: "sort_key (\<lambda>_. 0 :: int) xs = xs" for xs :: "addr list" by (rule sort_key_id_if_sorted) (induction xs, auto)
  have "select_election_winners e (ty_candidate_votes ?t) = take (el_positions_available e) (el_candidates e)"
    using winners_elected [OF t assms(8)] by (simp add: elected_def zero id)
  then have "finalize_election ev i g = (Ok (election_result ElectionSucceeded (take (el_positions_available e) (el_candidates e)) ?t),
      put_election i None (put_committee i (c\<lparr>co_members := take (el_positions_available e) (el_candidates e),
        co_chair := hd (take (el_positions_available e) (el_candidates e))\<rparr>) g))"
    using assms t by (simp add: finalize_election_def Let_def)
  then show ?thesis
    using assms(1-3) by (simp add: finalize_committee_election_def guard_def require_admin_def require_admin_identity_def
        require_initialized_def signed_def ok_or.simps election_result_def)
qed

section \<open>Examples\<close>

definition rent :: SpendAction where
  "rent = \<lparr>sa_recipient = 7, sa_amount = 150, sa_asset = xlm, sa_category = ''ops'', sa_purpose = ''rent''\<rparr>"

definition example_decision :: "nat \<Rightarrow> nat \<Rightarrow> DecisionStatus \<Rightarrow> (addr, CommitteeVote) smap \<Rightarrow> CommitteeDecision" where
  "example_decision for against st bs = \<lparr>cd_decision_id = 1, cd_proposal = ''rent'', cd_votes_for = for, cd_votes_against = against,
     cd_votes_abstain = 0, cd_status = st, cd_executed_at = None, cd_proposed_at = 11, cd_action = ActionTreasurySpend rent, cd_votes = bs\<rparr>"

definition example_committee :: "CommitteeDecision list \<Rightarrow> Committee" where
  "example_committee ds = \<lparr>co_id = 1, co_name = ''c'', co_description = ''d'', co_members = [3, 5, 7], co_chair = 3, co_max_members = 5,
     co_delegated_authorities = [AuthTreasurySpend 200 ''ops''], co_formation_date = 10, co_term_end = None, co_decisions = ds,
     co_performance_metrics = \<lparr>pm_total_decisions = length ds, pm_decisions_executed = 0, pm_avg_decision_time = 0,
       pm_community_approval_rating = 0, pm_overridden_decisions = 0\<rparr>, co_active = True, co_dissolved_at = None\<rparr>"

definition council_town :: "CommitteeDecision list \<Rightarrow> gov" where
  "council_town ds = example_town\<lparr>g_treasury_state := funded_treasury, g_committees :=
     \<lparr>cs_committees = [1 \<mapsto> example_committee ds], cs_committee_ids = [1], cs_elections = (\<lambda>_. None),
      cs_cross_committee_requests = (\<lambda>_. None), cs_next_committee_id = 2, cs_next_decision_id = 1 + length ds, cs_next_cross_req_id = 1\<rparr>\<rparr>"

definition treasury_town :: gov where
  "treasury_town = example_town\<lparr>g_treasury_state := funded_treasury\<rparr>"

lemma treasury_town_simps:
  "is_initialized (bk_initialized (g_books treasury_town))" "g_admin treasury_town = Some 1"
  "g_committees treasury_town = empty_committees_state" "g_enforce_timelock treasury_town = None"
  "g_treasury_state treasury_town = funded_treasury"
  by (simp_all add: treasury_town_def example_town_def deployed_def is_initialized_def)

lemma council_town_simps:
  "is_initialized (bk_initialized (g_books (council_town ds)))" "g_admin (council_town ds) = Some 1"
  "cs_committees (g_committees (council_town ds)) 1 = Some (example_committee ds)" "g_treasury_state (council_town ds) = funded_treasury"
  "cs_next_decision_id (g_committees (council_town ds)) = 1 + length ds"
  by (simp_all add: council_town_def example_town_def deployed_def is_initialized_def)

lemma env_simps [simp]: "ev_auth (example_env n) a" "ev_timestamp (example_env n) = n"
  by (simp_all add: example_env_def)

lemmas committee_reads =
  initialized_def direct_def guard_def require_initialized_def require_admin_def require_admin_identity_def require_no_timelock_bypass_def
  admin_timelock_enforced_def signed_def ok_or.simps get_committee_def put_committee_def get_election_def put_election_def Let_def

definition council_run :: "(env \<times> gov_op) list" where
  "council_run =
     [(example_env 10, OnCommittees (CreateCommittee 1 ''c'' ''d'' [3, 5, 7] 3 5 [AuthTreasurySpend 200 ''ops''] None)),
      (example_env 11, OnCommittees (ProposeDecision 1 3 ''rent'' (ActionTreasurySpend rent))),
      (example_env 12, OnCommittees (VoteOnDecision 1 1 3 ComFor)),
      (example_env 13, OnCommittees (VoteOnDecision 1 1 7 ComFor))]"

lemma formed: "gov_step (example_env 10, OnCommittees (CreateCommittee 1 ''c'' ''d'' [3, 5, 7] 3 5 [AuthTreasurySpend 200 ''ops''] None)) treasury_town =
  council_town []"
  using treasury_town_simps(1-4)
  by (simp add: create_committee_entry_def create_committee_def committee_reads validate_authorities_def empty_committees_state_def
      u64_sat_add_def u64_max_def council_town_def example_committee_def treasury_town_def)

lemma proposed: "gov_step (example_env 11, OnCommittees (ProposeDecision 1 3 ''rent'' (ActionTreasurySpend rent))) (council_town []) =
  council_town [example_decision 0 0 DecVoting []]"
  using council_town_simps(1,3) [of "[]"]
  by (simp add: propose_committee_decision_def propose_decision_def committee_reads ensure_committee_active_def example_committee_def
      u64_sat_add_def u64_max_def u32_sat_add_def u32_max_def council_town_def example_decision_def)

lemma vote_step:
  assumes "a \<in> {3, 5, 7}" "cd_status d = DecVoting" "sget (cd_votes d) a = None" "cd_decision_id d = 1"
  shows "gov_step (example_env t, OnCommittees (VoteOnDecision 1 1 a v)) (council_town [d]) = council_town [decide 3 (count_vote a v d)]"
proof -
  let ?d = "decide 3 (count_vote a v d)"
  have c: "co_decisions (example_committee [d]) = [d]" "co_members (example_committee [d]) = [3, 5, 7]"
    "put_decision 0 ?d (example_committee [d]) = example_committee [?d]"
    by (simp_all add: example_committee_def put_decision_def)
  have m: "a \<in> set (co_members (example_committee [d]))" "length (co_members (example_committee [d])) = 3"
    using assms(1) by (auto simp: c(2))
  have g: "put_committee 1 (example_committee [?d]) (council_town [d]) = council_town [?d]"
    by (simp add: put_committee_def council_town_def)
  have "find_decision_index [d] 1 = Ok 0" using assms(4) by simp
  then have "vote_on_decision 1 1 a v (council_town [d]) = (Ok ?d, council_town [?d])"
    using council_town_simps(3) [of "[d]"] c(1,3) m g assms(2,3)
    by (simp add: vote_on_decision_def get_committee_def ok_or.simps Let_def del: find_decision_index.simps)
  then show ?thesis
    using council_town_simps(1) [of "[d]"]
    by (simp add: vote_on_committee_decision_def initialized_def guard_def require_initialized_def signed_def)
qed

lemma council_run_eq: "fold gov_step council_run treasury_town = council_town [example_decision 2 0 DecApproved [(3, ComFor), (7, ComFor)]]"
proof -
  have one: "decide 3 (count_vote 3 ComFor (example_decision 0 0 DecVoting [])) = example_decision 1 0 DecVoting [(3, ComFor)]"
    "decide 3 (count_vote 7 ComFor (example_decision 1 0 DecVoting [(3, ComFor)])) = example_decision 2 0 DecApproved [(3, ComFor), (7, ComFor)]"
    by (simp_all add: decide_def count_vote_def Let_def u32_sat_add_def u32_max_def example_decision_def)
  have "gov_step (example_env 12, OnCommittees (VoteOnDecision 1 1 3 ComFor)) (council_town [example_decision 0 0 DecVoting []]) =
      council_town [example_decision 1 0 DecVoting [(3, ComFor)]]"
    unfolding one(1) [symmetric] by (rule vote_step) (simp_all add: example_decision_def)
  moreover have "gov_step (example_env 13, OnCommittees (VoteOnDecision 1 1 7 ComFor)) (council_town [example_decision 1 0 DecVoting [(3, ComFor)]]) =
      council_town [example_decision 2 0 DecApproved [(3, ComFor), (7, ComFor)]]"
    unfolding one(2) [symmetric] by (rule vote_step) (simp_all add: example_decision_def)
  ultimately show ?thesis unfolding council_run_def fold_simps formed proposed by simp
qed

theorem committees_sound_witness:
  "\<exists>c. cs_committees (g_committees (fold gov_step council_run treasury_town)) 1 = Some c \<and> distinct (co_members c) \<and>
     pm_total_decisions (co_performance_metrics c) = 1 \<and> (\<forall>d \<in> set (co_decisions c). 0 < votes_counted ComFor d)"
  using committees_sound [of treasury_town council_run 1 "example_committee [example_decision 2 0 DecApproved [(3, ComFor), (7, ComFor)]]"]
    treasury_town_simps(3) council_town_simps(3) [of "[example_decision 2 0 DecApproved [(3, ComFor), (7, ComFor)]]"]
  by (auto simp: council_run_eq example_committee_def example_decision_def)

definition approved_rent :: CommitteeDecision where
  "approved_rent = example_decision 2 0 DecApproved [(3, ComFor), (7, ComFor)]"

lemma rent_committed:
  assumes "bu_spent b = 0" "bu_remaining b = 500" "tr_assets t xlm = Some 1000"
  shows "\<exists>sp t'. commit_spend 7 150 xlm ''ops'' ''rent'' None 14 b ap 150 t = (Ok sp, t')"
  using assms
  by (simp add: commit_spend_def balance_of_def gadd_def gsub_def checked_add_def checked_sub_def in_i128_def i128_min_def
      i128_max_def ok_or.simps Let_def)

lemma rent_spent: "\<exists>sp t. execute_spend 7 150 xlm ''ops'' ''rent'' None 14 funded_treasury = (Ok sp, t)"
proof -
  let ?b = "\<lparr>bu_category = ''ops'', bu_allocated = 500, bu_spent = 0, bu_remaining = 500,
      bu_spend_limit = 200, bu_period_start = 0, bu_period_end = 100, bu_auto_renew = True\<rparr>"
  have "renew_budget_if_needed 14 ?b = Ok ?b" by (simp add: renew_budget_if_needed_def)
  moreover have "tr_assets funded_treasury xlm = Some 1000" by (simp add: funded_treasury_eq)
  ultimately show ?thesis
    by (simp add: execute_spend_def funded_treasury_eq(1,2) ok_or.simps balance_of_def rent_committed gadd_def checked_add_def
        in_i128_def i128_min_def i128_max_def)
qed

lemma rent_paid:
  "\<exists>h. execute_decision_action (cd_action approved_rent) 14 (council_town [approved_rent]) = (Ok (), h)"
proof -
  obtain sp t where "execute_spend 7 150 xlm ''ops'' ''rent'' None 14 funded_treasury = (Ok sp, t)" using rent_spent by blast
  then show ?thesis
    using council_town_simps(4) [of "[approved_rent]"]
    by (simp add: approved_rent_def example_decision_def rent_def committee_spend_def on_treasury_def)
qed

lemma rent_allowed: "verify_committee_authority g (example_committee [approved_rent]) (cd_action approved_rent) = Ok ()"
  by (simp add: verify_committee_authority_def example_committee_def approved_rent_def example_decision_def rent_def)

lemma first_average:
  "update_avg_decision_time \<lparr>pm_total_decisions = 1, pm_decisions_executed = 1, pm_avg_decision_time = 0,
     pm_community_approval_rating = 0, pm_overridden_decisions = 0\<rparr> (d\<lparr>cd_proposed_at := 11\<rparr>) 14 =
   Ok \<lparr>pm_total_decisions = 1, pm_decisions_executed = 1, pm_avg_decision_time = 3,
     pm_community_approval_rating = 0, pm_overridden_decisions = 0\<rparr>"
  by (simp add: update_avg_decision_time_def gov_eval)

lemma rent_executed:
  "\<exists>d g'. execute_committee_decision (example_env 14) 1 1 7 (council_town [approved_rent]) = (Ok d, g') \<and> spends (cd_action d) rent"
proof -
  let ?g = "council_town [approved_rent]" and ?c = "example_committee [approved_rent]"
  obtain h where h: "execute_decision_action (cd_action approved_rent) 14 ?g = (Ok (), h)" using rent_paid by blast
  have c: "co_decisions ?c = [approved_rent]" "co_chair ?c = 3" "co_members ?c = [3, 5, 7]" "co_active ?c" "co_term_end ?c = None"
    "co_performance_metrics ?c = \<lparr>pm_total_decisions = 1, pm_decisions_executed = 0, pm_avg_decision_time = 0,
       pm_community_approval_rating = 0, pm_overridden_decisions = 0\<rparr>"
    by (simp_all add: example_committee_def)
  have d: "cd_decision_id approved_rent = 1" "cd_status approved_rent = DecApproved" "spends (cd_action approved_rent) rent"
    "approved_rent = approved_rent\<lparr>cd_proposed_at := 11\<rparr>"
    by (simp_all add: approved_rent_def example_decision_def spends_def)
  let ?d = "approved_rent\<lparr>cd_status := DecExecuted, cd_executed_at := Some 14\<rparr>"
  have avg: "update_avg_decision_time \<lparr>pm_total_decisions = 1, pm_decisions_executed = 1, pm_avg_decision_time = 0,
      pm_community_approval_rating = 0, pm_overridden_decisions = 0\<rparr> ?d 14 = Ok \<lparr>pm_total_decisions = 1, pm_decisions_executed = 1,
      pm_avg_decision_time = 3, pm_community_approval_rating = 0, pm_overridden_decisions = 0\<rparr>"
    using first_average [of ?d] by (simp add: approved_rent_def example_decision_def)
  have one: "u32_sat_add 0 1 = 1" by (simp add: u32_sat_add_def u32_max_def)
  have "\<exists>g'. execute_decision (example_env 14) 1 1 7 ?g = (Ok ?d, g')"
    using council_town_simps(3) [of "[approved_rent]"] c d(1,2) h rent_allowed [of ?g] avg one
    by (simp add: execute_decision_def get_committee_def ok_or.simps ensure_committee_active_def Let_def)
  then show ?thesis
    using council_town_simps(1) [of "[approved_rent]"] d(3)
    by (auto simp: execute_committee_decision_def initialized_def guard_def require_initialized_def signed_def)
qed

theorem committee_spends_within_authority_witness:
  "\<exists>d g'. execute_committee_decision (example_env 14) 1 1 7 (council_town [approved_rent]) = (Ok d, g') \<and>
     balance_of (g_treasury_state g') xlm = 850"
proof -
  obtain d g' where d: "execute_committee_decision (example_env 14) 1 1 7 (council_town [approved_rent]) = (Ok d, g')"
    "spends (cd_action d) rent" using rent_executed by blast
  from committee_spends_within_authority [OF d] d(1) show ?thesis
    using council_town_simps(4) [of "[approved_rent]"] by (auto simp: rent_def funded_treasury_eq balance_of_def)
qed


definition voting_town :: "CommitteeElection \<Rightarrow> gov" where
  "voting_town e = put_election 1 (Some e) (council_town [])"

definition example_election :: "addr list \<Rightarrow> (addr, addr) smap \<Rightarrow> CommitteeElection" where
  "example_election cs bs = \<lparr>el_committee_id = 1, el_candidates = cs, el_votes = bs, el_election_start = 20, el_election_end = 86420,
     el_positions_available = 3, el_min_participation = 0, el_quorum_stake_threshold = 0\<rparr>"

lemma voting_town_simps:
  "is_initialized (bk_initialized (g_books (voting_town e)))" "g_admin (voting_town e) = Some 1"
  "get_election (voting_town e) 1 = Ok e" "get_committee (voting_town e) 1 = Ok (example_committee [])"
  "put_election 1 (Some e') (voting_town e) = voting_town e'" "get_staked_balance (g_books (voting_town e)) 3 = 200000"
  "get_staked_balance (g_books (voting_town e)) 5 = 40000"
  using council_town_simps(1-3) [of "[]"]
  by (simp_all add: voting_town_def put_election_def get_election_def get_committee_def ok_or.simps get_staked_balance_def sget_or_def
      council_town_def example_town_def)

theorem election_without_votes_witness:
  "\<exists>r g'. finalize_committee_election (example_env 86420) 1 1 (voting_town (example_election [7, 8, 9, 10] [])) = (Ok r, g') \<and>
     er_status r = ElectionSucceeded \<and> er_winners r = [7, 8, 9]"
  using election_without_votes [OF voting_town_simps(1,2) _ voting_town_simps(3,4), of "example_env 86420" "example_election [7, 8, 9, 10] []"]
  by (auto simp: example_election_def)

definition election_run :: "(env \<times> gov_op) list" where
  "election_run =
     [(example_env 10, OnCommittees (CreateCommittee 1 ''c'' ''d'' [3, 5, 7] 3 5 [AuthTreasurySpend 200 ''ops''] None)),
      (example_env 20, OnCommittees (StartElection 1 1 3 1 0 0)),
      (example_env 30, OnCommittees (Nominate 1 7 3)), (example_env 30, OnCommittees (Nominate 1 8 3)),
      (example_env 30, OnCommittees (Nominate 1 9 3)), (example_env 30, OnCommittees (Nominate 1 10 3)),
      (example_env 40, OnCommittees (VoteInElection 1 3 10)), (example_env 40, OnCommittees (VoteInElection 1 5 9))]"

lemma election_started: "gov_step (example_env 20, OnCommittees (StartElection 1 1 3 1 0 0)) (council_town []) = voting_town (example_election [] [])"
  using council_town_simps(1-3) [of "[]"]
  by (simp add: start_committee_election_def start_election_def committee_reads ensure_committee_active_def example_committee_def
      council_town_def voting_town_def example_election_def u64_sat_add_def u64_max_def)

lemma nominated:
  assumes "a \<notin> set cs"
  shows "gov_step (example_env 30, OnCommittees (Nominate 1 a 3)) (voting_town (example_election cs [])) =
    voting_town (example_election (cs @ [a]) [])"
proof -
  let ?e = "example_election cs []"
  have e: "el_candidates ?e = cs" "el_election_end ?e = 86420" "?e\<lparr>el_candidates := cs @ [a]\<rparr> = example_election (cs @ [a]) []"
    by (simp_all add: example_election_def)
  show ?thesis
    using voting_town_simps(1,3,6) [of ?e] voting_town_simps(5) assms e
    by (simp add: nominate_for_committee_entry_def nominate_for_committee_def initialized_def guard_def require_initialized_def signed_def
        Let_def)
qed

lemma balloted:
  assumes "c \<in> set cs" "sget bs a = None" "0 < get_staked_balance (g_books (voting_town (example_election cs bs))) a"
  shows "gov_step (example_env 40, OnCommittees (VoteInElection 1 a c)) (voting_town (example_election cs bs)) =
    voting_town (example_election cs (sset a c bs))"
proof -
  let ?e = "example_election cs bs"
  have e: "el_candidates ?e = cs" "el_votes ?e = bs" "el_election_start ?e = 20" "el_election_end ?e = 86420"
    "?e\<lparr>el_votes := sset a c bs\<rparr> = example_election cs (sset a c bs)"
    by (simp_all add: example_election_def)
  show ?thesis
    using voting_town_simps(1,3) [of ?e] voting_town_simps(5) assms e
    by (simp add: vote_in_committee_election_def vote_in_election_def initialized_def guard_def require_initialized_def signed_def Let_def)
qed

lemma election_run_eq: "fold gov_step election_run treasury_town = voting_town (example_election [7, 8, 9, 10] [(3, 10), (5, 9)])"
proof -
  have n: "gov_step (example_env 30, OnCommittees (Nominate 1 7 3)) (voting_town (example_election [] [])) = voting_town (example_election [7] [])"
    "gov_step (example_env 30, OnCommittees (Nominate 1 8 3)) (voting_town (example_election [7] [])) = voting_town (example_election [7, 8] [])"
    "gov_step (example_env 30, OnCommittees (Nominate 1 9 3)) (voting_town (example_election [7, 8] [])) = voting_town (example_election [7, 8, 9] [])"
    "gov_step (example_env 30, OnCommittees (Nominate 1 10 3)) (voting_town (example_election [7, 8, 9] [])) =
      voting_town (example_election [7, 8, 9, 10] [])"
    using nominated [of 7 "[]"] nominated [of 8 "[7]"] nominated [of 9 "[7, 8]"] nominated [of 10 "[7, 8, 9]"]
    by (simp_all del: gov_step.simps)
  have v: "gov_step (example_env 40, OnCommittees (VoteInElection 1 3 10)) (voting_town (example_election [7, 8, 9, 10] [])) =
      voting_town (example_election [7, 8, 9, 10] [(3, 10)])"
    "gov_step (example_env 40, OnCommittees (VoteInElection 1 5 9)) (voting_town (example_election [7, 8, 9, 10] [(3, 10)])) =
      voting_town (example_election [7, 8, 9, 10] [(3, 10), (5, 9)])"
    using balloted [of 10 "[7, 8, 9, 10]" "[]" 3] balloted [of 9 "[7, 8, 9, 10]" "[(3, 10)]" 5] voting_town_simps(6,7)
    by (simp_all del: gov_step.simps)
  show ?thesis unfolding election_run_def fold_simps formed election_started n v by simp
qed

lemma election_decided:
  "\<exists>g'. finalize_committee_election (example_env 86420) 1 1 (voting_town (example_election [7, 8, 9, 10] [(3, 10), (5, 9)])) =
     (Ok \<lparr>er_status = ElectionSucceeded, er_winners = [10, 9, 7], er_valid_votes = 2, er_total_stake_weight = 240000,
        er_rejected_votes = 0\<rparr>, g')"
proof -
  let ?e = "example_election [7, 8, 9, 10] [(3, 10), (5, 9)]" and ?g = "voting_town (example_election [7, 8, 9, 10] [(3, 10), (5, 9)])"
  have e: "el_candidates ?e = [7, 8, 9, 10]" "el_votes ?e = [(3, 10), (5, 9)]" "el_election_end ?e = 86420" "el_positions_available ?e = 3"
    "el_min_participation ?e = 0" "el_quorum_stake_threshold ?e = 0"
    by (simp_all add: example_election_def)
  let ?t = "\<lparr>ty_candidate_votes = [10 \<mapsto> 200000, 9 \<mapsto> 40000], ty_valid = 2, ty_weight = 240000, ty_rejected = 0\<rparr>"
  have t: "tally_election_votes ?g ?e = Ok ?t"
    using voting_town_simps(6,7) [of ?e] e(1,2)
    by (simp add: tally_election_votes_def tally_ballot_def Let_def gadd_def checked_add_def in_i128_def i128_min_def i128_max_def
        ok_or.simps u32_sat_add_def u32_max_def)
  have w: "select_election_winners ?e (ty_candidate_votes ?t) = [10, 9, 7]"
    unfolding select_election_winners_def e by (simp add: i128_min_def numeral_3_eq_3)
  show ?thesis
    using voting_town_simps(1-4) [of ?e] e t w
    by (simp add: finalize_committee_election_def finalize_election_def guard_def require_admin_def require_admin_identity_def
        require_initialized_def signed_def ok_or.simps election_result_def Let_def)
qed

theorem election_elects_top_witness:
  "\<exists>r g' c. finalize_committee_election (example_env 86420) 1 1 (fold gov_step election_run treasury_town) = (Ok r, g') \<and>
     get_committee g' 1 = Ok c \<and> co_members c = [10, 9, 7] \<and> co_chair c = 10 \<and> length (er_winners r) = 3"
proof -
  obtain g' where f: "finalize_committee_election (example_env 86420) 1 1 (fold gov_step election_run treasury_town) =
      (Ok \<lparr>er_status = ElectionSucceeded, er_winners = [10, 9, 7], er_valid_votes = 2, er_total_stake_weight = 240000,
        er_rejected_votes = 0\<rparr>, g')"
    using election_decided unfolding election_run_eq by blast
  from election_elects_top [OF treasury_town_simps(3) refl f] f show ?thesis by auto
qed

section \<open>An approved request\<close>

definition request_run :: "(env \<times> gov_op) list" where
  "request_run = council_run @
     [(example_env 20, OnCommittees (CreateCommittee 1 ''e'' ''f'' [5, 7] 5 3 [AuthGrantApproval 10] None)),
      (example_env 21, OnCommittees (RequestCross 2 5 [1] ''share'')),
      (example_env 22, OnCommittees (ApproveCross 1 1 3 1))]"

definition second_committee :: Committee where
  "second_committee = (example_committee [])\<lparr>co_id := 2, co_name := ''e'', co_description := ''f'', co_members := [5, 7], co_chair := 5,
     co_max_members := 3, co_delegated_authorities := [AuthGrantApproval 10], co_formation_date := 20\<rparr>"

definition share :: "(nat, nat) smap \<Rightarrow> CrossCommitteeStatus \<Rightarrow> CrossCommitteeRequest" where
  "share as st = \<lparr>xr_id = 1, xr_requesting_committee = 2, xr_approving_committees = [1], xr_proposal = ''share'', xr_approvals = as,
     xr_status = st\<rparr>"

definition two_town :: "(nat \<Rightarrow> CrossCommitteeRequest option) \<Rightarrow> nat \<Rightarrow> gov" where
  "two_town rs n = (council_town [approved_rent])\<lparr>g_committees :=
     \<lparr>cs_committees = [1 \<mapsto> example_committee [approved_rent], 2 \<mapsto> second_committee], cs_committee_ids = [1, 2],
      cs_elections = (\<lambda>_. None), cs_cross_committee_requests = rs, cs_next_committee_id = 3, cs_next_decision_id = 2,
      cs_next_cross_req_id = n\<rparr>\<rparr>"

lemma two_town_simps:
  "is_initialized (bk_initialized (g_books (two_town rs n)))" "get_committee (two_town rs n) 1 = Ok (example_committee [approved_rent])"
  "get_committee (two_town rs n) 2 = Ok second_committee" "cs_cross_committee_requests (g_committees (two_town rs n)) = rs"
  "cs_next_cross_req_id (g_committees (two_town rs n)) = n" "cs_committees (g_committees (two_town rs n)) 1 \<noteq> None"
  using council_town_simps(1) [of "[approved_rent]"] by (simp_all add: two_town_def get_committee_def ok_or.simps)

lemma second_formed:
  "gov_step (example_env 20, OnCommittees (CreateCommittee 1 ''e'' ''f'' [5, 7] 5 3 [AuthGrantApproval 10] None)) (council_town [approved_rent]) =
   two_town (\<lambda>_. None) 1"
proof -
  have "g_enforce_timelock (council_town [approved_rent]) = None" by (simp add: council_town_def example_town_def deployed_def)
  moreover have "g_committees (council_town [approved_rent]) = \<lparr>cs_committees = [1 \<mapsto> example_committee [approved_rent]],
      cs_committee_ids = [1], cs_elections = (\<lambda>_. None), cs_cross_committee_requests = (\<lambda>_. None), cs_next_committee_id = 2,
      cs_next_decision_id = 2, cs_next_cross_req_id = 1\<rparr>"
    by (simp add: council_town_def)
  ultimately show ?thesis
    using council_town_simps(1,2) [of "[approved_rent]"]
    by (simp add: create_committee_entry_def create_committee_def committee_reads validate_authorities_def u64_sat_add_def u64_max_def
        two_town_def second_committee_def example_committee_def [of "[]"])
qed

lemma share_requested:
  "gov_step (example_env 21, OnCommittees (RequestCross 2 5 [1] ''share'')) (two_town (\<lambda>_. None) 1) = two_town [1 \<mapsto> share [] CrossPending] 2"
proof -
  have c: "5 \<in> set (co_members second_committee)" "co_active second_committee" "co_term_end second_committee = None"
    by (simp_all add: second_committee_def example_committee_def)
  show ?thesis
    using two_town_simps [of "\<lambda>_. None" 1] c
    by (simp add: request_cross_committee_approval_entry_def request_cross_committee_approval_def initialized_def guard_def
        require_initialized_def signed_def Let_def ensure_committee_active_def u64_sat_add_def u64_max_def)
      (simp add: two_town_def share_def)
qed

lemma share_approved:
  "gov_step (example_env 22, OnCommittees (ApproveCross 1 1 3 1)) (two_town [1 \<mapsto> share [] CrossPending] 2) =
   two_town [1 \<mapsto> share [(1, 1)] CrossApproved] 2"
proof -
  let ?g = "two_town [1 \<mapsto> share [] CrossPending] 2"
  have c: "3 \<in> set (co_members (example_committee [approved_rent]))" "co_decisions (example_committee [approved_rent]) = [approved_rent]"
    "cd_decision_id approved_rent = 1" "cd_status approved_rent = DecApproved"
    by (simp_all add: example_committee_def approved_rent_def example_decision_def)
  have r: "get_cross_committee_request ?g 1 = Ok (share [] CrossPending)" "xr_status (share [] CrossPending) = CrossPending"
    "1 \<in> set (xr_approving_committees (share [] CrossPending))" "xr_approvals (share [] CrossPending) = []"
    "record_approval 1 1 (share [] CrossPending) = share [(1, 1)] CrossApproved"
    by (simp_all add: get_cross_committee_request_def two_town_simps ok_or.simps share_def record_approval_def)
  have "approve_cross_committee_request 1 1 3 1 ?g = (Ok (share [(1, 1)] CrossApproved), two_town [1 \<mapsto> share [(1, 1)] CrossApproved] 2)"
    using two_town_simps(2) [of "[1 \<mapsto> share [] CrossPending]" 2] c r
    by (simp add: approve_cross_committee_request_def Let_def) (simp add: two_town_def)
  then show ?thesis
    using two_town_simps(1) [of "[1 \<mapsto> share [] CrossPending]" 2]
    by (simp add: approve_cross_committee_request_entry_def initialized_def guard_def require_initialized_def signed_def)
qed

theorem cross_approval_complete_witness:
  "\<exists>r. cs_cross_committee_requests (g_committees (fold gov_step request_run treasury_town)) 1 = Some r \<and>
     xr_status r = CrossApproved \<and> (\<forall>j \<in> set (xr_approving_committees r). sget (xr_approvals r) j \<noteq> None)"
proof -
  have run: "fold gov_step request_run treasury_town = two_town [1 \<mapsto> share [(1, 1)] CrossApproved] 2"
    unfolding request_run_def fold_append comp_def council_run_eq fold_simps approved_rent_def [symmetric] second_formed share_requested
      share_approved by simp
  have r: "cs_cross_committee_requests (g_committees (fold gov_step request_run treasury_town)) 1 = Some (share [(1, 1)] CrossApproved)"
    "xr_status (share [(1, 1)] CrossApproved) = CrossApproved"
    by (simp_all add: run two_town_simps(4) share_def)
  from cross_approval_complete [OF treasury_town_simps(3) r] r show ?thesis by blast
qed

end
